(* ===== verification/Prelude.thy ===== *)
theory Prelude
  imports Main "HOL-Library.Word" "HOL-Library.Monad_Syntax"
begin

text \<open>
  Shared vocabulary of the development: machine integers, C memory as byte functions, the
  outcome of a C function as an option, C loops, and the small calculus used to reason about
  them.

  \<^item> An execution that has a defined result is \<open>Some\<close>; \<open>None\<close> is an execution with no
    defined result: a loop that does not return, a null dereference, an access outside an
    object, or a division by zero.
  \<^item> \<open>runs_to m Q\<close> says that \<open>m\<close> has a defined result and that it satisfies \<open>Q\<close>;
    \<open>if_runs m Q\<close> says that its result, if it has one, satisfies \<open>Q\<close>.
  \<^item> \<open>do_while\<close> and \<open>while_do\<close> are the two loops of C; \<open>foldM\<close> is a counted \<open>for\<close>.
\<close>

unbundle bit_operations_syntax

type_synonym u8 = "8 word"
type_synonym u16 = "16 word"
type_synonym u32 = "32 word"
type_synonym u64 = "64 word"

named_theorems ok_rules \<open>total-correctness rules of the operations, for \<open>runs_to\<close>\<close>
named_theorems frame_rules \<open>fields an operation leaves alone, for \<open>if_runs\<close>\<close>

section \<open>Outcomes\<close>

definition chk :: "bool \<Rightarrow> unit option" where
  "chk b = (if b then Some () else None)"

definition runs_to :: "'a option \<Rightarrow> ('a \<Rightarrow> bool) \<Rightarrow> bool" where
  "runs_to m Q = (case m of None \<Rightarrow> False | Some x \<Rightarrow> Q x)"

definition if_runs :: "'a option \<Rightarrow> ('a \<Rightarrow> bool) \<Rightarrow> bool" where
  "if_runs m Q = (case m of None \<Rightarrow> True | Some x \<Rightarrow> Q x)"

lemma chk_eq_Some [simp]: "chk b = Some u \<longleftrightarrow> b"
  by (simp add: chk_def)

lemma chk_True [simp]: "chk True = Some ()"
  by (simp add: chk_def)

lemma chk_False [simp]: "chk False = None"
  by (simp add: chk_def)

lemma runs_to_simps [simp]:
  "runs_to None Q = False"
  "runs_to (Some x) Q = Q x"
  "runs_to (Option.bind m f) Q = runs_to m (\<lambda>x. runs_to (f x) Q)"
  "runs_to (chk b) R = (b \<and> R ())"
  by (cases m; simp add: runs_to_def chk_def)+

lemma if_runs_simps [simp]:
  "if_runs None Q = True"
  "if_runs (Some x) Q = Q x"
  "if_runs (Option.bind m f) Q = if_runs m (\<lambda>x. if_runs (f x) Q)"
  "if_runs (chk b) R = (b \<longrightarrow> R ())"
  by (cases m; simp add: if_runs_def chk_def)+

lemma runs_to_if [simp]:
  "runs_to (if b then m else n) Q = (if b then runs_to m Q else runs_to n Q)"
  by simp

lemma if_runs_if [simp]:
  "if_runs (if b then m else n) Q = (if b then if_runs m Q else if_runs n Q)"
  by simp

lemma runs_to_prod [simp]:
  "runs_to (case p of (a, b) \<Rightarrow> f a b) Q = (case p of (a, b) \<Rightarrow> runs_to (f a b) Q)"
  by (simp split: prod.splits)

lemma if_runs_prod [simp]:
  "if_runs (case p of (a, b) \<Rightarrow> f a b) Q = (case p of (a, b) \<Rightarrow> if_runs (f a b) Q)"
  by (simp split: prod.splits)

lemma runs_to_mono: "runs_to m P \<Longrightarrow> (\<And>x. P x \<Longrightarrow> Q x) \<Longrightarrow> runs_to m Q"
  by (cases m) auto

lemma if_runs_mono: "if_runs m P \<Longrightarrow> (\<And>x. P x \<Longrightarrow> Q x) \<Longrightarrow> if_runs m Q"
  by (cases m) auto

lemma runs_to_conj: "runs_to m P \<Longrightarrow> if_runs m Q \<Longrightarrow> runs_to m (\<lambda>x. P x \<and> Q x)"
  by (cases m) auto

lemma if_runs_conj: "if_runs m P \<Longrightarrow> if_runs m Q \<Longrightarrow> if_runs m (\<lambda>x. P x \<and> Q x)"
  by (cases m) auto

lemma runs_to_if_runs: "runs_to m Q \<Longrightarrow> if_runs m Q"
  by (cases m) auto

lemma runs_to_iff: "runs_to m Q \<longleftrightarrow> (\<exists>x. m = Some x \<and> Q x)"
  by (cases m) auto

lemma if_runs_iff: "if_runs m Q \<longleftrightarrow> (\<forall>x. m = Some x \<longrightarrow> Q x)"
  by (cases m) auto

lemma if_runs_True [simp]: "if_runs m (\<lambda>x. True)"
  by (cases m) auto

lemma if_runsD: "if_runs m Q \<Longrightarrow> m = Some x \<Longrightarrow> Q x"
  by simp

section \<open>Loops\<close>

text \<open>\<open>do body while (again)\<close>: the body yields the new state and whether to go round again.\<close>

partial_function (option) do_while :: "('a \<Rightarrow> ('a \<times> bool) option) \<Rightarrow> 'a \<Rightarrow> 'a option" where
  "do_while body a =
     Option.bind (body a) (\<lambda>(a', again). if again then do_while body a' else Some a')"

partial_function (option) while_do :: "('a \<Rightarrow> bool) \<Rightarrow> ('a \<Rightarrow> 'a option) \<Rightarrow> 'a \<Rightarrow> 'a option" where
  "while_do cond body a =
     (if cond a then Option.bind (body a) (\<lambda>a'. while_do cond body a') else Some a)"

primrec foldM :: "('i \<Rightarrow> 's \<Rightarrow> 's option) \<Rightarrow> 'i list \<Rightarrow> 's \<Rightarrow> 's option" where
  "foldM f [] s = Some s"
| "foldM f (i # is) s = Option.bind (f i s) (\<lambda>s'. foldM f is s')"

lemma do_while_total:
  assumes wf: "wf R" and start: "I a"
    and step: "\<And>a. I a \<Longrightarrow> runs_to (body a)
      (\<lambda>(a', again). if again then I a' \<and> (a', a) \<in> R else Q a')"
  shows "runs_to (do_while body a) Q"
  using wf start
proof (induction a rule: wf_induct_rule)
  case (less a)
  from step [OF less.prems] obtain a' again where b: "body a = Some (a', again)"
    and c: "if again then I a' \<and> (a', a) \<in> R else Q a'"
    by (auto simp: runs_to_iff)
  show ?case
    using b c less.IH [of a'] by (cases again) (simp_all add: do_while.simps [of body a])
qed

lemma do_while_partial:
  assumes start: "I a"
    and step: "\<And>a. I a \<Longrightarrow> if_runs (body a) (\<lambda>(a', again). if again then I a' else Q a')"
  shows "if_runs (do_while body a) Q"
proof -
  have "I a \<longrightarrow> Q r" if "do_while body a = Some r" for r
  proof (rule do_while.raw_induct [where P = "\<lambda>b a r. b = body \<longrightarrow> I a \<longrightarrow> Q r", OF _ that,
        simplified])
    fix f :: "('a \<Rightarrow> ('a \<times> bool) option) \<Rightarrow> 'a \<Rightarrow> 'a option" and b a r
    assume ih: "\<And>b a r. f b a = Some r \<Longrightarrow> b = body \<longrightarrow> I a \<longrightarrow> Q r"
      and eq: "Option.bind (b a) (\<lambda>(a', again). if again then f b a' else Some a') = Some r"
    show "b = body \<longrightarrow> I a \<longrightarrow> Q r"
    proof (intro impI)
      assume b: "b = body" and i: "I a"
      from eq obtain p where p: "body a = Some p"
        and pr: "(case p of (a', again) \<Rightarrow> if again then f body a' else Some a') = Some r"
        unfolding b by (cases "body a") auto
      obtain a' again where "p = (a', again)" by (cases p)
      with p pr have ba: "body a = Some (a', again)"
        and r: "(if again then f body a' else Some a') = Some r" by simp_all
      from step [OF i] have "if again then I a' else Q a'" by (simp add: ba)
      with r ih [of body a' r] show "Q r" by (auto split: if_splits)
    qed
  qed
  with start show ?thesis by (auto simp: if_runs_iff)
qed

lemma while_do_total:
  assumes wf: "wf R" and start: "I a"
    and step: "\<And>a. I a \<Longrightarrow> cond a \<Longrightarrow> runs_to (body a) (\<lambda>a'. I a' \<and> (a', a) \<in> R)"
    and fin: "\<And>a. I a \<Longrightarrow> \<not> cond a \<Longrightarrow> Q a"
  shows "runs_to (while_do cond body a) Q"
  using wf start
proof (induction a rule: wf_induct_rule)
  case (less a)
  show ?case
  proof (cases "cond a")
    case True
    from step [OF less.prems True] obtain a' where "body a = Some a'" "I a'" "(a', a) \<in> R"
      by (auto simp: runs_to_iff)
    with True less.IH [of a'] show ?thesis by (simp add: while_do.simps [of cond body a])
  next
    case False
    with fin [OF less.prems] show ?thesis by (simp add: while_do.simps [of cond body a])
  qed
qed

lemma while_do_partial:
  assumes start: "I a"
    and step: "\<And>a. I a \<Longrightarrow> cond a \<Longrightarrow> if_runs (body a) I"
    and fin: "\<And>a. I a \<Longrightarrow> \<not> cond a \<Longrightarrow> Q a"
  shows "if_runs (while_do cond body a) Q"
proof -
  have "I a \<longrightarrow> Q r" if "while_do cond body a = Some r" for r
  proof (rule while_do.raw_induct
        [where P = "\<lambda>c b a r. c = cond \<longrightarrow> b = body \<longrightarrow> I a \<longrightarrow> Q r", OF _ that, simplified])
    fix f :: "('a \<Rightarrow> bool) \<Rightarrow> ('a \<Rightarrow> 'a option) \<Rightarrow> 'a \<Rightarrow> 'a option" and c b a r
    assume ih: "\<And>c b a r. f c b a = Some r \<Longrightarrow> c = cond \<longrightarrow> b = body \<longrightarrow> I a \<longrightarrow> Q r"
      and eq: "(if c a then Option.bind (b a) (\<lambda>a'. f c b a') else Some a) = Some r"
    show "c = cond \<longrightarrow> b = body \<longrightarrow> I a \<longrightarrow> Q r"
      using eq ih [of cond body _ r] step [of a] fin [of a]
      by (auto simp: bind_eq_Some_conv if_runs_iff split: if_splits)
  qed
  with start show ?thesis by (auto simp: if_runs_iff)
qed

lemma foldM_total:
  assumes "I s" and "\<And>i s. i \<in> set is \<Longrightarrow> I s \<Longrightarrow> runs_to (f i s) I"
  shows "runs_to (foldM f is s) I"
  using assms
proof (induction "is" arbitrary: s)
  case (Cons i "is")
  then have "runs_to (f i s) I" by simp
  then show ?case
    using Cons.IH Cons.prems(2) by (auto simp: runs_to_iff)
qed simp

lemma foldM_partial:
  assumes "I s" and "\<And>i s. i \<in> set is \<Longrightarrow> I s \<Longrightarrow> if_runs (f i s) I"
  shows "if_runs (foldM f is s) I"
  using assms
proof (induction "is" arbitrary: s)
  case (Cons i "is")
  then have "if_runs (f i s) I" by simp
  then show ?case
    using Cons.IH Cons.prems(2) by (cases "f i s") simp_all
qed simp

text \<open>The same with an invariant that follows the counter of the loop.\<close>

lemma foldM_upt_total:
  assumes "a \<le> b" "I a s" and "\<And>i s. a \<le> i \<Longrightarrow> i < b \<Longrightarrow> I i s \<Longrightarrow> runs_to (f i s) (I (Suc i))"
  shows "runs_to (foldM f [a..<b] s) (I b)"
  using assms
proof (induction "b - a" arbitrary: a s)
  case (Suc k)
  then have ab: "a < b" by simp
  from Suc.prems(3) [of a s] Suc.prems(2) ab obtain s' where s': "f a s = Some s'" "I (Suc a) s'"
    by (auto simp: runs_to_iff)
  have "runs_to (foldM f [Suc a..<b] s') (I b)"
    using Suc.hyps(2) ab s'(2) Suc.prems(3) by (intro Suc.hyps(1)) auto
  with s'(1) ab show ?case by (simp add: upt_conv_Cons)
qed simp

lemma foldM_append: "foldM f (is @ js) s = Option.bind (foldM f is s) (foldM f js)"
  by (induction "is" arbitrary: s) (auto simp: fun_eq_iff split: bind_splits)

section \<open>Memory\<close>

text \<open>
  A C byte array is a function from offsets to bytes; its size is checked where the code's
  offsets or lengths are not constants (\<open>chk\<close>).
\<close>

type_synonym buf = "nat \<Rightarrow> u8"

definition memcpy :: "buf \<Rightarrow> nat \<Rightarrow> buf \<Rightarrow> nat \<Rightarrow> nat \<Rightarrow> buf" where
  "memcpy dst d src s n = (\<lambda>i. if d \<le> i \<and> i < d + n then src (s + (i - d)) else dst i)"

definition memset :: "buf \<Rightarrow> nat \<Rightarrow> u8 \<Rightarrow> nat \<Rightarrow> buf" where
  "memset dst d v n = (\<lambda>i. if d \<le> i \<and> i < d + n then v else dst i)"

definition zero_buf :: buf where
  "zero_buf = (\<lambda>_. 0)"

definition buf_of :: "u8 list \<Rightarrow> buf" where
  "buf_of bs = (\<lambda>i. if i < length bs then bs ! i else 0)"

definition bytes_of :: "buf \<Rightarrow> nat \<Rightarrow> nat \<Rightarrow> u8 list" where
  "bytes_of b off n = map b [off..<off + n]"

text \<open>Little-endian scalars: byte \<open>k\<close> of \<open>v\<close> is stored at \<open>off + k\<close>.\<close>

definition put_le :: "nat \<Rightarrow> buf \<Rightarrow> nat \<Rightarrow> 'a::len word \<Rightarrow> buf" where
  "put_le n b off v =
     (\<lambda>i. if off \<le> i \<and> i < off + n then ucast (drop_bit (8 * (i - off)) v) else b i)"

primrec get_le :: "nat \<Rightarrow> buf \<Rightarrow> nat \<Rightarrow> 'a::len word" where
  "get_le 0 b off = 0"
| "get_le (Suc n) b off = ucast (b off) OR push_bit 8 (get_le n b (Suc off))"

abbreviation rd16 :: "buf \<Rightarrow> nat \<Rightarrow> u16" where "rd16 \<equiv> get_le 2"
abbreviation rd32 :: "buf \<Rightarrow> nat \<Rightarrow> u32" where "rd32 \<equiv> get_le 4"
abbreviation rd64 :: "buf \<Rightarrow> nat \<Rightarrow> u64" where "rd64 \<equiv> get_le 8"
abbreviation wr16 :: "buf \<Rightarrow> nat \<Rightarrow> u16 \<Rightarrow> buf" where "wr16 \<equiv> put_le 2"
abbreviation wr32 :: "buf \<Rightarrow> nat \<Rightarrow> u32 \<Rightarrow> buf" where "wr32 \<equiv> put_le 4"
abbreviation wr64 :: "buf \<Rightarrow> nat \<Rightarrow> u64 \<Rightarrow> buf" where "wr64 \<equiv> put_le 8"

text \<open>An initialised scalar variable, as the memory its address points to.\<close>

abbreviation var8 :: "u8 \<Rightarrow> buf" where "var8 v \<equiv> zero_buf(0 := v)"
abbreviation var16 :: "u16 \<Rightarrow> buf" where "var16 v \<equiv> wr16 zero_buf 0 v"
abbreviation var32 :: "u32 \<Rightarrow> buf" where "var32 v \<equiv> wr32 zero_buf 0 v"
abbreviation var64 :: "u64 \<Rightarrow> buf" where "var64 v \<equiv> wr64 zero_buf 0 v"

lemma memcpy_apply: "memcpy dst d src s n i = (if d \<le> i \<and> i < d + n then src (s + (i - d)) else dst i)"
  by (simp add: memcpy_def)

lemma memset_apply: "memset dst d v n i = (if d \<le> i \<and> i < d + n then v else dst i)"
  by (simp add: memset_def)

lemma put_le_apply:
  "put_le n b off v i = (if off \<le> i \<and> i < off + n then ucast (drop_bit (8 * (i - off)) v) else b i)"
  by (simp add: put_le_def)

lemma bit_get_le_Suc:
  "bit (get_le (Suc n) b off :: 'a::len word) k \<longleftrightarrow> k < LENGTH('a) \<and>
     (if k < 8 then bit (b off) k else bit (get_le n b (Suc off) :: 'a word) (k - 8))"
proof (cases "k < 8")
  case True
  then show ?thesis
    by (auto simp only: get_le.simps bit_or_iff bit_ucast_iff bit_push_bit_iff possible_bit_word if_True not_le
        dest: bit_imp_le_length)
next
  case False
  then have "\<not> bit (b off) k" using bit_imp_le_length [of "b off" k] by auto
  with False show ?thesis
    unfolding get_le.simps bit_or_iff bit_ucast_iff bit_push_bit_iff possible_bit_word by auto
qed

lemma bit_get_le:
  "bit (get_le n b off :: 'a::len word) k \<longleftrightarrow>
     k < LENGTH('a) \<and> k < 8 * n \<and> bit (b (off + k div 8)) (k mod 8)"
proof (induction n arbitrary: off k)
  case (Suc n)
  show ?case
  proof (cases "k < 8")
    case True
    then show ?thesis by (simp only: bit_get_le_Suc if_True) simp
  next
    case False
    then have idx: "Suc off + (k - 8) div 8 = off + k div 8" "(k - 8) mod 8 = k mod 8"
      by (simp_all add: le_div_geq le_mod_geq)
    from False show ?thesis
      by (simp only: bit_get_le_Suc Suc.IH idx if_False) auto
  qed
qed simp

lemma get_put_le [simp]:
  "get_le n (put_le n b off v) off = (take_bit (8 * n) v :: 'a::len word)"
proof (rule bit_word_eqI)
  fix k assume "k < LENGTH('a)"
  moreover have "k < 8 * n \<Longrightarrow> off \<le> off + k div 8 \<and> off + k div 8 < off + n"
    by auto
  ultimately show "bit (get_le n (put_le n b off v) off :: 'a word) k \<longleftrightarrow> bit (take_bit (8 * n) v) k"
    by (auto simp: bit_get_le put_le_apply bit_ucast_iff bit_drop_bit_eq bit_take_bit_iff
        add.commute)
qed

lemma get_le_shift:
  "(\<And>i. i < n \<Longrightarrow> b (off + i) = b' (off' + i)) \<Longrightarrow>
     get_le n b off = (get_le n b' off' :: 'a::len word)"
proof (induction n arbitrary: off off')
  case (Suc n)
  have "get_le n b (Suc off) = (get_le n b' (Suc off') :: 'a word)"
  proof (rule Suc.IH)
    fix i assume "i < n"
    then show "b (Suc off + i) = b' (Suc off' + i)" using Suc.prems [of "Suc i"] by simp
  qed
  with Suc.prems [of 0] show ?case by simp
qed simp

lemma get_le_cong:
  "(\<And>i. off \<le> i \<Longrightarrow> i < off + n \<Longrightarrow> b i = b' i) \<Longrightarrow> get_le n b off = get_le n b' off"
  by (induction n arbitrary: off) simp_all

lemma get_le_put_other [simp]:
  "off + n \<le> off' \<or> off' + m \<le> off \<Longrightarrow> get_le n (put_le m b off' v) off = get_le n b off"
  by (rule get_le_cong) (auto simp: put_le_apply)

lemma get_le_upd_other [simp]:
  "i < off \<or> off + n \<le> i \<Longrightarrow> get_le n (b(i := v)) off = get_le n b off"
  by (rule get_le_cong) auto

lemma get_le_memcpy_other [simp]:
  "off + n \<le> d \<or> d + m \<le> off \<Longrightarrow> get_le n (memcpy b d src s m) off = get_le n b off"
  by (rule get_le_cong) (auto simp: memcpy_apply)

lemma get_le_memset_other [simp]:
  "off + n \<le> d \<or> d + m \<le> off \<Longrightarrow> get_le n (memset b d v m) off = get_le n b off"
  by (rule get_le_cong) (auto simp: memset_apply)

lemma get_le_memcpy [simp]:
  assumes "d \<le> off" "off + n \<le> d + m"
  shows "get_le n (memcpy b d src s m) off = get_le n src (s + (off - d))"
proof (rule get_le_shift)
  fix i assume "i < n"
  moreover from this assms have "off + i - d = off - d + i" by simp
  ultimately show "memcpy b d src s m (off + i) = src (s + (off - d) + i)"
    using assms by (simp add: memcpy_def add.assoc)
qed

lemma take_bit_full [simp]:
  "take_bit 16 (v :: u16) = v" "take_bit 32 (w :: u32) = w" "take_bit 64 (x :: u64) = x"
  "take_bit 8 (y :: u8) = y"
  by (rule bit_word_eqI, auto simp: bit_take_bit_iff)+

lemma length_bytes_of [simp]: "length (bytes_of b off n) = n"
  by (simp add: bytes_of_def)

lemma nth_bytes_of [simp]: "i < n \<Longrightarrow> bytes_of b off n ! i = b (off + i)"
  by (simp add: bytes_of_def)

text \<open>Reading a numeral number of bytes, for evaluation.\<close>

lemma get_le_numeral:
  "get_le (numeral k) b off = ucast (b off) OR push_bit 8 (get_le (pred_numeral k) b (Suc off))"
  by (simp add: numeral_eq_Suc)

section \<open>Small facts on words\<close>

lemma unat_u8_lt [simp]: "unat (x :: u8) < 256"
  using unsigned_less [of x] by simp

lemma unat_u16_lt [simp]: "unat (x :: u16) < 65536"
  using unsigned_less [of x] by simp

lemma word_and_mask_le: "unat ((x :: 'a::len word) AND m) \<le> unat m"
  by (metis word_and_le1 word_le_nat_alt)

lemma unat_of_nat_u8: "n < 256 \<Longrightarrow> unat (of_nat n :: u8) = n"
  by (simp add: unsigned_of_nat take_bit_nat_eq_self)

lemma unat_of_nat_u16: "n < 65536 \<Longrightarrow> unat (of_nat n :: u16) = n"
  by (simp add: unsigned_of_nat take_bit_nat_eq_self)

lemma uint_ucast_u16_u32 [simp]: "uint (ucast (x :: u16) :: u32) = uint x"
  by transfer (simp add: take_bit_int_eq_self)

end
