(* ===== verification/EtherTypes.thy ===== *)
theory EtherTypes
  imports Prelude
begin

text \<open>
  The types and constants of \<open>soem/ethercattype.h\<close>: sizes and timeouts, the states of a frame
  buffer and of a slave, command and register codes, and the record of a reported error. The host
  is taken to be little-endian (\<open>EC_LITTLE_ENDIAN\<close>), so \<open>htoes\<close>, \<open>etohs\<close> and their kin are
  the identity; network byte order (\<open>htons\<close>, \<open>ntohs\<close>) is written out.
\<close>

section \<open>Constants of the protocol and the master\<close>

abbreviation (input) EC_NOFRAME :: int where "EC_NOFRAME \<equiv> - 1"
abbreviation (input) EC_OTHERFRAME :: int where "EC_OTHERFRAME \<equiv> - 2"
abbreviation (input) EC_ERROR :: int where "EC_ERROR \<equiv> - 3"
abbreviation (input) EC_SLAVECOUNTEXCEEDED :: int where "EC_SLAVECOUNTEXCEEDED \<equiv> - 4"
abbreviation (input) EC_TIMEOUT :: int where "EC_TIMEOUT \<equiv> - 5"
abbreviation (input) EC_MAXECATFRAME :: nat where "EC_MAXECATFRAME \<equiv> 1518"
abbreviation (input) EC_MAXLRWDATA :: nat where "EC_MAXLRWDATA \<equiv> 1486"
abbreviation (input) EC_FIRSTDCDATAGRAM :: nat where "EC_FIRSTDCDATAGRAM \<equiv> 20"
abbreviation (input) EC_BUFSIZE :: nat where "EC_BUFSIZE \<equiv> 1518"
abbreviation (input) EC_ECATTYPE :: u16 where "EC_ECATTYPE \<equiv> 0x1000"
abbreviation (input) EC_MAXBUF :: nat where "EC_MAXBUF \<equiv> 16"
abbreviation (input) EC_TIMEOUTRET :: int where "EC_TIMEOUTRET \<equiv> 2000"
abbreviation (input) EC_TIMEOUTRET3 :: int where "EC_TIMEOUTRET3 \<equiv> 6000"
abbreviation (input) EC_TIMEOUTSAFE :: int where "EC_TIMEOUTSAFE \<equiv> 20000"
abbreviation (input) EC_TIMEOUTEEP :: int where "EC_TIMEOUTEEP \<equiv> 20000"
abbreviation (input) EC_TIMEOUTTXM :: int where "EC_TIMEOUTTXM \<equiv> 20000"
abbreviation (input) EC_TIMEOUTRXM :: int where "EC_TIMEOUTRXM \<equiv> 700000"
abbreviation (input) EC_TIMEOUTSTATE :: int where "EC_TIMEOUTSTATE \<equiv> 2000000"
abbreviation (input) EC_MAXEEPBITMAP :: nat where "EC_MAXEEPBITMAP \<equiv> 128"
abbreviation (input) EC_MAXEEPBUF :: nat where "EC_MAXEEPBUF \<equiv> 4096"
abbreviation (input) EC_DEFAULTRETRIES :: int where "EC_DEFAULTRETRIES \<equiv> 3"
abbreviation (input) EC_LOGGROUPOFFSET :: nat where "EC_LOGGROUPOFFSET \<equiv> 16"
abbreviation (input) ETH_HEADERSIZE :: nat where "ETH_HEADERSIZE \<equiv> 14"
abbreviation (input) EC_HEADERSIZE :: nat where "EC_HEADERSIZE \<equiv> 12"
abbreviation (input) EC_ELENGTHSIZE :: nat where "EC_ELENGTHSIZE \<equiv> 2"
abbreviation (input) EC_CMDOFFSET :: nat where "EC_CMDOFFSET \<equiv> 2"
abbreviation (input) EC_WKCSIZE :: nat where "EC_WKCSIZE \<equiv> 2"
abbreviation (input) EC_DATAGRAMFOLLOWS :: u16 where "EC_DATAGRAMFOLLOWS \<equiv> 0x8000"
abbreviation (input) EC_ESTAT_R64 :: u16 where "EC_ESTAT_R64 \<equiv> 0x0040"
abbreviation (input) EC_ESTAT_BUSY :: u16 where "EC_ESTAT_BUSY \<equiv> 0x8000"
abbreviation (input) EC_ESTAT_EMASK :: u16 where "EC_ESTAT_EMASK \<equiv> 0x7800"
abbreviation (input) EC_ESTAT_NACK :: u16 where "EC_ESTAT_NACK \<equiv> 0x2000"
abbreviation (input) ECT_SII_START :: u16 where "ECT_SII_START \<equiv> 0x0040"
abbreviation (input) ECT_SDO_SMCOMMTYPE :: u16 where "ECT_SDO_SMCOMMTYPE \<equiv> 0x1c00"
abbreviation (input) ECT_SDO_PDOASSIGN :: u16 where "ECT_SDO_PDOASSIGN \<equiv> 0x1c10"
abbreviation (input) ECT_SDO_RXPDOASSIGN :: u16 where "ECT_SDO_RXPDOASSIGN \<equiv> 0x1c12"
abbreviation (input) ECT_SDO_TXPDOASSIGN :: u16 where "ECT_SDO_TXPDOASSIGN \<equiv> 0x1c13"
abbreviation (input) ETH_P_ECAT :: u16 where "ETH_P_ECAT \<equiv> 0x88A4"

subsection \<open>AL states\<close>

abbreviation (input) EC_STATE_NONE :: u16 where "EC_STATE_NONE \<equiv> 0x0"
abbreviation (input) EC_STATE_INIT :: u16 where "EC_STATE_INIT \<equiv> 0x1"
abbreviation (input) EC_STATE_PRE_OP :: u16 where "EC_STATE_PRE_OP \<equiv> 0x2"
abbreviation (input) EC_STATE_BOOT :: u16 where "EC_STATE_BOOT \<equiv> 0x3"
abbreviation (input) EC_STATE_SAFE_OP :: u16 where "EC_STATE_SAFE_OP \<equiv> 0x4"
abbreviation (input) EC_STATE_OPERATIONAL :: u16 where "EC_STATE_OPERATIONAL \<equiv> 0x8"
abbreviation (input) EC_STATE_ACK :: u16 where "EC_STATE_ACK \<equiv> 0x10"
abbreviation (input) EC_STATE_ERROR :: u16 where "EC_STATE_ERROR \<equiv> 0x10"

subsection \<open>EtherCAT commands\<close>

abbreviation (input) EC_CMD_NOP :: u8 where "EC_CMD_NOP \<equiv> 0x0"
abbreviation (input) EC_CMD_APRD :: u8 where "EC_CMD_APRD \<equiv> 0x1"
abbreviation (input) EC_CMD_APWR :: u8 where "EC_CMD_APWR \<equiv> 0x2"
abbreviation (input) EC_CMD_APRW :: u8 where "EC_CMD_APRW \<equiv> 0x3"
abbreviation (input) EC_CMD_FPRD :: u8 where "EC_CMD_FPRD \<equiv> 0x4"
abbreviation (input) EC_CMD_FPWR :: u8 where "EC_CMD_FPWR \<equiv> 0x5"
abbreviation (input) EC_CMD_FPRW :: u8 where "EC_CMD_FPRW \<equiv> 0x6"
abbreviation (input) EC_CMD_BRD :: u8 where "EC_CMD_BRD \<equiv> 0x7"
abbreviation (input) EC_CMD_BWR :: u8 where "EC_CMD_BWR \<equiv> 0x8"
abbreviation (input) EC_CMD_BRW :: u8 where "EC_CMD_BRW \<equiv> 0x9"
abbreviation (input) EC_CMD_LRD :: u8 where "EC_CMD_LRD \<equiv> 0xa"
abbreviation (input) EC_CMD_LWR :: u8 where "EC_CMD_LWR \<equiv> 0xb"
abbreviation (input) EC_CMD_LRW :: u8 where "EC_CMD_LRW \<equiv> 0xc"
abbreviation (input) EC_CMD_ARMW :: u8 where "EC_CMD_ARMW \<equiv> 0xd"
abbreviation (input) EC_CMD_FRMW :: u8 where "EC_CMD_FRMW \<equiv> 0xe"

subsection \<open>EEPROM commands\<close>

abbreviation (input) EC_ECMD_NOP :: u16 where "EC_ECMD_NOP \<equiv> 0x0"
abbreviation (input) EC_ECMD_READ :: u16 where "EC_ECMD_READ \<equiv> 0x100"
abbreviation (input) EC_ECMD_WRITE :: u16 where "EC_ECMD_WRITE \<equiv> 0x201"
abbreviation (input) EC_ECMD_RELOAD :: u16 where "EC_ECMD_RELOAD \<equiv> 0x300"

subsection \<open>SII categories\<close>

abbreviation (input) ECT_SII_STRING :: u16 where "ECT_SII_STRING \<equiv> 0xa"
abbreviation (input) ECT_SII_GENERAL :: u16 where "ECT_SII_GENERAL \<equiv> 0x1e"
abbreviation (input) ECT_SII_FMMU :: u16 where "ECT_SII_FMMU \<equiv> 0x28"
abbreviation (input) ECT_SII_SM :: u16 where "ECT_SII_SM \<equiv> 0x29"
abbreviation (input) ECT_SII_PDO :: u16 where "ECT_SII_PDO \<equiv> 0x32"

subsection \<open>SII items\<close>

abbreviation (input) ECT_SII_MANUF :: u16 where "ECT_SII_MANUF \<equiv> 0x8"
abbreviation (input) ECT_SII_ID :: u16 where "ECT_SII_ID \<equiv> 0xa"
abbreviation (input) ECT_SII_REV :: u16 where "ECT_SII_REV \<equiv> 0xc"
abbreviation (input) ECT_SII_BOOTRXMBX :: u16 where "ECT_SII_BOOTRXMBX \<equiv> 0x14"
abbreviation (input) ECT_SII_BOOTTXMBX :: u16 where "ECT_SII_BOOTTXMBX \<equiv> 0x16"
abbreviation (input) ECT_SII_MBXSIZE :: u16 where "ECT_SII_MBXSIZE \<equiv> 0x19"
abbreviation (input) ECT_SII_TXMBXADR :: u16 where "ECT_SII_TXMBXADR \<equiv> 0x1a"
abbreviation (input) ECT_SII_RXMBXADR :: u16 where "ECT_SII_RXMBXADR \<equiv> 0x18"
abbreviation (input) ECT_SII_MBXPROTO :: u16 where "ECT_SII_MBXPROTO \<equiv> 0x1c"

subsection \<open>Mailbox types\<close>

abbreviation (input) ECT_MBXT_ERR :: u8 where "ECT_MBXT_ERR \<equiv> 0x0"
abbreviation (input) ECT_MBXT_AOE :: u8 where "ECT_MBXT_AOE \<equiv> 0x1"
abbreviation (input) ECT_MBXT_EOE :: u8 where "ECT_MBXT_EOE \<equiv> 0x2"
abbreviation (input) ECT_MBXT_COE :: u8 where "ECT_MBXT_COE \<equiv> 0x3"
abbreviation (input) ECT_MBXT_FOE :: u8 where "ECT_MBXT_FOE \<equiv> 0x4"
abbreviation (input) ECT_MBXT_SOE :: u8 where "ECT_MBXT_SOE \<equiv> 0x5"
abbreviation (input) ECT_MBXT_VOE :: u8 where "ECT_MBXT_VOE \<equiv> 0xf"

subsection \<open>CoE services\<close>

abbreviation (input) ECT_COES_EMERGENCY :: u16 where "ECT_COES_EMERGENCY \<equiv> 0x1"
abbreviation (input) ECT_COES_SDOREQ :: u16 where "ECT_COES_SDOREQ \<equiv> 0x2"
abbreviation (input) ECT_COES_SDORES :: u16 where "ECT_COES_SDORES \<equiv> 0x3"
abbreviation (input) ECT_COES_TXPDO :: u16 where "ECT_COES_TXPDO \<equiv> 0x4"
abbreviation (input) ECT_COES_RXPDO :: u16 where "ECT_COES_RXPDO \<equiv> 0x5"
abbreviation (input) ECT_COES_TXPDO_RR :: u16 where "ECT_COES_TXPDO_RR \<equiv> 0x6"
abbreviation (input) ECT_COES_RXPDO_RR :: u16 where "ECT_COES_RXPDO_RR \<equiv> 0x7"
abbreviation (input) ECT_COES_SDOINFO :: u16 where "ECT_COES_SDOINFO \<equiv> 0x8"

subsection \<open>SDO commands\<close>

abbreviation (input) ECT_SDO_DOWN_INIT :: u8 where "ECT_SDO_DOWN_INIT \<equiv> 0x21"
abbreviation (input) ECT_SDO_DOWN_EXP :: u8 where "ECT_SDO_DOWN_EXP \<equiv> 0x23"
abbreviation (input) ECT_SDO_DOWN_INIT_CA :: u8 where "ECT_SDO_DOWN_INIT_CA \<equiv> 0x31"
abbreviation (input) ECT_SDO_UP_REQ :: u8 where "ECT_SDO_UP_REQ \<equiv> 0x40"
abbreviation (input) ECT_SDO_UP_REQ_CA :: u8 where "ECT_SDO_UP_REQ_CA \<equiv> 0x50"
abbreviation (input) ECT_SDO_SEG_UP_REQ :: u8 where "ECT_SDO_SEG_UP_REQ \<equiv> 0x60"
abbreviation (input) ECT_SDO_ABORT :: u8 where "ECT_SDO_ABORT \<equiv> 0x80"

subsection \<open>SDO information commands\<close>

abbreviation (input) ECT_GET_ODLIST_REQ :: u8 where "ECT_GET_ODLIST_REQ \<equiv> 0x1"
abbreviation (input) ECT_GET_ODLIST_RES :: u8 where "ECT_GET_ODLIST_RES \<equiv> 0x2"
abbreviation (input) ECT_GET_OD_REQ :: u8 where "ECT_GET_OD_REQ \<equiv> 0x3"
abbreviation (input) ECT_GET_OD_RES :: u8 where "ECT_GET_OD_RES \<equiv> 0x4"
abbreviation (input) ECT_GET_OE_REQ :: u8 where "ECT_GET_OE_REQ \<equiv> 0x5"
abbreviation (input) ECT_GET_OE_RES :: u8 where "ECT_GET_OE_RES \<equiv> 0x6"
abbreviation (input) ECT_SDOINFO_ERROR :: u8 where "ECT_SDOINFO_ERROR \<equiv> 0x7"

subsection \<open>FoE opcodes\<close>

abbreviation (input) ECT_FOE_READ :: u8 where "ECT_FOE_READ \<equiv> 0x1"
abbreviation (input) ECT_FOE_WRITE :: u8 where "ECT_FOE_WRITE \<equiv> 0x2"
abbreviation (input) ECT_FOE_DATA :: u8 where "ECT_FOE_DATA \<equiv> 0x3"
abbreviation (input) ECT_FOE_ACK :: u8 where "ECT_FOE_ACK \<equiv> 0x4"
abbreviation (input) ECT_FOE_ERROR :: u8 where "ECT_FOE_ERROR \<equiv> 0x5"
abbreviation (input) ECT_FOE_BUSY :: u8 where "ECT_FOE_BUSY \<equiv> 0x6"

subsection \<open>SoE opcodes\<close>

abbreviation (input) ECT_SOE_READREQ :: u8 where "ECT_SOE_READREQ \<equiv> 0x1"
abbreviation (input) ECT_SOE_READRES :: u8 where "ECT_SOE_READRES \<equiv> 0x2"
abbreviation (input) ECT_SOE_WRITEREQ :: u8 where "ECT_SOE_WRITEREQ \<equiv> 0x3"
abbreviation (input) ECT_SOE_WRITERES :: u8 where "ECT_SOE_WRITERES \<equiv> 0x4"
abbreviation (input) ECT_SOE_NOTIFICATION :: u8 where "ECT_SOE_NOTIFICATION \<equiv> 0x5"
abbreviation (input) ECT_SOE_EMERGENCY :: u8 where "ECT_SOE_EMERGENCY \<equiv> 0x6"

subsection \<open>Registers of the EtherCAT slave controller\<close>

abbreviation (input) ECT_REG_TYPE :: u16 where "ECT_REG_TYPE \<equiv> 0x0"
abbreviation (input) ECT_REG_PORTDES :: u16 where "ECT_REG_PORTDES \<equiv> 0x7"
abbreviation (input) ECT_REG_ESCSUP :: u16 where "ECT_REG_ESCSUP \<equiv> 0x8"
abbreviation (input) ECT_REG_STADR :: u16 where "ECT_REG_STADR \<equiv> 0x10"
abbreviation (input) ECT_REG_ALIAS :: u16 where "ECT_REG_ALIAS \<equiv> 0x12"
abbreviation (input) ECT_REG_DLCTL :: u16 where "ECT_REG_DLCTL \<equiv> 0x100"
abbreviation (input) ECT_REG_DLPORT :: u16 where "ECT_REG_DLPORT \<equiv> 0x101"
abbreviation (input) ECT_REG_DLALIAS :: u16 where "ECT_REG_DLALIAS \<equiv> 0x103"
abbreviation (input) ECT_REG_DLSTAT :: u16 where "ECT_REG_DLSTAT \<equiv> 0x110"
abbreviation (input) ECT_REG_ALCTL :: u16 where "ECT_REG_ALCTL \<equiv> 0x120"
abbreviation (input) ECT_REG_ALSTAT :: u16 where "ECT_REG_ALSTAT \<equiv> 0x130"
abbreviation (input) ECT_REG_ALSTATCODE :: u16 where "ECT_REG_ALSTATCODE \<equiv> 0x134"
abbreviation (input) ECT_REG_PDICTL :: u16 where "ECT_REG_PDICTL \<equiv> 0x140"
abbreviation (input) ECT_REG_IRQMASK :: u16 where "ECT_REG_IRQMASK \<equiv> 0x200"
abbreviation (input) ECT_REG_RXERR :: u16 where "ECT_REG_RXERR \<equiv> 0x300"
abbreviation (input) ECT_REG_FRXERR :: u16 where "ECT_REG_FRXERR \<equiv> 0x308"
abbreviation (input) ECT_REG_EPUECNT :: u16 where "ECT_REG_EPUECNT \<equiv> 0x30c"
abbreviation (input) ECT_REG_PECNT :: u16 where "ECT_REG_PECNT \<equiv> 0x30d"
abbreviation (input) ECT_REG_PECODE :: u16 where "ECT_REG_PECODE \<equiv> 0x30e"
abbreviation (input) ECT_REG_LLCNT :: u16 where "ECT_REG_LLCNT \<equiv> 0x310"
abbreviation (input) ECT_REG_WDCNT :: u16 where "ECT_REG_WDCNT \<equiv> 0x442"
abbreviation (input) ECT_REG_EEPCFG :: u16 where "ECT_REG_EEPCFG \<equiv> 0x500"
abbreviation (input) ECT_REG_EEPCTL :: u16 where "ECT_REG_EEPCTL \<equiv> 0x502"
abbreviation (input) ECT_REG_EEPSTAT :: u16 where "ECT_REG_EEPSTAT \<equiv> 0x502"
abbreviation (input) ECT_REG_EEPADR :: u16 where "ECT_REG_EEPADR \<equiv> 0x504"
abbreviation (input) ECT_REG_EEPDAT :: u16 where "ECT_REG_EEPDAT \<equiv> 0x508"
abbreviation (input) ECT_REG_FMMU0 :: u16 where "ECT_REG_FMMU0 \<equiv> 0x600"
abbreviation (input) ECT_REG_FMMU1 :: u16 where "ECT_REG_FMMU1 \<equiv> 0x610"
abbreviation (input) ECT_REG_FMMU2 :: u16 where "ECT_REG_FMMU2 \<equiv> 0x620"
abbreviation (input) ECT_REG_FMMU3 :: u16 where "ECT_REG_FMMU3 \<equiv> 0x630"
abbreviation (input) ECT_REG_SM0 :: u16 where "ECT_REG_SM0 \<equiv> 0x800"
abbreviation (input) ECT_REG_SM1 :: u16 where "ECT_REG_SM1 \<equiv> 0x808"
abbreviation (input) ECT_REG_SM2 :: u16 where "ECT_REG_SM2 \<equiv> 0x810"
abbreviation (input) ECT_REG_SM3 :: u16 where "ECT_REG_SM3 \<equiv> 0x818"
abbreviation (input) ECT_REG_SM0STAT :: u16 where "ECT_REG_SM0STAT \<equiv> 0x805"
abbreviation (input) ECT_REG_SM1STAT :: u16 where "ECT_REG_SM1STAT \<equiv> 0x80d"
abbreviation (input) ECT_REG_SM1ACT :: u16 where "ECT_REG_SM1ACT \<equiv> 0x80e"
abbreviation (input) ECT_REG_SM1CONTR :: u16 where "ECT_REG_SM1CONTR \<equiv> 0x80f"
abbreviation (input) ECT_REG_DCTIME0 :: u16 where "ECT_REG_DCTIME0 \<equiv> 0x900"
abbreviation (input) ECT_REG_DCTIME1 :: u16 where "ECT_REG_DCTIME1 \<equiv> 0x904"
abbreviation (input) ECT_REG_DCTIME2 :: u16 where "ECT_REG_DCTIME2 \<equiv> 0x908"
abbreviation (input) ECT_REG_DCTIME3 :: u16 where "ECT_REG_DCTIME3 \<equiv> 0x90c"
abbreviation (input) ECT_REG_DCSYSTIME :: u16 where "ECT_REG_DCSYSTIME \<equiv> 0x910"
abbreviation (input) ECT_REG_DCSOF :: u16 where "ECT_REG_DCSOF \<equiv> 0x918"
abbreviation (input) ECT_REG_DCSYSOFFSET :: u16 where "ECT_REG_DCSYSOFFSET \<equiv> 0x920"
abbreviation (input) ECT_REG_DCSYSDELAY :: u16 where "ECT_REG_DCSYSDELAY \<equiv> 0x928"
abbreviation (input) ECT_REG_DCSYSDIFF :: u16 where "ECT_REG_DCSYSDIFF \<equiv> 0x92c"
abbreviation (input) ECT_REG_DCSPEEDCNT :: u16 where "ECT_REG_DCSPEEDCNT \<equiv> 0x930"
abbreviation (input) ECT_REG_DCTIMEFILT :: u16 where "ECT_REG_DCTIMEFILT \<equiv> 0x934"
abbreviation (input) ECT_REG_DCCUC :: u16 where "ECT_REG_DCCUC \<equiv> 0x980"
abbreviation (input) ECT_REG_DCSYNCACT :: u16 where "ECT_REG_DCSYNCACT \<equiv> 0x981"
abbreviation (input) ECT_REG_DCSTART0 :: u16 where "ECT_REG_DCSTART0 \<equiv> 0x990"
abbreviation (input) ECT_REG_DCCYCLE0 :: u16 where "ECT_REG_DCCYCLE0 \<equiv> 0x9a0"
abbreviation (input) ECT_REG_DCCYCLE1 :: u16 where "ECT_REG_DCCYCLE1 \<equiv> 0x9a4"

section \<open>Buffer states and errors\<close>

datatype ec_bufstate = EC_BUF_EMPTY | EC_BUF_ALLOC | EC_BUF_TX | EC_BUF_RCVD | EC_BUF_COMPLETE

datatype ec_err_type =
    EC_ERR_TYPE_SDO_ERROR | EC_ERR_TYPE_EMERGENCY | EC_ERR_TYPE_PACKET_ERROR
  | EC_ERR_TYPE_SDOINFO_ERROR | EC_ERR_TYPE_FOE_ERROR | EC_ERR_TYPE_FOE_BUF2SMALL
  | EC_ERR_TYPE_FOE_PACKETNUMBER | EC_ERR_TYPE_SOE_ERROR | EC_ERR_TYPE_MBX_ERROR
  | EC_ERR_TYPE_FOE_FILE_NOTFOUND | EC_ERR_TYPE_EOE_INVALID_RX_DATA

fun ec_err_code :: "ec_err_type \<Rightarrow> int" where
  "ec_err_code EC_ERR_TYPE_SDO_ERROR = 0"
| "ec_err_code EC_ERR_TYPE_EMERGENCY = 1"
| "ec_err_code EC_ERR_TYPE_PACKET_ERROR = 3"
| "ec_err_code EC_ERR_TYPE_SDOINFO_ERROR = 4"
| "ec_err_code EC_ERR_TYPE_FOE_ERROR = 5"
| "ec_err_code EC_ERR_TYPE_FOE_BUF2SMALL = 6"
| "ec_err_code EC_ERR_TYPE_FOE_PACKETNUMBER = 7"
| "ec_err_code EC_ERR_TYPE_SOE_ERROR = 8"
| "ec_err_code EC_ERR_TYPE_MBX_ERROR = 9"
| "ec_err_code EC_ERR_TYPE_FOE_FILE_NOTFOUND = 10"
| "ec_err_code EC_ERR_TYPE_EOE_INVALID_RX_DATA = 11"

record ec_timet =
  tm_sec :: u32
  tm_usec :: u32

text \<open>
  The union of \<open>ec_errort\<close> is kept as the fields of its structured member; \<open>AbortCode\<close> overlays
  the first four bytes of them.
\<close>

record ec_errort =
  err_Time :: ec_timet
  err_Signal :: bool
  err_Slave :: u16
  err_Index :: u16
  err_SubIdx :: u8
  err_Etype :: ec_err_type
  err_ErrorCode :: u16
  err_ErrorReg :: u8
  err_b1 :: u8
  err_w1 :: u16
  err_w2 :: u16

definition err_AbortCode :: "ec_errort \<Rightarrow> u32" where
  "err_AbortCode e = ucast (err_ErrorCode e) OR push_bit 16 (ucast (err_ErrorReg e))
     OR push_bit 24 (ucast (err_b1 e))"

definition err_set_AbortCode :: "u32 \<Rightarrow> ec_errort \<Rightarrow> ec_errort" where
  "err_set_AbortCode c e = e\<lparr>err_ErrorCode := ucast c, err_ErrorReg := ucast (drop_bit 16 c),
     err_b1 := ucast (drop_bit 24 c)\<rparr>"

text \<open>The all-zero record that \<open>memset\<close> leaves.\<close>

definition zero_err :: ec_errort where
  "zero_err = \<lparr>err_Time = \<lparr>tm_sec = 0, tm_usec = 0\<rparr>, err_Signal = False, err_Slave = 0, err_Index = 0,
     err_SubIdx = 0, err_Etype = EC_ERR_TYPE_SDO_ERROR, err_ErrorCode = 0, err_ErrorReg = 0,
     err_b1 = 0, err_w1 = 0, err_w2 = 0\<rparr>"

lemma err_AbortCode_set [simp]: "err_AbortCode (err_set_AbortCode c e) = c"
proof (rule bit_word_eqI)
  fix k assume "k < LENGTH(32)"
  then show "bit (err_AbortCode (err_set_AbortCode c e)) k = bit c k"
    by (cases "k < 24") (auto simp: err_AbortCode_def err_set_AbortCode_def bit_or_iff bit_ucast_iff
        bit_push_bit_iff bit_drop_bit_eq)
qed

section \<open>Helper macros\<close>

definition MBX_HDR_SET_CNT :: "u8 \<Rightarrow> u8" where
  "MBX_HDR_SET_CNT cnt = push_bit 4 cnt"

definition HI_BYTE :: "u16 \<Rightarrow> u16" where
  "HI_BYTE w = drop_bit 8 w"

definition LO_WORD :: "u32 \<Rightarrow> u16" where
  "LO_WORD l = ucast (l AND 0xffff)"

definition HI_WORD :: "u32 \<Rightarrow> u16" where
  "HI_WORD l = ucast (drop_bit 16 l)"

definition htons :: "u16 \<Rightarrow> u16" where
  "htons w = push_bit 8 w OR drop_bit 8 w"

lemma LO_WORD_take_bit: "LO_WORD l = ucast (take_bit 16 l)"
proof -
  have "(0xffff :: u32) = mask 16" by (simp add: mask_eq_exp_minus_1)
  then show ?thesis by (simp only: LO_WORD_def take_bit_eq_mask)
qed

lemma LO_HI_WORD: "ucast (LO_WORD l) OR push_bit 16 (ucast (HI_WORD l)) = l"
proof (rule bit_word_eqI)
  fix k assume k: "k < LENGTH(32)"
  show "bit (ucast (LO_WORD l) OR push_bit 16 (ucast (HI_WORD l)) :: u32) k = bit l k"
    using k by (cases "k < 16") (auto simp: LO_WORD_take_bit HI_WORD_def bit_or_iff bit_ucast_iff
        bit_push_bit_iff bit_drop_bit_eq bit_take_bit_iff)
qed

end
