(* ===== verification/Osal.thy ===== *)
theory Osal
  imports EtherTypes
begin

text \<open>
  The operating-system layer of \<open>osal/osal.h\<close> and \<open>osal/linux/osal.c\<close>: sleeping, the wall
  clock and the monotonic timers on which every polling loop of the master relies.

  The kernel, the network interface and the slaves behind it are not part of the program: they
  are an environment of type \<open>'e\<close>, reached only through the system calls of \<open>'e os_ops\<close>, which
  every definition that performs one takes as its argument. \<open>good_os\<close> names what the code relies
  on: \<open>CLOCK_MONOTONIC\<close> moves forward whenever it is read (the source says "strictly
  increasing"), nothing turns it back, and a received frame carries a datagram length that lies
  inside a frame.
\<close>

section \<open>System calls\<close>

record 'e os_ops =
  os_socket :: "'e \<Rightarrow> int \<times> 'e"
  os_setsockopt :: "int \<Rightarrow> 'e \<Rightarrow> 'e"
  os_ioctl :: "int \<Rightarrow> string \<Rightarrow> 'e \<Rightarrow> 'e"
  os_bind :: "int \<Rightarrow> string \<Rightarrow> 'e \<Rightarrow> int \<times> 'e"
  os_close :: "int \<Rightarrow> 'e \<Rightarrow> 'e"
  os_send :: "int \<Rightarrow> u8 list \<Rightarrow> 'e \<Rightarrow> int \<times> 'e"
  os_recv :: "int \<Rightarrow> nat \<Rightarrow> 'e \<Rightarrow> u8 list option \<times> 'e"
  os_monotonic :: "'e \<Rightarrow> (nat \<times> nat) \<times> 'e"
  os_realtime :: "'e \<Rightarrow> (nat \<times> nat) \<times> 'e"
  os_nanosleep :: "nat \<Rightarrow> nat \<Rightarrow> 'e \<Rightarrow> int \<times> 'e"

section \<open>Time\<close>

abbreviation (input) USECS_PER_SEC :: nat where "USECS_PER_SEC \<equiv> 1000000"

definition osal_usleep :: "'e os_ops \<Rightarrow> nat \<Rightarrow> 'e \<Rightarrow> int \<times> 'e" where
  "osal_usleep E usec e =
     os_nanosleep E (usec div USECS_PER_SEC) ((usec mod USECS_PER_SEC) * 1000) e"

definition osal_current_time :: "'e os_ops \<Rightarrow> 'e \<Rightarrow> ec_timet \<times> 'e" where
  "osal_current_time E e = (let ((s, ns), e') = os_realtime E e
     in (\<lparr>tm_sec = of_nat s, tm_usec = of_nat (ns div 1000)\<rparr>, e'))"

definition osal_time_diff :: "ec_timet \<Rightarrow> ec_timet \<Rightarrow> ec_timet" where
  "osal_time_diff start fin =
     (if tm_usec fin < tm_usec start
      then \<lparr>tm_sec = tm_sec fin - tm_sec start - 1, tm_usec = tm_usec fin + 1000000 - tm_usec start\<rparr>
      else \<lparr>tm_sec = tm_sec fin - tm_sec start, tm_usec = tm_usec fin - tm_usec start\<rparr>)"

definition osal_getrelativetime :: "'e os_ops \<Rightarrow> 'e \<Rightarrow> (nat \<times> nat) \<times> 'e" where
  "osal_getrelativetime E e = (let ((s, ns), e') = os_monotonic E e in ((s, ns div 1000), e'))"

text \<open>\<open>timeradd\<close> and \<open>timercmp\<close> of \<open><sys/time.h>\<close>.\<close>

definition timeradd :: "nat \<times> nat \<Rightarrow> nat \<times> nat \<Rightarrow> nat \<times> nat" where
  "timeradd a b = (let s = fst a + fst b; u = snd a + snd b
     in if u \<ge> USECS_PER_SEC then (s + 1, u - USECS_PER_SEC) else (s, u))"

definition timer_lt :: "nat \<times> nat \<Rightarrow> nat \<times> nat \<Rightarrow> bool" where
  "timer_lt a b = (if fst a = fst b then snd a < snd b else fst a < fst b)"

text \<open>\<open>osal_timert\<close> holds its stop time in the two 32-bit fields of \<open>ec_timet\<close>.\<close>

definition osal_timer_start :: "'e os_ops \<Rightarrow> int \<Rightarrow> 'e \<Rightarrow> ec_timet \<times> 'e" where
  "osal_timer_start E timeout e = (let
      timeout_usec = unat (word_of_int timeout :: u32);
      (start_time, e') = osal_getrelativetime E e;
      stop_time = timeradd start_time (timeout_usec div USECS_PER_SEC, timeout_usec mod USECS_PER_SEC)
     in (\<lparr>tm_sec = of_nat (fst stop_time), tm_usec = of_nat (snd stop_time)\<rparr>, e'))"

definition osal_timer_is_expired :: "'e os_ops \<Rightarrow> ec_timet \<Rightarrow> 'e \<Rightarrow> bool \<times> 'e" where
  "osal_timer_is_expired E self e = (let
      (current_time, e') = osal_getrelativetime E e;
      is_not_yet_expired = timer_lt current_time (unat (tm_sec self), unat (tm_usec self))
     in (\<not> is_not_yet_expired, e'))"

section \<open>What the code relies on\<close>

text \<open>
  \<open>rx_len\<close> is the length field of the first datagram header, at the start of a stored frame;
  a frame on the wire carries it behind the 14 bytes of the Ethernet header.
\<close>

definition rx_len :: "buf \<Rightarrow> nat \<Rightarrow> nat" where
  "rx_len b off = unat (rd16 b off AND 0x0fff)"

definition frame_fits :: "u8 list \<Rightarrow> bool" where
  "frame_fits bs \<longleftrightarrow> 16 \<le> length bs \<and> rx_len (buf_of bs) ETH_HEADERSIZE + 1 < EC_BUFSIZE"

definition good_os :: "'e os_ops \<Rightarrow> ('e \<Rightarrow> nat) \<Rightarrow> bool" where
  "good_os E now \<longleftrightarrow>
     (\<forall>e s ns e'. os_monotonic E e = ((s, ns), e') \<longrightarrow>
        ns < 1000000000 \<and> now e' = s * 1000000000 + ns \<and> now e < now e') \<and>
     (\<forall>e r e'. os_realtime E e = (r, e') \<longrightarrow> now e \<le> now e') \<and>
     (\<forall>s ns e r e'. os_nanosleep E s ns e = (r, e') \<longrightarrow> now e \<le> now e') \<and>
     (\<forall>h f e r e'. os_send E h f e = (r, e') \<longrightarrow> now e \<le> now e') \<and>
     (\<forall>h n e r e'. os_recv E h n e = (r, e') \<longrightarrow> now e \<le> now e' \<and>
        (\<forall>bs. r = Some bs \<longrightarrow> frame_fits bs))"

lemma good_os_monotonic:
  assumes "good_os E now" "os_monotonic E e = ((s, ns), e')"
  shows "ns < 1000000000" "now e' = s * 1000000000 + ns" "now e < now e'"
  using assms unfolding good_os_def by metis+

lemma good_os_realtime: "good_os E now \<Longrightarrow> os_realtime E e = (r, e') \<Longrightarrow> now e \<le> now e'"
  unfolding good_os_def by metis

lemma good_os_nanosleep:
  "good_os E now \<Longrightarrow> os_nanosleep E s ns e = (r, e') \<Longrightarrow> now e \<le> now e'"
  unfolding good_os_def by metis

lemma good_os_send: "good_os E now \<Longrightarrow> os_send E h f e = (r, e') \<Longrightarrow> now e \<le> now e'"
  unfolding good_os_def by metis

lemma good_os_recv: "good_os E now \<Longrightarrow> os_recv E h n e = (r, e') \<Longrightarrow> now e \<le> now e'"
  unfolding good_os_def by metis

lemma good_os_recv_fits:
  "good_os E now \<Longrightarrow> os_recv E h n e = (Some bs, e') \<Longrightarrow> frame_fits bs"
  unfolding good_os_def by metis

section \<open>Properties\<close>

text \<open>The instant a pair of seconds and microseconds denotes, in microseconds.\<close>

definition usecs :: "nat \<times> nat \<Rightarrow> nat" where
  "usecs t = fst t * USECS_PER_SEC + snd t"

definition timer_usecs :: "ec_timet \<Rightarrow> nat" where
  "timer_usecs t = usecs (unat (tm_sec t), unat (tm_usec t))"

lemma timer_lt_usecs:
  assumes "snd a < USECS_PER_SEC" "snd b < USECS_PER_SEC"
  shows "timer_lt a b \<longleftrightarrow> usecs a < usecs b"
proof (cases "fst a" "fst b" rule: linorder_cases)
  case less
  then have "Suc (fst a) * USECS_PER_SEC \<le> fst b * USECS_PER_SEC" by simp
  with less assms show ?thesis by (simp add: timer_lt_def usecs_def)
next
  case greater
  then have "Suc (fst b) * USECS_PER_SEC \<le> fst a * USECS_PER_SEC" by simp
  with greater assms show ?thesis by (simp add: timer_lt_def usecs_def)
qed (simp add: timer_lt_def usecs_def)

lemma timer_lt_bound: "timer_lt a b \<Longrightarrow> snd a < USECS_PER_SEC \<Longrightarrow>
  usecs a < fst b * USECS_PER_SEC + max USECS_PER_SEC (snd b)"
proof (cases "fst a" "fst b" rule: linorder_cases)
  case less
  assume "snd a < USECS_PER_SEC"
  moreover from less have "Suc (fst a) * USECS_PER_SEC \<le> fst b * USECS_PER_SEC" by simp
  ultimately show ?thesis by (simp add: usecs_def max_def)
qed (auto simp: timer_lt_def usecs_def max_def)

lemma usecs_timeradd [simp]: "usecs (timeradd a b) = usecs a + usecs b"
  by (simp add: timeradd_def usecs_def Let_def algebra_simps)

lemma snd_timeradd:
  "snd a < USECS_PER_SEC \<Longrightarrow> snd b < USECS_PER_SEC \<Longrightarrow> snd (timeradd a b) < USECS_PER_SEC"
  by (auto simp: timeradd_def Let_def)

text \<open>
  The last instant, in nanoseconds, at which the timer can still be running: a bound that works
  for every content of the timer, so that every timed loop has a measure.
\<close>

definition timer_limit :: "ec_timet \<Rightarrow> nat" where
  "timer_limit t = (unat (tm_sec t) * USECS_PER_SEC + max USECS_PER_SEC (unat (tm_usec t))) * 1000"

lemma usecs_lt_ns:
  assumes "usecs (s, ns div 1000) < m"
  shows "s * 1000000000 + ns < m * 1000"
proof -
  have "Suc (s * 1000000 + ns div 1000) \<le> m" using assms by (simp add: usecs_def)
  then have "Suc (s * 1000000 + ns div 1000) * 1000 \<le> m * 1000" by (rule mult_le_mono1)
  then show ?thesis by simp
qed

lemma osal_timer_is_expired_clock:
  assumes "good_os E now" and "osal_timer_is_expired E t e = (x, e')"
  shows "now e < now e' \<and> (x \<or> now e' < timer_limit t)"
proof -
  obtain s ns where m: "os_monotonic E e = ((s, ns), e')"
    and x: "x = (\<not> timer_lt (s, ns div 1000) (unat (tm_sec t), unat (tm_usec t)))"
    using assms(2)
    by (auto simp: osal_timer_is_expired_def osal_getrelativetime_def split: prod.splits)
  from assms(1) m have ns: "ns < 1000000000" and now: "now e' = s * 1000000000 + ns" "now e < now e'"
    by (auto dest: good_os_monotonic)
  have us: "ns div 1000 < USECS_PER_SEC" using ns by simp
  have "now e' < timer_limit t" if "\<not> x"
  proof -
    have "timer_lt (s, ns div 1000) (unat (tm_sec t), unat (tm_usec t))" using that x by simp
    from usecs_lt_ns [OF timer_lt_bound [OF this]] us show ?thesis
      unfolding now timer_limit_def by (simp only: fst_conv snd_conv)
  qed
  with now show ?thesis by blast
qed

lemma osal_timer_start_clock:
  "good_os E now \<Longrightarrow> osal_timer_start E timeout e = (t, e') \<Longrightarrow> now e < now e'"
  using good_os_monotonic(3) [of E now e _ _ e']
  by (auto simp: osal_timer_start_def osal_getrelativetime_def Let_def split: prod.splits)

lemma osal_usleep_clock: "good_os E now \<Longrightarrow> osal_usleep E n e = (r, e') \<Longrightarrow> now e \<le> now e'"
  unfolding osal_usleep_def by (rule good_os_nanosleep)

lemma osal_current_time_clock:
  "good_os E now \<Longrightarrow> osal_current_time E e = (r, e') \<Longrightarrow> now e \<le> now e'"
  by (auto simp: osal_current_time_def Let_def split: prod.splits dest: good_os_realtime)

text \<open>What a reading of the clock and a started timer mean, in microseconds.\<close>

lemma osal_getrelativetime_usecs:
  assumes "good_os E now" "osal_getrelativetime E e = (t, e')"
  shows "usecs t = now e' div 1000 \<and> snd t < USECS_PER_SEC"
proof -
  obtain s ns where m: "os_monotonic E e = ((s, ns), e')" and t: "t = (s, ns div 1000)"
    using assms(2) by (auto simp: osal_getrelativetime_def split: prod.splits)
  have "now e' = s * 1000000000 + ns" "ns < 1000000000"
    using good_os_monotonic [OF assms(1) m] by auto
  then show ?thesis by (simp add: t usecs_def) arith
qed

lemma osal_timer_start_usecs:
  assumes "good_os E now" "osal_timer_start E timeout e = (t, e')"
    and "0 \<le> timeout" "timeout < 4294967296" "now e' div 1000 + nat timeout < 4294967295 * USECS_PER_SEC"
  shows "timer_usecs t = now e' div 1000 + nat timeout \<and> unat (tm_usec t) < USECS_PER_SEC"
proof -
  obtain st where g: "osal_getrelativetime E e = (st, e')"
    using assms(2) by (cases "osal_getrelativetime E e") (auto simp: osal_timer_start_def Let_def)
  let ?n = "nat timeout"
  let ?stop = "timeradd st (?n div USECS_PER_SEC, ?n mod USECS_PER_SEC)"
  have n: "unat (word_of_int timeout :: u32) = ?n"
    using assms(3,4) by (simp add: unsigned_of_int take_bit_int_eq_self nat_eq_iff)
  have t: "t = \<lparr>tm_sec = of_nat (fst ?stop), tm_usec = of_nat (snd ?stop)\<rparr>"
    using assms(2) g by (auto simp: osal_timer_start_def Let_def n)
  from osal_getrelativetime_usecs [OF assms(1) g]
  have st: "usecs st = now e' div 1000" "snd st < USECS_PER_SEC" by auto
  have u: "usecs ?stop = now e' div 1000 + ?n"
    by (simp add: st usecs_def [of "(?n div USECS_PER_SEC, _)"])
  have s2: "snd ?stop < USECS_PER_SEC" using st by (intro snd_timeradd) simp_all
  have s1: "fst ?stop < 4294967296" using u assms(5) by (simp add: usecs_def)
  have "unat (tm_sec t) = fst ?stop" "unat (tm_usec t) = snd ?stop"
    using s1 s2 by (simp_all add: t unsigned_of_nat take_bit_nat_eq_self)
  with u s2 show ?thesis by (simp add: timer_usecs_def)
qed

lemma osal_timer_is_expired_usecs:
  assumes "good_os E now" "osal_timer_is_expired E t e = (x, e')" "unat (tm_usec t) < USECS_PER_SEC"
  shows "x \<longleftrightarrow> timer_usecs t \<le> now e' div 1000"
proof -
  obtain c where g: "osal_getrelativetime E e = (c, e')"
    and x: "x = (\<not> timer_lt c (unat (tm_sec t), unat (tm_usec t)))"
    using assms(2) by (cases "osal_getrelativetime E e") (auto simp: osal_timer_is_expired_def)
  note cur = osal_getrelativetime_usecs [OF assms(1) g]
  have "timer_lt c (unat (tm_sec t), unat (tm_usec t)) \<longleftrightarrow> usecs c < timer_usecs t"
    using assms(3) cur by (simp add: timer_lt_usecs timer_usecs_def)
  with cur x show ?thesis by auto
qed

text \<open>
  A timer started with a timeout of \<open>timeout\<close> microseconds reports expiry exactly when the
  monotonic clock has advanced by at least that many microseconds since it was started (as long
  as the stop time fits the 32-bit seconds of \<open>ec_timet\<close>).
\<close>

theorem osal_timer_expires_exactly:
  assumes "good_os E now"
    and "osal_timer_start E timeout e = (t, e1)"
    and "0 \<le> timeout" "timeout < 4294967296"
    and "now e1 div 1000 + nat timeout < 4294967295 * USECS_PER_SEC"
    and "osal_timer_is_expired E t e2 = (x, e3)"
  shows "x \<longleftrightarrow> now e1 div 1000 + nat timeout \<le> now e3 div 1000"
  using osal_timer_start_usecs [OF assms(1-5)] osal_timer_is_expired_usecs [OF assms(1,6)] by simp

text \<open>
  \<open>osal_time_diff\<close> of two normalised times, the second not before the first, is normalised
  and is the distance between them.
\<close>

theorem osal_time_diff_exact:
  assumes "unat (tm_usec start) < USECS_PER_SEC" "unat (tm_usec fin) < USECS_PER_SEC"
    and "timer_usecs start \<le> timer_usecs fin"
  shows "timer_usecs start + timer_usecs (osal_time_diff start fin) = timer_usecs fin \<and>
    unat (tm_usec (osal_time_diff start fin)) < USECS_PER_SEC"
proof -
  let ?a = "unat (tm_sec start)" and ?b = "unat (tm_sec fin)"
  let ?u = "unat (tm_usec start)" and ?v = "unat (tm_usec fin)"
  have le: "?a * 1000000 + ?u \<le> ?b * 1000000 + ?v"
    using assms(3) by (simp add: timer_usecs_def usecs_def)
  have ab: "?a \<le> ?b" using le assms(1,2) by simp
  show ?thesis
  proof (cases "?v < ?u")
    case True
    with le have lt: "?a < ?b" by simp
    have vu: "tm_usec fin < tm_usec start" using True by (simp add: word_less_nat_alt)
    have s: "unat (tm_sec fin - tm_sec start - 1) = ?b - ?a - 1"
      using lt by (simp add: unat_sub_if')
    have "unat (tm_usec fin + 1000000) = ?v + 1000000"
      using assms(2) unsigned_less [of "tm_usec fin"] by (simp add: unat_plus_if')
    then have u: "unat (tm_usec fin + 1000000 - tm_usec start) = ?v + 1000000 - ?u"
      using assms(1) by (simp add: unat_sub_if')
    obtain d where d: "?b = ?a + d + 1" using less_imp_Suc_add [OF lt] by auto
    have "timer_usecs (osal_time_diff start fin) = d * 1000000 + (?v + 1000000 - ?u)"
      by (simp add: osal_time_diff_def vu timer_usecs_def usecs_def s u) (simp add: d)
    moreover have "unat (tm_usec (osal_time_diff start fin)) = ?v + 1000000 - ?u"
      by (simp add: osal_time_diff_def vu u)
    moreover have "timer_usecs fin = ?a * 1000000 + d * 1000000 + 1000000 + ?v"
      by (simp add: timer_usecs_def usecs_def d)
    ultimately show ?thesis using True assms(1) by (simp add: timer_usecs_def usecs_def)
  next
    case False
    then have vu: "\<not> tm_usec fin < tm_usec start" by (simp add: word_less_nat_alt)
    have "unat (tm_sec fin - tm_sec start) = ?b - ?a" "unat (tm_usec fin - tm_usec start) = ?v - ?u"
      using ab False by (simp_all add: unat_sub_if')
    with ab False assms(1,2) show ?thesis
      by (simp add: osal_time_diff_def vu timer_usecs_def usecs_def diff_mult_distrib)
  qed
qed

theorem osal_time_diff_exact_witness:
  "timer_usecs \<lparr>tm_sec = 3, tm_usec = 999999\<rparr>
     + timer_usecs (osal_time_diff \<lparr>tm_sec = 3, tm_usec = 999999\<rparr> \<lparr>tm_sec = 5, tm_usec = 4\<rparr>) = 5000004"
  using osal_time_diff_exact [of "\<lparr>tm_sec = 3, tm_usec = 999999\<rparr>" "\<lparr>tm_sec = 5, tm_usec = 4\<rparr>"]
  by (simp add: timer_usecs_def usecs_def)

section \<open>A concrete environment for examples\<close>

text \<open>
  A clock that advances one microsecond whenever it is read, an interface that accepts every
  frame and a list of frames waiting to be received. The example instances below use it.
\<close>

definition script_os :: "(nat \<times> u8 list list) os_ops" where
  "script_os = \<lparr>
     os_socket = (\<lambda>e. (3, e)), os_setsockopt = (\<lambda>h e. e), os_ioctl = (\<lambda>h i e. e),
     os_bind = (\<lambda>h i e. (0, e)), os_close = (\<lambda>h e. e),
     os_send = (\<lambda>h f e. (int (length f), e)),
     os_recv = (\<lambda>h n (t, q). case q of [] \<Rightarrow> (None, (t, []))
        | f # fs \<Rightarrow> (if frame_fits f then Some f else None, (t, fs))),
     os_monotonic = (\<lambda>(t, q). ((Suc t div 1000000, (Suc t mod 1000000) * 1000), (Suc t, q))),
     os_realtime = (\<lambda>e. ((0, 0), e)),
     os_nanosleep = (\<lambda>s n (t, q). (0, (t + s * 1000000 + n div 1000, q)))\<rparr>"

lemma script_os_simps [simp]:
  "os_send script_os h f e = (int (length f), e)"
  "os_recv script_os h n (t, []) = (None, (t, []))"
  "os_recv script_os h n (t, f # fs) = (if frame_fits f then Some f else None, (t, fs))"
  "os_monotonic script_os (t, q) = ((Suc t div 1000000, (Suc t mod 1000000) * 1000), (Suc t, q))"
  "os_realtime script_os e = ((0, 0), e)"
  "os_nanosleep script_os s n (t, q) = (0, (t + s * 1000000 + n div 1000, q))"
  by (simp_all add: script_os_def)

lemma good_script_os: "good_os script_os (\<lambda>(t, q). t * 1000)"
proof -
  have "Suc t div 1000000 * 1000000000 + Suc t mod 1000000 * 1000 = Suc t * 1000" for t :: nat
  proof -
    have "Suc t div 1000000 * 1000000000 + Suc t mod 1000000 * 1000
      = (Suc t div 1000000 * 1000000 + Suc t mod 1000000) * 1000"
      unfolding add_mult_distrib mult.assoc by simp
    then show ?thesis unfolding div_mult_mod_eq .
  qed
  then show ?thesis
    by (auto simp: good_os_def script_os_def split: list.splits if_splits)
qed

theorem osal_timer_expires_exactly_witness:
  "\<exists>t e1 x. osal_timer_start script_os 20 (5, []) = (t, e1) \<and>
     osal_timer_is_expired script_os t (25, []) = (x, (26, [])) \<and> x"
proof -
  obtain t e1 where s: "osal_timer_start script_os 20 (5, []) = (t, e1)"
    by (cases "osal_timer_start script_os 20 (5, [])")
  obtain x e3 where x: "osal_timer_is_expired script_os t (25, []) = (x, e3)"
    by (cases "osal_timer_is_expired script_os t (25, [])")
  have e: "e1 = (6, [])" "e3 = (26, [])"
    using s x by (auto simp: osal_timer_start_def osal_timer_is_expired_def osal_getrelativetime_def Let_def)
  have "x" using osal_timer_expires_exactly [OF good_script_os s _ _ _ x] by (simp add: e)
  with s x e show ?thesis by blast
qed

end
