(* ===== verification/Nicdrv.thy ===== *)
theory Nicdrv
  imports Osal
begin

text \<open>
  The frame layer of \<open>oshw/linux/nicdrv.c\<close> and \<open>nicdrv.h\<close>: the pool of sixteen indexed frame
  buffers, the primary and the redundant stack, and the exchange of one frame with the network
  under a timeout.

  The stack pointers of \<open>ec_stackT\<close>, which \<open>ecx_setupnic\<close> points at the buffers of the port or of
  the redundant port, are modelled by \<open>get_stack\<close> and \<open>put_stack\<close>. The mutexes are not modelled: a
  definition is one uninterrupted execution of the C function.
\<close>

datatype redstate_t = ECT_RED_NONE | ECT_RED_DOUBLE

abbreviation (input) RX_PRIM :: u16 where "RX_PRIM \<equiv> 0x0101"
abbreviation (input) RX_SEC :: u16 where "RX_SEC \<equiv> 0x0404"

record ecx_redportt =
  red_sockhandle :: int
  red_rxbuf :: "nat \<Rightarrow> buf"
  red_rxbufstat :: "nat \<Rightarrow> ec_bufstate"
  red_rxsa :: "nat \<Rightarrow> u16"
  red_tempinbuf :: buf

record 'e ecx_portt =
  sockhandle :: int
  rxbuf :: "nat \<Rightarrow> buf"
  rxbufstat :: "nat \<Rightarrow> ec_bufstate"
  rxsa :: "nat \<Rightarrow> u16"
  tempinbuf :: buf
  tempinbufs :: int
  txbuf :: "nat \<Rightarrow> buf"
  txbuflength :: "nat \<Rightarrow> nat"
  txbuf2 :: buf
  txbuflength2 :: nat
  lastidx :: u8
  redstate :: redstate_t
  redport :: "ecx_redportt option"
  os :: 'e

text \<open>The view of one stack: \<open>0\<close> is the primary, any other number the secondary.\<close>

record ec_stackT =
  st_sock :: int
  st_tempbuf :: buf
  st_rxbuf :: "nat \<Rightarrow> buf"
  st_rxbufstat :: "nat \<Rightarrow> ec_bufstate"
  st_rxsa :: "nat \<Rightarrow> u16"

definition get_stack :: "'e ecx_portt \<Rightarrow> nat \<Rightarrow> ec_stackT option" where
  "get_stack p stacknumber =
     (if stacknumber = 0
      then Some \<lparr>st_sock = sockhandle p, st_tempbuf = tempinbuf p, st_rxbuf = rxbuf p,
                 st_rxbufstat = rxbufstat p, st_rxsa = rxsa p\<rparr>
      else map_option (\<lambda>r. \<lparr>st_sock = red_sockhandle r, st_tempbuf = red_tempinbuf r,
                 st_rxbuf = red_rxbuf r, st_rxbufstat = red_rxbufstat r, st_rxsa = red_rxsa r\<rparr>)
             (redport p))"

definition put_stack :: "'e ecx_portt \<Rightarrow> nat \<Rightarrow> ec_stackT \<Rightarrow> 'e ecx_portt" where
  "put_stack p stacknumber st =
     (if stacknumber = 0
      then p\<lparr>sockhandle := st_sock st, tempinbuf := st_tempbuf st, rxbuf := st_rxbuf st,
             rxbufstat := st_rxbufstat st, rxsa := st_rxsa st\<rparr>
      else p\<lparr>redport := Some \<lparr>red_sockhandle = st_sock st, red_rxbuf = st_rxbuf st,
             red_rxbufstat = st_rxbufstat st, red_rxsa = st_rxsa st, red_tempinbuf = st_tempbuf st\<rparr>\<rparr>)"

section \<open>Setting the port up\<close>

definition ecx_clear_rxbufstat :: "(nat \<Rightarrow> ec_bufstate) \<Rightarrow> nat \<Rightarrow> ec_bufstate" where
  "ecx_clear_rxbufstat stat = (\<lambda>i. if i < EC_MAXBUF then EC_BUF_EMPTY else stat i)"

text \<open>Network byte order: a 16-bit field of the Ethernet header is stored high byte first.\<close>

definition ec_setupheader :: "buf \<Rightarrow> buf" where
  "ec_setupheader bp =
     wr16 (wr16 (wr16 (wr16 (wr16 (wr16 (wr16 bp
       0 (htons 0xffff)) 2 (htons 0xffff)) 4 (htons 0xffff))
       6 (htons RX_PRIM)) 8 (htons RX_PRIM)) 10 (htons RX_PRIM)) 12 (htons ETH_P_ECAT)"

definition ecx_setupnic :: "'e os_ops \<Rightarrow> string \<Rightarrow> bool \<Rightarrow> 'e ecx_portt \<Rightarrow> int \<times> 'e ecx_portt" where
  "ecx_setupnic E ifname secondary p =
     (if secondary \<and> redport p = None then (0, p)
      else let
        p = (if secondary
             then p\<lparr>redstate := ECT_RED_DOUBLE,
                    redport := map_option (\<lambda>r. r\<lparr>red_sockhandle := - 1,
                      red_rxbufstat := ecx_clear_rxbufstat (red_rxbufstat r)\<rparr>) (redport p)\<rparr>
             else p\<lparr>sockhandle := - 1, lastidx := 0, redstate := ECT_RED_NONE,
                    rxbufstat := ecx_clear_rxbufstat (rxbufstat p)\<rparr>);
        (sock, e) = os_socket E (os p);
        p = (if secondary
             then p\<lparr>redport := map_option (\<lambda>r. r\<lparr>red_sockhandle := sock\<rparr>) (redport p)\<rparr>
             else p\<lparr>sockhandle := sock\<rparr>);
        e = os_setsockopt E sock (os_setsockopt E sock (os_setsockopt E sock e));
        e = os_ioctl E sock ifname (os_ioctl E sock ifname (os_ioctl E sock ifname e));
        (r, e) = os_bind E sock ifname e;
        p = p\<lparr>txbuf := (\<lambda>i. if i < EC_MAXBUF then ec_setupheader (txbuf p i) else txbuf p i),
              rxbufstat := ecx_clear_rxbufstat (rxbufstat p),
              txbuf2 := ec_setupheader (txbuf2 p), os := e\<rparr>
      in (if r = 0 then 1 else 0, p))"

definition ecx_closenic :: "'e os_ops \<Rightarrow> 'e ecx_portt \<Rightarrow> int \<times> 'e ecx_portt" where
  "ecx_closenic E p = (let
      e = (if sockhandle p \<ge> 0 then os_close E (sockhandle p) (os p) else os p);
      e = (case redport p of None \<Rightarrow> e
           | Some r \<Rightarrow> if red_sockhandle r \<ge> 0 then os_close E (red_sockhandle r) e else e)
     in (0, p\<lparr>os := e\<rparr>))"

section \<open>Indices\<close>

text \<open>The search loop of \<open>ecx_getindex\<close>, at most sixteen steps round the buffer array.\<close>

function find_index :: "(nat \<Rightarrow> ec_bufstate) \<Rightarrow> nat \<Rightarrow> nat \<Rightarrow> nat" where
  "find_index stat idx cnt =
     (if stat idx \<noteq> EC_BUF_EMPTY \<and> cnt < EC_MAXBUF
      then find_index stat (if idx + 1 \<ge> EC_MAXBUF then 0 else idx + 1) (cnt + 1)
      else idx)"
  by pat_completeness auto
termination by (relation "measure (\<lambda>(stat, idx, cnt). EC_MAXBUF - cnt)") auto

declare find_index.simps [simp del]

text \<open>
  \<open>ecx_setbufstat\<close> writes the state of one buffer, in both ports in redundant mode.
\<close>

definition ecx_setbufstat :: "nat \<Rightarrow> ec_bufstate \<Rightarrow> 'e ecx_portt \<Rightarrow> 'e ecx_portt option" where
  "ecx_setbufstat idx bufstat p = do {
     chk (idx < EC_MAXBUF);
     let p = p\<lparr>rxbufstat := (rxbufstat p)(idx := bufstat)\<rparr>;
     if redstate p \<noteq> ECT_RED_NONE
     then (case redport p of None \<Rightarrow> None
           | Some r \<Rightarrow> Some (p\<lparr>redport := Some (r\<lparr>red_rxbufstat := (red_rxbufstat r)(idx := bufstat)\<rparr>)\<rparr>))
     else Some p }"

definition ecx_getindex :: "'e ecx_portt \<Rightarrow> (nat \<times> 'e ecx_portt) option" where
  "ecx_getindex p = do {
     let idx = unat (lastidx p + 1);
     let idx = (if idx \<ge> EC_MAXBUF then 0 else idx);
     let idx = find_index (rxbufstat p) idx 0;
     p \<leftarrow> ecx_setbufstat idx EC_BUF_ALLOC p;
     Some (idx, p\<lparr>lastidx := of_nat idx\<rparr>) }"

section \<open>Sending and receiving one frame\<close>

definition ecx_outframe :: "'e os_ops \<Rightarrow> nat \<Rightarrow> nat \<Rightarrow> 'e ecx_portt \<Rightarrow> (int \<times> 'e ecx_portt) option" where
  "ecx_outframe E idx stacknumber p = do {
     st \<leftarrow> get_stack p stacknumber;
     chk (idx < EC_MAXBUF);
     let lp = txbuflength p idx;
     chk (lp \<le> EC_BUFSIZE);
     let (rval, e) = os_send E (st_sock st) (bytes_of (txbuf p idx) 0 lp) (os p);
     let stat = (if rval = - 1 then EC_BUF_EMPTY else EC_BUF_TX);
     Some (rval, put_stack (p\<lparr>os := e\<rparr>) stacknumber
       (st\<lparr>st_rxbufstat := (st_rxbufstat st)(idx := stat)\<rparr>)) }"

definition ecx_outframe_red :: "'e os_ops \<Rightarrow> nat \<Rightarrow> 'e ecx_portt \<Rightarrow> (int \<times> 'e ecx_portt) option" where
  "ecx_outframe_red E idx p = do {
     chk (idx < EC_MAXBUF);
     \<comment> \<open>rewrite MAC source address 1 to primary\<close>
     let p = p\<lparr>txbuf := (txbuf p)(idx := wr16 (txbuf p idx) 8 (htons RX_PRIM))\<rparr>;
     (rval, p) \<leftarrow> ecx_outframe E idx 0 p;
     if redstate p \<noteq> ECT_RED_NONE
     then (case redport p of None \<Rightarrow> None | Some r \<Rightarrow> do {
       \<comment> \<open>dummy frame for secondary socket transmit (BRD)\<close>
       let f2 = wr16 ((txbuf2 p)(ETH_HEADERSIZE + 3 := of_nat idx)) 8 (htons RX_SEC);
       chk (txbuflength2 p \<le> EC_BUFSIZE);
       let (r2, e) = os_send E (red_sockhandle r) (bytes_of f2 0 (txbuflength2 p)) (os p);
       let stat = (if r2 = - 1 then EC_BUF_EMPTY else EC_BUF_TX);
       Some (rval, p\<lparr>txbuf2 := f2, os := e,
         redport := Some (r\<lparr>red_rxbufstat := (red_rxbufstat r)(idx := stat)\<rparr>)\<rparr>) })
     else Some (rval, p) }"

definition ecx_recvpkt :: "'e os_ops \<Rightarrow> nat \<Rightarrow> 'e ecx_portt \<Rightarrow> (bool \<times> 'e ecx_portt) option" where
  "ecx_recvpkt E stacknumber p = do {
     st \<leftarrow> get_stack p stacknumber;
     let lp = EC_BUFSIZE;
     let (r, e) = os_recv E (st_sock st) lp (os p);
     case r of
       None \<Rightarrow> Some (False, p\<lparr>tempinbufs := - 1, os := e\<rparr>)
     | Some bs \<Rightarrow> let n = min lp (length bs) in
         Some (n > 0, put_stack (p\<lparr>tempinbufs := int n, os := e\<rparr>) stacknumber
           (st\<lparr>st_tempbuf := memcpy (st_tempbuf st) 0 (buf_of bs) 0 n\<rparr>)) }"

text \<open>The working counter of a stored frame: the two bytes behind its first datagram.\<close>

definition rx_wkc :: "buf \<Rightarrow> nat \<Rightarrow> int" where
  "rx_wkc b l = uint (ucast (b l) + push_bit 8 (ucast (b (l + 1))) :: u32)"

definition ecx_inframe :: "'e os_ops \<Rightarrow> nat \<Rightarrow> nat \<Rightarrow> 'e ecx_portt \<Rightarrow> (int \<times> 'e ecx_portt) option" where
  "ecx_inframe E idx stacknumber p = do {
     st \<leftarrow> get_stack p stacknumber;
     if idx < EC_MAXBUF \<and> st_rxbufstat st idx = EC_BUF_RCVD
     then do {
       let b = st_rxbuf st idx;
       let l = unat (ucast (b 0) + push_bit 8 (ucast (b 1 AND 0x0f)) :: u16);
       chk (l + 1 < EC_BUFSIZE);
       Some (rx_wkc b l, put_stack p stacknumber
         (st\<lparr>st_rxbufstat := (st_rxbufstat st)(idx := EC_BUF_COMPLETE)\<rparr>)) }
     else do {
       (got, p) \<leftarrow> ecx_recvpkt E stacknumber p;
       st \<leftarrow> get_stack p stacknumber;
       let tb = st_tempbuf st;
       if \<not> got then Some (EC_NOFRAME, p)
       else if rd16 tb 12 \<noteq> htons ETH_P_ECAT then Some (EC_OTHERFRAME, p)
       else do {
         let l = rx_len tb ETH_HEADERSIZE;
         let idxf = unat (tb (ETH_HEADERSIZE + 3));
         let sa = htons (rd16 tb 8);
         if idxf = idx
         then do {
           chk (idx < EC_MAXBUF \<and> ETH_HEADERSIZE \<le> txbuflength p idx \<and> txbuflength p idx \<le> EC_BUFSIZE);
           let b = memcpy (st_rxbuf st idx) 0 tb ETH_HEADERSIZE (txbuflength p idx - ETH_HEADERSIZE);
           chk (l + 1 < EC_BUFSIZE);
           Some (rx_wkc b l, put_stack p stacknumber
             (st\<lparr>st_rxbuf := (st_rxbuf st)(idx := b),
                 st_rxbufstat := (st_rxbufstat st)(idx := EC_BUF_COMPLETE),
                 st_rxsa := (st_rxsa st)(idx := sa)\<rparr>)) }
         else if idxf < EC_MAXBUF \<and> st_rxbufstat st idxf = EC_BUF_TX
         then do {
           chk (ETH_HEADERSIZE \<le> txbuflength p idxf \<and> txbuflength p idxf \<le> EC_BUFSIZE);
           let b = memcpy (st_rxbuf st idxf) 0 tb ETH_HEADERSIZE (txbuflength p idxf - ETH_HEADERSIZE);
           Some (EC_OTHERFRAME, put_stack p stacknumber
             (st\<lparr>st_rxbuf := (st_rxbuf st)(idxf := b),
                 st_rxbufstat := (st_rxbufstat st)(idxf := EC_BUF_RCVD),
                 st_rxsa := (st_rxsa st)(idxf := sa)\<rparr>)) }
         else Some (EC_OTHERFRAME, p) } } }"

section \<open>Waiting for a frame\<close>

definition port_timer_start :: "'e os_ops \<Rightarrow> int \<Rightarrow> 'e ecx_portt \<Rightarrow> ec_timet \<times> 'e ecx_portt" where
  "port_timer_start E timeout p =
     (let (t, e) = osal_timer_start E timeout (os p) in (t, p\<lparr>os := e\<rparr>))"

text \<open>\<open>cond \<and> \<not> osal_timer_is_expired(timer)\<close>: the clock is read only when the condition holds.\<close>

definition and_not_expired ::
  "'e os_ops \<Rightarrow> ec_timet \<Rightarrow> bool \<Rightarrow> 'e ecx_portt \<Rightarrow> bool \<times> 'e ecx_portt" where
  "and_not_expired E timer cond p =
     (if cond then let (x, e) = osal_timer_is_expired E timer (os p) in (\<not> x, p\<lparr>os := e\<rparr>)
      else (False, p))"

text \<open>The first loop of \<open>ecx_waitinframe_red\<close>: read both stacks until both have a frame.\<close>

definition wait_both :: "'e os_ops \<Rightarrow> nat \<Rightarrow> ec_timet \<Rightarrow> int \<times> int \<times> 'e ecx_portt \<Rightarrow>
    (int \<times> int \<times> 'e ecx_portt) option" where
  "wait_both E idx timer = do_while (\<lambda>(wkc, wkc2, p). do {
     (wkc, p) \<leftarrow> (if wkc \<le> EC_NOFRAME then ecx_inframe E idx 0 p else Some (wkc, p));
     (wkc2, p) \<leftarrow> (if redstate p \<noteq> ECT_RED_NONE \<and> wkc2 \<le> EC_NOFRAME
                  then ecx_inframe E idx 1 p else Some (wkc2, p));
     let (again, p) = and_not_expired E timer (wkc \<le> EC_NOFRAME \<or> wkc2 \<le> EC_NOFRAME) p;
     Some ((wkc, wkc2, p), again) })"

text \<open>The second loop: the resent frame on the secondary stack.\<close>

definition wait_secondary :: "'e os_ops \<Rightarrow> nat \<Rightarrow> ec_timet \<Rightarrow> int \<times> 'e ecx_portt \<Rightarrow>
    (int \<times> 'e ecx_portt) option" where
  "wait_secondary E idx timer = do_while (\<lambda>(wkc2, p). do {
     (wkc2, p) \<leftarrow> ecx_inframe E idx 1 p;
     let (again, p) = and_not_expired E timer (wkc2 \<le> EC_NOFRAME) p;
     Some ((wkc2, p), again) })"

text \<open>\<open>memcpy(&rxbuf[idx], &redport->rxbuf[idx], txbuflength[idx] - ETH_HEADERSIZE)\<close>.\<close>

definition copy_secondary :: "nat \<Rightarrow> 'e ecx_portt \<Rightarrow> 'e ecx_portt option" where
  "copy_secondary idx p = (case redport p of None \<Rightarrow> None | Some r \<Rightarrow> do {
     chk (idx < EC_MAXBUF \<and> ETH_HEADERSIZE \<le> txbuflength p idx \<and> txbuflength p idx \<le> EC_BUFSIZE);
     Some (p\<lparr>rxbuf := (rxbuf p)(idx := memcpy (rxbuf p idx) 0 (red_rxbuf r idx) 0
       (txbuflength p idx - ETH_HEADERSIZE))\<rparr>) })"

text \<open>The decision tree that follows in redundant mode.\<close>

definition redundant_decision :: "'e os_ops \<Rightarrow> nat \<Rightarrow> int \<Rightarrow> int \<Rightarrow> 'e ecx_portt \<Rightarrow>
    (int \<times> 'e ecx_portt) option" where
  "redundant_decision E idx wkc wkc2 p = (case redport p of None \<Rightarrow> None | Some r \<Rightarrow> do {
     let primrx = (if wkc > EC_NOFRAME then rxsa p idx else 0);
     let secrx = (if wkc2 > EC_NOFRAME then red_rxsa r idx else 0);
     \<comment> \<open>primary socket got secondary frame and secondary socket got primary frame: normal\<close>
     (wkc, p) \<leftarrow> (if primrx = RX_SEC \<and> secrx = RX_PRIM
        then do { p \<leftarrow> copy_secondary idx p; Some (wkc2, p) }
        else Some (wkc, p));
     \<comment> \<open>primary got nothing or the primary frame, secondary got the secondary frame: resend\<close>
     if primrx = 0 \<and> secrx = RX_SEC \<or> primrx = RX_PRIM \<and> secrx = RX_SEC
     then do {
       p \<leftarrow> (if primrx = RX_PRIM \<and> secrx = RX_SEC
         then do {
           chk (idx < EC_MAXBUF \<and> ETH_HEADERSIZE \<le> txbuflength p idx \<and> txbuflength p idx \<le> EC_BUFSIZE);
           Some (p\<lparr>txbuf := (txbuf p)(idx := memcpy (txbuf p idx) ETH_HEADERSIZE (rxbuf p idx) 0
             (txbuflength p idx - ETH_HEADERSIZE))\<rparr>) }
         else Some p);
       let (timer2, p) = port_timer_start E EC_TIMEOUTRET p;
       (_, p) \<leftarrow> ecx_outframe E idx 1 p;
       (wkc2, p) \<leftarrow> wait_secondary E idx timer2 (wkc2, p);
       if wkc2 > EC_NOFRAME
       then do { p \<leftarrow> copy_secondary idx p; Some (wkc2, p) }
       else Some (wkc, p) }
     else Some (wkc, p) })"

definition ecx_waitinframe_red :: "'e os_ops \<Rightarrow> nat \<Rightarrow> ec_timet \<Rightarrow> 'e ecx_portt \<Rightarrow>
    (int \<times> 'e ecx_portt) option" where
  "ecx_waitinframe_red E idx timer p = do {
     let wkc2 = (if redstate p = ECT_RED_NONE then 0 else EC_NOFRAME);
     (wkc, wkc2, p) \<leftarrow> wait_both E idx timer (EC_NOFRAME, wkc2, p);
     if redstate p \<noteq> ECT_RED_NONE then redundant_decision E idx wkc wkc2 p
     else Some (wkc, p) }"

definition ecx_waitinframe :: "'e os_ops \<Rightarrow> nat \<Rightarrow> int \<Rightarrow> 'e ecx_portt \<Rightarrow>
    (int \<times> 'e ecx_portt) option" where
  "ecx_waitinframe E idx timeout p = do {
     let (timer, p) = port_timer_start E timeout p;
     ecx_waitinframe_red E idx timer p }"

definition ecx_srconfirm :: "'e os_ops \<Rightarrow> nat \<Rightarrow> int \<Rightarrow> 'e ecx_portt \<Rightarrow>
    (int \<times> 'e ecx_portt) option" where
  "ecx_srconfirm E idx timeout p = do {
     let (timer1, p) = port_timer_start E timeout p;
     do_while (\<lambda>(wkc, p). do {
       (_, p) \<leftarrow> ecx_outframe_red E idx p;
       let (timer2, p) = port_timer_start E
         (if timeout < EC_TIMEOUTRET then timeout else EC_TIMEOUTRET) p;
       (wkc, p) \<leftarrow> ecx_waitinframe_red E idx timer2 p;
       let (again, p) = and_not_expired E timer1 (wkc \<le> EC_NOFRAME) p;
       Some ((wkc, p), again) }) (EC_NOFRAME, p) }"

section \<open>Invariant\<close>

text \<open>
  What the rest of the library relies on in a port: a secondary port exists when the port is in
  redundant mode, every transmitted frame has a length that fits the buffer, and every receive
  buffer carries a length that lies inside it. \<open>len\<close> is the array of transmit lengths, which both
  stacks share.
\<close>

definition stack_ok :: "(nat \<Rightarrow> nat) \<Rightarrow> ec_stackT \<Rightarrow> bool" where
  "stack_ok len st \<longleftrightarrow> (\<forall>i < EC_MAXBUF.
     (st_rxbufstat st i = EC_BUF_TX \<longrightarrow> 28 \<le> len i \<and> len i \<le> EC_BUFSIZE) \<and>
     rx_len (st_rxbuf st i) 0 + 1 < EC_BUFSIZE)"

definition port_ok :: "'e ecx_portt \<Rightarrow> bool" where
  "port_ok p \<longleftrightarrow> (redstate p \<noteq> ECT_RED_NONE \<longrightarrow> redport p \<noteq> None) \<and>
     txbuflength2 p \<le> EC_BUFSIZE \<and>
     (\<forall>s st. get_stack p s = Some st \<longrightarrow> stack_ok (txbuflength p) st)"

text \<open>The frame in buffer \<open>idx\<close> is complete: its length covers a datagram and fits the buffer.\<close>

definition frame_ready :: "nat \<Rightarrow> 'e ecx_portt \<Rightarrow> bool" where
  "frame_ready idx p \<longleftrightarrow> idx < EC_MAXBUF \<and> 28 \<le> txbuflength p idx \<and> txbuflength p idx \<le> EC_BUFSIZE"

text \<open>
  What an exchange on buffer \<open>idx\<close> may change: it keeps the configuration of the port and the
  transmit frames and the receive data of the other buffers, except that a frame which arrives
  for a buffer that waits for one is stored there; and the clock does not run back.
\<close>

definition other_kept :: "nat \<Rightarrow> ec_stackT \<Rightarrow> ec_stackT \<Rightarrow> bool" where
  "other_kept idx st st' \<longleftrightarrow> (\<forall>i. i \<noteq> idx \<longrightarrow>
     st_rxbufstat st' i = st_rxbufstat st i \<and> st_rxbuf st' i = st_rxbuf st i \<or>
     st_rxbufstat st i = EC_BUF_TX \<and> st_rxbufstat st' i = EC_BUF_RCVD)"

definition nic_step :: "('e \<Rightarrow> nat) \<Rightarrow> nat \<Rightarrow> 'e ecx_portt \<Rightarrow> 'e ecx_portt \<Rightarrow> bool" where
  "nic_step now idx p p' \<longleftrightarrow>
     redstate p' = redstate p \<and> (redport p' = None \<longleftrightarrow> redport p = None) \<and>
     txbuflength p' = txbuflength p \<and> txbuflength2 p' = txbuflength2 p \<and> lastidx p' = lastidx p \<and>
     (\<forall>i. i \<noteq> idx \<longrightarrow> txbuf p' i = txbuf p i) \<and> now (os p) \<le> now (os p') \<and>
     (port_ok p \<longrightarrow> port_ok p') \<and>
     (\<forall>s st st'. get_stack p s = Some st \<longrightarrow> get_stack p' s = Some st' \<longrightarrow> other_kept idx st st')"

lemma other_kept_refl [simp]: "other_kept idx st st"
  by (simp add: other_kept_def)

lemma other_kept_trans: "other_kept idx a b \<Longrightarrow> other_kept idx b c \<Longrightarrow> other_kept idx a c"
  unfolding other_kept_def by (metis ec_bufstate.distinct)

lemma nic_step_refl [simp, intro]: "nic_step now idx p p"
  by (simp add: nic_step_def)

lemma get_stack_None: "get_stack p s = None \<longleftrightarrow> s \<noteq> 0 \<and> redport p = None"
  by (simp add: get_stack_def)

lemma nic_step_trans [trans]:
  assumes "nic_step now idx p q" "nic_step now idx q r"
  shows "nic_step now idx p r"
proof -
  have "other_kept idx a c" if "get_stack p s = Some a" "get_stack r s = Some c" for s a c
  proof -
    have "redport q = None \<longleftrightarrow> redport p = None" using assms by (simp add: nic_step_def)
    with that have "get_stack q s \<noteq> None" by (auto simp: get_stack_def)
    then obtain b where "get_stack q s = Some b" by blast
    with that assms have "other_kept idx a b" "other_kept idx b c" by (auto simp: nic_step_def)
    then show ?thesis by (rule other_kept_trans)
  qed
  with assms show ?thesis unfolding nic_step_def by (metis order_trans)
qed

lemma get_stack_put_stack [simp]:
  "(s = 0 \<longleftrightarrow> s' = 0) \<Longrightarrow> get_stack (put_stack p s st) s' = Some st"
  "(s = 0 \<longleftrightarrow> s' \<noteq> 0) \<Longrightarrow> get_stack (put_stack p s st) s' = get_stack p s'"
  by (auto simp: get_stack_def put_stack_def)

lemma put_stack_fields [simp]:
  "redstate (put_stack p s st) = redstate p" "txbuflength (put_stack p s st) = txbuflength p"
  "txbuflength2 (put_stack p s st) = txbuflength2 p" "lastidx (put_stack p s st) = lastidx p"
  "txbuf (put_stack p s st) = txbuf p" "os (put_stack p s st) = os p"
  "redport (put_stack p s st) = None \<longleftrightarrow> s = 0 \<and> redport p = None"
  by (auto simp: put_stack_def)

lemma get_stack_update [simp]:
  "get_stack (p\<lparr>os := e\<rparr>) s = get_stack p s"
  "get_stack (p\<lparr>tempinbufs := n\<rparr>) s = get_stack p s"
  "get_stack (p\<lparr>txbuf := t\<rparr>) s = get_stack p s"
  "get_stack (p\<lparr>txbuf2 := b\<rparr>) s = get_stack p s"
  "get_stack (p\<lparr>lastidx := i\<rparr>) s = get_stack p s"
  "get_stack (p\<lparr>txbuflength := l\<rparr>) s = get_stack p s"
  by (simp_all add: get_stack_def)

lemma port_ok_update [simp]:
  "port_ok (p\<lparr>os := e\<rparr>) = port_ok p" "port_ok (p\<lparr>lastidx := i\<rparr>) = port_ok p"
  "port_ok (p\<lparr>txbuf := t\<rparr>) = port_ok p"
  by (simp_all add: port_ok_def)

text \<open>Replacing the view of one stack is a step when the new view is sound and keeps the others.\<close>

lemma nic_step_put_stack:
  assumes "get_stack p s = Some st" "get_stack p' s = Some st" "other_kept idx st st'"
    and "stack_ok (txbuflength p) st \<Longrightarrow> stack_ok (txbuflength p) st'"
    and "nic_step now idx p p'"
  shows "nic_step now idx p (put_stack p' s st')"
proof -
  have ok: "stack_ok (txbuflength p') x"
    if p: "port_ok p" and g: "get_stack (put_stack p' s st') s' = Some x" for s' x
  proof (cases "s = 0 \<longleftrightarrow> s' = 0")
    case True
    with g p assms show ?thesis by (auto simp: nic_step_def port_ok_def)
  next
    case False
    with g p assms show ?thesis by (auto simp: nic_step_def port_ok_def)
  qed
  have "other_kept idx a c"
    if a: "get_stack p s' = Some a" and g: "get_stack (put_stack p' s st') s' = Some c" for s' a c
  proof (cases "s = 0 \<longleftrightarrow> s' = 0")
    case True
    then have "get_stack p s' = get_stack p s" by (auto simp: get_stack_def)
    with True g a assms show ?thesis by simp
  next
    case False
    with g a assms show ?thesis by (auto simp: nic_step_def)
  qed
  moreover have "redport p' = None \<longleftrightarrow> redport p = None" "s = 0 \<or> redport p \<noteq> None"
    using assms by (auto simp: nic_step_def get_stack_def)
  ultimately show ?thesis
    using assms(5) ok unfolding nic_step_def port_ok_def by auto
qed

lemma nic_step_os [simp]:
  "nic_step now idx p (p\<lparr>os := e\<rparr>) \<longleftrightarrow> now (os p) \<le> now e"
  "nic_step now idx p (p\<lparr>tempinbufs := n, os := e\<rparr>) \<longleftrightarrow> now (os p) \<le> now e"
  by (auto simp: nic_step_def port_ok_def get_stack_def)

lemma nic_step_clock: "nic_step now idx p p' \<Longrightarrow> now (os p) \<le> now (os p')"
  by (simp add: nic_step_def)

lemma nic_step_ok: "nic_step now idx p p' \<Longrightarrow> port_ok p \<Longrightarrow> port_ok p'"
  by (simp add: nic_step_def)

lemma nic_step_ready: "nic_step now idx p p' \<Longrightarrow> frame_ready i p' \<longleftrightarrow> frame_ready i p"
  by (simp add: nic_step_def frame_ready_def)

lemma nic_step_stack: "nic_step now idx p p' \<Longrightarrow> get_stack p s = Some st \<Longrightarrow> \<exists>st'. get_stack p' s = Some st'"
  by (auto simp: nic_step_def get_stack_def)

section \<open>Every operation runs\<close>

lemma rx_len_rxbuf:
  "unat (ucast (b 0) + push_bit 8 (ucast ((b :: buf) 1 AND 0x0f)) :: u16) = rx_len b 0"
proof -
  have d: "bit (ucast (b 0) :: u16) n \<Longrightarrow> \<not> bit (push_bit 8 (ucast (b 1 AND 0x0f)) :: u16) n" for n
    by (auto simp: bit_simps dest: bit_imp_le_length)
  have "ucast (b 0) + push_bit 8 (ucast (b 1 AND 0x0f)) =
      (ucast (b 0) OR push_bit 8 (ucast (b 1 AND 0x0f)) :: u16)"
    by (rule disjunctive_add) (use d in auto)
  also have "\<dots> = rd16 b 0 AND 0x0fff"
  proof (rule bit_word_eqI)
    fix n assume n: "n < LENGTH(16)"
    have m: "(0x0f :: u8) = mask 4" "(0x0fff :: u16) = mask 12" by (simp_all add: mask_eq_exp_minus_1)
    show "bit (ucast (b 0) OR push_bit 8 (ucast (b 1 AND 0x0f)) :: u16) n \<longleftrightarrow> bit (rd16 b 0 AND 0x0fff) n"
    proof (cases "n < 8")
      case True
      then show ?thesis by (simp add: m bit_simps bit_get_le)
    next
      case False
      then have nd: "n div 8 = 1" "n mod 8 = n - 8" using n by (auto simp: le_div_geq le_mod_geq)
      have "\<not> bit (b 0) n" using False by (auto dest: bit_imp_le_length)
      with False n nd show ?thesis by (auto simp: m bit_simps bit_get_le)
    qed
  qed
  finally show ?thesis by (simp add: rx_len_def)
qed

lemma rx_len_memcpy:
  "2 \<le> n \<Longrightarrow> rx_len (memcpy b 0 src s n) 0 = rx_len src s"
  by (simp add: rx_len_def)

lemma frame_fits_memcpy:
  assumes "frame_fits bs" "length bs \<le> n"
  shows "rx_len (memcpy b 0 (buf_of bs) 0 (length bs)) ETH_HEADERSIZE + 1 < EC_BUFSIZE"
  using assms by (simp add: frame_fits_def rx_len_def)

lemma stack_ok_recv [simp]: "stack_ok len (st\<lparr>st_tempbuf := b\<rparr>) = stack_ok len st"
  by (simp add: stack_ok_def)

lemma other_kept_tempbuf [simp]: "other_kept idx st (st\<lparr>st_tempbuf := b\<rparr>)"
  by (simp add: other_kept_def)

lemma ecx_recvpkt_runs:
  assumes os: "good_os E now" and st: "get_stack p s = Some st"
  shows "runs_to (ecx_recvpkt E s p) (\<lambda>(got, p').
    nic_step now idx p p' \<and> (\<exists>b. get_stack p' s = Some (st\<lparr>st_tempbuf := b\<rparr>) \<and>
      (got \<longrightarrow> rx_len b ETH_HEADERSIZE + 1 < EC_BUFSIZE)))"
proof (cases "os_recv E (st_sock st) EC_BUFSIZE (os p)")
  case (Pair r e)
  have e: "now (os p) \<le> now e" using good_os_recv [OF os Pair] .
  show ?thesis
  proof (cases r)
    case None
    with Pair e st show ?thesis
      by (auto simp: ecx_recvpkt_def Let_def intro!: exI [of _ "st_tempbuf st"])
  next
    case (Some bs)
    have fits: "frame_fits bs" by (rule good_os_recv_fits [OF os Pair [unfolded Some]])
    let ?n = "min EC_BUFSIZE (length bs)"
    have rx: "rx_len (memcpy (st_tempbuf st) 0 (buf_of bs) 0 ?n) ETH_HEADERSIZE + 1 < EC_BUFSIZE"
      using fits by (simp add: frame_fits_def rx_len_def)
    have "nic_step now idx p (put_stack (p\<lparr>tempinbufs := int ?n, os := e\<rparr>) s
      (st\<lparr>st_tempbuf := memcpy (st_tempbuf st) 0 (buf_of bs) 0 ?n\<rparr>))"
      using st e by (intro nic_step_put_stack [where st = st]) simp_all
    with Pair Some st rx show ?thesis
      by (simp add: ecx_recvpkt_def Let_def) blast
  qed
qed

lemma get_stack_zero: "get_stack p 0 \<noteq> None"
  by (simp add: get_stack_def)

lemma rx_wkc_range [simp]: "- 1 < rx_wkc b l" "0 \<le> rx_wkc b l"
  by (simp_all add: rx_wkc_def order_less_le_trans [of _ 0])

lemma ecx_inframe_runs:
  assumes os: "good_os E now" and ok: "port_ok p" and rdy: "frame_ready idx p"
    and sn: "get_stack p s \<noteq> None"
  shows "runs_to (ecx_inframe E idx s p) (\<lambda>(wkc, p'). nic_step now idx p p')"
proof -
  from sn obtain st where st: "get_stack p s = Some st" by blast
  have idx: "idx < EC_MAXBUF" and len: "28 \<le> txbuflength p idx" "txbuflength p idx \<le> EC_BUFSIZE"
    using rdy by (simp_all add: frame_ready_def)
  have sok: "stack_ok (txbuflength p) st" using ok st by (auto simp: port_ok_def)
  show ?thesis
  proof (cases "st_rxbufstat st idx = EC_BUF_RCVD")
    case True
    have "nic_step now idx p (put_stack p s (st\<lparr>st_rxbufstat := (st_rxbufstat st)(idx := EC_BUF_COMPLETE)\<rparr>))"
      by (rule nic_step_put_stack [OF st st]) (auto simp: other_kept_def stack_ok_def)
    moreover have "rx_len (st_rxbuf st idx) 0 + 1 < EC_BUFSIZE"
      using sok idx True by (simp add: stack_ok_def)
    ultimately show ?thesis
      using True st idx by (simp add: ecx_inframe_def Let_def rx_len_rxbuf del: One_nat_def)
  next
    case False
    have rec: "runs_to (ecx_recvpkt E s p) (\<lambda>(got, p'). nic_step now idx p p' \<and>
       (\<exists>b. get_stack p' s = Some (st\<lparr>st_tempbuf := b\<rparr>) \<and>
      (got \<longrightarrow> rx_len b ETH_HEADERSIZE + 1 < EC_BUFSIZE)))"
      by (rule ecx_recvpkt_runs [OF os st])
    then obtain got p1 b where r: "ecx_recvpkt E s p = Some (got, p1)"
      and p1: "nic_step now idx p p1" and g1: "get_stack p1 s = Some (st\<lparr>st_tempbuf := b\<rparr>)"
      and b: "got \<longrightarrow> rx_len b ETH_HEADERSIZE + 1 < EC_BUFSIZE"
      by (auto simp: runs_to_iff)
    have len1: "txbuflength p1 = txbuflength p" using p1 by (simp add: nic_step_def)
    let ?st = "st\<lparr>st_tempbuf := b\<rparr>"
    let ?sa = "htons (rd16 b 8)"
    have sok1: "stack_ok (txbuflength p1) ?st" using sok len1 by simp
    define own where "own m = put_stack p1 s (?st\<lparr>st_rxbuf := (st_rxbuf st)(idx := m),
      st_rxbufstat := (st_rxbufstat st)(idx := EC_BUF_COMPLETE), st_rxsa := (st_rxsa st)(idx := ?sa)\<rparr>)" for m
    define other where "other i m = put_stack p1 s (?st\<lparr>st_rxbuf := (st_rxbuf st)(i := m),
      st_rxbufstat := (st_rxbufstat st)(i := EC_BUF_RCVD), st_rxsa := (st_rxsa st)(i := ?sa)\<rparr>)" for i m
    have o: "nic_step now idx p (own m)" if "rx_len m 0 + 1 < EC_BUFSIZE" for m
      unfolding own_def
      by (rule nic_step_trans [OF p1], rule nic_step_put_stack [OF g1 g1])
        (use that in \<open>auto simp: other_kept_def stack_ok_def\<close>)
    have q: "nic_step now idx p (other i m)"
      if "st_rxbufstat st i = EC_BUF_TX" "rx_len m 0 + 1 < EC_BUFSIZE" for i m
      unfolding other_def
      by (rule nic_step_trans [OF p1], rule nic_step_put_stack [OF g1 g1])
        (use that in \<open>auto simp: other_kept_def stack_ok_def\<close>)
    have tx: "ETH_HEADERSIZE \<le> txbuflength p i" "txbuflength p i \<le> EC_BUFSIZE"
      "2 \<le> txbuflength p i - ETH_HEADERSIZE"
      if "i < EC_MAXBUF" "st_rxbufstat st i = EC_BUF_TX" for i
      using sok that by (auto simp: stack_ok_def)
    show ?thesis
      using False st r g1 p1 b idx len len1 o q
      by (auto simp: ecx_inframe_def Let_def own_def other_def rx_len_memcpy tx)
  qed
qed

lemma ecx_outframe_runs:
  assumes os: "good_os E now" and rdy: "frame_ready idx p" and sn: "get_stack p s \<noteq> None"
  shows "runs_to (ecx_outframe E idx s p) (\<lambda>(r, p'). nic_step now idx p p')"
proof -
  from sn obtain st where st: "get_stack p s = Some st" by blast
  obtain r e where se: "os_send E (st_sock st) (bytes_of (txbuf p idx) 0 (txbuflength p idx)) (os p) = (r, e)"
    by fastforce
  have e: "now (os p) \<le> now e" by (rule good_os_send [OF os se])
  have "nic_step now idx p (put_stack (p\<lparr>os := e\<rparr>) s
      (st\<lparr>st_rxbufstat := (st_rxbufstat st)(idx := b)\<rparr>))"
    if "b \<in> {EC_BUF_TX, EC_BUF_EMPTY}" for b
    using rdy st e that
    by (intro nic_step_put_stack [where st = st]) (auto simp: other_kept_def stack_ok_def frame_ready_def)
  then show ?thesis
    using rdy st se by (auto simp: ecx_outframe_def Let_def frame_ready_def)
qed

lemma nic_step_txbuf:
  "nic_step now idx p (p\<lparr>txbuf := (txbuf p)(idx := b)\<rparr>)"
  by (simp add: nic_step_def port_ok_def)

lemma nic_step_red:
  assumes r: "redport p = Some r" and rdy: "frame_ready idx p" and e: "now (os p) \<le> now e"
    and b: "b \<in> {EC_BUF_TX, EC_BUF_EMPTY}"
  shows "nic_step now idx p (p\<lparr>txbuf2 := f, os := e,
    redport := Some (r\<lparr>red_rxbufstat := (red_rxbufstat r)(idx := b)\<rparr>)\<rparr>)" (is "nic_step _ _ _ ?q")
proof -
  obtain st where st: "get_stack p 1 = Some st" and
    st_def: "st = \<lparr>st_sock = red_sockhandle r, st_tempbuf = red_tempinbuf r,
      st_rxbuf = red_rxbuf r, st_rxbufstat = red_rxbufstat r, st_rxsa = red_rxsa r\<rparr>"
    using r by (simp add: get_stack_def)
  have q: "?q = put_stack (p\<lparr>txbuf2 := f, os := e\<rparr>) 1
      (st\<lparr>st_rxbufstat := (st_rxbufstat st)(idx := b)\<rparr>)"
    by (simp add: put_stack_def st_def)
  have "nic_step now idx p (p\<lparr>txbuf2 := f, os := e\<rparr>)"
    using e by (auto simp: nic_step_def port_ok_def)
  then show ?thesis
    unfolding q using rdy st b
    by (intro nic_step_put_stack [where st = st]) (auto simp: other_kept_def stack_ok_def frame_ready_def)
qed

lemma ecx_outframe_red_runs:
  assumes os: "good_os E now" and ok: "port_ok p" and rdy: "frame_ready idx p"
  shows "runs_to (ecx_outframe_red E idx p) (\<lambda>(r, p'). nic_step now idx p p')"
proof -
  define p1 where "p1 = p\<lparr>txbuf := (txbuf p)(idx := wr16 (txbuf p idx) 8 (htons RX_PRIM))\<rparr>"
  have s1: "nic_step now idx p p1" unfolding p1_def by (rule nic_step_txbuf)
  have rdy1: "frame_ready idx p1" using rdy by (simp add: p1_def frame_ready_def)
  from ecx_outframe_runs [OF os rdy1 get_stack_zero] obtain rv p2
    where o: "ecx_outframe E idx 0 p1 = Some (rv, p2)" and s2: "nic_step now idx p1 p2"
    by (auto simp: runs_to_iff)
  have s: "nic_step now idx p p2" by (rule nic_step_trans [OF s1 s2])
  have ok2: "port_ok p2" and rdy2: "frame_ready idx p2"
    using s ok rdy by (simp_all add: nic_step_ok nic_step_ready)
  have idx: "idx < EC_MAXBUF" using rdy by (simp add: frame_ready_def)
  show ?thesis
  proof (cases "redstate p2 = ECT_RED_NONE")
    case True
    with idx o s show ?thesis by (simp add: ecx_outframe_red_def Let_def p1_def)
  next
    case False
    with ok2 obtain r where r: "redport p2 = Some r" and l2: "txbuflength2 p2 \<le> EC_BUFSIZE"
      by (auto simp: port_ok_def)
    obtain r2 e where se: "os_send E (red_sockhandle r) (bytes_of
        (wr16 ((txbuf2 p2)(ETH_HEADERSIZE + 3 := of_nat idx)) 8 (htons RX_SEC)) 0 (txbuflength2 p2)) (os p2) = (r2, e)"
      by fastforce
    have "now (os p2) \<le> now e" by (rule good_os_send [OF os se])
    from nic_step_red [OF r rdy2 this] have
      "nic_step now idx p (p2\<lparr>txbuf2 := f, os := e,
         redport := Some (r\<lparr>red_rxbufstat := (red_rxbufstat r)(idx := b)\<rparr>)\<rparr>)"
      if "b \<in> {EC_BUF_TX, EC_BUF_EMPTY}" for b f
      using s that by (blast intro: nic_step_trans)
    with idx o False r l2 se show ?thesis by (simp add: ecx_outframe_red_def Let_def p1_def)
  qed
qed

lemma and_not_expired_runs:
  assumes "good_os E now" "and_not_expired E timer c p = (again, p')"
  shows "nic_step now idx p p'"
    and "again \<Longrightarrow> c \<and> now (os p) < now (os p') \<and> now (os p') < timer_limit timer"
    and "\<not> again \<Longrightarrow> c \<Longrightarrow> unat (tm_usec timer) < USECS_PER_SEC \<Longrightarrow>
      timer_usecs timer \<le> now (os p') div 1000"
  using assms osal_timer_is_expired_clock [OF assms(1)] osal_timer_is_expired_usecs [OF assms(1)]
  by (auto simp: and_not_expired_def split: if_splits prod.splits) fastforce+

lemma port_timer_start_runs:
  assumes "good_os E now" "port_timer_start E timeout p = (t, p')"
  shows "nic_step now idx p p'"
  using assms osal_timer_start_clock [OF assms(1)]
  by (auto simp: port_timer_start_def split: prod.splits) fastforce

text \<open>The deadline of a timer has passed at the clock reading \<open>n\<close> (in nanoseconds).\<close>

definition expired :: "ec_timet \<Rightarrow> nat \<Rightarrow> bool" where
  "expired t n \<longleftrightarrow> (unat (tm_usec t) < USECS_PER_SEC \<longrightarrow> timer_usecs t \<le> n div 1000)"

lemma expired_later: "expired t n \<Longrightarrow> n \<le> m \<Longrightarrow> expired t m"
  using div_le_mono [of n m 1000] by (auto simp: expired_def)

lemma redport_stack: "redport p \<noteq> None \<Longrightarrow> get_stack p s \<noteq> None"
  by (simp add: get_stack_def)

lemma get_stack_redundant: "port_ok p \<Longrightarrow> redstate p \<noteq> ECT_RED_NONE \<Longrightarrow> get_stack p s \<noteq> None"
  by (simp add: port_ok_def redport_stack del: not_None_eq)

lemma wait_both_runs:
  assumes os: "good_os E now" and ok: "port_ok p" and rdy: "frame_ready idx p"
  shows "runs_to (wait_both E idx timer (w, w2, p)) (\<lambda>(wkc, wkc2, p'). nic_step now idx p p' \<and>
    (wkc > EC_NOFRAME \<and> wkc2 > EC_NOFRAME \<or> expired timer (now (os p'))))"
  unfolding wait_both_def
proof (rule do_while_total [where I = "\<lambda>(w, w2, q). nic_step now idx p q"
      and R = "measure (\<lambda>(w, w2, q). timer_limit timer - now (os q))"], goal_cases)
  case I: (3 a)
  obtain w w2 q where a: "a = (w, w2, q)" by (cases a)
  have q: "nic_step now idx p q" using I a by simp
  have qok: "port_ok q" "frame_ready idx q" using q ok rdy by (simp_all add: nic_step_ok nic_step_ready)
  have "runs_to (if w \<le> EC_NOFRAME then ecx_inframe E idx 0 q else Some (w, q))
      (\<lambda>(w, q'). nic_step now idx q q')"
    using ecx_inframe_runs [OF os qok get_stack_zero] by auto
  then obtain w' q1 where
    e1: "(if w \<le> EC_NOFRAME then ecx_inframe E idx 0 q else Some (w, q)) = Some (w', q1)"
    and s1: "nic_step now idx q q1" by (auto simp: runs_to_iff)
  have q1ok: "port_ok q1" "frame_ready idx q1" using s1 qok by (simp_all add: nic_step_ok nic_step_ready)
  have "runs_to (if redstate q1 \<noteq> ECT_RED_NONE \<and> w2 \<le> EC_NOFRAME
      then ecx_inframe E idx 1 q1 else Some (w2, q1)) (\<lambda>(w, q'). nic_step now idx q1 q')"
    using ecx_inframe_runs [OF os q1ok] get_stack_redundant [OF q1ok(1)] by auto
  then obtain w2' q2 where
    e2: "(if redstate q1 \<noteq> ECT_RED_NONE \<and> w2 \<le> EC_NOFRAME
      then ecx_inframe E idx 1 q1 else Some (w2, q1)) = Some (w2', q2)"
    and s2: "nic_step now idx q1 q2" by (auto simp: runs_to_iff)
  obtain again q3 where
    e3: "and_not_expired E timer (w' \<le> EC_NOFRAME \<or> w2' \<le> EC_NOFRAME) q2 = (again, q3)" by fastforce
  note t = and_not_expired_runs [OF os e3]
  have pq3: "nic_step now idx p q3" using q s1 s2 t(1) by (blast intro: nic_step_trans)
  have "now (os q) \<le> now (os q2)" using nic_step_clock [OF nic_step_trans [OF s1 s2]] .
  then have "again \<Longrightarrow> timer_limit timer - now (os q3) < timer_limit timer - now (os q)"
    using t(2) by auto
  moreover have "w' > EC_NOFRAME \<and> w2' > EC_NOFRAME \<or> expired timer (now (os q3))" if "\<not> again"
    using t(3) [OF that] unfolding expired_def not_le [symmetric] by blast
  ultimately show ?case
    using pq3 unfolding a prod.case e1 e2 e3 Let_def Option.bind.bind_lunit runs_to_simps by simp
qed simp_all

lemma wait_secondary_runs:
  assumes os: "good_os E now" and ok: "port_ok p" and rdy: "frame_ready idx p"
    and red: "redport p \<noteq> None"
  shows "runs_to (wait_secondary E idx timer (w2, p)) (\<lambda>(wkc2, p'). nic_step now idx p p')"
  unfolding wait_secondary_def
proof (rule do_while_total [where I = "\<lambda>(w2, q). nic_step now idx p q"
      and R = "measure (\<lambda>(w2, q). timer_limit timer - now (os q))"], goal_cases)
  case I: (3 a)
  obtain w2 q where a: "a = (w2, q)" by (cases a)
  have q: "nic_step now idx p q" using I a by simp
  have qok: "port_ok q" "frame_ready idx q" using q ok rdy by (simp_all add: nic_step_ok nic_step_ready)
  have "redport q \<noteq> None" using q red by (simp add: nic_step_def)
  from ecx_inframe_runs [OF os qok redport_stack [OF this], of 1] obtain w2' q2 where
    e2: "ecx_inframe E idx 1 q = Some (w2', q2)" and s2: "nic_step now idx q q2"
    by (auto simp: runs_to_iff)
  obtain again q3 where e3: "and_not_expired E timer (w2' \<le> EC_NOFRAME) q2 = (again, q3)" by fastforce
  note t = and_not_expired_runs [OF os e3]
  have pq3: "nic_step now idx p q3" using q s2 t(1) by (blast intro: nic_step_trans)
  have "now (os q) \<le> now (os q2)" using nic_step_clock [OF s2] .
  then have "again \<Longrightarrow> timer_limit timer - now (os q3) < timer_limit timer - now (os q)"
    using t(2) by auto
  then show ?case
    using pq3 unfolding a prod.case e2 e3 Let_def Option.bind.bind_lunit runs_to_simps by simp
qed simp_all

lemma nic_step_rxbuf:
  assumes "rx_len b 0 + 1 < EC_BUFSIZE"
  shows "nic_step now idx p (p\<lparr>rxbuf := (rxbuf p)(idx := b)\<rparr>)"
proof -
  obtain st where st: "get_stack p 0 = Some st" and rx: "st_rxbuf st = rxbuf p"
    by (simp add: get_stack_def)
  have "p\<lparr>rxbuf := (rxbuf p)(idx := b)\<rparr> = put_stack p 0 (st\<lparr>st_rxbuf := (rxbuf p)(idx := b)\<rparr>)"
    using st by (auto simp: put_stack_def get_stack_def)
  moreover have "nic_step now idx p (put_stack p 0 (st\<lparr>st_rxbuf := (rxbuf p)(idx := b)\<rparr>))"
    using assms rx by (intro nic_step_put_stack [OF st st]) (auto simp: other_kept_def stack_ok_def)
  ultimately show ?thesis by simp
qed

lemma copy_secondary_runs:
  assumes ok: "port_ok p" and red: "redport p \<noteq> None" and rdy: "frame_ready idx p"
  shows "runs_to (copy_secondary idx p) (\<lambda>p'. nic_step now idx p p')"
proof -
  obtain r where r: "redport p = Some r" using red by blast
  obtain st where st: "get_stack p 1 = Some st" and rx: "st_rxbuf st = red_rxbuf r"
    using r by (simp add: get_stack_def)
  have "rx_len (red_rxbuf r idx) 0 + 1 < EC_BUFSIZE"
    using ok st rdy unfolding rx [symmetric] port_ok_def stack_ok_def frame_ready_def by blast
  then show ?thesis
    using r rdy by (auto simp: copy_secondary_def frame_ready_def rx_len_memcpy intro!: nic_step_rxbuf)
qed

lemma redundant_decision_runs:
  assumes os: "good_os E now" and ok: "port_ok p" and red: "redport p \<noteq> None" and rdy: "frame_ready idx p"
  shows "runs_to (redundant_decision E idx wkc wkc2 p) (\<lambda>(w, p'). nic_step now idx p p' \<and>
    (wkc > EC_NOFRAME \<longrightarrow> w > EC_NOFRAME))"
proof -
  obtain r where r: "redport p = Some r" using red by blast
  define primrx where "primrx = (if wkc > EC_NOFRAME then rxsa p idx else 0)"
  define secrx where "secrx = (if wkc2 > EC_NOFRAME then red_rxsa r idx else 0)"
  note rules = ok red rdy
  have "runs_to (if primrx = RX_SEC \<and> secrx = RX_PRIM
        then do { p \<leftarrow> copy_secondary idx p; Some (wkc2, p) } else Some (wkc, p))
      (\<lambda>(w, p'). nic_step now idx p p' \<and> (wkc > EC_NOFRAME \<longrightarrow> w > EC_NOFRAME))"
    using copy_secondary_runs [OF rules]
    by (auto simp: secrx_def split: if_splits elim: runs_to_mono)
  then obtain w p1 where e1: "(if primrx = RX_SEC \<and> secrx = RX_PRIM
        then do { p \<leftarrow> copy_secondary idx p; Some (wkc2, p) } else Some (wkc, p)) = Some (w, p1)"
    and s1: "nic_step now idx p p1" and w: "wkc > EC_NOFRAME \<longrightarrow> w > EC_NOFRAME"
    by (auto simp only: runs_to_iff prod.case)
  have p1: "frame_ready idx p1" using s1 rdy by (simp add: nic_step_ready)
  define m where "m = (if primrx = RX_PRIM \<and> secrx = RX_SEC
         then do {
           chk (idx < EC_MAXBUF \<and> ETH_HEADERSIZE \<le> txbuflength p1 idx \<and> txbuflength p1 idx \<le> EC_BUFSIZE);
           Some (p1\<lparr>txbuf := (txbuf p1)(idx := memcpy (txbuf p1 idx) ETH_HEADERSIZE (rxbuf p1 idx) 0
             (txbuflength p1 idx - ETH_HEADERSIZE))\<rparr>) }
         else Some p1)"
  have "runs_to m (nic_step now idx p1)"
    using p1 by (simp add: m_def frame_ready_def nic_step_txbuf)
  then obtain p2 where e2: "m = Some p2" and s2: "nic_step now idx p1 p2" by (auto simp: runs_to_iff)
  obtain timer2 p3 where e3: "port_timer_start E EC_TIMEOUTRET p2 = (timer2, p3)" by fastforce
  have s3: "nic_step now idx p p3"
    using s1 s2 port_timer_start_runs [OF os e3] by (blast intro: nic_step_trans)
  have p3: "port_ok p3" "frame_ready idx p3" "redport p3 \<noteq> None"
    using nic_step_ok [OF s3 ok] nic_step_ready [OF s3] s3 rdy red by (auto simp: nic_step_def)
  from ecx_outframe_runs [OF os p3(2) redport_stack [OF p3(3)], of 1] obtain rv p4
    where e4: "ecx_outframe E idx 1 p3 = Some (rv, p4)" and s4: "nic_step now idx p3 p4"
    by (auto simp: runs_to_iff)
  have s04: "nic_step now idx p p4" by (rule nic_step_trans [OF s3 s4])
  have p4: "port_ok p4" "frame_ready idx p4" "redport p4 \<noteq> None"
    using nic_step_ok [OF s04 ok] nic_step_ready [OF s04] s04 rdy red by (auto simp: nic_step_def)
  from wait_secondary_runs [OF os p4] obtain w5 p5
    where e5: "wait_secondary E idx timer2 (wkc2, p4) = Some (w5, p5)" and s5: "nic_step now idx p4 p5"
    by (fastforce simp: runs_to_iff)
  have s05: "nic_step now idx p p5" by (rule nic_step_trans [OF s04 s5])
  have p5: "port_ok p5" "redport p5 \<noteq> None" "frame_ready idx p5"
    using nic_step_ok [OF s05 ok] nic_step_ready [OF s05] s05 rdy red by (auto simp: nic_step_def)
  have fin: "runs_to (if w5 > EC_NOFRAME then do { p \<leftarrow> copy_secondary idx p5; Some (w5, p) } else Some (w, p5))
    (\<lambda>(w, p'). nic_step now idx p p' \<and> (wkc > EC_NOFRAME \<longrightarrow> w > EC_NOFRAME))"
    using w s05 runs_to_mono [where Q = "nic_step now idx p", OF copy_secondary_runs [OF p5]]
      nic_step_trans [OF s05] by auto
  have eq: "redundant_decision E idx wkc wkc2 p =
    (if primrx = 0 \<and> secrx = RX_SEC \<or> primrx = RX_PRIM \<and> secrx = RX_SEC
     then if w5 > EC_NOFRAME then do { p \<leftarrow> copy_secondary idx p5; Some (w5, p) } else Some (w, p5)
     else Some (w, p1))"
    unfolding redundant_decision_def r option.case Let_def primrx_def [symmetric] secrx_def [symmetric]
      e1 Option.bind.bind_lunit prod.case m_def [symmetric] e2 e3 e4 e5 ..
  show ?thesis
  proof (cases "primrx = 0 \<and> secrx = RX_SEC \<or> primrx = RX_PRIM \<and> secrx = RX_SEC")
    case True
    with fin show ?thesis unfolding eq by (simp only: if_True)
  next
    case False
    with s1 w show ?thesis unfolding eq by (simp only: if_False runs_to_simps prod.case simp_thms)
  qed
qed

lemma ecx_waitinframe_red_runs:
  assumes os: "good_os E now" and ok: "port_ok p" and rdy: "frame_ready idx p"
  shows "runs_to (ecx_waitinframe_red E idx timer p) (\<lambda>(wkc, p'). nic_step now idx p p' \<and>
    (wkc > EC_NOFRAME \<or> expired timer (now (os p'))))"
proof -
  define w2 where "w2 = (if redstate p = ECT_RED_NONE then 0 else EC_NOFRAME)"
  have "runs_to (wait_both E idx timer (EC_NOFRAME, w2, p)) (\<lambda>(wkc, wkc2, p'). nic_step now idx p p' \<and>
    (wkc > EC_NOFRAME \<and> wkc2 > EC_NOFRAME \<or> expired timer (now (os p'))))"
    by (rule wait_both_runs [OF os ok rdy])
  then obtain wkc wkc2 p1 where e1: "wait_both E idx timer (EC_NOFRAME, w2, p) = Some (wkc, wkc2, p1)"
    and s1: "nic_step now idx p p1"
    and x: "wkc > EC_NOFRAME \<and> wkc2 > EC_NOFRAME \<or> expired timer (now (os p1))"
    by (auto simp only: runs_to_iff prod.case)
  have p1: "port_ok p1" "frame_ready idx p1"
    using nic_step_ok [OF s1 ok] nic_step_ready [OF s1] rdy by auto
  show ?thesis
  proof (cases "redstate p1 = ECT_RED_NONE")
    case True
    with e1 s1 x show ?thesis
      unfolding ecx_waitinframe_red_def Let_def w2_def [symmetric] by auto
  next
    case False
    then have "redport p1 \<noteq> None" using p1 by (auto simp: port_ok_def)
    from redundant_decision_runs [OF os p1(1) this p1(2), of wkc wkc2] obtain w p2
      where e2: "redundant_decision E idx wkc wkc2 p1 = Some (w, p2)" and s2: "nic_step now idx p1 p2"
        and y: "wkc > EC_NOFRAME \<longrightarrow> w > EC_NOFRAME"
      by (auto simp only: runs_to_iff prod.case)
    have "w > EC_NOFRAME \<or> expired timer (now (os p2))"
      using x y expired_later [OF _ nic_step_clock [OF s2]] by blast
    with False e1 e2 nic_step_trans [OF s1 s2] show ?thesis
      unfolding ecx_waitinframe_red_def Let_def w2_def [symmetric] by simp
  qed
qed

lemma ecx_waitinframe_runs:
  assumes os: "good_os E now" and ok: "port_ok p" and rdy: "frame_ready idx p"
  shows "runs_to (ecx_waitinframe E idx timeout p) (\<lambda>(wkc, p'). nic_step now idx p p')"
proof -
  obtain t p1 where e: "port_timer_start E timeout p = (t, p1)" by fastforce
  have s: "nic_step now idx p p1" by (rule port_timer_start_runs [OF os e])
  have "port_ok p1" "frame_ready idx p1"
    using nic_step_ok [OF s ok] nic_step_ready [OF s] rdy by auto
  from ecx_waitinframe_red_runs [OF os this, of t] e nic_step_trans [OF s] show ?thesis
    by (auto simp: ecx_waitinframe_def elim!: runs_to_mono)
qed

lemma ecx_srconfirm_runs:
  assumes os: "good_os E now" and ok: "port_ok p" and rdy: "frame_ready idx p"
  shows "runs_to (ecx_srconfirm E idx timeout p) (\<lambda>(wkc, p'). nic_step now idx p p' \<and>
    (wkc > EC_NOFRAME \<or> expired (fst (port_timer_start E timeout p)) (now (os p'))))"
proof -
  obtain t p0 where e: "port_timer_start E timeout p = (t, p0)" by fastforce
  have s0: "nic_step now idx p p0" by (rule port_timer_start_runs [OF os e])
  show ?thesis
    unfolding ecx_srconfirm_def Let_def e prod.case fst_conv
  proof (rule do_while_total [where I = "\<lambda>(w, q). nic_step now idx p q"
      and R = "measure (\<lambda>(w, q). timer_limit t - now (os q))"], goal_cases)
    case I: (3 a)
    obtain w q where a: "a = (w, q)" by (cases a)
    have q: "nic_step now idx p q" using I a by simp
    have qok: "port_ok q" "frame_ready idx q" using nic_step_ok [OF q ok] nic_step_ready [OF q] rdy by auto
    from ecx_outframe_red_runs [OF os qok] obtain rv q1
      where e1: "ecx_outframe_red E idx q = Some (rv, q1)" and s1: "nic_step now idx q q1"
      by (auto simp: runs_to_iff)
    obtain t2 q2 where e2: "port_timer_start E
        (if timeout < EC_TIMEOUTRET then timeout else EC_TIMEOUTRET) q1 = (t2, q2)" by fastforce
    have s2: "nic_step now idx q q2" by (rule nic_step_trans [OF s1 port_timer_start_runs [OF os e2]])
    have q2ok: "port_ok q2" "frame_ready idx q2"
      using nic_step_ok [OF s2 qok(1)] nic_step_ready [OF s2] qok by auto
    from ecx_waitinframe_red_runs [OF os q2ok] obtain w3 q3
      where e3: "ecx_waitinframe_red E idx t2 q2 = Some (w3, q3)" and s3: "nic_step now idx q2 q3"
      by (fastforce simp: runs_to_iff)
    obtain again q4 where e4: "and_not_expired E t (w3 \<le> EC_NOFRAME) q3 = (again, q4)" by fastforce
    note x = and_not_expired_runs [OF os e4]
    have s: "nic_step now idx p q4" using q s2 s3 x(1) by (blast intro: nic_step_trans)
    have "now (os q) \<le> now (os q3)" using nic_step_clock [OF nic_step_trans [OF s2 s3]] .
    then have "again \<Longrightarrow> timer_limit t - now (os q4) < timer_limit t - now (os q)"
      using x(2) by auto
    moreover have "w3 > EC_NOFRAME \<or> expired t (now (os q4))" if "\<not> again"
      using x(3) [OF that] unfolding expired_def not_le [symmetric] by blast
    ultimately show ?case
      using s unfolding a prod.case e1 e2 e3 e4 Let_def Option.bind.bind_lunit runs_to_simps by simp
  qed (simp_all add: s0)
qed

section \<open>Allocation of indices\<close>

lemma find_index_lt: "idx < EC_MAXBUF \<Longrightarrow> find_index stat idx cnt < EC_MAXBUF"
proof (induction stat idx cnt rule: find_index.induct)
  case (1 stat idx cnt)
  then show ?case by (subst find_index.simps) auto
qed

lemma find_index_ring:
  assumes "idx < EC_MAXBUF" "\<forall>j < k. stat ((idx + j) mod EC_MAXBUF) \<noteq> EC_BUF_EMPTY"
    and "cnt + k \<le> EC_MAXBUF" "cnt + k = EC_MAXBUF \<or> stat ((idx + k) mod EC_MAXBUF) = EC_BUF_EMPTY"
  shows "find_index stat idx cnt = (idx + k) mod EC_MAXBUF"
  using assms
proof (induction k arbitrary: idx cnt)
  case 0
  then show ?case by (subst find_index.simps) auto
next
  case (Suc k)
  let ?next = "if idx + 1 \<ge> EC_MAXBUF then 0 else idx + 1"
  have next_mod: "(?next + j) mod EC_MAXBUF = (idx + Suc j) mod EC_MAXBUF" for j
  proof (cases "idx + 1 \<ge> EC_MAXBUF")
    case True
    then have "idx + Suc j = EC_MAXBUF + j" using Suc.prems(1) by simp
    then show ?thesis using True by (simp only: if_True mod_add_self1 add_0)
  qed simp
  have "stat (idx mod EC_MAXBUF) \<noteq> EC_BUF_EMPTY" using Suc.prems(2) by (auto dest!: spec [of _ 0])
  then have busy: "stat idx \<noteq> EC_BUF_EMPTY" using Suc.prems(1) by simp
  have "find_index stat ?next (cnt + 1) = (?next + k) mod EC_MAXBUF"
  proof (rule Suc.IH)
    show "\<forall>j < k. stat ((?next + j) mod EC_MAXBUF) \<noteq> EC_BUF_EMPTY"
      unfolding next_mod using Suc.prems(2) by auto
    show "cnt + 1 + k = EC_MAXBUF \<or> stat ((?next + k) mod EC_MAXBUF) = EC_BUF_EMPTY"
      unfolding next_mod using Suc.prems(4) by auto
  qed (use Suc.prems in auto)
  then show ?case
    using busy Suc.prems(3) unfolding next_mod by (subst find_index.simps) simp
qed

lemma ecx_setbufstat_runs:
  assumes ok: "port_ok p" and idx: "idx < EC_MAXBUF" and v: "v \<noteq> EC_BUF_TX"
  shows "runs_to (ecx_setbufstat idx v p) (\<lambda>p'. nic_step now idx p p' \<and> rxbufstat p' = (rxbufstat p)(idx := v) \<and>
    rxbuf p' = rxbuf p \<and> txbuf p' = txbuf p \<and> os p' = os p)"
proof -
  obtain st where st: "get_stack p 0 = Some st" and rx: "st_rxbufstat st = rxbufstat p"
    by (simp add: get_stack_def)
  define p1 where "p1 = p\<lparr>rxbufstat := (rxbufstat p)(idx := v)\<rparr>"
  have "p1 = put_stack p 0 (st\<lparr>st_rxbufstat := (rxbufstat p)(idx := v)\<rparr>)"
    using st by (auto simp: p1_def put_stack_def get_stack_def)
  moreover have "nic_step now idx p (put_stack p 0 (st\<lparr>st_rxbufstat := (rxbufstat p)(idx := v)\<rparr>))"
    using v rx by (intro nic_step_put_stack [OF st st]) (auto simp: other_kept_def stack_ok_def)
  ultimately have s1: "nic_step now idx p p1" by simp
  have f1: "redport p1 = redport p" "redstate p1 = redstate p" by (simp_all add: p1_def)
  have ok1: "port_ok p1" by (rule nic_step_ok [OF s1 ok])
  have "nic_step now idx p (p1\<lparr>redport := Some (r\<lparr>red_rxbufstat := (red_rxbufstat r)(idx := v)\<rparr>)\<rparr>)"
    if r: "redport p = Some r" for r
  proof -
    obtain s2 where s2: "get_stack p1 1 = Some s2" and
      s2_def: "s2 = \<lparr>st_sock = red_sockhandle r, st_tempbuf = red_tempinbuf r,
        st_rxbuf = red_rxbuf r, st_rxbufstat = red_rxbufstat r, st_rxsa = red_rxsa r\<rparr>"
      using r by (simp add: get_stack_def f1)
    have "p1\<lparr>redport := Some (r\<lparr>red_rxbufstat := (red_rxbufstat r)(idx := v)\<rparr>)\<rparr> =
        put_stack p1 1 (s2\<lparr>st_rxbufstat := (st_rxbufstat s2)(idx := v)\<rparr>)"
      by (simp add: put_stack_def s2_def)
    moreover have "nic_step now idx p1 (put_stack p1 1 (s2\<lparr>st_rxbufstat := (st_rxbufstat s2)(idx := v)\<rparr>))"
      using v by (intro nic_step_put_stack [OF s2 s2]) (auto simp: other_kept_def stack_ok_def)
    ultimately show ?thesis using nic_step_trans [OF s1] by simp
  qed
  moreover have "redstate p \<noteq> ECT_RED_NONE \<Longrightarrow> \<exists>r. redport p = Some r"
    using ok by (auto simp: port_ok_def)
  ultimately show ?thesis
    using s1 idx unfolding ecx_setbufstat_def p1_def [symmetric] Let_def
    by (auto simp: f1) (simp_all add: p1_def)
qed

text \<open>
  A step of the port as the datagram layer sees it: the configuration and the invariant stay, the
  clock does not run back.
\<close>

definition port_step :: "('e \<Rightarrow> nat) \<Rightarrow> 'e ecx_portt \<Rightarrow> 'e ecx_portt \<Rightarrow> bool" where
  "port_step now p p' \<longleftrightarrow> redstate p' = redstate p \<and> (redport p' = None \<longleftrightarrow> redport p = None) \<and>
     now (os p) \<le> now (os p') \<and> (port_ok p \<longrightarrow> port_ok p')"

lemma port_step_refl [simp, intro]: "port_step now p p"
  by (simp add: port_step_def)

lemma port_step_trans [trans]: "port_step now p q \<Longrightarrow> port_step now q r \<Longrightarrow> port_step now p r"
  by (auto simp: port_step_def)

lemma nic_step_port_step: "nic_step now idx p p' \<Longrightarrow> port_step now p p'"
  by (simp add: port_step_def nic_step_def)

lemma ecx_getindex_runs:
  assumes ok: "port_ok p"
  shows "runs_to (ecx_getindex p) (\<lambda>(idx, p'). idx < EC_MAXBUF \<and> port_step now p p' \<and>
    rxbufstat p' = (rxbufstat p)(idx := EC_BUF_ALLOC) \<and> lastidx p' = of_nat idx \<and> os p' = os p \<and>
    idx = find_index (rxbufstat p) (if unat (lastidx p + 1) \<ge> EC_MAXBUF then 0 else unat (lastidx p + 1)) 0)"
proof -
  define i where "i = find_index (rxbufstat p) (if unat (lastidx p + 1) \<ge> EC_MAXBUF then 0 else unat (lastidx p + 1)) 0"
  have i: "i < EC_MAXBUF" unfolding i_def by (rule find_index_lt) auto
  from ecx_setbufstat_runs [OF ok i, of EC_BUF_ALLOC now] obtain p' where
    e: "ecx_setbufstat i EC_BUF_ALLOC p = Some p'" and s: "nic_step now i p p'"
    and f: "rxbufstat p' = (rxbufstat p)(i := EC_BUF_ALLOC)" "os p' = os p"
    by (auto simp: runs_to_iff)
  have "port_step now p (p'\<lparr>lastidx := of_nat i\<rparr>)"
    using nic_step_port_step [OF s] by (simp add: port_step_def)
  with e f i show ?thesis
    unfolding ecx_getindex_def Let_def i_def [symmetric] by simp
qed

lemma ring_start:
  assumes "unat (lastidx p) < EC_MAXBUF"
  defines "s \<equiv> if unat (lastidx p + 1) \<ge> EC_MAXBUF then 0 else unat (lastidx p + 1)"
  shows "s < EC_MAXBUF" "(s + j) mod EC_MAXBUF = (unat (lastidx p) + 1 + j) mod EC_MAXBUF"
proof -
  have l: "unat (lastidx p + 1) = unat (lastidx p) + 1" using assms(1) by (simp add: unat_plus_if')
  show "s < EC_MAXBUF" by (simp add: s_def)
  show "(s + j) mod EC_MAXBUF = (unat (lastidx p) + 1 + j) mod EC_MAXBUF"
  proof (cases "unat (lastidx p) + 1 \<ge> EC_MAXBUF")
    case True
    then have "unat (lastidx p) + 1 + j = EC_MAXBUF + j" using assms(1) by simp
    then show ?thesis using True unfolding s_def l by (simp only: if_True mod_add_self1 add_0)
  qed (simp add: s_def l)
qed

section \<open>Properties\<close>

text \<open>
  Indices are handed out round robin: with a free buffer in the pool, \<open>ecx_getindex\<close> returns
  the first free one behind the index it returned last, marks it allocated and leaves every other
  buffer of the pool alone.
\<close>

theorem ecx_getindex_round_robin:
  assumes "port_ok p" "unat (lastidx p) < EC_MAXBUF" "k < EC_MAXBUF"
    and "rxbufstat p ((unat (lastidx p) + 1 + k) mod EC_MAXBUF) = EC_BUF_EMPTY"
    and "\<forall>j < k. rxbufstat p ((unat (lastidx p) + 1 + j) mod EC_MAXBUF) \<noteq> EC_BUF_EMPTY"
  shows "\<exists>p'. ecx_getindex p = Some ((unat (lastidx p) + 1 + k) mod EC_MAXBUF, p') \<and> port_ok p' \<and>
    unat (lastidx p') = (unat (lastidx p) + 1 + k) mod EC_MAXBUF \<and>
    rxbufstat p' = (rxbufstat p)((unat (lastidx p) + 1 + k) mod EC_MAXBUF := EC_BUF_ALLOC)"
proof -
  let ?i = "(unat (lastidx p) + 1 + k) mod EC_MAXBUF"
  define s where "s = (if unat (lastidx p + 1) \<ge> EC_MAXBUF then 0 else unat (lastidx p + 1))"
  have s: "s < EC_MAXBUF" "(s + j) mod EC_MAXBUF = (unat (lastidx p) + 1 + j) mod EC_MAXBUF" for j
    using ring_start [OF assms(2)] unfolding s_def by blast+
  have "find_index (rxbufstat p) s 0 = ?i"
    unfolding s(2) [symmetric] using assms(3-5) s by (intro find_index_ring) (auto simp only: s(2))
  with ecx_getindex_runs [OF assms(1), of "\<lambda>_. 0", folded s_def] obtain p' where
    "ecx_getindex p = Some (?i, p')" "lastidx p' = of_nat ?i" "port_ok p'"
    "rxbufstat p' = (rxbufstat p)(?i := EC_BUF_ALLOC)"
    by (auto simp only: runs_to_iff prod.case port_step_def assms(1) simp_thms)
  moreover have "unat (of_nat ?i :: u8) = ?i"
    by (rule unat_of_nat_u8) (simp add: order_less_le_trans [of _ EC_MAXBUF])
  ultimately show ?thesis by simp
qed

text \<open>
  With all sixteen buffers in use, \<open>ecx_getindex\<close> still returns an index: the one behind the
  last, whose owner thereby loses its buffer. The exhaustion of the pool is not reported.
\<close>

theorem ecx_getindex_exhausted:
  assumes "port_ok p" "unat (lastidx p) < EC_MAXBUF"
    and "\<forall>j < EC_MAXBUF. rxbufstat p j \<noteq> EC_BUF_EMPTY"
  shows "\<exists>p'. ecx_getindex p = Some ((unat (lastidx p) + 1) mod EC_MAXBUF, p') \<and>
    rxbufstat p' ((unat (lastidx p) + 1) mod EC_MAXBUF) = EC_BUF_ALLOC"
proof -
  define s where "s = (if unat (lastidx p + 1) \<ge> EC_MAXBUF then 0 else unat (lastidx p + 1))"
  have s: "s < EC_MAXBUF" "s mod EC_MAXBUF = (unat (lastidx p) + 1) mod EC_MAXBUF"
    using ring_start(1) [OF assms(2)] ring_start(2) [OF assms(2), of 0]
    unfolding s_def add_0_right by blast+
  have "find_index (rxbufstat p) s 0 = (s + EC_MAXBUF) mod EC_MAXBUF"
    using s(1) assms(3) by (intro find_index_ring) simp_all
  then have "find_index (rxbufstat p) s 0 = (unat (lastidx p) + 1) mod EC_MAXBUF"
    unfolding mod_add_self2 s(2) .
  with ecx_getindex_runs [OF assms(1), of "\<lambda>_. 0", folded s_def] show ?thesis
    by (auto simp: runs_to_iff)
qed

lemma rx_wkc_rd16: "rx_wkc b l = int (unat (rd16 b l))"
proof -
  have d: "bit (ucast (b l) :: u32) n \<Longrightarrow> \<not> bit (push_bit 8 (ucast (b (l + 1))) :: u32) n" for n
    by (auto simp: bit_simps dest: bit_imp_le_length)
  have "ucast (b l) + push_bit 8 (ucast (b (l + 1))) =
      (ucast (b l) OR push_bit 8 (ucast (b (l + 1))) :: u32)"
    by (rule disjunctive_add) (use d in auto)
  also have "\<dots> = ucast (rd16 b l)"
    by (rule bit_word_eqI) (auto simp: get_le_numeral bit_simps dest: bit_imp_le_length)
  finally have "rx_wkc b l = uint (ucast (rd16 b l) :: u32)" unfolding rx_wkc_def by (rule arg_cong)
  also have "\<dots> = uint (rd16 b l)" by (rule uint_ucast_u16_u32)
  finally show ?thesis by simp
qed

lemma bytes_of_memcpy:
  "d \<le> off \<Longrightarrow> off + n \<le> d + m \<Longrightarrow> bytes_of (memcpy b d src s m) off n = bytes_of src (s + (off - d)) n"
  by (rule nth_equalityI) (simp_all add: memcpy_apply add.assoc)

lemma bytes_of_buf_of: "off + n \<le> length bs \<Longrightarrow> bytes_of (buf_of bs) off n = take n (drop off bs)"
  by (rule nth_equalityI) (simp_all add: buf_of_def)

text \<open>The port after a frame \<open>f\<close> has been read from the primary socket.\<close>

lemma ecx_recvpkt_primary:
  assumes "os_recv E (sockhandle p) EC_BUFSIZE (os p) = (Some f, e)" "f \<noteq> []" "length f \<le> EC_BUFSIZE"
  shows "ecx_recvpkt E 0 p = Some (True, p\<lparr>os := e, tempinbufs := int (length f),
    tempinbuf := memcpy (tempinbuf p) 0 (buf_of f) 0 (length f)\<rparr>)"
  using assms by (simp add: ecx_recvpkt_def get_stack_def put_stack_def Let_def)

text \<open>A received frame and what the receive path reads from it.\<close>

definition ecat_frame :: "u8 list \<Rightarrow> nat \<Rightarrow> bool" where
  "ecat_frame f j \<longleftrightarrow> rd16 (buf_of f) 12 = htons ETH_P_ECAT \<and> unat (f ! (ETH_HEADERSIZE + 3)) = j \<and>
     28 \<le> length f \<and> length f \<le> EC_BUFSIZE \<and>
     ETH_HEADERSIZE + rx_len (buf_of f) ETH_HEADERSIZE + 2 \<le> length f"

definition frame_wkc :: "u8 list \<Rightarrow> int" where
  "frame_wkc f = int (unat (rd16 (buf_of f) (ETH_HEADERSIZE + rx_len (buf_of f) ETH_HEADERSIZE)))"

lemma ecat_frame_temp:
  assumes "ecat_frame f j"
  defines "tb \<equiv> \<lambda>b. memcpy b 0 (buf_of f) 0 (length f)"
  shows "rd16 (tb b) 12 = htons ETH_P_ECAT" "unat (tb b (ETH_HEADERSIZE + 3)) = j"
    "rx_len (tb b) ETH_HEADERSIZE = rx_len (buf_of f) ETH_HEADERSIZE"
    "rx_wkc (memcpy c 0 (tb b) ETH_HEADERSIZE (length f - ETH_HEADERSIZE)) (rx_len (buf_of f) ETH_HEADERSIZE)
       = frame_wkc f"
    "rx_len (memcpy c 0 (tb b) ETH_HEADERSIZE (length f - ETH_HEADERSIZE)) 0 = rx_len (buf_of f) ETH_HEADERSIZE"
    "bytes_of (memcpy c 0 (tb b) ETH_HEADERSIZE (length f - ETH_HEADERSIZE)) 0 (length f - ETH_HEADERSIZE)
       = drop ETH_HEADERSIZE f"
    "rx_len (buf_of f) ETH_HEADERSIZE + 1 < EC_BUFSIZE"
proof -
  let ?l = "rx_len (buf_of f) ETH_HEADERSIZE"
  have len: "28 \<le> length f" "length f \<le> EC_BUFSIZE" "ETH_HEADERSIZE + ?l + 2 \<le> length f"
    and f: "rd16 (buf_of f) 12 = htons ETH_P_ECAT" "unat (f ! (ETH_HEADERSIZE + 3)) = j"
    using assms(1) by (simp_all add: ecat_frame_def)
  show "rd16 (tb b) 12 = htons ETH_P_ECAT" "rx_len (tb b) ETH_HEADERSIZE = ?l"
    using len f by (simp_all add: tb_def rx_len_def)
  show "unat (tb b (ETH_HEADERSIZE + 3)) = j"
    using len f by (simp add: tb_def memcpy_apply buf_of_def)
  show "rx_wkc (memcpy c 0 (tb b) ETH_HEADERSIZE (length f - ETH_HEADERSIZE)) ?l = frame_wkc f"
    using len by (simp add: tb_def rx_wkc_rd16 frame_wkc_def)
  show "rx_len (memcpy c 0 (tb b) ETH_HEADERSIZE (length f - ETH_HEADERSIZE)) 0 = ?l"
    using len by (simp add: tb_def rx_len_def)
  show "bytes_of (memcpy c 0 (tb b) ETH_HEADERSIZE (length f - ETH_HEADERSIZE)) 0 (length f - ETH_HEADERSIZE)
      = drop ETH_HEADERSIZE f"
    using len by (simp add: tb_def bytes_of_memcpy bytes_of_buf_of)
  show "?l + 1 < EC_BUFSIZE" using len by simp
qed

text \<open>
  C24: a frame that arrives while another index is being asked for is not lost. It is stored in its
  own buffer, and the next \<open>ecx_inframe\<close> for that index delivers its data and working counter
  without reading the socket again.
\<close>

theorem ecx_inframe_out_of_order:
  assumes "os_recv E (sockhandle p) EC_BUFSIZE (os p) = (Some f, e)" "ecat_frame f j"
    and "idx < EC_MAXBUF" "j < EC_MAXBUF" "j \<noteq> idx"
    and "rxbufstat p idx \<noteq> EC_BUF_RCVD" "rxbufstat p j = EC_BUF_TX" "txbuflength p j = length f"
  shows "\<exists>p1 p2. ecx_inframe E idx 0 p = Some (EC_OTHERFRAME, p1) \<and>
    ecx_inframe E j 0 p1 = Some (frame_wkc f, p2) \<and> os p2 = e \<and> rxbufstat p2 j = EC_BUF_COMPLETE \<and>
    bytes_of (rxbuf p2 j) 0 (length f - ETH_HEADERSIZE) = drop ETH_HEADERSIZE f"
proof -
  have len: "28 \<le> length f" "length f \<le> EC_BUFSIZE" using assms(2) by (simp_all add: ecat_frame_def)
  have "f \<noteq> []" using len by auto
  note rec = ecx_recvpkt_primary [OF assms(1) this len(2)]
  note temp = ecat_frame_temp [OF assms(2)]
  define tb where "tb = memcpy (tempinbuf p) 0 (buf_of f) 0 (length f)"
  define rb where "rb = memcpy (rxbuf p j) 0 tb ETH_HEADERSIZE (length f - ETH_HEADERSIZE)"
  define p1 where "p1 = p\<lparr>os := e, tempinbufs := int (length f), tempinbuf := tb,
    rxbuf := (rxbuf p)(j := rb), rxbufstat := (rxbufstat p)(j := EC_BUF_RCVD),
    rxsa := (rxsa p)(j := htons (rd16 tb 8))\<rparr>"
  have 1: "ecx_inframe E idx 0 p = Some (EC_OTHERFRAME, p1)"
    using assms(3-8) len rec temp(1,2)
    by (simp add: ecx_inframe_def Let_def get_stack_def put_stack_def p1_def tb_def rb_def)
  have 2: "ecx_inframe E j 0 p1 = Some (frame_wkc f, p1\<lparr>rxbufstat := (rxbufstat p1)(j := EC_BUF_COMPLETE)\<rparr>)"
    using assms(4) temp(4,5,7)
    by (simp add: ecx_inframe_def Let_def get_stack_def put_stack_def p1_def tb_def rb_def
        rx_len_rxbuf [simplified])
  show ?thesis
    using 1 2 temp(6) by (simp add: p1_def tb_def rb_def)
qed

text \<open>
  The frame asked for is delivered at once: its working counter is returned, its datagrams are
  in the buffer without the Ethernet header, and the buffer is complete.
\<close>

theorem ecx_inframe_matching:
  assumes "os_recv E (sockhandle p) EC_BUFSIZE (os p) = (Some f, e)" "ecat_frame f idx"
    and "idx < EC_MAXBUF" "rxbufstat p idx \<noteq> EC_BUF_RCVD" "txbuflength p idx = length f"
  shows "\<exists>p1. ecx_inframe E idx 0 p = Some (frame_wkc f, p1) \<and>
    rxbufstat p1 = (rxbufstat p)(idx := EC_BUF_COMPLETE) \<and> rxsa p1 idx = htons (rd16 (buf_of f) 8) \<and>
    bytes_of (rxbuf p1 idx) 0 (length f - ETH_HEADERSIZE) = drop ETH_HEADERSIZE f"
proof -
  have len: "28 \<le> length f" "length f \<le> EC_BUFSIZE" using assms(2) by (simp_all add: ecat_frame_def)
  have "f \<noteq> []" using len by auto
  note rec = ecx_recvpkt_primary [OF assms(1) this len(2)]
  note temp = ecat_frame_temp [OF assms(2)]
  define tb where "tb = memcpy (tempinbuf p) 0 (buf_of f) 0 (length f)"
  define rb where "rb = memcpy (rxbuf p idx) 0 tb ETH_HEADERSIZE (length f - ETH_HEADERSIZE)"
  have sa: "rd16 tb 8 = rd16 (buf_of f) 8" using len by (simp add: tb_def)
  have "ecx_inframe E idx 0 p = Some (frame_wkc f, p\<lparr>os := e, tempinbufs := int (length f),
    tempinbuf := tb, rxbuf := (rxbuf p)(idx := rb), rxbufstat := (rxbufstat p)(idx := EC_BUF_COMPLETE),
    rxsa := (rxsa p)(idx := htons (rd16 tb 8))\<rparr>)"
    using assms(3-5) len rec temp(1-5,7)
    by (simp add: ecx_inframe_def Let_def get_stack_def put_stack_def tb_def rb_def)
  then show ?thesis
    using temp(6) by (simp add: tb_def rb_def sa [unfolded tb_def])
qed

text \<open>
  The length field of a received frame is not tested: a frame for the index asked for whose field
  points behind the buffer (up to 4095 in a buffer of 1518 bytes) makes \<open>ecx_inframe\<close> read the
  working counter outside of it. \<open>good_os\<close> excludes such frames.
\<close>

theorem ecx_inframe_wild_length:
  assumes "os_recv E (sockhandle p) EC_BUFSIZE (os p) = (Some f, e)" "28 \<le> length f" "length f \<le> EC_BUFSIZE"
    and "rd16 (buf_of f) 12 = htons ETH_P_ECAT" "unat (f ! (ETH_HEADERSIZE + 3)) = idx"
    and "EC_BUFSIZE \<le> rx_len (buf_of f) ETH_HEADERSIZE + 1" and "rxbufstat p idx \<noteq> EC_BUF_RCVD"
  shows "ecx_inframe E idx 0 p = None"
proof -
  have "f \<noteq> []" using assms(2) by auto
  note rec = ecx_recvpkt_primary [OF assms(1) this assms(3)]
  have "rx_len (memcpy (tempinbuf p) 0 (buf_of f) 0 (length f)) ETH_HEADERSIZE = rx_len (buf_of f) ETH_HEADERSIZE"
    using assms(2) by (simp add: rx_len_def)
  with assms(2,4-7) rec show ?thesis
    by (simp add: ecx_inframe_def Let_def get_stack_def memcpy_apply buf_of_def [of f] chk_def split: bind_splits)
qed

text \<open>
  C30: \<open>ecx_srconfirm\<close> always returns, with the port still sound; and it returns without a frame
  only when its timeout (in microseconds) has passed.
\<close>

theorem ecx_srconfirm_returns:
  assumes "good_os E now" "port_ok p" "frame_ready idx p"
    and "0 \<le> timeout" "timeout < 2147483648"
    and "now (snd (osal_timer_start E timeout (os p))) div 1000 + nat timeout < 4294967295 * USECS_PER_SEC"
  shows "\<exists>wkc p'. ecx_srconfirm E idx timeout p = Some (wkc, p') \<and> port_ok p' \<and>
    (wkc \<le> EC_NOFRAME \<longrightarrow> now (os p) div 1000 + nat timeout \<le> now (os p') div 1000)"
proof -
  obtain t e where e: "osal_timer_start E timeout (os p) = (t, e)" by fastforce
  have t: "timer_usecs t = now e div 1000 + nat timeout \<and> unat (tm_usec t) < USECS_PER_SEC"
    using assms(4-6) by (intro osal_timer_start_usecs [OF assms(1) e]) (simp_all add: e)
  have ft: "fst (port_timer_start E timeout p) = t" by (simp add: port_timer_start_def e)
  have "now (os p) div 1000 \<le> now e div 1000"
    using osal_timer_start_clock [OF assms(1) e] by (intro div_le_mono) simp
  then have x: "now (os p) div 1000 + nat timeout \<le> n div 1000" if "expired t n" for n
    using that t by (simp add: expired_def)
  from ecx_srconfirm_runs [OF assms(1-3), of timeout] obtain wkc p' where
    r: "ecx_srconfirm E idx timeout p = Some (wkc, p')" and s: "nic_step now idx p p'"
    and w: "wkc > EC_NOFRAME \<or> expired t (now (os p'))"
    unfolding ft by (auto simp only: runs_to_iff prod.case)
  have "port_ok p'" by (rule nic_step_ok [OF s assms(2)])
  with r w x [of "now (os p')"] show ?thesis by force
qed

text \<open>
  In the normal redundant situation each socket has received the frame sent by the other; the
  working counter and the data are then those of the frame that came in on the secondary socket,
  and nothing is sent again.
\<close>

theorem redundant_normal:
  assumes "redport p = Some r" "frame_ready idx p" "wkc > EC_NOFRAME" "wkc2 > EC_NOFRAME"
    and "rxsa p idx = RX_SEC" "red_rxsa r idx = RX_PRIM"
  shows "\<exists>p'. redundant_decision E idx wkc wkc2 p = Some (wkc2, p') \<and> os p' = os p \<and>
    bytes_of (rxbuf p' idx) 0 (txbuflength p idx - ETH_HEADERSIZE) =
    bytes_of (red_rxbuf r idx) 0 (txbuflength p idx - ETH_HEADERSIZE)"
  using assms
  by (simp add: redundant_decision_def copy_secondary_def frame_ready_def bytes_of_memcpy)

text \<open>
  Opening the primary interface leaves a port in which every buffer is free, the next index is
  known, redundancy is off, and every transmit buffer starts with the EtherCAT frame header:
  broadcast destination, the primary source address and the EtherCAT type in network byte order.
\<close>

theorem ecx_setupnic_ready:
  assumes "ecx_setupnic E ifname False p = (r, p')" "i < EC_MAXBUF"
  shows "rxbufstat p' i = EC_BUF_EMPTY \<and> lastidx p' = 0 \<and> redstate p' = ECT_RED_NONE \<and>
    bytes_of (txbuf p' i) 0 ETH_HEADERSIZE =
      [0xff, 0xff, 0xff, 0xff, 0xff, 0xff, 1, 1, 1, 1, 1, 1, 0x88, 0xa4]"
proof -
  have "bytes_of (ec_setupheader b) 0 ETH_HEADERSIZE =
      [0xff, 0xff, 0xff, 0xff, 0xff, 0xff, 1, 1, 1, 1, 1, 1, 0x88, 0xa4]" for b
    by (simp add: ec_setupheader_def bytes_of_def put_le_apply htons_def upt_rec)
  with assms show ?thesis
    by (auto simp: ecx_setupnic_def Let_def ecx_clear_rxbufstat_def split: prod.splits if_splits)
qed

section \<open>Examples\<close>

text \<open>A port whose sixteen buffers are free, in front of the scripted interface.\<close>

definition idle_port :: "nat \<times> u8 list list \<Rightarrow> (nat \<times> u8 list list) ecx_portt" where
  "idle_port e = \<lparr>sockhandle = 3, rxbuf = (\<lambda>_. zero_buf), rxbufstat = (\<lambda>_. EC_BUF_EMPTY), rxsa = (\<lambda>_. 0),
     tempinbuf = zero_buf, tempinbufs = 0, txbuf = (\<lambda>_. ec_setupheader zero_buf), txbuflength = (\<lambda>_. 30),
     txbuf2 = ec_setupheader zero_buf, txbuflength2 = 28, lastidx = 0, redstate = ECT_RED_NONE,
     redport = None, os = e\<rparr>"

text \<open>The answer to a two-byte broadcast read of \<open>0x0130\<close> with index \<open>i\<close>.\<close>

definition brd_answer :: "u8 \<Rightarrow> u8 list" where
  "brd_answer i = [0xff, 0xff, 0xff, 0xff, 0xff, 0xff, 1, 1, 1, 1, 1, 1, 0x88, 0xa4,
     0x0e, 0x10, 7, i, 0, 0, 0x30, 0x01, 2, 0, 0, 0, 0x12, 0x34, 3, 0]"

lemma idle_port_simps [simp]:
  "sockhandle (idle_port e) = 3" "rxbuf (idle_port e) i = zero_buf" "rxbufstat (idle_port e) i = EC_BUF_EMPTY"
  "txbuflength (idle_port e) i = 30" "lastidx (idle_port e) = 0" "redstate (idle_port e) = ECT_RED_NONE"
  "redport (idle_port e) = None" "os (idle_port e) = e"
  by (simp_all add: idle_port_def)

lemma rx_len_zero [simp]: "rx_len zero_buf off = 0"
  by (simp add: rx_len_def get_le_numeral zero_buf_def)

lemma idle_port_ok [simp]: "port_ok (idle_port e)" "i < EC_MAXBUF \<Longrightarrow> frame_ready i (idle_port e)"
  by (auto simp: port_ok_def idle_port_def get_stack_def stack_ok_def frame_ready_def)

lemma brd_answer_frame: "rx_len (buf_of (brd_answer i)) ETH_HEADERSIZE = 14"
  "ecat_frame (brd_answer i) (unat i)" "frame_fits (brd_answer i)" "frame_wkc (brd_answer i) = 3"
proof -
  show l: "rx_len (buf_of (brd_answer i)) ETH_HEADERSIZE = 14"
    by (simp add: rx_len_def get_le_numeral buf_of_def brd_answer_def)
  show "ecat_frame (brd_answer i) (unat i)"
    unfolding ecat_frame_def l
    by (simp add: get_le_numeral buf_of_def brd_answer_def htons_def)
  show "frame_fits (brd_answer i)"
    unfolding frame_fits_def l by (simp add: brd_answer_def)
  show "frame_wkc (brd_answer i) = 3"
    unfolding frame_wkc_def l by (simp add: get_le_numeral buf_of_def brd_answer_def)
qed

text \<open>The same port with the buffers 1 and 2 sent.\<close>

definition busy_port :: "nat \<times> u8 list list \<Rightarrow> (nat \<times> u8 list list) ecx_portt" where
  "busy_port e = (idle_port e)\<lparr>rxbufstat := (\<lambda>_. EC_BUF_EMPTY)(1 := EC_BUF_TX, 2 := EC_BUF_TX)\<rparr>"

lemma busy_port_simps [simp]:
  "sockhandle (busy_port e) = 3" "rxbufstat (busy_port e) = (\<lambda>_. EC_BUF_EMPTY)(1 := EC_BUF_TX, 2 := EC_BUF_TX)"
  "txbuflength (busy_port e) i = 30" "lastidx (busy_port e) = 0" "os (busy_port e) = e"
  by (simp_all add: busy_port_def)

lemma busy_port_ok [simp]: "port_ok (busy_port e)"
  by (auto simp: port_ok_def busy_port_def idle_port_def get_stack_def stack_ok_def)

lemma full_port_ok: "port_ok ((idle_port e)\<lparr>rxbufstat := \<lambda>_. EC_BUF_ALLOC\<rparr>)"
  by (auto simp: port_ok_def idle_port_def get_stack_def stack_ok_def)

lemma length_brd_answer [simp]: "length (brd_answer i) = 30"
  by (simp add: brd_answer_def)

theorem ecx_getindex_round_robin_witness:
  "\<exists>p'. ecx_getindex (busy_port (5, [])) = Some (3, p') \<and> rxbufstat p' 3 = EC_BUF_ALLOC"
  using ecx_getindex_round_robin [of "busy_port (5, [])" 2] by (auto simp: less_2_cases_iff)

theorem ecx_getindex_exhausted_witness:
  "\<exists>p'. ecx_getindex ((idle_port (5, []))\<lparr>rxbufstat := \<lambda>_. EC_BUF_ALLOC\<rparr>) = Some (1, p')"
  using ecx_getindex_exhausted [OF full_port_ok, of "(5, [])"] by auto

theorem ecx_inframe_out_of_order_witness:
  "\<exists>p1 p2. ecx_inframe script_os 1 0 (busy_port (5, [brd_answer 2])) = Some (EC_OTHERFRAME, p1) \<and>
     ecx_inframe script_os 2 0 p1 = Some (3, p2)"
  using ecx_inframe_out_of_order [of script_os "busy_port (5, [brd_answer 2])" "brd_answer 2" "(5, [])" 2 1]
    brd_answer_frame [of 2] by auto

theorem ecx_inframe_matching_witness:
  "\<exists>p1. ecx_inframe script_os 1 0 (busy_port (5, [brd_answer 1])) = Some (3, p1) \<and>
     rxbufstat p1 1 = EC_BUF_COMPLETE"
  using ecx_inframe_matching [of script_os "busy_port (5, [brd_answer 1])" "brd_answer 1" "(5, [])" 1]
    brd_answer_frame [of 1] by auto

lemma script_timer_start: "snd (osal_timer_start script_os timeout (t, q)) = (Suc t, q)"
  by (simp add: osal_timer_start_def osal_getrelativetime_def Let_def)

theorem ecx_inframe_wild_length_witness:
  "ecx_inframe (script_os\<lparr>os_recv := \<lambda>h n e. (Some ((brd_answer 1)[14 := 0xff, 15 := 0x1f]), e)\<rparr>) 1 0 (busy_port (5, [])) = None"
  by (rule ecx_inframe_wild_length [where f = "(brd_answer 1)[14 := 0xff, 15 := 0x1f]"])
    (simp_all add: brd_answer_def rx_len_def get_le_numeral buf_of_def htons_def)

theorem ecx_srconfirm_returns_witness:
  "\<exists>wkc p'. ecx_srconfirm script_os 1 2000 (busy_port (5, [brd_answer 1])) = Some (wkc, p') \<and> port_ok p'"
  using ecx_srconfirm_returns [OF good_script_os, of "busy_port (5, [brd_answer 1])" 1 2000]
  by (auto simp: script_timer_start frame_ready_def)

theorem redundant_normal_witness:
  "\<exists>p'. redundant_decision script_os 1 2 3 ((idle_port (5, []))\<lparr>rxsa := \<lambda>_. RX_SEC, redport := Some
     \<lparr>red_sockhandle = 4, red_rxbuf = (\<lambda>_ _. 7), red_rxbufstat = (\<lambda>_. EC_BUF_COMPLETE),
      red_rxsa = (\<lambda>_. RX_PRIM), red_tempinbuf = zero_buf\<rparr>\<rparr>) = Some (3, p') \<and>
     bytes_of (rxbuf p' 1) 0 16 = replicate 16 7"
  (is "\<exists>p'. redundant_decision _ _ _ _ ?p = _ \<and> _")
  using redundant_normal [of ?p _ 1 2 3, where E = script_os]
  by (fastforce simp: frame_ready_def idle_port_def bytes_of_def upt_rec numeral_eq_Suc)

theorem ecx_setupnic_ready_witness:
  "bytes_of (txbuf (snd (ecx_setupnic script_os ''eth0'' False (idle_port (5, [])))) 7) 0 2 = [0xff, 0xff]"
proof -
  have "bytes_of (txbuf (snd (ecx_setupnic script_os ''eth0'' False (idle_port (5, [])))) 7) 0 ETH_HEADERSIZE =
      [0xff, 0xff, 0xff, 0xff, 0xff, 0xff, 1, 1, 1, 1, 1, 1, 0x88, 0xa4]"
    using ecx_setupnic_ready [where E = script_os and ifname = "''eth0''" and p = "idle_port (5, [])" and i = 7,
        OF prod.collapse [symmetric]] by simp
  then show ?thesis by (simp add: bytes_of_def upt_rec)
qed

end
