(* ===== verification/Base.thy ===== *)
theory Base
  imports Nicdrv
begin

text \<open>
  The EtherCAT commands of \<open>soem/ethercatbase.c\<close>: building frames of one or follows datagrams and
  the blocking primitives that exchange one frame with the slaves and release its buffer.

  A data pointer is a \<open>buf\<close> that starts at the data; a primitive that fills the caller's data
  returns the data as it is afterwards. \<open>int64\<close> values are kept as their 64 bits.
\<close>

section \<open>Building frames\<close>

definition ecx_writedatagramdata :: "buf \<Rightarrow> nat \<Rightarrow> u8 \<Rightarrow> u16 \<Rightarrow> buf \<Rightarrow> buf" where
  "ecx_writedatagramdata frame off com len data =
     (if unat len > 0
      then if com = EC_CMD_NOP \<or> com = EC_CMD_APRD \<or> com = EC_CMD_FPRD \<or> com = EC_CMD_BRD \<or> com = EC_CMD_LRD
           then memset frame off 0 (unat len)
           else memcpy frame off data 0 (unat len)
      else frame)"

text \<open>
  The frame buffer has \<open>EC_BUFSIZE\<close> bytes and the code does not check that the datagram fits:
  a datagram that does not fit has no defined result.
\<close>

definition ecx_setupdatagram :: "'e ecx_portt \<Rightarrow> buf \<Rightarrow> u8 \<Rightarrow> nat \<Rightarrow> u16 \<Rightarrow> u16 \<Rightarrow> u16 \<Rightarrow> buf \<Rightarrow>
    (buf \<times> 'e ecx_portt) option" where
  "ecx_setupdatagram p frame com idx ADP ADO len data = do {
     let n = unat len;
     chk (idx < EC_MAXBUF \<and> ETH_HEADERSIZE + EC_HEADERSIZE + EC_WKCSIZE + n \<le> EC_BUFSIZE);
     let f = wr16 frame ETH_HEADERSIZE (EC_ECATTYPE + 12 + len);
     let f = f(ETH_HEADERSIZE + 2 := com, ETH_HEADERSIZE + 3 := of_nat idx);
     let f = wr16 f (ETH_HEADERSIZE + 4) ADP;
     let f = wr16 f (ETH_HEADERSIZE + 6) ADO;
     let f = wr16 f (ETH_HEADERSIZE + 8) len;
     let f = ecx_writedatagramdata f (ETH_HEADERSIZE + EC_HEADERSIZE) com len data;
     \<comment> \<open>set WKC to zero\<close>
     let f = f(ETH_HEADERSIZE + EC_HEADERSIZE + n := 0, ETH_HEADERSIZE + EC_HEADERSIZE + n + 1 := 0);
     Some (f, p\<lparr>txbuflength :=
       (txbuflength p)(idx := ETH_HEADERSIZE + EC_HEADERSIZE + EC_WKCSIZE + n)\<rparr>) }"

definition ecx_adddatagram :: "'e ecx_portt \<Rightarrow> buf \<Rightarrow> u8 \<Rightarrow> nat \<Rightarrow> bool \<Rightarrow> u16 \<Rightarrow> u16 \<Rightarrow> u16 \<Rightarrow> buf \<Rightarrow>
    (nat \<times> buf \<times> 'e ecx_portt) option" where
  "ecx_adddatagram p frame com idx follows ADP ADO len data = do {
     chk (idx < EC_MAXBUF);
     let prevlength = unat (of_nat (txbuflength p idx) :: u16);
     let n = unat len;
     chk (EC_ELENGTHSIZE \<le> prevlength \<and>
       prevlength + EC_HEADERSIZE - EC_ELENGTHSIZE + EC_WKCSIZE + n \<le> EC_BUFSIZE);
     \<comment> \<open>add new datagram to ethernet frame size\<close>
     let f = wr16 frame ETH_HEADERSIZE (rd16 frame ETH_HEADERSIZE + 12 + len);
     \<comment> \<open>add datagram-follows flag to previous subframe dlength\<close>
     let f = wr16 f (ETH_HEADERSIZE + 8) (rd16 f (ETH_HEADERSIZE + 8) OR EC_DATAGRAMFOLLOWS);
     \<comment> \<open>set new EtherCAT header position\<close>
     let d = prevlength - EC_ELENGTHSIZE;
     let f = f(d + 2 := com, d + 3 := of_nat idx);
     let f = wr16 f (d + 4) ADP;
     let f = wr16 f (d + 6) ADO;
     let f = wr16 f (d + 8) (if follows then len OR EC_DATAGRAMFOLLOWS else len);
     let f = ecx_writedatagramdata f (prevlength + EC_HEADERSIZE - EC_ELENGTHSIZE) com len data;
     let f = f(prevlength + EC_HEADERSIZE - EC_ELENGTHSIZE + n := 0,
               prevlength + EC_HEADERSIZE - EC_ELENGTHSIZE + n + 1 := 0);
     let p = p\<lparr>txbuflength := (txbuflength p)(idx :=
       prevlength + EC_HEADERSIZE - EC_ELENGTHSIZE + EC_WKCSIZE + n)\<rparr>;
     \<comment> \<open>offset to data in rx frame\<close>
     Some (unat (of_nat prevlength + 12 - 2 - 14 :: u16), f, p) }"

text \<open>Both are used on a transmit buffer of the port.\<close>

definition setup_tx :: "u8 \<Rightarrow> nat \<Rightarrow> u16 \<Rightarrow> u16 \<Rightarrow> u16 \<Rightarrow> buf \<Rightarrow> 'e ecx_portt \<Rightarrow> 'e ecx_portt option" where
  "setup_tx com idx ADP ADO len data p = do {
     (f, p) \<leftarrow> ecx_setupdatagram p (txbuf p idx) com idx ADP ADO len data;
     Some (p\<lparr>txbuf := (txbuf p)(idx := f)\<rparr>) }"

definition add_tx :: "u8 \<Rightarrow> nat \<Rightarrow> bool \<Rightarrow> u16 \<Rightarrow> u16 \<Rightarrow> u16 \<Rightarrow> buf \<Rightarrow> 'e ecx_portt \<Rightarrow>
    (nat \<times> 'e ecx_portt) option" where
  "add_tx com idx follows ADP ADO len data p = do {
     (off, f, p) \<leftarrow> ecx_adddatagram p (txbuf p idx) com idx follows ADP ADO len data;
     Some (off, p\<lparr>txbuf := (txbuf p)(idx := f)\<rparr>) }"

section \<open>Primitives\<close>

text \<open>
  The primitives come in three shapes. \<open>write_primitive\<close> sends the data; \<open>read_primitive\<close> also
  copies the answer to the data when a slave has worked on the frame; \<open>logical_primitive\<close> moreover
  requires that the answer carries the command that was sent.
\<close>

definition write_primitive :: "u8 \<Rightarrow> 'e os_ops \<Rightarrow> u16 \<Rightarrow> u16 \<Rightarrow> u16 \<Rightarrow> buf \<Rightarrow> int \<Rightarrow> 'e ecx_portt \<Rightarrow>
    (int \<times> 'e ecx_portt) option" where
  "write_primitive com E ADP ADO len data timeout p = do {
     (idx, p) \<leftarrow> ecx_getindex p;
     p \<leftarrow> setup_tx com idx ADP ADO len data p;
     (wkc, p) \<leftarrow> ecx_srconfirm E idx timeout p;
     p \<leftarrow> ecx_setbufstat idx EC_BUF_EMPTY p;
     Some (wkc, p) }"

definition read_primitive :: "u8 \<Rightarrow> 'e os_ops \<Rightarrow> u16 \<Rightarrow> u16 \<Rightarrow> u16 \<Rightarrow> buf \<Rightarrow> int \<Rightarrow> 'e ecx_portt \<Rightarrow>
    (int \<times> buf \<times> 'e ecx_portt) option" where
  "read_primitive com E ADP ADO len data timeout p = do {
     (idx, p) \<leftarrow> ecx_getindex p;
     p \<leftarrow> setup_tx com idx ADP ADO len data p;
     (wkc, p) \<leftarrow> ecx_srconfirm E idx timeout p;
     let data = (if wkc > 0 then memcpy data 0 (rxbuf p idx) EC_HEADERSIZE (unat len) else data);
     p \<leftarrow> ecx_setbufstat idx EC_BUF_EMPTY p;
     Some (wkc, data, p) }"

definition logical_primitive :: "u8 \<Rightarrow> 'e os_ops \<Rightarrow> u32 \<Rightarrow> u16 \<Rightarrow> buf \<Rightarrow> int \<Rightarrow> 'e ecx_portt \<Rightarrow>
    (int \<times> buf \<times> 'e ecx_portt) option" where
  "logical_primitive com E LogAdr len data timeout p = do {
     (idx, p) \<leftarrow> ecx_getindex p;
     p \<leftarrow> setup_tx com idx (LO_WORD LogAdr) (HI_WORD LogAdr) len data p;
     (wkc, p) \<leftarrow> ecx_srconfirm E idx timeout p;
     let data = (if wkc > 0 \<and> rxbuf p idx EC_CMDOFFSET = com
                 then memcpy data 0 (rxbuf p idx) EC_HEADERSIZE (unat len) else data);
     p \<leftarrow> ecx_setbufstat idx EC_BUF_EMPTY p;
     Some (wkc, data, p) }"

definition ecx_BWR :: "'e os_ops \<Rightarrow> u16 \<Rightarrow> u16 \<Rightarrow> u16 \<Rightarrow> buf \<Rightarrow> int \<Rightarrow> 'e ecx_portt \<Rightarrow>
    (int \<times> 'e ecx_portt) option" where
  "ecx_BWR = write_primitive EC_CMD_BWR"

definition ecx_BRD :: "'e os_ops \<Rightarrow> u16 \<Rightarrow> u16 \<Rightarrow> u16 \<Rightarrow> buf \<Rightarrow> int \<Rightarrow> 'e ecx_portt \<Rightarrow>
    (int \<times> buf \<times> 'e ecx_portt) option" where
  "ecx_BRD = read_primitive EC_CMD_BRD"

definition ecx_APRD :: "'e os_ops \<Rightarrow> u16 \<Rightarrow> u16 \<Rightarrow> u16 \<Rightarrow> buf \<Rightarrow> int \<Rightarrow> 'e ecx_portt \<Rightarrow>
    (int \<times> buf \<times> 'e ecx_portt) option" where
  "ecx_APRD = read_primitive EC_CMD_APRD"

definition ecx_ARMW :: "'e os_ops \<Rightarrow> u16 \<Rightarrow> u16 \<Rightarrow> u16 \<Rightarrow> buf \<Rightarrow> int \<Rightarrow> 'e ecx_portt \<Rightarrow>
    (int \<times> buf \<times> 'e ecx_portt) option" where
  "ecx_ARMW = read_primitive EC_CMD_ARMW"

definition ecx_FRMW :: "'e os_ops \<Rightarrow> u16 \<Rightarrow> u16 \<Rightarrow> u16 \<Rightarrow> buf \<Rightarrow> int \<Rightarrow> 'e ecx_portt \<Rightarrow>
    (int \<times> buf \<times> 'e ecx_portt) option" where
  "ecx_FRMW = read_primitive EC_CMD_FRMW"

definition ecx_FPRD :: "'e os_ops \<Rightarrow> u16 \<Rightarrow> u16 \<Rightarrow> u16 \<Rightarrow> buf \<Rightarrow> int \<Rightarrow> 'e ecx_portt \<Rightarrow>
    (int \<times> buf \<times> 'e ecx_portt) option" where
  "ecx_FPRD = read_primitive EC_CMD_FPRD"

definition ecx_APWR :: "'e os_ops \<Rightarrow> u16 \<Rightarrow> u16 \<Rightarrow> u16 \<Rightarrow> buf \<Rightarrow> int \<Rightarrow> 'e ecx_portt \<Rightarrow>
    (int \<times> 'e ecx_portt) option" where
  "ecx_APWR = write_primitive EC_CMD_APWR"

definition ecx_FPWR :: "'e os_ops \<Rightarrow> u16 \<Rightarrow> u16 \<Rightarrow> u16 \<Rightarrow> buf \<Rightarrow> int \<Rightarrow> 'e ecx_portt \<Rightarrow>
    (int \<times> 'e ecx_portt) option" where
  "ecx_FPWR = write_primitive EC_CMD_FPWR"

definition ecx_LRW :: "'e os_ops \<Rightarrow> u32 \<Rightarrow> u16 \<Rightarrow> buf \<Rightarrow> int \<Rightarrow> 'e ecx_portt \<Rightarrow>
    (int \<times> buf \<times> 'e ecx_portt) option" where
  "ecx_LRW = logical_primitive EC_CMD_LRW"

definition ecx_LRD :: "'e os_ops \<Rightarrow> u32 \<Rightarrow> u16 \<Rightarrow> buf \<Rightarrow> int \<Rightarrow> 'e ecx_portt \<Rightarrow>
    (int \<times> buf \<times> 'e ecx_portt) option" where
  "ecx_LRD = logical_primitive EC_CMD_LRD"


definition ecx_LWR :: "'e os_ops \<Rightarrow> u32 \<Rightarrow> u16 \<Rightarrow> buf \<Rightarrow> int \<Rightarrow> 'e ecx_portt \<Rightarrow> (int \<times> 'e ecx_portt) option" where
  "ecx_LWR E LogAdr = write_primitive EC_CMD_LWR E (LO_WORD LogAdr) (HI_WORD LogAdr)"

definition ecx_APRDw :: "'e os_ops \<Rightarrow> u16 \<Rightarrow> u16 \<Rightarrow> int \<Rightarrow> 'e ecx_portt \<Rightarrow> (u16 \<times> 'e ecx_portt) option" where
  "ecx_APRDw E ADP ADO timeout p = do {
     (_, w, p) \<leftarrow> ecx_APRD E ADP ADO 2 (var16 0) timeout p;
     Some (rd16 w 0, p) }"

definition ecx_FPRDw :: "'e os_ops \<Rightarrow> u16 \<Rightarrow> u16 \<Rightarrow> int \<Rightarrow> 'e ecx_portt \<Rightarrow> (u16 \<times> 'e ecx_portt) option" where
  "ecx_FPRDw E ADP ADO timeout p = do {
     (_, w, p) \<leftarrow> ecx_FPRD E ADP ADO 2 (var16 0) timeout p;
     Some (rd16 w 0, p) }"

definition ecx_APWRw :: "'e os_ops \<Rightarrow> u16 \<Rightarrow> u16 \<Rightarrow> u16 \<Rightarrow> int \<Rightarrow> 'e ecx_portt \<Rightarrow> (int \<times> 'e ecx_portt) option" where
  "ecx_APWRw E ADP ADO data timeout p = ecx_APWR E ADP ADO 2 (var16 data) timeout p"

definition ecx_FPWRw :: "'e os_ops \<Rightarrow> u16 \<Rightarrow> u16 \<Rightarrow> u16 \<Rightarrow> int \<Rightarrow> 'e ecx_portt \<Rightarrow> (int \<times> 'e ecx_portt) option" where
  "ecx_FPWRw E ADP ADO data timeout p = ecx_FPWR E ADP ADO 2 (var16 data) timeout p"

text \<open>
  The combined logical read/write and clock distribution. The two-byte \<open>memcpy\<close> into the integer
  \<open>wkc\<close> replaces its low half; \<open>sizeof(DCtime)\<close>, the size of a pointer, is taken to be 8.
\<close>

definition ecx_LRWDC :: "'e os_ops \<Rightarrow> u32 \<Rightarrow> u16 \<Rightarrow> buf \<Rightarrow> u16 \<Rightarrow> u64 \<Rightarrow> int \<Rightarrow> 'e ecx_portt \<Rightarrow>
    (int \<times> buf \<times> u64 \<times> 'e ecx_portt) option" where
  "ecx_LRWDC E LogAdr len data DCrs DCtime timeout p = do {
     (idx, p) \<leftarrow> ecx_getindex p;
     p \<leftarrow> setup_tx EC_CMD_LRW idx (LO_WORD LogAdr) (HI_WORD LogAdr) len data p;
     (DCtO, p) \<leftarrow> add_tx EC_CMD_FRMW idx False DCrs ECT_REG_DCSYSTIME 8 (var64 DCtime) p;
     (wkc, p) \<leftarrow> ecx_srconfirm E idx timeout p;
     let b = rxbuf p idx;
     (wkc, data, DCtime) \<leftarrow> (if wkc > 0 \<and> b EC_CMDOFFSET = EC_CMD_LRW
       then do {
         chk (DCtO + 8 \<le> EC_BUFSIZE);
         Some (wkc div 65536 * 65536 + uint (rd16 b (EC_HEADERSIZE + unat len)),
               memcpy data 0 b EC_HEADERSIZE (unat len), rd64 b DCtO) }
       else Some (wkc, data, DCtime));
     p \<leftarrow> ecx_setbufstat idx EC_BUF_EMPTY p;
     Some (wkc, data, DCtime, p) }"

section \<open>The frames these functions build\<close>

text \<open>
  The datagram a frame carries at offset \<open>off\<close>, and the reader of a frame: datagrams follow one
  another until one without the datagram-follows flag. \<open>n\<close> bounds their number.
\<close>

record dgram =
  d_cmd :: u8
  d_idx :: u8
  d_adp :: u16
  d_ado :: u16
  d_data :: "u8 list"
  d_wkc :: u16

definition dgram_at :: "buf \<Rightarrow> nat \<Rightarrow> nat \<Rightarrow> dgram" where
  "dgram_at f off n = \<lparr>d_cmd = f off, d_idx = f (off + 1), d_adp = rd16 f (off + 2),
     d_ado = rd16 f (off + 4), d_data = bytes_of f (off + 10) n, d_wkc = rd16 f (off + 10 + n)\<rparr>"

primrec parse_dgrams :: "nat \<Rightarrow> buf \<Rightarrow> nat \<Rightarrow> dgram list" where
  "parse_dgrams 0 f off = []"
| "parse_dgrams (Suc n) f off =
     (let dl = rd16 f (off + 6); l = unat (dl AND 0x07ff) in
      dgram_at f off l # (if bit dl 15 then parse_dgrams n f (off + 12 + l) else []))"

text \<open>The frame carries the datagrams \<open>ds\<close>, each with its datagram-follows flag, from \<open>off\<close> on.\<close>

fun carries :: "buf \<Rightarrow> nat \<Rightarrow> (dgram \<times> bool) list \<Rightarrow> bool" where
  "carries f off [] = True"
| "carries f off ((d, m) # ds) = (length (d_data d) \<le> 0x07ff \<and> dgram_at f off (length (d_data d)) = d \<and>
     rd16 f (off + 6) = of_nat (length (d_data d)) OR (if m then EC_DATAGRAMFOLLOWS else 0) \<and>
     carries f (off + 12 + length (d_data d)) ds)"

definition dgrams_size :: "(dgram \<times> bool) list \<Rightarrow> nat" where
  "dgrams_size ds = sum_list (map (\<lambda>(d, m). 12 + length (d_data d)) ds)"

lemma dgrams_size_simps [simp]:
  "dgrams_size [] = 0" "dgrams_size ((d, m) # ds) = 12 + length (d_data d) + dgrams_size ds"
  "dgrams_size (ds @ es) = dgrams_size ds + dgrams_size es"
  by (simp_all add: dgrams_size_def)

lemma carries_append:
  "carries f off (ds @ es) \<longleftrightarrow> carries f off ds \<and> carries f (off + dgrams_size ds) es"
  by (induction f off ds rule: carries.induct) (auto simp: add.assoc)

lemma dgram_at_cong:
  assumes "\<And>i. off \<le> i \<Longrightarrow> i < off + 12 + n \<Longrightarrow> i \<noteq> off + 6 \<Longrightarrow> i \<noteq> off + 7 \<Longrightarrow> f i = g i"
  shows "dgram_at f off n = dgram_at g off n"
proof -
  have "rd16 f (off + 2) = rd16 g (off + 2)" "rd16 f (off + 4) = rd16 g (off + 4)"
    "rd16 f (off + (10 + n)) = rd16 g (off + (10 + n))"
    by (intro get_le_cong assms; simp)+
  moreover have "bytes_of f (off + 10) n = bytes_of g (off + 10) n"
    by (auto simp: bytes_of_def intro!: assms)
  moreover have "f off = g off" "f (off + 1) = g (off + 1)" by (auto intro!: assms)
  ultimately show ?thesis by (simp add: dgram_at_def add.assoc)
qed

lemma carries_cong:
  assumes "\<And>i. off \<le> i \<Longrightarrow> i < off + dgrams_size ds \<Longrightarrow> f i = g i"
  shows "carries f off ds \<longleftrightarrow> carries g off ds"
  using assms
proof (induction f off ds rule: carries.induct)
  case (2 f off d m ds)
  have "dgram_at f off (length (d_data d)) = dgram_at g off (length (d_data d))"
    by (intro dgram_at_cong 2(2)) auto
  moreover have "rd16 f (off + 6) = rd16 g (off + 6)" by (intro get_le_cong 2(2)) auto
  moreover have "carries f (off + 12 + length (d_data d)) ds \<longleftrightarrow> carries g (off + 12 + length (d_data d)) ds"
    by (intro 2(1) 2(2)) auto
  ultimately show ?case by simp
qed simp

lemma carries_nth:
  "carries f off ds \<Longrightarrow> k < length ds \<Longrightarrow>
     dgram_at f (off + dgrams_size (take k ds)) (length (d_data (fst (ds ! k)))) = fst (ds ! k)"
proof (induction f off ds arbitrary: k rule: carries.induct)
  case (2 f off d m ds)
  then show ?case by (cases k) (auto simp: add.assoc)
qed simp

lemma dlength_bits:
  assumes "n \<le> 0x07ff"
  shows "unat ((of_nat n OR (if m then EC_DATAGRAMFOLLOWS else 0) :: u16) AND 0x07ff) = n"
    and "bit (of_nat n OR (if m then EC_DATAGRAMFOLLOWS else 0) :: u16) 15 \<longleftrightarrow> m"
proof -
  have mask: "(0x07ff :: u16) = mask 11" by (simp add: mask_eq_exp_minus_1)
  have n: "n < 2 ^ 11" using assms by simp
  have n11: "take_bit 11 (of_nat n :: u16) = of_nat n"
    using n unfolding of_nat_take_bit [symmetric] by (simp add: take_bit_nat_eq_self)
  have "take_bit 11 (of_nat n OR (if m then EC_DATAGRAMFOLLOWS else 0) :: u16) = of_nat n"
    unfolding take_bit_or n11 by simp
  then show "unat ((of_nat n OR (if m then EC_DATAGRAMFOLLOWS else 0) :: u16) AND 0x07ff) = n"
    using n unfolding mask take_bit_eq_mask [symmetric] by (simp add: unat_of_nat_u16)
  have "\<not> bit (of_nat n :: u16) 15"
    by (subst n11 [symmetric]) (simp add: bit_take_bit_iff)
  moreover have "bit EC_DATAGRAMFOLLOWS 15" by simp
  ultimately show "bit (of_nat n OR (if m then EC_DATAGRAMFOLLOWS else 0) :: u16) 15 \<longleftrightarrow> m"
    by (auto simp: bit_or_iff)
qed

text \<open>A well-formed frame is read back as the datagrams it carries.\<close>

lemma parse_carries:
  "carries f off (map (\<lambda>d. (d, True)) ds @ [(d, False)]) \<Longrightarrow> length ds < n \<Longrightarrow>
     parse_dgrams n f off = ds @ [d]"
proof (induction ds arbitrary: off n)
  case Nil
  then obtain k where "n = Suc k" by (cases n) auto
  with Nil show ?case
    using dlength_bits [of "length (d_data d)" False] by (simp add: Let_def)
next
  case (Cons a ds)
  then obtain k where n: "n = Suc k" by (cases n) auto
  from Cons.prems have a: "length (d_data a) \<le> 0x07ff" "dgram_at f off (length (d_data a)) = a"
    "rd16 f (off + 6) = of_nat (length (d_data a)) OR EC_DATAGRAMFOLLOWS"
    "carries f (off + 12 + length (d_data a)) (map (\<lambda>d. (d, True)) ds @ [(d, False)])" by simp_all
  have "parse_dgrams k f (off + 12 + length (d_data a)) = ds @ [d]"
    using a(4) Cons.prems(2) n by (intro Cons.IH) simp_all
  with n a show ?case
    using dlength_bits [OF a(1), of True] by (simp add: Let_def)
qed

text \<open>What a datagram carries when it is sent: a read starts from zeros.\<close>

definition tx_payload :: "u8 \<Rightarrow> nat \<Rightarrow> buf \<Rightarrow> u8 list" where
  "tx_payload com n data =
     (if com \<in> {EC_CMD_NOP, EC_CMD_APRD, EC_CMD_FPRD, EC_CMD_BRD, EC_CMD_LRD}
      then replicate n 0 else bytes_of data 0 n)"

definition tx_dgram :: "u8 \<Rightarrow> nat \<Rightarrow> u16 \<Rightarrow> u16 \<Rightarrow> u16 \<Rightarrow> buf \<Rightarrow> dgram" where
  "tx_dgram com idx ADP ADO len data = \<lparr>d_cmd = com, d_idx = of_nat idx, d_adp = ADP, d_ado = ADO,
     d_data = tx_payload com (unat len) data, d_wkc = 0\<rparr>"

lemma length_tx_payload [simp]: "length (tx_payload com n data) = n"
  by (simp add: tx_payload_def)

lemma d_data_tx_dgram [simp]: "length (d_data (tx_dgram com idx ADP ADO len data)) = unat len"
  by (simp add: tx_dgram_def)

lemma writedatagramdata_apply:
  "ecx_writedatagramdata f off com len data i =
     (if off \<le> i \<and> i < off + unat len then tx_payload com (unat len) data ! (i - off) else f i)"
  by (auto simp: ecx_writedatagramdata_def memset_apply memcpy_apply tx_payload_def)

lemma writedatagramdata_other [simp]:
  "off + n \<le> d \<or> d + unat len \<le> off \<Longrightarrow>
     get_le n (ecx_writedatagramdata f d com len data) off = get_le n f off"
  by (rule get_le_cong) (auto simp: writedatagramdata_apply)

text \<open>The header and the body of one datagram, written at \<open>d\<close>, as both functions write it.\<close>

definition put_dgram :: "buf \<Rightarrow> nat \<Rightarrow> u8 \<Rightarrow> nat \<Rightarrow> u16 \<Rightarrow> u16 \<Rightarrow> u16 \<Rightarrow> u16 \<Rightarrow> buf \<Rightarrow> buf" where
  "put_dgram f d com idx ADP ADO dlen len data =
     (ecx_writedatagramdata (wr16 (wr16 (wr16 (f(d := com, d + 1 := of_nat idx)) (d + 2) ADP) (d + 4) ADO)
        (d + 6) dlen) (d + 10) com len data)
       (d + 10 + unat len := 0, d + 10 + unat len + 1 := 0)"

lemma put_dgram_other: "i < d \<or> d + 12 + unat len \<le> i \<Longrightarrow> put_dgram f d com idx ADP ADO dlen len data i = f i"
  by (auto simp: put_dgram_def writedatagramdata_apply put_le_apply)

lemma rd16_bytes: "b off = 0 \<Longrightarrow> b (Suc off) = 0 \<Longrightarrow> rd16 b off = 0"
  by (simp add: get_le_numeral)

lemma put_dgram_at:
  "dgram_at (put_dgram f d com idx ADP ADO dlen len data) d (unat len) = tx_dgram com idx ADP ADO len data"
  "rd16 (put_dgram f d com idx ADP ADO dlen len data) (d + 6) = dlen"
proof -
  let ?p = "put_dgram f d com idx ADP ADO dlen len data"
  show "rd16 ?p (d + 6) = dlen" by (simp add: put_dgram_def)
  have "rd16 ?p (d + 2) = ADP" "rd16 ?p (d + 4) = ADO" by (simp_all add: put_dgram_def)
  moreover have "?p d = com" "?p (d + 1) = of_nat idx"
    by (simp_all add: put_dgram_def writedatagramdata_apply put_le_apply)
  moreover have "bytes_of ?p (d + 10) (unat len) = tx_payload com (unat len) data"
    by (rule nth_equalityI) (simp_all add: put_dgram_def writedatagramdata_apply)
  moreover have "rd16 ?p (d + 10 + unat len) = 0"
    by (rule rd16_bytes) (simp_all add: put_dgram_def)
  ultimately show "dgram_at ?p d (unat len) = tx_dgram com idx ADP ADO len data"
    by (simp add: dgram_at_def tx_dgram_def)
qed

lemma put_dgram_carries:
  assumes "unat len \<le> 0x07ff" "dlen = (if m then len OR EC_DATAGRAMFOLLOWS else len)"
  shows "carries (put_dgram f d com idx ADP ADO dlen len data) d [(tx_dgram com idx ADP ADO len data, m)]"
  using assms by (simp add: put_dgram_at)

lemma setupdatagram_frame:
  assumes "idx < EC_MAXBUF" "28 + unat len \<le> EC_BUFSIZE"
  obtains f where "ecx_setupdatagram p frame com idx ADP ADO len data =
      Some (f, p\<lparr>txbuflength := (txbuflength p)(idx := 28 + unat len)\<rparr>)"
    and "carries f 16 [(tx_dgram com idx ADP ADO len data, False)]"
    and "rd16 f ETH_HEADERSIZE = EC_ECATTYPE + 12 + len" and "\<forall>i < ETH_HEADERSIZE. f i = frame i"
proof -
  define f where "f = put_dgram (wr16 frame ETH_HEADERSIZE (EC_ECATTYPE + 12 + len)) 16 com idx ADP ADO len len data"
  have eq: "ecx_setupdatagram p frame com idx ADP ADO len data =
      Some (f, p\<lparr>txbuflength := (txbuflength p)(idx := 28 + unat len)\<rparr>)"
    using assms by (simp add: ecx_setupdatagram_def Let_def f_def put_dgram_def add.commute)
  have c: "carries f 16 [(tx_dgram com idx ADP ADO len data, False)]"
    unfolding f_def using assms by (intro put_dgram_carries) simp_all
  have "rd16 f ETH_HEADERSIZE = rd16 (wr16 frame ETH_HEADERSIZE (EC_ECATTYPE + 12 + len)) ETH_HEADERSIZE"
    by (rule get_le_cong) (simp add: f_def put_dgram_other)
  then show thesis
    using eq c by (intro that) (auto simp: f_def put_dgram_other put_le_apply)
qed

text \<open>Setting the datagram-follows flag of the first datagram keeps what the frame carries.\<close>

lemma carries_set_follows:
  assumes "carries f 16 ((d, m) # ds)"
  shows "carries (wr16 f 22 (rd16 f 22 OR EC_DATAGRAMFOLLOWS)) 16 ((d, True) # ds)"
proof -
  let ?g = "wr16 f 22 (rd16 f 22 OR EC_DATAGRAMFOLLOWS)"
  have d: "length (d_data d) \<le> 0x07ff" "dgram_at f 16 (length (d_data d)) = d"
    "rd16 f 22 = of_nat (length (d_data d)) OR (if m then EC_DATAGRAMFOLLOWS else 0)"
    "carries f (28 + length (d_data d)) ds"
    using assms by simp_all
  have "dgram_at ?g 16 (length (d_data d)) = dgram_at f 16 (length (d_data d))"
    by (rule dgram_at_cong) (auto simp: put_le_apply)
  moreover have "rd16 ?g 22 = of_nat (length (d_data d)) OR EC_DATAGRAMFOLLOWS"
    by (simp add: d(3) or.assoc)
  moreover have "carries ?g (28 + length (d_data d)) ds"
    using d(4) by (subst carries_cong [of _ _ _ f]) (auto simp: put_le_apply)
  ultimately show ?thesis using d(1,2) by simp
qed

lemma adddatagram_frame:
  assumes "carries frame 16 ((d, m) # ds)" "txbuflength p idx = 16 + dgrams_size ((d, m) # ds)"
    and "idx < EC_MAXBUF" "txbuflength p idx + 12 + unat len \<le> EC_BUFSIZE"
  obtains f where "ecx_adddatagram p frame com idx follows ADP ADO len data =
      Some (txbuflength p idx + 10 - ETH_HEADERSIZE, f,
        p\<lparr>txbuflength := (txbuflength p)(idx := txbuflength p idx + 12 + unat len)\<rparr>)"
    and "carries f 16 ((d, True) # ds @ [(tx_dgram com idx ADP ADO len data, follows)])"
    and "rd16 f ETH_HEADERSIZE = rd16 frame ETH_HEADERSIZE + 12 + len"
proof -
  let ?n = "txbuflength p idx"
  define g where "g = wr16 frame ETH_HEADERSIZE (rd16 frame ETH_HEADERSIZE + 12 + len)"
  define h where "h = wr16 g 22 (rd16 g 22 OR EC_DATAGRAMFOLLOWS)"
  define dlen where "dlen = (if follows then len OR EC_DATAGRAMFOLLOWS else len)"
  define f where "f = put_dgram h ?n com idx ADP ADO dlen len data"
  have n: "28 \<le> ?n" using assms(2) by simp
  have n16: "unat (of_nat ?n :: u16) = ?n" using assms(4) by (intro unat_of_nat_u16) simp
  have off: "unat (of_nat ?n + 12 - 2 - 14 :: u16) = ?n + 10 - ETH_HEADERSIZE"
  proof -
    have "of_nat ?n + 12 - 2 - 14 = (of_nat (?n + 10 - ETH_HEADERSIZE) :: u16)" using n by simp
    then show ?thesis using assms(4) by (simp add: unat_of_nat_u16)
  qed
  have "carries g 16 ((d, m) # ds)"
    using assms(1) by (subst carries_cong [of _ _ _ frame]) (auto simp: g_def put_le_apply)
  then have "carries h 16 ((d, True) # ds)" unfolding h_def by (rule carries_set_follows)
  then have "carries f 16 ((d, True) # ds)"
    using assms(2) by (subst carries_cong [of _ _ _ h]) (auto simp: f_def put_dgram_other)
  moreover have "carries f ?n [(tx_dgram com idx ADP ADO len data, follows)]"
    unfolding f_def using assms(4) dlen_def by (intro put_dgram_carries) simp_all
  ultimately have c: "carries f 16 (((d, True) # ds) @ [(tx_dgram com idx ADP ADO len data, follows)])"
    unfolding carries_append using assms(2) by simp
  have "rd16 f ETH_HEADERSIZE = rd16 h ETH_HEADERSIZE"
    unfolding f_def using n by (intro get_le_cong put_dgram_other) simp
  moreover have "ecx_adddatagram p frame com idx follows ADP ADO len data =
      Some (?n + 10 - ETH_HEADERSIZE, f, p\<lparr>txbuflength := (txbuflength p)(idx := ?n + 12 + unat len)\<rparr>)"
  proof -
    have ar: "?n - EC_ELENGTHSIZE + 2 = ?n" "?n - EC_ELENGTHSIZE + 3 = ?n + 1" "?n - EC_ELENGTHSIZE + 4 = ?n + 2"
      "?n - EC_ELENGTHSIZE + 6 = ?n + 4" "?n - EC_ELENGTHSIZE + 8 = ?n + 6"
      "?n + EC_HEADERSIZE - EC_ELENGTHSIZE = ?n + 10" using n by simp_all
    have c: "EC_ELENGTHSIZE \<le> ?n \<and> ?n + 10 + EC_WKCSIZE + unat len \<le> EC_BUFSIZE" using n assms(4) by simp
    have l: "?n + 10 + EC_WKCSIZE + unat len = ?n + 12 + unat len" by simp
    have e: "ETH_HEADERSIZE + 8 = 22" by simp
    show ?thesis
      unfolding ecx_adddatagram_def Let_def n16 off ar f_def put_dgram_def h_def g_def dlen_def e
      using c assms(3) by (simp only: l simp_thms chk_True Option.bind.bind_lunit)
  qed
  ultimately show thesis using c by (intro that) (simp_all add: h_def g_def)
qed

section \<open>Transmit buffers\<close>

lemma stack_ok_len:
  "stack_ok len st \<Longrightarrow> 28 \<le> n \<Longrightarrow> n \<le> EC_BUFSIZE \<Longrightarrow> stack_ok (len(i := n)) st"
  by (auto simp: stack_ok_def)

lemma port_ok_len:
  "port_ok p \<Longrightarrow> 28 \<le> n \<Longrightarrow> n \<le> EC_BUFSIZE \<Longrightarrow>
     port_ok (p\<lparr>txbuflength := (txbuflength p)(i := n), txbuf := t\<rparr>)"
  by (simp add: port_ok_def) (blast intro: stack_ok_len)

text \<open>The buffer \<open>idx\<close> of the port carries a frame of the datagrams \<open>ds\<close> and can be sent.\<close>

definition tx_carries :: "nat \<Rightarrow> 'e ecx_portt \<Rightarrow> (dgram \<times> bool) list \<Rightarrow> bool" where
  "tx_carries idx p ds \<longleftrightarrow> frame_ready idx p \<and> carries (txbuf p idx) 16 ds \<and>
     txbuflength p idx = 16 + dgrams_size ds"

text \<open>A change of the transmit side only.\<close>

definition tx_step :: "'e ecx_portt \<Rightarrow> 'e ecx_portt \<Rightarrow> bool" where
  "tx_step p p' \<longleftrightarrow> rxbufstat p' = rxbufstat p \<and> rxbuf p' = rxbuf p \<and> os p' = os p \<and>
     redport p' = redport p \<and> redstate p' = redstate p \<and> (port_ok p \<longrightarrow> port_ok p')"

lemma tx_step_port_step: "tx_step p p' \<Longrightarrow> port_step now p p'"
  by (simp add: tx_step_def port_step_def)

lemma setup_tx_runs:
  assumes "idx < EC_MAXBUF" "28 + unat len \<le> EC_BUFSIZE"
  shows "runs_to (setup_tx com idx ADP ADO len data p) (\<lambda>p'. tx_step p p' \<and>
    tx_carries idx p' [(tx_dgram com idx ADP ADO len data, False)])"
proof -
  obtain f where
    e: "ecx_setupdatagram p (txbuf p idx) com idx ADP ADO len data =
      Some (f, p\<lparr>txbuflength := (txbuflength p)(idx := 28 + unat len)\<rparr>)"
    and c: "carries f 16 [(tx_dgram com idx ADP ADO len data, False)]"
    using setupdatagram_frame [OF assms] by blast
  then show ?thesis
    using assms port_ok_len [where p = p and n = "28 + unat len" and i = idx and t = "(txbuf p)(idx := f)"]
    by (simp add: setup_tx_def tx_step_def tx_carries_def frame_ready_def)
qed

lemma add_tx_runs:
  assumes "tx_carries idx p ((d, m) # ds)" "txbuflength p idx + 12 + unat len \<le> EC_BUFSIZE"
  shows "runs_to (add_tx com idx follows ADP ADO len data p) (\<lambda>(off, p'). tx_step p p' \<and>
    off + 4 = txbuflength p idx \<and>
    tx_carries idx p' ((d, True) # ds @ [(tx_dgram com idx ADP ADO len data, follows)]))"
proof -
  have p: "carries (txbuf p idx) 16 ((d, m) # ds)" "txbuflength p idx = 16 + dgrams_size ((d, m) # ds)"
    "idx < EC_MAXBUF"
    using assms(1) by (simp_all add: tx_carries_def frame_ready_def)
  obtain f where
    e: "ecx_adddatagram p (txbuf p idx) com idx follows ADP ADO len data =
      Some (txbuflength p idx + 10 - ETH_HEADERSIZE, f,
        p\<lparr>txbuflength := (txbuflength p)(idx := txbuflength p idx + 12 + unat len)\<rparr>)"
    and c: "carries f 16 ((d, True) # ds @ [(tx_dgram com idx ADP ADO len data, follows)])"
    using adddatagram_frame [OF p(1,2,3) assms(2)] by blast
  then show ?thesis
    using assms(2) p port_ok_len [where p = p and n = "txbuflength p idx + 12 + unat len" and i = idx and t = "(txbuf p)(idx := f)"]
    by (simp add: add_tx_def tx_step_def tx_carries_def frame_ready_def)
qed

section \<open>The frame service\<close>

text \<open>
  The interface between the primitives and the frame layer: allocating a buffer, exchanging its
  frame and releasing it. \<open>inv\<close> is the invariant of the provider's state, \<open>step\<close> a preorder that
  every operation respects, \<open>ready i\<close> says that buffer \<open>i\<close> holds a complete frame and \<open>busy\<close> tells
  the allocated buffers.
\<close>

locale frame_service =
  fixes inv :: "'p \<Rightarrow> bool" and step :: "'p \<Rightarrow> 'p \<Rightarrow> bool" and ready :: "nat \<Rightarrow> 'p \<Rightarrow> bool"
    and busy :: "'p \<Rightarrow> nat \<Rightarrow> bool"
    and getindex :: "'p \<Rightarrow> (nat \<times> 'p) option" and exchange :: "nat \<Rightarrow> int \<Rightarrow> 'p \<Rightarrow> (int \<times> 'p) option"
    and release :: "nat \<Rightarrow> 'p \<Rightarrow> 'p option"
  assumes step_refl: "step p p"
    and step_trans: "step p q \<Longrightarrow> step q r \<Longrightarrow> step p r"
    and getindex_law: "inv p \<Longrightarrow> runs_to (getindex p) (\<lambda>(i, p'). inv p' \<and> step p p' \<and> i < EC_MAXBUF \<and>
      busy p' = (busy p)(i := True))"
    and exchange_law: "inv p \<Longrightarrow> ready i p \<Longrightarrow> runs_to (exchange i t p) (\<lambda>(w, p'). inv p' \<and> step p p' \<and>
      (\<forall>j. j \<noteq> i \<longrightarrow> busy p' j = busy p j))"
    and release_law: "inv p \<Longrightarrow> i < EC_MAXBUF \<Longrightarrow> runs_to (release i p) (\<lambda>p'. inv p' \<and> step p p' \<and>
      busy p' = (busy p)(i := False))"
begin

text \<open>
  The pattern of every primitive: whatever the exchange brings, the buffer is released, so that no
  more buffers are in use than before.
\<close>

lemma transaction:
  assumes p: "inv p"
    and prep: "\<And>i q. inv q \<Longrightarrow> i < EC_MAXBUF \<Longrightarrow>
      runs_to (build i q) (\<lambda>(x, q'). inv q' \<and> step q q' \<and> ready i q' \<and> busy q' = busy q \<and> P x)"
    and result: "\<And>i x w q. i < EC_MAXBUF \<Longrightarrow> P x \<Longrightarrow> runs_to (result i x w q) (\<lambda>r. Q r)"
  shows "runs_to (do {
      (i, p) \<leftarrow> getindex p;
      (x, p) \<leftarrow> build i p;
      (w, p) \<leftarrow> exchange i t p;
      r \<leftarrow> result i x w p;
      p \<leftarrow> release i p;
      Some (r, p) }) (\<lambda>(r, p'). inv p' \<and> step p p' \<and> (\<forall>j. busy p' j \<longrightarrow> busy p j) \<and> Q r)"
proof -
  from getindex_law [OF p] obtain i p1 where 1: "getindex p = Some (i, p1)" "inv p1" "step p p1"
    "i < EC_MAXBUF" "busy p1 = (busy p)(i := True)" by (auto simp: runs_to_iff)
  from prep [OF 1(2,4)] obtain x p2 where 2: "build i p1 = Some (x, p2)" "inv p2" "step p1 p2"
    "ready i p2" "busy p2 = busy p1" "P x" by (auto simp: runs_to_iff)
  from exchange_law [OF 2(2,4)] obtain w p3 where 3: "exchange i t p2 = Some (w, p3)" "inv p3"
    "step p2 p3" "\<forall>j. j \<noteq> i \<longrightarrow> busy p3 j = busy p2 j" by (fastforce simp: runs_to_iff)
  from result [OF 1(4) 2(6)] obtain r where 4: "result i x w p3 = Some r" "Q r"
    by (auto simp: runs_to_iff)
  from release_law [OF 3(2) 1(4)] obtain p4 where 5: "release i p3 = Some p4" "inv p4" "step p3 p4"
    "busy p4 = (busy p3)(i := False)" by (auto simp: runs_to_iff)
  have "step p p4" using 1(3) 2(3) 3(3) 5(3) by (blast intro: step_trans)
  moreover have "\<forall>j. busy p4 j \<longrightarrow> busy p j" using 1(5) 2(5) 3(4) 5(4) by auto
  ultimately show ?thesis using 1(1) 2(1) 3(1) 4 5(1,2) by simp
qed

end

text \<open>The frame layer of the master provides the service, in front of a well-behaved system.\<close>

definition net_ok :: "'e os_ops \<Rightarrow> ('e \<Rightarrow> nat) \<Rightarrow> 'e ecx_portt \<Rightarrow> bool" where
  "net_ok E now p \<longleftrightarrow> good_os E now \<and> port_ok p"

definition in_use :: "'e ecx_portt \<Rightarrow> nat \<Rightarrow> bool" where
  "in_use p i \<longleftrightarrow> rxbufstat p i \<noteq> EC_BUF_EMPTY"

lemma nic_step_in_use:
  assumes "nic_step now i p p'" "j \<noteq> i"
  shows "in_use p' j = in_use p j"
proof -
  obtain st st' where "get_stack p 0 = Some st" "st_rxbufstat st = rxbufstat p"
    "get_stack p' 0 = Some st'" "st_rxbufstat st' = rxbufstat p'"
    by (simp add: get_stack_def)
  with assms show ?thesis by (fastforce simp: nic_step_def other_kept_def in_use_def)
qed

interpretation nic: frame_service "net_ok E now" "port_step now" frame_ready in_use
  ecx_getindex "ecx_srconfirm E" "\<lambda>i. ecx_setbufstat i EC_BUF_EMPTY" for E :: "'e os_ops" and now
proof
  fix p q r :: "'e ecx_portt" and i t
  show "port_step now p p" by simp
  show "port_step now p q \<Longrightarrow> port_step now q r \<Longrightarrow> port_step now p r" by (rule port_step_trans)
  assume "net_ok E now p"
  then have p: "good_os E now" "port_ok p" by (simp_all add: net_ok_def)
  show "runs_to (ecx_getindex p) (\<lambda>(i, p'). net_ok E now p' \<and> port_step now p p' \<and> i < EC_MAXBUF \<and>
      in_use p' = (in_use p)(i := True))"
    using ecx_getindex_runs [OF p(2), of now] p
    by (auto simp: net_ok_def port_step_def in_use_def fun_eq_iff elim!: runs_to_mono)
  show "runs_to (ecx_srconfirm E i t p) (\<lambda>(w, p'). net_ok E now p' \<and> port_step now p p' \<and>
      (\<forall>j. j \<noteq> i \<longrightarrow> in_use p' j = in_use p j))" if "frame_ready i p"
    using ecx_srconfirm_runs [OF p that, of t] p
    by (auto simp: net_ok_def nic_step_in_use dest: nic_step_port_step nic_step_ok elim!: runs_to_mono)
  show "runs_to (ecx_setbufstat i EC_BUF_EMPTY p) (\<lambda>p'. net_ok E now p' \<and> port_step now p p' \<and>
      in_use p' = (in_use p)(i := False))" if "i < EC_MAXBUF"
    using ecx_setbufstat_runs [OF p(2) that, of EC_BUF_EMPTY now] p
    by (auto simp: net_ok_def in_use_def fun_eq_iff dest: nic_step_port_step nic_step_ok elim!: runs_to_mono)
qed

section \<open>Every primitive runs and gives its buffer back\<close>

text \<open>
  \<open>exchange_ok now p p'\<close>: what a primitive does to the port. No more buffers are in use than before.
\<close>

definition exchange_ok :: "'e os_ops \<Rightarrow> ('e \<Rightarrow> nat) \<Rightarrow> 'e ecx_portt \<Rightarrow> 'e ecx_portt \<Rightarrow> bool" where
  "exchange_ok E now p p' \<longleftrightarrow> net_ok E now p' \<and> port_step now p p' \<and> (\<forall>j. in_use p' j \<longrightarrow> in_use p j)"

text \<open>The caller's data after a read of \<open>n\<close> bytes: untouched without an answer and behind the end.\<close>

definition read_data :: "nat \<Rightarrow> buf \<Rightarrow> int \<Rightarrow> buf \<Rightarrow> bool" where
  "read_data n data wkc data' \<longleftrightarrow> (wkc \<le> 0 \<longrightarrow> data' = data) \<and> (\<forall>i \<ge> n. data' i = data i)"

lemma setup_tx_law:
  assumes "net_ok E now q" "i < EC_MAXBUF" "28 + unat len \<le> EC_BUFSIZE"
  shows "runs_to (setup_tx com i ADP ADO len data q) (\<lambda>q'. net_ok E now q' \<and> port_step now q q' \<and>
    frame_ready i q' \<and> in_use q' = in_use q)"
  using setup_tx_runs [OF assms(2,3), of com ADP ADO data q] assms(1)
  by (auto simp: net_ok_def tx_step_def tx_carries_def in_use_def fun_eq_iff port_step_def elim!: runs_to_mono)

lemma write_primitive_runs:
  assumes "net_ok E now p" "28 + unat len \<le> EC_BUFSIZE"
  shows "runs_to (write_primitive com E ADP ADO len data timeout p) (\<lambda>(wkc, p'). exchange_ok E now p p')"
proof -
  have "runs_to (do {
      (i, p) \<leftarrow> ecx_getindex p;
      (x, p) \<leftarrow> do { p \<leftarrow> setup_tx com i ADP ADO len data p; Some ((), p) };
      (w, p) \<leftarrow> ecx_srconfirm E i timeout p;
      r \<leftarrow> Some w;
      p \<leftarrow> ecx_setbufstat i EC_BUF_EMPTY p;
      Some (r, p) }) (\<lambda>(r, p'). net_ok E now p' \<and> port_step now p p' \<and> (\<forall>j. in_use p' j \<longrightarrow> in_use p j) \<and> True)"
    by (rule nic.transaction [where P = "\<lambda>_. True", OF assms(1)])
      (use setup_tx_law assms(2) in \<open>auto elim: runs_to_mono\<close>)
  then show ?thesis
    by (simp add: write_primitive_def exchange_ok_def)
qed

lemma read_data_memcpy [simp]:
  "read_data n data wkc (memcpy data 0 b s n) \<longleftrightarrow> (wkc \<le> 0 \<longrightarrow> memcpy data 0 b s n = data)"
  by (auto simp: read_data_def memcpy_apply)

lemma read_data_refl [simp]: "read_data n data wkc data"
  by (simp add: read_data_def)

lemma read_primitive_runs:
  assumes "net_ok E now p" "28 + unat len \<le> EC_BUFSIZE"
  shows "runs_to (read_primitive com E ADP ADO len data timeout p) (\<lambda>(wkc, data', p').
    exchange_ok E now p p' \<and> read_data (unat len) data wkc data')"
proof -
  have "runs_to (do {
      (i, p) \<leftarrow> ecx_getindex p;
      (x, p) \<leftarrow> do { p \<leftarrow> setup_tx com i ADP ADO len data p; Some ((), p) };
      (w, p) \<leftarrow> ecx_srconfirm E i timeout p;
      r \<leftarrow> Some (w, if w > 0 then memcpy data 0 (rxbuf p i) EC_HEADERSIZE (unat len) else data);
      p \<leftarrow> ecx_setbufstat i EC_BUF_EMPTY p;
      Some (r, p) }) (\<lambda>(r, p'). net_ok E now p' \<and> port_step now p p' \<and> (\<forall>j. in_use p' j \<longrightarrow> in_use p j) \<and>
        read_data (unat len) data (fst r) (snd r))"
    by (rule nic.transaction [where P = "\<lambda>_. True", OF assms(1)])
      (use setup_tx_law assms(2) in \<open>auto elim: runs_to_mono\<close>)
  then show ?thesis
    by (simp add: read_primitive_def exchange_ok_def Let_def)
qed

lemma logical_primitive_runs:
  assumes "net_ok E now p" "28 + unat len \<le> EC_BUFSIZE"
  shows "runs_to (logical_primitive com E LogAdr len data timeout p) (\<lambda>(wkc, data', p').
    exchange_ok E now p p' \<and> read_data (unat len) data wkc data')"
proof -
  have "runs_to (do {
      (i, p) \<leftarrow> ecx_getindex p;
      (x, p) \<leftarrow> do { p \<leftarrow> setup_tx com i (LO_WORD LogAdr) (HI_WORD LogAdr) len data p; Some ((), p) };
      (w, p) \<leftarrow> ecx_srconfirm E i timeout p;
      r \<leftarrow> Some (w, if w > 0 \<and> rxbuf p i EC_CMDOFFSET = com
        then memcpy data 0 (rxbuf p i) EC_HEADERSIZE (unat len) else data);
      p \<leftarrow> ecx_setbufstat i EC_BUF_EMPTY p;
      Some (r, p) }) (\<lambda>(r, p'). net_ok E now p' \<and> port_step now p p' \<and> (\<forall>j. in_use p' j \<longrightarrow> in_use p j) \<and>
        read_data (unat len) data (fst r) (snd r))"
    by (rule nic.transaction [where P = "\<lambda>_. True", OF assms(1)])
      (use setup_tx_law assms(2) in \<open>auto elim: runs_to_mono\<close>)
  then show ?thesis
    by (simp add: logical_primitive_def exchange_ok_def Let_def)
qed

lemma ecx_LRWDC_runs:
  assumes "net_ok E now p" "48 + unat len \<le> EC_BUFSIZE"
  shows "runs_to (ecx_LRWDC E LogAdr len data DCrs DCtime timeout p) (\<lambda>(wkc, data', DCtime', p').
    exchange_ok E now p p' \<and> (\<forall>i \<ge> unat len. data' i = data i))"
proof -
  define prep where "prep i p = do {
     p \<leftarrow> setup_tx EC_CMD_LRW i (LO_WORD LogAdr) (HI_WORD LogAdr) len data p;
     add_tx EC_CMD_FRMW i False DCrs ECT_REG_DCSYSTIME 8 (var64 DCtime) p }" for i and p :: "'a ecx_portt"
  define res where "res i off w p = (if w > 0 \<and> rxbuf p i EC_CMDOFFSET = EC_CMD_LRW
       then do {
         chk (off + 8 \<le> EC_BUFSIZE);
         Some (w div 65536 * 65536 + uint (rd16 (rxbuf p i) (EC_HEADERSIZE + unat len)),
               memcpy data 0 (rxbuf p i) EC_HEADERSIZE (unat len), rd64 (rxbuf p i) off) }
       else Some (w, data, DCtime))" for i off w and p :: "'a ecx_portt"
  have "runs_to (prep i q) (\<lambda>(off, q'). net_ok E now q' \<and> port_step now q q' \<and> frame_ready i q' \<and>
      in_use q' = in_use q \<and> off + 8 \<le> EC_BUFSIZE)" if q: "net_ok E now q" and i: "i < EC_MAXBUF" for i q
  proof -
    have len: "28 + unat len \<le> EC_BUFSIZE" using assms(2) by simp
    from setup_tx_runs [OF i len, of EC_CMD_LRW "LO_WORD LogAdr" "HI_WORD LogAdr" data q] obtain q1
      where 1: "setup_tx EC_CMD_LRW i (LO_WORD LogAdr) (HI_WORD LogAdr) len data q = Some q1" "tx_step q q1"
        "tx_carries i q1 [(tx_dgram EC_CMD_LRW i (LO_WORD LogAdr) (HI_WORD LogAdr) len data, False)]"
      by (auto simp: runs_to_iff)
    have "txbuflength q1 i + 12 + unat (8 :: u16) \<le> EC_BUFSIZE"
      using 1(3) assms(2) by (simp add: tx_carries_def)
    from add_tx_runs [OF 1(3) this, of EC_CMD_FRMW False DCrs ECT_REG_DCSYSTIME "var64 DCtime"] 1 q
    show ?thesis
      unfolding prep_def
      by (auto simp: tx_carries_def frame_ready_def net_ok_def tx_step_def in_use_def port_step_def fun_eq_iff
          elim!: runs_to_mono)
  qed
  moreover have "runs_to (res i off w q) (\<lambda>(w, data', t). \<forall>i \<ge> unat len. data' i = data i)"
    if "off + 8 \<le> EC_BUFSIZE" for i off w q
    using that by (simp add: res_def memcpy_apply)
  ultimately have "runs_to (do {
      (i, p) \<leftarrow> ecx_getindex p;
      (x, p) \<leftarrow> prep i p;
      (w, p) \<leftarrow> ecx_srconfirm E i timeout p;
      r \<leftarrow> res i x w p;
      p \<leftarrow> ecx_setbufstat i EC_BUF_EMPTY p;
      Some (r, p) }) (\<lambda>(r, p'). net_ok E now p' \<and> port_step now p p' \<and> (\<forall>j. in_use p' j \<longrightarrow> in_use p j) \<and>
        (case r of (w, data', t) \<Rightarrow> \<forall>i \<ge> unat len. data' i = data i))"
    by (rule nic.transaction [where P = "\<lambda>off. off + 8 \<le> EC_BUFSIZE", OF assms(1)]) auto
  then show ?thesis
    unfolding ecx_LRWDC_def prep_def res_def exchange_ok_def Let_def
    by (simp add: case_prod_unfold)
qed

text \<open>The rules of the single primitives.\<close>

lemmas primitive_defs = ecx_BWR_def ecx_BRD_def ecx_APRD_def ecx_ARMW_def ecx_FRMW_def ecx_FPRD_def
  ecx_APWR_def ecx_FPWR_def ecx_LRW_def ecx_LRD_def ecx_LWR_def

lemmas ecx_BRD_runs = read_primitive_runs [where com = EC_CMD_BRD, folded ecx_BRD_def]
  and ecx_APRD_runs = read_primitive_runs [where com = EC_CMD_APRD, folded ecx_APRD_def]
  and ecx_FPRD_runs = read_primitive_runs [where com = EC_CMD_FPRD, folded ecx_FPRD_def]
  and ecx_FRMW_runs = read_primitive_runs [where com = EC_CMD_FRMW, folded ecx_FRMW_def]
  and ecx_BWR_runs = write_primitive_runs [where com = EC_CMD_BWR, folded ecx_BWR_def]
  and ecx_APWR_runs = write_primitive_runs [where com = EC_CMD_APWR, folded ecx_APWR_def]
  and ecx_FPWR_runs = write_primitive_runs [where com = EC_CMD_FPWR, folded ecx_FPWR_def]

section \<open>Properties of the frames\<close>

text \<open>
  \<open>ecx_setupdatagram\<close> writes a frame that is read back as exactly the requested datagram, with
  its length in the EtherCAT header, and records the size of the frame; the Ethernet header is left
  alone.
\<close>

theorem ecx_setupdatagram_roundtrip:
  assumes "idx < EC_MAXBUF" "28 + unat len \<le> EC_BUFSIZE"
  shows "\<exists>f p'. ecx_setupdatagram p frame com idx ADP ADO len data = Some (f, p') \<and>
    txbuflength p' idx = 28 + unat len \<and> parse_dgrams 125 f 16 = [tx_dgram com idx ADP ADO len data] \<and>
    rd16 f ETH_HEADERSIZE = EC_ECATTYPE + 12 + len \<and> (\<forall>i < ETH_HEADERSIZE. f i = frame i)"
proof -
  obtain f where f: "ecx_setupdatagram p frame com idx ADP ADO len data =
      Some (f, p\<lparr>txbuflength := (txbuflength p)(idx := 28 + unat len)\<rparr>)"
    "carries f 16 [(tx_dgram com idx ADP ADO len data, False)]"
    "rd16 f ETH_HEADERSIZE = EC_ECATTYPE + 12 + len" "\<forall>i < ETH_HEADERSIZE. f i = frame i"
    using setupdatagram_frame [OF assms] by blast
  have "parse_dgrams 125 f 16 = [tx_dgram com idx ADP ADO len data]"
    using parse_carries [where f = f and off = 16 and ds = "[]"] f(2) by simp
  with f show ?thesis by simp
qed

theorem ecx_setupdatagram_roundtrip_witness:
  "\<exists>f p'. ecx_setupdatagram (idle_port (5, [])) zero_buf EC_CMD_FPWR 1 0x1001 0x0120 2 (var16 8) = Some (f, p') \<and>
     parse_dgrams 125 f 16 = [tx_dgram EC_CMD_FPWR 1 0x1001 0x0120 2 (var16 8)]"
  using ecx_setupdatagram_roundtrip [where p = "idle_port (5, [])" and idx = 1 and len = 2 and com = "EC_CMD_FPWR"
      and frame = zero_buf and ADP = "0x1001" and ADO = "0x0120" and data = "var16 8"]
  by auto

text \<open>
  C29: \<open>ecx_adddatagram\<close> appends a datagram to a frame whose datagrams after the first are marked
  as followed: when the new one is the last, the frame is read back as the old datagrams and then
  the new one. The result is the place of the new data in the received frame, which lacks the
  Ethernet header.
\<close>

theorem ecx_adddatagram_appends:
  assumes "carries frame 16 ((d, m) # map (\<lambda>e. (e, True)) ds)"
    and "txbuflength p idx = 28 + length (d_data d) + sum_list (map (\<lambda>e. 12 + length (d_data e)) ds)"
    and "idx < EC_MAXBUF" "txbuflength p idx + 12 + unat len \<le> EC_BUFSIZE"
  shows "\<exists>off f p'. ecx_adddatagram p frame com idx False ADP ADO len data = Some (off, f, p') \<and>
    txbuflength p' idx = txbuflength p idx + 12 + unat len \<and>
    parse_dgrams 125 f 16 = d # ds @ [tx_dgram com idx ADP ADO len data] \<and>
    bytes_of f (ETH_HEADERSIZE + off) (unat len) = tx_payload com (unat len) data"
proof -
  let ?new = "tx_dgram com idx ADP ADO len data" and ?old = "(d, True) # map (\<lambda>e. (e, True)) ds"
  have sz: "txbuflength p idx = 16 + dgrams_size ((d, m) # map (\<lambda>e. (e, True)) ds)"
    using assms(2) by (simp add: dgrams_size_def o_def)
  obtain f where f: "ecx_adddatagram p frame com idx False ADP ADO len data =
      Some (txbuflength p idx + 10 - ETH_HEADERSIZE, f,
        p\<lparr>txbuflength := (txbuflength p)(idx := txbuflength p idx + 12 + unat len)\<rparr>)"
    "carries f 16 (?old @ [(?new, False)])"
    using adddatagram_frame [OF assms(1) sz assms(3,4)] unfolding append_Cons by blast
  have "12 * length ds \<le> sum_list (map (\<lambda>e. 12 + length (d_data e)) ds)"
    by (induction ds) auto
  then have "length (d # ds) < 125" using assms(2,4) by simp
  then have "parse_dgrams 125 f 16 = (d # ds) @ [?new]"
    using f(2) by (intro parse_carries) simp_all
  moreover have "carries f (txbuflength p idx) [(?new, False)]"
    using f(2) sz unfolding carries_append by simp
  then have "bytes_of f (txbuflength p idx + 10) (unat len) = tx_payload com (unat len) data"
    by (simp add: dgram_at_def tx_dgram_def)
  ultimately show ?thesis using f(1) assms(2) by simp
qed

theorem ecx_adddatagram_appends_witness:
  "\<exists>f p1 off f2 p2. ecx_setupdatagram (idle_port (5, [])) zero_buf EC_CMD_LRW 1 0 1 2 (var16 7) = Some (f, p1) \<and>
     ecx_adddatagram p1 f EC_CMD_FRMW 1 False 0x1001 ECT_REG_DCSYSTIME 8 zero_buf = Some (off, f2, p2) \<and>
     parse_dgrams 125 f2 16 = [tx_dgram EC_CMD_LRW 1 0 1 2 (var16 7),
       tx_dgram EC_CMD_FRMW 1 0x1001 ECT_REG_DCSYSTIME 8 zero_buf]"
proof -
  obtain f where f: "ecx_setupdatagram (idle_port (5, [])) zero_buf EC_CMD_LRW 1 0 1 2 (var16 7) =
      Some (f, (idle_port (5, []))\<lparr>txbuflength := (txbuflength (idle_port (5, [])))(1 := 28 + unat (2 :: u16))\<rparr>)"
    "carries f 16 [(tx_dgram EC_CMD_LRW 1 0 1 2 (var16 7), False)]"
    by (rule setupdatagram_frame [where p = "idle_port (5, [])" and idx = 1 and len = 2 and com = "EC_CMD_LRW"
      and frame = zero_buf and ADP = 0 and ADO = 1 and data = "var16 7"]) auto
  then show ?thesis
    using ecx_adddatagram_appends [where frame = f and d = "tx_dgram EC_CMD_LRW 1 0 1 2 (var16 7)" and m = False
        and ds = "[]" and idx = 1 and len = 8 and com = "EC_CMD_FRMW" and ADP = "0x1001" and ADO = "ECT_REG_DCSYSTIME"
        and p = "(idle_port (5, []))\<lparr>txbuflength := (txbuflength (idle_port (5, [])))(1 := 28 + unat (2 :: u16))\<rparr>"
        and data = zero_buf]
    by auto
qed

section \<open>Properties of the primitives\<close>

text \<open>
  C25: a configured-address read always returns; it leaves a sound port with no buffer in use that
  was not in use before, it never touches the caller's data behind the requested length, and it
  leaves the data alone altogether when no slave answered.
\<close>

theorem ecx_FPRD_returns:
  assumes "good_os E now" "port_ok p" "28 + unat len \<le> EC_BUFSIZE"
  shows "\<exists>wkc data' p'. ecx_FPRD E ADP ADO len data timeout p = Some (wkc, data', p') \<and> port_ok p' \<and>
    (\<forall>i. rxbufstat p i = EC_BUF_EMPTY \<longrightarrow> rxbufstat p' i = EC_BUF_EMPTY) \<and>
    (\<forall>i \<ge> unat len. data' i = data i) \<and> (wkc \<le> 0 \<longrightarrow> data' = data)"
  using ecx_FPRD_runs [of E now p len ADP ADO data timeout] assms
  by (auto simp: runs_to_iff net_ok_def exchange_ok_def in_use_def read_data_def)

theorem ecx_FPRD_returns_witness:
  "\<exists>wkc data' p'. ecx_FPRD script_os 0x1001 0x0130 2 zero_buf 2000 (idle_port (5, [brd_answer 1])) =
     Some (wkc, data', p') \<and> rxbufstat p' 1 = EC_BUF_EMPTY"
  using ecx_FPRD_returns [OF good_script_os, where p = "idle_port (5, [brd_answer 1])" and len = 2 and ADP = "0x1001"
      and ADO = "0x0130" and data = zero_buf and timeout = 2000] by fastforce

text \<open>
  The combined process data and clock exchange always returns, releases its buffer and writes
  only inside the requested length of the caller's data.
\<close>

theorem ecx_LRWDC_returns:
  assumes "good_os E now" "port_ok p" "48 + unat len \<le> EC_BUFSIZE"
  shows "\<exists>wkc data' t p'. ecx_LRWDC E LogAdr len data DCrs DCtime timeout p = Some (wkc, data', t, p') \<and>
    port_ok p' \<and> (\<forall>i. rxbufstat p i = EC_BUF_EMPTY \<longrightarrow> rxbufstat p' i = EC_BUF_EMPTY) \<and>
    (\<forall>i \<ge> unat len. data' i = data i)"
  using ecx_LRWDC_runs [of E now p len LogAdr data DCrs DCtime timeout] assms
  by (auto simp: runs_to_iff net_ok_def exchange_ok_def in_use_def)

theorem ecx_LRWDC_returns_witness:
  "\<exists>wkc data' t p'. ecx_LRWDC script_os 0x10000 4 zero_buf 0x1001 7 2000 (idle_port (5, [])) =
     Some (wkc, data', t, p') \<and> port_ok p'"
  using ecx_LRWDC_returns [OF good_script_os, where p = "idle_port (5, [])" and len = 4 and LogAdr = "0x10000"
      and DCrs = "0x1001" and DCtime = 7 and data = zero_buf and timeout = 2000] by fastforce

end
