(* ===== verification/Context.thy ===== *)
theory Context
  imports Base
begin

text \<open>
  The data of the master (\<open>soem/ethercatmain.h\<close>): slaves, groups, SII tables, the error ring, the
  stack of process data segments and the context that ties them together, and the calls of the
  datagram primitives through \<open>context->port\<close>.

  Arrays are functions from their index; a pointer into the process image is an offset into the
  caller's \<open>IOmap\<close>, \<open>None\<close> for \<open>NULL\<close>. The signed integers are kept as words and read with
  \<open>sint\<close> where their sign matters. Not modelled: the registered configuration hooks of a slave
  and the user data pointer; the EoE hook is a parameter of the functions that call it.
\<close>

abbreviation (input) EC_MAXELIST :: nat where "EC_MAXELIST \<equiv> 64"
abbreviation (input) EC_MAXNAME :: nat where "EC_MAXNAME \<equiv> 40"
abbreviation (input) EC_MAXSLAVE :: nat where "EC_MAXSLAVE \<equiv> 200"
abbreviation (input) EC_MAXGROUP :: nat where "EC_MAXGROUP \<equiv> 2"
abbreviation (input) EC_MAXIOSEGMENTS :: nat where "EC_MAXIOSEGMENTS \<equiv> 64"
abbreviation (input) EC_MAXMBX :: nat where "EC_MAXMBX \<equiv> 1486"
abbreviation (input) EC_MAXEEPDO :: nat where "EC_MAXEEPDO \<equiv> 0x200"
abbreviation (input) EC_MAXSM :: nat where "EC_MAXSM \<equiv> 8"
abbreviation (input) EC_MAXFMMU :: nat where "EC_MAXFMMU \<equiv> 4"
abbreviation (input) ECT_MBXPROT_AOE :: u16 where "ECT_MBXPROT_AOE \<equiv> 0x0001"
abbreviation (input) ECT_MBXPROT_EOE :: u16 where "ECT_MBXPROT_EOE \<equiv> 0x0002"
abbreviation (input) ECT_MBXPROT_COE :: u16 where "ECT_MBXPROT_COE \<equiv> 0x0004"
abbreviation (input) ECT_MBXPROT_FOE :: u16 where "ECT_MBXPROT_FOE \<equiv> 0x0008"
abbreviation (input) ECT_MBXPROT_SOE :: u16 where "ECT_MBXPROT_SOE \<equiv> 0x0010"
abbreviation (input) ECT_MBXPROT_VOE :: u16 where "ECT_MBXPROT_VOE \<equiv> 0x0020"
abbreviation (input) ECT_COEDET_SDO :: u8 where "ECT_COEDET_SDO \<equiv> 0x01"
abbreviation (input) ECT_COEDET_SDOINFO :: u8 where "ECT_COEDET_SDOINFO \<equiv> 0x02"
abbreviation (input) ECT_COEDET_PDOASSIGN :: u8 where "ECT_COEDET_PDOASSIGN \<equiv> 0x04"
abbreviation (input) ECT_COEDET_PDOCONFIG :: u8 where "ECT_COEDET_PDOCONFIG \<equiv> 0x08"
abbreviation (input) ECT_COEDET_UPLOAD :: u8 where "ECT_COEDET_UPLOAD \<equiv> 0x10"
abbreviation (input) ECT_COEDET_SDOCA :: u8 where "ECT_COEDET_SDOCA \<equiv> 0x20"
abbreviation (input) EC_SMENABLEMASK :: u32 where "EC_SMENABLEMASK \<equiv> 0xfffeffff"
abbreviation (input) EC_LOCALDELAY :: nat where "EC_LOCALDELAY \<equiv> 200"

record ec_fmmut =
  LogStart :: u32
  LogLength :: u16
  LogStartbit :: u8
  LogEndbit :: u8
  PhysStart :: u16
  PhysStartBit :: u8
  FMMUtype :: u8
  FMMUactive :: u8
  fmmu_unused1 :: u8
  fmmu_unused2 :: u16

record ec_smt =
  StartAddr :: u16
  SMlength :: u16
  SMflags :: u32

record ec_slavet =
  sl_state :: u16
  sl_ALstatuscode :: u16
  sl_configadr :: u16
  sl_aliasadr :: u16
  sl_eep_man :: u32
  sl_eep_id :: u32
  sl_eep_rev :: u32
  sl_Itype :: u16
  sl_Dtype :: u16
  sl_Obits :: u16
  sl_Obytes :: u32
  sl_outputs :: "nat option"
  sl_Ostartbit :: u8
  sl_Ibits :: u16
  sl_Ibytes :: u32
  sl_inputs :: "nat option"
  sl_Istartbit :: u8
  sl_SM :: "nat \<Rightarrow> ec_smt"
  sl_SMtype :: "nat \<Rightarrow> u8"
  sl_FMMU :: "nat \<Rightarrow> ec_fmmut"
  sl_FMMU0func :: u8
  sl_FMMU1func :: u8
  sl_FMMU2func :: u8
  sl_FMMU3func :: u8
  sl_mbx_l :: u16
  sl_mbx_wo :: u16
  sl_mbx_rl :: u16
  sl_mbx_ro :: u16
  sl_mbx_proto :: u16
  sl_mbx_cnt :: u8
  sl_hasdc :: bool
  sl_ptype :: u8
  sl_topology :: u8
  sl_activeports :: u8
  sl_consumedports :: u8
  sl_parent :: u16
  sl_parentport :: u8
  sl_entryport :: u8
  sl_DCrtA :: u32
  sl_DCrtB :: u32
  sl_DCrtC :: u32
  sl_DCrtD :: u32
  sl_pdelay :: u32
  sl_DCnext :: u16
  sl_DCprevious :: u16
  sl_DCcycle :: u32
  sl_DCshift :: u32
  sl_DCactive :: u8
  sl_configindex :: u16
  sl_SIIindex :: u16
  sl_eep_8byte :: u8
  sl_eep_pdi :: u8
  sl_CoEdetails :: u8
  sl_FoEdetails :: u8
  sl_EoEdetails :: u8
  sl_SoEdetails :: u8
  sl_Ebuscurrent :: u16
  sl_blockLRW :: u8
  sl_group :: u8
  sl_FMMUunused :: u8
  sl_islost :: bool
  sl_name :: "u8 list"

record ec_groupt =
  gr_logstartaddr :: u32
  gr_Obytes :: u32
  gr_outputs :: "nat option"
  gr_Ibytes :: u32
  gr_inputs :: "nat option"
  gr_hasdc :: bool
  gr_DCnext :: u16
  gr_Ebuscurrent :: u16
  gr_blockLRW :: u8
  gr_nsegments :: u16
  gr_Isegment :: u16
  gr_Ioffset :: u16
  gr_outputsWKC :: u16
  gr_inputsWKC :: u16
  gr_docheckstate :: bool
  gr_IOsegment :: "nat \<Rightarrow> u32"

record ec_eepromFMMUt =
  ef_Startpos :: u16
  ef_nFMMU :: u8
  ef_FMMU0 :: u8
  ef_FMMU1 :: u8
  ef_FMMU2 :: u8
  ef_FMMU3 :: u8

record ec_eepromSMt =
  es_Startpos :: u16
  es_nSM :: u8
  es_PhStart :: u16
  es_Plength :: u16
  es_Creg :: u8
  es_Sreg :: u8
  es_Activate :: u8
  es_PDIctrl :: u8

record ec_eepromPDOt =
  ep_Startpos :: u16
  ep_Length :: u16
  ep_nPDO :: u16
  ep_Index :: "nat \<Rightarrow> u16"
  ep_SyncM :: "nat \<Rightarrow> u16"
  ep_BitSize :: "nat \<Rightarrow> u16"
  ep_SMbitsize :: "nat \<Rightarrow> u16"

record ec_idxstackT =
  pushed :: nat
  pulled :: nat
  ix_idx :: "nat \<Rightarrow> nat"
  ix_data :: "nat \<Rightarrow> nat option"
  ix_length :: "nat \<Rightarrow> u16"
  ix_dcoffset :: "nat \<Rightarrow> nat"

record ec_eringt =
  ring_head :: nat
  ring_tail :: nat
  ring_Error :: "nat \<Rightarrow> ec_errort"

record ec_SMcommtypet =
  sc_n :: u8
  sc_nu1 :: u8
  sc_SMtype :: "nat \<Rightarrow> u8"

record ec_PDOassignt =
  pa_n :: u8
  pa_nu1 :: u8
  pa_index :: "nat \<Rightarrow> u16"

record ec_PDOdesct =
  pd_n :: u8
  pd_nu1 :: u8
  pd_PDO :: "nat \<Rightarrow> u32"

record 'e ecx_contextt =
  port :: "'e ecx_portt"
  slavelist :: "nat \<Rightarrow> ec_slavet"
  slavecount :: nat
  maxslave :: nat
  grouplist :: "nat \<Rightarrow> ec_groupt"
  maxgroup :: nat
  esibuf :: buf
  esimap :: "nat \<Rightarrow> u32"
  esislave :: nat
  elist :: ec_eringt
  idxstack :: ec_idxstackT
  ecaterror :: bool
  DCtime :: u64
  SMcommtype :: "nat \<Rightarrow> ec_SMcommtypet"
  PDOassign :: "nat \<Rightarrow> ec_PDOassignt"
  PDOdesc :: "nat \<Rightarrow> ec_PDOdesct"
  eepSM :: ec_eepromSMt
  eepFMMU :: ec_eepromFMMUt
  manualstatechange :: int
  IOmap :: buf

text \<open>The records as \<open>memset\<close> to zero leaves them.\<close>

definition zero_fmmu :: ec_fmmut where
  "zero_fmmu = \<lparr>LogStart = 0, LogLength = 0, LogStartbit = 0, LogEndbit = 0, PhysStart = 0, PhysStartBit = 0,
    FMMUtype = 0, FMMUactive = 0, fmmu_unused1 = 0, fmmu_unused2 = 0\<rparr>"

definition zero_slave :: ec_slavet where
  "zero_slave = \<lparr>sl_state = 0, sl_ALstatuscode = 0, sl_configadr = 0, sl_aliasadr = 0, sl_eep_man = 0,
    sl_eep_id = 0, sl_eep_rev = 0, sl_Itype = 0, sl_Dtype = 0, sl_Obits = 0, sl_Obytes = 0,
    sl_outputs = None, sl_Ostartbit = 0, sl_Ibits = 0, sl_Ibytes = 0, sl_inputs = None,
    sl_Istartbit = 0,
    sl_SM = (\<lambda>_. \<lparr>StartAddr = 0, SMlength = 0, SMflags = 0\<rparr>),
    sl_SMtype = (\<lambda>_. 0), sl_FMMU = (\<lambda>_. zero_fmmu), sl_FMMU0func = 0,
    sl_FMMU1func = 0, sl_FMMU2func = 0, sl_FMMU3func = 0, sl_mbx_l = 0, sl_mbx_wo = 0,
    sl_mbx_rl = 0, sl_mbx_ro = 0, sl_mbx_proto = 0, sl_mbx_cnt = 0, sl_hasdc = False, sl_ptype = 0,
    sl_topology = 0, sl_activeports = 0, sl_consumedports = 0, sl_parent = 0, sl_parentport = 0,
    sl_entryport = 0, sl_DCrtA = 0, sl_DCrtB = 0, sl_DCrtC = 0, sl_DCrtD = 0, sl_pdelay = 0,
    sl_DCnext = 0, sl_DCprevious = 0, sl_DCcycle = 0, sl_DCshift = 0, sl_DCactive = 0,
    sl_configindex = 0, sl_SIIindex = 0, sl_eep_8byte = 0, sl_eep_pdi = 0, sl_CoEdetails = 0,
    sl_FoEdetails = 0, sl_EoEdetails = 0, sl_SoEdetails = 0, sl_Ebuscurrent = 0, sl_blockLRW = 0,
    sl_group = 0, sl_FMMUunused = 0, sl_islost = False, sl_name = []\<rparr>"

definition zero_group :: ec_groupt where
  "zero_group = \<lparr>gr_logstartaddr = 0, gr_Obytes = 0, gr_outputs = None, gr_Ibytes = 0, gr_inputs = None,
    gr_hasdc = False, gr_DCnext = 0, gr_Ebuscurrent = 0, gr_blockLRW = 0, gr_nsegments = 0,
    gr_Isegment = 0, gr_Ioffset = 0, gr_outputsWKC = 0, gr_inputsWKC = 0, gr_docheckstate = False,
    gr_IOsegment = (\<lambda>_. 0)\<rparr>"

section \<open>Working on the context\<close>

definition upd_slave :: "nat \<Rightarrow> (ec_slavet \<Rightarrow> ec_slavet) \<Rightarrow> 'e ecx_contextt \<Rightarrow> 'e ecx_contextt" where
  "upd_slave i f c = c\<lparr>slavelist := (slavelist c)(i := f (slavelist c i))\<rparr>"

definition upd_group :: "nat \<Rightarrow> (ec_groupt \<Rightarrow> ec_groupt) \<Rightarrow> 'e ecx_contextt \<Rightarrow> 'e ecx_contextt" where
  "upd_group i f c = c\<lparr>grouplist := (grouplist c)(i := f (grouplist c i))\<rparr>"

text \<open>A call that passes \<open>context->port\<close>, without and with a second result.\<close>

definition on_port :: "('e ecx_portt \<Rightarrow> ('x \<times> 'e ecx_portt) option) \<Rightarrow> 'e ecx_contextt \<Rightarrow>
    ('x \<times> 'e ecx_contextt) option" where
  "on_port f c = do { (x, p) \<leftarrow> f (port c); Some (x, c\<lparr>port := p\<rparr>) }"

definition on_port2 :: "('e ecx_portt \<Rightarrow> ('x \<times> 'y \<times> 'e ecx_portt) option) \<Rightarrow> 'e ecx_contextt \<Rightarrow>
    ('x \<times> 'y \<times> 'e ecx_contextt) option" where
  "on_port2 f c = do { (x, y, p) \<leftarrow> f (port c); Some (x, y, c\<lparr>port := p\<rparr>) }"

definition port_usleep :: "'e os_ops \<Rightarrow> nat \<Rightarrow> 'e ecx_portt \<Rightarrow> 'e ecx_portt" where
  "port_usleep E n p = p\<lparr>os := snd (osal_usleep E n (os p))\<rparr>"

lemma on_port_runs:
  "runs_to (on_port f c) Q \<longleftrightarrow> runs_to (f (port c)) (\<lambda>(x, p). Q (x, c\<lparr>port := p\<rparr>))"
  by (simp add: on_port_def)

lemma on_port2_runs:
  "runs_to (on_port2 f c) Q \<longleftrightarrow> runs_to (f (port c)) (\<lambda>(x, y, p). Q (x, y, c\<lparr>port := p\<rparr>))"
  by (simp add: on_port2_def)

lemma upd_slave_fields [simp]:
  "port (upd_slave i f c) = port c" "slavecount (upd_slave i f c) = slavecount c"
  "maxslave (upd_slave i f c) = maxslave c" "grouplist (upd_slave i f c) = grouplist c"
  "slavelist (upd_slave i f c) j = (if j = i then f (slavelist c i) else slavelist c j)"
  "esibuf (upd_slave i f c) = esibuf c" "esimap (upd_slave i f c) = esimap c"
  "esislave (upd_slave i f c) = esislave c" "elist (upd_slave i f c) = elist c"
  "idxstack (upd_slave i f c) = idxstack c" "IOmap (upd_slave i f c) = IOmap c"
  "ecaterror (upd_slave i f c) = ecaterror c" "DCtime (upd_slave i f c) = DCtime c"
  "maxgroup (upd_slave i f c) = maxgroup c"
  by (simp_all add: upd_slave_def)

section \<open>What a sequence of exchanges does to the port\<close>

lemma exchange_ok_refl: "net_ok E now p \<Longrightarrow> exchange_ok E now p p"
  by (simp add: exchange_ok_def)

lemma exchange_ok_trans [trans]:
  "exchange_ok E now p q \<Longrightarrow> exchange_ok E now q r \<Longrightarrow> exchange_ok E now p r"
  by (auto simp: exchange_ok_def intro: port_step_trans)

lemma exchange_ok_net: "exchange_ok E now p q \<Longrightarrow> net_ok E now q"
  by (simp add: exchange_ok_def)

lemma exchange_ok_clock: "exchange_ok E now p q \<Longrightarrow> now (os p) \<le> now (os q)"
  by (simp add: exchange_ok_def port_step_def)

lemma net_ok_os: "net_ok E now p \<Longrightarrow> good_os E now"
  by (simp add: net_ok_def)

lemma exchange_ok_os:
  "net_ok E now p \<Longrightarrow> now (os p) \<le> now e \<Longrightarrow> exchange_ok E now p (p\<lparr>os := e\<rparr>)"
  by (simp add: exchange_ok_def net_ok_def port_step_def in_use_def)

lemma port_usleep_ok: "net_ok E now p \<Longrightarrow> exchange_ok E now p (port_usleep E n p)"
  unfolding port_usleep_def
  by (rule exchange_ok_os) (auto intro: osal_usleep_clock [OF net_ok_os prod.collapse [symmetric]])

lemma port_timer_start_ok:
  "net_ok E now p \<Longrightarrow> port_timer_start E timeout p = (t, p') \<Longrightarrow> exchange_ok E now p p'"
  using osal_timer_start_clock [OF net_ok_os]
  by (auto simp: port_timer_start_def split: prod.splits intro!: exchange_ok_os less_imp_le)

lemma and_not_expired_ok:
  assumes "net_ok E now p" "and_not_expired E t b p = (again, p')"
  shows "exchange_ok E now p p'"
    and "again \<Longrightarrow> timer_limit t - now (os p') < timer_limit t - now (os p)"
    and "again \<Longrightarrow> b"
proof -
  note r = and_not_expired_runs [OF net_ok_os [OF assms(1)] assms(2)]
  have "now (os p) \<le> now (os p')" by (rule nic_step_clock [OF r(1)])
  moreover have "p' = p\<lparr>os := os p'\<rparr>"
    using assms(2) by (auto simp: and_not_expired_def split: if_splits prod.splits)
  ultimately show "exchange_ok E now p p'" using exchange_ok_os [OF assms(1)] by metis
  show "timer_limit t - now (os p') < timer_limit t - now (os p)" "b" if again
    using r(2) [OF that] by auto
qed

section \<open>Polling and retrying\<close>

text \<open>
  The two loops the master is full of: \<open>do ... while (b && !osal_timer_is_expired(&timer))\<close>, whose
  body tells whether to go on, and \<open>do ... while ((wkc <= 0) && (cnt++ < EC_DEFAULTRETRIES))\<close>.
\<close>

definition poll :: "'e os_ops \<Rightarrow> ec_timet \<Rightarrow>
    ('s \<Rightarrow> 'e ecx_portt \<Rightarrow> (bool \<times> 's \<times> 'e ecx_portt) option) \<Rightarrow>
    's \<Rightarrow> 'e ecx_portt \<Rightarrow> ('s \<times> 'e ecx_portt) option" where
  "poll E timer body s p = do_while (\<lambda>(s, p). do {
     (b, s, p) \<leftarrow> body s p;
     let (again, p) = and_not_expired E timer b p;
     Some ((s, p), again) }) (s, p)"

definition retry :: "('s \<Rightarrow> (int \<times> 's) option) \<Rightarrow> 's \<Rightarrow> (int \<times> 's) option" where
  "retry f s = do {
     (cnt, wkc, s) \<leftarrow> do_while (\<lambda>(cnt, wkc, s). do {
        (wkc, s) \<leftarrow> f s;
        Some ((cnt + 1, wkc, s), wkc \<le> 0 \<and> cnt < EC_DEFAULTRETRIES) }) (0, 0, s);
     Some (wkc, s) }"

text \<open>
  A polled loop ends in a state its body accepted (\<open>R False\<close>) or, when the body wanted to go on, with
  its deadline passed.
\<close>

lemma poll_runs_exit:
  assumes p: "net_ok E now p" and s: "P s"
    and body: "\<And>s p. net_ok E now p \<Longrightarrow> P s \<Longrightarrow>
      runs_to (body s p) (\<lambda>(b, s', p'). exchange_ok E now p p' \<and> P s' \<and> R b s')"
  shows "runs_to (poll E timer body s p) (\<lambda>(s', p'). exchange_ok E now p p' \<and> P s' \<and>
    (R False s' \<or> R True s' \<and> expired timer (now (os p'))))"
  unfolding poll_def
proof (rule do_while_total [where I = "\<lambda>(s, q). exchange_ok E now p q \<and> P s"
      and R = "measure (\<lambda>(s, q). timer_limit timer - now (os q))"], goal_cases)
  case I: (3 a)
  obtain s q where a: "a = (s, q)" by (cases a)
  have q: "exchange_ok E now p q" "P s" using I a by simp_all
  from body [OF exchange_ok_net [OF q(1)] q(2)] obtain b s1 q1
    where 1: "body s q = Some (b, s1, q1)" "exchange_ok E now q q1" "P s1" "R b s1" by (auto simp: runs_to_iff)
  obtain again q2 where 2: "and_not_expired E timer b q1 = (again, q2)" by fastforce
  note n = and_not_expired_ok [OF exchange_ok_net [OF 1(2)] 2]
  have "now (os q) \<le> now (os q1)" by (rule exchange_ok_clock [OF 1(2)])
  then have "again \<Longrightarrow> timer_limit timer - now (os q2) < timer_limit timer - now (os q)"
    using n(2) by linarith
  moreover have "exchange_ok E now p q2" using q(1) 1(2) n(1) by (blast intro: exchange_ok_trans)
  moreover have "R False s1 \<or> R True s1 \<and> expired timer (now (os q2))" if "\<not> again"
    using 1(4) and_not_expired_runs(3) [OF net_ok_os [OF exchange_ok_net [OF 1(2)]] 2 that]
    by (cases b) (auto simp: expired_def)
  ultimately show ?case
    using 1(3) unfolding a prod.case 1(1) 2 Let_def Option.bind.bind_lunit runs_to_simps by simp
qed (use p s exchange_ok_refl in auto)

lemma poll_runs:
  assumes "net_ok E now p" "P s"
    and "\<And>s p. net_ok E now p \<Longrightarrow> P s \<Longrightarrow>
      runs_to (body s p) (\<lambda>(b, s', p'). exchange_ok E now p p' \<and> P s')"
  shows "runs_to (poll E timer body s p) (\<lambda>(s', p'). exchange_ok E now p p' \<and> P s')"
  using poll_runs_exit [where R = "\<lambda>_ _. True" and P = P, OF assms(1,2)] assms(3)
  by (auto elim!: runs_to_mono)

lemma retry_runs:
  assumes s: "P s" and body: "\<And>s. P s \<Longrightarrow> runs_to (f s) (\<lambda>(w, s'). P s')"
  shows "runs_to (retry f s) (\<lambda>(w, s'). P s')"
proof -
  have "runs_to (do_while (\<lambda>(cnt :: int, wkc, s). do {
        (wkc, s) \<leftarrow> f s;
        Some ((cnt + 1, wkc, s), wkc \<le> 0 \<and> cnt < EC_DEFAULTRETRIES) }) (0, 0, s)) (\<lambda>(cnt, w, s'). P s')"
  proof (rule do_while_total [where I = "\<lambda>(cnt, w, s). P s"
        and R = "measure (\<lambda>(cnt, w, s). nat (EC_DEFAULTRETRIES + 1 - cnt))"], goal_cases)
    case I: (3 a)
    obtain cnt w t where a: "a = (cnt, w, t)" by (cases a)
    from body [of t] I a obtain w1 t1 where "f t = Some (w1, t1)" "P t1" by (auto simp: runs_to_iff)
    then show ?case by (simp add: a)
  qed (simp_all add: s)
  then show ?thesis by (simp add: retry_def case_prod_unfold)
qed

end
