(* ===== verification/ErrorRing.thy ===== *)
theory ErrorRing
  imports Context
begin

text \<open>
  The error list of \<open>soem/ethercatmain.c\<close>: a ring of \<open>EC_MAXELIST + 1\<close> records with a head and a
  tail, which keeps the newest 64 errors, and the reports that fill it. \<open>ring_list\<close> is the list it
  stands for; the operations refine a bounded queue that drops its oldest element.
\<close>

section \<open>Operations\<close>

definition ecx_pusherror :: "ec_errort \<Rightarrow> 'e ecx_contextt \<Rightarrow> 'e ecx_contextt option" where
  "ecx_pusherror Ec c = do {
     let el = elist c;
     chk (ring_head el \<le> EC_MAXELIST);
     let err = (ring_Error el)(ring_head el := Ec\<lparr>err_Signal := True\<rparr>);
     let h = ring_head el + 1;
     let h = (if h > EC_MAXELIST then 0 else h);
     let t = (if h = ring_tail el then ring_tail el + 1 else ring_tail el);
     let t = (if t > EC_MAXELIST then 0 else t);
     Some (c\<lparr>elist := \<lparr>ring_head = h, ring_tail = t, ring_Error = err\<rparr>, ecaterror := True\<rparr>) }"

definition ecx_poperror :: "'e ecx_contextt \<Rightarrow> (bool \<times> ec_errort \<times> 'e ecx_contextt) option" where
  "ecx_poperror c = do {
     let el = elist c;
     let notEmpty = (ring_head el \<noteq> ring_tail el);
     chk (ring_tail el \<le> EC_MAXELIST);
     let Ec = ring_Error el (ring_tail el);
     let el = el\<lparr>ring_Error := (ring_Error el)(ring_tail el := Ec\<lparr>err_Signal := False\<rparr>)\<rparr>;
     let c = (if notEmpty
       then let t = ring_tail el + 1; t = (if t > EC_MAXELIST then 0 else t) in c\<lparr>elist := el\<lparr>ring_tail := t\<rparr>\<rparr>
       else c\<lparr>elist := el, ecaterror := False\<rparr>);
     Some (notEmpty, Ec, c) }"

definition ecx_iserror :: "'e ecx_contextt \<Rightarrow> bool" where
  "ecx_iserror c \<longleftrightarrow> ring_head (elist c) \<noteq> ring_tail (elist c)"

text \<open>\<open>osal_current_time\<close> called on the environment behind the port.\<close>

definition ctx_time :: "'e os_ops \<Rightarrow> 'e ecx_contextt \<Rightarrow> ec_timet \<times> 'e ecx_contextt" where
  "ctx_time E c = (let (t, e) = osal_current_time E (os (port c)) in (t, c\<lparr>port := (port c)\<lparr>os := e\<rparr>\<rparr>))"

definition ecx_packeterror :: "'e os_ops \<Rightarrow> u16 \<Rightarrow> u16 \<Rightarrow> u8 \<Rightarrow> u16 \<Rightarrow> 'e ecx_contextt \<Rightarrow>
    'e ecx_contextt option" where
  "ecx_packeterror E Slave Index SubIdx ErrorCode c = do {
     let (t, c) = ctx_time E c;
     let c = c\<lparr>ecaterror := True\<rparr>;
     ecx_pusherror (zero_err\<lparr>err_Time := t, err_Slave := Slave, err_Index := Index, err_SubIdx := SubIdx,
       err_Etype := EC_ERR_TYPE_PACKET_ERROR, err_ErrorCode := ErrorCode\<rparr>) c }"

definition ecx_mbxerror :: "'e os_ops \<Rightarrow> u16 \<Rightarrow> u16 \<Rightarrow> 'e ecx_contextt \<Rightarrow> 'e ecx_contextt option" where
  "ecx_mbxerror E Slave Detail c = do {
     let (t, c) = ctx_time E c;
     ecx_pusherror (zero_err\<lparr>err_Time := t, err_Slave := Slave, err_Index := 0, err_SubIdx := 0,
       err_Etype := EC_ERR_TYPE_MBX_ERROR, err_ErrorCode := Detail\<rparr>) c }"

definition ecx_mbxemergencyerror :: "'e os_ops \<Rightarrow> u16 \<Rightarrow> u16 \<Rightarrow> u16 \<Rightarrow> u8 \<Rightarrow> u16 \<Rightarrow> u16 \<Rightarrow>
    'e ecx_contextt \<Rightarrow> 'e ecx_contextt option" where
  "ecx_mbxemergencyerror E Slave ErrorCode ErrorReg b1 w1 w2 c = do {
     let (t, c) = ctx_time E c;
     ecx_pusherror (zero_err\<lparr>err_Time := t, err_Slave := Slave, err_Index := 0, err_SubIdx := 0,
       err_Etype := EC_ERR_TYPE_EMERGENCY, err_ErrorCode := ErrorCode, err_ErrorReg := ucast ErrorReg,
       err_b1 := b1, err_w1 := w1, err_w2 := w2\<rparr>) c }"

section \<open>The bounded queue\<close>

definition newest :: "nat \<Rightarrow> 'a list \<Rightarrow> 'a list" where
  "newest n xs = drop (length xs - n) xs"

lemma newest_append: "newest n (newest n xs @ ys) = newest n (xs @ ys)"
  by (cases "n \<le> length xs") (simp_all add: newest_def add.commute)

primrec pop_times :: "('s \<Rightarrow> (bool \<times> 'a \<times> 's) option) \<Rightarrow> nat \<Rightarrow> 's \<Rightarrow> ('a list \<times> 's) option" where
  "pop_times pop 0 s = Some ([], s)"
| "pop_times pop (Suc n) s = do {
     (b, x, s) \<leftarrow> pop s;
     (xs, s) \<leftarrow> pop_times pop n s;
     Some (x # xs, s) }"

text \<open>
  The contract of the error list: pushing stores an element and keeps the newest \<open>cap\<close>; popping
  returns the oldest. \<open>stored\<close> is the form in which an element is kept.
\<close>

locale bounded_queue =
  fixes cap :: nat and ok :: "'s \<Rightarrow> bool" and contents :: "'s \<Rightarrow> 'a list" and stored :: "'a \<Rightarrow> 'a"
    and push :: "'a \<Rightarrow> 's \<Rightarrow> 's option" and pop :: "'s \<Rightarrow> (bool \<times> 'a \<times> 's) option"
  assumes push_law: "ok s \<Longrightarrow> runs_to (push x s) (\<lambda>s'. ok s' \<and> contents s' = newest cap (contents s @ [stored x]))"
    and pop_law: "ok s \<Longrightarrow> runs_to (pop s) (\<lambda>(b, x, s'). ok s' \<and> (b \<longleftrightarrow> contents s \<noteq> []) \<and>
      (b \<longrightarrow> x = hd (contents s)) \<and> contents s' = tl (contents s))"
begin

lemma push_all:
  "ok s \<Longrightarrow> length (contents s) \<le> cap \<Longrightarrow> runs_to (foldM push xs s) (\<lambda>s'. ok s' \<and>
     contents s' = newest cap (contents s @ map stored xs))"
proof (induction xs arbitrary: s)
  case Nil
  then show ?case by (simp add: newest_def)
next
  case (Cons x xs)
  from push_law [OF Cons.prems(1), of x] obtain s1 where 1: "push x s = Some s1" "ok s1"
    "contents s1 = newest cap (contents s @ [stored x])" by (auto simp: runs_to_iff)
  have "length (contents s1) \<le> cap" using 1(3) by (simp add: newest_def)
  from Cons.IH [OF 1(2) this] 1(1,3) show ?case by (simp add: newest_append)
qed

lemma pop_all:
  "ok s \<Longrightarrow> length (contents s) = n \<Longrightarrow>
     runs_to (pop_times pop n s) (\<lambda>(xs, s'). ok s' \<and> xs = contents s \<and> contents s' = [])"
proof (induction n arbitrary: s)
  case (Suc n)
  have "contents s \<noteq> []" using Suc.prems(2) by auto
  with pop_law [OF Suc.prems(1)] obtain x s1 where 1: "pop s = Some (True, x, s1)" "ok s1"
    "x = hd (contents s)" "contents s1 = tl (contents s)" by (auto simp: runs_to_iff)
  have "length (contents s1) = n" "contents s = x # contents s1"
    using 1(3,4) Suc.prems(2) by (auto simp: length_Suc_conv)
  with Suc.IH [OF 1(2)] 1(1) show ?case by (auto simp: runs_to_iff)
qed simp

text \<open>What goes in comes out, in order, as far as it is among the newest.\<close>

lemma push_then_pop:
  assumes "ok s" "contents s = []"
  shows "runs_to (do { s \<leftarrow> foldM push xs s; pop_times pop (min cap (length xs)) s })
    (\<lambda>(ys, s'). ok s' \<and> ys = newest cap (map stored xs) \<and> contents s' = [])"
proof -
  from push_all [OF assms(1), of xs] assms(2) obtain s1 where 1: "foldM push xs s = Some s1" "ok s1"
    "contents s1 = newest cap (map stored xs)" by (auto simp: runs_to_iff)
  have "length (contents s1) = min cap (length xs)" using 1(3) by (simp add: newest_def)
  from pop_all [OF 1(2) this] 1 show ?thesis by simp
qed

end

section \<open>The ring is such a queue\<close>

definition ring_ok :: "ec_eringt \<Rightarrow> bool" where
  "ring_ok el \<longleftrightarrow> ring_head el \<le> EC_MAXELIST \<and> ring_tail el \<le> EC_MAXELIST"

definition ring_count :: "ec_eringt \<Rightarrow> nat" where
  "ring_count el = (ring_head el + 65 - ring_tail el) mod 65"

definition ring_list :: "ec_eringt \<Rightarrow> ec_errort list" where
  "ring_list el = map (\<lambda>k. ring_Error el ((ring_tail el + k) mod 65)) [0..<ring_count el]"

lemma ring_count_cases:
  assumes "ring_ok el"
  shows "ring_count el = (if ring_tail el \<le> ring_head el then ring_head el - ring_tail el
    else ring_head el + 65 - ring_tail el)"
proof (cases "ring_tail el \<le> ring_head el")
  case True
  then have "ring_head el + 65 - ring_tail el = (ring_head el - ring_tail el) + 65" by simp
  moreover have "(ring_head el - ring_tail el) mod 65 = ring_head el - ring_tail el"
    using assms by (auto simp: ring_ok_def intro!: mod_less)
  ultimately show ?thesis using True unfolding ring_count_def by (simp only: mod_add_self2 if_True)
next
  case False
  then show ?thesis using assms by (simp add: ring_count_def ring_ok_def)
qed

lemma slot_cases:
  "t \<le> 64 \<Longrightarrow> k \<le> 64 \<Longrightarrow> (t + k) mod 65 = (if t + k \<le> 64 then t + k else t + k - 65)" for t k :: nat
  by (simp add: mod_if)

lemma push_ring:
  assumes "ring_ok (elist c)"
  shows "runs_to (ecx_pusherror Ec c) (\<lambda>c'. ring_ok (elist c') \<and>
    ring_list (elist c') = newest 64 (ring_list (elist c) @ [Ec\<lparr>err_Signal := True\<rparr>]) \<and>
    c' = c\<lparr>elist := elist c', ecaterror := True\<rparr>)"
proof -
  let ?el = "elist c"
  define h where "h = ring_head ?el"
  define t where "t = ring_tail ?el"
  define n where "n = ring_count ?el"
  have b: "h \<le> 64" "t \<le> 64" using assms by (simp_all add: ring_ok_def h_def t_def)
  have n: "n = (if t \<le> h then h - t else h + 65 - t)"
    using ring_count_cases [OF assms] by (simp add: n_def h_def t_def)
  define h' where "h' = (if h + 1 > EC_MAXELIST then 0 else h + 1)"
  define t' where "t' = (let t' = (if h' = t then t + 1 else t) in if t' > EC_MAXELIST then 0 else t')"
  define e where "e = (ring_Error ?el)(h := Ec\<lparr>err_Signal := True\<rparr>)"
  define el where "el = \<lparr>ring_head = h', ring_tail = t', ring_Error = e\<rparr>"
  have run: "ecx_pusherror Ec c = Some (c\<lparr>elist := el, ecaterror := True\<rparr>)"
    using b by (simp add: ecx_pusherror_def Let_def el_def e_def h'_def t'_def h_def t_def)
  have ok: "ring_ok el" using b by (auto simp: ring_ok_def el_def h'_def t'_def Let_def)
  have len: "length (ring_list ?el) = n" by (simp add: ring_list_def n_def)
  have old: "ring_list ?el ! k = ring_Error ?el (if t + k \<le> 64 then t + k else t + k - 65)" if "k < n" for k
  proof -
    have "k \<le> 64" using that n b by (auto split: if_splits)
    then show ?thesis using that slot_cases [OF b(2)] by (simp add: ring_list_def n_def t_def)
  qed
  have "ring_list el = newest 64 (ring_list ?el @ [Ec\<lparr>err_Signal := True\<rparr>])"
  proof (rule nth_equalityI)
    have cnt: "ring_count el = min 64 (Suc n)"
      using ring_count_cases [OF ok] b n by (auto simp: el_def h'_def t'_def Let_def)
    then show "length (ring_list el) = length (newest 64 (ring_list ?el @ [Ec\<lparr>err_Signal := True\<rparr>]))"
      by (simp add: ring_list_def newest_def n_def)
    fix k assume "k < length (ring_list el)"
    then have k: "k < ring_count el" by (simp add: ring_list_def)
    have t': "t' \<le> 64" using ok by (simp add: ring_ok_def el_def)
    have k64: "k \<le> 64" using k cnt by simp
    have new: "ring_list el ! k = e (if t' + k \<le> 64 then t' + k else t' + k - 65)"
      using k slot_cases [OF t' k64] by (simp add: ring_list_def el_def)
    show "ring_list el ! k = newest 64 (ring_list ?el @ [Ec\<lparr>err_Signal := True\<rparr>]) ! k"
    proof (cases "n < 64")
      case True
      then have tt: "t' = t" using b n by (auto simp: t'_def h'_def Let_def split: if_splits)
      have nw: "newest 64 (ring_list ?el @ [Ec\<lparr>err_Signal := True\<rparr>]) = ring_list ?el @ [Ec\<lparr>err_Signal := True\<rparr>]"
        using True len by (simp add: newest_def)
      show ?thesis
      proof (cases "k < n")
        case True
        then show ?thesis using n b unfolding nw new tt by (auto simp: nth_append len old e_def split: if_splits)
      next
        case False
        then have "k = n" using k cnt by simp
        then show ?thesis using n b unfolding nw new tt by (auto simp: nth_append len e_def split: if_splits)
      qed
    next
      case False
      then have n64: "n = 64" using n b by (auto split: if_splits)
      then have tt: "t' = (if t = 64 then 0 else t + 1)" "h = (if t = 0 then 64 else t - 1)"
        using b n by (auto simp: t'_def h'_def Let_def split: if_splits)
      have nw: "newest 64 (ring_list ?el @ [Ec\<lparr>err_Signal := True\<rparr>]) ! k = (ring_list ?el @ [Ec\<lparr>err_Signal := True\<rparr>]) ! Suc k"
        using len n64 k cnt by (simp add: newest_def nth_append)
      show ?thesis
      proof (cases "Suc k < n")
        case True
        then show ?thesis using n64 b unfolding nw new tt(1)
          by (auto simp: nth_append len old e_def tt(2) split: if_splits)
      next
        case False
        then have "k = 63" using k cnt n64 by simp
        then show ?thesis using n64 b unfolding nw new tt(1)
          by (auto simp: nth_append len e_def tt(2) split: if_splits)
      qed
    qed
  qed
  with run ok show ?thesis by simp
qed

lemma pop_ring:
  assumes "ring_ok (elist c)"
  shows "runs_to (ecx_poperror c) (\<lambda>(b, x, c'). ring_ok (elist c') \<and> (b \<longleftrightarrow> ring_list (elist c) \<noteq> []) \<and>
    (b \<longrightarrow> x = hd (ring_list (elist c))) \<and> ring_list (elist c') = tl (ring_list (elist c)) \<and>
    c' = c\<lparr>elist := elist c', ecaterror := (if b then ecaterror c else False)\<rparr>)"
proof -
  let ?el = "elist c"
  define h where "h = ring_head ?el"
  define t where "t = ring_tail ?el"
  have b: "h \<le> 64" "t \<le> 64" using assms by (simp_all add: ring_ok_def h_def t_def)
  define E' where "E' = (ring_Error ?el)(t := (ring_Error ?el t)\<lparr>err_Signal := False\<rparr>)"
  define t' where "t' = (if t + 1 > EC_MAXELIST then 0 else t + 1)"
  define el where "el = \<lparr>ring_head = h, ring_tail = (if h \<noteq> t then t' else t), ring_Error = E'\<rparr>"
  have run: "ecx_poperror c = Some (h \<noteq> t, ring_Error ?el t,
      c\<lparr>elist := el, ecaterror := (if h \<noteq> t then ecaterror c else False)\<rparr>)"
    using b by (simp add: ecx_poperror_def Let_def el_def E'_def t'_def h_def t_def)
  have ok: "ring_ok el" using b by (simp add: ring_ok_def el_def t'_def)
  have cnt: "ring_count ?el = (if t \<le> h then h - t else h + 65 - t)"
    using ring_count_cases [OF assms] by (simp add: h_def t_def)
  have cnt': "ring_count el = ring_count ?el - 1"
    using ring_count_cases [OF ok] b cnt by (auto simp: el_def t'_def split: if_splits)
  have old: "ring_list ?el ! k = ring_Error ?el (if t + k \<le> 64 then t + k else t + k - 65)" if "k < ring_count ?el" for k
  proof -
    have "k \<le> 64" using that cnt b by (auto split: if_splits)
    then show ?thesis using that slot_cases [OF b(2)] by (simp add: ring_list_def t_def)
  qed
  have empty: "ring_list ?el = [] \<longleftrightarrow> h = t" using cnt b by (auto simp: ring_list_def split: if_splits)
  have hd: "hd (ring_list ?el) = ring_Error ?el t" if "h \<noteq> t"
  proof -
    have "0 < ring_count ?el" using that cnt b by (auto split: if_splits)
    then show ?thesis using old [of 0] b by (simp add: hd_conv_nth ring_list_def)
  qed
  have "ring_list el = tl (ring_list ?el)"
  proof (rule nth_equalityI)
    show "length (ring_list el) = length (tl (ring_list ?el))" using cnt' by (simp add: ring_list_def)
    fix k assume "k < length (ring_list el)"
    then have k: "Suc k < ring_count ?el" using cnt' by (simp add: ring_list_def)
    have ht: "h \<noteq> t" using k cnt by (auto split: if_splits)
    have t': "t' \<le> 64" using b by (simp add: t'_def)
    have k64: "k \<le> 64" using k cnt b by (auto split: if_splits)
    have "ring_list el ! k = E' (if t' + k \<le> 64 then t' + k else t' + k - 65)"
      using k ht cnt' slot_cases [OF t' k64] by (simp add: ring_list_def el_def)
    also have "\<dots> = ring_Error ?el (if t + Suc k \<le> 64 then t + Suc k else t + Suc k - 65)"
      using k cnt b by (cases "t = 64") (auto simp: E'_def t'_def split: if_splits)
    also have "\<dots> = tl (ring_list ?el) ! k"
      using old [OF k] k by (simp add: nth_tl ring_list_def)
    finally show "ring_list el ! k = tl (ring_list ?el) ! k" .
  qed
  with run ok empty hd show ?thesis by simp
qed

interpretation errors: bounded_queue 64 "\<lambda>c. ring_ok (elist c)" "\<lambda>c. ring_list (elist c)"
  "\<lambda>e. e\<lparr>err_Signal := True\<rparr>" ecx_pusherror ecx_poperror
proof
  fix c :: "'a ecx_contextt" and x assume "ring_ok (elist c)"
  then show "runs_to (ecx_pusherror x c) (\<lambda>s'. ring_ok (elist s') \<and>
      ring_list (elist s') = newest 64 (ring_list (elist c) @ [x\<lparr>err_Signal := True\<rparr>]))"
    using push_ring [of c x] by (auto elim: runs_to_mono)
next
  fix c :: "'a ecx_contextt" assume "ring_ok (elist c)"
  then show "runs_to (ecx_poperror c) (\<lambda>(b, x, s'). ring_ok (elist s') \<and> (b \<longleftrightarrow> ring_list (elist c) \<noteq> []) \<and>
      (b \<longrightarrow> x = hd (ring_list (elist c))) \<and> ring_list (elist s') = tl (ring_list (elist c)))"
    using pop_ring [of c] by (auto elim!: runs_to_mono)
qed

lemma ecx_iserror_list: "ring_ok (elist c) \<Longrightarrow> ecx_iserror c \<longleftrightarrow> ring_list (elist c) \<noteq> []"
  using ring_count_cases [of "elist c"]
  by (auto simp: ecx_iserror_def ring_list_def ring_ok_def split: if_splits)

section \<open>The invariant of the context\<close>

text \<open>
  \<open>ctx_ok\<close> is what every function of the master may rely on; \<open>ctx_step\<close> is what it guarantees: the
  port did a sequence of exchanges, and the number of slaves, their groups and their configuration (all but the AL state,
  the mailbox counter and the owner of the EEPROM) are as before.
\<close>

definition ctx_ok :: "'e os_ops \<Rightarrow> ('e \<Rightarrow> nat) \<Rightarrow> 'e ecx_contextt \<Rightarrow> bool" where
  "ctx_ok E now c \<longleftrightarrow> net_ok E now (port c) \<and> ring_ok (elist c) \<and> slavecount c < maxslave c"

definition slave_config :: "ec_slavet \<Rightarrow> ec_slavet" where
  "slave_config s = s\<lparr>sl_state := 0, sl_ALstatuscode := 0, sl_mbx_cnt := 0, sl_eep_pdi := 0\<rparr>"

lemma slave_config_simps [simp]:
  "slave_config (s\<lparr>sl_state := st\<rparr>) = slave_config s" "slave_config (s\<lparr>sl_ALstatuscode := al\<rparr>) = slave_config s"
  "slave_config (s\<lparr>sl_mbx_cnt := cnt\<rparr>) = slave_config s" "slave_config (s\<lparr>sl_eep_pdi := pdi\<rparr>) = slave_config s"
  by (simp_all add: slave_config_def)

lemma slave_config_fields:
  assumes "slave_config s = slave_config t"
  shows "sl_configadr s = sl_configadr t" "sl_mbx_l s = sl_mbx_l t" "sl_mbx_rl s = sl_mbx_rl t"
    "sl_eep_8byte s = sl_eep_8byte t" "sl_parent s = sl_parent t" "sl_topology s = sl_topology t"
    "sl_activeports s = sl_activeports t" "sl_group s = sl_group t" "sl_hasdc s = sl_hasdc t"
  using assms [THEN arg_cong [where f = sl_configadr]] assms [THEN arg_cong [where f = sl_mbx_l]]
    assms [THEN arg_cong [where f = sl_mbx_rl]] assms [THEN arg_cong [where f = sl_eep_8byte]]
    assms [THEN arg_cong [where f = sl_parent]] assms [THEN arg_cong [where f = sl_topology]]
    assms [THEN arg_cong [where f = sl_activeports]] assms [THEN arg_cong [where f = sl_group]]
    assms [THEN arg_cong [where f = sl_hasdc]]
  by (simp_all add: slave_config_def)

definition slaves_kept :: "'e ecx_contextt \<Rightarrow> 'e ecx_contextt \<Rightarrow> bool" where
  "slaves_kept c c' \<longleftrightarrow> slavecount c' = slavecount c \<and> maxslave c' = maxslave c \<and>
     maxgroup c' = maxgroup c \<and> grouplist c' = grouplist c \<and> (\<forall>i. slave_config (slavelist c' i) = slave_config (slavelist c i))"

lemma slaves_kept_iff:
  "slaves_kept c c' \<longleftrightarrow> slavecount c' = slavecount c \<and> maxslave c' = maxslave c \<and>
     maxgroup c' = maxgroup c \<and> grouplist c' = grouplist c \<and>
     (\<forall>i. sl_configadr (slavelist c' i) = sl_configadr (slavelist c i) \<and>
       sl_mbx_l (slavelist c' i) = sl_mbx_l (slavelist c i) \<and>
       sl_mbx_rl (slavelist c' i) = sl_mbx_rl (slavelist c i) \<and>
       sl_eep_8byte (slavelist c' i) = sl_eep_8byte (slavelist c i) \<and>
       slave_config (slavelist c' i) = slave_config (slavelist c i))"
  by (auto simp: slaves_kept_def dest: slave_config_fields)

definition ctx_step :: "'e os_ops \<Rightarrow> ('e \<Rightarrow> nat) \<Rightarrow> 'e ecx_contextt \<Rightarrow> 'e ecx_contextt \<Rightarrow> bool" where
  "ctx_step E now c c' \<longleftrightarrow> ctx_ok E now c' \<and> exchange_ok E now (port c) (port c') \<and> slaves_kept c c'"

lemma slaves_kept_refl [simp]: "slaves_kept c c"
  by (simp add: slaves_kept_iff)

lemma ctx_step_refl: "ctx_ok E now c \<Longrightarrow> ctx_step E now c c"
  by (simp add: ctx_step_def ctx_ok_def exchange_ok_refl)

lemma ctx_step_trans [trans]: "ctx_step E now a b \<Longrightarrow> ctx_step E now b c \<Longrightarrow> ctx_step E now a c"
  by (auto simp: ctx_step_def slaves_kept_iff intro: exchange_ok_trans)

lemma ctx_step_ok: "ctx_step E now c c' \<Longrightarrow> ctx_ok E now c'"
  by (simp add: ctx_step_def)

lemma ctx_step_count: "ctx_step E now c c' \<Longrightarrow> slavecount c' = slavecount c \<and> maxslave c' = maxslave c"
  by (simp add: ctx_step_def slaves_kept_iff)

lemma ctx_ok_net: "ctx_ok E now c \<Longrightarrow> net_ok E now (port c)"
  by (simp add: ctx_ok_def)

lemma ctx_step_port:
  "ctx_ok E now c \<Longrightarrow> exchange_ok E now (port c) p \<Longrightarrow> ctx_step E now c (c\<lparr>port := p\<rparr>)"
  by (simp add: ctx_step_def ctx_ok_def slaves_kept_iff exchange_ok_net)

text \<open>Calls through the port are steps of the context.\<close>

lemma on_port_step:
  assumes "ctx_ok E now c" "runs_to (f (port c)) (\<lambda>(x, p). exchange_ok E now (port c) p \<and> Q x)"
  shows "runs_to (on_port f c) (\<lambda>(x, c'). ctx_step E now c c' \<and> Q x \<and> (\<exists>p. c' = c\<lparr>port := p\<rparr>))"
  unfolding on_port_runs using assms(2) by (rule runs_to_mono) (auto intro: ctx_step_port assms(1))

lemma on_port2_step:
  assumes "ctx_ok E now c" "runs_to (f (port c)) (\<lambda>(x, y, p). exchange_ok E now (port c) p \<and> Q x y)"
  shows "runs_to (on_port2 f c) (\<lambda>(x, y, c'). ctx_step E now c c' \<and> Q x y \<and> (\<exists>p. c' = c\<lparr>port := p\<rparr>))"
  unfolding on_port2_runs using assms(2) by (rule runs_to_mono) (auto intro: ctx_step_port assms(1))

lemma ecx_pusherror_step:
  assumes "ctx_ok E now c"
  shows "runs_to (ecx_pusherror e c) (\<lambda>c'. ctx_step E now c c' \<and>
    ring_list (elist c') = newest 64 (ring_list (elist c) @ [e\<lparr>err_Signal := True\<rparr>]))"
proof -
  have "ring_ok (elist c)" using assms by (simp add: ctx_ok_def)
  from push_ring [OF this, of e] obtain c' where c': "ecx_pusherror e c = Some c'" "ring_ok (elist c')"
    "ring_list (elist c') = newest 64 (ring_list (elist c) @ [e\<lparr>err_Signal := True\<rparr>])"
    "c' = c\<lparr>elist := elist c', ecaterror := True\<rparr>" by (auto simp: runs_to_iff)
  have "port c' = port c" "slavecount c' = slavecount c" "maxslave c' = maxslave c"
    "maxgroup c' = maxgroup c" "slavelist c' = slavelist c" "grouplist c' = grouplist c" by (subst c'(4), simp)+
  then have "ctx_step E now c c'"
    using assms c'(2) by (simp add: ctx_step_def ctx_ok_def slaves_kept_iff exchange_ok_refl)
  with c' show ?thesis by simp
qed

lemma ctx_time_step:
  assumes "ctx_ok E now c" "ctx_time E c = (t, c')"
  shows "ctx_step E now c c' \<and> elist c' = elist c"
proof -
  obtain e where e: "osal_current_time E (os (port c)) = (t, e)" "c' = c\<lparr>port := (port c)\<lparr>os := e\<rparr>\<rparr>"
    using assms(2) by (auto simp: ctx_time_def split: prod.splits)
  have "now (os (port c)) \<le> now e"
    by (rule osal_current_time_clock [OF net_ok_os [OF ctx_ok_net [OF assms(1)]] e(1)])
  with e(2) assms(1) show ?thesis
    by (auto intro!: ctx_step_port exchange_ok_os simp: ctx_ok_net)
qed

lemma timed_report_step:
  assumes "ctx_ok E now c"
  shows "runs_to (do { let (t, c) = ctx_time E c; let c = c\<lparr>ecaterror := b\<rparr>; ecx_pusherror (e t) c })
      (\<lambda>c'. ctx_step E now c c')"
    and "runs_to (do { let (t, c) = ctx_time E c; ecx_pusherror (e t) c }) (\<lambda>c'. ctx_step E now c c')"
proof -
  obtain t c1 where 1: "ctx_time E c = (t, c1)" by fastforce
  note s = ctx_time_step [OF assms 1]
  then have ok: "ctx_ok E now c1" by (blast intro: ctx_step_ok)
  then have ok2: "ctx_ok E now (c1\<lparr>ecaterror := b\<rparr>)" by (simp add: ctx_ok_def)
  have "ctx_step E now c (c1\<lparr>ecaterror := b\<rparr>)"
    using s ok2 by (simp add: ctx_step_def slaves_kept_iff)
  with ecx_pusherror_step [OF ok2, of "e t"] 1
  show "runs_to (do { let (t, c) = ctx_time E c; let c = c\<lparr>ecaterror := b\<rparr>; ecx_pusherror (e t) c })
      (\<lambda>c'. ctx_step E now c c')"
    by (auto simp: Let_def intro: ctx_step_trans elim!: runs_to_mono)
  show "runs_to (do { let (t, c) = ctx_time E c; ecx_pusherror (e t) c }) (\<lambda>c'. ctx_step E now c c')"
    using s ecx_pusherror_step [OF ok, of "e t"] 1 by (auto intro: ctx_step_trans elim!: runs_to_mono)
qed

lemma report_steps [ok_rules]:
  assumes "ctx_ok E now c"
  shows "runs_to (ecx_packeterror E s i j code c) (\<lambda>c'. ctx_step E now c c')"
    and "runs_to (ecx_mbxerror E s code c) (\<lambda>c'. ctx_step E now c c')"
    and "runs_to (ecx_mbxemergencyerror E s code reg b w w' c) (\<lambda>c'. ctx_step E now c c')"
  unfolding ecx_packeterror_def ecx_mbxerror_def ecx_mbxemergencyerror_def
  by (rule timed_report_step [OF assms])+

section \<open>Properties\<close>

text \<open>
  C26: the error list is a queue of the newest 64 errors: whatever is pushed on an empty list, the
  same number of pops (at most 64) returns the newest of them in the order in which they were
  pushed, marked as signalled, and leaves the list empty.
\<close>

theorem error_list_fifo:
  assumes "ring_ok (elist c)" "ring_list (elist c) = []"
  shows "runs_to (do { c \<leftarrow> foldM ecx_pusherror xs c; pop_times ecx_poperror (min 64 (length xs)) c })
    (\<lambda>(ys, c'). ys = newest 64 (map (\<lambda>e. e\<lparr>err_Signal := True\<rparr>) xs) \<and> \<not> ecx_iserror c')"
  using errors.push_then_pop [OF assms, of xs]
  by (rule runs_to_mono) (auto simp: ecx_iserror_list)

text \<open>
  A pop reports an error exactly when \<open>ecx_iserror\<close> says there is one, and hands out the oldest;
  the error flag of the context is cleared only by a pop that finds the list empty.
\<close>

theorem ecx_poperror_reports:
  assumes "ring_ok (elist c)"
  shows "\<exists>b x c'. ecx_poperror c = Some (b, x, c') \<and> ring_ok (elist c') \<and> (b \<longleftrightarrow> ecx_iserror c) \<and>
    ecaterror c' = (b \<and> ecaterror c) \<and> (b \<longrightarrow> ring_list (elist c) = x # ring_list (elist c'))"
proof -
  from pop_ring [OF assms] obtain b x c' where c': "ecx_poperror c = Some (b, x, c')" "ring_ok (elist c')"
    "b \<longleftrightarrow> ring_list (elist c) \<noteq> []" "b \<longrightarrow> x = hd (ring_list (elist c))"
    "ring_list (elist c') = tl (ring_list (elist c))"
    "c' = c\<lparr>elist := elist c', ecaterror := (if b then ecaterror c else False)\<rparr>"
    by (auto simp: runs_to_iff)
  have "ecaterror c' = (b \<and> ecaterror c)" by (subst c'(6)) simp
  with c' show ?thesis using assms by (auto simp: ecx_iserror_list)
qed

section \<open>Examples\<close>

text \<open>A context with the given number of zeroed slaves and an empty error list.\<close>

definition idle_ctx :: "nat \<Rightarrow> nat \<times> u8 list list \<Rightarrow> (nat \<times> u8 list list) ecx_contextt" where
  "idle_ctx n e = \<lparr>port = idle_port e, slavelist = (\<lambda>_. zero_slave), slavecount = n, maxslave = EC_MAXSLAVE,
     grouplist = (\<lambda>_. zero_group), maxgroup = EC_MAXGROUP, esibuf = zero_buf, esimap = (\<lambda>_. 0), esislave = 0,
     elist = \<lparr>ring_head = 0, ring_tail = 0, ring_Error = (\<lambda>_. zero_err)\<rparr>,
     idxstack = \<lparr>pushed = 0, pulled = 0, ix_idx = (\<lambda>_. 0), ix_data = (\<lambda>_. None), ix_length = (\<lambda>_. 0),
       ix_dcoffset = (\<lambda>_. 0)\<rparr>, ecaterror = False, DCtime = 0,
     SMcommtype = (\<lambda>_. \<lparr>sc_n = 0, sc_nu1 = 0, sc_SMtype = (\<lambda>_. 0)\<rparr>),
     PDOassign = (\<lambda>_. \<lparr>pa_n = 0, pa_nu1 = 0, pa_index = (\<lambda>_. 0)\<rparr>),
     PDOdesc = (\<lambda>_. \<lparr>pd_n = 0, pd_nu1 = 0, pd_PDO = (\<lambda>_. 0)\<rparr>),
     eepSM = \<lparr>es_Startpos = 0, es_nSM = 0, es_PhStart = 0, es_Plength = 0, es_Creg = 0, es_Sreg = 0,
       es_Activate = 0, es_PDIctrl = 0\<rparr>,
     eepFMMU = \<lparr>ef_Startpos = 0, ef_nFMMU = 0, ef_FMMU0 = 0, ef_FMMU1 = 0, ef_FMMU2 = 0, ef_FMMU3 = 0\<rparr>,
     manualstatechange = 0, IOmap = zero_buf\<rparr>"

lemma idle_ctx_simps [simp]:
  "port (idle_ctx n e) = idle_port e" "slavecount (idle_ctx n e) = n" "maxslave (idle_ctx n e) = EC_MAXSLAVE"
  "slavelist (idle_ctx n e) i = zero_slave" "grouplist (idle_ctx n e) i = zero_group"
  "elist (idle_ctx n e) = \<lparr>ring_head = 0, ring_tail = 0, ring_Error = (\<lambda>_. zero_err)\<rparr>"
  "esislave (idle_ctx n e) = 0" "esimap (idle_ctx n e) i = 0" "IOmap (idle_ctx n e) = zero_buf"
  "pushed (idxstack (idle_ctx n e)) = 0" "pulled (idxstack (idle_ctx n e)) = 0"
  by (simp_all add: idle_ctx_def)

lemma idle_ring [simp]: "ring_ok (elist (idle_ctx n e))" "ring_list (elist (idle_ctx n e)) = []"
  by (simp_all add: ring_ok_def ring_list_def ring_count_def)

lemma idle_ctx_ok: "n < EC_MAXSLAVE \<Longrightarrow> ctx_ok script_os (\<lambda>(t, q). t * 1000) (idle_ctx n e)"
  using good_script_os by (simp add: ctx_ok_def net_ok_def ring_ok_def)

theorem error_list_fifo_witness:
  "\<exists>c'. (do { c \<leftarrow> foldM ecx_pusherror [zero_err\<lparr>err_Slave := 1\<rparr>, zero_err\<lparr>err_Slave := 2\<rparr>] (idle_ctx 2 (5, []));
      pop_times ecx_poperror 2 c }) =
    Some ([zero_err\<lparr>err_Slave := 1, err_Signal := True\<rparr>, zero_err\<lparr>err_Slave := 2, err_Signal := True\<rparr>], c')"
proof -
  let ?xs = "[zero_err\<lparr>err_Slave := 1\<rparr>, zero_err\<lparr>err_Slave := 2\<rparr>]"
  have n: "min 64 (length ?xs) = 2" "newest 64 (map (\<lambda>e. e\<lparr>err_Signal := True\<rparr>) ?xs) =
      [zero_err\<lparr>err_Slave := 1, err_Signal := True\<rparr>, zero_err\<lparr>err_Slave := 2, err_Signal := True\<rparr>]"
    by (simp_all add: newest_def)
  show ?thesis
    using error_list_fifo [OF idle_ring, where xs = ?xs, unfolded n runs_to_iff] by blast
qed

theorem ecx_poperror_reports_witness:
  "\<exists>x c'. ecx_poperror (idle_ctx 2 (5, [])) = Some (False, x, c') \<and> \<not> ecaterror c'"
  using ecx_poperror_reports [OF idle_ring(1), of 2 "(5, [])"] by (auto simp: ecx_iserror_def)

end
