(* ===== verification/Eeprom.thy ===== *)
theory Eeprom
  imports ErrorRing
begin

text \<open>
  Access to the EEPROM of a slave through its registers (\<open>soem/ethercatmain.c\<close>): who controls it,
  waiting until it is ready, reading and writing one word.

  The functions for auto-increment addresses (\<open>...AP\<close>) and for configured addresses (\<open>...FP\<close>) are
  the same code over different primitives: they are instances of one definition, with the read
  \<open>rd\<close> and the write \<open>wr\<close> of the addressed slave. They use the context only for its port and are
  defined on the port. The interface \<open>slave_access\<close> states what they need of the two primitives.
\<close>

section \<open>Waiting for the EEPROM\<close>

type_synonym 'e reg_read = "u16 \<Rightarrow> u16 \<Rightarrow> buf \<Rightarrow> int \<Rightarrow> 'e ecx_portt \<Rightarrow> (int \<times> buf \<times> 'e ecx_portt) option"
type_synonym 'e reg_write = "u16 \<Rightarrow> u16 \<Rightarrow> buf \<Rightarrow> int \<Rightarrow> 'e ecx_portt \<Rightarrow> (int \<times> 'e ecx_portt) option"

definition eeprom_waitnotbusy :: "'e reg_read \<Rightarrow> 'e os_ops \<Rightarrow> int \<Rightarrow> 'e ecx_portt \<Rightarrow>
    (bool \<times> u16 \<times> 'e ecx_portt) option" where
  "eeprom_waitnotbusy rd E timeout p = do {
     let (timer, p) = port_timer_start E timeout p;
     ((cnt, wkc, estat), p) \<leftarrow> poll E timer (\<lambda>(cnt, wkc, estat) p. do {
        let p = (if cnt \<noteq> (0 :: nat) then port_usleep E EC_LOCALDELAY p else p);
        (wkc, b, p) \<leftarrow> rd ECT_REG_EEPSTAT 2 (var16 0) EC_TIMEOUTRET p;
        let estat = rd16 b 0;
        Some (wkc \<le> 0 \<or> estat AND EC_ESTAT_BUSY \<noteq> 0, (cnt + 1, wkc, estat), p) }) (0, 0 :: int, 0) p;
     Some (estat AND EC_ESTAT_BUSY = 0, estat, p) }"

definition ecx_eeprom_waitnotbusyAP :: "'e os_ops \<Rightarrow> u16 \<Rightarrow> int \<Rightarrow> 'e ecx_portt \<Rightarrow>
    (bool \<times> u16 \<times> 'e ecx_portt) option" where
  "ecx_eeprom_waitnotbusyAP E aiadr = eeprom_waitnotbusy (ecx_APRD E aiadr) E"

definition ecx_eeprom_waitnotbusyFP :: "'e os_ops \<Rightarrow> u16 \<Rightarrow> int \<Rightarrow> 'e ecx_portt \<Rightarrow>
    (bool \<times> u16 \<times> 'e ecx_portt) option" where
  "ecx_eeprom_waitnotbusyFP E configadr = eeprom_waitnotbusy (ecx_FPRD E configadr) E"

section \<open>Reading and writing\<close>

text \<open>The command record \<open>ec_eepromt\<close>.\<close>

definition ec_eepromt :: "u16 \<Rightarrow> u16 \<Rightarrow> buf" where
  "ec_eepromt comm addr = wr16 (wr16 (wr16 zero_buf 0 comm) 2 addr) 4 0"

definition clear_errors :: "'e reg_write \<Rightarrow> u16 \<Rightarrow> 'e ecx_portt \<Rightarrow> 'e ecx_portt option" where
  "clear_errors wr estat p =
     (if estat AND EC_ESTAT_EMASK \<noteq> 0
      then do { (_, p) \<leftarrow> wr ECT_REG_EEPCTL 2 (var16 EC_ECMD_NOP) EC_TIMEOUTRET3 p; Some p }
      else Some p)"

text \<open>
  What follows a command: wait for the result, count a refusal (\<open>NACK\<close>), otherwise go on with
  \<open>act\<close> and reset the count. Without an answer nothing changes, the count included.
\<close>

definition eeprom_outcome :: "'e reg_read \<Rightarrow> 'e os_ops \<Rightarrow> nat \<Rightarrow> int \<Rightarrow>
    (u16 \<Rightarrow> 's \<Rightarrow> 'e ecx_portt \<Rightarrow> ('s \<times> 'e ecx_portt) option) \<Rightarrow>
    int \<Rightarrow> 's \<Rightarrow> int \<Rightarrow> 'e ecx_portt \<Rightarrow> ('s \<times> int \<times> 'e ecx_portt) option" where
  "eeprom_outcome rd E delay timeout act wkc s nackcnt p =
     (if wkc \<noteq> 0 then do {
        let p = port_usleep E delay p;
        (ready, estat, p) \<leftarrow> eeprom_waitnotbusy rd E timeout p;
        if ready
        then if estat AND EC_ESTAT_NACK \<noteq> 0
             then Some (s, nackcnt + 1, port_usleep E (EC_LOCALDELAY * 5) p)
             else do { (s, p) \<leftarrow> act estat s p; Some (s, 0, p) }
        else Some (s, nackcnt, p) }
      else Some (s, nackcnt, p))"

text \<open>\<open>do ... while ((nackcnt > 0) && (nackcnt < 3))\<close>.\<close>

definition nack_loop :: "('s \<Rightarrow> int \<Rightarrow> 'e ecx_portt \<Rightarrow> ('s \<times> int \<times> 'e ecx_portt) option) \<Rightarrow>
    's \<times> int \<times> 'e ecx_portt \<Rightarrow> ('s \<times> int \<times> 'e ecx_portt) option" where
  "nack_loop body = do_while (\<lambda>(s, nackcnt, p). do {
     (s, nackcnt, p) \<leftarrow> body s nackcnt p;
     Some ((s, nackcnt, p), nackcnt > 0 \<and> nackcnt < 3) })"

definition read_attempt :: "'e reg_read \<Rightarrow> 'e reg_write \<Rightarrow> 'e os_ops \<Rightarrow> u16 \<Rightarrow> int \<Rightarrow>
    u64 \<times> u32 \<Rightarrow> int \<Rightarrow> 'e ecx_portt \<Rightarrow> ((u64 \<times> u32) \<times> int \<times> 'e ecx_portt) option" where
  "read_attempt rd wr E eeproma timeout s nackcnt p = do {
     (wkc, p) \<leftarrow> retry (wr ECT_REG_EEPCTL 6 (ec_eepromt EC_ECMD_READ eeproma) EC_TIMEOUTRET) p;
     eeprom_outcome rd E EC_LOCALDELAY timeout (\<lambda>estat (edat64, edat32) p.
       if estat AND EC_ESTAT_R64 \<noteq> 0
       then do {
         (_, b, p) \<leftarrow> retry (\<lambda>(b, p). rd ECT_REG_EEPDAT 8 b EC_TIMEOUTRET p) (var64 edat64, p);
         Some ((rd64 b 0, edat32), p) }
       else do {
         (_, b, p) \<leftarrow> retry (\<lambda>(b, p). rd ECT_REG_EEPDAT 4 b EC_TIMEOUTRET p) (var32 edat32, p);
         Some ((ucast (rd32 b 0), rd32 b 0), p) }) wkc s nackcnt p }"

definition readeeprom :: "'e reg_read \<Rightarrow> 'e reg_write \<Rightarrow> 'e os_ops \<Rightarrow> u16 \<Rightarrow> int \<Rightarrow> 'e ecx_portt \<Rightarrow>
    (u64 \<times> 'e ecx_portt) option" where
  "readeeprom rd wr E eeproma timeout p = do {
     (ready, estat, p) \<leftarrow> eeprom_waitnotbusy rd E timeout p;
     if ready then do {
       p \<leftarrow> clear_errors wr estat p;
       ((edat64, edat32), _, p) \<leftarrow> nack_loop (read_attempt rd wr E eeproma timeout) ((0, 0), 0, p);
       Some (edat64, p) }
     else Some (0, p) }"

definition write_attempt :: "'e reg_read \<Rightarrow> 'e reg_write \<Rightarrow> 'e os_ops \<Rightarrow> u16 \<Rightarrow> u16 \<Rightarrow> int \<Rightarrow>
    int \<Rightarrow> int \<Rightarrow> 'e ecx_portt \<Rightarrow> (int \<times> int \<times> 'e ecx_portt) option" where
  "write_attempt rd wr E eeproma data timeout rval nackcnt p = do {
     (_, p) \<leftarrow> retry (wr ECT_REG_EEPDAT 2 (var16 data) EC_TIMEOUTRET) p;
     (wkc, p) \<leftarrow> retry (wr ECT_REG_EEPCTL 6 (ec_eepromt EC_ECMD_WRITE eeproma) EC_TIMEOUTRET) p;
     eeprom_outcome rd E (EC_LOCALDELAY * 2) timeout (\<lambda>estat rval p. Some (1, p)) wkc rval nackcnt p }"

definition writeeeprom :: "'e reg_read \<Rightarrow> 'e reg_write \<Rightarrow> 'e os_ops \<Rightarrow> u16 \<Rightarrow> u16 \<Rightarrow> int \<Rightarrow>
    'e ecx_portt \<Rightarrow> (int \<times> 'e ecx_portt) option" where
  "writeeeprom rd wr E eeproma data timeout p = do {
     (ready, estat, p) \<leftarrow> eeprom_waitnotbusy rd E timeout p;
     if ready then do {
       p \<leftarrow> clear_errors wr estat p;
       (rval, _, p) \<leftarrow> nack_loop (write_attempt rd wr E eeproma data timeout) (0, 0, p);
       Some (rval, p) }
     else Some (0, p) }"

definition ecx_readeepromAP :: "'e os_ops \<Rightarrow> u16 \<Rightarrow> u16 \<Rightarrow> int \<Rightarrow> 'e ecx_portt \<Rightarrow> (u64 \<times> 'e ecx_portt) option" where
  "ecx_readeepromAP E aiadr = readeeprom (ecx_APRD E aiadr) (ecx_APWR E aiadr) E"

definition ecx_writeeepromAP :: "'e os_ops \<Rightarrow> u16 \<Rightarrow> u16 \<Rightarrow> u16 \<Rightarrow> int \<Rightarrow> 'e ecx_portt \<Rightarrow> (int \<times> 'e ecx_portt) option" where
  "ecx_writeeepromAP E aiadr = writeeeprom (ecx_APRD E aiadr) (ecx_APWR E aiadr) E"

definition ecx_readeepromFP :: "'e os_ops \<Rightarrow> u16 \<Rightarrow> u16 \<Rightarrow> int \<Rightarrow> 'e ecx_portt \<Rightarrow> (u64 \<times> 'e ecx_portt) option" where
  "ecx_readeepromFP E configadr = readeeprom (ecx_FPRD E configadr) (ecx_FPWR E configadr) E"

definition ecx_writeeepromFP :: "'e os_ops \<Rightarrow> u16 \<Rightarrow> u16 \<Rightarrow> u16 \<Rightarrow> int \<Rightarrow> 'e ecx_portt \<Rightarrow> (int \<times> 'e ecx_portt) option" where
  "ecx_writeeepromFP E configadr = writeeeprom (ecx_FPRD E configadr) (ecx_FPWR E configadr) E"

section \<open>Control of the EEPROM\<close>

text \<open>A slave number indexes \<open>slavelist\<close>, an array of \<open>maxslave\<close> records.\<close>

definition set_eepcfg :: "'e os_ops \<Rightarrow> nat \<Rightarrow> u8 \<Rightarrow> 'e ecx_contextt \<Rightarrow> (int \<times> 'e ecx_contextt) option" where
  "set_eepcfg E slave eepctl c =
     on_port (retry (ecx_FPWR E (sl_configadr (slavelist c slave)) ECT_REG_EEPCFG 1 (var8 eepctl) EC_TIMEOUTRET)) c"

definition ecx_eeprom2master :: "'e os_ops \<Rightarrow> nat \<Rightarrow> 'e ecx_contextt \<Rightarrow> (int \<times> 'e ecx_contextt) option" where
  "ecx_eeprom2master E slave c = do {
     chk (slave < maxslave c);
     if sl_eep_pdi (slavelist c slave) \<noteq> 0 then do {
       (_, c) \<leftarrow> set_eepcfg E slave 2 c;
       (wkc, c) \<leftarrow> set_eepcfg E slave 0 c;
       Some (wkc, upd_slave slave (\<lambda>s. s\<lparr>sl_eep_pdi := 0\<rparr>) c) }
     else Some (1, c) }"

definition ecx_eeprom2pdi :: "'e os_ops \<Rightarrow> nat \<Rightarrow> 'e ecx_contextt \<Rightarrow> (int \<times> 'e ecx_contextt) option" where
  "ecx_eeprom2pdi E slave c = do {
     chk (slave < maxslave c);
     if sl_eep_pdi (slavelist c slave) = 0 then do {
       (wkc, c) \<leftarrow> set_eepcfg E slave 1 c;
       Some (wkc, upd_slave slave (\<lambda>s. s\<lparr>sl_eep_pdi := 1\<rparr>) c) }
     else Some (1, c) }"

definition ecx_readeeprom :: "'e os_ops \<Rightarrow> nat \<Rightarrow> u16 \<Rightarrow> int \<Rightarrow> 'e ecx_contextt \<Rightarrow> (u32 \<times> 'e ecx_contextt) option" where
  "ecx_readeeprom E slave eeproma timeout c = do {
     (_, c) \<leftarrow> ecx_eeprom2master E slave c;
     (edat, c) \<leftarrow> on_port (ecx_readeepromFP E (sl_configadr (slavelist c slave)) eeproma timeout) c;
     Some (ucast edat, c) }"

definition ecx_writeeeprom :: "'e os_ops \<Rightarrow> nat \<Rightarrow> u16 \<Rightarrow> u16 \<Rightarrow> int \<Rightarrow> 'e ecx_contextt \<Rightarrow> (int \<times> 'e ecx_contextt) option" where
  "ecx_writeeeprom E slave eeproma data timeout c = do {
     (_, c) \<leftarrow> ecx_eeprom2master E slave c;
     on_port (ecx_writeeepromFP E (sl_configadr (slavelist c slave)) eeproma data timeout) c }"

text \<open>The two halves of a read, used to keep several slaves busy at once.\<close>

definition ecx_readeeprom1 :: "'e os_ops \<Rightarrow> nat \<Rightarrow> u16 \<Rightarrow> 'e ecx_contextt \<Rightarrow> 'e ecx_contextt option" where
  "ecx_readeeprom1 E slave eeproma c = do {
     (_, c) \<leftarrow> ecx_eeprom2master E slave c;
     let configadr = sl_configadr (slavelist c slave);
     (_, c) \<leftarrow> on_port (\<lambda>p. do {
       (ready, estat, p) \<leftarrow> ecx_eeprom_waitnotbusyFP E configadr EC_TIMEOUTEEP p;
       if ready then do {
         p \<leftarrow> clear_errors (ecx_FPWR E configadr) estat p;
         (_, p) \<leftarrow> retry (ecx_FPWR E configadr ECT_REG_EEPCTL 6 (ec_eepromt EC_ECMD_READ eeproma) EC_TIMEOUTRET) p;
         Some ((), p) }
       else Some ((), p) }) c;
     Some c }"

definition ecx_readeeprom2 :: "'e os_ops \<Rightarrow> nat \<Rightarrow> int \<Rightarrow> 'e ecx_contextt \<Rightarrow> (u32 \<times> 'e ecx_contextt) option" where
  "ecx_readeeprom2 E slave timeout c = do {
     chk (slave < maxslave c);
     let configadr = sl_configadr (slavelist c slave);
     on_port (\<lambda>p. do {
       (ready, estat, p) \<leftarrow> ecx_eeprom_waitnotbusyFP E configadr timeout p;
       if ready then do {
         (_, b, p) \<leftarrow> retry (\<lambda>(b, p). ecx_FPRD E configadr ECT_REG_EEPDAT 4 b EC_TIMEOUTRET p) (var32 0, p);
         Some (rd32 b 0, p) }
       else Some (0, p) }) c }"

text \<open>
  The whole EEPROM, into a buffer of the caller. \<open>p16\<close> advances two or four words a time; the
  64-bit store writes eight bytes each time.
\<close>

definition ecx_esidump :: "'e os_ops \<Rightarrow> nat \<Rightarrow> buf \<Rightarrow> 'e ecx_contextt \<Rightarrow> (buf \<times> 'e ecx_contextt) option" where
  "ecx_esidump E slave esib c = do {
     chk (slave < maxslave c);
     let eectl = sl_eep_pdi (slavelist c slave);
     (_, c) \<leftarrow> ecx_eeprom2master E slave c;
     let configadr = sl_configadr (slavelist c slave);
     let incr = (if sl_eep_8byte (slavelist c slave) \<noteq> 0 then 4 else 2 :: u16);
     (address, off, esib, c) \<leftarrow> do_while (\<lambda>(address, off, esib, c). do {
        (edat, c) \<leftarrow> on_port (ecx_readeepromFP E configadr address EC_TIMEOUTEEP) c;
        let esib = wr64 esib off edat;
        let address = address + incr;
        Some ((address, off + 2 * unat incr, esib, c),
          unat address \<le> EC_MAXEEPBUF div 2 \<and> (ucast edat :: u32) \<noteq> 0xffffffff) })
       (ECT_SII_START, 0, esib, c);
     (_, c) \<leftarrow> (if eectl \<noteq> 0 then ecx_eeprom2pdi E slave c else Some (0, c));
     Some (esib, c) }"

section \<open>The contract of the two primitives\<close>

text \<open>
  A register access to one slave, by whatever addressing: it runs, it is an exchange of the port, a
  read touches only the requested bytes of its buffer and none of them without an answer.
\<close>

locale slave_access =
  fixes E :: "'e os_ops" and now :: "'e \<Rightarrow> nat" and rd :: "'e reg_read" and wr :: "'e reg_write"
  assumes rd_law: "net_ok E now p \<Longrightarrow> 28 + unat len \<le> EC_BUFSIZE \<Longrightarrow>
      runs_to (rd ADO len b t p) (\<lambda>(w, b', p'). exchange_ok E now p p' \<and> read_data (unat len) b w b')"
    and wr_law: "net_ok E now p \<Longrightarrow> 28 + unat len \<le> EC_BUFSIZE \<Longrightarrow>
      runs_to (wr ADO len b t p) (\<lambda>(w, p'). exchange_ok E now p p')"
begin

lemma retry_wr:
  assumes "net_ok E now p" "28 + unat len \<le> EC_BUFSIZE"
  shows "runs_to (retry (wr ADO len b t) p) (\<lambda>(w, p'). exchange_ok E now p p')"
proof (rule retry_runs)
  show "exchange_ok E now p p" using assms by (simp add: exchange_ok_refl)
  fix q assume q: "exchange_ok E now p q"
  from wr_law [OF exchange_ok_net [OF q] assms(2)] show "runs_to (wr ADO len b t q) (\<lambda>(w, s'). exchange_ok E now p s')"
    by (rule runs_to_mono) (auto intro: exchange_ok_trans [OF q])
qed

lemma retry_rd:
  assumes "net_ok E now p" "28 + unat len \<le> EC_BUFSIZE"
  shows "runs_to (retry (\<lambda>(b, p). rd ADO len b t p) (b, p)) (\<lambda>(w, b', p'). exchange_ok E now p p')"
proof -
  have "runs_to (retry (\<lambda>(b, p). rd ADO len b t p) (b, p)) (\<lambda>(w, s). exchange_ok E now p (snd s))"
  proof (rule retry_runs)
    show "exchange_ok E now p (snd (b, p))" using assms by (simp add: exchange_ok_refl)
    fix s :: "buf \<times> 'e ecx_portt" assume q: "exchange_ok E now p (snd s)"
    from rd_law [OF exchange_ok_net [OF q] assms(2), of ADO "fst s" t]
    show "runs_to (case s of (b, p) \<Rightarrow> rd ADO len b t p) (\<lambda>(w, s'). exchange_ok E now p (snd s'))"
      by (auto simp: split_beta elim!: runs_to_mono intro: exchange_ok_trans [OF q])
  qed
  then show ?thesis by (rule runs_to_mono) auto
qed

lemma waitnotbusy:
  assumes "net_ok E now p"
  shows "runs_to (eeprom_waitnotbusy rd E timeout p) (\<lambda>(ready, estat, p').
    exchange_ok E now p p' \<and> (ready \<longleftrightarrow> estat AND EC_ESTAT_BUSY = 0))"
proof -
  obtain timer p1 where 1: "port_timer_start E timeout p = (timer, p1)" by fastforce
  have p1: "exchange_ok E now p p1" by (rule port_timer_start_ok [OF assms 1])
  have "runs_to (poll E timer (\<lambda>(cnt, wkc, estat) p. do {
        let p = (if cnt \<noteq> (0 :: nat) then port_usleep E EC_LOCALDELAY p else p);
        (wkc, b, p) \<leftarrow> rd ECT_REG_EEPSTAT 2 (var16 0) EC_TIMEOUTRET p;
        let estat = rd16 b 0;
        Some (wkc \<le> 0 \<or> estat AND EC_ESTAT_BUSY \<noteq> 0, (cnt + 1, wkc, estat), p) }) (0, 0 :: int, 0) p1)
      (\<lambda>(s, p'). exchange_ok E now p1 p' \<and> True)"
  proof (rule poll_runs [where P = "\<lambda>_. True"])
    fix s :: "nat \<times> int \<times> u16" and q assume q: "net_ok E now q"
    define q' where "q' = (if fst s \<noteq> 0 then port_usleep E EC_LOCALDELAY q else q)"
    have q1: "exchange_ok E now q q'" using q by (simp add: q'_def port_usleep_ok exchange_ok_refl)
    from rd_law [OF exchange_ok_net [OF q1], of 2 ECT_REG_EEPSTAT "var16 0" EC_TIMEOUTRET]
    show "runs_to ((case s of (cnt, wkc, estat) \<Rightarrow> \<lambda>p. do {
        let p = (if cnt \<noteq> (0 :: nat) then port_usleep E EC_LOCALDELAY p else p);
        (wkc, b, p) \<leftarrow> rd ECT_REG_EEPSTAT 2 (var16 0) EC_TIMEOUTRET p;
        let estat = rd16 b 0;
        Some (wkc \<le> 0 \<or> estat AND EC_ESTAT_BUSY \<noteq> 0, (cnt + 1, wkc, estat), p) }) q)
        (\<lambda>(b, s', p'). exchange_ok E now q p' \<and> True)"
      unfolding Let_def case_prod_beta q'_def [symmetric]
      by (auto elim!: runs_to_mono intro: exchange_ok_trans [OF q1])
  qed (use exchange_ok_net [OF p1] in simp_all)
  then show ?thesis
    using p1 unfolding eeprom_waitnotbusy_def Let_def 1 prod.case
    by (auto simp: split_beta elim!: runs_to_mono intro: exchange_ok_trans)
qed

lemma clear_errors_runs:
  assumes "net_ok E now p"
  shows "runs_to (clear_errors wr estat p) (\<lambda>p'. exchange_ok E now p p')"
  using wr_law [OF assms, of 2 ECT_REG_EEPCTL "var16 EC_ECMD_NOP" EC_TIMEOUTRET3] assms
  by (auto simp: clear_errors_def exchange_ok_refl elim!: runs_to_mono)

text \<open>
  One attempt runs, and it leaves the count of refusals at zero, unchanged, or one higher.
\<close>

lemma outcome_runs:
  assumes p: "net_ok E now p"
    and act: "\<And>estat s q. net_ok E now q \<Longrightarrow> runs_to (act estat s q) (\<lambda>(s', q'). exchange_ok E now q q')"
  shows "runs_to (eeprom_outcome rd E delay timeout act wkc s n p) (\<lambda>(s', n', p').
    exchange_ok E now p p' \<and> n' \<in> {0, n, n + 1})"
proof (cases "wkc = 0")
  case True
  with p show ?thesis by (simp add: eeprom_outcome_def exchange_ok_refl)
next
  case False
  have p1: "exchange_ok E now p (port_usleep E delay p)" by (rule port_usleep_ok [OF p])
  from waitnotbusy [OF exchange_ok_net [OF p1], of timeout] obtain ready estat p2
    where 2: "eeprom_waitnotbusy rd E timeout (port_usleep E delay p) = Some (ready, estat, p2)"
      "exchange_ok E now (port_usleep E delay p) p2" by (auto simp: runs_to_iff)
  have p2: "exchange_ok E now p p2" by (rule exchange_ok_trans [OF p1 2(2)])
  from act [OF exchange_ok_net [OF p2], of estat s] obtain s' p3
    where 3: "act estat s p2 = Some (s', p3)" "exchange_ok E now p2 p3" by (auto simp: runs_to_iff)
  have "exchange_ok E now p p3" by (rule exchange_ok_trans [OF p2 3(2)])
  moreover have "exchange_ok E now p (port_usleep E (EC_LOCALDELAY * 5) p2)"
    by (rule exchange_ok_trans [OF p2 port_usleep_ok [OF exchange_ok_net [OF p2]]])
  ultimately show ?thesis
    using False 2(1) 3(1) p2 by (simp add: eeprom_outcome_def)
qed

lemma read_attempt_runs:
  assumes p: "net_ok E now p"
  shows "runs_to (read_attempt rd wr E a timeout s n p) (\<lambda>(s', n', p').
    exchange_ok E now p p' \<and> n' \<in> {0, n, n + 1})"
proof -
  from retry_wr [OF p, of 6 ECT_REG_EEPCTL "ec_eepromt EC_ECMD_READ a" EC_TIMEOUTRET] obtain w p1
    where 1: "retry (wr ECT_REG_EEPCTL 6 (ec_eepromt EC_ECMD_READ a) EC_TIMEOUTRET) p = Some (w, p1)"
      "exchange_ok E now p p1" by (auto simp: runs_to_iff)
  define act where "act = (\<lambda>estat (edat64, edat32) p.
       if (estat :: u16) AND EC_ESTAT_R64 \<noteq> 0
       then do {
         (_, b, p) \<leftarrow> retry (\<lambda>(b, p). rd ECT_REG_EEPDAT 8 b EC_TIMEOUTRET p) (var64 edat64, p);
         Some ((rd64 b 0, edat32), p) }
       else do {
         (_, b, p) \<leftarrow> retry (\<lambda>(b, p). rd ECT_REG_EEPDAT 4 b EC_TIMEOUTRET p) (var32 edat32, p);
         Some ((ucast (rd32 b 0), rd32 b 0), p) })"
  have "runs_to (act estat t q) (\<lambda>(s', q'). exchange_ok E now q q')" if "net_ok E now q" for estat t q
    using retry_rd [OF that, of 8 ECT_REG_EEPDAT EC_TIMEOUTRET "var64 (fst t)"]
      retry_rd [OF that, of 4 ECT_REG_EEPDAT EC_TIMEOUTRET "var32 (snd t)"]
    by (auto simp: act_def split_beta elim!: runs_to_mono)
  from outcome_runs [where act = act, OF exchange_ok_net [OF 1(2)] this, of EC_LOCALDELAY timeout w s n] 1
  show ?thesis
    unfolding read_attempt_def act_def
    by (auto elim!: runs_to_mono intro: exchange_ok_trans)
qed

lemma write_attempt_runs:
  assumes p: "net_ok E now p"
  shows "runs_to (write_attempt rd wr E a d timeout s n p) (\<lambda>(s', n', p').
    exchange_ok E now p p' \<and> n' \<in> {0, n, n + 1})"
proof -
  from retry_wr [OF p, of 2 ECT_REG_EEPDAT "var16 d" EC_TIMEOUTRET] obtain w p1
    where 1: "retry (wr ECT_REG_EEPDAT 2 (var16 d) EC_TIMEOUTRET) p = Some (w, p1)"
      "exchange_ok E now p p1" by (auto simp: runs_to_iff)
  from retry_wr [OF exchange_ok_net [OF 1(2)], of 6 ECT_REG_EEPCTL "ec_eepromt EC_ECMD_WRITE a" EC_TIMEOUTRET]
  obtain w2 p2
    where 2: "retry (wr ECT_REG_EEPCTL 6 (ec_eepromt EC_ECMD_WRITE a) EC_TIMEOUTRET) p1 = Some (w2, p2)"
      "exchange_ok E now p1 p2" by (auto simp: runs_to_iff)
  have p2: "exchange_ok E now p p2" by (rule exchange_ok_trans [OF 1(2) 2(2)])
  have "runs_to (eeprom_outcome rd E (EC_LOCALDELAY * 2) timeout (\<lambda>estat rval p. Some (1, p)) w2 s n p2)
      (\<lambda>(s', n', p'). exchange_ok E now p2 p' \<and> n' \<in> {0, n, n + 1})"
    by (rule outcome_runs [OF exchange_ok_net [OF p2]]) (simp add: exchange_ok_refl)
  with 1 2 show ?thesis
    unfolding write_attempt_def by (auto elim!: runs_to_mono intro: exchange_ok_trans [OF p2])
qed

text \<open>
  The loop over the attempts keeps the port sound. It ends when a refusal is always followed by
  an attempt that changes the count: it need not end otherwise.
\<close>

lemma nack_loop_partial:
  assumes p: "net_ok E now p"
    and body: "\<And>s n q. net_ok E now q \<Longrightarrow> runs_to (body s n q) (\<lambda>(s', n', q'). exchange_ok E now q q')"
  shows "if_runs (nack_loop body (s, n, p)) (\<lambda>(s', n', p'). exchange_ok E now p p')"
  unfolding nack_loop_def
proof (rule do_while_partial [where I = "\<lambda>(s, n, q). exchange_ok E now p q"], goal_cases)
  case 1
  then show ?case using p by (simp add: exchange_ok_refl)
next
  case (2 a)
  obtain s n q where a: "a = (s, n, q)" by (cases a)
  with 2 have q: "exchange_ok E now p q" by simp
  from body [OF exchange_ok_net [OF q], of s n] obtain s' n' q'
    where "body s n q = Some (s', n', q')" "exchange_ok E now q q'" by (auto simp: runs_to_iff)
  with exchange_ok_trans [OF q] show ?case unfolding a by simp
qed

lemma nack_loop_total:
  assumes p: "net_ok E now p" and n: "0 \<le> n"
    and body: "\<And>s n q. net_ok E now q \<Longrightarrow> runs_to (body s n q) (\<lambda>(s', n', q').
      exchange_ok E now q q' \<and> n' \<in> {0, n, n + 1} \<and> (0 < n \<longrightarrow> n' \<noteq> n))"
  shows "runs_to (nack_loop body (s, n, p)) (\<lambda>(s', n', p'). exchange_ok E now p p')"
  unfolding nack_loop_def
proof (rule do_while_total [where I = "\<lambda>(s, n, q). exchange_ok E now p q \<and> 0 \<le> n"
      and R = "measure (\<lambda>(s, n, q). nat (3 - n))"], goal_cases)
  case (3 a)
  obtain s n q where a: "a = (s, n, q)" by (cases a)
  with 3 have q: "exchange_ok E now p q" and n: "0 \<le> n" by simp_all
  from body [OF exchange_ok_net [OF q], of s n] obtain s' n' q' where
    b: "body s n q = Some (s', n', q')" "exchange_ok E now q q'" "n' \<in> {0, n, n + 1}" "0 < n \<longrightarrow> n' \<noteq> n"
    by (auto simp: runs_to_iff)
  then show ?case using exchange_ok_trans [OF q b(2)] n unfolding a by (auto simp: b(1))
qed (use p n in \<open>auto simp: exchange_ok_refl\<close>)

lemma readeeprom_partial:
  assumes p: "net_ok E now p"
  shows "if_runs (readeeprom rd wr E a timeout p) (\<lambda>(d, p'). exchange_ok E now p p')"
proof -
  from waitnotbusy [OF p, of timeout] obtain ready estat p1
    where 1: "eeprom_waitnotbusy rd E timeout p = Some (ready, estat, p1)" "exchange_ok E now p p1"
    by (auto simp: runs_to_iff)
  from clear_errors_runs [OF exchange_ok_net [OF 1(2)], of estat] obtain p2
    where 2: "clear_errors wr estat p1 = Some p2" "exchange_ok E now p1 p2" by (auto simp: runs_to_iff)
  have p2: "exchange_ok E now p p2" by (rule exchange_ok_trans [OF 1(2) 2(2)])
  have "if_runs (nack_loop (read_attempt rd wr E a timeout) ((0, 0), 0, p2)) (\<lambda>(s', n', p'). exchange_ok E now p2 p')"
    by (rule nack_loop_partial [OF exchange_ok_net [OF p2]])
      (auto elim!: runs_to_mono dest: read_attempt_runs)
  with 1 2 show ?thesis
    by (auto simp: readeeprom_def split_beta elim!: if_runs_mono intro: exchange_ok_trans [OF p2])
qed

end

interpretation ap: slave_access E now "ecx_APRD E aiadr" "ecx_APWR E aiadr"
  for E :: "'e os_ops" and now aiadr
  using ecx_APRD_runs ecx_APWR_runs by unfold_locales blast+

interpretation fp: slave_access E now "ecx_FPRD E configadr" "ecx_FPWR E configadr"
  for E :: "'e os_ops" and now configadr
  using ecx_FPRD_runs ecx_FPWR_runs by unfold_locales blast+

section \<open>The operations on the context\<close>

lemma set_eepcfg_step:
  assumes "ctx_ok E now c"
  shows "runs_to (set_eepcfg E slave v c) (\<lambda>(w, c'). ctx_step E now c c' \<and> (\<exists>p. c' = c\<lparr>port := p\<rparr>))"
  unfolding set_eepcfg_def
  using on_port_step [OF assms, of _ "\<lambda>_. True"] fp.retry_wr [OF ctx_ok_net [OF assms], where len = 1]
  by fastforce

lemma ctx_step_upd_slave:
  assumes "ctx_step E now c c'"
    and "\<And>s. slave_config (f s) = slave_config s"
  shows "ctx_step E now c (upd_slave i f c')"
  using assms by (auto simp: ctx_step_def ctx_ok_def slaves_kept_def)

lemma eeprom_control_steps:
  assumes c: "ctx_ok E now c" and slave: "slave < maxslave c"
  shows "runs_to (ecx_eeprom2master E slave c) (\<lambda>(w, c'). ctx_step E now c c' \<and>
      sl_eep_pdi (slavelist c' slave) = 0)"
    and "runs_to (ecx_eeprom2pdi E slave c) (\<lambda>(w, c'). ctx_step E now c c' \<and>
      sl_eep_pdi (slavelist c' slave) \<noteq> 0)"
proof -
  show "runs_to (ecx_eeprom2master E slave c) (\<lambda>(w, c'). ctx_step E now c c' \<and>
      sl_eep_pdi (slavelist c' slave) = 0)"
  proof (cases "sl_eep_pdi (slavelist c slave) = 0")
    case False
    from set_eepcfg_step [OF c, of slave 2] obtain w1 c1 where 1: "set_eepcfg E slave 2 c = Some (w1, c1)"
      "ctx_step E now c c1" by (auto simp: runs_to_iff)
    from set_eepcfg_step [OF ctx_step_ok [OF 1(2)], of slave 0] obtain w2 c2
      where 2: "set_eepcfg E slave 0 c1 = Some (w2, c2)" "ctx_step E now c1 c2" by (auto simp: runs_to_iff)
    have "ctx_step E now c (upd_slave slave (\<lambda>s. s\<lparr>sl_eep_pdi := 0\<rparr>) c2)"
      by (rule ctx_step_upd_slave [OF ctx_step_trans [OF 1(2) 2(2)]]) simp
    with False slave 1 2 show ?thesis by (simp add: ecx_eeprom2master_def)
  qed (use c slave in \<open>simp add: ecx_eeprom2master_def ctx_step_refl\<close>)
  show "runs_to (ecx_eeprom2pdi E slave c) (\<lambda>(w, c'). ctx_step E now c c' \<and>
      sl_eep_pdi (slavelist c' slave) \<noteq> 0)"
  proof (cases "sl_eep_pdi (slavelist c slave) = 0")
    case True
    from set_eepcfg_step [OF c, of slave 1] obtain w1 c1 where 1: "set_eepcfg E slave 1 c = Some (w1, c1)"
      "ctx_step E now c c1" by (auto simp: runs_to_iff)
    have "ctx_step E now c (upd_slave slave (\<lambda>s. s\<lparr>sl_eep_pdi := 1\<rparr>) c1)"
      by (rule ctx_step_upd_slave [OF 1(2)]) simp
    with True slave 1 show ?thesis by (simp add: ecx_eeprom2pdi_def)
  qed (use c slave in \<open>simp add: ecx_eeprom2pdi_def ctx_step_refl\<close>)
qed

section \<open>Properties\<close>

text \<open>
  Waiting for the EEPROM of a slave always ends, with a sound port and no buffer left in use,
  and it reports readiness exactly by the busy bit of the status it returns.
\<close>

theorem eeprom_waitnotbusy_returns:
  assumes "good_os E now" "port_ok p"
  shows "\<exists>ready estat p'. ecx_eeprom_waitnotbusyFP E configadr timeout p = Some (ready, estat, p') \<and> port_ok p' \<and>
    (\<forall>i. rxbufstat p i = EC_BUF_EMPTY \<longrightarrow> rxbufstat p' i = EC_BUF_EMPTY) \<and>
    (ready \<longleftrightarrow> estat AND EC_ESTAT_BUSY = 0)"
  using fp.waitnotbusy [of E now p configadr timeout] assms
  by (auto simp: runs_to_iff ecx_eeprom_waitnotbusyFP_def net_ok_def exchange_ok_def in_use_def)

theorem eeprom_waitnotbusy_returns_witness:
  "\<exists>ready estat p'. ecx_eeprom_waitnotbusyFP script_os 0x1001 1000 (idle_port (5, [])) = Some (ready, estat, p')"
  using eeprom_waitnotbusy_returns [OF good_script_os idle_port_ok(1), of "0x1001" 1000 "(5, [])"] by fast

lemma poll_partial:
  assumes "P s" "\<And>s p. P s \<Longrightarrow> if_runs (body s p) (\<lambda>(b, s', p'). P s')"
  shows "if_runs (poll E timer body s p) (\<lambda>(s', p'). P s')"
  unfolding poll_def
proof (rule do_while_partial [where I = "\<lambda>(s, p). P s"], goal_cases)
  case (2 a)
  obtain t q where a: "a = (t, q)" by (cases a)
  with 2 assms(2) [of t q] show ?case by (auto simp: Let_def split_beta elim!: if_runs_mono)
qed (use assms in simp)

text \<open>
  A slave that answers none of the status reads until the timeout has passed is reported as
  ready: the status is cleared before every read and the busy bit is then found clear.
\<close>

theorem eeprom_unanswered_reported_ready:
  assumes "\<forall>q. \<exists>w q'. rd ECT_REG_EEPSTAT 2 (var16 0) EC_TIMEOUTRET q = Some (w, var16 0, q') \<and> w \<le> 0"
    and "eeprom_waitnotbusy rd E timeout p = Some (ready, estat, p')"
  shows "ready \<and> estat = 0"
proof -
  obtain timer p1 where 1: "port_timer_start E timeout p = (timer, p1)" by fastforce
  have "if_runs (poll E timer (\<lambda>(cnt, wkc, estat) p. do {
        let p = (if cnt \<noteq> (0 :: nat) then port_usleep E EC_LOCALDELAY p else p);
        (wkc, b, p) \<leftarrow> rd ECT_REG_EEPSTAT 2 (var16 0) EC_TIMEOUTRET p;
        let estat = rd16 b 0;
        Some (wkc \<le> 0 \<or> estat AND EC_ESTAT_BUSY \<noteq> 0, (cnt + 1, wkc, estat), p) }) (0, 0 :: int, 0) p1)
      (\<lambda>(s, p'). snd (snd s) = 0)"
  proof (rule poll_partial [where P = "\<lambda>s. snd (snd s) = 0"])
    fix s :: "nat \<times> int \<times> u16" and q
    let ?q = "if fst s \<noteq> 0 then port_usleep E EC_LOCALDELAY q else q"
    from assms(1) [rule_format, of ?q] show "if_runs ((case s of (cnt, wkc, estat) \<Rightarrow> \<lambda>p. do {
        let p = (if cnt \<noteq> (0 :: nat) then port_usleep E EC_LOCALDELAY p else p);
        (wkc, b, p) \<leftarrow> rd ECT_REG_EEPSTAT 2 (var16 0) EC_TIMEOUTRET p;
        let estat = rd16 b 0;
        Some (wkc \<le> 0 \<or> estat AND EC_ESTAT_BUSY \<noteq> 0, (cnt + 1, wkc, estat), p) }) q)
      (\<lambda>(b, s', p'). snd (snd s') = 0)"
      unfolding Let_def case_prod_beta by auto
  qed simp
  with assms(2) show ?thesis
    unfolding eeprom_waitnotbusy_def Let_def 1 prod.case by (auto simp: bind_eq_Some_conv)
qed

text \<open>An EEPROM exchange loop whose count of refusals stays at zero runs once.\<close>

lemma nack_loop_step:
  assumes "body s n p = Some (s', n', p')"
  shows "nack_loop body (s, n, p) = (if n' > 0 \<and> n' < 3 then nack_loop body (s', n', p') else Some (s', n', p'))"
  using assms by (simp add: nack_loop_def do_while.simps [of _ "(s, n, p)"])

lemma retry_answered:
  "f s = Some (w, s') \<Longrightarrow> w > 0 \<Longrightarrow> retry f s = Some (w, s')"
  by (simp add: retry_def do_while.simps [of _ "(0, 0, s)"])

lemma waitnotbusy_answered:
  assumes "\<And>q. sel q = sel p \<Longrightarrow> \<exists>w b q'. rd ECT_REG_EEPSTAT 2 (var16 0) EC_TIMEOUTRET q = Some (w, b, q') \<and> w > 0 \<and>
      rd16 b 0 = st \<and> sel q' = sel q"
    and "st AND EC_ESTAT_BUSY = 0" and "\<And>q e. sel (q\<lparr>os := e\<rparr>) = sel q"
  shows "\<exists>p'. eeprom_waitnotbusy rd E timeout p = Some (True, st, p') \<and> sel p' = sel p"
proof -
  obtain t e where t: "osal_timer_start E timeout (os p) = (t, e)" by fastforce
  from assms(1) [of "p\<lparr>os := e\<rparr>"] obtain w b q' where
    "rd ECT_REG_EEPSTAT 2 (var16 0) EC_TIMEOUTRET (p\<lparr>os := e\<rparr>) = Some (w, b, q')" "w > 0" "rd16 b 0 = st"
    "sel q' = sel p" using assms(3) by auto
  then show ?thesis
    using assms(2) t
    by (simp add: eeprom_waitnotbusy_def port_timer_start_def poll_def and_not_expired_def
        do_while.simps [of _ "(_, _ :: 'a ecx_portt)"])
qed

text \<open>
  A read that the slave has refused once does not end when the slave then stops processing its
  frames (a working counter of 0): the count of refusals is neither raised nor cleared, and the
  loop, which has no deadline of its own, goes round for ever. \<open>S\<close> is the set of port states in
  which the slave is lost.
\<close>

theorem readeeprom_refused_then_lost:
  assumes "eeprom_waitnotbusy rd E timeout p = Some (True, estat, p0)" "clear_errors wr estat p0 = Some p1"
    and "read_attempt rd wr E a timeout (0, 0) 0 p1 = Some (s, 1, p2)" and "p2 \<in> S"
    and lost: "\<And>q. q \<in> S \<Longrightarrow> \<exists>q'. q' \<in> S \<and>
      wr ECT_REG_EEPCTL 6 (ec_eepromt EC_ECMD_READ a) EC_TIMEOUTRET q = Some (0, q')"
  shows "readeeprom rd wr E a timeout p = None"
proof -
  have retry: "if_runs (retry (wr ECT_REG_EEPCTL 6 (ec_eepromt EC_ECMD_READ a) EC_TIMEOUTRET) q)
      (\<lambda>(w, q'). w = 0 \<and> q' \<in> S)" if "q \<in> S" for q
  proof -
    have "if_runs (do_while (\<lambda>(cnt :: int, wkc, s). do {
        (wkc, s) \<leftarrow> wr ECT_REG_EEPCTL 6 (ec_eepromt EC_ECMD_READ a) EC_TIMEOUTRET s;
        Some ((cnt + 1, wkc, s), wkc \<le> 0 \<and> cnt < EC_DEFAULTRETRIES) }) (0, 0, q))
      (\<lambda>(cnt, w, q'). w = 0 \<and> q' \<in> S)"
      by (rule do_while_partial [where I = "\<lambda>(cnt, w, q). w = 0 \<and> q \<in> S"])
        (use that lost in \<open>fastforce split: prod.splits\<close>)+
    then show ?thesis unfolding retry_def if_runs_simps by (rule if_runs_mono) auto
  qed
  have "if_runs (nack_loop (read_attempt rd wr E a timeout) (s, 1, p2)) (\<lambda>_. False)"
    unfolding nack_loop_def
  proof (rule do_while_partial [where I = "\<lambda>(s, n, q). n = 1 \<and> q \<in> S"], goal_cases)
    case (2 b)
    obtain s q where b: "b = (s, 1, q)" "q \<in> S" using 2 by (cases b) auto
    from retry [OF b(2)] have "if_runs (read_attempt rd wr E a timeout s 1 q) (\<lambda>(s', n, q'). n = 1 \<and> q' \<in> S)"
      by (auto simp: read_attempt_def eeprom_outcome_def elim!: if_runs_mono)
    then show ?case unfolding b by (auto elim!: if_runs_mono)
  qed (use assms(4) in simp)
  then have "nack_loop (read_attempt rd wr E a timeout) (s, 1, p2) = None"
    by (cases "nack_loop (read_attempt rd wr E a timeout) (s, 1, p2)") simp_all
  then show ?thesis
    using assms(1-3) nack_loop_step [of "read_attempt rd wr E a timeout" "(0, 0)" 0 p1]
    by (simp add: readeeprom_def split_beta)
qed

section \<open>Examples\<close>

text \<open>
  Two slaves, given by their primitives: one that answers nothing, and one that refuses the first
  command and is then lost. \<open>Wire\<close> has a slave behind the primitives of the code.
\<close>

definition silent_rd :: "(nat \<times> u8 list list) reg_read" where
  "silent_rd ADO n b t p = Some (- 1, b, p)"

definition lost_rd :: "(nat \<times> u8 list list) reg_read" where
  "lost_rd ADO n b t p = Some (1, if tempinbufs p = 0 then var16 0 else var16 EC_ESTAT_NACK, p)"

definition lost_wr :: "(nat \<times> u8 list list) reg_write" where
  "lost_wr ADO n b t p = Some (if tempinbufs p = 0 then 1 else 0, p\<lparr>tempinbufs := 1\<rparr>)"

lemma silent_access: "slave_access script_os (\<lambda>(t, q). t * 1000) silent_rd
    (\<lambda>ADO n b t p. Some (- 1, p))"
  by unfold_locales (simp_all add: silent_rd_def exchange_ok_refl)

theorem eeprom_unanswered_reported_ready_witness:
  "\<exists>p'. eeprom_waitnotbusy silent_rd script_os 300 (idle_port (5, [])) = Some (True, 0, p')"
proof -
  have "net_ok script_os (\<lambda>(t, q). t * 1000) (idle_port (5, []))"
    using good_script_os by (simp add: net_ok_def)
  from slave_access.waitnotbusy [OF silent_access this, of 300] obtain ready estat p'
    where r: "eeprom_waitnotbusy silent_rd script_os 300 (idle_port (5, [])) = Some (ready, estat, p')"
    by (auto simp: runs_to_iff)
  from eeprom_unanswered_reported_ready [OF _ r] have "ready \<and> estat = 0" by (simp add: silent_rd_def)
  with r show ?thesis by simp
qed

theorem readeeprom_refused_then_lost_witness:
  "readeeprom lost_rd lost_wr script_os 8 1000 (idle_port (5, [])) = None"
proof -
  have flag: "tempinbufs (port_usleep E n p) = tempinbufs p" for E n and p :: "'a ecx_portt"
    by (simp add: port_usleep_def)
  have wait: "\<exists>p'. eeprom_waitnotbusy lost_rd script_os 1000 p =
      Some (True, if tempinbufs p = 0 then 0 else EC_ESTAT_NACK, p') \<and> tempinbufs p' = tempinbufs p" for p
    by (rule waitnotbusy_answered [where sel = tempinbufs]) (auto simp: lost_rd_def)
  from wait [of "idle_port (5, [])"] obtain p1 where
    1: "eeprom_waitnotbusy lost_rd script_os 1000 (idle_port (5, [])) = Some (True, 0, p1)" "tempinbufs p1 = 0"
    by (auto simp: idle_port_def)
  define p2 where "p2 = p1\<lparr>tempinbufs := 1\<rparr>"
  from wait [of "port_usleep script_os EC_LOCALDELAY p2"] obtain p3 where
    3: "eeprom_waitnotbusy lost_rd script_os 1000 (port_usleep script_os EC_LOCALDELAY p2) = Some (True, EC_ESTAT_NACK, p3)"
    "tempinbufs p3 = 1" by (auto simp: flag p2_def)
  have "retry (lost_wr ECT_REG_EEPCTL 6 (ec_eepromt EC_ECMD_READ 8) EC_TIMEOUTRET) p1 = Some (1, p2)"
    by (rule retry_answered) (simp_all add: lost_wr_def p2_def 1(2))
  then have "read_attempt lost_rd lost_wr script_os 8 1000 (0, 0) 0 p1 =
      Some ((0, 0), 1, port_usleep script_os (EC_LOCALDELAY * 5) p3)"
    using 3 by (simp add: read_attempt_def eeprom_outcome_def)
  from readeeprom_refused_then_lost [OF 1(1) _ this, of "{q. tempinbufs q = 1}"] show ?thesis
    using 3(2) by (simp add: clear_errors_def lost_wr_def flag)
qed

end
