(* ===== verification/Alstate.thy ===== *)
theory Alstate
  imports Eeprom
begin

text \<open>
  The states of the slaves (\<open>soem/ethercatmain.c\<close>): reading the states of all slaves with one
  broadcast or one frame for up to 64 slaves, requesting a state, and waiting for one.

  An AL status record has six bytes: status, unused, status code.
\<close>

abbreviation (input) MAX_FPRD_MULTI :: nat where "MAX_FPRD_MULTI \<equiv> 64"

section \<open>Several reads in one frame\<close>

text \<open>
  \<open>ecx_FPRD_multi\<close> reads the status of the \<open>n\<close> slaves \<open>configlst\<close>. Its result array is the caller's
  \<open>slstatlst\<close>, \<open>n\<close> records of six bytes; \<open>sldatapos\<close> has \<open>MAX_FPRD_MULTI\<close> entries. The function
  sends the first datagram even when \<open>n\<close> is 0: then it would read uninitialised arrays.
\<close>

definition fprd_add :: "nat \<Rightarrow> bool \<Rightarrow> u16 \<Rightarrow> 'e ecx_portt \<Rightarrow> (nat \<times> 'e ecx_portt) option" where
  "fprd_add idx follows configadr = add_tx EC_CMD_FPRD idx follows configadr ECT_REG_ALSTAT 6 zero_buf"

definition fprd_build :: "nat \<Rightarrow> nat \<Rightarrow> (nat \<Rightarrow> u16) \<Rightarrow> 'e ecx_portt \<Rightarrow> ((nat \<Rightarrow> nat) \<times> 'e ecx_portt) option" where
  "fprd_build idx n configlst p = do {
     p \<leftarrow> setup_tx EC_CMD_FPRD idx (configlst 0) ECT_REG_ALSTAT 6 zero_buf p;
     (sldatapos, p) \<leftarrow> foldM (\<lambda>slcnt (sldatapos, p). do {
        (pos, p) \<leftarrow> fprd_add idx True (configlst slcnt) p;
        Some (sldatapos(slcnt := pos), p) }) [1..<n - 1] ((\<lambda>_. 0)(0 := EC_HEADERSIZE), p);
     if 1 < n
     then do {
       (pos, p) \<leftarrow> fprd_add idx False (configlst (n - 1)) p;
       Some (sldatapos(n - 1 := pos), p) }
     else Some (sldatapos, p) }"

definition ecx_FPRD_multi :: "'e os_ops \<Rightarrow> nat \<Rightarrow> (nat \<Rightarrow> u16) \<Rightarrow> buf \<Rightarrow> int \<Rightarrow> 'e ecx_portt \<Rightarrow>
    (int \<times> buf \<times> 'e ecx_portt) option" where
  "ecx_FPRD_multi E n configlst slstatlst timeout p = do {
     chk (1 \<le> n \<and> n \<le> MAX_FPRD_MULTI);
     (idx, p) \<leftarrow> ecx_getindex p;
     (sldatapos, p) \<leftarrow> fprd_build idx n configlst p;
     (wkc, p) \<leftarrow> ecx_srconfirm E idx timeout p;
     let rb = rxbuf p idx;
     slstatlst \<leftarrow> (if wkc \<ge> 0
       then foldM (\<lambda>slcnt st. do {
              chk (sldatapos slcnt + 6 \<le> EC_BUFSIZE);
              Some (memcpy st (6 * slcnt) rb (sldatapos slcnt) 6) }) [0..<n] slstatlst
       else Some slstatlst);
     p \<leftarrow> ecx_setbufstat idx EC_BUF_EMPTY p;
     Some (wkc, slstatlst, p) }"

section \<open>States of all slaves\<close>

text \<open>One round of the loop of \<open>ecx_readstate\<close>: the slaves from \<open>fslave\<close> to \<open>lslave\<close>.\<close>

definition store_state :: "buf \<Rightarrow> nat \<Rightarrow> nat \<Rightarrow> u16 \<times> 'e ecx_contextt \<Rightarrow> (u16 \<times> 'e ecx_contextt) option" where
  "store_state sl fslave slave = (\<lambda>(lowest, c). let
     rval = rd16 sl (6 * (slave - fslave));
     code = rd16 sl (6 * (slave - fslave) + 4);
     c = upd_slave slave (\<lambda>s. s\<lparr>sl_ALstatuscode := code\<rparr>) c;
     lowest = (if rval AND 0xf < lowest then rval AND 0xf else lowest);
     c = upd_slave slave (\<lambda>s. s\<lparr>sl_state := rval\<rparr>) c;
     c = upd_slave 0 (\<lambda>s. s\<lparr>sl_ALstatuscode := sl_ALstatuscode s OR sl_ALstatuscode (slavelist c slave)\<rparr>) c
   in Some (lowest, c))"

definition read_states :: "'e os_ops \<Rightarrow> nat \<times> u16 \<times> 'e ecx_contextt \<Rightarrow>
    ((nat \<times> u16 \<times> 'e ecx_contextt) \<times> bool) option" where
  "read_states E = (\<lambda>(fslave, lowest, c). do {
     let lslave = slavecount c;
     let lslave = (if int lslave - int fslave \<ge> int MAX_FPRD_MULTI then fslave + MAX_FPRD_MULTI - 1 else lslave);
     (wkc, sl, c) \<leftarrow> on_port2 (ecx_FPRD_multi E (lslave + 1 - fslave)
        (\<lambda>i. sl_configadr (slavelist c (fslave + i))) zero_buf EC_TIMEOUTRET3) c;
     (lowest, c) \<leftarrow> foldM (store_state sl fslave) [fslave..<lslave + 1] (lowest, c);
     Some ((lslave + 1, lowest, c), lslave < slavecount c) })"

definition ecx_readstate :: "'e os_ops \<Rightarrow> 'e ecx_contextt \<Rightarrow> (u16 \<times> 'e ecx_contextt) option" where
  "ecx_readstate E c = do {
     (wkc, b, c) \<leftarrow> on_port2 (ecx_BRD E 0 ECT_REG_ALSTAT 2 (var16 0) EC_TIMEOUTRET) c;
     let allslavespresent = (wkc \<ge> int (slavecount c));
     let rval = rd16 b 0;
     let bitwisestate = rval AND 0x0f;
     let noerrorflag = (rval AND EC_STATE_ERROR = 0);
     let c = (if noerrorflag then upd_slave 0 (\<lambda>s. s\<lparr>sl_ALstatuscode := 0\<rparr>) c else c);
     let allslavessamestate = (bitwisestate = EC_STATE_INIT \<or> bitwisestate = EC_STATE_PRE_OP \<or>
       bitwisestate = EC_STATE_SAFE_OP \<or> bitwisestate = EC_STATE_OPERATIONAL);
     let c = (if allslavessamestate then upd_slave 0 (\<lambda>s. s\<lparr>sl_state := bitwisestate\<rparr>) c else c);
     if noerrorflag \<and> allslavessamestate \<and> allslavespresent
     then do {
       c \<leftarrow> foldM (\<lambda>slave c. Some (upd_slave slave (\<lambda>s. s\<lparr>sl_ALstatuscode := 0, sl_state := bitwisestate\<rparr>) c))
         [1..<slavecount c + 1] c;
       Some (bitwisestate, c) }
     else do {
       let c = upd_slave 0 (\<lambda>s. s\<lparr>sl_ALstatuscode := 0\<rparr>) c;
       (_, lowest, c) \<leftarrow> do_while (read_states E) (1, 0xff, c);
       Some (lowest, upd_slave 0 (\<lambda>s. s\<lparr>sl_state := lowest\<rparr>) c) } }"

definition ecx_writestate :: "'e os_ops \<Rightarrow> nat \<Rightarrow> 'e ecx_contextt \<Rightarrow> (int \<times> 'e ecx_contextt) option" where
  "ecx_writestate E slave c = do {
     chk (slave < maxslave c);
     if slave = 0
     then on_port (ecx_BWR E 0 ECT_REG_ALCTL 2 (var16 (sl_state (slavelist c slave))) EC_TIMEOUTRET3) c
     else on_port (ecx_FPWRw E (sl_configadr (slavelist c slave)) ECT_REG_ALCTL
            (sl_state (slavelist c slave)) EC_TIMEOUTRET3) c }"

section \<open>Waiting for a state\<close>

text \<open>
  The polled loop is on the port; the status code a single slave reports in each round goes to the
  slave list, where only the last one remains visible.
\<close>

definition ecx_statecheck :: "'e os_ops \<Rightarrow> nat \<Rightarrow> u16 \<Rightarrow> int \<Rightarrow> 'e ecx_contextt \<Rightarrow> (u16 \<times> 'e ecx_contextt) option" where
  "ecx_statecheck E slave reqstate timeout c = do {
     if slave > slavecount c then Some (0, c)
     else do {
       let (timer, p) = port_timer_start E timeout (port c);
       let configadr = sl_configadr (slavelist c slave);
       ((rval, code, state), p) \<leftarrow> poll E timer (\<lambda>(rval, code, state) p. do {
          (rval, code, p) \<leftarrow> (if slave < 1
             then do {
               (_, b, p) \<leftarrow> ecx_BRD E 0 ECT_REG_ALSTAT 2 (var16 0) EC_TIMEOUTRET p;
               Some (rd16 b 0, code, p) }
             else do {
               (_, b, p) \<leftarrow> ecx_FPRD E configadr ECT_REG_ALSTAT 6 zero_buf EC_TIMEOUTRET p;
               Some (rd16 b 0, Some (rd16 b 4), p) });
          let state = rval AND 0x000f;
          let p = (if state \<noteq> reqstate then port_usleep E 1000 p else p);
          Some (state \<noteq> reqstate, (rval, code, state), p) }) (0, None, 0) p;
       let c = c\<lparr>port := p\<rparr>;
       let c = (case code of None \<Rightarrow> c | Some v \<Rightarrow> upd_slave slave (\<lambda>s. s\<lparr>sl_ALstatuscode := v\<rparr>) c);
       let c = upd_slave slave (\<lambda>s. s\<lparr>sl_state := rval\<rparr>) c;
       Some (state, c) } }"

section \<open>The frame of several reads\<close>

definition fprd_dgram :: "nat \<Rightarrow> (nat \<Rightarrow> u16) \<Rightarrow> nat \<Rightarrow> dgram" where
  "fprd_dgram idx configlst k = tx_dgram EC_CMD_FPRD idx (configlst k) ECT_REG_ALSTAT 6 zero_buf"

text \<open>The datagrams after \<open>k\<close> steps: all but the last are marked as followed.\<close>

definition fprd_list :: "nat \<Rightarrow> (nat \<Rightarrow> u16) \<Rightarrow> nat \<Rightarrow> (dgram \<times> bool) list" where
  "fprd_list idx configlst k =
     (fprd_dgram idx configlst 0, k > 1) # map (\<lambda>j. (fprd_dgram idx configlst j, True)) [1..<k]"

lemma fprd_list_size: "dgrams_size (fprd_list idx configlst k) = 18 * (if k = 0 then 1 else k)"
proof -
  have "dgrams_size (map (\<lambda>j. (fprd_dgram idx configlst j, True)) js) = 18 * length js" for js
    by (induction js) (simp_all add: fprd_dgram_def)
  then show ?thesis by (cases k) (simp_all add: fprd_list_def, simp_all add: fprd_dgram_def)
qed

lemma tx_step_trans: "tx_step a b \<Longrightarrow> tx_step b c \<Longrightarrow> tx_step a c"
  by (simp add: tx_step_def)

lemma fprd_add_runs:
  assumes "tx_carries idx q (fprd_list idx configlst k)" "1 \<le> k" "k < MAX_FPRD_MULTI"
  shows "runs_to (fprd_add idx follows (configlst k) q) (\<lambda>(off, q'). tx_step q q' \<and> off = 12 + 18 * k \<and>
    tx_carries idx q' ((fprd_dgram idx configlst 0, True) #
      map (\<lambda>j. (fprd_dgram idx configlst j, True)) [1..<k] @ [(fprd_dgram idx configlst k, follows)]))"
proof -
  have len: "txbuflength q idx = 16 + 18 * k"
    using assms(1,2) fprd_list_size [of idx configlst k] by (simp add: tx_carries_def)
  then have fit: "txbuflength q idx + 12 + unat (6 :: u16) \<le> EC_BUFSIZE" using assms(3) by simp
  from add_tx_runs [OF assms(1) [unfolded fprd_list_def] fit, of EC_CMD_FPRD follows "configlst k" ECT_REG_ALSTAT zero_buf]
  show ?thesis
    unfolding fprd_add_def by (rule runs_to_mono) (auto simp: len fprd_dgram_def)
qed

lemma fprd_build_runs:
  assumes idx: "idx < EC_MAXBUF" and n: "1 \<le> n" "n \<le> MAX_FPRD_MULTI"
  shows "runs_to (fprd_build idx n configlst p) (\<lambda>(pos, p'). tx_step p p' \<and> (\<forall>k < n. pos k = 12 + 18 * k) \<and>
    tx_carries idx p' (map (\<lambda>j. (fprd_dgram idx configlst j, True)) [0..<n - 1] @ [(fprd_dgram idx configlst (n - 1), False)]))"
proof -
  have "28 + unat (6 :: u16) \<le> EC_BUFSIZE" by simp
  from setup_tx_runs [OF idx this, of EC_CMD_FPRD "configlst 0" ECT_REG_ALSTAT zero_buf p] obtain p1
    where 1: "setup_tx EC_CMD_FPRD idx (configlst 0) ECT_REG_ALSTAT 6 zero_buf p = Some p1" "tx_step p p1"
    "tx_carries idx p1 (fprd_list idx configlst 1)" by (auto simp: runs_to_iff fprd_list_def fprd_dgram_def)
  define loop where "loop = foldM (\<lambda>slcnt (sldatapos, p). do {
        (pos, p) \<leftarrow> fprd_add idx True (configlst slcnt) p;
        Some (sldatapos(slcnt := pos), p) }) [1..<n - 1] ((\<lambda>_. 0)(0 := EC_HEADERSIZE), p1)"
  define I where "I = (\<lambda>k (pos, q). tx_step p q \<and> tx_carries idx q (fprd_list idx configlst k) \<and>
    (\<forall>j < k. pos j = 12 + 18 * j))"
  have loop: "runs_to loop (I (n - 1))" if "1 < n"
    unfolding loop_def
  proof (rule foldM_upt_total)
    show "I 1 ((\<lambda>_. 0)(0 := EC_HEADERSIZE), p1)" using 1 by (simp add: I_def)
    fix k s assume k: "1 \<le> k" "k < n - 1" and "I k s"
    then obtain pos q where s: "s = (pos, q)" "tx_step p q" "tx_carries idx q (fprd_list idx configlst k)"
      "\<forall>j < k. pos j = 12 + 18 * j" by (cases s) (auto simp: I_def)
    have "k < MAX_FPRD_MULTI" using k n by simp
    have fl: "fprd_list idx configlst (Suc k) = (fprd_dgram idx configlst 0, True) #
      map (\<lambda>j. (fprd_dgram idx configlst j, True)) [1..<k] @ [(fprd_dgram idx configlst k, True)]"
      using k(1) by (simp add: fprd_list_def)
    from fprd_add_runs [OF s(3) k(1) \<open>k < MAX_FPRD_MULTI\<close>, of True] show "runs_to (case s of (sldatapos, p) \<Rightarrow> do {
        (pos, p) \<leftarrow> fprd_add idx True (configlst k) p;
        Some (sldatapos(k := pos), p) }) (I (Suc k))"
      using s k by (auto simp: I_def fl less_Suc_eq elim!: runs_to_mono intro: tx_step_trans)
  qed (use that in simp)
  show ?thesis
  proof (cases "n = 1")
    case True
    with 1 show ?thesis by (simp add: fprd_build_def fprd_list_def)
  next
    case False
    then have n1: "1 < n" using n by simp
    from loop [OF n1] obtain pos q where l: "loop = Some (pos, q)" "tx_step p q"
      "tx_carries idx q (fprd_list idx configlst (n - 1))" "\<forall>j < n - 1. pos j = 12 + 18 * j"
      by (auto simp: runs_to_iff I_def)
    have "1 \<le> n - 1" "n - 1 < MAX_FPRD_MULTI" using n n1 by simp_all
    from fprd_add_runs [OF l(3) this, of False] obtain off q' where
      a: "fprd_add idx False (configlst (n - 1)) q = Some (off, q')" "tx_step q q'" "off = 12 + 18 * (n - 1)"
      "tx_carries idx q' ((fprd_dgram idx configlst 0, True) #
        map (\<lambda>j. (fprd_dgram idx configlst j, True)) [1..<n - 1] @ [(fprd_dgram idx configlst (n - 1), False)])"
      by (auto simp: runs_to_iff)
    have u: "[0..<n - Suc 0] = 0 # [Suc 0..<n - Suc 0]" using n1 by (simp add: upt_conv_Cons)
    have "\<forall>k < n. (pos(n - 1 := off)) k = 12 + 18 * k"
      using l(4) a(3) by (auto simp: less_Suc_eq)
    with a 1(1) n1 l(1) tx_step_trans [OF l(2) a(2)] show ?thesis
      unfolding fprd_build_def by (simp add: loop_def u)
  qed
qed

lemma ecx_FPRD_multi_runs:
  assumes "net_ok E now p" "1 \<le> n" "n \<le> MAX_FPRD_MULTI"
  shows "runs_to (ecx_FPRD_multi E n configlst st timeout p) (\<lambda>(w, st', p'). exchange_ok E now p p')"
proof -
  define res where "res idx pos w q = (if w \<ge> (0 :: int)
       then foldM (\<lambda>slcnt st. do {
              chk (pos slcnt + 6 \<le> EC_BUFSIZE);
              Some (memcpy st (6 * slcnt) (rxbuf q idx) (pos slcnt) 6) }) [0..<n] st
       else Some st)" for idx pos w and q :: "'a ecx_portt"
  have prep: "runs_to (fprd_build i n configlst q) (\<lambda>(pos, q'). net_ok E now q' \<and> port_step now q q' \<and>
      frame_ready i q' \<and> in_use q' = in_use q \<and> (\<forall>k < n. pos k + 6 \<le> EC_BUFSIZE))"
    if "net_ok E now q" "i < EC_MAXBUF" for i q
    using fprd_build_runs [OF that(2) assms(2,3), of configlst q] that(1) assms(3)
    by (auto simp: net_ok_def tx_step_def tx_carries_def in_use_def fun_eq_iff port_step_def elim!: runs_to_mono)
  have res: "runs_to (res i pos w q) (\<lambda>_. True)" if "\<forall>k < n. pos k + 6 \<le> EC_BUFSIZE" for i pos w q
    unfolding res_def runs_to_if using that by (auto intro!: foldM_total [where I = "\<lambda>_. True"])
  have res': "runs_to (do { s \<leftarrow> res i pos w q; Some (w, s) }) (\<lambda>_. True)"
    if "\<forall>k < n. pos k + 6 \<le> EC_BUFSIZE" for i pos w q
    using res [OF that] by simp
  have "runs_to (do {
      (i, p) \<leftarrow> ecx_getindex p;
      (x, p) \<leftarrow> fprd_build i n configlst p;
      (w, p) \<leftarrow> ecx_srconfirm E i timeout p;
      r \<leftarrow> do { s \<leftarrow> res i x w p; Some (w, s) };
      p \<leftarrow> ecx_setbufstat i EC_BUF_EMPTY p;
      Some (r, p) }) (\<lambda>(r, p'). net_ok E now p' \<and> port_step now p p' \<and> (\<forall>j. in_use p' j \<longrightarrow> in_use p j) \<and> True)"
    by (rule nic.transaction [where P = "\<lambda>pos. \<forall>k < n. pos k + 6 \<le> EC_BUFSIZE", OF assms(1) prep res'])
  then show ?thesis
    using assms(2,3) unfolding ecx_FPRD_multi_def res_def exchange_ok_def Let_def
    by (simp add: split_beta)
qed

section \<open>Reading all states\<close>

lemma store_state_slave:
  assumes "1 \<le> slave"
  shows "\<exists>lowest' c'. store_state sl f slave (lowest, c) = Some (lowest', c') \<and> port c' = port c \<and>
    slaves_kept c c' \<and> elist c' = elist c \<and> lowest' \<le> lowest \<and>
    lowest' \<le> sl_state (slavelist c' slave) AND 0xf \<and>
    (\<forall>i. i \<noteq> slave \<longrightarrow> sl_state (slavelist c' i) = sl_state (slavelist c i))"
  using assms by (auto simp: store_state_def Let_def slaves_kept_iff)

text \<open>After a round, the lowest state seen is below the state of every slave read so far.\<close>

definition seen_states :: "nat \<Rightarrow> u16 \<Rightarrow> 'e ecx_contextt \<Rightarrow> bool" where
  "seen_states f lowest c \<longleftrightarrow> (\<forall>i. 1 \<le> i \<longrightarrow> i < f \<longrightarrow> lowest \<le> sl_state (slavelist c i) AND 0xf)"

lemma store_states_runs:
  assumes c: "ctx_ok E now c" and f: "1 \<le> f" "f \<le> l" and seen: "seen_states f lowest c"
  shows "runs_to (foldM (store_state sl f) [f..<l] (lowest, c)) (\<lambda>(lowest', c'). ctx_step E now c c' \<and>
    seen_states l lowest' c')"
proof -
  have "runs_to (foldM (store_state sl f) [f..<l] (lowest, c))
      ((\<lambda>k (low, c'). ctx_step E now c c' \<and> seen_states k low c') l)"
  proof (rule foldM_upt_total [OF f(2)])
    fix k s assume k: "f \<le> k" "k < l" and I: "case s of (low, c') \<Rightarrow> ctx_step E now c c' \<and> seen_states k low c'"
    obtain low c1 where s: "s = (low, c1)" "ctx_step E now c c1" "seen_states k low c1" using I by (cases s) auto
    have "1 \<le> k" using f k by simp
    from store_state_slave [OF this, of sl f low c1] obtain low' c2 where
      r: "store_state sl f k (low, c1) = Some (low', c2)" "port c2 = port c1" "slaves_kept c1 c2"
      "elist c2 = elist c1" "low' \<le> low" "low' \<le> sl_state (slavelist c2 k) AND 0xf"
      "\<forall>i. i \<noteq> k \<longrightarrow> sl_state (slavelist c2 i) = sl_state (slavelist c1 i)" by blast
    have "ctx_step E now c1 c2"
      using ctx_step_ok [OF s(2)] r(2-4)
      by (simp add: ctx_step_def ctx_ok_def exchange_ok_refl slaves_kept_iff)
    then have "ctx_step E now c c2" by (rule ctx_step_trans [OF s(2)])
    moreover have "seen_states (Suc k) low' c2"
      using s(3) r(5,6,7) by (auto simp: seen_states_def less_Suc_eq intro: order_trans)
    ultimately show "runs_to (store_state sl f k s) (\<lambda>(low, c'). ctx_step E now c c' \<and> seen_states (Suc k) low c')"
      using r(1) s(1) by simp
  qed (use c seen in \<open>simp add: ctx_step_refl\<close>)
  then show ?thesis by simp
qed

lemma read_states_runs:
  assumes c: "ctx_ok E now c" and n: "1 \<le> slavecount c"
  shows "runs_to (do_while (read_states E) (1, 0xff, c)) (\<lambda>(f, lowest, c'). ctx_step E now c c' \<and>
    seen_states (slavecount c + 1) lowest c')"
proof (rule do_while_total [where I = "\<lambda>(f, lowest, c'). 1 \<le> f \<and> f \<le> slavecount c \<and> ctx_step E now c c' \<and>
      seen_states f lowest c'" and R = "measure (\<lambda>(f, lowest, c'). slavecount c + 1 - f)"], goal_cases)
  case I: (3 a)
  obtain f lowest c1 where a: "a = (f, lowest, c1)" by (cases a)
  with I have f: "1 \<le> f" "f \<le> slavecount c" "ctx_step E now c c1" "seen_states f lowest c1" by auto
  have count: "slavecount c1 = slavecount c" using ctx_step_count [OF f(3)] by simp
  define l where "l = (if int (slavecount c1) - int f \<ge> int MAX_FPRD_MULTI then f + MAX_FPRD_MULTI - 1 else slavecount c1)"
  have l: "f \<le> l" "l \<le> slavecount c" "1 \<le> l + 1 - f" "l + 1 - f \<le> MAX_FPRD_MULTI" "f \<le> l + 1"
    using f(1,2) count by (auto simp: l_def)
  note ok = ctx_step_ok [OF f(3)]
  let ?read = "ecx_FPRD_multi E (l + 1 - f) (\<lambda>i. sl_configadr (slavelist c1 (f + i))) zero_buf EC_TIMEOUTRET3"
  have "runs_to (?read (port c1)) (\<lambda>(w, st, p). exchange_ok E now (port c1) p \<and> True)"
    using ecx_FPRD_multi_runs [OF ctx_ok_net [OF ok] l(3,4)] by simp
  from on_port2_step [where f = ?read and Q = "\<lambda>_ _. True", OF ok this] obtain w sl c2 where
    2: "on_port2 ?read c1 = Some (w, sl, c2)" "ctx_step E now c1 c2" "\<exists>p. c2 = c1\<lparr>port := p\<rparr>"
    by (auto simp: runs_to_iff)
  have seen: "seen_states f lowest c2" using f(4) 2(3) by (auto simp: seen_states_def)
  from store_states_runs [OF ctx_step_ok [OF 2(2)] f(1) l(5) seen, of sl] obtain lowest' c3 where
    3: "foldM (store_state sl f) [f..<l + 1] (lowest, c2) = Some (lowest', c3)" "ctx_step E now c2 c3"
      "seen_states (l + 1) lowest' c3" by (auto simp only: runs_to_iff prod.case)
  have s: "ctx_step E now c c3" using f(3) 2(2) 3(2) by (blast intro: ctx_step_trans)
  have "read_states E a = Some ((l + 1, lowest', c3), l < slavecount c)"
    using 2(1) 3(1) ctx_step_count [OF s]
    unfolding read_states_def a prod.case Let_def l_def [symmetric] by simp
  moreover have "l = slavecount c" if "\<not> l < slavecount c" using that l by simp
  ultimately show ?case using s 3(3) l f(1) a by auto
qed (use c n in \<open>auto simp: ctx_step_refl seen_states_def\<close>)

lemma set_states:
  "\<exists>c'. foldM (\<lambda>slave c. Some (upd_slave slave (\<lambda>s. s\<lparr>sl_ALstatuscode := 0, sl_state := v\<rparr>) c)) [1..<n + 1] c = Some c' \<and>
    port c' = port c \<and> elist c' = elist c \<and> slaves_kept c c' \<and>
    (\<forall>i. sl_state (slavelist c' i) = (if 1 \<le> i \<and> i \<le> n then v else sl_state (slavelist c i)))"
proof (induction n)
  case (Suc n)
  then obtain c1 where 1: "foldM (\<lambda>slave c. Some (upd_slave slave (\<lambda>s. s\<lparr>sl_ALstatuscode := 0, sl_state := v\<rparr>) c)) [1..<n + 1] c = Some c1"
    "port c1 = port c" "elist c1 = elist c" "slaves_kept c c1"
    "\<forall>i. sl_state (slavelist c1 i) = (if 1 \<le> i \<and> i \<le> n then v else sl_state (slavelist c i))" by blast
  have u: "[1..<Suc n + 1] = [1..<n + 1] @ [Suc n]" by simp
  show ?case
    unfolding u foldM_append 1(1) using 1(2-5) by (auto simp: slaves_kept_iff)
qed simp

lemma upd_slave_step:
  assumes "ctx_ok E now c" "\<And>s. slave_config (f s) = slave_config s"
  shows "ctx_step E now c (upd_slave i f c)"
  using assms by (auto simp: ctx_step_def ctx_ok_def slaves_kept_def exchange_ok_refl)

lemma ecx_statecheck_runs:
  assumes c: "ctx_ok E now c" and slave: "slave \<le> slavecount c"
  shows "runs_to (ecx_statecheck E slave reqstate timeout c) (\<lambda>(state, c'). ctx_step E now c c' \<and>
    state = sl_state (slavelist c' slave) AND 0x000f \<and>
    (state = reqstate \<or> expired (fst (port_timer_start E timeout (port c))) (now (os (port c')))))"
proof -
  obtain timer p0 where t: "port_timer_start E timeout (port c) = (timer, p0)" by fastforce
  have p0: "exchange_ok E now (port c) p0" by (rule port_timer_start_ok [OF ctx_ok_net [OF c] t])
  define adr where "adr = sl_configadr (slavelist c slave)"
  define body where "body = (\<lambda>(rval :: u16, code, state :: u16) p. do {
          (rval, code, p) \<leftarrow> (if slave < 1
             then do {
               (_, b, p) \<leftarrow> ecx_BRD E 0 ECT_REG_ALSTAT 2 (var16 0) EC_TIMEOUTRET p;
               Some (rd16 b 0, code, p) }
             else do {
               (_, b, p) \<leftarrow> ecx_FPRD E adr ECT_REG_ALSTAT 6 zero_buf EC_TIMEOUTRET p;
               Some (rd16 b 0, Some (rd16 b 4), p) });
          let state = rval AND 0x000f;
          let p = (if state \<noteq> reqstate then port_usleep E 1000 p else p);
          Some (state \<noteq> reqstate, (rval, code, state), p) })"
  have body: "runs_to (body s p) (\<lambda>(b, s', p'). exchange_ok E now p p' \<and> True \<and>
      (case s' of (rval, code, state) \<Rightarrow> state = rval AND 0xf \<and> b = (state \<noteq> reqstate)))"
    if p: "net_ok E now p" for s p
  proof -
    have sl: "exchange_ok E now p (port_usleep E 1000 q)" if "exchange_ok E now p q" for q
      using that port_usleep_ok [OF exchange_ok_net [OF that]] by (rule exchange_ok_trans)
    show ?thesis
      using ecx_BRD_runs [OF p, of 2 0 ECT_REG_ALSTAT "var16 0" EC_TIMEOUTRET]
        ecx_FPRD_runs [OF p, of 6 adr ECT_REG_ALSTAT zero_buf EC_TIMEOUTRET] sl
      by (cases "slave < 1") (auto simp: body_def runs_to_iff split_beta Let_def)
  qed
  from poll_runs_exit [where P = "\<lambda>_. True" and R = "\<lambda>b (rval, code, state). state = rval AND 0xf \<and> b = (state \<noteq> reqstate)"
      and s = "(0, None, 0)" and timer = timer and body = body, OF exchange_ok_net [OF p0] _ body]
  obtain rval code state p' where
    r: "poll E timer body (0, None, 0) p0 = Some ((rval, code, state), p')" "exchange_ok E now p0 p'"
      "state = rval AND 0xf" "state = reqstate \<or> expired timer (now (os p'))"
    by (fastforce simp: runs_to_iff)
  have s: "ctx_step E now c (c\<lparr>port := p'\<rparr>)"
    by (rule ctx_step_port [OF c]) (use p0 r(2) in \<open>blast intro: exchange_ok_trans\<close>)
  define c1 where "c1 = (case code of None \<Rightarrow> c\<lparr>port := p'\<rparr>
    | Some v \<Rightarrow> upd_slave slave (\<lambda>s. s\<lparr>sl_ALstatuscode := v\<rparr>) (c\<lparr>port := p'\<rparr>))"
  have s1: "ctx_step E now c c1"
    unfolding c1_def using ctx_step_trans [OF s upd_slave_step [OF ctx_step_ok [OF s]]] s
    by (auto split: option.splits)
  have "ctx_step E now c (upd_slave slave (\<lambda>s. s\<lparr>sl_state := rval\<rparr>) c1)"
    by (rule ctx_step_trans [OF s1 upd_slave_step [OF ctx_step_ok [OF s1]]]) simp
  moreover have "port c1 = p'" by (simp add: c1_def split: option.splits)
  ultimately show ?thesis
    using slave r unfolding ecx_statecheck_def t prod.case Let_def body_def adr_def [symmetric] by (simp add: c1_def)
qed

text \<open>
  The frame that reads the AL status of \<open>n\<close> slaves (at most 64) is read back as one configured-
  address read for each of them, in order, and the recorded positions are those of the data of the
  datagrams in the received frame.
\<close>

theorem fprd_frame_roundtrip:
  assumes "idx < EC_MAXBUF" "1 \<le> n" "n \<le> MAX_FPRD_MULTI"
  shows "\<exists>pos p'. fprd_build idx n configlst p = Some (pos, p') \<and>
    parse_dgrams 125 (txbuf p' idx) 16 =
      map (\<lambda>k. tx_dgram EC_CMD_FPRD idx (configlst k) ECT_REG_ALSTAT 6 zero_buf) [0..<n] \<and>
    (\<forall>k < n. dgram_at (txbuf p' idx) (ETH_HEADERSIZE + pos k - 10) 6 =
      tx_dgram EC_CMD_FPRD idx (configlst k) ECT_REG_ALSTAT 6 zero_buf)"
proof -
  let ?ds = "map (fprd_dgram idx configlst) [0..<n - 1]" and ?d = "fprd_dgram idx configlst (n - 1)"
  from fprd_build_runs [OF assms, of configlst p] obtain pos p' where
    r: "fprd_build idx n configlst p = Some (pos, p')" "\<forall>k < n. pos k = 12 + 18 * k"
    "carries (txbuf p' idx) 16 (map (\<lambda>d. (d, True)) ?ds @ [(?d, False)])"
    by (auto simp: runs_to_iff tx_carries_def o_def)
  have all: "?ds @ [?d] = map (fprd_dgram idx configlst) [0..<n]"
    using assms(2) by (cases n) simp_all
  have "parse_dgrams 125 (txbuf p' idx) 16 = ?ds @ [?d]"
    using assms(3) by (intro parse_carries [OF r(3)]) simp
  moreover have "dgram_at (txbuf p' idx) (ETH_HEADERSIZE + pos k - 10) 6 = fprd_dgram idx configlst k"
    if k: "k < n" for k
  proof -
    let ?all = "map (\<lambda>d. (d, True)) ?ds @ [(?d, False)]"
    have len: "length (d_data (fst x)) = 6" if "x \<in> set ?all" for x
      using that by (auto simp: fprd_dgram_def)
    have "sum_list (map (\<lambda>(d, m). 12 + length (d_data d)) xs) = 18 * length xs" if "set xs \<subseteq> set ?all" for xs
      using that len by (induction xs) (auto simp: split_beta)
    then have "dgrams_size (take k ?all) = 18 * k"
      using k set_take_subset [of k ?all] by (simp add: dgrams_size_def)
    moreover have "k < length ?all" using k by simp
    moreover have "fst (?all ! k) = fprd_dgram idx configlst k"
      using k by (cases "k = n - 1") (simp_all add: nth_append)
    ultimately have "dgram_at (txbuf p' idx) (16 + 18 * k) (length (d_data (fprd_dgram idx configlst k))) =
        fprd_dgram idx configlst k"
      using carries_nth [OF r(3), of k] by simp
    moreover have "length (d_data (fprd_dgram idx configlst k)) = 6" by (simp add: fprd_dgram_def)
    moreover have "ETH_HEADERSIZE + pos k - 10 = 16 + 18 * k" using r(2) k by simp
    ultimately show ?thesis by (simp only:)
  qed
  ultimately show ?thesis using r(1) unfolding all by (auto simp: fprd_dgram_def cong: map_cong)
qed

theorem fprd_frame_roundtrip_witness:
  "\<exists>pos p'. fprd_build 1 3 (\<lambda>k. of_nat (0x1001 + k)) (idle_port (5, [])) = Some (pos, p') \<and>
     length (parse_dgrams 125 (txbuf p' 1) 16) = 3"
  using fprd_frame_roundtrip [where idx = 1 and n = 3 and configlst = "\<lambda>k. of_nat (0x1001 + k)"
      and p = "idle_port (5, [])"] by fastforce

text \<open>
  \<open>ecx_readstate\<close> always returns when there is a slave; it returns the state recorded for the
  whole network, which is at most the state recorded for each slave.
\<close>

theorem ecx_readstate_lowest:
  assumes "ctx_ok E now c" "1 \<le> slavecount c"
  shows "\<exists>lowest c'. ecx_readstate E c = Some (lowest, c') \<and> ctx_step E now c c' \<and>
    sl_state (slavelist c' 0) = lowest \<and>
    (\<forall>i. 1 \<le> i \<longrightarrow> i \<le> slavecount c \<longrightarrow> lowest \<le> sl_state (slavelist c' i) AND 0xf)"
proof -
  let ?read = "ecx_BRD E 0 ECT_REG_ALSTAT 2 (var16 0) EC_TIMEOUTRET"
  have "runs_to (?read (port c)) (\<lambda>(w, b, p). exchange_ok E now (port c) p \<and> True)"
    using ecx_BRD_runs [OF ctx_ok_net [OF assms(1)], of 2 0 ECT_REG_ALSTAT "var16 0" EC_TIMEOUTRET]
    by (auto elim!: runs_to_mono)
  from on_port2_step [where f = ?read and Q = "\<lambda>_ _. True", OF assms(1) this] obtain wkc b c1 where
    1: "on_port2 ?read c = Some (wkc, b, c1)" "ctx_step E now c c1" by (auto simp: runs_to_iff)
  define rval where "rval = rd16 b 0"
  define c2 where "c2 = (if rval AND EC_STATE_ERROR = 0 then upd_slave 0 (\<lambda>s. s\<lparr>sl_ALstatuscode := 0\<rparr>) c1 else c1)"
  define same where "same \<longleftrightarrow> rval AND 0x0f = EC_STATE_INIT \<or> rval AND 0x0f = EC_STATE_PRE_OP \<or>
    rval AND 0x0f = EC_STATE_SAFE_OP \<or> rval AND 0x0f = EC_STATE_OPERATIONAL"
  define c3 where "c3 = (if same then upd_slave 0 (\<lambda>s. s\<lparr>sl_state := rval AND 0x0f\<rparr>) c2 else c2)"
  have "ctx_step E now c1 c2"
    unfolding c2_def using upd_slave_step [OF ctx_step_ok [OF 1(2)]] ctx_step_refl [OF ctx_step_ok [OF 1(2)]] by simp
  then have 2: "ctx_step E now c c2" by (rule ctx_step_trans [OF 1(2)])
  have "ctx_step E now c2 c3"
    unfolding c3_def using upd_slave_step [OF ctx_step_ok [OF 2]] ctx_step_refl [OF ctx_step_ok [OF 2]] by simp
  then have 3: "ctx_step E now c c3" by (rule ctx_step_trans [OF 2])
  have cnt: "slavecount c1 = slavecount c" "slavecount c3 = slavecount c"
    using ctx_step_count [OF 1(2)] ctx_step_count [OF 3] by simp_all
  show ?thesis
  proof (cases "rval AND EC_STATE_ERROR = 0 \<and> same \<and> wkc \<ge> int (slavecount c)")
    case True
    from set_states [of "rval AND 0x0f" "slavecount c" c3] obtain c4 where
      4: "foldM (\<lambda>slave c. Some (upd_slave slave (\<lambda>s. s\<lparr>sl_ALstatuscode := 0, sl_state := rval AND 0x0f\<rparr>) c))
        [1..<slavecount c + 1] c3 = Some c4" "port c4 = port c3" "elist c4 = elist c3" "slaves_kept c3 c4"
      "\<forall>i. sl_state (slavelist c4 i) = (if 1 \<le> i \<and> i \<le> slavecount c then rval AND 0x0f else sl_state (slavelist c3 i))"
      by blast
    have "ctx_step E now c3 c4"
      using ctx_step_ok [OF 3] 4(2-4) by (simp add: ctx_step_def ctx_ok_def exchange_ok_refl slaves_kept_iff)
    then have "ctx_step E now c c4" by (rule ctx_step_trans [OF 3])
    moreover have "ecx_readstate E c = Some (rval AND 0x0f, c4)"
      unfolding ecx_readstate_def 1(1) Option.bind.bind_lunit prod.case Let_def rval_def [symmetric]
        c2_def [symmetric] same_def [symmetric] c3_def [symmetric] cnt using True 4(1) by simp
    moreover have "sl_state (slavelist c4 0) = rval AND 0x0f" using 4(5) True by (simp add: c3_def)
    ultimately show ?thesis using 4(5) by (simp add: and.assoc)
  next
    case False
    define c4 where "c4 = upd_slave 0 (\<lambda>s. s\<lparr>sl_ALstatuscode := 0\<rparr>) c3"
    have "ctx_step E now c3 c4" unfolding c4_def by (rule upd_slave_step [OF ctx_step_ok [OF 3]]) simp
    then have 4: "ctx_step E now c c4" by (rule ctx_step_trans [OF 3])
    have n: "1 \<le> slavecount c4" "slavecount c4 = slavecount c" using assms(2) ctx_step_count [OF 4] by simp_all
    from read_states_runs [OF ctx_step_ok [OF 4] n(1)] obtain f lowest c5 where
      5: "do_while (read_states E) (1, 0xff, c4) = Some (f, lowest, c5)" "ctx_step E now c4 c5"
      "seen_states (slavecount c + 1) lowest c5" unfolding n(2) by (auto simp only: runs_to_iff prod.case)
    let ?c6 = "upd_slave 0 (\<lambda>s. s\<lparr>sl_state := lowest\<rparr>) c5"
    have s: "ctx_step E now c c5" by (rule ctx_step_trans [OF 4 5(2)])
    have "ctx_step E now c5 ?c6" by (rule upd_slave_step [OF ctx_step_ok [OF s]]) simp
    then have "ctx_step E now c ?c6" by (rule ctx_step_trans [OF s])
    moreover have "ecx_readstate E c = Some (lowest, ?c6)"
      unfolding ecx_readstate_def 1(1) Option.bind.bind_lunit prod.case Let_def rval_def [symmetric]
        c2_def [symmetric] same_def [symmetric] c3_def [symmetric] cnt c4_def [symmetric] 5(1) using False by auto
    moreover have "\<forall>i. 1 \<le> i \<longrightarrow> i \<le> slavecount c \<longrightarrow> lowest \<le> sl_state (slavelist ?c6 i) AND 0xf"
      using 5(3) by (auto simp: seen_states_def)
    moreover have "sl_state (slavelist ?c6 0) = lowest" by simp
    ultimately show ?thesis by blast
  qed
qed

theorem ecx_readstate_lowest_witness:
  "\<exists>lowest c'. ecx_readstate script_os (idle_ctx 2 (5, [])) = Some (lowest, c') \<and>
     lowest \<le> sl_state (slavelist c' 2) AND 0xf"
  using ecx_readstate_lowest [OF idle_ctx_ok [of 2 "(5, [])"]] by fastforce

text \<open>
  C33: \<open>ecx_statecheck\<close> always returns. For a slave that does not exist it returns 0 and changes
  nothing; otherwise it returns the state bits of what it has recorded for the slave, and these are
  the requested state unless the deadline of the timer it started has passed.
\<close>

theorem ecx_statecheck_waits:
  assumes "ctx_ok E now c"
  shows "if slave > slavecount c then ecx_statecheck E slave reqstate timeout c = Some (0, c)
    else \<exists>state c'. ecx_statecheck E slave reqstate timeout c = Some (state, c') \<and> ctx_step E now c c' \<and>
      state = sl_state (slavelist c' slave) AND 0x000f \<and>
      (state = reqstate \<or> expired (fst (port_timer_start E timeout (port c))) (now (os (port c'))))"
  using ecx_statecheck_runs [OF assms, of slave reqstate timeout]
  by (cases "slave > slavecount c") (auto simp: runs_to_iff ecx_statecheck_def)

theorem ecx_statecheck_waits_witness:
  "\<exists>state c'. ecx_statecheck script_os 1 EC_STATE_SAFE_OP 2000 (idle_ctx 2 (5, [])) = Some (state, c') \<and>
     (state = EC_STATE_SAFE_OP \<or>
      expired (fst (port_timer_start script_os 2000 (idle_port (5, [])))) (1000 * fst (os (port c'))))"
  using ecx_statecheck_waits [OF idle_ctx_ok [of 2 "(5, [])"], of 1 EC_STATE_SAFE_OP 2000]
  by (auto simp: mult.commute split_beta)

end
