(* ===== verification/Mailbox.thy ===== *)
theory Mailbox
  imports Alstate
begin

text \<open>
  The mailboxes of the slaves (\<open>soem/ethercatmain.c\<close>): the counter of the mailbox link layer, sending
  to a mailbox that is empty, and receiving, with the repeat request for a lost mailbox and the
  messages the master handles itself (mailbox errors, emergencies, Ethernet fragments). The hook an
  application registers for Ethernet fragments is a parameter of the operations.

  A mailbox has a header of six bytes, the type in the low half of byte 5. An error has its code at
  byte 8; an emergency has the CANopen header at 6, the error code at 8, the error register at 10 and
  its data behind it.
\<close>

section \<open>Operations\<close>

definition ec_nextmbxcnt :: "u8 \<Rightarrow> u8" where
  "ec_nextmbxcnt cnt = (let cnt = cnt + 1 in if cnt > 7 then 1 else cnt)"

definition ec_clearmbx :: "buf \<Rightarrow> buf" where
  "ec_clearmbx Mbx = memset Mbx 0 0 EC_MAXMBX"

definition ecx_mbxempty :: "'e os_ops \<Rightarrow> nat \<Rightarrow> int \<Rightarrow> 'e ecx_contextt \<Rightarrow> (int \<times> 'e ecx_contextt) option" where
  "ecx_mbxempty E slave timeout c = do {
     chk (slave < maxslave c);
     let (timer, p) = port_timer_start E timeout (port c);
     let configadr = sl_configadr (slavelist c slave);
     ((wkc, SMstat), p) \<leftarrow> poll E timer (\<lambda>(wkc, SMstat) p. do {
        (wkc, b, p) \<leftarrow> ecx_FPRD E configadr ECT_REG_SM0STAT 1 (var8 0) EC_TIMEOUTRET p;
        let SMstat = b 0;
        let p = (if SMstat AND 0x08 \<noteq> 0 \<and> timeout > int EC_LOCALDELAY then port_usleep E EC_LOCALDELAY p else p);
        Some (wkc \<le> 0 \<or> SMstat AND 0x08 \<noteq> 0, (wkc, SMstat), p) }) (0, 0) p;
     let c = c\<lparr>port := p\<rparr>;
     if wkc > 0 \<and> SMstat AND 0x08 = 0 then Some (1, c) else Some (0, c) }"

definition ecx_mbxsend :: "'e os_ops \<Rightarrow> nat \<Rightarrow> buf \<Rightarrow> int \<Rightarrow> 'e ecx_contextt \<Rightarrow> (int \<times> 'e ecx_contextt) option" where
  "ecx_mbxsend E slave mbx timeout c = do {
     chk (slave < maxslave c);
     let configadr = sl_configadr (slavelist c slave);
     let mbxl = sl_mbx_l (slavelist c slave);
     if mbxl > 0 \<and> unat mbxl \<le> EC_MAXMBX
     then do {
       (empty, c) \<leftarrow> ecx_mbxempty E slave timeout c;
       if empty \<noteq> 0
       then do {
         let mbxwo = sl_mbx_wo (slavelist c slave);
         on_port (ecx_FPWR E configadr mbxwo mbxl mbx EC_TIMEOUTRET3) c }
       else Some (0, c) }
     else Some (0, c) }"

text \<open>
  Waiting until the status of the read mailbox says it is full. The first wait clears the status
  before each read; the wait after a repeat request keeps the last one.
\<close>

definition wait_mailbox :: "'e os_ops \<Rightarrow> ec_timet \<Rightarrow> int \<Rightarrow> u16 \<Rightarrow> bool \<Rightarrow> int \<times> u16 \<Rightarrow> 'e ecx_portt \<Rightarrow>
    ((int \<times> u16) \<times> 'e ecx_portt) option" where
  "wait_mailbox E timer timeout configadr clear = poll E timer (\<lambda>(wkc, SMstat) p. do {
     (wkc, b, p) \<leftarrow> ecx_FPRD E configadr ECT_REG_SM1STAT 2 (var16 (if clear then 0 else SMstat)) EC_TIMEOUTRET p;
     let SMstat = rd16 b 0;
     let p = (if SMstat AND 0x08 = 0 \<and> timeout > int EC_LOCALDELAY then port_usleep E EC_LOCALDELAY p else p);
     Some (wkc \<le> 0 \<or> SMstat AND 0x08 = 0, (wkc, SMstat), p) })"

text \<open>
  The repeat request for a lost mailbox: toggle the request bit, wait for its acknowledgement, wait
  for the mailbox. The control byte of the source is uninitialised before the first answer, but it is
  only looked at after an answer.
\<close>

definition mbx_repeat :: "'e os_ops \<Rightarrow> ec_timet \<Rightarrow> int \<Rightarrow> u16 \<Rightarrow> u16 \<Rightarrow> 'e ecx_portt \<Rightarrow>
    (u16 \<times> 'e ecx_portt) option" where
  "mbx_repeat E timer timeout configadr SMstat p = do {
     let SMstat = SMstat XOR 0x0200;
     (_, p) \<leftarrow> ecx_FPWR E configadr ECT_REG_SM1STAT 2 (var16 SMstat) EC_TIMEOUTRET p;
     (_, p) \<leftarrow> poll E timer (\<lambda>SMcontr p. do {
        (wkc2, b, p) \<leftarrow> ecx_FPRD E configadr ECT_REG_SM1CONTR 1 (var8 SMcontr) EC_TIMEOUTRET p;
        let SMcontr = b 0;
        Some (wkc2 \<le> 0 \<or> ucast SMcontr AND 0x02 \<noteq> HI_BYTE SMstat AND 0x02, SMcontr, p) }) 0 p;
     ((_, SMstat), p) \<leftarrow> wait_mailbox E timer timeout configadr False (0, SMstat) p;
     Some (SMstat, p) }"

type_synonym 'e eoe_hook = "(nat \<Rightarrow> buf \<Rightarrow> 'e ecx_contextt \<Rightarrow> (int \<times> buf \<times> 'e ecx_contextt) option) option"

text \<open>What is done with one read of the mailbox.\<close>

definition mbx_dispatch :: "'e os_ops \<Rightarrow> 'e eoe_hook \<Rightarrow> ec_timet \<Rightarrow> int \<Rightarrow> nat \<Rightarrow> u16 \<Rightarrow> int \<Rightarrow> u16 \<Rightarrow>
    buf \<Rightarrow> 'e ecx_contextt \<Rightarrow> (int \<times> u16 \<times> buf \<times> 'e ecx_contextt) option" where
  "mbx_dispatch E EOEhook timer timeout slave configadr wkc SMstat mbx c =
     (if wkc > 0 \<and> mbx 5 AND 0x0f = 0x00
      then do {
        c \<leftarrow> ecx_mbxerror E (of_nat slave) (rd16 mbx 8) c;
        Some (0, SMstat, mbx, c) }
      else if wkc > 0 \<and> mbx 5 AND 0x0f = ECT_MBXT_COE
      then (if drop_bit 12 (rd16 mbx 6) = 0x01
            then do {
              c \<leftarrow> ecx_mbxemergencyerror E (of_nat slave) (rd16 mbx 8) (ucast (mbx 10)) (mbx 11)
                (rd16 mbx 12) (rd16 mbx 14) c;
              Some (0, SMstat, mbx, c) }
            else Some (wkc, SMstat, mbx, c))
      else if wkc > 0 \<and> mbx 5 AND 0x0f = ECT_MBXT_EOE
      then (let frameinfo1 = rd16 mbx 6 in
            if frameinfo1 AND 0xF = 0
            then (case EOEhook of None \<Rightarrow> Some (wkc, SMstat, mbx, c)
              | Some hook \<Rightarrow> do {
                  (r, mbx, c) \<leftarrow> hook slave mbx c;
                  Some (if r > 0 then 0 else wkc, SMstat, mbx, c) })
            else Some (wkc, SMstat, mbx, c))
      else if wkc \<le> 0
      then do {
        (SMstat, c) \<leftarrow> on_port (mbx_repeat E timer timeout configadr SMstat) c;
        Some (wkc, SMstat, mbx, c) }
      else Some (wkc, SMstat, mbx, c))"

text \<open>A polled loop on the context.\<close>

definition ctx_poll :: "'e os_ops \<Rightarrow> ec_timet \<Rightarrow>
    ('s \<Rightarrow> 'e ecx_contextt \<Rightarrow> (bool \<times> 's \<times> 'e ecx_contextt) option) \<Rightarrow>
    's \<Rightarrow> 'e ecx_contextt \<Rightarrow> ('s \<times> 'e ecx_contextt) option" where
  "ctx_poll E timer body s c = do_while (\<lambda>(s, c). do {
     (b, s, c) \<leftarrow> body s c;
     let (again, p) = and_not_expired E timer b (port c);
     Some ((s, c\<lparr>port := p\<rparr>), again) }) (s, c)"

definition ecx_mbxreceive :: "'e os_ops \<Rightarrow> 'e eoe_hook \<Rightarrow> nat \<Rightarrow> buf \<Rightarrow> int \<Rightarrow> 'e ecx_contextt \<Rightarrow>
    (int \<times> buf \<times> 'e ecx_contextt) option" where
  "ecx_mbxreceive E EOEhook slave mbx timeout c = do {
     chk (slave < maxslave c);
     let configadr = sl_configadr (slavelist c slave);
     let mbxl = sl_mbx_rl (slavelist c slave);
     if mbxl > 0 \<and> unat mbxl \<le> EC_MAXMBX
     then do {
       let (timer, p) = port_timer_start E timeout (port c);
       ((wkc, SMstat), p) \<leftarrow> wait_mailbox E timer timeout configadr True (0, 0) p;
       let c = c\<lparr>port := p\<rparr>;
       if wkc > 0 \<and> SMstat AND 0x08 > 0
       then do {
         let mbxro = sl_mbx_ro (slavelist c slave);
         ((wkc, SMstat, mbx), c) \<leftarrow> ctx_poll E timer (\<lambda>(wkc, SMstat, mbx) c. do {
            (wkc, mbx, c) \<leftarrow> on_port2 (ecx_FPRD E configadr mbxro mbxl mbx EC_TIMEOUTRET) c;
            (wkc, SMstat, mbx, c) \<leftarrow> mbx_dispatch E EOEhook timer timeout slave configadr wkc SMstat mbx c;
            Some (wkc \<le> 0, (wkc, SMstat, mbx), c) }) (wkc, SMstat, mbx) c;
         Some (wkc, mbx, c) }
       else Some (if wkc > 0 then EC_TIMEOUT else wkc, mbx, c) }
     else Some (0, mbx, c) }"

section \<open>The operations run\<close>

lemma usleep_after:
  "exchange_ok E now p q \<Longrightarrow> exchange_ok E now p (port_usleep E n q)"
  by (rule exchange_ok_trans [OF _ port_usleep_ok [OF exchange_ok_net]])

lemma wait_mailbox_runs:
  assumes "net_ok E now p"
  shows "runs_to (wait_mailbox E timer timeout adr clear s p) (\<lambda>((w, st), p'). exchange_ok E now p p' \<and>
    (w > 0 \<and> st AND 0x08 \<noteq> 0 \<or> expired timer (now (os p'))))"
proof -
  define body where "body = (\<lambda>(wkc :: int, SMstat) p. do {
     (wkc, b, p) \<leftarrow> ecx_FPRD E adr ECT_REG_SM1STAT 2 (var16 (if clear then 0 else SMstat)) EC_TIMEOUTRET p;
     let SMstat = rd16 b 0;
     let p = (if SMstat AND 0x08 = 0 \<and> timeout > int EC_LOCALDELAY then port_usleep E EC_LOCALDELAY p else p);
     Some (wkc \<le> 0 \<or> SMstat AND 0x08 = 0, (wkc, SMstat), p) })"
  have body: "runs_to (body s q) (\<lambda>(b, s', q'). exchange_ok E now q q' \<and> True \<and>
      (b \<or> (case s' of (w, st) \<Rightarrow> w > 0 \<and> st AND 0x08 \<noteq> 0)))" if "net_ok E now q" for s q
  proof -
    obtain wkc SMstat where s: "s = (wkc, SMstat)" by (cases s)
    show ?thesis
      using ecx_FPRD_runs [OF that, of 2 adr ECT_REG_SM1STAT "var16 (if clear then 0 else SMstat)" EC_TIMEOUTRET]
      unfolding body_def s prod.case by (auto simp: Let_def not_le usleep_after elim!: runs_to_mono)
  qed
  have "runs_to (poll E timer body s p) (\<lambda>(s', p'). exchange_ok E now p p' \<and> True \<and>
    ((False \<or> (case s' of (w, st) \<Rightarrow> w > 0 \<and> st AND 0x08 \<noteq> 0)) \<or>
     (True \<or> (case s' of (w, st) \<Rightarrow> w > 0 \<and> st AND 0x08 \<noteq> 0)) \<and> expired timer (now (os p'))))"
    by (rule poll_runs_exit [where P = "\<lambda>_. True", OF assms _ body]) simp
  then show ?thesis
    unfolding wait_mailbox_def body_def [symmetric] by (auto elim!: runs_to_mono)
qed

lemma mbx_repeat_runs:
  assumes "net_ok E now p"
  shows "runs_to (mbx_repeat E timer timeout adr SMstat p) (\<lambda>(st, p'). exchange_ok E now p p' \<and> True)"
proof -
  let ?st = "SMstat XOR 0x0200"
  from ecx_FPWR_runs [OF assms, of 2 adr ECT_REG_SM1STAT "var16 ?st" EC_TIMEOUTRET] obtain w p1 where
    1: "ecx_FPWR E adr ECT_REG_SM1STAT 2 (var16 ?st) EC_TIMEOUTRET p = Some (w, p1)" "exchange_ok E now p p1"
    by (auto simp: runs_to_iff)
  define body where "body = (\<lambda>SMcontr p. do {
        (wkc2, b, p) \<leftarrow> ecx_FPRD E adr ECT_REG_SM1CONTR 1 (var8 SMcontr) EC_TIMEOUTRET p;
        Some (wkc2 \<le> 0 \<or> ucast (b 0) AND 0x02 \<noteq> HI_BYTE ?st AND 0x02, b 0, p) })"
  have body: "runs_to (body s q) (\<lambda>(b, s', q'). exchange_ok E now q q' \<and> True)" if "net_ok E now q" for s q
    using ecx_FPRD_runs [OF that, of 1 adr ECT_REG_SM1CONTR "var8 s" EC_TIMEOUTRET]
    by (auto simp: body_def elim!: runs_to_mono)
  have "runs_to (poll E timer body 0 p1) (\<lambda>(s', p'). exchange_ok E now p1 p' \<and> True)"
    by (rule poll_runs [where P = "\<lambda>_. True", OF exchange_ok_net [OF 1(2)] _ body]) simp
  then obtain s p2 where 2: "poll E timer body 0 p1 = Some (s, p2)" "exchange_ok E now p1 p2"
    by (auto simp: runs_to_iff)
  from wait_mailbox_runs [OF exchange_ok_net [OF 2(2)], of timer timeout adr False "(0, ?st)"] obtain w3 st p3 where
    3: "wait_mailbox E timer timeout adr False (0, ?st) p2 = Some ((w3, st), p3)" "exchange_ok E now p2 p3"
    by (auto simp: runs_to_iff)
  have "exchange_ok E now p p3" using 1(2) 2(2) 3(2) by (blast intro: exchange_ok_trans)
  with 1(1) 2(1) 3(1) show ?thesis
    unfolding mbx_repeat_def Let_def body_def [symmetric] by simp
qed

text \<open>
  What is asked of an application's hook: it returns, keeps the context in order, and leaves the
  mailbox alone when it declines it.
\<close>

definition good_hook :: "'e os_ops \<Rightarrow> ('e \<Rightarrow> nat) \<Rightarrow> 'e eoe_hook \<Rightarrow> bool" where
  "good_hook E now EOEhook \<longleftrightarrow> (\<forall>hook. EOEhook = Some hook \<longrightarrow> (\<forall>slave m c. ctx_ok E now c \<longrightarrow>
     runs_to (hook slave m c) (\<lambda>(r, m', c'). ctx_step E now c c' \<and> (r \<le> 0 \<longrightarrow> m' = m))))"

text \<open>A mailbox that is for the caller: no mailbox error and no emergency.\<close>

definition for_caller :: "buf \<Rightarrow> bool" where
  "for_caller m \<longleftrightarrow> m 5 AND 0x0f \<noteq> 0 \<and> \<not> (m 5 AND 0x0f = ECT_MBXT_COE \<and> drop_bit 12 (rd16 m 6) = 1)"

lemma mbx_dispatch_runs:
  assumes c: "ctx_ok E now c" and h: "good_hook E now hook"
  shows "runs_to (mbx_dispatch E hook timer timeout slave adr wkc SMstat mbx c) (\<lambda>(w, st, m, c').
    ctx_step E now c c' \<and> (w > 0 \<longrightarrow> m = mbx \<and> for_caller mbx))"
proof -
  have r: "runs_to (on_port (mbx_repeat E timer timeout adr SMstat) c) (\<lambda>(x, c'). ctx_step E now c c')"
    using on_port_step [where f = "mbx_repeat E timer timeout adr SMstat" and Q = "\<lambda>_. True",
        OF c mbx_repeat_runs [OF ctx_ok_net [OF c]]] by (auto elim!: runs_to_mono)
  note e = report_steps(2,3) [OF c]
  have k: "runs_to (f slave mbx c) (\<lambda>(r, m', c'). ctx_step E now c c' \<and> (r \<le> 0 \<longrightarrow> m' = mbx))"
    if "hook = Some f" for f using h c that by (auto simp: good_hook_def)
  note s = ctx_step_refl [OF c]
  consider "wkc \<le> 0" | "wkc > 0" "mbx 5 AND 0x0f = 0" | "wkc > 0" "mbx 5 AND 0x0f = ECT_MBXT_COE"
    | "wkc > 0" "mbx 5 AND 0x0f = ECT_MBXT_EOE"
    | "wkc > 0" "mbx 5 AND 0x0f \<noteq> 0" "mbx 5 AND 0x0f \<noteq> ECT_MBXT_COE" "mbx 5 AND 0x0f \<noteq> ECT_MBXT_EOE"
    by fastforce
  then show ?thesis
  proof cases
    case 1 with r show ?thesis by (auto simp: mbx_dispatch_def elim!: runs_to_mono)
  next
    case 2 with e show ?thesis by (auto simp: mbx_dispatch_def elim!: runs_to_mono)
  next
    case 3 with e s show ?thesis by (auto simp: mbx_dispatch_def for_caller_def elim!: runs_to_mono)
  next
    case 4
    then have "for_caller mbx" by (simp add: for_caller_def)
    with 4 s k show ?thesis
      by (cases hook) (auto simp: mbx_dispatch_def Let_def elim!: runs_to_mono)
  next
    case 5
    then have "for_caller mbx" by (simp add: for_caller_def)
    with 5 s show ?thesis by (auto simp: mbx_dispatch_def)
  qed
qed

lemma ctx_poll_runs_exit:
  assumes c: "ctx_ok E now c" and s: "P s"
    and body: "\<And>s c. ctx_ok E now c \<Longrightarrow> P s \<Longrightarrow>
      runs_to (body s c) (\<lambda>(b, s', c'). ctx_step E now c c' \<and> P s' \<and> R b s')"
  shows "runs_to (ctx_poll E timer body s c) (\<lambda>(s', c'). ctx_step E now c c' \<and> P s' \<and>
    (R False s' \<or> R True s' \<and> expired timer (now (os (port c')))))"
  unfolding ctx_poll_def
proof (rule do_while_total [where I = "\<lambda>(s, d). ctx_step E now c d \<and> P s"
      and R = "measure (\<lambda>(s, d). timer_limit timer - now (os (port d)))"], goal_cases)
  case I: (3 a)
  obtain s d where a: "a = (s, d)" by (cases a)
  have d: "ctx_step E now c d" "P s" using I a by simp_all
  from body [OF ctx_step_ok [OF d(1)] d(2)] obtain b s1 d1
    where 1: "body s d = Some (b, s1, d1)" "ctx_step E now d d1" "P s1" "R b s1" by (auto simp: runs_to_iff)
  obtain again p where 2: "and_not_expired E timer b (port d1) = (again, p)" by fastforce
  note ok = ctx_step_ok [OF 1(2)]
  note n = and_not_expired_ok [OF ctx_ok_net [OF ok] 2]
  have "now (os (port d)) \<le> now (os (port d1))" using 1(2) exchange_ok_clock by (auto simp: ctx_step_def)
  then have "again \<Longrightarrow> timer_limit timer - now (os p) < timer_limit timer - now (os (port d))"
    using n(2) by linarith
  moreover have "ctx_step E now c (d1\<lparr>port := p\<rparr>)"
    using d(1) 1(2) ctx_step_port [OF ok n(1)] by (blast intro: ctx_step_trans)
  moreover have "R False s1 \<or> R True s1 \<and> expired timer (now (os p))" if "\<not> again"
    using 1(4) and_not_expired_runs(3) [OF net_ok_os [OF ctx_ok_net [OF ok]] 2 that]
    by (cases b) (auto simp: expired_def)
  ultimately show ?case
    using 1(3) unfolding a prod.case 1(1) 2 Let_def Option.bind.bind_lunit runs_to_simps by simp
qed (use c s ctx_step_refl in auto)

lemma mbx_round_runs:
  assumes c: "ctx_ok E now c" and h: "good_hook E now hook" and l: "unat mbxl \<le> EC_MAXMBX"
  shows "runs_to (do {
      (wkc, mbx, c) \<leftarrow> on_port2 (ecx_FPRD E adr mbxro mbxl mbx EC_TIMEOUTRET) c;
      (wkc, SMstat, mbx, c) \<leftarrow> mbx_dispatch E hook timer timeout slave adr wkc SMstat mbx c;
      Some (wkc \<le> 0, (wkc, SMstat, mbx), c) })
    (\<lambda>(b, (w, st, m), c'). ctx_step E now c c' \<and> b = (w \<le> 0) \<and> (w > 0 \<longrightarrow> for_caller m))"
proof -
  let ?read = "ecx_FPRD E adr mbxro mbxl mbx EC_TIMEOUTRET"
  have "runs_to (?read (port c)) (\<lambda>(w, b, p). exchange_ok E now (port c) p \<and> True)"
    using ecx_FPRD_runs [OF ctx_ok_net [OF c], of mbxl adr mbxro mbx EC_TIMEOUTRET] l
    by (auto elim!: runs_to_mono)
  from on_port2_step [where f = ?read and Q = "\<lambda>_ _. True", OF c this] obtain w m c1 where
    1: "on_port2 ?read c = Some (w, m, c1)" "ctx_step E now c c1" by (auto simp: runs_to_iff)
  from mbx_dispatch_runs [OF ctx_step_ok [OF 1(2)] h, of timer timeout slave adr w SMstat m] obtain w2 st m2 c2 where
    2: "mbx_dispatch E hook timer timeout slave adr w SMstat m c1 = Some (w2, st, m2, c2)" "ctx_step E now c1 c2"
    "w2 > 0 \<longrightarrow> m2 = m \<and> for_caller m" by (auto simp: runs_to_iff)
  have "ctx_step E now c c2" by (rule ctx_step_trans [OF 1(2) 2(2)])
  with 1(1) 2(1,3) show ?thesis by simp
qed

lemma ecx_mbxreceive_runs:
  assumes c: "ctx_ok E now c" and h: "good_hook E now hook" and slave: "slave < maxslave c"
  shows "runs_to (ecx_mbxreceive E hook slave mbx timeout c) (\<lambda>(w, m, c'). ctx_step E now c c' \<and>
    (w > 0 \<longrightarrow> for_caller m) \<and>
    (w \<le> 0 \<longrightarrow> sl_mbx_rl (slavelist c slave) = 0 \<or> unat (sl_mbx_rl (slavelist c slave)) > EC_MAXMBX \<or>
      expired (fst (port_timer_start E timeout (port c))) (now (os (port c')))))"
proof (cases "sl_mbx_rl (slavelist c slave) > 0 \<and> unat (sl_mbx_rl (slavelist c slave)) \<le> EC_MAXMBX")
  case False
  with slave ctx_step_refl [OF c] show ?thesis by (auto simp: ecx_mbxreceive_def Let_def word_gt_0)
next
  case True
  define adr mbxl mbxro where "adr = sl_configadr (slavelist c slave)" and "mbxl = sl_mbx_rl (slavelist c slave)"
    and "mbxro = sl_mbx_ro (slavelist c slave)"
  have l: "unat mbxl \<le> EC_MAXMBX" "mbxl > 0" using True by (simp_all add: mbxl_def)
  obtain timer p0 where t: "port_timer_start E timeout (port c) = (timer, p0)" by fastforce
  have p0: "exchange_ok E now (port c) p0" by (rule port_timer_start_ok [OF ctx_ok_net [OF c] t])
  from wait_mailbox_runs [OF exchange_ok_net [OF p0], of timer timeout adr True "(0, 0)"] obtain w st p1 where
    1: "wait_mailbox E timer timeout adr True (0, 0) p0 = Some ((w, st), p1)" "exchange_ok E now p0 p1"
    "w > 0 \<and> st AND 0x08 \<noteq> 0 \<or> expired timer (now (os p1))" by (auto simp: runs_to_iff)
  have s1: "ctx_step E now c (c\<lparr>port := p1\<rparr>)"
    by (rule ctx_step_port [OF c exchange_ok_trans [OF p0 1(2)]])
  define body where "body = (\<lambda>(wkc :: int, SMstat, mbx) c. do {
            (wkc, mbx, c) \<leftarrow> on_port2 (ecx_FPRD E adr mbxro mbxl mbx EC_TIMEOUTRET) c;
            (wkc, SMstat, mbx, c) \<leftarrow> mbx_dispatch E hook timer timeout slave adr wkc SMstat mbx c;
            Some (wkc \<le> 0, (wkc, SMstat, mbx), c) })"
  have "runs_to (ctx_poll E timer body (w, st, mbx) (c\<lparr>port := p1\<rparr>)) (\<lambda>(s', c'). ctx_step E now (c\<lparr>port := p1\<rparr>) c' \<and> True \<and>
    ((case s' of (w, st, m) \<Rightarrow> False = (w \<le> 0) \<and> (w > 0 \<longrightarrow> for_caller m)) \<or>
     (case s' of (w, st, m) \<Rightarrow> True = (w \<le> 0) \<and> (w > 0 \<longrightarrow> for_caller m)) \<and> expired timer (now (os (port c')))))"
    using mbx_round_runs [OF _ h l(1)]
    by (intro ctx_poll_runs_exit [OF ctx_step_ok [OF s1]]) (auto simp: body_def elim!: runs_to_mono)
  then obtain w2 st2 m c2 where
    2: "ctx_poll E timer body (w, st, mbx) (c\<lparr>port := p1\<rparr>) = Some ((w2, st2, m), c2)"
    "ctx_step E now (c\<lparr>port := p1\<rparr>) c2" "w2 > 0 \<longrightarrow> for_caller m" "w2 \<le> 0 \<longrightarrow> expired timer (now (os (port c2)))"
    by (auto simp: runs_to_iff)
  have s2: "ctx_step E now c c2" by (rule ctx_step_trans [OF s1 2(2)])
  have "ecx_mbxreceive E hook slave mbx timeout c = (if w > 0 \<and> st AND 0x08 > 0 then Some (w2, m, c2)
      else Some (if w > 0 then EC_TIMEOUT else w, mbx, c\<lparr>port := p1\<rparr>))"
    unfolding ecx_mbxreceive_def Let_def adr_def [symmetric] mbxl_def [symmetric] t prod.case
    using slave l 1(1) 2(1) by (simp add: mbxro_def body_def)
  then show ?thesis
    using s1 s2 1(3) 2(3,4) t by (auto simp: word_gt_0 split: if_splits)
qed

lemma ecx_mbxempty_runs:
  assumes c: "ctx_ok E now c" and slave: "slave < maxslave c"
  shows "runs_to (ecx_mbxempty E slave timeout c) (\<lambda>(x, c'). ctx_step E now c c' \<and>
    (x = 1 \<or> x = 0 \<and> expired (fst (port_timer_start E timeout (port c))) (now (os (port c')))))"
proof -
  define adr where "adr = sl_configadr (slavelist c slave)"
  obtain timer p0 where t: "port_timer_start E timeout (port c) = (timer, p0)" by fastforce
  have p0: "exchange_ok E now (port c) p0" by (rule port_timer_start_ok [OF ctx_ok_net [OF c] t])
  define body where "body = (\<lambda>(wkc :: int, SMstat :: u8) p. do {
        (wkc, b, p) \<leftarrow> ecx_FPRD E adr ECT_REG_SM0STAT 1 (var8 0) EC_TIMEOUTRET p;
        let SMstat = b 0;
        let p = (if SMstat AND 0x08 \<noteq> 0 \<and> timeout > int EC_LOCALDELAY then port_usleep E EC_LOCALDELAY p else p);
        Some (wkc \<le> 0 \<or> SMstat AND 0x08 \<noteq> 0, (wkc, SMstat), p) })"
  have body: "runs_to (body s q) (\<lambda>(b, s', q'). exchange_ok E now q q' \<and> True \<and>
      (b \<or> (case s' of (w, st) \<Rightarrow> w > 0 \<and> st AND 0x08 = 0)))" if "net_ok E now q" for s q
    using ecx_FPRD_runs [OF that, of 1 adr ECT_REG_SM0STAT "var8 0" EC_TIMEOUTRET]
    by (cases s) (auto simp: body_def Let_def not_le usleep_after elim!: runs_to_mono)
  have "runs_to (poll E timer body (0, 0) p0) (\<lambda>(s', p'). exchange_ok E now p0 p' \<and> True \<and>
    ((False \<or> (case s' of (w, st) \<Rightarrow> w > 0 \<and> st AND 0x08 = 0)) \<or>
     (True \<or> (case s' of (w, st) \<Rightarrow> w > 0 \<and> st AND 0x08 = 0)) \<and> expired timer (now (os p'))))"
    by (rule poll_runs_exit [where P = "\<lambda>_. True", OF exchange_ok_net [OF p0] _ body]) simp
  then obtain w st p1 where 1: "poll E timer body (0, 0) p0 = Some ((w, st), p1)" "exchange_ok E now p0 p1"
    "w > 0 \<and> st AND 0x08 = 0 \<or> expired timer (now (os p1))" by (auto simp: runs_to_iff)
  have "ctx_step E now c (c\<lparr>port := p1\<rparr>)" by (rule ctx_step_port [OF c exchange_ok_trans [OF p0 1(2)]])
  moreover have "ecx_mbxempty E slave timeout c = Some (if w > 0 \<and> st AND 0x08 = 0 then 1 else 0, c\<lparr>port := p1\<rparr>)"
    unfolding ecx_mbxempty_def adr_def [symmetric] t prod.case using slave 1(1) by (simp add: body_def) (simp add: Let_def)
  ultimately show ?thesis using 1(3) t by auto
qed

lemma ecx_mbxsend_runs:
  assumes c: "ctx_ok E now c" and slave: "slave < maxslave c"
  shows "runs_to (ecx_mbxsend E slave mbx timeout c) (\<lambda>(w, c'). ctx_step E now c c')"
proof -
  let ?l = "sl_mbx_l (slavelist c slave)"
  have send: "runs_to (on_port (ecx_FPWR E adr wo ?l mbx EC_TIMEOUTRET3) c1) (\<lambda>(w, c'). ctx_step E now c c')"
    if "ctx_step E now c c1" "unat ?l \<le> EC_MAXMBX" for adr wo c1
    using on_port_step [where f = "ecx_FPWR E adr wo ?l mbx EC_TIMEOUTRET3" and Q = "\<lambda>_. True",
        OF ctx_step_ok [OF that(1)]] ecx_FPWR_runs [OF ctx_ok_net [OF ctx_step_ok [OF that(1)]], of ?l] that
    by (auto elim!: runs_to_mono intro: ctx_step_trans)
  show ?thesis
    using ecx_mbxempty_runs [OF c slave, of timeout] slave ctx_step_refl [OF c] send
    by (auto simp: ecx_mbxsend_def Let_def elim!: runs_to_mono)
qed

lemma timed_push:
  assumes "ctx_ok E now c"
  shows "runs_to (do { let (t, c) = ctx_time E c; ecx_pusherror (e t) c })
    (\<lambda>c'. \<exists>t. ring_list (elist c') = newest 64 (ring_list (elist c) @ [(e t)\<lparr>err_Signal := True\<rparr>]))"
proof -
  obtain t c1 where 1: "ctx_time E c = (t, c1)" by fastforce
  note s = ctx_time_step [OF assms 1]
  then have "ctx_ok E now c1" by (blast intro: ctx_step_ok)
  from ecx_pusherror_step [OF this, of "e t"] show ?thesis
    using s 1 by (auto elim!: runs_to_mono)
qed

section \<open>Properties\<close>

text \<open>
  From any counter value a mailbox can have (0 to 7), the next seven counters are 1 to 7, each
  once: the reserved value 0 is never used again and a repeated counter means a repeated message.
\<close>

theorem ec_nextmbxcnt_cycle:
  assumes "cnt \<le> 7"
  shows "distinct (map (\<lambda>k. (ec_nextmbxcnt ^^ k) cnt) [1..<8]) \<and>
    set (map (\<lambda>k. (ec_nextmbxcnt ^^ k) cnt) [1..<8]) = {1, 2, 3, 4, 5, 6, 7}"
proof -
  have "unat cnt \<le> 7" using assms by (simp add: word_le_nat_alt)
  then have "(of_nat (unat cnt) :: u8) \<in> of_nat ` {0..<8}" by (intro imageI) simp
  then have "cnt \<in> set (map of_nat [0..<8])" by simp
  moreover have "\<forall>cnt \<in> set (map of_nat [0..<8]). distinct (map (\<lambda>k. (ec_nextmbxcnt ^^ k) cnt) [1..<8]) \<and>
    set (map (\<lambda>k. (ec_nextmbxcnt ^^ k) cnt) [1..<8]) = {1, 2, 3, 4, 5, 6, 7}"
    by code_simp
  ultimately show ?thesis by blast
qed

theorem ec_nextmbxcnt_cycle_witness:
  "set (map (\<lambda>k. (ec_nextmbxcnt ^^ k) 5) [1..<8]) = {1, 2, 3, 4, 5, 6, 7}"
  using ec_nextmbxcnt_cycle [of 5] by simp

text \<open>
  C16: \<open>ecx_mbxreceive\<close> always returns, whatever the network and the slave do, with the context in
  order. A positive working counter comes with a mailbox that is for the caller: mailbox errors and
  emergencies never cascade up. Without one, the slave has no usable read mailbox or the deadline has
  passed.
\<close>

theorem ecx_mbxreceive_for_caller:
  assumes "ctx_ok E now c" "good_hook E now hook" "slave < maxslave c"
  shows "\<exists>w m c'. ecx_mbxreceive E hook slave mbx timeout c = Some (w, m, c') \<and> ctx_step E now c c' \<and>
    (w > 0 \<longrightarrow> for_caller m) \<and>
    (w \<le> 0 \<longrightarrow> sl_mbx_rl (slavelist c slave) = 0 \<or> unat (sl_mbx_rl (slavelist c slave)) > EC_MAXMBX \<or>
      expired (fst (port_timer_start E timeout (port c))) (now (os (port c'))))"
  using ecx_mbxreceive_runs [OF assms, of mbx timeout] by (auto simp: runs_to_iff)

text \<open>
  A mailbox error or an emergency that is read goes to the error list, with the slave and the
  code it carries, and is not passed on: the working counter becomes 0.
\<close>

theorem mbx_error_recorded:
  assumes "ctx_ok E now c" "wkc > 0" "\<not> for_caller mbx"
  shows "\<exists>c' e. mbx_dispatch E hook timer timeout slave adr wkc SMstat mbx c = Some (0, SMstat, mbx, c') \<and>
    ring_list (elist c') = newest 64 (ring_list (elist c) @ [e]) \<and>
    err_Slave e = of_nat slave \<and> err_ErrorCode e = rd16 mbx 8 \<and> err_Signal e \<and>
    err_Etype e = (if mbx 5 AND 0x0f = 0 then EC_ERR_TYPE_MBX_ERROR else EC_ERR_TYPE_EMERGENCY)"
proof (cases "mbx 5 AND 0x0f = 0")
  case True
  let ?e = "\<lambda>t. zero_err\<lparr>err_Time := t, err_Slave := of_nat slave, err_Index := 0, err_SubIdx := 0, err_Etype := EC_ERR_TYPE_MBX_ERROR,
    err_ErrorCode := rd16 mbx 8\<rparr>"
  from timed_push [OF assms(1), of ?e] obtain c' t where
    "ecx_mbxerror E (of_nat slave) (rd16 mbx 8) c = Some c'"
    "ring_list (elist c') = newest 64 (ring_list (elist c) @ [(?e t)\<lparr>err_Signal := True\<rparr>])"
    by (auto simp: runs_to_iff ecx_mbxerror_def)
  then show ?thesis using True assms(2)
    by (intro exI [of _ c'] exI [of _ "(?e t)\<lparr>err_Signal := True\<rparr>"]) (simp add: mbx_dispatch_def)
next
  case False
  let ?e = "\<lambda>t. zero_err\<lparr>err_Time := t, err_Slave := of_nat slave, err_Index := 0, err_SubIdx := 0, err_Etype := EC_ERR_TYPE_EMERGENCY,
    err_ErrorCode := rd16 mbx 8, err_ErrorReg := ucast (ucast (mbx 10) :: u16), err_b1 := mbx 11,
    err_w1 := rd16 mbx 12, err_w2 := rd16 mbx 14\<rparr>"
  from timed_push [OF assms(1), of ?e] obtain c' t where
    "ecx_mbxemergencyerror E (of_nat slave) (rd16 mbx 8) (ucast (mbx 10)) (mbx 11) (rd16 mbx 12) (rd16 mbx 14) c = Some c'"
    "ring_list (elist c') = newest 64 (ring_list (elist c) @ [(?e t)\<lparr>err_Signal := True\<rparr>])"
    by (auto simp: runs_to_iff ecx_mbxemergencyerror_def)
  moreover have "mbx 5 AND 0x0f = ECT_MBXT_COE" "drop_bit 12 (rd16 mbx 6) = 1"
    using False assms(3) by (simp_all add: for_caller_def)
  ultimately show ?thesis using assms(2)
    by (intro exI [of _ c'] exI [of _ "(?e t)\<lparr>err_Signal := True\<rparr>"]) (simp add: mbx_dispatch_def)
qed

text \<open>
  \<open>ecx_mbxsend\<close> always returns; a slave whose mailbox length is 0 or more than the buffer gets
  nothing, and the result is 0.
\<close>

theorem ecx_mbxsend_returns:
  assumes "ctx_ok E now c" "slave < maxslave c"
  shows "\<exists>w c'. ecx_mbxsend E slave mbx timeout c = Some (w, c') \<and> ctx_step E now c c' \<and>
    (sl_mbx_l (slavelist c slave) = 0 \<or> unat (sl_mbx_l (slavelist c slave)) > EC_MAXMBX \<longrightarrow> w = 0 \<and> c' = c)"
  using ecx_mbxsend_runs [OF assms, of mbx timeout] assms(2)
  by (auto simp: runs_to_iff ecx_mbxsend_def Let_def)

section \<open>Examples\<close>

text \<open>Two slaves whose mailboxes have 128 bytes.\<close>

definition mbx_ctx :: "(nat \<times> u8 list list) ecx_contextt" where
  "mbx_ctx = upd_slave 1 (\<lambda>s. s\<lparr>sl_mbx_l := 128, sl_mbx_rl := 128\<rparr>) (idle_ctx 2 (5, []))"

lemma mbx_ctx_ok: "ctx_ok script_os (\<lambda>(t, q). t * 1000) mbx_ctx" "maxslave mbx_ctx = EC_MAXSLAVE"
  using idle_ctx_ok [of 2 "(5, [])"] by (simp_all add: mbx_ctx_def ctx_ok_def)

lemma mbx_ctx_ring: "ring_list (elist mbx_ctx) = []"
  by (simp only: mbx_ctx_def upd_slave_fields idle_ring)

theorem ecx_mbxreceive_for_caller_witness:
  "\<exists>w m c'. ecx_mbxreceive script_os None 1 zero_buf 500 mbx_ctx = Some (w, m, c') \<and> (w > 0 \<longrightarrow> for_caller m)"
  using ecx_mbxreceive_for_caller [where hook = None and slave = 1 and mbx = zero_buf and timeout = 500, OF mbx_ctx_ok(1)] mbx_ctx_ok(2)
  by (fastforce simp: good_hook_def)

theorem mbx_error_recorded_witness:
  "\<exists>c' e. mbx_dispatch script_os None \<lparr>tm_sec = 0, tm_usec = 0\<rparr> 500 1 0x1001 1 8 (wr16 zero_buf 8 0x0102) mbx_ctx =
     Some (0, 8, wr16 zero_buf 8 0x0102, c') \<and> ring_list (elist c') = newest 64 [e] \<and> err_ErrorCode e = 0x0102"
  using mbx_error_recorded [where wkc = 1 and mbx = "wr16 zero_buf 8 0x0102" and hook = None and timer = "\<lparr>tm_sec = 0, tm_usec = 0\<rparr>"
      and timeout = 500 and slave = 1 and adr = "0x1001" and SMstat = 8, OF mbx_ctx_ok(1)]
  by (auto simp: for_caller_def put_le_apply zero_buf_def mbx_ctx_ring)

theorem ecx_mbxsend_returns_witness:
  "\<exists>w c'. ecx_mbxsend script_os 1 zero_buf 500 mbx_ctx = Some (w, c')"
  using ecx_mbxsend_returns [OF mbx_ctx_ok(1), of 1 zero_buf 500] mbx_ctx_ok(2) by auto

end
