(* ===== verification/ProcessData.thy ===== *)
theory ProcessData
  imports Mailbox
begin

text \<open>
  The cyclic exchange of process data (\<open>soem/ethercatmain.c\<close>): the image of a group is sent in
  segments, one frame for each, and every frame is recorded on a stack with the place its data belongs
  to; receiving works through that stack. Process data is addressed by offsets in \<open>IOmap\<close>. The integer
  \<open>length\<close> of the source stays far from its limits.
\<close>

section \<open>The stack of frames under way\<close>

definition ecx_pushindex :: "nat \<Rightarrow> nat option \<Rightarrow> u16 \<Rightarrow> nat \<Rightarrow> 'e ecx_contextt \<Rightarrow> 'e ecx_contextt" where
  "ecx_pushindex idx data len DCO c = (let s = idxstack c in
     if pushed s < EC_MAXBUF
     then c\<lparr>idxstack := s\<lparr>ix_idx := (ix_idx s)(pushed s := idx), ix_data := (ix_data s)(pushed s := data),
            ix_length := (ix_length s)(pushed s := len), ix_dcoffset := (ix_dcoffset s)(pushed s := DCO),
            pushed := pushed s + 1\<rparr>\<rparr>
     else c)"

definition ecx_pullindex :: "'e ecx_contextt \<Rightarrow> int \<times> 'e ecx_contextt" where
  "ecx_pullindex c = (let s = idxstack c in
     if pulled s < pushed s then (int (pulled s), c\<lparr>idxstack := s\<lparr>pulled := pulled s + 1\<rparr>\<rparr>) else (- 1, c))"

definition ecx_clearindex :: "'e ecx_contextt \<Rightarrow> 'e ecx_contextt" where
  "ecx_clearindex c = c\<lparr>idxstack := (idxstack c)\<lparr>pushed := 0, pulled := 0\<rparr>\<rparr>"

section \<open>Sending\<close>

text \<open>One round of a segment loop: a frame with the data at \<open>data\<close>, recorded for \<open>store\<close>.\<close>

definition send_segment :: "'e os_ops \<Rightarrow> nat \<Rightarrow> u8 \<Rightarrow> bool \<Rightarrow> u32 \<Rightarrow> u16 \<Rightarrow> nat \<Rightarrow> nat \<Rightarrow> 'e ecx_contextt \<Rightarrow>
    'e ecx_contextt option" where
  "send_segment E grp com first LogAdr sublength data store c = do {
     (idx, p) \<leftarrow> ecx_getindex (port c);
     p \<leftarrow> setup_tx com idx (LO_WORD LogAdr) (HI_WORD LogAdr) sublength (\<lambda>i. IOmap c (data + i)) p;
     (DCO, p) \<leftarrow> (if first
       then add_tx EC_CMD_FRMW idx False (sl_configadr (slavelist c (unat (gr_DCnext (grouplist c grp)))))
              ECT_REG_DCSYSTIME 8 (var64 (DCtime c)) p
       else Some (0, p));
     (_, p) \<leftarrow> ecx_outframe_red E idx p;
     Some (ecx_pushindex idx (Some store) sublength DCO (c\<lparr>port := p\<rparr>)) }"

text \<open>
  The segment loop: \<open>sub\<close> gives the length of a segment from its number and the length that is left;
  the data of the answer is stored \<open>off\<close> bytes behind the data sent.
\<close>

definition send_segments :: "'e os_ops \<Rightarrow> nat \<Rightarrow> u8 \<Rightarrow> (nat \<Rightarrow> int \<Rightarrow> u16) \<Rightarrow> nat \<Rightarrow>
    nat \<times> int \<times> u32 \<times> nat \<times> bool \<times> 'e ecx_contextt \<Rightarrow>
    (nat \<times> int \<times> u32 \<times> nat \<times> bool \<times> 'e ecx_contextt) option" where
  "send_segments E grp com sub off = do_while (\<lambda>(currentsegment, len, LogAdr, data, first, c). do {
     chk (currentsegment < EC_MAXIOSEGMENTS);
     let sublength = sub currentsegment len;
     c \<leftarrow> send_segment E grp com first LogAdr sublength data (data + off) c;
     let len = len - uint sublength;
     Some ((currentsegment + 1, len, LogAdr + ucast sublength, data + unat sublength, False, c),
       len \<noteq> 0 \<and> currentsegment + 1 < unat (gr_nsegments (grouplist c grp))) })"

text \<open>
  The length of segment \<open>k\<close> when only inputs are read (the first input segment may begin with outputs)
  and when only outputs are written (the last one may end with inputs); \<open>left\<close> bytes are to be sent.
\<close>

definition lrd_length :: "ec_groupt \<Rightarrow> nat \<Rightarrow> int \<Rightarrow> u16" where
  "lrd_length g k left = (if k = unat (gr_Isegment g) then ucast (gr_IOsegment g k - ucast (gr_Ioffset g))
     else ucast (gr_IOsegment g k))"

definition lwr_length :: "ec_groupt \<Rightarrow> nat \<Rightarrow> int \<Rightarrow> u16" where
  "lwr_length g k left = (if left - uint (ucast (gr_IOsegment g k) :: u16) < 0 then word_of_int left
     else ucast (gr_IOsegment g k))"

definition ecx_main_send_processdata :: "'e os_ops \<Rightarrow> nat \<Rightarrow> bool \<Rightarrow> 'e ecx_contextt \<Rightarrow>
    (int \<times> 'e ecx_contextt) option" where
  "ecx_main_send_processdata E grp use_overlap_io c = do {
     chk (grp < maxgroup c);
     let g = grouplist c grp;
     let first = gr_hasdc g;
     let (len, iomapinputoffset) = (if use_overlap_io
       then (sint (max (gr_Obytes g) (gr_Ibytes g)), unat (gr_Obytes g))
       else (sint (gr_Obytes g + gr_Ibytes g), 0));
     let LogAdr = gr_logstartaddr g;
     if len = 0 then Some (0, c)
     else if gr_blockLRW g \<noteq> 0
     then do {
       (first, c) \<leftarrow> (if gr_Ibytes g \<noteq> 0
         then do {
           inputs \<leftarrow> gr_inputs g;
           let Isegment = unat (gr_Isegment g);
           (_, _, _, _, first, c) \<leftarrow> send_segments E grp EC_CMD_LRD
             (lrd_length g) 0
             (Isegment, sint (gr_Ibytes g), LogAdr + gr_Obytes g, inputs, first, c);
           Some (first, c) }
         else Some (first, c));
       if gr_Obytes g \<noteq> 0
       then do {
         outputs \<leftarrow> gr_outputs g;
         (_, _, _, _, _, c) \<leftarrow> send_segments E grp EC_CMD_LWR
           (lwr_length g) 0
           (0, sint (gr_Obytes g), gr_logstartaddr g, outputs, first, c);
         Some (1, c) }
       else Some (1, c) }
     else do {
       (data, off) \<leftarrow> (if gr_Obytes g \<noteq> 0 then do { d \<leftarrow> gr_outputs g; Some (d, iomapinputoffset) }
         else do { d \<leftarrow> gr_inputs g; Some (d, 0) });
       (_, _, _, _, _, c) \<leftarrow> send_segments E grp EC_CMD_LRW (\<lambda>k _. ucast (gr_IOsegment g k)) off
         (0, len, LogAdr, data, first, c);
       Some (1, c) } }"

definition ecx_send_overlap_processdata_group :: "'e os_ops \<Rightarrow> nat \<Rightarrow> 'e ecx_contextt \<Rightarrow> (int \<times> 'e ecx_contextt) option" where
  "ecx_send_overlap_processdata_group E grp c = ecx_main_send_processdata E grp True c"

definition ecx_send_processdata_group :: "'e os_ops \<Rightarrow> nat \<Rightarrow> 'e ecx_contextt \<Rightarrow> (int \<times> 'e ecx_contextt) option" where
  "ecx_send_processdata_group E grp c = ecx_main_send_processdata E grp False c"

definition ecx_send_processdata :: "'e os_ops \<Rightarrow> 'e ecx_contextt \<Rightarrow> (int \<times> 'e ecx_contextt) option" where
  "ecx_send_processdata E c = ecx_send_processdata_group E 0 c"

definition ecx_send_overlap_processdata :: "'e os_ops \<Rightarrow> 'e ecx_contextt \<Rightarrow> (int \<times> 'e ecx_contextt) option" where
  "ecx_send_overlap_processdata E c = ecx_send_overlap_processdata_group E 0 c"

section \<open>Receiving\<close>

text \<open>
  What is done with the frame of stack entry \<open>pos\<close> once it has come in: \<open>wkc\<close> is the working counter
  so far, \<open>wkc2\<close> that of the frame.
\<close>

definition receive_frame :: "nat \<Rightarrow> int \<Rightarrow> int \<Rightarrow> bool \<Rightarrow> 'e ecx_contextt \<Rightarrow> (int \<times> bool \<times> 'e ecx_contextt) option" where
  "receive_frame pos wkc2 wkc valid_wkc c = (let
     s = idxstack c;
     rb = rxbuf (port c) (ix_idx s pos);
     n = unat (ix_length s pos);
     dco = ix_dcoffset s pos
   in if wkc2 > EC_NOFRAME
      then (if rb EC_CMDOFFSET = EC_CMD_LRD \<or> rb EC_CMDOFFSET = EC_CMD_LRW
            then do {
              data \<leftarrow> ix_data s pos;
              chk (EC_HEADERSIZE + n \<le> EC_BUFSIZE);
              let c = c\<lparr>IOmap := memcpy (IOmap c) data rb EC_HEADERSIZE n\<rparr>;
              if dco > 0
              then do {
                chk (EC_HEADERSIZE + n + 2 \<le> EC_BUFSIZE \<and> dco + 8 \<le> EC_BUFSIZE);
                Some (uint (rd16 rb (EC_HEADERSIZE + n)), True, c\<lparr>DCtime := rd64 rb dco\<rparr>) }
              else Some (wkc + wkc2, True, c) }
            else if rb EC_CMDOFFSET = EC_CMD_LWR
            then (if dco > 0
              then do {
                chk (EC_HEADERSIZE + n + 2 \<le> EC_BUFSIZE \<and> dco + 8 \<le> EC_BUFSIZE);
                Some (uint (rd16 rb (EC_HEADERSIZE + n)) * 2, True, c\<lparr>DCtime := rd64 rb dco\<rparr>) }
              else Some (wkc + wkc2 * 2, True, c))
            else Some (wkc, valid_wkc, c))
      else Some (wkc, valid_wkc, c))"

definition receive_round :: "'e os_ops \<Rightarrow> int \<Rightarrow> int \<times> int \<times> bool \<times> 'e ecx_contextt \<Rightarrow>
    (int \<times> int \<times> bool \<times> 'e ecx_contextt) option" where
  "receive_round E timeout = (\<lambda>(pos, wkc, valid_wkc, c). do {
     let idx = ix_idx (idxstack c) (nat pos);
     (wkc2, c) \<leftarrow> on_port (ecx_waitinframe E idx timeout) c;
     (wkc, valid_wkc, c) \<leftarrow> receive_frame (nat pos) wkc2 wkc valid_wkc c;
     p \<leftarrow> ecx_setbufstat idx EC_BUF_EMPTY (port c);
     let (pos, c) = ecx_pullindex (c\<lparr>port := p\<rparr>);
     Some (pos, wkc, valid_wkc, c) })"

definition ecx_receive_processdata_group :: "'e os_ops \<Rightarrow> nat \<Rightarrow> int \<Rightarrow> 'e ecx_contextt \<Rightarrow>
    (int \<times> 'e ecx_contextt) option" where
  "ecx_receive_processdata_group E grp timeout c = do {
     let (pos, c) = ecx_pullindex c;
     (_, wkc, valid_wkc, c) \<leftarrow> while_do (\<lambda>(pos, _). pos \<ge> 0) (receive_round E timeout) (pos, 0, False, c);
     let c = ecx_clearindex c;
     Some (if valid_wkc then wkc else EC_NOFRAME, c) }"

definition ecx_receive_processdata :: "'e os_ops \<Rightarrow> int \<Rightarrow> 'e ecx_contextt \<Rightarrow> (int \<times> 'e ecx_contextt) option" where
  "ecx_receive_processdata E timeout c = ecx_receive_processdata_group E 0 timeout c"

section \<open>Sending one segment\<close>

lemma ecx_getindex_tx: "ecx_getindex p = Some (i, p') \<Longrightarrow> txbuflength p' = txbuflength p"
  by (auto simp: ecx_getindex_def ecx_setbufstat_def Let_def bind_eq_Some_conv split: if_splits option.splits)

lemma setup_tx_len: "setup_tx com idx ADP ADO len data p = Some p' \<Longrightarrow> i \<noteq> idx \<Longrightarrow> txbuflength p' i = txbuflength p i"
  by (auto simp: setup_tx_def ecx_setupdatagram_def Let_def bind_eq_Some_conv)

lemma add_tx_len: "add_tx com idx fl ADP ADO len data p = Some (off, p') \<Longrightarrow> i \<noteq> idx \<Longrightarrow> txbuflength p' i = txbuflength p i"
  by (auto simp: add_tx_def ecx_adddatagram_def Let_def bind_eq_Some_conv)

lemma ecx_outframe_txbuf: "ecx_outframe E idx s p = Some (r, p') \<Longrightarrow> txbuf p' = txbuf p"
  by (auto simp: ecx_outframe_def Let_def bind_eq_Some_conv split_beta)

lemma ecx_outframe_red_txbuf:
  "ecx_outframe_red E idx p = Some (r, p') \<Longrightarrow> txbuf p' idx = wr16 (txbuf p idx) 8 (htons RX_PRIM)"
  by (auto simp: ecx_outframe_red_def Let_def bind_eq_Some_conv ecx_outframe_txbuf split: prod.splits if_splits option.splits)

lemma carries_outframe:
  assumes "carries (txbuf p idx) 16 ds" "ecx_outframe_red E idx p = Some (r, p')"
  shows "carries (txbuf p' idx) 16 ds"
proof -
  have "carries (txbuf p' idx) 16 ds = carries (txbuf p idx) 16 ds"
    unfolding ecx_outframe_red_txbuf [OF assms(2)] by (rule carries_cong) (simp add: put_le_apply)
  with assms(1) show ?thesis by simp
qed

text \<open>The datagrams of a segment: the logical one and, in the first frame, the distributed clock.\<close>

definition segment_dgrams :: "'e ecx_contextt \<Rightarrow> nat \<Rightarrow> u8 \<Rightarrow> bool \<Rightarrow> u32 \<Rightarrow> u16 \<Rightarrow> nat \<Rightarrow> nat \<Rightarrow> dgram list" where
  "segment_dgrams c grp com first LogAdr sublength data idx =
     tx_dgram com idx (LO_WORD LogAdr) (HI_WORD LogAdr) sublength (\<lambda>i. IOmap c (data + i)) #
     (if first then [tx_dgram EC_CMD_FRMW idx (sl_configadr (slavelist c (unat (gr_DCnext (grouplist c grp)))))
        ECT_REG_DCSYSTIME 8 (var64 (DCtime c))] else [])"

lemma send_segment_runs:
  assumes net: "net_ok E now (port c)" and fit: "unat sublength + (if first then 48 else 28) \<le> EC_BUFSIZE"
  shows "runs_to (send_segment E grp com first LogAdr sublength data store c) (\<lambda>c'. \<exists>idx DCO p.
    c' = ecx_pushindex idx (Some store) sublength DCO (c\<lparr>port := p\<rparr>) \<and> net_ok E now p \<and> port_step now (port c) p \<and>
    frame_ready idx p \<and> (\<forall>i. frame_ready i (port c) \<longrightarrow> frame_ready i p) \<and>
    (\<forall>j. in_use p j \<longrightarrow> in_use (port c) j \<or> j = idx) \<and> DCO + 8 \<le> EC_BUFSIZE \<and>
    DCO = (if first then 24 + unat sublength else 0) \<and>
    parse_dgrams 125 (txbuf p idx) 16 = segment_dgrams c grp com first LogAdr sublength data idx)"
proof -
  from nic.getindex_law [OF net] obtain idx p1 where
    1: "ecx_getindex (port c) = Some (idx, p1)" "net_ok E now p1" "port_step now (port c) p1" "idx < EC_MAXBUF"
    "in_use p1 = (in_use (port c))(idx := True)" by (auto simp: runs_to_iff)
  let ?img = "\<lambda>i. IOmap c (data + i)"
  let ?d = "tx_dgram com idx (LO_WORD LogAdr) (HI_WORD LogAdr) sublength ?img"
  let ?dc = "sl_configadr (slavelist c (unat (gr_DCnext (grouplist c grp))))"
  have "28 + unat sublength \<le> EC_BUFSIZE" using fit by (simp split: if_splits)
  from setup_tx_runs [OF 1(4) this, of com "LO_WORD LogAdr" "HI_WORD LogAdr" ?img p1] obtain p2 where
    2: "setup_tx com idx (LO_WORD LogAdr) (HI_WORD LogAdr) sublength ?img p1 = Some p2" "tx_step p1 p2"
    "tx_carries idx p2 [(?d, False)]" by (auto simp: runs_to_iff)
  define add where "add = (if first then add_tx EC_CMD_FRMW idx False ?dc ECT_REG_DCSYSTIME 8 (var64 (DCtime c)) p2
    else Some (0, p2))"
  define ds where "ds = (if first then [(?d, True), (tx_dgram EC_CMD_FRMW idx ?dc ECT_REG_DCSYSTIME 8 (var64 (DCtime c)), False)]
    else [(?d, False)])"
  have len: "txbuflength p2 idx = 28 + unat sublength" using 2(3) by (simp add: tx_carries_def)
  have "\<exists>DCO p3. add = Some (DCO, p3) \<and> tx_step p2 p3 \<and> DCO = (if first then 24 + unat sublength else 0) \<and>
      tx_carries idx p3 ds"
  proof (cases first)
    case True
    have "txbuflength p2 idx + 12 + unat (8 :: u16) \<le> EC_BUFSIZE" using fit True len by simp
    from add_tx_runs [OF 2(3) this, of EC_CMD_FRMW False ?dc ECT_REG_DCSYSTIME "var64 (DCtime c)"]
    show ?thesis using True by (auto simp: runs_to_iff add_def ds_def len)
  qed (use 2 in \<open>simp add: add_def ds_def tx_step_def\<close>)
  then obtain DCO p3 where 3: "add = Some (DCO, p3)" "tx_step p2 p3" "DCO = (if first then 24 + unat sublength else 0)"
    "tx_carries idx p3 ds" by blast
  have step: "tx_step p1 p3" by (rule tx_step_trans [OF 2(2) 3(2)])
  have rdy: "frame_ready idx p3" using 3(4) by (simp add: tx_carries_def)
  have ok3: "good_os E now" "port_ok p3" using 1(2) step by (simp_all add: net_ok_def tx_step_def)
  have use3: "in_use p3 = in_use p1" using step by (simp add: in_use_def tx_step_def fun_eq_iff)
  from ecx_outframe_red_runs [OF ok3 rdy] obtain r p4 where
    4: "ecx_outframe_red E idx p3 = Some (r, p4)" "nic_step now idx p3 p4" by (auto simp: runs_to_iff)
  have "txbuflength p3 i = txbuflength (port c) i" if "i \<noteq> idx" for i
  proof -
    have "txbuflength p3 i = txbuflength p2 i"
      using 3(1) that by (cases first) (auto simp: add_def dest: add_tx_len)
    then show ?thesis using ecx_getindex_tx [OF 1(1)] setup_tx_len [OF 2(1) that] by simp
  qed
  then have ready: "frame_ready i p4" if "frame_ready i (port c)" for i
    using that rdy nic_step_ready [OF 4(2), of i] by (cases "i = idx") (simp_all add: frame_ready_def)
  have "carries (txbuf p4 idx) 16 ds" using carries_outframe [OF _ 4(1)] 3(4) by (simp add: tx_carries_def)
  then have "carries (txbuf p4 idx) 16 (map (\<lambda>d. (d, True)) (if first then [?d] else []) @
      [(if first then tx_dgram EC_CMD_FRMW idx ?dc ECT_REG_DCSYSTIME 8 (var64 (DCtime c)) else ?d, False)])"
    by (simp add: ds_def split: if_splits)
  from parse_carries [OF this, of 125] have frame: "parse_dgrams 125 (txbuf p4 idx) 16 =
      segment_dgrams c grp com first LogAdr sublength data idx"
    by (simp add: segment_dgrams_def split: if_splits)
  have use4: "\<forall>j. in_use p4 j \<longrightarrow> in_use (port c) j \<or> j = idx"
    using nic_step_in_use [OF 4(2)] use3 1(5) by auto
  have "port_step now (port c) p4"
    using 1(3) tx_step_port_step [OF step] nic_step_port_step [OF 4(2)] by (blast intro: port_step_trans)
  moreover have "net_ok E now p4" using nic_step_ok [OF 4(2) ok3(2)] ok3(1) by (simp add: net_ok_def)
  moreover have "frame_ready idx p4" using nic_step_ready [OF 4(2)] rdy by simp
  moreover have "DCO + 8 \<le> EC_BUFSIZE" using 3(3) fit by (simp split: if_splits)
  moreover have "send_segment E grp com first LogAdr sublength data store c =
      Some (ecx_pushindex idx (Some store) sublength DCO (c\<lparr>port := p4\<rparr>))"
    using 1(1) 2(1) 3(1) 4(1) by (simp add: send_segment_def add_def [symmetric])
  ultimately show ?thesis
    using ready frame use4 3(3)
    by (simp only: runs_to_simps) (intro exI [of _ idx] exI [of _ DCO] exI [of _ p4], blast)
qed

section \<open>Sending all segments\<close>

text \<open>
  The stack is in order: every recorded frame fits its buffer and has a place for its data.
\<close>

definition entry_ok :: "'e ecx_portt \<Rightarrow> ec_idxstackT \<Rightarrow> nat \<Rightarrow> bool" where
  "entry_ok p s k \<longleftrightarrow> frame_ready (ix_idx s k) p \<and> 14 + unat (ix_length s k) \<le> EC_BUFSIZE \<and>
     ix_dcoffset s k + 8 \<le> EC_BUFSIZE \<and> ix_data s k \<noteq> None"

definition entries_ok :: "'e ecx_contextt \<Rightarrow> bool" where
  "entries_ok c \<longleftrightarrow> pulled (idxstack c) \<le> pushed (idxstack c) \<and> pushed (idxstack c) \<le> EC_MAXBUF \<and>
     (\<forall>k < pushed (idxstack c). entry_ok (port c) (idxstack c) k)"

text \<open>
  What sending does to the context: it adds entries to the stack, and every buffer that is newly in
  use belongs to one of them.
\<close>

definition send_ok :: "'e os_ops \<Rightarrow> ('e \<Rightarrow> nat) \<Rightarrow> 'e ecx_contextt \<Rightarrow> 'e ecx_contextt \<Rightarrow> bool" where
  "send_ok E now c c' \<longleftrightarrow> net_ok E now (port c') \<and> port_step now (port c) (port c') \<and> entries_ok c' \<and>
     pulled (idxstack c') = pulled (idxstack c) \<and> pushed (idxstack c) \<le> pushed (idxstack c') \<and>
     (\<forall>j. in_use (port c') j \<longrightarrow> in_use (port c) j \<or>
       (\<exists>k. pushed (idxstack c) \<le> k \<and> k < pushed (idxstack c') \<and> ix_idx (idxstack c') k = j)) \<and>
     (\<forall>k < pushed (idxstack c). ix_idx (idxstack c') k = ix_idx (idxstack c) k) \<and>
     IOmap c' = IOmap c \<and> grouplist c' = grouplist c \<and> slavelist c' = slavelist c"

lemma send_ok_refl: "net_ok E now (port c) \<Longrightarrow> entries_ok c \<Longrightarrow> send_ok E now c c"
  by (simp add: send_ok_def)

lemma send_ok_trans [trans]:
  assumes "send_ok E now a b" "send_ok E now b c"
  shows "send_ok E now a c"
proof -
  have "in_use (port a) j \<or> (\<exists>k. pushed (idxstack a) \<le> k \<and> k < pushed (idxstack c) \<and> ix_idx (idxstack c) k = j)"
    if j: "in_use (port c) j" for j
  proof -
    from j assms(2) consider "in_use (port b) j"
      | k where "pushed (idxstack b) \<le> k" "k < pushed (idxstack c)" "ix_idx (idxstack c) k = j"
      by (auto simp: send_ok_def)
    then show ?thesis
    proof cases
      case 1
      with assms(1) consider "in_use (port a) j"
        | k where "pushed (idxstack a) \<le> k" "k < pushed (idxstack b)" "ix_idx (idxstack b) k = j"
        by (auto simp: send_ok_def)
      then show ?thesis
      proof cases
        case 2
        moreover have "ix_idx (idxstack c) k = j" "k < pushed (idxstack c)"
          using 2 assms(2) by (auto simp: send_ok_def)
        ultimately show ?thesis by blast
      qed simp
    next
      case 2
      then show ?thesis using assms(1) by (auto simp: send_ok_def intro!: exI [of _ k])
    qed
  qed
  with assms show ?thesis by (auto simp: send_ok_def intro: port_step_trans)
qed

lemma send_segment_ok:
  assumes net: "net_ok E now (port c)" and e: "entries_ok c" and room: "pushed (idxstack c) < EC_MAXBUF"
    and fit: "unat sublength \<le> 1466"
  shows "runs_to (send_segment E grp com first LogAdr sublength data store c) (\<lambda>c'. send_ok E now c c' \<and>
    pushed (idxstack c') = pushed (idxstack c) + 1)"
proof -
  have "unat sublength + (if first then 48 else 28) \<le> EC_BUFSIZE" using fit by simp
  from send_segment_runs [OF net this, of grp com LogAdr data store] show ?thesis
  proof (rule runs_to_mono)
    fix c' assume "\<exists>idx DCO p. c' = ecx_pushindex idx (Some store) sublength DCO (c\<lparr>port := p\<rparr>) \<and> net_ok E now p \<and>
      port_step now (port c) p \<and> frame_ready idx p \<and> (\<forall>i. frame_ready i (port c) \<longrightarrow> frame_ready i p) \<and>
      (\<forall>j. in_use p j \<longrightarrow> in_use (port c) j \<or> j = idx) \<and> DCO + 8 \<le> EC_BUFSIZE \<and>
      DCO = (if first then 24 + unat sublength else 0) \<and>
      parse_dgrams 125 (txbuf p idx) 16 = segment_dgrams c grp com first LogAdr sublength data idx"
    then obtain idx DCO p where c': "c' = ecx_pushindex idx (Some store) sublength DCO (c\<lparr>port := p\<rparr>)"
      and p: "net_ok E now p" "port_step now (port c) p" "frame_ready idx p"
        "\<forall>i. frame_ready i (port c) \<longrightarrow> frame_ready i p" "\<forall>j. in_use p j \<longrightarrow> in_use (port c) j \<or> j = idx"
        "DCO + 8 \<le> EC_BUFSIZE" by blast
    have "entries_ok c'"
      using e p(3,4,6) room fit by (auto simp: c' entries_ok_def entry_ok_def ecx_pushindex_def Let_def less_Suc_eq)
    moreover have "\<exists>k. pushed (idxstack c) \<le> k \<and> k < pushed (idxstack c') \<and> ix_idx (idxstack c') k = idx"
      using room by (intro exI [of _ "pushed (idxstack c)"]) (simp add: c' ecx_pushindex_def Let_def)
    ultimately show "send_ok E now c c' \<and> pushed (idxstack c') = pushed (idxstack c) + 1"
      using p room by (auto simp: c' send_ok_def ecx_pushindex_def Let_def)
  qed
qed

text \<open>
  The loop: \<open>lens\<close> describes the lengths that can be left, for which the segments fit a frame; \<open>n\<close>
  bounds the number of segments, for which the stack has room.
\<close>

lemma send_segments_ok:
  assumes net: "net_ok E now (port c)" and e: "entries_ok c"
    and n: "cs < n" "unat (gr_nsegments (grouplist c grp)) \<le> n" "n \<le> EC_MAXIOSEGMENTS"
    and room: "pushed (idxstack c) + (n - cs) \<le> EC_MAXBUF"
    and lens: "lens len" "\<And>k len. k < n \<Longrightarrow> lens len \<Longrightarrow> unat (sub k len) \<le> 1466 \<and> lens (len - uint (sub k len))"
  shows "runs_to (send_segments E grp com sub off (cs, len, LogAdr, data, first, c)) (\<lambda>(cs', len', la, d, fi, c').
    send_ok E now c c' \<and> pushed (idxstack c') \<le> pushed (idxstack c) + (n - cs))"
  unfolding send_segments_def
proof (rule do_while_total [where I = "\<lambda>(cs', len', la, d, fi, c'). send_ok E now c c' \<and> cs \<le> cs' \<and> cs' < n \<and> lens len' \<and>
      pushed (idxstack c') = pushed (idxstack c) + (cs' - cs)" and R = "measure (\<lambda>s. n - fst s)"], goal_cases)
  case I: (3 a)
  obtain k len' la d fi c1 where a: "a = (k, len', la, d, fi, c1)" by (cases a)
  from I a have 1: "send_ok E now c c1" "cs \<le> k" "k < n" "lens len'"
    "pushed (idxstack c1) = pushed (idxstack c) + (k - cs)" by auto
  note l = lens(2) [OF 1(3,4)]
  have "net_ok E now (port c1)" "entries_ok c1" using 1(1) by (simp_all add: send_ok_def)
  moreover have "pushed (idxstack c1) < EC_MAXBUF" using room 1(2,3,5) by linarith
  ultimately obtain c2 where
    2: "send_segment E grp com fi la (sub k len') d (d + off) c1 = Some c2" "send_ok E now c1 c2"
      "pushed (idxstack c2) = pushed (idxstack c1) + 1"
    using send_segment_ok [of E now c1 "sub k len'" grp com fi la d "d + off"] l by (auto simp: runs_to_iff)
  have s: "send_ok E now c c2" by (rule send_ok_trans [OF 1(1) 2(2)])
  have g: "grouplist c2 = grouplist c" using s by (simp add: send_ok_def)
  have k: "k < EC_MAXIOSEGMENTS" using 1(3) n(3) by simp
  show ?case
    unfolding a prod.case Let_def 2(1) Option.bind.bind_lunit g using k s 1 2(3) l n(2) by auto
qed (use n net e lens send_ok_refl in auto)

text \<open>
  A group that can be sent: its segments fit a frame with a clock datagram, they are no more than the
  stack has room for, and the image has a place.
\<close>

definition group_ok :: "ec_groupt \<Rightarrow> bool" where
  "group_ok g \<longleftrightarrow> (let n = unat (gr_nsegments g); i = unat (gr_Isegment g) in
     1 \<le> n \<and> n \<le> EC_MAXBUF \<and> (\<forall>k < n. unat (gr_IOsegment g k) \<le> 1466) \<and>
     unat (gr_Obytes g) + unat (gr_Ibytes g) < 2147483648 \<and>
     (gr_Obytes g \<noteq> 0 \<longrightarrow> gr_outputs g \<noteq> None) \<and> (gr_Ibytes g \<noteq> 0 \<longrightarrow> gr_inputs g \<noteq> None) \<and>
     (gr_blockLRW g \<noteq> 0 \<longrightarrow> i < n \<and> 2 * n - i \<le> EC_MAXBUF \<and> unat (gr_Ioffset g) \<le> unat (gr_IOsegment g i)))"

lemma unat_ucast_u16_u32 [simp]: "unat (ucast (x :: u16) :: u32) = unat x"
  by (metis nat_uint_eq uint_ucast_u16_u32)

lemma uint_le_unat: "uint w \<le> int n \<longleftrightarrow> unat w \<le> n"
  by (simp add: uint_nat del: of_nat_unat)

lemma sint_small: "unat (w :: u32) < 2147483648 \<Longrightarrow> sint w = int (unat w)"
  using signed_take_bit_int_eq_self [of 31 "uint w"] uint_le_unat [of w 2147483647] uint_ge_0 [of w]
  by (simp add: sint_uint del: uint_ge_0)

lemma ucast_segment: "unat (w :: u32) \<le> 1466 \<Longrightarrow> unat (ucast w :: u16) = unat w"
  by (simp add: unsigned_ucast_eq take_bit_nat_eq_self)

lemma group_ok_simps:
  assumes "group_ok g"
  defines "n \<equiv> unat (gr_nsegments g)"
  shows "1 \<le> n" "n \<le> EC_MAXBUF" "k < n \<Longrightarrow> unat (gr_IOsegment g k) \<le> 1466"
    "unat (gr_Obytes g) < 2147483648"
    "gr_Obytes g \<noteq> 0 \<Longrightarrow> \<exists>d. gr_outputs g = Some d" "gr_Ibytes g \<noteq> 0 \<Longrightarrow> \<exists>d. gr_inputs g = Some d"
    "gr_blockLRW g \<noteq> 0 \<Longrightarrow> unat (gr_Isegment g) < n \<and> 2 * n - unat (gr_Isegment g) \<le> EC_MAXBUF \<and>
       unat (gr_Ioffset g) \<le> unat (gr_IOsegment g (unat (gr_Isegment g)))"
  using assms(1) by (auto simp: group_ok_def n_def Let_def)

lemma lrd_length_fits:
  assumes g: "group_ok g" "gr_blockLRW g \<noteq> 0" and k: "k < unat (gr_nsegments g)"
  shows "unat (lrd_length g k left) \<le> 1466"
proof (cases "k = unat (gr_Isegment g)")
  case True
  note k' = group_ok_simps(3) [OF g(1) k]
  have le: "ucast (gr_Ioffset g) \<le> gr_IOsegment g k"
    using group_ok_simps(7) [OF g] True by (simp add: word_le_nat_alt)
  have "unat (gr_IOsegment g k - ucast (gr_Ioffset g)) \<le> 1466"
    unfolding unat_sub [OF le] using k' by simp
  then show ?thesis using True by (simp add: lrd_length_def ucast_segment)
next
  case False
  then show ?thesis using group_ok_simps(3) [OF g(1) k] by (simp add: lrd_length_def ucast_segment)
qed

lemma lwr_length_fits:
  assumes g: "group_ok g" and k: "k < unat (gr_nsegments g)" and left: "0 \<le> left"
  shows "unat (lwr_length g k left) \<le> 1466 \<and> 0 \<le> left - uint (lwr_length g k left)"
proof -
  have u: "unat (ucast (gr_IOsegment g k) :: u16) \<le> 1466"
    using group_ok_simps(3) [OF g k] by (simp add: ucast_segment)
  then have i: "uint (ucast (gr_IOsegment g k) :: u16) \<le> 1466" using uint_le_unat [of "ucast (gr_IOsegment g k) :: u16" 1466] by simp
  show ?thesis
  proof (cases "left - uint (ucast (gr_IOsegment g k) :: u16) < 0")
    case True
    then have "left \<le> 1466" using i by linarith
    then have "uint (word_of_int left :: u16) = left"
      using left by (simp add: unsigned_of_int take_bit_int_eq_self)
    moreover from this \<open>left \<le> 1466\<close> have "unat (word_of_int left :: u16) \<le> 1466"
      using uint_le_unat [of "word_of_int left :: u16" 1466] by simp
    ultimately show ?thesis using True left by (simp add: lwr_length_def)
  next
    case False
    then show ?thesis using u by (simp add: lwr_length_def)
  qed
qed

lemma send_lrw_ok:
  assumes net: "net_ok E now (port c)" and e: "entries_ok c" and empty: "pushed (idxstack c) = 0"
    and g: "group_ok (grouplist c grp)"
  shows "runs_to (send_segments E grp com (\<lambda>k _. ucast (gr_IOsegment (grouplist c grp) k)) off (0, left, la, d, fi, c))
    (\<lambda>(cs', left', la, d, fi, c'). send_ok E now c c')"
proof -
  let ?g = "grouplist c grp"
  let ?n = "unat (gr_nsegments ?g)"
  note n = group_ok_simps(1-3) [OF g]
  have fit: "unat (ucast (gr_IOsegment ?g k) :: u16) \<le> 1466 \<and> True" if "k < ?n" for k
    using n(3) [OF that] by (simp add: ucast_segment)
  have "0 < ?n" "?n \<le> EC_MAXIOSEGMENTS" "pushed (idxstack c) + (?n - 0) \<le> EC_MAXBUF" using n(1,2) empty by simp_all
  from send_segments_ok [where cs = 0 and lens = "\<lambda>_. True" and sub = "\<lambda>k _. ucast (gr_IOsegment ?g k)", OF net e this(1) order_refl this(2,3) TrueI fit]
  show ?thesis by (rule runs_to_mono) auto
qed

lemma send_lrd_ok:
  assumes net: "net_ok E now (port c)" and e: "entries_ok c" and empty: "pushed (idxstack c) = 0"
    and g: "group_ok (grouplist c grp)" "gr_blockLRW (grouplist c grp) \<noteq> 0"
  shows "runs_to (send_segments E grp EC_CMD_LRD (lrd_length (grouplist c grp)) 0
      (unat (gr_Isegment (grouplist c grp)), left, la, d, fi, c)) (\<lambda>(cs', left', la, d, fi, c'). send_ok E now c c' \<and>
    pushed (idxstack c') + unat (gr_nsegments (grouplist c grp)) \<le> EC_MAXBUF)"
proof -
  let ?g = "grouplist c grp"
  let ?n = "unat (gr_nsegments ?g)" and ?i = "unat (gr_Isegment (grouplist c grp))"
  note n = group_ok_simps(1,2,7) [OF g(1)]
  have fit: "unat (lrd_length ?g k left) \<le> 1466 \<and> True" if "k < ?n" for k left
    using lrd_length_fits [OF g that] by simp
  have "?i < ?n" "?n \<le> EC_MAXIOSEGMENTS" "pushed (idxstack c) + (?n - ?i) \<le> EC_MAXBUF" "2 * ?n - ?i \<le> EC_MAXBUF"
    using n(2) n(3) [OF g(2)] empty by simp_all
  from send_segments_ok [where lens = "\<lambda>_. True" and sub = "lrd_length ?g" and com = EC_CMD_LRD and off = 0
      and len = left and LogAdr = la and data = d and first = fi, OF net e this(1) order_refl this(2,3) TrueI fit] this(1,4)
  show ?thesis using empty by (auto elim!: runs_to_mono)
qed

lemma send_lwr_ok:
  assumes net: "net_ok E now (port c)" and e: "entries_ok c" and g: "group_ok (grouplist c grp)"
    and room: "pushed (idxstack c) + unat (gr_nsegments (grouplist c grp)) \<le> EC_MAXBUF"
  shows "runs_to (send_segments E grp EC_CMD_LWR (lwr_length (grouplist c grp)) 0
      (0, sint (gr_Obytes (grouplist c grp)), la, d, fi, c)) (\<lambda>(cs', left', la, d, fi, c'). send_ok E now c c')"
proof -
  let ?g = "grouplist c grp"
  let ?n = "unat (gr_nsegments ?g)"
  note n = group_ok_simps(1,2,4) [OF g]
  have "0 < ?n" "?n \<le> EC_MAXIOSEGMENTS" "pushed (idxstack c) + (?n - 0) \<le> EC_MAXBUF" "0 \<le> sint (gr_Obytes ?g)"
    using n room by (simp_all add: sint_small)
  from send_segments_ok [where lens = "\<lambda>left. 0 \<le> left" and sub = "lwr_length ?g", OF net e this(1) order_refl this(2-4) lwr_length_fits [OF g]]
  show ?thesis by (rule runs_to_mono) auto
qed

lemma ecx_main_send_runs:
  assumes net: "net_ok E now (port c)" and e: "entries_ok c" and empty: "pushed (idxstack c) = 0"
    and g: "group_ok (grouplist c grp)" and m: "grp < maxgroup c"
  shows "runs_to (ecx_main_send_processdata E grp overlap c) (\<lambda>(w, c'). send_ok E now c c')"
proof -
  let ?g = "grouplist c grp"
  note refl = send_ok_refl [OF net e]
  note d = group_ok_simps(5,6) [OF g]
  show ?thesis
  proof (cases "gr_blockLRW ?g = 0")
    case True
    then show ?thesis
      using m d refl send_lrw_ok [OF net e empty g, of EC_CMD_LRW]
      unfolding ecx_main_send_processdata_def Let_def by (auto simp: signed_eq_0_iff elim!: runs_to_mono)
  next
    case False
    have lwr: "runs_to (send_segments E grp EC_CMD_LWR (lwr_length ?g) 0 (0, sint (gr_Obytes ?g), la, d, fi, c1))
      (\<lambda>(cs', left', la, d, fi, c'). send_ok E now c c')"
      if c1: "send_ok E now c c1" "pushed (idxstack c1) + unat (gr_nsegments ?g) \<le> EC_MAXBUF" for la d fi c1
    proof -
      have "grouplist c1 grp = ?g" "net_ok E now (port c1)" "entries_ok c1" using c1(1) by (simp_all add: send_ok_def)
      then show ?thesis
        using send_lwr_ok [of E now c1 grp la d fi] g c1 by (auto elim!: runs_to_mono intro: send_ok_trans)
    qed
    have n: "unat (gr_nsegments ?g) \<le> EC_MAXBUF" using group_ok_simps(2) [OF g] .
    have both: "runs_to (send_segments E grp EC_CMD_LRD (lrd_length ?g) 0 (unat (gr_Isegment ?g), left, la, d, fi, c))
      (\<lambda>(_, _, _, _, b). runs_to (send_segments E grp EC_CMD_LWR (lwr_length ?g) 0 (0, sint (gr_Obytes ?g), la2, d2, b))
        (\<lambda>(_, _, _, _, _, c'). send_ok E now c c'))" for left la d fi la2 d2
      using send_lrd_ok [OF net e empty g False, of left la d fi] by (rule runs_to_mono) (auto intro!: lwr)
    have lrd: "runs_to (send_segments E grp EC_CMD_LRD (lrd_length ?g) 0 (unat (gr_Isegment ?g), left, la, d, fi, c))
      (\<lambda>(_, _, _, _, _, c'). send_ok E now c c')" for left la d fi
      using send_lrd_ok [OF net e empty g False, of left la d fi] by (rule runs_to_mono) auto
    show ?thesis
      using False m d refl both lrd lwr [OF refl] n empty
      unfolding ecx_main_send_processdata_def Let_def by (auto elim!: runs_to_mono)
  qed
qed

section \<open>Receiving\<close>

text \<open>Byte \<open>i\<close> of the image belongs to entry \<open>k\<close>.\<close>

definition covers :: "ec_idxstackT \<Rightarrow> nat \<Rightarrow> nat \<Rightarrow> bool" where
  "covers s k i \<longleftrightarrow> (case ix_data s k of None \<Rightarrow> False | Some d \<Rightarrow> d \<le> i \<and> i < d + unat (ix_length s k))"

lemma covers_pulled [simp]: "covers (s\<lparr>pulled := n\<rparr>) k i = covers s k i"
  by (simp add: covers_def split: option.split)

lemma receive_frame_runs:
  assumes "entry_ok (port c) (idxstack c) k"
  shows "runs_to (receive_frame k wkc2 wkc v c) (\<lambda>(w, v', c'). port c' = port c \<and> idxstack c' = idxstack c \<and>
    (\<forall>i. \<not> covers (idxstack c) k i \<longrightarrow> IOmap c' i = IOmap c i))"
proof -
  from assms obtain d where "ix_data (idxstack c) k = Some d" "14 + unat (ix_length (idxstack c) k) \<le> EC_BUFSIZE"
    "ix_dcoffset (idxstack c) k + 8 \<le> EC_BUFSIZE" by (auto simp: entry_ok_def)
  then show ?thesis by (auto simp: receive_frame_def covers_def Let_def memcpy_apply)
qed

lemma receive_round_runs:
  assumes net: "net_ok E now (port c)" and k: "entry_ok (port c) (idxstack c) k"
  shows "runs_to (receive_round E timeout (int k, wkc, v, c)) (\<lambda>(pos, w, v', c'). net_ok E now (port c') \<and>
    port_step now (port c) (port c') \<and> (\<forall>i. frame_ready i (port c') = frame_ready i (port c)) \<and>
    (\<forall>j. in_use (port c') j \<longrightarrow> in_use (port c) j \<and> j \<noteq> ix_idx (idxstack c) k) \<and>
    (pos, idxstack c') = (if pulled (idxstack c) < pushed (idxstack c)
      then (int (pulled (idxstack c)), (idxstack c)\<lparr>pulled := pulled (idxstack c) + 1\<rparr>) else (- 1, idxstack c)) \<and>
    (\<forall>i. \<not> covers (idxstack c) k i \<longrightarrow> IOmap c' i = IOmap c i))"
proof -
  define idx where "idx = ix_idx (idxstack c) k"
  have rdy: "frame_ready idx (port c)" using k by (simp add: entry_ok_def idx_def)
  have ok: "good_os E now" "port_ok (port c)" using net by (simp_all add: net_ok_def)
  from ecx_waitinframe_runs [OF ok rdy, of timeout] obtain w2 p1 where
    1: "ecx_waitinframe E idx timeout (port c) = Some (w2, p1)" "nic_step now idx (port c) p1" by (auto simp: runs_to_iff)
  let ?c1 = "c\<lparr>port := p1\<rparr>"
  have "entry_ok (port ?c1) (idxstack ?c1) k" using k nic_step_ready [OF 1(2)] by (simp add: entry_ok_def)
  from receive_frame_runs [OF this, of w2 wkc v] obtain w v' c2 where
    2: "receive_frame k w2 wkc v ?c1 = Some (w, v', c2)" "port c2 = p1" "idxstack c2 = idxstack c"
      "\<forall>i. \<not> covers (idxstack c) k i \<longrightarrow> IOmap c2 i = IOmap c i"
    by (auto simp: runs_to_iff)
  have ok1: "port_ok p1" by (rule nic_step_ok [OF 1(2) ok(2)])
  have idx: "idx < EC_MAXBUF" using rdy by (simp add: frame_ready_def)
  from ecx_setbufstat_runs [OF ok1 idx, of EC_BUF_EMPTY now] obtain p3 where
    3: "ecx_setbufstat idx EC_BUF_EMPTY p1 = Some p3" "nic_step now idx p1 p3"
      "rxbufstat p3 = (rxbufstat p1)(idx := EC_BUF_EMPTY)" by (auto simp: runs_to_iff)
  have s: "nic_step now idx (port c) p3" by (rule nic_step_trans [OF 1(2) 3(2)])
  have "in_use p3 j \<longrightarrow> in_use (port c) j \<and> j \<noteq> idx" for j
    using nic_step_in_use [OF s, of j] 3(3) by (cases "j = idx") (auto simp: in_use_def)
  moreover have "net_ok E now p3" using nic_step_ok [OF s ok(2)] ok(1) by (simp add: net_ok_def)
  ultimately show ?thesis
    using 1(1) 2 3(1) nic_step_port_step [OF s] nic_step_ready [OF s]
    by (auto simp: receive_round_def on_port_def idx_def ecx_pullindex_def Let_def)
qed

text \<open>Everything behind entry \<open>m\<close> of the stack \<open>s\<close> remains to be received; nothing else is in use.\<close>

definition receiving :: "'e os_ops \<Rightarrow> ('e \<Rightarrow> nat) \<Rightarrow> 'e ecx_contextt \<Rightarrow> nat \<Rightarrow> 'e ecx_contextt \<Rightarrow> bool" where
  "receiving E now c m c' \<longleftrightarrow> net_ok E now (port c') \<and> port_step now (port c) (port c') \<and>
     (\<forall>k < pushed (idxstack c). entry_ok (port c') (idxstack c) k) \<and>
     (\<forall>k. pulled (idxstack c) \<le> k \<longrightarrow> k < m \<longrightarrow> \<not> in_use (port c') (ix_idx (idxstack c) k)) \<and>
     (\<forall>j. in_use (port c') j \<longrightarrow> in_use (port c) j) \<and>
     (\<forall>i. (\<forall>k. pulled (idxstack c) \<le> k \<longrightarrow> k < m \<longrightarrow> \<not> covers (idxstack c) k i) \<longrightarrow> IOmap c' i = IOmap c i)"

lemma receiving_round:
  assumes r: "receiving E now c m c1" and m: "pulled (idxstack c) \<le> m" "m < pushed (idxstack c)"
    and s: "idxstack c1 = (idxstack c)\<lparr>pulled := m + 1\<rparr>"
  shows "runs_to (receive_round E timeout (int m, wkc, v, c1)) (\<lambda>(pos, w, v', c2). receiving E now c (m + 1) c2 \<and>
    (if m + 1 < pushed (idxstack c) then pos = int (m + 1) \<and> idxstack c2 = (idxstack c)\<lparr>pulled := m + 2\<rparr>
     else pos = - 1 \<and> idxstack c2 = idxstack c1))"
proof -
  have net: "net_ok E now (port c1)" and e: "entry_ok (port c1) (idxstack c1) m"
    using r m by (auto simp: receiving_def s entry_ok_def)
  show ?thesis
    using receive_round_runs [OF net e, of timeout wkc v]
  proof (rule runs_to_mono, clarsimp simp only: prod.case split_paired_all)
    fix pos w v' and c2 :: "'a ecx_contextt"
    assume a: "net_ok E now (port c2)" "port_step now (port c1) (port c2)" "\<forall>i. frame_ready i (port c2) = frame_ready i (port c1)"
      "\<forall>j. in_use (port c2) j \<longrightarrow> in_use (port c1) j \<and> j \<noteq> ix_idx (idxstack c1) m"
      "(pos, idxstack c2) = (if pulled (idxstack c1) < pushed (idxstack c1)
        then (int (pulled (idxstack c1)), (idxstack c1)\<lparr>pulled := pulled (idxstack c1) + 1\<rparr>) else (- 1, idxstack c1))"
      "\<forall>i. \<not> covers (idxstack c1) m i \<longrightarrow> IOmap c2 i = IOmap c1 i"
    have "IOmap c2 i = IOmap c i" if "\<forall>k. pulled (idxstack c) \<le> k \<longrightarrow> k < m + 1 \<longrightarrow> \<not> covers (idxstack c) k i" for i
    proof -
      have "\<not> covers (idxstack c) m i" using that m(1) by simp
      then have "IOmap c2 i = IOmap c1 i" using a(6) by (simp add: s)
      also have "IOmap c1 i = IOmap c i" using r that by (simp add: receiving_def)
      finally show ?thesis .
    qed
    then have "receiving E now c (m + 1) c2"
      using r a(1-4) by (auto simp: receiving_def s entry_ok_def less_Suc_eq intro: port_step_trans)
    then show "receiving E now c (m + 1) c2 \<and>
      (if m + 1 < pushed (idxstack c) then pos = int (m + 1) \<and> idxstack c2 = (idxstack c)\<lparr>pulled := m + 2\<rparr>
       else pos = - 1 \<and> idxstack c2 = idxstack c1)"
      using a(5) by (auto simp: s split: if_splits)
  qed
qed

lemma receive_all_runs:
  assumes net: "net_ok E now (port c)" and e: "entries_ok c"
  shows "runs_to (ecx_receive_processdata_group E grp timeout c) (\<lambda>(w, c'). receiving E now c (pushed (idxstack c)) c' \<and>
    pushed (idxstack c') = 0 \<and> pulled (idxstack c') = 0)"
proof -
  let ?s = "idxstack c"
  define I where "I = (\<lambda>(pos, w :: int, v :: bool, c1).
    (0 \<le> pos \<and> pulled ?s \<le> nat pos \<and> nat pos < pushed ?s \<and> idxstack c1 = ?s\<lparr>pulled := nat pos + 1\<rparr> \<and> receiving E now c (nat pos) c1) \<or>
    (pos = - 1 \<and> receiving E now c (pushed ?s) c1))"
  obtain pos c0 where p: "ecx_pullindex c = (pos, c0)" by fastforce
  have start: "I (pos, 0, False, c0)"
    using p e net by (auto simp: I_def ecx_pullindex_def Let_def receiving_def entries_ok_def split: if_splits)
  have "runs_to (while_do (\<lambda>(pos, _). pos \<ge> 0) (receive_round E timeout) (pos, 0, False, c0))
    (\<lambda>(pos, w, v, c1). receiving E now c (pushed ?s) c1)"
  proof (rule while_do_total [where I = I and R = "measure (\<lambda>(pos, _). if pos \<ge> 0 then Suc (pushed ?s - nat pos) else 0)"])
    fix a assume I: "I a" and c: "case a of (pos, _) \<Rightarrow> pos \<ge> 0"
    obtain pos w v c1 where a: "a = (pos, w, v, c1)" by (cases a)
    with I c have m: "0 \<le> pos" "pulled ?s \<le> nat pos" "nat pos < pushed ?s" "idxstack c1 = ?s\<lparr>pulled := nat pos + 1\<rparr>"
      "receiving E now c (nat pos) c1" by (auto simp: I_def)
    from receiving_round [OF m(5,2,3,4), of timeout w v]
    show "runs_to (receive_round E timeout a) (\<lambda>a'. I a' \<and>
        (a', a) \<in> measure (\<lambda>(pos, _). if pos \<ge> 0 then Suc (pushed ?s - nat pos) else 0))"
      unfolding a nat_0_le [OF m(1)]
    proof (rule runs_to_mono, clarsimp simp only: prod.case split_paired_all)
      fix pos' w' v' and c2 :: "'a ecx_contextt"
      assume r: "receiving E now c (nat pos + 1) c2" "if nat pos + 1 < pushed ?s
        then pos' = int (nat pos + 1) \<and> idxstack c2 = ?s\<lparr>pulled := nat pos + 2\<rparr> else pos' = - 1 \<and> idxstack c2 = idxstack c1"
      show "I (pos', w', v', c2) \<and> ((pos', w', v', c2), pos, w, v, c1) \<in>
          measure (\<lambda>(pos, _). if pos \<ge> 0 then Suc (pushed ?s - nat pos) else 0)"
      proof (cases "nat pos + 1 < pushed ?s")
        case True
        then have "pos' = int (nat pos + 1)" using r(2) by simp
        moreover from this have "nat pos' = nat pos + 1" by (simp only: nat_int)
        ultimately show ?thesis using r m(1,2) True by (simp add: I_def)
      next
        case False
        then have "nat pos + 1 = pushed ?s" using m(3) by simp
        from r(1) [unfolded this] show ?thesis using r(2) m(1) False by (simp add: I_def)
      qed
    qed
  qed (use start in \<open>auto simp: I_def\<close>)
  then show ?thesis
    by (auto simp: ecx_receive_processdata_group_def p ecx_clearindex_def receiving_def elim!: runs_to_mono)
qed

section \<open>The layout of the segments\<close>

lemma send_segment_pushes:
  "if_runs (send_segment E grp com first LogAdr len data store c)
    (\<lambda>c'. \<exists>idx DCO p. c' = ecx_pushindex idx (Some store) len DCO (c\<lparr>port := p\<rparr>))"
  by (auto simp: send_segment_def if_runs_iff bind_eq_Some_conv)

definition seg_start :: "ec_groupt \<Rightarrow> nat \<Rightarrow> nat" where
  "seg_start g k = (\<Sum>i<k. unat (gr_IOsegment g i))"

lemma seg_start_simps [simp]: "seg_start g 0 = 0" "seg_start g (Suc k) = seg_start g k + unat (gr_IOsegment g k)"
  by (simp_all add: seg_start_def)

lemma seg_start_less:
  assumes "\<forall>k < n. 0 < unat (gr_IOsegment g k)" "k < n"
  shows "seg_start g k < seg_start g n"
  using assms
proof (induction n)
  case (Suc n)
  then show ?case by (cases "k = n") auto
qed simp

text \<open>The first \<open>k\<close> entries of the stack are the first \<open>k\<close> segments of the image from \<open>d\<close> on.\<close>

definition layout :: "ec_groupt \<Rightarrow> nat \<Rightarrow> nat \<Rightarrow> ec_idxstackT \<Rightarrow> bool" where
  "layout g d k s \<longleftrightarrow> pushed s = k \<and>
     (\<forall>j < k. ix_data s j = Some (d + seg_start g j) \<and> unat (ix_length s j) = unat (gr_IOsegment g j))"

lemma send_segments_layout:
  assumes g: "g = grouplist c grp" and n: "n = unat (gr_nsegments g)" "0 < n" "n \<le> EC_MAXBUF"
    and segs: "\<forall>k < n. 0 < unat (gr_IOsegment g k) \<and> unat (gr_IOsegment g k) \<le> 1466"
    and left: "left = int (seg_start g n)" and empty: "pushed (idxstack c) = 0"
  shows "if_runs (send_segments E grp com (\<lambda>k _. ucast (gr_IOsegment g k)) off (0, left, la, d, fi, c))
    (\<lambda>(cs, left', la, d', fi, c'). layout g (d + off) n (idxstack c'))"
  unfolding send_segments_def
proof (rule do_while_partial [where I = "\<lambda>(cs, left', la, d', fi, c'). cs < n \<and> left' = left - int (seg_start g cs) \<and>
      d' = d + seg_start g cs \<and> layout g (d + off) cs (idxstack c') \<and> grouplist c' = grouplist c"], goal_cases)
  case (2 a)
  obtain k left' la' d' fi' c1 where a: "a = (k, left', la', d', fi', c1)" by (cases a)
  with 2 have I: "k < n" "left' = left - int (seg_start g k)" "d' = d + seg_start g k" "layout g (d + off) k (idxstack c1)"
    "grouplist c1 = grouplist c" by auto
  have seg: "unat (ucast (gr_IOsegment g k) :: u16) = unat (gr_IOsegment g k)" using segs I(1) by (simp add: ucast_segment)
  then have useg: "uint (ucast (gr_IOsegment g k) :: u16) = int (unat (gr_IOsegment g k))" by (simp only: uint_nat)
  have stop: "left - int (seg_start g (Suc k)) = 0 \<longleftrightarrow> Suc k = n"
    using seg_start_less [of n g "Suc k"] segs I(1) left
    by (cases "Suc k = n") (auto simp del: of_nat_unat seg_start_simps)
  have "k < EC_MAXIOSEGMENTS" using I(1) n(3) by simp
  then show ?case
    unfolding a prod.case Let_def
    using send_segment_pushes [of E grp com fi' la' "ucast (gr_IOsegment g k)" d' "d' + off" c1] I n seg useg stop
    by (auto simp: ecx_pushindex_def layout_def Let_def less_Suc_eq g simp del: of_nat_unat split: if_splits elim!: if_runs_mono)
qed (use n empty in \<open>simp_all add: layout_def\<close>)

section \<open>Properties\<close>

text \<open>
  The frame of a segment is read back as one logical datagram with the bytes of the image at the
  segment's place and, in the first frame of a group with distributed clocks, a second datagram that
  reads the reference clock; the stack records the buffer of that frame.
\<close>

theorem send_segment_frame:
  assumes "net_ok E now (port c)" "unat len + (if first then 48 else 28) \<le> EC_BUFSIZE" "pushed (idxstack c) < EC_MAXBUF"
  shows "\<exists>c'. send_segment E grp com first LogAdr len data store c = Some c' \<and>
    pushed (idxstack c') = pushed (idxstack c) + 1 \<and> ix_data (idxstack c') (pushed (idxstack c)) = Some store \<and>
    (let idx = ix_idx (idxstack c') (pushed (idxstack c)) in
     parse_dgrams 125 (txbuf (port c') idx) 16 = segment_dgrams c grp com first LogAdr len data idx)"
  using send_segment_runs [OF assms(1,2), of grp com LogAdr data store] assms(3)
  by (auto simp: runs_to_iff ecx_pushindex_def Let_def)

text \<open>
  C2: with one logical read/write datagram for each segment, the segments recorded on the stack
  partition the image: they follow each other without gap or overlap, in the order of the segment
  list, from the outputs on (or, with an overlapped image, from the inputs behind them).
\<close>

theorem send_processdata_partition:
  assumes "net_ok E now (port c)" "entries_ok c" "pushed (idxstack c) = 0" "group_ok (grouplist c grp)" "grp < maxgroup c"
    and "gr_blockLRW (grouplist c grp) = 0" "gr_Obytes (grouplist c grp) \<noteq> 0" "gr_outputs (grouplist c grp) = Some d"
    and "\<forall>k < unat (gr_nsegments (grouplist c grp)). 0 < unat (gr_IOsegment (grouplist c grp) k)"
    and "seg_start (grouplist c grp) (unat (gr_nsegments (grouplist c grp))) =
      (if overlap then max (unat (gr_Obytes (grouplist c grp))) (unat (gr_Ibytes (grouplist c grp)))
       else unat (gr_Obytes (grouplist c grp)) + unat (gr_Ibytes (grouplist c grp)))"
  shows "\<exists>c'. ecx_main_send_processdata E grp overlap c = Some (1, c') \<and>
    layout (grouplist c grp) (d + (if overlap then unat (gr_Obytes (grouplist c grp)) else 0))
      (unat (gr_nsegments (grouplist c grp))) (idxstack c')"
proof -
  let ?g = "grouplist c grp"
  let ?n = "unat (gr_nsegments ?g)"
  define left where "left = (if overlap then sint (max (gr_Obytes ?g) (gr_Ibytes ?g)) else sint (gr_Obytes ?g + gr_Ibytes ?g))"
  define off where "off = (if overlap then unat (gr_Obytes ?g) else 0)"
  note n = group_ok_simps(1,2,3) [OF assms(4)]
  have b: "unat (gr_Obytes ?g) + unat (gr_Ibytes ?g) < 2147483648" using assms(4) by (simp add: group_ok_def Let_def)
  then have "unat (gr_Obytes ?g + gr_Ibytes ?g) = unat (gr_Obytes ?g) + unat (gr_Ibytes ?g)"
    by (simp add: unat_word_ariths)
  moreover have "unat (max (gr_Obytes ?g) (gr_Ibytes ?g)) = max (unat (gr_Obytes ?g)) (unat (gr_Ibytes ?g))"
    by (simp add: max_def word_le_nat_alt)
  ultimately have left: "left = int (seg_start ?g ?n)"
    unfolding left_def assms(10) using b by (simp add: sint_small del: of_nat_unat)
  have "0 < unat (gr_Obytes ?g)" using assms(7) by (simp add: unat_gt_0)
  then have nz: "left \<noteq> 0" unfolding left assms(10) by (simp add: max_def del: of_nat_unat)
  have segs: "\<forall>k < ?n. 0 < unat (gr_IOsegment ?g k) \<and> unat (gr_IOsegment ?g k) \<le> 1466" using assms(9) n(3) by blast
  from send_lrw_ok [OF assms(1-4), of EC_CMD_LRW off left "gr_logstartaddr ?g" d "gr_hasdc ?g"]
  obtain cs l la d' fi c' where
    r: "send_segments E grp EC_CMD_LRW (\<lambda>k _. ucast (gr_IOsegment ?g k)) off (0, left, gr_logstartaddr ?g, d, gr_hasdc ?g, c) =
      Some (cs, l, la, d', fi, c')" by (auto simp: runs_to_iff)
  have "layout ?g (d + off) ?n (idxstack c')"
    using if_runsD [OF send_segments_layout [where g = ?g and n = ?n, OF refl refl _ n(2) segs left assms(3)] r] n(1) by simp
  then show ?thesis
    using r nz assms(5-8) unfolding ecx_main_send_processdata_def Let_def left_def off_def
    by (cases overlap) auto
qed

text \<open>
  Receiving always returns and releases the buffer of every frame on the stack, whether its
  answer came in or not; the stack is empty then, no other buffer is taken, and only those bytes of
  the image change that belong to a frame on the stack.
\<close>

theorem receive_processdata_releases:
  assumes "net_ok E now (port c)" "entries_ok c"
  shows "\<exists>w c'. ecx_receive_processdata_group E grp timeout c = Some (w, c') \<and> net_ok E now (port c') \<and>
    pushed (idxstack c') = 0 \<and> pulled (idxstack c') = 0 \<and>
    (\<forall>k. pulled (idxstack c) \<le> k \<and> k < pushed (idxstack c) \<longrightarrow> \<not> in_use (port c') (ix_idx (idxstack c) k)) \<and>
    (\<forall>j. in_use (port c') j \<longrightarrow> in_use (port c) j) \<and>
    (\<forall>i. (\<forall>k. pulled (idxstack c) \<le> k \<and> k < pushed (idxstack c) \<longrightarrow> \<not> covers (idxstack c) k i) \<longrightarrow>
       IOmap c' i = IOmap c i)"
  using receive_all_runs [OF assms, of grp timeout] by (auto simp: runs_to_iff receiving_def)

text \<open>
  C10: a cycle of sending and receiving the process data of a group returns and leaks no buffer:
  afterwards no buffer is in use that was not in use before, and the stack is empty for the next
  cycle.
\<close>

theorem processdata_cycle_leaks_nothing:
  assumes "net_ok E now (port c)" "entries_ok c" "pushed (idxstack c) = 0" "group_ok (grouplist c grp)" "grp < maxgroup c"
  shows "\<exists>w c1 w' c2. ecx_main_send_processdata E grp overlap c = Some (w, c1) \<and>
    ecx_receive_processdata_group E grp timeout c1 = Some (w', c2) \<and> net_ok E now (port c2) \<and>
    pushed (idxstack c2) = 0 \<and> entries_ok c2 \<and> (\<forall>j. in_use (port c2) j \<longrightarrow> in_use (port c) j)"
proof -
  from ecx_main_send_runs [OF assms, of overlap] obtain w c1 where
    1: "ecx_main_send_processdata E grp overlap c = Some (w, c1)" "send_ok E now c c1" by (auto simp: runs_to_iff)
  then have "net_ok E now (port c1)" "entries_ok c1" by (simp_all add: send_ok_def)
  from receive_all_runs [OF this, of grp timeout] obtain w' c2 where
    2: "ecx_receive_processdata_group E grp timeout c1 = Some (w', c2)" "receiving E now c1 (pushed (idxstack c1)) c2"
    "pushed (idxstack c2) = 0" "pulled (idxstack c2) = 0" by (auto simp: runs_to_iff)
  have pull: "pulled (idxstack c1) = 0" using 1(2) assms(2,3) by (simp add: send_ok_def entries_ok_def)
  have "in_use (port c) j" if "in_use (port c2) j" for j
  proof -
    have j: "in_use (port c1) j" using that 2(2) by (simp add: receiving_def)
    have "ix_idx (idxstack c1) k \<noteq> j" if "k < pushed (idxstack c1)" for k
      using that \<open>in_use (port c2) j\<close> 2(2) pull by (auto simp: receiving_def)
    then show ?thesis using j 1(2) by (auto simp: send_ok_def)
  qed
  moreover have "net_ok E now (port c2)" "entries_ok c2" using 2 by (simp_all add: receiving_def entries_ok_def)
  ultimately show ?thesis using 1(1) 2(1,3) by blast
qed

section \<open>Examples\<close>

text \<open>A group with two segments, of 32 output and 16 input bytes, in an otherwise idle context.\<close>

definition io_group :: ec_groupt where
  "io_group = zero_group\<lparr>gr_Obytes := 32, gr_outputs := Some 0, gr_Ibytes := 16, gr_inputs := Some 32, gr_nsegments := 2,
     gr_Isegment := 1, gr_IOsegment := (\<lambda>k. if k = 0 then 32 else 16)\<rparr>"

definition io_ctx :: "(nat \<times> u8 list list) ecx_contextt" where
  "io_ctx = upd_group 0 (\<lambda>_. io_group) (idle_ctx 2 (5, []))"

lemma io_ctx_simps: "port io_ctx = idle_port (5, [])" "idxstack io_ctx = idxstack (idle_ctx 2 (5, []))"
  "grouplist io_ctx 0 = io_group" "maxgroup io_ctx = EC_MAXGROUP"
  by (simp_all add: io_ctx_def upd_group_def) (simp add: idle_ctx_def)

lemma io_group_fields: "gr_blockLRW io_group = 0" "gr_Obytes io_group = 32" "gr_outputs io_group = Some 0"
  "gr_Ibytes io_group = 16" "gr_nsegments io_group = 2" "0 < unat (gr_IOsegment io_group k)"
  by (simp_all add: io_group_def zero_group_def)

lemma io_ctx_ok: "net_ok script_os (\<lambda>(t, q). t * 1000) (port io_ctx)" "entries_ok io_ctx" "group_ok (grouplist io_ctx 0)"
  "pushed (idxstack io_ctx) = 0" "0 < maxgroup io_ctx"
  using good_script_os by (simp_all add: io_ctx_simps net_ok_def entries_ok_def group_ok_def io_group_def zero_group_def)

theorem send_segment_frame_witness:
  "\<exists>c'. send_segment script_os 0 EC_CMD_LRW False 0x10000 32 0 0 io_ctx = Some c' \<and>
     length (parse_dgrams 125 (txbuf (port c') (ix_idx (idxstack c') 0)) 16) = 1"
  using send_segment_frame [where grp = 0 and com = EC_CMD_LRW and first = False and LogAdr = "0x10000" and len = 32
      and data = 0 and store = 0, OF io_ctx_ok(1)] io_ctx_ok(4)
  by (auto simp: segment_dgrams_def Let_def)

theorem send_processdata_partition_witness:
  "\<exists>c'. ecx_main_send_processdata script_os 0 False io_ctx = Some (1, c') \<and>
     pushed (idxstack c') = 2 \<and> ix_data (idxstack c') 1 = Some 32"
proof -
  have "{..<2 :: nat} = {0, 1}" by auto
  then have "seg_start io_group 2 = 48" by (simp add: seg_start_def io_group_def)
  then have "\<exists>c'. ecx_main_send_processdata script_os 0 False io_ctx = Some (1, c') \<and> layout io_group 0 2 (idxstack c')"
    using send_processdata_partition [where overlap = False and d = 0, OF io_ctx_ok(1,2,4,3,5)]
    by (simp add: io_ctx_simps io_group_fields)
  moreover have "seg_start io_group 1 = 32" by (simp add: seg_start_def io_group_def)
  ultimately show ?thesis by (auto simp: layout_def)
qed

theorem receive_processdata_releases_witness:
  "\<exists>w c'. ecx_receive_processdata_group script_os 0 2000 io_ctx = Some (w, c') \<and> pushed (idxstack c') = 0"
  using receive_processdata_releases [OF io_ctx_ok(1,2), of 0 2000] by blast

theorem processdata_cycle_leaks_nothing_witness:
  "\<exists>w c1 w' c2. ecx_main_send_processdata script_os 0 False io_ctx = Some (w, c1) \<and>
     ecx_receive_processdata_group script_os 0 2000 c1 = Some (w', c2) \<and> \<not> in_use (port c2) 3"
proof -
  have "\<not> in_use (port io_ctx) 3" by (simp add: io_ctx_simps in_use_def)
  with processdata_cycle_leaks_nothing [OF io_ctx_ok(1,2,4,3,5), of False 2000] show ?thesis by blast
qed

end
