(* ===== verification/Sii.thy ===== *)
theory Sii
  imports ProcessData
begin

text \<open>
  The slave information interface (\<open>soem/ethercatmain.c\<close>): single bytes of a slave's EEPROM through
  the cache \<open>esibuf\<close> with its bitmap \<open>esimap\<close>, and the categories that are found in it: strings,
  FMMUs, sync managers, process data objects.

  The operations are written over the reader of the level below: \<open>siigetbyte\<close> over the fetch of one
  EEPROM address, the others over the reader of one byte. An \<open>int16\<close> byte address is kept as the
  \<open>uint16\<close> it is converted to at every use.
\<close>

abbreviation (input) EC_MAXEEPBITMAP :: nat where "EC_MAXEEPBITMAP \<equiv> 128"
abbreviation (input) EC_MAXEEPBUF :: nat where "EC_MAXEEPBUF \<equiv> 4096"

section \<open>The cache\<close>

type_synonym 'e sii_fetch = "nat \<Rightarrow> u16 \<Rightarrow> 'e ecx_contextt \<Rightarrow> (u64 \<times> 'e ecx_contextt) option"

definition sii_fetch :: "'e os_ops \<Rightarrow> 'e sii_fetch" where
  "sii_fetch E slave eadr c = do {
     let configadr = sl_configadr (slavelist c slave);
     (_, c) \<leftarrow> ecx_eeprom2master E slave c;
     on_port (ecx_readeepromFP E configadr eadr EC_TIMEOUTEEP) c }"

text \<open>The bits of \<open>cnt\<close> bytes, from bit \<open>mapb\<close> of word \<open>mapw\<close> on.\<close>

definition set_bitmap :: "nat \<Rightarrow> nat \<times> nat \<times> (nat \<Rightarrow> u32) \<Rightarrow> (nat \<times> nat \<times> (nat \<Rightarrow> u32)) option" where
  "set_bitmap cnt = foldM (\<lambda>_ (mapw, mapb, m). do {
     chk (mapw < EC_MAXEEPBITMAP);
     let m = m(mapw := m mapw OR push_bit mapb 1);
     Some (if mapb + 1 > 31 then (mapw + 1, 0, m) else (mapw, mapb + 1, m)) }) [0..<cnt]"

definition siigetbyte :: "'e sii_fetch \<Rightarrow> nat \<Rightarrow> u16 \<Rightarrow> 'e ecx_contextt \<Rightarrow> (u8 \<times> 'e ecx_contextt) option" where
  "siigetbyte fetch slave address c = do {
     let c = (if slave \<noteq> esislave c then c\<lparr>esimap := (\<lambda>_. 0), esislave := slave\<rparr> else c);
     let a = unat address;
     if a < EC_MAXEEPBUF
     then do {
       let mapw = a div 32;
       let mapb = a - mapw * 32;
       if esimap c mapw AND push_bit mapb 1 \<noteq> 0
       then Some (esibuf c a, c)
       else do {
         chk (slave < maxslave c);
         let eadr = drop_bit 1 address;
         (edat64, c) \<leftarrow> fetch slave eadr c;
         let e = unat eadr;
         let cnt = (if sl_eep_8byte (slavelist c slave) \<noteq> 0 then 8 else 4);
         chk (e * 2 + cnt \<le> EC_MAXEEPBUF);
         let c = c\<lparr>esibuf := put_le cnt (esibuf c) (e * 2) edat64\<rparr>;
         let mapw = e div 16;
         let mapb = e * 2 - mapw * 32;
         (_, _, m) \<leftarrow> set_bitmap cnt (mapw, mapb, esimap c);
         let c = c\<lparr>esimap := m\<rparr>;
         Some (esibuf c a, c) } }
     else Some (0xff, c) }"

definition ecx_siigetbyte :: "'e os_ops \<Rightarrow> nat \<Rightarrow> u16 \<Rightarrow> 'e ecx_contextt \<Rightarrow> (u8 \<times> 'e ecx_contextt) option" where
  "ecx_siigetbyte E = siigetbyte (sii_fetch E)"

section \<open>Categories\<close>

type_synonym 'c sii_reader = "u16 \<Rightarrow> 'c \<Rightarrow> (u8 \<times> 'c) option"

text \<open>\<open>p = getbyte(a++); p += getbyte(a++) << 8\<close>.\<close>

definition sii_word :: "'c sii_reader \<Rightarrow> u16 \<Rightarrow> 'c \<Rightarrow> (u16 \<times> 'c) option" where
  "sii_word gb a c = do {
     (lo, c) \<leftarrow> gb a c;
     (hi, c) \<leftarrow> gb (a + 1) c;
     Some (ucast lo + push_bit 8 (ucast hi), c) }"

text \<open>One round of the search: the length of the section at \<open>a\<close>, then the next category.\<close>

definition sii_next :: "'c sii_reader \<Rightarrow> u16 \<times> u16 \<times> 'c \<Rightarrow> (u16 \<times> u16 \<times> 'c) option" where
  "sii_next gb = (\<lambda>(a, p, c). do {
        (p, c) \<leftarrow> sii_word gb a c;
        let a = a + 2 + push_bit 1 p;
        (p, c) \<leftarrow> sii_word gb a c;
        Some (a + 2, p, c) })"

definition sii_find :: "'c sii_reader \<Rightarrow> u16 \<Rightarrow> 'c \<Rightarrow> (u16 \<times> 'c) option" where
  "sii_find gb cat c = do {
     let a = push_bit 1 ECT_SII_START;
     (p, c) \<leftarrow> sii_word gb a c;
     (a, p, c) \<leftarrow> while_do (\<lambda>(a, p, c). p \<noteq> cat \<and> p \<noteq> 0xffff) (sii_next gb) (a + 2, p, c);
     Some (if p \<noteq> cat then 0 else a, c) }"

text \<open>Every operation gives the EEPROM back to the PDI when it found it there.\<close>

definition sii_restore :: "'e os_ops \<Rightarrow> nat \<Rightarrow> u8 \<Rightarrow> 'e ecx_contextt \<Rightarrow> 'e ecx_contextt option" where
  "sii_restore E slave eectl c =
     (if eectl \<noteq> 0 then do { (_, c) \<leftarrow> ecx_eeprom2pdi E slave c; Some c } else Some c)"

definition ecx_siifind :: "'e os_ops \<Rightarrow> nat \<Rightarrow> u16 \<Rightarrow> 'e ecx_contextt \<Rightarrow> (u16 \<times> 'e ecx_contextt) option" where
  "ecx_siifind E slave cat c = do {
     chk (slave < maxslave c);
     let eectl = sl_eep_pdi (slavelist c slave);
     (a, c) \<leftarrow> sii_find (ecx_siigetbyte E slave) cat c;
     c \<leftarrow> sii_restore E slave eectl c;
     Some (a, c) }"

text \<open>
  The string \<open>Sn\<close> of the string section at \<open>a\<close>: \<open>str\<close> is the caller's buffer of \<open>EC_MAXNAME + 1\<close>
  characters as a zero-terminated string, which is left alone when there is no string section.
\<close>

definition sii_skip :: "'c sii_reader \<Rightarrow> nat \<Rightarrow> u16 \<times> 'c \<Rightarrow> (u16 \<times> 'c) option" where
  "sii_skip gb k = foldM (\<lambda>_ (ba, c). do {
     (l, c) \<leftarrow> gb ba c;
     Some (ba + 1 + ucast l, c) }) [0..<k]"

definition sii_copy :: "'c sii_reader \<Rightarrow> nat \<Rightarrow> u16 \<Rightarrow> 'c \<Rightarrow> (u8 list \<times> u16 \<times> 'c) option" where
  "sii_copy gb l ba c = foldM (\<lambda>j (s, ba, c).
     if j < EC_MAXNAME then do { (x, c) \<leftarrow> gb ba c; Some (s @ [x], ba + 1, c) } else Some (s, ba + 1, c)) [0..<l] ([], ba, c)"

definition sii_string :: "'c sii_reader \<Rightarrow> u16 \<Rightarrow> u16 \<Rightarrow> 'c \<Rightarrow> (u8 list \<times> 'c) option" where
  "sii_string gb a Sn c = do {
     let ba = a + 2;
     (n, c) \<leftarrow> gb ba c;
     if unat Sn \<le> unat n \<and> Sn \<noteq> 0
     then do {
       (ba, c) \<leftarrow> sii_skip gb (unat Sn - 1) (ba + 1, c);
       (l, c) \<leftarrow> gb ba c;
       (s, _, c) \<leftarrow> sii_copy gb (unat l) (ba + 1) c;
       Some (s, c) }
     else Some ([], c) }"

definition ecx_siistring :: "'e os_ops \<Rightarrow> u8 list \<Rightarrow> nat \<Rightarrow> u16 \<Rightarrow> 'e ecx_contextt \<Rightarrow>
    (u8 list \<times> 'e ecx_contextt) option" where
  "ecx_siistring E str slave Sn c = do {
     chk (slave < maxslave c);
     let eectl = sl_eep_pdi (slavelist c slave);
     (a, c) \<leftarrow> ecx_siifind E slave ECT_SII_STRING c;
     (str, c) \<leftarrow> (if a > 0 then sii_string (ecx_siigetbyte E slave) a Sn c else Some (str, c));
     c \<leftarrow> sii_restore E slave eectl c;
     Some (str, c) }"

definition ecx_siiFMMU :: "'e os_ops \<Rightarrow> nat \<Rightarrow> ec_eepromFMMUt \<Rightarrow> 'e ecx_contextt \<Rightarrow>
    (u16 \<times> ec_eepromFMMUt \<times> 'e ecx_contextt) option" where
  "ecx_siiFMMU E slave FMMU c = do {
     chk (slave < maxslave c);
     let gb = ecx_siigetbyte E slave;
     let eectl = sl_eep_pdi (slavelist c slave);
     (a, c) \<leftarrow> ecx_siifind E slave ECT_SII_FMMU c;
     let FMMU = \<lparr>ef_Startpos = a, ef_nFMMU = 0, ef_FMMU0 = 0, ef_FMMU1 = 0, ef_FMMU2 = 0, ef_FMMU3 = 0\<rparr>;
     (FMMU, c) \<leftarrow> (if a > 0
       then do {
         (n, c) \<leftarrow> sii_word gb a c;
         (f0, c) \<leftarrow> gb (a + 2) c;
         (f1, c) \<leftarrow> gb (a + 3) c;
         let FMMU = FMMU\<lparr>ef_nFMMU := ucast n * 2, ef_FMMU0 := f0, ef_FMMU1 := f1\<rparr>;
         if ef_nFMMU FMMU > 2
         then do {
           (f2, c) \<leftarrow> gb (a + 4) c;
           (f3, c) \<leftarrow> gb (a + 5) c;
           Some (FMMU\<lparr>ef_FMMU2 := f2, ef_FMMU3 := f3\<rparr>, c) }
         else Some (FMMU, c) }
       else Some (FMMU, c));
     c \<leftarrow> sii_restore E slave eectl c;
     Some (ucast (ef_nFMMU FMMU), FMMU, c) }"

text \<open>The eight bytes of one sync manager.\<close>

definition sii_sm_entry :: "'c sii_reader \<Rightarrow> u16 \<Rightarrow> ec_eepromSMt \<Rightarrow> 'c \<Rightarrow> (ec_eepromSMt \<times> 'c) option" where
  "sii_sm_entry gb a SM c = do {
     (start, c) \<leftarrow> sii_word gb a c;
     (len, c) \<leftarrow> sii_word gb (a + 2) c;
     (creg, c) \<leftarrow> gb (a + 4) c;
     (sreg, c) \<leftarrow> gb (a + 5) c;
     (act, c) \<leftarrow> gb (a + 6) c;
     (pdi, c) \<leftarrow> gb (a + 7) c;
     Some (SM\<lparr>es_PhStart := start, es_Plength := len, es_Creg := creg, es_Sreg := sreg, es_Activate := act,
       es_PDIctrl := pdi\<rparr>, c) }"

definition ecx_siiSM :: "'e os_ops \<Rightarrow> nat \<Rightarrow> ec_eepromSMt \<Rightarrow> 'e ecx_contextt \<Rightarrow>
    (u16 \<times> ec_eepromSMt \<times> 'e ecx_contextt) option" where
  "ecx_siiSM E slave SM c = do {
     chk (slave < maxslave c);
     let gb = ecx_siigetbyte E slave;
     let eectl = sl_eep_pdi (slavelist c slave);
     (a, c) \<leftarrow> ecx_siifind E slave ECT_SII_SM c;
     let SM = SM\<lparr>es_nSM := 0, es_Startpos := a\<rparr>;
     (SM, c) \<leftarrow> (if a > 0
       then do {
         (w, c) \<leftarrow> sii_word gb a c;
         sii_sm_entry gb (a + 2) (SM\<lparr>es_nSM := ucast (w div 4)\<rparr>) c }
       else Some (SM, c));
     c \<leftarrow> sii_restore E slave eectl c;
     Some (ucast (es_nSM SM), SM, c) }"

definition ecx_siiSMnext :: "'e os_ops \<Rightarrow> nat \<Rightarrow> ec_eepromSMt \<Rightarrow> u16 \<Rightarrow> 'e ecx_contextt \<Rightarrow>
    (u16 \<times> ec_eepromSMt \<times> 'e ecx_contextt) option" where
  "ecx_siiSMnext E slave SM n c = do {
     chk (slave < maxslave c);
     let eectl = sl_eep_pdi (slavelist c slave);
     (retVal, SM, c) \<leftarrow> (if n < ucast (es_nSM SM)
       then do {
         (SM, c) \<leftarrow> sii_sm_entry (ecx_siigetbyte E slave) (es_Startpos SM + 2 + n * 8) SM c;
         Some (1, SM, c) }
       else Some (0, SM, c));
     c \<leftarrow> sii_restore E slave eectl c;
     Some (retVal, SM, c) }"

text \<open>
  One PDO of the section: its index, its entries and its sync manager. \<open>PDO\<close> is the record so far,
  \<open>a\<close> the address, \<open>c\<close> counts the words of the section (\<open>cw\<close> below).
\<close>

definition sii_pdo_bits :: "'c sii_reader \<Rightarrow> nat \<Rightarrow> u16 \<times> u16 \<times> u16 \<times> 'c \<Rightarrow> (u16 \<times> u16 \<times> u16 \<times> 'c) option" where
  "sii_pdo_bits gb e = foldM (\<lambda>_ (a, cw, bits, c). do {
     (x, c) \<leftarrow> gb (a + 5) c;
     Some (a + 8, cw + 4, bits + ucast x, c) }) [0..<e]"

definition sii_pdo :: "'c sii_reader \<Rightarrow> ec_eepromPDOt \<times> u16 \<times> u16 \<times> u16 \<times> 'c \<Rightarrow>
    ((ec_eepromPDOt \<times> u16 \<times> u16 \<times> u16 \<times> 'c) \<times> bool) option" where
  "sii_pdo gb = (\<lambda>(PDO, a, cw, Size, c). do {
     let n = unat (ep_nPDO PDO + 1);
     chk (n < EC_MAXEEPDO);
     (ind, c) \<leftarrow> sii_word gb a c;
     (e, c) \<leftarrow> gb (a + 2) c;
     (sm, c) \<leftarrow> gb (a + 3) c;
     let PDO = PDO\<lparr>ep_nPDO := ep_nPDO PDO + 1, ep_Index := (ep_Index PDO)(n := ind),
       ep_BitSize := (ep_BitSize PDO)(n := 0), ep_SyncM := (ep_SyncM PDO)(n := ucast sm)\<rparr>;
     let a = a + 8;
     let cw = cw + 3;
     (PDO, a, cw, Size, c) \<leftarrow> (if unat sm < EC_MAXSM
       then do {
         (a, cw, bits, c) \<leftarrow> sii_pdo_bits gb (unat e) (a, cw, 0, c);
         let PDO = PDO\<lparr>ep_BitSize := (ep_BitSize PDO)(n := bits),
           ep_SMbitsize := (ep_SMbitsize PDO)(unat sm := ep_SMbitsize PDO (unat sm) + bits)\<rparr>;
         Some (PDO, a, cw + 1, Size + bits, c) }
       else Some (PDO, a + 8 * ucast e, cw + 4 * ucast e + 1, Size, c));
     let cw = (if unat (ep_nPDO PDO) \<ge> EC_MAXEEPDO - 1 then ep_Length PDO else cw);
     Some ((PDO, a, cw, Size, c), cw < ep_Length PDO) })"

definition ecx_siiPDO :: "'e os_ops \<Rightarrow> nat \<Rightarrow> ec_eepromPDOt \<Rightarrow> u8 \<Rightarrow> 'e ecx_contextt \<Rightarrow>
    (u32 \<times> ec_eepromPDOt \<times> 'e ecx_contextt) option" where
  "ecx_siiPDO E slave PDO t c = do {
     chk (slave < maxslave c);
     let gb = ecx_siigetbyte E slave;
     let eectl = sl_eep_pdi (slavelist c slave);
     let t = (if t > 1 then 1 else t);
     let PDO = PDO\<lparr>ep_nPDO := 0, ep_Length := 0, ep_Index := (ep_Index PDO)(1 := 0),
       ep_SMbitsize := (\<lambda>i. if i < EC_MAXSM then 0 else ep_SMbitsize PDO i)\<rparr>;
     (a, c) \<leftarrow> ecx_siifind E slave (ECT_SII_PDO + ucast t) c;
     let PDO = PDO\<lparr>ep_Startpos := a\<rparr>;
     (Size, PDO, c) \<leftarrow> (if a > 0
       then do {
         (w, c) \<leftarrow> sii_word gb a c;
         (PDO, _, _, Size, c) \<leftarrow> do_while (sii_pdo gb) (PDO\<lparr>ep_Length := w\<rparr>, a + 2, 1, 0, c);
         Some (Size, PDO, c) }
       else Some (0, PDO, c));
     c \<leftarrow> sii_restore E slave eectl c;
     Some (ucast Size, PDO, c) }"

section \<open>The cache is transparent\<close>

text \<open>Byte \<open>i\<close> is marked as cached.\<close>

definition marked :: "(nat \<Rightarrow> u32) \<Rightarrow> nat \<Rightarrow> bool" where
  "marked m i \<longleftrightarrow> bit (m (i div 32)) (i mod 32)"

lemma marked_set:
  assumes "b < 32"
  shows "marked (m(w := m w OR push_bit b 1)) i \<longleftrightarrow> marked m i \<or> i = w * 32 + b"
proof -
  have "i div 32 = w \<and> i mod 32 = b \<longleftrightarrow> i = w * 32 + b" using assms by auto
  then show ?thesis using assms by (auto simp: marked_def bit_simps)
qed

lemma set_bitmap_runs:
  assumes "w * 32 + b = s" "b < 32" "s + cnt \<le> EC_MAXEEPBUF"
  shows "runs_to (set_bitmap cnt (w, b, m)) (\<lambda>(w', b', m'). \<forall>i. marked m' i \<longleftrightarrow> marked m i \<or> s \<le> i \<and> i < s + cnt)"
proof -
  have "runs_to (set_bitmap cnt (w, b, m)) ((\<lambda>k (w', b', m'). w' * 32 + b' = s + k \<and> b' < 32 \<and>
    (\<forall>i. marked m' i \<longleftrightarrow> marked m i \<or> s \<le> i \<and> i < s + k)) cnt)"
    unfolding set_bitmap_def
  proof (rule foldM_upt_total)
    fix k st assume k: "k < cnt" and "case st of (w', b', m') \<Rightarrow> w' * 32 + b' = s + k \<and> b' < 32 \<and>
      (\<forall>i. marked m' i \<longleftrightarrow> marked m i \<or> s \<le> i \<and> i < s + k)"
    then obtain w' b' m' where st: "st = (w', b', m')" and I: "w' * 32 + b' = s + k" "b' < 32"
      "\<forall>i. marked m' i \<longleftrightarrow> marked m i \<or> s \<le> i \<and> i < s + k" by (cases st) auto
    have "w' < EC_MAXEEPBITMAP" using I(1) k assms(3) by simp
    moreover have "\<forall>i. marked (m'(w' := m' w' OR push_bit b' 1)) i \<longleftrightarrow> marked m i \<or> s \<le> i \<and> i < s + Suc k"
    proof
      fix i
      have "s \<le> i \<and> i < s + Suc k \<longleftrightarrow> s \<le> i \<and> i < s + k \<or> i = s + k" by auto
      then show "marked (m'(w' := m' w' OR push_bit b' 1)) i \<longleftrightarrow> marked m i \<or> s \<le> i \<and> i < s + Suc k"
        by (simp only: marked_set [OF I(2)] I(1) spec [OF I(3), of i] disj_assoc)
    qed
    moreover have "b' + 1 > 31 \<Longrightarrow> (w' + 1) * 32 + 0 = s + Suc k" "\<not> b' + 1 > 31 \<Longrightarrow> w' * 32 + (b' + 1) = s + Suc k"
      "\<not> b' + 1 > 31 \<Longrightarrow> b' + 1 < 32" using I(1,2) by simp_all
    ultimately show "runs_to (case st of (mapw, mapb, m) \<Rightarrow> do {
        chk (mapw < EC_MAXEEPBITMAP);
        let m = m(mapw := m mapw OR push_bit mapb 1);
        Some (if mapb + 1 > 31 then (mapw + 1, 0, m) else (mapw, mapb + 1, m)) })
      (\<lambda>(w', b', m'). w' * 32 + b' = s + Suc k \<and> b' < 32 \<and> (\<forall>i. marked m' i \<longleftrightarrow> marked m i \<or> s \<le> i \<and> i < s + Suc k))"
      unfolding st prod.case Let_def runs_to_simps chk_eq_Some
      by (cases "b' + 1 > 31") (simp_all del: fun_upd_apply)
  qed (use assms in auto)
  then show ?thesis by (rule runs_to_mono) auto
qed

text \<open>What is cached for the slave is its EEPROM image.\<close>

definition coherent :: "buf \<Rightarrow> nat \<Rightarrow> 'e ecx_contextt \<Rightarrow> bool" where
  "coherent img slave c \<longleftrightarrow> esislave c = slave \<longrightarrow> (\<forall>i < EC_MAXEEPBUF. marked (esimap c) i \<longrightarrow> esibuf c i = img i)"

text \<open>
  The fetch answers from the image, in any context that satisfies \<open>I\<close>: it gives eight or four bytes,
  as the slave does, and leaves the cache alone.
\<close>

definition answers :: "'e sii_fetch \<Rightarrow> nat \<Rightarrow> buf \<Rightarrow> ('e ecx_contextt \<Rightarrow> bool) \<Rightarrow> bool" where
  "answers fetch slave img I \<longleftrightarrow>
     (\<forall>c m b s. I c \<longrightarrow> slave < maxslave c \<and> I (c\<lparr>esimap := m\<rparr>) \<and> I (c\<lparr>esibuf := b\<rparr>) \<and> I (c\<lparr>esislave := s\<rparr>)) \<and>
     (\<forall>c a. I c \<longrightarrow> (\<exists>d c'. fetch slave a c = Some (d, c') \<and> I c' \<and> esimap c' = esimap c \<and> esibuf c' = esibuf c \<and>
        esislave c' = esislave c \<and>
        (\<forall>k < (if sl_eep_8byte (slavelist c' slave) \<noteq> 0 then 8 else 4). ucast (drop_bit (8 * k) d) = img (unat a * 2 + k))))"

lemma drop_half: "unat (drop_bit (Suc 0) (a :: u16)) = unat a div 2"
  by (simp add: drop_bit_eq_div unat_div_distrib)

lemma siigetbyte_image:
  assumes f: "answers fetch slave img I" and c: "I c" "coherent img slave c" and a: "unat a < 4089"
  shows "\<exists>c'. siigetbyte fetch slave a c = Some (img (unat a), c') \<and> I c' \<and> coherent img slave c' \<and> marked (esimap c') (unat a)"
proof -
  define c0 where "c0 = (if slave \<noteq> esislave c then c\<lparr>esimap := (\<lambda>_. 0), esislave := slave\<rparr> else c)"
  have I0: "I c0" "slave < maxslave c0" using f c(1) by (simp_all add: c0_def answers_def)
  have c0: "coherent img slave c0" "esislave c0 = slave" using c(2) by (simp_all add: c0_def coherent_def marked_def)
  let ?i = "unat a"
  have bit: "bit (esimap c0 (?i div 32)) (?i - ?i div 32 * 32) \<longleftrightarrow> marked (esimap c0) ?i"
    by (simp add: marked_def minus_div_mult_eq_mod)
  show ?thesis
  proof (cases "marked (esimap c0) ?i")
    case True
    moreover from this have "esibuf c0 ?i = img ?i" using c0 a by (simp add: coherent_def)
    ultimately show ?thesis
      using I0 c0 a bit by (simp add: siigetbyte_def c0_def [symmetric] Let_def and_exp_eq_0_iff_not_bit)
  next
    case False
    let ?e = "?i div 2"
    from f I0(1) obtain d c1 where 1: "fetch slave (drop_bit 1 a) c0 = Some (d, c1)" "I c1" "esimap c1 = esimap c0"
      "esibuf c1 = esibuf c0" "esislave c1 = slave"
      "\<forall>k < (if sl_eep_8byte (slavelist c1 slave) \<noteq> 0 then 8 else 4). ucast (drop_bit (8 * k) d) = img (?e * 2 + k)"
      using c0(2) unfolding answers_def drop_half [symmetric] One_nat_def by blast
    define cnt :: nat where "cnt = (if sl_eep_8byte (slavelist c1 slave) \<noteq> 0 then 8 else 4)"
    have cnt: "cnt \<le> 8" "2 \<le> cnt" by (simp_all add: cnt_def)
    have fit: "?e * 2 + cnt \<le> EC_MAXEEPBUF" and in_range: "?e * 2 \<le> ?i" "?i < ?e * 2 + cnt" using a cnt by linarith+
    define b where "b = put_le cnt (esibuf c0) (?e * 2) d"
    have b: "b j = (if ?e * 2 \<le> j \<and> j < ?e * 2 + cnt then img j else esibuf c0 j)" for j
      using 1(6) by (auto simp: b_def put_le_apply cnt_def [symmetric])
    have pos: "?e div 16 * 32 + (?e * 2 - ?e div 16 * 32) = ?e * 2" "?e * 2 - ?e div 16 * 32 < 32"
      by simp_all
    from set_bitmap_runs [OF pos fit, of "esimap c0"] obtain w' b' m where
      m: "set_bitmap cnt (?e div 16, ?e * 2 - ?e div 16 * 32, esimap c0) = Some (w', b', m)"
      "\<forall>i. marked m i \<longleftrightarrow> marked (esimap c0) i \<or> ?e * 2 \<le> i \<and> i < ?e * 2 + cnt" by (auto simp: runs_to_iff)
    let ?c2 = "c1\<lparr>esibuf := b, esimap := m\<rparr>"
    have "siigetbyte fetch slave a c = Some (b ?i, ?c2)"
      using False I0(2) a fit 1(1,3,4) m(1) bit
      by (simp add: siigetbyte_def c0_def [symmetric] Let_def and_exp_eq_0_iff_not_bit drop_half cnt_def [symmetric] b_def)
    moreover have "I ?c2" using f 1(2) by (simp add: answers_def)
    moreover have "coherent img slave ?c2" using c0 m(2) b by (auto simp: coherent_def)
    ultimately show ?thesis using b in_range m(2) by auto
  qed
qed

section \<open>The categories of an image\<close>

lemma word_of_bytes: "ucast (b a) + push_bit 8 (ucast (b (a + 1)) :: u16) = rd16 (b :: buf) a"
proof -
  have d: "bit (ucast (b a) :: u16) n \<Longrightarrow> \<not> bit (push_bit 8 (ucast (b (a + 1))) :: u16) n" for n
    by (auto simp: bit_simps dest: bit_imp_le_length)
  have "ucast (b a) + push_bit 8 (ucast (b (a + 1))) = (ucast (b a) OR push_bit 8 (ucast (b (a + 1))) :: u16)"
    by (rule disjunctive_add) (use d in auto)
  also have "\<dots> = rd16 b a"
    by (rule bit_word_eqI) (auto simp: get_le_numeral bit_simps dest: bit_imp_le_length)
  finally show ?thesis .
qed

text \<open>
  The list of sections at byte address \<open>a\<close> of an image, each with its category and its length in
  words, closed by an end mark; and the address of the length of the first section of a category.
\<close>

fun sections_at :: "buf \<Rightarrow> nat \<Rightarrow> (u16 \<times> nat) list \<Rightarrow> bool" where
  "sections_at img a [] \<longleftrightarrow> a < 4088 \<and> rd16 img a = 0xffff"
| "sections_at img a ((k, n) # ss) \<longleftrightarrow> a + 2 < 4088 \<and> rd16 img a = k \<and> k \<noteq> 0xffff \<and> rd16 img (a + 2) = of_nat n \<and>
     n < 2048 \<and> sections_at img (a + 4 + 2 * n) ss"

fun section_addr :: "u16 \<Rightarrow> nat \<Rightarrow> (u16 \<times> nat) list \<Rightarrow> nat" where
  "section_addr cat a [] = 0"
| "section_addr cat a ((k, n) # ss) = (if k = cat then a + 2 else section_addr cat (a + 4 + 2 * n) ss)"

lemma sections_at_start: "sections_at img a ss \<Longrightarrow> a < 4088"
  by (cases "(img, a, ss)" rule: sections_at.cases) auto

text \<open>
  The interface between the categories and the byte reader: in a state that satisfies \<open>inv\<close>, the
  reader returns the bytes of \<open>img\<close> at the addresses where it is defined.
\<close>

locale byte_reader =
  fixes inv :: "'c \<Rightarrow> bool" and gb :: "'c sii_reader" and img :: buf
  assumes read_law: "inv c \<Longrightarrow> unat a < 4089 \<Longrightarrow> \<exists>c'. gb a c = Some (img (unat a), c') \<and> inv c'"
begin

lemma word_read:
  assumes "inv c" "unat a < 4088"
  shows "\<exists>c'. sii_word gb a c = Some (rd16 img (unat a), c') \<and> inv c'"
proof -
  have a1: "unat (a + 1) = unat a + 1" using assms(2) by (simp add: unat_word_ariths)
  from read_law [OF assms(1), of a] assms(2) obtain c1 where 1: "gb a c = Some (img (unat a), c1)" "inv c1" by auto
  from read_law [OF 1(2), of "a + 1"] assms(2) a1 obtain c2 where
    2: "gb (a + 1) c1 = Some (img (unat a + 1), c2)" "inv c2" by auto
  have "ucast (img (unat a)) + push_bit 8 (ucast (img (unat a + 1)) :: u16) = rd16 img (unat a)"
    by (rule word_of_bytes)
  with 1 2 show ?thesis by (simp add: sii_word_def)
qed

lemma word_at:
  assumes "inv c" "n < 4088"
  shows "\<exists>c'. sii_word gb (of_nat n) c = Some (rd16 img n, c') \<and> inv c'"
  using word_read [OF assms(1), of "of_nat n"] assms(2) by (simp add: unat_of_nat_u16)

lemma find_sections:
  assumes "inv c" "sections_at img a ss" "cat \<noteq> 0xffff"
  shows "\<exists>x p c'. while_do (\<lambda>(a, p, c). p \<noteq> cat \<and> p \<noteq> 0xffff) (sii_next gb) (of_nat a + 2, rd16 img a, c) = Some (x, p, c') \<and>
    inv c' \<and> (if p \<noteq> cat then 0 else x) = of_nat (section_addr cat a ss)"
  using assms
proof (induction ss arbitrary: a c)
  case Nil
  then show ?case by (subst while_do.simps) auto
next
  case (Cons s ss)
  obtain k n where s: "s = (k, n)" by (cases s)
  from Cons.prems s have k: "a + 2 < 4088" "rd16 img a = k" "k \<noteq> 0xffff" "rd16 img (a + 2) = of_nat n" "n < 2048"
    "sections_at img (a + 4 + 2 * n) ss" by simp_all
  show ?case
  proof (cases "k = cat")
    case True
    then show ?thesis using k Cons.prems s by (subst while_do.simps) auto
  next
    case False
    from word_at [OF Cons.prems(1) k(1)] obtain c1 where
      1: "sii_word gb (of_nat a + 2) c = Some (of_nat n, c1)" "inv c1" unfolding k(4) of_nat_add of_nat_numeral by blast
    let ?b = "a + 4 + 2 * n"
    have b: "(of_nat a + 2 + 2 + push_bit 1 (of_nat n) :: u16) = of_nat ?b" by (simp add: push_bit_double)
    from word_at [OF 1(2) sections_at_start [OF k(6)]] obtain c2 where
      2: "sii_word gb (of_nat ?b) c1 = Some (rd16 img ?b, c2)" "inv c2" by auto
    have "sii_next gb (of_nat a + 2, k, c) = Some (of_nat ?b + 2, rd16 img ?b, c2)"
      unfolding sii_next_def prod.case 1(1) Option.bind.bind_lunit Let_def b 2(1) ..
    then show ?thesis
      using Cons.IH [OF 2(2) k(6) Cons.prems(3)] False k(2,3) s by (subst while_do.simps) simp
  qed
qed

lemma find:
  assumes "inv c" "sections_at img 0x80 ss" "cat \<noteq> 0xffff"
  shows "\<exists>c'. sii_find gb cat c = Some (of_nat (section_addr cat 0x80 ss), c') \<and> inv c'"
proof -
  from word_at [OF assms(1), of "0x80"] obtain c1 where
    1: "sii_word gb 0x80 c = Some (rd16 img 0x80, c1)" "inv c1" by auto
  from find_sections [OF 1(2) assms(2,3)] obtain x p c2 where
    2: "while_do (\<lambda>(a, p, c). p \<noteq> cat \<and> p \<noteq> 0xffff) (sii_next gb) (0x82, rd16 img 0x80, c1) = Some (x, p, c2)" "inv c2"
      "(if p \<noteq> cat then 0 else x) = of_nat (section_addr cat 0x80 ss)" by auto
  have start: "push_bit 1 ECT_SII_START = 0x80" "(0x80 :: u16) + 2 = 0x82" by simp_all
  show ?thesis
    unfolding sii_find_def Let_def start 1(1) Option.bind.bind_lunit prod.case 2(1)
    using 2(2,3) by simp
qed

text \<open>A section that is 0xfffe words long leads back to itself.\<close>

lemma find_loops:
  assumes "inv c" "rd16 img 0x80 = k" "k \<noteq> cat" "k \<noteq> 0xffff" "rd16 img 0x82 = 0xfffe"
  shows "sii_find gb cat c = None"
proof -
  have wrap: "(0x82 :: u16) + 2 + push_bit 1 0xfffe = 0x80" by simp
  have "if_runs (while_do (\<lambda>(a, p, c). p \<noteq> cat \<and> p \<noteq> 0xffff) (sii_next gb) (0x82, k, c1)) (\<lambda>_. False)" if "inv c1" for c1
  proof (rule while_do_partial [where I = "\<lambda>(a, p, c). a = 0x82 \<and> p = k \<and> inv c"], goal_cases)
    case (2 s)
    then obtain d where s: "s = (0x82, k, d)" "inv d" by (cases s) auto
    from word_at [OF s(2), of "0x82"] assms(5) obtain d1 where 1: "sii_word gb 0x82 d = Some (0xfffe, d1)" "inv d1" by auto
    from word_at [OF 1(2), of "0x80"] assms(2) obtain d2 where 2: "sii_word gb 0x80 d1 = Some (k, d2)" "inv d2" by auto
    show ?case
      unfolding s(1) sii_next_def prod.case 1(1) Option.bind.bind_lunit Let_def wrap 2(1) using 2(2) by simp
  qed (use that assms(3,4) in auto)
  moreover from word_at [OF assms(1), of "0x80"] assms(2) obtain c1 where
    1: "sii_word gb 0x80 c = Some (k, c1)" "inv c1" by auto
  ultimately have "while_do (\<lambda>(a, p, c). p \<noteq> cat \<and> p \<noteq> 0xffff) (sii_next gb) (0x82, k, c1) = None"
    by (cases "while_do (\<lambda>(a, p, c). p \<noteq> cat \<and> p \<noteq> 0xffff) (sii_next gb) (0x82, k, c1)") fastforce+
  moreover have start: "push_bit 1 ECT_SII_START = 0x80" "(0x80 :: u16) + 2 = 0x82" by simp_all
  ultimately show ?thesis
    unfolding sii_find_def Let_def start 1(1) Option.bind.bind_lunit prod.case by simp
qed

end

text \<open>The cached reader provides the interface, over every fetch that answers from the image.\<close>

interpretation cached: byte_reader "\<lambda>c. answers fetch slave img I \<and> I c \<and> coherent img slave c"
  "siigetbyte fetch slave" img for fetch :: "'e sii_fetch" and slave img I
  by unfold_locales (use siigetbyte_image in blast)

section \<open>Properties\<close>

text \<open>
  C28: the cache is transparent: in front of a slave whose EEPROM answers from an image, and with
  whatever the cache already holds of that image or of another slave, \<open>siigetbyte\<close> returns the byte of
  the image at the address and leaves a cache that holds nothing but bytes of the image.
\<close>

theorem siigetbyte_transparent:
  assumes "answers fetch slave img I" "I c" "coherent img slave c" "unat a < 4089"
  shows "\<exists>c'. siigetbyte fetch slave a c = Some (img (unat a), c') \<and> coherent img slave c' \<and> I c'"
  using siigetbyte_image [OF assms] by blast

text \<open>
  On an image that holds a list of sections, the search for a category returns the address of the
  length of the first section of that category, and 0 when there is none.
\<close>

theorem siifind_first_section:
  assumes "answers fetch slave img I" "I c" "coherent img slave c" "sections_at img 0x80 ss" "cat \<noteq> 0xffff"
  shows "\<exists>c'. sii_find (siigetbyte fetch slave) cat c = Some (of_nat (section_addr cat 0x80 ss), c') \<and>
    coherent img slave c'"
  using cached.find [of fetch slave img I c ss cat] assms by blast

text \<open>
  The search does not end on an image whose first section has another category and the length
  0xfffe: the address of the next section wraps to the same section.
\<close>

theorem siifind_never_ends:
  assumes "answers fetch slave img I" "I c" "coherent img slave c"
    and "rd16 img 0x80 \<noteq> cat" "rd16 img 0x80 \<noteq> 0xffff" "rd16 img 0x82 = 0xfffe"
  shows "sii_find (siigetbyte fetch slave) cat c = None"
  using cached.find_loops [OF _ refl assms(4,5,6)] assms(1-3) by blast

text \<open>
  The last bytes of the cache cannot be read safely: a read of an address from 4090 on that is
  not cached, from a slave that answers with eight bytes, writes behind the end of the cache.
\<close>

theorem siigetbyte_overrun:
  assumes "4090 \<le> unat a" "unat a < EC_MAXEEPBUF" "esislave c = slave" "\<not> marked (esimap c) (unat a)"
    and "fetch slave (drop_bit 1 a) c = Some (d, c')" "sl_eep_8byte (slavelist c' slave) \<noteq> 0"
  shows "siigetbyte fetch slave a c = None"
proof -
  have "\<not> bit (esimap c (unat a div 32)) (unat a - unat a div 32 * 32)"
    using assms(4) by (simp add: marked_def minus_div_mult_eq_mod)
  moreover have "\<not> unat a div 2 * 2 + 8 \<le> EC_MAXEEPBUF" using assms(1) by linarith
  ultimately show ?thesis
    using assms(2,3,5,6) by (simp add: siigetbyte_def Let_def and_exp_eq_0_iff_not_bit drop_half)
qed

text \<open>
  Whatever the EEPROM holds, a string that is read fits the buffer of a slave's name.
\<close>

theorem sii_string_bounded:
  assumes "sii_string gb a Sn c = Some (s, c')"
  shows "length s \<le> EC_MAXNAME"
proof -
  have copy: "if_runs (sii_copy gb l ba d) (\<lambda>(s, ba, d). length s \<le> EC_MAXNAME)" for l ba d
  proof -
    have "if_runs (sii_copy gb l ba d) (\<lambda>(s, ba, d). length s \<le> min l EC_MAXNAME)"
      unfolding sii_copy_def
    proof (induction l)
      case (Suc l)
      then show ?case
        by (auto simp: foldM_append if_runs_iff bind_eq_Some_conv split: if_splits prod.splits)
    qed simp
    then show ?thesis by (rule if_runs_mono) auto
  qed
  from assms show ?thesis
    using if_runsD [OF copy] by (fastforce simp: sii_string_def Let_def bind_eq_Some_conv split: if_splits)
qed

section \<open>Examples\<close>

text \<open>A fetch straight from an image, for slaves that answer with eight bytes.\<close>

definition img_fetch :: "buf \<Rightarrow> (nat \<times> u8 list list) sii_fetch" where
  "img_fetch img slave a c = Some (rd64 img (unat a * 2), c)"

lemma byte_of_rd64: "k < 8 \<Longrightarrow> ucast (drop_bit (8 * k) (rd64 img x)) = img (x + k)"
proof (rule bit_word_eqI)
  fix n assume "k < 8" "n < LENGTH(8)"
  then have "(8 * k + n) div 8 = k" "(8 * k + n) mod 8 = n" "8 * k + n < 64" by simp_all
  with \<open>k < 8\<close> \<open>n < LENGTH(8)\<close> show "bit (ucast (drop_bit (8 * k) (rd64 img x)) :: u8) n = bit (img (x + k)) n"
    by (simp add: bit_simps bit_get_le)
qed

lemma img_fetch_answers: "answers (img_fetch img) slave img (\<lambda>c. slave < maxslave c)"
  by (auto simp: answers_def img_fetch_def byte_of_rd64)

definition sii_ctx :: "(nat \<times> u8 list list) ecx_contextt" where
  "sii_ctx = upd_slave 1 (\<lambda>s. s\<lparr>sl_eep_8byte := 1\<rparr>) (idle_ctx 2 (5, []))"

lemma sii_ctx_simps: "1 < maxslave sii_ctx" "esislave sii_ctx = 0" "coherent img 1 sii_ctx" "\<not> marked (esimap sii_ctx) i"
  "esimap sii_ctx = (\<lambda>_. 0)" "sl_eep_8byte (slavelist sii_ctx 1) = 1"
  by (simp_all add: sii_ctx_def coherent_def marked_def) (simp add: idle_ctx_def)

text \<open>An image with a general section of two words and a sync manager section of four.\<close>

definition sii_img :: buf where
  "sii_img = wr16 (wr16 (wr16 (wr16 (wr16 zero_buf 0x80 ECT_SII_GENERAL) 0x82 2) 0x88 ECT_SII_SM) 0x8a 4) 0x94 0xffff"

lemma sii_img_sections: "sections_at sii_img 0x80 [(ECT_SII_GENERAL, 2), (ECT_SII_SM, 4)]"
  by (simp add: sii_img_def)

theorem siigetbyte_transparent_witness:
  "\<exists>c'. siigetbyte (img_fetch sii_img) 1 0x80 sii_ctx = Some (0x1e, c')"
proof -
  have "sii_img 0x80 = 0x1e" by (simp add: sii_img_def put_le_apply)
  then show ?thesis
    using siigetbyte_transparent [OF img_fetch_answers sii_ctx_simps(1,3), of "0x80" sii_img] by auto
qed

theorem siifind_first_section_witness:
  "\<exists>c'. sii_find (siigetbyte (img_fetch sii_img) 1) ECT_SII_SM sii_ctx = Some (0x8a, c')"
  using siifind_first_section [OF img_fetch_answers sii_ctx_simps(1,3) sii_img_sections, of ECT_SII_SM] by auto

theorem siifind_never_ends_witness:
  "sii_find (siigetbyte (img_fetch (wr16 (wr16 zero_buf 0x80 1) 0x82 0xfffe)) 1) ECT_SII_SM sii_ctx = None"
  by (rule siifind_never_ends [OF img_fetch_answers sii_ctx_simps(1,3)]) simp_all

theorem siigetbyte_overrun_witness:
  "siigetbyte (img_fetch sii_img) 0 4094 (upd_slave 0 (\<lambda>s. s\<lparr>sl_eep_8byte := 1\<rparr>) sii_ctx) = None"
  by (rule siigetbyte_overrun [where c' = "upd_slave 0 (\<lambda>s. s\<lparr>sl_eep_8byte := 1\<rparr>) sii_ctx"])
    (simp_all add: img_fetch_def sii_ctx_simps marked_def)

theorem sii_string_bounded_witness:
  "\<exists>s c'. sii_string (\<lambda>a c. Some (2, c)) 0x80 1 () = Some (s, c') \<and> length s \<le> EC_MAXNAME"
proof -
  have "sii_string (\<lambda>a c. Some (2, c)) 0x80 1 () = Some ([2, 2], ())"
    by (simp add: sii_string_def sii_copy_def sii_skip_def upt_rec)
  from this sii_string_bounded [OF this] show ?thesis by blast
qed

end
