(* ===== verification/Dc.thy ===== *)
theory Dc
  imports Sii "HOL-Library.Signed_Division"
begin

text \<open>
  Distributed clocks (\<open>soem/ethercatdc.c\<close>): programming the SYNC pulses of a slave, finding the
  slaves with a clock, linking them, and measuring the propagation delays.

  The \<open>int32\<close> and \<open>int64\<close> times are words and wrap around, as the compiled code does; comparisons
  and divisions read them as signed. Not modelled: the line \<open>ecx_dcsync0\<close> prints.
\<close>

abbreviation (input) PORTM0 :: u8 where "PORTM0 \<equiv> 0x01"
abbreviation (input) PORTM1 :: u8 where "PORTM1 \<equiv> 0x02"
abbreviation (input) PORTM2 :: u8 where "PORTM2 \<equiv> 0x04"
abbreviation (input) PORTM3 :: u8 where "PORTM3 \<equiv> 0x08"
abbreviation (input) SyncDelay :: u64 where "SyncDelay \<equiv> 100000000"

text \<open>The division of C, towards zero.\<close>

definition c_sdiv :: "'a::len word \<Rightarrow> 'a word \<Rightarrow> 'a word" where
  "c_sdiv a b = word_of_int (sint a sdiv sint b)"

section \<open>SYNC pulses\<close>

text \<open>
  The start time: \<open>CyclTime\<close> is the cycle that is tested, \<open>TrueCyclTime\<close> the one that is divided by;
  they are the same in \<open>ecx_dcsync0\<close>.
\<close>

definition dc_start :: "u64 \<Rightarrow> u32 \<Rightarrow> u32 \<Rightarrow> u32 \<Rightarrow> u64 option" where
  "dc_start t1 CyclTime TrueCyclTime CyclShift =
     (if CyclTime > 0 then do {
        chk (TrueCyclTime \<noteq> 0);
        Some (c_sdiv (t1 + SyncDelay) (ucast TrueCyclTime) * ucast TrueCyclTime + ucast TrueCyclTime + scast CyclShift) }
      else Some (t1 + SyncDelay + scast CyclShift))"

text \<open>The register accesses both functions share; \<open>cycles\<close> are the cycle registers they set.\<close>

definition dcsync :: "'e reg_read \<Rightarrow> 'e reg_write \<Rightarrow> u8 \<Rightarrow> (u64 \<Rightarrow> u64 option) \<Rightarrow> (u16 \<times> u32) list \<Rightarrow>
    'e ecx_portt \<Rightarrow> 'e ecx_portt option" where
  "dcsync rd wr RA start cycles p = do {
     (_, p) \<leftarrow> wr ECT_REG_DCSYNCACT 1 (var8 0) EC_TIMEOUTRET p;
     (_, p) \<leftarrow> wr ECT_REG_DCCUC 1 (var8 0) EC_TIMEOUTRET p;
     (_, b, p) \<leftarrow> rd ECT_REG_DCSYSTIME 8 (var64 0) EC_TIMEOUTRET p;
     t \<leftarrow> start (rd64 b 0);
     (_, p) \<leftarrow> wr ECT_REG_DCSTART0 8 (var64 t) EC_TIMEOUTRET p;
     p \<leftarrow> foldM (\<lambda>(reg, tc) p. do {
        (_, p) \<leftarrow> wr reg 4 (var32 tc) EC_TIMEOUTRET p;
        Some p }) cycles p;
     (_, p) \<leftarrow> wr ECT_REG_DCSYNCACT 1 (var8 RA) EC_TIMEOUTRET p;
     Some p }"

definition dcsync0 :: "'e reg_read \<Rightarrow> 'e reg_write \<Rightarrow> u8 \<Rightarrow> u32 \<Rightarrow> u32 \<Rightarrow> 'e ecx_portt \<Rightarrow> 'e ecx_portt option" where
  "dcsync0 rd wr act CyclTime CyclShift =
     dcsync rd wr (if act \<noteq> 0 then 1 + 2 else 0) (\<lambda>t1. dc_start t1 CyclTime CyclTime CyclShift)
       [(ECT_REG_DCCYCLE0, CyclTime)]"

definition dcsync01 :: "'e reg_read \<Rightarrow> 'e reg_write \<Rightarrow> u8 \<Rightarrow> u32 \<Rightarrow> u32 \<Rightarrow> u32 \<Rightarrow> 'e ecx_portt \<Rightarrow> 'e ecx_portt option" where
  "dcsync01 rd wr act CyclTime0 CyclTime1 CyclShift p = do {
     chk (CyclTime0 \<noteq> 0);
     let TrueCyclTime = (CyclTime1 div CyclTime0 + 1) * CyclTime0;
     dcsync rd wr (if act \<noteq> 0 then 1 + 2 + 4 else 0) (\<lambda>t1. dc_start t1 CyclTime0 TrueCyclTime CyclShift)
       [(ECT_REG_DCCYCLE0, CyclTime0), (ECT_REG_DCCYCLE1, CyclTime1)] p }"

definition set_dcactive :: "nat \<Rightarrow> u8 \<Rightarrow> u32 \<Rightarrow> u32 \<Rightarrow> 'e ecx_contextt \<Rightarrow> 'e ecx_contextt" where
  "set_dcactive slave act CyclTime CyclShift =
     upd_slave slave (\<lambda>s. s\<lparr>sl_DCactive := act, sl_DCshift := CyclShift, sl_DCcycle := CyclTime\<rparr>)"

text \<open>The value read last is only printed; it is uninitialised when the slave does not answer.\<close>

definition ecx_dcsync0 :: "'e os_ops \<Rightarrow> nat \<Rightarrow> u8 \<Rightarrow> u32 \<Rightarrow> u32 \<Rightarrow> 'e ecx_contextt \<Rightarrow> 'e ecx_contextt option" where
  "ecx_dcsync0 E slave act CyclTime CyclShift c = do {
     chk (slave < maxslave c);
     let slaveh = sl_configadr (slavelist c slave);
     p \<leftarrow> dcsync0 (ecx_FPRD E slaveh) (ecx_FPWR E slaveh) act CyclTime CyclShift (port c);
     let c = set_dcactive slave act CyclTime CyclShift (c\<lparr>port := p\<rparr>);
     (_, _, c) \<leftarrow> on_port2 (ecx_FPRD E slaveh ECT_REG_DCSYNCACT 1 zero_buf (2 * EC_TIMEOUTRET)) c;
     Some c }"

definition ecx_dcsync01 :: "'e os_ops \<Rightarrow> nat \<Rightarrow> u8 \<Rightarrow> u32 \<Rightarrow> u32 \<Rightarrow> u32 \<Rightarrow> 'e ecx_contextt \<Rightarrow> 'e ecx_contextt option" where
  "ecx_dcsync01 E slave act CyclTime0 CyclTime1 CyclShift c = do {
     chk (slave < maxslave c);
     let slaveh = sl_configadr (slavelist c slave);
     p \<leftarrow> dcsync01 (ecx_FPRD E slaveh) (ecx_FPWR E slaveh) act CyclTime0 CyclTime1 CyclShift (port c);
     Some (set_dcactive slave act CyclTime0 CyclShift (c\<lparr>port := p\<rparr>)) }"

section \<open>Ports\<close>

definition ecx_porttime :: "'e ecx_contextt \<Rightarrow> nat \<Rightarrow> u8 \<Rightarrow> u32" where
  "ecx_porttime c slave prt = (let s = slavelist c slave in
     if prt = 0 then sl_DCrtA s else if prt = 1 then sl_DCrtB s else if prt = 2 then sl_DCrtC s
     else if prt = 3 then sl_DCrtD s else 0)"

definition ecx_prevport :: "'e ecx_contextt \<Rightarrow> nat \<Rightarrow> u8 \<Rightarrow> u8" where
  "ecx_prevport c slave prt = (let aport = sl_activeports (slavelist c slave) in
     if prt = 0 then
       if aport AND PORTM2 \<noteq> 0 then 2 else if aport AND PORTM1 \<noteq> 0 then 1 else if aport AND PORTM3 \<noteq> 0 then 3 else prt
     else if prt = 1 then
       if aport AND PORTM3 \<noteq> 0 then 3 else if aport AND PORTM0 \<noteq> 0 then 0 else if aport AND PORTM2 \<noteq> 0 then 2 else prt
     else if prt = 2 then
       if aport AND PORTM1 \<noteq> 0 then 1 else if aport AND PORTM3 \<noteq> 0 then 3 else if aport AND PORTM0 \<noteq> 0 then 0 else prt
     else if prt = 3 then
       if aport AND PORTM0 \<noteq> 0 then 0 else if aport AND PORTM2 \<noteq> 0 then 2 else if aport AND PORTM1 \<noteq> 0 then 1 else prt
     else prt)"

definition ecx_parentport :: "nat \<Rightarrow> 'e ecx_contextt \<Rightarrow> u8 \<times> 'e ecx_contextt" where
  "ecx_parentport parent c = (let
       b = sl_consumedports (slavelist c parent);
       (parentport, b) =
         (if b AND PORTM3 \<noteq> 0 then (3, b AND NOT PORTM3)
          else if b AND PORTM1 \<noteq> 0 then (1, b AND NOT PORTM1)
          else if b AND PORTM2 \<noteq> 0 then (2, b AND NOT PORTM2)
          else if b AND PORTM0 \<noteq> 0 then (0, b AND NOT PORTM0)
          else (0, b))
     in (parentport, upd_slave parent (\<lambda>s. s\<lparr>sl_consumedports := b\<rparr>) c))"

section \<open>Finding the clocks\<close>

text \<open>
  The slave joins the chain of clocks behind \<open>prevDCslave\<close>; slave 0 and the group of the first clock
  hold the head of the chain.
\<close>

definition dc_link :: "nat \<Rightarrow> nat \<Rightarrow> 'e ecx_contextt \<Rightarrow> 'e ecx_contextt option" where
  "dc_link i prevDCslave c =
     (if \<not> sl_hasdc (slavelist c 0) then do {
        let c = upd_slave 0 (\<lambda>s. s\<lparr>sl_hasdc := True, sl_DCnext := of_nat i\<rparr>) c;
        let c = upd_slave i (\<lambda>s. s\<lparr>sl_DCprevious := 0\<rparr>) c;
        let g = unat (sl_group (slavelist c i));
        chk (g < maxgroup c);
        Some (upd_group g (\<lambda>s. s\<lparr>gr_hasdc := True, gr_DCnext := of_nat i\<rparr>) c) }
      else do {
        let c = upd_slave prevDCslave (\<lambda>s. s\<lparr>sl_DCnext := of_nat i\<rparr>) c;
        Some (upd_slave i (\<lambda>s. s\<lparr>sl_DCprevious := of_nat prevDCslave\<rparr>) c) })"

text \<open>
  The receive times of the four ports, and the offset register that sets the slave's clock to the
  master's. The variables \<open>ht\<close> and \<open>hrt\<close> keep their value when a read is not answered.
\<close>

definition dc_latch :: "'e os_ops \<Rightarrow> u64 \<Rightarrow> nat \<Rightarrow> u32 \<times> u64 \<times> 'e ecx_contextt \<Rightarrow> (u32 \<times> u64 \<times> 'e ecx_contextt) option" where
  "dc_latch E mastertime64 i = (\<lambda>(ht, hrt, c). do {
     let slaveh = sl_configadr (slavelist c i);
     (_, b, c) \<leftarrow> on_port2 (ecx_FPRD E slaveh ECT_REG_DCTIME0 4 (var32 ht) EC_TIMEOUTRET) c;
     let ht = rd32 b 0;
     let c = upd_slave i (\<lambda>s. s\<lparr>sl_DCrtA := ht\<rparr>) c;
     (_, b, c) \<leftarrow> on_port2 (ecx_FPRD E slaveh ECT_REG_DCSOF 8 (var64 hrt) EC_TIMEOUTRET) c;
     let hrt = - rd64 b 0 + mastertime64;
     (_, c) \<leftarrow> on_port (ecx_FPWR E slaveh ECT_REG_DCSYSOFFSET 8 (var64 hrt) EC_TIMEOUTRET) c;
     (_, b, c) \<leftarrow> on_port2 (ecx_FPRD E slaveh ECT_REG_DCTIME1 4 (var32 ht) EC_TIMEOUTRET) c;
     let ht = rd32 b 0;
     let c = upd_slave i (\<lambda>s. s\<lparr>sl_DCrtB := ht\<rparr>) c;
     (_, b, c) \<leftarrow> on_port2 (ecx_FPRD E slaveh ECT_REG_DCTIME2 4 (var32 ht) EC_TIMEOUTRET) c;
     let ht = rd32 b 0;
     let c = upd_slave i (\<lambda>s. s\<lparr>sl_DCrtC := ht\<rparr>) c;
     (_, b, c) \<leftarrow> on_port2 (ecx_FPRD E slaveh ECT_REG_DCTIME3 4 (var32 ht) EC_TIMEOUTRET) c;
     let ht = rd32 b 0;
     let c = upd_slave i (\<lambda>s. s\<lparr>sl_DCrtD := ht\<rparr>) c;
     Some (ht, hrt, c) })"

text \<open>The active ports with their times (\<open>plist\<close>, \<open>tlist\<close>), and the one with the lowest time.\<close>

definition dc_ports :: "ec_slavet \<Rightarrow> (u8 \<times> u32) list" where
  "dc_ports s =
     (if sl_activeports s AND PORTM0 \<noteq> 0 then [(0, sl_DCrtA s)] else []) @
     (if sl_activeports s AND PORTM3 \<noteq> 0 then [(3, sl_DCrtD s)] else []) @
     (if sl_activeports s AND PORTM1 \<noteq> 0 then [(1, sl_DCrtB s)] else []) @
     (if sl_activeports s AND PORTM2 \<noteq> 0 then [(2, sl_DCrtC s)] else [])"

definition dc_entry :: "(u8 \<times> u32) list \<Rightarrow> u8 option" where
  "dc_entry l = do {
     let e = 0;
     let e = (if length l > 1 \<and> sint (snd (l ! 1)) < sint (snd (l ! e)) then 1 else e);
     let e = (if length l > 2 \<and> sint (snd (l ! 2)) < sint (snd (l ! e)) then 2 else e);
     let e = (if length l > 3 \<and> sint (snd (l ! 3)) < sint (snd (l ! e)) then 3 else e);
     chk (e < length l);
     Some (fst (l ! e)) }"

definition dc_entryport :: "nat \<Rightarrow> 'e ecx_contextt \<Rightarrow> 'e ecx_contextt option" where
  "dc_entryport i c = do {
     entryport \<leftarrow> dc_entry (dc_ports (slavelist c i));
     Some (upd_slave i (\<lambda>s. s\<lparr>sl_entryport := entryport,
       sl_consumedports := sl_consumedports s AND NOT (push_bit (unat entryport) 1)\<rparr>) c) }"

definition dc_find_parent :: "'e ecx_contextt \<Rightarrow> nat \<Rightarrow> (nat \<times> nat) option" where
  "dc_find_parent c i = do_while (\<lambda>(child, parent). do {
     let child = parent;
     chk (parent < maxslave c);
     let parent = unat (sl_parent (slavelist c parent));
     chk (parent < maxslave c);
     Some ((child, parent), \<not> (parent = 0 \<or> sl_hasdc (slavelist c parent))) }) (i, i)"

text \<open>The propagation delay of a slave below \<open>parent\<close>, on the branch of its child \<open>child\<close>.\<close>

definition dc_delay :: "nat \<Rightarrow> nat \<Rightarrow> nat \<Rightarrow> 'e ecx_contextt \<Rightarrow> u32" where
  "dc_delay i child parent c = (let
       s = slavelist c i;
       pp = sl_parentport s;
       dt3 = ecx_porttime c parent pp - ecx_porttime c parent (ecx_prevport c parent pp);
       dt1 = (if sl_topology s > 1
              then ecx_porttime c i (ecx_prevport c i (sl_entryport s)) - ecx_porttime c i (sl_entryport s) else 0);
       dt1 = (if sint dt1 > sint dt3 then - dt1 else dt1);
       dt2 = (if int child - int parent > 1
              then ecx_porttime c parent (ecx_prevport c parent pp) -
                ecx_porttime c parent (sl_entryport (slavelist c parent)) else 0);
       dt2 = (if sint dt2 < 0 then - dt2 else dt2)
     in c_sdiv (dt3 - dt1) 2 + dt2 + sl_pdelay (slavelist c parent))"

definition dc_propagate :: "'e os_ops \<Rightarrow> nat \<Rightarrow> u32 \<times> 'e ecx_contextt \<Rightarrow> (u32 \<times> 'e ecx_contextt) option" where
  "dc_propagate E i = (\<lambda>(ht, c). do {
     (child, parent) \<leftarrow> dc_find_parent c i;
     if parent > 0 then do {
       let (pp, c) = ecx_parentport parent c;
       let c = upd_slave i (\<lambda>s. s\<lparr>sl_parentport := pp\<rparr>) c;
       let c = (if sl_topology (slavelist c parent) = 1
                then upd_slave i (\<lambda>s. s\<lparr>sl_parentport := sl_entryport (slavelist c parent)\<rparr>) c else c);
       let ht = dc_delay i child parent c;
       let c = upd_slave i (\<lambda>s. s\<lparr>sl_pdelay := ht\<rparr>) c;
       (_, c) \<leftarrow> on_port (ecx_FPWR E (sl_configadr (slavelist c i)) ECT_REG_DCSYSDELAY 4 (var32 ht) EC_TIMEOUTRET) c;
       Some (ht, c) }
     else Some (ht, c) })"

text \<open>A slave without a clock: a branch of the topology without clocks consumes a port of its root.\<close>

definition dc_skip :: "nat \<Rightarrow> nat \<times> 'e ecx_contextt \<Rightarrow> (nat \<times> 'e ecx_contextt) option" where
  "dc_skip i = (\<lambda>(parenthold, c). do {
     let c = upd_slave i (\<lambda>s. s\<lparr>sl_DCrtA := 0, sl_DCrtB := 0, sl_DCrtC := 0, sl_DCrtD := 0\<rparr>) c;
     let parent = unat (sl_parent (slavelist c i));
     chk (parent < maxslave c);
     let parenthold = (if parent > 0 \<and> sl_topology (slavelist c parent) > 2 then parent else parenthold);
     Some (if parenthold \<noteq> 0 \<and> sl_topology (slavelist c i) = 1
           then (0, snd (ecx_parentport parenthold c)) else (parenthold, c)) })"

type_synonym 'e dc_state = "nat \<times> nat \<times> u32 \<times> u64 \<times> 'e ecx_contextt"

definition dc_slave :: "'e os_ops \<Rightarrow> u64 \<Rightarrow> nat \<Rightarrow> 'e dc_state \<Rightarrow> 'e dc_state option" where
  "dc_slave E mastertime64 i = (\<lambda>(parenthold, prevDCslave, ht, hrt, c). do {
     chk (i < maxslave c);
     let c = upd_slave i (\<lambda>s. s\<lparr>sl_consumedports := sl_activeports s\<rparr>) c;
     if sl_hasdc (slavelist c i) then do {
       c \<leftarrow> dc_link i prevDCslave c;
       (ht, hrt, c) \<leftarrow> dc_latch E mastertime64 i (ht, hrt, c);
       c \<leftarrow> dc_entryport i c;
       (ht, c) \<leftarrow> dc_propagate E i (ht, c);
       Some (0, i, ht, hrt, c) }
     else do {
       (parenthold, c) \<leftarrow> dc_skip i (parenthold, c);
       Some (parenthold, prevDCslave, ht, hrt, c) } })"

text \<open>\<open>hrt\<close> is the uninitialised value of the variable of that name.\<close>

definition ecx_configdc :: "'e os_ops \<Rightarrow> u64 \<Rightarrow> 'e ecx_contextt \<Rightarrow> (bool \<times> 'e ecx_contextt) option" where
  "ecx_configdc E hrt c = do {
     chk (0 < maxslave c \<and> 0 < maxgroup c);
     let c = upd_slave 0 (\<lambda>s. s\<lparr>sl_hasdc := False\<rparr>) c;
     let c = upd_group 0 (\<lambda>g. g\<lparr>gr_hasdc := False\<rparr>) c;
     (_, c) \<leftarrow> on_port (ecx_BWR E 0 ECT_REG_DCTIME0 4 (var32 0) EC_TIMEOUTRET) c;
     let (mastertime, e) = osal_current_time E (os (port c));
     let c = c\<lparr>port := (port c)\<lparr>os := e\<rparr>\<rparr>;
     let sec = tm_sec mastertime - 946684800;
     let mastertime64 = (ucast sec * 1000000 + ucast (tm_usec mastertime)) * 1000;
     (_, _, _, _, c) \<leftarrow> foldM (dc_slave E mastertime64) [1..<slavecount c + 1] (0, 0, 0, hrt, c);
     Some (sl_hasdc (slavelist c 0), c) }"

section \<open>Ports in their order\<close>

text \<open>
  The order in which frames pass the ports of a slave, the ports before one of them (nearest first),
  and the first of some ports that is set in a port mask.
\<close>

definition dc_order :: "u8 list" where
  "dc_order = [0, 3, 1, 2]"

definition ports_before :: "u8 \<Rightarrow> u8 list" where
  "ports_before q = rev (tl (dropWhile (\<lambda>x. x \<noteq> q) dc_order) @ takeWhile (\<lambda>x. x \<noteq> q) dc_order)"

definition first_set :: "u8 \<Rightarrow> u8 list \<Rightarrow> u8 option" where
  "first_set m ports = find (\<lambda>q. bit m (unat q)) ports"

lemma port_bits:
  "(a :: u8) AND PORTM0 \<noteq> 0 \<longleftrightarrow> bit a 0" "a AND PORTM1 \<noteq> 0 \<longleftrightarrow> bit a 1"
  "a AND PORTM2 \<noteq> 0 \<longleftrightarrow> bit a 2" "a AND PORTM3 \<noteq> 0 \<longleftrightarrow> bit a 3"
  using bit_iff_and_push_bit_not_eq_0 [of a 0] bit_iff_and_push_bit_not_eq_0 [of a 1]
    bit_iff_and_push_bit_not_eq_0 [of a 2] bit_iff_and_push_bit_not_eq_0 [of a 3]
  by simp_all

section \<open>The start time\<close>

lemma sint_of_int64: "- (2 ^ 63) \<le> x \<Longrightarrow> x < 2 ^ 63 \<Longrightarrow> sint (word_of_int x :: u64) = x"
  by (simp add: sint_sbintrunc' signed_take_bit_int_eq_self)

lemma sdiv_pos: "0 \<le> a \<Longrightarrow> 0 < b \<Longrightarrow> a sdiv b = a div (b :: int)"
  by (cases "a = 0") (simp_all add: signed_divide_int_def)

lemma sint_ucast32: "sint (ucast (x :: u32) :: u64) = uint x"
proof -
  have x: "uint x < 2 ^ 32" using uint_lt2p [of x] by simp
  have "sint (word_of_int (uint x) :: u64) = uint x"
    by (rule sint_of_int64) (rule order_trans [OF _ uint_ge_0] less_trans [OF x], simp)+
  then show ?thesis by simp
qed

lemma dc_start_value:
  assumes t1: "0 \<le> sint t1" "sint t1 < 2 ^ 62" and C: "C \<noteq> 0"
  shows "\<exists>t. dc_start t1 C C shift = Some t \<and> uint C dvd sint t - sint shift \<and>
    sint t1 + 100000000 < sint t - sint shift \<and> sint t - sint shift \<le> sint t1 + 100000000 + uint C"
proof -
  have C': "0 < uint C" "uint C < 2 ^ 32" using C uint_lt2p [of C] uint_ge_0 [of C] by (simp_all add: uint_0_iff less_le)
  have sh: "- (2 ^ 31) \<le> sint shift" "sint shift < 2 ^ 31" using sint_lt [of shift] sint_ge [of shift] by simp_all
  define q where "q = (sint t1 + 100000000) div uint C"
  have "t1 + SyncDelay = word_of_int (sint t1 + 100000000)" by simp
  then have a: "sint (t1 + SyncDelay) = sint t1 + 100000000"
    using t1 by (simp only:) (rule sint_of_int64; simp)
  have q: "q * uint C \<le> sint t1 + 100000000" "sint t1 + 100000000 < q * uint C + uint C"
    using C' div_mult_mod_eq [of "sint t1 + 100000000" "uint C"] pos_mod_bound [of "uint C" "sint t1 + 100000000"]
      pos_mod_sign [of "uint C" "sint t1 + 100000000"] unfolding q_def by linarith+
  have "c_sdiv (t1 + SyncDelay) (ucast C) = word_of_int q"
    using t1 C' by (simp add: c_sdiv_def a sint_ucast32 sdiv_pos q_def)
  then have t: "dc_start t1 C C shift = Some (word_of_int (q * uint C + uint C + sint shift))"
    using C by (simp add: dc_start_def word_gt_0)
  have "sint (word_of_int (q * uint C + uint C + sint shift) :: u64) = q * uint C + uint C + sint shift"
    using q C' t1 sh by (intro sint_of_int64) simp_all
  with t q show ?thesis by (simp add: algebra_simps)
qed

text \<open>
  A slave whose register writes are logged, and that gives \<open>systime\<close> when it is asked for its time.
\<close>

definition logs_writes :: "'e reg_read \<Rightarrow> 'e reg_write \<Rightarrow> ('e ecx_portt \<Rightarrow> (u16 \<times> u8 list) list) \<Rightarrow> u64 \<Rightarrow> bool" where
  "logs_writes rd wr log systime \<longleftrightarrow>
     (\<forall>ADO n b t p. \<exists>p'. wr ADO n b t p = Some (1, p') \<and> log p' = log p @ [(ADO, bytes_of b 0 (unat n))]) \<and>
     (\<forall>b t p. \<exists>p'. rd ECT_REG_DCSYSTIME 8 b t p = Some (1, memcpy b 0 (var64 systime) 0 8, p') \<and> log p' = log p)"

lemma logs_writes_wr:
  assumes "logs_writes rd wr log systime"
  shows "\<exists>p'. wr ADO n b t p = Some (1, p') \<and> log p' = log p @ [(ADO, bytes_of b 0 (unat n))]"
  using assms unfolding logs_writes_def by metis

lemma dcsync_logs:
  assumes L: "logs_writes rd wr log systime" and start: "start systime = Some t"
  shows "\<exists>p'. dcsync rd wr RA start cycles p = Some p' \<and> log p' = log p @
    [(ECT_REG_DCSYNCACT, [0]), (ECT_REG_DCCUC, [0]), (ECT_REG_DCSTART0, bytes_of (var64 t) 0 8)] @
    map (\<lambda>(reg, tc). (reg, bytes_of (var32 tc) 0 4)) cycles @ [(ECT_REG_DCSYNCACT, [RA])]"
proof -
  obtain p1 where 1: "wr ECT_REG_DCSYNCACT 1 (var8 0) EC_TIMEOUTRET p = Some (1, p1)" "log p1 = log p @ [(ECT_REG_DCSYNCACT, [0])]"
    using logs_writes_wr [OF L, of ECT_REG_DCSYNCACT 1 "var8 0" EC_TIMEOUTRET p] by (auto simp: bytes_of_def)
  obtain p2 where 2: "wr ECT_REG_DCCUC 1 (var8 0) EC_TIMEOUTRET p1 = Some (1, p2)" "log p2 = log p1 @ [(ECT_REG_DCCUC, [0])]"
    using logs_writes_wr [OF L, of ECT_REG_DCCUC 1 "var8 0" EC_TIMEOUTRET p1] by (auto simp: bytes_of_def)
  obtain p3 where 3: "rd ECT_REG_DCSYSTIME 8 (var64 0) EC_TIMEOUTRET p2 =
      Some (1, memcpy (var64 0) 0 (var64 systime) 0 8, p3)" "log p3 = log p2"
    using L unfolding logs_writes_def by metis
  have time: "rd64 (memcpy (var64 0) 0 (var64 systime) 0 8) 0 = systime"
  proof -
    have "rd64 (memcpy (var64 0) 0 (var64 systime) 0 8) 0 = rd64 (var64 systime) 0"
      by (rule get_le_cong) (simp add: memcpy_apply)
    then show ?thesis by simp
  qed
  obtain p4 where 4: "wr ECT_REG_DCSTART0 8 (var64 t) EC_TIMEOUTRET p3 = Some (1, p4)"
    "log p4 = log p3 @ [(ECT_REG_DCSTART0, bytes_of (var64 t) 0 8)]"
    using logs_writes_wr [OF L, of ECT_REG_DCSTART0 8 "var64 t" EC_TIMEOUTRET p3] by auto
  have "\<exists>q'. foldM (\<lambda>(reg, tc) p. do { (_, p) \<leftarrow> wr reg 4 (var32 tc) EC_TIMEOUTRET p; Some p }) cycles q = Some q' \<and>
      log q' = log q @ map (\<lambda>(reg, tc). (reg, bytes_of (var32 tc) 0 4)) cycles" for q
  proof (induction cycles arbitrary: q)
    case (Cons x cycles)
    obtain reg tc where x: "x = (reg, tc)" by fastforce
    obtain q1 where q1: "wr reg 4 (var32 tc) EC_TIMEOUTRET q = Some (1, q1)" "log q1 = log q @ [(reg, bytes_of (var32 tc) 0 4)]"
      using logs_writes_wr [OF L, of reg 4 "var32 tc" EC_TIMEOUTRET q] by auto
    with Cons.IH [of q1] show ?case by (auto simp: x)
  qed simp
  then obtain p5 where 5: "foldM (\<lambda>(reg, tc) p. do { (_, p) \<leftarrow> wr reg 4 (var32 tc) EC_TIMEOUTRET p; Some p }) cycles p4 = Some p5"
    "log p5 = log p4 @ map (\<lambda>(reg, tc). (reg, bytes_of (var32 tc) 0 4)) cycles" by blast
  obtain p6 where 6: "wr ECT_REG_DCSYNCACT 1 (var8 RA) EC_TIMEOUTRET p5 = Some (1, p6)" "log p6 = log p5 @ [(ECT_REG_DCSYNCACT, [RA])]"
    using logs_writes_wr [OF L, of ECT_REG_DCSYNCACT 1 "var8 RA" EC_TIMEOUTRET p5] by (auto simp: bytes_of_def)
  have "dcsync rd wr RA start cycles p = Some p6"
    unfolding dcsync_def by (simp only: 1 2 3 4 5 6 time start Option.bind.bind_lunit prod.case Let_def)
  then show ?thesis by (simp add: 1 2 3 4 5 6)
qed

text \<open>
  \<open>ecx_dcsync0\<close> programs a slave in this order: the cyclic unit is stopped, handed to the master,
  given its start and cycle time, and activated (or left stopped). The start time without the shift
  is a whole multiple of the cycle, the first one that is later than the time of the slave plus the
  delay of 100 ms.
\<close>

theorem dcsync0_programs:
  assumes "logs_writes rd wr log systime" "0 \<le> sint systime" "sint systime < 2 ^ 62" "CyclTime \<noteq> 0"
  shows "\<exists>p' t. dcsync0 rd wr act CyclTime CyclShift p = Some p' \<and>
    log p' = log p @ [(ECT_REG_DCSYNCACT, [0]), (ECT_REG_DCCUC, [0]), (ECT_REG_DCSTART0, bytes_of (var64 t) 0 8),
      (ECT_REG_DCCYCLE0, bytes_of (var32 CyclTime) 0 4), (ECT_REG_DCSYNCACT, [if act \<noteq> 0 then 3 else 0])] \<and>
    uint CyclTime dvd sint t - sint CyclShift \<and> sint systime + 100000000 < sint t - sint CyclShift \<and>
    sint t - sint CyclShift \<le> sint systime + 100000000 + uint CyclTime"
proof -
  from dc_start_value [OF assms(2-4)] obtain t where t: "dc_start systime CyclTime CyclTime CyclShift = Some t"
    "uint CyclTime dvd sint t - sint CyclShift" "sint systime + 100000000 < sint t - sint CyclShift"
    "sint t - sint CyclShift \<le> sint systime + 100000000 + uint CyclTime" by blast
  from dcsync_logs [OF assms(1), of "\<lambda>t1. dc_start t1 CyclTime CyclTime CyclShift", OF t(1)] t(2-4)
  show ?thesis unfolding dcsync0_def by fastforce
qed

text \<open>
  The port before an active port is the nearest active one in the order 0, 3, 1, 2, and the port
  of a parent that a slave is attributed to is the first unconsumed one in the order 3, 1, 2, 0, which
  is then consumed.
\<close>

theorem ports_in_order:
  assumes "q \<in> set dc_order"
  shows "ecx_prevport c slave q =
      (case first_set (sl_activeports (slavelist c slave)) (ports_before q) of Some r \<Rightarrow> r | None \<Rightarrow> q) \<and>
    ecx_parentport slave c = (let b = sl_consumedports (slavelist c slave) in
      case first_set b [3, 1, 2, 0] of
        Some r \<Rightarrow> (r, upd_slave slave (\<lambda>s. s\<lparr>sl_consumedports := b AND NOT (push_bit (unat r) 1)\<rparr>) c)
      | None \<Rightarrow> (0, upd_slave slave (\<lambda>s. s\<lparr>sl_consumedports := b\<rparr>) c))"
proof
  show "ecx_prevport c slave q =
      (case first_set (sl_activeports (slavelist c slave)) (ports_before q) of Some r \<Rightarrow> r | None \<Rightarrow> q)"
    using assms by (auto simp: dc_order_def ecx_prevport_def first_set_def ports_before_def port_bits Let_def)
  show "ecx_parentport slave c = (let b = sl_consumedports (slavelist c slave) in
      case first_set b [3, 1, 2, 0] of
        Some r \<Rightarrow> (r, upd_slave slave (\<lambda>s. s\<lparr>sl_consumedports := b AND NOT (push_bit (unat r) 1)\<rparr>) c)
      | None \<Rightarrow> (0, upd_slave slave (\<lambda>s. s\<lparr>sl_consumedports := b\<rparr>) c))"
    by (simp add: ecx_parentport_def first_set_def port_bits Let_def)
qed

section \<open>The chain of clocks\<close>

primrec chain :: "(nat \<Rightarrow> ec_slavet) \<Rightarrow> nat \<Rightarrow> nat list \<Rightarrow> bool" where
  "chain sl p [] = True"
| "chain sl p (i # is) = (sl_DCnext (sl p) = of_nat i \<and> sl_DCprevious (sl i) = of_nat p \<and> chain sl i is)"

lemma chain_snoc:
  "chain sl p (is @ [i]) \<longleftrightarrow> chain sl p is \<and> sl_DCnext (sl (last (p # is))) = of_nat i \<and>
     sl_DCprevious (sl i) = of_nat (last (p # is))"
  by (induction "is" arbitrary: p) auto

lemma chain_cong:
  assumes "\<And>j. j \<in> set (butlast (p # is)) \<Longrightarrow> sl_DCnext (sl j) = sl_DCnext (sl' j)"
    and "\<And>j. j \<in> set is \<Longrightarrow> sl_DCprevious (sl j) = sl_DCprevious (sl' j)"
  shows "chain sl p is = chain sl' p is"
  using assms
proof (induction "is" arbitrary: p)
  case (Cons i "is")
  have "chain sl i is = chain sl' i is" using Cons.prems by (intro Cons.IH) auto
  moreover have "sl_DCnext (sl p) = sl_DCnext (sl' p)" using Cons.prems(1) by simp
  moreover have "sl_DCprevious (sl i) = sl_DCprevious (sl' i)" using Cons.prems(2) by simp
  ultimately show ?case by simp
qed simp

lemma last_notin_butlast: "distinct xs \<Longrightarrow> last xs \<notin> set (butlast xs)"
  by (cases xs rule: rev_cases) auto

text \<open>
  What the clock search changes of the master: nothing here says anything about the times, the
  consumed ports and the delays. \<open>dc_topo\<close> is what it only reads, \<open>dc_chained\<close> also the chain.
\<close>

definition dc_topo :: "ec_slavet \<Rightarrow> u16 \<times> u8 \<times> u8" where
  "dc_topo s = (sl_parent s, sl_activeports s, sl_group s)"

definition dc_step :: "'e os_ops \<Rightarrow> ('e \<Rightarrow> nat) \<Rightarrow> 'e ecx_contextt \<Rightarrow> 'e ecx_contextt \<Rightarrow> bool" where
  "dc_step E now c c' \<longleftrightarrow> exchange_ok E now (port c) (port c') \<and> slavecount c' = slavecount c \<and>
     maxslave c' = maxslave c \<and> maxgroup c' = maxgroup c \<and>
     (\<forall>j. dc_topo (slavelist c' j) = dc_topo (slavelist c j)) \<and>
     (\<forall>j > 0. sl_hasdc (slavelist c' j) = sl_hasdc (slavelist c j))"

definition same_chain :: "'e ecx_contextt \<Rightarrow> 'e ecx_contextt \<Rightarrow> bool" where
  "same_chain c c' \<longleftrightarrow> (\<forall>j. sl_hasdc (slavelist c' j) = sl_hasdc (slavelist c j) \<and>
     sl_DCnext (slavelist c' j) = sl_DCnext (slavelist c j) \<and> sl_DCprevious (slavelist c' j) = sl_DCprevious (slavelist c j))"

definition dc_quiet :: "'e os_ops \<Rightarrow> ('e \<Rightarrow> nat) \<Rightarrow> 'e ecx_contextt \<Rightarrow> 'e ecx_contextt \<Rightarrow> bool" where
  "dc_quiet E now c c' \<longleftrightarrow> dc_step E now c c' \<and> same_chain c c'"

lemma dc_step_trans: "dc_step E now a b \<Longrightarrow> dc_step E now b c \<Longrightarrow> dc_step E now a c"
  by (auto simp: dc_step_def intro: exchange_ok_trans)

lemma dc_quiet_trans: "dc_quiet E now a b \<Longrightarrow> dc_quiet E now b c \<Longrightarrow> dc_quiet E now a c"
  by (auto simp: dc_quiet_def same_chain_def intro: dc_step_trans)

lemma dc_quiet_port: "exchange_ok E now (port c) p \<Longrightarrow> dc_quiet E now c (c\<lparr>port := p\<rparr>)"
  by (simp add: dc_quiet_def dc_step_def same_chain_def)

lemma dc_quiet_upd:
  assumes "net_ok E now (port c)" and "\<And>s. dc_topo (f s) = dc_topo s" "\<And>s. sl_hasdc (f s) = sl_hasdc s"
    "\<And>s. sl_DCnext (f s) = sl_DCnext s" "\<And>s. sl_DCprevious (f s) = sl_DCprevious s"
  shows "dc_quiet E now c (upd_slave i f c)"
  using assms exchange_ok_refl [OF assms(1)]
  by (simp add: dc_quiet_def dc_step_def same_chain_def upd_slave_def)

lemma dc_quiet_net: "dc_quiet E now c c' \<Longrightarrow> net_ok E now (port c')"
  by (auto simp: dc_quiet_def dc_step_def intro: exchange_ok_net)

lemma dc_quiet_refl: "net_ok E now (port c) \<Longrightarrow> dc_quiet E now c c"
  by (simp add: dc_quiet_def dc_step_def same_chain_def exchange_ok_refl)

text \<open>The same as rules that go through an operation call by call, from a context \<open>a\<close> on.\<close>

lemma quiet_read:
  assumes "dc_quiet E now a c" "28 + unat len \<le> EC_BUFSIZE"
    and "\<And>w b' c'. dc_quiet E now a c' \<Longrightarrow> runs_to (f w b' c') Q"
  shows "runs_to (Option.bind (on_port2 (ecx_FPRD E adr ADO len b t) c) (\<lambda>(w, b', c'). f w b' c')) Q"
proof -
  from ecx_FPRD_runs [OF dc_quiet_net [OF assms(1)] assms(2), of adr ADO b t]
  have "runs_to (on_port2 (ecx_FPRD E adr ADO len b t) c) (\<lambda>(w, b', c'). dc_quiet E now c c')"
    by (auto simp: on_port2_runs elim!: runs_to_mono intro: dc_quiet_port)
  with assms(3) dc_quiet_trans [OF assms(1)] show ?thesis by (fastforce simp: runs_to_iff)
qed

lemma quiet_write:
  assumes "dc_quiet E now a c" "28 + unat len \<le> EC_BUFSIZE"
    and "\<And>w c'. dc_quiet E now a c' \<Longrightarrow> runs_to (f w c') Q"
  shows "runs_to (Option.bind (on_port (ecx_FPWR E adr ADO len b t) c) (\<lambda>(w, c'). f w c')) Q"
proof -
  from ecx_FPWR_runs [OF dc_quiet_net [OF assms(1)] assms(2), of adr ADO b t]
  have "runs_to (on_port (ecx_FPWR E adr ADO len b t) c) (\<lambda>(w, c'). dc_quiet E now c c')"
    by (auto simp: on_port_runs elim!: runs_to_mono intro: dc_quiet_port)
  with assms(3) dc_quiet_trans [OF assms(1)] show ?thesis by (fastforce simp: runs_to_iff)
qed

lemma quiet_upd:
  assumes "dc_quiet E now a c" and "\<And>s. dc_topo (f s) = dc_topo s" "\<And>s. sl_hasdc (f s) = sl_hasdc s"
    "\<And>s. sl_DCnext (f s) = sl_DCnext s" "\<And>s. sl_DCprevious (f s) = sl_DCprevious s"
  shows "dc_quiet E now a (upd_slave i f c)"
  using dc_quiet_trans [OF assms(1) dc_quiet_upd [OF dc_quiet_net [OF assms(1)]]] assms(2-) by blast

lemma quiet_parentport: "dc_quiet E now a c \<Longrightarrow> dc_quiet E now a (snd (ecx_parentport i c))"
  by (auto simp: ecx_parentport_def Let_def dc_topo_def split: prod.splits intro!: quiet_upd)

lemma latch_fits: "28 + unat (4 :: u16) \<le> EC_BUFSIZE" "28 + unat (8 :: u16) \<le> EC_BUFSIZE"
  by simp_all

lemma quiet_times:
  assumes "dc_quiet E now a c"
  shows "dc_quiet E now a (upd_slave i (\<lambda>s. s\<lparr>sl_DCrtA := t\<rparr>) c)" "dc_quiet E now a (upd_slave i (\<lambda>s. s\<lparr>sl_DCrtB := t\<rparr>) c)"
    "dc_quiet E now a (upd_slave i (\<lambda>s. s\<lparr>sl_DCrtC := t\<rparr>) c)" "dc_quiet E now a (upd_slave i (\<lambda>s. s\<lparr>sl_DCrtD := t\<rparr>) c)"
    "dc_quiet E now a (upd_slave i (\<lambda>s. s\<lparr>sl_DCrtA := 0, sl_DCrtB := 0, sl_DCrtC := 0, sl_DCrtD := 0\<rparr>) c)"
    "dc_quiet E now a (upd_slave i (\<lambda>s. s\<lparr>sl_parentport := q\<rparr>) c)" "dc_quiet E now a (upd_slave i (\<lambda>s. s\<lparr>sl_pdelay := t\<rparr>) c)"
    "dc_quiet E now a (upd_slave i (\<lambda>s. s\<lparr>sl_consumedports := sl_activeports s\<rparr>) c)"
    "dc_quiet E now a (upd_slave i (\<lambda>s. s\<lparr>sl_entryport := q, sl_consumedports := sl_consumedports s AND r\<rparr>) c)"
  by (rule quiet_upd [OF assms]; simp add: dc_topo_def)+

lemma dc_latch_runs:
  assumes "dc_quiet E now a c"
  shows "runs_to (dc_latch E m i (ht, hrt, c)) (\<lambda>(_, _, c'). dc_quiet E now a c')"
  using assms unfolding dc_latch_def prod.case Let_def
  by - (rule quiet_read quiet_write quiet_times(1-4) latch_fits | assumption | simp only: runs_to_simps prod.case)+

lemma dc_entry_runs: "l \<noteq> [] \<Longrightarrow> runs_to (dc_entry l) (\<lambda>_. True)"
  by (auto simp: dc_entry_def Let_def)

lemma dc_entryport_runs:
  assumes "dc_quiet E now a c" "dc_ports (slavelist c i) \<noteq> []"
  shows "runs_to (dc_entryport i c) (\<lambda>c'. dc_quiet E now a c')"
  using dc_entry_runs [OF assms(2)] quiet_times(9) [OF assms(1)]
  by (auto simp: dc_entryport_def elim!: runs_to_mono)

text \<open>A clock has an active port, and the parent of a slave comes before it.\<close>

definition topo_ok :: "'e ecx_contextt \<Rightarrow> bool" where
  "topo_ok c \<longleftrightarrow> slavecount c < maxslave c \<and> 0 < maxgroup c \<and> (\<forall>i \<in> {1..slavecount c}.
     unat (sl_parent (slavelist c i)) < i \<and> unat (sl_group (slavelist c i)) < maxgroup c \<and>
     (sl_hasdc (slavelist c i) \<longrightarrow> sl_activeports (slavelist c i) AND 0x0f \<noteq> 0))"

lemma dc_ports_active: "sl_activeports s AND 0x0f \<noteq> 0 \<Longrightarrow> dc_ports s \<noteq> []"
proof
  assume "dc_ports s = []" and n: "sl_activeports s AND 0x0f \<noteq> 0"
  then have "\<not> bit (sl_activeports s) 0" "\<not> bit (sl_activeports s) 1" "\<not> bit (sl_activeports s) 2" "\<not> bit (sl_activeports s) 3"
    by (auto simp: dc_ports_def port_bits split: if_splits)
  then have "\<not> bit (sl_activeports s) k" if "k < 4" for k using that by (auto simp: less_Suc_eq numeral_eq_Suc)
  then have "sl_activeports s AND mask 4 = 0"
    by (intro bit_word_eqI) (auto simp: bit_and_iff bit_mask_iff)
  then have "sl_activeports s AND 0x0f = 0" by (simp add: mask_eq_exp_minus_1)
  with n show False by simp
qed

lemma dc_find_parent_runs:
  assumes topo: "topo_ok c" and i: "1 \<le> i" "i \<le> slavecount c"
  shows "runs_to (dc_find_parent c i) (\<lambda>(child, parent). True)"
  unfolding dc_find_parent_def
proof (rule do_while_total [where I = "\<lambda>(ch, p). 1 \<le> p \<and> p \<le> slavecount c" and R = "measure snd"], goal_cases)
  case (3 st)
  obtain ch p where st: "st = (ch, p)" by fastforce
  with 3 have p: "1 \<le> p" "p \<le> slavecount c" by simp_all
  then have "unat (sl_parent (slavelist c p)) < p" "p < maxslave c" using topo by (auto simp: topo_ok_def)
  with p show ?case by (auto simp: st Let_def)
qed (use i in auto)

lemma dc_propagate_runs:
  assumes q: "dc_quiet E now a c" and topo: "topo_ok c" and i: "1 \<le> i" "i \<le> slavecount c"
  shows "runs_to (dc_propagate E i (ht, c)) (\<lambda>(_, c'). dc_quiet E now a c')"
proof -
  from dc_find_parent_runs [OF topo i] obtain child parent where f: "dc_find_parent c i = Some (child, parent)"
    by (auto simp: runs_to_iff)
  obtain pp c1 where pp: "ecx_parentport parent c = (pp, c1)" by fastforce
  have c1: "dc_quiet E now a c1" using quiet_parentport [OF q, of parent] by (simp add: pp)
  define c2 where "c2 = upd_slave i (\<lambda>s. s\<lparr>sl_parentport := pp\<rparr>) c1"
  define c3 where "c3 = (if sl_topology (slavelist c2 parent) = 1
    then upd_slave i (\<lambda>s. s\<lparr>sl_parentport := sl_entryport (slavelist c2 parent)\<rparr>) c2 else c2)"
  have c2: "dc_quiet E now a c2" unfolding c2_def by (rule quiet_times(6) [OF c1])
  have c3: "dc_quiet E now a c3" unfolding c3_def using c2 quiet_times(6) [OF c2, of i] by simp
  show ?thesis
  proof (cases "parent > 0")
    case True
    show ?thesis
      unfolding dc_propagate_def prod.case f Option.bind.bind_lunit pp Let_def c2_def [symmetric] c3_def [symmetric] if_P [OF True]
      by (rule quiet_write [OF quiet_times(7) [OF c3] latch_fits(1)]) simp
  qed (use f q in \<open>simp add: dc_propagate_def\<close>)
qed

lemma dc_skip_runs:
  assumes q: "dc_quiet E now a c" and p: "unat (sl_parent (slavelist c i)) < maxslave c"
  shows "runs_to (dc_skip i (ph, c)) (\<lambda>(_, c'). dc_quiet E now a c')"
  using p quiet_times(5) [OF q, of i] by (auto simp: dc_skip_def Let_def intro: quiet_parentport)

definition chained :: "'e ecx_contextt \<Rightarrow> nat list \<Rightarrow> bool" where
  "chained c dcs \<longleftrightarrow> sl_hasdc (slavelist c 0) = (dcs \<noteq> []) \<and> chain (slavelist c) 0 dcs"

lemma chained_same: "same_chain c c' \<Longrightarrow> chained c dcs \<Longrightarrow> chained c' dcs"
  using chain_cong [of 0 dcs "slavelist c'" "slavelist c"] by (simp add: chained_def same_chain_def)

lemma dc_link_runs:
  assumes net: "net_ok E now (port c)" and i: "0 < i" and dcs: "distinct dcs" "0 \<notin> set dcs" "i \<notin> set dcs"
    and ch: "chained c dcs" and g: "unat (sl_group (slavelist c i)) < maxgroup c"
  shows "runs_to (dc_link i (last (0 # dcs)) c) (\<lambda>c'. dc_step E now c c' \<and> chained c' (dcs @ [i]))"
proof (cases "dcs = []")
  case True
  with ch i g show ?thesis
    by (auto simp: dc_link_def chained_def Let_def dc_step_def upd_group_def dc_topo_def exchange_ok_refl [OF net])
next
  case False
  define l where "l = last dcs"
  have l: "l \<in> set dcs" "l \<notin> set (butlast (0 # dcs))" "l \<noteq> i" "l \<noteq> 0"
    using False dcs last_notin_butlast [of "0 # dcs"] by (auto simp: l_def)
  define c1 where "c1 = upd_slave i (\<lambda>s. s\<lparr>sl_DCprevious := of_nat l\<rparr>) (upd_slave l (\<lambda>s. s\<lparr>sl_DCnext := of_nat i\<rparr>) c)"
  have run: "dc_link i (last (0 # dcs)) c = Some c1"
    using ch False by (simp add: dc_link_def chained_def c1_def l_def)
  have "i \<notin> set (butlast (0 # dcs))" using i dcs(3) in_set_butlastD [of i "0 # dcs"] by auto
  then have "chain (slavelist c1) 0 dcs = chain (slavelist c) 0 dcs"
    using l dcs(3) by (intro chain_cong) (auto simp: c1_def split: if_splits)
  with ch have "chained c1 (dcs @ [i])"
    using l False i by (simp add: chained_def chain_snoc c1_def l_def [symmetric])
  moreover have "dc_step E now c c1"
    using l i by (simp add: c1_def dc_step_def exchange_ok_refl [OF net] dc_topo_def)
  ultimately show ?thesis unfolding run by simp
qed

lemma topo_ok_step: "topo_ok c \<Longrightarrow> dc_step E now c c' \<Longrightarrow> topo_ok c'"
  by (simp add: topo_ok_def dc_step_def dc_topo_def)

definition dcs_below :: "'e ecx_contextt \<Rightarrow> nat \<Rightarrow> nat list" where
  "dcs_below c k = filter (\<lambda>i. sl_hasdc (slavelist c i)) [1..<k]"

lemma dcs_below_props: "distinct (dcs_below c k)" "0 \<notin> set (dcs_below c k)" "k \<notin> set (dcs_below c k)"
  by (simp_all add: dcs_below_def)

lemma dcs_below_Suc: "1 \<le> k \<Longrightarrow> dcs_below c (Suc k) = dcs_below c k @ (if sl_hasdc (slavelist c k) then [k] else [])"
  by (simp add: dcs_below_def)

definition dc_inv :: "'e os_ops \<Rightarrow> ('e \<Rightarrow> nat) \<Rightarrow> 'e ecx_contextt \<Rightarrow> nat \<Rightarrow> 'e dc_state \<Rightarrow> bool" where
  "dc_inv E now a k = (\<lambda>(ph, prev, ht, hrt, c). dc_step E now a c \<and> prev = last (0 # dcs_below a k) \<and> chained c (dcs_below a k))"

lemma dc_slave_runs:
  assumes topo: "topo_ok a" and i: "1 \<le> i" "i \<le> slavecount a" and I: "dc_inv E now a i st"
  shows "runs_to (dc_slave E m i st) (dc_inv E now a (Suc i))"
proof -
  obtain ph prev ht hrt c where st: "st = (ph, prev, ht, hrt, c)" by (cases st)
  let ?dcs = "dcs_below a i"
  have c: "dc_step E now a c" and prev: "prev = last (0 # ?dcs)" and ch: "chained c ?dcs"
    using I by (simp_all add: st dc_inv_def)
  have net: "net_ok E now (port c)" using c by (auto simp: dc_step_def intro: exchange_ok_net)
  define c1 where "c1 = upd_slave i (\<lambda>s. s\<lparr>sl_consumedports := sl_activeports s\<rparr>) c"
  have q1: "dc_quiet E now c c1" unfolding c1_def by (rule quiet_times(8) [OF dc_quiet_refl [OF net]])
  then have s1: "dc_step E now a c1" and ch1: "chained c1 ?dcs"
    using c ch by (auto simp: dc_quiet_def intro: dc_step_trans chained_same)
  note t1 = topo_ok_step [OF topo s1]
  have i1: "i \<le> slavecount c1" "i < maxslave c" "sl_hasdc (slavelist c1 i) = sl_hasdc (slavelist a i)"
    "sl_hasdc (slavelist c i) = sl_hasdc (slavelist a i)"
    using i s1 c topo by (auto simp: dc_step_def topo_ok_def)
  then have par: "unat (sl_parent (slavelist c1 i)) < i" "i < maxslave c1" "unat (sl_group (slavelist c1 i)) < maxgroup c1"
    using i t1 by (auto simp: topo_ok_def)
  show ?thesis
  proof (cases "sl_hasdc (slavelist a i)")
    case True
    from dc_link_runs [OF dc_quiet_net [OF q1] _ dcs_below_props ch1 par(3)] i obtain c2
      where 2: "dc_link i prev c1 = Some c2" "dc_step E now c1 c2" "chained c2 (?dcs @ [i])"
      by (auto simp: runs_to_iff prev)
    have s2: "dc_step E now a c2" by (rule dc_step_trans [OF s1 2(2)])
    note t2 = topo_ok_step [OF topo s2]
    have net2: "net_ok E now (port c2)" using s2 by (auto simp: dc_step_def intro: exchange_ok_net)
    from dc_latch_runs [OF dc_quiet_refl [OF net2], of m i ht hrt] obtain ht3 hrt3 c3
      where 3: "dc_latch E m i (ht, hrt, c2) = Some (ht3, hrt3, c3)" "dc_quiet E now c2 c3" by (auto simp: runs_to_iff)
    have t3: "topo_ok c3" using topo_ok_step [OF t2] 3(2) by (auto simp: dc_quiet_def)
    have i3: "i \<le> slavecount c3" "sl_hasdc (slavelist c3 i)"
      using i True s2 3(2) by (simp_all add: dc_step_def dc_quiet_def)
    then have "dc_ports (slavelist c3 i) \<noteq> []" using t3 i by (intro dc_ports_active) (auto simp: topo_ok_def)
    from dc_entryport_runs [OF 3(2) this] obtain c4 where 4: "dc_entryport i c3 = Some c4" "dc_quiet E now c2 c4"
      by (auto simp: runs_to_iff)
    have t4: "topo_ok c4" "i \<le> slavecount c4" using topo_ok_step [OF t2] 4(2) s2 i by (auto simp: dc_quiet_def dc_step_def)
    from dc_propagate_runs [OF 4(2) t4(1) i(1) t4(2), of ht3] obtain ht5 c5
      where 5: "dc_propagate E i (ht3, c4) = Some (ht5, c5)" "dc_quiet E now c2 c5" by (auto simp: runs_to_iff)
    have "dc_slave E m i st = Some (0, i, ht5, hrt3, c5)"
      using i1 True 2 3 4 5 by (simp add: st dc_slave_def c1_def [symmetric])
    moreover have "dc_step E now a c5" "chained c5 (?dcs @ [i])"
      using dc_step_trans [OF s2] chained_same [OF _ 2(3)] 5(2) by (auto simp: dc_quiet_def)
    ultimately show ?thesis using True i by (simp add: dc_inv_def dcs_below_Suc)
  next
    case False
    from dc_skip_runs [OF dc_quiet_refl [OF dc_quiet_net [OF q1]], of i ph] par obtain ph2 c2
      where 2: "dc_skip i (ph, c1) = Some (ph2, c2)" "dc_quiet E now c1 c2" by (auto simp: runs_to_iff)
    have "dc_slave E m i st = Some (ph2, prev, ht, hrt, c2)"
      using i1 False 2 by (simp add: st dc_slave_def c1_def [symmetric])
    moreover have "dc_step E now a c2" "chained c2 ?dcs"
      using dc_step_trans [OF s1] chained_same [OF _ ch1] 2(2) by (auto simp: dc_quiet_def)
    ultimately show ?thesis using False i prev by (simp add: dc_inv_def dcs_below_Suc)
  qed
qed

lemma configdc_links:
  assumes "net_ok E now (port c)" "topo_ok c"
  shows "\<exists>found c'. ecx_configdc E hrt c = Some (found, c') \<and>
    found = (\<exists>i \<in> {1..slavecount c}. sl_hasdc (slavelist c i)) \<and>
    chain (slavelist c') 0 (filter (\<lambda>i. sl_hasdc (slavelist c i)) [1..<slavecount c + 1]) \<and>
    exchange_ok E now (port c) (port c')"
proof -
  define c1 where "c1 = upd_group 0 (\<lambda>g. g\<lparr>gr_hasdc := False\<rparr>) (upd_slave 0 (\<lambda>s. s\<lparr>sl_hasdc := False\<rparr>) c)"
  have s1: "dc_step E now c c1" "\<not> sl_hasdc (slavelist c1 0)"
    by (simp_all add: c1_def dc_step_def upd_group_def dc_topo_def exchange_ok_refl [OF assms(1)])
  have max: "0 < maxslave c" "0 < maxgroup c" using assms(2) by (auto simp: topo_ok_def)
  have "port c1 = port c" by (simp add: c1_def upd_group_def)
  with ecx_BWR_runs [of E now "port c1" 4 0 ECT_REG_DCTIME0 "var32 0" EC_TIMEOUTRET] assms(1)
  obtain w p2 where 2: "ecx_BWR E 0 ECT_REG_DCTIME0 4 (var32 0) EC_TIMEOUTRET (port c1) = Some (w, p2)"
    "exchange_ok E now (port c1) p2" by (auto simp: runs_to_iff)
  obtain mt e where mt: "osal_current_time E (os p2) = (mt, e)" by fastforce
  define c3 where "c3 = c1\<lparr>port := p2\<lparr>os := e\<rparr>\<rparr>"
  have "exchange_ok E now p2 (p2\<lparr>os := e\<rparr>)"
    by (rule exchange_ok_os [OF exchange_ok_net [OF 2(2)]
          osal_current_time_clock [OF net_ok_os [OF exchange_ok_net [OF 2(2)]] mt]])
  with 2(2) have "dc_quiet E now c1 c3" unfolding c3_def by (auto intro: dc_quiet_port exchange_ok_trans)
  then have s3: "dc_step E now c c3" "\<not> sl_hasdc (slavelist c3 0)"
    using s1 by (auto simp: dc_quiet_def same_chain_def intro: dc_step_trans)
  define m where "m = ((ucast (tm_sec mt - 946684800) * 1000000 + ucast (tm_usec mt)) * 1000 :: u64)"
  have "runs_to (foldM (dc_slave E m) [1..<slavecount c + 1] (0, 0, 0, hrt, c3)) (dc_inv E now c (slavecount c + 1))"
  proof (rule foldM_upt_total)
    show "dc_inv E now c 1 (0, 0, 0, hrt, c3)" using s3 by (simp add: dc_inv_def dcs_below_def chained_def)
  qed (use assms(2) in \<open>auto intro: dc_slave_runs simp: less_Suc_eq_le\<close>)
  then obtain ph prev ht hrt' c' where 4: "foldM (dc_slave E m) [1..<slavecount c + 1] (0, 0, 0, hrt, c3) = Some (ph, prev, ht, hrt', c')"
    "dc_step E now c c'" "chained c' (dcs_below c (slavecount c + 1))" by (auto simp: runs_to_iff dc_inv_def)
  have sc: "slavecount c3 = slavecount c" "slavecount c1 = slavecount c" using s1(1) s3(1) by (simp_all add: dc_step_def)
  have "on_port (ecx_BWR E 0 ECT_REG_DCTIME0 4 (var32 0) EC_TIMEOUTRET) c1 = Some (w, c1\<lparr>port := p2\<rparr>)"
    using 2(1) by (simp add: on_port_def)
  then have "ecx_configdc E hrt c = Some (sl_hasdc (slavelist c' 0), c')"
    using max mt 4(1) [unfolded m_def]
    by (simp add: ecx_configdc_def c1_def [symmetric] c3_def [symmetric] sc del: upt_Suc)
  moreover have "sl_hasdc (slavelist c' 0) = (\<exists>i \<in> {1..slavecount c}. sl_hasdc (slavelist c i))"
    using 4(3) by (auto simp: chained_def dcs_below_def filter_empty_conv)
  ultimately show ?thesis using 4(2,3) by (simp add: chained_def dcs_below_def dc_step_def)
qed

text \<open>
  C17: when the parent of every slave comes before it and every clock has an active port, the clock
  search ends, whatever the network does; it tells whether there is a clock; and it links all slaves
  with a clock, in the order of their positions, into one chain from slave 0 on, in both directions.
  No frame buffer is lost.
\<close>

theorem configdc_chain:
  assumes "net_ok E now (port c)" "topo_ok c"
  shows "\<exists>found c'. ecx_configdc E hrt c = Some (found, c') \<and>
    found = (\<exists>i \<in> {1..slavecount c}. sl_hasdc (slavelist c i)) \<and>
    chain (slavelist c') 0 (filter (\<lambda>i. sl_hasdc (slavelist c i)) [1..<slavecount c + 1]) \<and>
    exchange_ok E now (port c) (port c')"
  by (rule configdc_links [OF assms])

section \<open>Examples\<close>

definition log_wr :: "(u16 \<times> u8 list) list reg_write" where
  "log_wr ADO n b t p = Some (1, p\<lparr>os := os p @ [(ADO, bytes_of b 0 (unat n))]\<rparr>)"

definition log_rd :: "u64 \<Rightarrow> (u16 \<times> u8 list) list reg_read" where
  "log_rd systime ADO n b t p = Some (1, memcpy b 0 (var64 systime) 0 (unat n), p)"

lemma log_access: "logs_writes (log_rd t) log_wr os t"
  by (simp add: logs_writes_def log_rd_def log_wr_def)

theorem dcsync0_programs_witness:
  "\<forall>p. \<exists>p' t. dcsync0 (log_rd 5000000000) log_wr 1 1000000 0 p = Some p' \<and> uint (1000000 :: u32) dvd sint (t :: u64) - sint (0 :: u32)"
proof
  fix p
  have "0 \<le> sint (5000000000 :: u64)" "sint (5000000000 :: u64) < 2 ^ 62" "(1000000 :: u32) \<noteq> 0" by simp_all
  from dcsync0_programs [OF log_access this, where p = p and act = 1 and CyclShift = 0]
  show "\<exists>p' t. dcsync0 (log_rd 5000000000) log_wr 1 1000000 0 p = Some p' \<and> uint (1000000 :: u32) dvd sint (t :: u64) - sint (0 :: u32)"
    by blast
qed

theorem ports_in_order_witness:
  "ecx_prevport (upd_slave 1 (\<lambda>s. s\<lparr>sl_activeports := 0x05\<rparr>) (idle_ctx 2 (5, []))) 1 3 = 0"
  using ports_in_order [of 3 "upd_slave 1 (\<lambda>s. s\<lparr>sl_activeports := 0x05\<rparr>) (idle_ctx 2 (5, []))" 1]
  by (simp add: dc_order_def ports_before_def first_set_def)

text \<open>Two slaves in a line; the second one has a clock.\<close>

definition dc_ctx :: "(nat \<times> u8 list list) ecx_contextt" where
  "dc_ctx = upd_slave 2 (\<lambda>s. s\<lparr>sl_hasdc := True, sl_parent := 1, sl_activeports := 1\<rparr>) (idle_ctx 2 (5, []))"

theorem configdc_chain_witness:
  "\<exists>c'. ecx_configdc script_os 0 dc_ctx = Some (True, c') \<and> sl_DCnext (slavelist c' 0) = 2"
proof -
  have net: "net_ok script_os (\<lambda>(t, q). t * 1000) (port dc_ctx)"
    using idle_ctx_ok [of 2 "(5, [])"] by (simp add: dc_ctx_def ctx_ok_def)
  have "slavecount dc_ctx = 2" by (simp add: dc_ctx_def)
  moreover have "topo_ok dc_ctx"
    by (auto simp: topo_ok_def dc_ctx_def zero_slave_def idle_ctx_def upd_slave_def zero_group_def)
  moreover have "filter (\<lambda>i. sl_hasdc (slavelist dc_ctx i)) [1..<2 + 1] = [2]"
    by (simp add: dc_ctx_def upt_rec zero_slave_def)
  moreover have "\<exists>i \<in> {1..2}. sl_hasdc (slavelist dc_ctx i)" by (auto simp: dc_ctx_def)
  ultimately show ?thesis using configdc_chain [OF net, of 0] by auto
qed

end
