(* ===== verification/Config.thy ===== *)
theory Config
  imports Dc
begin

text \<open>
  Finding and configuring the slaves (\<open>soem/ethercatconfig.c\<close>, the mapping of the process data is in
  \<open>IoMap\<close>): the initial context, the count of the slaves, the fixed table of known slaves
  (\<open>soem/ethercatconfiglist.h\<close>), the information taken from the EEPROM or from an earlier slave of
  the same kind, the topology, and the recovery and reconfiguration of a slave.

  The loop counters of 16 bits never pass 65535: with so many slaves \<open>ecx_config_init\<close> does not return.
  \<open>aliasadr\<close> and \<open>estat\<close> are local variables that are not initialised; their first contents are
  arguments of the model. \<open>EC_PRINT\<close> is empty.
\<close>

abbreviation (input) EC_NODEOFFSET :: nat where "EC_NODEOFFSET \<equiv> 0x1000"
abbreviation (input) EC_TEMPNODE :: u16 where "EC_TEMPNODE \<equiv> 0xffff"
abbreviation (input) EC_CONFIGEND :: u32 where "EC_CONFIGEND \<equiv> 0xffffffff"
abbreviation (input) EC_DEFAULTMBXSM0 :: u32 where "EC_DEFAULTMBXSM0 \<equiv> 0x00010026"
abbreviation (input) EC_DEFAULTMBXSM1 :: u32 where "EC_DEFAULTMBXSM1 \<equiv> 0x00010022"
abbreviation (input) EC_DEFAULTDOSM0 :: u32 where "EC_DEFAULTDOSM0 \<equiv> 0x00010044"

section \<open>The table of known slaves\<close>

record ec_configlist_t =
  cf_man :: u32
  cf_id :: u32
  cf_name :: "u8 list"
  cf_Dtype :: u8
  cf_Ibits :: u16
  cf_Obits :: u16
  cf_SM2a :: u16
  cf_SM2f :: u32
  cf_SM3a :: u16
  cf_SM3f :: u32
  cf_FM0ac :: u8
  cf_FM1ac :: u8

definition config_entry :: "u32 \<Rightarrow> u32 \<Rightarrow> string \<Rightarrow> u8 \<Rightarrow> u16 \<Rightarrow> u16 \<Rightarrow> u16 \<Rightarrow> u32 \<Rightarrow> u16 \<Rightarrow> u32 \<Rightarrow> u8 \<Rightarrow> u8 \<Rightarrow> ec_configlist_t" where
  "config_entry man i name dtype ib ob sm2a sm2f sm3a sm3f fm0 fm1 = \<lparr>cf_man = man, cf_id = i, cf_name = map of_char name,
     cf_Dtype = dtype, cf_Ibits = ib, cf_Obits = ob, cf_SM2a = sm2a, cf_SM2f = sm2f, cf_SM3a = sm3a, cf_SM3f = sm3f,
     cf_FM0ac = fm0, cf_FM1ac = fm1\<rparr>"

definition ec_configlist :: "ec_configlist_t list" where
  "ec_configlist = [
     config_entry 0 0 '''' 0 0 0 0 0 0 0 0 0,
     config_entry 0x2 0x44c2c52 ''EK1100'' 1 0 0 0 0 0 0 0 0,
     config_entry 0x2 0x3ea3052 ''EL1002'' 2 2 0 0 0 0 0 0 0,
     config_entry 0x2 0x3ec3052 ''EL1004'' 2 4 0 0 0 0 0 0 0,
     config_entry 0x2 0x3f43052 ''EL1012'' 2 2 0 0 0 0 0 0 0,
     config_entry 0x2 0x3f63052 ''EL1014'' 2 4 0 0 0 0 0 0 0,
     config_entry 0x2 0x3fa3052 ''EL1018'' 2 8 0 0 0 0 0 0 0,
     config_entry 0x2 0x7d23052 ''EL2002'' 3 0 2 0 0 0 0 0 0,
     config_entry 0x2 0x7d43052 ''EL2004'' 3 0 4 0 0 0 0 0 0,
     config_entry 0x2 0x7d83052 ''EL2008'' 3 0 8 0 0 0 0 0 0,
     config_entry 0x2 0x7f03052 ''EL2032'' 6 2 2 0 0 0 0 0 0,
     config_entry 0x2 0xc1e3052 ''EL3102'' 4 48 0 0x1000 0x24 0x1100 0x10020 0 1,
     config_entry 0x2 0xc283052 ''EL3112'' 4 48 0 0x1000 0x24 0x1100 0x10020 0 1,
     config_entry 0x2 0xc323052 ''EL3122'' 4 48 0 0x1000 0x24 0x1100 0x10020 0 1,
     config_entry 0x2 0xc463052 ''EL3142'' 4 48 0 0x1000 0x24 0x1100 0x10020 0 1,
     config_entry 0x2 0xc503052 ''EL3152'' 4 48 0 0x1000 0x24 0x1100 0x10020 0 1,
     config_entry 0x2 0xc5a3052 ''EL3162'' 4 48 0 0x1000 0x24 0x1100 0x10020 0 1,
     config_entry 0x2 0xfc03052 ''EL4032'' 5 0 32 0x1100 0x10024 0x1180 0x22 1 0,
     config_entry 0x2 0x10063052 ''EL4102'' 5 0 32 0x1000 0x10024 0x1100 0x22 1 0,
     config_entry 0x2 0x10103052 ''EL4112'' 5 0 32 0x1000 0x10024 0x1100 0x22 1 0,
     config_entry 0x2 0x101a3052 ''EL4122'' 5 0 32 0x1000 0x10024 0x1100 0x22 1 0,
     config_entry 0x2 0x10243052 ''EL4132'' 5 0 32 0x1000 0x10024 0x1100 0x22 1 0,
     config_entry 0x2 0x13ed3052 ''EL5101'' 7 40 24 0x1000 0x10024 0x1100 0x10020 1 1,
     config_entry EC_CONFIGEND 0 '''' 0 0 0 0 0 0 0 0 0]"

text \<open>The loop goes on from entry 1 to a match or the end mark.\<close>

definition findconfig :: "ec_configlist_t list \<Rightarrow> u32 \<Rightarrow> u32 \<Rightarrow> nat" where
  "findconfig cl man i = (let
     k = Suc (length (takeWhile (\<lambda>e. cf_man e \<noteq> EC_CONFIGEND \<and> (cf_man e \<noteq> man \<or> cf_id e \<noteq> i)) (tl cl)))
   in if cf_man (cl ! k) = EC_CONFIGEND then 0 else k)"

definition ec_findconfig :: "u32 \<Rightarrow> u32 \<Rightarrow> nat" where
  "ec_findconfig man i = findconfig ec_configlist man i"

text \<open>\<open>(bits + 7) / 8\<close>.\<close>

definition bit_bytes :: "u16 \<Rightarrow> nat" where
  "bit_bytes bits = (unat bits + 7) div 8"

definition set_SM :: "nat \<Rightarrow> (ec_smt \<Rightarrow> ec_smt) \<Rightarrow> ec_slavet \<Rightarrow> ec_slavet" where
  "set_SM k f s = s\<lparr>sl_SM := (sl_SM s)(k := f (sl_SM s k))\<rparr>"

definition set_SMtype :: "nat \<Rightarrow> u8 \<Rightarrow> ec_slavet \<Rightarrow> ec_slavet" where
  "set_SMtype k t s = s\<lparr>sl_SMtype := (sl_SMtype s)(k := t)\<rparr>"

definition set_FMMU :: "nat \<Rightarrow> (ec_fmmut \<Rightarrow> ec_fmmut) \<Rightarrow> ec_slavet \<Rightarrow> ec_slavet" where
  "set_FMMU k f s = s\<lparr>sl_FMMU := (sl_FMMU s)(k := f (sl_FMMU s k))\<rparr>"

definition table_slave :: "nat \<Rightarrow> ec_configlist_t \<Rightarrow> ec_slavet \<Rightarrow> ec_slavet" where
  "table_slave cindex e s = (let
     s = s\<lparr>sl_Dtype := ucast (cf_Dtype e), sl_name := cf_name e, sl_Ibits := cf_Ibits e, sl_Obits := cf_Obits e\<rparr>;
     s = (if sl_Obits s \<noteq> 0 then s\<lparr>sl_FMMU0func := 1\<rparr> else s);
     s = (if sl_Ibits s \<noteq> 0 then s\<lparr>sl_FMMU1func := 2\<rparr> else s);
     s = set_FMMU 0 (\<lambda>f. f\<lparr>FMMUactive := cf_FM0ac e\<rparr>) s;
     s = set_FMMU 1 (\<lambda>f. f\<lparr>FMMUactive := cf_FM1ac e\<rparr>) s;
     s = set_SM 2 (\<lambda>m. m\<lparr>StartAddr := cf_SM2a e, SMflags := cf_SM2f e\<rparr>) s;
     s = (if sl_Obits s \<noteq> 0 \<and> StartAddr (sl_SM s 2) = 0
       then set_SMtype 0 3 (set_FMMU 0 (\<lambda>f. f\<lparr>FMMUactive := 1, FMMUtype := 2\<rparr>)
         (set_SM 0 (\<lambda>m. \<lparr>StartAddr = 0x0f00, SMlength = of_nat (bit_bytes (sl_Obits s)), SMflags = EC_DEFAULTDOSM0\<rparr>) s))
       else set_SMtype 2 3 (set_SM 2 (\<lambda>m. m\<lparr>SMlength := of_nat (bit_bytes (sl_Obits s))\<rparr>) s));
     s = set_SM 3 (\<lambda>m. m\<lparr>StartAddr := cf_SM3a e, SMflags := cf_SM3f e\<rparr>) s
   in if sl_Ibits s \<noteq> 0 \<and> StartAddr (sl_SM s 3) = 0
     then set_SMtype 1 4 (set_FMMU 1 (\<lambda>f. f\<lparr>FMMUactive := 1, FMMUtype := 1\<rparr>)
       (set_SM 1 (\<lambda>m. \<lparr>StartAddr = 0x1000, SMlength = of_nat (bit_bytes (sl_Ibits s)), SMflags = 0\<rparr>) s))
     else set_SMtype 3 4 (set_SM 3 (\<lambda>m. m\<lparr>SMlength := of_nat (bit_bytes (sl_Ibits s))\<rparr>) s))"

definition ecx_config_from_table :: "nat \<Rightarrow> 'e ecx_contextt \<Rightarrow> nat \<times> 'e ecx_contextt" where
  "ecx_config_from_table slave c = (let
     cindex = ec_findconfig (sl_eep_man (slavelist c slave)) (sl_eep_id (slavelist c slave));
     c = upd_slave slave (\<lambda>s. s\<lparr>sl_configindex := of_nat cindex\<rparr>) c
   in (cindex, if cindex \<noteq> 0 then upd_slave slave (table_slave cindex (ec_configlist ! cindex)) c else c))"

section \<open>Counting and resetting the slaves\<close>

definition ecx_init_context :: "'e os_ops \<Rightarrow> 'e ecx_contextt \<Rightarrow> 'e ecx_contextt option" where
  "ecx_init_context E c = do {
     let c = c\<lparr>slavecount := 0, slavelist := (\<lambda>i. if i < maxslave c then zero_slave else slavelist c i),
       grouplist := (\<lambda>i. if i < maxgroup c then zero_group else grouplist c i)\<rparr>;
     (_, c) \<leftarrow> ecx_siigetbyte E 0 (of_nat EC_MAXEEPBUF) c;
     foldM (\<lambda>lp c. Some (upd_group lp (\<lambda>g. g\<lparr>gr_logstartaddr := push_bit EC_LOGGROUPOFFSET (of_nat lp)\<rparr>) c))
       [0..<maxgroup c] c }"

text \<open>A broadcast write whose result is not looked at.\<close>

definition bwr :: "'e os_ops \<Rightarrow> u16 \<times> u16 \<times> buf \<Rightarrow> 'e ecx_contextt \<Rightarrow> 'e ecx_contextt option" where
  "bwr E = (\<lambda>(ADO, n, b) c. do {
     (_, c) \<leftarrow> on_port (ecx_BWR E 0 ADO n b EC_TIMEOUTRET3) c;
     Some c })"

definition ecx_detect_slaves :: "'e os_ops \<Rightarrow> 'e ecx_contextt \<Rightarrow> (int \<times> 'e ecx_contextt) option" where
  "ecx_detect_slaves E c = do {
     c \<leftarrow> foldM (bwr E) [(ECT_REG_DLALIAS, 1, var8 0), (ECT_REG_ALCTL, 1, var8 (ucast (EC_STATE_INIT OR EC_STATE_ACK))),
       (ECT_REG_ALCTL, 1, var8 (ucast (EC_STATE_INIT OR EC_STATE_ACK)))] c;
     (wkc, _, c) \<leftarrow> on_port2 (ecx_BRD E 0 ECT_REG_TYPE 2 zero_buf EC_TIMEOUTSAFE) c;
     if wkc > 0
     then if wkc < int (maxslave c) then Some (wkc, c\<lparr>slavecount := nat wkc\<rparr>) else Some (EC_SLAVECOUNTEXCEEDED, c)
     else Some (wkc, c) }"

definition ecx_set_slaves_to_default :: "'e os_ops \<Rightarrow> 'e ecx_contextt \<Rightarrow> 'e ecx_contextt option" where
  "ecx_set_slaves_to_default E = foldM (bwr E) [
     (ECT_REG_DLPORT, 1, var8 0), (ECT_REG_IRQMASK, 2, var16 0x0004), (ECT_REG_RXERR, 8, zero_buf),
     (ECT_REG_FMMU0, 16 * 3, zero_buf), (ECT_REG_SM0, 8 * 4, zero_buf), (ECT_REG_DCSYNCACT, 1, var8 0),
     (ECT_REG_DCSYSTIME, 4, zero_buf), (ECT_REG_DCSPEEDCNT, 2, var16 0x1000), (ECT_REG_DCTIMEFILT, 2, var16 0x0c00),
     (ECT_REG_DLALIAS, 1, var8 0), (ECT_REG_ALCTL, 1, var8 (ucast (EC_STATE_INIT OR EC_STATE_ACK))),
     (ECT_REG_EEPCFG, 1, var8 2), (ECT_REG_EEPCFG, 1, var8 0)]"

section \<open>An earlier slave of the same kind\<close>

definition same_kind :: "ec_slavet \<Rightarrow> ec_slavet \<Rightarrow> bool" where
  "same_kind s t \<longleftrightarrow> sl_eep_man s = sl_eep_man t \<and> sl_eep_id s = sl_eep_id t \<and> sl_eep_rev s = sl_eep_rev t"

definition find_same :: "(nat \<Rightarrow> ec_slavet) \<Rightarrow> nat \<Rightarrow> nat" where
  "find_same sl slave = Suc (length (takeWhile (\<lambda>i. \<not> same_kind (sl i) (sl slave)) [1..<slave]))"

definition ecx_lookup_prev_sii :: "nat \<Rightarrow> 'e ecx_contextt \<Rightarrow> bool \<times> 'e ecx_contextt" where
  "ecx_lookup_prev_sii slave c =
     (if slave > 1 \<and> slavecount c > 0
      then let i = find_same (slavelist c) slave; t = slavelist c i in
        if i < slave
        then let
            c = upd_slave slave (\<lambda>s. s\<lparr>sl_CoEdetails := sl_CoEdetails t, sl_FoEdetails := sl_FoEdetails t,
              sl_EoEdetails := sl_EoEdetails t, sl_SoEdetails := sl_SoEdetails t\<rparr>) c;
            c = (if sl_blockLRW t > 0
              then upd_slave 0 (\<lambda>s. s\<lparr>sl_blockLRW := sl_blockLRW s + 1\<rparr>) (upd_slave slave (\<lambda>s. s\<lparr>sl_blockLRW := 1\<rparr>) c)
              else c);
            c = upd_slave slave (\<lambda>s. s\<lparr>sl_Ebuscurrent := sl_Ebuscurrent t\<rparr>) c;
            c = upd_slave 0 (\<lambda>s. s\<lparr>sl_Ebuscurrent := sl_Ebuscurrent s + sl_Ebuscurrent t\<rparr>) c;
            c = upd_slave slave (\<lambda>s. s\<lparr>sl_name := sl_name t,
              sl_SM := (\<lambda>k. if k < EC_MAXSM then sl_SM t k else sl_SM s k), sl_FMMU0func := sl_FMMU0func t,
              sl_FMMU1func := sl_FMMU1func t, sl_FMMU2func := sl_FMMU2func t, sl_FMMU3func := sl_FMMU3func t\<rparr>) c
          in (True, c)
        else (False, c)
      else (False, c))"

section \<open>The configuration of one slave\<close>

text \<open>The first pass: node address, alias, EEPROM chunk size, start of the first EEPROM read.\<close>

definition config_address :: "'e os_ops \<Rightarrow> nat \<Rightarrow> u16 \<times> u16 \<times> 'e ecx_contextt \<Rightarrow> (u16 \<times> u16 \<times> 'e ecx_contextt) option" where
  "config_address E slave = (\<lambda>(aliasadr, estat, c). do {
     let ADPh = 1 - of_nat slave;
     (val16, c) \<leftarrow> on_port (ecx_APRDw E ADPh ECT_REG_PDICTL EC_TIMEOUTRET3) c;
     let c = upd_slave slave (\<lambda>s. s\<lparr>sl_Itype := val16\<rparr>) c;
     (_, c) \<leftarrow> on_port (ecx_APWRw E ADPh ECT_REG_STADR (of_nat (slave + EC_NODEOFFSET)) EC_TIMEOUTRET3) c;
     (_, c) \<leftarrow> on_port (ecx_APWRw E ADPh ECT_REG_DLCTL (if slave = 1 then 1 else 0) EC_TIMEOUTRET3) c;
     (configadr, c) \<leftarrow> on_port (ecx_APRDw E ADPh ECT_REG_STADR EC_TIMEOUTRET3) c;
     let c = upd_slave slave (\<lambda>s. s\<lparr>sl_configadr := configadr\<rparr>) c;
     (_, b, c) \<leftarrow> on_port2 (ecx_FPRD E configadr ECT_REG_ALIAS 2 (var16 aliasadr) EC_TIMEOUTRET3) c;
     let aliasadr = rd16 b 0;
     let c = upd_slave slave (\<lambda>s. s\<lparr>sl_aliasadr := aliasadr\<rparr>) c;
     (_, b, c) \<leftarrow> on_port2 (ecx_FPRD E configadr ECT_REG_EEPSTAT 2 (var16 estat) EC_TIMEOUTRET3) c;
     let estat = rd16 b 0;
     let c = (if estat AND EC_ESTAT_R64 \<noteq> 0 then upd_slave slave (\<lambda>s. s\<lparr>sl_eep_8byte := 1\<rparr>) c else c);
     c \<leftarrow> ecx_readeeprom1 E slave ECT_SII_MANUF c;
     Some (aliasadr, estat, c) })"

text \<open>The next passes: the answer to the read before is stored and the next read is started.\<close>

definition config_eeprom :: "'e os_ops \<Rightarrow> (u32 \<Rightarrow> ec_slavet \<Rightarrow> ec_slavet) \<Rightarrow> (ec_slavet \<Rightarrow> bool) \<Rightarrow> u16 \<Rightarrow> nat \<Rightarrow>
    'e ecx_contextt \<Rightarrow> 'e ecx_contextt option" where
  "config_eeprom E store continue_read nextadr slave c = do {
     (eedat, c) \<leftarrow> ecx_readeeprom2 E slave EC_TIMEOUTEEP c;
     let c = upd_slave slave (store eedat) c;
     if continue_read (slavelist c slave) then ecx_readeeprom1 E slave nextadr c else Some c }"

definition config_man :: "'e os_ops \<Rightarrow> nat \<Rightarrow> 'e ecx_contextt \<Rightarrow> 'e ecx_contextt option" where
  "config_man E = config_eeprom E (\<lambda>d s. s\<lparr>sl_eep_man := d\<rparr>) (\<lambda>_. True) ECT_SII_ID"

definition config_id :: "'e os_ops \<Rightarrow> nat \<Rightarrow> 'e ecx_contextt \<Rightarrow> 'e ecx_contextt option" where
  "config_id E = config_eeprom E (\<lambda>d s. s\<lparr>sl_eep_id := d\<rparr>) (\<lambda>_. True) ECT_SII_REV"

definition config_rev :: "'e os_ops \<Rightarrow> nat \<Rightarrow> 'e ecx_contextt \<Rightarrow> 'e ecx_contextt option" where
  "config_rev E = config_eeprom E (\<lambda>d s. s\<lparr>sl_eep_rev := d\<rparr>) (\<lambda>_. True) ECT_SII_RXMBXADR"

definition config_rxmbx :: "'e os_ops \<Rightarrow> nat \<Rightarrow> 'e ecx_contextt \<Rightarrow> 'e ecx_contextt option" where
  "config_rxmbx E = config_eeprom E (\<lambda>d s. s\<lparr>sl_mbx_wo := LO_WORD d, sl_mbx_l := HI_WORD d\<rparr>) (\<lambda>s. sl_mbx_l s > 0) ECT_SII_TXMBXADR"

definition config_txmbx :: "'e os_ops \<Rightarrow> nat \<Rightarrow> 'e ecx_contextt \<Rightarrow> 'e ecx_contextt option" where
  "config_txmbx E slave c =
     (if sl_mbx_l (slavelist c slave) > 0
      then config_eeprom E (\<lambda>d s. s\<lparr>sl_mbx_ro := LO_WORD d,
        sl_mbx_rl := if HI_WORD d = 0 then sl_mbx_l s else HI_WORD d\<rparr>) (\<lambda>_. True) ECT_SII_MBXPROTO slave c
      else Some c)"

text \<open>The open ports of the DL status: their number and their bits.\<close>

definition port_open :: "u16 \<Rightarrow> nat \<Rightarrow> bool" where
  "port_open dlstat k \<longleftrightarrow> dlstat AND push_bit (2 * k) 0x0300 = push_bit (2 * k) 0x0200"

definition port_links :: "u16 \<Rightarrow> u8 \<times> u8" where
  "port_links dlstat = (of_nat (length (filter (port_open dlstat) [0..<4])),
     foldr (\<lambda>k b. if port_open dlstat k then b OR push_bit k 1 else b) [0..<4] 0)"

text \<open>
  The parent of a slave: the search goes back from the slave before it, adding up the ends (-1), splits
  (+1) and crosses (+2) of the lines.
\<close>

definition topo_value :: "u8 \<Rightarrow> int" where
  "topo_value t = (if t = 1 then - 1 else if t = 3 then 1 else if t = 4 then 2 else 0)"

fun parent_scan :: "(nat \<Rightarrow> u8) \<Rightarrow> int \<Rightarrow> nat \<Rightarrow> nat" where
  "parent_scan topo topoc 0 = 0"
| "parent_scan topo topoc (Suc k) = (let
     t = topo (Suc k);
     topoc = topoc + topo_value t
   in if topoc \<ge> 0 \<and> t > 1 \<or> k = 0 then Suc k else parent_scan topo topoc k)"

definition find_parent :: "nat \<Rightarrow> 'e ecx_contextt \<Rightarrow> nat" where
  "find_parent slave c = (if slave > 1 then parent_scan (\<lambda>i. sl_topology (slavelist c i)) 0 (slave - 1) else 0)"

definition config_topology :: "'e os_ops \<Rightarrow> nat \<Rightarrow> 'e ecx_contextt \<Rightarrow> 'e ecx_contextt option" where
  "config_topology E slave c = do {
     let configadr = sl_configadr (slavelist c slave);
     (escsup, c) \<leftarrow> on_port (ecx_FPRDw E configadr ECT_REG_ESCSUP EC_TIMEOUTRET3) c;
     let c = upd_slave slave (\<lambda>s. s\<lparr>sl_hasdc := escsup AND 0x04 > 0\<rparr>) c;
     (dlstat, c) \<leftarrow> on_port (ecx_FPRDw E configadr ECT_REG_DLSTAT EC_TIMEOUTRET3) c;
     let (h, b) = port_links dlstat;
     (portdes, c) \<leftarrow> on_port (ecx_FPRDw E configadr ECT_REG_PORTDES EC_TIMEOUTRET3) c;
     let c = upd_slave slave (\<lambda>s. s\<lparr>sl_ptype := ucast (portdes AND 0xff), sl_topology := h, sl_activeports := b\<rparr>) c;
     chk (slave \<le> 0x8000);
     Some (upd_slave slave (\<lambda>s. s\<lparr>sl_parent := of_nat (find_parent slave c)\<rparr>) c) }"

definition config_mailbox :: "'e os_ops \<Rightarrow> nat \<Rightarrow> 'e ecx_contextt \<Rightarrow> 'e ecx_contextt option" where
  "config_mailbox E slave c =
     (if sl_mbx_l (slavelist c slave) > 0
      then do {
        let c = upd_slave slave (\<lambda>s. s\<lparr>sl_SMtype := (sl_SMtype s)(0 := 1, 1 := 2, 2 := 3, 3 := 4),
          sl_SM := (sl_SM s)(0 := \<lparr>StartAddr = sl_mbx_wo s, SMlength = sl_mbx_l s, SMflags = EC_DEFAULTMBXSM0\<rparr>,
            1 := \<lparr>StartAddr = sl_mbx_ro s, SMlength = sl_mbx_rl s, SMflags = EC_DEFAULTMBXSM1\<rparr>)\<rparr>) c;
        (eedat, c) \<leftarrow> ecx_readeeprom2 E slave EC_TIMEOUTEEP c;
        Some (upd_slave slave (\<lambda>s. s\<lparr>sl_mbx_proto := ucast eedat\<rparr>) c) }
      else Some c)"

text \<open>\<open>"? M:%8.8x I:%8.8x"\<close>.\<close>

definition hex_digit :: "nat \<Rightarrow> u8" where
  "hex_digit d = of_nat (if d < 10 then 48 + d else 87 + d)"

definition hex8 :: "u32 \<Rightarrow> u8 list" where
  "hex8 w = map (\<lambda>k. hex_digit (unat w div 16 ^ (7 - k) mod 16)) [0..<8]"

definition unknown_name :: "u32 \<Rightarrow> u32 \<Rightarrow> u8 list" where
  "unknown_name man i = map of_char ''? M:'' @ hex8 man @ map of_char '' I:'' @ hex8 i"

definition sm_entry :: "ec_eepromSMt \<Rightarrow> ec_smt" where
  "sm_entry e = \<lparr>StartAddr = es_PhStart e, SMlength = es_Plength e,
     SMflags = ucast (es_Creg e) + push_bit 16 (ucast (es_Activate e))\<rparr>"

text \<open>The general category, the name, the sync managers and the FMMUs of the EEPROM.\<close>

definition sii_general :: "'e os_ops \<Rightarrow> nat \<Rightarrow> u16 \<Rightarrow> 'e ecx_contextt \<Rightarrow> 'e ecx_contextt option" where
  "sii_general E slave ssigen c = do {
     (coe, c) \<leftarrow> ecx_siigetbyte E slave (ssigen + 0x07) c;
     (foe, c) \<leftarrow> ecx_siigetbyte E slave (ssigen + 0x08) c;
     (eoe, c) \<leftarrow> ecx_siigetbyte E slave (ssigen + 0x09) c;
     (soe, c) \<leftarrow> ecx_siigetbyte E slave (ssigen + 0x0a) c;
     let c = upd_slave slave (\<lambda>s. s\<lparr>sl_CoEdetails := coe, sl_FoEdetails := foe, sl_EoEdetails := eoe, sl_SoEdetails := soe\<rparr>) c;
     (flags, c) \<leftarrow> ecx_siigetbyte E slave (ssigen + 0x0d) c;
     let c = (if flags AND 0x02 > 0
       then upd_slave 0 (\<lambda>s. s\<lparr>sl_blockLRW := sl_blockLRW s + 1\<rparr>) (upd_slave slave (\<lambda>s. s\<lparr>sl_blockLRW := 1\<rparr>) c)
       else c);
     (lo, c) \<leftarrow> ecx_siigetbyte E slave (ssigen + 0x0e) c;
     (hi, c) \<leftarrow> ecx_siigetbyte E slave (ssigen + 0x0f) c;
     let current = ucast lo + push_bit 8 (ucast hi);
     let c = upd_slave slave (\<lambda>s. s\<lparr>sl_Ebuscurrent := current\<rparr>) c;
     Some (upd_slave 0 (\<lambda>s. s\<lparr>sl_Ebuscurrent := sl_Ebuscurrent s + current\<rparr>) c) }"

definition sii_name :: "'e os_ops \<Rightarrow> nat \<Rightarrow> 'e ecx_contextt \<Rightarrow> 'e ecx_contextt option" where
  "sii_name E slave c = do {
     (a, c) \<leftarrow> ecx_siifind E slave ECT_SII_STRING c;
     if a > 0
     then do {
       (str, c) \<leftarrow> ecx_siistring E (sl_name (slavelist c slave)) slave 1 c;
       Some (upd_slave slave (\<lambda>s. s\<lparr>sl_name := str\<rparr>) c) }
     else Some (upd_slave slave (\<lambda>s. s\<lparr>sl_name := unknown_name (sl_eep_man s) (sl_eep_id s)\<rparr>) c) }"

definition sm_round :: "'e os_ops \<Rightarrow> nat \<Rightarrow> nat \<times> 'e ecx_contextt \<Rightarrow> ((nat \<times> 'e ecx_contextt) \<times> bool) option" where
  "sm_round E slave = (\<lambda>(SMc, c).
     if SMc < EC_MAXSM
     then do {
       (more_sm, e, c) \<leftarrow> ecx_siiSMnext E slave (eepSM c) (of_nat SMc) c;
       let c = c\<lparr>eepSM := e\<rparr>;
       Some (if more_sm \<noteq> 0 then ((SMc + 1, upd_slave slave (set_SM SMc (\<lambda>_. sm_entry e)) c), True) else ((SMc, c), False)) }
     else Some ((SMc, c), False))"

definition sii_sms :: "'e os_ops \<Rightarrow> nat \<Rightarrow> 'e ecx_contextt \<Rightarrow> 'e ecx_contextt option" where
  "sii_sms E slave c = do {
     (nSM, e, c) \<leftarrow> ecx_siiSM E slave (eepSM c) c;
     let c = c\<lparr>eepSM := e\<rparr>;
     if nSM > 0
     then do {
       let c = upd_slave slave (set_SM 0 (\<lambda>_. sm_entry e)) c;
       (_, c) \<leftarrow> do_while (sm_round E slave) (1, c);
       Some c }
     else Some c }"

definition sii_fmmus :: "'e os_ops \<Rightarrow> nat \<Rightarrow> 'e ecx_contextt \<Rightarrow> 'e ecx_contextt option" where
  "sii_fmmus E slave c = do {
     (n, f, c) \<leftarrow> ecx_siiFMMU E slave (eepFMMU c) c;
     let c = c\<lparr>eepFMMU := f\<rparr>;
     Some (if n \<noteq> 0
       then upd_slave slave (\<lambda>s. s\<lparr>
         sl_FMMU0func := if ef_FMMU0 f \<noteq> 0xff then ef_FMMU0 f else sl_FMMU0func s,
         sl_FMMU1func := if ef_FMMU1 f \<noteq> 0xff then ef_FMMU1 f else sl_FMMU1func s,
         sl_FMMU2func := if ef_FMMU2 f \<noteq> 0xff then ef_FMMU2 f else sl_FMMU2func s,
         sl_FMMU3func := if ef_FMMU3 f \<noteq> 0xff then ef_FMMU3 f else sl_FMMU3func s\<rparr>) c
       else c) }"

definition config_sii :: "'e os_ops \<Rightarrow> nat \<Rightarrow> 'e ecx_contextt \<Rightarrow> 'e ecx_contextt option" where
  "config_sii E slave c = do {
     (ssigen, c) \<leftarrow> ecx_siifind E slave ECT_SII_GENERAL c;
     c \<leftarrow> (if ssigen \<noteq> 0 then sii_general E slave ssigen c else Some c);
     c \<leftarrow> sii_name E slave c;
     c \<leftarrow> sii_sms E slave c;
     sii_fmmus E slave c }"

text \<open>The memory of a sync manager and of an FMMU, as they are written to the slave.\<close>

definition smt_mem :: "ec_smt \<Rightarrow> buf" where
  "smt_mem s = wr32 (wr16 (wr16 zero_buf 0 (StartAddr s)) 2 (SMlength s)) 4 (SMflags s)"

definition fmmut_mem :: "ec_fmmut \<Rightarrow> buf" where
  "fmmut_mem f = wr16 ((wr16 ((wr16 (wr32 zero_buf 0 (LogStart f)) 4 (LogLength f))
     (6 := LogStartbit f, 7 := LogEndbit f)) 8 (PhysStart f))
     (10 := PhysStartBit f, 11 := FMMUtype f, 12 := FMMUactive f, 13 := fmmu_unused1 f)) 14 (fmmu_unused2 f)"

definition default_mailbox :: "nat \<Rightarrow> 'e ecx_contextt \<Rightarrow> 'e ecx_contextt" where
  "default_mailbox slave = upd_slave slave (\<lambda>s. let
     s = (if StartAddr (sl_SM s 0) = 0
       then set_SMtype 0 1 (set_SM 0 (\<lambda>_. \<lparr>StartAddr = 0x1000, SMlength = 0x0080, SMflags = EC_DEFAULTMBXSM0\<rparr>) s) else s)
   in if StartAddr (sl_SM s 1) = 0
     then set_SMtype 1 2 (set_SM 1 (\<lambda>_. \<lparr>StartAddr = 0x1080, SMlength = 0x0080, SMflags = EC_DEFAULTMBXSM1\<rparr>) s) else s)"

definition config_program :: "'e os_ops \<Rightarrow> nat \<Rightarrow> 'e ecx_contextt \<Rightarrow> 'e ecx_contextt option" where
  "config_program E slave c = do {
     let configadr = sl_configadr (slavelist c slave);
     c \<leftarrow> (if sl_mbx_l (slavelist c slave) > 0
       then do {
         let c = default_mailbox slave c;
         let sms = sl_SM (slavelist c slave);
         (_, c) \<leftarrow> on_port (ecx_FPWR E configadr ECT_REG_SM0 16 (memcpy (smt_mem (sms 0)) 8 (smt_mem (sms 1)) 0 8) EC_TIMEOUTRET3) c;
         Some c }
       else Some c);
     (_, c) \<leftarrow> ecx_eeprom2pdi E slave c;
     if manualstatechange c = 0
     then do {
       (_, c) \<leftarrow> on_port (ecx_FPWRw E configadr ECT_REG_ALCTL (EC_STATE_PRE_OP OR EC_STATE_ACK) EC_TIMEOUTRET3) c;
       Some c }
     else Some c }"

definition config_slave :: "'e os_ops \<Rightarrow> u8 \<Rightarrow> nat \<Rightarrow> 'e ecx_contextt \<Rightarrow> 'e ecx_contextt option" where
  "config_slave E usetable slave c = do {
     c \<leftarrow> config_txmbx E slave c;
     c \<leftarrow> config_topology E slave c;
     (_, c) \<leftarrow> ecx_statecheck E slave EC_STATE_INIT EC_TIMEOUTSTATE c;
     c \<leftarrow> config_mailbox E slave c;
     let (cindex, c) = (if usetable = 1 then ecx_config_from_table slave c else (0, c));
     c \<leftarrow> (if cindex = 0
       then let (copied, c) = ecx_lookup_prev_sii slave c in if copied then Some c else config_sii E slave c
       else Some c);
     config_program E slave c }"

definition each_slave :: "(nat \<Rightarrow> 'e ecx_contextt \<Rightarrow> 'e ecx_contextt option) \<Rightarrow> 'e ecx_contextt \<Rightarrow> 'e ecx_contextt option" where
  "each_slave f c = foldM f [1..<slavecount c + 1] c"

definition ecx_config_init :: "'e os_ops \<Rightarrow> u16 \<Rightarrow> u16 \<Rightarrow> u8 \<Rightarrow> 'e ecx_contextt \<Rightarrow> (int \<times> 'e ecx_contextt) option" where
  "ecx_config_init E aliasadr estat usetable c = do {
     c \<leftarrow> ecx_init_context E c;
     (wkc, c) \<leftarrow> ecx_detect_slaves E c;
     if wkc > 0
     then do {
       c \<leftarrow> ecx_set_slaves_to_default E c;
       chk (slavecount c < 65535);
       (_, _, c) \<leftarrow> foldM (config_address E) [1..<slavecount c + 1] (aliasadr, estat, c);
       c \<leftarrow> each_slave (config_man E) c;
       c \<leftarrow> each_slave (config_id E) c;
       c \<leftarrow> each_slave (config_rev E) c;
       c \<leftarrow> each_slave (config_rxmbx E) c;
       c \<leftarrow> each_slave (config_slave E usetable) c;
       Some (wkc, c) }
     else Some (wkc, c) }"

section \<open>Recovery and reconfiguration\<close>

text \<open>Whether the slave at the temporary address has the alias and the EEPROM identity of the record.\<close>

definition recover_same :: "'e os_ops \<Rightarrow> nat \<Rightarrow> int \<Rightarrow> 'e ecx_contextt \<Rightarrow> (bool \<times> 'e ecx_contextt) option" where
  "recover_same E slave timeout c = do {
     (aliasadr, c) \<leftarrow> on_port (ecx_FPRDw E EC_TEMPNODE ECT_REG_ALIAS timeout) c;
     if aliasadr = sl_aliasadr (slavelist c slave)
     then do {
       (d, c) \<leftarrow> ecx_readeeprom E slave ECT_SII_ID EC_TIMEOUTEEP c;
       if d = sl_eep_id (slavelist c slave)
       then do {
         (d, c) \<leftarrow> ecx_readeeprom E slave ECT_SII_MANUF EC_TIMEOUTEEP c;
         if d = sl_eep_man (slavelist c slave)
         then do {
           (d, c) \<leftarrow> ecx_readeeprom E slave ECT_SII_REV EC_TIMEOUTEEP c;
           Some (d = sl_eep_rev (slavelist c slave), c) }
         else Some (False, c) }
       else Some (False, c) }
     else Some (False, c) }"

definition ecx_recover_slave :: "'e os_ops \<Rightarrow> nat \<Rightarrow> int \<Rightarrow> 'e ecx_contextt \<Rightarrow> (int \<times> 'e ecx_contextt) option" where
  "ecx_recover_slave E slave timeout c = do {
     chk (slave < maxslave c);
     let configadr = sl_configadr (slavelist c slave);
     let ADPh = 1 - of_nat slave;
     (wkc, b, c) \<leftarrow> on_port2 (ecx_APRD E ADPh ECT_REG_STADR 2 (var16 0xfffe) timeout) c;
     let readadr = rd16 b 0;
     if readadr = configadr then Some (1, c)
     else if wkc > 0 \<and> readadr = 0
     then do {
       (_, c) \<leftarrow> on_port (ecx_FPWRw E EC_TEMPNODE ECT_REG_STADR 0 0) c;
       (wkc, c) \<leftarrow> on_port (ecx_APWRw E ADPh ECT_REG_STADR EC_TEMPNODE timeout) c;
       if wkc \<le> 0
       then do {
         (_, c) \<leftarrow> on_port (ecx_FPWRw E EC_TEMPNODE ECT_REG_STADR 0 0) c;
         Some (0, c) }
       else do {
         let c = upd_slave slave (\<lambda>s. s\<lparr>sl_configadr := EC_TEMPNODE\<rparr>) c;
         (_, c) \<leftarrow> ecx_eeprom2master E slave c;
         (same, c) \<leftarrow> recover_same E slave timeout c;
         (rval, c) \<leftarrow> on_port (ecx_FPWRw E EC_TEMPNODE ECT_REG_STADR (if same then configadr else 0) timeout) c;
         Some (if same then rval else 0, upd_slave slave (\<lambda>s. s\<lparr>sl_configadr := configadr\<rparr>) c) } }
     else Some (0, c) }"

text \<open>The hooks that an application has registered for a slave, called in the state Pre-Op.\<close>

type_synonym 'e po2so_hook = "nat \<Rightarrow> 'e ecx_contextt \<Rightarrow> 'e ecx_contextt option"

definition ecx_reconfig_slave :: "'e os_ops \<Rightarrow> 'e po2so_hook \<Rightarrow> nat \<Rightarrow> int \<Rightarrow> 'e ecx_contextt \<Rightarrow> (u16 \<times> 'e ecx_contextt) option" where
  "ecx_reconfig_slave E hook slave timeout c = do {
     chk (slave < maxslave c);
     let configadr = sl_configadr (slavelist c slave);
     (wkc, c) \<leftarrow> on_port (ecx_FPWRw E configadr ECT_REG_ALCTL EC_STATE_INIT timeout) c;
     if wkc \<le> 0 then Some (0, c)
     else do {
       (_, c) \<leftarrow> ecx_eeprom2pdi E slave c;
       (state, c) \<leftarrow> ecx_statecheck E slave EC_STATE_INIT EC_TIMEOUTSTATE c;
       if state = EC_STATE_INIT
       then do {
         c \<leftarrow> foldM (\<lambda>nSM c. let sm = sl_SM (slavelist c slave) nSM in
           if StartAddr sm \<noteq> 0
           then do {
             (_, c) \<leftarrow> on_port (ecx_FPWR E configadr (ECT_REG_SM0 + of_nat (nSM * 8)) 8 (smt_mem sm) timeout) c;
             Some c }
           else Some c) [0..<EC_MAXSM] c;
         (_, c) \<leftarrow> on_port (ecx_FPWRw E configadr ECT_REG_ALCTL EC_STATE_PRE_OP timeout) c;
         (state, c) \<leftarrow> ecx_statecheck E slave EC_STATE_PRE_OP EC_TIMEOUTSTATE c;
         if state = EC_STATE_PRE_OP
         then do {
           c \<leftarrow> hook slave c;
           (_, c) \<leftarrow> on_port (ecx_FPWRw E configadr ECT_REG_ALCTL EC_STATE_SAFE_OP timeout) c;
           (state, c) \<leftarrow> ecx_statecheck E slave EC_STATE_SAFE_OP EC_TIMEOUTSTATE c;
           chk (unat (sl_FMMUunused (slavelist c slave)) \<le> EC_MAXFMMU);
           c \<leftarrow> foldM (\<lambda>FMMUc c. do {
             (_, c) \<leftarrow> on_port (ecx_FPWR E configadr (ECT_REG_FMMU0 + of_nat (16 * FMMUc)) 16
               (fmmut_mem (sl_FMMU (slavelist c slave) FMMUc)) timeout) c;
             Some c }) [0..<unat (sl_FMMUunused (slavelist c slave))] c;
           Some (state, c) }
         else Some (state, c) }
       else Some (state, c) } }"

section \<open>The parent of a slave\<close>

text \<open>
  The reference: slaves are found in the order in which a frame passes them. A slave with \<open>t\<close> open
  ports takes the innermost open port (of its parent) and opens \<open>t - 1\<close> new ones. \<open>open_ports ts\<close>
  is the stack of the parents of the ports that are open behind the slaves with the topologies \<open>ts\<close>,
  the last slave first.
\<close>

primrec open_ports :: "nat list \<Rightarrow> nat list" where
  "open_ports [] = []"
| "open_ports (t # ts) = replicate (t - 1) (Suc (length ts)) @ tl (open_ports ts)"

definition topo_list :: "(nat \<Rightarrow> u8) \<Rightarrow> nat \<Rightarrow> nat list" where
  "topo_list topo k = rev (map (\<lambda>i. unat (topo i)) [1..<Suc k])"

lemma topo_list_simps [simp]:
  "topo_list topo 0 = []" "topo_list topo (Suc k) = unat (topo (Suc k)) # topo_list topo k"
  "length (topo_list topo k) = k"
  by (simp_all add: topo_list_def)

lemma u8_of_unat: "unat (t :: u8) = 1 \<Longrightarrow> t = 1" "unat t = 2 \<Longrightarrow> t = 2" "unat t = 3 \<Longrightarrow> t = 3" "unat t = 4 \<Longrightarrow> t = 4"
  by (simp_all add: word_unat_eq_iff)

lemma parent_scan_stack:
  "(\<forall>i \<in> {1..k}. 1 \<le> unat (topo i) \<and> unat (topo i) \<le> 4) \<Longrightarrow> n < length (open_ports (topo_list topo k)) \<Longrightarrow>
     parent_scan topo (- int n) k = open_ports (topo_list topo k) ! n"
proof (induction k arbitrary: n)
  case (Suc k)
  let ?t = "unat (topo (Suc k))" and ?S = "open_ports (topo_list topo k)"
  have t: "?t \<in> {1, 2, 3, 4}" using Suc.prems(1) by (auto simp: le_Suc_eq numeral_eq_Suc)
  have ih: "parent_scan topo (- int m) k = ?S ! m" if "m < length ?S" for m
    using Suc.IH [of m] Suc.prems(1) that by auto
  have last: "?S = []" if "k = 0" using that by simp
  have rep: "replicate 2 x = [x, x]" "replicate 3 x = [x, x, x]" for x :: nat by (simp_all add: numeral_eq_Suc)
  from t u8_of_unat [of "topo (Suc k)"] consider "topo (Suc k) = 1" "?t = 1" | "topo (Suc k) = 2" "?t = 2" | "topo (Suc k) = 3" "?t = 3"
    | "topo (Suc k) = 4" "?t = 4" by auto
  then show ?case
  proof cases
    case 1
    then have "Suc n < length ?S" using Suc.prems(2) by (auto simp: nth_tl)
    with 1 ih [of "Suc n"] last show ?thesis by (auto simp: topo_value_def Let_def nth_tl algebra_simps)
  next
    case 2
    with Suc.prems(2) have "n = 0 \<or> n < length ?S" by (cases n) auto
    with 2 ih [of n] last show ?thesis by (cases n) (auto simp: topo_value_def Let_def nth_tl)
  next
    case 3
    have "n < 2 \<or> n - 1 < length ?S \<and> ?S \<noteq> []" using Suc.prems(2) 3 by (cases ?S) auto
    with 3 ih [of "n - 1"] last show ?thesis
      by (cases n; cases "n - 1") (auto simp: topo_value_def Let_def nth_tl of_nat_diff rep)
  next
    case 4
    have "n < 3 \<or> n - 2 < length ?S \<and> ?S \<noteq> []" using Suc.prems(2) 4 by (cases ?S) auto
    with 4 ih [of "n - 2"] last show ?thesis
      by (cases n; cases "n - 1"; cases "n - 2") (auto simp: topo_value_def Let_def nth_tl of_nat_diff rep)
  qed
qed simp

lemma parent_scan_bound: "parent_scan topo n k \<le> k"
  by (induction k arbitrary: n) (auto simp: Let_def le_Suc_eq)

section \<open>What the configuration keeps\<close>

text \<open>
  The operations keep every property \<open>I\<close> of the context that the steps of the master keep
  (\<open>ctx_inv\<close>) and, for the operations that fill in the slaves and use the EEPROM cache, that does not
  depend on these (\<open>config_inv\<close>). The rules have the form in which they chain: with what follows the
  operation.
\<close>

named_theorems inv_rules \<open>rules of the operations for an invariant of the context\<close>

locale ctx_inv =
  fixes E :: "'e os_ops" and now :: "'e \<Rightarrow> nat" and I :: "'e ecx_contextt \<Rightarrow> bool"
  assumes ok_law: "I c \<Longrightarrow> ctx_ok E now c"
    and step_law: "I c \<Longrightarrow> ctx_step E now c c' \<Longrightarrow> I c'"
begin

lemma on_port_inv:
  assumes "I c" "\<And>p. net_ok E now p \<Longrightarrow> if_runs (f p) (\<lambda>(x, p'). exchange_ok E now p p')" "\<And>x c'. I c' \<Longrightarrow> Q (x, c')"
  shows "if_runs (on_port f c) Q"
  unfolding on_port_def if_runs_simps
  by (rule if_runs_mono [OF assms(2) [OF ctx_ok_net [OF ok_law [OF assms(1)]]]])
    (auto intro!: assms(3) step_law [OF assms(1)] ctx_step_port ok_law assms(1))

lemma on_port2_inv:
  assumes "I c" "\<And>p. net_ok E now p \<Longrightarrow> if_runs (f p) (\<lambda>(x, y, p'). exchange_ok E now p p')" "\<And>x y c'. I c' \<Longrightarrow> Q (x, y, c')"
  shows "if_runs (on_port2 f c) Q"
  unfolding on_port2_def if_runs_simps
  by (rule if_runs_mono [OF assms(2) [OF ctx_ok_net [OF ok_law [OF assms(1)]]]])
    (auto intro!: assms(3) step_law [OF assms(1)] ctx_step_port ok_law assms(1))

lemma read_inv [inv_rules]:
  "I c \<Longrightarrow> 28 + unat n \<le> EC_BUFSIZE \<Longrightarrow> (\<And>x y c'. I c' \<Longrightarrow> Q (x, y, c')) \<Longrightarrow> if_runs (on_port2 (ecx_APRD E adp ado n b t) c) Q"
  "I c \<Longrightarrow> 28 + unat n \<le> EC_BUFSIZE \<Longrightarrow> (\<And>x y c'. I c' \<Longrightarrow> Q (x, y, c')) \<Longrightarrow> if_runs (on_port2 (ecx_FPRD E adp ado n b t) c) Q"
  "I c \<Longrightarrow> 28 + unat n \<le> EC_BUFSIZE \<Longrightarrow> (\<And>x y c'. I c' \<Longrightarrow> Q (x, y, c')) \<Longrightarrow> if_runs (on_port2 (ecx_BRD E adp ado n b t) c) Q"
  by (rule on_port2_inv; (assumption | blast | (rule runs_to_if_runs, rule runs_to_mono, rule ecx_APRD_runs ecx_FPRD_runs ecx_BRD_runs; auto)))+

lemma write_inv [inv_rules]:
  "I c \<Longrightarrow> 28 + unat n \<le> EC_BUFSIZE \<Longrightarrow> (\<And>x c'. I c' \<Longrightarrow> Q (x, c')) \<Longrightarrow> if_runs (on_port (ecx_FPWR E adp ado n b t) c) Q"
  "I c \<Longrightarrow> 28 + unat n \<le> EC_BUFSIZE \<Longrightarrow> (\<And>x c'. I c' \<Longrightarrow> Q (x, c')) \<Longrightarrow> if_runs (on_port (ecx_BWR E adp ado n b t) c) Q"
  "I c \<Longrightarrow> (\<And>x c'. I c' \<Longrightarrow> Q (x, c')) \<Longrightarrow> if_runs (on_port (ecx_FPWRw E adp ado w t) c) Q"
  "I c \<Longrightarrow> (\<And>x c'. I c' \<Longrightarrow> Q (x, c')) \<Longrightarrow> if_runs (on_port (ecx_APWRw E adp ado w t) c) Q"
  unfolding ecx_FPWRw_def ecx_APWRw_def
  by (rule on_port_inv; (assumption | blast | (rule runs_to_if_runs, rule runs_to_mono, rule ecx_FPWR_runs ecx_BWR_runs ecx_APWR_runs; auto)))+

lemma readw_inv [inv_rules]:
  "I c \<Longrightarrow> (\<And>x c'. I c' \<Longrightarrow> Q (x, c')) \<Longrightarrow> if_runs (on_port (ecx_FPRDw E adp ado t) c) Q"
  "I c \<Longrightarrow> (\<And>x c'. I c' \<Longrightarrow> Q (x, c')) \<Longrightarrow> if_runs (on_port (ecx_APRDw E adp ado t) c) Q"
  by (rule on_port_inv; (assumption | blast | (simp add: ecx_FPRDw_def ecx_APRDw_def,
      rule runs_to_if_runs, rule runs_to_mono, rule ecx_APRD_runs ecx_FPRD_runs; auto)))+

lemma eeprom_control_inv [inv_rules]:
  "I c \<Longrightarrow> (\<And>x c'. I c' \<Longrightarrow> Q (x, c')) \<Longrightarrow> if_runs (ecx_eeprom2master E slave c) Q"
  "I c \<Longrightarrow> (\<And>x c'. I c' \<Longrightarrow> Q (x, c')) \<Longrightarrow> if_runs (ecx_eeprom2pdi E slave c) Q"
proof -
  assume c: "I c" and Q: "\<And>x c'. I c' \<Longrightarrow> Q (x, c')"
  show "if_runs (ecx_eeprom2master E slave c) Q"
  proof (cases "slave < maxslave c")
    case True
    show ?thesis
      by (rule if_runs_mono [OF runs_to_if_runs [OF eeprom_control_steps(1) [OF ok_law [OF c] True]]])
        (auto intro: Q step_law [OF c])
  qed (simp add: ecx_eeprom2master_def)
  show "if_runs (ecx_eeprom2pdi E slave c) Q"
  proof (cases "slave < maxslave c")
    case True
    show ?thesis
      by (rule if_runs_mono [OF runs_to_if_runs [OF eeprom_control_steps(2) [OF ok_law [OF c] True]]])
        (auto intro: Q step_law [OF c])
  qed (simp add: ecx_eeprom2pdi_def)
qed

lemma statecheck_inv [inv_rules]:
  assumes "I c" "\<And>x c'. I c' \<Longrightarrow> Q (x, c')"
  shows "if_runs (ecx_statecheck E slave st t c) Q"
proof (cases "slave \<le> slavecount c")
  case True
  show ?thesis
    by (rule if_runs_mono [OF runs_to_if_runs [OF ecx_statecheck_runs [OF ok_law [OF assms(1)] True]]])
      (auto intro: assms(2) step_law [OF assms(1)])
qed (use assms in \<open>simp add: ecx_statecheck_def\<close>)

lemma readeeprom_inv [inv_rules]:
  assumes "I c" "\<And>x c'. I c' \<Longrightarrow> Q (x, c')"
  shows "if_runs (on_port (ecx_readeepromFP E adr a t) c) Q"
  by (rule on_port_inv [OF assms(1)]) (use assms(2) in \<open>auto simp: ecx_readeepromFP_def intro: fp.readeeprom_partial\<close>)

lemma readeeprom_ctx_inv [inv_rules]:
  "I c \<Longrightarrow> (\<And>x c'. I c' \<Longrightarrow> Q (x, c')) \<Longrightarrow> if_runs (ecx_readeeprom E slave a t c) Q"
  by (auto simp: ecx_readeeprom_def intro!: inv_rules)

lemma recover_same_inv [inv_rules]:
  "I c \<Longrightarrow> (\<And>x c'. I c' \<Longrightarrow> Q (x, c')) \<Longrightarrow> if_runs (recover_same E slave t c) Q"
  by (auto simp: recover_same_def intro!: inv_rules)

end

lemma set_fields [simp]:
  "sl_parent (set_SM k f s) = sl_parent s" "sl_group (set_SM k f s) = sl_group s"
  "sl_parent (set_SMtype k t s) = sl_parent s" "sl_group (set_SMtype k t s) = sl_group s"
  "sl_parent (set_FMMU k g s) = sl_parent s" "sl_group (set_FMMU k g s) = sl_group s"
  by (simp_all add: set_SM_def set_SMtype_def set_FMMU_def)

lemma table_slave_fields [simp]:
  "sl_parent (table_slave i e s) = sl_parent s" "sl_group (table_slave i e s) = sl_group s"
  by (simp_all add: table_slave_def Let_def)

text \<open>An operation on a list of items that keeps the invariant each time; a reader that keeps it.\<close>

lemma foldM_inv:
  assumes "I c" "\<And>i c. I c \<Longrightarrow> if_runs (f i c) I" "\<And>c'. I c' \<Longrightarrow> Q c'"
  shows "if_runs (foldM f is c) Q"
  by (rule if_runs_mono [OF foldM_partial [where I = I, OF assms(1)] assms(3)]) (use assms(2) in auto)

locale sii_inv =
  fixes gb :: "'c sii_reader" and I :: "'c \<Rightarrow> bool"
  assumes gb_law: "I c \<Longrightarrow> if_runs (gb a c) (\<lambda>(x, c'). I c')"
begin

lemma gb_inv [inv_rules]: "I c \<Longrightarrow> (\<And>x c'. I c' \<Longrightarrow> Q (x, c')) \<Longrightarrow> if_runs (gb a c) Q"
  by (rule if_runs_mono [OF gb_law]) auto

lemma word_inv [inv_rules]: "I c \<Longrightarrow> (\<And>x c'. I c' \<Longrightarrow> Q (x, c')) \<Longrightarrow> if_runs (sii_word gb a c) Q"
  by (auto simp: sii_word_def intro!: inv_rules)

lemma search_inv [inv_rules]:
  assumes "I c" "\<And>a p c'. I c' \<Longrightarrow> Q (a, p, c')"
  shows "if_runs (while_do (\<lambda>(a, p, c). p \<noteq> cat \<and> p \<noteq> 0xffff) (sii_next gb) (a, p, c)) Q"
  by (rule while_do_partial [where I = "\<lambda>(a, p, c). I c"]) (use assms in \<open>auto simp: sii_next_def intro!: inv_rules\<close>)

lemma find_inv [inv_rules]: "I c \<Longrightarrow> (\<And>x c'. I c' \<Longrightarrow> Q (x, c')) \<Longrightarrow> if_runs (sii_find gb cat c) Q"
  by (auto simp: sii_find_def intro!: inv_rules)

lemma skip_inv [inv_rules]:
  assumes "I c" "\<And>x c'. I c' \<Longrightarrow> Q (x, c')"
  shows "if_runs (sii_skip gb k (ba, c)) Q"
  unfolding sii_skip_def
  by (rule foldM_inv [where I = "\<lambda>(ba, c). I c"]) (use assms in \<open>auto intro!: inv_rules\<close>)

lemma copy_inv [inv_rules]:
  assumes "I c" "\<And>x y c'. I c' \<Longrightarrow> Q (x, y, c')"
  shows "if_runs (sii_copy gb l ba c) Q"
  unfolding sii_copy_def
  by (rule foldM_inv [where I = "\<lambda>(s, ba, c). I c"]) (use assms in \<open>auto intro!: inv_rules\<close>)

lemma string_inv [inv_rules]: "I c \<Longrightarrow> (\<And>x c'. I c' \<Longrightarrow> Q (x, c')) \<Longrightarrow> if_runs (sii_string gb a Sn c) Q"
  by (auto simp: sii_string_def Let_def intro!: inv_rules)

lemma sm_entry_inv [inv_rules]: "I c \<Longrightarrow> (\<And>x c'. I c' \<Longrightarrow> Q (x, c')) \<Longrightarrow> if_runs (sii_sm_entry gb a SM c) Q"
  by (auto simp: sii_sm_entry_def intro!: inv_rules)

lemma pdo_bits_inv [inv_rules]:
  assumes "I c" "\<And>x y z c'. I c' \<Longrightarrow> Q (x, y, z, c')"
  shows "if_runs (sii_pdo_bits gb e (a, cw, bits, c)) Q"
  unfolding sii_pdo_bits_def
  by (rule foldM_inv [where I = "\<lambda>(a, cw, bits, c). I c"]) (use assms in \<open>auto intro!: inv_rules\<close>)

end

locale config_inv = ctx_inv E now I for E :: "'e os_ops" and now :: "'e \<Rightarrow> nat" and I :: "'e ecx_contextt \<Rightarrow> bool" +
  assumes cache_law: "I c \<Longrightarrow> I (c\<lparr>esimap := m\<rparr>)" "I c \<Longrightarrow> I (c\<lparr>esibuf := b\<rparr>)" "I c \<Longrightarrow> I (c\<lparr>esislave := s\<rparr>)"
      "I c \<Longrightarrow> I (c\<lparr>eepSM := e\<rparr>)" "I c \<Longrightarrow> I (c\<lparr>eepFMMU := f\<rparr>)"
    and upd_law: "I c \<Longrightarrow> (\<And>s. sl_parent (g s) = sl_parent s \<and> sl_group (g s) = sl_group s) \<Longrightarrow> I (upd_slave i g c)"
    and parent_law: "I c \<Longrightarrow> k < i \<or> i = 0 \<Longrightarrow> i \<le> 0x8000 \<Longrightarrow> I (upd_slave i (\<lambda>s. s\<lparr>sl_parent := of_nat k\<rparr>) c)"
begin

lemma readeeprom1_inv [inv_rules]:
  "I c \<Longrightarrow> (\<And>c'. I c' \<Longrightarrow> Q c') \<Longrightarrow> if_runs (ecx_readeeprom1 E slave a c) Q"
  unfolding ecx_readeeprom1_def Let_def if_runs_simps
proof (rule eeprom_control_inv(1), assumption, simp, rule on_port_inv)
  fix p x and c' :: "'e ecx_contextt" assume p: "net_ok E now p"
  let ?adr = "sl_configadr (slavelist c' slave)"
  from fp.waitnotbusy [OF p, of ?adr EC_TIMEOUTEEP] obtain ready estat p1 where
    1: "ecx_eeprom_waitnotbusyFP E ?adr EC_TIMEOUTEEP p = Some (ready, estat, p1)" "exchange_ok E now p p1"
    by (auto simp: runs_to_iff ecx_eeprom_waitnotbusyFP_def)
  from fp.clear_errors_runs [OF exchange_ok_net [OF 1(2)], of ?adr estat] obtain p2 where
    2: "clear_errors (ecx_FPWR E ?adr) estat p1 = Some p2" "exchange_ok E now p1 p2" by (auto simp: runs_to_iff)
  have "runs_to (retry (ecx_FPWR E ?adr ECT_REG_EEPCTL 6 (ec_eepromt EC_ECMD_READ a) EC_TIMEOUTRET) p2)
    (\<lambda>(w, p'). exchange_ok E now p2 p')" by (rule fp.retry_wr [OF exchange_ok_net [OF 2(2)]]) simp
  then show "if_runs (do {
       (ready, estat, p) \<leftarrow> ecx_eeprom_waitnotbusyFP E ?adr EC_TIMEOUTEEP p;
       if ready then do {
         p \<leftarrow> clear_errors (ecx_FPWR E ?adr) estat p;
         (_, p) \<leftarrow> retry (ecx_FPWR E ?adr ECT_REG_EEPCTL 6 (ec_eepromt EC_ECMD_READ a) EC_TIMEOUTRET) p;
         Some ((), p) }
       else Some ((), p) }) (\<lambda>(x, p'). exchange_ok E now p p')"
    using 1 2 exchange_ok_trans [OF 1(2) 2(2)]
    by (auto simp: runs_to_iff intro: exchange_ok_trans)
qed auto

lemma readeeprom2_inv [inv_rules]:
  assumes "I c" "\<And>x c'. I c' \<Longrightarrow> Q (x, c')"
  shows "if_runs (ecx_readeeprom2 E slave t c) Q"
  unfolding ecx_readeeprom2_def Let_def if_runs_simps
proof (intro impI, rule on_port_inv [OF assms(1)])
  fix p assume p: "net_ok E now p"
  let ?adr = "sl_configadr (slavelist c slave)"
  from fp.waitnotbusy [OF p, of ?adr t] obtain ready estat p1 where
    1: "ecx_eeprom_waitnotbusyFP E ?adr t p = Some (ready, estat, p1)" "exchange_ok E now p p1"
    by (auto simp: runs_to_iff ecx_eeprom_waitnotbusyFP_def)
  have "runs_to (retry (\<lambda>(b, p). ecx_FPRD E ?adr ECT_REG_EEPDAT 4 b EC_TIMEOUTRET p) (var32 0, p1))
    (\<lambda>(w, b', p'). exchange_ok E now p1 p')" by (rule fp.retry_rd [OF exchange_ok_net [OF 1(2)]]) simp
  then show "if_runs (do {
       (ready, estat, p) \<leftarrow> ecx_eeprom_waitnotbusyFP E ?adr t p;
       if ready then do {
         (_, b, p) \<leftarrow> retry (\<lambda>(b, p). ecx_FPRD E ?adr ECT_REG_EEPDAT 4 b EC_TIMEOUTRET p) (var32 0, p);
         Some (rd32 b 0, p) }
       else Some (0, p) }) (\<lambda>(x, p'). exchange_ok E now p p')"
    using 1 by (auto simp: runs_to_iff intro: exchange_ok_trans)
qed (use assms(2) in simp)

lemma fetch_inv [inv_rules]: "I c \<Longrightarrow> (\<And>x c'. I c' \<Longrightarrow> Q (x, c')) \<Longrightarrow> if_runs (sii_fetch E slave a c) Q"
  by (auto simp: sii_fetch_def Let_def intro!: inv_rules)

lemma siigetbyte_inv [inv_rules]:
  assumes c: "I c" and Q: "\<And>x c'. I c' \<Longrightarrow> Q (x, c')"
  shows "if_runs (ecx_siigetbyte E slave a c) Q"
proof -
  define c1 where "c1 = (if slave \<noteq> esislave c then c\<lparr>esimap := (\<lambda>_. 0), esislave := slave\<rparr> else c)"
  have "I c1" using c cache_law by (simp add: c1_def)
  have b: "if_runs (set_bitmap cnt st) P" if "\<And>x. P x" for cnt st P
    by (rule if_runs_mono [OF if_runs_True that])
  show ?thesis
    unfolding ecx_siigetbyte_def siigetbyte_def c1_def [symmetric] Let_def
    using \<open>I c1\<close> by (auto intro!: Q b inv_rules cache_law)
qed

sublocale sii: sii_inv "ecx_siigetbyte E slave" I for slave
  by unfold_locales (auto intro!: inv_rules)

lemma restore_inv [inv_rules]: "I c \<Longrightarrow> (\<And>c'. I c' \<Longrightarrow> Q c') \<Longrightarrow> if_runs (sii_restore E slave e c) Q"
  by (auto simp: sii_restore_def intro!: inv_rules)

lemma siifind_inv [inv_rules]: "I c \<Longrightarrow> (\<And>x c'. I c' \<Longrightarrow> Q (x, c')) \<Longrightarrow> if_runs (ecx_siifind E slave cat c) Q"
  by (auto simp: ecx_siifind_def Let_def intro!: inv_rules)

lemma siistring_inv [inv_rules]: "I c \<Longrightarrow> (\<And>x c'. I c' \<Longrightarrow> Q (x, c')) \<Longrightarrow> if_runs (ecx_siistring E str slave Sn c) Q"
  by (auto simp: ecx_siistring_def Let_def intro!: inv_rules)

lemma siiFMMU_inv [inv_rules]: "I c \<Longrightarrow> (\<And>x y c'. I c' \<Longrightarrow> Q (x, y, c')) \<Longrightarrow> if_runs (ecx_siiFMMU E slave f c) Q"
  by (auto simp: ecx_siiFMMU_def Let_def intro!: inv_rules)

lemma siiSM_inv [inv_rules]: "I c \<Longrightarrow> (\<And>x y c'. I c' \<Longrightarrow> Q (x, y, c')) \<Longrightarrow> if_runs (ecx_siiSM E slave e c) Q"
  by (auto simp: ecx_siiSM_def Let_def intro!: inv_rules)

lemma siiSMnext_inv [inv_rules]: "I c \<Longrightarrow> (\<And>x y c'. I c' \<Longrightarrow> Q (x, y, c')) \<Longrightarrow> if_runs (ecx_siiSMnext E slave e n c) Q"
  by (auto simp: ecx_siiSMnext_def Let_def intro!: inv_rules)

text \<open>Updates of a slave that leave its parent and its group alone.\<close>

lemma set_inv [inv_rules]:
  "I c \<Longrightarrow> (\<And>s. sl_parent (g s) = sl_parent s) \<Longrightarrow> (\<And>s. sl_group (g s) = sl_group s) \<Longrightarrow> I (upd_slave i g c)"
  by (auto intro: upd_law)

lemma general_inv [inv_rules]:
  assumes "I c" "\<And>c'. I c' \<Longrightarrow> Q c'"
  shows "if_runs (sii_general E slave a c) Q"
  using assms(1) by (auto simp: sii_general_def Let_def intro!: assms(2) inv_rules)

lemma name_inv [inv_rules]:
  assumes "I c" "\<And>c'. I c' \<Longrightarrow> Q c'"
  shows "if_runs (sii_name E slave c) Q"
  using assms(1) by (auto simp: sii_name_def Let_def intro!: assms(2) inv_rules)

lemma fmmus_inv [inv_rules]:
  assumes "I c" "\<And>c'. I c' \<Longrightarrow> Q c'"
  shows "if_runs (sii_fmmus E slave c) Q"
  using assms(1) by (auto simp: sii_fmmus_def Let_def intro!: assms(2) inv_rules cache_law)

lemma sm_rounds_inv [inv_rules]:
  assumes "I c" "\<And>k c'. I c' \<Longrightarrow> Q (k, c')"
  shows "if_runs (do_while (sm_round E slave) (k, c)) Q"
  by (rule do_while_partial [where I = "\<lambda>(k, c). I c"])
    (use assms(1) in \<open>auto simp: sm_round_def Let_def intro!: inv_rules cache_law assms(2)\<close>)

lemma sms_inv [inv_rules]:
  assumes "I c" "\<And>c'. I c' \<Longrightarrow> Q c'"
  shows "if_runs (sii_sms E slave c) Q"
  using assms(1) by (auto simp: sii_sms_def Let_def intro!: assms(2) inv_rules cache_law)

lemma config_sii_inv [inv_rules]:
  assumes "I c" "\<And>c'. I c' \<Longrightarrow> Q c'"
  shows "if_runs (config_sii E slave c) Q"
  using assms(1) by (auto simp: config_sii_def intro!: assms(2) inv_rules)

lemma config_address_inv:
  "I c \<Longrightarrow> if_runs (config_address E slave (al, es, c)) (\<lambda>(al, es, c). I c)"
  by (auto simp: config_address_def Let_def intro!: inv_rules)

lemma config_eeprom_inv:
  assumes "I c" "\<And>d s. sl_parent (store d s) = sl_parent s" "\<And>d s. sl_group (store d s) = sl_group s"
  shows "if_runs (config_eeprom E store b a slave c) I"
  using assms(1) by (auto simp: config_eeprom_def Let_def intro!: inv_rules assms(2,3))

lemma config_pass_inv:
  assumes "I c"
  shows "if_runs (config_man E slave c) I" "if_runs (config_id E slave c) I" "if_runs (config_rev E slave c) I"
    "if_runs (config_rxmbx E slave c) I" "if_runs (config_txmbx E slave c) I"
  using assms unfolding config_man_def config_id_def config_rev_def config_rxmbx_def config_txmbx_def
  by (auto intro!: config_eeprom_inv)

lemma find_parent_less: "find_parent slave c < slave \<or> slave = 0"
  using parent_scan_bound [of "\<lambda>i. sl_topology (slavelist c i)" 0 "slave - 1"] by (auto simp: find_parent_def)

lemma config_topology_inv [inv_rules]:
  assumes "I c" "\<And>c'. I c' \<Longrightarrow> Q c'"
  shows "if_runs (config_topology E slave c) Q"
  using assms(1) find_parent_less [of slave] by (auto simp: config_topology_def Let_def split_beta intro!: assms(2) inv_rules parent_law)

lemma config_mailbox_inv [inv_rules]:
  assumes "I c" "\<And>c'. I c' \<Longrightarrow> Q c'"
  shows "if_runs (config_mailbox E slave c) Q"
  using assms(1) by (auto simp: config_mailbox_def Let_def intro!: assms(2) inv_rules)

lemma table_inv: "I c \<Longrightarrow> I (snd (ecx_config_from_table slave c))"
  by (auto simp: ecx_config_from_table_def Let_def intro!: inv_rules)

lemma lookup_inv: "I c \<Longrightarrow> I (snd (ecx_lookup_prev_sii slave c))"
  by (auto simp: ecx_lookup_prev_sii_def Let_def intro!: inv_rules)

lemma config_program_inv [inv_rules]:
  assumes "I c" "\<And>c'. I c' \<Longrightarrow> Q c'"
  shows "if_runs (config_program E slave c) Q"
  using assms(1) by (auto simp: config_program_def default_mailbox_def Let_def intro!: assms(2) inv_rules)

lemma config_slave_inv: "I c \<Longrightarrow> if_runs (config_slave E t slave c) I"
  unfolding config_slave_def if_runs_simps
  by (rule if_runs_mono [OF config_pass_inv(5)])
    (auto simp: Let_def split_beta intro!: inv_rules table_inv lookup_inv)

lemma each_slave_inv: "I c \<Longrightarrow> (\<And>slave c. I c \<Longrightarrow> if_runs (f slave c) I) \<Longrightarrow> if_runs (each_slave f c) I"
  unfolding each_slave_def by (rule foldM_partial)

end

text \<open>
  What the search for the slaves establishes and keeps: the parent of every slave comes before it and
  the slaves are in group 0. Before they are counted all slaves are blank.
\<close>

definition found_ok :: "'e os_ops \<Rightarrow> ('e \<Rightarrow> nat) \<Rightarrow> nat \<Rightarrow> nat \<Rightarrow> nat \<Rightarrow> 'e ecx_contextt \<Rightarrow> bool" where
  "found_ok E now M G n c \<longleftrightarrow> ctx_ok E now c \<and> maxslave c = M \<and> maxgroup c = G \<and> slavecount c = n \<and>
     (\<forall>i \<in> {1..n}. unat (sl_parent (slavelist c i)) < i \<and> sl_group (slavelist c i) = 0)"

definition blank_ok :: "'e os_ops \<Rightarrow> ('e \<Rightarrow> nat) \<Rightarrow> nat \<Rightarrow> nat \<Rightarrow> 'e ecx_contextt \<Rightarrow> bool" where
  "blank_ok E now M G c \<longleftrightarrow> ctx_ok E now c \<and> maxslave c = M \<and> maxgroup c = G \<and> slavecount c = 0 \<and>
     (\<forall>i < M. sl_parent (slavelist c i) = 0 \<and> sl_group (slavelist c i) = 0)"

lemma ctx_step_fields:
  assumes "ctx_step E now c c'"
  shows "ctx_ok E now c'" "maxslave c' = maxslave c" "maxgroup c' = maxgroup c" "slavecount c' = slavecount c"
    "sl_parent (slavelist c' i) = sl_parent (slavelist c i)" "sl_group (slavelist c' i) = sl_group (slavelist c i)"
  using assms slave_config_fields [of "slavelist c' i" "slavelist c i"]
  by (simp_all add: ctx_step_def slaves_kept_def)

lemma ctx_ok_cong:
  "ctx_ok E now c \<Longrightarrow> port c' = port c \<Longrightarrow> elist c' = elist c \<Longrightarrow> slavecount c' = slavecount c \<Longrightarrow> maxslave c' = maxslave c \<Longrightarrow>
     ctx_ok E now c'"
  by (simp add: ctx_ok_def)

interpretation found: config_inv E now "found_ok E now M G n" for E :: "'e os_ops" and now M G n
proof
  fix c :: "'e ecx_contextt" assume c: "found_ok E now M G n c"
  then show "ctx_ok E now c" by (simp add: found_ok_def)
  show "found_ok E now M G n c'" if "ctx_step E now c c'" for c'
    using c ctx_step_fields [OF that] by (simp add: found_ok_def)
  show "found_ok E now M G n (c\<lparr>esimap := m\<rparr>)" "found_ok E now M G n (c\<lparr>esibuf := b\<rparr>)" "found_ok E now M G n (c\<lparr>esislave := s\<rparr>)"
    "found_ok E now M G n (c\<lparr>eepSM := e\<rparr>)" "found_ok E now M G n (c\<lparr>eepFMMU := f\<rparr>)" for m b s e f
    using c by (simp_all add: found_ok_def ctx_ok_def)
  show "found_ok E now M G n (upd_slave i g c)"
    if "\<And>s. sl_parent (g s) = sl_parent s \<and> sl_group (g s) = sl_group s" for g i
    using c that by (simp add: found_ok_def ctx_ok_def)
  show "found_ok E now M G n (upd_slave i (\<lambda>s. s\<lparr>sl_parent := of_nat k\<rparr>) c)" if "k < i \<or> i = 0" "i \<le> 0x8000" for i k
    using c that by (auto simp: found_ok_def ctx_ok_def unat_of_nat_u16)
qed

interpretation blank: ctx_inv E now "blank_ok E now M G" for E :: "'e os_ops" and now M G
  by unfold_locales (auto simp: blank_ok_def ctx_step_fields)

interpretation kept: ctx_inv E now "ctx_step E now a" for E :: "'e os_ops" and now a
  by unfold_locales (auto intro: ctx_step_ok ctx_step_trans)

lemma init_context_blank:
  assumes "net_ok E now (port c)" "ring_ok (elist c)" "0 < maxslave c"
  shows "runs_to (ecx_init_context E c) (blank_ok E now (maxslave c) (maxgroup c))"
proof -
  define c1 where "c1 = c\<lparr>slavecount := 0, slavelist := (\<lambda>i. if i < maxslave c then zero_slave else slavelist c i),
       grouplist := (\<lambda>i. if i < maxgroup c then zero_group else grouplist c i)\<rparr>"
  define c2 where "c2 = (if 0 \<noteq> esislave c1 then c1\<lparr>esimap := (\<lambda>_. 0), esislave := 0\<rparr> else c1)"
  have "unat (of_nat EC_MAXEEPBUF :: u16) = EC_MAXEEPBUF" by simp
  then have 2: "ecx_siigetbyte E 0 (of_nat EC_MAXEEPBUF) c1 = Some (0xff, c2)"
    by (simp add: ecx_siigetbyte_def siigetbyte_def c2_def)
  have b: "blank_ok E now (maxslave c) (maxgroup c) c2"
    using assms by (simp add: c2_def c1_def blank_ok_def ctx_ok_def zero_slave_def)
  show ?thesis
    unfolding ecx_init_context_def Let_def c1_def [symmetric] 2 Option.bind.bind_lunit prod.case
    by (rule foldM_total [where I = "blank_ok E now (maxslave c) (maxgroup c)", OF b])
      (simp add: blank_ok_def ctx_ok_def upd_group_def)
qed

lemma bwr_runs:
  assumes "ctx_ok E now c" "\<forall>(ADO, n, b) \<in> set ws. 28 + unat n \<le> EC_BUFSIZE"
  shows "runs_to (foldM (bwr E) ws c) (ctx_step E now c)"
proof (rule foldM_total)
  show "ctx_step E now c c" by (rule ctx_step_refl [OF assms(1)])
  fix w c1 assume w: "w \<in> set ws" and s: "ctx_step E now c c1"
  obtain ADO n b where e: "w = (ADO, n, b)" by (metis surj_pair)
  with w assms(2) have n: "28 + unat n \<le> EC_BUFSIZE" by auto
  have "runs_to (on_port (ecx_BWR E 0 ADO n b EC_TIMEOUTRET3) c1) (\<lambda>(x, c'). ctx_step E now c1 c' \<and> True \<and> (\<exists>p. c' = c1\<lparr>port := p\<rparr>))"
    by (rule on_port_step [OF ctx_step_ok [OF s]]) (use ecx_BWR_runs [OF ctx_ok_net [OF ctx_step_ok [OF s]] n] in simp)
  then show "runs_to (bwr E w c1) (ctx_step E now c)"
    by (auto simp: bwr_def e elim!: runs_to_mono intro: ctx_step_trans [OF s])
qed

lemma detect_slaves_runs:
  assumes "ctx_ok E now c"
  shows "runs_to (ecx_detect_slaves E c) (\<lambda>(wkc, c'). \<exists>c1. ctx_step E now c c1 \<and>
    (if wkc > 0 then wkc < int (maxslave c) \<and> c' = c1\<lparr>slavecount := nat wkc\<rparr> else c' = c1))"
proof -
  let ?ws = "[(ECT_REG_DLALIAS, 1 :: u16, var8 0), (ECT_REG_ALCTL, 1, var8 (ucast (EC_STATE_INIT OR EC_STATE_ACK))),
       (ECT_REG_ALCTL, 1, var8 (ucast (EC_STATE_INIT OR EC_STATE_ACK)))]"
  from bwr_runs [OF assms, of ?ws] obtain c1 where 1: "foldM (bwr E) ?ws c = Some c1" "ctx_step E now c c1"
    by (auto simp: runs_to_iff)
  have "runs_to (on_port2 (ecx_BRD E 0 ECT_REG_TYPE 2 zero_buf EC_TIMEOUTSAFE) c1)
    (\<lambda>(x, y, c'). ctx_step E now c1 c' \<and> True \<and> (\<exists>p. c' = c1\<lparr>port := p\<rparr>))"
    by (rule on_port2_step [OF ctx_step_ok [OF 1(2)]])
      (rule runs_to_mono [OF ecx_BRD_runs [OF ctx_ok_net [OF ctx_step_ok [OF 1(2)]]]]; auto)
  then obtain wkc b c2 where 2: "on_port2 (ecx_BRD E 0 ECT_REG_TYPE 2 zero_buf EC_TIMEOUTSAFE) c1 = Some (wkc, b, c2)"
    "ctx_step E now c1 c2" by (auto simp: runs_to_iff)
  have s: "ctx_step E now c c2" by (rule ctx_step_trans [OF 1(2) 2(2)])
  with ctx_step_fields(2) [OF s] show ?thesis
    unfolding ecx_detect_slaves_def 1(1) Option.bind.bind_lunit 2(1) prod.case by auto
qed

lemma each_pass_inv:
  assumes "found_ok E now M G n c" "\<And>c'. found_ok E now M G n c' \<Longrightarrow> Q c'"
  shows "if_runs (each_slave (config_man E) c) Q" "if_runs (each_slave (config_id E) c) Q"
    "if_runs (each_slave (config_rev E) c) Q" "if_runs (each_slave (config_rxmbx E) c) Q"
    "if_runs (each_slave (config_slave E t) c) Q" "if_runs (ecx_set_slaves_to_default E c) Q"
proof -
  show "if_runs (each_slave (config_man E) c) Q" "if_runs (each_slave (config_id E) c) Q"
    "if_runs (each_slave (config_rev E) c) Q" "if_runs (each_slave (config_rxmbx E) c) Q"
    "if_runs (each_slave (config_slave E t) c) Q"
    by (rule if_runs_mono [OF found.each_slave_inv [OF assms(1)] assms(2)];
        (assumption | erule found.config_pass_inv found.config_slave_inv))+
  show "if_runs (ecx_set_slaves_to_default E c) Q"
    unfolding ecx_set_slaves_to_default_def
    by (rule runs_to_if_runs, rule runs_to_mono [OF bwr_runs [OF found.ok_law [OF assms(1)]]])
      (auto intro: assms(2) found.step_law [OF assms(1)])
qed

lemma address_pass_inv:
  assumes "found_ok E now M G n c" "\<And>al es c'. found_ok E now M G n c' \<Longrightarrow> Q (al, es, c')"
  shows "if_runs (foldM (config_address E) is (al, es, c)) Q"
  by (rule if_runs_mono [OF foldM_partial [where I = "\<lambda>(al, es, c). found_ok E now M G n c"]])
    (use assms(1) in \<open>auto intro: assms(2) found.config_address_inv\<close>)

text \<open>All passes over the slaves that were counted.\<close>

lemma config_passes:
  assumes "found_ok E now M G n c"
  shows "if_runs (do {
       c \<leftarrow> ecx_set_slaves_to_default E c;
       chk (slavecount c < 65535);
       (_, _, c) \<leftarrow> foldM (config_address E) [1..<slavecount c + 1] (aliasadr, estat, c);
       c \<leftarrow> each_slave (config_man E) c;
       c \<leftarrow> each_slave (config_id E) c;
       c \<leftarrow> each_slave (config_rev E) c;
       c \<leftarrow> each_slave (config_rxmbx E) c;
       c \<leftarrow> each_slave (config_slave E usetable) c;
       Some (wkc, c) }) (\<lambda>(w, c'). w = wkc \<and> found_ok E now M G n c')"
  unfolding if_runs_simps
  by (rule each_pass_inv(6) [OF assms]) (auto intro!: each_pass_inv(1-5) address_pass_inv simp del: upt_Suc)

lemma config_init_found:
  assumes "net_ok E now (port c)" "ring_ok (elist c)" "0 < maxslave c"
  shows "\<exists>wkc c0. Option.bind (ecx_init_context E c) (ecx_detect_slaves E) = Some (wkc, c0) \<and>
    (wkc \<le> 0 \<longrightarrow> ecx_config_init E al es t c = Some (wkc, c0)) \<and>
    if_runs (ecx_config_init E al es t c) (\<lambda>(w, c1). w = wkc \<and> found_ok E now (maxslave c) (maxgroup c) (nat wkc) c1)"
proof -
  from init_context_blank [OF assms] obtain ca where
    a: "ecx_init_context E c = Some ca" "blank_ok E now (maxslave c) (maxgroup c) ca" by (auto simp: runs_to_iff)
  from detect_slaves_runs [OF blank.ok_law [OF a(2)]] obtain wkc c0 cb where
    d: "ecx_detect_slaves E ca = Some (wkc, c0)" "ctx_step E now ca cb"
      "if wkc > 0 then wkc < int (maxslave ca) \<and> c0 = cb\<lparr>slavecount := nat wkc\<rparr> else c0 = cb" by (auto simp: runs_to_iff)
  have cb: "blank_ok E now (maxslave c) (maxgroup c) cb" by (rule blank.step_law [OF a(2) d(2)])
  have f: "found_ok E now (maxslave c) (maxgroup c) (nat wkc) c0"
    using cb d(3) a(2) by (auto simp: found_ok_def blank_ok_def ctx_ok_def split: if_splits)
  have e: "ecx_config_init E al es t c = (if wkc > 0 then do {
       c \<leftarrow> ecx_set_slaves_to_default E c0;
       chk (slavecount c < 65535);
       (_, _, c) \<leftarrow> foldM (config_address E) [1..<slavecount c + 1] (al, es, c);
       c \<leftarrow> each_slave (config_man E) c;
       c \<leftarrow> each_slave (config_id E) c;
       c \<leftarrow> each_slave (config_rev E) c;
       c \<leftarrow> each_slave (config_rxmbx E) c;
       c \<leftarrow> each_slave (config_slave E t) c;
       Some (wkc, c) } else Some (wkc, c0))"
    unfolding ecx_config_init_def a(1) Option.bind.bind_lunit d(1) prod.case ..
  have "if_runs (ecx_config_init E al es t c) (\<lambda>(w, c1). w = wkc \<and> found_ok E now (maxslave c) (maxgroup c) (nat wkc) c1)"
    unfolding e by (cases "wkc > 0") (use config_passes [OF f] f in simp_all)
  then show ?thesis using e a(1) d(1) by simp
qed

section \<open>Recovery\<close>

text \<open>While the slave has its temporary address; putting the old one back restores the configuration.\<close>

definition recovering :: "'e os_ops \<Rightarrow> ('e \<Rightarrow> nat) \<Rightarrow> nat \<Rightarrow> 'e ecx_contextt \<Rightarrow> 'e ecx_contextt \<Rightarrow> bool" where
  "recovering E now slave a c \<longleftrightarrow> (\<exists>b. ctx_step E now a b \<and> ctx_step E now (upd_slave slave (\<lambda>s. s\<lparr>sl_configadr := EC_TEMPNODE\<rparr>) b) c)"

interpretation recovering: ctx_inv E now "recovering E now slave a" for E :: "'e os_ops" and now slave a
  by unfold_locales (auto simp: recovering_def intro: ctx_step_ok ctx_step_trans)

lemma recovering_start:
  assumes "ctx_step E now a b"
  shows "recovering E now slave a (upd_slave slave (\<lambda>s. s\<lparr>sl_configadr := EC_TEMPNODE\<rparr>) b)"
proof -
  have "ctx_ok E now (upd_slave slave (\<lambda>s. s\<lparr>sl_configadr := EC_TEMPNODE\<rparr>) b)"
    using ctx_step_ok [OF assms] by (simp add: ctx_ok_def)
  with assms show ?thesis by (auto simp: recovering_def intro: ctx_step_refl)
qed

lemma recovering_end:
  assumes "recovering E now slave a c"
  shows "ctx_step E now a (upd_slave slave (\<lambda>s. s\<lparr>sl_configadr := sl_configadr (slavelist a slave)\<rparr>) c)"
proof -
  let ?f = "\<lambda>v s. s\<lparr>sl_configadr := v\<rparr>"
  from assms obtain b where b: "ctx_step E now a b" "ctx_step E now (upd_slave slave (?f EC_TEMPNODE) b) c"
    by (auto simp: recovering_def)
  have f: "slave_config (?f v s) = ?f v (slave_config s)" for v s by (simp add: slave_config_def)
  have "slave_config (slavelist b slave) = slave_config (slavelist a slave)"
    "slave_config (slavelist c slave) = ?f EC_TEMPNODE (slave_config (slavelist b slave))"
    using b by (simp_all add: ctx_step_def slaves_kept_def f)
  then have "slave_config (?f (sl_configadr (slavelist a slave)) (slavelist c slave)) = slave_config (slavelist a slave)"
    unfolding f by (simp add: slave_config_def)
  then show ?thesis
    using b by (auto simp: ctx_step_def slaves_kept_def ctx_ok_def f intro: exchange_ok_trans)
qed

lemma recover_kept:
  assumes "ctx_ok E now c"
  shows "if_runs (ecx_recover_slave E slave t c) (\<lambda>(r, c'). ctx_step E now c c')"
proof -
  have "if_runs (do {
         (_, c) \<leftarrow> ecx_eeprom2master E slave c1;
         (same, c) \<leftarrow> recover_same E slave t c;
         (rval, c) \<leftarrow> on_port (ecx_FPWRw E EC_TEMPNODE ECT_REG_STADR (if same then a else 0) t) c;
         Some (if same then rval else 0, upd_slave slave (\<lambda>s. s\<lparr>sl_configadr := a\<rparr>) c) }) (\<lambda>(r, c'). ctx_step E now c c')"
    if "recovering E now slave c c1" "a = sl_configadr (slavelist c slave)" for c1 a
    unfolding that(2) if_runs_simps
    by (rule recovering.eeprom_control_inv(1) [OF that(1)])
      (auto intro!: recovering.recover_same_inv recovering.write_inv recovering_end)
  with ctx_step_refl [OF assms] show ?thesis
    by (auto simp: ecx_recover_slave_def Let_def
        intro!: kept.read_inv kept.write_inv recovering_start)
qed

lemma FPWR_step:
  assumes "ctx_step E now a c" "28 + unat n \<le> EC_BUFSIZE"
  shows "runs_to (on_port (ecx_FPWR E adr ado n b t) c) (\<lambda>(w, c'). ctx_step E now a c' \<and> slavelist c' = slavelist c)"
    and "runs_to (on_port (ecx_FPWRw E adr ado v t) c) (\<lambda>(w, c'). ctx_step E now a c' \<and> slavelist c' = slavelist c)"
proof -
  have *: "runs_to (on_port (ecx_FPWR E adr ado n b t) c) (\<lambda>(w, c'). ctx_step E now a c' \<and> slavelist c' = slavelist c)"
    if "28 + unat n \<le> EC_BUFSIZE" for n b
  proof -
    have "runs_to (on_port (ecx_FPWR E adr ado n b t) c) (\<lambda>(x, c'). ctx_step E now c c' \<and> True \<and> (\<exists>p. c' = c\<lparr>port := p\<rparr>))"
      by (rule on_port_step [OF ctx_step_ok [OF assms(1)]])
        (use ecx_FPWR_runs [OF ctx_ok_net [OF ctx_step_ok [OF assms(1)]] that] in simp)
    then show ?thesis by (rule runs_to_mono) (auto intro: ctx_step_trans [OF assms(1)])
  qed
  show "runs_to (on_port (ecx_FPWR E adr ado n b t) c) (\<lambda>(w, c'). ctx_step E now a c' \<and> slavelist c' = slavelist c)"
    by (rule * [OF assms(2)])
  show "runs_to (on_port (ecx_FPWRw E adr ado v t) c) (\<lambda>(w, c'). ctx_step E now a c' \<and> slavelist c' = slavelist c)"
    unfolding ecx_FPWRw_def by (rule *) simp
qed

lemma FMMUunused_kept:
  assumes "ctx_step E now a c"
  shows "sl_FMMUunused (slavelist c i) = sl_FMMUunused (slavelist a i)"
proof -
  have "slave_config (slavelist c i) = slave_config (slavelist a i)" using assms by (simp add: ctx_step_def slaves_kept_def)
  from arg_cong [OF this, of sl_FMMUunused] show ?thesis by (simp add: slave_config_def)
qed

lemma statecheck_step:
  assumes "ctx_step E now a c" "slave \<le> slavecount a"
  shows "runs_to (ecx_statecheck E slave st t c) (\<lambda>(x, c'). ctx_step E now a c')"
  by (rule runs_to_mono [OF ecx_statecheck_runs [OF ctx_step_ok [OF assms(1)]]])
    (use assms ctx_step_fields(4) [OF assms(1)] in \<open>auto intro: ctx_step_trans\<close>)

lemma reconfig_runs:
  assumes c: "ctx_ok E now c" and slave: "slave \<le> slavecount c" and F: "unat (sl_FMMUunused (slavelist c slave)) \<le> EC_MAXFMMU"
    and hook: "\<And>c. ctx_ok E now c \<Longrightarrow> runs_to (hook slave c) (ctx_step E now c)"
  shows "runs_to (ecx_reconfig_slave E hook slave t c) (\<lambda>(st, c'). ctx_step E now c c')"
proof -
  let ?S = "ctx_step E now c"
  define adr where "adr = sl_configadr (slavelist c slave)"
  have w: "runs_to (on_port (ecx_FPWRw E adr ado v t) c1) Q" if "?S c1" "\<And>x c'. ?S c' \<Longrightarrow> Q (x, c')" for ado v c1 Q
    by (rule runs_to_mono [OF FPWR_step(2) [OF that(1), of 2]]) (use that(2) in auto)
  have st: "runs_to (ecx_statecheck E slave x tt c1) Q" if "?S c1" "\<And>x c'. ?S c' \<Longrightarrow> Q (x, c')" for x tt c1 Q
    by (rule runs_to_mono [OF statecheck_step [OF that(1) slave]]) (use that(2) in auto)
  have max: "slave < maxslave c1" if "?S c1" for c1
    using ctx_step_fields(1,2,4) [OF that] slave by (simp add: ctx_ok_def)
  have pdi: "runs_to (ecx_eeprom2pdi E slave c1) Q" if "?S c1" "\<And>x c'. ?S c' \<Longrightarrow> Q (x, c')" for c1 Q
    by (rule runs_to_mono [OF eeprom_control_steps(2) [OF ctx_step_ok [OF that(1)] max [OF that(1)]]])
      (auto intro: that(2) ctx_step_trans [OF that(1)])
  have wr: "runs_to (on_port (ecx_FPWR E adr ado n b t) c1) Q"
    if "?S c1" "28 + unat n \<le> EC_BUFSIZE" "\<And>x c'. ?S c' \<Longrightarrow> Q (x, c')" for ado n b c1 Q
    by (rule runs_to_mono [OF FPWR_step(1) [OF that(1,2)]]) (use that(3) in auto)
  have each: "runs_to (foldM f is c1) Q" if "?S c1" "\<And>i c'. ?S c' \<Longrightarrow> runs_to (f i c') ?S" "\<And>c'. ?S c' \<Longrightarrow> Q c'" for f "is" c1 Q
    by (rule runs_to_mono [OF foldM_total [where I = ?S, OF that(1)] that(3)]) (use that(2) in auto)
  have hk: "runs_to (hook slave c1) Q" if "?S c1" "\<And>c'. ?S c' \<Longrightarrow> Q c'" for c1 Q
    by (rule runs_to_mono [OF hook [OF ctx_step_ok [OF that(1)]] that(2)]) (rule ctx_step_trans [OF that(1)])
  have F1: "unat (sl_FMMUunused (slavelist c1 slave)) \<le> EC_MAXFMMU" if "?S c1" for c1
    using FMMUunused_kept [OF that] F by simp
  show ?thesis
    unfolding ecx_reconfig_slave_def Let_def [of "sl_configadr (slavelist c slave)"] adr_def [symmetric]
    using ctx_step_refl [OF c] max [OF ctx_step_refl [OF c]]
    by (auto simp: Let_def intro!: w st pdi wr each hk F1)
qed

section \<open>Properties\<close>

text \<open>
  On a consistent line topology (every slave has one to four open ports, and there is an open port
  for every slave) the parent that the search finds is the one of the reference: the slave whose port
  is the innermost open one.
\<close>

theorem find_parent_innermost:
  assumes "1 < slave" "\<forall>i \<in> {1..<slave}. 1 \<le> unat (sl_topology (slavelist c i)) \<and> unat (sl_topology (slavelist c i)) \<le> 4"
    and "open_ports (topo_list (\<lambda>i. sl_topology (slavelist c i)) (slave - 1)) \<noteq> []"
  shows "find_parent slave c = hd (open_ports (topo_list (\<lambda>i. sl_topology (slavelist c i)) (slave - 1)))"
proof -
  have "{1..slave - 1} = {1..<slave}" using assms(1) by auto
  with parent_scan_stack [of "slave - 1" "\<lambda>i. sl_topology (slavelist c i)" 0] assms show ?thesis
    by (simp add: find_parent_def hd_conv_nth)
qed

text \<open>
  C5: the search for the slaves always counts them, and returns when there is none or too many; when
  it returns, fewer slaves than the list has room for are recorded, the parent of every slave comes
  before it, and the clock search can follow: if every clock has an open port, it ends and links all
  clocks into one chain.
\<close>

theorem config_init_topology:
  assumes "net_ok E now (port c)" "ring_ok (elist c)" "0 < maxslave c" "0 < maxgroup c"
  shows "\<exists>wkc c0. Option.bind (ecx_init_context E c) (ecx_detect_slaves E) = Some (wkc, c0) \<and>
    (wkc \<le> 0 \<longrightarrow> ecx_config_init E al es t c = Some (wkc, c0)) \<and>
    (\<forall>w c1. ecx_config_init E al es t c = Some (w, c1) \<longrightarrow>
      w = wkc \<and> slavecount c1 = nat wkc \<and> nat wkc < maxslave c1 \<and>
      (\<forall>i \<in> {1..nat wkc}. unat (sl_parent (slavelist c1 i)) < i) \<and>
      ((\<forall>i \<in> {1..nat wkc}. sl_hasdc (slavelist c1 i) \<longrightarrow> sl_activeports (slavelist c1 i) AND 0x0f \<noteq> 0) \<longrightarrow>
        (\<exists>found c2. ecx_configdc E hrt c1 = Some (found, c2) \<and>
          chain (slavelist c2) 0 (filter (\<lambda>i. sl_hasdc (slavelist c1 i)) [1..<nat wkc + 1]))))"
proof -
  from config_init_found [OF assms(1-3), of al es t] obtain wkc c0 where
    1: "Option.bind (ecx_init_context E c) (ecx_detect_slaves E) = Some (wkc, c0)"
      "wkc \<le> 0 \<longrightarrow> ecx_config_init E al es t c = Some (wkc, c0)"
      "if_runs (ecx_config_init E al es t c) (\<lambda>(w, c1). w = wkc \<and> found_ok E now (maxslave c) (maxgroup c) (nat wkc) c1)"
    by blast
  have "w = wkc \<and> slavecount c1 = nat wkc \<and> nat wkc < maxslave c1 \<and>
      (\<forall>i \<in> {1..nat wkc}. unat (sl_parent (slavelist c1 i)) < i) \<and>
      ((\<forall>i \<in> {1..nat wkc}. sl_hasdc (slavelist c1 i) \<longrightarrow> sl_activeports (slavelist c1 i) AND 0x0f \<noteq> 0) \<longrightarrow>
        (\<exists>found c2. ecx_configdc E hrt c1 = Some (found, c2) \<and>
          chain (slavelist c2) 0 (filter (\<lambda>i. sl_hasdc (slavelist c1 i)) [1..<nat wkc + 1])))"
    if r: "ecx_config_init E al es t c = Some (w, c1)" for w c1
  proof -
    from if_runsD [OF 1(3) r] have w: "w = wkc" and f: "found_ok E now (maxslave c) (maxgroup c) (nat wkc) c1" by simp_all
    then have net: "net_ok E now (port c1)" and n: "slavecount c1 = nat wkc" "nat wkc < maxslave c1"
      and par: "\<forall>i \<in> {1..nat wkc}. unat (sl_parent (slavelist c1 i)) < i" by (simp_all add: found_ok_def ctx_ok_def)
    have "\<exists>found c2. ecx_configdc E hrt c1 = Some (found, c2) \<and>
        chain (slavelist c2) 0 (filter (\<lambda>i. sl_hasdc (slavelist c1 i)) [1..<nat wkc + 1])"
      if "\<forall>i \<in> {1..nat wkc}. sl_hasdc (slavelist c1 i) \<longrightarrow> sl_activeports (slavelist c1 i) AND 0x0f \<noteq> 0"
    proof -
      have "topo_ok c1" using that f assms(4) by (simp add: topo_ok_def found_ok_def ctx_ok_def)
      from configdc_links [OF net this, of hrt] show ?thesis unfolding n(1) by blast
    qed
    with w n par show ?thesis by blast
  qed
  with 1(1,2) show ?thesis by blast
qed

text \<open>
  C32: the reconfiguration of a slave always ends when its hooks do, and it leaves the configuration of
  the slaves as it was; so does the recovery of a lost slave when it ends, on every path: the slave has
  its node address back in the list, whether it was found again or not.
\<close>

theorem recovery_keeps_configuration:
  assumes "ctx_ok E now c" "slave \<le> slavecount c" "unat (sl_FMMUunused (slavelist c slave)) \<le> EC_MAXFMMU"
    and "\<And>c. ctx_ok E now c \<Longrightarrow> \<exists>c'. hook slave c = Some c' \<and> ctx_step E now c c'"
  shows "(\<exists>st c'. ecx_reconfig_slave E hook slave t c = Some (st, c') \<and> ctx_step E now c c') \<and>
    (\<forall>r c'. ecx_recover_slave E slave t c = Some (r, c') \<longrightarrow> ctx_step E now c c')"
proof
  have h: "runs_to (hook slave c) (ctx_step E now c)" if "ctx_ok E now c" for c
    using assms(4) [OF that] by (auto simp: runs_to_iff)
  from reconfig_runs [where hook = hook, OF assms(1-3) h, of t]
  show "\<exists>st c'. ecx_reconfig_slave E hook slave t c = Some (st, c') \<and> ctx_step E now c c'" by (auto simp: runs_to_iff)
  from recover_kept [OF assms(1), of slave t]
  show "\<forall>r c'. ecx_recover_slave E slave t c = Some (r, c') \<longrightarrow> ctx_step E now c c'" by (auto simp: if_runs_iff)
qed

section \<open>Examples\<close>

text \<open>A coupler with two lines behind it: slave 2 is on the first one, slave 3 on the second one.\<close>

definition fork_ctx :: "(nat \<times> u8 list list) ecx_contextt" where
  "fork_ctx = upd_slave 1 (\<lambda>s. s\<lparr>sl_topology := 3\<rparr>) (upd_slave 2 (\<lambda>s. s\<lparr>sl_topology := 1\<rparr>) (idle_ctx 3 (5, [])))"

theorem find_parent_innermost_witness: "find_parent 3 fork_ctx = 1"
proof -
  have t: "topo_list (\<lambda>i. sl_topology (slavelist fork_ctx i)) (3 - 1) = [1, 3]"
    by (simp add: topo_list_def fork_ctx_def upt_rec)
  have o: "open_ports (topo_list (\<lambda>i. sl_topology (slavelist fork_ctx i)) (3 - 1)) = [1]"
    unfolding t by (simp add: numeral_eq_Suc)
  have "\<forall>i \<in> {1..<3}. 1 \<le> unat (sl_topology (slavelist fork_ctx i)) \<and> unat (sl_topology (slavelist fork_ctx i)) \<le> 4"
    by (auto simp: fork_ctx_def)
  from find_parent_innermost [OF _ this] show ?thesis unfolding o by simp
qed

theorem config_init_topology_witness:
  "\<exists>wkc c0. Option.bind (ecx_init_context script_os (idle_ctx 2 (5, []))) (ecx_detect_slaves script_os) = Some (wkc, c0)"
proof -
  have "net_ok script_os (\<lambda>(t, q). t * 1000) (port (idle_ctx 2 (5, [])))" "ring_ok (elist (idle_ctx 2 (5, [])))"
    using idle_ctx_ok [of 2 "(5, [])"] by (simp_all add: ctx_ok_def)
  moreover have "0 < maxslave (idle_ctx 2 (5, []))" "0 < maxgroup (idle_ctx 2 (5, []))"
    by (simp_all add: idle_ctx_def)
  ultimately show ?thesis using config_init_topology [of script_os _ "idle_ctx 2 (5, [])"] by fast
qed

theorem recovery_keeps_configuration_witness:
  "\<exists>st c'. ecx_reconfig_slave script_os (\<lambda>_. Some) 1 500 (idle_ctx 2 (5, [])) = Some (st, c')"
proof -
  have c: "ctx_ok script_os (\<lambda>(t, q). t * 1000) (idle_ctx 2 (5, []))" by (rule idle_ctx_ok) simp
  have "\<exists>c'. Some c = Some c' \<and> ctx_step script_os (\<lambda>(t, q). t * 1000) c c'"
    if "ctx_ok script_os (\<lambda>(t, q). t * 1000) c" for c :: "(nat \<times> u8 list list) ecx_contextt"
    using that by (simp add: ctx_step_refl)
  from recovery_keeps_configuration [where hook = "\<lambda>_. Some" and slave = 1 and t = 500, OF c _ _ this]
  show ?thesis by (auto simp: idle_ctx_def zero_slave_def)
qed

end
