(* ===== verification/Coe.thy ===== *)
theory Coe
  imports Mailbox "HOL-Library.Signed_Division"
begin

text \<open>
  CANopen over EtherCAT (\<open>soem/ethercatcoe.c\<close>): the reports of SDO errors, upload and download of
  objects (expedited, normal and segmented), PDO transfers through the mailbox, the PDO mapping read
  from the object dictionary, and the object description services.

  The operations use the master only through the mailboxes of one slave: they are defined over a
  record of these operations, \<open>mbx_link\<close>, which \<open>ecx_link\<close> instantiates with the functions of the
  master. A mailbox is a buffer of \<open>EC_MAXMBX + 1\<close> bytes, of which the last one is never initialised;
  the header of an SDO frame has its length at 0, the type at 5, the CANopen word at 6, the command
  at 8, the index at 9, the subindex at 11 and data from 12 on.
\<close>

abbreviation (input) EC_MAXODLIST :: nat where "EC_MAXODLIST \<equiv> 1024"
abbreviation (input) EC_MAXOELIST :: nat where "EC_MAXOELIST \<equiv> 256"
abbreviation (input) EC_MAX_MAPT :: nat where "EC_MAX_MAPT \<equiv> 1"

section \<open>Error reports\<close>

definition set_AbortCode :: "u32 \<Rightarrow> ec_errort \<Rightarrow> ec_errort" where
  "set_AbortCode a e = e\<lparr>err_ErrorCode := ucast a, err_ErrorReg := ucast (drop_bit 16 a), err_b1 := ucast (drop_bit 24 a)\<rparr>"

definition ecx_SDOerror :: "'e os_ops \<Rightarrow> u16 \<Rightarrow> u16 \<Rightarrow> u8 \<Rightarrow> u32 \<Rightarrow> 'e ecx_contextt \<Rightarrow> 'e ecx_contextt option" where
  "ecx_SDOerror E Slave Index SubIdx AbortCode c = do {
     let (t, c) = ctx_time E c;
     let c = c\<lparr>ecaterror := True\<rparr>;
     ecx_pusherror (set_AbortCode AbortCode (zero_err\<lparr>err_Time := t, err_Slave := Slave, err_Index := Index,
       err_SubIdx := SubIdx, err_Etype := EC_ERR_TYPE_SDO_ERROR\<rparr>)) c }"

definition ecx_SDOinfoerror :: "u16 \<Rightarrow> u16 \<Rightarrow> u8 \<Rightarrow> u32 \<Rightarrow> 'e ecx_contextt \<Rightarrow> 'e ecx_contextt option" where
  "ecx_SDOinfoerror Slave Index SubIdx AbortCode c =
     ecx_pusherror (set_AbortCode AbortCode (zero_err\<lparr>err_Slave := Slave, err_Index := Index,
       err_SubIdx := SubIdx, err_Etype := EC_ERR_TYPE_SDOINFO_ERROR\<rparr>)) (c\<lparr>ecaterror := True\<rparr>)"

section \<open>The mailbox link\<close>

record 'c mbx_link =
  lk_send :: "buf \<Rightarrow> 'c \<Rightarrow> (int \<times> 'c) option"
  lk_receive :: "buf \<Rightarrow> int \<Rightarrow> 'c \<Rightarrow> (int \<times> buf \<times> 'c) option"
  lk_cnt :: "'c \<Rightarrow> u8 \<times> 'c"
  lk_mbx_l :: "'c \<Rightarrow> u16"
  lk_sdoerror :: "u16 \<Rightarrow> u8 \<Rightarrow> u32 \<Rightarrow> 'c \<Rightarrow> 'c option"
  lk_infoerror :: "u16 \<Rightarrow> u8 \<Rightarrow> u32 \<Rightarrow> 'c \<Rightarrow> 'c option"
  lk_packeterror :: "u16 \<Rightarrow> u8 \<Rightarrow> u16 \<Rightarrow> 'c \<Rightarrow> 'c option"

text \<open>\<open>cnt = ec_nextmbxcnt(slavelist[slave].mbx_cnt); slavelist[slave].mbx_cnt = cnt\<close>.\<close>

definition next_cnt :: "nat \<Rightarrow> 'e ecx_contextt \<Rightarrow> u8 \<times> 'e ecx_contextt" where
  "next_cnt slave c = (let cnt = ec_nextmbxcnt (sl_mbx_cnt (slavelist c slave)) in
     (cnt, upd_slave slave (\<lambda>s. s\<lparr>sl_mbx_cnt := cnt\<rparr>) c))"

definition ecx_link :: "'e os_ops \<Rightarrow> 'e eoe_hook \<Rightarrow> nat \<Rightarrow> 'e ecx_contextt mbx_link" where
  "ecx_link E hook slave = \<lparr>lk_send = (\<lambda>m. ecx_mbxsend E slave m EC_TIMEOUTTXM),
     lk_receive = ecx_mbxreceive E hook slave,
     lk_cnt = next_cnt slave,
     lk_mbx_l = (\<lambda>c. sl_mbx_l (slavelist c slave)),
     lk_sdoerror = ecx_SDOerror E (of_nat slave),
     lk_infoerror = ecx_SDOinfoerror (of_nat slave),
     lk_packeterror = ecx_packeterror E (of_nat slave)\<rparr>"

text \<open>
  The mailbox header of a CoE frame with a new counter; a request with its answer: when the request
  cannot be placed nothing is received.
\<close>

definition coe_header :: "'c mbx_link \<Rightarrow> u16 \<Rightarrow> u16 \<Rightarrow> buf \<Rightarrow> 'c \<Rightarrow> buf \<times> 'c" where
  "coe_header L len canopen m c = (let
     m = wr16 (wr16 m 0 len) 2 0;
     (cnt, c) = lk_cnt L c;
     m = m(4 := 0, 5 := ECT_MBXT_COE + push_bit 4 cnt)
   in (wr16 m 6 canopen, c))"

definition mbx_exchange :: "'c mbx_link \<Rightarrow> buf \<Rightarrow> buf \<Rightarrow> int \<Rightarrow> 'c \<Rightarrow> (int \<times> buf \<times> 'c) option" where
  "mbx_exchange L mi mo timeout c = do {
     (wkc, c) \<leftarrow> lk_send L mo c;
     if wkc > 0 then lk_receive L (ec_clearmbx mi) timeout c else Some (wkc, mi, c) }"

definition is_coe :: "u16 \<Rightarrow> buf \<Rightarrow> bool" where
  "is_coe service m \<longleftrightarrow> m 5 AND 0x0f = ECT_MBXT_COE \<and> drop_bit 12 (rd16 m 6) = service"

text \<open>An answer that is not the awaited one.\<close>

definition sdo_unexpected :: "'c mbx_link \<Rightarrow> u16 \<Rightarrow> u8 \<Rightarrow> buf \<Rightarrow> 'c \<Rightarrow> 'c option" where
  "sdo_unexpected L index subindex m c =
     (if m 8 = ECT_SDO_ABORT then lk_sdoerror L index subindex (rd32 m 12) c
      else lk_packeterror L index subindex 1 c)"

section \<open>Upload\<close>

definition sdo_upload_request :: "'c mbx_link \<Rightarrow> u8 \<Rightarrow> u16 \<Rightarrow> u8 \<Rightarrow> buf \<Rightarrow> 'c \<Rightarrow> buf \<times> 'c" where
  "sdo_upload_request L com index subindex mo c = (let
     (mo, c) = coe_header L 0x000a (push_bit 12 ECT_COES_SDOREQ) mo c
   in (wr32 ((wr16 (mo(8 := com)) 9 index)(11 := subindex)) 12 0, c))"

text \<open>
  One round of a segmented upload into \<open>p\<close>, a buffer of \<open>cap\<close> bytes, at \<open>hp\<close>. Without an answer the
  round is repeated with the other toggle bit.
\<close>

definition sdo_upload_segment :: "'c mbx_link \<Rightarrow> u16 \<Rightarrow> u8 \<Rightarrow> int \<Rightarrow> nat \<Rightarrow>
    int \<times> int \<times> nat \<times> buf \<times> u8 \<times> buf \<times> buf \<times> 'c \<Rightarrow>
    ((int \<times> int \<times> nat \<times> buf \<times> u8 \<times> buf \<times> buf \<times> 'c) \<times> bool) option" where
  "sdo_upload_segment L index subindex timeout cap = (\<lambda>(wkc, psize, hp, p, toggle, mi, mo, c). do {
     let (mo, c) = sdo_upload_request L (ECT_SDO_SEG_UP_REQ + toggle) index subindex mo c;
     (wkc, mi, c) \<leftarrow> mbx_exchange L mi mo timeout c;
     if wkc > 0
     then if is_coe ECT_COES_SDORES mi \<and> mi 8 AND 0xe0 = 0x00
       then do {
         let last = mi 8 AND 0x01 > 0;
         let n = rd16 mi 0 - 3;
         let n = (if last \<and> n = 7 then n - ucast (drop_bit 1 (mi 8 AND 0x0e)) else n);
         chk (9 + unat n \<le> EC_MAXMBX \<and> hp + unat n \<le> cap);
         Some ((wkc, psize + uint n, if last then hp else hp + unat n, memcpy p hp mi 9 (unat n),
           toggle XOR 0x10, mi, mo, c), \<not> last) }
       else do {
         c \<leftarrow> sdo_unexpected L index subindex mi c;
         Some ((0, psize, hp, p, toggle XOR 0x10, mi, mo, c), False) }
     else Some ((wkc, psize, hp, p, toggle XOR 0x10, mi, mo, c), True) })"

text \<open>What is done with the answer to an upload request: the new size, the buffer and the context.\<close>

definition sdo_upload_answer :: "'c mbx_link \<Rightarrow> u16 \<Rightarrow> u8 \<Rightarrow> int \<Rightarrow> int \<Rightarrow> buf \<Rightarrow> int \<Rightarrow> buf \<Rightarrow> buf \<Rightarrow> 'c \<Rightarrow>
    (int \<times> int \<times> buf \<times> 'c) option" where
  "sdo_upload_answer L index subindex psize wkc p timeout mi mo c =
     (if is_coe ECT_COES_SDORES mi \<and> rd16 mi 9 = rd16 mo 9
      then if mi 8 AND 0x02 > 0
        then do {
          let bytesize = 4 - unat (drop_bit 2 (mi 8) AND 0x03);
          if psize \<ge> int bytesize then Some (wkc, int bytesize, memcpy p 0 mi 12 bytesize, c)
          else do { c \<leftarrow> lk_packeterror L index subindex 3 c; Some (0, psize, p, c) } }
        else do {
          let SDOlen = sint (rd32 mi 12);
          if SDOlen \<le> psize
          then do {
            let n = rd16 mi 0 - 10;
            if uint n < SDOlen
            then do {
              chk (16 + unat n \<le> EC_MAXMBX);
              (wkc, psize', _, p, _, _, _, c) \<leftarrow> do_while (sdo_upload_segment L index subindex timeout (nat psize))
                (wkc, uint n, unat n, memcpy p 0 mi 16 (unat n), 0x00, mi, mo, c);
              Some (wkc, psize', p, c) }
            else do {
              chk (0 \<le> SDOlen \<and> 16 + nat SDOlen \<le> EC_MAXMBX);
              Some (wkc, SDOlen, memcpy p 0 mi 16 (nat SDOlen), c) } }
          else do { c \<leftarrow> lk_packeterror L index subindex 3 c; Some (0, psize, p, c) } }
      else do { c \<leftarrow> sdo_unexpected L index subindex mi c; Some (0, psize, p, c) })"

text \<open>\<open>p\<close> is the caller's buffer of \<open>psize\<close> bytes.\<close>

definition sdo_read :: "'c mbx_link \<Rightarrow> u16 \<Rightarrow> u8 \<Rightarrow> bool \<Rightarrow> int \<Rightarrow> buf \<Rightarrow> int \<Rightarrow> 'c \<Rightarrow> (int \<times> int \<times> buf \<times> 'c) option" where
  "sdo_read L index subindex CA psize p timeout c = do {
     (_, mi, c) \<leftarrow> lk_receive L (ec_clearmbx zero_buf) 0 c;
     let subindex = (if CA \<and> subindex > 1 then 1 else subindex);
     let (mo, c) = sdo_upload_request L (if CA then ECT_SDO_UP_REQ_CA else ECT_SDO_UP_REQ) index subindex
       (ec_clearmbx zero_buf) c;
     (wkc, mi, c) \<leftarrow> mbx_exchange L mi mo timeout c;
     if wkc > 0 then sdo_upload_answer L index subindex psize wkc p timeout mi mo c
     else Some (wkc, psize, p, c) }"

definition ecx_SDOread :: "'e os_ops \<Rightarrow> 'e eoe_hook \<Rightarrow> nat \<Rightarrow> u16 \<Rightarrow> u8 \<Rightarrow> bool \<Rightarrow> int \<Rightarrow> buf \<Rightarrow> int \<Rightarrow> 'e ecx_contextt \<Rightarrow>
    (int \<times> int \<times> buf \<times> 'e ecx_contextt) option" where
  "ecx_SDOread E hook slave = sdo_read (ecx_link E hook slave)"

section \<open>Download\<close>

definition sdo_frame :: "'c mbx_link \<Rightarrow> u16 \<Rightarrow> u8 \<Rightarrow> u16 \<Rightarrow> u8 \<Rightarrow> buf \<Rightarrow> 'c \<Rightarrow> buf \<times> 'c" where
  "sdo_frame L len com index subindex mo c = (let
     (mo, c) = coe_header L len (push_bit 12 ECT_COES_SDOREQ) mo c
   in ((wr16 (mo(8 := com)) 9 index)(11 := subindex), c))"

text \<open>One segment of the \<open>psize\<close> bytes that are left at \<open>hp\<close>.\<close>

definition sdo_download_segment :: "'c mbx_link \<Rightarrow> u16 \<Rightarrow> u8 \<Rightarrow> buf \<Rightarrow> int \<Rightarrow> int \<Rightarrow>
    bool \<times> int \<times> int \<times> nat \<times> u8 \<times> buf \<times> buf \<times> 'c \<Rightarrow>
    (bool \<times> int \<times> int \<times> nat \<times> u8 \<times> buf \<times> buf \<times> 'c) option" where
  "sdo_download_segment L Index SubIndex p maxdata Timeout = (\<lambda>(NotLast, wkc, psize, hp, toggle, mi, mo, c). do {
     let NotLast = psize > maxdata;
     let framedatasize = (if NotLast then maxdata else psize);
     let (len, com) = (if \<not> NotLast \<and> framedatasize < 7
       then (0x0a, 0x01 + push_bit 1 (7 - word_of_int framedatasize))
       else (word_of_int (framedatasize + 3), if NotLast then 0x00 else 0x01));
     let (mo, c) = coe_header L len (push_bit 12 ECT_COES_SDOREQ) mo c;
     chk (0 \<le> framedatasize \<and> 9 + nat framedatasize \<le> EC_MAXMBX + 1);
     let mo = memcpy (mo(8 := com + toggle)) 9 p hp (nat framedatasize);
     let hp = hp + nat framedatasize;
     let psize = psize - framedatasize;
     (wkc, mi, c) \<leftarrow> mbx_exchange L mi mo Timeout c;
     if wkc > 0 \<and> \<not> (is_coe ECT_COES_SDORES mi \<and> mi 8 AND 0xe0 = 0x20)
     then do {
       c \<leftarrow> sdo_unexpected L Index SubIndex mi c;
       Some (False, 0, psize, hp, toggle XOR 0x10, mi, mo, c) }
     else Some (NotLast, wkc, psize, hp, toggle XOR 0x10, mi, mo, c) })"

definition sdo_write :: "'c mbx_link \<Rightarrow> u16 \<Rightarrow> u8 \<Rightarrow> bool \<Rightarrow> int \<Rightarrow> buf \<Rightarrow> int \<Rightarrow> 'c \<Rightarrow> (int \<times> 'c) option" where
  "sdo_write L Index SubIndex CA psize p Timeout c = do {
     (_, mi, c) \<leftarrow> lk_receive L (ec_clearmbx zero_buf) 0 c;
     let maxdata = uint (lk_mbx_l L c) - 0x10;
     if psize \<le> 4 \<and> \<not> CA
     then do {
       let com = ECT_SDO_DOWN_EXP OR (push_bit 2 (4 - word_of_int psize) AND 0x0c);
       let (mo, c) = sdo_frame L 0x000a com Index SubIndex (ec_clearmbx zero_buf) c;
       chk (0 \<le> psize);
       let mo = memcpy mo 12 p 0 (nat psize);
       (wkc, mi, c) \<leftarrow> mbx_exchange L mi mo Timeout c;
       if wkc > 0 \<and> \<not> (is_coe ECT_COES_SDORES mi \<and> rd16 mi 9 = rd16 mo 9 \<and> mi 11 = mo 11)
       then do { c \<leftarrow> sdo_unexpected L Index SubIndex mi c; Some (0, c) }
       else Some (wkc, c) }
     else do {
       let NotLast = psize > maxdata;
       let framedatasize = (if NotLast then maxdata else psize);
       let (mo, c) = sdo_frame L (word_of_int (0x0a + framedatasize))
         (if CA then ECT_SDO_DOWN_INIT_CA else ECT_SDO_DOWN_INIT) Index
         (if CA \<and> SubIndex > 1 then 1 else SubIndex) (ec_clearmbx zero_buf) c;
       let mo = wr32 mo 12 (word_of_int psize);
       chk (0 \<le> framedatasize \<and> 16 + nat framedatasize \<le> EC_MAXMBX + 1);
       let mo = memcpy mo 16 p 0 (nat framedatasize);
       (wkc, mi, c) \<leftarrow> mbx_exchange L mi mo Timeout c;
       if wkc > 0
       then if is_coe ECT_COES_SDORES mi \<and> rd16 mi 9 = rd16 mo 9 \<and> mi 11 = mo 11
         then do {
           (_, wkc, _, _, _, _, _, c) \<leftarrow> while_do fst
             (sdo_download_segment L Index SubIndex p (maxdata + 7) Timeout)
             (NotLast, wkc, psize - framedatasize, nat framedatasize, 0, mi, mo, c);
           Some (wkc, c) }
         else do { c \<leftarrow> sdo_unexpected L Index SubIndex mi c; Some (0, c) }
       else Some (wkc, c) } }"

definition ecx_SDOwrite :: "'e os_ops \<Rightarrow> 'e eoe_hook \<Rightarrow> nat \<Rightarrow> u16 \<Rightarrow> u8 \<Rightarrow> bool \<Rightarrow> int \<Rightarrow> buf \<Rightarrow> int \<Rightarrow> 'e ecx_contextt \<Rightarrow>
    (int \<times> 'e ecx_contextt) option" where
  "ecx_SDOwrite E hook slave = sdo_write (ecx_link E hook slave)"

section \<open>PDO transfers through the mailbox\<close>

definition rxpdo :: "'c mbx_link \<Rightarrow> u16 \<Rightarrow> int \<Rightarrow> buf \<Rightarrow> 'c \<Rightarrow> (int \<times> 'c) option" where
  "rxpdo L RxPDOnumber psize p c = do {
     (_, mi, c) \<leftarrow> lk_receive L (ec_clearmbx zero_buf) 0 c;
     let maxdata = uint (lk_mbx_l L c) - 0x08;
     let framedatasize = (if psize > maxdata then maxdata else psize);
     let (mo, c) = coe_header L (word_of_int (0x02 + framedatasize))
       ((RxPDOnumber AND 0x01ff) + push_bit 12 ECT_COES_RXPDO) (ec_clearmbx zero_buf) c;
     chk (0 \<le> framedatasize \<and> 8 + nat framedatasize \<le> EC_MAXMBX + 1);
     lk_send L (memcpy mo 8 p 0 (nat framedatasize)) c }"

definition ecx_RxPDO :: "'e os_ops \<Rightarrow> 'e eoe_hook \<Rightarrow> nat \<Rightarrow> u16 \<Rightarrow> int \<Rightarrow> buf \<Rightarrow> 'e ecx_contextt \<Rightarrow>
    (int \<times> 'e ecx_contextt) option" where
  "ecx_RxPDO E hook Slave = rxpdo (ecx_link E hook Slave)"

definition txpdo :: "'c mbx_link \<Rightarrow> u16 \<Rightarrow> int \<Rightarrow> buf \<Rightarrow> int \<Rightarrow> 'c \<Rightarrow> (int \<times> int \<times> buf \<times> 'c) option" where
  "txpdo L TxPDOnumber psize p timeout c = do {
     (_, mi, c) \<leftarrow> lk_receive L (ec_clearmbx zero_buf) 0 c;
     let (mo, c) = coe_header L 0x02 ((TxPDOnumber AND 0x01ff) + push_bit 12 ECT_COES_TXPDO_RR) (ec_clearmbx zero_buf) c;
     (wkc, mi, c) \<leftarrow> mbx_exchange L mi mo timeout c;
     if wkc > 0
     then if is_coe ECT_COES_TXPDO mi
       then do {
         let framedatasize = rd16 mi 0 - 2;
         if psize \<ge> uint framedatasize
         then do {
           chk (8 + unat framedatasize \<le> EC_MAXMBX);
           Some (wkc, uint framedatasize, memcpy p 0 mi 8 (unat framedatasize), c) }
         else do { c \<leftarrow> lk_packeterror L 0 0 3 c; Some (0, psize, p, c) } }
       else do { c \<leftarrow> sdo_unexpected L 0 0 mi c; Some (0, psize, p, c) }
     else Some (wkc, psize, p, c) }"

definition ecx_TxPDO :: "'e os_ops \<Rightarrow> 'e eoe_hook \<Rightarrow> nat \<Rightarrow> u16 \<Rightarrow> int \<Rightarrow> buf \<Rightarrow> int \<Rightarrow> 'e ecx_contextt \<Rightarrow>
    (int \<times> int \<times> buf \<times> 'e ecx_contextt) option" where
  "ecx_TxPDO E hook slave = txpdo (ecx_link E hook slave)"

section \<open>PDO mapping\<close>

text \<open>
  The mapping is read with \<open>ecx_SDOread\<close> only: \<open>rd index subindex CA psize p c\<close>. Scalars are read into
  variables that are cleared before.
\<close>

type_synonym 'c sdo_reader = "u16 \<Rightarrow> u8 \<Rightarrow> bool \<Rightarrow> int \<Rightarrow> buf \<Rightarrow> 'c \<Rightarrow> (int \<times> int \<times> buf \<times> 'c) option"

definition coe_reader :: "'e os_ops \<Rightarrow> 'e eoe_hook \<Rightarrow> nat \<Rightarrow> 'e ecx_contextt sdo_reader" where
  "coe_reader E hook Slave index subindex CA psize p c = ecx_SDOread E hook Slave index subindex CA psize p EC_TIMEOUTRXM c"

definition pdo_entry_bits :: "u32 \<Rightarrow> u32" where
  "pdo_entry_bits rdat2 = (if rdat2 AND 0x00ff < 0xff then rdat2 AND 0x00ff else 0xff)"

text \<open>The entries of the PDO with index \<open>idx\<close>; the PDOs of an assign object. The loop counter has 16 bits.\<close>

definition pdo_bits :: "'c sdo_reader \<Rightarrow> u16 \<Rightarrow> u32 \<times> 'c \<Rightarrow> (u32 \<times> 'c) option" where
  "pdo_bits rd idx = (\<lambda>(bsize, c). do {
     (_, _, b, c) \<leftarrow> rd idx 0x00 False 1 (var8 0) c;
     let subidx = unat (b 0);
     foldM (\<lambda>subidxloop (bsize, c). do {
        (_, _, b, c) \<leftarrow> rd idx (of_nat subidxloop) False 4 (var32 0) c;
        Some (bsize + pdo_entry_bits (rd32 b 0), c) }) [1..<subidx + 1] (bsize, c) })"

definition assign_step :: "'c sdo_reader \<Rightarrow> u16 \<Rightarrow> u16 \<times> u32 \<times> 'c \<Rightarrow> (u16 \<times> u32 \<times> 'c) option" where
  "assign_step rd assign = (\<lambda>(idxloop, bsize, c). do {
     (_, _, b, c) \<leftarrow> rd assign (ucast idxloop) False 2 (var16 0) c;
     let idx = rd16 b 0;
     (bsize, c) \<leftarrow> (if idx > 0 then pdo_bits rd idx (bsize, c) else Some (bsize, c));
     Some (idxloop + 1, bsize, c) })"

definition readPDOassign :: "'c sdo_reader \<Rightarrow> u16 \<Rightarrow> 'c \<Rightarrow> (u32 \<times> 'c) option" where
  "readPDOassign rd assign c = do {
     (wkc, _, b, c) \<leftarrow> rd assign 0x00 False 2 (var16 0) c;
     let nidx = rd16 b 0;
     if wkc > 0 \<and> nidx > 0
     then do {
       (_, bsize, c) \<leftarrow> while_do (\<lambda>(idxloop, bsize, c). idxloop \<le> nidx) (assign_step rd assign) (1, 0, c);
       Some (bsize, c) }
     else Some (0, c) }"

definition ecx_readPDOassign :: "'e os_ops \<Rightarrow> 'e eoe_hook \<Rightarrow> nat \<Rightarrow> u16 \<Rightarrow> 'e ecx_contextt \<Rightarrow> (u32 \<times> 'e ecx_contextt) option" where
  "ecx_readPDOassign E hook Slave = readPDOassign (coe_reader E hook Slave)"

text \<open>The structures of complete access, as the memory an SDO is read into.\<close>

definition pa_mem :: "ec_PDOassignt \<Rightarrow> buf" where
  "pa_mem a = (\<lambda>i. if i = 0 then pa_n a else if i = 1 then pa_nu1 a
     else ucast (drop_bit (8 * (i mod 2)) (pa_index a ((i - 2) div 2))))"

definition pa_of_mem :: "buf \<Rightarrow> ec_PDOassignt" where
  "pa_of_mem b = \<lparr>pa_n = b 0, pa_nu1 = b 1, pa_index = (\<lambda>i. rd16 b (2 + 2 * i))\<rparr>"

definition pd_mem :: "ec_PDOdesct \<Rightarrow> buf" where
  "pd_mem d = (\<lambda>i. if i = 0 then pd_n d else if i = 1 then pd_nu1 d
     else ucast (drop_bit (8 * ((i - 2) mod 4)) (pd_PDO d ((i - 2) div 4))))"

definition pd_of_mem :: "buf \<Rightarrow> ec_PDOdesct" where
  "pd_of_mem b = \<lparr>pd_n = b 0, pd_nu1 = b 1, pd_PDO = (\<lambda>i. rd32 b (2 + 4 * i))\<rparr>"

definition sc_mem :: "ec_SMcommtypet \<Rightarrow> buf" where
  "sc_mem s = (\<lambda>i. if i = 0 then sc_n s else if i = 1 then sc_nu1 s else sc_SMtype s (i - 2))"

definition sc_of_mem :: "buf \<Rightarrow> ec_SMcommtypet" where
  "sc_of_mem b = \<lparr>sc_n = b 0, sc_nu1 = b 1, sc_SMtype = (\<lambda>i. b (2 + i))\<rparr>"

definition ecx_readPDOassignCA :: "'e os_ops \<Rightarrow> 'e eoe_hook \<Rightarrow> nat \<Rightarrow> nat \<Rightarrow> u16 \<Rightarrow> 'e ecx_contextt \<Rightarrow>
    (u32 \<times> 'e ecx_contextt) option" where
  "ecx_readPDOassignCA E hook Slave Thread_n assign c = do {
     chk (Thread_n < EC_MAX_MAPT);
     let a = (PDOassign c Thread_n)\<lparr>pa_n := 0\<rparr>;
     (wkc, _, b, c) \<leftarrow> coe_reader E hook Slave assign 0x00 True 514 (pa_mem a) c;
     let a = pa_of_mem b;
     let c = c\<lparr>PDOassign := (PDOassign c)(Thread_n := a)\<rparr>;
     if wkc > 0 \<and> pa_n a > 0
     then foldM (\<lambda>idxloop (bsize, c). do {
       let idx = pa_index a (idxloop - 1);
       if idx > 0
       then do {
         let d = (PDOdesc c Thread_n)\<lparr>pd_n := 0\<rparr>;
         (_, _, b, c) \<leftarrow> coe_reader E hook Slave idx 0x00 True 1026 (pd_mem d) c;
         let d = pd_of_mem b;
         let c = c\<lparr>PDOdesc := (PDOdesc c)(Thread_n := d)\<rparr>;
         let bits = sum_list (map (\<lambda>subidxloop. pd_PDO d (subidxloop - 1) AND 0x00ff) [1..<unat (pd_n d) + 1]);
         Some (bsize + bits, c) }
       else Some (bsize, c) }) [1..<unat (pa_n a) + 1] (0, c)
     else Some (0, c) }"

text \<open>
  The type of a sync manager and its consequences: \<open>assign\<close> reads its assign object. \<open>Osize\<close> and \<open>Isize\<close>
  collect the bits of outputs and inputs.
\<close>

definition map_sm :: "nat \<Rightarrow> (u16 \<Rightarrow> 'e ecx_contextt \<Rightarrow> (u32 \<times> 'e ecx_contextt) option) \<Rightarrow> nat \<Rightarrow> u8 \<Rightarrow>
    u32 \<times> u32 \<times> 'e ecx_contextt \<Rightarrow> (u32 \<times> u32 \<times> 'e ecx_contextt) option" where
  "map_sm Slave assign iSM tSM = (\<lambda>(Osize, Isize, c). do {
     chk (Slave < maxslave c);
     let c = upd_slave Slave (\<lambda>s. s\<lparr>sl_SMtype := (sl_SMtype s)(iSM := tSM)\<rparr>) c;
     let c = (if tSM = 0 then upd_slave Slave (\<lambda>s. s\<lparr>sl_SM := (sl_SM s)(iSM := (sl_SM s iSM)\<lparr>SMflags :=
       SMflags (sl_SM s iSM) AND EC_SMENABLEMASK\<rparr>)\<rparr>) c else c);
     if tSM = 3 \<or> tSM = 4
     then do {
       (Tsize, c) \<leftarrow> assign (ECT_SDO_PDOASSIGN + of_nat iSM) c;
       if Tsize \<noteq> 0
       then do {
         let c = upd_slave Slave (\<lambda>s. s\<lparr>sl_SM := (sl_SM s)(iSM := (sl_SM s iSM)\<lparr>SMlength := ucast ((Tsize + 7) div 8)\<rparr>)\<rparr>) c;
         Some (if tSM = 3 then (Osize + Tsize, Isize, c) else (Osize, Isize + Tsize, c)) }
       else Some (Osize, Isize, c) }
     else Some (Osize, Isize, c) })"

text \<open>The corrections for slaves with wrong types: shifted types, and types 0 of SM2 and SM3.\<close>

definition sm_bug_add :: "nat \<Rightarrow> u8 \<Rightarrow> u8 \<Rightarrow> u8" where
  "sm_bug_add iSM tSM bug = (if iSM = 2 \<and> tSM = 2 then 1 else bug)"

definition sm_type :: "u8 \<Rightarrow> u8 \<Rightarrow> u8" where
  "sm_type tSM bug = (if tSM \<noteq> 0 then tSM + bug else tSM)"

definition sm_type_default :: "nat \<Rightarrow> u8 \<Rightarrow> u8" where
  "sm_type_default iSM tSM = (if iSM = 2 \<and> tSM = 0 then 3 else if iSM = 3 \<and> tSM = 0 then 4 else tSM)"

definition readPDOmap :: "'e ecx_contextt sdo_reader \<Rightarrow> nat \<Rightarrow> 'e ecx_contextt \<Rightarrow> (int \<times> u32 \<times> u32 \<times> 'e ecx_contextt) option" where
  "readPDOmap rd Slave c = do {
     (wkc, _, b, c) \<leftarrow> rd ECT_SDO_SMCOMMTYPE 0x00 False 1 (var8 0) c;
     let nSM = unat (b 0);
     (_, Osize, Isize, c) \<leftarrow> (if wkc > 0 \<and> nSM > 2
       then foldM (\<lambda>iSM (bug, Osize, Isize, c). do {
         (wkc, _, b, c) \<leftarrow> rd ECT_SDO_SMCOMMTYPE (of_nat iSM + 1) False 1 (var8 0) c;
         if wkc > 0
         then do {
           let bug = sm_bug_add iSM (b 0) bug;
           (Osize, Isize, c) \<leftarrow> map_sm Slave (readPDOassign rd) iSM (sm_type_default iSM (sm_type (b 0) bug)) (Osize, Isize, c);
           Some (bug, Osize, Isize, c) }
         else Some (bug, Osize, Isize, c) }) [2..<min nSM EC_MAXSM] (0, 0, 0, c)
       else Some (0, 0, 0, c));
     Some (if Isize > 0 \<or> Osize > 0 then 1 else 0, Osize, Isize, c) }"

definition ecx_readPDOmap :: "'e os_ops \<Rightarrow> 'e eoe_hook \<Rightarrow> nat \<Rightarrow> 'e ecx_contextt \<Rightarrow>
    (int \<times> u32 \<times> u32 \<times> 'e ecx_contextt) option" where
  "ecx_readPDOmap E hook Slave = readPDOmap (coe_reader E hook Slave) Slave"

definition ecx_readPDOmapCA :: "'e os_ops \<Rightarrow> 'e eoe_hook \<Rightarrow> nat \<Rightarrow> nat \<Rightarrow> 'e ecx_contextt \<Rightarrow>
    (int \<times> u32 \<times> u32 \<times> 'e ecx_contextt) option" where
  "ecx_readPDOmapCA E hook Slave Thread_n c = do {
     chk (Thread_n < EC_MAX_MAPT);
     let s = (SMcommtype c Thread_n)\<lparr>sc_n := 0\<rparr>;
     (wkc, _, b, c) \<leftarrow> coe_reader E hook Slave ECT_SDO_SMCOMMTYPE 0x00 True 10 (sc_mem s) c;
     let s = sc_of_mem b;
     let c = c\<lparr>SMcommtype := (SMcommtype c)(Thread_n := s)\<rparr>;
     let nSM = unat (sc_n s);
     (_, Osize, Isize, c) \<leftarrow> (if wkc > 0 \<and> nSM > 2
       then do {
         c \<leftarrow> (if nSM > EC_MAXSM then ecx_packeterror E (of_nat Slave) 0 0 10 c else Some c);
         foldM (\<lambda>iSM (bug, Osize, Isize, c). do {
           let tSM = sc_SMtype (SMcommtype c Thread_n) iSM;
           let bug = sm_bug_add iSM tSM bug;
           (Osize, Isize, c) \<leftarrow> map_sm Slave (ecx_readPDOassignCA E hook Slave Thread_n) iSM (sm_type tSM bug) (Osize, Isize, c);
           Some (bug, Osize, Isize, c) }) [2..<min nSM EC_MAXSM] (0, 0, 0, c) }
       else Some (0, 0, 0, c));
     Some (if Isize > 0 \<or> Osize > 0 then 1 else 0, Osize, Isize, c) }"

section \<open>Object description\<close>

record ec_ODlistt =
  od_Slave :: u16
  od_Entries :: u16
  od_Index :: "nat \<Rightarrow> u16"
  od_DataType :: "nat \<Rightarrow> u16"
  od_ObjectCode :: "nat \<Rightarrow> u8"
  od_MaxSub :: "nat \<Rightarrow> u8"
  od_Name :: "nat \<Rightarrow> u8 list"

record ec_OElistt =
  oe_Entries :: u16
  oe_ValueInfo :: "nat \<Rightarrow> u8"
  oe_DataType :: "nat \<Rightarrow> u16"
  oe_BitLength :: "nat \<Rightarrow> u16"
  oe_ObjAccess :: "nat \<Rightarrow> u16"
  oe_Name :: "nat \<Rightarrow> u8 list"

text \<open>\<open>strncpy\<close> of \<open>n\<close> characters with the terminator behind: the characters before the first 0.\<close>

definition name_at :: "buf \<Rightarrow> nat \<Rightarrow> nat \<Rightarrow> u8 list" where
  "name_at b off n = takeWhile (\<lambda>x. x \<noteq> 0) (bytes_of b off n)"

text \<open>A request of the information service (opcode at 8, fragments left at 10), and an unexpected answer.\<close>

definition info_request :: "'c mbx_link \<Rightarrow> u16 \<Rightarrow> u8 \<Rightarrow> u16 \<Rightarrow> 'c \<Rightarrow> buf \<times> 'c" where
  "info_request L len opcode w c = (let
     (mo, c) = coe_header L len (push_bit 12 ECT_COES_SDOINFO) (ec_clearmbx zero_buf) c;
     mo = wr16 (mo(8 := opcode, 9 := 0)) 10 0
   in (wr16 mo 12 w, c))"

definition is_info :: "u8 \<Rightarrow> buf \<Rightarrow> bool" where
  "is_info opcode m \<longleftrightarrow> m 5 AND 0x0f = ECT_MBXT_COE \<and> m 8 AND 0x7f = opcode"

definition info_unexpected :: "'c mbx_link \<Rightarrow> u16 \<Rightarrow> u8 \<Rightarrow> buf \<Rightarrow> 'c \<Rightarrow> 'c option" where
  "info_unexpected L index subindex m c =
     (if m 8 AND 0x7f = ECT_SDOINFO_ERROR then lk_infoerror L index subindex (rd32 m 12) c
      else lk_packeterror L index subindex 1 c)"

text \<open>
  One fragment of the object list: \<open>sp\<close> indexes are stored, \<open>offset\<close> skips the info header of the
  first one. The second component tells whether another fragment is read.
\<close>

definition odlist_round :: "'c mbx_link \<Rightarrow> int \<times> u16 \<times> u16 \<times> bool \<times> ec_ODlistt \<times> buf \<times> 'c \<Rightarrow>
    ((int \<times> u16 \<times> u16 \<times> bool \<times> ec_ODlistt \<times> buf \<times> 'c) \<times> bool) option" where
  "odlist_round L = (\<lambda>(wkc, x, sp, First, od, mi, c). do {
     (wkc, mi, c) \<leftarrow> lk_receive L (ec_clearmbx mi) EC_TIMEOUTRXM c;
     if wkc > 0
     then if is_info ECT_GET_ODLIST_RES mi
       then do {
         let n = (word_of_int ((uint (rd16 mi 0) - (if First then 8 else 6)) sdiv 2) :: u16);
         (n, c) \<leftarrow> (if uint sp + uint n > int EC_MAXODLIST
           then do { c \<leftarrow> lk_infoerror L 0 0 0xf000000 c; Some (of_nat EC_MAXODLIST + 1 - sp, c) }
           else Some (n, c));
         let n = (if uint (od_Entries od) + uint n > int EC_MAXODLIST then of_nat EC_MAXODLIST - od_Entries od else n);
         let offset = (if First then 1 else 0 :: nat);
         chk (n = 0 \<or> unat sp + unat n \<le> EC_MAXODLIST \<and> 12 + 2 * (unat n + offset) \<le> EC_MAXMBX);
         let od = od\<lparr>od_Entries := od_Entries od + n,
           od_Index := (\<lambda>i. if unat sp \<le> i \<and> i < unat sp + unat n
             then rd16 mi (12 + 2 * (i - unat sp + offset)) else od_Index od i)\<rparr>;
         Some ((wkc, x + 1, sp + n, False, od, mi, c), x + 1 \<le> 128 \<and> rd16 mi 10 > 0) }
       else do {
         c \<leftarrow> info_unexpected L 0 0 mi c;
         Some ((0, x + 20 + 1, sp, First, od, mi, c), False) }
     else Some ((wkc, x + 1, sp, First, od, mi, c), False) })"

definition readODlist :: "'c mbx_link \<Rightarrow> ec_ODlistt \<Rightarrow> 'c \<Rightarrow> (int \<times> ec_ODlistt \<times> 'c) option" where
  "readODlist L od c = do {
     let od = od\<lparr>od_Entries := 0\<rparr>;
     (_, mi, c) \<leftarrow> lk_receive L (ec_clearmbx zero_buf) 0 c;
     let (mo, c) = info_request L 0x0008 ECT_GET_ODLIST_REQ 0x01 c;
     (wkc, c) \<leftarrow> lk_send L mo c;
     if wkc > 0
     then do {
       (wkc, _, _, _, od, _, c) \<leftarrow> do_while (odlist_round L) (wkc, 0, 0, True, od, mi, c);
       Some (wkc, od, c) }
     else Some (wkc, od, c) }"

definition ecx_readODlist :: "'e os_ops \<Rightarrow> 'e eoe_hook \<Rightarrow> nat \<Rightarrow> ec_ODlistt \<Rightarrow> 'e ecx_contextt \<Rightarrow>
    (int \<times> ec_ODlistt \<times> 'e ecx_contextt) option" where
  "ecx_readODlist E hook Slave od = readODlist (ecx_link E hook Slave) (od\<lparr>od_Slave := of_nat Slave\<rparr>)"

definition readODdescription :: "'c mbx_link \<Rightarrow> nat \<Rightarrow> ec_ODlistt \<Rightarrow> 'c \<Rightarrow> (int \<times> ec_ODlistt \<times> 'c) option" where
  "readODdescription L Item od c = do {
     chk (Item < EC_MAXODLIST);
     let od = od\<lparr>od_DataType := (od_DataType od)(Item := 0), od_ObjectCode := (od_ObjectCode od)(Item := 0),
       od_MaxSub := (od_MaxSub od)(Item := 0), od_Name := (od_Name od)(Item := [])\<rparr>;
     (_, mi, c) \<leftarrow> lk_receive L (ec_clearmbx zero_buf) 0 c;
     let (mo, c) = info_request L 0x0008 ECT_GET_OD_REQ (od_Index od Item) c;
     (wkc, mi, c) \<leftarrow> mbx_exchange L mi mo EC_TIMEOUTRXM c;
     if wkc > 0
     then if is_info ECT_GET_OD_RES mi
       then do {
         let n = rd16 mi 0 - 12;
         let n = (if n > of_nat EC_MAXNAME then of_nat EC_MAXNAME else n);
         Some (wkc, od\<lparr>od_DataType := (od_DataType od)(Item := rd16 mi 14), od_ObjectCode := (od_ObjectCode od)(Item := mi 17),
           od_MaxSub := (od_MaxSub od)(Item := mi 16), od_Name := (od_Name od)(Item := name_at mi 18 (unat n))\<rparr>, c) }
       else do { c \<leftarrow> info_unexpected L (od_Index od Item) 0 mi c; Some (0, od, c) }
     else Some (wkc, od, c) }"

definition ecx_readODdescription :: "'e os_ops \<Rightarrow> 'e eoe_hook \<Rightarrow> nat \<Rightarrow> ec_ODlistt \<Rightarrow> 'e ecx_contextt \<Rightarrow>
    (int \<times> ec_ODlistt \<times> 'e ecx_contextt) option" where
  "ecx_readODdescription E hook Item od = readODdescription (ecx_link E hook (unat (od_Slave od))) Item od"

definition readOEsingle :: "'c mbx_link \<Rightarrow> nat \<Rightarrow> u8 \<Rightarrow> ec_ODlistt \<Rightarrow> ec_OElistt \<Rightarrow> 'c \<Rightarrow> (int \<times> ec_OElistt \<times> 'c) option" where
  "readOEsingle L Item SubI od oe c = do {
     chk (Item < EC_MAXODLIST);
     let Index = od_Index od Item;
     (_, mi, c) \<leftarrow> lk_receive L (ec_clearmbx zero_buf) 0 c;
     let (mo, c) = info_request L 0x000a ECT_GET_OE_REQ Index c;
     let mo = mo(14 := SubI, 15 := 1 + 2 + 4);
     (wkc, mi, c) \<leftarrow> mbx_exchange L mi mo EC_TIMEOUTRXM c;
     if wkc > 0
     then if is_info ECT_GET_OE_RES mi
       then do {
         let n = sint (rd16 mi 0 - 16);
         let n = (if n > int EC_MAXNAME then int EC_MAXNAME else n);
         let n = (if n < 0 then 0 else nat n);
         let i = unat SubI;
         Some (wkc, oe\<lparr>oe_Entries := oe_Entries oe + 1, oe_ValueInfo := (oe_ValueInfo oe)(i := mi 15),
           oe_DataType := (oe_DataType oe)(i := rd16 mi 16), oe_BitLength := (oe_BitLength oe)(i := rd16 mi 18),
           oe_ObjAccess := (oe_ObjAccess oe)(i := rd16 mi 20), oe_Name := (oe_Name oe)(i := name_at mi 22 n)\<rparr>, c) }
       else do { c \<leftarrow> info_unexpected L Index SubI mi c; Some (0, oe, c) }
     else Some (wkc, oe, c) }"

definition ecx_readOEsingle :: "'e os_ops \<Rightarrow> 'e eoe_hook \<Rightarrow> nat \<Rightarrow> u8 \<Rightarrow> ec_ODlistt \<Rightarrow> ec_OElistt \<Rightarrow> 'e ecx_contextt \<Rightarrow>
    (int \<times> ec_OElistt \<times> 'e ecx_contextt) option" where
  "ecx_readOEsingle E hook Item SubI od = readOEsingle (ecx_link E hook (unat (od_Slave od))) Item SubI od"

definition ecx_readOE :: "'e os_ops \<Rightarrow> 'e eoe_hook \<Rightarrow> nat \<Rightarrow> ec_ODlistt \<Rightarrow> ec_OElistt \<Rightarrow> 'e ecx_contextt \<Rightarrow>
    (int \<times> ec_OElistt \<times> 'e ecx_contextt) option" where
  "ecx_readOE E hook Item od oe c = do {
     chk (Item < EC_MAXODLIST);
     foldM (\<lambda>SubCount (wkc, oe, c). ecx_readOEsingle E hook Item (of_nat SubCount) od oe c)
       [0..<unat (od_MaxSub od Item) + 1] (0, oe\<lparr>oe_Entries := 0\<rparr>, c) }"

section \<open>The contract of the link\<close>

text \<open>
  What the operations need of the mailboxes: \<open>step a c\<close> says that the state \<open>c\<close> is in order and was
  reached from \<open>a\<close>. Every operation of the link runs and is such a step; the mailbox keeps its size.
\<close>

locale mailbox_contract =
  fixes L :: "'c mbx_link" and step :: "'c \<Rightarrow> 'c \<Rightarrow> bool"
  assumes send_law: "step a c \<Longrightarrow> runs_to (lk_send L m c) (\<lambda>(w, c'). step a c')"
    and receive_law: "step a c \<Longrightarrow> runs_to (lk_receive L m t c) (\<lambda>(w, m', c'). step a c')"
    and cnt_law: "step a c \<Longrightarrow> step a (snd (lk_cnt L c))"
    and size_law: "step a c \<Longrightarrow> lk_mbx_l L c = lk_mbx_l L a"
    and sdoerror_law: "step a c \<Longrightarrow> runs_to (lk_sdoerror L i j e c) (\<lambda>c'. step a c')"
    and infoerror_law: "step a c \<Longrightarrow> runs_to (lk_infoerror L i j e c) (\<lambda>c'. step a c')"
    and packeterror_law: "step a c \<Longrightarrow> runs_to (lk_packeterror L i j w c) (\<lambda>c'. step a c')"
begin

lemma header_step: "step a c \<Longrightarrow> coe_header L len co m c = (m', c') \<Longrightarrow> step a c'"
  using cnt_law [of a c] by (auto simp: coe_header_def Let_def split: prod.splits)

lemma request_step: "step a c \<Longrightarrow> sdo_upload_request L com i j m c = (m', c') \<Longrightarrow> step a c'"
  using header_step by (fastforce simp: sdo_upload_request_def Let_def split: prod.splits)

lemma frame_step: "step a c \<Longrightarrow> sdo_frame L len com i j m c = (m', c') \<Longrightarrow> step a c'"
  using header_step by (fastforce simp: sdo_frame_def Let_def split: prod.splits)

lemma exchange_runs: "step a c \<Longrightarrow> runs_to (mbx_exchange L mi mo t c) (\<lambda>(w, m, c'). step a c')"
  using send_law [of a c mo] receive_law [of a _ "ec_clearmbx mi" t]
  by (auto simp: mbx_exchange_def elim!: runs_to_mono)

lemma unexpected_runs: "step a c \<Longrightarrow> runs_to (sdo_unexpected L i j m c) (\<lambda>c'. step a c')"
  by (simp add: sdo_unexpected_def sdoerror_law packeterror_law)

text \<open>An upload need not end, but when it does the state is in order.\<close>

lemma upload_segment_partial:
  assumes "step a c"
  shows "if_runs (sdo_upload_segment L i j t cap (w, n, hp, p, tg, mi, mo, c)) (\<lambda>((w, n, hp, p, tg, mi, mo, c'), again). step a c')"
proof -
  obtain mo1 c1 where 1: "sdo_upload_request L (ECT_SDO_SEG_UP_REQ + tg) i j mo c = (mo1, c1)" by fastforce
  from exchange_runs [OF request_step [OF assms 1], of mi mo1 t] obtain w2 m2 c2
    where 2: "mbx_exchange L mi mo1 t c1 = Some (w2, m2, c2)" "step a c2" by (auto simp: runs_to_iff)
  from unexpected_runs [OF 2(2), of i j m2] obtain c3 where 3: "sdo_unexpected L i j m2 c2 = Some c3" "step a c3"
    by (auto simp: runs_to_iff)
  show ?thesis using 2(2) 3(2) by (simp add: sdo_upload_segment_def 1 2(1) 3(1) Let_def)
qed

lemma upload_loop_partial:
  "step a c \<Longrightarrow> if_runs (do_while (sdo_upload_segment L i j t cap) (w, n, hp, p, tg, mi, mo, c))
     (\<lambda>(w, n, hp, p, tg, mi, mo, c'). step a c')"
proof (rule do_while_partial [where I = "\<lambda>(w, n, hp, p, tg, mi, mo, c). step a c"], goal_cases)
  case (2 st)
  obtain w n hp p tg mi mo c where "st = (w, n, hp, p, tg, mi, mo, c)" by (metis surj_pair)
  with 2(2) upload_segment_partial [of a c i j t cap w n hp p tg mi mo] show ?case by (auto elim!: if_runs_mono)
qed simp

lemma upload_answer_partial:
  assumes "step a c"
  shows "if_runs (sdo_upload_answer L i j psize w p t mi mo c) (\<lambda>(w, n, q, c'). step a c')"
  using assms runs_to_if_runs [OF unexpected_runs [OF assms, of i j mi]]
    runs_to_if_runs [OF packeterror_law [OF assms, of i j 3]]
  by (auto simp: sdo_upload_answer_def Let_def elim!: if_runs_mono upload_loop_partial [THEN if_runs_mono])

lemma read_partial:
  assumes "step a c"
  shows "if_runs (sdo_read L i j CA psize p t c) (\<lambda>(w, n, q, c'). step a c')"
proof -
  from receive_law [OF assms, of "ec_clearmbx zero_buf" 0] obtain w1 m1 c1 where
    1: "lk_receive L (ec_clearmbx zero_buf) 0 c = Some (w1, m1, c1)" "step a c1" by (auto simp: runs_to_iff)
  let ?j = "if CA \<and> j > 1 then 1 else j"
  obtain mo c2 where 2: "sdo_upload_request L (if CA then ECT_SDO_UP_REQ_CA else ECT_SDO_UP_REQ) i ?j
    (ec_clearmbx zero_buf) c1 = (mo, c2)" by fastforce
  from exchange_runs [OF request_step [OF 1(2) 2], of m1 mo t] obtain w3 m3 c3 where
    3: "mbx_exchange L m1 mo t c2 = Some (w3, m3, c3)" "step a c3" by (auto simp: runs_to_iff)
  show ?thesis
    using 3(2) upload_answer_partial [OF 3(2), of i ?j psize w3 p t m3 mo] by (simp add: sdo_read_def 1 2 3(1) Let_def)
qed

text \<open>A download ends when the mailbox has room for a frame and fits the master's buffer.\<close>

lemma download_loop_runs:
  assumes "step a c" "0 < maxdata" "9 + nat maxdata \<le> EC_MAXMBX + 1" "0 \<le> psize"
  shows "runs_to (while_do fst (sdo_download_segment L i j p maxdata t) (nl, w, psize, hp, tg, mi, mo, c))
    (\<lambda>(nl, w, n, hp, tg, mi, mo, c'). step a c')"
proof (rule while_do_total [where I = "\<lambda>(nl, w, n, hp, tg, mi, mo, c). step a c \<and> 0 \<le> n"
      and R = "measure (\<lambda>(nl, w, n, hp, tg, mi, mo, c). (if nl then 1 else 0) + nat n)"], goal_cases)
  case (3 st)
  obtain nl w n hp tg mi mo c where st: "st = (nl, w, n, hp, tg, mi, mo, c)" by (metis surj_pair)
  with 3 have c: "step a c" "0 \<le> n" "nl" by simp_all
  define fds where "fds = (if n > maxdata then maxdata else n)"
  have fds: "0 \<le> fds" "9 + nat fds \<le> EC_MAXMBX + 1" "fds \<le> n" "n > maxdata \<Longrightarrow> 0 < fds"
    using assms(2,3) c(2) by (auto simp: fds_def)
  obtain len com where lc: "(if \<not> n > maxdata \<and> fds < 7
       then (0x0a, 0x01 + push_bit 1 (7 - word_of_int fds))
       else (word_of_int (fds + 3), if n > maxdata then 0x00 else 0x01)) = (len :: u16, com :: u8)" by fastforce
  obtain mo1 c1 where 1: "coe_header L len (push_bit 12 ECT_COES_SDOREQ) mo c = (mo1, c1)" by fastforce
  let ?mo = "memcpy (mo1(8 := com + tg)) 9 p hp (nat fds)"
  from exchange_runs [OF header_step [OF c(1) 1], of mi ?mo t] obtain w2 m2 c2 where
    2: "mbx_exchange L mi ?mo t c1 = Some (w2, m2, c2)" "step a c2" by (auto simp: runs_to_iff)
  from unexpected_runs [OF 2(2), of i j m2] obtain c3 where 3: "sdo_unexpected L i j m2 c2 = Some c3" "step a c3"
    by (auto simp: runs_to_iff)
  have "sdo_download_segment L i j p maxdata t st = (if w2 > 0 \<and> \<not> (is_coe ECT_COES_SDORES m2 \<and> m2 8 AND 0xe0 = 0x20)
     then Some (False, 0, n - fds, hp + nat fds, tg XOR 0x10, m2, ?mo, c3)
     else Some (n > maxdata, w2, n - fds, hp + nat fds, tg XOR 0x10, m2, ?mo, c2))"
    unfolding st sdo_download_segment_def prod.case Let_def fds_def [symmetric] lc 1
    using fds(1,2) 2(1) 3(1) by simp
  then show ?case using c fds 2(2) 3(2) by (auto simp: st)
qed (use assms in auto)

lemma write_runs:
  assumes "step a c" "0 \<le> psize" "16 \<le> unat (lk_mbx_l L a)" "unat (lk_mbx_l L a) \<le> EC_MAXMBX"
  shows "runs_to (sdo_write L i j CA psize p t c) (\<lambda>(w, c'). step a c')"
proof -
  from receive_law [OF assms(1), of "ec_clearmbx zero_buf" 0] obtain w1 m1 c1 where
    1: "lk_receive L (ec_clearmbx zero_buf) 0 c = Some (w1, m1, c1)" "step a c1" by (auto simp: runs_to_iff)
  define maxdata where "maxdata = uint (lk_mbx_l L c1) - 0x10"
  have maxdata: "0 \<le> maxdata" "16 + nat maxdata \<le> EC_MAXMBX"
    using assms(3,4) size_law [OF 1(2)] by (simp_all add: maxdata_def uint_nat del: of_nat_unat)
  show ?thesis
  proof (cases "psize \<le> 4 \<and> \<not> CA")
    case True
    obtain mo c2 where 2: "sdo_frame L 0x000a (ECT_SDO_DOWN_EXP OR (push_bit 2 (4 - word_of_int psize) AND 0x0c)) i j
      (ec_clearmbx zero_buf) c1 = (mo, c2)" by fastforce
    let ?mo = "memcpy mo 12 p 0 (nat psize)"
    from exchange_runs [OF frame_step [OF 1(2) 2], of m1 ?mo t] obtain w3 m3 c3 where
      3: "mbx_exchange L m1 ?mo t c2 = Some (w3, m3, c3)" "step a c3" by (auto simp: runs_to_iff)
    from unexpected_runs [OF 3(2), of i j m3] obtain c4 where 4: "sdo_unexpected L i j m3 c3 = Some c4" "step a c4"
      by (auto simp: runs_to_iff)
    show ?thesis
      unfolding sdo_write_def 1(1) Option.bind.bind_lunit prod.case Let_def if_P [OF True] 2
      using assms(2) 3 4 by simp
  next
    case False
    define fds where "fds = (if psize > maxdata then maxdata else psize)"
    have fds: "0 \<le> fds" "16 + nat fds \<le> EC_MAXMBX + 1" "fds \<le> psize" using assms(2) maxdata by (auto simp: fds_def)
    obtain mo c2 where 2: "sdo_frame L (word_of_int (0x0a + fds))
         (if CA then ECT_SDO_DOWN_INIT_CA else ECT_SDO_DOWN_INIT) i
         (if CA \<and> j > 1 then 1 else j) (ec_clearmbx zero_buf) c1 = (mo, c2)" by fastforce
    let ?mo = "memcpy (wr32 mo 12 (word_of_int psize)) 16 p 0 (nat fds)"
    from exchange_runs [OF frame_step [OF 1(2) 2], of m1 ?mo t] obtain w3 m3 c3 where
      3: "mbx_exchange L m1 ?mo t c2 = Some (w3, m3, c3)" "step a c3" by (auto simp: runs_to_iff)
    from unexpected_runs [OF 3(2), of i j m3] obtain c4 where 4: "sdo_unexpected L i j m3 c3 = Some c4" "step a c4"
      by (auto simp: runs_to_iff)
    have "runs_to (while_do fst (sdo_download_segment L i j p (maxdata + 7) t)
      (psize > maxdata, w3, psize - fds, nat fds, 0, m3, ?mo, c3)) (\<lambda>(nl, w, n, hp, tg, mi, mo, c'). step a c')"
      by (rule download_loop_runs [OF 3(2)]) (use maxdata fds in auto)
    with 3 4 fds show ?thesis
      unfolding sdo_write_def 1(1) Option.bind.bind_lunit prod.case Let_def if_not_P [OF False] maxdata_def [symmetric]
        fds_def [symmetric] 2
      by (auto elim!: runs_to_mono)
  qed
qed

end

text \<open>The mailboxes of the master satisfy the contract.\<close>

definition link_step :: "'e os_ops \<Rightarrow> ('e \<Rightarrow> nat) \<Rightarrow> 'e eoe_hook \<Rightarrow> nat \<Rightarrow> 'e ecx_contextt \<Rightarrow> 'e ecx_contextt \<Rightarrow> bool" where
  "link_step E now hook slave a c \<longleftrightarrow> good_hook E now hook \<and> slave < maxslave a \<and> ctx_step E now a c"

lemma link_step_trans: "link_step E now hook slave a c \<Longrightarrow> ctx_step E now c d \<Longrightarrow> link_step E now hook slave a d"
  by (auto simp: link_step_def intro: ctx_step_trans)

lemma SDOerror_steps:
  assumes "ctx_ok E now c"
  shows "runs_to (ecx_SDOerror E s i j e c) (\<lambda>c'. ctx_step E now c c')"
    and "runs_to (ecx_SDOinfoerror s i j e c) (\<lambda>c'. ctx_step E now c c')"
proof -
  show "runs_to (ecx_SDOerror E s i j e c) (\<lambda>c'. ctx_step E now c c')"
    unfolding ecx_SDOerror_def by (rule timed_report_step(1) [OF assms])
  have ok: "ctx_ok E now (c\<lparr>ecaterror := True\<rparr>)" using assms by (simp add: ctx_ok_def)
  then have step: "ctx_step E now c (c\<lparr>ecaterror := True\<rparr>)"
    using ctx_step_refl [OF assms] by (simp add: ctx_step_def slaves_kept_iff)
  show "runs_to (ecx_SDOinfoerror s i j e c) (\<lambda>c'. ctx_step E now c c')"
    unfolding ecx_SDOinfoerror_def by (rule runs_to_mono [OF ecx_pusherror_step [OF ok]]) (auto intro: ctx_step_trans [OF step])
qed

interpretation ecx: mailbox_contract "ecx_link E hook slave" "link_step E now hook slave" for E now hook slave
proof
  fix a c and m :: buf and t :: int and i :: u16 and j :: u8 and e :: u32 and w :: u16
  assume s: "link_step E now hook slave a c"
  then have c: "ctx_ok E now c" "slave < maxslave c" "good_hook E now hook"
    by (auto simp: link_step_def ctx_step_def slaves_kept_iff)
  show "runs_to (lk_send (ecx_link E hook slave) m c) (\<lambda>(w, c'). link_step E now hook slave a c')"
    by (simp add: ecx_link_def, rule runs_to_mono [OF ecx_mbxsend_runs [OF c(1,2)]])
      (auto intro: link_step_trans [OF s])
  show "runs_to (lk_receive (ecx_link E hook slave) m t c) (\<lambda>(w, m', c'). link_step E now hook slave a c')"
    by (simp add: ecx_link_def, rule runs_to_mono [OF ecx_mbxreceive_runs [OF c(1,3,2)]])
      (auto intro: link_step_trans [OF s])
  show "link_step E now hook slave a (snd (lk_cnt (ecx_link E hook slave) c))"
    by (simp add: ecx_link_def next_cnt_def Let_def link_step_trans [OF s upd_slave_step [OF c(1)]])
  show "lk_mbx_l (ecx_link E hook slave) c = lk_mbx_l (ecx_link E hook slave) a"
    using s by (simp add: ecx_link_def link_step_def ctx_step_def slaves_kept_iff)
  show "runs_to (lk_sdoerror (ecx_link E hook slave) i j e c) (\<lambda>c'. link_step E now hook slave a c')"
    by (simp add: ecx_link_def, rule runs_to_mono [OF SDOerror_steps(1) [OF c(1)]])
      (auto intro: link_step_trans [OF s])
  show "runs_to (lk_infoerror (ecx_link E hook slave) i j e c) (\<lambda>c'. link_step E now hook slave a c')"
    by (simp add: ecx_link_def, rule runs_to_mono [OF SDOerror_steps(2) [OF c(1)]])
      (auto intro: link_step_trans [OF s])
  show "runs_to (lk_packeterror (ecx_link E hook slave) i j w c) (\<lambda>c'. link_step E now hook slave a c')"
    by (simp add: ecx_link_def, rule runs_to_mono [OF report_steps(1) [OF c(1)]])
      (auto intro: link_step_trans [OF s])
qed

end
