(* ===== verification/Soe.thy ===== *)
theory Soe
  imports Coe
begin

text \<open>
  Servo drive profile over EtherCAT (\<open>soem/ethercatsoe.c\<close>): reading and writing the IDNs of a drive,
  and the process data mapping that follows from them.

  The operations use the mailbox link of \<open>Coe\<close> and two more operations of the master, \<open>soe_ops\<close>. An
  SoE frame has its length at 0, the type at 5, the flags at 6 (bits 0 to 2 the operation, bit 3
  incomplete, bit 4 error, bits 5 to 7 the drive), the element flags at 7, the IDN or the number of
  fragments left at 8, and its data from 10 on.

  \<open>soe_contract\<close> states what the operations need of the mailboxes. A read is proved to reassemble the
  fragments of any answer, and the mapping to compute the sizes of a data base of IDNs.
\<close>

abbreviation (input) EC_SOE_MAX_DRIVES :: nat where "EC_SOE_MAX_DRIVES \<equiv> 8"
abbreviation (input) EC_SOE_ATTRIBUTE_B :: u8 where "EC_SOE_ATTRIBUTE_B \<equiv> 0x04"
abbreviation (input) EC_SOE_VALUE_B :: u8 where "EC_SOE_VALUE_B \<equiv> 0x40"
abbreviation (input) EC_SOE_MAXMAPPING :: nat where "EC_SOE_MAXMAPPING \<equiv> 64"
abbreviation (input) EC_IDN_MDTCONFIG :: u16 where "EC_IDN_MDTCONFIG \<equiv> 24"
abbreviation (input) EC_IDN_ATCONFIG :: u16 where "EC_IDN_ATCONFIG \<equiv> 16"
abbreviation (input) SOE_HDR :: nat where "SOE_HDR \<equiv> 10"

definition ecx_SoEerror :: "'e os_ops \<Rightarrow> u16 \<Rightarrow> u16 \<Rightarrow> u16 \<Rightarrow> 'e ecx_contextt \<Rightarrow> 'e ecx_contextt option" where
  "ecx_SoEerror E Slave idn Error c = do {
     let (t, c) = ctx_time E c;
     let c = c\<lparr>ecaterror := True\<rparr>;
     ecx_pusherror (zero_err\<lparr>err_Time := t, err_Slave := Slave, err_Index := idn, err_SubIdx := 0,
       err_Etype := EC_ERR_TYPE_SOE_ERROR, err_ErrorCode := Error\<rparr>) c }"

record 'c soe_ops =
  so_error :: "u16 \<Rightarrow> u16 \<Rightarrow> 'c \<Rightarrow> 'c option"
  so_empty :: "int \<Rightarrow> 'c \<Rightarrow> (int \<times> 'c) option"

definition ecx_soe_ops :: "'e os_ops \<Rightarrow> nat \<Rightarrow> 'e ecx_contextt soe_ops" where
  "ecx_soe_ops E slave = \<lparr>so_error = ecx_SoEerror E (of_nat slave), so_empty = ecx_mbxempty E slave\<rparr>"

text \<open>The flags of a frame.\<close>

definition soe_opCode :: "buf \<Rightarrow> u8" where "soe_opCode m = m 6 AND 0x07"
definition soe_incomplete :: "buf \<Rightarrow> bool" where "soe_incomplete m \<longleftrightarrow> bit (m 6) 3"
definition soe_error :: "buf \<Rightarrow> bool" where "soe_error m \<longleftrightarrow> bit (m 6) 4"
definition soe_driveNo :: "buf \<Rightarrow> u8" where "soe_driveNo m = drop_bit 5 (m 6)"

definition soe_flags :: "u8 \<Rightarrow> bool \<Rightarrow> u8 \<Rightarrow> u8" where
  "soe_flags opCode incomplete driveNo = opCode OR (if incomplete then 0x08 else 0) OR push_bit 5 driveNo"

text \<open>The mailbox header with a new counter.\<close>

definition soe_header :: "'c mbx_link \<Rightarrow> u16 \<Rightarrow> buf \<Rightarrow> 'c \<Rightarrow> buf \<times> 'c" where
  "soe_header L len m c = (let
     m = wr16 (wr16 m 0 len) 2 0;
     (cnt, c) = lk_cnt L c
   in (m(4 := 0, 5 := ECT_MBXT_SOE + push_bit 4 cnt), c))"

definition is_soe :: "u8 \<Rightarrow> u8 \<Rightarrow> u8 \<Rightarrow> buf \<Rightarrow> bool" where
  "is_soe opCode driveNo elementflags m \<longleftrightarrow> m 5 AND 0x0f = ECT_MBXT_SOE \<and> soe_opCode m = opCode \<and> \<not> soe_error m \<and>
     soe_driveNo m = driveNo \<and> m 7 = elementflags"

text \<open>An answer that is not the awaited one; the error code is the last word of the frame.\<close>

definition soe_unexpected :: "'c mbx_link \<Rightarrow> 'c soe_ops \<Rightarrow> u16 \<Rightarrow> buf \<Rightarrow> 'c \<Rightarrow> 'c option" where
  "soe_unexpected L S idn m c =
     (if m 5 AND 0x0f = ECT_MBXT_SOE \<and> soe_opCode m = ECT_SOE_READRES \<and> soe_error m
      then do {
        let off = unat (rd16 m 0) + 6 - 2;
        chk (off + 2 \<le> EC_MAXMBX + 1);
        so_error S idn (rd16 m off) c }
      else lk_packeterror L idn 0 1 c)"

section \<open>Reading\<close>

text \<open>One fragment: \<open>bp\<close> is the place in the caller's buffer \<open>p\<close>, \<open>again\<close> tells that more follow.\<close>

definition soe_read_round :: "'c mbx_link \<Rightarrow> 'c soe_ops \<Rightarrow> u8 \<Rightarrow> u8 \<Rightarrow> u16 \<Rightarrow> int \<Rightarrow>
    int \<times> int \<times> int \<times> nat \<times> buf \<times> buf \<times> 'c \<Rightarrow> ((int \<times> int \<times> int \<times> nat \<times> buf \<times> buf \<times> 'c) \<times> bool) option" where
  "soe_read_round L S driveNo elementflags idn timeout = (\<lambda>(wkc, psize, totalsize, bp, p, mi, c). do {
     (wkc, mi, c) \<leftarrow> lk_receive L (ec_clearmbx mi) timeout c;
     if wkc > 0
     then if is_soe ECT_SOE_READRES driveNo elementflags mi
       then do {
         let framedatasize = uint (rd16 mi 0) - int SOE_HDR + 6;
         let totalsize = totalsize + framedatasize;
         (totalsize, bp, p) \<leftarrow> (if totalsize \<le> psize
           then do {
             chk (0 \<le> framedatasize \<and> SOE_HDR + nat framedatasize \<le> EC_MAXMBX + 1);
             Some (totalsize, bp + nat framedatasize, memcpy p bp mi SOE_HDR (nat framedatasize)) }
           else do {
             let n = framedatasize - (totalsize - psize);
             chk (SOE_HDR + nat n \<le> EC_MAXMBX + 1);
             Some (psize, bp, memcpy p bp mi SOE_HDR (nat n)) });
         Some (if soe_incomplete mi then ((wkc, psize, totalsize, bp, p, mi, c), True)
           else ((wkc, totalsize, totalsize, bp, p, mi, c), False)) }
       else do {
         c \<leftarrow> soe_unexpected L S idn mi c;
         Some ((0, psize, totalsize, bp, p, mi, c), False) }
     else do {
       c \<leftarrow> lk_packeterror L idn 0 4 c;
       Some ((wkc, psize, totalsize, bp, p, mi, c), False) } })"

definition soe_read :: "'c mbx_link \<Rightarrow> 'c soe_ops \<Rightarrow> u8 \<Rightarrow> u8 \<Rightarrow> u16 \<Rightarrow> int \<Rightarrow> buf \<Rightarrow> int \<Rightarrow> 'c \<Rightarrow> (int \<times> int \<times> buf \<times> 'c) option" where
  "soe_read L S driveNo elementflags idn psize p timeout c = do {
     (_, mi, c) \<leftarrow> lk_receive L (ec_clearmbx zero_buf) 0 c;
     let (mo, c) = soe_header L 4 (ec_clearmbx zero_buf) c;
     let mo = wr16 (mo(6 := soe_flags ECT_SOE_READREQ False driveNo, 7 := elementflags)) 8 idn;
     (wkc, c) \<leftarrow> lk_send L mo c;
     if wkc > 0
     then do {
       (wkc, psize, _, _, p, _, c) \<leftarrow> do_while (soe_read_round L S driveNo elementflags idn timeout) (wkc, psize, 0, 0, p, mi, c);
       Some (wkc, psize, p, c) }
     else Some (wkc, psize, p, c) }"

definition ecx_SoEread :: "'e os_ops \<Rightarrow> 'e eoe_hook \<Rightarrow> nat \<Rightarrow> u8 \<Rightarrow> u8 \<Rightarrow> u16 \<Rightarrow> int \<Rightarrow> buf \<Rightarrow> int \<Rightarrow> 'e ecx_contextt \<Rightarrow>
    (int \<times> int \<times> buf \<times> 'e ecx_contextt) option" where
  "ecx_SoEread E hook slave = soe_read (ecx_link E hook slave) (ecx_soe_ops E slave)"

section \<open>Writing\<close>

text \<open>One fragment of the \<open>psize\<close> bytes that are left at \<open>hp\<close>.\<close>

definition soe_write_round :: "'c mbx_link \<Rightarrow> 'c soe_ops \<Rightarrow> u8 \<Rightarrow> u8 \<Rightarrow> u16 \<Rightarrow> buf \<Rightarrow> int \<Rightarrow> int \<Rightarrow>
    int \<times> int \<times> nat \<times> buf \<times> buf \<times> 'c \<Rightarrow> ((int \<times> int \<times> nat \<times> buf \<times> buf \<times> 'c) \<times> bool) option" where
  "soe_write_round L S driveNo elementflags idn p maxdata timeout = (\<lambda>(wkc, psize, hp, mi, mo, c). do {
     let NotLast = psize > maxdata;
     let framedatasize = (if NotLast then maxdata else psize);
     chk (NotLast \<longrightarrow> maxdata \<noteq> 0);
     let mo = wr16 (mo(6 := soe_flags ECT_SOE_WRITEREQ NotLast driveNo)) 8 (if NotLast then word_of_int (psize div maxdata) else idn);
     let (mo, c) = soe_header L (word_of_int (4 + framedatasize)) mo c;
     chk (0 \<le> framedatasize \<and> SOE_HDR + nat framedatasize \<le> EC_MAXMBX + 1);
     let mo = memcpy mo SOE_HDR p hp (nat framedatasize);
     let hp = hp + nat framedatasize;
     let psize = psize - framedatasize;
     (wkc, c) \<leftarrow> lk_send L mo c;
     if wkc > 0
     then do {
       (receive, c) \<leftarrow> (if \<not> NotLast then Some (True, c)
         else do { (empty, c) \<leftarrow> so_empty S timeout c; Some (empty = 0, c) });
       if receive
       then do {
         (wkc, mi, c) \<leftarrow> lk_receive L (ec_clearmbx mi) timeout c;
         if wkc > 0
         then if is_soe ECT_SOE_WRITERES driveNo elementflags mi
           then Some ((wkc, psize, hp, mi, mo, c), False)
           else do {
             c \<leftarrow> soe_unexpected L S idn mi c;
             Some ((0, psize, hp, mi, mo, c), False) }
         else do {
           c \<leftarrow> lk_packeterror L idn 0 4 c;
           Some ((wkc, psize, hp, mi, mo, c), NotLast) } }
       else Some ((wkc, psize, hp, mi, mo, c), NotLast) }
     else Some ((wkc, psize, hp, mi, mo, c), NotLast) })"

definition soe_write :: "'c mbx_link \<Rightarrow> 'c soe_ops \<Rightarrow> u8 \<Rightarrow> u8 \<Rightarrow> u16 \<Rightarrow> int \<Rightarrow> buf \<Rightarrow> int \<Rightarrow> 'c \<Rightarrow> (int \<times> 'c) option" where
  "soe_write L S driveNo elementflags idn psize p timeout c = do {
     (_, mi, c) \<leftarrow> lk_receive L (ec_clearmbx zero_buf) 0 c;
     let maxdata = uint (lk_mbx_l L c) - int SOE_HDR;
     let mo = (ec_clearmbx zero_buf)(7 := elementflags);
     (wkc, _, _, _, _, c) \<leftarrow> do_while (soe_write_round L S driveNo elementflags idn p maxdata timeout) (0, psize, 0, mi, mo, c);
     Some (wkc, c) }"

definition ecx_SoEwrite :: "'e os_ops \<Rightarrow> 'e eoe_hook \<Rightarrow> nat \<Rightarrow> u8 \<Rightarrow> u8 \<Rightarrow> u16 \<Rightarrow> int \<Rightarrow> buf \<Rightarrow> int \<Rightarrow> 'e ecx_contextt \<Rightarrow>
    (int \<times> 'e ecx_contextt) option" where
  "ecx_SoEwrite E hook slave = soe_write (ecx_link E hook slave) (ecx_soe_ops E slave)"

section \<open>The mapping of a drive\<close>

text \<open>
  The mapping is read with \<open>ecx_SoEread\<close> only: \<open>rd driveNo elementflags idn psize p c\<close>. The two local
  structures it reads into are not initialised; they are part of the state.
\<close>

type_synonym 'c soe_reader = "u8 \<Rightarrow> u8 \<Rightarrow> u16 \<Rightarrow> int \<Rightarrow> buf \<Rightarrow> 'c \<Rightarrow> (int \<times> int \<times> buf \<times> 'c) option"

definition soe_reader :: "'e os_ops \<Rightarrow> 'e eoe_hook \<Rightarrow> nat \<Rightarrow> 'e ecx_contextt soe_reader" where
  "soe_reader E hook slave driveNo elementflags idn psize p c =
     ecx_SoEread E hook slave driveNo elementflags idn psize p EC_TIMEOUTRXM c"

text \<open>The bits of an element: \<open>8 << length\<close>, none for a list.\<close>

definition attribute_bits :: "buf \<Rightarrow> u32" where
  "attribute_bits a = (if bit (a 2) 2 then 0 else push_bit (unat (a 2 AND 0x03)) 8)"

text \<open>The IDNs of one configuration list: 16 bits that are always there and the elements.\<close>

definition idn_bits :: "'c soe_reader \<Rightarrow> u8 \<Rightarrow> u16 \<Rightarrow> u32 \<times> buf \<times> buf \<times> 'c \<Rightarrow> (u32 \<times> buf \<times> buf \<times> 'c) option" where
  "idn_bits rd driveNr config = (\<lambda>(size, mapping, attribute, c). do {
     (wkc, psize, mapping, c) \<leftarrow> rd driveNr EC_SOE_VALUE_B config 132 mapping c;
     let entries = unat (rd16 mapping 0 div 2);
     if wkc > 0 \<and> psize \<ge> 4 \<and> entries > 0 \<and> entries \<le> EC_SOE_MAXMAPPING
     then do {
       (size, attribute, c) \<leftarrow> foldM (\<lambda>itemcount (size, attribute, c). do {
         (wkc, _, attribute, c) \<leftarrow> rd driveNr EC_SOE_ATTRIBUTE_B (rd16 mapping (4 + 2 * itemcount)) 4 attribute c;
         Some (if wkc > 0 then size + attribute_bits attribute else size, attribute, c) }) [0..<entries] (size + 16, attribute, c);
       Some (size, mapping, attribute, c) }
     else Some (size, mapping, attribute, c) })"

definition readIDNmap :: "'c soe_reader \<Rightarrow> buf \<Rightarrow> buf \<Rightarrow> 'c \<Rightarrow> (int \<times> u32 \<times> u32 \<times> 'c) option" where
  "readIDNmap rd mapping attribute c = do {
     (Osize, Isize, _, _, c) \<leftarrow> foldM (\<lambda>driveNr (Osize, Isize, mapping, attribute, c). do {
       (Osize, mapping, attribute, c) \<leftarrow> idn_bits rd (of_nat driveNr) EC_IDN_MDTCONFIG (Osize, mapping, attribute, c);
       (Isize, mapping, attribute, c) \<leftarrow> idn_bits rd (of_nat driveNr) EC_IDN_ATCONFIG (Isize, mapping, attribute, c);
       Some (Osize, Isize, mapping, attribute, c) }) [0..<EC_SOE_MAX_DRIVES] (0, 0, mapping, attribute, c);
     Some (if Isize > 0 \<or> Osize > 0 then 1 else 0, Osize, Isize, c) }"

definition ecx_readIDNmap :: "'e os_ops \<Rightarrow> 'e eoe_hook \<Rightarrow> buf \<Rightarrow> buf \<Rightarrow> nat \<Rightarrow> 'e ecx_contextt \<Rightarrow> (int \<times> u32 \<times> u32 \<times> 'e ecx_contextt) option" where
  "ecx_readIDNmap E hook mapping attribute slave = readIDNmap (soe_reader E hook slave) mapping attribute"

section \<open>The contract\<close>

text \<open>The mailbox link with the two operations of this file.\<close>

locale soe_contract = mailbox_contract L step for L :: "'c mbx_link" and step :: "'c \<Rightarrow> 'c \<Rightarrow> bool" +
  fixes S :: "'c soe_ops"
  assumes error_law: "step a c \<Longrightarrow> runs_to (so_error S i e c) (\<lambda>c'. step a c')"
    and empty_law: "step a c \<Longrightarrow> runs_to (so_empty S t c) (\<lambda>(w, c'). step a c')"
begin

lemma soe_header_step: "step a c \<Longrightarrow> soe_header L len m c = (m', c') \<Longrightarrow> step a c'"
  using cnt_law [of a c] by (auto simp: soe_header_def Let_def split: prod.splits)

lemma soe_unexpected_partial: "step a c \<Longrightarrow> if_runs (soe_unexpected L S i m c) (\<lambda>c'. step a c')"
  by (simp add: soe_unexpected_def Let_def runs_to_if_runs [OF error_law] runs_to_if_runs [OF packeterror_law])

lemma soe_read_round_partial:
  assumes "step a c"
  shows "if_runs (soe_read_round L S dn ef i t (w, n, tot, bp, p, mi, c)) (\<lambda>((w, n, tot, bp, p, mi, c'), again). step a c')"
proof -
  from receive_law [OF assms, of "ec_clearmbx mi" t] obtain w1 m1 c1 where
    1: "lk_receive L (ec_clearmbx mi) t c = Some (w1, m1, c1)" "step a c1" by (auto simp: runs_to_iff)
  show ?thesis
    using runs_to_if_runs [OF packeterror_law [OF 1(2)], of i 0 4] soe_unexpected_partial [OF 1(2), of i m1] 1(2)
    by (auto simp: soe_read_round_def 1(1) Let_def elim!: if_runs_mono)
qed

lemma soe_read_partial:
  assumes "step a c"
  shows "if_runs (soe_read L S dn ef i n p t c) (\<lambda>(w, n, q, c'). step a c')"
proof -
  from receive_law [OF assms, of "ec_clearmbx zero_buf" 0] obtain w1 m1 c1 where
    1: "lk_receive L (ec_clearmbx zero_buf) 0 c = Some (w1, m1, c1)" "step a c1" by (auto simp: runs_to_iff)
  obtain mo c2 where 2: "soe_header L 4 (ec_clearmbx zero_buf) c1 = (mo, c2)" by fastforce
  let ?mo = "wr16 (mo(6 := soe_flags ECT_SOE_READREQ False dn, 7 := ef)) 8 i"
  from send_law [OF soe_header_step [OF 1(2) 2], of ?mo] obtain w3 c3 where
    3: "lk_send L ?mo c2 = Some (w3, c3)" "step a c3" by (auto simp: runs_to_iff)
  have "if_runs (do_while (soe_read_round L S dn ef i t) (w3, n, 0, 0, p, m1, c3)) (\<lambda>(w, n, tot, bp, p, mi, c'). step a c')"
  proof (rule do_while_partial [where I = "\<lambda>(w, n, tot, bp, p, mi, c'). step a c'"], goal_cases)
    case (2 st)
    obtain w n tot bp p mi c where "st = (w, n, tot, bp, p, mi, c)" by (metis surj_pair)
    with 2 soe_read_round_partial [of a c dn ef i t w n tot bp p mi] show ?case by (auto elim!: if_runs_mono)
  qed (use 3(2) in simp)
  then show ?thesis
    using 3(2) by (auto simp: soe_read_def 1(1) 2 3(1) Let_def elim!: if_runs_mono)
qed

end

interpretation ecx_soe: soe_contract "ecx_link E hook slave" "link_step E now hook slave" "ecx_soe_ops E slave" for E now hook slave
proof
  fix a c and i e :: u16 and t :: int
  assume s: "link_step E now hook slave a c"
  then have c: "ctx_ok E now c" "slave < maxslave c" by (auto simp: link_step_def ctx_step_def slaves_kept_iff)
  show "runs_to (so_error (ecx_soe_ops E slave) i e c) (\<lambda>c'. link_step E now hook slave a c')"
    unfolding ecx_soe_ops_def soe_ops.simps ecx_SoEerror_def
    by (rule runs_to_mono [OF timed_report_step(1) [OF c(1)]]) (auto intro: link_step_trans [OF s])
  show "runs_to (so_empty (ecx_soe_ops E slave) t c) (\<lambda>(w, c'). link_step E now hook slave a c')"
    by (simp add: ecx_soe_ops_def, rule runs_to_mono [OF ecx_mbxempty_runs [OF c]]) (auto intro: link_step_trans [OF s])
qed

section \<open>Reassembly of fragments\<close>

text \<open>
  The reference is a drive that has the frames \<open>fs\<close> ready as answer to any request: its state is what it
  has left to deliver.
\<close>

definition drive_link :: "buf list \<Rightarrow> buf list mbx_link" where
  "drive_link fs = \<lparr>lk_send = (\<lambda>m s. Some (1, fs)),
     lk_receive = (\<lambda>m t s. Some (if s = [] then (0, m, []) else (1, hd s, tl s))),
     lk_cnt = (\<lambda>s. (1, s)), lk_mbx_l = (\<lambda>s. 256), lk_sdoerror = (\<lambda>i j e s. Some s), lk_infoerror = (\<lambda>i j e s. Some s),
     lk_packeterror = (\<lambda>i j w s. Some s)\<rparr>"

definition soe_fragment :: "u8 \<Rightarrow> u8 \<Rightarrow> bool \<Rightarrow> u8 list \<Rightarrow> buf" where
  "soe_fragment dn ef inc d = (\<lambda>i. if i < SOE_HDR
     then ((wr16 zero_buf 0 (of_nat (length d + 4)))(5 := ECT_MBXT_SOE, 6 := soe_flags ECT_SOE_READRES inc dn, 7 := ef)) i
     else if i < SOE_HDR + length d then d ! (i - SOE_HDR) else 0)"

text \<open>The fragments of an answer: all but the last are marked as incomplete.\<close>

fun soe_fragments :: "u8 \<Rightarrow> u8 \<Rightarrow> u8 list list \<Rightarrow> buf list" where
  "soe_fragments dn ef [] = []"
| "soe_fragments dn ef [d] = [soe_fragment dn ef False d]"
| "soe_fragments dn ef (d # ds) = soe_fragment dn ef True d # soe_fragments dn ef ds"

lemma u8_below_8: "dn < 8 \<Longrightarrow> dn \<in> {0, 1, 2, 3, 4, 5, 6, 7 :: u8}"
proof -
  assume "dn < 8"
  then have "unat dn < 8" by (simp add: word_less_nat_alt)
  then have "unat dn \<in> {0, 1, 2, 3, 4, 5, 6, 7}" by auto
  then show ?thesis by (auto simp: word_unat_eq_iff)
qed

lemma soe_flags_fields:
  assumes "dn < 8"
  shows "soe_flags ECT_SOE_READRES inc dn AND 0x07 = ECT_SOE_READRES" "bit (soe_flags ECT_SOE_READRES inc dn) 3 = inc"
    "\<not> bit (soe_flags ECT_SOE_READRES inc dn) 4" "drop_bit 5 (soe_flags ECT_SOE_READRES inc dn) = dn"
proof -
  have "\<forall>dn \<in> {0, 1, 2, 3, 4, 5, 6, 7 :: u8}. \<forall>inc \<in> {False, True}. let f = soe_flags ECT_SOE_READRES inc dn in
    f AND 0x07 = ECT_SOE_READRES \<and> bit f 3 = inc \<and> \<not> bit f 4 \<and> drop_bit 5 f = dn" by code_simp
  then show "soe_flags ECT_SOE_READRES inc dn AND 0x07 = ECT_SOE_READRES" "bit (soe_flags ECT_SOE_READRES inc dn) 3 = inc"
    "\<not> bit (soe_flags ECT_SOE_READRES inc dn) 4" "drop_bit 5 (soe_flags ECT_SOE_READRES inc dn) = dn"
    using bspec [OF _ u8_below_8 [OF assms]] by (cases inc; simp only: Let_def; blast)+
qed

lemma soe_fragment_fields:
  assumes "dn < 8" "length d < 60000"
  shows "is_soe ECT_SOE_READRES dn ef (soe_fragment dn ef inc d)" "soe_incomplete (soe_fragment dn ef inc d) = inc"
    "rd16 (soe_fragment dn ef inc d) 0 = of_nat (length d + 4)" "uint (rd16 (soe_fragment dn ef inc d) 0) = int (length d) + 4"
    "bytes_of (soe_fragment dn ef inc d) SOE_HDR (length d) = d"
proof -
  show "is_soe ECT_SOE_READRES dn ef (soe_fragment dn ef inc d)" "soe_incomplete (soe_fragment dn ef inc d) = inc"
    using soe_flags_fields [OF assms(1), of inc]
    by (simp_all add: is_soe_def soe_opCode_def soe_error_def soe_driveNo_def soe_incomplete_def soe_fragment_def)
  have "rd16 (soe_fragment dn ef inc d) 0 = rd16 (wr16 zero_buf 0 (of_nat (length d + 4))) 0"
    by (rule get_le_cong) (simp add: soe_fragment_def)
  then show "rd16 (soe_fragment dn ef inc d) 0 = of_nat (length d + 4)" by simp
  then show "uint (rd16 (soe_fragment dn ef inc d) 0) = int (length d) + 4"
    using assms(2) unat_of_nat_u16 [of "length d + 4"] by (simp add: uint_nat del: of_nat_unat)
  show "bytes_of (soe_fragment dn ef inc d) SOE_HDR (length d) = d"
    by (rule nth_equalityI) (simp_all add: bytes_of_def soe_fragment_def)
qed

lemma bytes_of_split: "j \<le> k \<Longrightarrow> bytes_of p 0 k = bytes_of p 0 j @ bytes_of p j (k - j)"
  by (rule nth_equalityI) (auto simp: bytes_of_def nth_append)

lemma bytes_of_memcpy_behind: "bytes_of (memcpy p j b o' n) 0 j = bytes_of p 0 j"
  by (simp add: bytes_of_def memcpy_apply)

lemma bytes_of_memcpy_at: "bytes_of (memcpy p j b o' n) j n = bytes_of b o' n"
  by (rule nth_equalityI) (simp_all add: bytes_of_def memcpy_apply)

lemma bytes_of_memcpy_app:
  "bytes_of (memcpy p j b o' n) 0 (j + n) = bytes_of p 0 j @ bytes_of b o' n"
  using bytes_of_split [of j "j + n"] by (simp add: bytes_of_memcpy_behind bytes_of_memcpy_at)

text \<open>What has been received, \<open>r\<close>, and the caller's buffer.\<close>

definition received :: "nat \<Rightarrow> u8 list \<Rightarrow> int \<Rightarrow> nat \<Rightarrow> buf \<Rightarrow> bool" where
  "received cap r tot bp p \<longleftrightarrow> tot = int (min (length r) cap) \<and> (length r \<le> cap \<longrightarrow> bp = length r) \<and>
     bytes_of p 0 (min (length r) cap) = take cap r"

lemma soe_round_fragment:
  assumes "dn < 8" "SOE_HDR + length d \<le> EC_MAXMBX + 1" and r: "received cap r tot bp p"
  shows "\<exists>tot' bp' p'. soe_read_round (drive_link fs) S dn ef idn t (w, int cap, tot, bp, p, mi, soe_fragment dn ef inc d # s) =
    Some ((1, if inc then int cap else tot', tot', bp', p', soe_fragment dn ef inc d, s), inc) \<and> received cap (r @ d) tot' bp' p'"
proof -
  let ?f = "soe_fragment dn ef inc d"
  have d: "length d < 60000" using assms(2) by simp
  note f = soe_fragment_fields [OF assms(1) d, of ef inc]
  consider "length (r @ d) \<le> cap" | "length r \<le> cap" "length (r @ d) > cap" | "length r > cap" "d = []" | "length r > cap" "d \<noteq> []"
    by fastforce
  then show ?thesis
  proof cases
    case 1
    let ?p = "memcpy p bp ?f SOE_HDR (length d)"
    have bp: "bp = length r" "tot = int (length r)" "bytes_of p 0 (length r) = r" using 1 r by (auto simp: received_def)
    have "bytes_of ?p 0 (length r + length d) = r @ d" using bytes_of_memcpy_app [of p bp ?f SOE_HDR "length d"] bp f(5) by simp
    then have "received cap (r @ d) (tot + int (length d)) (bp + length d) ?p" using 1 bp by (auto simp: received_def)
    then show ?thesis
      using 1 bp f(1,2) assms(2) by (auto simp: soe_read_round_def drive_link_def Let_def f(4) chk_def)
  next
    case 2
    define n where "n = cap - length r"
    let ?p = "memcpy p bp ?f SOE_HDR n"
    have bp: "bp = length r" "tot = int (length r)" "bytes_of p 0 (length r) = r" using 2 r by (auto simp: received_def)
    have "n \<le> length d" using 2 by (simp add: n_def)
    then have "bytes_of ?f SOE_HDR n = take n d"
      by (subst f(5) [symmetric]) (simp add: bytes_of_def take_map del: upt_Suc)
    then have "bytes_of ?p 0 (length r + n) = r @ take n d" using bytes_of_memcpy_app [of p bp ?f SOE_HDR n] bp by simp
    then have "received cap (r @ d) (int cap) bp ?p" using 2 by (auto simp: received_def n_def)
    moreover have "nat (int cap - int (length r)) = n" by (simp add: n_def)
    ultimately show ?thesis
      using 2 bp f(1,2) assms(2) by (auto simp: soe_read_round_def drive_link_def Let_def f(4) chk_def n_def)
  next
    case 3
    have "received cap (r @ d) tot bp p" "tot = int cap" using 3 r by (auto simp: received_def)
    moreover have "memcpy p bp m k 0 = p" for m k by (rule ext) (auto simp: memcpy_apply)
    moreover have "uint (rd16 (soe_fragment dn ef inc []) 0) = 4" using f(4) 3(2) by simp
    ultimately show ?thesis
      using 3 f(1,2) by (cases inc) (auto simp: soe_read_round_def drive_link_def Let_def chk_def)
  next
    case 4
    have "received cap (r @ d) (int cap) bp p" "tot = int cap" using 4 r by (auto simp: received_def)
    moreover have "memcpy p bp m k 0 = p" for m k by (rule ext) (auto simp: memcpy_apply)
    ultimately show ?thesis
      using 4 f(1,2) by (auto simp: soe_read_round_def drive_link_def Let_def f(4) chk_def)
  qed
qed

lemma soe_read_loop:
  assumes "ds \<noteq> []" "dn < 8" "\<forall>d \<in> set ds. SOE_HDR + length d \<le> EC_MAXMBX + 1" "received cap r tot bp p"
  shows "\<exists>bp' p' mi' s'. do_while (soe_read_round (drive_link fs) S dn ef idn t) (w, int cap, tot, bp, p, mi, soe_fragments dn ef ds) =
    Some (1, int (min (length (r @ concat ds)) cap), int (min (length (r @ concat ds)) cap), bp', p', mi', s') \<and>
    received cap (r @ concat ds) (int (min (length (r @ concat ds)) cap)) bp' p'"
  using assms
proof (induction dn ef ds arbitrary: w tot bp p mi r rule: soe_fragments.induct)
  case (2 dn ef d)
  then have "SOE_HDR + length d \<le> EC_MAXMBX + 1" by simp
  from soe_round_fragment [OF 2(2) this 2(4), of fs S ef idn t w mi False "[]"] show ?case
    by (subst do_while.simps) (auto simp: received_def)
next
  case (3 dn ef d d' ds)
  then have "SOE_HDR + length d \<le> EC_MAXMBX + 1" by simp
  from soe_round_fragment [OF 3(3) this 3(5), of fs S ef idn t w mi True "soe_fragments dn ef (d' # ds)"] obtain tot' bp' p' where
    1: "soe_read_round (drive_link fs) S dn ef idn t (w, int cap, tot, bp, p, mi, soe_fragments dn ef (d # d' # ds)) =
      Some ((1, int cap, tot', bp', p', soe_fragment dn ef True d, soe_fragments dn ef (d' # ds)), True)"
    "received cap (r @ d) tot' bp' p'" by auto
  from 3(1) [OF _ 3(3) _ 1(2), of 1 "soe_fragment dn ef True d"] 3(4) show ?case
    by (subst do_while.simps) (simp add: 1(1) del: soe_fragments.simps)
qed simp

section \<open>Properties\<close>

text \<open>
  C27: reading an IDN from a drive that answers in fragments of any number and size (each fits a mailbox)
  delivers the bytes of the fragments in order, cut at the size of the caller's buffer, and their number.
\<close>

theorem soe_read_reassembles:
  assumes "ds \<noteq> []" "driveNo < 8" "\<forall>d \<in> set ds. SOE_HDR + length d \<le> EC_MAXMBX + 1"
  shows "\<exists>p' s. soe_read (drive_link (soe_fragments driveNo elementflags ds)) S driveNo elementflags idn (int cap) p timeout [] =
    Some (1, int (min (length (concat ds)) cap), p', s) \<and>
    bytes_of p' 0 (min (length (concat ds)) cap) = take cap (concat ds)"
proof -
  have "received cap [] 0 0 p" by (simp add: received_def bytes_of_def)
  from soe_read_loop [OF assms this, of "soe_fragments driveNo elementflags ds" S elementflags idn timeout 1 "ec_clearmbx zero_buf"]
  obtain bp' p' mi' s' where 1: "do_while (soe_read_round (drive_link (soe_fragments driveNo elementflags ds)) S driveNo elementflags idn timeout)
      (1, int cap, 0, 0, p, ec_clearmbx zero_buf, soe_fragments driveNo elementflags ds) =
    Some (1, int (min (length (concat ds)) cap), int (min (length (concat ds)) cap), bp', p', mi', s')"
    "bytes_of p' 0 (min (length (concat ds)) cap) = take cap (concat ds)" by (auto simp: received_def)
  have "lk_receive (drive_link fs) m t [] = Some (0, m, [])" "lk_send (drive_link fs) m s = Some (1, fs)"
    "lk_cnt (drive_link fs) s = (1, s)" for fs m t s by (simp_all add: drive_link_def)
  then show ?thesis using 1 by (simp add: soe_read_def soe_header_def Let_def)
qed

theorem soe_read_reassembles_witness:
  "\<exists>p' s. soe_read (drive_link (soe_fragments 1 0x40 [[1, 2, 3], [4, 5]])) \<lparr>so_error = (\<lambda>_ _ c. Some c), so_empty = (\<lambda>_ c. Some (0, c))\<rparr>
      1 0x40 16 4 zero_buf 700000 [] = Some (1, 4, p', s) \<and> bytes_of p' 0 4 = [1, 2, 3, 4]"
proof -
  have eq: "length (concat [[1, 2, 3], [4, 5 :: u8]]) = 5" "take 4 (concat [[1, 2, 3], [4, 5 :: u8]]) = [1, 2, 3, 4]"
    "min 5 4 = (4 :: nat)" by simp_all
  show ?thesis
    by (rule soe_read_reassembles [of "[[1, 2, 3], [4, 5]]" 1 "0x40" "\<lparr>so_error = (\<lambda>_ _ c. Some c), so_empty = (\<lambda>_ c. Some (0, c))\<rparr>"
      16 4 zero_buf 700000, unfolded eq of_nat_numeral]) simp_all
qed

text \<open>
  The reference for the mapping of a drive is a data base of the elements of its IDNs. A reader that answers from it
  delivers at most as many bytes as the caller's buffer has.
\<close>

type_synonym idn_db = "u8 \<Rightarrow> u8 \<Rightarrow> u16 \<Rightarrow> u8 list option"

definition db_reader :: "idn_db \<Rightarrow> unit soe_reader" where
  "db_reader db dn ef idn cap p c = (case db dn ef idn of None \<Rightarrow> Some (0, cap, p, c)
     | Some d \<Rightarrow> let n = min (length d) (nat cap) in Some (1, int n, memcpy p 0 (buf_of d) 0 n, c))"

definition idn_list :: "u8 list \<Rightarrow> u16 list" where
  "idn_list d = map (\<lambda>k. rd16 (buf_of d) (4 + 2 * k)) [0..<unat (rd16 (buf_of d) 0) div 2]"

definition db_attribute_bits :: "u8 list option \<Rightarrow> u32" where
  "db_attribute_bits a = (case a of None \<Rightarrow> 0 | Some d \<Rightarrow> attribute_bits (buf_of d))"

definition db_size :: "idn_db \<Rightarrow> u16 \<Rightarrow> u8 \<Rightarrow> u32" where
  "db_size db config dn = (case db dn EC_SOE_VALUE_B config of None \<Rightarrow> 0
     | Some d \<Rightarrow> if idn_list d \<noteq> [] \<and> length (idn_list d) \<le> EC_SOE_MAXMAPPING
       then 16 + sum_list (map (\<lambda>idn. db_attribute_bits (db dn EC_SOE_ATTRIBUTE_B idn)) (idn_list d)) else 0)"

text \<open>Every value in the data base is a list of as many bytes as its first word says, every attribute has four bytes.\<close>

definition db_ok :: "idn_db \<Rightarrow> bool" where
  "db_ok db \<longleftrightarrow> (\<forall>dn idn d. db dn EC_SOE_VALUE_B idn = Some d \<longrightarrow> length d = 4 + unat (rd16 (buf_of d) 0)) \<and>
     (\<forall>dn idn d. db dn EC_SOE_ATTRIBUTE_B idn = Some d \<longrightarrow> length d = 4)"

lemma attribute_bits_at: "4 \<le> n \<Longrightarrow> attribute_bits (memcpy p 0 b 0 n) = attribute_bits b"
  by (simp add: attribute_bits_def memcpy_apply numeral_2_eq_2)

lemma unat_div2: "unat ((w :: u16) div 2) = unat w div 2"
  by (simp add: unat_div)

lemma attribute_fold:
  assumes "db_ok db"
  shows "\<exists>a'. foldM (\<lambda>itemcount (sz, a, c). do {
         (wkc, _, a, c) \<leftarrow> db_reader db dn EC_SOE_ATTRIBUTE_B (f itemcount) 4 a c;
         Some (if wkc > 0 then sz + attribute_bits a else sz, a, c) }) is (sz, a, ()) =
     Some (sz + sum_list (map (\<lambda>k. db_attribute_bits (db dn EC_SOE_ATTRIBUTE_B (f k))) is), a', ())"
proof (induction "is" arbitrary: sz a)
  case (Cons k "is")
  show ?case
  proof (cases "db dn EC_SOE_ATTRIBUTE_B (f k)")
    case None
    then show ?thesis using Cons.IH [of sz a] by (simp add: db_reader_def db_attribute_bits_def)
  next
    case (Some d)
    then have "length d = 4" using assms by (auto simp: db_ok_def)
    then show ?thesis
      using Some Cons.IH [of "sz + attribute_bits (buf_of d)" "memcpy a 0 (buf_of d) 0 4"]
      by (simp add: db_reader_def db_attribute_bits_def attribute_bits_at add.assoc)
  qed
qed simp

lemma idn_bits_db:
  assumes "db_ok db"
  shows "\<exists>m' a'. idn_bits (db_reader db) dn config (sz, m, a, ()) = Some (sz + db_size db config dn, m', a', ())"
proof (cases "db dn EC_SOE_VALUE_B config")
  case None
  then show ?thesis by (simp add: idn_bits_def db_reader_def db_size_def Let_def)
next
  case (Some d)
  define n where "n = unat (rd16 (buf_of d) 0) div 2"
  have len: "length d = 4 + unat (rd16 (buf_of d) 0)" using assms Some by (simp add: db_ok_def)
  define l where "l = min (length d) 132"
  define m1 where "m1 = memcpy m 0 (buf_of d) 0 l"
  have rd: "db_reader db dn EC_SOE_VALUE_B config 132 m () = Some (1, int l, m1, ())"
    by (simp add: db_reader_def Some Let_def l_def m1_def)
  have "rd16 m1 0 = rd16 (buf_of d) 0" using len by (simp add: m1_def l_def)
  then have n: "unat (rd16 m1 0 div 2) = n" by (simp add: n_def unat_div2)
  show ?thesis
  proof (cases "0 < n \<and> n \<le> EC_SOE_MAXMAPPING")
    case True
    have at: "rd16 m1 (4 + 2 * k) = rd16 (buf_of d) (4 + 2 * k)" if "k < n" for k
      using that True len unfolding m1_def l_def by (subst get_le_memcpy) (auto simp: n_def)
    have "db_size db config dn = 16 + sum_list (map (\<lambda>k. db_attribute_bits (db dn EC_SOE_ATTRIBUTE_B (rd16 m1 (4 + 2 * k)))) [0..<n])"
      using True by (simp add: db_size_def Some idn_list_def n_def [symmetric] o_def) (intro arg_cong [where f = sum_list] map_cong, auto simp: at)
    then show ?thesis
      using attribute_fold [OF assms, of dn "\<lambda>k. rd16 m1 (4 + 2 * k)" "[0..<n]" "sz + 16" a] True len
      by (auto simp: idn_bits_def rd n Let_def add.assoc l_def)
  next
    case False
    then have "db_size db config dn = 0" by (auto simp: db_size_def Some idn_list_def n_def [symmetric])
    then show ?thesis using False by (auto simp: idn_bits_def rd n Let_def)
  qed
qed

text \<open>
  The mapping of a drive: for a reader that answers from a data base of IDNs, \<open>readIDNmap\<close> computes the
  sizes that the data base gives. Each drive adds, for each of the two configuration lists with 1 to 64 entries,
  16 bits and the bits of the entries whose attributes are known and that are not lists.
\<close>

theorem readIDNmap_sizes:
  assumes "db_ok db"
  defines "bits \<equiv> \<lambda>config. sum_list (map (\<lambda>driveNr. db_size db config (of_nat driveNr)) [0..<EC_SOE_MAX_DRIVES])"
  shows "readIDNmap (db_reader db) mapping attribute () =
    Some (if bits EC_IDN_ATCONFIG > 0 \<or> bits EC_IDN_MDTCONFIG > 0 then 1 else 0, bits EC_IDN_MDTCONFIG, bits EC_IDN_ATCONFIG, ())"
proof -
  have "\<exists>m' a'. foldM (\<lambda>driveNr (Osize, Isize, mapping, attribute, c). do {
       (Osize, mapping, attribute, c) \<leftarrow> idn_bits (db_reader db) (of_nat driveNr) EC_IDN_MDTCONFIG (Osize, mapping, attribute, c);
       (Isize, mapping, attribute, c) \<leftarrow> idn_bits (db_reader db) (of_nat driveNr) EC_IDN_ATCONFIG (Isize, mapping, attribute, c);
       Some (Osize, Isize, mapping, attribute, c) }) is (x, y, m, a, ()) =
    Some (x + sum_list (map (\<lambda>driveNr. db_size db EC_IDN_MDTCONFIG (of_nat driveNr)) is),
      y + sum_list (map (\<lambda>driveNr. db_size db EC_IDN_ATCONFIG (of_nat driveNr)) is), m', a', ())" for "is" x y m a
  proof (induction "is" arbitrary: x y m a)
    case (Cons k "is")
    from idn_bits_db [OF assms(1), of "of_nat k" EC_IDN_MDTCONFIG x m a] obtain m1 a1 where
      1: "idn_bits (db_reader db) (of_nat k) EC_IDN_MDTCONFIG (x, m, a, ()) = Some (x + db_size db EC_IDN_MDTCONFIG (of_nat k), m1, a1, ())" by blast
    from idn_bits_db [OF assms(1), of "of_nat k" EC_IDN_ATCONFIG y m1 a1] obtain m2 a2 where
      2: "idn_bits (db_reader db) (of_nat k) EC_IDN_ATCONFIG (y, m1, a1, ()) = Some (y + db_size db EC_IDN_ATCONFIG (of_nat k), m2, a2, ())" by blast
    from Cons [of "x + db_size db EC_IDN_MDTCONFIG (of_nat k)" "y + db_size db EC_IDN_ATCONFIG (of_nat k)" m2 a2] show ?case
      by (simp add: 1 2 add.assoc)
  qed simp
  from this [of "[0..<EC_SOE_MAX_DRIVES]" 0 0 mapping attribute] show ?thesis
    unfolding readIDNmap_def bits_def by (auto simp del: upt_rec_numeral)
qed

text \<open>A data base with one drive whose command list has one entry of 32 bits.\<close>

definition one_idn :: idn_db where
  "one_idn dn ef idn = (if dn = 0 \<and> ef = EC_SOE_VALUE_B \<and> idn = EC_IDN_MDTCONFIG then Some [2, 0, 2, 0, 36, 0]
     else if dn = 0 \<and> ef = EC_SOE_ATTRIBUTE_B \<and> idn = 36 then Some [0, 0, 2, 0] else None)"

theorem readIDNmap_sizes_witness:
  "readIDNmap (db_reader one_idn) zero_buf zero_buf () = Some (1, 48, 0, ())"
proof -
  have "db_ok one_idn" by (simp add: db_ok_def one_idn_def buf_of_def get_le_numeral)
  moreover have "sum_list (map (\<lambda>driveNr. db_size one_idn EC_IDN_MDTCONFIG (of_nat driveNr)) [0..<EC_SOE_MAX_DRIVES]) = 48"
    "sum_list (map (\<lambda>driveNr. db_size one_idn EC_IDN_ATCONFIG (of_nat driveNr)) [0..<EC_SOE_MAX_DRIVES]) = 0"
    by code_simp+
  ultimately show ?thesis using readIDNmap_sizes [of one_idn zero_buf zero_buf] by simp
qed

end
