(* ===== verification/IoMap.thy ===== *)
theory IoMap
  imports Config Soe Coe
begin

text \<open>
  The mapping of the process data (\<open>soem/ethercatconfig.c\<close>): the size of the data of every slave is
  taken from CoE, SoE, an earlier slave of the same kind or the EEPROM, its sync managers are
  programmed, the data is given a place in the logical address space by FMMUs, and the image of the
  group is divided into segments that fit into a frame.

  Inputs and outputs are mapped by two functions that differ only in the fields they use; the fields
  are the record \<open>io_dir\<close>. \<open>EC_MAX_MAPT\<close> is 1, so the mapping is read serially. A pointer into
  the image is its offset; an FMMU index that leaves the array \<open>FMMU\<close> is undefined.
\<close>

abbreviation (input) EC_MAXSEGMENT :: u32 where "EC_MAXSEGMENT \<equiv> 1466"

section \<open>The size of the data of a slave\<close>

definition ecx_lookup_mapping :: "nat \<Rightarrow> u32 \<Rightarrow> u32 \<Rightarrow> 'e ecx_contextt \<Rightarrow> int \<times> u32 \<times> u32 \<times> 'e ecx_contextt" where
  "ecx_lookup_mapping slave Osize Isize c =
     (let i = find_same (slavelist c) slave; t = slavelist c i in
      if slave > 1 \<and> slavecount c > 0 \<and> i < slave
      then (1, ucast (sl_Obits t), ucast (sl_Ibits t), upd_slave slave (\<lambda>s. s\<lparr>
        sl_SM := (\<lambda>k. if k < EC_MAXSM then (sl_SM s k)\<lparr>SMlength := SMlength (sl_SM t k)\<rparr> else sl_SM s k),
        sl_SMtype := (\<lambda>k. if k < EC_MAXSM then sl_SMtype t k else sl_SMtype s k),
        sl_Obits := sl_Obits t, sl_Ibits := sl_Ibits t\<rparr>) c)
      else (0, Osize, Isize, c))"

text \<open>The mapping by mailbox; \<open>stk\<close> is what the two local structures of \<open>ecx_readIDNmap\<close> hold at first.\<close>

definition set_bits :: "nat \<Rightarrow> u32 \<Rightarrow> u32 \<Rightarrow> 'e ecx_contextt \<Rightarrow> 'e ecx_contextt" where
  "set_bits slave Osize Isize = upd_slave slave (\<lambda>s. s\<lparr>sl_Obits := ucast Osize, sl_Ibits := ucast Isize\<rparr>)"

definition ecx_map_coe_soe :: "'e os_ops \<Rightarrow> 'e eoe_hook \<Rightarrow> 'e po2so_hook \<Rightarrow> (nat \<Rightarrow> buf \<times> buf) \<Rightarrow> nat \<Rightarrow> nat \<Rightarrow>
    'e ecx_contextt \<Rightarrow> (int \<times> 'e ecx_contextt) option" where
  "ecx_map_coe_soe E hook po2so stk slave thread_n c = do {
     (_, c) \<leftarrow> ecx_statecheck E slave EC_STATE_PRE_OP EC_TIMEOUTSTATE c;
     c \<leftarrow> po2so slave c;
     let s = slavelist c slave;
     if sl_configindex s = 0
     then do {
       (Osize, Isize, c) \<leftarrow> (if sl_mbx_proto s AND ECT_MBXPROT_COE \<noteq> 0
         then do {
           (rval, Osize, Isize, c) \<leftarrow> (if sl_CoEdetails s AND ECT_COEDET_SDOCA \<noteq> 0
             then ecx_readPDOmapCA E hook slave thread_n c
             else Some (0, 0, 0, c));
           if rval = 0
           then do { (_, Osize, Isize, c) \<leftarrow> ecx_readPDOmap E hook slave c; Some (Osize, Isize, c) }
           else Some (Osize, Isize, c) }
         else Some (0, 0, c));
       (Osize, Isize, c) \<leftarrow> (if Isize = 0 \<and> Osize = 0 \<and> sl_mbx_proto (slavelist c slave) AND ECT_MBXPROT_SOE \<noteq> 0
         then do {
           (_, Osize, Isize, c) \<leftarrow> ecx_readIDNmap E hook (fst (stk slave)) (snd (stk slave)) slave c;
           Some (Osize, Isize, upd_slave slave (\<lambda>s. set_SM 3 (\<lambda>m. m\<lparr>SMlength := ucast ((Isize + 7) div 8)\<rparr>)
             (set_SM 2 (\<lambda>m. m\<lparr>SMlength := ucast ((Osize + 7) div 8)\<rparr>) s)) c) }
         else Some (Osize, Isize, c));
       Some (1, set_bits slave Osize Isize c) }
     else Some (1, c) }"

text \<open>The mapping by EEPROM.\<close>

definition zero_PDO :: ec_eepromPDOt where
  "zero_PDO = \<lparr>ep_Startpos = 0, ep_Length = 0, ep_nPDO = 0, ep_Index = (\<lambda>_. 0), ep_SyncM = (\<lambda>_. 0),
     ep_BitSize = (\<lambda>_. 0), ep_SMbitsize = (\<lambda>_. 0)\<rparr>"

definition sii_SM_lengths :: "ec_eepromPDOt \<Rightarrow> u8 \<Rightarrow> ec_slavet \<Rightarrow> ec_slavet" where
  "sii_SM_lengths PDO t s = foldl (\<lambda>s nSM. if ep_SMbitsize PDO nSM > 0
     then set_SMtype nSM t (set_SM nSM (\<lambda>m. m\<lparr>SMlength := of_nat (bit_bytes (ep_SMbitsize PDO nSM))\<rparr>) s)
     else s) s [0..<EC_MAXSM]"

definition ecx_map_sii :: "'e os_ops \<Rightarrow> nat \<Rightarrow> 'e ecx_contextt \<Rightarrow> (int \<times> 'e ecx_contextt) option" where
  "ecx_map_sii E slave c = do {
     let Osize = ucast (sl_Obits (slavelist c slave));
     let Isize = ucast (sl_Ibits (slavelist c slave));
     let (Osize, Isize, c) = (if Isize = 0 \<and> Osize = 0 then snd (ecx_lookup_mapping slave Osize Isize c) else (Osize, Isize, c));
     (Osize, Isize, c) \<leftarrow> (if Isize = 0 \<and> Osize = 0
       then do {
         (Isize, PDO, c) \<leftarrow> ecx_siiPDO E slave zero_PDO 0 c;
         let c = upd_slave slave (sii_SM_lengths PDO 4) c;
         (Osize, PDO, c) \<leftarrow> ecx_siiPDO E slave PDO 1 c;
         let c = upd_slave slave (sii_SM_lengths PDO 3) c;
         Some (Osize, Isize, c) }
       else Some (Osize, Isize, c));
     Some (1, set_bits slave Osize Isize c) }"

section \<open>The sync managers\<close>

definition program_SM :: "'e os_ops \<Rightarrow> nat \<Rightarrow> u16 \<Rightarrow> nat \<Rightarrow> 'e ecx_contextt \<Rightarrow> 'e ecx_contextt option" where
  "program_SM E slave configadr nSM c = do {
     (_, c) \<leftarrow> on_port (ecx_FPWR E configadr (ECT_REG_SM0 + of_nat (nSM * 8)) 8 (smt_mem (sl_SM (slavelist c slave) nSM)) EC_TIMEOUTRET3) c;
     Some c }"

definition enable_SM :: "ec_smt \<Rightarrow> ec_smt" where
  "enable_SM m = m\<lparr>SMflags := (if SMlength m = 0 then SMflags m AND EC_SMENABLEMASK else SMflags m OR NOT EC_SMENABLEMASK)\<rparr>"

definition set_bytes :: "ec_slavet \<Rightarrow> ec_slavet" where
  "set_bytes s = (let
     s = (if sl_Ibits s > 7 then s\<lparr>sl_Ibytes := of_nat (bit_bytes (sl_Ibits s))\<rparr> else s)
   in (if sl_Obits s > 7 then s\<lparr>sl_Obytes := of_nat (bit_bytes (sl_Obits s))\<rparr> else s))"

definition ecx_map_sm :: "'e os_ops \<Rightarrow> nat \<Rightarrow> 'e ecx_contextt \<Rightarrow> (int \<times> 'e ecx_contextt) option" where
  "ecx_map_sm E slave c = do {
     let s = slavelist c slave;
     let configadr = sl_configadr s;
     c \<leftarrow> (if sl_mbx_l s = 0 \<and> StartAddr (sl_SM s 0) \<noteq> 0 then program_SM E slave configadr 0 c else Some c);
     c \<leftarrow> (if sl_mbx_l s = 0 \<and> StartAddr (sl_SM s 1) \<noteq> 0 then program_SM E slave configadr 1 c else Some c);
     c \<leftarrow> foldM (\<lambda>nSM c.
       if StartAddr (sl_SM (slavelist c slave) nSM) \<noteq> 0
       then program_SM E slave configadr nSM (upd_slave slave (set_SM nSM enable_SM) c)
       else Some c) [2..<EC_MAXSM] c;
     Some (1, upd_slave slave set_bytes c) }"

text \<open>All slaves of a group.\<close>

definition in_group :: "nat \<Rightarrow> ec_slavet \<Rightarrow> bool" where
  "in_group grp s \<longleftrightarrow> grp = 0 \<or> grp = unat (sl_group s)"

definition ecx_config_find_mappings :: "'e os_ops \<Rightarrow> 'e eoe_hook \<Rightarrow> 'e po2so_hook \<Rightarrow> (nat \<Rightarrow> buf \<times> buf) \<Rightarrow> nat \<Rightarrow>
    'e ecx_contextt \<Rightarrow> 'e ecx_contextt option" where
  "ecx_config_find_mappings E hook po2so stk grp c = do {
     c \<leftarrow> each_slave (\<lambda>slave c. if in_group grp (slavelist c slave)
       then do { (_, c) \<leftarrow> ecx_map_coe_soe E hook po2so stk slave 0 c; Some c } else Some c) c;
     each_slave (\<lambda>slave c. if in_group grp (slavelist c slave)
       then do { (_, c) \<leftarrow> ecx_map_sii E slave c; (_, c) \<leftarrow> ecx_map_sm E slave c; Some c } else Some c) c }"

section \<open>The FMMUs of a slave\<close>

text \<open>The fields that the mapping of the inputs and of the outputs use.\<close>

record io_dir =
  io_SMtype :: u8
  io_FMMUtype :: u8
  io_bits :: "ec_slavet \<Rightarrow> u16"
  io_bytes :: "ec_slavet \<Rightarrow> u32"
  io_ptr :: "ec_slavet \<Rightarrow> nat option"
  io_place :: "nat \<Rightarrow> u8 \<Rightarrow> ec_slavet \<Rightarrow> ec_slavet"
  io_WKC :: "ec_groupt \<Rightarrow> ec_groupt"

definition input_dir :: io_dir where
  "input_dir = \<lparr>io_SMtype = 4, io_FMMUtype = 1, io_bits = sl_Ibits, io_bytes = sl_Ibytes, io_ptr = sl_inputs,
     io_place = (\<lambda>a b s. s\<lparr>sl_inputs := Some a, sl_Istartbit := b\<rparr>),
     io_WKC = (\<lambda>g. g\<lparr>gr_inputsWKC := gr_inputsWKC g + 1\<rparr>)\<rparr>"

definition output_dir :: io_dir where
  "output_dir = \<lparr>io_SMtype = 3, io_FMMUtype = 2, io_bits = sl_Obits, io_bytes = sl_Obytes, io_ptr = sl_outputs,
     io_place = (\<lambda>a b s. s\<lparr>sl_outputs := Some a, sl_Ostartbit := b\<rparr>),
     io_WKC = (\<lambda>g. g\<lparr>gr_outputsWKC := gr_outputsWKC g + 1\<rparr>)\<rparr>"

text \<open>
  The sync managers of one FMMU. \<open>next_SM\<close> is the first one of the type from \<open>k\<close> on, or the last one of
  the array; \<open>join_SM\<close> takes more of them as long as bits are missing and they do not begin behind the
  end of the one before. The counts of bytes and bits go on from one FMMU to the next.
\<close>

function next_SM :: "u8 \<Rightarrow> (nat \<Rightarrow> u8) \<Rightarrow> nat \<Rightarrow> nat" where
  "next_SM t ty k = (if k < EC_MAXSM - 1 \<and> ty k \<noteq> t then next_SM t ty (Suc k) else k)"
  by pat_completeness auto
termination by (relation "measure (\<lambda>(t, ty, k). EC_MAXSM - k)") auto

declare next_SM.simps [simp del]

lemma next_SM_ge: "k \<le> next_SM t ty k"
proof (induction t ty k rule: next_SM.induct)
  case (1 t ty k)
  then show ?case by (subst next_SM.simps) force
qed

definition SM_end :: "ec_smt \<Rightarrow> u16" where "SM_end m = StartAddr m + SMlength m"

function join_SM :: "io_dir \<Rightarrow> ec_slavet \<Rightarrow> nat \<Rightarrow> u16 \<Rightarrow> int \<Rightarrow> u16 \<Rightarrow> nat \<times> u16 \<times> int" where
  "join_SM d s SMc ByteCount BitCount EndAddr =
     (if BitCount < uint (io_bits d s) \<and> SMc < EC_MAXSM - 1
      then let k = next_SM (io_SMtype d) (sl_SMtype s) (Suc SMc); m = sl_SM s k in
        if StartAddr m > EndAddr then (k, ByteCount, BitCount)
        else join_SM d s k (ByteCount + SMlength m) (BitCount + uint (SMlength m) * 8) (SM_end m)
      else (SMc, ByteCount, BitCount))"
  by pat_completeness auto
termination
proof (relation "measure (\<lambda>(d, s, k, _). EC_MAXSM - k)", simp, goal_cases)
  case (1 d s SMc ByteCount BitCount EndAddr)
  then show ?case using next_SM_ge [of "Suc SMc" "io_SMtype d" "sl_SMtype s"] by (auto intro!: diff_less_mono2)
qed

definition fmmu_span :: "io_dir \<Rightarrow> ec_slavet \<Rightarrow> nat \<Rightarrow> u16 \<Rightarrow> int \<Rightarrow> nat \<times> nat \<times> u16 \<times> int" where
  "fmmu_span d s SMc ByteCount BitCount = (let
     k = next_SM (io_SMtype d) (sl_SMtype s) SMc;
     m = sl_SM s k
   in (k, join_SM d s k (ByteCount + SMlength m) (BitCount + uint (SMlength m) * 8) (SM_end m)))"

declare join_SM.simps [simp del]

text \<open>The place of an FMMU in the logical addresses, of a bit oriented and of a byte oriented slave.\<close>

definition carry :: "u32 \<Rightarrow> u8 \<Rightarrow> u32 \<times> u8" where
  "carry LogAddr BitPos = (if BitPos > 7 then (LogAddr + 1, BitPos - 8) else (LogAddr, BitPos))"

definition place_bits :: "u16 \<Rightarrow> u32 \<Rightarrow> u8 \<Rightarrow> ec_fmmut \<Rightarrow> ec_fmmut \<times> u32 \<times> u8 \<times> u16" where
  "place_bits bits LogAddr BitPos f = (let
     f = f\<lparr>LogStart := LogAddr, LogStartbit := BitPos\<rparr>;
     (LogAddr, BitPos) = carry LogAddr (BitPos + ucast (bits - 1));
     FMMUsize = ucast (LogAddr - LogStart f + 1);
     f = f\<lparr>LogLength := FMMUsize, LogEndbit := BitPos\<rparr>;
     (LogAddr, BitPos) = carry LogAddr (BitPos + 1)
   in (f, LogAddr, BitPos, FMMUsize))"

definition place_bytes :: "u32 \<Rightarrow> int \<Rightarrow> u16 \<Rightarrow> u32 \<Rightarrow> u8 \<Rightarrow> ec_fmmut \<Rightarrow> ec_fmmut \<times> u32 \<times> u8 \<times> u16" where
  "place_bytes bytes FMMUdone ByteCount LogAddr BitPos f = (let
     LogAddr = (if BitPos \<noteq> 0 then LogAddr + 1 else LogAddr);
     FMMUsize = (if uint ByteCount + FMMUdone > sint bytes then ucast (bytes - word_of_int FMMUdone) else ByteCount)
   in (f\<lparr>LogStart := LogAddr, LogStartbit := 0, LogLength := FMMUsize, LogEndbit := 7\<rparr>, LogAddr + ucast FMMUsize, 0, FMMUsize))"

definition place_FMMU :: "io_dir \<Rightarrow> ec_slavet \<Rightarrow> int \<Rightarrow> u16 \<Rightarrow> u32 \<Rightarrow> u8 \<Rightarrow> ec_fmmut \<Rightarrow> ec_fmmut \<times> u32 \<times> u8 \<times> u16" where
  "place_FMMU d s FMMUdone ByteCount LogAddr BitPos f = (if io_bytes d s = 0
     then place_bits (io_bits d s) LogAddr BitPos f else place_bytes (io_bytes d s) FMMUdone ByteCount LogAddr BitPos f)"

text \<open>One FMMU.\<close>

type_synonym 'e map_state = "nat \<times> nat \<times> int \<times> u16 \<times> int \<times> u32 \<times> u8 \<times> bool \<times> 'e ecx_contextt"

definition map_more :: "io_dir \<Rightarrow> nat \<Rightarrow> 'e map_state \<Rightarrow> bool" where
  "map_more d slave = (\<lambda>(SMc, FMMUc, FMMUdone, ByteCount, BitCount, LogAddr, BitPos, added, c).
     SMc < EC_MAXSM \<and> FMMUdone < int (bit_bytes (io_bits d (slavelist c slave))))"

definition program_FMMU :: "'e os_ops \<Rightarrow> u16 \<Rightarrow> nat \<Rightarrow> ec_fmmut \<Rightarrow> 'e ecx_contextt \<Rightarrow> 'e ecx_contextt option" where
  "program_FMMU E configadr FMMUc f c = (if LogLength f \<noteq> 0
     then do {
       (_, c) \<leftarrow> on_port (ecx_FPWR E configadr (ECT_REG_FMMU0 + of_nat (16 * FMMUc)) 16 (fmmut_mem f) EC_TIMEOUTRET3) c;
       Some c }
     else Some c)"

definition map_round :: "io_dir \<Rightarrow> 'e os_ops \<Rightarrow> nat \<Rightarrow> nat \<Rightarrow> nat \<Rightarrow> 'e map_state \<Rightarrow> 'e map_state option" where
  "map_round d E pIOmap grp slave = (\<lambda>(SMc, FMMUc, FMMUdone, ByteCount, BitCount, LogAddr, BitPos, added, c). do {
     let s = slavelist c slave;
     let (k, SMc, ByteCount, BitCount) = fmmu_span d s SMc ByteCount BitCount;
     chk (FMMUc < EC_MAXFMMU);
     let (f, LogAddr, BitPos, FMMUsize) =
       place_FMMU d s FMMUdone ByteCount LogAddr BitPos ((sl_FMMU s FMMUc)\<lparr>PhysStart := StartAddr (sl_SM s k)\<rparr>);
     let f = (if LogLength f \<noteq> 0 then f\<lparr>PhysStartBit := 0, FMMUtype := io_FMMUtype d, FMMUactive := 1\<rparr> else f);
     let c = upd_slave slave (set_FMMU FMMUc (\<lambda>_. f)) c;
     c \<leftarrow> program_FMMU E (sl_configadr s) FMMUc f c;
     c \<leftarrow> (if io_ptr d (slavelist c slave) = None
       then do {
         let a = int pIOmap + uint (LogStart f) - (if grp \<noteq> 0 then uint (gr_logstartaddr (grouplist c grp)) else 0);
         chk (0 \<le> a);
         Some (upd_slave slave (io_place d (nat a) (LogStartbit f)) c) }
       else Some c);
     Some (SMc, FMMUc + 1, FMMUdone + uint FMMUsize, ByteCount, BitCount, LogAddr, BitPos, added \<or> LogLength f \<noteq> 0, c) })"

definition create_mappings :: "io_dir \<Rightarrow> 'e os_ops \<Rightarrow> nat \<Rightarrow> nat \<Rightarrow> nat \<Rightarrow> nat \<Rightarrow> u32 \<times> u8 \<times> 'e ecx_contextt \<Rightarrow>
    (u32 \<times> u8 \<times> 'e ecx_contextt) option" where
  "create_mappings d E pIOmap grp slave FMMUc = (\<lambda>(LogAddr, BitPos, c). do {
     (_, FMMUc, _, _, _, LogAddr, BitPos, added, c) \<leftarrow>
       while_do (map_more d slave) (map_round d E pIOmap grp slave) (0, FMMUc, 0, 0, 0, LogAddr, BitPos, False, c);
     let c = upd_slave slave (\<lambda>s. s\<lparr>sl_FMMUunused := of_nat FMMUc\<rparr>) c;
     Some (LogAddr, BitPos, if added then upd_group grp (io_WKC d) c else c) })"

definition ecx_config_create_output_mappings :: "'e os_ops \<Rightarrow> nat \<Rightarrow> nat \<Rightarrow> nat \<Rightarrow> u32 \<times> u8 \<times> 'e ecx_contextt \<Rightarrow>
    (u32 \<times> u8 \<times> 'e ecx_contextt) option" where
  "ecx_config_create_output_mappings E pIOmap grp slave = (\<lambda>(LogAddr, BitPos, c).
     create_mappings output_dir E pIOmap grp slave (unat (sl_FMMUunused (slavelist c slave))) (LogAddr, BitPos, c))"

function free_FMMU :: "(nat \<Rightarrow> ec_fmmut) \<Rightarrow> nat \<Rightarrow> nat option" where
  "free_FMMU fm k = (if k < EC_MAXFMMU then if LogStart (fm k) \<noteq> 0 then free_FMMU fm (Suc k) else Some k else None)"
  by pat_completeness auto
termination by (relation "measure (\<lambda>(fm, k). EC_MAXFMMU - k)") auto

declare free_FMMU.simps [simp del]

definition ecx_config_create_input_mappings :: "'e os_ops \<Rightarrow> nat \<Rightarrow> nat \<Rightarrow> nat \<Rightarrow> u32 \<times> u8 \<times> 'e ecx_contextt \<Rightarrow>
    (u32 \<times> u8 \<times> 'e ecx_contextt) option" where
  "ecx_config_create_input_mappings E pIOmap grp slave = (\<lambda>(LogAddr, BitPos, c). do {
     let s = slavelist c slave;
     FMMUc \<leftarrow> (if sl_Obits s \<noteq> 0 then free_FMMU (sl_FMMU s) (unat (sl_FMMUunused s)) else Some (unat (sl_FMMUunused s)));
     create_mappings input_dir E pIOmap grp slave FMMUc (LogAddr, BitPos, c) })"

section \<open>The image of a group\<close>

text \<open>
  The place in the image: the next logical address, the bit in it, the address at which the current
  slave began, the current segment and its size.
\<close>

definition add_segment :: "nat \<Rightarrow> u32 \<Rightarrow> nat \<times> u32 \<times> 'e ecx_contextt \<Rightarrow> nat \<times> u32 \<times> 'e ecx_contextt" where
  "add_segment grp diff = (\<lambda>(currentsegment, segmentsize, c).
     if segmentsize + diff > EC_MAXSEGMENT
     then let c = upd_group grp (\<lambda>g. g\<lparr>gr_IOsegment := (gr_IOsegment g)(currentsegment := segmentsize)\<rparr>) c in
       if currentsegment < EC_MAXIOSEGMENTS - 1 then (currentsegment + 1, diff, c) else (currentsegment, segmentsize, c)
     else (currentsegment, segmentsize + diff, c))"

type_synonym 'e image_state = "u32 \<times> u8 \<times> u32 \<times> nat \<times> u32 \<times> 'e ecx_contextt"

text \<open>The data of one slave: \<open>create\<close> maps its inputs or its outputs.\<close>

definition map_slave :: "(u32 \<times> u8 \<times> 'e ecx_contextt \<Rightarrow> (u32 \<times> u8 \<times> 'e ecx_contextt) option) \<Rightarrow> nat \<Rightarrow> bool \<Rightarrow>
    'e image_state \<Rightarrow> 'e image_state option" where
  "map_slave create grp forceByteAlignment = (\<lambda>(LogAddr, BitPos, oLogAddr, currentsegment, segmentsize, c). do {
     (LogAddr, BitPos, c) \<leftarrow> create (LogAddr, BitPos, c);
     let (LogAddr, BitPos) = (if forceByteAlignment \<and> BitPos \<noteq> 0 then (LogAddr + 1, 0) else (LogAddr, BitPos));
     Some (LogAddr, BitPos, LogAddr, add_segment grp (LogAddr - oLogAddr) (currentsegment, segmentsize, c)) })"

text \<open>A last byte that is not full.\<close>

definition close_byte :: "nat \<Rightarrow> 'e image_state \<Rightarrow> 'e image_state" where
  "close_byte grp = (\<lambda>(LogAddr, BitPos, oLogAddr, st). if BitPos \<noteq> 0
     then (LogAddr + 1, 0, LogAddr + 1, add_segment grp 1 st) else (LogAddr, BitPos, oLogAddr, st))"

text \<open>What follows for every slave of the group: EEPROM to the slave, request of Safe-Op, totals.\<close>

definition map_finish :: "'e os_ops \<Rightarrow> nat \<Rightarrow> nat \<Rightarrow> 'e ecx_contextt \<Rightarrow> 'e ecx_contextt option" where
  "map_finish E grp slave c = do {
     let configadr = sl_configadr (slavelist c slave);
     (_, c) \<leftarrow> ecx_eeprom2pdi E slave c;
     c \<leftarrow> (if manualstatechange c = 0
       then do { (_, c) \<leftarrow> on_port (ecx_FPWRw E configadr ECT_REG_ALCTL EC_STATE_SAFE_OP EC_TIMEOUTRET3) c; Some c }
       else Some c);
     let c = (if sl_blockLRW (slavelist c slave) \<noteq> 0 then upd_group grp (\<lambda>g. g\<lparr>gr_blockLRW := gr_blockLRW g + 1\<rparr>) c else c);
     Some (upd_group grp (\<lambda>g. g\<lparr>gr_Ebuscurrent := gr_Ebuscurrent g + sl_Ebuscurrent (slavelist c slave)\<rparr>) c) }"

definition map_output :: "'e os_ops \<Rightarrow> nat \<Rightarrow> nat \<Rightarrow> bool \<Rightarrow> nat \<Rightarrow> 'e image_state \<Rightarrow> 'e image_state option" where
  "map_output E pIOmap grp forceByteAlignment slave = (\<lambda>(LogAddr, BitPos, oLogAddr, cs, sz, c).
     if in_group grp (slavelist c slave) \<and> sl_Obits (slavelist c slave) \<noteq> 0
     then map_slave (ecx_config_create_output_mappings E pIOmap grp slave) grp forceByteAlignment (LogAddr, BitPos, oLogAddr, cs, sz, c)
     else Some (LogAddr, BitPos, oLogAddr, cs, sz, c))"

definition map_input :: "'e os_ops \<Rightarrow> nat \<Rightarrow> nat \<Rightarrow> bool \<Rightarrow> nat \<Rightarrow> 'e image_state \<Rightarrow> 'e image_state option" where
  "map_input E pIOmap grp forceByteAlignment slave = (\<lambda>(LogAddr, BitPos, oLogAddr, cs, sz, c).
     if in_group grp (slavelist c slave)
     then do {
       (LogAddr, BitPos, oLogAddr, cs, sz, c) \<leftarrow> (if sl_Ibits (slavelist c slave) \<noteq> 0
         then map_slave (ecx_config_create_input_mappings E pIOmap grp slave) grp forceByteAlignment (LogAddr, BitPos, oLogAddr, cs, sz, c)
         else Some (LogAddr, BitPos, oLogAddr, cs, sz, c));
       c \<leftarrow> map_finish E grp slave c;
       Some (LogAddr, BitPos, oLogAddr, cs, sz, c) }
     else Some (LogAddr, BitPos, oLogAddr, cs, sz, c))"

text \<open>What the mapping begins with and the records of the outputs and of the inputs.\<close>

definition map_begin :: "nat \<Rightarrow> 'e ecx_contextt \<Rightarrow> 'e ecx_contextt" where
  "map_begin grp = upd_group grp (\<lambda>g. g\<lparr>gr_nsegments := 0, gr_outputsWKC := 0, gr_inputsWKC := 0\<rparr>)"

definition record_outputs :: "nat \<Rightarrow> nat \<Rightarrow> u32 \<Rightarrow> nat \<Rightarrow> u32 \<Rightarrow> 'e ecx_contextt \<Rightarrow> 'e ecx_contextt" where
  "record_outputs pIOmap grp LogAddr currentsegment segmentsize c = (let
     bytes = LogAddr - gr_logstartaddr (grouplist c grp);
     c = upd_group grp (\<lambda>g. g\<lparr>gr_outputs := Some pIOmap, gr_Obytes := bytes, gr_nsegments := of_nat (currentsegment + 1),
       gr_Isegment := of_nat currentsegment, gr_Ioffset := ucast segmentsize\<rparr>) c
   in if grp = 0 then upd_slave 0 (\<lambda>s. s\<lparr>sl_outputs := Some pIOmap, sl_Obytes := bytes\<rparr>) c else c)"

definition record_inputs :: "nat \<Rightarrow> nat \<Rightarrow> u32 \<Rightarrow> nat \<Rightarrow> u32 \<Rightarrow> 'e ecx_contextt \<Rightarrow> 'e ecx_contextt" where
  "record_inputs pIOmap grp LogAddr currentsegment segmentsize c = (let
     bytes = LogAddr - gr_logstartaddr (grouplist c grp);
     c = upd_group grp (\<lambda>g. g\<lparr>gr_IOsegment := (gr_IOsegment g)(currentsegment := segmentsize),
       gr_nsegments := of_nat (currentsegment + 1), gr_inputs := Some (pIOmap + unat (gr_Obytes g)),
       gr_Ibytes := bytes - gr_Obytes g\<rparr>) c
   in if grp = 0 then upd_slave 0 (\<lambda>s. s\<lparr>sl_inputs := Some (pIOmap + unat (sl_Obytes s)), sl_Ibytes := bytes - sl_Obytes s\<rparr>) c else c)"

definition ecx_main_config_map_group :: "'e os_ops \<Rightarrow> 'e eoe_hook \<Rightarrow> 'e po2so_hook \<Rightarrow> (nat \<Rightarrow> buf \<times> buf) \<Rightarrow> nat \<Rightarrow> nat \<Rightarrow> bool \<Rightarrow>
    'e ecx_contextt \<Rightarrow> (int \<times> 'e ecx_contextt) option" where
  "ecx_main_config_map_group E hook po2so stk pIOmap grp forceByteAlignment c =
     (if slavecount c > 0 \<and> grp < maxgroup c
      then do {
        let LogAddr = gr_logstartaddr (grouplist c grp);
        c \<leftarrow> ecx_config_find_mappings E hook po2so stk grp (map_begin grp c);
        st \<leftarrow> foldM (map_output E pIOmap grp forceByteAlignment) [1..<slavecount c + 1] (LogAddr, 0, LogAddr, 0, 0, c);
        let (LogAddr, BitPos, oLogAddr, cs, sz, c) = close_byte grp st;
        let c = record_outputs pIOmap grp LogAddr cs sz c;
        st \<leftarrow> foldM (map_input E pIOmap grp forceByteAlignment) [1..<slavecount c + 1] (LogAddr, BitPos, oLogAddr, cs, sz, c);
        let (LogAddr, BitPos, oLogAddr, cs, sz, c) = close_byte grp st;
        let c = record_inputs pIOmap grp LogAddr cs sz c;
        Some (sint (LogAddr - gr_logstartaddr (grouplist c grp)), c) }
      else Some (0, c))"

definition ecx_config_map_group :: "'e os_ops \<Rightarrow> 'e eoe_hook \<Rightarrow> 'e po2so_hook \<Rightarrow> (nat \<Rightarrow> buf \<times> buf) \<Rightarrow> nat \<Rightarrow> nat \<Rightarrow>
    'e ecx_contextt \<Rightarrow> (int \<times> 'e ecx_contextt) option" where
  "ecx_config_map_group E hook po2so stk pIOmap grp = ecx_main_config_map_group E hook po2so stk pIOmap grp False"

definition ecx_config_map_group_aligned :: "'e os_ops \<Rightarrow> 'e eoe_hook \<Rightarrow> 'e po2so_hook \<Rightarrow> (nat \<Rightarrow> buf \<times> buf) \<Rightarrow> nat \<Rightarrow> nat \<Rightarrow>
    'e ecx_contextt \<Rightarrow> (int \<times> 'e ecx_contextt) option" where
  "ecx_config_map_group_aligned E hook po2so stk pIOmap grp = ecx_main_config_map_group E hook po2so stk pIOmap grp True"

section \<open>Outputs and inputs at the same addresses\<close>

type_synonym 'e overlap_state = "u32 \<times> u32 \<times> u32 \<times> u8 \<times> nat \<times> u32 \<times> 'e ecx_contextt"

definition map_whole :: "(u32 \<times> u8 \<times> 'e ecx_contextt \<Rightarrow> (u32 \<times> u8 \<times> 'e ecx_contextt) option) \<Rightarrow> u32 \<times> u8 \<times> 'e ecx_contextt \<Rightarrow>
    (u32 \<times> u8 \<times> 'e ecx_contextt) option" where
  "map_whole create st = do {
     (LogAddr, BitPos, c) \<leftarrow> create st;
     Some (if BitPos \<noteq> 0 then (LogAddr + 1, 0, c) else (LogAddr, BitPos, c)) }"

definition map_overlap :: "'e os_ops \<Rightarrow> nat \<Rightarrow> nat \<Rightarrow> nat \<Rightarrow> 'e overlap_state \<Rightarrow> 'e overlap_state option" where
  "map_overlap E pIOmap grp slave = (\<lambda>(mLogAddr, soLogAddr, siLogAddr, BitPos, cs, sz, c). do {
     let siLogAddr = mLogAddr;
     let soLogAddr = mLogAddr;
     if in_group grp (slavelist c slave)
     then do {
       (soLogAddr, BitPos, c) \<leftarrow> (if sl_Obits (slavelist c slave) \<noteq> 0
         then map_whole (ecx_config_create_output_mappings E pIOmap grp slave) (soLogAddr, BitPos, c)
         else Some (soLogAddr, BitPos, c));
       (siLogAddr, BitPos, c) \<leftarrow> (if sl_Ibits (slavelist c slave) \<noteq> 0
         then map_whole (ecx_config_create_input_mappings E pIOmap grp slave) (siLogAddr, BitPos, c)
         else Some (siLogAddr, BitPos, c));
       let tempLogAddr = (if siLogAddr > soLogAddr then siLogAddr else soLogAddr);
       let (cs, sz, c) = add_segment grp (tempLogAddr - mLogAddr) (cs, sz, c);
       c \<leftarrow> map_finish E grp slave c;
       Some (tempLogAddr, soLogAddr, siLogAddr, BitPos, cs, sz, c) }
     else Some (mLogAddr, soLogAddr, siLogAddr, BitPos, cs, sz, c) })"

definition record_overlap :: "nat \<Rightarrow> nat \<Rightarrow> u32 \<Rightarrow> u32 \<Rightarrow> nat \<Rightarrow> u32 \<Rightarrow> ec_groupt \<Rightarrow> ec_groupt" where
  "record_overlap pIOmap grp soLogAddr siLogAddr cs sz g = (let bytes = soLogAddr - gr_logstartaddr g in
     g\<lparr>gr_IOsegment := (gr_IOsegment g)(cs := sz), gr_nsegments := of_nat (cs + 1), gr_Isegment := 0, gr_Ioffset := 0,
       gr_Obytes := bytes, gr_Ibytes := siLogAddr - gr_logstartaddr g, gr_outputs := Some pIOmap,
       gr_inputs := Some (pIOmap + unat bytes)\<rparr>)"

definition shift_inputs :: "nat \<Rightarrow> nat \<Rightarrow> nat \<Rightarrow> 'e ecx_contextt \<Rightarrow> 'e ecx_contextt" where
  "shift_inputs grp bytes slave c = (if in_group grp (slavelist c slave) \<and> sl_Ibits (slavelist c slave) > 0
     then upd_slave slave (\<lambda>s. s\<lparr>sl_inputs := map_option (\<lambda>a. a + bytes) (sl_inputs s)\<rparr>) c else c)"

definition ecx_config_overlap_map_group :: "'e os_ops \<Rightarrow> 'e eoe_hook \<Rightarrow> 'e po2so_hook \<Rightarrow> (nat \<Rightarrow> buf \<times> buf) \<Rightarrow> nat \<Rightarrow> nat \<Rightarrow>
    'e ecx_contextt \<Rightarrow> (int \<times> 'e ecx_contextt) option" where
  "ecx_config_overlap_map_group E hook po2so stk pIOmap grp c =
     (if slavecount c > 0 \<and> grp < maxgroup c
      then do {
        let mLogAddr = gr_logstartaddr (grouplist c grp);
        c \<leftarrow> ecx_config_find_mappings E hook po2so stk grp (map_begin grp c);
        (_, soLogAddr, siLogAddr, BitPos, cs, sz, c) \<leftarrow>
          foldM (map_overlap E pIOmap grp) [1..<slavecount c + 1] (mLogAddr, mLogAddr, mLogAddr, 0, 0, 0, c);
        let c = upd_group grp (record_overlap pIOmap grp soLogAddr siLogAddr cs sz) c;
        let g = grouplist c grp;
        let c = foldl (\<lambda>c slave. shift_inputs grp (unat (gr_Obytes g)) slave c) c [1..<slavecount c + 1];
        let c = (if grp = 0
          then upd_slave 0 (\<lambda>s. s\<lparr>sl_outputs := Some pIOmap, sl_Obytes := gr_Obytes g,
            sl_inputs := Some (pIOmap + unat (gr_Obytes g)), sl_Ibytes := gr_Ibytes g\<rparr>) c else c);
        Some (sint (gr_Obytes g + gr_Ibytes g), c) }
      else Some (0, c))"

end
