(* ===== verification/Fmmu.thy ===== *)
theory Fmmu
  imports IoMap
begin

text \<open>
  The FMMUs that \<open>IoMap.create_mappings\<close> programs cover the data of the slave in the logical addresses: a
  bit oriented slave exactly, a byte oriented one without gap or overlap. \<open>io_laws\<close> states what the two
  directions, inputs and outputs, have in common. With three sync managers that do not connect the
  lengths of the FMMUs do not fit the sync managers.
\<close>

section \<open>The FMMUs cover the data\<close>

lemma next_SM_le: "k < EC_MAXSM \<Longrightarrow> next_SM t ty k < EC_MAXSM"
proof (induction t ty k rule: next_SM.induct)
  case (1 t ty k)
  then show ?case by (subst next_SM.simps) simp
qed

lemma join_SM_le: "SMc < EC_MAXSM \<Longrightarrow> fst (join_SM d s SMc b n e) < EC_MAXSM"
proof (induction d s SMc b n e rule: join_SM.induct)
  case (1 d s SMc b n e)
  then show ?case
    using next_SM_le [of "Suc SMc"] by (subst join_SM.simps) (auto simp: Let_def)
qed

lemma fmmu_span_le: "SMc < EC_MAXSM \<Longrightarrow> fst (snd (fmmu_span d s SMc b n)) < EC_MAXSM"
  by (simp add: fmmu_span_def Let_def join_SM_le next_SM_le)

lemma bit_bytes_le: "bit_bytes n \<le> 8192"
proof -
  have "unat n + 7 \<le> 65542" using unat_u16_lt [of n] by linarith
  then show ?thesis unfolding bit_bytes_def by (rule order.trans [OF div_le_mono]) simp
qed

text \<open>What the mapping of a slave keeps, and what the mapping of either direction relies on.\<close>

definition same_data :: "io_dir \<Rightarrow> ec_slavet \<Rightarrow> ec_slavet \<Rightarrow> bool" where
  "same_data d s t \<longleftrightarrow> io_bits d t = io_bits d s \<and> io_bytes d t = io_bytes d s \<and> sl_SM t = sl_SM s \<and>
     sl_SMtype t = sl_SMtype s \<and> sl_configadr t = sl_configadr s"

lemma same_data_refl [simp]: "same_data d s s"
  by (simp add: same_data_def)

lemma same_data_trans [trans]: "same_data d s t \<Longrightarrow> same_data d t u \<Longrightarrow> same_data d s u"
  by (simp add: same_data_def)

lemma sl_FMMU_set_FMMU [simp]: "sl_FMMU (set_FMMU k g s) = (sl_FMMU s)(k := g (sl_FMMU s k))"
  by (simp add: set_FMMU_def)

text \<open>What is written into the FMMU, and the context after one round up to the port.\<close>

definition end_FMMU :: "io_dir \<Rightarrow> ec_fmmut \<Rightarrow> ec_fmmut" where
  "end_FMMU d f = (if LogLength f \<noteq> 0 then f\<lparr>PhysStartBit := 0, FMMUtype := io_FMMUtype d, FMMUactive := 1\<rparr> else f)"

lemma end_FMMU_simps [simp]:
  "LogStart (end_FMMU d f) = LogStart f" "LogLength (end_FMMU d f) = LogLength f"
  "LogStartbit (end_FMMU d f) = LogStartbit f" "LogEndbit (end_FMMU d f) = LogEndbit f"
  "PhysStart (end_FMMU d f) = PhysStart f"
  by (simp_all add: end_FMMU_def)

definition image_pos :: "nat \<Rightarrow> nat \<Rightarrow> u32 \<Rightarrow> 'e ecx_contextt \<Rightarrow> int" where
  "image_pos pIOmap grp a c = int pIOmap + uint a - (if grp \<noteq> 0 then uint (gr_logstartaddr (grouplist c grp)) else 0)"

lemma program_FMMU_runs:
  assumes "net_ok E now (port c)"
  shows "runs_to (program_FMMU E a k f c)
    (\<lambda>c1. exchange_ok E now (port c) (port c1) \<and> slavelist c1 = slavelist c \<and> grouplist c1 = grouplist c)"
proof (cases "LogLength f = 0")
  case False
  then show ?thesis
    by (simp add: program_FMMU_def on_port_runs) (rule runs_to_mono [OF ecx_FPWR_runs [OF assms]], auto)
qed (simp add: program_FMMU_def exchange_ok_refl assms)

lemma image_pos_ok:
  "grp = 0 \<or> gr_logstartaddr (grouplist c grp) \<le> a \<Longrightarrow> 0 \<le> image_pos pIOmap grp a c"
  by (auto simp: image_pos_def word_le_def)

text \<open>
  The FMMUs \<open>k\<close> to \<open>k' - 1\<close> cover \<open>n\<close> whole bytes from the address \<open>start\<close> on, one behind the other, and
  those that are not empty are active.
\<close>

definition covers :: "io_dir \<Rightarrow> (nat \<Rightarrow> ec_fmmut) \<Rightarrow> nat \<Rightarrow> nat \<Rightarrow> u32 \<Rightarrow> nat \<Rightarrow> bool" where
  "covers d fm k k' start n \<longleftrightarrow> (\<Sum>i = k..<k'. unat (LogLength (fm i))) = n \<and>
     (\<forall>j \<in> {k..<k'}. LogStart (fm j) = start + of_nat (\<Sum>i = k..<j. unat (LogLength (fm i))) \<and>
       LogStartbit (fm j) = 0 \<and> LogEndbit (fm j) = 7 \<and>
       (LogLength (fm j) \<noteq> 0 \<longrightarrow> FMMUtype (fm j) = io_FMMUtype d \<and> FMMUactive (fm j) = 1))"

lemma covers_empty [simp]: "covers d fm k k start 0"
  by (simp add: covers_def)

lemma covers_next:
  assumes "covers d fm k k' start n" "k \<le> k'" "LogStart f = start + of_nat n" "LogStartbit f = 0" "LogEndbit f = 7"
  shows "covers d (fm(k' := end_FMMU d f)) k (k' + 1) start (n + unat (LogLength f))"
proof -
  have eq: "(\<Sum>i = k..<j. unat (LogLength ((fm(k' := end_FMMU d f)) i))) = (\<Sum>i = k..<j. unat (LogLength (fm i)))" if "j \<le> k'" for j
    using that by (intro sum.cong) auto
  have "LogStart ((fm(k' := end_FMMU d f)) j) = start + of_nat (\<Sum>i = k..<j. unat (LogLength ((fm(k' := end_FMMU d f)) i)))"
    if "j \<in> {k..<k' + 1}" for j
    using that assms(1,3) eq [of j] by (cases "j = k'") (auto simp: covers_def)
  moreover have "(\<Sum>i = k..<k' + 1. unat (LogLength ((fm(k' := end_FMMU d f)) i))) = n + unat (LogLength f)"
    using eq [of k'] assms(1,2) by (simp add: covers_def)
  ultimately show ?thesis using assms(1,2,4,5) by (auto simp: covers_def end_FMMU_def less_Suc_eq)
qed

lemma place_bytes_result:
  fixes bytes :: u32 and bc :: u16
  assumes "unat bytes \<le> 8192" "n \<le> unat bytes"
  defines "sz \<equiv> (of_nat (min (unat bc) (unat bytes - n)) :: u16)"
  shows "place_bytes bytes (int n) bc L B f = (f\<lparr>LogStart := (if B \<noteq> 0 then L + 1 else L), LogStartbit := 0, LogLength := sz,
      LogEndbit := 7\<rparr>, (if B \<noteq> 0 then L + 1 else L) + ucast sz, 0, sz)"
    and "unat sz = min (unat bc) (unat bytes - n)"
proof -
  have sz: "unat sz = min (unat bc) (unat bytes - n)"
    using assms(1) unat_u16_lt [of bc] by (simp add: sz_def unat_of_nat_u16)
  have "unat (ucast (bytes - word_of_int (int n)) :: u16) = unat bytes - n"
  proof -
    have "unat (of_nat n :: u32) = n" using assms(1,2) by (simp add: unat_of_nat take_bit_nat_eq_self)
    then have "unat (bytes - of_nat n) = unat bytes - n" using assms(2) by (simp add: unat_sub word_le_nat_alt)
    then show ?thesis using assms(1) by (simp add: unsigned_ucast_eq take_bit_nat_eq_self)
  qed
  moreover have "uint bc + int n > sint bytes \<longleftrightarrow> unat bc > unat bytes - n"
  proof -
    have "sint bytes = int (unat bytes)" by (rule sint_small) (use assms(1) in simp)
    moreover have "uint bc = int (unat bc)" by simp
    ultimately show ?thesis using assms(2) by linarith
  qed
  ultimately have "(if uint bc + int n > sint bytes then ucast (bytes - word_of_int (int n)) else bc) = sz"
    using sz by (auto simp: word_unat_eq_iff)
  then show "place_bytes bytes (int n) bc L B f = (f\<lparr>LogStart := (if B \<noteq> 0 then L + 1 else L), LogStartbit := 0, LogLength := sz,
      LogEndbit := 7\<rparr>, (if B \<noteq> 0 then L + 1 else L) + ucast sz, 0, sz)"
    by (simp add: place_bytes_def Let_def)
  show "unat sz = min (unat bc) (unat bytes - n)" by (rule sz)
qed

locale io_laws =
  fixes d :: io_dir
  assumes FMMU_law: "same_data d s (set_FMMU k g s)" "io_ptr d (set_FMMU k g s) = io_ptr d s"
    and place_law: "same_data d s (io_place d a b s)" "sl_FMMU (io_place d a b s) = sl_FMMU s" "io_ptr d (io_place d a b s) = Some a"
    and unused_law: "same_data d s (s\<lparr>sl_FMMUunused := u\<rparr>)" "io_ptr d (s\<lparr>sl_FMMUunused := u\<rparr>) = io_ptr d s"
begin

lemma round_result:
  assumes "net_ok E now (port c)" "FMMUc < EC_MAXFMMU"
    and span: "fmmu_span d (slavelist c slave) SMc bytes n = (k, SMc', bytes', n')"
    and place: "place_FMMU d (slavelist c slave) dn bytes' L B
       ((sl_FMMU (slavelist c slave) FMMUc)\<lparr>PhysStart := StartAddr (sl_SM (slavelist c slave) k)\<rparr>) = (f, L', B', sz)"
  shows "\<exists>c1. map_round d E pIOmap grp slave (SMc, FMMUc, dn, bytes, n, L, B, added, c) =
      (if io_ptr d (slavelist c slave) = None \<and> image_pos pIOmap grp (LogStart f) c < 0 then None
       else Some (SMc', FMMUc + 1, dn + uint sz, bytes', n', L', B', added \<or> LogLength f \<noteq> 0, c1)) \<and>
      exchange_ok E now (port c) (port c1) \<and> grouplist c1 = grouplist c \<and> same_data d (slavelist c slave) (slavelist c1 slave) \<and>
      sl_FMMU (slavelist c1 slave) = (sl_FMMU (slavelist c slave))(FMMUc := end_FMMU d f) \<and>
      io_ptr d (slavelist c1 slave) = (if io_ptr d (slavelist c slave) = None
        then Some (nat (image_pos pIOmap grp (LogStart f) c)) else io_ptr d (slavelist c slave))"
proof -
  define c0 where "c0 = upd_slave slave (set_FMMU FMMUc (\<lambda>_. end_FMMU d f)) c"
  have c0: "grouplist c0 = grouplist c" "sl_FMMU (slavelist c0 slave) = (sl_FMMU (slavelist c slave))(FMMUc := end_FMMU d f)"
    "io_ptr d (slavelist c0 slave) = io_ptr d (slavelist c slave)" "same_data d (slavelist c slave) (slavelist c0 slave)"
    by (simp_all add: c0_def FMMU_law)
  obtain c1 where c1: "program_FMMU E (sl_configadr (slavelist c slave)) FMMUc (end_FMMU d f) c0 = Some c1"
    "exchange_ok E now (port c) (port c1)" "slavelist c1 = slavelist c0" "grouplist c1 = grouplist c"
    using program_FMMU_runs [of E now c0 "sl_configadr (slavelist c slave)" FMMUc "end_FMMU d f"] assms(1)
    by (auto simp: c0_def runs_to_iff)
  define c2 where "c2 = (if io_ptr d (slavelist c slave) = None
    then upd_slave slave (io_place d (nat (image_pos pIOmap grp (LogStart f) c)) (LogStartbit f)) c1 else c1)"
  have "\<not> int pIOmap + uint (LogStart f) < 0" by (simp add: not_less)
  then have "map_round d E pIOmap grp slave (SMc, FMMUc, dn, bytes, n, L, B, added, c) =
      (if io_ptr d (slavelist c slave) = None \<and> image_pos pIOmap grp (LogStart f) c < 0 then None
       else Some (SMc', FMMUc + 1, dn + uint sz, bytes', n', L', B', added \<or> LogLength f \<noteq> 0, c2))"
    unfolding map_round_def prod.case Let_def span place end_FMMU_def [symmetric] c0_def [symmetric] end_FMMU_simps c1(1)
    using assms(2) c0 c1(2-4) by (auto simp: image_pos_def chk_def c2_def)
  moreover have "same_data d (slavelist c slave) (slavelist c2 slave)" "sl_FMMU (slavelist c2 slave) = sl_FMMU (slavelist c1 slave)"
    "grouplist c2 = grouplist c1" "port c2 = port c1"
    "io_ptr d (slavelist c2 slave) = (if io_ptr d (slavelist c slave) = None
        then Some (nat (image_pos pIOmap grp (LogStart f) c)) else io_ptr d (slavelist c slave))"
    using c0 c1(3) by (auto simp: c2_def place_law intro: same_data_trans [OF _ place_law(1)])
  ultimately show ?thesis using c0 c1(2-4) by (intro exI [of _ c2]) simp
qed

end

interpretation inputs: io_laws input_dir
  by unfold_locales (simp_all add: input_dir_def set_FMMU_def same_data_def)

interpretation outputs: io_laws output_dir
  by unfold_locales (simp_all add: output_dir_def set_FMMU_def same_data_def)

context io_laws
begin

definition mapping_inv :: "'e os_ops \<Rightarrow> ('e \<Rightarrow> nat) \<Rightarrow> nat \<Rightarrow> nat \<Rightarrow> u32 \<Rightarrow> u8 \<Rightarrow> 'e ecx_contextt \<Rightarrow> 'e map_state \<Rightarrow> bool" where
  "mapping_inv E now slave k L B c = (\<lambda>(SMc, F, dn, bc, n, L', B', added, c').
     let s = slavelist c slave; fm = sl_FMMU (slavelist c' slave); start = (if B \<noteq> 0 then L + 1 else L) in
     SMc < EC_MAXSM \<and> k \<le> F \<and> F \<le> max k EC_MAXFMMU \<and> exchange_ok E now (port c) (port c') \<and>
     same_data d s (slavelist c' slave) \<and> (\<forall>j. j < k \<or> F \<le> j \<longrightarrow> fm j = sl_FMMU s j) \<and>
     (\<exists>m \<le> unat (io_bytes d s). dn = int m \<and> covers d fm k F start m \<and>
       (if F = k then m = 0 \<and> L' = L \<and> B' = B else L' = start + of_nat m \<and> B' = 0)))"

lemma mapping_inv_round:
  assumes inv: "mapping_inv E now slave k L B c st"
    and bytes: "io_bytes d (slavelist c slave) \<noteq> 0" "unat (io_bytes d (slavelist c slave)) \<le> 8192"
  shows "if_runs (map_round d E pIOmap grp slave st) (mapping_inv E now slave k L B c)"
proof -
  obtain SMc F dn bc n L' B' added c' where st: "st = (SMc, F, dn, bc, n, L', B', added, c')" by (metis surj_pair)
  let ?s = "slavelist c slave" and ?s' = "slavelist c' slave" and ?start = "if B \<noteq> 0 then L + 1 else L"
  have s': "same_data d ?s ?s'" "SMc < EC_MAXSM" "k \<le> F" "exchange_ok E now (port c) (port c')"
    using inv by (simp_all add: st mapping_inv_def Let_def)
  obtain m where m: "m \<le> unat (io_bytes d ?s)" "dn = int m" "covers d (sl_FMMU ?s') k F ?start m"
    "if F = k then m = 0 \<and> L' = L \<and> B' = B else L' = ?start + of_nat m \<and> B' = 0"
    using inv by (auto simp: st mapping_inv_def Let_def)
  have start: "(if B' \<noteq> 0 then L' + 1 else L') = ?start + of_nat m" using m(4) by (auto split: if_splits)
  show ?thesis
  proof (cases "F < EC_MAXFMMU")
    case True
    obtain j SMc' bc' n' where span: "fmmu_span d ?s' SMc bc n = (j, SMc', bc', n')" by (metis surj_pair)
    let ?f = "(sl_FMMU ?s' F)\<lparr>PhysStart := StartAddr (sl_SM ?s' j)\<rparr>"
    have b: "io_bytes d ?s' = io_bytes d ?s" using s'(1) by (simp add: same_data_def)
    define sz where "sz = (of_nat (min (unat bc') (unat (io_bytes d ?s) - m)) :: u16)"
    note p = place_bytes_result(1) [OF bytes(2) m(1), of bc' L' B' ?f, folded sz_def, unfolded start]
      place_bytes_result(2) [OF bytes(2) m(1), of bc', folded sz_def]
    let ?f' = "?f\<lparr>LogStart := ?start + of_nat m, LogStartbit := 0, LogLength := sz, LogEndbit := 7\<rparr>"
    have "place_FMMU d ?s' dn bc' L' B' ?f = (?f', ?start + of_nat m + ucast sz, 0, sz)"
      using bytes(1) p(1) by (simp add: place_FMMU_def b m(2))
    from round_result [OF exchange_ok_net [OF s'(4)] True span this, of pIOmap grp added] obtain c1 where
      c1: "map_round d E pIOmap grp slave st = (if io_ptr d ?s' = None \<and> image_pos pIOmap grp (LogStart ?f') c' < 0 then None
        else Some (SMc', F + 1, dn + uint sz, bc', n', ?start + of_nat m + ucast sz, 0, added \<or> LogLength ?f' \<noteq> 0, c1))"
      "exchange_ok E now (port c') (port c1)" "same_data d ?s' (slavelist c1 slave)"
      "sl_FMMU (slavelist c1 slave) = (sl_FMMU ?s')(F := end_FMMU d ?f')"
      unfolding st by blast
    have "covers d (sl_FMMU (slavelist c1 slave)) k (F + 1) ?start (m + unat sz)"
      unfolding c1(4) using covers_next [OF m(3) s'(3), of ?f'] by simp
    moreover have "m + unat sz \<le> unat (io_bytes d ?s)" using p(2) m(1) by simp
    moreover have "SMc' < EC_MAXSM" using fmmu_span_le [OF s'(2), of d ?s' bc n] by (simp add: span)
    moreover have "?start + of_nat m + ucast sz = ?start + of_nat (m + unat sz)" by (simp add: unsigned_ucast_eq)
    moreover have "dn + uint sz = int (m + unat sz)" using m(2) by simp
    moreover have "exchange_ok E now (port c) (port c1)" "same_data d ?s (slavelist c1 slave)"
      using s'(1,4) c1(2,3) by (blast intro: exchange_ok_trans same_data_trans)+
    moreover have "\<forall>j. j < k \<or> F + 1 \<le> j \<longrightarrow> sl_FMMU (slavelist c1 slave) j = sl_FMMU ?s j"
      using inv s'(3) by (auto simp: c1(4) st mapping_inv_def Let_def)
    ultimately show ?thesis using s'(3) True by (auto simp: c1(1) mapping_inv_def Let_def)
  qed (simp add: st map_round_def Let_def split_beta)
qed

lemma create_covers:
  fixes L :: u32 and B :: u8
  assumes c: "net_ok E now (port c)" and bytes: "io_bytes d (slavelist c slave) \<noteq> 0"
    "unat (io_bytes d (slavelist c slave)) = bit_bytes (io_bits d (slavelist c slave))" and k: "k \<le> EC_MAXFMMU"
  defines "start \<equiv> (if B \<noteq> 0 then L + 1 else L)" and "n \<equiv> unat (io_bytes d (slavelist c slave))"
  shows "if_runs (create_mappings d E pIOmap grp slave k (L, B, c)) (\<lambda>(L', B', c'). let s' = slavelist c' slave in
    L' = start + of_nat n \<and> B' = 0 \<and> same_data d (slavelist c slave) s' \<and>
    k < unat (sl_FMMUunused s') \<and> unat (sl_FMMUunused s') \<le> EC_MAXFMMU \<and>
    covers d (sl_FMMU s') k (unat (sl_FMMUunused s')) start n \<and>
    (\<forall>j. j < k \<or> unat (sl_FMMUunused s') \<le> j \<longrightarrow> sl_FMMU s' j = sl_FMMU (slavelist c slave) j))"
  unfolding create_mappings_def prod.case if_runs_simps
proof (rule while_do_partial [where I = "mapping_inv E now slave k L B c"], goal_cases)
  case 1
  show ?case using c k by (auto simp: mapping_inv_def Let_def exchange_ok_refl)
next
  case (2 a)
  show ?case by (rule mapping_inv_round [OF 2(1) bytes(1)]) (simp add: bytes(2) bit_bytes_le)
next
  case (3 a)
  obtain SMc F dn bc m L' B' added c' where a: "a = (SMc, F, dn, bc, m, L', B', added, c')" by (metis surj_pair)
  let ?c = "upd_slave slave (\<lambda>s. s\<lparr>sl_FMMUunused := of_nat F\<rparr>) c'"
  obtain l where l: "l \<le> n" "dn = int l" "covers d (sl_FMMU (slavelist c' slave)) k F start l" "k \<le> F"
    "if F = k then l = 0 else L' = start + of_nat l \<and> B' = 0"
    using 3(1) by (auto simp: a mapping_inv_def Let_def n_def start_def)
  have "n \<le> l" using 3 l(2) bytes(2) by (simp add: a mapping_inv_def Let_def map_more_def n_def same_data_def del: of_nat_unat)
  then have "l = n" using l(1) by simp
  moreover have "n \<noteq> 0" using bytes(1) by (simp add: n_def unat_eq_zero)
  ultimately have "k < F" "L' = start + of_nat n" "B' = 0" "covers d (sl_FMMU (slavelist c' slave)) k F start n"
    using l by (auto split: if_splits)
  moreover have "F \<le> EC_MAXFMMU" using 3(1) k by (auto simp: a mapping_inv_def Let_def)
  moreover from this have "unat (of_nat F :: u8) = F" by (simp add: unat_of_nat take_bit_nat_eq_self)
  moreover have "same_data d (slavelist c slave) ((slavelist c' slave)\<lparr>sl_FMMUunused := of_nat F\<rparr>)"
    using 3(1) unused_law(1) by (auto simp: a mapping_inv_def Let_def intro: same_data_trans)
  moreover have "slavelist (if added then upd_group grp (io_WKC d) ?c else ?c) slave = (slavelist c' slave)\<lparr>sl_FMMUunused := of_nat F\<rparr>"
    by (simp add: upd_group_def)
  ultimately show ?case using 3(1) by (auto simp: a mapping_inv_def Let_def)
qed

end

text \<open>A slave that needs one FMMU only: the mapping returns.\<close>

context io_laws
begin

lemma create_one:
  assumes c: "net_ok E now (port c)" and k: "k < EC_MAXFMMU" and bits: "io_bits d (slavelist c slave) \<noteq> 0"
    and span: "fmmu_span d (slavelist c slave) 0 0 0 = (j, SMc', bytes', n')"
    and place: "place_FMMU d (slavelist c slave) 0 bytes' L B
       ((sl_FMMU (slavelist c slave) k)\<lparr>PhysStart := StartAddr (sl_SM (slavelist c slave) j)\<rparr>) = (f, L', B', sz)"
    and size: "bit_bytes (io_bits d (slavelist c slave)) \<le> unat sz"
    and pos: "io_ptr d (slavelist c slave) = None \<Longrightarrow> 0 \<le> image_pos pIOmap grp (LogStart f) c"
  shows "runs_to (create_mappings d E pIOmap grp slave k (L, B, c)) (\<lambda>(L1, B1, c'). let s' = slavelist c' slave in
    L1 = L' \<and> B1 = B' \<and> exchange_ok E now (port c) (port c') \<and> same_data d (slavelist c slave) s' \<and>
    unat (sl_FMMUunused s') = k + 1 \<and> sl_FMMU s' = (sl_FMMU (slavelist c slave))(k := end_FMMU d f))"
proof -
  have "\<not> (io_ptr d (slavelist c slave) = None \<and> image_pos pIOmap grp (LogStart f) c < 0)" using pos by auto
  with round_result [OF c k span place, of pIOmap grp False] obtain c1 where
    c1: "map_round d E pIOmap grp slave (0, k, 0, 0, 0, L, B, False, c) = Some (SMc', k + 1, uint sz, bytes', n', L', B', LogLength f \<noteq> 0, c1)"
    "exchange_ok E now (port c) (port c1)" "same_data d (slavelist c slave) (slavelist c1 slave)"
    "sl_FMMU (slavelist c1 slave) = (sl_FMMU (slavelist c slave))(k := end_FMMU d f)"
    by (simp only: if_not_P add_0 simp_thms) blast
  have "0 < unat (io_bits d (slavelist c slave))" using bits by (simp add: unat_gt_0)
  then have "bit_bytes (io_bits d (slavelist c slave)) > 0" by (simp add: bit_bytes_def div_greater_zero_iff)
  then have "map_more d slave (0, k, 0, 0, 0, L, B, False, c)" by (simp add: map_more_def)
  moreover have "\<not> map_more d slave (SMc', k + 1, uint sz, bytes', n', L', B', LogLength f \<noteq> 0, c1)"
  proof -
    have "int (bit_bytes (io_bits d (slavelist c slave))) \<le> uint sz" using size by (simp only: uint_nat of_nat_le_iff)
    then show ?thesis using c1(3) by (simp add: map_more_def same_data_def)
  qed
  ultimately have run: "while_do (map_more d slave) (map_round d E pIOmap grp slave) (0, k, 0, 0, 0, L, B, False, c) =
      Some (SMc', k + 1, uint sz, bytes', n', L', B', LogLength f \<noteq> 0, c1)"
    by (subst while_do.simps, simp only: if_True c1(1) Option.bind.bind_lunit, subst while_do.simps, simp only: if_False)
  have "unat (1 + word_of_nat k :: u8) = k + 1"
    using k unat_of_nat [of "k + 1", where 'a = 8] by (simp add: take_bit_nat_eq_self)
  moreover have "same_data d (slavelist c slave) ((slavelist c1 slave)\<lparr>sl_FMMUunused := u\<rparr>)" for u
    by (rule same_data_trans [OF c1(3) unused_law(1)])
  ultimately show ?thesis
    using c1(2,4) by (simp add: create_mappings_def run upd_group_def Let_def)
qed

end

text \<open>The bits of a bit oriented slave, counted from the logical address 0.\<close>

definition bit_pos :: "u32 \<Rightarrow> u8 \<Rightarrow> nat" where
  "bit_pos L B = 8 * unat L + unat B"

lemma carry_pos:
  assumes "carry L B = (L', B')" "unat B \<le> 15" "unat L + 1 < 2 ^ 32"
  shows "bit_pos L' B' = bit_pos L B" "unat B' \<le> 7" "L' = L \<or> L' = L + 1 \<and> unat L' = unat L + 1"
proof -
  have 1: "unat (L + 1) = unat L + 1" using assms(3) by (simp add: unat_plus_if')
  have 2: "unat (B - 8) = unat B - 8" if "B > 7" using that by (simp add: unat_sub word_le_nat_alt word_less_nat_alt)
  have "B > 7 \<longleftrightarrow> unat B > 7" by (simp add: word_less_nat_alt)
  with assms(1,2) 1 2 show "bit_pos L' B' = bit_pos L B" "unat B' \<le> 7" "L' = L \<or> L' = L + 1 \<and> unat L' = unat L + 1"
    by (auto simp: carry_def bit_pos_def split: if_splits)
qed

lemma place_bits_pos:
  assumes "place_bits bits L B f = (f', L', B', sz)" "0 < unat bits" "unat bits \<le> 8" "unat B \<le> 7" "unat L + 2 < 2 ^ 32"
  shows "LogStart f' = L" "LogStartbit f' = B" "LogLength f' = sz" "PhysStart f' = PhysStart f" "unat sz \<in> {1, 2}"
    and "8 * (unat L + unat sz - 1) + unat (LogEndbit f') = bit_pos L B + unat bits - 1" "unat (LogEndbit f') \<le> 7"
    and "bit_pos L' B' = bit_pos L B + unat bits" "unat B' \<le> 7"
proof -
  obtain L1 B1 where 1: "carry L (B + ucast (bits - 1)) = (L1, B1)" by fastforce
  obtain L2 B2 where 2: "carry L1 (B1 + 1) = (L2, B2)" by fastforce
  define w where "w = (ucast (L1 - L + 1) :: u16)"
  have eq: "f' = f\<lparr>LogStart := L, LogStartbit := B, LogLength := w, LogEndbit := B1\<rparr>" "L' = L2" "B' = B2" "sz = w"
    using assms(1) by (auto simp: place_bits_def Let_def 1 2 w_def)
  have b: "unat (bits - 1) = unat bits - 1" using assms(2) by (simp add: unat_sub word_le_nat_alt)
  then have "unat (ucast (bits - 1) :: u8) = unat bits - 1" using assms(3) by (simp add: unsigned_ucast_eq take_bit_nat_eq_self)
  then have B: "unat (B + ucast (bits - 1)) = unat B + unat bits - 1" using assms(2-4) by (simp add: unat_plus_if')
  have L: "unat L + 1 < 2 ^ 32" using assms(5) by simp
  note c1 = carry_pos [OF 1 _ L, unfolded B]
  have p1: "bit_pos L1 B1 = bit_pos L B + unat bits - 1" "unat B1 \<le> 7"
    using c1 assms(2-4) B by (simp_all add: bit_pos_def)
  have d: "L1 = L \<or> L1 = L + 1 \<and> unat L1 = unat L + 1" using c1(3) assms(3,4) by simp
  have B1: "unat (B1 + 1) = unat B1 + 1" using p1(2) by (simp add: unat_plus_if')
  have "unat L1 + 1 < 2 ^ 32" using d assms(5) by auto
  note c2 = carry_pos [OF 2 _ this, unfolded B1]
  have p2: "bit_pos L2 B2 = bit_pos L B + unat bits" "unat B2 \<le> 7"
    using c2 p1 assms(2) B1 by (auto simp: bit_pos_def)
  have w: "unat w \<in> {1, 2}" "unat L1 = unat L + unat w - 1" using d by (auto simp: w_def)
  show "LogStart f' = L" "LogStartbit f' = B" "LogLength f' = sz" "PhysStart f' = PhysStart f" "unat sz \<in> {1, 2}"
    "bit_pos L' B' = bit_pos L B + unat bits" "unat B' \<le> 7" "unat (LogEndbit f') \<le> 7"
    "8 * (unat L + unat sz - 1) + unat (LogEndbit f') = bit_pos L B + unat bits - 1"
    using p1 p2 w by (simp_all add: eq bit_pos_def)
qed

lemma next_SM_first:
  assumes "k \<le> j" "j < EC_MAXSM" "ty j = t" "\<forall>i \<in> {k..<j}. ty i \<noteq> t"
  shows "next_SM t ty k = j"
  using assms
proof (induction t ty k rule: next_SM.induct)
  case (1 t ty k)
  show ?case
  proof (cases "k = j")
    case True
    then show ?thesis using 1(4) by (subst next_SM.simps) simp
  next
    case False
    with 1 show ?thesis by (subst next_SM.simps) simp
  qed
qed

text \<open>The first sync manager of the type is \<open>j\<close>; when it holds all the data it is the only one that is used.\<close>

definition first_SM :: "io_dir \<Rightarrow> ec_slavet \<Rightarrow> nat \<Rightarrow> bool" where
  "first_SM d s j \<longleftrightarrow> j < EC_MAXSM \<and> sl_SMtype s j = io_SMtype d \<and> (\<forall>i < j. sl_SMtype s i \<noteq> io_SMtype d)"

lemma fmmu_span_first:
  assumes "first_SM d s j" "unat (io_bits d s) \<le> 8 * unat (SMlength (sl_SM s j))"
  shows "fmmu_span d s 0 0 0 = (j, j, SMlength (sl_SM s j), uint (SMlength (sl_SM s j)) * 8)"
proof -
  have "next_SM (io_SMtype d) (sl_SMtype s) 0 = j"
    using assms(1) by (intro next_SM_first) (auto simp: first_SM_def)
  moreover have "uint (io_bits d s) \<le> uint (SMlength (sl_SM s j)) * 8" using assms(2) by (simp add: uint_nat del: of_nat_unat)
  then have "join_SM d s j b (uint (SMlength (sl_SM s j)) * 8) e = (j, b, uint (SMlength (sl_SM s j)) * 8)" for b e
    by (subst join_SM.simps) simp
  ultimately show ?thesis by (simp add: fmmu_span_def Let_def)
qed

lemma directions: "d = input_dir \<or> d = output_dir \<Longrightarrow> io_laws d"
  using inputs.io_laws_axioms outputs.io_laws_axioms by auto

lemma bit_bytes_small: "0 < unat n \<Longrightarrow> unat n \<le> 7 \<Longrightarrow> bit_bytes n = 1"
  by (simp add: bit_bytes_def)

text \<open>
  The FMMU of a slave with at most seven bits of inputs (or outputs) occupies exactly so many bits of the
  logical addresses: those from the current position on, across a byte boundary where necessary. The
  mapping returns, uses one FMMU for the first sync manager of the type, and moves the position behind these bits.
\<close>

theorem bit_slave_mapped:
  assumes "d = input_dir \<or> d = output_dir" "net_ok E now (port c)" "k < EC_MAXFMMU" "slavelist c slave = s"
    and "first_SM d s j" "SMlength (sl_SM s j) \<noteq> 0" "io_bytes d s = 0" "0 < unat (io_bits d s)" "unat (io_bits d s) \<le> 7"
    and "unat B \<le> 7" "unat L + 2 < 2 ^ 32" "grp = 0 \<or> gr_logstartaddr (grouplist c grp) \<le> L"
  shows "\<exists>L' B' c'. create_mappings d E pIOmap grp slave k (L, B, c) = Some (L', B', c') \<and>
    bit_pos L' B' = bit_pos L B + unat (io_bits d s) \<and> unat B' \<le> 7 \<and>
    (let s' = slavelist c' slave; f = sl_FMMU s' k in
      unat (sl_FMMUunused s') = k + 1 \<and> (\<forall>i. i \<noteq> k \<longrightarrow> sl_FMMU s' i = sl_FMMU s i) \<and>
      PhysStart f = StartAddr (sl_SM s j) \<and> FMMUtype f = io_FMMUtype d \<and> FMMUactive f = 1 \<and>
      bit_pos (LogStart f) (LogStartbit f) = bit_pos L B \<and>
      8 * (unat (LogStart f) + unat (LogLength f) - 1) + unat (LogEndbit f) = bit_pos L B + unat (io_bits d s) - 1)"
proof -
  have "unat (SMlength (sl_SM s j)) > 0" using assms(6) by (simp add: unat_gt_0)
  then have "unat (io_bits d s) \<le> 8 * unat (SMlength (sl_SM s j))" using assms(9) by simp
  note span = fmmu_span_first [OF assms(5) this]
  let ?g = "(sl_FMMU s k)\<lparr>PhysStart := StartAddr (sl_SM s j)\<rparr>"
  obtain f L' B' sz where pb: "place_bits (io_bits d s) L B ?g = (f, L', B', sz)" by (metis surj_pair)
  then have place: "place_FMMU d s 0 (SMlength (sl_SM s j)) L B ?g = (f, L', B', sz)" using assms(7) by (simp add: place_FMMU_def)
  have "unat (io_bits d s) \<le> 8" using assms(9) by simp
  note p = place_bits_pos [OF pb assms(8) this assms(10,11)]
  have b: "io_bits d s \<noteq> 0" using assms(8) by (simp add: unat_gt_0)
  have sz: "bit_bytes (io_bits d s) \<le> unat sz" using p(5) assms(8,9) by (auto simp: bit_bytes_small)
  have "LogLength f \<noteq> 0" using p(3,5) by auto
  then have "FMMUtype (end_FMMU d f) = io_FMMUtype d" "FMMUactive (end_FMMU d f) = 1" by (simp_all add: end_FMMU_def)
  then show ?thesis
    using io_laws.create_one [OF directions [OF assms(1)] assms(2,3), of slave, unfolded assms(4), OF b span place sz, of pIOmap grp]
      image_pos_ok [OF assms(12), of pIOmap] p
    by (auto simp: runs_to_iff Let_def bit_pos_def)
qed

lemma byte_slave_runs:
  assumes "d = input_dir \<or> d = output_dir" "net_ok E now (port c)" "k < EC_MAXFMMU" "slavelist c slave = s"
    and "first_SM d s j" "io_bits d s \<noteq> 0" "unat (io_bytes d s) = bit_bytes (io_bits d s)"
    and "bit_bytes (io_bits d s) \<le> unat (SMlength (sl_SM s j))"
    and "start = (if B = 0 then L else L + 1)" "grp = 0 \<or> gr_logstartaddr (grouplist c grp) \<le> start"
  shows "\<exists>c'. create_mappings d E pIOmap grp slave k (L, B, c) = Some (start + io_bytes d s, 0, c') \<and>
    (let s' = slavelist c' slave in unat (sl_FMMUunused s') = k + 1 \<and> (\<forall>i. i \<noteq> k \<longrightarrow> sl_FMMU s' i = sl_FMMU s i) \<and>
      PhysStart (sl_FMMU s' k) = StartAddr (sl_SM s j) \<and> covers d (sl_FMMU s') k (k + 1) start (bit_bytes (io_bits d s)))"
proof -
  let ?g = "(sl_FMMU s k)\<lparr>PhysStart := StartAddr (sl_SM s j)\<rparr>" and ?bc = "SMlength (sl_SM s j)"
  have "unat (io_bits d s) \<le> 8 * bit_bytes (io_bits d s)" by (simp add: bit_bytes_def)
  then have "unat (io_bits d s) \<le> 8 * unat ?bc" using assms(8) by simp
  note span = fmmu_span_first [OF assms(5) this]
  have n: "unat (io_bytes d s) \<le> 8192" "0 \<le> unat (io_bytes d s)" by (simp_all add: assms(7) bit_bytes_le)
  define sz where "sz = (of_nat (min (unat ?bc) (unat (io_bytes d s) - 0)) :: u16)"
  have sz: "unat sz = bit_bytes (io_bits d s)"
    using place_bytes_result(2) [OF n, of ?bc, folded sz_def] assms(7,8) by simp
  have "0 < unat (io_bits d s)" using assms(6) by (simp add: unat_gt_0)
  then have nz: "io_bytes d s \<noteq> 0" using assms(7) by (auto simp: bit_bytes_def unat_eq_zero)
  let ?f = "?g\<lparr>LogStart := start, LogStartbit := 0, LogLength := sz, LogEndbit := 7\<rparr>"
  have place: "place_FMMU d s 0 ?bc L B ?g = (?f, start + ucast sz, 0, sz)"
    using place_bytes_result(1) [OF n, of ?bc L B ?g, folded sz_def] nz by (simp add: place_FMMU_def assms(9))
  have "ucast sz = io_bytes d s" using sz assms(7) by (simp add: word_unat_eq_iff)
  moreover have "covers d ((sl_FMMU s)(k := end_FMMU d ?f)) k (k + 1) start (0 + unat (LogLength ?f))"
    by (rule covers_next) simp_all
  moreover have "0 \<le> image_pos pIOmap grp (LogStart ?f) c" using image_pos_ok [OF assms(10)] by simp
  ultimately show ?thesis
    using io_laws.create_one [OF directions [OF assms(1)] assms(2,3), of slave, unfolded assms(4), OF assms(6) span place, of pIOmap grp] sz
    by (auto simp: runs_to_iff Let_def)
qed

text \<open>
  The data of a slave with whole bytes, all in the first sync manager of its type: the mapping returns
  and uses one FMMU, from the next whole logical byte on, of as many bytes as the data has.
\<close>

theorem byte_slave_mapped:
  assumes "d = input_dir \<or> d = output_dir" "net_ok E now (port c)" "k < EC_MAXFMMU" "slavelist c slave = s"
    and "first_SM d s j" "io_bits d s \<noteq> 0" "unat (io_bytes d s) = bit_bytes (io_bits d s)"
    and "bit_bytes (io_bits d s) \<le> unat (SMlength (sl_SM s j))"
    and "start = (if B = 0 then L else L + 1)" "grp = 0 \<or> gr_logstartaddr (grouplist c grp) \<le> start"
  shows "\<exists>c'. create_mappings d E pIOmap grp slave k (L, B, c) = Some (start + io_bytes d s, 0, c') \<and>
    (let s' = slavelist c' slave in unat (sl_FMMUunused s') = k + 1 \<and> (\<forall>i. i \<noteq> k \<longrightarrow> sl_FMMU s' i = sl_FMMU s i) \<and>
      PhysStart (sl_FMMU s' k) = StartAddr (sl_SM s j) \<and> covers d (sl_FMMU s') k (k + 1) start (bit_bytes (io_bits d s)))"
  by (rule byte_slave_runs [OF assms])

text \<open>
  C3: whatever sync managers a slave with whole bytes has, when the mapping returns then the FMMUs it used
  cover as many bytes as the data has, from the next whole logical byte on, one behind the other
  without gap or overlap; the others are as they were.
\<close>

theorem fmmus_cover_data:
  assumes "d = input_dir \<or> d = output_dir" "net_ok E now (port c)" "k \<le> EC_MAXFMMU" "slavelist c slave = s"
    and "io_bits d s \<noteq> 0" "unat (io_bytes d s) = bit_bytes (io_bits d s)"
    and "create_mappings d E pIOmap grp slave k (L, B, c) = Some (L', B', c')"
  shows "let start = (if B \<noteq> 0 then L + 1 else L); s' = slavelist c' slave; k' = unat (sl_FMMUunused s') in
    L' = start + io_bytes d s \<and> B' = 0 \<and> k < k' \<and> k' \<le> EC_MAXFMMU \<and>
    covers d (sl_FMMU s') k k' start (bit_bytes (io_bits d s)) \<and> (\<forall>j. j < k \<or> k' \<le> j \<longrightarrow> sl_FMMU s' j = sl_FMMU s j)"
proof -
  have "0 < unat (io_bits d s)" using assms(5) by (simp add: unat_gt_0)
  then have nz: "io_bytes d s \<noteq> 0" using assms(6) by (auto simp: bit_bytes_def unat_eq_zero)
  note cc = io_laws.create_covers [where slave = slave and c = c and k = k and L = L and B = B and grp = grp and pIOmap = pIOmap,
      OF directions [OF assms(1)] assms(2), unfolded assms(4), OF nz assms(6,3)]
  show ?thesis using cc by (simp add: assms(7) Let_def flip: assms(6))
qed

lemma SM_end_less:
  assumes "unat (StartAddr m) + unat (SMlength m) < unat (StartAddr m')"
  shows "StartAddr m' > SM_end m"
proof -
  have "unat (StartAddr m) + unat (SMlength m) < 65536"
    using assms unat_u16_lt [of "StartAddr m'"] by linarith
  then have "unat (SM_end m) = unat (StartAddr m) + unat (SMlength m)" by (simp add: SM_end_def unat_plus_if')
  then show ?thesis using assms by (simp add: word_less_nat_alt)
qed

text \<open>A span ends at the next sync manager when that one does not connect.\<close>

lemma fmmu_span_gap:
  assumes "j < EC_MAXSM - 1" "sl_SMtype s j = io_SMtype d" "sl_SMtype s j' = io_SMtype d" "j' = Suc j" "\<forall>i \<in> {SMc..<j}. sl_SMtype s i \<noteq> io_SMtype d"
    and "SMc \<le> j" "StartAddr (sl_SM s j') > SM_end (sl_SM s j)" "n + uint (SMlength (sl_SM s j)) * 8 < uint (io_bits d s)"
  shows "fmmu_span d s SMc b n = (j, j', b + SMlength (sl_SM s j), n + uint (SMlength (sl_SM s j)) * 8)"
proof -
  have "next_SM (io_SMtype d) (sl_SMtype s) SMc = j" "next_SM (io_SMtype d) (sl_SMtype s) (Suc j) = j'"
    using assms(1-6) by (auto intro!: next_SM_first)
  moreover from this have "join_SM d s j b' (n + uint (SMlength (sl_SM s j)) * 8) (SM_end (sl_SM s j)) =
      (j', b', n + uint (SMlength (sl_SM s j)) * 8)" for b'
    using assms(1,4,7,8) by (subst join_SM.simps) (simp add: Let_def)
  ultimately show ?thesis by (simp add: fmmu_span_def Let_def)
qed

text \<open>The state of a mapping after one more FMMU of a byte oriented slave.\<close>

context io_laws
begin

lemma byte_round:
  assumes c: "net_ok E now (port c)" "F < EC_MAXFMMU" and s: "same_data d s (slavelist c slave)"
    and bytes: "io_bytes d s \<noteq> 0" "unat (io_bytes d s) \<le> 8192" "m \<le> unat (io_bytes d s)"
    and span: "fmmu_span d s SMc bc n = (j, SMc', bc', n')"
    and pos: "grp = 0 \<or> gr_logstartaddr (grouplist c grp) \<le> (if B \<noteq> 0 then L + 1 else L)"
  defines "sz \<equiv> (of_nat (min (unat bc') (unat (io_bytes d s) - m)) :: u16)"
  shows "\<exists>c1. map_round d E pIOmap grp slave (SMc, F, int m, bc, n, L, B, added, c) =
      Some (SMc', F + 1, int (m + unat sz), bc', n', (if B \<noteq> 0 then L + 1 else L) + ucast sz, 0, added \<or> sz \<noteq> 0, c1) \<and>
    exchange_ok E now (port c) (port c1) \<and> grouplist c1 = grouplist c \<and> same_data d s (slavelist c1 slave) \<and>
    sl_FMMU (slavelist c1 slave) = (sl_FMMU (slavelist c slave))(F := end_FMMU d ((sl_FMMU (slavelist c slave) F)\<lparr>
      PhysStart := StartAddr (sl_SM s j), LogStart := (if B \<noteq> 0 then L + 1 else L), LogStartbit := 0, LogLength := sz, LogEndbit := 7\<rparr>))"
proof -
  let ?s = "slavelist c slave"
  let ?g = "(sl_FMMU ?s F)\<lparr>PhysStart := StartAddr (sl_SM ?s j)\<rparr>"
  define h where "h = ?g\<lparr>LogStart := (if B \<noteq> 0 then L + 1 else L), LogStartbit := 0, LogLength := sz, LogEndbit := 7\<rparr>"
  have eq: "io_bytes d ?s = io_bytes d s" "sl_SM ?s = sl_SM s" "fmmu_span d ?s SMc bc n = (j, SMc', bc', n')"
  proof -
    have "join_SM d ?s k b e a = join_SM d s k b e a" for k b e a
      using s by (induction d s k b e a rule: join_SM.induct) (subst (1 2) join_SM.simps, simp add: same_data_def Let_def)
    then show "io_bytes d ?s = io_bytes d s" "sl_SM ?s = sl_SM s" "fmmu_span d ?s SMc bc n = (j, SMc', bc', n')"
      using s span by (auto simp: same_data_def fmmu_span_def Let_def)
  qed
  have place: "place_FMMU d ?s (int m) bc' L B ?g = (h, (if B \<noteq> 0 then L + 1 else L) + ucast sz, 0, sz)"
    using place_bytes_result(1) [OF bytes(2,3), of bc' L B ?g, folded sz_def] bytes(1) by (simp add: place_FMMU_def eq(1) h_def)
  have "\<not> (io_ptr d ?s = None \<and> image_pos pIOmap grp (LogStart h) c < 0)"
    using image_pos_ok [OF pos, of pIOmap] by (auto simp: not_less h_def)
  with round_result [OF c eq(3) place, of pIOmap grp added] obtain c1 where
    "map_round d E pIOmap grp slave (SMc, F, int m, bc, n, L, B, added, c) =
      Some (SMc', F + 1, int m + uint sz, bc', n', (if B \<noteq> 0 then L + 1 else L) + ucast sz, 0, added \<or> LogLength h \<noteq> 0, c1)"
    "exchange_ok E now (port c) (port c1)" "grouplist c1 = grouplist c" "same_data d ?s (slavelist c1 slave)"
    "sl_FMMU (slavelist c1 slave) = (sl_FMMU ?s)(F := end_FMMU d h)"
    by (simp only: if_not_P if_False) blast
  then show ?thesis using s by (intro exI [of _ c1]) (auto simp: eq(2) h_def intro: same_data_trans)
qed

end


lemma bit_bytes_mult [simp]: "unat b = 8 * n \<Longrightarrow> bit_bytes b = n"
  by (simp add: bit_bytes_def)

text \<open>
  The byte count is not reset between the FMMUs. A slave has three sync managers of one direction whose
  memories do not connect, the third not longer than the first: the second FMMU is programmed to
  reach behind the second sync manager, for as many bytes as the second and the third have, and the
  third sync manager gets no FMMU at all.
\<close>

theorem third_SM_not_mapped:
  assumes "d = input_dir \<or> d = output_dir" "net_ok E now (port c)" "k + 1 < EC_MAXFMMU" "slavelist c slave = s"
    and "first_SM d s 2" "sl_SMtype s 3 = io_SMtype d" "sl_SMtype s 4 = io_SMtype d"
    and lens: "l2 = unat (SMlength (sl_SM s 2))" "l3 = unat (SMlength (sl_SM s 3))" "l4 = unat (SMlength (sl_SM s 4))"
    and "0 < l3" "0 < l4" "l4 \<le> l2" "unat (io_bits d s) = 8 * (l2 + l3 + l4)" "unat (io_bytes d s) = l2 + l3 + l4"
    and "unat (StartAddr (sl_SM s 2)) + l2 < unat (StartAddr (sl_SM s 3))"
    and "unat (StartAddr (sl_SM s 3)) + l3 < unat (StartAddr (sl_SM s 4))"
    and "grp = 0" "B = 0" 
  shows "\<exists>L' c'. create_mappings d E pIOmap grp slave k (L, B, c) = Some (L', 0, c') \<and>
    (let s' = slavelist c' slave; f = sl_FMMU s' (k + 1) in unat (sl_FMMUunused s') = k + 2 \<and>
      PhysStart f = StartAddr (sl_SM s 3) \<and> unat (LogLength f) = l3 + l4 \<and>
      (\<forall>i \<in> {k..<k + 2}. PhysStart (sl_FMMU s' i) \<noteq> StartAddr (sl_SM s 4)))"
proof -
  let ?m2 = "sl_SM s 2" and ?m3 = "sl_SM s 3" and ?m4 = "sl_SM s 4" and ?N = "l2 + l3 + l4"
  note laws = directions [OF assms(1)]
  have N: "8 * ?N < 65536" using assms(14) unat_u16_lt [of "io_bits d s"] by simp
  have uint: "uint (io_bits d s) = int (8 * ?N)" "uint (SMlength ?m2) = int l2" "uint (SMlength ?m3) = int l3"
    using assms(14) by (simp_all add: uint_nat lens del: of_nat_unat)
  have ty: "\<forall>i < 2. sl_SMtype s i \<noteq> io_SMtype d" "sl_SMtype s 2 = io_SMtype d" using assms(5) by (simp_all add: first_SM_def)
  have 1: "fmmu_span d s 0 0 0 = (2, 3, 0 + SMlength ?m2, 0 + uint (SMlength ?m2) * 8)"
    by (rule fmmu_span_gap) (use ty assms(6,11,16) SM_end_less [of ?m2 ?m3] in \<open>simp_all add: lens(1) [symmetric] uint\<close>)
  have 2: "fmmu_span d s 3 (0 + SMlength ?m2) (0 + uint (SMlength ?m2) * 8) =
      (3, 4, 0 + SMlength ?m2 + SMlength ?m3, 0 + uint (SMlength ?m2) * 8 + uint (SMlength ?m3) * 8)"
    by (rule fmmu_span_gap) (use assms(6,7,12,17) SM_end_less [of ?m3 ?m4] in \<open>simp_all add: lens(2) [symmetric] uint\<close>)
  have nz: "io_bytes d s \<noteq> 0" using assms(11,15) by auto
  have b: "unat (io_bytes d s) \<le> 8192" using assms(15) N by simp
  have sum: "unat (0 + SMlength ?m2 + SMlength ?m3) = l2 + l3" "unat (0 + SMlength ?m2) = l2"
    using N by (simp_all add: lens unat_plus_if')
  have sz: "min (unat (0 + SMlength ?m2)) (unat (io_bytes d s) - 0) = l2"
    "min (unat (0 + SMlength ?m2 + SMlength ?m3)) (unat (io_bytes d s) - l2) = l3 + l4"
    unfolding sum assms(15) using assms(13) by simp_all
  have u: "unat (of_nat l2 :: u16) = l2" "unat (of_nat (l3 + l4) :: u16) = l3 + l4" using N by (simp_all add: unat_of_nat_u16 del: of_nat_add)
  have s: "same_data d s (slavelist c slave)" by (simp add: assms(4))
  have "k < EC_MAXFMMU" using assms(3) by simp
  from io_laws.byte_round [OF laws assms(2) this s nz b _ 1, where m = 0 and grp = grp and B = B and L = L and added = False and pIOmap = pIOmap, unfolded sz u]
  obtain c1 where c1: "map_round d E pIOmap grp slave (0, k, int 0, 0, 0, L, B, False, c) =
      Some (3, k + 1, int (0 + l2), 0 + SMlength ?m2, 0 + uint (SMlength ?m2) * 8, L + ucast (of_nat l2 :: u16), 0,
        False \<or> (of_nat l2 :: u16) \<noteq> 0, c1)"
    "exchange_ok E now (port c) (port c1)" "same_data d s (slavelist c1 slave)" "PhysStart (sl_FMMU (slavelist c1 slave) k) = StartAddr ?m2"
    using assms(18,19) by auto
  have "l2 \<le> unat (io_bytes d s)" by (simp add: assms(15))
  from io_laws.byte_round [OF laws exchange_ok_net [OF c1(2)] assms(3) c1(3) nz b this 2, where grp = grp and B = 0 and pIOmap = pIOmap
      and L = "L + ucast (of_nat l2 :: u16)" and added = "(of_nat l2 :: u16) \<noteq> 0", unfolded sz u]
  obtain c2 L2 where c2: "map_round d E pIOmap grp slave (3, k + 1, int l2, 0 + SMlength ?m2, 0 + uint (SMlength ?m2) * 8,
        L + ucast (of_nat l2 :: u16), 0, (of_nat l2 :: u16) \<noteq> 0, c1) =
      Some (4, k + 1 + 1, int (l2 + (l3 + l4)), 0 + SMlength ?m2 + SMlength ?m3, 0 + uint (SMlength ?m2) * 8 + uint (SMlength ?m3) * 8, L2, 0,
        (of_nat l2 :: u16) \<noteq> 0 \<or> (of_nat (l3 + l4) :: u16) \<noteq> 0, c2)"
    "same_data d s (slavelist c2 slave)" "PhysStart (sl_FMMU (slavelist c2 slave) (k + 1)) = StartAddr ?m3"
    "LogLength (sl_FMMU (slavelist c2 slave) (k + 1)) = of_nat (l3 + l4)"
    "sl_FMMU (slavelist c2 slave) k = sl_FMMU (slavelist c1 slave) k"
    using assms(18) by auto
  let ?W = "while_do (map_more d slave) (map_round d E pIOmap grp slave)"
  have more: "map_more d slave (a, F, int m, bc, n, L', B', ad, c') \<longleftrightarrow> a < EC_MAXSM \<and> m < l2 + l3 + l4"
    if "same_data d s (slavelist c' slave)" for a F m bc n L' B' ad c'
    using that bit_bytes_mult [OF assms(14)] by (simp add: map_more_def same_data_def)
  have "?W (0, k, int 0, 0, 0, L, B, False, c) = ?W (3, k + 1, int (0 + l2), 0 + SMlength ?m2, 0 + uint (SMlength ?m2) * 8,
      L + ucast (of_nat l2 :: u16), 0, False \<or> (of_nat l2 :: u16) \<noteq> 0, c1)"
    using more [OF s] assms(11) by (subst while_do.simps) (simp only: c1(1) Option.bind.bind_lunit, simp)
  also have "\<dots> = ?W (3, k + 1, int l2, 0 + SMlength ?m2, 0 + uint (SMlength ?m2) * 8, L + ucast (of_nat l2 :: u16), 0, (of_nat l2 :: u16) \<noteq> 0, c1)"
    by (simp only: add_0 simp_thms)
  also have "\<dots> = ?W (4, k + 1 + 1, int (l2 + (l3 + l4)), 0 + SMlength ?m2 + SMlength ?m3, 0 + uint (SMlength ?m2) * 8 + uint (SMlength ?m3) * 8, L2, 0,
        (of_nat l2 :: u16) \<noteq> 0 \<or> (of_nat (l3 + l4) :: u16) \<noteq> 0, c2)"
    using more [OF c1(3)] assms(11) by (subst while_do.simps) (simp only: c2(1) Option.bind.bind_lunit, simp)
  also have "\<dots> = Some (4, k + 1 + 1, int (l2 + (l3 + l4)), 0 + SMlength ?m2 + SMlength ?m3, 0 + uint (SMlength ?m2) * 8 + uint (SMlength ?m3) * 8, L2, 0,
        (of_nat l2 :: u16) \<noteq> 0 \<or> (of_nat (l3 + l4) :: u16) \<noteq> 0, c2)"
    using more [OF c2(2)] by (subst while_do.simps) (simp only:, simp)
  finally have run: "?W (0, k, 0, 0, 0, L, B, False, c) = Some (4, k + 2, int (l2 + (l3 + l4)), 0 + SMlength ?m2 + SMlength ?m3,
      0 + uint (SMlength ?m2) * 8 + uint (SMlength ?m3) * 8, L2, 0, (of_nat l2 :: u16) \<noteq> 0 \<or> (of_nat (l3 + l4) :: u16) \<noteq> 0, c2)"
    by simp
  have k2: "unat (of_nat (k + 2) :: u8) = k + 2" using assms(3) unat_of_nat [of "k + 2", where 'a = 8] by (simp add: take_bit_nat_eq_self)
  have neq: "StartAddr ?m2 \<noteq> StartAddr ?m4" "StartAddr ?m3 \<noteq> StartAddr ?m4" using assms(16,17) by auto
  have "PhysStart (sl_FMMU (slavelist c2 slave) i) \<noteq> StartAddr ?m4" if "i \<in> {k..<k + 2}" for i
    using that c1(4) c2(3,5) neq by (cases "i = k") (auto simp: less_Suc_eq)
  then show ?thesis
    using c2(3,4) u(2) k2 unfolding create_mappings_def run prod.case Option.bind.bind_lunit Let_def
    by (auto simp: upd_group_def simp del: of_nat_add)
qed

section \<open>Witnesses of the FMMUs\<close>

text \<open>
  A slave with three bits of outputs; one with twelve bytes of inputs; one with three sync managers of
  four bytes of outputs each that do not connect.
\<close>

definition bit_slave :: ec_slavet where
  "bit_slave = zero_slave\<lparr>sl_Obits := 3, sl_SMtype := (\<lambda>_. 0)(0 := 3), sl_SM := (\<lambda>_. \<lparr>StartAddr = 0x0f00, SMlength = 1, SMflags = 0\<rparr>)\<rparr>"

definition byte_slave :: ec_slavet where
  "byte_slave = zero_slave\<lparr>sl_Ibits := 96, sl_Ibytes := 12, sl_SMtype := (\<lambda>_. 0)(3 := 4),
     sl_SM := (\<lambda>_. \<lparr>StartAddr = 0x1100, SMlength = 12, SMflags = 0\<rparr>)\<rparr>"

definition gap_slave :: ec_slavet where
  "gap_slave = zero_slave\<lparr>sl_Obits := 96, sl_Obytes := 12, sl_SMtype := (\<lambda>_. 0)(2 := 3, 3 := 3, 4 := 3),
     sl_SM := (\<lambda>k. \<lparr>StartAddr = 0x1000 + of_nat (16 * k), SMlength = 4, SMflags = 0\<rparr>)\<rparr>"

definition one_slave :: "ec_slavet \<Rightarrow> (nat \<times> u8 list list) ecx_contextt" where
  "one_slave s = upd_slave 1 (\<lambda>_. s) io_ctx"

lemma one_slave_ok: "net_ok script_os (\<lambda>(t, q). t * 1000) (port (one_slave s))" "slavelist (one_slave s) 1 = s"
  "slavelist (one_slave s) (Suc 0) = s"
  using io_ctx_ok(1) by (simp_all add: one_slave_def)

theorem bit_slave_mapped_witness:
  "\<exists>L' B' c'. create_mappings output_dir script_os 0 0 1 0 (5, 6, one_slave bit_slave) = Some (L', B', c') \<and>
     bit_pos L' B' = 49"
proof -
  have "first_SM output_dir bit_slave 0" by (simp add: first_SM_def output_dir_def bit_slave_def)
  moreover have "SMlength (sl_SM bit_slave 0) \<noteq> 0" "io_bytes output_dir bit_slave = 0" "unat (io_bits output_dir bit_slave) = 3"
    by (simp_all add: output_dir_def bit_slave_def zero_slave_def)
  ultimately show ?thesis
    using bit_slave_mapped [where d = output_dir and k = 0 and c = "one_slave bit_slave" and slave = 1 and s = bit_slave and j = 0
        and B = 6 and L = 5 and grp = 0 and pIOmap = 0, OF _ one_slave_ok(1)]
    by (auto simp: one_slave_ok bit_pos_def Let_def)
qed

theorem byte_slave_mapped_witness:
  "\<exists>c'. create_mappings input_dir script_os 0 0 1 1 (5, 3, one_slave byte_slave) = Some (18, 0, c') \<and>
     covers input_dir (sl_FMMU (slavelist c' 1)) 1 (1 + 1) 6 12"
proof -
  have "first_SM input_dir byte_slave 3" by (simp add: first_SM_def input_dir_def byte_slave_def zero_slave_def)
  moreover have "io_bits input_dir byte_slave = 96" "io_bytes input_dir byte_slave = 12" "SMlength (sl_SM byte_slave 3) = 12"
    "bit_bytes 96 = 12"
    by (simp_all add: input_dir_def byte_slave_def bit_bytes_def)
  ultimately show ?thesis
    using byte_slave_mapped [where d = input_dir and k = 1 and c = "one_slave byte_slave" and slave = 1 and s = byte_slave and j = 3
        and B = 3 and L = 5 and start = 6 and grp = 0 and pIOmap = 0, OF _ one_slave_ok(1)]
    by (auto simp: one_slave_ok Let_def)
qed

theorem fmmus_cover_data_witness:
  "\<exists>L' B' c'. create_mappings input_dir script_os 0 0 1 0 (5, 0, one_slave byte_slave) = Some (L', B', c') \<and>
     covers input_dir (sl_FMMU (slavelist c' 1)) 0 (unat (sl_FMMUunused (slavelist c' 1))) 5 12"
proof -
  have s: "first_SM input_dir byte_slave 3" "io_bits input_dir byte_slave = 96" "io_bytes input_dir byte_slave = 12"
    "SMlength (sl_SM byte_slave 3) = 12" "bit_bytes 96 = 12"
    by (simp_all add: first_SM_def input_dir_def byte_slave_def zero_slave_def bit_bytes_def)
  then obtain c' where c': "create_mappings input_dir script_os 0 0 1 0 (5, 0, one_slave byte_slave) = Some (17, 0, c')"
    using byte_slave_runs [where d = input_dir and k = 0 and c = "one_slave byte_slave" and slave = 1 and s = byte_slave and j = 3
        and B = 0 and L = 5 and start = 5 and grp = 0 and pIOmap = 0, OF _ one_slave_ok(1)]
    by (auto simp: one_slave_ok Let_def)
  from fmmus_cover_data [OF _ one_slave_ok(1) _ one_slave_ok(2) _ _ c'] s show ?thesis
    by (auto simp: c' [simplified] Let_def)
qed

theorem third_SM_not_mapped_witness:
  "\<exists>L' c'. create_mappings output_dir script_os 0 0 1 0 (0, 0, one_slave gap_slave) = Some (L', 0, c') \<and>
     unat (LogLength (sl_FMMU (slavelist c' 1) 1)) = 8 \<and> unat (sl_FMMUunused (slavelist c' 1)) = 2"
proof -
  have "first_SM output_dir gap_slave 2" "sl_SMtype gap_slave 3 = io_SMtype output_dir" "sl_SMtype gap_slave 4 = io_SMtype output_dir"
    by (simp_all add: first_SM_def output_dir_def gap_slave_def zero_slave_def)
  moreover have "unat (io_bits output_dir gap_slave) = 96" "unat (io_bytes output_dir gap_slave) = 12"
    "\<And>k. unat (SMlength (sl_SM gap_slave k)) = 4" "StartAddr (sl_SM gap_slave 2) = 0x1020" "StartAddr (sl_SM gap_slave 3) = 0x1030"
    "StartAddr (sl_SM gap_slave 4) = 0x1040"
    by (simp_all add: output_dir_def gap_slave_def)
  ultimately have "\<exists>L' c'. create_mappings output_dir script_os 0 0 1 0 (0, 0, one_slave gap_slave) = Some (L', 0, c') \<and>
    (let s' = slavelist c' 1; f = sl_FMMU s' (0 + 1) in unat (sl_FMMUunused s') = 0 + 2 \<and>
      PhysStart f = StartAddr (sl_SM gap_slave 3) \<and> unat (LogLength f) = 4 + 4 \<and>
      (\<forall>i \<in> {0..<0 + 2}. PhysStart (sl_FMMU s' i) \<noteq> StartAddr (sl_SM gap_slave 4)))"
    by (intro third_SM_not_mapped [where ?l2.0 = 4, OF _ one_slave_ok(1)]) (simp_all add: one_slave_ok)
  then show ?thesis by (auto simp: Let_def)
qed

end
