(* ===== verification/Segments.thy ===== *)
theory Segments
  imports Fmmu
begin

text \<open>
  The segments of the process image of a group, \<open>ecx_main_config_map_group\<close> of \<open>ethercatconfig.c\<close>.
  The definitions are in \<open>IoMap\<close>; this theory shows that a predicate of the master that the network, the caches and the
  updates of slaves keep is kept by all readers of a mapping (CoE, SoE and EEPROM), how far one slave moves the
  logical address, and that the recorded segments hold exactly the outputs and the inputs of the group.
\<close>

section \<open>Reading the sizes keeps the groups\<close>

text \<open>
  An invariant of the context that the reading of the data sizes keeps: \<open>config_inv\<close> with the structures
  that complete access reads into, a slave list of \<open>M\<close> entries and hooks of the application that are in order.
\<close>

locale map_inv = config_inv E now I for E :: "'e os_ops" and now :: "'e \<Rightarrow> nat" and I :: "'e ecx_contextt \<Rightarrow> bool" +
  fixes hook :: "'e eoe_hook" and M :: nat
  assumes hook_law: "I c \<Longrightarrow> good_hook E now hook"
    and max_law: "I c \<Longrightarrow> maxslave c = M"
    and pdo_law: "I c \<Longrightarrow> I (c\<lparr>SMcommtype := sc\<rparr>)" "I c \<Longrightarrow> I (c\<lparr>PDOassign := pa\<rparr>)" "I c \<Longrightarrow> I (c\<lparr>PDOdesc := pd\<rparr>)"
begin

lemma sdo_inv [inv_rules]:
  assumes "I c" "slave < M" "\<And>w n b c'. I c' \<Longrightarrow> Q (w, n, b, c')"
  shows "if_runs (coe_reader E hook slave i j CA n b c) Q"
proof -
  have "link_step E now hook slave c c"
    using assms(1,2) hook_law [OF assms(1)] max_law ctx_step_refl [OF ok_law [OF assms(1)]] by (simp add: link_step_def)
  from ecx.read_partial [OF this] show ?thesis
    unfolding coe_reader_def ecx_SDOread_def
    by (rule if_runs_mono) (auto simp: link_step_def intro: assms(3) step_law [OF assms(1)])
qed

lemma fold_inv:
  "I c \<Longrightarrow> (\<And>i b c. I c \<Longrightarrow> if_runs (f i (b, c)) (\<lambda>(b, c). I c)) \<Longrightarrow> (\<And>b c. I c \<Longrightarrow> Q (b, c)) \<Longrightarrow>
     if_runs (foldM f is (b, c)) Q"
  "I c \<Longrightarrow> (\<And>i x y z c. I c \<Longrightarrow> if_runs (g i (x, y, z, c)) (\<lambda>(x, y, z, c). I c)) \<Longrightarrow> (\<And>x y z c. I c \<Longrightarrow> R (x, y, z, c)) \<Longrightarrow>
     if_runs (foldM g is (x, y, z, c)) R"
  by (rule foldM_inv [where I = "\<lambda>(b, c). I c"]; auto)
    (rule foldM_inv [where I = "\<lambda>(x, y, z, c). I c"]; auto)

lemma pdo_bits_inv [inv_rules]:
  "I c \<Longrightarrow> slave < M \<Longrightarrow> (\<And>x c'. I c' \<Longrightarrow> Q (x, c')) \<Longrightarrow> if_runs (pdo_bits (coe_reader E hook slave) idx (b, c)) Q"
  by (auto simp: pdo_bits_def Let_def simp del: upt_Suc intro!: inv_rules fold_inv(1))

lemma assign_step_inv [inv_rules]:
  "I c \<Longrightarrow> slave < M \<Longrightarrow> (\<And>k b c'. I c' \<Longrightarrow> Q (k, b, c')) \<Longrightarrow> if_runs (assign_step (coe_reader E hook slave) assign (k, b, c)) Q"
  by (auto simp: assign_step_def Let_def intro!: inv_rules)

lemma assign_inv [inv_rules]:
  assumes "I c" "slave < M" "\<And>x c'. I c' \<Longrightarrow> Q (x, c')"
  shows "if_runs (readPDOassign (coe_reader E hook slave) assign c) Q"
proof -
  have "if_runs (while_do (\<lambda>(idxloop, bsize, c). idxloop \<le> n) (assign_step (coe_reader E hook slave) assign) (1, 0, c'))
      (\<lambda>(k, b, c). Q (b, c))" if "I c'" for c' n
    by (rule while_do_partial [where I = "\<lambda>(k, b, c). I c"]) (use that assms(2,3) in \<open>auto intro!: inv_rules\<close>)
  then show ?thesis
    using assms(1,2) by (auto simp: readPDOassign_def Let_def intro!: inv_rules assms(3))
qed

lemma assignCA_inv [inv_rules]:
  "I c \<Longrightarrow> slave < M \<Longrightarrow> (\<And>x c'. I c' \<Longrightarrow> Q (x, c')) \<Longrightarrow> if_runs (ecx_readPDOassignCA E hook slave n assign c) Q"
  by (auto simp: ecx_readPDOassignCA_def Let_def simp del: upt_Suc intro!: inv_rules pdo_law fold_inv(1))

lemma map_sm_inv [inv_rules]:
  assumes "I c" "\<And>a c' P. I c' \<Longrightarrow> (\<And>x c''. I c'' \<Longrightarrow> P (x, c'')) \<Longrightarrow> if_runs (assign a c') P" "\<And>x y c'. I c' \<Longrightarrow> Q (x, y, c')"
  shows "if_runs (map_sm slave assign i t (x, y, c)) Q"
  using assms(1) by (auto simp: map_sm_def Let_def intro!: assms(2,3) inv_rules)

lemma readPDOmap_inv [inv_rules]:
  "I c \<Longrightarrow> slave < M \<Longrightarrow> (\<And>w x y c'. I c' \<Longrightarrow> Q (w, x, y, c')) \<Longrightarrow> if_runs (ecx_readPDOmap E hook slave c) Q"
  by (auto simp: ecx_readPDOmap_def readPDOmap_def Let_def simp del: upt_Suc intro!: inv_rules fold_inv(2))

lemma packeterror_inv [inv_rules]:
  assumes "I c" "\<And>c'. I c' \<Longrightarrow> Q c'"
  shows "if_runs (ecx_packeterror E s i j w c) Q"
  by (rule if_runs_mono [OF runs_to_if_runs [OF report_steps(1) [OF ok_law [OF assms(1)]]]]) (auto intro: assms(2) step_law [OF assms(1)])

lemma readPDOmapCA_inv [inv_rules]:
  assumes "I c" "slave < M" "\<And>w x y c'. I c' \<Longrightarrow> Q (w, x, y, c')"
  shows "if_runs (ecx_readPDOmapCA E hook slave n c) Q"
  using assms(1,2) by (auto simp: ecx_readPDOmapCA_def Let_def simp del: upt_Suc intro!: assms(3) inv_rules pdo_law fold_inv(2))

end

context map_inv
begin

lemma soe_inv [inv_rules]:
  assumes "I c" "slave < M" "\<And>w n b c'. I c' \<Longrightarrow> Q (w, n, b, c')"
  shows "if_runs (soe_reader E hook slave dn ef idn n b c) Q"
proof -
  have "link_step E now hook slave c c"
    using assms(1,2) hook_law [OF assms(1)] max_law ctx_step_refl [OF ok_law [OF assms(1)]] by (simp add: link_step_def)
  from ecx_soe.soe_read_partial [OF this] show ?thesis
    unfolding soe_reader_def ecx_SoEread_def
    by (rule if_runs_mono) (auto simp: link_step_def intro: assms(3) step_law [OF assms(1)])
qed

lemma fold3_inv:
  "I c \<Longrightarrow> (\<And>i x y c. I c \<Longrightarrow> if_runs (f i (x, y, c)) (\<lambda>(x, y, c). I c)) \<Longrightarrow> (\<And>x y c. I c \<Longrightarrow> Q (x, y, c)) \<Longrightarrow>
     if_runs (foldM f is (x, y, c)) Q"
  "I c \<Longrightarrow> (\<And>i x y z w c. I c \<Longrightarrow> if_runs (g i (x, y, z, w, c)) (\<lambda>(x, y, z, w, c). I c)) \<Longrightarrow>
     (\<And>x y z w c. I c \<Longrightarrow> R (x, y, z, w, c)) \<Longrightarrow> if_runs (foldM g is (x, y, z, w, c)) R"
  by (rule foldM_inv [where I = "\<lambda>(x, y, c). I c"]; auto)
    (rule foldM_inv [where I = "\<lambda>(x, y, z, w, c). I c"]; auto)

lemma idn_bits_inv [inv_rules]:
  "I c \<Longrightarrow> slave < M \<Longrightarrow> (\<And>x m a c'. I c' \<Longrightarrow> Q (x, m, a, c')) \<Longrightarrow> if_runs (idn_bits (soe_reader E hook slave) dn cfg (x, m, a, c)) Q"
  by (auto simp: idn_bits_def Let_def intro!: inv_rules fold3_inv(1))

lemma readIDNmap_inv [inv_rules]:
  "I c \<Longrightarrow> slave < M \<Longrightarrow> (\<And>w x y c'. I c' \<Longrightarrow> Q (w, x, y, c')) \<Longrightarrow> if_runs (ecx_readIDNmap E hook m a slave c) Q"
  by (auto simp: ecx_readIDNmap_def readIDNmap_def simp del: upt_rec_numeral intro!: inv_rules fold3_inv(2))

lemma coe_soe_inv [inv_rules]:
  assumes "I c" "slave < M" "\<And>s c. I c \<Longrightarrow> if_runs (po2so s c) I" "\<And>x c'. I c' \<Longrightarrow> Q (x, c')"
  shows "if_runs (ecx_map_coe_soe E hook po2so stk slave n c) Q"
proof -
  have hook: "if_runs (po2so slave c) P" if "I c" "\<And>c'. I c' \<Longrightarrow> P c'" for c P
    by (rule if_runs_mono [OF assms(3) [OF that(1)] that(2)])
  show ?thesis
    using assms(1,2) by (auto simp: ecx_map_coe_soe_def set_bits_def Let_def intro!: inv_rules hook assms(4))
qed

lemma sii_pdo_inv [inv_rules]:
  assumes "I c" "\<And>p a cw sz c'. I c' \<Longrightarrow> Q (p, a, cw, sz, c')"
  shows "if_runs (do_while (sii_pdo (ecx_siigetbyte E slave)) (p, a, cw, sz, c)) Q"
  by (rule do_while_partial [where I = "\<lambda>(p, a, cw, sz, c). I c"])
    (use assms in \<open>auto simp: sii_pdo_def Let_def intro!: inv_rules\<close>)

lemma siiPDO_inv [inv_rules]:
  "I c \<Longrightarrow> (\<And>x y c'. I c' \<Longrightarrow> Q (x, y, c')) \<Longrightarrow> if_runs (ecx_siiPDO E slave p t c) Q"
  by (auto simp: ecx_siiPDO_def Let_def intro!: inv_rules)

lemma sm_lengths_fields [simp]:
  "sl_parent (sii_SM_lengths p t s) = sl_parent s" "sl_group (sii_SM_lengths p t s) = sl_group s"
proof -
  have "sl_parent (foldl f s ks) = sl_parent s \<and> sl_group (foldl f s ks) = sl_group s"
    if "\<And>s k. sl_parent (f s k) = sl_parent s \<and> sl_group (f s k) = sl_group s" for f :: "ec_slavet \<Rightarrow> nat \<Rightarrow> ec_slavet" and s ks
    using that by (induction ks arbitrary: s) simp_all
  then show "sl_parent (sii_SM_lengths p t s) = sl_parent s" "sl_group (sii_SM_lengths p t s) = sl_group s"
    unfolding sii_SM_lengths_def by simp_all
qed

lemma map_sii_inv [inv_rules]:
  assumes "I c" "\<And>x c'. I c' \<Longrightarrow> Q (x, c')"
  shows "if_runs (ecx_map_sii E slave c) Q"
proof -
  have "I (snd (snd (snd (ecx_lookup_mapping slave O1 I1 c))))" for O1 I1
    using assms(1) by (auto simp: ecx_lookup_mapping_def Let_def intro!: inv_rules)
  then show ?thesis
    using assms(1) by (auto simp: ecx_map_sii_def set_bits_def Let_def split_beta intro!: assms(2) inv_rules)
qed

lemma program_SM_inv [inv_rules]:
  "I c \<Longrightarrow> (\<And>c'. I c' \<Longrightarrow> Q c') \<Longrightarrow> if_runs (program_SM E slave a k c) Q"
  by (auto simp: program_SM_def intro!: inv_rules)

lemma map_SMs_inv [inv_rules]:
  assumes "I c" "\<And>x c'. I c' \<Longrightarrow> Q (x, c')"
  shows "if_runs (ecx_map_sm E slave c) Q"
proof -
  have "sl_parent (set_bytes s) = sl_parent s" "sl_group (set_bytes s) = sl_group s" for s by (simp_all add: set_bytes_def Let_def)
  then have "if_runs (foldM (\<lambda>nSM c.
       if StartAddr (sl_SM (slavelist c slave) nSM) \<noteq> 0
       then program_SM E slave adr nSM (upd_slave slave (set_SM nSM enable_SM) c)
       else Some c) is c') (\<lambda>c. Q (1, upd_slave slave set_bytes c))" if "I c'" for c' adr "is"
    by (intro foldM_inv [where I = I]) (use that in \<open>auto intro!: inv_rules assms(2)\<close>)
  then show ?thesis
    using assms(1) by (auto simp: ecx_map_sm_def Let_def simp del: upt_rec_numeral intro!: inv_rules)
qed

lemma find_mappings_inv:
  assumes "I c" "slavecount c < M" "\<And>c. I c \<Longrightarrow> slavecount c < M" "\<And>s c. I c \<Longrightarrow> if_runs (po2so s c) I" "\<And>c'. I c' \<Longrightarrow> Q c'"
  shows "if_runs (ecx_config_find_mappings E hook po2so stk grp c) Q"
proof -
  have 1: "if_runs (each_slave (\<lambda>slave c. if in_group grp (slavelist c slave)
       then do { (_, c) \<leftarrow> ecx_map_coe_soe E hook po2so stk slave 0 c; Some c } else Some c) c) I"
    unfolding each_slave_def by (rule foldM_partial) (use assms(1,2,4) in \<open>auto intro!: inv_rules\<close>)
  have 2: "if_runs (each_slave (\<lambda>slave c. if in_group grp (slavelist c slave)
       then do { (_, c) \<leftarrow> ecx_map_sii E slave c; (_, c) \<leftarrow> ecx_map_sm E slave c; Some c } else Some c) c') Q" if "I c'" for c'
    unfolding each_slave_def by (rule foldM_inv [where I = I]) (use that assms(5) in \<open>auto intro!: inv_rules\<close>)
  show ?thesis
    unfolding ecx_config_find_mappings_def if_runs_simps by (rule if_runs_mono [OF 1 2])
qed

end

section \<open>How far the mapping of a slave goes\<close>

text \<open>An FMMU moves the logical address by less than 65538 bytes, so that the sizes of segments do not wrap around.\<close>

definition moved :: "nat \<Rightarrow> u32 \<Rightarrow> u32 \<Rightarrow> bool" where
  "moved n L L' \<longleftrightarrow> (\<exists>a \<le> n. L' = L + of_nat a)"

lemma moved_refl [simp]: "moved n L L"
  unfolding moved_def by (rule exI [of _ 0]) simp

lemma moved_trans: "moved m L L' \<Longrightarrow> moved n L' L'' \<Longrightarrow> moved (m + n) L L''"
proof -
  assume "moved m L L'" "moved n L' L''"
  then obtain a b where "a \<le> m" "b \<le> n" "L' = L + of_nat a" "L'' = L' + of_nat b" by (auto simp: moved_def)
  then show "moved (m + n) L L''" unfolding moved_def by (intro exI [of _ "a + b"]) simp
qed

lemma moved_mono: "moved m L L' \<Longrightarrow> m \<le> n \<Longrightarrow> moved n L L'"
  unfolding moved_def by (blast intro: order.trans)

lemma moved_next: "moved 1 L (L + 1)"
  unfolding moved_def by (rule exI [of _ 1]) simp

lemma moved_size: "moved 65535 L (L + ucast (w :: u16))"
proof -
  have "unat w \<le> 65535" using unat_u16_lt [of w] by linarith
  then show ?thesis unfolding moved_def by (intro exI [of _ "unat w"]) simp
qed

lemma moved_carry: "carry L B = (L', B') \<Longrightarrow> moved 1 L L'"
  using moved_next by (auto simp: carry_def split: if_splits)

lemma place_FMMU_moved:
  assumes "place_FMMU d s n bc L B f = (f', L', B', sz)"
  shows "moved 65536 L L'"
proof (cases "io_bytes d s = 0")
  case True
  obtain L1 B1 where 1: "carry L (B + ucast (io_bits d s - 1)) = (L1, B1)" by fastforce
  obtain L2 B2 where 2: "carry L1 (B1 + 1) = (L2, B2)" by fastforce
  have "L' = L2" using assms True 1 2 by (auto simp: place_FMMU_def place_bits_def Let_def)
  then show ?thesis using moved_mono [OF moved_trans [OF moved_carry [OF 1] moved_carry [OF 2]]] by simp
next
  case False
  define L1 where "L1 = (if B \<noteq> 0 then L + 1 else L)"
  have "moved 1 L L1" using moved_next by (simp add: L1_def)
  moreover have "L' = L1 + ucast sz" using assms False by (auto simp: place_FMMU_def place_bytes_def L1_def Let_def)
  ultimately show ?thesis using moved_trans [OF _ moved_size] by force
qed

context config_inv
begin

lemma program_FMMU_inv [inv_rules]:
  "I c \<Longrightarrow> (\<And>c'. I c' \<Longrightarrow> Q c') \<Longrightarrow> if_runs (program_FMMU E a k f c) Q"
  by (auto simp: program_FMMU_def intro!: inv_rules)

lemma map_round_moved:
  assumes d: "d = input_dir \<or> d = output_dir" and c: "I c"
  shows "if_runs (map_round d E pIOmap grp slave (SMc, F, n, bc, m, L, B, added, c))
    (\<lambda>(SMc', F', n', bc', m', L', B', added', c'). I c' \<and> F' = F + 1 \<and> F < EC_MAXFMMU \<and> moved 65536 L L')"
proof -
  let ?s = "slavelist c slave"
  obtain k SMc' bc' m' where span: "fmmu_span d ?s SMc bc m = (k, SMc', bc', m')" by (metis surj_pair)
  obtain f L' B' sz where place: "place_FMMU d ?s n bc' L B ((sl_FMMU ?s F)\<lparr>PhysStart := StartAddr (sl_SM ?s k)\<rparr>) = (f, L', B', sz)"
    by (metis surj_pair)
  have "sl_parent (io_place d a b s) = sl_parent s" "sl_group (io_place d a b s) = sl_group s" for a b s
    using d by (auto simp: input_dir_def output_dir_def)
  then show ?thesis
    using c place_FMMU_moved [OF place]
    by (auto simp: map_round_def span place Let_def intro!: inv_rules)
qed

lemma create_moved:
  assumes d: "d = input_dir \<or> d = output_dir" and c: "I c"
  shows "if_runs (create_mappings d E pIOmap grp slave k (L, B, c)) (\<lambda>(L', B', c'). moved 262144 L L' \<and>
    (\<exists>c1. I c1 \<and> (c' = c1 \<or> c' = upd_group grp (io_WKC d) c1)))"
  unfolding create_mappings_def prod.case if_runs_simps
proof (rule while_do_partial [where I = "\<lambda>(SMc, F, n, bc, m, L', B', added, c'). I c' \<and> k \<le> F \<and> F \<le> max k EC_MAXFMMU \<and>
      moved ((F - k) * 65536) L L'"], goal_cases)
  case (2 st)
  obtain SMc F n bc m L' B' added c' where st: "st = (SMc, F, n, bc, m, L', B', added, c')" by (metis surj_pair)
  with 2 have "I c'" by simp
  from map_round_moved [OF d this, of pIOmap grp slave SMc F n bc m L' B' added] show ?case
    unfolding st
  proof (rule if_runs_mono, goal_cases)
    case (1 r)
    have "(F - k) * 65536 + 65536 = (F + 1 - k) * 65536" using 2(1) by (simp add: st Suc_diff_le)
    then show ?case using 1 2(1) moved_trans [of "(F - k) * 65536" L L' 65536] by (auto simp: st)
  qed
next
  case (3 st)
  obtain SMc F n bc m L' B' added c' where st: "st = (SMc, F, n, bc, m, L', B', added, c')" by (metis surj_pair)
  have "F - k \<le> 4" using 3(1) by (auto simp: st)
  then have "moved 262144 L L'" using 3(1) moved_mono [of "(F - k) * 65536" L L' 262144] by (simp add: st)
  moreover have "I (upd_slave slave (\<lambda>s. s\<lparr>sl_FMMUunused := of_nat F\<rparr>) c')" using 3(1) by (auto simp: st intro!: inv_rules)
  ultimately show ?case by (auto simp: st Let_def)
qed (use c in simp)

end

section \<open>The segments of the image\<close>

definition group_kept :: "'e os_ops \<Rightarrow> ('e \<Rightarrow> nat) \<Rightarrow> 'e eoe_hook \<Rightarrow> (nat \<Rightarrow> ec_groupt) \<Rightarrow> nat \<Rightarrow> nat \<Rightarrow> 'e ecx_contextt \<Rightarrow> bool" where
  "group_kept E now hook G n M c \<longleftrightarrow> good_hook E now hook \<and> ctx_ok E now c \<and> grouplist c = G \<and> slavecount c = n \<and> maxslave c = M"

interpretation same_groups: map_inv E now "group_kept E now hook G n M" hook M for E :: "'e os_ops" and now hook G n M
proof
  fix c :: "'e ecx_contextt" assume c: "group_kept E now hook G n M c"
  then show "ctx_ok E now c" "good_hook E now hook" "maxslave c = M" by (simp_all add: group_kept_def)
  show "group_kept E now hook G n M c'" if "ctx_step E now c c'" for c'
    using c that by (simp add: group_kept_def ctx_step_def slaves_kept_def)
  show "group_kept E now hook G n M (c\<lparr>esimap := m\<rparr>)" "group_kept E now hook G n M (c\<lparr>esibuf := b\<rparr>)"
    "group_kept E now hook G n M (c\<lparr>esislave := s\<rparr>)" "group_kept E now hook G n M (c\<lparr>eepSM := e\<rparr>)"
    "group_kept E now hook G n M (c\<lparr>eepFMMU := f\<rparr>)" "group_kept E now hook G n M (c\<lparr>SMcommtype := sc\<rparr>)"
    "group_kept E now hook G n M (c\<lparr>PDOassign := pa\<rparr>)" "group_kept E now hook G n M (c\<lparr>PDOdesc := pd\<rparr>)" for m b s e f sc pa pd
    using c by (simp_all add: group_kept_def ctx_ok_def)
  show "group_kept E now hook G n M (upd_slave i g c)" "group_kept E now hook G n M (upd_slave i g c)" for i g
    using c by (simp_all add: group_kept_def ctx_ok_def)
qed

text \<open>The fields that the mapping of one direction does not touch, apart from the segments.\<close>

definition io_base :: "ec_groupt \<Rightarrow> u32 \<times> u32 \<times> nat option \<times> u16 \<times> u16" where
  "io_base g = (gr_logstartaddr g, gr_Obytes g, gr_outputs g, gr_Isegment g, gr_Ioffset g)"

text \<open>
  The state of the image: \<open>s1\<close> bytes are known to be in segment \<open>k1\<close>, behind \<open>u1\<close> bytes of earlier segments. Until the
  last of the 64 segments is begun, the closed segments and the current one are what has been mapped.
\<close>

definition image_ok :: "'e os_ops \<Rightarrow> ('e \<Rightarrow> nat) \<Rightarrow> 'e eoe_hook \<Rightarrow> nat \<Rightarrow> nat \<Rightarrow> nat \<Rightarrow> u32 \<times> u32 \<times> nat option \<times> u16 \<times> u16 \<Rightarrow>
    nat \<Rightarrow> nat \<Rightarrow> nat \<Rightarrow> 'e image_state \<Rightarrow> bool" where
  "image_ok E now hook n M grp b k1 s1 u1 = (\<lambda>(L, B, oL, cs, sz, c). let g = grouplist c grp in
     group_kept E now hook (grouplist c) n M c \<and> oL = L \<and> cs < EC_MAXIOSEGMENTS \<and> k1 \<le> cs \<and> io_base g = b \<and>
     (\<forall>i < cs. unat (gr_IOsegment g i) \<le> 262145) \<and> unat sz \<le> 262145 \<and>
     (cs < EC_MAXIOSEGMENTS - 1 \<longrightarrow> L = fst b + of_nat (seg_start g cs + unat sz)) \<and>
     s1 \<le> (if cs = k1 then unat sz else unat (gr_IOsegment g k1)) \<and> seg_start g k1 = u1)"

lemma seg_start_upd: "k \<le> cs \<Longrightarrow> seg_start (g\<lparr>gr_IOsegment := (gr_IOsegment g)(cs := x)\<rparr>) k = seg_start g k"
  by (auto simp: seg_start_def intro!: sum.cong)

lemma add_segment_ok:
  assumes "image_ok E now hook n M grp b k1 s1 u1 (L, B, L, cs, sz, c)" "unat diff \<le> 262145"
    and "add_segment grp diff (cs, sz, c) = (cs', sz', c')"
  shows "image_ok E now hook n M grp b k1 s1 u1 (L + diff, B', L + diff, cs', sz', c')"
proof -
  have ok: "group_kept E now hook (grouplist c) n M c" "cs < EC_MAXIOSEGMENTS" "unat sz \<le> 262145" "k1 \<le> cs"
    using assms(1) by (simp_all add: image_ok_def Let_def)
  have sum: "unat (sz + diff) = unat sz + unat diff" using ok(3) assms(2) by (simp add: unat_plus_if')
  have big: "sz + diff > EC_MAXSEGMENT \<longleftrightarrow> unat sz + unat diff > 1466" by (simp add: word_less_nat_alt sum)
  have kg: "group_kept E now hook (grouplist (upd_group grp f c)) n M (upd_group grp f c)" for f
    using ok(1) by (simp add: group_kept_def ctx_ok_def upd_group_def)
  have nxt: "seg_start (g\<lparr>gr_IOsegment := (gr_IOsegment g)(cs := x)\<rparr>) (Suc cs) = seg_start g cs + unat x" for g x
    using seg_start_upd [of cs cs g x] by simp
  let ?g = "grouplist c grp"
  show ?thesis
  proof (cases "unat sz + unat diff > 1466")
    case False
    then have "cs' = cs" "sz' = sz + diff" "c' = c" using assms(3) big by (simp_all add: add_segment_def)
    then show ?thesis using assms(1) sum False by (auto simp: image_ok_def Let_def)
  next
    case True
    define c1 where "c1 = upd_group grp (\<lambda>g. g\<lparr>gr_IOsegment := (gr_IOsegment g)(cs := sz)\<rparr>) c"
    have g1: "grouplist c1 grp = ?g\<lparr>gr_IOsegment := (gr_IOsegment ?g)(cs := sz)\<rparr>" by (simp add: c1_def upd_group_def)
    have c': "c' = c1" "cs' = (if cs < EC_MAXIOSEGMENTS - 1 then cs + 1 else cs)" "sz' = (if cs < EC_MAXIOSEGMENTS - 1 then diff else sz)"
      using assms(3) True big by (auto simp: add_segment_def c1_def Let_def split: if_splits)
    have "io_base (grouplist c1 grp) = b" using assms(1) by (simp add: image_ok_def Let_def g1 io_base_def)
    moreover have "group_kept E now hook (grouplist c1) n M c1" unfolding c1_def by (rule kg)
    moreover have "s1 \<le> (if cs' = k1 then unat sz' else unat (gr_IOsegment (grouplist c1 grp) k1))"
      using assms(1) ok(4) by (auto simp: image_ok_def Let_def c' g1)
    moreover have "seg_start (grouplist c1 grp) k1 = u1"
      using assms(1) seg_start_upd [OF ok(4), of ?g sz] by (simp add: image_ok_def Let_def g1)
    moreover have "cs' < EC_MAXIOSEGMENTS - 1 \<longrightarrow> L + diff = fst b + of_nat (seg_start (grouplist c1 grp) cs' + unat sz')"
      using assms(1) nxt [of ?g sz] by (auto simp: image_ok_def Let_def c' g1)
    moreover have "\<forall>i < cs'. unat (gr_IOsegment (grouplist c1 grp) i) \<le> 262145" "unat sz' \<le> 262145"
      using assms(1,2) by (auto simp: image_ok_def Let_def c' g1 less_Suc_eq)
    moreover have "cs' < EC_MAXIOSEGMENTS" "k1 \<le> cs'" using ok(2,4) by (auto simp: c')
    ultimately show ?thesis by (simp add: image_ok_def Let_def c'(1))
  qed
qed

text \<open>A step that changes nothing of the group but counters.\<close>

definition same_image :: "ec_groupt \<Rightarrow> ec_groupt \<Rightarrow> bool" where
  "same_image g h \<longleftrightarrow> io_base h = io_base g \<and> gr_IOsegment h = gr_IOsegment g"

lemma image_ok_same:
  assumes "image_ok E now hook n M grp b k1 s1 u1 (L, B, oL, cs, sz, c)" "group_kept E now hook (grouplist c') n M c'"
    and "same_image (grouplist c grp) (grouplist c' grp)"
  shows "image_ok E now hook n M grp b k1 s1 u1 (L, B', oL, cs, sz, c')"
  using assms by (auto simp: image_ok_def same_image_def Let_def seg_start_def)

lemma map_slave_ok:
  assumes st: "image_ok E now hook n M grp b k1 s1 u1 (L, B, oL, cs, sz, c)"
    and create: "if_runs (create (L, B, c)) (\<lambda>(L', B', c'). moved 262144 L L' \<and> group_kept E now hook (grouplist c') n M c' \<and>
      same_image (grouplist c grp) (grouplist c' grp))"
  shows "if_runs (map_slave create grp align (L, B, oL, cs, sz, c)) (image_ok E now hook n M grp b k1 s1 u1)"
  unfolding map_slave_def prod.case if_runs_simps
proof (rule if_runs_mono [OF create], goal_cases)
  case (1 r)
  obtain L' B' c' where r: "r = (L', B', c')" by (metis surj_pair)
  obtain L2 B2 where 2: "(if align \<and> B' \<noteq> 0 then (L' + 1, 0) else (L', B')) = (L2, B2)" by fastforce
  have m: "moved 262144 L L'" using 1 by (simp add: r)
  have "moved 262145 L L2"
  proof (cases "align \<and> B' \<noteq> 0")
    case True
    then have "L2 = L' + 1" using 2 by simp
    then show ?thesis using moved_trans [OF m moved_next] by simp
  next
    case False
    then have "L2 = L'" using 2 by (simp split: if_splits)
    then show ?thesis using moved_mono [OF m, of 262145] by simp
  qed
  then obtain a where a: "a \<le> 262145" "L2 = L + of_nat a" by (auto simp: moved_def)
  have oL: "oL = L" using st by (simp add: image_ok_def Let_def)
  have "image_ok E now hook n M grp b k1 s1 u1 (L, B', L, cs, sz, c')"
    using image_ok_same [OF st, of c' B'] 1 by (simp add: r oL)
  moreover have "unat (L2 - L) \<le> 262145" using a by (simp add: unat_of_nat take_bit_nat_eq_self)
  moreover obtain cs' sz' c2 where "add_segment grp (L2 - L) (cs, sz, c') = (cs', sz', c2)" by (metis surj_pair)
  ultimately show ?case
    using add_segment_ok [of E now hook n M grp b k1 s1 u1 L B' cs sz c' "L2 - L" cs' sz' c2 B2] by (simp add: r 2 oL)
qed

lemma close_byte_ok:
  assumes "image_ok E now hook n M grp b k1 s1 u1 st"
  shows "image_ok E now hook n M grp b k1 s1 u1 (close_byte grp st)"
proof -
  obtain L B oL cs sz c where st: "st = (L, B, oL, cs, sz, c)" by (metis surj_pair)
  show ?thesis
  proof (cases "B = 0")
    case True
    then show ?thesis using assms by (simp add: st close_byte_def)
  next
    case False
    obtain cs' sz' c2 where "add_segment grp 1 (cs, sz, c) = (cs', sz', c2)" by (metis surj_pair)
    moreover have "oL = L" using assms by (simp add: st image_ok_def Let_def)
    ultimately show ?thesis
      using add_segment_ok [of E now hook n M grp b k1 s1 u1 L B cs sz c 1 cs' sz' c2 0] assms False by (simp add: st close_byte_def)
  qed
qed


lemma group_kept_upd:
  "group_kept E now hook G n M c \<Longrightarrow> group_kept E now hook (grouplist (upd_group grp f c)) n M (upd_group grp f c)"
  by (simp add: group_kept_def ctx_ok_def upd_group_def)

lemma group_kept_slave: "group_kept E now hook G n M c \<Longrightarrow> group_kept E now hook G n M (upd_slave i f c)"
  by (simp add: group_kept_def ctx_ok_def)

lemma create_keeps_image:
  assumes c: "group_kept E now hook (grouplist c) n M c" and d: "d = input_dir \<or> d = output_dir"
  shows "if_runs (create_mappings d E pIOmap grp slave k (L, B, c)) (\<lambda>(L', B', c'). moved 262144 L L' \<and>
    group_kept E now hook (grouplist c') n M c' \<and> same_image (grouplist c grp) (grouplist c' grp))"
proof (rule if_runs_mono [OF same_groups.create_moved [OF d c]], goal_cases)
  case (1 r)
  obtain L' B' c' where r: "r = (L', B', c')" by (metis surj_pair)
  then obtain c1 where m: "moved 262144 L L'" and c1: "group_kept E now hook (grouplist c) n M c1"
    "c' = c1 \<or> c' = upd_group grp (io_WKC d) c1" using 1 by auto
  have g: "grouplist c1 = grouplist c" using c1(1) by (simp add: group_kept_def)
  have "same_image h (io_WKC d h)" for h using d by (auto simp: same_image_def io_base_def input_dir_def output_dir_def)
  then have "same_image (grouplist c grp) (grouplist c' grp)" using c1(2) g by (auto simp: upd_group_def same_image_def)
  moreover have "group_kept E now hook (grouplist c') n M c'" using c1 g group_kept_upd [OF c1(1)] by auto
  ultimately show ?case using m by (simp add: r)
qed

definition image_kept :: "'e os_ops \<Rightarrow> ('e \<Rightarrow> nat) \<Rightarrow> 'e eoe_hook \<Rightarrow> nat \<Rightarrow> nat \<Rightarrow> nat \<Rightarrow> ec_groupt \<Rightarrow> 'e ecx_contextt \<Rightarrow> bool" where
  "image_kept E now hook n M grp g c \<longleftrightarrow> group_kept E now hook (grouplist c) n M c \<and> same_image g (grouplist c grp)"

lemma image_kept_upd:
  "image_kept E now hook n M grp g c \<Longrightarrow> (\<And>h. same_image h (f h)) \<Longrightarrow> image_kept E now hook n M grp g (upd_group grp f c)"
  using group_kept_upd [of E now hook "grouplist c" n M c grp f]
  by (auto simp: image_kept_def same_image_def upd_group_def)

lemma map_finish_keeps_image:
  assumes c: "group_kept E now hook (grouplist c) n M c"
  shows "if_runs (map_finish E grp slave c) (image_kept E now hook n M grp (grouplist c grp))"
proof -
  have 1: "image_kept E now hook n M grp (grouplist c grp) c1" if "group_kept E now hook (grouplist c) n M c1" for c1
    using that by (simp add: image_kept_def same_image_def group_kept_def)
  have fin: "image_kept E now hook n M grp (grouplist c grp) (upd_group grp f (if b then upd_group grp h c1 else c1))"
    if "group_kept E now hook (grouplist c) n M c1" "\<And>g. same_image g (f g)" "\<And>g. same_image g (h g)" for f h b c1
    using image_kept_upd [OF 1 [OF that(1)]] image_kept_upd [OF image_kept_upd [OF 1 [OF that(1)]]] that(2,3) by simp
  show ?thesis
    unfolding map_finish_def Let_def using c
    by (auto intro!: inv_rules fin if_bool_eq_conj [THEN iffD2] simp: same_image_def io_base_def split del: if_split)
qed

lemma map_output_ok:
  assumes st: "image_ok E now hook n M grp b k1 s1 u1 st"
  shows "if_runs (map_output E pIOmap grp align slave st) (image_ok E now hook n M grp b k1 s1 u1)"
proof -
  obtain L B oL cs sz c where eq: "st = (L, B, oL, cs, sz, c)" by (metis surj_pair)
  have "group_kept E now hook (grouplist c) n M c" using st by (simp add: eq image_ok_def Let_def)
  note create_keeps_image [OF this, where d = output_dir and slave = slave and k = "unat (sl_FMMUunused (slavelist c slave))"
      and pIOmap = pIOmap and grp = grp and L = L and B = B]
  then show ?thesis
    using map_slave_ok [OF st [unfolded eq], where create = "ecx_config_create_output_mappings E pIOmap grp slave"] st
    by (simp add: eq map_output_def ecx_config_create_output_mappings_def)
qed

lemma map_input_ok:
  assumes st: "image_ok E now hook n M grp b k1 s1 u1 st"
  shows "if_runs (map_input E pIOmap grp align slave st) (image_ok E now hook n M grp b k1 s1 u1)"
proof -
  obtain L B oL cs sz c where eq: "st = (L, B, oL, cs, sz, c)" by (metis surj_pair)
  let ?create = "ecx_config_create_input_mappings E pIOmap grp slave"
  have fin: "if_runs (do { c \<leftarrow> map_finish E grp slave c'; Some (L', B', oL', cs', sz', c) }) (image_ok E now hook n M grp b k1 s1 u1)"
    if "image_ok E now hook n M grp b k1 s1 u1 (L', B', oL', cs', sz', c')" for L' B' oL' cs' sz' c'
  proof -
    have "group_kept E now hook (grouplist c') n M c'" using that by (simp add: image_ok_def Let_def)
    from map_finish_keeps_image [OF this] show ?thesis
      unfolding if_runs_simps image_kept_def by (rule if_runs_mono) (use that image_ok_same in blast)
  qed
  have "group_kept E now hook (grouplist c) n M c" using st by (simp add: eq image_ok_def Let_def)
  note create = create_keeps_image [OF this, where d = input_dir and slave = slave and pIOmap = pIOmap and grp = grp and L = L and B = B]
  have "if_runs (?create (L, B, c)) (\<lambda>(L', B', c'). moved 262144 L L' \<and>
    group_kept E now hook (grouplist c') n M c' \<and> same_image (grouplist c grp) (grouplist c' grp))"
    using create by (simp add: ecx_config_create_input_mappings_def Let_def)
  from map_slave_ok [OF st [unfolded eq], of ?create, OF this]
  have "if_runs (map_slave ?create grp align (L, B, oL, cs, sz, c))
     (\<lambda>(L', B', oL', cs', sz', c'). if_runs (do { c \<leftarrow> map_finish E grp slave c'; Some (L', B', oL', cs', sz', c) })
       (image_ok E now hook n M grp b k1 s1 u1))"
    by (rule if_runs_mono) (use fin in auto)
  then show ?thesis
    using st fin [of L B oL cs sz c] by (simp add: eq map_input_def split_def)
qed

definition good_po2so :: "'e os_ops \<Rightarrow> ('e \<Rightarrow> nat) \<Rightarrow> 'e po2so_hook \<Rightarrow> bool" where
  "good_po2so E now po2so \<longleftrightarrow> (\<forall>slave c. ctx_ok E now c \<longrightarrow> if_runs (po2so slave c) (\<lambda>c'. ctx_ok E now c' \<and>
     grouplist c' = grouplist c \<and> slavecount c' = slavecount c \<and> maxslave c' = maxslave c))"

lemma find_mappings_kept:
  assumes "good_po2so E now po2so" "group_kept E now hook G n M c" "n < M"
  shows "if_runs (ecx_config_find_mappings E hook po2so stk grp c) (group_kept E now hook G n M)"
proof (rule same_groups.find_mappings_inv [OF assms(2)])
  show "if_runs (po2so s c) (group_kept E now hook G n M)" if "group_kept E now hook G n M c" for s c
  proof -
    have "if_runs (po2so s c) (\<lambda>c'. ctx_ok E now c' \<and> grouplist c' = grouplist c \<and> slavecount c' = slavecount c \<and> maxslave c' = maxslave c)"
      using that assms(1) by (auto simp: good_po2so_def group_kept_def)
    then show ?thesis by (rule if_runs_mono) (use that in \<open>simp add: group_kept_def\<close>)
  qed
qed (use assms in \<open>auto simp: group_kept_def\<close>)

lemma image_begin:
  "group_kept E now hook (grouplist c) n M c \<Longrightarrow> L = gr_logstartaddr (grouplist c grp) \<Longrightarrow>
     image_ok E now hook n M grp (io_base (grouplist c grp)) 0 0 0 (L, 0, L, 0, 0, c)"
  by (simp add: image_ok_def Let_def io_base_def)

text \<open>Between outputs and inputs the place of the first input is recorded.\<close>

lemma image_middle:
  assumes "image_ok E now hook n M grp b 0 0 0 (L, B, oL, cs, sz, c)" "b = io_base g0"
  shows "\<exists>Ob k1 s1 u1. image_ok E now hook n M grp (gr_logstartaddr g0, Ob, Some pIOmap, of_nat k1, of_nat s1) k1 s1 u1
      (L, B', oL, cs, sz, record_outputs pIOmap grp L cs sz c) \<and> s1 \<le> 262145 \<and>
    (k1 < EC_MAXIOSEGMENTS - 1 \<longrightarrow> Ob = of_nat (u1 + s1))"
proof -
  define c' where "c' = record_outputs pIOmap grp L cs sz c"
  let ?g = "grouplist c grp"
  have start: "gr_logstartaddr ?g = gr_logstartaddr g0" using assms by (simp add: image_ok_def Let_def io_base_def)
  have g': "grouplist c' grp = ?g\<lparr>gr_outputs := Some pIOmap, gr_Obytes := L - gr_logstartaddr ?g,
      gr_nsegments := of_nat (cs + 1), gr_Isegment := of_nat cs, gr_Ioffset := ucast sz\<rparr>"
    by (simp add: c'_def record_outputs_def Let_def upd_group_def)
  have base: "io_base (grouplist c' grp) = (gr_logstartaddr g0, L - gr_logstartaddr g0, Some pIOmap, of_nat cs, of_nat (unat sz))"
    by (simp add: g' io_base_def start)
  have seg: "gr_IOsegment (grouplist c' grp) = gr_IOsegment ?g" "seg_start (grouplist c' grp) k = seg_start ?g k" for k
    by (simp_all add: g' seg_start_def)
  have kept: "group_kept E now hook (grouplist c') n M c'"
  proof -
    have "group_kept E now hook (grouplist c) n M c" using assms(1) by (simp add: image_ok_def Let_def)
    from group_kept_slave [OF group_kept_upd [OF this]] group_kept_upd [OF this] show ?thesis
      by (simp add: c'_def record_outputs_def Let_def)
  qed
  have L: "cs < EC_MAXIOSEGMENTS - 1 \<Longrightarrow> L = gr_logstartaddr g0 + of_nat (seg_start ?g cs + unat sz)"
    using assms by (simp add: image_ok_def Let_def io_base_def)
  have "image_ok E now hook n M grp (gr_logstartaddr g0, L - gr_logstartaddr g0, Some pIOmap, of_nat cs, of_nat (unat sz)) cs (unat sz)
      (seg_start ?g cs) (L, B', oL, cs, sz, c')"
    using assms(1) kept base L seg by (simp add: image_ok_def Let_def)
  moreover have "unat sz \<le> 262145" using assms(1) by (simp add: image_ok_def Let_def)
  ultimately show ?thesis using L by (intro exI conjI) (auto simp: c'_def [symmetric])
qed

text \<open>What the record of the inputs leaves: the segments in order, the first input at its place.\<close>

definition image_recorded :: "nat \<Rightarrow> int \<Rightarrow> ec_groupt \<Rightarrow> bool" where
  "image_recorded pIOmap len g \<longleftrightarrow> (let n = unat (gr_nsegments g); i = unat (gr_Isegment g) in
     i < n \<and> n \<le> EC_MAXIOSEGMENTS \<and> (\<forall>k < n. unat (gr_IOsegment g k) \<le> 262145) \<and>
     gr_outputs g = Some pIOmap \<and> gr_inputs g = Some (pIOmap + unat (gr_Obytes g)) \<and>
     (n < EC_MAXIOSEGMENTS \<longrightarrow>
        unat (gr_Obytes g) + unat (gr_Ibytes g) = seg_start g n \<and> len = int (seg_start g n) \<and>
        (\<exists>s \<le> unat (gr_IOsegment g i). unat (gr_Obytes g) = seg_start g i + s \<and> gr_Ioffset g = of_nat s)))"

lemma seg_start_bound: "\<forall>i < n. unat (gr_IOsegment g i) \<le> m \<Longrightarrow> seg_start g n \<le> n * m"
proof (induction n)
  case (Suc n)
  then have "seg_start g n \<le> n * m" "unat (gr_IOsegment g n) \<le> m" by simp_all
  then show ?case by simp
qed simp

lemma image_end:
  assumes st: "image_ok E now hook n M grp (start, Ob, Some pIOmap, of_nat k1, of_nat s1) k1 s1 u1 (L, B, oL, cs, sz, c)"
    and Ob: "k1 < EC_MAXIOSEGMENTS - 1 \<Longrightarrow> Ob = of_nat (u1 + s1)"
  shows "image_recorded pIOmap (sint (L - start)) (grouplist (record_inputs pIOmap grp L cs sz c) grp)"
    "gr_logstartaddr (grouplist (record_inputs pIOmap grp L cs sz c) grp) = start"
proof -
  let ?g = "grouplist c grp"
  define g' where "g' = grouplist (record_inputs pIOmap grp L cs sz c) grp"
  have g: "gr_logstartaddr ?g = start" "gr_Obytes ?g = Ob" "gr_outputs ?g = Some pIOmap" "gr_Isegment ?g = of_nat k1"
    "gr_Ioffset ?g = of_nat s1" and cs: "cs < 64" "k1 \<le> cs" and sz: "unat sz \<le> 262145"
    and segs: "\<forall>i < cs. unat (gr_IOsegment ?g i) \<le> 262145" and u1: "seg_start ?g k1 = u1"
    and s1: "s1 \<le> (if cs = k1 then unat sz else unat (gr_IOsegment ?g k1))"
    and L: "cs < 63 \<Longrightarrow> L = start + of_nat (seg_start ?g cs + unat sz)"
    using st by (simp_all add: image_ok_def Let_def io_base_def)
  have g': "g' = ?g\<lparr>gr_IOsegment := (gr_IOsegment ?g)(cs := sz), gr_nsegments := of_nat (cs + 1),
      gr_inputs := Some (pIOmap + unat Ob), gr_Ibytes := L - start - Ob\<rparr>"
    by (simp add: g'_def record_inputs_def Let_def upd_group_def g)
  have cnt: "unat (gr_nsegments g') = cs + 1" "unat (gr_Isegment g') = k1"
    using cs by (simp_all add: g' g unat_of_nat take_bit_nat_eq_self del: of_nat_add of_nat_Suc)
  have start: "seg_start g' k = seg_start ?g k" if "k \<le> cs" for k using that by (auto simp: g' seg_start_def intro!: sum.cong)
  have last: "seg_start g' (cs + 1) = seg_start ?g cs + unat sz" using start [of cs] by (simp add: g')
  have seg: "\<forall>k < cs + 1. unat (gr_IOsegment g' k) \<le> 262145" using segs sz by (auto simp: g' less_Suc_eq)
  have k1: "seg_start g' k1 + s1 \<le> seg_start g' (cs + 1)" "s1 \<le> unat (gr_IOsegment g' k1)"
  proof -
    show s: "s1 \<le> unat (gr_IOsegment g' k1)" using s1 cs by (auto simp: g')
    have "seg_start g' (Suc k1) \<le> seg_start g' (cs + 1)" unfolding seg_start_def using cs by (intro sum_mono2) auto
    then show "seg_start g' k1 + s1 \<le> seg_start g' (cs + 1)" using s by simp
  qed
  have f: "gr_outputs g' = Some pIOmap" "gr_inputs g' = Some (pIOmap + unat Ob)" "gr_Obytes g' = Ob" "gr_Ioffset g' = of_nat s1"
    by (simp_all add: g' g)
  have "unat Ob + unat (gr_Ibytes g') = seg_start g' (cs + 1) \<and> sint (L - start) = int (seg_start g' (cs + 1)) \<and>
      unat Ob = seg_start g' k1 + s1" if 63: "cs < 63"
  proof -
    have total: "seg_start g' (cs + 1) \<le> 64 * 262145"
      using seg_start_bound [OF seg] cs mult_le_mono1 [of "cs + 1" 64 262145] by linarith
    have Obs: "Ob = of_nat (seg_start g' k1 + s1)" using Ob 63 cs u1 start [of k1] by simp
    then have "unat Ob = seg_start g' k1 + s1" using k1(1) total by (simp add: unat_of_nat take_bit_nat_eq_self del: of_nat_add)
    moreover have d: "L - start = of_nat (seg_start g' (cs + 1))" using L [OF 63] last by simp
    moreover have "gr_Ibytes g' = L - start - Ob" by (simp add: g')
    then have "gr_Ibytes g' = of_nat (seg_start g' (cs + 1) - (seg_start g' k1 + s1))"
      using k1(1) by (simp only: d Obs of_nat_diff)
    then have "unat (gr_Ibytes g') = seg_start g' (cs + 1) - (seg_start g' k1 + s1)"
      using total by (simp add: unat_of_nat take_bit_nat_eq_self)
    moreover have "unat (L - start) = seg_start g' (cs + 1)" using total unfolding d by (simp add: unat_of_nat take_bit_nat_eq_self del: seg_start_simps of_nat_add)
    then have "sint (L - start) = int (seg_start g' (cs + 1))"
      using sint_small [of "L - start"] total by (simp del: seg_start_simps of_nat_unat)
    ultimately show ?thesis using k1(1) by simp
  qed
  then show "image_recorded pIOmap (sint (L - start)) (grouplist (record_inputs pIOmap grp L cs sz c) grp)"
    unfolding g'_def [symmetric] image_recorded_def Let_def cnt f using cs seg k1(2) by auto
  show "gr_logstartaddr (grouplist (record_inputs pIOmap grp L cs sz c) grp) = start"
    unfolding g'_def [symmetric] by (simp add: g' g)
qed

lemma map_group_image_recorded:
  assumes c: "ctx_ok E now c" "good_hook E now hook" "good_po2so E now po2so" "0 < slavecount c" "grp < maxgroup c"
  shows "if_runs (ecx_main_config_map_group E hook po2so stk pIOmap grp align c)
    (\<lambda>(len, c'). image_recorded pIOmap len (grouplist c' grp))"
proof -
  define c0 where "c0 = map_begin grp c"
  have "group_kept E now hook (grouplist c0) (slavecount c) (maxslave c) c0"
    using c(1,2) group_kept_upd [of E now hook "grouplist c" "slavecount c" "maxslave c" c grp]
    by (simp add: c0_def map_begin_def group_kept_def)
  moreover have "slavecount c < maxslave c" using c(1) by (simp add: ctx_ok_def)
  ultimately have find: "if_runs (ecx_config_find_mappings E hook po2so stk grp c0)
      (group_kept E now hook (grouplist c0) (slavecount c) (maxslave c))" (is "if_runs _ ?K")
    by (rule find_mappings_kept [OF c(3)])
  have start: "gr_logstartaddr (grouplist c0 grp) = gr_logstartaddr (grouplist c grp)" (is "_ = ?L") by (simp add: c0_def map_begin_def upd_group_def)
  let ?ok = "image_ok E now hook (slavecount c) (maxslave c) grp"
  have "if_runs (do {
      st \<leftarrow> foldM (map_output E pIOmap grp align) [1..<slavecount c1 + 1] (?L, 0, ?L, 0, 0, c1);
      let (LogAddr, BitPos, oLogAddr, cs, sz, c) = close_byte grp st;
      let c = record_outputs pIOmap grp LogAddr cs sz c;
      st \<leftarrow> foldM (map_input E pIOmap grp align) [1..<slavecount c + 1] (LogAddr, BitPos, oLogAddr, cs, sz, c);
      let (LogAddr, BitPos, oLogAddr, cs, sz, c) = close_byte grp st;
      let c = record_inputs pIOmap grp LogAddr cs sz c;
      Some (sint (LogAddr - gr_logstartaddr (grouplist c grp)), c) })
     (\<lambda>(len, c'). image_recorded pIOmap len (grouplist c' grp))" if c1: "?K c1" for c1
    unfolding if_runs_simps
  proof (rule foldM_inv [where I = "?ok (io_base (grouplist c0 grp)) 0 0 0"], goal_cases)
    case 1
    have "grouplist c1 = grouplist c0" using c1 by (simp add: group_kept_def)
    with image_begin [of E now hook c1 "slavecount c" "maxslave c" ?L grp] c1 start show ?case by simp
  next
    case (3 st)
    obtain L B oL cs sz c2 where st: "close_byte grp st = (L, B, oL, cs, sz, c2)" by (metis surj_pair)
    with close_byte_ok [OF 3] have "?ok (io_base (grouplist c0 grp)) 0 0 0 (L, B, oL, cs, sz, c2)" by simp
    from image_middle [OF this refl, of pIOmap B] obtain Ob k1 s1 u1 where
      mid: "?ok (?L, Ob, Some pIOmap, of_nat k1, of_nat s1) k1 s1 u1 (L, B, oL, cs, sz, record_outputs pIOmap grp L cs sz c2)"
        "k1 < EC_MAXIOSEGMENTS - 1 \<Longrightarrow> Ob = of_nat (u1 + s1)" by (auto simp: start)
    show ?case
      unfolding st prod.case Let_def if_runs_simps
    proof (rule foldM_inv [where I = "?ok (?L, Ob, Some pIOmap, of_nat k1, of_nat s1) k1 s1 u1", OF mid(1) map_input_ok], goal_cases)
      case (2 st)
      obtain L B oL cs sz c3 where st: "close_byte grp st = (L, B, oL, cs, sz, c3)" by (metis surj_pair)
      from image_end [OF close_byte_ok [OF 2, unfolded st] mid(2)] show ?case by (simp add: st)
    qed
  qed (rule map_output_ok)
  then show ?thesis
    unfolding ecx_main_config_map_group_def c0_def [symmetric] using c(4,5)
    by (auto simp: Let_def simp del: upt_Suc elim: if_runs_mono [OF find])
qed

text \<open>
  C23: when the mapping of a group returns it has recorded where its data is: at most 64 segments, the
  outputs from the start of the image and the inputs behind them. As long as the last segment is not reached, the segments hold
  exactly the outputs and the inputs, the size returned is theirs, and the first input is at the recorded place of the recorded
  segment.
\<close>

theorem map_group_image:
  assumes "ctx_ok E now c" "good_hook E now hook" "good_po2so E now po2so" "0 < slavecount c" "grp < maxgroup c"
    and "ecx_main_config_map_group E hook po2so stk pIOmap grp align c = Some (len, c')"
  shows "let g = grouplist c' grp; n = unat (gr_nsegments g); i = unat (gr_Isegment g) in
     i < n \<and> n \<le> 64 \<and> gr_outputs g = Some pIOmap \<and> gr_inputs g = Some (pIOmap + unat (gr_Obytes g)) \<and>
     (n < 64 \<longrightarrow> len = int (seg_start g n) \<and> unat (gr_Obytes g) + unat (gr_Ibytes g) = seg_start g n \<and>
        (\<exists>s \<le> unat (gr_IOsegment g i). unat (gr_Obytes g) = seg_start g i + s \<and> gr_Ioffset g = of_nat s))"
  using map_group_image_recorded [OF assms(1-5), of stk pIOmap align] assms(6) by (simp add: image_recorded_def Let_def)

definition map_ctx :: "(nat \<times> u8 list list) ecx_contextt" where
  "map_ctx = upd_slave 1 (\<lambda>_. zero_slave\<lparr>sl_Ibits := 96, sl_SMtype := (\<lambda>_. 0)(3 := 4), sl_configindex := 1,
     sl_SM := (\<lambda>_. \<lparr>StartAddr = 0, SMlength = 12, SMflags = 0\<rparr>)\<rparr>) (idle_ctx 1 (5, []))"

lemma map_ctx_ok: "ctx_ok script_os (\<lambda>(t, q). t * 1000) map_ctx" "0 < slavecount map_ctx" "0 < maxgroup map_ctx"
  using good_script_os by (simp_all add: map_ctx_def ctx_ok_def net_ok_def ring_ok_def idle_ctx_def)

lemma slave_config_io:
  assumes "slave_config s = slave_config t"
  shows "sl_configindex s = sl_configindex t" "sl_Ibits s = sl_Ibits t" "sl_Obits s = sl_Obits t" "sl_SM s = sl_SM t"
    "sl_SMtype s = sl_SMtype t" "sl_FMMUunused s = sl_FMMUunused t"
  using assms [THEN arg_cong [where f = sl_configindex]] assms [THEN arg_cong [where f = sl_Ibits]]
    assms [THEN arg_cong [where f = sl_Obits]] assms [THEN arg_cong [where f = sl_SM]] assms [THEN arg_cong [where f = sl_SMtype]]
    assms [THEN arg_cong [where f = sl_FMMUunused]]
  by (simp_all add: slave_config_def)

lemma map_ctx_found:
  "\<exists>c'. ecx_config_find_mappings script_os None (\<lambda>_. Some) stk 0 (map_begin 0 map_ctx) = Some c' \<and>
     ctx_ok script_os (\<lambda>(t, q). t * 1000) c' \<and> slavecount c' = 1 \<and> gr_logstartaddr (grouplist c' 0) = 0 \<and>
     (let s = slavelist c' 1 in sl_Obits s = 0 \<and> sl_Ibits s = 96 \<and> sl_Ibytes s = 12 \<and> sl_FMMUunused s = 0 \<and>
       sl_SMtype s = (\<lambda>_. 0)(3 := 4) \<and> sl_SM s = (\<lambda>_. \<lparr>StartAddr = 0, SMlength = 12, SMflags = 0\<rparr>))"
proof -
  let ?c0 = "map_begin 0 map_ctx" and ?now = "\<lambda>(t :: nat, q :: u8 list list). t * 1000"
  have c0: "ctx_ok script_os ?now ?c0" using map_ctx_ok(1) by (simp add: map_begin_def upd_group_def ctx_ok_def)
  obtain x c1 where c1: "ecx_statecheck script_os 1 EC_STATE_PRE_OP EC_TIMEOUTSTATE ?c0 = Some (x, c1)" "ctx_step script_os ?now ?c0 c1"
    using ecx_statecheck_runs [OF c0, of 1 EC_STATE_PRE_OP EC_TIMEOUTSTATE]
    by (auto simp: runs_to_iff map_begin_def map_ctx_def upd_group_def idle_ctx_def)
  have cfg: "slave_config (slavelist c1 1) = slave_config (slavelist ?c0 1)" and k: "slavecount c1 = 1" "grouplist c1 = grouplist ?c0"
    using c1(2) by (simp_all add: ctx_step_def slaves_kept_def map_begin_def map_ctx_def upd_group_def idle_ctx_def)
  have s: "sl_configindex (slavelist c1 1) = 1" "sl_Ibits (slavelist c1 1) = 96" "sl_Obits (slavelist c1 1) = 0"
    "sl_SM (slavelist c1 1) = (\<lambda>_. \<lparr>StartAddr = 0, SMlength = 12, SMflags = 0\<rparr>)" "sl_FMMUunused (slavelist c1 1) = 0"
    "sl_SMtype (slavelist c1 1) = (\<lambda>_. 0)(3 := 4)"
    unfolding slave_config_io [OF cfg] by (simp_all add: map_begin_def upd_group_def map_ctx_def zero_slave_def)
  have coe: "ecx_map_coe_soe script_os None (\<lambda>_. Some) stk 1 0 ?c0 = Some (1, c1)"
    using c1(1) s(1) by (simp add: ecx_map_coe_soe_def Let_def)
  let ?c2 = "upd_slave 1 set_bytes (set_bits 1 0 96 c1)"
  have sii: "ecx_map_sii script_os 1 c1 = Some (1, set_bits 1 0 96 c1)" using s by (simp add: ecx_map_sii_def Let_def)
  have sm: "ecx_map_sm script_os 1 (set_bits 1 0 96 c1) = Some (1, ?c2)"
    using s by (simp add: ecx_map_sm_def Let_def set_bits_def upt_rec)
  have "slavecount ?c0 = 1" by (simp add: map_begin_def map_ctx_def upd_group_def idle_ctx_def)
  then have "ecx_config_find_mappings script_os None (\<lambda>_. Some) stk 0 ?c0 = Some ?c2"
    using coe sii sm k by (simp add: ecx_config_find_mappings_def each_slave_def in_group_def)
  moreover have "ctx_ok script_os ?now ?c2" using c1(2) by (simp add: ctx_step_def ctx_ok_def set_bits_def)
  moreover have "gr_logstartaddr (grouplist ?c2 0) = 0"
    using k(2) by (simp add: set_bits_def map_begin_def upd_group_def map_ctx_def idle_ctx_def zero_group_def)
  ultimately show ?thesis
    using s k by (intro exI [of _ ?c2]) (simp add: set_bits_def set_bytes_def Let_def bit_bytes_def)
qed

lemma map_finish_runs:
  assumes c: "ctx_ok E now c" "slave < maxslave c"
  shows "\<exists>c'. map_finish E grp slave c = Some c'"
proof -
  let ?adr = "sl_configadr (slavelist c slave)"
  obtain w c1 where 1: "ecx_eeprom2pdi E slave c = Some (w, c1)" "ctx_ok E now c1"
    using eeprom_control_steps(2) [OF c] by (auto simp: runs_to_iff ctx_step_def)
  have "runs_to (on_port (ecx_FPWRw E ?adr ECT_REG_ALCTL EC_STATE_SAFE_OP EC_TIMEOUTRET3) c1) (\<lambda>(w, c'). ctx_step E now c1 c')"
    by (rule runs_to_mono [OF FPWR_step(2) [where n = 0, OF ctx_step_refl [OF 1(2)]]]) auto
  then obtain w' c2 where 2: "on_port (ecx_FPWRw E ?adr ECT_REG_ALCTL EC_STATE_SAFE_OP EC_TIMEOUTRET3) c1 = Some (w', c2)"
    by (auto simp: runs_to_iff)
  show ?thesis by (cases "manualstatechange c1 = 0") (simp_all add: map_finish_def 1 2 Let_def)
qed

lemma map_ctx_maps:
  "\<exists>c'. ecx_main_config_map_group script_os None (\<lambda>_. Some) stk 0 0 False map_ctx = Some (12, c')"
proof -
  let ?now = "\<lambda>(t :: nat, q :: u8 list list). t * 1000"
  obtain c1 where c1: "ecx_config_find_mappings script_os None (\<lambda>_. Some) stk 0 (map_begin 0 map_ctx) = Some c1"
      "ctx_ok script_os ?now c1" "slavecount c1 = 1" "gr_logstartaddr (grouplist c1 0) = 0"
    and s: "sl_Obits (slavelist c1 1) = 0" "sl_Ibits (slavelist c1 1) = 96" "sl_Ibytes (slavelist c1 1) = 12"
      "sl_FMMUunused (slavelist c1 1) = 0" "sl_SMtype (slavelist c1 1) = (\<lambda>_. 0)(3 := 4)"
      "sl_SM (slavelist c1 1) = (\<lambda>_. \<lparr>StartAddr = 0, SMlength = 12, SMflags = 0\<rparr>)"
    using map_ctx_found [of stk] by (auto simp: Let_def)
  let ?c2 = "record_outputs 0 0 0 0 0 c1"
  have c2: "ctx_ok script_os ?now ?c2" "slavelist ?c2 1 = slavelist c1 1" "slavecount ?c2 = 1" "gr_logstartaddr (grouplist ?c2 0) = 0"
    using c1 by (simp_all add: record_outputs_def Let_def ctx_ok_def upd_group_def)
  have first: "first_SM input_dir (slavelist c1 1) 3" using s(5) by (simp add: first_SM_def input_dir_def)
  have io: "io_bits input_dir (slavelist c1 1) = 96" "io_bytes input_dir (slavelist c1 1) = 12" "bit_bytes 96 = 12"
    by (simp_all add: input_dir_def s [simplified] bit_bytes_def)
  obtain c3 where c3: "create_mappings input_dir script_os 0 0 1 0 (0, 0, ?c2) = Some (12, 0, c3)"
    using byte_slave_runs [where d = input_dir and c = ?c2 and slave = 1 and k = 0 and j = 3 and B = 0 and L = 0 and start = 0
        and grp = 0 and pIOmap = 0, OF _ ctx_ok_net [OF c2(1)] _ c2(2) first] io s(6) by (auto simp: Let_def)
  have "if_runs (create_mappings input_dir script_os 0 0 1 0 (0, 0, ?c2)) (\<lambda>(L', B', c'). moved 262144 0 L' \<and>
      group_kept script_os ?now None (grouplist c') 1 (maxslave ?c2) c' \<and> same_image (grouplist ?c2 0) (grouplist c' 0))"
    by (rule create_keeps_image) (use c2 in \<open>simp_all add: group_kept_def good_hook_def\<close>)
  then have c3_ok: "ctx_ok script_os ?now c3" "gr_logstartaddr (grouplist c3 0) = 0" "slavecount c3 = 1"
    using c2(4) by (simp_all add: c3 [simplified] group_kept_def same_image_def io_base_def)
  have "1 < maxslave c3" using c3_ok(1,3) by (simp add: ctx_ok_def)
  then obtain c4 where c4: "map_finish script_os 0 1 c3 = Some c4" using map_finish_runs [OF c3_ok(1), of 1 0] by blast
  have out: "map_output script_os 0 0 False 1 (0, 0, 0, 0, 0, c1) = Some (0, 0, 0, 0, 0, c1)" using s(1) by (simp add: map_output_def)
  have inp: "map_input script_os 0 0 False 1 (0, 0, 0, 0, 0, ?c2) = Some (12, 0, 12, 0, 12, c4)"
    using c3 c4 s(1,2,4) c2(2)
    by (simp add: map_input_def map_slave_def in_group_def ecx_config_create_input_mappings_def Let_def add_segment_def)
  have "gr_logstartaddr (grouplist c4 0) = 0"
    using map_finish_keeps_image [of script_os ?now None c3 1 "maxslave c3" 0 1] c3_ok
    by (simp add: c4 [simplified] group_kept_def good_hook_def image_kept_def same_image_def io_base_def)
  moreover have "gr_logstartaddr (grouplist map_ctx 0) = 0" by (simp add: map_ctx_def idle_ctx_def zero_group_def)
  ultimately show ?thesis
    using c1 out inp c2(3) by (simp add: ecx_main_config_map_group_def map_ctx_ok Let_def close_byte_def record_inputs_def upd_group_def)
qed

theorem map_group_image_witness:
  "\<exists>c'. ecx_main_config_map_group script_os None (\<lambda>_. Some) (\<lambda>_. (zero_buf, zero_buf)) 0 0 False map_ctx = Some (12, c') \<and>
     (let g = grouplist c' 0 in unat (gr_nsegments g) < 64 \<longrightarrow> unat (gr_Obytes g) + unat (gr_Ibytes g) = 12)"
proof -
  obtain c' where c': "ecx_main_config_map_group script_os None (\<lambda>_. Some) (\<lambda>_. (zero_buf, zero_buf)) 0 0 False map_ctx = Some (12, c')"
    using map_ctx_maps by blast
  have "good_hook script_os (\<lambda>(t, q). t * 1000) None" "good_po2so script_os (\<lambda>(t, q). t * 1000) (\<lambda>_. Some)"
    by (simp_all add: good_hook_def good_po2so_def)
  from map_group_image [OF map_ctx_ok(1) this map_ctx_ok(2,3) c'] show ?thesis
    by (intro exI [of _ c'] conjI c') (auto simp: Let_def)
qed

end
