(* ===== verification/SdoServer.thy ===== *)
theory SdoServer
  imports Coe
begin

text \<open>
  A reference slave for the SDO transfers of \<open>soem/ethercatcoe.c\<close>: one object behind a mailbox of \<open>M\<close>
  bytes, with the expedited, normal and segmented services of CANopen, written from the protocol and
  not from the master. Against it the master's download and upload are proved to be inverse.
\<close>

section \<open>The server\<close>

record sdo_server =
  sv_obj :: "u8 list"
  sv_up :: "u8 list"
  sv_down :: "u8 list"
  sv_ans :: "buf option"

definition sdo_answer :: "u16 \<Rightarrow> u8 \<Rightarrow> u16 \<Rightarrow> u8 \<Rightarrow> buf" where
  "sdo_answer len com index subindex =
     (wr16 ((wr16 ((wr16 zero_buf 0 len)(5 := 3)) 6 0x3000)(8 := com)) 9 index)(11 := subindex)"

text \<open>Upload: up to four bytes are answered at once, more with their total size and a first part.\<close>

definition srv_upload :: "nat \<Rightarrow> buf \<Rightarrow> sdo_server \<Rightarrow> sdo_server" where
  "srv_upload M m s = (let d = sv_obj s; n = length d; k = min n (M - 16) in
     if 1 \<le> n \<and> n \<le> 4
     then s\<lparr>sv_ans := Some (memcpy (sdo_answer 10 (0x43 OR push_bit 2 (of_nat (4 - n))) (rd16 m 9) (m 11)) 12 (buf_of d) 0 n)\<rparr>
     else s\<lparr>sv_up := drop k d, sv_ans := Some (memcpy (wr32 (sdo_answer (of_nat (10 + k)) 0x41 (rd16 m 9) (m 11)) 12 (of_nat n))
       16 (buf_of d) 0 k)\<rparr>)"

text \<open>The command of an upload segment of \<open>k\<close> bytes: toggle bit, unused bytes of a short last one, last.\<close>

definition seg_com :: "u8 \<Rightarrow> bool \<Rightarrow> nat \<Rightarrow> u8" where
  "seg_com toggle fin k = toggle + (if fin then 1 + (if k < 7 then push_bit 1 (of_nat (7 - k)) else 0) else 0)"

definition srv_upload_segment :: "nat \<Rightarrow> buf \<Rightarrow> sdo_server \<Rightarrow> sdo_server" where
  "srv_upload_segment M m s = (let d = sv_up s; k = min (length d) (M - 9); fin = (k = length d) in
     s\<lparr>sv_up := drop k d, sv_ans := Some (memcpy
       (sdo_answer (if fin \<and> k < 7 then 10 else of_nat (3 + k)) (seg_com (m 8 AND 0x10) fin k) 0 0) 9 (buf_of d) 0 k)\<rparr>)"

definition srv_download :: "buf \<Rightarrow> sdo_server \<Rightarrow> sdo_server" where
  "srv_download m s = (let a = sdo_answer 10 0x60 (rd16 m 9) (m 11) in
     if m 8 AND 0x02 \<noteq> 0 then s\<lparr>sv_obj := bytes_of m 12 (4 - unat (drop_bit 2 (m 8) AND 3)), sv_ans := Some a\<rparr>
     else let d = bytes_of m 16 (unat (rd16 m 0) - 10) in
       if length d = unat (rd32 m 12) then s\<lparr>sv_obj := d, sv_ans := Some a\<rparr>
       else s\<lparr>sv_down := d, sv_ans := Some a\<rparr>)"

definition srv_download_segment :: "buf \<Rightarrow> sdo_server \<Rightarrow> sdo_server" where
  "srv_download_segment m s = (let
     k = (if rd16 m 0 = 10 then 7 - unat (drop_bit 1 (m 8) AND 7) else unat (rd16 m 0) - 3);
     d = sv_down s @ bytes_of m 9 k;
     a = sdo_answer 10 (0x20 OR (m 8 AND 0x10)) 0 0
   in if m 8 AND 0x01 \<noteq> 0 then s\<lparr>sv_obj := d, sv_down := [], sv_ans := Some a\<rparr>
      else s\<lparr>sv_down := d, sv_ans := Some a\<rparr>)"

definition srv_handle :: "nat \<Rightarrow> buf \<Rightarrow> sdo_server \<Rightarrow> sdo_server" where
  "srv_handle M m s =
     (if m 8 AND 0xe0 = 0x40 then srv_upload M m s
      else if m 8 AND 0xe0 = 0x60 then srv_upload_segment M m s
      else if m 8 AND 0xe0 = 0x20 then srv_download m s
      else if m 8 AND 0xe0 = 0x00 then srv_download_segment m s
      else s)"

definition server_link :: "nat \<Rightarrow> sdo_server mbx_link" where
  "server_link M = \<lparr>lk_send = (\<lambda>m s. Some (1, srv_handle M m s)),
     lk_receive = (\<lambda>m t s. case sv_ans s of None \<Rightarrow> Some (- 1, m, s) | Some a \<Rightarrow> Some (1, a, s\<lparr>sv_ans := None\<rparr>)),
     lk_cnt = (\<lambda>s. (1, s)),
     lk_mbx_l = (\<lambda>_. of_nat M),
     lk_sdoerror = (\<lambda>_ _ _ s. Some s),
     lk_infoerror = (\<lambda>_ _ _ s. Some s),
     lk_packeterror = (\<lambda>_ _ _ s. Some s)\<rparr>"

lemma server_link_simps [simp]:
  "lk_send (server_link M) m s = Some (1, srv_handle M m s)" "lk_cnt (server_link M) s = (1, s)"
  "lk_mbx_l (server_link M) s = of_nat M"
  by (simp_all add: server_link_def)

lemma server_receive [simp]:
  "lk_receive (server_link M) m t s = (case sv_ans s of None \<Rightarrow> Some (- 1, m, s) | Some a \<Rightarrow> Some (1, a, s\<lparr>sv_ans := None\<rparr>))"
  by (simp add: server_link_def)

lemma server_exchange:
  "sv_ans (srv_handle M mo s) = Some a \<Longrightarrow>
     mbx_exchange (server_link M) mi mo t s = Some (1, a, (srv_handle M mo s)\<lparr>sv_ans := None\<rparr>)"
  by (simp add: mbx_exchange_def)

section \<open>Frames\<close>

lemma sdo_answer_simps [simp]:
  "sdo_answer len com i j 5 = 3" "sdo_answer len com i j 8 = com" "sdo_answer len com i j 11 = j"
  "rd16 (sdo_answer len com i j) 0 = len" "rd16 (sdo_answer len com i j) 6 = 0x3000" "rd16 (sdo_answer len com i j) 9 = i"
  by (simp_all add: sdo_answer_def put_le_apply)

lemma coe_header_simps:
  assumes "coe_header (server_link M) len co m s = (m', s')"
  shows "s' = s" "rd16 m' 0 = len" "8 \<le> x \<Longrightarrow> m' x = m x"
  using assms by (auto simp: coe_header_def Let_def put_le_apply)

lemma upload_request_shape:
  "\<exists>m. sdo_upload_request (server_link M) com i j mo s = (m, s) \<and> m 8 = com \<and> rd16 m 9 = i \<and> m 11 = j"
  by (simp add: sdo_upload_request_def coe_header_def put_le_apply)

lemma bytes_of_memcpy_end [simp]: "bytes_of (memcpy m d p h k) d k = bytes_of p h k"
  by (rule nth_equalityI) (simp_all add: memcpy_apply)

lemma bytes_of_append: "bytes_of p h k @ bytes_of p (h + k) l = bytes_of p h (k + l)"
  by (rule nth_equalityI) (auto simp: nth_append)

lemma memcpy_append:
  "memcpy (memcpy q 0 b 0 h) h b h k = memcpy q 0 b 0 (h + k)"
  by (rule ext) (auto simp: memcpy_apply)

lemma memcpy_shift:
  assumes "\<And>i. i < k \<Longrightarrow> b (s + i) = b' (s' + i)"
  shows "memcpy q d b s k = memcpy q d b' s' k"
proof
  fix x show "memcpy q d b s k x = memcpy q d b' s' k x" using assms [of "x - d"] by (auto simp: memcpy_apply)
qed

lemma buf_of_drop: "i < length d - h \<Longrightarrow> buf_of (drop h d) i = buf_of d (h + i)"
  by (auto simp: buf_of_def)

lemma buf_of_bytes_of: "i < n \<Longrightarrow> buf_of (bytes_of p 0 n) i = p i"
  by (simp add: buf_of_def)

section \<open>Upload\<close>

lemma unat_7_minus:
  assumes "unat (x :: u8) \<le> 7"
  shows "unat (7 - ucast x :: u16) = 7 - unat x"
proof -
  have u: "unat (ucast x :: u16) = unat x"
    using assms by (simp add: unsigned_ucast_eq take_bit_nat_eq_self)
  then show ?thesis using assms by (subst unat_sub) (simp_all add: word_le_nat_alt)
qed

lemma seg_com_props:
  assumes "tg \<in> {0, 0x10}"
  shows "(0x60 + tg) AND 0xe0 = (0x60 :: u8)" "(0x60 + tg) AND 0x10 = tg" "seg_com tg fin k AND 0xe0 = 0"
    "0 < seg_com tg fin k AND 1 \<longleftrightarrow> fin"
    "fin \<Longrightarrow> k \<le> 7 \<Longrightarrow> unat (drop_bit 1 (seg_com tg fin k AND 0x0e)) = 7 - k" "tg XOR 0x10 \<in> {0, 0x10}"
proof -
  have short: "\<forall>tg \<in> {0, 0x10 :: u8}. \<forall>k \<in> set [0..<7]. (tg + (1 + push_bit 1 (of_nat (7 - k)))) AND 0xe0 = 0 \<and>
      (tg + (1 + push_bit 1 (of_nat (7 - k)))) AND 1 = 1 \<and>
      unat (drop_bit 1 ((tg + (1 + push_bit 1 (of_nat (7 - k)))) AND 0x0e)) = 7 - k"
    by code_simp
  have k: "k < 7 \<Longrightarrow> k \<in> set [0..<7]" by simp
  show "(0x60 + tg) AND 0xe0 = (0x60 :: u8)" "(0x60 + tg) AND 0x10 = tg" "tg XOR 0x10 \<in> {0, 0x10}" using assms by auto
  show "seg_com tg fin k AND 0xe0 = 0" "0 < seg_com tg fin k AND 1 \<longleftrightarrow> fin"
    using assms short [rule_format, OF assms k] by (auto simp: seg_com_def)
  show "unat (drop_bit 1 (seg_com tg fin k AND 0x0e)) = 7 - k" if "fin" "k \<le> 7"
    using assms short [rule_format, OF assms k] that by (auto simp: seg_com_def le_less)
qed

lemma upload_segment_step:
  assumes M: "16 \<le> M" "M \<le> EC_MAXMBX" and tg: "tg \<in> {0, 0x10}" and up: "sv_up s = drop h d" "h < length d"
  defines "k \<equiv> min (length d - h) (M - 9)"
  shows "\<exists>mi' mo' s'. sdo_upload_segment (server_link M) i j t cap (w, int h, h, memcpy q 0 (buf_of d) 0 h, tg, mi, mo, s) =
      (if h + k \<le> cap then Some ((1, int (h + k), if k = length d - h then h else h + k, memcpy q 0 (buf_of d) 0 (h + k),
        tg XOR 0x10, mi', mo', s'), k \<noteq> length d - h) else None) \<and> sv_up s' = drop (h + k) d \<and> sv_obj s' = sv_obj s"
proof -
  let ?L = "server_link M" and ?fin = "k = length d - h"
  obtain mo1 where 1: "sdo_upload_request ?L (0x60 + tg) i j mo s = (mo1, s)" "mo1 8 = 0x60 + tg"
    using upload_request_shape by blast
  define s' where "s' = s\<lparr>sv_up := drop k (sv_up s), sv_ans := None\<rparr>"
  define a where "a = memcpy (sdo_answer (if ?fin \<and> k < 7 then 10 else of_nat (3 + k)) (seg_com tg ?fin k) 0 0) 9 (buf_of (sv_up s)) 0 k"
  note c = seg_com_props [OF tg]
  have ans: "srv_handle M mo1 s = s'\<lparr>sv_ans := Some a\<rparr>"
    using up by (simp add: srv_handle_def 1(2) c(1,2) srv_upload_segment_def Let_def s'_def a_def k_def)
  then have 2: "mbx_exchange ?L mi mo1 t s = Some (1, a, s')"
    using server_exchange [of M mo1 s a mi t] by (simp add: s'_def)
  have k: "k \<le> length d - h" "k < 65530" "9 + k \<le> M" "\<not> ?fin \<Longrightarrow> 7 \<le> k" using M up by (auto simp: k_def)
  have a: "is_coe ECT_COES_SDORES a" "a 8 = seg_com tg ?fin k" "rd16 a 0 = (if ?fin \<and> k < 7 then 10 else of_nat (3 + k))"
    by (simp_all add: a_def is_coe_def memcpy_apply)
  define n where "n = rd16 a 0 - 3"
  have n: "unat (if ?fin \<and> n = 7 then n - ucast (drop_bit 1 (a 8 AND 0x0e)) else n) = k"
  proof (cases "?fin \<and> k \<le> 7")
    case True
    then have n7: "n = 7" by (cases "k = 7") (auto simp: n_def a(3))
    have u: "unat (drop_bit 1 (seg_com tg ?fin k AND 0x0e)) = 7 - k" using c(5) [of ?fin k] True by blast
    have "unat (7 - ucast (drop_bit 1 (seg_com tg ?fin k AND 0x0e)) :: u16) = 7 - (7 - k)"
      using unat_7_minus [of "drop_bit 1 (seg_com tg ?fin k AND 0x0e)"] unfolding u by simp
    with True n7 show ?thesis unfolding a(2) by simp
  next
    case False
    then have "n = of_nat k" "\<not> (?fin \<and> k < 7)" by (auto simp: n_def a(3))
    moreover have "of_nat k \<noteq> (7 :: u16)" if "?fin"
    proof
      assume "of_nat k = (7 :: u16)"
      then have "unat (of_nat k :: u16) = 7" by simp
      then show False using False k(2) that by (simp add: unat_of_nat_u16)
    qed
    ultimately show ?thesis using k(2) by (auto simp: unat_of_nat_u16)
  qed
  have mem: "memcpy (memcpy q 0 (buf_of d) 0 h) h a 9 k = memcpy q 0 (buf_of d) 0 (h + k)"
  proof -
    have "memcpy (memcpy q 0 (buf_of d) 0 h) h a 9 k = memcpy (memcpy q 0 (buf_of d) 0 h) h (buf_of d) h k"
      using up k(1) by (intro memcpy_shift) (simp add: a_def memcpy_apply buf_of_drop)
    then show ?thesis by (simp add: memcpy_append)
  qed
  have bounds: "9 + k \<le> EC_MAXMBX" using M k by simp
  have "sdo_upload_segment ?L i j t cap (w, int h, h, memcpy q 0 (buf_of d) 0 h, tg, mi, mo, s) =
      (if h + k \<le> cap then Some ((1, int (h + k), if ?fin then h else h + k, memcpy q 0 (buf_of d) 0 (h + k), tg XOR 0x10, a, mo1, s'), \<not> ?fin)
       else None)"
    using n bounds mem unfolding n_def
    by (cases "?fin") (simp_all add: sdo_upload_segment_def 1(1) 2 a(1) a(2) c(3,4) Let_def uint_nat del: of_nat_unat)
  moreover have "sv_up s' = drop (h + k) d" "sv_obj s' = sv_obj s" using up by (simp_all add: s'_def add.commute)
  ultimately show ?thesis by blast
qed

lemma upload_loop:
  assumes M: "16 \<le> M" "M \<le> EC_MAXMBX" and tg: "tg \<in> {0, 0x10}" and up: "sv_up s = drop h d" "h < length d" "length d \<le> cap"
  shows "runs_to (do_while (sdo_upload_segment (server_link M) i j t cap) (w, int h, h, memcpy q 0 (buf_of d) 0 h, tg, mi, mo, s))
    (\<lambda>(w, n, hp, p, tg, mi, mo, s'). w = 1 \<and> n = int (length d) \<and> p = memcpy q 0 (buf_of d) 0 (length d) \<and> sv_obj s' = sv_obj s)"
proof (rule do_while_total [where R = "measure (\<lambda>(w, n, hp, r). length d - hp)"
      and I = "\<lambda>(w, n, hp, p, tg, mi, mo, s'). n = int hp \<and> hp < length d \<and> p = memcpy q 0 (buf_of d) 0 hp \<and>
        tg \<in> {0, 0x10} \<and> sv_up s' = drop hp d \<and> sv_obj s' = sv_obj s"], goal_cases)
  case (3 st)
  obtain w n hp p tg mi mo s1 where st: "st = (w, n, hp, p, tg, mi, mo, s1)" by (metis surj_pair)
  with 3 have I: "n = int hp" "hp < length d" "p = memcpy q 0 (buf_of d) 0 hp" "tg \<in> {0, 0x10}" "sv_up s1 = drop hp d"
    "sv_obj s1 = sv_obj s" by simp_all
  define k where "k = min (length d - hp) (M - 9)"
  have le: "hp + k \<le> cap" using I(2) up(3) by (simp add: k_def)
  obtain mi' mo' s' where r: "sdo_upload_segment (server_link M) i j t cap (w, int hp, hp, memcpy q 0 (buf_of d) 0 hp, tg, mi, mo, s1) =
      Some ((1, int (hp + k), if k = length d - hp then hp else hp + k, memcpy q 0 (buf_of d) 0 (hp + k), tg XOR 0x10, mi', mo', s'),
        k \<noteq> length d - hp)" "sv_up s' = drop (hp + k) d" "sv_obj s' = sv_obj s1"
    using upload_segment_step [OF M I(4,5,2), of i j t cap w q mi mo, folded k_def, unfolded if_P [OF le]] by blast
  have k: "0 < k" "k \<le> length d - hp" "k \<noteq> length d - hp \<Longrightarrow> hp + k < length d" using M I(2) by (auto simp: k_def)
  have "k = length d - hp \<Longrightarrow> int (hp + k) = int (length d)" "k = length d - hp \<Longrightarrow> hp + k = length d" using I(2) by simp_all
  then show ?case
    using r k I(6) seg_com_props(6) [OF I(4)] unfolding st I(1,3) by auto
qed (use tg up in auto)

lemma sint_of_nat_u32: "n < 2 ^ 31 \<Longrightarrow> sint (of_nat n :: u32) = int n"
  using signed_take_bit_int_eq_self [of 31 "int n"] by (simp add: signed_of_nat)

lemma srv_handle_upload:
  assumes "com \<in> {0x40, 0x50}" "m 8 = com"
  shows "srv_handle M m s = srv_upload M m s"
  using assms by (auto simp: srv_handle_def)

lemma expedited_com:
  assumes "1 \<le> n" "n \<le> 4"
  shows "(0x43 OR push_bit 2 (of_nat (4 - n)) :: u8) AND 2 > 0" "4 - unat (drop_bit 2 (0x43 OR push_bit 2 (of_nat (4 - n)) :: u8) AND 3) = n"
proof -
  have "n \<in> set [1, 2, 3, 4]" using assms by auto
  moreover have "\<forall>n \<in> set [1, 2, 3, 4]. (0x43 OR push_bit 2 (of_nat (4 - n)) :: u8) AND 2 > 0 \<and>
      4 - unat (drop_bit 2 (0x43 OR push_bit 2 (of_nat (4 - n)) :: u8) AND 3) = n" by code_simp
  ultimately show "(0x43 OR push_bit 2 (of_nat (4 - n)) :: u8) AND 2 > 0"
    "4 - unat (drop_bit 2 (0x43 OR push_bit 2 (of_nat (4 - n)) :: u8) AND 3) = n" by blast+
qed

lemma sdo_read_serves:
  assumes M: "16 \<le> M" "M \<le> EC_MAXMBX" and n: "length (sv_obj s) < 2 ^ 31" "int (length (sv_obj s)) \<le> psize"
  shows "\<exists>s'. sdo_read (server_link M) i j CA psize q t s =
    Some (1, int (length (sv_obj s)), memcpy q 0 (buf_of (sv_obj s)) 0 (length (sv_obj s)), s') \<and> sv_obj s' = sv_obj s"
proof -
  let ?L = "server_link M" and ?d = "sv_obj s"
  let ?n = "length ?d"
  define j' where "j' = (if CA \<and> j > 1 then 1 else j)"
  obtain w0 m0 where 0: "lk_receive ?L (ec_clearmbx zero_buf) 0 s = Some (w0, m0, s\<lparr>sv_ans := None\<rparr>)"
    by (cases "sv_ans s") auto
  define s1 where "s1 = s\<lparr>sv_ans := None\<rparr>"
  define com where "com = (if CA then ECT_SDO_UP_REQ_CA else ECT_SDO_UP_REQ)"
  obtain mo where mo: "sdo_upload_request ?L com i j' (ec_clearmbx zero_buf) s1 = (mo, s1)" "mo 8 = com" "rd16 mo 9 = i"
    "mo 11 = j'" using upload_request_shape by blast
  have h: "srv_handle M mo s1 = srv_upload M mo s1" by (rule srv_handle_upload [where com = com]) (auto simp: com_def mo)
  have read: "sdo_read ?L i j CA psize q t s = (case mbx_exchange ?L m0 mo t s1 of None \<Rightarrow> None | Some (w, m, c) \<Rightarrow>
      if w > 0 then sdo_upload_answer ?L i j' psize w q t m mo c else Some (w, psize, q, c))"
    unfolding sdo_read_def 0 Option.bind.bind_lunit prod.case Let_def s1_def [symmetric] com_def [symmetric] j'_def [symmetric] mo(1)
    by (cases "mbx_exchange ?L m0 mo t s1") simp_all
  show ?thesis
  proof (cases "1 \<le> ?n \<and> ?n \<le> 4")
    case True
    define a where "a = memcpy (sdo_answer 10 (0x43 OR push_bit 2 (of_nat (4 - ?n))) i j') 12 (buf_of ?d) 0 ?n"
    have "srv_handle M mo s1 = s1\<lparr>sv_ans := Some a\<rparr>" unfolding h srv_upload_def Let_def mo using True by (simp add: s1_def a_def)
    then have x: "mbx_exchange ?L m0 mo t s1 = Some (1, a, s1)" using server_exchange [of M mo s1 a m0 t] by (simp add: s1_def)
    have a: "is_coe ECT_COES_SDORES a" "rd16 a 9 = i" "a 8 = 0x43 OR push_bit 2 (of_nat (4 - ?n))"
      by (simp_all add: a_def is_coe_def memcpy_apply)
    have mem: "memcpy q 0 a 12 ?n = memcpy q 0 (buf_of ?d) 0 ?n" by (rule memcpy_shift) (simp add: a_def memcpy_apply)
    have "sdo_read ?L i j CA psize q t s = Some (1, int ?n, memcpy q 0 (buf_of ?d) 0 ?n, s1)"
      using True expedited_com [of ?n] n(2) mem by (simp add: read x sdo_upload_answer_def a mo(3) Let_def)
    then show ?thesis by (simp add: s1_def)
  next
    case False
    define k where "k = min ?n (M - 16)"
    define s2 where "s2 = s1\<lparr>sv_up := drop k ?d\<rparr>"
    define a where "a = memcpy (wr32 (sdo_answer (of_nat (10 + k)) 0x41 i j') 12 (of_nat ?n)) 16 (buf_of ?d) 0 k"
    have "srv_handle M mo s1 = s2\<lparr>sv_ans := Some a\<rparr>"
      unfolding h srv_upload_def Let_def mo using False by (auto simp: s1_def s2_def a_def k_def)
    then have x: "mbx_exchange ?L m0 mo t s1 = Some (1, a, s2)"
      using server_exchange [of M mo s1 a m0 t] by (simp add: s1_def s2_def)
    have a: "is_coe ECT_COES_SDORES a" "rd16 a 9 = i" "a 8 = 0x41" "rd16 a 0 = of_nat (10 + k)" "rd32 a 12 = of_nat ?n"
      by (simp_all add: a_def is_coe_def memcpy_apply put_le_apply)
    have k: "k \<le> ?n" "16 + k \<le> EC_MAXMBX" using M by (auto simp: k_def)
    have len: "rd16 a 0 - 10 = of_nat k" by (simp add: a(4))
    have uk: "unat (of_nat k :: u16) = k" "uint (of_nat k :: u16) = int k" using k by (simp_all add: unat_of_nat_u16 uint_nat del: of_nat_unat)
    have sn: "sint (of_nat ?n :: u32) = int ?n" by (rule sint_of_nat_u32 [OF n(1)])
    have mem: "memcpy q 0 a 16 k = memcpy q 0 (buf_of ?d) 0 k" by (rule memcpy_shift) (simp add: a_def memcpy_apply)
    have ans: "sdo_upload_answer ?L i j' psize 1 q t a mo s2 = (if k < ?n
      then (case do_while (sdo_upload_segment ?L i j' t (nat psize)) (1, int k, k, memcpy q 0 (buf_of ?d) 0 k, 0x00, a, mo, s2) of
        None \<Rightarrow> None | Some (w, n, hp, p, tg, mi, mo, s) \<Rightarrow> Some (w, n, p, s))
      else Some (1, int ?n, memcpy q 0 a 16 ?n, s2))"
      using n(2) k by (simp add: sdo_upload_answer_def a(1-3,5) mo(3) len sn uk mem Let_def split: option.split)
    show ?thesis
    proof (cases "k < ?n")
      case True
      have "sv_up s2 = drop k ?d" "?n \<le> nat psize" using n(2) by (simp_all add: s2_def)
      from upload_loop [OF M _ this(1) True this(2), of 0 i j' t 1 q a mo] obtain hp tg mi mo' s3 where
        "do_while (sdo_upload_segment ?L i j' t (nat psize)) (1, int k, k, memcpy q 0 (buf_of ?d) 0 k, 0x00, a, mo, s2) =
          Some (1, int ?n, hp, memcpy q 0 (buf_of ?d) 0 ?n, tg, mi, mo', s3)" "sv_obj s3 = sv_obj s2"
        by (auto simp: runs_to_iff)
      moreover from this(2) have "sv_obj s3 = ?d" by (simp add: s2_def s1_def)
      ultimately show ?thesis using True by (simp add: read x ans)
    next
      case False
      with k have "k = ?n" by simp
      moreover have "sv_obj s2 = ?d" by (simp add: s2_def s1_def)
      ultimately show ?thesis using mem by (simp add: read x ans)
    qed
  qed
qed

section \<open>Download\<close>

lemma frame_shape:
  "\<exists>m. sdo_frame (server_link M) len com i j mo s = (m, s) \<and> m 8 = com \<and> rd16 m 0 = len \<and> rd16 m 9 = i \<and> m 11 = j"
  by (simp add: sdo_frame_def coe_header_def put_le_apply)

text \<open>The command of a download segment, as the master composes it, and how the slave reads it.\<close>

definition down_com :: "bool \<Rightarrow> nat \<Rightarrow> u8" where
  "down_com NotLast k = (if \<not> NotLast \<and> k < 7 then 0x01 + push_bit 1 (7 - of_nat k) else if NotLast then 0x00 else 0x01)"

lemma down_com_props:
  assumes "tg \<in> {0, 0x10}" "k = 0 \<longrightarrow> False"
  shows "(down_com nl k + tg) AND 0xe0 = 0" "(down_com nl k + tg) AND 0x10 = tg" "(down_com nl k + tg) AND 1 \<noteq> 0 \<longleftrightarrow> \<not> nl"
    "\<not> nl \<Longrightarrow> k \<le> 7 \<Longrightarrow> 7 - unat (drop_bit 1 (down_com nl k + tg) AND 7) = k"
proof -
  have short: "\<forall>tg \<in> {0, 0x10 :: u8}. \<forall>k \<in> set [1..<7]. (0x01 + push_bit 1 (7 - of_nat k) + tg) AND 0xe0 = 0 \<and>
      (0x01 + push_bit 1 (7 - of_nat k) + tg) AND 0x10 = tg \<and> (0x01 + push_bit 1 (7 - of_nat k) + tg) AND 1 \<noteq> 0 \<and>
      7 - unat (drop_bit 1 (0x01 + push_bit 1 (7 - of_nat k) + tg) AND 7) = k"
    by code_simp
  have k: "k < 7 \<Longrightarrow> k \<in> set [1..<7]" using assms(2) by auto
  note short = short [rule_format, OF assms(1) k]
  show "(down_com nl k + tg) AND 0xe0 = 0" "(down_com nl k + tg) AND 0x10 = tg" "(down_com nl k + tg) AND 1 \<noteq> 0 \<longleftrightarrow> \<not> nl"
    using assms(1) short by (auto simp: down_com_def)
  show "7 - unat (drop_bit 1 (down_com nl k + tg) AND 7) = k" if "\<not> nl" "k \<le> 7"
    using assms(1) short that by (auto simp: down_com_def le_less)
qed

lemma download_segment_step:
  assumes M: "16 \<le> M" "M \<le> EC_MAXMBX" and tg: "tg \<in> {0, 0x10}" and h: "h < n" and down: "sv_down s = bytes_of p 0 h"
  defines "k \<equiv> min (n - h) (M - 9)"
  shows "\<exists>mi' mo' s'. sdo_download_segment (server_link M) i j p (int M - 9) t (True, w, int (n - h), h, tg, mi, mo, s) =
      Some (h + k < n, 1, int (n - (h + k)), h + k, tg XOR 0x10, mi', mo', s') \<and>
      (if h + k < n then sv_down s' = bytes_of p 0 (h + k) else sv_obj s' = bytes_of p 0 n)"
proof -
  let ?L = "server_link M" and ?nl = "h + k < n"
  have k: "0 < k" "k \<le> n - h" "9 + k \<le> M" "?nl \<Longrightarrow> k = M - 9" using M h by (auto simp: k_def)
  have nl: "int (n - h) > int M - 9 \<longleftrightarrow> ?nl" and fds: "(if int (n - h) > int M - 9 then int M - 9 else int (n - h)) = int k"
    using M h by (auto simp: k_def min_def)
  define len :: u16 where "len = (if \<not> ?nl \<and> k < 7 then 0x0a else of_nat (k + 3))"
  have lc: "(if \<not> int (n - h) > int M - 9 \<and> int k < 7
       then (0x0a, 0x01 + push_bit 1 (7 - word_of_int (int k)))
       else (word_of_int (int k + 3), if int (n - h) > int M - 9 then 0x00 else 0x01)) = (len, down_com ?nl k)"
    unfolding nl by (auto simp: len_def down_com_def)
  obtain mo1 where 1: "coe_header ?L len (push_bit 12 ECT_COES_SDOREQ) mo s = (mo1, s)" "rd16 mo1 0 = len"
    by (auto simp: coe_header_def)
  define m where "m = memcpy (mo1(8 := down_com ?nl k + tg)) 9 p h k"
  have m: "m 8 = down_com ?nl k + tg" "rd16 m 0 = len" "bytes_of m 9 k = bytes_of p h k"
    by (simp_all add: m_def memcpy_apply 1(2))
  note c = down_com_props [OF tg, of k ?nl]
  have kl: "(if rd16 m 0 = 10 then 7 - unat (drop_bit 1 (m 8) AND 7) else unat (rd16 m 0) - 3) = k"
  proof (cases "\<not> ?nl \<and> k \<le> 7")
    case True
    then have "len = 10" by (cases "k = 7") (auto simp: len_def)
    with True k(1) c(4) show ?thesis by (simp only: m if_True) simp
  next
    case False
    then have "len = of_nat (k + 3)" "7 \<le> k" "?nl \<or> k \<noteq> 7" using k(4) M by (auto simp: len_def)
    moreover have "k + 3 < 65536" using k M by simp
    ultimately have l: "unat len = k + 3" by (simp add: unat_of_nat_u16 del: of_nat_add)
    show ?thesis
    proof (cases "k = 7")
      case True
      with False have "?nl" by simp
      with True have "down_com ?nl k = 0" by (simp add: down_com_def)
      moreover have "unat (drop_bit 1 tg AND 7) = 0" using tg by auto
      ultimately show ?thesis using True l by (simp add: m)
    next
      case False
      then have "len \<noteq> 10" using l by (auto dest: arg_cong [of _ _ unat])
      then show ?thesis using l by (simp add: m)
    qed
  qed
  define s1 where "s1 = (if ?nl then s\<lparr>sv_down := bytes_of p 0 (h + k)\<rparr> else s\<lparr>sv_obj := bytes_of p 0 n, sv_down := []\<rparr>)"
  define a where "a = sdo_answer 10 (0x20 OR tg) 0 0"
  have d: "sv_down s @ bytes_of m 9 k = bytes_of p 0 (h + k)"
    using bytes_of_append [of p 0 h k] by (simp add: down m(3))
  have "srv_handle M m s = s1\<lparr>sv_ans := Some a\<rparr>"
  proof -
    have "srv_handle M m s = srv_download_segment m s"
      using c(1) k(1) by (simp add: srv_handle_def m(1))
    moreover have hk: "\<not> ?nl \<Longrightarrow> h + k = n" using k(2) h by simp
    have "srv_download_segment m s = s1\<lparr>sv_ans := Some a\<rparr>"
      unfolding srv_download_segment_def kl Let_def d unfolding m(1) using c(2,3) k(1) hk
      by (cases ?nl) (simp_all add: s1_def a_def)
    ultimately show ?thesis by simp
  qed
  then have 2: "mbx_exchange ?L mi m t s = Some (1, a, s1\<lparr>sv_ans := None\<rparr>)"
    using server_exchange [of M m s a mi t] by simp
  have ok: "is_coe ECT_COES_SDORES a" "a 8 AND 0xe0 = 0x20" using tg by (auto simp: a_def is_coe_def)
  have "sdo_download_segment ?L i j p (int M - 9) t (True, w, int (n - h), h, tg, mi, mo, s) =
      Some (?nl, 1, int (n - h) - int k, h + k, tg XOR 0x10, a, m, s1\<lparr>sv_ans := None\<rparr>)"
    unfolding sdo_download_segment_def prod.case Let_def fds lc 1(1)
    using k M ok nl by (simp add: m_def [symmetric] 2)
  moreover have "int (n - h) - int k = int (n - (h + k))" using k(2) h by simp
  ultimately show ?thesis by (auto simp: s1_def)
qed

lemma download_loop:
  assumes M: "16 \<le> M" "M \<le> EC_MAXMBX" and start: "h \<le> n" "h < n \<Longrightarrow> sv_down s = bytes_of p 0 h" "h = n \<Longrightarrow> sv_obj s = bytes_of p 0 n"
  shows "runs_to (while_do fst (sdo_download_segment (server_link M) i j p (int M - 9) t) (h < n, 1, int (n - h), h, 0, mi, mo, s))
    (\<lambda>(nl, w, r, hp, tg, mi, mo, s'). w = 1 \<and> sv_obj s' = bytes_of p 0 n)"
proof (rule while_do_total [where R = "measure (\<lambda>(nl, w, r, hp, x). n - hp)"
      and I = "\<lambda>(nl, w, r, hp, tg, mi, mo, s'). nl = (hp < n) \<and> w = 1 \<and> r = int (n - hp) \<and> hp \<le> n \<and> tg \<in> {0, 0x10} \<and>
        (if hp < n then sv_down s' = bytes_of p 0 hp else sv_obj s' = bytes_of p 0 n)"], goal_cases)
  case (3 st)
  obtain nl w r hp tg mi mo s1 where st: "st = (nl, w, r, hp, tg, mi, mo, s1)" by (metis surj_pair)
  with 3 have I: "nl" "hp < n" "w = 1" "r = int (n - hp)" "tg \<in> {0, 0x10}" "sv_down s1 = bytes_of p 0 hp"
    by simp_all
  define k where "k = min (n - hp) (M - 9)"
  have k: "0 < k" "hp + k \<le> n" using M I(2) by (auto simp: k_def)
  obtain mi' mo' s' where r: "sdo_download_segment (server_link M) i j p (int M - 9) t (True, w, int (n - hp), hp, tg, mi, mo, s1) =
      Some (hp + k < n, 1, int (n - (hp + k)), hp + k, tg XOR 0x10, mi', mo', s')"
      "if hp + k < n then sv_down s' = bytes_of p 0 (hp + k) else sv_obj s' = bytes_of p 0 n"
    using download_segment_step [OF M I(5,2,6), of i j t w mi mo] unfolding k_def by blast
  have nl: "nl = True" using I(1) by simp
  have "n - (hp + k) < n - hp" using k I(2) by linarith
  with r k seg_com_props(6) [OF I(5)] show ?case unfolding st I(4) nl by simp
qed (use start in auto)

lemma expedited_down:
  assumes "1 \<le> n" "n \<le> 4"
  defines "com \<equiv> (0x23 OR (push_bit 2 (4 - of_nat n) AND 0x0c) :: u8)"
  shows "com AND 0xe0 = 0x20" "com AND 2 \<noteq> 0" "4 - unat (drop_bit 2 com AND 3) = n"
proof -
  have "n \<in> set [1, 2, 3, 4]" using assms by auto
  moreover have "\<forall>n \<in> set [1, 2, 3, 4]. (0x23 OR (push_bit 2 (4 - of_nat n) AND 0x0c) :: u8) AND 0xe0 = 0x20 \<and>
      (0x23 OR (push_bit 2 (4 - of_nat n) AND 0x0c) :: u8) AND 2 \<noteq> 0 \<and>
      4 - unat (drop_bit 2 (0x23 OR (push_bit 2 (4 - of_nat n) AND 0x0c) :: u8) AND 3) = n" by code_simp
  ultimately show "com AND 0xe0 = 0x20" "com AND 2 \<noteq> 0" "4 - unat (drop_bit 2 com AND 3) = n"
    unfolding com_def by blast+
qed

lemma srv_handle_download: "m 8 AND 0xe0 = 0x20 \<Longrightarrow> srv_handle M m s = srv_download m s"
  by (simp add: srv_handle_def)

lemma sdo_write_stores:
  assumes M: "16 \<le> M" "M \<le> EC_MAXMBX" and n: "n < 2 ^ 31" "1 \<le> n \<or> CA"
  shows "\<exists>s'. sdo_write (server_link M) i j CA (int n) p t s = Some (1, s') \<and> sv_obj s' = bytes_of p 0 n"
proof -
  let ?L = "server_link M"
  obtain w0 m0 where 0: "lk_receive ?L (ec_clearmbx zero_buf) 0 s = Some (w0, m0, s\<lparr>sv_ans := None\<rparr>)"
    by (cases "sv_ans s") auto
  define s1 where "s1 = s\<lparr>sv_ans := None\<rparr>"
  have max: "uint (lk_mbx_l ?L s1) - 0x10 = int M - 16" using M by (simp add: uint_nat unat_of_nat_u16 del: of_nat_unat)
  show ?thesis
  proof (cases "int n \<le> 4 \<and> \<not> CA")
    case True
    then have n4: "1 \<le> n" "n \<le> 4" using n by simp_all
    define com where "com = (0x23 OR (push_bit 2 (4 - of_nat n) AND 0x0c) :: u8)"
    note c = expedited_down [OF n4, folded com_def]
    obtain mo where mo: "sdo_frame ?L 0x000a com i j (ec_clearmbx zero_buf) s1 = (mo, s1)" "mo 8 = com" "rd16 mo 9 = i" "mo 11 = j"
      using frame_shape by blast
    define m where "m = memcpy mo 12 p 0 n"
    have m: "m 8 = com" "rd16 m 9 = i" "m 11 = j" "bytes_of m 12 n = bytes_of p 0 n"
      by (simp_all add: m_def memcpy_apply mo)
    define a where "a = sdo_answer 10 0x60 i j"
    have "srv_handle M m s1 = s1\<lparr>sv_obj := bytes_of p 0 n, sv_ans := Some a\<rparr>"
      using c m by (simp add: srv_handle_download srv_download_def a_def Let_def)
    then have x: "mbx_exchange ?L m0 m t s1 = Some (1, a, s1\<lparr>sv_obj := bytes_of p 0 n\<rparr>)"
      using server_exchange [of M m s1 a m0 t] by (simp add: s1_def)
    have a: "is_coe ECT_COES_SDORES a" "rd16 a 9 = i" "a 11 = j" by (simp_all add: a_def is_coe_def)
    have com: "ECT_SDO_DOWN_EXP OR (push_bit 2 (4 - word_of_int (int n)) AND 0x0c) = com" by (simp add: com_def)
    have "sdo_write ?L i j CA (int n) p t s = Some (1, s1\<lparr>sv_obj := bytes_of p 0 n\<rparr>)"
      unfolding sdo_write_def 0 Option.bind.bind_lunit prod.case Let_def s1_def [symmetric] if_P [OF True] com mo(1)
      by (simp add: m_def [symmetric] x a m(2,3))
    then show ?thesis by simp
  next
    case False
    define k where "k = min n (M - 16)"
    have fds: "(if int n > int M - 16 then int M - 16 else int n) = int k" and nl: "int n > int M - 16 \<longleftrightarrow> k < n"
      using M by (auto simp: k_def)
    have k: "k \<le> n" "16 + k \<le> EC_MAXMBX" using M by (auto simp: k_def)
    define com where "com = (if CA then ECT_SDO_DOWN_INIT_CA else ECT_SDO_DOWN_INIT)"
    define j' where "j' = (if CA \<and> j > 1 then 1 else j)"
    obtain mo where mo: "sdo_frame ?L (word_of_int (0x0a + int k)) com i j' (ec_clearmbx zero_buf) s1 = (mo, s1)"
      "mo 8 = com" "rd16 mo 0 = word_of_int (0x0a + int k)" "rd16 mo 9 = i" "mo 11 = j'"
      using frame_shape by blast
    define m where "m = memcpy (wr32 mo 12 (word_of_int (int n))) 16 p 0 k"
    have m: "m 8 = com" "rd16 m 0 = of_nat (10 + k)" "rd16 m 9 = i" "m 11 = j'" "rd32 m 12 = of_nat n" "bytes_of m 16 k = bytes_of p 0 k"
      by (simp_all add: m_def memcpy_apply put_le_apply mo)
    have u: "unat (of_nat (10 + k) :: u16) = 10 + k" using k by (simp add: unat_of_nat_u16 del: of_nat_add)
    have un: "unat (of_nat n :: u32) = n" using n(1) by (simp add: unsigned_of_nat take_bit_nat_eq_self)
    define a where "a = sdo_answer 10 0x60 i j'"
    define s2 where "s2 = (if k = n then s1\<lparr>sv_obj := bytes_of p 0 n\<rparr> else s1\<lparr>sv_down := bytes_of p 0 k\<rparr>)"
    have com: "com AND 0xe0 = 0x20" "com AND 2 = 0" by (auto simp: com_def)
    have "srv_handle M m s1 = s2\<lparr>sv_ans := Some a\<rparr>"
      using com m un u by (auto simp: srv_handle_download srv_download_def a_def s2_def Let_def simp del: of_nat_add)
    then have x: "mbx_exchange ?L m0 m t s1 = Some (1, a, s2)"
      using server_exchange [of M m s1 a m0 t] by (simp add: s1_def s2_def)
    have a: "is_coe ECT_COES_SDORES a" "rd16 a 9 = i" "a 11 = j'" by (simp_all add: a_def is_coe_def)
    have "runs_to (while_do fst (sdo_download_segment ?L i j p (int M - 9) t) (k < n, 1, int (n - k), k, 0, a, m, s2))
      (\<lambda>(nl, w, r, hp, tg, mi, mo, s'). w = 1 \<and> sv_obj s' = bytes_of p 0 n)"
      using k by (intro download_loop [OF M]) (auto simp: s2_def)
    then obtain nl' r hp tg mi mo' s3 where l: "while_do fst (sdo_download_segment ?L i j p (int M - 9) t) (k < n, 1, int (n - k), k, 0, a, m, s2) =
      Some (nl', 1, r, hp, tg, mi, mo', s3)" "sv_obj s3 = bytes_of p 0 n" by (auto simp: runs_to_iff)
    have mm: "memcpy (wr32 mo 12 (word_of_int (int n))) 16 p 0 (nat (int k)) = m" by (simp add: m_def)
    have arith: "int M - 16 + 7 = int M - 9" "int n - int k = int (n - k)" using k by simp_all
    have "sdo_write ?L i j CA (int n) p t s = Some (1, s3)"
      unfolding sdo_write_def 0 Option.bind.bind_lunit prod.case Let_def s1_def [symmetric] if_not_P [OF False] max fds
        com_def [symmetric] j'_def [symmetric] mo(1) mm x
      using k by (simp add: a m(3,4) nl arith l(1) del: of_nat_diff)
    with l(2) show ?thesis by blast
  qed
qed

section \<open>Properties\<close>

text \<open>
  C1: what \<open>ecx_SDOwrite\<close> downloads, \<open>ecx_SDOread\<close> uploads again, byte for byte and with its size,
  through a mailbox of any size the master accepts: expedited, in one frame, or in segments, alone or
  with complete access. (Nothing is a size of its own only with complete access.)
\<close>

theorem sdo_roundtrip:
  assumes "16 \<le> M" "M \<le> EC_MAXMBX" "n < 2 ^ 31" "1 \<le> n \<or> CA" "int n \<le> cap"
  shows "\<exists>s1 s2. sdo_write (server_link M) i j CA (int n) p t s = Some (1, s1) \<and>
    sdo_read (server_link M) i j CA' cap q t' s1 = Some (1, int n, memcpy q 0 p 0 n, s2)"
proof -
  from sdo_write_stores [OF assms(1-4), of i j p t s] obtain s1 where
    1: "sdo_write (server_link M) i j CA (int n) p t s = Some (1, s1)" "sv_obj s1 = bytes_of p 0 n" by blast
  have "length (sv_obj s1) < 2 ^ 31" "int (length (sv_obj s1)) \<le> cap" using assms(3,5) 1(2) by simp_all
  from sdo_read_serves [OF assms(1,2) this, of i j CA' q t'] 1(2) obtain s2 where
    2: "sdo_read (server_link M) i j CA' cap q t' s1 = Some (1, int n, memcpy q 0 (buf_of (bytes_of p 0 n)) 0 n, s2)" by auto
  moreover have "memcpy q 0 (buf_of (bytes_of p 0 n)) 0 n = memcpy q 0 p 0 n" by (rule memcpy_shift) (simp add: buf_of_bytes_of)
  ultimately show ?thesis using 1(1) by simp
qed

theorem sdo_roundtrip_witness:
  "\<exists>s1 s2. sdo_write (server_link 128) 0x8000 1 False 1000 (\<lambda>i. of_nat i) 0 \<lparr>sv_obj = [], sv_up = [], sv_down = [], sv_ans = None\<rparr> = Some (1, s1) \<and>
    sdo_read (server_link 128) 0x8000 1 False 2000 zero_buf 0 s1 = Some (1, 1000, memcpy zero_buf 0 (\<lambda>i. of_nat i) 0 1000, s2)"
  using sdo_roundtrip [of 128 1000 False 2000 "0x8000" 1 "\<lambda>i. of_nat i" 0 "\<lparr>sv_obj = [], sv_up = [], sv_down = [], sv_ans = None\<rparr>"
      False zero_buf 0] by simp

text \<open>
  A slave that sends more segments than fit makes the master write behind the caller's buffer:
  the size it announced is checked once, the sizes of the segments never.
\<close>

theorem sdo_upload_overrun:
  assumes "16 \<le> M" "M \<le> EC_MAXMBX" "tg \<in> {0, 0x10}" "sv_up s = drop h d" "h \<le> cap" "cap < length d"
  shows "do_while (sdo_upload_segment (server_link M) i j t cap) (w, int h, h, memcpy q 0 (buf_of d) 0 h, tg, mi, mo, s) = None"
  using assms(3-5)
proof (induction "length d - h" arbitrary: h w tg mi mo s rule: less_induct)
  case less
  have h: "h < length d" using less.prems(3) assms(6) by simp
  define k where "k = min (length d - h) (M - 9)"
  obtain mi' mo' s' where r: "sdo_upload_segment (server_link M) i j t cap (w, int h, h, memcpy q 0 (buf_of d) 0 h, tg, mi, mo, s) =
      (if h + k \<le> cap then Some ((1, int (h + k), if k = length d - h then h else h + k, memcpy q 0 (buf_of d) 0 (h + k),
        tg XOR 0x10, mi', mo', s'), k \<noteq> length d - h) else None)" "sv_up s' = drop (h + k) d"
    using upload_segment_step [OF assms(1,2) less.prems(1,2) h, of i j t cap w q mi mo] unfolding k_def by blast
  show ?case
  proof (cases "h + k \<le> cap")
    case True
    then have k: "k \<noteq> length d - h" "0 < k" using h assms(1,6) by (auto simp: k_def)
    have "length d - (h + k) < length d - h" using k h True assms(6) by linarith
    from less.hyps [OF this seg_com_props(6) [OF less.prems(1)] r(2) True, of 1 mi' mo']
    show ?thesis using r(1) True k(1) by (simp add: do_while.simps [of _ "(w, int h, h, memcpy q 0 (buf_of d) 0 h, tg, mi, mo, s)"])
  next
    case False
    then show ?thesis using r(1) by (simp add: do_while.simps [of _ "(w, int h, h, memcpy q 0 (buf_of d) 0 h, tg, mi, mo, s)"])
  qed
qed

theorem sdo_upload_overrun_witness:
  "do_while (sdo_upload_segment (server_link 128) 0x8000 1 0 500) (1, 0, 0, memcpy zero_buf 0 (buf_of (replicate 1000 7)) 0 0, 0, zero_buf, zero_buf,
     \<lparr>sv_obj = [], sv_up = replicate 1000 7, sv_down = [], sv_ans = None\<rparr>) = None"
  using sdo_upload_overrun [of 128 0 "\<lparr>sv_obj = [], sv_up = replicate 1000 7, sv_down = [], sv_ans = None\<rparr>" 0 "replicate 1000 7" 500
      "0x8000" 1 0 1 zero_buf zero_buf zero_buf] by simp

text \<open>
  A segmented upload from a slave that stops taking mailboxes never ends: a round without an
  answer is repeated without a limit.
\<close>

theorem sdo_upload_lost:
  assumes lost: "\<And>m c. c \<in> S \<Longrightarrow> \<exists>w c'. lk_send L m c = Some (w, c') \<and> w \<le> 0 \<and> c' \<in> S" "\<And>c. c \<in> S \<Longrightarrow> snd (lk_cnt L c) \<in> S"
    and c: "c \<in> S"
    and answer: "is_coe ECT_COES_SDORES mi" "rd16 mi 9 = rd16 mo 9" "mi 8 AND 0x02 = 0"
      "uint (rd16 mi 0 - 10) < sint (rd32 mi 12)" "sint (rd32 mi 12) \<le> psize"
  shows "sdo_upload_answer L i j psize w p t mi mo c = None"
proof -
  have req: "\<exists>m c1. sdo_upload_request L com i j mo c = (m, c1) \<and> c1 \<in> S" if "c \<in> S" for com mo c
    using lost(2) [OF that] by (auto simp: sdo_upload_request_def coe_header_def Let_def split: prod.splits)
  have "if_runs (do_while (sdo_upload_segment L i j t cap) (w, n, hp, p, tg, mi, mo, c)) (\<lambda>_. False)" if "c \<in> S" for cap w n hp p tg mi mo c
  proof (rule do_while_partial [where I = "\<lambda>(w, n, hp, p, tg, mi, mo, c). c \<in> S"], goal_cases)
    case (2 st)
    obtain w n hp p tg mi mo c where st: "st = (w, n, hp, p, tg, mi, mo, c)" by (metis surj_pair)
    with 2 have "c \<in> S" by simp
    from req [OF this] obtain m c1 where "sdo_upload_request L (ECT_SDO_SEG_UP_REQ + tg) i j mo c = (m, c1)" "c1 \<in> S" by blast
    moreover from lost(1) [OF this(2), of m] obtain w' c2 where "lk_send L m c1 = Some (w', c2)" "w' \<le> 0" "c2 \<in> S" by blast
    ultimately show ?case by (simp add: st sdo_upload_segment_def mbx_exchange_def Let_def)
  qed (use that in simp)
  then have "do_while (sdo_upload_segment L i j t cap) (w, n, hp, p, tg, mi, mo, c) = None" if "c \<in> S" for cap w n hp p tg mi mo c
    using that by (fastforce simp: if_runs_iff not_Some_eq [symmetric] simp del: not_Some_eq)
  with c answer show ?thesis by (simp add: sdo_upload_answer_def Let_def bind_eq_None_conv)
qed

definition dead_link :: "unit mbx_link" where
  "dead_link = \<lparr>lk_send = (\<lambda>m s. Some (0, s)), lk_receive = (\<lambda>m t s. Some (0, m, s)), lk_cnt = (\<lambda>s. (1, s)), lk_mbx_l = (\<lambda>_. 128),
     lk_sdoerror = (\<lambda>_ _ _ s. Some s), lk_infoerror = (\<lambda>_ _ _ s. Some s), lk_packeterror = (\<lambda>_ _ _ s. Some s)\<rparr>"

theorem sdo_upload_lost_witness:
  "sdo_upload_answer dead_link 0x8000 1 2000 1 zero_buf 0 (wr32 (sdo_answer 110 0x41 0x8000 1) 12 1000) (sdo_answer 10 0x40 0x8000 1) () = None"
  by (rule sdo_upload_lost [where S = UNIV]) (simp_all add: dead_link_def is_coe_def put_le_apply)

text \<open>
  C31: a download through the mailboxes of the master always ends, whatever the network and the slave
  do, with the master in order and the slave's configuration untouched, when the slave has a mailbox
  of a usable size. An upload that ends keeps the master in order too.
\<close>

theorem ecx_SDOwrite_returns:
  assumes "ctx_ok E now c" "good_hook E now hook" "slave < maxslave c" "0 \<le> psize"
    and "16 \<le> unat (sl_mbx_l (slavelist c slave))" "unat (sl_mbx_l (slavelist c slave)) \<le> EC_MAXMBX"
  shows "(\<exists>w c'. ecx_SDOwrite E hook slave i j CA psize p t c = Some (w, c') \<and> ctx_step E now c c') \<and>
    if_runs (ecx_SDOread E hook slave i j CA n q t c) (\<lambda>(w, n', q', c'). ctx_step E now c c')"
proof
  have s: "link_step E now hook slave c c" using assms(1-3) by (simp add: link_step_def ctx_step_refl)
  have "runs_to (ecx_SDOwrite E hook slave i j CA psize p t c) (\<lambda>(w, c'). link_step E now hook slave c c')"
    unfolding ecx_SDOwrite_def by (rule ecx.write_runs [OF s assms(4)]) (use assms(5,6) in \<open>simp_all add: ecx_link_def\<close>)
  then show "\<exists>w c'. ecx_SDOwrite E hook slave i j CA psize p t c = Some (w, c') \<and> ctx_step E now c c'"
    by (auto simp: runs_to_iff link_step_def)
  show "if_runs (ecx_SDOread E hook slave i j CA n q t c) (\<lambda>(w, n', q', c'). ctx_step E now c c')"
    unfolding ecx_SDOread_def by (rule if_runs_mono [OF ecx.read_partial [OF s]]) (auto simp: link_step_def)
qed

theorem ecx_SDOwrite_returns_witness:
  "\<exists>w c'. ecx_SDOwrite script_os None 1 0x8000 1 False 100 zero_buf 1000
     (upd_slave 1 (\<lambda>s. s\<lparr>sl_mbx_l := 128\<rparr>) (idle_ctx 2 (5, []))) = Some (w, c')"
proof -
  let ?c = "upd_slave 1 (\<lambda>s. s\<lparr>sl_mbx_l := 128\<rparr>) (idle_ctx 2 (5, []))"
  have "ctx_ok script_os (\<lambda>(t, q). t * 1000) ?c" using idle_ctx_ok [of 2 "(5, [])"] by (simp add: ctx_ok_def)
  moreover have "good_hook script_os (\<lambda>(t, q). t * 1000) None" by (simp add: good_hook_def)
  ultimately show ?thesis
    using ecx_SDOwrite_returns [of script_os _ ?c None 1 100] by (fastforce simp: good_hook_def)
qed

end
