(* ===== verification/Foe.thy ===== *)
theory Foe
  imports SdoServer
begin

text \<open>
  File access over EtherCAT (\<open>soem/ethercatfoe.c\<close>): reading and writing a file of a slave in packets
  through the mailbox link of \<open>Coe\<close>.

  An FoE frame has its length at 0, the type at 5, the operation at 6, the password, the packet number or the error code at 8,
  and the file name or the data from 12 on. A packet that is shorter than the mailbox allows is the last one.

  \<open>foe_contract\<close> states what the operations need of the mailboxes and of the progress hook of the application, which is a
  parameter. Writing is proved to return and to give a slave that keeps to the protocol the whole file, which
  reading gives back.
\<close>

abbreviation (input) EC_MAXFOEDATA :: u16 where "EC_MAXFOEDATA \<equiv> 512"
abbreviation (input) FOE_HDR :: nat where "FOE_HDR \<equiv> 12"

type_synonym 'c foe_hook = "(int \<Rightarrow> int \<Rightarrow> 'c \<Rightarrow> 'c option) option"

definition call_hook :: "'c foe_hook \<Rightarrow> int \<Rightarrow> int \<Rightarrow> 'c \<Rightarrow> 'c option" where
  "call_hook hook packetnumber datasize c = (case hook of None \<Rightarrow> Some c | Some h \<Rightarrow> h packetnumber datasize c)"

text \<open>The mailbox header with a new counter, the operation and the number behind it.\<close>

definition foe_header :: "'c mbx_link \<Rightarrow> u16 \<Rightarrow> u8 \<Rightarrow> u32 \<Rightarrow> buf \<Rightarrow> 'c \<Rightarrow> buf \<times> 'c" where
  "foe_header L len OpCode number m c = (let
     m = wr16 (wr16 m 0 len) 2 0;
     (cnt, c) = lk_cnt L c
   in (wr32 (m(4 := 0, 5 := ECT_MBXT_FOE + push_bit 4 cnt, 6 := OpCode)) 8 number, c))"

text \<open>How much of the file name is sent, and the request with it; the first result is the size of a full packet.\<close>

definition foe_fnsize :: "u16 \<Rightarrow> u8 list \<Rightarrow> u16" where
  "foe_fnsize maxdata filename = (let
     fnsize = of_nat (length filename);
     fnsize = (if fnsize > EC_MAXFOEDATA then EC_MAXFOEDATA else fnsize)
   in if fnsize > maxdata then maxdata else fnsize)"

definition foe_request :: "'c mbx_link \<Rightarrow> u8 \<Rightarrow> u8 list \<Rightarrow> u32 \<Rightarrow> 'c \<Rightarrow> u16 \<times> buf \<times> 'c" where
  "foe_request L OpCode filename password c = (let
     maxdata = lk_mbx_l L c - 12;
     fnsize = foe_fnsize maxdata filename;
     (mo, c) = foe_header L (6 + fnsize) OpCode password (ec_clearmbx zero_buf) c
   in (maxdata, memcpy mo FOE_HDR (buf_of filename) 0 (unat fnsize), c))"

definition foe_result :: "ec_err_type \<Rightarrow> int" where
  "foe_result e = - ec_err_code e"

section \<open>Reading\<close>

text \<open>One packet; \<open>hp\<close> is the place in the caller's buffer \<open>p\<close>, \<open>dataread\<close> what has been read.\<close>

definition foe_read_round :: "'c mbx_link \<Rightarrow> 'c foe_hook \<Rightarrow> u16 \<Rightarrow> int \<Rightarrow> int \<Rightarrow>
    int \<times> int \<times> int \<times> int \<times> nat \<times> buf \<times> buf \<times> buf \<times> 'c \<Rightarrow>
    ((int \<times> int \<times> int \<times> int \<times> nat \<times> buf \<times> buf \<times> buf \<times> 'c) \<times> bool) option" where
  "foe_read_round L hook maxdata buffersize timeout = (\<lambda>(wkc, psize, dataread, prevpacket, hp, p, mi, mo, c). do {
     (wkc, mi, c) \<leftarrow> lk_receive L (ec_clearmbx mi) timeout c;
     if wkc > 0
     then if mi 5 AND 0x0f = ECT_MBXT_FOE
       then if mi 6 = ECT_FOE_DATA
         then do {
           let segmentdata = rd16 mi 0 - 6;
           let packetnumber = sint (rd32 mi 8);
           let prevpacket = prevpacket + 1;
           if packetnumber = prevpacket \<and> dataread + uint segmentdata \<le> buffersize
           then do {
             chk (FOE_HDR + unat segmentdata \<le> EC_MAXMBX + 1);
             let p = memcpy p hp mi FOE_HDR (unat segmentdata);
             let dataread = dataread + uint segmentdata;
             let hp = hp + unat segmentdata;
             let (mo, c) = foe_header L 6 ECT_FOE_ACK (word_of_int packetnumber) mo c;
             (wkc, c) \<leftarrow> lk_send L mo c;
             c \<leftarrow> call_hook hook packetnumber dataread c;
             Some ((wkc, dataread, dataread, prevpacket, hp, p, mi, mo, c), segmentdata = maxdata \<and> wkc > 0) }
           else Some ((foe_result EC_ERR_TYPE_FOE_BUF2SMALL, dataread, dataread, prevpacket, hp, p, mi, mo, c), False) }
         else Some ((foe_result (if mi 6 = ECT_FOE_ERROR then EC_ERR_TYPE_FOE_ERROR else EC_ERR_TYPE_PACKET_ERROR),
           dataread, dataread, prevpacket, hp, p, mi, mo, c), False)
       else Some ((foe_result EC_ERR_TYPE_PACKET_ERROR, dataread, dataread, prevpacket, hp, p, mi, mo, c), False)
     else Some ((wkc, psize, dataread, prevpacket, hp, p, mi, mo, c), False) })"

definition foe_read :: "'c mbx_link \<Rightarrow> 'c foe_hook \<Rightarrow> u8 list \<Rightarrow> u32 \<Rightarrow> int \<Rightarrow> buf \<Rightarrow> int \<Rightarrow> 'c \<Rightarrow> (int \<times> int \<times> buf \<times> 'c) option" where
  "foe_read L hook filename password psize p timeout c = do {
     (_, mi, c) \<leftarrow> lk_receive L (ec_clearmbx zero_buf) 0 c;
     let (maxdata, mo, c) = foe_request L ECT_FOE_READ filename password c;
     (wkc, c) \<leftarrow> lk_send L mo c;
     if wkc > 0
     then do {
       (wkc, psize, _, _, _, p, _, _, c) \<leftarrow> do_while (foe_read_round L hook maxdata psize timeout) (wkc, psize, 0, 0, 0, p, mi, mo, c);
       Some (wkc, psize, p, c) }
     else Some (wkc, psize, p, c) }"

definition ecx_FOEread :: "'e os_ops \<Rightarrow> 'e eoe_hook \<Rightarrow> 'e ecx_contextt foe_hook \<Rightarrow> nat \<Rightarrow> u8 list \<Rightarrow> u32 \<Rightarrow> int \<Rightarrow> buf \<Rightarrow> int \<Rightarrow>
    'e ecx_contextt \<Rightarrow> (int \<times> int \<times> buf \<times> 'e ecx_contextt) option" where
  "ecx_FOEread E hook FOEhook slave = foe_read (ecx_link E hook slave) FOEhook"

section \<open>Writing\<close>

text \<open>
  One answer of the slave. \<open>psize\<close> bytes are left at \<open>hp\<close>, \<open>segmentdata\<close> bytes were sent last (its first
  value is never used), \<open>dofinalzero\<close> tells that an empty packet has to follow the data.
\<close>

definition foe_write_data :: "'c mbx_link \<Rightarrow> u16 \<Rightarrow> buf \<Rightarrow> int \<times> int \<times> int \<times> nat \<times> int \<times> bool \<times> buf \<times> buf \<times> 'c \<Rightarrow>
    ((int \<times> int \<times> int \<times> nat \<times> int \<times> bool \<times> buf \<times> buf \<times> 'c) \<times> bool) option" where
  "foe_write_data L maxdata p = (\<lambda>(wkc, psize, segmentdata, hp, sendpacket, dofinalzero, mi, mo, c). do {
     let tsize = (if psize > uint maxdata then uint maxdata else psize);
     if tsize \<noteq> 0 \<or> dofinalzero
     then do {
       let segmentdata = tsize;
       let psize = psize - segmentdata;
       let dofinalzero = (psize = 0 \<and> segmentdata = uint maxdata);
       let sendpacket = sendpacket + 1;
       let (mo, c) = foe_header L (word_of_int (6 + segmentdata)) ECT_FOE_DATA (word_of_int sendpacket) mo c;
       chk (0 \<le> segmentdata \<and> FOE_HDR + nat segmentdata \<le> EC_MAXMBX + 1);
       let mo = memcpy mo FOE_HDR p hp (nat segmentdata);
       let hp = hp + nat segmentdata;
       (wkc, c) \<leftarrow> lk_send L mo c;
       Some ((wkc, psize, segmentdata, hp, sendpacket, dofinalzero, mi, mo, c), wkc > 0) }
     else Some ((wkc, psize, segmentdata, hp, sendpacket, dofinalzero, mi, mo, c), False) })"

definition foe_write_round :: "'c mbx_link \<Rightarrow> 'c foe_hook \<Rightarrow> u16 \<Rightarrow> buf \<Rightarrow> int \<Rightarrow>
    int \<times> int \<times> int \<times> nat \<times> int \<times> bool \<times> buf \<times> buf \<times> 'c \<Rightarrow>
    ((int \<times> int \<times> int \<times> nat \<times> int \<times> bool \<times> buf \<times> buf \<times> 'c) \<times> bool) option" where
  "foe_write_round L hook maxdata p timeout = (\<lambda>(wkc, psize, segmentdata, hp, sendpacket, dofinalzero, mi, mo, c). do {
     (wkc, mi, c) \<leftarrow> lk_receive L (ec_clearmbx mi) timeout c;
     if wkc > 0
     then if mi 5 AND 0x0f = ECT_MBXT_FOE
       then if mi 6 = ECT_FOE_ACK
         then do {
           let packetnumber = sint (rd32 mi 8);
           if packetnumber = sendpacket
           then do {
             c \<leftarrow> call_hook hook packetnumber psize c;
             foe_write_data L maxdata p (wkc, psize, segmentdata, hp, sendpacket, dofinalzero, mi, mo, c) }
           else Some ((foe_result EC_ERR_TYPE_FOE_PACKETNUMBER, psize, segmentdata, hp, sendpacket, dofinalzero, mi, mo, c), False) }
         else if mi 6 = ECT_FOE_BUSY
         then Some ((if sendpacket \<noteq> 0
           then (wkc, psize + segmentdata, segmentdata, hp - nat segmentdata, sendpacket - 1, psize = 0 \<or> dofinalzero, mi, mo, c)
           else (wkc, psize, segmentdata, hp, sendpacket, dofinalzero, mi, mo, c)), False)
         else if mi 6 = ECT_FOE_ERROR
         then Some ((foe_result (if rd32 mi 8 = 0x8001 then EC_ERR_TYPE_FOE_FILE_NOTFOUND else EC_ERR_TYPE_FOE_ERROR),
           psize, segmentdata, hp, sendpacket, dofinalzero, mi, mo, c), False)
         else Some ((foe_result EC_ERR_TYPE_PACKET_ERROR, psize, segmentdata, hp, sendpacket, dofinalzero, mi, mo, c), False)
       else Some ((foe_result EC_ERR_TYPE_PACKET_ERROR, psize, segmentdata, hp, sendpacket, dofinalzero, mi, mo, c), False)
     else Some ((wkc, psize, segmentdata, hp, sendpacket, dofinalzero, mi, mo, c), False) })"

definition foe_write :: "'c mbx_link \<Rightarrow> 'c foe_hook \<Rightarrow> u8 list \<Rightarrow> u32 \<Rightarrow> int \<Rightarrow> buf \<Rightarrow> int \<Rightarrow> 'c \<Rightarrow> (int \<times> 'c) option" where
  "foe_write L hook filename password psize p timeout c = do {
     (_, mi, c) \<leftarrow> lk_receive L (ec_clearmbx zero_buf) 0 c;
     let (maxdata, mo, c) = foe_request L ECT_FOE_WRITE filename password c;
     (wkc, c) \<leftarrow> lk_send L mo c;
     if wkc > 0
     then do {
       (wkc, _, _, _, _, _, _, _, c) \<leftarrow> do_while (foe_write_round L hook maxdata p timeout) (wkc, psize, 0, 0, 0, True, mi, mo, c);
       Some (wkc, c) }
     else Some (wkc, c) }"

definition ecx_FOEwrite :: "'e os_ops \<Rightarrow> 'e eoe_hook \<Rightarrow> 'e ecx_contextt foe_hook \<Rightarrow> nat \<Rightarrow> u8 list \<Rightarrow> u32 \<Rightarrow> int \<Rightarrow> buf \<Rightarrow> int \<Rightarrow>
    'e ecx_contextt \<Rightarrow> (int \<times> 'e ecx_contextt) option" where
  "ecx_FOEwrite E hook FOEhook slave = foe_write (ecx_link E hook slave) FOEhook"

section \<open>The contract\<close>

text \<open>What is left to be sent: the bytes, and the empty packet at the end.\<close>

definition foe_left :: "int \<Rightarrow> bool \<Rightarrow> nat" where
  "foe_left n fz = 2 * nat n + (if fz then 1 else 0)"

locale foe_contract = mailbox_contract L step for L :: "'c mbx_link" and step :: "'c \<Rightarrow> 'c \<Rightarrow> bool" +
  fixes hook :: "'c foe_hook"
  assumes hook_law: "step a c \<Longrightarrow> runs_to (call_hook hook i j c) (\<lambda>c'. step a c')"
begin

lemma foe_header_step: "step a c \<Longrightarrow> foe_header L len opc n m c = (m', c') \<Longrightarrow> step a c'"
  using cnt_law [of a c] by (auto simp: foe_header_def Let_def split: prod.splits)

lemma foe_request_step: "step a c \<Longrightarrow> foe_request L opc name pw c = (maxdata, m, c') \<Longrightarrow> step a c' \<and> maxdata = lk_mbx_l L c - 12"
  using foe_header_step by (fastforce simp: foe_request_def Let_def split: prod.splits)

lemma foe_write_data_runs:
  assumes c: "step a c" and max: "0 < unat maxdata" "FOE_HDR + unat maxdata \<le> EC_MAXMBX + 1" and n: "0 \<le> n"
  shows "runs_to (foe_write_data L maxdata p (w, n, seg, hp, sp, fz, mi, mo, c))
    (\<lambda>((w', n', seg', hp', sp', fz', mi', mo', c'), again). step a c' \<and> (again \<longrightarrow> 0 \<le> n' \<and> foe_left n' fz' < foe_left n fz))"
proof -
  define s where "s = (if n > uint maxdata then uint maxdata else n)"
  have s: "0 \<le> s" "s \<le> n" "nat s \<le> unat maxdata" "s = 0 \<longleftrightarrow> n = 0" 
    using n max(1) by (auto simp: s_def nat_le_iff uint_nat unat_gt_0 simp del: of_nat_unat)
  obtain m1 c1 where h: "foe_header L (word_of_int (6 + s)) ECT_FOE_DATA (word_of_int (sp + 1)) mo c = (m1, c1)" by fastforce
  from send_law [OF foe_header_step [OF c h], of "memcpy m1 FOE_HDR p hp (nat s)"] obtain w' c' where
    2: "lk_send L (memcpy m1 FOE_HDR p hp (nat s)) c1 = Some (w', c')" "step a c'" by (auto simp: runs_to_iff)
  have chk: "0 \<le> s \<and> FOE_HDR + nat s \<le> EC_MAXMBX + 1" using s max(2) by simp
  have left: "foe_left (n - s) (n - s = 0 \<and> s = uint maxdata) < foe_left n fz" if "s \<noteq> 0 \<or> fz"
  proof (cases "n > uint maxdata")
    case True
    moreover from this have "s = uint maxdata" by (simp add: s_def)
    moreover have "0 < uint maxdata" using max(1) by (simp add: uint_nat del: of_nat_unat)
    ultimately show ?thesis by (simp add: foe_left_def)
  next
    case False
    then have "s = n" by (simp add: s_def)
    moreover have "0 < uint maxdata" using max(1) by (simp add: uint_nat del: of_nat_unat)
    ultimately show ?thesis using that n max(1) by (auto simp: foe_left_def)
  qed
  show ?thesis
  proof (cases "s \<noteq> 0 \<or> fz")
    case True
    then show ?thesis
      unfolding foe_write_data_def prod.case Let_def s_def [symmetric] if_P [OF True] h using chk 2 left s(2) by simp
  next
    case False
    then show ?thesis using c unfolding foe_write_data_def prod.case Let_def s_def [symmetric] if_not_P [OF False] by simp
  qed
qed

lemma foe_write_round_runs:
  assumes c: "step a c" and max: "0 < unat maxdata" "FOE_HDR + unat maxdata \<le> EC_MAXMBX + 1" and n: "0 \<le> n"
  shows "runs_to (foe_write_round L hook maxdata p t (w, n, seg, hp, sp, fz, mi, mo, c))
    (\<lambda>((w', n', seg', hp', sp', fz', mi', mo', c'), again). step a c' \<and> (again \<longrightarrow> 0 \<le> n' \<and> foe_left n' fz' < foe_left n fz))"
proof -
  from receive_law [OF c, of "ec_clearmbx mi" t] obtain w1 m1 c1 where
    1: "lk_receive L (ec_clearmbx mi) t c = Some (w1, m1, c1)" "step a c1" by (auto simp: runs_to_iff)
  from hook_law [OF 1(2), of sp n] obtain c2 where
    2: "call_hook hook sp n c1 = Some c2" "step a c2" by (auto simp: runs_to_iff)
  show ?thesis
  proof (cases "sint (rd32 m1 8) = sp")
    case True
    then show ?thesis
      using 1(2) foe_write_data_runs [OF 2(2) max n] by (simp add: foe_write_round_def 1(1) 2(1) Let_def)
  qed (use 1 in \<open>simp add: foe_write_round_def Let_def\<close>)
qed

lemma foe_write_runs:
  assumes c: "step a c" and max: "12 < unat (lk_mbx_l L a)" "unat (lk_mbx_l L a) \<le> EC_MAXMBX + 1" and n: "0 \<le> n"
  shows "runs_to (foe_write L hook name pw n p t c) (\<lambda>(w, c'). step a c')"
proof -
  from receive_law [OF c, of "ec_clearmbx zero_buf" 0] obtain w1 m1 c1 where
    1: "lk_receive L (ec_clearmbx zero_buf) 0 c = Some (w1, m1, c1)" "step a c1" by (auto simp: runs_to_iff)
  obtain maxdata mo c2 where 2: "foe_request L ECT_FOE_WRITE name pw c1 = (maxdata, mo, c2)" by (metis surj_pair)
  note r2 = foe_request_step [OF 1(2) 2]
  from send_law [OF conjunct1 [OF r2], of mo] obtain w3 c3 where
    3: "lk_send L mo c2 = Some (w3, c3)" "step a c3" by (auto simp: runs_to_iff)
  have "maxdata = lk_mbx_l L a - 12" using r2 size_law [OF 1(2)] by simp
  then have m: "unat maxdata = unat (lk_mbx_l L a) - 12" using max(1) by (simp add: unat_sub_if' )
  have "runs_to (do_while (foe_write_round L hook maxdata p t) (w3, n, 0, 0, 0, True, m1, mo, c3))
      (\<lambda>(w, n, seg, hp, sp, fz, mi, mo, c'). step a c')"
  proof (rule do_while_total [where I = "\<lambda>(w, n, seg, hp, sp, fz, mi, mo, c'). 0 \<le> n \<and> step a c'"
      and R = "measure (\<lambda>(w, n, seg, hp, sp, fz, mi, mo, c'). foe_left n fz)"], goal_cases)
    case (3 st)
    obtain w n seg hp sp fz mi mo c where st: "st = (w, n, seg, hp, sp, fz, mi, mo, c)" by (metis surj_pair)
    have "step a c" "0 \<le> n" using 3 by (auto simp: st)
    then have "runs_to (foe_write_round L hook maxdata p t st) (\<lambda>((w', n', seg', hp', sp', fz', mi', mo', c'), again). step a c' \<and>
      (again \<longrightarrow> 0 \<le> n' \<and> foe_left n' fz' < foe_left n fz))"
      unfolding st using m max by (intro foe_write_round_runs) auto
    then show ?case by (rule runs_to_mono) (auto simp: st split: if_splits)
  qed (use n 3(2) in auto)
  then show ?thesis
    using 3(2) by (auto simp: foe_write_def 1(1) 2 3(1) Let_def runs_to_iff)
qed

lemma foe_read_round_runs:
  assumes c: "step a c" and n: "0 \<le> d" "d \<le> cap" "hp = nat d" "\<forall>i \<ge> hp. p i = q i"
    and honest: "\<And>c m. step a c \<Longrightarrow> if_runs (lk_receive L m t c) (\<lambda>(w, m', c'). 0 < w \<longrightarrow> unat (rd16 m' 0 - 6) \<le> 1475)"
  shows "runs_to (foe_read_round L hook maxdata cap t (w, ps, d, pp, hp, p, mi, mo, c))
    (\<lambda>((w', ps', d', pp', hp', p', mi', mo', c'), again). step a c' \<and> d \<le> d' \<and> d' \<le> cap \<and> hp' = nat d' \<and>
      (\<forall>i \<ge> hp'. p' i = q i) \<and> (again \<longrightarrow> d' = d + uint maxdata) \<and> (ps' = d' \<or> ps' = ps \<and> d' = d))"
proof -
  from receive_law [OF c, of "ec_clearmbx mi" t] obtain w1 m1 c1 where
    1: "lk_receive L (ec_clearmbx mi) t c = Some (w1, m1, c1)" "step a c1" by (auto simp: runs_to_iff)
  have sz: "0 < w1 \<Longrightarrow> unat (rd16 m1 0 - 6) \<le> 1475" using honest [OF c, of "ec_clearmbx mi"] by (simp add: 1(1))
  let ?d = "d + uint (rd16 m1 0 - 6)"
  obtain m2 c2 where 2: "foe_header L 6 ECT_FOE_ACK (word_of_int (pp + 1)) mo c1 = (m2, c2)" by fastforce
  from send_law [OF foe_header_step [OF 1(2) 2], of m2] obtain w3 c3 where
    3: "lk_send L m2 c2 = Some (w3, c3)" "step a c3" by (auto simp: runs_to_iff)
  from hook_law [OF 3(2), of "pp + 1" ?d] obtain c4 where
    4: "call_hook hook (pp + 1) ?d c3 = Some c4" "step a c4" by (auto simp: runs_to_iff)
  have "nat ?d = hp + unat (rd16 m1 0 - 6)" using n by (simp add: nat_add_distrib)
  then show ?thesis
    using 1(2) 3(1) 4 n 2 sz by (auto simp: foe_read_round_def 1(1) Let_def memcpy_apply simp del: nat_uint_eq of_int_add)
qed

lemma foe_read_runs:
  assumes c: "step a c" and max: "12 < unat (lk_mbx_l L a)" and cap: "0 \<le> cap"
    and honest: "\<And>c m. step a c \<Longrightarrow> if_runs (lk_receive L m t c) (\<lambda>(w, m', c'). 0 < w \<longrightarrow> unat (rd16 m' 0 - 6) \<le> 1475)"
  shows "runs_to (foe_read L hook name pw cap q t c) (\<lambda>(w, n, p, c'). step a c' \<and> 0 \<le> n \<and> n \<le> cap \<and> (\<forall>i \<ge> nat n. p i = q i))"
proof -
  from receive_law [OF c, of "ec_clearmbx zero_buf" 0] obtain w1 m1 c1 where
    1: "lk_receive L (ec_clearmbx zero_buf) 0 c = Some (w1, m1, c1)" "step a c1" by (auto simp: runs_to_iff)
  obtain maxdata mo c2 where 2: "foe_request L ECT_FOE_READ name pw c1 = (maxdata, mo, c2)" by (metis surj_pair)
  note r2 = foe_request_step [OF 1(2) 2]
  from send_law [OF conjunct1 [OF r2], of mo] obtain w3 c3 where
    3: "lk_send L mo c2 = Some (w3, c3)" "step a c3" by (auto simp: runs_to_iff)
  have "maxdata = lk_mbx_l L a - 12" using r2 size_law [OF 1(2)] by simp
  then have "unat maxdata = unat (lk_mbx_l L a) - 12" using max by (simp add: unat_sub_if')
  then have m: "0 < uint maxdata" using max by (simp add: uint_nat del: of_nat_unat)
  let ?I = "\<lambda>(w, ps, d, pp, hp, p, mi, mo, c'). step a c' \<and> 0 \<le> d \<and> d \<le> cap \<and> hp = nat d \<and> (\<forall>i \<ge> hp. p i = q i) \<and> (ps = d \<or> ps = cap)"
  have "runs_to (do_while (foe_read_round L hook maxdata cap t) (w3, cap, 0, 0, 0, q, m1, mo, c3))
      (\<lambda>(w, n, d, pp, hp, p, mi, mo, c'). step a c' \<and> 0 \<le> n \<and> n \<le> cap \<and> (\<forall>i \<ge> nat n. p i = q i))"
  proof (rule do_while_total [where I = ?I and R = "measure (\<lambda>(w, n, d, pp, hp, p, mi, mo, c'). nat (cap - d))"], goal_cases)
    case (3 st)
    obtain w n d pp hp p mi mo c where st: "st = (w, n, d, pp, hp, p, mi, mo, c)" by (metis surj_pair)
    have I: "step a c" "0 \<le> d" "d \<le> cap" "hp = nat d" "\<forall>i \<ge> hp. p i = q i" "n = d \<or> n = cap" using 3 by (auto simp: st)
    show ?case
      unfolding st using I(2,6) m by (rule_tac runs_to_mono [OF foe_read_round_runs [OF I(1-5) honest]]) (auto split: if_splits)
  qed (use cap 3(2) in auto)
  then show ?thesis
    using 3(2) cap by (auto simp: foe_read_def 1(1) 2 3(1) Let_def runs_to_iff)
qed

end

section \<open>A slave that keeps files\<close>

text \<open>
  The reference slave, written from the protocol: one file behind a mailbox of \<open>M\<close> bytes. \<open>fs_no\<close> is
  the number of the last packet, \<open>fs_open\<close> that more packets follow.
\<close>

record foe_server =
  fs_file :: "u8 list"
  fs_rest :: "u8 list"
  fs_no :: nat
  fs_open :: bool
  fs_ans :: "buf option"

definition foe_frame :: "u8 \<Rightarrow> nat \<Rightarrow> u8 list \<Rightarrow> buf" where
  "foe_frame opc no d = memcpy (wr32 ((wr16 zero_buf 0 (of_nat (6 + length d)))(5 := ECT_MBXT_FOE, 6 := opc)) 8 (of_nat no))
     FOE_HDR (buf_of d) 0 (length d)"

definition foe_chunk :: "nat \<Rightarrow> foe_server \<Rightarrow> foe_server" where
  "foe_chunk M s = (let d = take (M - 12) (fs_rest s) in
     s\<lparr>fs_rest := drop (M - 12) (fs_rest s), fs_no := fs_no s + 1, fs_open := (length d = M - 12),
       fs_ans := Some (foe_frame ECT_FOE_DATA (fs_no s + 1) d)\<rparr>)"

definition foe_accept :: "nat \<Rightarrow> buf \<Rightarrow> foe_server \<Rightarrow> foe_server" where
  "foe_accept M m s = (let d = bytes_of m FOE_HDR (unat (rd16 m 0) - 6) in
     s\<lparr>fs_file := fs_file s @ d, fs_no := fs_no s + 1, fs_open := (length d = M - 12),
       fs_ans := Some (foe_frame ECT_FOE_ACK (fs_no s + 1) [])\<rparr>)"

definition foe_handle :: "nat \<Rightarrow> buf \<Rightarrow> foe_server \<Rightarrow> foe_server" where
  "foe_handle M m s =
     (if m 6 = ECT_FOE_READ then foe_chunk M (s\<lparr>fs_rest := fs_file s, fs_no := 0\<rparr>)
      else if m 6 = ECT_FOE_WRITE then s\<lparr>fs_file := [], fs_no := 0, fs_open := True, fs_ans := Some (foe_frame ECT_FOE_ACK 0 [])\<rparr>
      else if m 6 = ECT_FOE_DATA then if fs_open s \<and> rd32 m 8 = of_nat (fs_no s + 1) then foe_accept M m s
        else s\<lparr>fs_ans := Some (foe_frame ECT_FOE_ERROR 0x8007 [])\<rparr>
      else if m 6 = ECT_FOE_ACK \<and> fs_open s \<and> rd32 m 8 = of_nat (fs_no s) then foe_chunk M s
      else s)"

definition foe_link :: "nat \<Rightarrow> foe_server mbx_link" where
  "foe_link M = \<lparr>lk_send = (\<lambda>m s. Some (1, foe_handle M m s)),
     lk_receive = (\<lambda>m t s. case fs_ans s of None \<Rightarrow> Some (- 1, m, s) | Some a \<Rightarrow> Some (1, a, s\<lparr>fs_ans := None\<rparr>)),
     lk_cnt = (\<lambda>s. (1, s)), lk_mbx_l = (\<lambda>_. of_nat M), lk_sdoerror = (\<lambda>_ _ _ s. Some s),
     lk_infoerror = (\<lambda>_ _ _ s. Some s), lk_packeterror = (\<lambda>_ _ _ s. Some s)\<rparr>"

lemma foe_link_simps [simp]:
  "lk_send (foe_link M) m s = Some (1, foe_handle M m s)" "lk_mbx_l (foe_link M) s = of_nat M" "lk_cnt (foe_link M) s = (1, s)"
  "lk_receive (foe_link M) m t s = (case fs_ans s of None \<Rightarrow> Some (- 1, m, s) | Some a \<Rightarrow> Some (1, a, s\<lparr>fs_ans := None\<rparr>))"
  by (simp_all add: foe_link_def)

lemma foe_header_shape:
  "\<exists>m. foe_header (foe_link M) len opc n mo s = (m, s) \<and> m 6 = opc \<and> rd16 m 0 = len \<and> rd32 m 8 = n"
  by (simp add: foe_header_def put_le_apply)

lemma foe_frame_fields:
  "foe_frame opc no d 5 AND 0x0f = ECT_MBXT_FOE" "foe_frame opc no d 6 = opc" "rd16 (foe_frame opc no d) 0 = of_nat (6 + length d)"
  "rd32 (foe_frame opc no d) 8 = of_nat no" "i < length d \<Longrightarrow> foe_frame opc no d (FOE_HDR + i) = d ! i"
  by (simp_all add: foe_frame_def memcpy_apply put_le_apply buf_of_def)

section \<open>Writing to it\<close>

text \<open>A full packet: the file grows by what is sent; the next state of the loop.\<close>

lemma foe_write_step:
  assumes M: "12 < M" "M \<le> EC_MAXMBX" "unat maxdata = M - 12" and k: "k < 2 ^ 31 - 1" and s: "fs_ans s = Some (foe_frame ECT_FOE_ACK k [])" "fs_no s = k" "fs_open s"
    and n: "n \<noteq> 0 \<or> fz"
  defines "j \<equiv> min n (M - 12)"
  shows "\<exists>mo' mi' s'. foe_write_round (foe_link M) None maxdata p t (w, int n, seg, hp, int k, fz, mi, mo, s) =
      Some ((1, int (n - j), int j, hp + j, int (k + 1), n = j \<and> j = M - 12, mi', mo', s'), True) \<and>
    fs_ans s' = Some (foe_frame ECT_FOE_ACK (k + 1) []) \<and> fs_no s' = k + 1 \<and> fs_open s' = (j = M - 12) \<and>
    fs_file s' = fs_file s @ bytes_of p hp j"
proof -
  let ?L = "foe_link M" and ?s = "s\<lparr>fs_ans := None\<rparr>" and ?a = "foe_frame ECT_FOE_ACK k []"
  have max: "uint maxdata = int M - 12" using M by (simp add: uint_nat del: of_nat_unat)
  have ts: "(if int n > int M - 12 then int M - 12 else int n) = int j" using M by (auto simp: j_def)
  have j: "j \<le> n" "12 + j \<le> EC_MAXMBX" "int n - int j = int (n - j)" using M by (auto simp: j_def)
  have go: "int j \<noteq> 0 \<or> fz" using n M by (auto simp: j_def)
  have no: "sint (of_nat k :: u32) = int k" using k by (intro sint_of_nat_u32) simp
  obtain m where m: "foe_header ?L (word_of_int (6 + int j)) ECT_FOE_DATA (word_of_int (int k + 1)) mo ?s = (m, ?s)" "m 6 = ECT_FOE_DATA"
    "rd16 m 0 = word_of_int (6 + int j)" "rd32 m 8 = word_of_int (int k + 1)" using foe_header_shape by blast
  define m' where "m' = memcpy m FOE_HDR p hp j"
  have len: "rd16 m' 0 = of_nat (6 + j)" by (simp add: m'_def m(3))
  have m': "m' 6 = ECT_FOE_DATA" "unat (rd16 m' 0) = 6 + j" "rd32 m' 8 = of_nat (k + 1)" "bytes_of m' FOE_HDR j = bytes_of p hp j"
    using j(2) by (simp_all add: len unat_of_nat_u16 del: of_nat_add) (simp_all add: m'_def memcpy_apply m(2,4))
  define s' where "s' = foe_accept M m' ?s"
  have h: "foe_handle M m' ?s = s'" using m' s by (simp add: foe_handle_def s'_def)
  have fin: "(int n - int j = 0 \<and> int j = int M - 12) = (n = j \<and> j = M - 12)" using M by auto
  have sz: "0 \<le> int j \<and> FOE_HDR + nat (int j) \<le> EC_MAXMBX + 1" using j(2) by simp
  have "foe_write_data ?L maxdata p (1, int n, seg, hp, int k, fz, ?a, mo, ?s) =
      Some ((1, int (n - j), int j, hp + j, int (k + 1), n = j \<and> j = M - 12, ?a, m', s'), True)"
    unfolding foe_write_data_def prod.case Let_def max ts if_P [OF go] m(1) fin using sz h j(1) by (simp add: of_nat_diff m'_def [symmetric])
  then have "foe_write_round ?L None maxdata p t (w, int n, seg, hp, int k, fz, mi, mo, s) =
      Some ((1, int (n - j), int j, hp + j, int (k + 1), n = j \<and> j = M - 12, ?a, m', s'), True)"
    by (simp add: foe_write_round_def s(1) foe_frame_fields no call_hook_def)
  moreover have "fs_ans s' = Some (foe_frame ECT_FOE_ACK (k + 1) [])" "fs_no s' = k + 1" "fs_open s' = (j = M - 12)"
    "fs_file s' = fs_file s @ bytes_of p hp j"
    using s m' by (simp_all add: s'_def foe_accept_def)
  ultimately show ?thesis by blast
qed

lemma foe_write_end:
  assumes "k < 2 ^ 31 - 1" "fs_ans s = Some (foe_frame ECT_FOE_ACK k [])"
  shows "foe_write_round (foe_link M) None maxdata p t (w, 0, seg, hp, int k, False, mi, mo, s) =
    Some ((1, 0, seg, hp, int k, False, foe_frame ECT_FOE_ACK k [], mo, s\<lparr>fs_ans := None\<rparr>), False)"
  using assms sint_of_nat_u32 [of k]
  by (simp add: foe_write_round_def call_hook_def foe_write_data_def foe_frame_fields)

lemma foe_write_loop:
  assumes M: "12 < M" "M \<le> EC_MAXMBX" "unat maxdata = M - 12" and "k + foe_left (int n) fz < 2 ^ 31 - 2" "fs_ans s = Some (foe_frame ECT_FOE_ACK k [])" "fs_no s = k"
    and "fs_open s = (n \<noteq> 0 \<or> fz)"
  shows "\<exists>seg' hp' k' mi' mo' s'. do_while (foe_write_round (foe_link M) None maxdata p t) (w, int n, seg, hp, int k, fz, mi, mo, s) =
      Some (1, 0, seg', hp', k', False, mi', mo', s') \<and> fs_file s' = fs_file s @ bytes_of p hp n \<and> fs_ans s' = None \<and> \<not> fs_open s'"
  using assms(4-)
proof (induction "foe_left (int n) fz" arbitrary: n fz w seg hp k mi mo s rule: less_induct)
  case less
  show ?case
  proof (cases "n \<noteq> 0 \<or> fz")
    case False
    then show ?thesis
      using foe_write_end [of k s M maxdata p t w seg hp mi mo] less.prems by (subst do_while.simps) (auto simp: bytes_of_def)
  next
    case True
    define j where "j = min n (M - 12)"
    have k: "k < 2 ^ 31 - 1" "fs_open s" using less.prems True by auto
    from foe_write_step [OF M k(1) less.prems(2,3) k(2) True, of p t w seg hp mi mo, folded j_def] obtain mo' mi' s' where
      1: "foe_write_round (foe_link M) None maxdata p t (w, int n, seg, hp, int k, fz, mi, mo, s) =
        Some ((1, int (n - j), int j, hp + j, int (k + 1), n = j \<and> j = M - 12, mi', mo', s'), True)"
      "fs_ans s' = Some (foe_frame ECT_FOE_ACK (k + 1) [])" "fs_no s' = k + 1" "fs_open s' = (j = M - 12)"
      "fs_file s' = fs_file s @ bytes_of p hp j" by blast
    have nj: "j + (n - j) = n" by (simp add: j_def)
    have left: "foe_left (int (n - j)) (n = j \<and> j = M - 12) < foe_left (int n) fz" using True M by (auto simp: foe_left_def j_def)
    have more: "fs_open s' = (n - j \<noteq> 0 \<or> n = j \<and> j = M - 12)" using 1(4) by (auto simp: j_def)
    have "(k + 1) + foe_left (int (n - j)) (n = j \<and> j = M - 12) < 2 ^ 31 - 2" using left less.prems(1) by linarith
    from less.hyps [OF left this 1(2,3) more, of 1 "int j" "hp + j" mi' mo'] show ?thesis
      using nj by (subst do_while.simps) (auto simp: 1 bytes_of_append)
  qed
qed

lemma foe_request_shape:
  assumes "12 < M" "M \<le> EC_MAXMBX"
  shows "\<exists>maxdata m. foe_request (foe_link M) opc name pw s = (maxdata, m, s) \<and> m 6 = opc \<and> unat maxdata = M - 12"
proof -
  have "unat (of_nat M - 12 :: u16) = M - 12" using assms by (simp add: unat_sub_if' unat_of_nat_u16 del: of_nat_unat)
  then show ?thesis
    using foe_header_shape [of M "6 + foe_fnsize (of_nat M - 12) name" opc pw "ec_clearmbx zero_buf" s]
    by (auto simp: foe_request_def Let_def memcpy_apply)
qed

lemma foe_first_receive: "\<exists>w m. lk_receive (foe_link M) (ec_clearmbx zero_buf) 0 s = Some (w, m, s\<lparr>fs_ans := None\<rparr>)"
  by (cases "fs_ans s") auto

lemma foe_write_stores:
  assumes M: "12 < M" "M \<le> EC_MAXMBX" and n: "n < 2 ^ 30 - 2"
  shows "\<exists>s'. foe_write (foe_link M) None name pw (int n) p t s = Some (1, s') \<and> fs_file s' = bytes_of p 0 n"
proof -
  let ?L = "foe_link M"
  obtain w0 m0 where 0: "lk_receive ?L (ec_clearmbx zero_buf) 0 s = Some (w0, m0, s\<lparr>fs_ans := None\<rparr>)" using foe_first_receive by blast
  define s1 where "s1 = s\<lparr>fs_ans := None\<rparr>"
  obtain maxdata m where m: "foe_request ?L ECT_FOE_WRITE name pw s1 = (maxdata, m, s1)" "m 6 = ECT_FOE_WRITE" "unat maxdata = M - 12"
    using foe_request_shape [OF M] by blast
  define s2 where "s2 = foe_handle M m s1"
  have s2: "fs_ans s2 = Some (foe_frame ECT_FOE_ACK 0 [])" "fs_no s2 = 0" "fs_open s2 = (n \<noteq> 0 \<or> True)" "fs_file s2 = []"
    by (simp_all add: s2_def foe_handle_def m(2))
  have "0 + foe_left (int n) True < 2 ^ 31 - 2" using n by (simp add: foe_left_def)
  from foe_write_loop [OF M m(3) this s2(1-3), of p t 1 0 0 m0 m] obtain seg' hp' k' mi' mo' s' where
    "do_while (foe_write_round ?L None maxdata p t) (1, int n, 0, 0, 0, True, m0, m, s2) =
      Some (1, 0, seg', hp', k', False, mi', mo', s')" "fs_file s' = bytes_of p 0 n" by (auto simp: s2(4))
  then show ?thesis
    by (simp add: foe_write_def 0 s1_def [symmetric] m(1) s2_def [symmetric] del: foe_link_simps(4))
qed

section \<open>Reading from it\<close>

lemma foe_read_step:
  assumes M: "12 < M" "M \<le> EC_MAXMBX" "unat maxdata = M - 12" and k: "k < 2 ^ 31 - 2" and d: "length d \<le> M - 12" "h + length d \<le> cap"
    and s: "fs_ans s = Some (foe_frame ECT_FOE_DATA (k + 1) d)" "fs_no s = k + 1" "fs_open s = (length d = M - 12)"
  shows "\<exists>mi' mo'. foe_read_round (foe_link M) None maxdata (int cap) t (w, ps, int h, int k, h, p, mi, mo, s) =
      Some ((1, int (h + length d), int (h + length d), int (k + 1), h + length d, memcpy p h (buf_of d) 0 (length d), mi', mo',
        if length d = M - 12 then foe_chunk M (s\<lparr>fs_ans := None\<rparr>) else s\<lparr>fs_ans := None\<rparr>), length d = M - 12)"
proof -
  let ?s = "s\<lparr>fs_ans := None\<rparr>"
  define a where "a = foe_frame ECT_FOE_DATA (k + 1) d"
  have a: "a 5 AND 0x0f = ECT_MBXT_FOE" "a 6 = ECT_FOE_DATA" "rd16 a 0 - 6 = of_nat (length d)" "fs_ans s = Some a"
    using s(1) by (simp_all add: a_def foe_frame_fields)
  have no: "sint (rd32 a 8) = int k + 1" using k sint_of_nat_u32 [of "k + 1"] by (simp only: a_def foe_frame_fields(4))
  have u: "unat (of_nat (length d) :: u16) = length d" using d(1) M by (simp add: unat_of_nat_u16)
  then have ui: "uint (of_nat (length d) :: u16) = int (length d)" by (simp add: uint_nat del: of_nat_unat)
  have full: "(of_nat (length d) = maxdata) = (length d = M - 12)" unfolding word_unat_eq_iff u M(3) ..
  obtain m where m: "foe_header (foe_link M) 6 ECT_FOE_ACK (word_of_int (int k + 1)) mo ?s = (m, ?s)" "m 6 = ECT_FOE_ACK"
    "rd32 m 8 = word_of_int (int k + 1)" using foe_header_shape by blast
  define s' where "s' = (if length d = M - 12 then foe_chunk M ?s else ?s)"
  have h: "foe_handle M m ?s = s'"
    using s by (simp add: foe_handle_def m(2,3) s'_def)
  have cp: "memcpy x h a FOE_HDR (length d) = memcpy x h (buf_of d) 0 (length d)" for x
    by (rule memcpy_shift) (simp add: a_def foe_frame_fields buf_of_def)
  have sz: "FOE_HDR + length d \<le> EC_MAXMBX + 1" using d(1) M by simp
  show ?thesis
    unfolding s'_def [symmetric]
    using d(2) sz by (simp add: foe_read_round_def Let_def a no u ui m(1) [simplified] h cp full call_hook_def)
qed

lemma foe_read_loop:
  assumes M: "12 < M" "M \<le> EC_MAXMBX" "unat maxdata = M - 12"
    and "k + length (d @ r) < 2 ^ 31 - 3" "h + length d + length r \<le> cap" "length d \<le> M - 12" "length d < M - 12 \<longrightarrow> r = []"
    and "fs_ans s = Some (foe_frame ECT_FOE_DATA (k + 1) d)" "fs_no s = k + 1" "fs_open s = (length d = M - 12)" "fs_rest s = r"
  shows "\<exists>k' mi' mo' s'. do_while (foe_read_round (foe_link M) None maxdata (int cap) t) (w, ps, int h, int k, h, p, mi, mo, s) =
      Some (1, int (h + length (d @ r)), int (h + length (d @ r)), k', h + length (d @ r),
        memcpy p h (buf_of (d @ r)) 0 (length (d @ r)), mi', mo', s') \<and> fs_file s' = fs_file s"
  using assms(4-)
proof (induction "length (d @ r)" arbitrary: r d h k p w ps mi mo s rule: less_induct)
  case less
  have "k < 2 ^ 31 - 2" "h + length d \<le> cap" using less.prems(1,2) by simp_all
  note step = foe_read_step [OF M this(1) less.prems(3) this(2) less.prems(5-7), of t w ps p mi mo]
  show ?case
  proof (cases "length d = M - 12")
    case False
    then have "r = []" using less.prems(3,4) by simp
    then show ?thesis using step False by (subst do_while.simps) auto
  next
    case True
    let ?s = "foe_chunk M (s\<lparr>fs_ans := None\<rparr>)" and ?d = "take (M - 12) r" and ?r = "drop (M - 12) r" and ?p = "memcpy p h (buf_of d) 0 (length d)"
    obtain mi' mo' where 1: "foe_read_round (foe_link M) None maxdata (int cap) t (w, ps, int h, int k, h, p, mi, mo, s) =
      Some ((1, int (h + length d), int (h + length d), int (k + 1), h + length d, ?p, mi', mo', ?s), True)"
      using step True by auto
    have r: "length (?d @ ?r) < length (d @ r)" "(k + 1) + length (?d @ ?r) < 2 ^ 31 - 3" "h + length d + length ?d + length ?r \<le> cap"
      using True M less.prems(1,2) by auto
    have s: "fs_ans ?s = Some (foe_frame ECT_FOE_DATA ((k + 1) + 1) ?d)" "fs_no ?s = (k + 1) + 1" "fs_open ?s = (length ?d = M - 12)"
      "fs_rest ?s = ?r" "fs_file ?s = fs_file s"
      using less.prems(6,8) by (simp_all add: foe_chunk_def Let_def)
    have cp: "memcpy ?p (h + length d) (buf_of (?d @ ?r)) 0 (length (?d @ ?r)) = memcpy p h (buf_of (d @ r)) 0 (length (d @ r))"
      by (rule ext) (auto simp: memcpy_apply buf_of_def nth_append)
    from less.hyps [OF r(1) r(2) r(3) _ _ s(1-4), of 1 "int (h + length d)" ?p mi' mo'] obtain k' mi2 mo2 s' where
      2: "do_while (foe_read_round (foe_link M) None maxdata (int cap) t)
         (1, int (h + length d), int (h + length d), int (k + 1), h + length d, ?p, mi', mo', ?s) =
        Some (1, int (h + length d + length (?d @ ?r)), int (h + length d + length (?d @ ?r)), k', h + length d + length (?d @ ?r),
        memcpy ?p (h + length d) (buf_of (?d @ ?r)) 0 (length (?d @ ?r)), mi2, mo2, s')" "fs_file s' = fs_file ?s" by auto
    have n: "h + length d + length (?d @ ?r) = h + length (d @ r)" by simp
    have "do_while (foe_read_round (foe_link M) None maxdata (int cap) t) (w, ps, int h, int k, h, p, mi, mo, s) =
        Some (1, int (h + length (d @ r)), int (h + length (d @ r)), k', h + length (d @ r),
          memcpy p h (buf_of (d @ r)) 0 (length (d @ r)), mi2, mo2, s')"
      by (subst do_while.simps) (simp only: 1 Option.bind.bind_lunit prod.case if_True 2(1) cp n)
    then show ?thesis using 2(2) s(5) by auto
  qed
qed

lemma foe_read_serves:
  assumes M: "12 < M" "M \<le> EC_MAXMBX" and n: "length (fs_file s) < 2 ^ 31 - 3" "length (fs_file s) \<le> cap"
  shows "\<exists>s'. foe_read (foe_link M) None name pw (int cap) p t s =
    Some (1, int (length (fs_file s)), memcpy p 0 (buf_of (fs_file s)) 0 (length (fs_file s)), s') \<and> fs_file s' = fs_file s"
proof -
  let ?L = "foe_link M" and ?f = "fs_file s"
  obtain w0 m0 where 0: "lk_receive ?L (ec_clearmbx zero_buf) 0 s = Some (w0, m0, s\<lparr>fs_ans := None\<rparr>)" using foe_first_receive by blast
  define s1 where "s1 = s\<lparr>fs_ans := None\<rparr>"
  obtain maxdata m where m: "foe_request ?L ECT_FOE_READ name pw s1 = (maxdata, m, s1)" "m 6 = ECT_FOE_READ" "unat maxdata = M - 12"
    using foe_request_shape [OF M] by blast
  define s2 where "s2 = foe_handle M m s1"
  let ?d = "take (M - 12) ?f" and ?r = "drop (M - 12) ?f"
  have s2: "fs_ans s2 = Some (foe_frame ECT_FOE_DATA (0 + 1) ?d)" "fs_no s2 = 0 + 1" "fs_open s2 = (length ?d = M - 12)" "fs_rest s2 = ?r"
    "fs_file s2 = ?f"
    by (simp_all add: s2_def s1_def foe_handle_def foe_chunk_def Let_def m(2))
  have "0 + length (?d @ ?r) < 2 ^ 31 - 3" "0 + length ?d + length ?r \<le> cap" using n by auto
  from foe_read_loop [OF M m(3) this _ _ s2(1-4), of t 1 "int cap" p m0 m] obtain k' mi' mo' s' where
    "do_while (foe_read_round ?L None maxdata (int cap) t) (1, int cap, 0, 0, 0, p, m0, m, s2) =
      Some (1, int (length ?f), int (length ?f), k', length ?f, memcpy p 0 (buf_of ?f) 0 (length ?f), mi', mo', s')" "fs_file s' = ?f"
    using s2(5) by auto
  then show ?thesis
    by (simp add: foe_read_def 0 s1_def [symmetric] m(1) s2_def [symmetric] del: foe_link_simps(4))
qed

section \<open>Properties\<close>

text \<open>The progress hook of the application keeps the master in order.\<close>

definition foe_step :: "'e os_ops \<Rightarrow> ('e \<Rightarrow> nat) \<Rightarrow> 'e eoe_hook \<Rightarrow> 'e ecx_contextt foe_hook \<Rightarrow> nat \<Rightarrow> 'e ecx_contextt \<Rightarrow> 'e ecx_contextt \<Rightarrow> bool" where
  "foe_step E now hook FOEhook slave a c \<longleftrightarrow> link_step E now hook slave a c \<and>
     (\<forall>i j c. ctx_ok E now c \<longrightarrow> runs_to (call_hook FOEhook i j c) (\<lambda>c'. ctx_step E now c c'))"

interpretation ecx_foe: foe_contract "ecx_link E hook slave" "foe_step E now hook FOEhook slave" FOEhook for E now hook FOEhook slave
proof
  fix a c and m :: buf and t i' j' :: int and i :: u16 and j :: u8 and e :: u32 and w :: u16
  assume "foe_step E now hook FOEhook slave a c"
  then have s: "link_step E now hook slave a c"
    and h: "\<And>c'. foe_step E now hook FOEhook slave a c' = link_step E now hook slave a c'"
    and fh: "ctx_ok E now c \<Longrightarrow> runs_to (call_hook FOEhook i' j' c) (\<lambda>c'. ctx_step E now c c')"
    by (auto simp: foe_step_def)
  show "runs_to (lk_send (ecx_link E hook slave) m c) (\<lambda>(w, c'). foe_step E now hook FOEhook slave a c')"
    using ecx.send_law [OF s] by (simp add: h)
  show "runs_to (lk_receive (ecx_link E hook slave) m t c) (\<lambda>(w, m', c'). foe_step E now hook FOEhook slave a c')"
    using ecx.receive_law [OF s] by (simp add: h)
  show "foe_step E now hook FOEhook slave a (snd (lk_cnt (ecx_link E hook slave) c))"
    using ecx.cnt_law [OF s] by (simp add: h)
  show "lk_mbx_l (ecx_link E hook slave) c = lk_mbx_l (ecx_link E hook slave) a" by (rule ecx.size_law [OF s])
  show "runs_to (lk_sdoerror (ecx_link E hook slave) i j e c) (\<lambda>c'. foe_step E now hook FOEhook slave a c')"
    using ecx.sdoerror_law [OF s] by (simp add: h)
  show "runs_to (lk_infoerror (ecx_link E hook slave) i j e c) (\<lambda>c'. foe_step E now hook FOEhook slave a c')"
    using ecx.infoerror_law [OF s] by (simp add: h)
  show "runs_to (lk_packeterror (ecx_link E hook slave) i j w c) (\<lambda>c'. foe_step E now hook FOEhook slave a c')"
    using ecx.packeterror_law [OF s] by (simp add: h)
  have "ctx_ok E now c" using s by (auto simp: link_step_def ctx_step_def)
  from fh [OF this] show "runs_to (call_hook FOEhook i' j' c) (\<lambda>c'. foe_step E now hook FOEhook slave a c')"
    by (rule runs_to_mono) (auto simp: h intro: link_step_trans [OF s])
qed

text \<open>
  C4: a file that \<open>ecx_FOEwrite\<close> has written, \<open>ecx_FOEread\<close> reads back byte for byte, through a mailbox
  of any size the master accepts, for every length of the file: also when it is empty and when the last
  packet is full, so that an empty one has to end the file.
\<close>

theorem foe_roundtrip:
  assumes "12 < M" "M \<le> EC_MAXMBX" "n < 2 ^ 30 - 2" "n \<le> cap"
  shows "\<exists>s1 s2. foe_write (foe_link M) None name pw (int n) p t s = Some (1, s1) \<and> fs_file s1 = bytes_of p 0 n \<and>
    foe_read (foe_link M) None name' pw' (int cap) q t' s1 = Some (1, int n, memcpy q 0 p 0 n, s2)"
proof -
  from foe_write_stores [OF assms(1-3), of name pw p t s] obtain s1 where
    1: "foe_write (foe_link M) None name pw (int n) p t s = Some (1, s1)" "fs_file s1 = bytes_of p 0 n" by blast
  have "length (fs_file s1) < 2 ^ 31 - 3" "length (fs_file s1) \<le> cap" using assms(3,4) 1(2) by simp_all
  from foe_read_serves [OF assms(1,2) this, of name' pw' q t'] 1(2) obtain s2 where
    2: "foe_read (foe_link M) None name' pw' (int cap) q t' s1 = Some (1, int n, memcpy q 0 (buf_of (bytes_of p 0 n)) 0 n, s2)" by auto
  moreover have "memcpy q 0 (buf_of (bytes_of p 0 n)) 0 n = memcpy q 0 p 0 n" by (rule memcpy_shift) (simp add: buf_of_bytes_of)
  ultimately show ?thesis using 1 by simp
qed

definition empty_server :: foe_server where
  "empty_server = \<lparr>fs_file = [], fs_rest = [], fs_no = 0, fs_open = False, fs_ans = None\<rparr>"

theorem foe_roundtrip_witness:
  "\<exists>s1 s2. foe_write (foe_link 128) None [0x66, 0x77] 0 232 (\<lambda>i. of_nat i) 0 empty_server = Some (1, s1) \<and>
     foe_read (foe_link 128) None [0x66, 0x77] 0 1000 zero_buf 0 s1 = Some (1, 232, memcpy zero_buf 0 (\<lambda>i. of_nat i) 0 232, s2)"
  using foe_roundtrip [of 128 232 1000 "[0x66, 0x77]" 0 "\<lambda>i. of_nat i" 0 empty_server "[0x66, 0x77]" 0 zero_buf 0] by auto

text \<open>
  Writing a file always returns, whatever the slave answers, and leaves the master in order; the
  mailbox of the slave has to hold at least one byte of data and to fit in the master's mailbox buffer.
\<close>

theorem ecx_FOEwrite_returns:
  assumes "ctx_ok E now c" "good_hook E now hook" "slave < maxslave c"
    and "\<forall>i j c. ctx_ok E now c \<longrightarrow> runs_to (call_hook FOEhook i j c) (\<lambda>c'. ctx_step E now c c')"
    and "12 < unat (sl_mbx_l (slavelist c slave))" "unat (sl_mbx_l (slavelist c slave)) \<le> EC_MAXMBX + 1" "0 \<le> n"
  shows "\<exists>wkc c'. ecx_FOEwrite E hook FOEhook slave name pw n p t c = Some (wkc, c') \<and> ctx_step E now c c'"
proof -
  have "foe_step E now hook FOEhook slave c c" using assms(1-4) ctx_step_refl [OF assms(1)] by (simp add: foe_step_def link_step_def)
  from ecx_foe.foe_write_runs [OF this, of n name pw p t] assms(5-7) show ?thesis
    by (auto simp: ecx_FOEwrite_def runs_to_iff foe_step_def link_step_def ecx_link_def)
qed

theorem ecx_FOEwrite_returns_witness:
  "\<exists>wkc c'. ecx_FOEwrite script_os None None 1 [0x66] 0 100 zero_buf 1000
     (upd_slave 1 (\<lambda>s. s\<lparr>sl_mbx_l := 128\<rparr>) (idle_ctx 2 (5, []))) = Some (wkc, c')"
proof -
  let ?c = "upd_slave 1 (\<lambda>s. s\<lparr>sl_mbx_l := 128\<rparr>) (idle_ctx 2 (5, []))" and ?now = "\<lambda>(t :: nat, q :: u8 list list). t * 1000"
  have "ctx_ok script_os ?now ?c" using idle_ctx_ok [of 2 "(5, [])"] by (simp add: ctx_ok_def)
  moreover have "good_hook script_os ?now None" by (simp add: good_hook_def)
  moreover have "\<forall>i j c. ctx_ok script_os ?now c \<longrightarrow> runs_to (call_hook None i j c) (\<lambda>c'. ctx_step script_os ?now c c')"
    by (simp add: call_hook_def ctx_step_refl)
  ultimately show ?thesis
    using ecx_FOEwrite_returns [of script_os ?now ?c None 1 None 100 "[0x66]" 0 zero_buf 1000] idle_ctx_ok [of 2 "(5, [])"]
    by (fastforce simp: idle_ctx_def)
qed

text \<open>A slave that answers every packet with "busy" and stores nothing.\<close>

definition busy_handle :: "nat \<Rightarrow> buf \<Rightarrow> foe_server \<Rightarrow> foe_server" where
  "busy_handle M m s = (if m 6 = ECT_FOE_DATA then s\<lparr>fs_ans := Some (foe_frame ECT_FOE_BUSY 0 [])\<rparr> else foe_handle M m s)"

definition busy_link :: "nat \<Rightarrow> foe_server mbx_link" where
  "busy_link M = (foe_link M)\<lparr>lk_send := (\<lambda>m s. Some (1, busy_handle M m s))\<rparr>"

lemma busy_link_simps [simp]:
  "lk_send (busy_link M) m s = Some (1, busy_handle M m s)" "lk_receive (busy_link M) = lk_receive (foe_link M)"
  "foe_header (busy_link M) = foe_header (foe_link M)" "foe_request (busy_link M) = foe_request (foe_link M)"
  by (simp_all add: busy_link_def foe_header_def [abs_def] foe_request_def [abs_def] foe_link_def)

lemma busy_write_loop:
  assumes M: "12 < M" "M \<le> EC_MAXMBX" "unat maxdata = M - 12" and s: "fs_ans s = Some (foe_frame ECT_FOE_ACK 0 [])"
  shows "\<exists>n' seg' hp' fz' mi' mo' s'. do_while (foe_write_round (busy_link M) None maxdata p t) (w, int n, seg, hp, 0, True, mi, mo, s) =
      Some (1, n', seg', hp', 0, fz', mi', mo', s') \<and> fs_file s' = fs_file s"
proof -
  let ?L = "busy_link M" and ?a = "foe_frame ECT_FOE_ACK 0 []" and ?b = "foe_frame ECT_FOE_BUSY 0 []" and ?s = "s\<lparr>fs_ans := None\<rparr>"
  have max: "uint maxdata = int M - 12" using M by (simp add: uint_nat del: of_nat_unat)
  define k where "k = (if int n > uint maxdata then uint maxdata else int n)"
  have k: "0 \<le> k" "FOE_HDR + nat k \<le> EC_MAXMBX + 1" using M by (auto simp: k_def max)
  obtain m where m: "foe_header (foe_link M) (word_of_int (6 + k)) ECT_FOE_DATA (word_of_int (0 + 1)) mo ?s = (m, ?s)" "m 6 = ECT_FOE_DATA"
    using foe_header_shape by blast
  define m' where "m' = memcpy m FOE_HDR p hp (nat k)"
  have h: "busy_handle M m' ?s = ?s\<lparr>fs_ans := Some ?b\<rparr>" using m(2) by (simp add: busy_handle_def m'_def memcpy_apply)
  let ?fz = "int n - k = 0 \<and> k = uint maxdata"
  have "foe_write_data ?L maxdata p (1, int n, seg, hp, 0, True, ?a, mo, ?s) =
      Some ((1, int n - k, k, hp + nat k, 1, ?fz, ?a, m', ?s\<lparr>fs_ans := Some ?b\<rparr>), True)"
    unfolding foe_write_data_def prod.case Let_def k_def [symmetric] busy_link_simps m(1) using k h by (simp add: m'_def [symmetric])
  then have 1: "foe_write_round ?L None maxdata p t (w, int n, seg, hp, 0, True, mi, mo, s) =
      Some ((1, int n - k, k, hp + nat k, 1, ?fz, ?a, m', s\<lparr>fs_ans := Some ?b\<rparr>), True)"
    by (simp add: foe_write_round_def s foe_frame_fields call_hook_def)
  have 2: "foe_write_round ?L None maxdata p t (1, int n - k, k, hp + nat k, 1, ?fz, ?a, m', s\<lparr>fs_ans := Some ?b\<rparr>) =
      Some ((1, int n - k + k, k, hp + nat k - nat k, 0, int n - k = 0 \<or> ?fz, ?b, m', ?s), False)"
    by (simp add: foe_write_round_def foe_frame_fields)
  have "do_while (foe_write_round ?L None maxdata p t) (w, int n, seg, hp, 0, True, mi, mo, s) =
      Some (1, int n - k + k, k, hp + nat k - nat k, 0, int n - k = 0 \<or> ?fz, ?b, m', ?s)"
    by (subst do_while.simps, unfold 1 Option.bind.bind_lunit prod.case if_True, subst do_while.simps)
      (simp only: 2 Option.bind.bind_lunit prod.case if_False)
  then show ?thesis by auto
qed

text \<open>
  A slave that answers every packet with "busy" gets nothing stored, and still \<open>ecx_FOEwrite\<close> returns the
  working counter of a success: the packet is counted back as if it were to be sent again, but the loop is left.
\<close>

theorem foe_write_busy:
  assumes "12 < M" "M \<le> EC_MAXMBX"
  shows "\<exists>s'. foe_write (busy_link M) None name pw (int n) p t s = Some (1, s') \<and> fs_file s' = []"
proof -
  let ?L = "busy_link M"
  obtain w0 m0 where 0: "lk_receive (foe_link M) (ec_clearmbx zero_buf) 0 s = Some (w0, m0, s\<lparr>fs_ans := None\<rparr>)" using foe_first_receive by blast
  define s1 where "s1 = s\<lparr>fs_ans := None\<rparr>"
  obtain maxdata m where m: "foe_request (foe_link M) ECT_FOE_WRITE name pw s1 = (maxdata, m, s1)" "m 6 = ECT_FOE_WRITE" "unat maxdata = M - 12"
    using foe_request_shape [OF assms] by blast
  define s2 where "s2 = busy_handle M m s1"
  have s2: "fs_ans s2 = Some (foe_frame ECT_FOE_ACK 0 [])" "fs_file s2 = []"
    by (simp_all add: s2_def busy_handle_def foe_handle_def m(2))
  from busy_write_loop [OF assms m(3) s2(1), of p t 1 n 0 0 m0 m] s2(2) show ?thesis
    by (auto simp: foe_write_def 0 s1_def [symmetric] m(1) s2_def [symmetric] simp del: foe_link_simps(4))
qed

theorem foe_write_busy_witness:
  "\<exists>s'. foe_write (busy_link 128) None [0x66] 0 (int 1000) zero_buf 0 empty_server = Some (1, s') \<and> fs_file s' = []"
  by (rule foe_write_busy) simp_all

text \<open>
  C34: reading a file from a slave whose packets fit in the mailbox always returns, keeps the contract of the
  mailboxes, gives a size within the caller's buffer, and writes nothing behind that size.
\<close>

theorem foe_read_bounded:
  assumes "foe_contract L step hook" "step a c" "12 < unat (lk_mbx_l L a)" "0 \<le> cap"
    and "\<forall>c m. step a c \<longrightarrow> if_runs (lk_receive L m t c) (\<lambda>(w, m', c'). 0 < w \<longrightarrow> 6 \<le> unat (rd16 m' 0) \<and> unat (rd16 m' 0) \<le> 1481)"
  shows "\<exists>w n p c'. foe_read L hook name pw cap q t c = Some (w, n, p, c') \<and> step a c' \<and> 0 \<le> n \<and> n \<le> cap \<and>
    (\<forall>i \<ge> nat n. p i = q i)"
proof -
  have unat_6: "unat (x - 6) \<le> 1475" if "6 \<le> unat x" "unat x \<le> 1481" for x :: u16
    using that by (simp add: unat_sub_if')
  then have "if_runs (lk_receive L m t c) (\<lambda>(w, m', c'). 0 < w \<longrightarrow> unat (rd16 m' 0 - 6) \<le> 1475)" if "step a c" for c m
  proof -
    have "if_runs (lk_receive L m t c) (\<lambda>(w, m', c'). 0 < w \<longrightarrow> 6 \<le> unat (rd16 m' 0) \<and> unat (rd16 m' 0) \<le> 1481)"
      using assms(5) that by blast
    then show ?thesis by (rule if_runs_mono) (use unat_6 in auto)
  qed
  from foe_contract.foe_read_runs [OF assms(1-4) this, of name pw q] show ?thesis by (auto simp: runs_to_iff)
qed

definition fits :: "foe_server \<Rightarrow> bool" where
  "fits s \<longleftrightarrow> (\<forall>f. fs_ans s = Some f \<longrightarrow> 6 \<le> unat (rd16 f 0) \<and> unat (rd16 f 0) \<le> 1481)"

lemma foe_handle_fits:
  assumes "M \<le> EC_MAXMBX" "fits s"
  shows "fits (foe_handle M m s)"
proof -
  have frame: "6 \<le> unat (rd16 (foe_frame opc no d) 0) \<and> unat (rd16 (foe_frame opc no d) 0) \<le> 1481" if "length d \<le> 1475" for opc no d
    using that by (simp add: foe_frame_fields(3) unat_of_nat_u16 del: of_nat_add)
  show ?thesis
    using assms frame by (auto simp: fits_def foe_handle_def foe_chunk_def foe_accept_def Let_def)
qed

lemma foe_link_contract: "M \<le> EC_MAXMBX \<Longrightarrow> foe_contract (foe_link M) (\<lambda>_. fits) None"
  by unfold_locales
    (auto simp: call_hook_def foe_handle_fits foe_link_def split: option.splits, auto simp: fits_def)

theorem foe_read_bounded_witness:
  "\<exists>w n p c'. foe_read (foe_link 128) None [0x66] 0 100 zero_buf 0 (empty_server\<lparr>fs_file := replicate 70 7\<rparr>) = Some (w, n, p, c') \<and>
     n \<le> 100 \<and> (\<forall>i \<ge> nat n. p i = 0)"
proof -
  have "foe_contract (foe_link 128) (\<lambda>_. fits) None" by (rule foe_link_contract) simp
  moreover have "fits (empty_server\<lparr>fs_file := replicate 70 7\<rparr>)" by (simp add: fits_def empty_server_def)
  moreover have "\<forall>c m. fits c \<longrightarrow> if_runs (lk_receive (foe_link 128) m 0 c)
      (\<lambda>(w, m', c'). 0 < w \<longrightarrow> 6 \<le> unat (rd16 m' 0) \<and> unat (rd16 m' 0) \<le> 1481)"
    by (auto simp: fits_def split: option.splits)
  ultimately show ?thesis
    using foe_read_bounded [where L = "foe_link 128" and step = "\<lambda>_. fits" and hook = None and cap = 100 and t = 0
        and c = "empty_server\<lparr>fs_file := replicate 70 7\<rparr>" and a = empty_server and name = "[0x66]" and pw = 0 and q = zero_buf]
    by (auto simp: zero_buf_def)
qed

end
