(* ===== verification/Eoe.thy ===== *)
theory Eoe
  imports SdoServer
begin

text \<open>
  Ethernet over EtherCAT (\<open>soem/ethercateoe.c\<close>): setting and getting the IP parameters of a slave, sending an Ethernet
  frame in fragments, and reassembling received fragments, once by a blocking read and once fragment by fragment
  for the hook of the mailbox layer.

  An EoE frame has its length at 0, the type at 5, the first info word at 6 (bits 0 to 3 the kind, bits 4 to 7 the
  port, bit 8 last fragment, bit 9 timestamp appended), the second info word or the result at 8 (bits 0 to 5 the
  fragment, bits 6 to 11 the offset in blocks of 32 bytes, or the number of blocks in the first
  fragment, bits 12 to 15 the frame), and its data from 10 on.

  The fragments that are sent are proved to be reassembled by both readers, and the parameters that are set to be got back.
\<close>

abbreviation (input) EOE_DNS_NAME_LENGTH :: nat where "EOE_DNS_NAME_LENGTH \<equiv> 32"
abbreviation (input) EOE_ETHADDR_LENGTH :: nat where "EOE_ETHADDR_LENGTH \<equiv> 6"
abbreviation (input) EOE_IP4_LENGTH :: nat where "EOE_IP4_LENGTH \<equiv> 4"
abbreviation (input) EOE_PARAM_OFFSET :: nat where "EOE_PARAM_OFFSET \<equiv> 4"
abbreviation (input) EOE_PARAM_MAC_INCLUDE :: u8 where "EOE_PARAM_MAC_INCLUDE \<equiv> 0x01"
abbreviation (input) EOE_PARAM_IP_INCLUDE :: u8 where "EOE_PARAM_IP_INCLUDE \<equiv> 0x02"
abbreviation (input) EOE_PARAM_SUBNET_IP_INCLUDE :: u8 where "EOE_PARAM_SUBNET_IP_INCLUDE \<equiv> 0x04"
abbreviation (input) EOE_PARAM_DEFAULT_GATEWAY_INCLUDE :: u8 where "EOE_PARAM_DEFAULT_GATEWAY_INCLUDE \<equiv> 0x08"
abbreviation (input) EOE_PARAM_DNS_IP_INCLUDE :: u8 where "EOE_PARAM_DNS_IP_INCLUDE \<equiv> 0x10"
abbreviation (input) EOE_PARAM_DNS_NAME_INCLUDE :: u8 where "EOE_PARAM_DNS_NAME_INCLUDE \<equiv> 0x20"
abbreviation (input) EOE_INIT_REQ :: u16 where "EOE_INIT_REQ \<equiv> 2"
abbreviation (input) EOE_INIT_RESP :: u16 where "EOE_INIT_RESP \<equiv> 3"
abbreviation (input) EOE_GET_IP_PARAM_REQ :: u16 where "EOE_GET_IP_PARAM_REQ \<equiv> 6"
abbreviation (input) EOE_GET_IP_PARAM_RESP :: u16 where "EOE_GET_IP_PARAM_RESP \<equiv> 7"
abbreviation (input) EOE_RESULT_SUCCESS :: u16 where "EOE_RESULT_SUCCESS \<equiv> 0"
abbreviation (input) EOE_RESULT_UNSUPPORTED_FRAME_TYPE :: int where "EOE_RESULT_UNSUPPORTED_FRAME_TYPE \<equiv> 2"
abbreviation (input) EOE_HDR_LAST_FRAGMENT :: u16 where "EOE_HDR_LAST_FRAGMENT \<equiv> 0x0100"
abbreviation (input) EOE_DATA :: nat where "EOE_DATA \<equiv> 10"

text \<open>The fields of the info words.\<close>

definition EOE_HDR_FRAME_TYPE_SET :: "u16 \<Rightarrow> u16" where "EOE_HDR_FRAME_TYPE_SET x = x AND 0xf"
definition EOE_HDR_FRAME_TYPE_GET :: "u16 \<Rightarrow> u16" where "EOE_HDR_FRAME_TYPE_GET x = x AND 0xf"
definition EOE_HDR_FRAME_PORT_SET :: "u16 \<Rightarrow> u16" where "EOE_HDR_FRAME_PORT_SET x = push_bit 4 (x AND 0xf)"
definition EOE_HDR_FRAME_PORT_GET :: "u16 \<Rightarrow> u16" where "EOE_HDR_FRAME_PORT_GET x = drop_bit 4 x AND 0xf"
definition EOE_HDR_LAST_FRAGMENT_SET :: "u16 \<Rightarrow> u16" where "EOE_HDR_LAST_FRAGMENT_SET x = push_bit 8 (x AND 1)"
definition EOE_HDR_LAST_FRAGMENT_GET :: "u16 \<Rightarrow> u16" where "EOE_HDR_LAST_FRAGMENT_GET x = drop_bit 8 x AND 1"
definition EOE_HDR_TIME_APPEND_GET :: "u16 \<Rightarrow> u16" where "EOE_HDR_TIME_APPEND_GET x = drop_bit 9 x AND 1"
definition EOE_HDR_FRAG_NO_SET :: "u16 \<Rightarrow> u16" where "EOE_HDR_FRAG_NO_SET x = x AND 0x3f"
definition EOE_HDR_FRAG_NO_GET :: "u16 \<Rightarrow> u16" where "EOE_HDR_FRAG_NO_GET x = x AND 0x3f"
definition EOE_HDR_FRAME_OFFSET_SET :: "u16 \<Rightarrow> u16" where "EOE_HDR_FRAME_OFFSET_SET x = push_bit 6 (x AND 0x3f)"
definition EOE_HDR_FRAME_OFFSET_GET :: "u16 \<Rightarrow> u16" where "EOE_HDR_FRAME_OFFSET_GET x = drop_bit 6 x AND 0x3f"
definition EOE_HDR_FRAME_NO_SET :: "u16 \<Rightarrow> u16" where "EOE_HDR_FRAME_NO_SET x = push_bit 12 (x AND 0xf)"
definition EOE_HDR_FRAME_NO_GET :: "u16 \<Rightarrow> u16" where "EOE_HDR_FRAME_NO_GET x = drop_bit 12 x AND 0xf"

section \<open>IP parameters\<close>

record eoe_param_t =
  ep_mac_set :: bool
  ep_ip_set :: bool
  ep_subnet_set :: bool
  ep_default_gateway_set :: bool
  ep_dns_ip_set :: bool
  ep_dns_name_set :: bool
  ep_mac :: buf
  ep_ip :: u32
  ep_subnet :: u32
  ep_default_gateway :: u32
  ep_dns_ip :: u32
  ep_dns_name :: buf

text \<open>An address in network order, first octet in the low byte, and its four bytes in the frame, last octet first.\<close>

definition EOE_HTONL :: "u32 \<Rightarrow> u32" where
  "EOE_HTONL x = push_bit 24 (x AND 0xff) OR push_bit 8 (x AND 0xff00) OR drop_bit 8 (x AND 0xff0000) OR drop_bit 24 (x AND 0xff000000)"

definition EOE_MAKEU32 :: "u8 \<Rightarrow> u8 \<Rightarrow> u8 \<Rightarrow> u8 \<Rightarrow> u32" where
  "EOE_MAKEU32 a b c d = push_bit 24 (ucast a) OR push_bit 16 (ucast b) OR push_bit 8 (ucast c) OR ucast d"

definition EOE_ip_uint32_to_byte :: "u32 \<Rightarrow> nat \<Rightarrow> buf \<Rightarrow> buf" where
  "EOE_ip_uint32_to_byte ip off m = m(off + 3 := ucast ip, off + 2 := ucast (drop_bit 8 ip), off + 1 := ucast (drop_bit 16 ip),
     off := ucast (drop_bit 24 ip))"

definition EOE_ip_byte_to_uint32 :: "buf \<Rightarrow> nat \<Rightarrow> u32" where
  "EOE_ip_byte_to_uint32 m off = EOE_HTONL (EOE_MAKEU32 (m (off + 3)) (m (off + 2)) (m (off + 1)) (m off))"

text \<open>The mailbox header with a new counter; the length is set when it is known.\<close>

definition eoe_header :: "'c mbx_link \<Rightarrow> buf \<Rightarrow> 'c \<Rightarrow> buf \<times> 'c" where
  "eoe_header L m c = (let (cnt, c) = lk_cnt L c in ((wr16 m 2 0)(4 := 0, 5 := ECT_MBXT_EOE + push_bit 4 cnt), c))"

definition eoe_request :: "'c mbx_link \<Rightarrow> u16 \<Rightarrow> u8 \<Rightarrow> 'c \<Rightarrow> buf \<times> 'c" where
  "eoe_request L typ portno c = (let (m, c) = eoe_header L (ec_clearmbx zero_buf) c in
     (wr16 (wr16 m 6 (EOE_HDR_FRAME_TYPE_SET typ OR EOE_HDR_FRAME_PORT_SET (ucast portno) OR EOE_HDR_LAST_FRAGMENT)) 8 0, c))"

text \<open>One parameter: its flag, and its bytes at \<open>data_offset\<close>, when it is set.\<close>

definition put_param :: "bool \<Rightarrow> u8 \<Rightarrow> nat \<Rightarrow> (nat \<Rightarrow> buf \<Rightarrow> buf) \<Rightarrow> u8 \<times> nat \<times> buf \<Rightarrow> u8 \<times> nat \<times> buf" where
  "put_param is_set flag len wr = (\<lambda>(flags, data_offset, m).
     if is_set then (flags OR flag, data_offset + len, wr (EOE_DATA + data_offset) m) else (flags, data_offset, m))"

definition put_params :: "eoe_param_t \<Rightarrow> u8 \<times> nat \<times> buf \<Rightarrow> u8 \<times> nat \<times> buf" where
  "put_params q st = put_param (ep_dns_name_set q) EOE_PARAM_DNS_NAME_INCLUDE EOE_DNS_NAME_LENGTH (\<lambda>off m. memcpy m off (ep_dns_name q) 0 EOE_DNS_NAME_LENGTH)
     (put_param (ep_dns_ip_set q) EOE_PARAM_DNS_IP_INCLUDE EOE_IP4_LENGTH (EOE_ip_uint32_to_byte (ep_dns_ip q))
     (put_param (ep_default_gateway_set q) EOE_PARAM_DEFAULT_GATEWAY_INCLUDE EOE_IP4_LENGTH (EOE_ip_uint32_to_byte (ep_default_gateway q))
     (put_param (ep_subnet_set q) EOE_PARAM_SUBNET_IP_INCLUDE EOE_IP4_LENGTH (EOE_ip_uint32_to_byte (ep_subnet q))
     (put_param (ep_ip_set q) EOE_PARAM_IP_INCLUDE EOE_IP4_LENGTH (EOE_ip_uint32_to_byte (ep_ip q))
     (put_param (ep_mac_set q) EOE_PARAM_MAC_INCLUDE EOE_ETHADDR_LENGTH (\<lambda>off m. memcpy m off (ep_mac q) 0 EOE_ETHADDR_LENGTH) st)))))"

definition eoe_set_ip :: "'c mbx_link \<Rightarrow> u8 \<Rightarrow> eoe_param_t \<Rightarrow> int \<Rightarrow> 'c \<Rightarrow> (int \<times> 'c) option" where
  "eoe_set_ip L portno ipparam timeout c = do {
     (_, mi, c) \<leftarrow> lk_receive L (ec_clearmbx zero_buf) 0 c;
     let (mo, c) = eoe_request L EOE_INIT_REQ portno c;
     let (flags, data_offset, mo) = put_params ipparam (0, EOE_PARAM_OFFSET, mo);
     let mo = (wr16 mo 0 (of_nat (EOE_PARAM_OFFSET + data_offset)))(EOE_DATA := flags);
     (wkc, c) \<leftarrow> lk_send L mo c;
     if wkc > 0
     then do {
       (wkc, mi, c) \<leftarrow> lk_receive L (ec_clearmbx mi) timeout c;
       Some (if wkc > 0
         then if mi 5 AND 0x0f = ECT_MBXT_EOE
           then if EOE_HDR_FRAME_TYPE_GET (rd16 mi 6) \<noteq> EOE_INIT_RESP \<or> rd16 mi 8 \<noteq> EOE_RESULT_SUCCESS then - uint (rd16 mi 8) else wkc
           else - ec_err_code EC_ERR_TYPE_PACKET_ERROR
         else wkc, c) }
     else Some (wkc, c) }"

definition ecx_EOEsetIp :: "'e os_ops \<Rightarrow> 'e eoe_hook \<Rightarrow> nat \<Rightarrow> u8 \<Rightarrow> eoe_param_t \<Rightarrow> int \<Rightarrow> 'e ecx_contextt \<Rightarrow> (int \<times> 'e ecx_contextt) option" where
  "ecx_EOEsetIp E hook slave = eoe_set_ip (ecx_link E hook slave)"

text \<open>One parameter of an answer.\<close>

definition get_param :: "u8 \<Rightarrow> u8 \<Rightarrow> nat \<Rightarrow> (nat \<Rightarrow> eoe_param_t \<Rightarrow> eoe_param_t) \<Rightarrow> nat \<times> eoe_param_t \<Rightarrow> nat \<times> eoe_param_t" where
  "get_param flags flag len rd = (\<lambda>(data_offset, q).
     if flags AND flag \<noteq> 0 then (data_offset + len, rd (EOE_DATA + data_offset) q) else (data_offset, q))"

definition get_params :: "buf \<Rightarrow> nat \<times> eoe_param_t \<Rightarrow> nat \<times> eoe_param_t" where
  "get_params m st = (let flags = m EOE_DATA in
     get_param flags EOE_PARAM_DNS_IP_INCLUDE EOE_IP4_LENGTH (\<lambda>off q. q\<lparr>ep_dns_ip := EOE_ip_byte_to_uint32 m off, ep_dns_ip_set := True\<rparr>)
     (get_param flags EOE_PARAM_DEFAULT_GATEWAY_INCLUDE EOE_IP4_LENGTH (\<lambda>off q. q\<lparr>ep_default_gateway := EOE_ip_byte_to_uint32 m off, ep_default_gateway_set := True\<rparr>)
     (get_param flags EOE_PARAM_SUBNET_IP_INCLUDE EOE_IP4_LENGTH (\<lambda>off q. q\<lparr>ep_subnet := EOE_ip_byte_to_uint32 m off, ep_subnet_set := True\<rparr>)
     (get_param flags EOE_PARAM_IP_INCLUDE EOE_IP4_LENGTH (\<lambda>off q. q\<lparr>ep_ip := EOE_ip_byte_to_uint32 m off, ep_ip_set := True\<rparr>)
     (get_param flags EOE_PARAM_MAC_INCLUDE EOE_ETHADDR_LENGTH (\<lambda>off q. q\<lparr>ep_mac := memcpy (ep_mac q) 0 m off EOE_ETHADDR_LENGTH, ep_mac_set := True\<rparr>) st)))))"

text \<open>The name: as much of the 32 bytes as the answer has; the length is an unsigned 16 bit number.\<close>

definition get_dns_name :: "buf \<Rightarrow> u16 \<Rightarrow> nat \<times> eoe_param_t \<Rightarrow> (nat \<times> eoe_param_t) option" where
  "get_dns_name m eoedatasize = (\<lambda>(data_offset, q).
     if m EOE_DATA AND EOE_PARAM_DNS_NAME_INCLUDE \<noteq> 0
     then do {
       let left = uint eoedatasize - int data_offset;
       let dns_len = (if left < int EOE_DNS_NAME_LENGTH then word_of_int left else 32 :: u16);
       chk (unat dns_len \<le> EOE_DNS_NAME_LENGTH);
       Some (data_offset + EOE_DNS_NAME_LENGTH,
         q\<lparr>ep_dns_name := memcpy (ep_dns_name q) 0 m (EOE_DATA + data_offset) (unat dns_len), ep_dns_name_set := True\<rparr>) }
     else Some (data_offset, q))"

definition eoe_get_ip :: "'c mbx_link \<Rightarrow> u8 \<Rightarrow> eoe_param_t \<Rightarrow> int \<Rightarrow> 'c \<Rightarrow> (int \<times> eoe_param_t \<times> 'c) option" where
  "eoe_get_ip L portno ipparam timeout c = do {
     (_, mi, c) \<leftarrow> lk_receive L zero_buf 0 c;
     let (mo, c) = eoe_request L EOE_GET_IP_PARAM_REQ portno c;
     let mo = (wr16 mo 0 4)(EOE_DATA := 0);
     (wkc, c) \<leftarrow> lk_send L mo c;
     if wkc > 0
     then do {
       (wkc, mi, c) \<leftarrow> lk_receive L (ec_clearmbx mi) timeout c;
       if wkc > 0
       then if mi 5 AND 0x0f = ECT_MBXT_EOE
         then do {
           let eoedatasize = rd16 mi 0 - 4;
           if EOE_HDR_FRAME_TYPE_GET (rd16 mi 6) \<noteq> EOE_GET_IP_PARAM_RESP
           then Some (- EOE_RESULT_UNSUPPORTED_FRAME_TYPE, ipparam, c)
           else do {
             (data_offset, ipparam) \<leftarrow> get_dns_name mi eoedatasize (get_params mi (EOE_PARAM_OFFSET, ipparam));
             Some (if data_offset > unat eoedatasize then - ec_err_code EC_ERR_TYPE_MBX_ERROR else wkc, ipparam, c) } }
         else Some (- ec_err_code EC_ERR_TYPE_PACKET_ERROR, ipparam, c)
       else Some (wkc, ipparam, c) }
     else Some (wkc, ipparam, c) }"

definition ecx_EOEgetIp :: "'e os_ops \<Rightarrow> 'e eoe_hook \<Rightarrow> nat \<Rightarrow> u8 \<Rightarrow> eoe_param_t \<Rightarrow> int \<Rightarrow> 'e ecx_contextt \<Rightarrow> (int \<times> eoe_param_t \<times> 'e ecx_contextt) option" where
  "ecx_EOEgetIp E hook slave = eoe_get_ip (ecx_link E hook slave)"

section \<open>Sending an Ethernet frame\<close>

text \<open>
  One fragment of the \<open>psize\<close> bytes of \<open>p\<close>. \<open>txframeno\<close> counts the frames sent since the program
  began (a static variable of the function).
\<close>

definition eoe_send_round :: "'c mbx_link \<Rightarrow> u8 \<Rightarrow> int \<Rightarrow> buf \<Rightarrow> int \<Rightarrow> int \<times> int \<times> u8 \<times> u8 \<times> buf \<times> 'c \<Rightarrow>
    ((int \<times> int \<times> u8 \<times> u8 \<times> buf \<times> 'c) \<times> bool) option" where
  "eoe_send_round L portno psize p maxdata = (\<lambda>(wkc, txframeoffset, txfragmentno, txframeno, mo, c). do {
     let txframesize = psize - txframeoffset;
     let txframesize = (if txframesize > maxdata then push_bit 5 (drop_bit 5 maxdata) else txframesize);
     let NotLast = (txframesize \<noteq> psize - txframeoffset);
     let frameinfo1 = (if NotLast then EOE_HDR_FRAME_PORT_SET (ucast portno) else EOE_HDR_LAST_FRAGMENT_SET 1 OR EOE_HDR_FRAME_PORT_SET (ucast portno));
     let frameinfo2 = EOE_HDR_FRAG_NO_SET (ucast txfragmentno);
     let (frameinfo2, txframeno) = (if txfragmentno > 0
       then (frameinfo2 OR EOE_HDR_FRAME_OFFSET_SET (word_of_int (drop_bit 5 txframeoffset)), txframeno)
       else (frameinfo2 OR EOE_HDR_FRAME_OFFSET_SET (word_of_int (drop_bit 5 (psize + 31))), txframeno + 1));
     let frameinfo2 = frameinfo2 OR EOE_HDR_FRAME_NO_SET (ucast txframeno);
     let (mo, c) = eoe_header L mo c;
     let mo = wr16 (wr16 (wr16 mo 0 (word_of_int (4 + txframesize))) 6 frameinfo1) 8 frameinfo2;
     chk (0 \<le> txframesize \<and> EOE_DATA + nat txframesize \<le> EC_MAXMBX + 1);
     let mo = memcpy mo EOE_DATA p (nat txframeoffset) (nat txframesize);
     (wkc, c) \<leftarrow> lk_send L mo c;
     let more = (NotLast \<and> wkc > 0);
     Some ((wkc, if more then txframeoffset + txframesize else txframeoffset, if more then txfragmentno + 1 else txfragmentno,
       txframeno, mo, c), more) })"

definition eoe_send :: "'c mbx_link \<Rightarrow> u8 \<Rightarrow> int \<Rightarrow> buf \<Rightarrow> u8 \<Rightarrow> 'c \<Rightarrow> (int \<times> u8 \<times> 'c) option" where
  "eoe_send L portno psize p txframeno c = do {
     let maxdata = uint (lk_mbx_l L c) - 0x0a;
     (wkc, _, _, txframeno, _, c) \<leftarrow> do_while (eoe_send_round L portno psize p maxdata) (0, 0, 0, txframeno, ec_clearmbx zero_buf, c);
     Some (wkc, txframeno, c) }"

definition ecx_EOEsend :: "'e os_ops \<Rightarrow> 'e eoe_hook \<Rightarrow> nat \<Rightarrow> u8 \<Rightarrow> int \<Rightarrow> buf \<Rightarrow> int \<Rightarrow> u8 \<Rightarrow> 'e ecx_contextt \<Rightarrow>
    (int \<times> u8 \<times> 'e ecx_contextt) option" where
  "ecx_EOEsend E hook slave portno psize p timeout =
     eoe_send ((ecx_link E hook slave)\<lparr>lk_send := (\<lambda>m. ecx_mbxsend E slave m timeout)\<rparr>) portno psize p"

section \<open>Receiving an Ethernet frame\<close>

text \<open>One fragment of the blocking read; \<open>NotLast\<close> is the last result.\<close>

definition eoe_recv_valid :: "u8 \<Rightarrow> int \<Rightarrow> u8 \<Rightarrow> u8 \<Rightarrow> int \<Rightarrow> u16 \<Rightarrow> u16 \<Rightarrow> bool" where
  "eoe_recv_valid portno buffersize rxfragmentno rxframeno rxframeoffset frameinfo1 frameinfo2 \<longleftrightarrow>
     (ucast rxfragmentno = EOE_HDR_FRAG_NO_GET frameinfo2 \<or> \<not> EOE_HDR_FRAG_NO_GET frameinfo2 > 0) \<and>
     (if rxfragmentno = 0
      then 32 * uint (EOE_HDR_FRAME_OFFSET_GET frameinfo2) \<le> buffersize \<and> ucast portno = EOE_HDR_FRAME_PORT_GET frameinfo1
      else ucast rxframeno = EOE_HDR_FRAME_NO_GET frameinfo2 \<and> rxframeoffset = 32 * uint (EOE_HDR_FRAME_OFFSET_GET frameinfo2))"

definition eoe_recv_round :: "'c mbx_link \<Rightarrow> u8 \<Rightarrow> int \<Rightarrow> int \<Rightarrow> int \<times> bool \<times> int \<times> u8 \<times> u8 \<times> int \<times> buf \<times> buf \<times> 'c \<Rightarrow>
    (int \<times> bool \<times> int \<times> u8 \<times> u8 \<times> int \<times> buf \<times> buf \<times> 'c) option" where
  "eoe_recv_round L portno buffersize timeout = (\<lambda>(wkc, NotLast, psize, rxfragmentno, rxframeno, rxframeoffset, p, mi, c).
     if mi 5 AND 0x0f = ECT_MBXT_EOE
     then do {
       let eoedatasize = uint (rd16 mi 0) - 4;
       let frameinfo1 = rd16 mi 6;
       let frameinfo2 = rd16 mi 8;
       if eoe_recv_valid portno buffersize rxfragmentno rxframeno rxframeoffset frameinfo1 frameinfo2
       then do {
         let rxframeno = (if rxfragmentno = 0 then ucast (EOE_HDR_FRAME_NO_GET frameinfo2) else rxframeno);
         (rxfragmentno, rxframeoffset, p) \<leftarrow> (if rxframeoffset + eoedatasize \<le> buffersize
           then do {
             chk (0 \<le> eoedatasize \<and> EOE_DATA + nat eoedatasize \<le> EC_MAXMBX + 1);
             Some (rxfragmentno + 1, rxframeoffset + eoedatasize, memcpy p (nat rxframeoffset) mi EOE_DATA (nat eoedatasize)) }
           else Some (rxfragmentno, rxframeoffset, p));
         if EOE_HDR_LAST_FRAGMENT_GET frameinfo1 \<noteq> 0
         then let rxframeoffset = (if EOE_HDR_TIME_APPEND_GET frameinfo1 \<noteq> 0 then rxframeoffset - 4 else rxframeoffset)
           in Some (wkc, False, rxframeoffset, rxfragmentno, rxframeno, rxframeoffset, p, mi, c)
         else do {
           (wkc, mi, c) \<leftarrow> lk_receive L mi timeout c;
           Some (wkc, NotLast, psize, rxfragmentno, rxframeno, rxframeoffset, p, mi, c) } }
       else Some (- ec_err_code EC_ERR_TYPE_EOE_INVALID_RX_DATA, NotLast, psize, rxfragmentno, rxframeno, rxframeoffset, p, mi, c) }
     else Some (- ec_err_code EC_ERR_TYPE_PACKET_ERROR, NotLast, psize, rxfragmentno, rxframeno, rxframeoffset, p, mi, c))"

definition eoe_recv :: "'c mbx_link \<Rightarrow> u8 \<Rightarrow> int \<Rightarrow> buf \<Rightarrow> int \<Rightarrow> 'c \<Rightarrow> (int \<times> int \<times> buf \<times> 'c) option" where
  "eoe_recv L portno psize p timeout c = do {
     (wkc, mi, c) \<leftarrow> lk_receive L (ec_clearmbx zero_buf) timeout c;
     (wkc, _, psize, _, _, _, p, _, c) \<leftarrow> while_do (\<lambda>(wkc, NotLast, _). wkc > 0 \<and> NotLast) (eoe_recv_round L portno psize timeout)
       (wkc, True, psize, 0, 0xff, 0, p, mi, c);
     Some (wkc, psize, p, c) }"

definition ecx_EOErecv :: "'e os_ops \<Rightarrow> 'e eoe_hook \<Rightarrow> nat \<Rightarrow> u8 \<Rightarrow> int \<Rightarrow> buf \<Rightarrow> int \<Rightarrow> 'e ecx_contextt \<Rightarrow>
    (int \<times> int \<times> buf \<times> 'e ecx_contextt) option" where
  "ecx_EOErecv E hook slave = eoe_recv (ecx_link E hook slave)"

section \<open>Fragment by fragment\<close>

text \<open>The variables that the caller keeps between the fragments.\<close>

record eoe_rx =
  rx_fragmentno :: u8
  rx_framesize :: u16
  rx_frameoffset :: u16
  rx_frameno :: u16
  rx_psize :: int
  rx_buf :: buf

definition reset_rx :: "eoe_rx \<Rightarrow> eoe_rx" where
  "reset_rx r = r\<lparr>rx_fragmentno := 0, rx_framesize := 0, rx_frameoffset := 0, rx_frameno := 0\<rparr>"

text \<open>The data of a fragment that is in place, and the end of the frame.\<close>

definition store_fragment :: "buf \<Rightarrow> u16 \<Rightarrow> u16 \<Rightarrow> eoe_rx \<Rightarrow> (int \<times> eoe_rx) option" where
  "store_fragment MbxIn eoedatasize frameinfo1 r = do {
     let stop = uint (rx_frameoffset r) + uint eoedatasize;
     r \<leftarrow> (if stop \<le> uint (rx_framesize r) \<and> stop \<le> rx_psize r
       then do {
         chk (EOE_DATA + unat eoedatasize \<le> EC_MAXMBX + 1);
         Some (r\<lparr>rx_buf := memcpy (rx_buf r) (unat (rx_frameoffset r)) MbxIn EOE_DATA (unat eoedatasize),
           rx_frameoffset := rx_frameoffset r + eoedatasize, rx_fragmentno := rx_fragmentno r + 1\<rparr>) }
       else Some r);
     Some (if EOE_HDR_LAST_FRAGMENT_GET frameinfo1 \<noteq> 0
       then let off = (if EOE_HDR_TIME_APPEND_GET frameinfo1 \<noteq> 0 then rx_frameoffset r - 4 else rx_frameoffset r)
         in (1, reset_rx (r\<lparr>rx_psize := uint off\<rparr>))
       else (0, r)) }"

definition ecx_EOEreadfragment :: "buf \<Rightarrow> eoe_rx \<Rightarrow> (int \<times> eoe_rx) option" where
  "ecx_EOEreadfragment MbxIn r =
     (if MbxIn 5 AND 0x0f = ECT_MBXT_EOE
      then let eoedatasize = rd16 MbxIn 0 - 4; frameinfo1 = rd16 MbxIn 6; frameinfo2 = rd16 MbxIn 8;
          other = (ucast (rx_fragmentno r) \<noteq> EOE_HDR_FRAG_NO_GET frameinfo2);
          r = (if other \<and> rx_fragmentno r \<noteq> 0 then reset_rx r else r)
        in if other \<and> EOE_HDR_FRAG_NO_GET frameinfo2 > 0
          then Some (- ec_err_code EC_ERR_TYPE_EOE_INVALID_RX_DATA, r)
          else if rx_fragmentno r = 0
          then store_fragment MbxIn eoedatasize frameinfo1 (r\<lparr>rx_framesize := push_bit 5 (EOE_HDR_FRAME_OFFSET_GET frameinfo2),
            rx_frameoffset := 0, rx_frameno := EOE_HDR_FRAME_NO_GET frameinfo2\<rparr>)
          else if rx_frameno r \<noteq> EOE_HDR_FRAME_NO_GET frameinfo2 \<or>
            uint (rx_frameoffset r) \<noteq> 32 * uint (EOE_HDR_FRAME_OFFSET_GET frameinfo2)
          then Some (- ec_err_code EC_ERR_TYPE_EOE_INVALID_RX_DATA, reset_rx r)
          else store_fragment MbxIn eoedatasize frameinfo1 r
      else Some (- ec_err_code EC_ERR_TYPE_PACKET_ERROR, r))"
section \<open>The info words\<close>

lemma and_masks: "(x :: u16) AND 0x3f = take_bit 6 x" "(x :: u16) AND 0xf = take_bit 4 x" "(x :: u16) AND 1 = take_bit 1 x"
proof -
  have "(0x3f :: u16) = mask 6" "(0xf :: u16) = mask 4" "(1 :: u16) = mask 1" by (simp_all add: mask_eq_exp_minus_1)
  then show "(x :: u16) AND 0x3f = take_bit 6 x" "(x :: u16) AND 0xf = take_bit 4 x" "(x :: u16) AND 1 = take_bit 1 x"
    by (simp_all only: take_bit_eq_mask)
qed

lemmas eoe_fields = EOE_HDR_FRAME_TYPE_SET_def EOE_HDR_FRAME_TYPE_GET_def EOE_HDR_FRAME_PORT_SET_def EOE_HDR_FRAME_PORT_GET_def
  EOE_HDR_LAST_FRAGMENT_SET_def EOE_HDR_LAST_FRAGMENT_GET_def EOE_HDR_TIME_APPEND_GET_def EOE_HDR_FRAG_NO_SET_def EOE_HDR_FRAG_NO_GET_def
  EOE_HDR_FRAME_OFFSET_SET_def EOE_HDR_FRAME_OFFSET_GET_def EOE_HDR_FRAME_NO_SET_def EOE_HDR_FRAME_NO_GET_def and_masks

lemma frameinfo2_fields:
  fixes a b d :: u16
  defines "w \<equiv> (EOE_HDR_FRAG_NO_SET a OR EOE_HDR_FRAME_OFFSET_SET b) OR EOE_HDR_FRAME_NO_SET d"
  shows "EOE_HDR_FRAG_NO_GET w = a AND 0x3f" "EOE_HDR_FRAME_OFFSET_GET w = b AND 0x3f" "EOE_HDR_FRAME_NO_GET w = d AND 0xf"
  by (rule bit_word_eqI, auto simp: w_def eoe_fields bit_simps)+

lemma u16_below_16: "q < 16 \<Longrightarrow> q \<in> {0, 1, 2, 3, 4, 5, 6, 7, 8, 9, 10, 11, 12, 13, 14, 15 :: u16}"
proof -
  assume "q < 16"
  then have "unat q < 16" by (simp add: word_less_nat_alt)
  moreover have "k \<in> {0, 1, 2, 3, 4, 5, 6, 7, 8, 9, 10, 11, 12, 13, 14, 15}" if "k < 16" for k :: nat
    using that by (simp, presburger)
  ultimately have "unat q \<in> {0, 1, 2, 3, 4, 5, 6, 7, 8, 9, 10, 11, 12, 13, 14, 15}" by blast
  then show ?thesis by (auto simp: word_unat_eq_iff)
qed

lemma frameinfo1_fields:
  assumes "q < 16"
  defines "w \<equiv> EOE_HDR_FRAME_PORT_SET q"
  shows "EOE_HDR_FRAME_PORT_GET w = q" "EOE_HDR_LAST_FRAGMENT_GET w = 0" "EOE_HDR_TIME_APPEND_GET w = 0"
    "EOE_HDR_FRAME_PORT_GET (EOE_HDR_LAST_FRAGMENT_SET 1 OR w) = q" "EOE_HDR_LAST_FRAGMENT_GET (EOE_HDR_LAST_FRAGMENT_SET 1 OR w) = 1"
    "EOE_HDR_TIME_APPEND_GET (EOE_HDR_LAST_FRAGMENT_SET 1 OR w) = 0"
proof -
  have "\<forall>q \<in> {0, 1, 2, 3, 4, 5, 6, 7, 8, 9, 10, 11, 12, 13, 14, 15 :: u16}. let w = EOE_HDR_FRAME_PORT_SET q; l = EOE_HDR_LAST_FRAGMENT_SET 1 OR w in
    EOE_HDR_FRAME_PORT_GET w = q \<and> EOE_HDR_LAST_FRAGMENT_GET w = 0 \<and> EOE_HDR_TIME_APPEND_GET w = 0 \<and>
    EOE_HDR_FRAME_PORT_GET l = q \<and> EOE_HDR_LAST_FRAGMENT_GET l = 1 \<and> EOE_HDR_TIME_APPEND_GET l = 0" by code_simp
  then show "EOE_HDR_FRAME_PORT_GET w = q" "EOE_HDR_LAST_FRAGMENT_GET w = 0" "EOE_HDR_TIME_APPEND_GET w = 0"
    "EOE_HDR_FRAME_PORT_GET (EOE_HDR_LAST_FRAGMENT_SET 1 OR w) = q" "EOE_HDR_LAST_FRAGMENT_GET (EOE_HDR_LAST_FRAGMENT_SET 1 OR w) = 1"
    "EOE_HDR_TIME_APPEND_GET (EOE_HDR_LAST_FRAGMENT_SET 1 OR w) = 0"
    using bspec [OF _ u16_below_16 [OF assms(1)]] by (simp_all only: w_def Let_def; blast)+
qed

lemma bit_u8_high: "8 \<le> n \<Longrightarrow> bit (x :: u8) n = False"
  using bit_imp_le_length [of x n] by auto

lemma byte_of_bit:
  fixes n :: nat
  assumes "n < 32"
  obtains k where "k < 8" "n = k" | k where "k < 8" "n = 8 + k" | k where "k < 8" "n = 16 + k" | k where "k < 8" "n = 24 + k"
proof -
  consider "n < 8" | "8 \<le> n" "n < 16" | "16 \<le> n" "n < 24" | "24 \<le> n" using assms by linarith
  then show ?thesis
  proof cases
    case 1 then show ?thesis using that(1) [of n] by simp
  next
    case 2 then show ?thesis using that(2) [of "n - 8"] by simp
  next
    case 3 then show ?thesis using that(3) [of "n - 16"] by simp
  next
    case 4 then show ?thesis using that(4) [of "n - 24"] assms by simp
  qed
qed

lemma HTONL_MAKEU32: "EOE_HTONL (EOE_MAKEU32 a b c d) = EOE_MAKEU32 d c b a"
proof (rule bit_word_eqI)
  fix n assume "n < LENGTH(32)"
  have m: "(0xff :: u32) = mask 8" "(0xff00 :: u32) = push_bit 8 (mask 8)" "(0xff0000 :: u32) = push_bit 16 (mask 8)"
    "(0xff000000 :: u32) = push_bit 24 (mask 8)" by (simp_all add: mask_eq_exp_minus_1 push_bit_eq_mult)
  have "n < 32" using \<open>n < LENGTH(32)\<close> by simp
  then show "bit (EOE_HTONL (EOE_MAKEU32 a b c d)) n = bit (EOE_MAKEU32 d c b a) n"
    by (cases rule: byte_of_bit) (simp_all add: EOE_HTONL_def EOE_MAKEU32_def m bit_simps bit_u8_high)
qed

lemma MAKEU32_bytes: "EOE_MAKEU32 (ucast (drop_bit 24 ip)) (ucast (drop_bit 16 ip)) (ucast (drop_bit 8 ip)) (ucast ip) = ip"
proof (rule bit_word_eqI)
  fix n assume "n < LENGTH(32)"
  then have "n < 32" by simp
  then show "bit (EOE_MAKEU32 (ucast (drop_bit 24 ip)) (ucast (drop_bit 16 ip)) (ucast (drop_bit 8 ip)) (ucast ip)) n = bit ip n"
    by (cases rule: byte_of_bit) (simp_all add: EOE_MAKEU32_def bit_simps)
qed

lemma ip_roundtrip: "EOE_ip_byte_to_uint32 (EOE_ip_uint32_to_byte ip off m) off = ip"
  by (simp add: EOE_ip_byte_to_uint32_def EOE_ip_uint32_to_byte_def HTONL_MAKEU32 MAKEU32_bytes)

section \<open>The fragments of a frame\<close>

text \<open>
  \<open>m\<close> is fragment \<open>k\<close> of the \<open>n\<close> bytes of \<open>p\<close>: \<open>sz\<close> bytes at \<open>off\<close>; a list of mailboxes holds all
  fragments from the \<open>k\<close>-th on.
\<close>

definition fragment :: "u8 \<Rightarrow> u8 \<Rightarrow> nat \<Rightarrow> buf \<Rightarrow> nat \<Rightarrow> nat \<Rightarrow> nat \<Rightarrow> bool \<Rightarrow> buf \<Rightarrow> bool" where
  "fragment portno fno n p k off sz fin m \<longleftrightarrow> m 5 AND 0x0f = ECT_MBXT_EOE \<and> rd16 m 0 = of_nat (4 + sz) \<and>
     EOE_HDR_FRAME_PORT_GET (rd16 m 6) = ucast portno \<and> (EOE_HDR_LAST_FRAGMENT_GET (rd16 m 6) \<noteq> 0) = fin \<and>
     EOE_HDR_TIME_APPEND_GET (rd16 m 6) = 0 \<and>
     EOE_HDR_FRAG_NO_GET (rd16 m 8) = of_nat k \<and> EOE_HDR_FRAME_NO_GET (rd16 m 8) = ucast fno AND 0xf \<and>
     EOE_HDR_FRAME_OFFSET_GET (rd16 m 8) = of_nat (if k = 0 then (n + 31) div 32 else off div 32) \<and>
     bytes_of m EOE_DATA sz = bytes_of p off sz \<and> EOE_DATA + sz \<le> EC_MAXMBX + 1"

fun fragments :: "u8 \<Rightarrow> u8 \<Rightarrow> nat \<Rightarrow> buf \<Rightarrow> nat \<Rightarrow> nat \<Rightarrow> buf list \<Rightarrow> bool" where
  "fragments portno fno n p k off [] = False"
| "fragments portno fno n p k off (m # ms) = (\<exists>sz. fragment portno fno n p k off sz (ms = []) m \<and>
     (if ms = [] then off + sz = n else 32 dvd sz \<and> 0 < sz \<and> fragments portno fno n p (k + 1) (off + sz) ms))"

text \<open>The reference is a channel that keeps the mailboxes in order.\<close>

definition pipe :: "nat \<Rightarrow> buf list mbx_link" where
  "pipe M = \<lparr>lk_send = (\<lambda>m s. Some (1, s @ [m])),
     lk_receive = (\<lambda>m t s. Some (if s = [] then (0, m, []) else (1, hd s, tl s))),
     lk_cnt = (\<lambda>s. (1, s)), lk_mbx_l = (\<lambda>s. of_nat M), lk_sdoerror = (\<lambda>i j e s. Some s), lk_infoerror = (\<lambda>i j e s. Some s),
     lk_packeterror = (\<lambda>i j w s. Some s)\<rparr>"

lemma pipe_simps [simp]:
  "lk_send (pipe M) m s = Some (1, s @ [m])" "lk_receive (pipe M) m t (x # s) = Some (1, x, s)" "lk_mbx_l (pipe M) s = of_nat M"
  by (simp_all add: pipe_def)

lemma eoe_header_shape: "\<exists>m'. eoe_header (pipe M) m s = (m', s) \<and> m' 5 = 0x12"
  by (simp add: eoe_header_def pipe_def)

lemma below_64: "k < 64 \<Longrightarrow> (of_nat k :: u16) AND 0x3f = of_nat k"
  by (simp add: and_masks take_bit_of_nat take_bit_nat_eq_self)

text \<open>The second info word of a fragment.\<close>

definition info2 :: "nat \<Rightarrow> nat \<Rightarrow> nat \<Rightarrow> u8 \<Rightarrow> u16" where
  "info2 n k off fno = (EOE_HDR_FRAG_NO_SET (of_nat k) OR EOE_HDR_FRAME_OFFSET_SET (of_nat (if k = 0 then (n + 31) div 32 else off div 32)))
     OR EOE_HDR_FRAME_NO_SET (ucast fno)"

lemma info2_fields:
  assumes "n \<le> 2016" "off \<le> n" "k < 64"
  shows "EOE_HDR_FRAG_NO_GET (info2 n k off fno) = of_nat k"
    "EOE_HDR_FRAME_OFFSET_GET (info2 n k off fno) = of_nat (if k = 0 then (n + 31) div 32 else off div 32)"
    "EOE_HDR_FRAME_NO_GET (info2 n k off fno) = ucast fno AND 0xf"
proof -
  have "(if k = 0 then (n + 31) div 32 else off div 32) < 64" using assms(1,2) by auto
  then show "EOE_HDR_FRAG_NO_GET (info2 n k off fno) = of_nat k"
    "EOE_HDR_FRAME_OFFSET_GET (info2 n k off fno) = of_nat (if k = 0 then (n + 31) div 32 else off div 32)"
    "EOE_HDR_FRAME_NO_GET (info2 n k off fno) = ucast fno AND 0xf"
    unfolding info2_def frameinfo2_fields using below_64 assms(3) by (simp_all only:)
qed

lemma eoe_send_step:
  assumes M: "42 \<le> M" "M \<le> EC_MAXMBX" and n: "n \<le> 2016" "off \<le> n" "k < 64" "fno = (if k = 0 then fno0 + 1 else fno0)"
    and portno: "portno < 16"
  defines "sz \<equiv> (if n - off > M - 10 then 32 * ((M - 10) div 32) else n - off)"
  shows "\<exists>m. eoe_send_round (pipe M) portno (int n) p (int M - 10) (w, int off, of_nat k, fno0, mo, s) =
      Some (if sz = n - off then ((1, int off, of_nat k, fno, m, s @ [m]), False)
        else ((1, int (off + sz), of_nat (k + 1), fno, m, s @ [m]), True)) \<and>
    fragment portno fno n p k off sz (sz = n - off) m"
proof -
  have blk: "push_bit 5 (drop_bit 5 (int j)) = int (32 * (j div 32))" for j
    unfolding push_bit_eq_mult drop_bit_eq_div by (simp add: zdiv_int)
  have big: "(int n - int off > int M - 10) = (n - off > M - 10)" using n(2) M(1) by linarith
  have sz: "(if int n - int off > int M - 10 then push_bit 5 (drop_bit 5 (int M - 10)) else int n - int off) = int sz"
  proof -
    have "int M - 10 = int (M - 10)" "int n - int off = int (n - off)" using M n(2) by simp_all
    then show ?thesis unfolding big sz_def using blk by presburger
  qed
  have le: "sz \<le> n - off" "EOE_DATA + sz \<le> EC_MAXMBX + 1" using M by (auto simp: sz_def)
  have fin: "(int sz \<noteq> int n - int off) = (sz \<noteq> n - off)" using n(2) by auto
  have k: "(of_nat k > (0 :: u8)) = (k \<noteq> 0)" "ucast (of_nat k :: u8) = (of_nat k :: u16)"
  proof -
    have "unat (of_nat k :: u8) = k" using n(3) by (simp add: unat_of_nat take_bit_nat_eq_self)
    then show "(of_nat k > (0 :: u8)) = (k \<noteq> 0)" "ucast (of_nat k :: u8) = (of_nat k :: u16)"
      by (simp add: word_less_nat_alt) (metis of_nat_unat \<open>unat (of_nat k :: u8) = k\<close>)
  qed
  have blocks: "drop_bit 5 (int off) = int (off div 32)" "drop_bit 5 (int n + 31) = int ((n + 31) div 32)"
    unfolding drop_bit_eq_div by (simp_all add: zdiv_int)
  define f1 where "f1 = (if sz \<noteq> n - off then EOE_HDR_FRAME_PORT_SET (ucast portno) else EOE_HDR_LAST_FRAGMENT_SET 1 OR EOE_HDR_FRAME_PORT_SET (ucast portno))"
  have i2: "(if of_nat k > (0 :: u8)
       then (EOE_HDR_FRAG_NO_SET (ucast (of_nat k :: u8)) OR EOE_HDR_FRAME_OFFSET_SET (word_of_int (drop_bit 5 (int off))), fno0)
       else (EOE_HDR_FRAG_NO_SET (ucast (of_nat k :: u8)) OR EOE_HDR_FRAME_OFFSET_SET (word_of_int (drop_bit 5 (int n + 31))), fno0 + 1)) =
     (EOE_HDR_FRAG_NO_SET (of_nat k) OR EOE_HDR_FRAME_OFFSET_SET (of_nat (if k = 0 then (n + 31) div 32 else off div 32)), fno)"
    using n(4) unfolding k blocks by auto
  obtain h where h: "eoe_header (pipe M) mo s = (h, s)" "h 5 = 0x12" using eoe_header_shape by blast
  define m where "m = memcpy (wr16 (wr16 (wr16 h 0 (word_of_int (4 + int sz))) 6 f1) 8 (info2 n k off fno)) EOE_DATA p off sz"
  have "eoe_send_round (pipe M) portno (int n) p (int M - 10) (w, int off, of_nat k, fno0, mo, s) =
      Some (if sz = n - off then ((1, int off, of_nat k, fno, m, s @ [m]), False)
        else ((1, int (off + sz), of_nat (k + 1), fno, m, s @ [m]), True))"
    unfolding eoe_send_round_def prod.case Let_def sz fin f1_def [symmetric] i2 h(1) info2_def [symmetric] prod.case nat_int m_def [symmetric] pipe_simps
    using le(2) by simp
  moreover have "fragment portno fno n p k off sz (sz = n - off) m"
  proof -
    have "unat portno < 16" using portno by (simp add: word_less_nat_alt)
    moreover from this have "unat (of_nat (unat portno) :: u16) = unat portno" by (simp add: unat_of_nat_u16 del: of_nat_unat)
    ultimately have q: "(ucast portno :: u16) < 16" by (simp add: word_less_nat_alt)
    have m5: "m 5 AND 0x0f = ECT_MBXT_EOE" by (simp add: m_def memcpy_apply put_le_apply h(2))
    have w: "rd16 m 0 = of_nat (4 + sz)" "rd16 m 6 = f1" "rd16 m 8 = info2 n k off fno" by (simp_all add: m_def)
    have "bytes_of m EOE_DATA sz = bytes_of p off sz" by (simp add: m_def)
    then show ?thesis
      unfolding fragment_def w using m5 le(2) frameinfo1_fields [OF q] info2_fields [OF n(1-3), of fno] by (auto simp: f1_def)
  qed
  ultimately show ?thesis by blast
qed

lemma eoe_send_loop:
  assumes M: "42 \<le> M" "M \<le> EC_MAXMBX" and portno: "portno < 16" and n: "n \<le> 2016"
    and "off \<le> n" "32 * k \<le> off" "k = 0 \<or> off < n" "k = 0 \<longrightarrow> off = 0" "32 dvd off" "fno = (if k = 0 then fno0 + 1 else fno0)"
  shows "\<exists>off' k' m ms. do_while (eoe_send_round (pipe M) portno (int n) p (int M - 10)) (w, int off, of_nat k, fno0, mo, s) =
      Some (1, off', k', fno, m, s @ ms) \<and> fragments portno fno n p k off ms"
  using assms(5-)
proof (induction "n - off" arbitrary: off k fno0 w mo s rule: less_induct)
  case less
  define sz where "sz = (if n - off > M - 10 then 32 * ((M - 10) div 32) else n - off)"
  have k: "k < 64" using less.prems(1-3) n by auto
  from eoe_send_step [OF M n less.prems(1) k less.prems(6) portno, of p w mo s, folded sz_def] obtain m where
    m: "eoe_send_round (pipe M) portno (int n) p (int M - 10) (w, int off, of_nat k, fno0, mo, s) =
      Some (if sz = n - off then ((1, int off, of_nat k, fno, m, s @ [m]), False)
        else ((1, int (off + sz), of_nat (k + 1), fno, m, s @ [m]), True))"
    "fragment portno fno n p k off sz (sz = n - off) m" by blast
  show ?case
  proof (cases "sz = n - off")
    case True
    then have "fragments portno fno n p k off [m]" using m(2) less.prems(1) by auto
    then show ?thesis using True m(1) by (subst do_while.simps) auto
  next
    case False
    then have sz: "sz = 32 * ((M - 10) div 32)" "n - off > M - 10" by (auto simp: sz_def split: if_splits)
    have "32 \<le> sz" "sz \<le> M - 10" using sz M by auto
    moreover from this have "n - (off + sz) < n - off" "off + sz < n" using sz(2) by linarith+
    ultimately have "n - (off + sz) < n - off" "off + sz \<le> n" "32 * (k + 1) \<le> off + sz" "k + 1 = 0 \<or> off + sz < n" "k + 1 = 0 \<longrightarrow> off + sz = 0"
      "32 dvd off + sz" "fno = (if k + 1 = 0 then fno + 1 else fno)"
      using sz less.prems(2,5) by (auto simp: dvd_add)
    from less.hyps [OF this, of 1 m "s @ [m]"] obtain off' k' m' ms where
      ih: "do_while (eoe_send_round (pipe M) portno (int n) p (int M - 10)) (1, int (off + sz), of_nat (k + 1), fno, m, s @ [m]) =
        Some (1, off', k', fno, m', (s @ [m]) @ ms)" "fragments portno fno n p (k + 1) (off + sz) ms" by blast
    have "ms \<noteq> []" using ih(2) by auto
    then have "fragments portno fno n p k off (m # ms)" using m(2) ih(2) False sz(1) \<open>32 \<le> sz\<close> by (auto intro!: exI [of _ sz])
    moreover have "do_while (eoe_send_round (pipe M) portno (int n) p (int M - 10)) (w, int off, of_nat k, fno0, mo, s) =
        Some (1, off', k', fno, m', s @ (m # ms))"
      by (subst do_while.simps) (use False ih(1) in \<open>simp add: m(1)\<close>)
    ultimately show ?thesis by blast
  qed
qed

lemma eoe_send_fragments:
  assumes "42 \<le> M" "M \<le> EC_MAXMBX" "portno < 16" "n \<le> 2016"
  shows "\<exists>ms. eoe_send (pipe M) portno (int n) p fno0 [] = Some (1, fno0 + 1, ms) \<and> fragments portno (fno0 + 1) n p 0 0 ms"
proof -
  have "uint (lk_mbx_l (pipe M) []) - 0x0a = int M - 10" using assms(1,2) by (simp add: uint_nat unat_of_nat_u16 del: of_nat_unat)
  moreover obtain off' k' m ms where
    "do_while (eoe_send_round (pipe M) portno (int n) p (int M - 10)) (0, int 0, of_nat 0, fno0, ec_clearmbx zero_buf, []) =
      Some (1, off', k', fno0 + 1, m, [] @ ms)" "fragments portno (fno0 + 1) n p 0 0 ms"
    using eoe_send_loop [OF assms, of 0 0 "fno0 + 1" fno0 p 0 "ec_clearmbx zero_buf" "[]"] by auto
  ultimately show ?thesis by (simp add: eoe_send_def del: pipe_simps(3))
qed

section \<open>Reassembly\<close>

lemma fragments_bound: "fragments portno fno n p k off ms \<Longrightarrow> off \<le> n"
  by (induction ms arbitrary: k off) (fastforce split: if_splits)+

lemma memcpy_extend:
  assumes "bytes_of m j sz = bytes_of p off sz"
  shows "memcpy (memcpy q 0 p 0 off) off m j sz = memcpy q 0 p 0 (off + sz)"
proof -
  have "m (j + i) = p (off + i)" if "i < sz" for i
    using arg_cong [OF assms, of "\<lambda>l. l ! i"] that by (simp add: bytes_of_def)
  then have "m (j + (x - off)) = p x" if "off \<le> x" "x < off + sz" for x using that by (metis add_diff_inverse_nat less_diff_conv2 not_less add.commute)
  then show ?thesis by (intro ext) (auto simp: memcpy_apply)
qed

text \<open>What a fragment says to a reader that expects it.\<close>

lemma fragment_recv:
  assumes f: "fragment portno fno n p k off sz fin m" and n: "n \<le> 2016" "off + sz \<le> n" "k < 64" "k = 0 \<longrightarrow> off = 0" "32 dvd off"
    and cap: "32 * ((n + 31) div 32) \<le> cap" and q: "0 < k \<longrightarrow> rno = fno AND 0xf"
  shows "uint (rd16 m 0) - 4 = int sz" "eoe_recv_valid portno (int cap) (of_nat k) rno (int off) (rd16 m 6) (rd16 m 8)"
proof -
  have "unat (of_nat (4 + sz) :: u16) = 4 + sz" using n(1,2) by (simp add: unat_of_nat_u16 del: of_nat_add)
  then show "uint (rd16 m 0) - 4 = int sz" using f by (simp add: fragment_def uint_nat del: of_nat_unat of_nat_add)
  have k: "unat (of_nat k :: u8) = k" using n(3) by (simp add: unat_of_nat take_bit_nat_eq_self)
  have uk: "ucast (of_nat k :: u8) = (of_nat k :: u16)" by (metis k of_nat_unat)
  have blocks: "uint (of_nat j :: u16) = int j" if "j < 64" for j
    using that unat_of_nat_u16 [of j] by (simp add: uint_nat del: of_nat_unat)
  have b: "(n + 31) div 32 < 64" "off div 32 < 64" "32 * (off div 32) = off" using n by auto
  have ucast_and: "ucast (fno AND 0xf) = (ucast fno AND 0xf :: u16)"
    by (rule bit_word_eqI) (auto simp: bit_simps dest: bit_imp_le_length)
  show "eoe_recv_valid portno (int cap) (of_nat k) rno (int off) (rd16 m 6) (rd16 m 8)"
  proof (cases "k = 0")
    case True
    then show ?thesis using f cap blocks [OF b(1)] by (simp add: eoe_recv_valid_def fragment_def)
  next
    case False
    then have "(of_nat k :: u8) \<noteq> 0" using k by (metis unat_0)
    then show ?thesis using f q uk blocks [OF b(2)] b(3) False ucast_and by (simp add: eoe_recv_valid_def fragment_def)
  qed
qed

lemma eoe_recv_step:
  assumes f: "fragment portno fno n p k off sz (ms = []) m" and n: "n \<le> 2016" "off + sz \<le> n" "k < 64" "k = 0 \<longrightarrow> off = 0" "32 dvd off"
    and cap: "32 * ((n + 31) div 32) \<le> cap" and q: "0 < k \<longrightarrow> rno = fno AND 0xf"
  shows "eoe_recv_round (pipe M) portno (int cap) t (w, True, ps, of_nat k, rno, int off, memcpy q 0 p 0 off, m, ms) =
    Some (if ms = [] then (w, False, int (off + sz), of_nat (k + 1), fno AND 0xf, int (off + sz), memcpy q 0 p 0 (off + sz), m, [])
      else (1, True, ps, of_nat (k + 1), fno AND 0xf, int (off + sz), memcpy q 0 p 0 (off + sz), hd ms, tl ms))"
proof -
  have k: "unat (of_nat k :: u8) = k" using n(3) by (simp add: unat_of_nat take_bit_nat_eq_self)
  have kz: "(of_nat k = (0 :: u8)) = (k = 0)" unfolding word_unat_eq_iff k by simp
  have u: "ucast (ucast fno AND 0xf :: u16) = fno AND 0xf" by (rule bit_word_eqI) (auto simp: bit_simps)
  have no: "EOE_HDR_FRAME_NO_GET (rd16 m 8) = ucast fno AND 0xf" using f by (simp add: fragment_def)
  then have rno: "(if of_nat k = (0 :: u8) then ucast (EOE_HDR_FRAME_NO_GET (rd16 m 8)) else rno) = fno AND 0xf"
    unfolding kz no u using q by auto
  note v = fragment_recv [OF f n cap q]
  have mem: "memcpy (memcpy q 0 p 0 off) off m EOE_DATA sz = memcpy q 0 p 0 (off + sz)"
    using f by (intro memcpy_extend) (simp add: fragment_def)
  have sz: "EOE_DATA + sz \<le> EC_MAXMBX + 1" "int off + int sz \<le> int cap" using f n(2) cap by (auto simp: fragment_def)
  have m5: "m 5 AND 0x0f = ECT_MBXT_EOE" "(EOE_HDR_LAST_FRAGMENT_GET (rd16 m 6) \<noteq> 0) = (ms = [])" "EOE_HDR_TIME_APPEND_GET (rd16 m 6) = 0"
    using f by (simp_all add: fragment_def)
  show ?thesis
    unfolding eoe_recv_round_def prod.case if_P [OF m5(1)] Let_def v(1) if_P [OF v(2)] rno m5(2) if_P [OF sz(2)] nat_int mem
    using sz(1) m5(3) by (cases ms) (simp_all add: mem)
qed

lemma eoe_recv_loop:
  assumes n: "n \<le> 2016" and cap: "32 * ((n + 31) div 32) \<le> cap"
    and "fragments portno fno n p k off (m # ms)" "32 * k \<le> off" "k = 0 \<longrightarrow> off = 0" "32 dvd off" "0 < k \<longrightarrow> rno = fno AND 0xf" "0 < w"
  shows "\<exists>w' k' rno' m'. while_do (\<lambda>(wkc, NotLast, _). wkc > 0 \<and> NotLast) (eoe_recv_round (pipe M) portno (int cap) t)
      (w, True, ps, of_nat k, rno, int off, memcpy q 0 p 0 off, m, ms) =
    Some (w', False, int n, k', rno', int n, memcpy q 0 p 0 n, m', []) \<and> 0 < w'"
  using assms(3-)
proof (induction ms arbitrary: k off m rno w ps)
  case Nil
  then have f: "fragment portno fno n p k off (n - off) ([] = []) m" and o: "off \<le> n" by auto
  have "off + (n - off) \<le> n" "k < 64" using Nil.prems(2) n o by auto
  from eoe_recv_step [OF f n this Nil.prems(3,4) cap Nil.prems(5), of M t w ps q] show ?case
    using Nil.prems(6) o by (subst while_do.simps, simp, subst while_do.simps) simp
next
  case (Cons m' ms)
  then obtain sz where f: "fragment portno fno n p k off sz (m' # ms = []) m" and sz: "32 dvd sz" "0 < sz"
    and fs: "fragments portno fno n p (k + 1) (off + sz) (m' # ms)" by auto
  have le: "off + sz \<le> n" using fragments_bound [OF fs] .
  have "k < 64" using Cons.prems(2) n fragments_bound [OF Cons.prems(1)] by auto
  note step = eoe_recv_step [OF f n le this Cons.prems(3,4) cap Cons.prems(5), of M t w ps q]
  have "32 \<le> sz" using sz by (auto elim!: dvdE)
  then have "32 * (k + 1) \<le> off + sz" "k + 1 = 0 \<longrightarrow> off + sz = 0" "32 dvd off + sz" "0 < k + 1 \<longrightarrow> fno AND 0xf = fno AND 0xf"
    using Cons.prems(2,4) sz by auto
  from Cons.IH [OF fs this, of 1 ps] show ?case
    using step Cons.prems(6) by (subst while_do.simps) simp
qed

text \<open>The same for the reader that is given fragment after fragment: \<open>feed\<close> does so until a frame is complete or an error occurs.\<close>

fun feed :: "buf list \<Rightarrow> eoe_rx \<Rightarrow> (int \<times> eoe_rx) option" where
  "feed [] r = Some (0, r)"
| "feed (m # ms) r = do { (w, r) \<leftarrow> ecx_EOEreadfragment m r; if w = 0 then feed ms r else Some (w, r) }"

definition rx_ok :: "u8 \<Rightarrow> nat \<Rightarrow> nat \<Rightarrow> buf \<Rightarrow> buf \<Rightarrow> nat \<Rightarrow> nat \<Rightarrow> eoe_rx \<Rightarrow> bool" where
  "rx_ok fno n cap q p k off r \<longleftrightarrow> rx_fragmentno r = of_nat k \<and> rx_psize r = int cap \<and> rx_buf r = memcpy q 0 p 0 off \<and>
     (0 < k \<longrightarrow> unat (rx_framesize r) = 32 * ((n + 31) div 32) \<and> unat (rx_frameoffset r) = off \<and> rx_frameno r = ucast fno AND 0xf)"

lemma store_fragment_ok:
  assumes f: "fragment portno fno n p k off sz fin m" and n: "n \<le> 2016" "off + sz \<le> n" "n \<le> cap" "off \<le> 2016"
    and r: "rx_fragmentno r = of_nat k" "rx_psize r = int cap" "rx_buf r = memcpy q 0 p 0 off" "unat (rx_framesize r) = 32 * ((n + 31) div 32)"
      "unat (rx_frameoffset r) = off" "rx_frameno r = ucast fno AND 0xf"
  shows "\<exists>r'. store_fragment m (rd16 m 0 - 4) (rd16 m 6) r = Some (if fin then 1 else 0, r') \<and>
    (if fin then rx_psize r' = int (off + sz) \<and> rx_buf r' = memcpy q 0 p 0 (off + sz) \<and> rx_fragmentno r' = 0
     else rx_ok fno n cap q p (k + 1) (off + sz) r')"
proof -
  have "rd16 m 0 - 4 = of_nat sz" using f by (simp add: fragment_def)
  moreover have sz: "unat (of_nat sz :: u16) = sz" using n(1,2) by (simp add: unat_of_nat_u16)
  ultimately have d: "uint (rd16 m 0 - 4) = int sz" "unat (rd16 m 0 - 4) = sz" by (simp_all add: uint_nat del: of_nat_unat)
  have o: "uint (rx_frameoffset r) = int off" "uint (rx_framesize r) = int (32 * ((n + 31) div 32))"
    using r(4,5) by (simp_all add: uint_nat del: of_nat_unat)
  have fits: "int off + int sz \<le> int (32 * ((n + 31) div 32)) \<and> int off + int sz \<le> int cap" using n by simp
  have sum: "unat (rx_frameoffset r + (rd16 m 0 - 4)) = off + sz" using n(1,2) r(5) d(2) by (simp add: unat_plus_if')
  then have usum: "uint (rx_frameoffset r + (rd16 m 0 - 4)) = int (off + sz)" by (simp add: uint_nat del: of_nat_unat of_nat_add)
  have mem: "memcpy (memcpy q 0 p 0 off) off m EOE_DATA sz = memcpy q 0 p 0 (off + sz)" "EOE_DATA + sz \<le> EC_MAXMBX + 1"
    using f by (auto intro!: memcpy_extend simp: fragment_def)
  have l: "(EOE_HDR_LAST_FRAGMENT_GET (rd16 m 6) \<noteq> 0) = fin" "EOE_HDR_TIME_APPEND_GET (rd16 m 6) = 0" using f by (simp_all add: fragment_def)
  define r1 where "r1 = r\<lparr>rx_buf := memcpy q 0 p 0 (off + sz), rx_frameoffset := rx_frameoffset r + (rd16 m 0 - 4),
    rx_fragmentno := rx_fragmentno r + 1\<rparr>"
  have "store_fragment m (rd16 m 0 - 4) (rd16 m 6) r = Some (if fin then (1, reset_rx (r1\<lparr>rx_psize := uint (rx_frameoffset r1)\<rparr>)) else (0, r1))"
    unfolding store_fragment_def Let_def o d r(2,3,5) if_P [OF fits] l mem(1) r1_def [symmetric] using mem(2) l(2) by simp
  moreover have "rx_psize (reset_rx (r1\<lparr>rx_psize := uint (rx_frameoffset r1)\<rparr>)) = int (off + sz)"
    "rx_buf (reset_rx (r1\<lparr>rx_psize := uint (rx_frameoffset r1)\<rparr>)) = memcpy q 0 p 0 (off + sz)"
    "rx_fragmentno (reset_rx (r1\<lparr>rx_psize := uint (rx_frameoffset r1)\<rparr>)) = 0"
    using usum by (simp_all add: reset_rx_def r1_def)
  moreover have "rx_ok fno n cap q p (k + 1) (off + sz) r1" using r sum by (simp add: rx_ok_def r1_def)
  ultimately show ?thesis by (cases fin) auto
qed

lemma readfragment_ok:
  assumes f: "fragment portno fno n p k off sz fin m" and n: "n \<le> 2016" "off + sz \<le> n" "n \<le> cap" "k < 64" "k = 0 \<longrightarrow> off = 0" "32 dvd off"
    and r: "rx_ok fno n cap q p k off r"
  shows "\<exists>r'. ecx_EOEreadfragment m r = Some (if fin then 1 else 0, r') \<and>
    (if fin then rx_psize r' = int (off + sz) \<and> rx_buf r' = memcpy q 0 p 0 (off + sz) \<and> rx_fragmentno r' = 0
     else rx_ok fno n cap q p (k + 1) (off + sz) r')"
proof -
  have k: "unat (of_nat k :: u8) = k" using n(4) by (simp add: unat_of_nat take_bit_nat_eq_self)
  have kz: "(of_nat k = (0 :: u8)) = (k = 0)" unfolding word_unat_eq_iff k by simp
  have uk: "ucast (of_nat k :: u8) = (of_nat k :: u16)" by (metis k of_nat_unat)
  have m: "m 5 AND 0x0f = ECT_MBXT_EOE" "EOE_HDR_FRAG_NO_GET (rd16 m 8) = of_nat k" "EOE_HDR_FRAME_NO_GET (rd16 m 8) = ucast fno AND 0xf"
    "EOE_HDR_FRAME_OFFSET_GET (rd16 m 8) = of_nat (if k = 0 then (n + 31) div 32 else off div 32)"
    using f by (simp_all add: fragment_def)
  have r0: "rx_fragmentno r = of_nat k" "rx_psize r = int cap" "rx_buf r = memcpy q 0 p 0 off" using r by (simp_all add: rx_ok_def)
  have b: "(n + 31) div 32 < 64" "off div 32 < 64" "32 * (off div 32) = off" using n by auto
  have same: "(ucast (rx_fragmentno r) \<noteq> EOE_HDR_FRAG_NO_GET (rd16 m 8)) = False" using m(2) r0(1) uk by simp
  show ?thesis
  proof (cases "k = 0")
    case True
    define r1 where "r1 = r\<lparr>rx_framesize := push_bit 5 (EOE_HDR_FRAME_OFFSET_GET (rd16 m 8)), rx_frameoffset := 0,
      rx_frameno := EOE_HDR_FRAME_NO_GET (rd16 m 8)\<rparr>"
    have "unat (push_bit 5 (of_nat ((n + 31) div 32) :: u16)) = 32 * ((n + 31) div 32)"
    proof -
      have "push_bit 5 (of_nat ((n + 31) div 32) :: u16) = of_nat (32 * ((n + 31) div 32))" unfolding push_bit_eq_mult by simp
      then show ?thesis using b(1) by (simp add: unat_of_nat_u16 del: of_nat_mult)
    qed
    then have "unat (rx_framesize r1) = 32 * ((n + 31) div 32)" using m(4) True by (simp add: r1_def)
    moreover have "ecx_EOEreadfragment m r = store_fragment m (rd16 m 0 - 4) (rd16 m 6) r1"
      using m(1,2) r0(1) True by (simp add: ecx_EOEreadfragment_def Let_def r1_def)
    ultimately show ?thesis
      using store_fragment_ok [OF f n(1,2,3), of r1 q] r0 n(5) m(3) True by (simp add: r1_def)
  next
    case False
    then have r: "unat (rx_framesize r) = 32 * ((n + 31) div 32)" "unat (rx_frameoffset r) = off" "rx_frameno r = ucast fno AND 0xf"
      using r by (simp_all add: rx_ok_def)
    have "uint (of_nat (off div 32) :: u16) = int (off div 32)" using b(2) unat_of_nat_u16 [of "off div 32"] by (simp add: uint_nat del: of_nat_unat)
    then have "uint (rx_frameoffset r) = 32 * uint (EOE_HDR_FRAME_OFFSET_GET (rd16 m 8))"
      using m(4) False r(2) b(3) by (simp add: uint_nat del: of_nat_unat) 
    then have "ecx_EOEreadfragment m r = store_fragment m (rd16 m 0 - 4) (rd16 m 6) r"
      unfolding ecx_EOEreadfragment_def Let_def same if_P [OF m(1)] using m(3) r0(1) r(3) kz False by simp
    moreover have "off \<le> 2016" using n(1,2) by simp
    ultimately show ?thesis using store_fragment_ok [OF f n(1,2,3) _ r0 r] by simp
  qed
qed

lemma feed_fragments:
  assumes "n \<le> 2016" "n \<le> cap" "fragments portno fno n p k off ms" "32 * k \<le> off" "k = 0 \<longrightarrow> off = 0" "32 dvd off" "rx_ok fno n cap q p k off r"
  shows "\<exists>r'. feed ms r = Some (1, r') \<and> rx_psize r' = int n \<and> rx_buf r' = memcpy q 0 p 0 n \<and> rx_fragmentno r' = 0"
  using assms(3-)
proof (induction ms arbitrary: k off r)
  case (Cons m ms)
  have k: "k < 64" using Cons.prems(2) assms(1) fragments_bound [OF Cons.prems(1)] by auto
  from Cons.prems(1) obtain sz where f: "fragment portno fno n p k off sz (ms = []) m"
    and rest: "if ms = [] then off + sz = n else 32 dvd sz \<and> 0 < sz \<and> fragments portno fno n p (k + 1) (off + sz) ms" by auto
  have le: "off + sz \<le> n" using rest fragments_bound by (auto split: if_splits)
  from readfragment_ok [OF f assms(1) le assms(2) k Cons.prems(3-5)] obtain r' where
    1: "ecx_EOEreadfragment m r = Some (if ms = [] then 1 else 0, r')"
      "if ms = [] then rx_psize r' = int (off + sz) \<and> rx_buf r' = memcpy q 0 p 0 (off + sz) \<and> rx_fragmentno r' = 0
       else rx_ok fno n cap q p (k + 1) (off + sz) r'" by blast
  show ?case
  proof (cases "ms = []")
    case True
    then show ?thesis using 1 rest by simp
  next
    case False
    then have "32 \<le> sz" using rest by (auto elim!: dvdE)
    with Cons.IH [of "k + 1" "off + sz" r'] show ?thesis using 1 rest False Cons.prems(2,4) by simp
  qed
qed simp

section \<open>The parameters of a slave\<close>

text \<open>What \<open>q0\<close> becomes when the parameters that are set in \<open>q\<close> are stored in it.\<close>

definition merged :: "eoe_param_t \<Rightarrow> eoe_param_t \<Rightarrow> eoe_param_t" where
  "merged q q0 = \<lparr>ep_mac_set = ep_mac_set q \<or> ep_mac_set q0, ep_ip_set = ep_ip_set q \<or> ep_ip_set q0,
     ep_subnet_set = ep_subnet_set q \<or> ep_subnet_set q0, ep_default_gateway_set = ep_default_gateway_set q \<or> ep_default_gateway_set q0,
     ep_dns_ip_set = ep_dns_ip_set q \<or> ep_dns_ip_set q0, ep_dns_name_set = ep_dns_name_set q \<or> ep_dns_name_set q0,
     ep_mac = (if ep_mac_set q then memcpy (ep_mac q0) 0 (ep_mac q) 0 EOE_ETHADDR_LENGTH else ep_mac q0),
     ep_ip = (if ep_ip_set q then ep_ip q else ep_ip q0), ep_subnet = (if ep_subnet_set q then ep_subnet q else ep_subnet q0),
     ep_default_gateway = (if ep_default_gateway_set q then ep_default_gateway q else ep_default_gateway q0),
     ep_dns_ip = (if ep_dns_ip_set q then ep_dns_ip q else ep_dns_ip q0),
     ep_dns_name = (if ep_dns_name_set q then memcpy (ep_dns_name q0) 0 (ep_dns_name q) 0 EOE_DNS_NAME_LENGTH else ep_dns_name q0)\<rparr>"

text \<open>\<open>r\<close> has the parameter bytes of \<open>m\<close> up to \<open>off\<close>.\<close>

definition agree :: "buf \<Rightarrow> buf \<Rightarrow> nat \<Rightarrow> bool" where
  "agree r m off \<longleftrightarrow> (\<forall>i. 14 \<le> i \<and> i < EOE_DATA + off \<longrightarrow> r i = m i)"

lemma put_param_agree:
  assumes "put_param s f l wr (fl, o1, m) = (fl', o2, m')" "agree r m' o2" "\<forall>j x i. i < j \<longrightarrow> wr j x i = x i"
  shows "agree r m o1" "o2 = o1 + (if s then l else 0)" "fl' = (if s then fl OR f else fl)"
  using assms by (auto simp: put_param_def agree_def split: if_splits)

lemma put_param_ip:
  assumes s and "put_param s f EOE_IP4_LENGTH (EOE_ip_uint32_to_byte ip) (fl, o1, m) = (fl', o2, m')" "agree r m' o2" "4 \<le> o1"
  shows "EOE_ip_byte_to_uint32 r (EOE_DATA + o1) = ip"
proof -
  have o: "o2 = o1 + 4" "m' = EOE_ip_uint32_to_byte ip (EOE_DATA + o1) m" using assms(1,2) by (auto simp: put_param_def)
  have "r (EOE_DATA + o1 + k) = m' (EOE_DATA + o1 + k)" if "k < 4" for k using assms(3,4) that by (auto simp: agree_def o(1))
  from this [of 0] this [of 1] this [of 2] this [of 3]
  have "EOE_ip_byte_to_uint32 r (EOE_DATA + o1) = EOE_ip_byte_to_uint32 m' (EOE_DATA + o1)"
    by (simp add: EOE_ip_byte_to_uint32_def)
  then show ?thesis by (simp add: o(2) ip_roundtrip)
qed

lemma put_param_bytes:
  assumes s and "put_param s f l (\<lambda>off m. memcpy m off src 0 l) (fl, o1, m) = (fl', o2, m')" "agree r m' o2" "4 \<le> o1"
  shows "memcpy d 0 r (EOE_DATA + o1) l = memcpy d 0 src 0 l"
proof -
  have o: "o2 = o1 + l" "m' = memcpy m (EOE_DATA + o1) src 0 l" using assms(1,2) by (auto simp: put_param_def)
  show ?thesis
  proof (rule memcpy_shift)
    fix i assume "i < l"
    then have "r (EOE_DATA + o1 + i) = m' (EOE_DATA + o1 + i)" using assms(3,4) by (auto simp: agree_def o(1))
    then show "r (EOE_DATA + o1 + i) = src (0 + i)" using \<open>i < l\<close> by (simp add: o(2) memcpy_apply)
  qed
qed

lemma flag_bits:
  fixes fl1 :: u8
  assumes "fl1 = (if s1 then 0 OR 0x01 else 0)" "fl2 = (if s2 then fl1 OR 0x02 else fl1)" "fl3 = (if s3 then fl2 OR 0x04 else fl2)"
    "fl4 = (if s4 then fl3 OR 0x08 else fl3)" "fl5 = (if s5 then fl4 OR 0x10 else fl4)" "fl6 = (if s6 then fl5 OR 0x20 else fl5)"
  shows "(fl6 AND 0x01 \<noteq> 0) = s1" "(fl6 AND 0x02 \<noteq> 0) = s2" "(fl6 AND 0x04 \<noteq> 0) = s3" "(fl6 AND 0x08 \<noteq> 0) = s4"
    "(fl6 AND 0x10 \<noteq> 0) = s5" "(fl6 AND 0x20 \<noteq> 0) = s6"
  unfolding assms by (cases s1; cases s2; cases s3; cases s4; cases s5; cases s6; simp)+

lemma get_put_params:
  assumes put: "put_params q (0, EOE_PARAM_OFFSET, m) = (flags, off, m')" and r: "r EOE_DATA = flags" "agree r m' off"
  shows "get_dns_name r (of_nat off) (get_params r (EOE_PARAM_OFFSET, q0)) = Some (off, merged q q0) \<and> off < 64"
proof -
  have bytes: "\<forall>j x i. i < j \<longrightarrow> memcpy x j src 0 l i = x i" "\<forall>j x i. i < j \<longrightarrow> EOE_ip_uint32_to_byte ip j x i = x i" for src l ip
    by (auto simp: memcpy_apply EOE_ip_uint32_to_byte_def)
  obtain fl1 o1 m1 where 1: "put_param (ep_mac_set q) EOE_PARAM_MAC_INCLUDE EOE_ETHADDR_LENGTH (\<lambda>off m. memcpy m off (ep_mac q) 0 EOE_ETHADDR_LENGTH) (0, 4, m) = (fl1, o1, m1)" by (metis surj_pair)
  obtain fl2 o2 m2 where 2: "put_param (ep_ip_set q) EOE_PARAM_IP_INCLUDE EOE_IP4_LENGTH (EOE_ip_uint32_to_byte (ep_ip q)) (fl1, o1, m1) = (fl2, o2, m2)" by (metis surj_pair)
  obtain fl3 o3 m3 where 3: "put_param (ep_subnet_set q) EOE_PARAM_SUBNET_IP_INCLUDE EOE_IP4_LENGTH (EOE_ip_uint32_to_byte (ep_subnet q)) (fl2, o2, m2) = (fl3, o3, m3)" by (metis surj_pair)
  obtain fl4 o4 m4 where 4: "put_param (ep_default_gateway_set q) EOE_PARAM_DEFAULT_GATEWAY_INCLUDE EOE_IP4_LENGTH (EOE_ip_uint32_to_byte (ep_default_gateway q)) (fl3, o3, m3) = (fl4, o4, m4)" by (metis surj_pair)
  obtain fl5 o5 m5 where 5: "put_param (ep_dns_ip_set q) EOE_PARAM_DNS_IP_INCLUDE EOE_IP4_LENGTH (EOE_ip_uint32_to_byte (ep_dns_ip q)) (fl4, o4, m4) = (fl5, o5, m5)" by (metis surj_pair)
  have 6: "put_param (ep_dns_name_set q) EOE_PARAM_DNS_NAME_INCLUDE EOE_DNS_NAME_LENGTH (\<lambda>off m. memcpy m off (ep_dns_name q) 0 EOE_DNS_NAME_LENGTH) (fl5, o5, m5) = (flags, off, m')"
    using put unfolding put_params_def 1 2 3 4 5 .
  note p6 = put_param_agree [OF 6 r(2) bytes(1)]
  note p5 = put_param_agree [OF 5 p6(1) bytes(2)]
  note p4 = put_param_agree [OF 4 p5(1) bytes(2)]
  note p3 = put_param_agree [OF 3 p4(1) bytes(2)]
  note p2 = put_param_agree [OF 2 p3(1) bytes(2)]
  note p1 = put_param_agree [OF 1 p2(1) bytes(1)]
  have ge: "4 \<le> o1" "4 \<le> o2" "4 \<le> o3" "4 \<le> o4" "4 \<le> o5" using p1(2) p2(2) p3(2) p4(2) p5(2) by simp_all
  have fl: "(r EOE_DATA AND 0x01 \<noteq> 0) = ep_mac_set q" "(r EOE_DATA AND 0x02 \<noteq> 0) = ep_ip_set q" "(r EOE_DATA AND 0x04 \<noteq> 0) = ep_subnet_set q"
    "(r EOE_DATA AND 0x08 \<noteq> 0) = ep_default_gateway_set q" "(r EOE_DATA AND 0x10 \<noteq> 0) = ep_dns_ip_set q" "(r EOE_DATA AND 0x20 \<noteq> 0) = ep_dns_name_set q"
    using flag_bits [OF p1(3) p2(3) p3(3) p4(3) p5(3) p6(3)] by (simp_all only: r(1))
  have g1: "get_param (r EOE_DATA) EOE_PARAM_MAC_INCLUDE EOE_ETHADDR_LENGTH (\<lambda>off q. q\<lparr>ep_mac := memcpy (ep_mac q) 0 r off EOE_ETHADDR_LENGTH, ep_mac_set := True\<rparr>) (4, x) =
      (o1, if ep_mac_set q then x\<lparr>ep_mac := memcpy (ep_mac x) 0 (ep_mac q) 0 EOE_ETHADDR_LENGTH, ep_mac_set := True\<rparr> else x)" for x
  proof (cases "ep_mac_set q")
    case True
    then show ?thesis using put_param_bytes [OF True 1 p2(1)] p1(2) fl(1) by (simp add: get_param_def)
  qed (use p1(2) fl(1) in \<open>simp add: get_param_def\<close>)
  have ip: "get_param (r EOE_DATA) f EOE_IP4_LENGTH (\<lambda>off q. upd (EOE_ip_byte_to_uint32 r off) q) (oa, x) = (ob, if s then upd ip x else x)"
    if "put_param s f EOE_IP4_LENGTH (EOE_ip_uint32_to_byte ip) (fa, oa, ma) = (fb, ob, mb)" "agree r mb ob" "4 \<le> oa" "(r EOE_DATA AND f \<noteq> 0) = s"
    for s f ip fa oa ma fb ob mb x and upd :: "u32 \<Rightarrow> eoe_param_t \<Rightarrow> eoe_param_t"
  proof (cases s)
    case True
    then show ?thesis using put_param_ip [OF True that(1,2,3)] put_param_agree(2) [OF that(1,2) bytes(2)] that(4) by (simp add: get_param_def)
  next
    case False
    then show ?thesis using put_param_agree(2) [OF that(1,2) bytes(2)] that(4) by (simp add: get_param_def)
  qed
  note g2 = ip [where upd = "\<lambda>a q. q\<lparr>ep_ip := a, ep_ip_set := True\<rparr>", OF 2 p3(1) ge(1) fl(2)]
    and g3 = ip [where upd = "\<lambda>a q. q\<lparr>ep_subnet := a, ep_subnet_set := True\<rparr>", OF 3 p4(1) ge(2) fl(3)]
    and g4 = ip [where upd = "\<lambda>a q. q\<lparr>ep_default_gateway := a, ep_default_gateway_set := True\<rparr>", OF 4 p5(1) ge(3) fl(4)]
    and g5 = ip [where upd = "\<lambda>a q. q\<lparr>ep_dns_ip := a, ep_dns_ip_set := True\<rparr>", OF 5 p6(1) ge(4) fl(5)]
  have gp: "get_params r (EOE_PARAM_OFFSET, q0) = (o5, (merged q q0)\<lparr>ep_dns_name := ep_dns_name q0, ep_dns_name_set := ep_dns_name_set q0\<rparr>)"
    unfolding get_params_def Let_def g1 g2 g3 g4 g5
    by (simp add: merged_def)
  have "off = o5 + (if ep_dns_name_set q then EOE_DNS_NAME_LENGTH else 0)" using p6(2) .
  moreover have "o5 \<le> 26" using p1(2) p2(2) p3(2) p4(2) p5(2) by simp
  ultimately have off: "off < 64" "off = o5 + (if ep_dns_name_set q then 32 else 0)" by simp_all
  have u: "uint (of_nat off :: u16) = int off" using unat_of_nat_u16 [of off] off(1) by (simp add: uint_nat del: of_nat_unat)
  have "get_dns_name r (of_nat off) (o5, x) = Some (off, if ep_dns_name_set q then x\<lparr>ep_dns_name := memcpy (ep_dns_name x) 0 (ep_dns_name q) 0 32,
      ep_dns_name_set := True\<rparr> else x)" for x
  proof (cases "ep_dns_name_set q")
    case True
    then have "uint (of_nat off :: u16) - int o5 = 32" using u off(2) by simp
    then show ?thesis using put_param_bytes [OF True 6 r(2) ge(5)] off(2) fl(6) True
      by (simp add: get_dns_name_def Let_def chk_def)
  qed (use off fl(6) in \<open>simp add: get_dns_name_def\<close>)
  then show ?thesis using off(1) unfolding gp by (simp add: merged_def)
qed

text \<open>
  The reference slave keeps the mailbox of the request that sets its parameters, and answers a request for them with
  the parameters of this mailbox.
\<close>

record ip_server =
  ip_stored :: buf
  ip_ans :: "buf option"

definition ip_handle :: "buf \<Rightarrow> ip_server \<Rightarrow> ip_server" where
  "ip_handle m s = (let t = rd16 m 6 AND 0xf in
     if t = EOE_INIT_REQ then s\<lparr>ip_stored := m, ip_ans := Some ((wr16 (wr16 (wr16 zero_buf 0 4) 6 EOE_INIT_RESP) 8 EOE_RESULT_SUCCESS)(5 := 2))\<rparr>
     else if t = EOE_GET_IP_PARAM_REQ then s\<lparr>ip_ans := Some ((wr16 (ip_stored s) 6 EOE_GET_IP_PARAM_RESP)(5 := 2))\<rparr>
     else s)"

definition ip_link :: "ip_server mbx_link" where
  "ip_link = \<lparr>lk_send = (\<lambda>m s. Some (1, ip_handle m s)),
     lk_receive = (\<lambda>m t s. Some (case ip_ans s of None \<Rightarrow> (0, m, s) | Some a \<Rightarrow> (1, a, s\<lparr>ip_ans := None\<rparr>))),
     lk_cnt = (\<lambda>s. (1, s)), lk_mbx_l = (\<lambda>s. 128), lk_sdoerror = (\<lambda>i j e s. Some s), lk_infoerror = (\<lambda>i j e s. Some s),
     lk_packeterror = (\<lambda>i j w s. Some s)\<rparr>"

lemma ip_link_simps [simp]:
  "lk_send ip_link m s = Some (1, ip_handle m s)"
  "lk_receive ip_link m t s = Some (case ip_ans s of None \<Rightarrow> (0, m, s) | Some a \<Rightarrow> (1, a, s\<lparr>ip_ans := None\<rparr>))"
  by (simp_all add: ip_link_def)

lemma eoe_request_type:
  assumes "typ AND 0xf = typ"
  shows "\<exists>m. eoe_request ip_link typ portno c = (m, c) \<and> rd16 m 6 AND 0xf = typ"
proof -
  have "(EOE_HDR_FRAME_TYPE_SET typ OR EOE_HDR_FRAME_PORT_SET (ucast portno) OR EOE_HDR_LAST_FRAGMENT) AND 0xf = typ"
    using assms unfolding EOE_HDR_FRAME_TYPE_SET_def EOE_HDR_FRAME_PORT_SET_def and_masks
    by (simp add: take_bit_push_bit)
  then show ?thesis by (simp add: eoe_request_def eoe_header_def ip_link_def)
qed

lemma ip_receive: "\<exists>w m'. lk_receive ip_link m t s = Some (w, m', s\<lparr>ip_ans := None\<rparr>)"
  by (cases "ip_ans s") simp_all

lemma put_param_keeps:
  assumes "put_param s f l wr (fl, o1, m) = (fl', o2, m')" "\<forall>j x i. i < j \<longrightarrow> wr j x i = x i"
  shows "i < EOE_DATA + o1 \<Longrightarrow> m' i = m i" "o1 \<le> o2"
  using assms by (auto simp: put_param_def split: if_splits)

lemma put_params_keeps:
  assumes "put_params q (fl, off, m) = (fl', off', m')" "i < EOE_DATA + off"
  shows "m' i = m i"
proof -
  have bytes: "\<forall>j x i. i < j \<longrightarrow> memcpy x j src 0 l i = x i" "\<forall>j x i. i < j \<longrightarrow> EOE_ip_uint32_to_byte ip j x i = x i" for src l ip
    by (auto simp: memcpy_apply EOE_ip_uint32_to_byte_def)
  let ?keeps = "\<lambda>st. \<exists>f o1 x. st = (f, o1, x) \<and> off \<le> o1 \<and> (\<forall>j < EOE_DATA + off. x j = m j)"
  have step: "?keeps (put_param s f l wr st)" if "?keeps st" "\<forall>j x i. i < j \<longrightarrow> wr j x i = x i" for s f l wr and st :: "u8 \<times> nat \<times> buf"
    using that by (auto simp: put_param_def)
  have "?keeps (put_params q (fl, off, m))" unfolding put_params_def by (intro step bytes) auto
  then show ?thesis using assms by auto
qed

lemma ip_get_stored:
  assumes "get_dns_name r (rd16 r 0 - 4) (get_params r (EOE_PARAM_OFFSET, q0)) = Some (off, q1)" "unat (rd16 r 0 - 4) = off"
    "r = (wr16 (ip_stored s) 6 EOE_GET_IP_PARAM_RESP)(5 := 2)"
  shows "\<exists>s'. eoe_get_ip ip_link portno q0 t s = Some (1, q1, s')"
proof -
  define s0 where "s0 = s\<lparr>ip_ans := None\<rparr>"
  obtain w0 m0 where 0: "lk_receive ip_link zero_buf 0 s = Some (w0, m0, s0)" using ip_receive [of zero_buf 0 s] by (auto simp: s0_def)
  obtain mo where mo: "eoe_request ip_link EOE_GET_IP_PARAM_REQ portno s0 = (mo, s0)" "rd16 mo 6 AND 0xf = EOE_GET_IP_PARAM_REQ"
    using eoe_request_type [of EOE_GET_IP_PARAM_REQ portno s0] by auto
  have send: "ip_handle ((wr16 mo 0 4)(EOE_DATA := 0)) s0 = s0\<lparr>ip_ans := Some r\<rparr>"
    using mo(2) by (simp add: ip_handle_def assms(3) s0_def)
  have "EOE_HDR_FRAME_TYPE_GET (rd16 r 6) = EOE_GET_IP_PARAM_RESP" "r 5 AND 0x0f = ECT_MBXT_EOE"
    by (simp_all add: assms(3) EOE_HDR_FRAME_TYPE_GET_def)
  then show ?thesis
    unfolding eoe_get_ip_def 0 using assms(1,2) by (simp add: mo(1) send)
qed

lemma ip_set_stores:
  shows "\<exists>fl off m mo. put_params q (0, EOE_PARAM_OFFSET, mo) = (fl, off, m) \<and>
    eoe_set_ip ip_link portno q t s = Some (1, \<lparr>ip_stored = (wr16 m 0 (of_nat (EOE_PARAM_OFFSET + off)))(EOE_DATA := fl), ip_ans = None\<rparr>)"
proof -
  define s0 where "s0 = s\<lparr>ip_ans := None\<rparr>"
  obtain w0 m0 where 0: "lk_receive ip_link (ec_clearmbx zero_buf) 0 s = Some (w0, m0, s0)"
    using ip_receive [of "ec_clearmbx zero_buf" 0 s] by (auto simp: s0_def)
  obtain mo where mo: "eoe_request ip_link EOE_INIT_REQ portno s0 = (mo, s0)" "rd16 mo 6 AND 0xf = EOE_INIT_REQ"
    using eoe_request_type [of EOE_INIT_REQ portno s0] by auto
  obtain fl off m where m: "put_params q (0, EOE_PARAM_OFFSET, mo) = (fl, off, m)" by (metis surj_pair)
  let ?m = "(wr16 m 0 (of_nat (EOE_PARAM_OFFSET + off)))(EOE_DATA := fl)"
  have "rd16 m 6 = rd16 mo 6" using put_params_keeps [OF m, of 6] put_params_keeps [OF m, of 7] by (simp add: numeral_2_eq_2)
  then have send: "ip_handle ?m s0 = \<lparr>ip_stored = ?m, ip_ans = Some ((wr16 (wr16 (wr16 zero_buf 0 4) 6 EOE_INIT_RESP) 8 EOE_RESULT_SUCCESS)(5 := 2))\<rparr>"
    using mo(2) by (simp add: ip_handle_def s0_def)
  have "EOE_HDR_FRAME_TYPE_GET EOE_INIT_RESP = EOE_INIT_RESP" by (simp add: EOE_HDR_FRAME_TYPE_GET_def)
  then have "eoe_set_ip ip_link portno q t s = Some (1, \<lparr>ip_stored = ?m, ip_ans = None\<rparr>)"
    unfolding eoe_set_ip_def 0 by (simp add: mo(1) m send del: of_nat_add)
  then show ?thesis using m by blast
qed

lemma ip_roundtrip_lemma:
  "\<exists>s1 s2. eoe_set_ip ip_link portno q t s = Some (1, s1) \<and> eoe_get_ip ip_link portno' q0 t' s1 = Some (1, merged q q0, s2)"
proof -
  obtain fl off m mo where put: "put_params q (0, EOE_PARAM_OFFSET, mo) = (fl, off, m)"
    and set: "eoe_set_ip ip_link portno q t s = Some (1, \<lparr>ip_stored = (wr16 m 0 (of_nat (EOE_PARAM_OFFSET + off)))(EOE_DATA := fl), ip_ans = None\<rparr>)"
    using ip_set_stores by blast
  define s1 where "s1 = \<lparr>ip_stored = (wr16 m 0 (of_nat (EOE_PARAM_OFFSET + off)))(EOE_DATA := fl), ip_ans = None\<rparr>"
  define r where "r = (wr16 (ip_stored s1) 6 EOE_GET_IP_PARAM_RESP)(5 := 2)"
  have r: "r EOE_DATA = fl" "agree r m off" "rd16 r 0 - 4 = of_nat off"
    by (auto simp: r_def s1_def agree_def put_le_apply)
  note g = get_put_params [OF put r(1,2), of q0]
  then have "unat (rd16 r 0 - 4) = off" by (simp add: r(3) unat_of_nat_u16)
  from ip_get_stored [OF _ this r_def] g show ?thesis
    unfolding r(3) set s1_def [symmetric] by blast
qed

section \<open>Bounds and errors\<close>

text \<open>The reader keeps the offset within the caller's buffer.\<close>

definition rx_inv :: "eoe_rx \<Rightarrow> bool" where
  "rx_inv r \<longleftrightarrow> 0 \<le> rx_psize r \<and> (rx_fragmentno r = 0 \<or> uint (rx_frameoffset r) \<le> rx_psize r)"

lemma store_fragment_bounded:
  assumes "store_fragment m sz info r = Some (w, r')" "0 \<le> rx_psize r" "uint (rx_frameoffset r) \<le> rx_psize r"
  shows "\<forall>i \<ge> nat (rx_psize r). rx_buf r' i = rx_buf r i"
    "EOE_HDR_TIME_APPEND_GET info = 0 \<Longrightarrow> rx_inv r' \<and> rx_psize r' \<le> rx_psize r"
proof -
  define fit where "fit \<longleftrightarrow> uint (rx_frameoffset r) + uint sz \<le> uint (rx_framesize r) \<and> uint (rx_frameoffset r) + uint sz \<le> rx_psize r"
  define r1 where "r1 = (if fit then r\<lparr>rx_buf := memcpy (rx_buf r) (unat (rx_frameoffset r)) m EOE_DATA (unat sz),
    rx_frameoffset := rx_frameoffset r + sz, rx_fragmentno := rx_fragmentno r + 1\<rparr> else r)"
  have "uint (rx_frameoffset r + sz) \<le> uint (rx_frameoffset r) + uint sz" by (simp add: uint_plus_if' del: nat_uint_eq)
  then have off: "uint (rx_frameoffset r1) \<le> rx_psize r" "rx_psize r1 = rx_psize r" using assms(3) by (auto simp: r1_def fit_def)
  have "unat (rx_frameoffset r) + unat sz \<le> nat (rx_psize r)" if fit
  proof -
    have "int (unat (rx_frameoffset r) + unat sz) \<le> rx_psize r" using that by (simp add: fit_def)
    then show ?thesis by linarith
  qed
  then have "\<forall>i \<ge> nat (rx_psize r). rx_buf r1 i = rx_buf r i" by (auto simp: r1_def memcpy_apply)
  moreover have "Some (w, r') = Some (if EOE_HDR_LAST_FRAGMENT_GET info \<noteq> 0
      then (1, reset_rx (r1\<lparr>rx_psize := uint (if EOE_HDR_TIME_APPEND_GET info \<noteq> 0 then rx_frameoffset r1 - 4 else rx_frameoffset r1)\<rparr>))
      else (0, r1))"
    using assms(1) by (auto simp: store_fragment_def Let_def fit_def r1_def split: if_splits bind_splits)
  ultimately show "\<forall>i \<ge> nat (rx_psize r). rx_buf r' i = rx_buf r i"
    "EOE_HDR_TIME_APPEND_GET info = 0 \<Longrightarrow> rx_inv r' \<and> rx_psize r' \<le> rx_psize r"
    using off assms(2) by (auto simp: rx_inv_def reset_rx_def split: if_splits)
qed

lemma readfragment_bounds:
  assumes "rx_inv r" "ecx_EOEreadfragment m r = Some (w, r')"
  shows "\<forall>i \<ge> nat (rx_psize r). rx_buf r' i = rx_buf r i"
    "EOE_HDR_TIME_APPEND_GET (rd16 m 6) = 0 \<Longrightarrow> rx_inv r' \<and> rx_psize r' \<le> rx_psize r"
proof -
  define other where "other \<longleftrightarrow> ucast (rx_fragmentno r) \<noteq> EOE_HDR_FRAG_NO_GET (rd16 m 8)"
  define r1 where "r1 = (if other \<and> rx_fragmentno r \<noteq> 0 then reset_rx r else r)"
  define r2 where "r2 = (if rx_fragmentno r1 = 0 then r1\<lparr>rx_framesize := push_bit 5 (EOE_HDR_FRAME_OFFSET_GET (rd16 m 8)),
    rx_frameoffset := 0, rx_frameno := EOE_HDR_FRAME_NO_GET (rd16 m 8)\<rparr> else r1)"
  have same: "rx_psize r2 = rx_psize r" "rx_buf r2 = rx_buf r" "rx_psize r1 = rx_psize r" "rx_buf r1 = rx_buf r" "rx_inv r1" "rx_inv (reset_rx r1)"
    using assms(1) by (auto simp: r1_def r2_def reset_rx_def rx_inv_def)
  have r2: "0 \<le> rx_psize r2" "uint (rx_frameoffset r2) \<le> rx_psize r2"
    using same(5) by (auto simp: r2_def rx_inv_def)
  have "store_fragment m (rd16 m 0 - 4) (rd16 m 6) r2 = Some (w, r') \<or> r' \<in> {r, r1, reset_rx r1}"
    using assms(2) unfolding ecx_EOEreadfragment_def Let_def r2_def r1_def other_def by (auto split: if_splits)
  then show "\<forall>i \<ge> nat (rx_psize r). rx_buf r' i = rx_buf r i"
    "EOE_HDR_TIME_APPEND_GET (rd16 m 6) = 0 \<Longrightarrow> rx_inv r' \<and> rx_psize r' \<le> rx_psize r"
    using store_fragment_bounded [OF _ r2] same assms(1) unfolding same(1,2) by (auto simp: reset_rx_def)
qed

lemma fst_get_param: "fst (get_param fl f l rd st) = fst st + (if fl AND f \<noteq> 0 then l else 0)"
  by (cases st) (simp add: get_param_def)

lemma get_params_offset: "4 \<le> fst (get_params m (4, q))" "fst (get_params m (4, q)) \<le> 26"
  unfolding get_params_def Let_def by (simp_all add: fst_get_param)

text \<open>The 16 bit length of a name that begins behind the end of the answer is nearly 65536.\<close>

lemma get_dns_name_overrun:
  assumes "m EOE_DATA AND EOE_PARAM_DNS_NAME_INCLUDE \<noteq> 0" "unat len < off" "off \<le> 60"
  shows "get_dns_name m len (off, q) = None"
proof -
  define left where "left = uint len - int off"
  have left: "- 60 \<le> left" "left < 0" using assms(2,3) by (simp_all add: left_def uint_nat del: of_nat_unat)
  have "int (unat (word_of_int left :: u16)) = left mod 65536" by (simp add: uint_word_of_int)
  also have "\<dots> = (left + 65536) mod 65536" by simp
  also have "\<dots> = left + 65536" using left by (intro mod_pos_pos_trivial) simp_all
  finally have "\<not> unat (word_of_int left :: u16) \<le> 32" using left by linarith
  then show ?thesis using assms(1) left by (simp add: get_dns_name_def Let_def left_def [symmetric])
qed

lemma get_ip_overrun:
  assumes "ip_stored s EOE_DATA AND EOE_PARAM_DNS_NAME_INCLUDE \<noteq> 0" "unat (rd16 (ip_stored s) 0 - 4) < 4"
  shows "eoe_get_ip ip_link portno q t s = None"
proof -
  define s0 where "s0 = s\<lparr>ip_ans := None\<rparr>"
  define r where "r = (wr16 (ip_stored s) 6 EOE_GET_IP_PARAM_RESP)(5 := 2)"
  obtain w0 m0 where 0: "lk_receive ip_link zero_buf 0 s = Some (w0, m0, s0)" using ip_receive [of zero_buf 0 s] by (auto simp: s0_def)
  obtain mo where mo: "eoe_request ip_link EOE_GET_IP_PARAM_REQ portno s0 = (mo, s0)" "rd16 mo 6 AND 0xf = EOE_GET_IP_PARAM_REQ"
    using eoe_request_type [of EOE_GET_IP_PARAM_REQ portno s0] by auto
  have send: "ip_handle ((wr16 mo 0 4)(EOE_DATA := 0)) s0 = s0\<lparr>ip_ans := Some r\<rparr>"
    using mo(2) by (simp add: ip_handle_def r_def s0_def)
  have r: "EOE_HDR_FRAME_TYPE_GET (rd16 r 6) = EOE_GET_IP_PARAM_RESP" "r 5 AND 0x0f = ECT_MBXT_EOE" "r EOE_DATA AND EOE_PARAM_DNS_NAME_INCLUDE \<noteq> 0"
    "rd16 r 0 = rd16 (ip_stored s) 0"
    using assms(1) by (simp_all add: r_def EOE_HDR_FRAME_TYPE_GET_def put_le_apply)
  obtain off q' where g: "get_params r (EOE_PARAM_OFFSET, q) = (off, q')" by (metis surj_pair)
  then have "4 \<le> off" "off \<le> 60" using get_params_offset [of r q] by simp_all
  then have "get_dns_name r (rd16 r 0 - 4) (get_params r (EOE_PARAM_OFFSET, q)) = None"
    unfolding g using get_dns_name_overrun [where m = r] assms(2) r(3,4) by simp
  then show ?thesis
    unfolding eoe_get_ip_def 0 using r by (simp add: mo(1) send)
qed

text \<open>A mailbox with room for less than 32 bytes of data gets empty fragments for ever.\<close>

lemma eoe_send_stuck:
  assumes "10 \<le> M" "M < 42" "M - 10 < n"
  shows "eoe_send (pipe M) portno (int n) p fno c = None"
proof -
  have M: "uint (lk_mbx_l (pipe M) c) - 0x0a = int (M - 10)" using assms(1,2) by (simp add: uint_nat unat_of_nat_u16 del: of_nat_unat)
  have "drop_bit 5 (int (M - 10)) = 0" using assms(2) by (simp add: drop_bit_eq_div)
  then have "if_runs (do_while (eoe_send_round (pipe M) portno (int n) p (int (M - 10))) (0, 0, 0, fno, ec_clearmbx zero_buf, c)) (\<lambda>_. False)"
    using assms(3) eoe_header_shape
    by (intro do_while_partial [where I = "\<lambda>(w, off, _). off = 0"]) (auto simp: eoe_send_round_def Let_def split: prod.splits)
  then show ?thesis unfolding eoe_send_def Let_def M by (auto simp: if_runs_def split: option.splits)
qed

section \<open>Properties\<close>

text \<open>
  C11: an Ethernet frame of up to 2016 bytes that is sent in fragments over mailboxes of at least 42 bytes is received
  whole, both by the blocking read (into a buffer with room for the size rounded up to 32 bytes) and by the reader of
  single fragments (into a buffer of exactly the size); nothing is left in the channel.
\<close>

theorem eoe_roundtrip:
  assumes "42 \<le> M" "M \<le> EC_MAXMBX" "portno < 16" "n \<le> 2016"
  shows "\<exists>ms. eoe_send (pipe M) portno (int n) p fno [] = Some (1, fno + 1, ms) \<and>
    (\<forall>cap q t. 32 * ((n + 31) div 32) \<le> cap \<longrightarrow>
      (\<exists>w. eoe_recv (pipe M) portno (int cap) q t ms = Some (w, int n, memcpy q 0 p 0 n, []) \<and> 0 < w)) \<and>
    (\<forall>cap r. n \<le> cap \<and> rx_fragmentno r = 0 \<and> rx_psize r = int cap \<longrightarrow>
      (\<exists>r'. feed ms r = Some (1, r') \<and> rx_psize r' = int n \<and> rx_buf r' = memcpy (rx_buf r) 0 p 0 n \<and> rx_fragmentno r' = 0))"
proof -
  obtain ms where ms: "eoe_send (pipe M) portno (int n) p fno [] = Some (1, fno + 1, ms)" "fragments portno (fno + 1) n p 0 0 ms"
    using eoe_send_fragments [OF assms] by blast
  then obtain m ms' where c: "ms = m # ms'" by (cases ms) auto
  have "\<exists>w. eoe_recv (pipe M) portno (int cap) q t ms = Some (w, int n, memcpy q 0 p 0 n, []) \<and> 0 < w"
    if "32 * ((n + 31) div 32) \<le> cap" for cap q t
  proof -
    have "memcpy q 0 p 0 0 = q" by (simp add: fun_eq_iff memcpy_apply)
    then show ?thesis
      using eoe_recv_loop [OF assms(4) that ms(2) [unfolded c], of "0xff" 1 M t "int cap" q] by (auto simp: eoe_recv_def c)
  qed
  moreover have "\<exists>r'. feed ms r = Some (1, r') \<and> rx_psize r' = int n \<and> rx_buf r' = memcpy (rx_buf r) 0 p 0 n \<and> rx_fragmentno r' = 0"
    if "n \<le> cap" "rx_fragmentno r = 0" "rx_psize r = int cap" for cap r
    using that by (intro feed_fragments [OF assms(4) that(1) ms(2)]) (auto simp: rx_ok_def fun_eq_iff memcpy_apply)
  ultimately show ?thesis using ms(1) by blast
qed

theorem eoe_roundtrip_witness:
  "\<exists>ms. eoe_send (pipe 128) 1 (int 300) zero_buf 0 [] = Some (1, 0 + 1, ms) \<and>
    (\<exists>w. eoe_recv (pipe 128) 1 (int 320) zero_buf 0 ms = Some (w, int 300, memcpy zero_buf 0 zero_buf 0 300, []) \<and> 0 < w)"
proof -
  have "(1 :: u8) < 16" by simp
  then show ?thesis using eoe_roundtrip [of 128 1 300 zero_buf 0] by auto
qed

text \<open>
  Parameters that are set in a slave that keeps them are got back as they were set: each one that is set in the
  caller's \<open>q\<close> replaces the value of \<open>q0\<close>, and the others stay.
\<close>

theorem eoe_ip_roundtrip:
  "\<exists>s1 s2. eoe_set_ip ip_link portno q t s = Some (1, s1) \<and> eoe_get_ip ip_link portno' q0 t' s1 = Some (1, merged q q0, s2)"
  by (rule ip_roundtrip_lemma)

text \<open>
  C35: reading fragments never writes behind the caller's buffer; without an appended timestamp the reported size is
  within the buffer as well, and the reader keeps its invariant.
\<close>

theorem eoe_readfragment_bounded:
  assumes "rx_inv r" "ecx_EOEreadfragment m r = Some (w, r')"
  shows "(\<forall>i \<ge> nat (rx_psize r). rx_buf r' i = rx_buf r i) \<and>
    (EOE_HDR_TIME_APPEND_GET (rd16 m 6) = 0 \<longrightarrow> rx_inv r' \<and> rx_psize r' \<le> rx_psize r)"
  using readfragment_bounds [OF assms] by blast

definition small_fragment :: buf where
  "small_fragment = (wr16 (wr16 (wr16 zero_buf 0 8) 6 0x0100) 8 0x0040)(5 := 2)"

theorem eoe_readfragment_bounded_witness:
  "\<exists>r'. ecx_EOEreadfragment small_fragment
      \<lparr>rx_fragmentno = 0, rx_framesize = 0, rx_frameoffset = 0, rx_frameno = 0, rx_psize = 64, rx_buf = zero_buf\<rparr> = Some (1, r') \<and>
    rx_psize r' \<le> 64 \<and> (\<forall>i \<ge> 64. rx_buf r' i = 0)"
proof -
  let ?r = "\<lparr>rx_fragmentno = 0, rx_framesize = 0, rx_frameoffset = 0, rx_frameno = 0, rx_psize = 64, rx_buf = zero_buf\<rparr>"
  have m: "rd16 small_fragment 0 = 8" "rd16 small_fragment 6 = 0x0100" "rd16 small_fragment 8 = 0x0040" "small_fragment 5 = 2"
    by (simp_all add: small_fragment_def)
  have "\<exists>r'. ecx_EOEreadfragment small_fragment ?r = Some (1, r')"
    unfolding ecx_EOEreadfragment_def store_fragment_def m Let_def by (simp add: eoe_fields)
  moreover have "rx_inv ?r" by (simp add: rx_inv_def)
  ultimately show ?thesis
    using eoe_readfragment_bounded [of ?r small_fragment 1] m(2) by (auto simp: zero_buf_def eoe_fields)
qed

text \<open>
  An answer that announces a DNS name and is shorter than four bytes makes the length of the name wrap, and the name
  is copied far behind its 32 bytes.
\<close>

theorem eoe_get_ip_overrun:
  assumes "ip_stored s EOE_DATA AND EOE_PARAM_DNS_NAME_INCLUDE \<noteq> 0" "unat (rd16 (ip_stored s) 0 - 4) < 4"
  shows "eoe_get_ip ip_link portno q t s = None"
  using assms by (rule get_ip_overrun)

theorem eoe_get_ip_overrun_witness:
  "\<exists>q. eoe_get_ip ip_link 0 q 0 \<lparr>ip_stored = (wr16 zero_buf 0 4)(10 := 0x20), ip_ans = None\<rparr> = None"
  by (intro exI eoe_get_ip_overrun) simp_all

end
