(* ===== verification/Init.thy ===== *)
theory Init
  imports ErrorRing
begin

text \<open>
  Starting and closing the master (\<open>soem/ethercatmain.c\<close>): one interface, or two with the dummy frame that is sent over
  the second one. From memory that is zero, as the static data of a C program is, they establish the
  invariant that all other operations keep: every buffer is free and the port is in order.
\<close>

definition ecx_init :: "'e os_ops \<Rightarrow> string \<Rightarrow> 'e ecx_contextt \<Rightarrow> int \<times> 'e ecx_contextt" where
  "ecx_init E ifname c = (let (r, p) = ecx_setupnic E ifname False (port c) in (r, c\<lparr>port := p\<rparr>))"

definition ecx_init_redundant :: "'e os_ops \<Rightarrow> ecx_redportt option \<Rightarrow> string \<Rightarrow> string \<Rightarrow> 'e ecx_contextt \<Rightarrow> (int \<times> 'e ecx_contextt) option" where
  "ecx_init_redundant E red ifname if2name c = do {
     let p = (port c)\<lparr>redport := red\<rparr>;
     let (_, p) = ecx_setupnic E ifname False p;
     let (rval, p) = ecx_setupnic E if2name True p;
     let f = wr16 (txbuf2 p) 8 (htons RX_SEC);
     (f, p) \<leftarrow> ecx_setupdatagram p f EC_CMD_BRD 0 0x0000 0x0000 2 zero_buf;
     Some (rval, c\<lparr>port := p\<lparr>txbuf2 := f, txbuflength2 := ETH_HEADERSIZE + EC_HEADERSIZE + EC_WKCSIZE + 2\<rparr>\<rparr>) }"

definition ecx_close :: "'e os_ops \<Rightarrow> 'e ecx_contextt \<Rightarrow> 'e ecx_contextt" where
  "ecx_close E c = c\<lparr>port := snd (ecx_closenic E (port c))\<rparr>"

section \<open>The invariant is established\<close>

text \<open>The receive buffers as the program starts.\<close>

definition blank_port :: "'e ecx_portt \<Rightarrow> bool" where
  "blank_port p \<longleftrightarrow> (\<forall>i. rxbuf p i = zero_buf) \<and> txbuflength2 p = 0"

definition blank_red :: "ecx_redportt \<Rightarrow> bool" where
  "blank_red r \<longleftrightarrow> (\<forall>i. red_rxbuf r i = zero_buf)"

lemma setupnic_primary:
  assumes "ecx_setupnic E ifname False p = (r, p')"
  shows "rxbuf p' = rxbuf p" "txbuflength p' = txbuflength p" "txbuflength2 p' = txbuflength2 p" "redport p' = redport p"
    "redstate p' = ECT_RED_NONE" "\<And>i. i < EC_MAXBUF \<Longrightarrow> rxbufstat p' i = EC_BUF_EMPTY"
  using assms by (auto simp: ecx_setupnic_def Let_def ecx_clear_rxbufstat_def split: prod.splits)

lemma setupnic_secondary:
  assumes "ecx_setupnic E ifname True p = (r, p')"
  shows "rxbuf p' = rxbuf p" "txbuflength p' = txbuflength p" "redport p = None \<Longrightarrow> p' = p \<and> r = 0"
    "\<And>q. redport p = Some q \<Longrightarrow> redstate p' = ECT_RED_DOUBLE \<and>
      (\<exists>q'. redport p' = Some q' \<and> red_rxbuf q' = red_rxbuf q \<and> (\<forall>i < EC_MAXBUF. red_rxbufstat q' i = EC_BUF_EMPTY))"
    "\<And>i. (\<And>j. j < EC_MAXBUF \<Longrightarrow> rxbufstat p j = EC_BUF_EMPTY) \<Longrightarrow> i < EC_MAXBUF \<Longrightarrow> rxbufstat p' i = EC_BUF_EMPTY"
  using assms by (auto simp: ecx_setupnic_def Let_def ecx_clear_rxbufstat_def split: prod.splits if_splits)

lemma empty_stack_ok:
  "(\<And>i. i < EC_MAXBUF \<Longrightarrow> st_rxbufstat st i = EC_BUF_EMPTY) \<Longrightarrow> (\<And>i. st_rxbuf st i = zero_buf) \<Longrightarrow> stack_ok len st"
  by (simp add: stack_ok_def)

lemma init_establishes:
  assumes "good_os E now" "blank_port (port c)" "redport (port c) = None" "ecx_init E ifname c = (r, c')"
  shows "net_ok E now (port c')" "\<And>i. i < EC_MAXBUF \<Longrightarrow> \<not> in_use (port c') i"
proof -
  obtain p where p: "ecx_setupnic E ifname False (port c) = (r, p)" "c' = c\<lparr>port := p\<rparr>"
    using assms(4) by (auto simp: ecx_init_def split: prod.splits)
  note s = setupnic_primary [OF p(1)]
  have "stack_ok (txbuflength p) st" if "get_stack p k = Some st" for k st
    using that s assms(2,3) by (intro empty_stack_ok) (auto simp: get_stack_def blank_port_def split: if_splits)
  then show "net_ok E now (port c')" using assms(1,2) s by (simp add: net_ok_def port_ok_def p(2) blank_port_def)
  show "\<And>i. i < EC_MAXBUF \<Longrightarrow> \<not> in_use (port c') i" using s(6) by (simp add: in_use_def p(2))
qed

lemma init_redundant_establishes:
  assumes "good_os E now" "blank_port (port c)" "\<forall>q. red = Some q \<longrightarrow> blank_red q"
  shows "\<exists>r c'. ecx_init_redundant E red ifname if2name c = Some (r, c') \<and> net_ok E now (port c') \<and>
    (\<forall>i < EC_MAXBUF. \<not> in_use (port c') i) \<and> (redstate (port c') = ECT_RED_NONE \<longleftrightarrow> red = None) \<and> (red = None \<longrightarrow> r = 0) \<and>
    txbuflength2 (port c') = 30 \<and> parse_dgrams 125 (txbuf2 (port c')) 16 = [tx_dgram EC_CMD_BRD 0 0 0 2 zero_buf] \<and>
    rd16 (txbuf2 (port c')) 8 = htons RX_SEC"
proof -
  obtain r1 p1 where 1: "ecx_setupnic E ifname False ((port c)\<lparr>redport := red\<rparr>) = (r1, p1)" by (metis surj_pair)
  obtain r2 p2 where 2: "ecx_setupnic E if2name True p1 = (r2, p2)" by (metis surj_pair)
  note s1 = setupnic_primary [OF 1] and s2 = setupnic_secondary [OF 2]
  obtain f where f: "ecx_setupdatagram p2 (wr16 (txbuf2 p2) 8 (htons RX_SEC)) EC_CMD_BRD 0 0 0 2 zero_buf =
      Some (f, p2\<lparr>txbuflength := (txbuflength p2)(0 := 28 + unat (2 :: u16))\<rparr>)"
    "carries f 16 [(tx_dgram EC_CMD_BRD 0 0 0 2 zero_buf, False)]" "\<forall>i < ETH_HEADERSIZE. f i = wr16 (txbuf2 p2) 8 (htons RX_SEC) i"
    using setupdatagram_frame [of 0 2 p2 "wr16 (txbuf2 p2) 8 (htons RX_SEC)" EC_CMD_BRD 0 0 zero_buf] by auto
  define p3 where "p3 = p2\<lparr>txbuflength := (txbuflength p2)(0 := 30), txbuf2 := f, txbuflength2 := 30\<rparr>"
  have e: "ecx_init_redundant E red ifname if2name c = Some (r2, c\<lparr>port := p3\<rparr>)"
    by (simp add: ecx_init_redundant_def Let_def 1 2 f(1) p3_def)
  have empty: "rxbufstat p3 i = EC_BUF_EMPTY" if "i < EC_MAXBUF" for i using s2(5) s1(6) that by (simp add: p3_def)
  have red: "red = None \<Longrightarrow> redstate p3 = ECT_RED_NONE \<and> redport p3 = None \<and> r2 = 0" using s1 s2(3) by (simp add: p3_def)
  have red': "\<exists>q'. redport p3 = Some q' \<and> red_rxbuf q' = red_rxbuf q \<and> (\<forall>i < EC_MAXBUF. red_rxbufstat q' i = EC_BUF_EMPTY)"
    "redstate p3 = ECT_RED_DOUBLE" if "red = Some q" for q
    using s1(4) s2(4) that by (simp_all add: p3_def)
  have "stack_ok (txbuflength p3) st" if "get_stack p3 k = Some st" for k st
  proof (rule empty_stack_ok)
    show "st_rxbufstat st i = EC_BUF_EMPTY" if "i < EC_MAXBUF" for i
      using \<open>get_stack p3 k = Some st\<close> that empty red red' by (cases red) (auto simp: get_stack_def split: if_splits)
    show "st_rxbuf st i = zero_buf" for i
      using that assms(2,3) red red' s1(1) s2(1) by (cases red) (auto simp: get_stack_def blank_port_def blank_red_def p3_def split: if_splits)
  qed
  then have "net_ok E now p3" using assms(1) red red' by (cases red) (auto simp: net_ok_def port_ok_def p3_def)
  moreover have "parse_dgrams 125 f 16 = [tx_dgram EC_CMD_BRD 0 0 0 2 zero_buf]"
    using parse_carries [where f = f and off = 16 and ds = "[]"] f(2) by simp
  moreover have "rd16 f 8 = rd16 (wr16 (txbuf2 p2) 8 (htons RX_SEC)) 8" by (rule get_le_cong) (use f(3) in simp)
  ultimately show ?thesis using e empty red red' by (cases red) (auto simp: in_use_def p3_def)
qed

section \<open>Properties\<close>

text \<open>
  C36: from zero-initialised memory, starting the master establishes the invariant of the port with all sixteen buffers free,
  for one interface and for two; with two, the dummy frame of the second interface is a broadcast read of two bytes
  with the secondary source address, and without a second port structure the result is 0 and redundancy stays off.
\<close>

theorem init_establishes_invariant:
  assumes "good_os E now" "blank_port (port c)" "\<forall>q. red = Some q \<longrightarrow> blank_red q"
  shows "(redport (port c) = None \<longrightarrow> net_ok E now (port (snd (ecx_init E ifname c))) \<and>
      (\<forall>i < EC_MAXBUF. \<not> in_use (port (snd (ecx_init E ifname c))) i)) \<and>
    (\<exists>r c'. ecx_init_redundant E red ifname if2name c = Some (r, c') \<and> net_ok E now (port c') \<and>
      (\<forall>i < EC_MAXBUF. \<not> in_use (port c') i) \<and> (redstate (port c') = ECT_RED_NONE \<longleftrightarrow> red = None) \<and> (red = None \<longrightarrow> r = 0) \<and>
      txbuflength2 (port c') = 30 \<and> parse_dgrams 125 (txbuf2 (port c')) 16 = [tx_dgram EC_CMD_BRD 0 0 0 2 zero_buf] \<and>
      rd16 (txbuf2 (port c')) 8 = htons RX_SEC)"
  using init_establishes [OF assms(1,2) _ prod.collapse [symmetric]] init_redundant_establishes [OF assms] by blast

theorem init_establishes_invariant_witness:
  "\<exists>r c'. ecx_init_redundant script_os (Some \<lparr>red_sockhandle = 0, red_rxbuf = (\<lambda>_. zero_buf), red_rxbufstat = (\<lambda>_. EC_BUF_TX),
      red_rxsa = (\<lambda>_. 0), red_tempinbuf = zero_buf\<rparr>) ''eth0'' ''eth1'' ((idle_ctx 2 (5, []))\<lparr>port := (idle_port (5, []))\<lparr>txbuflength2 := 0\<rparr>\<rparr>) = Some (r, c') \<and>
    redstate (port c') \<noteq> ECT_RED_NONE"
  using init_establishes_invariant [OF good_script_os, of "(idle_ctx 2 (5, []))\<lparr>port := (idle_port (5, []))\<lparr>txbuflength2 := 0\<rparr>\<rparr>"
      "Some \<lparr>red_sockhandle = 0, red_rxbuf = (\<lambda>_. zero_buf), red_rxbufstat = (\<lambda>_. EC_BUF_TX), red_rxsa = (\<lambda>_. 0), red_tempinbuf = zero_buf\<rparr>" "''eth0''" "''eth1''"]
  by (auto simp: blank_port_def blank_red_def)

end
