(* ===== verification/Cia402.thy ===== *)
theory Cia402
  imports Prelude
begin

text \<open>
  The CiA 402 drive control of the master (\<open>cia402/cia402.h\<close> and \<open>cia402/cia402.cpp\<close>): the
  decoding of the status word, the control word of each state, and the state machine that takes a motor to
  operation enabled, called once in each cycle.

  The second half is a reference drive, written from the device control of CiA 402 and not from the code: its commands are
  bit patterns of the control word, the reset of a fault is a rising edge of bit 7. Master and drive in a closed
  loop are a step relation; it is shown which words are sent in which state of the drive, how many cycles it takes
  until the drive is enabled, and when it never is.
\<close>

abbreviation (input) CW_BITS_SWITCH_ON :: u16 where "CW_BITS_SWITCH_ON \<equiv> 0x0001"
abbreviation (input) CW_BITS_ENABLE_VOLTAGE :: u16 where "CW_BITS_ENABLE_VOLTAGE \<equiv> 0x0002"
abbreviation (input) CW_BITS_QUICK_STOP :: u16 where "CW_BITS_QUICK_STOP \<equiv> 0x0004"
abbreviation (input) CW_BITS_ENABLE_OPERATION :: u16 where "CW_BITS_ENABLE_OPERATION \<equiv> 0x0008"
abbreviation (input) CW_BITS_FAULT_RESET :: u16 where "CW_BITS_FAULT_RESET \<equiv> 0x0080"
abbreviation (input) CW_FAULT_RESET_CMD :: u16 where "CW_FAULT_RESET_CMD \<equiv> 0x0080"
abbreviation (input) CW_QUICK_STOP_CMD :: u16 where "CW_QUICK_STOP_CMD \<equiv> 0x0002"
abbreviation (input) CW_SHUTDOWN_CMD :: u16 where "CW_SHUTDOWN_CMD \<equiv> 0x0006"
abbreviation (input) CW_SWITCH_ON_CMD :: u16 where "CW_SWITCH_ON_CMD \<equiv> 0x0007"
abbreviation (input) CW_ENABLE_OP_CMD :: u16 where "CW_ENABLE_OP_CMD \<equiv> 0x000F"
abbreviation (input) SW_STATE_MASK :: u16 where "SW_STATE_MASK \<equiv> 0x006F"
abbreviation (input) SW_STATE_NOT_READY_TO_SWITCH_ON :: u16 where "SW_STATE_NOT_READY_TO_SWITCH_ON \<equiv> 0x0000"
abbreviation (input) SW_STATE_SWITCH_ON_DISABLED :: u16 where "SW_STATE_SWITCH_ON_DISABLED \<equiv> 0x0040"
abbreviation (input) SW_STATE_READY_TO_SWITCH_ON :: u16 where "SW_STATE_READY_TO_SWITCH_ON \<equiv> 0x0021"
abbreviation (input) SW_STATE_SWITCHED_ON :: u16 where "SW_STATE_SWITCHED_ON \<equiv> 0x0023"
abbreviation (input) SW_STATE_OPERATION_ENABLED :: u16 where "SW_STATE_OPERATION_ENABLED \<equiv> 0x0027"
abbreviation (input) SW_STATE_QUICK_STOP_ACTIVE :: u16 where "SW_STATE_QUICK_STOP_ACTIVE \<equiv> 0x0007"
abbreviation (input) SW_STATE_FAULT_REACTION_ACTIVE :: u16 where "SW_STATE_FAULT_REACTION_ACTIVE \<equiv> 0x000F"
abbreviation (input) SW_STATE_FAULT :: u16 where "SW_STATE_FAULT \<equiv> 0x0008"

datatype CIA402_STATE = NOT_READY_TO_SWITCH_ON | SW_ON_DISABLED | READY_TO_SWITCH_ON | SWITCHED_ON | OPERATION_ENABLED
  | QUICK_STOP_ACTIVE | FAULT_REACTION_ACTIVE | FAULT | UNKNOWN

record rxpdo_t =
  rx_controlword :: u16
  rx_target_velocity :: u32
  rx_mode_of_operation :: u8
  rx_padding :: u8

record txpdo_t =
  tx_statusword :: u16
  tx_actual_position :: u32
  tx_actual_velocity :: u32
  tx_actual_torque :: u16

record cia402_motor_t =
  mt_state :: CIA402_STATE
  mt_rxpdo :: rxpdo_t
  mt_txpdo :: txpdo_t
  mt_step :: u32
  mt_faulted :: bool
  mt_operation_enabled :: bool
  mt_ec_connected :: bool

section \<open>The state machine\<close>

definition cia402_decode_state :: "u16 \<Rightarrow> CIA402_STATE" where
  "cia402_decode_state status_word = (let masked_status_word = status_word AND SW_STATE_MASK in
     if masked_status_word = SW_STATE_NOT_READY_TO_SWITCH_ON then NOT_READY_TO_SWITCH_ON
     else if masked_status_word = SW_STATE_SWITCH_ON_DISABLED then SW_ON_DISABLED
     else if masked_status_word = SW_STATE_READY_TO_SWITCH_ON then READY_TO_SWITCH_ON
     else if masked_status_word = SW_STATE_SWITCHED_ON then SWITCHED_ON
     else if masked_status_word = SW_STATE_OPERATION_ENABLED then OPERATION_ENABLED
     else if masked_status_word = SW_STATE_QUICK_STOP_ACTIVE then QUICK_STOP_ACTIVE
     else if masked_status_word = SW_STATE_FAULT_REACTION_ACTIVE then FAULT_REACTION_ACTIVE
     else if masked_status_word = SW_STATE_FAULT then FAULT
     else UNKNOWN)"

definition cia402_control_word :: "CIA402_STATE \<Rightarrow> u16" where
  "cia402_control_word state = (case state of
     NOT_READY_TO_SWITCH_ON \<Rightarrow> 0x0000
   | SW_ON_DISABLED \<Rightarrow> CW_SHUTDOWN_CMD
   | READY_TO_SWITCH_ON \<Rightarrow> CW_SWITCH_ON_CMD
   | SWITCHED_ON \<Rightarrow> CW_ENABLE_OP_CMD
   | OPERATION_ENABLED \<Rightarrow> CW_ENABLE_OP_CMD
   | QUICK_STOP_ACTIVE \<Rightarrow> CW_QUICK_STOP_CMD
   | FAULT_REACTION_ACTIVE \<Rightarrow> CW_QUICK_STOP_CMD
   | FAULT \<Rightarrow> CW_FAULT_RESET_CMD
   | UNKNOWN \<Rightarrow> 0x0000)"

definition set_controlword :: "u16 \<Rightarrow> cia402_motor_t \<Rightarrow> cia402_motor_t" where
  "set_controlword w m = m\<lparr>mt_rxpdo := (mt_rxpdo m)\<lparr>rx_controlword := w\<rparr>\<rparr>"

definition cia402_init_motor :: "cia402_motor_t \<Rightarrow> u8 \<Rightarrow> cia402_motor_t" where
  "cia402_init_motor m mode_of_operation = m\<lparr>
     mt_rxpdo := \<lparr>rx_controlword = CW_FAULT_RESET_CMD, rx_target_velocity = 0, rx_mode_of_operation = mode_of_operation, rx_padding = 0\<rparr>,
     mt_state := NOT_READY_TO_SWITCH_ON, mt_faulted := False, mt_operation_enabled := False, mt_ec_connected := True, mt_step := 0\<rparr>"

definition cia402_lost_motor :: "cia402_motor_t \<Rightarrow> cia402_motor_t" where
  "cia402_lost_motor m = m\<lparr>
     mt_rxpdo := (mt_rxpdo m)\<lparr>rx_controlword := 0x0000, rx_target_velocity := 0, rx_padding := 0\<rparr>,
     mt_state := NOT_READY_TO_SWITCH_ON, mt_faulted := True, mt_operation_enabled := False, mt_ec_connected := False, mt_step := 0\<rparr>"

text \<open>A state that is left by a command: the command is sent when the motor has waited for 500 cycles.\<close>

definition waited_word :: "u16 \<Rightarrow> cia402_motor_t \<Rightarrow> cia402_motor_t" where
  "waited_word w m = (let m = m\<lparr>mt_faulted := False, mt_operation_enabled := False\<rparr> in
     if mt_step m \<ge> 500 then (set_controlword w m)\<lparr>mt_step := 0\<rparr> else m)"

text \<open>The control word and the state variables that the decoded state asks for.\<close>

definition assign_control :: "cia402_motor_t \<Rightarrow> cia402_motor_t" where
  "assign_control m = (let st = mt_state m in
     if st = UNKNOWN then (set_controlword 0x0000 m)\<lparr>mt_operation_enabled := False, mt_step := 0\<rparr>
     else if st = QUICK_STOP_ACTIVE \<or> st = FAULT_REACTION_ACTIVE
     then (set_controlword CW_QUICK_STOP_CMD m)\<lparr>mt_operation_enabled := False, mt_step := 0\<rparr>
     else let m =
         (if st = NOT_READY_TO_SWITCH_ON \<or> st = FAULT
          then (set_controlword CW_FAULT_RESET_CMD m)\<lparr>mt_faulted := True, mt_operation_enabled := False, mt_step := 0\<rparr>
          else if st = SW_ON_DISABLED then waited_word CW_SHUTDOWN_CMD m
          else if st = READY_TO_SWITCH_ON then waited_word CW_SWITCH_ON_CMD m
          else if st = SWITCHED_ON then waited_word CW_ENABLE_OP_CMD m
          else if st = OPERATION_ENABLED
          then (set_controlword CW_ENABLE_OP_CMD m)\<lparr>mt_faulted := False, mt_operation_enabled := True\<rparr>
          else m)
       in if mt_step m < 2000 then m\<lparr>mt_step := mt_step m + 1\<rparr> else m)"

definition cia402_state_machine :: "cia402_motor_t \<Rightarrow> cia402_motor_t" where
  "cia402_state_machine m = assign_control (m\<lparr>mt_state := cia402_decode_state (tx_statusword (mt_txpdo m))\<rparr>)"

section \<open>A reference drive\<close>

text \<open>
  \<open>dr_cw\<close> is the control word of the last cycle; \<open>dr_cause\<close> holds while the cause of a fault persists;
  \<open>dr_bits\<close> are the bits of the status word that do not code the state.
\<close>

record drive =
  dr_state :: CIA402_STATE
  dr_cw :: u16
  dr_cause :: bool
  dr_bits :: u16

text \<open>The state code; bit 5 is free where the standard leaves it open.\<close>

definition state_code :: "CIA402_STATE \<Rightarrow> u16" where
  "state_code st = (case st of
     NOT_READY_TO_SWITCH_ON \<Rightarrow> 0x00 | SW_ON_DISABLED \<Rightarrow> 0x40 | READY_TO_SWITCH_ON \<Rightarrow> 0x21 | SWITCHED_ON \<Rightarrow> 0x23
   | OPERATION_ENABLED \<Rightarrow> 0x27 | QUICK_STOP_ACTIVE \<Rightarrow> 0x07 | FAULT_REACTION_ACTIVE \<Rightarrow> 0x0F | FAULT \<Rightarrow> 0x08 | UNKNOWN \<Rightarrow> 0)"

definition bit5_open :: "CIA402_STATE \<Rightarrow> bool" where
  "bit5_open st \<longleftrightarrow> st = NOT_READY_TO_SWITCH_ON \<or> st = SW_ON_DISABLED \<or> st = FAULT_REACTION_ACTIVE \<or> st = FAULT"

definition drive_status :: "drive \<Rightarrow> u16" where
  "drive_status d = state_code (dr_state d) OR (dr_bits d AND NOT (if bit5_open (dr_state d) then 0x4F else 0x6F))"

text \<open>The commands of the control word; none of them is given while bit 7 is set.\<close>

definition cmd_shutdown :: "u16 \<Rightarrow> bool" where "cmd_shutdown w \<longleftrightarrow> w AND 0x87 = 0x06"
definition cmd_switch_on :: "u16 \<Rightarrow> bool" where "cmd_switch_on w \<longleftrightarrow> w AND 0x8F = 0x07"
definition cmd_enable :: "u16 \<Rightarrow> bool" where "cmd_enable w \<longleftrightarrow> w AND 0x8F = 0x0F"
definition cmd_disable_voltage :: "u16 \<Rightarrow> bool" where "cmd_disable_voltage w \<longleftrightarrow> w AND 0x82 = 0"
definition cmd_quick_stop :: "u16 \<Rightarrow> bool" where "cmd_quick_stop w \<longleftrightarrow> w AND 0x86 = 0x02"

definition drive_next :: "u16 \<Rightarrow> drive \<Rightarrow> CIA402_STATE" where
  "drive_next w d = (case dr_state d of
     NOT_READY_TO_SWITCH_ON \<Rightarrow> SW_ON_DISABLED
   | SW_ON_DISABLED \<Rightarrow> if cmd_shutdown w then READY_TO_SWITCH_ON else SW_ON_DISABLED
   | READY_TO_SWITCH_ON \<Rightarrow> if cmd_switch_on w \<or> cmd_enable w then SWITCHED_ON
       else if cmd_disable_voltage w \<or> cmd_quick_stop w then SW_ON_DISABLED else READY_TO_SWITCH_ON
   | SWITCHED_ON \<Rightarrow> if cmd_enable w then OPERATION_ENABLED else if cmd_shutdown w then READY_TO_SWITCH_ON
       else if cmd_disable_voltage w \<or> cmd_quick_stop w then SW_ON_DISABLED else SWITCHED_ON
   | OPERATION_ENABLED \<Rightarrow> if cmd_switch_on w then SWITCHED_ON else if cmd_shutdown w then READY_TO_SWITCH_ON
       else if cmd_disable_voltage w then SW_ON_DISABLED else if cmd_quick_stop w then QUICK_STOP_ACTIVE else OPERATION_ENABLED
   | QUICK_STOP_ACTIVE \<Rightarrow> SW_ON_DISABLED
   | FAULT_REACTION_ACTIVE \<Rightarrow> FAULT
   | FAULT \<Rightarrow> if w AND 0x80 \<noteq> 0 \<and> dr_cw d AND 0x80 = 0 \<and> \<not> dr_cause d then SW_ON_DISABLED else FAULT
   | UNKNOWN \<Rightarrow> UNKNOWN)"

definition drive_obey :: "u16 \<Rightarrow> drive \<Rightarrow> drive" where
  "drive_obey w d = d\<lparr>dr_state := drive_next w d, dr_cw := w\<rparr>"

text \<open>One cycle: the master reads the status word, and its control word reaches the drive.\<close>

definition motor_cycle :: "cia402_motor_t \<times> drive \<Rightarrow> cia402_motor_t \<times> drive" where
  "motor_cycle = (\<lambda>(m, d). let m = cia402_state_machine (m\<lparr>mt_txpdo := (mt_txpdo m)\<lparr>tx_statusword := drive_status d\<rparr>\<rparr>)
     in (m, drive_obey (rx_controlword (mt_rxpdo m)) d))"

text \<open>Between the cycles a fault may occur, its cause may disappear, and the connection may be lost.\<close>

inductive closed_loop :: "cia402_motor_t \<times> drive \<Rightarrow> cia402_motor_t \<times> drive \<Rightarrow> bool" where
  cycle: "closed_loop s (motor_cycle s)"
| trip: "dr_state d \<notin> {FAULT, FAULT_REACTION_ACTIVE} \<Longrightarrow>
    closed_loop (m, d) (m, d\<lparr>dr_state := FAULT_REACTION_ACTIVE, dr_cause := c\<rparr>)"
| repaired: "closed_loop (m, d) (m, d\<lparr>dr_cause := False\<rparr>)"
| lost: "closed_loop (m, d) (cia402_lost_motor m, d)"

inductive reached :: "cia402_motor_t \<times> drive \<Rightarrow> bool" where
  start: "dr_state d \<noteq> UNKNOWN \<Longrightarrow> reached (cia402_init_motor m mode, d)"
| step: "reached s \<Longrightarrow> closed_loop s t \<Longrightarrow> reached t"


section \<open>Decoding\<close>

lemma masked_status:
  fixes x b y z :: u16
  assumes "x AND z = x" "(b AND NOT y) AND z = 0"
  shows "(x OR (b AND NOT y)) AND z = x"
  unfolding bit.conj_disj_distrib2 by (simp only: assms or.right_neutral)

lemma state_code_masked: "state_code st AND SW_STATE_MASK = state_code st"
  by (cases st) (simp_all add: state_code_def)

lemma decode_state_code: "w AND SW_STATE_MASK = state_code st \<Longrightarrow> st \<noteq> UNKNOWN \<Longrightarrow> cia402_decode_state w = st"
  by (cases st) (simp_all add: cia402_decode_state_def state_code_def)

lemma bit5_masked:
  fixes b :: u16
  shows "(b AND NOT 0x6F) AND SW_STATE_MASK = 0" "(b AND NOT 0x4F) AND SW_STATE_MASK = b AND 0x20"
  by (simp_all add: and.assoc)

text \<open>The status word of a drive that does not use bit 5 is decoded to its state.\<close>

lemma decode_drive_status:
  assumes "dr_state d \<noteq> UNKNOWN" "bit5_open (dr_state d) \<Longrightarrow> dr_bits d AND 0x20 = 0"
  shows "cia402_decode_state (drive_status d) = dr_state d"
proof (rule decode_state_code)
  show "drive_status d AND SW_STATE_MASK = state_code (dr_state d)"
    unfolding drive_status_def using assms(2) bit5_masked state_code_masked
    by (intro masked_status) auto
qed (rule assms(1))

lemma bit_0x20: "bit (0x20 :: u16) n \<longleftrightarrow> n = 5"
  using bit_exp_iff [where 'a = "16 word", of 5 n] by auto

lemma and_0x20: "(b :: u16) AND 0x20 = (if bit b 5 then 0x20 else 0)"
  by (rule bit_word_eqI) (auto simp only: bit_and_iff bit_0x20 bit_0_eq if_split bot_apply bot_bool_def split: if_splits)

text \<open>With bit 5 set in a state where it is open the master does not know the state.\<close>

lemma decode_bit5:
  assumes "bit5_open (dr_state d)" "dr_bits d AND 0x20 \<noteq> 0"
  shows "cia402_decode_state (drive_status d) = UNKNOWN"
proof -
  have "dr_bits d AND 0x20 = 0x20" using assms(2) and_0x20 [of "dr_bits d"] by (auto split: if_splits)
  then have "drive_status d AND SW_STATE_MASK = state_code (dr_state d) OR 0x20"
    unfolding drive_status_def using assms(1) bit5_masked(2) [of "dr_bits d"] state_code_masked [of "dr_state d"]
    by (simp add: bit.conj_disj_distrib2)
  then show ?thesis
    using assms(1) by (cases "dr_state d") (simp_all add: cia402_decode_state_def bit5_open_def state_code_def)
qed


section \<open>The words that are sent\<close>

text \<open>
  \<open>cw\<close> and \<open>status\<close> are what master and drive say to each other; a cycle is described by the state of the drive at its
  beginning.
\<close>

abbreviation cw :: "cia402_motor_t \<Rightarrow> u16" where "cw m \<equiv> rx_controlword (mt_rxpdo m)"

definition sees :: "cia402_motor_t \<Rightarrow> drive \<Rightarrow> cia402_motor_t" where
  "sees m d = cia402_state_machine (m\<lparr>mt_txpdo := (mt_txpdo m)\<lparr>tx_statusword := drive_status d\<rparr>\<rparr>)"

lemma motor_cycle_sees: "motor_cycle (m, d) = (sees m d, drive_obey (cw (sees m d)) d)"
  by (simp add: motor_cycle_def sees_def Let_def)

definition sends :: "CIA402_STATE \<Rightarrow> cia402_motor_t \<Rightarrow> u16" where
  "sends st m = (case st of
     NOT_READY_TO_SWITCH_ON \<Rightarrow> CW_FAULT_RESET_CMD | FAULT \<Rightarrow> CW_FAULT_RESET_CMD
   | QUICK_STOP_ACTIVE \<Rightarrow> CW_QUICK_STOP_CMD | FAULT_REACTION_ACTIVE \<Rightarrow> CW_QUICK_STOP_CMD | UNKNOWN \<Rightarrow> 0
   | OPERATION_ENABLED \<Rightarrow> CW_ENABLE_OP_CMD
   | _ \<Rightarrow> if mt_step m \<ge> 500 then cia402_control_word st else cw m)"

lemma sees_control:
  "sees m d = assign_control (m\<lparr>mt_txpdo := (mt_txpdo m)\<lparr>tx_statusword := drive_status d\<rparr>, mt_state := cia402_decode_state (drive_status d)\<rparr>)"
  by (simp add: sees_def cia402_state_machine_def)

lemma assign_control_fields:
  "cw (assign_control m) = sends (mt_state m) m" "mt_operation_enabled (assign_control m) \<longleftrightarrow> mt_state m = OPERATION_ENABLED"
  "mt_operation_enabled (assign_control m) \<Longrightarrow> \<not> mt_faulted (assign_control m)"
  by (cases "mt_state m"; simp add: assign_control_def sends_def waited_word_def Let_def set_controlword_def cia402_control_word_def)+

lemma assign_control_step:
  "mt_state m \<in> {SW_ON_DISABLED, READY_TO_SWITCH_ON, SWITCHED_ON} \<Longrightarrow> unat (mt_step m) < 500 \<Longrightarrow> unat (mt_step (assign_control m)) = unat (mt_step m) + 1"
  "mt_state m \<in> {SW_ON_DISABLED, READY_TO_SWITCH_ON, SWITCHED_ON} \<Longrightarrow> 500 \<le> unat (mt_step m) \<Longrightarrow> mt_step (assign_control m) = 1"
  "mt_state m \<in> {NOT_READY_TO_SWITCH_ON, FAULT} \<Longrightarrow> mt_step (assign_control m) = 1"
  "mt_state m \<in> {QUICK_STOP_ACTIVE, FAULT_REACTION_ACTIVE, UNKNOWN} \<Longrightarrow> mt_step (assign_control m) = 0"
  by (cases "mt_state m"; simp add: assign_control_def waited_word_def Let_def set_controlword_def word_le_nat_alt word_less_nat_alt unat_word_ariths)+

lemma sends_update [simp]: "sends st (m\<lparr>mt_txpdo := x, mt_state := y\<rparr>) = sends st m"
  by (cases st) (simp_all add: sends_def)

lemma sees_fields:
  fixes m d defines "st \<equiv> cia402_decode_state (drive_status d)"
  shows "cw (sees m d) = sends st m" "mt_operation_enabled (sees m d) \<longleftrightarrow> st = OPERATION_ENABLED"
    "mt_operation_enabled (sees m d) \<Longrightarrow> \<not> mt_faulted (sees m d)"
  unfolding sees_control using assign_control_fields [of "m\<lparr>mt_txpdo := (mt_txpdo m)\<lparr>tx_statusword := drive_status d\<rparr>, mt_state := st\<rparr>"]
  by (simp_all add: st_def)

lemma sees_step:
  fixes m d defines "st \<equiv> cia402_decode_state (drive_status d)"
  shows "st \<in> {SW_ON_DISABLED, READY_TO_SWITCH_ON, SWITCHED_ON} \<Longrightarrow> unat (mt_step m) < 500 \<Longrightarrow> unat (mt_step (sees m d)) = unat (mt_step m) + 1"
    "st \<in> {SW_ON_DISABLED, READY_TO_SWITCH_ON, SWITCHED_ON} \<Longrightarrow> 500 \<le> unat (mt_step m) \<Longrightarrow> mt_step (sees m d) = 1"
    "st \<in> {NOT_READY_TO_SWITCH_ON, FAULT} \<Longrightarrow> mt_step (sees m d) = 1"
    "st \<in> {QUICK_STOP_ACTIVE, FAULT_REACTION_ACTIVE, UNKNOWN} \<Longrightarrow> mt_step (sees m d) = 0"
  unfolding sees_control using assign_control_step [of "m\<lparr>mt_txpdo := (mt_txpdo m)\<lparr>tx_statusword := drive_status d\<rparr>, mt_state := st\<rparr>"]
  by (simp_all add: st_def)


text \<open>What the drive does on the words of the master.\<close>

lemmas drive_cmds = cmd_shutdown_def cmd_switch_on_def cmd_enable_def cmd_disable_voltage_def cmd_quick_stop_def

lemma drive_obey_fields [simp]:
  "dr_state (drive_obey w d) = drive_next w d" "dr_cw (drive_obey w d) = w" "dr_bits (drive_obey w d) = dr_bits d"
  "dr_cause (drive_obey w d) = dr_cause d"
  by (simp_all add: drive_obey_def)

section \<open>Only the next state is asked for\<close>

text \<open>The words that may stand while the drive is in a state: 0 and 0x80 are no command that enables anything.\<close>

definition word_fits :: "cia402_motor_t \<times> drive \<Rightarrow> bool" where
  "word_fits = (\<lambda>(m, d). (case dr_state d of
     SW_ON_DISABLED \<Rightarrow> cw m \<in> {0, 0x80, CW_QUICK_STOP_CMD}
   | READY_TO_SWITCH_ON \<Rightarrow> cw m \<in> {0, 0x80, CW_SHUTDOWN_CMD}
   | SWITCHED_ON \<Rightarrow> cw m \<in> {0, 0x80, CW_SWITCH_ON_CMD}
   | OPERATION_ENABLED \<Rightarrow> cw m \<in> {0, 0x80, CW_ENABLE_OP_CMD}
   | UNKNOWN \<Rightarrow> False
   | _ \<Rightarrow> True))"

text \<open>The state that the master sees is the one of the drive, or it sees none.\<close>

lemma seen_state:
  assumes "dr_state d \<noteq> UNKNOWN"
  shows "cia402_decode_state (drive_status d) = (if bit5_open (dr_state d) \<and> dr_bits d AND 0x20 \<noteq> 0 then UNKNOWN else dr_state d)"
  using decode_drive_status [OF assms] decode_bit5 [of d] by auto

lemma motor_cycle_fits:
  assumes "word_fits (m, d)"
  shows "word_fits (motor_cycle (m, d))"
proof -
  have "dr_state d \<noteq> UNKNOWN" using assms by (auto simp: word_fits_def)
  note seen = seen_state [OF this]
  show ?thesis
    using assms unfolding motor_cycle_sees word_fits_def prod.case drive_obey_fields sees_fields(1) seen
    by (cases "dr_state d") (auto simp: sends_def bit5_open_def drive_next_def drive_cmds cia402_control_word_def split: if_splits)
qed

lemma closed_loop_fits: "closed_loop s t \<Longrightarrow> word_fits s \<Longrightarrow> word_fits t"
proof (induction rule: closed_loop.induct)
  case (cycle s)
  then show ?case using motor_cycle_fits by (cases s) simp
next
  case (lost m d)
  then show ?case by (cases "dr_state d") (auto simp: word_fits_def cia402_lost_motor_def)
qed (auto simp: word_fits_def split: CIA402_STATE.splits)

lemma reached_fits: "reached s \<Longrightarrow> word_fits s"
proof (induction rule: reached.induct)
  case (start d m mode)
  then show ?case by (cases "dr_state d") (auto simp: word_fits_def cia402_init_motor_def)
qed (rule closed_loop_fits)

lemma enable_only_switched_on:
  assumes "reached (m, d)" "motor_cycle (m, d) = (m', d')"
  shows "cw m' = CW_ENABLE_OP_CMD \<Longrightarrow> dr_state d \<in> {SWITCHED_ON, OPERATION_ENABLED}"
    "mt_operation_enabled m' \<Longrightarrow> dr_state d = OPERATION_ENABLED \<and> \<not> mt_faulted m'"
proof -
  have fits: "word_fits (m, d)" using reached_fits [OF assms(1)] .
  then have "dr_state d \<noteq> UNKNOWN" by (auto simp: word_fits_def)
  note seen = seen_state [OF this]
  have m': "m' = sees m d" using assms(2) by (simp add: motor_cycle_sees)
  show "cw m' = CW_ENABLE_OP_CMD \<Longrightarrow> dr_state d \<in> {SWITCHED_ON, OPERATION_ENABLED}"
    using fits unfolding m' sees_fields(1) seen word_fits_def
    by (cases "dr_state d") (auto simp: sends_def bit5_open_def cia402_control_word_def split: if_splits)
  show "mt_operation_enabled m' \<Longrightarrow> dr_state d = OPERATION_ENABLED \<and> \<not> mt_faulted m'"
    using sees_fields(2,3) [of m d] unfolding m' seen by (auto split: if_splits)
qed

section \<open>Enabling a drive\<close>

abbreviation after :: "nat \<Rightarrow> cia402_motor_t \<times> drive \<Rightarrow> cia402_motor_t \<times> drive" where
  "after n \<equiv> motor_cycle ^^ n"

text \<open>A drive whose status word can be read and whose fault can be reset.\<close>

definition able :: "cia402_motor_t \<times> drive \<Rightarrow> bool" where
  "able = (\<lambda>(m, d). word_fits (m, d) \<and> dr_bits d AND 0x20 = 0 \<and> \<not> dr_cause d \<and> (dr_state d = FAULT \<longrightarrow> dr_cw d AND 0x80 = 0) \<and>
     (dr_state d \<in> {READY_TO_SWITCH_ON, SWITCHED_ON} \<longrightarrow> cw m \<noteq> 0))"

lemma fits_known: "word_fits (m, d) \<Longrightarrow> dr_state d \<noteq> UNKNOWN"
  by (auto simp: word_fits_def)

lemma able_seen: "able (m, d) \<Longrightarrow> cia402_decode_state (drive_status d) = dr_state d"
  using seen_state [OF fits_known, of m d] by (simp add: able_def)

text \<open>One cycle from each state.\<close>

lemma cycle_waits:
  assumes "able (m, d)" "dr_state d \<in> {SW_ON_DISABLED, READY_TO_SWITCH_ON, SWITCHED_ON}" "unat (mt_step m) < 500"
  shows "able (motor_cycle (m, d)) \<and> dr_state (snd (motor_cycle (m, d))) = dr_state d \<and>
    unat (mt_step (fst (motor_cycle (m, d)))) = unat (mt_step m) + 1"
proof -
  have fits: "word_fits (m, d)" using assms(1) by (simp add: able_def)
  have early: "\<not> 500 \<le> mt_step m" using assms(3) by (simp add: word_le_nat_alt)
  have w: "dr_state d = SW_ON_DISABLED \<Longrightarrow> cw m \<in> {0, 0x80, CW_QUICK_STOP_CMD}" "dr_state d = READY_TO_SWITCH_ON \<Longrightarrow> cw m \<in> {0x80, CW_SHUTDOWN_CMD}"
    "dr_state d = SWITCHED_ON \<Longrightarrow> cw m \<in> {0x80, CW_SWITCH_ON_CMD}"
    using assms(1) by (simp_all add: able_def word_fits_def) blast+
  have same: "sends (dr_state d) m = cw m" using assms(2) early by (auto simp: sends_def)
  have st: "dr_state (snd (motor_cycle (m, d))) = dr_state d"
    unfolding motor_cycle_sees snd_conv drive_obey_fields sees_fields(1) able_seen [OF assms(1)] same
    using assms(2) w by (elim insertE emptyE) (auto simp: drive_next_def drive_cmds)
  moreover have "cw (sees m d) = cw m"
    unfolding sees_fields(1) able_seen [OF assms(1)] by (rule same)
  then have "able (motor_cycle (m, d))"
    using motor_cycle_fits [OF fits] assms(1,2) st unfolding able_def motor_cycle_sees by auto
  ultimately show ?thesis
    using sees_step(1) [of d m] assms(2,3) able_seen [OF assms(1)] by (simp add: motor_cycle_sees)
qed

definition next_up :: "CIA402_STATE \<Rightarrow> CIA402_STATE" where
  "next_up st = (case st of
     SW_ON_DISABLED \<Rightarrow> READY_TO_SWITCH_ON | READY_TO_SWITCH_ON \<Rightarrow> SWITCHED_ON | SWITCHED_ON \<Rightarrow> OPERATION_ENABLED
   | OPERATION_ENABLED \<Rightarrow> OPERATION_ENABLED | FAULT_REACTION_ACTIVE \<Rightarrow> FAULT | _ \<Rightarrow> SW_ON_DISABLED)"

lemma cycle_moves:
  assumes "able (m, d)" "dr_state d \<in> {SW_ON_DISABLED, READY_TO_SWITCH_ON, SWITCHED_ON} \<longrightarrow> 500 \<le> unat (mt_step m)"
  shows "able (motor_cycle (m, d)) \<and> dr_state (snd (motor_cycle (m, d))) = next_up (dr_state d) \<and>
    (dr_state d \<noteq> OPERATION_ENABLED \<longrightarrow> unat (mt_step (fst (motor_cycle (m, d)))) \<le> 1) \<and>
    (dr_state d \<notin> {OPERATION_ENABLED, QUICK_STOP_ACTIVE, FAULT_REACTION_ACTIVE} \<longrightarrow> unat (mt_step (fst (motor_cycle (m, d)))) = 1)"
proof -
  have fits: "word_fits (m, d)" using assms(1) by (simp add: able_def)
  have st: "dr_state (snd (motor_cycle (m, d))) = next_up (dr_state d)"
    using assms unfolding motor_cycle_sees snd_conv drive_obey_fields sees_fields(1) able_seen [OF assms(1)]
    by (cases "dr_state d") (auto simp: able_def word_fits_def sends_def drive_next_def drive_cmds word_le_nat_alt cia402_control_word_def next_up_def)
  moreover have "able (motor_cycle (m, d))"
  proof -
    have "dr_cw (snd (motor_cycle (m, d))) AND 0x80 = 0" if "next_up (dr_state d) = FAULT"
      using that able_seen [OF assms(1)] by (cases "dr_state d") (simp_all add: next_up_def motor_cycle_sees sees_fields(1) sends_def)
    moreover have "cw (sees m d) \<noteq> 0" if "next_up (dr_state d) \<in> {READY_TO_SWITCH_ON, SWITCHED_ON}"
      using that assms(2) unfolding sees_fields(1) able_seen [OF assms(1)]
      by (cases "dr_state d") (auto simp: next_up_def sends_def cia402_control_word_def word_le_nat_alt)
    ultimately show ?thesis
      using motor_cycle_fits [OF fits] assms(1) st unfolding able_def motor_cycle_sees by auto
  qed
  moreover have "dr_state d \<noteq> UNKNOWN" using fits by (auto simp: word_fits_def)
  ultimately show ?thesis
    using sees_step(2-4) [of d m] assms(2) unfolding able_seen [OF assms(1)] by (cases "dr_state d") (auto simp: motor_cycle_sees)
qed

lemma after_waits:
  assumes "able s" "dr_state (snd s) \<in> {SW_ON_DISABLED, READY_TO_SWITCH_ON, SWITCHED_ON}"
  shows "\<exists>n. n \<le> Suc (500 - unat (mt_step (fst s))) \<and> able (after n s) \<and> dr_state (snd (after n s)) = next_up (dr_state (snd s)) \<and>
    unat (mt_step (fst (after n s))) = 1"
  using assms
proof (induction "500 - unat (mt_step (fst s))" arbitrary: s)
  case 0
  then show ?case using cycle_moves [of "fst s" "snd s"] by (intro exI [of _ 1]) auto
next
  case (Suc k)
  have w: "able (motor_cycle s)" "dr_state (snd (motor_cycle s)) = dr_state (snd s)"
    "unat (mt_step (fst (motor_cycle s))) = unat (mt_step (fst s)) + 1"
    using cycle_waits [of "fst s" "snd s"] Suc.prems Suc.hyps(2) by auto
  then have k: "k = 500 - unat (mt_step (fst (motor_cycle s)))" using Suc.hyps(2) by simp
  from Suc.hyps(1) [OF k w(1)] w(2) Suc.prems(2) k obtain n where "n \<le> Suc k" "able (after n (motor_cycle s))"
    "dr_state (snd (after n (motor_cycle s))) = next_up (dr_state (snd s))" "unat (mt_step (fst (after n (motor_cycle s)))) = 1"
    by metis
  then show ?case using Suc.hyps(2) by (intro exI [of _ "Suc n"]) (simp add: funpow_swap1)
qed

text \<open>From one state to the next one within \<open>b\<close> cycles, in sequence.\<close>

definition climbs :: "nat \<Rightarrow> cia402_motor_t \<times> drive \<Rightarrow> bool" where
  "climbs b s \<longleftrightarrow> (\<exists>n \<le> b. able (after n s) \<and> dr_state (snd (after n s)) = OPERATION_ENABLED)"

lemma climbs_later: "climbs b (after n s) \<Longrightarrow> climbs (n + b) s"
  unfolding climbs_def by (metis add.commute add_le_cancel_left comp_apply funpow_add)

lemma climbs_mono: "climbs b s \<Longrightarrow> b \<le> c \<Longrightarrow> climbs c s"
  unfolding climbs_def by (meson le_trans)

lemma climbs_wait:
  assumes "able s" "dr_state (snd s) \<in> {SW_ON_DISABLED, READY_TO_SWITCH_ON, SWITCHED_ON}"
    and "\<And>t. able t \<Longrightarrow> dr_state (snd t) = next_up (dr_state (snd s)) \<Longrightarrow> unat (mt_step (fst t)) = 1 \<Longrightarrow> climbs b t"
  shows "climbs (Suc (500 - unat (mt_step (fst s))) + b) s"
proof -
  obtain n where "n \<le> Suc (500 - unat (mt_step (fst s)))" "able (after n s)" "dr_state (snd (after n s)) = next_up (dr_state (snd s))"
    "unat (mt_step (fst (after n s))) = 1"
    using after_waits [OF assms(1,2)] by blast
  then show ?thesis using assms(3) [of "after n s"] by (meson climbs_later climbs_mono add_le_mono1)
qed

lemma climbs_enabled: "able s \<Longrightarrow> dr_state (snd s) = OPERATION_ENABLED \<Longrightarrow> climbs 0 s"
  by (simp add: climbs_def)

lemma climbs_states:
  assumes "able s"
  shows "dr_state (snd s) = SWITCHED_ON \<Longrightarrow> climbs (501 - min 1 (unat (mt_step (fst s)))) s"
    and "dr_state (snd s) = READY_TO_SWITCH_ON \<Longrightarrow> climbs (1001 - min 1 (unat (mt_step (fst s)))) s"
    and "dr_state (snd s) = SW_ON_DISABLED \<Longrightarrow> climbs (1501 - min 1 (unat (mt_step (fst s)))) s"
proof -
  have 1: "climbs (501 - min 1 (unat (mt_step (fst s)))) s" if "able s" "dr_state (snd s) = SWITCHED_ON" for s
  proof -
    have "climbs (Suc (500 - unat (mt_step (fst s))) + 0) s"
      using climbs_wait [OF that(1), of 0] climbs_enabled that(2) by (simp add: next_up_def)
    then show ?thesis by (rule climbs_mono) arith
  qed
  have 2: "climbs (1001 - min 1 (unat (mt_step (fst s)))) s" if "able s" "dr_state (snd s) = READY_TO_SWITCH_ON" for s
  proof -
    have "climbs 500 t" if "able t" "dr_state (snd t) = SWITCHED_ON" "unat (mt_step (fst t)) = 1" for t
      using 1 [OF that(1,2)] that(3) by (simp add: min_def)
    then have "climbs (Suc (500 - unat (mt_step (fst s))) + 500) s"
      using climbs_wait [OF that(1), of 500] that(2) by (simp add: next_up_def)
    then show ?thesis by (rule climbs_mono) arith
  qed
  show "dr_state (snd s) = SWITCHED_ON \<Longrightarrow> climbs (501 - min 1 (unat (mt_step (fst s)))) s"
    "dr_state (snd s) = READY_TO_SWITCH_ON \<Longrightarrow> climbs (1001 - min 1 (unat (mt_step (fst s)))) s"
    using 1 2 assms by blast+
  assume d: "dr_state (snd s) = SW_ON_DISABLED"
  have "climbs 1000 t" if "able t" "dr_state (snd t) = READY_TO_SWITCH_ON" "unat (mt_step (fst t)) = 1" for t
    using 2 [OF that(1,2)] that(3) by (simp add: min_def)
  then have "climbs (Suc (500 - unat (mt_step (fst s))) + 1000) s"
    using climbs_wait [OF assms, of 1000] d by (simp add: next_up_def)
  then show "climbs (1501 - min 1 (unat (mt_step (fst s)))) s" by (rule climbs_mono) arith
qed

lemma climbs_cycle: "climbs b (motor_cycle s) \<Longrightarrow> climbs (Suc b) s"
  using climbs_later [of b 1 s] by simp

lemma climbs_any:
  assumes "able (m, d)"
  shows "climbs 1503 (m, d)"
proof -
  note st = climbs_states [of "(m, d)"] and mv = cycle_moves [of m d]
  have on: "climbs 1501 (m, d)" if "able (m, d)" "dr_state d = SW_ON_DISABLED" for m d
    using climbs_states(3) [of "(m, d)"] that by (auto elim: climbs_mono)
  have up: "climbs 1502 (m, d)" if "able (m, d)" "dr_state d \<in> {NOT_READY_TO_SWITCH_ON, QUICK_STOP_ACTIVE, FAULT}" for m d
    using cycle_moves [of m d] on [of "fst (motor_cycle (m, d))" "snd (motor_cycle (m, d))"] that climbs_cycle [of 1501 "(m, d)"]
    by (auto simp: next_up_def)
  have "dr_state d \<noteq> UNKNOWN" using assms fits_known by (auto simp: able_def)
  then consider "dr_state d = OPERATION_ENABLED" | "dr_state d = SW_ON_DISABLED" | "dr_state d \<in> {NOT_READY_TO_SWITCH_ON, QUICK_STOP_ACTIVE, FAULT}"
    | "dr_state d = READY_TO_SWITCH_ON" | "dr_state d = SWITCHED_ON" | "dr_state d = FAULT_REACTION_ACTIVE"
    by (cases "dr_state d") auto
  then show ?thesis
  proof cases
    case 6
    then have "able (motor_cycle (m, d))" "dr_state (snd (motor_cycle (m, d))) = FAULT" using mv assms by (simp_all add: next_up_def)
    then show ?thesis
      using up [of "fst (motor_cycle (m, d))" "snd (motor_cycle (m, d))"] climbs_cycle [of 1502 "(m, d)"] by simp
  next
    case 1
    then show ?thesis using climbs_enabled [of "(m, d)"] assms by (auto elim: climbs_mono)
  next
    case 2
    then show ?thesis using on [OF assms] by (auto elim: climbs_mono)
  next
    case 3
    then show ?thesis using up [OF assms] by (auto elim: climbs_mono)
  qed (use st assms in \<open>auto elim: climbs_mono\<close>)
qed

text \<open>A drive that is enabled stays so.\<close>

lemma stays_enabled:
  assumes "able s" "dr_state (snd s) = OPERATION_ENABLED"
  shows "able (after k s) \<and> dr_state (snd (after k s)) = OPERATION_ENABLED \<and> (0 < k \<longrightarrow> mt_operation_enabled (fst (after k s)))"
proof (induction k)
  case (Suc k)
  obtain m d where s: "after k s = (m, d)" by (metis surj_pair)
  then have a: "able (m, d)" "dr_state d = OPERATION_ENABLED" using Suc by auto
  then show ?case using cycle_moves [OF a(1)] sees_fields(2) [of m d] able_seen [OF a(1)]
    by (simp add: s next_up_def) (simp add: motor_cycle_sees)
qed (use assms in simp)

lemma drive_gets_enabled:
  assumes "able s"
  shows "\<exists>n \<le> 1503. \<forall>k. dr_state (snd (after (n + k) s)) = OPERATION_ENABLED \<and> (0 < k \<longrightarrow> mt_operation_enabled (fst (after (n + k) s)))"
proof -
  have "climbs 1503 s" using climbs_any assms by (cases s) simp
  then obtain n where n: "n \<le> 1503" "able (after n s)" "dr_state (snd (after n s)) = OPERATION_ENABLED" by (auto simp: climbs_def)
  have "after (n + k) s = after k (after n s)" for k by (simp add: funpow_add add.commute [of n])
  then show ?thesis using n stays_enabled [OF n(2,3)] by (intro exI [of _ n]) simp
qed

section \<open>Faults that are never reset\<close>

definition stuck :: "drive \<Rightarrow> bool" where
  "stuck d \<longleftrightarrow> dr_state d = FAULT \<and> (if dr_bits d AND 0x20 = 0 then dr_cw d AND 0x80 \<noteq> 0 else True)"

lemma stuck_cycle: "stuck d \<Longrightarrow> stuck (snd (motor_cycle (m, d)))"
  using seen_state [of d] unfolding stuck_def motor_cycle_sees snd_conv drive_obey_fields sees_fields(1)
  by (auto simp: sends_def drive_next_def bit5_open_def)

lemma stuck_forever: "stuck d \<Longrightarrow> stuck (snd (after n (m, d)))"
proof (induction n)
  case (Suc n)
  then show ?case using stuck_cycle [of "snd (after n (m, d))" "fst (after n (m, d))"] by simp
qed simp

text \<open>After a loss of the connection the word 0 may stand; it takes the drive down in one cycle.\<close>

lemma able_after_zero:
  assumes "word_fits (m, d)" "dr_bits d AND 0x20 = 0" "\<not> dr_cause d" "cw m = 0" "dr_state d \<in> {READY_TO_SWITCH_ON, SWITCHED_ON}"
  shows "able (motor_cycle (m, d))"
proof -
  have "cia402_decode_state (drive_status d) = dr_state d" using seen_state [of d] assms(2,5) by auto
  then have w: "cw (sees m d) = (if 500 \<le> mt_step m then cia402_control_word (dr_state d) else 0)"
    unfolding sees_fields(1) using assms(4,5) by (auto simp: sends_def)
  then have "dr_state (snd (motor_cycle (m, d))) = (if 500 \<le> mt_step m then next_up (dr_state d) else SW_ON_DISABLED)"
    unfolding motor_cycle_sees snd_conv drive_obey_fields using assms(5)
    by (elim insertE emptyE) (simp_all add: drive_next_def drive_cmds next_up_def cia402_control_word_def)
  moreover have "cw (fst (motor_cycle (m, d))) \<noteq> 0" if "500 \<le> mt_step m"
    using that w assms(5) unfolding motor_cycle_sees fst_conv by (auto simp: cia402_control_word_def)
  ultimately show ?thesis
    using motor_cycle_fits [OF assms(1)] assms(2,3,5) unfolding able_def motor_cycle_sees by (auto simp: next_up_def split: if_splits)
qed

lemma reached_gets_enabled:
  assumes "reached (m, d)" "dr_bits d AND 0x20 = 0" "\<not> dr_cause d" "dr_state d = FAULT \<longrightarrow> dr_cw d AND 0x80 = 0"
  shows "\<exists>n \<le> 1504. \<forall>k. dr_state (snd (after (n + k) (m, d))) = OPERATION_ENABLED \<and>
    (0 < k \<longrightarrow> mt_operation_enabled (fst (after (n + k) (m, d))))"
proof (cases "able (m, d)")
  case True
  have "n \<le> 1503 \<Longrightarrow> n \<le> 1504" for n :: nat by simp
  then show ?thesis using drive_gets_enabled [OF True] by meson
next
  case False
  have fits: "word_fits (m, d)" by (rule reached_fits [OF assms(1)])
  then have "able (motor_cycle (m, d))" using False assms(2-4) by (intro able_after_zero) (auto simp: able_def)
  from drive_gets_enabled [OF this] obtain n where "n \<le> 1503"
    "\<forall>k. dr_state (snd (after (n + k) (motor_cycle (m, d)))) = OPERATION_ENABLED \<and> (0 < k \<longrightarrow> mt_operation_enabled (fst (after (n + k) (motor_cycle (m, d)))))"
    by blast
  moreover have "after (Suc n + k) (m, d) = after (n + k) (motor_cycle (m, d))" for k by (simp only: add_Suc funpow_Suc_right o_apply)
  ultimately show ?thesis by (intro exI [of _ "Suc n"]) (simp only:, simp)
qed

section \<open>Properties\<close>

text \<open>
  C9: from every situation that the closed loop of master and drive reaches (trips and losses of the connection included),
  a drive whose status word can be read and whose fault can be reset is in operation enabled after at most 1504 cycles,
  and stays there; the master knows it from the next cycle on.
\<close>

theorem cia402_enables_drive:
  assumes "reached (m, d)" "dr_bits d AND 0x20 = 0" "\<not> dr_cause d" "dr_state d = FAULT \<longrightarrow> dr_cw d AND 0x80 = 0"
  shows "\<exists>n \<le> 1504. \<forall>k. dr_state (snd ((motor_cycle ^^ (n + k)) (m, d))) = OPERATION_ENABLED \<and>
    (0 < k \<longrightarrow> mt_operation_enabled (fst ((motor_cycle ^^ (n + k)) (m, d))))"
  using assms by (rule reached_gets_enabled)

definition idle_motor :: cia402_motor_t where
  "idle_motor = \<lparr>mt_state = UNKNOWN, mt_rxpdo = \<lparr>rx_controlword = 0, rx_target_velocity = 0, rx_mode_of_operation = 0, rx_padding = 0\<rparr>,
     mt_txpdo = \<lparr>tx_statusword = 0, tx_actual_position = 0, tx_actual_velocity = 0, tx_actual_torque = 0\<rparr>, mt_step = 0,
     mt_faulted = False, mt_operation_enabled = False, mt_ec_connected = False\<rparr>"

definition idle_drive :: "CIA402_STATE \<Rightarrow> u16 \<Rightarrow> drive" where
  "idle_drive st w = \<lparr>dr_state = st, dr_cw = w, dr_cause = False, dr_bits = 0x0210\<rparr>"

theorem cia402_enables_drive_witness:
  "\<exists>n \<le> 1504. dr_state (snd ((motor_cycle ^^ n) (cia402_lost_motor (cia402_init_motor idle_motor 9), (idle_drive FAULT_REACTION_ACTIVE 0)))) = OPERATION_ENABLED"
proof -
  have "reached (cia402_init_motor idle_motor 9, idle_drive FAULT_REACTION_ACTIVE 0)" by (rule reached.start) (simp add: idle_drive_def)
  then have "reached (cia402_lost_motor (cia402_init_motor idle_motor 9), idle_drive FAULT_REACTION_ACTIVE 0)"
    by (rule reached.step) (rule closed_loop.lost)
  from cia402_enables_drive [OF this] show ?thesis by (simp add: idle_drive_def) (metis add.right_neutral)
qed

text \<open>
  C12: no state is skipped: in every situation that is reached, the master commands the operation only when the drive
  was switched on, and it takes a motor for enabled only when the drive is, and then not for faulted.
\<close>

theorem cia402_enable_only_switched_on:
  assumes "reached (m, d)" "motor_cycle (m, d) = (m', d')"
  shows "(rx_controlword (mt_rxpdo m') = CW_ENABLE_OP_CMD \<longrightarrow> dr_state d \<in> {SWITCHED_ON, OPERATION_ENABLED}) \<and>
    (mt_operation_enabled m' \<longrightarrow> dr_state d = OPERATION_ENABLED \<and> \<not> mt_faulted m')"
  using enable_only_switched_on [OF assms] by blast

theorem cia402_enable_only_switched_on_witness:
  "rx_controlword (mt_rxpdo (fst (motor_cycle (cia402_init_motor idle_motor 9, idle_drive SW_ON_DISABLED 0)))) \<noteq> CW_ENABLE_OP_CMD"
proof -
  have r: "reached (cia402_init_motor idle_motor 9, idle_drive SW_ON_DISABLED 0)" by (rule reached.start) (simp add: idle_drive_def)
  show ?thesis
    using cia402_enable_only_switched_on [OF r, of "fst (motor_cycle (cia402_init_motor idle_motor 9, idle_drive SW_ON_DISABLED 0))"]
    by (auto simp: idle_drive_def prod_eq_iff)
qed

text \<open>
  C37: a fault is never reset when the drive already has the reset bit of the control word (it was sent while the
  cause persisted, and there is no new rising edge), and never when the drive sets bit 5 of its status word with the fault,
  which the standard leaves open; that the cause has disappeared does not help.
\<close>

theorem cia402_fault_never_reset:
  assumes "dr_state d = FAULT" "dr_cw d AND 0x80 \<noteq> 0 \<or> dr_bits d AND 0x20 \<noteq> 0"
  shows "dr_state (snd ((motor_cycle ^^ n) (m, d))) = FAULT"
  using stuck_forever [of d n m] assms by (auto simp: stuck_def)

theorem cia402_fault_never_reset_witness:
  "dr_state (snd ((motor_cycle ^^ 1000000) (cia402_init_motor idle_motor 9, idle_drive FAULT 0x80))) = FAULT"
  by (rule cia402_fault_never_reset) (simp_all add: idle_drive_def)

end
