(* ===== verification/Realtime.thy ===== *)
theory Realtime
  imports Config ProcessData Cia402
begin

text \<open>
  What the control programs have in common (\<open>demo/eRob_CSV.cpp\<close>; the other programs contain the same code):
  the synchronisation of the cycle with the distributed clock, the time of the next cycle, the thread that
  checks the states of the slaves, and the cycle itself, which receives the process data, lets the program work on it, and
  sends it.

  Times are unbounded integers; the \<open>int64\<close> of the source stay far from their limits. \<open>%\<close> and \<open>/\<close> round towards zero. The
  work of a program is an argument of \<open>rt_cycle\<close>, with what the programs promise in the locale \<open>rt_program\<close>.
\<close>

section \<open>Time\<close>

record timespec =
  tv_sec :: int
  tv_nsec :: int

abbreviation (input) NSEC_PER_SEC :: int where "NSEC_PER_SEC \<equiv> 1000000000"

text \<open>\<open>sy_integral\<close> is the static variable of \<open>ec_sync\<close>, \<open>sy_delta\<close> the global \<open>gl_delta\<close>.\<close>

record sync_t =
  sy_integral :: int
  sy_delta :: int

definition ec_sync :: "int \<Rightarrow> int \<Rightarrow> sync_t \<Rightarrow> (int \<times> sync_t) option" where
  "ec_sync reftime cycletime y = do {
     chk (cycletime \<noteq> 0);
     let delta = reftime smod cycletime;
     let delta = (if delta > cycletime sdiv 2 then delta - cycletime else delta);
     let integral = (if delta > 0 then sy_integral y + 1 else sy_integral y);
     let integral = (if delta < 0 then integral - 1 else integral);
     Some (- (delta sdiv 100) - (integral sdiv 20), \<lparr>sy_integral = integral, sy_delta = delta\<rparr>) }"

definition add_timespec :: "int \<Rightarrow> timespec \<Rightarrow> timespec" where
  "add_timespec addtime ts = (let
     nsec = addtime smod NSEC_PER_SEC;
     sec = (addtime - nsec) sdiv NSEC_PER_SEC;
     ts = ts\<lparr>tv_sec := tv_sec ts + sec, tv_nsec := tv_nsec ts + nsec\<rparr>
   in if tv_nsec ts \<ge> NSEC_PER_SEC
      then let nsec = tv_nsec ts smod NSEC_PER_SEC
        in ts\<lparr>tv_sec := tv_sec ts + (tv_nsec ts - nsec) sdiv NSEC_PER_SEC, tv_nsec := nsec\<rparr>
      else ts)"

text \<open>The next full millisecond.\<close>

definition next_ms :: "timespec \<Rightarrow> timespec" where
  "next_ms ts = (let ts = ts\<lparr>tv_nsec := (tv_nsec ts sdiv 1000000 + 1) * 1000000\<rparr>
     in if tv_nsec ts \<ge> NSEC_PER_SEC then ts\<lparr>tv_sec := tv_sec ts + 1, tv_nsec := tv_nsec ts - NSEC_PER_SEC\<rparr> else ts)"

abbreviation (input) MAX_MISSED_CYCLES :: int where "MAX_MISSED_CYCLES \<equiv> 10"

text \<open>
  The wait for the next cycle: \<open>slept\<close> tells whether the sleep was not interrupted, \<open>clock\<close> is what the clock says then.
  The results are the time of the cycle and the number of cycles missed in a row.
\<close>

definition pace :: "int \<Rightarrow> int \<Rightarrow> bool \<Rightarrow> timespec \<Rightarrow> timespec \<times> int \<Rightarrow> timespec \<times> int" where
  "pace cycletime toff slept clock = (\<lambda>(ts, missed_cycles). let ts = add_timespec (cycletime + toff) ts in
     if \<not> slept
     then let missed_cycles = missed_cycles + 1
       in if missed_cycles \<ge> MAX_MISSED_CYCLES then (next_ms clock, 0) else (ts, missed_cycles)
     else (ts, 0))"

abbreviation nanoseconds :: "timespec \<Rightarrow> int" where
  "nanoseconds ts \<equiv> tv_sec ts * NSEC_PER_SEC + tv_nsec ts"

text \<open>Division that rounds towards zero.\<close>

lemma smod_range: "0 < b \<Longrightarrow> - b < a smod b \<and> a smod b < (b :: int)"
  using smod_int_range [of b a] by auto

lemma smod_exact: "0 < b \<Longrightarrow> ((a - a smod b) sdiv b) * b = a - a smod (b :: int)"
  unfolding minus_smod_eq_sdiv_mult
  by (cases "a sdiv b" "0 :: int" rule: linorder_cases) (simp_all add: signed_divide_int_def [of "_ * b"] abs_mult sgn_mult)

lemma sdiv_abs_le:
  assumes "0 < b"
  shows "\<bar>a sdiv b\<bar> = \<bar>a\<bar> div (b :: int)"
proof -
  have "0 \<le> \<bar>a\<bar> div b" using pos_imp_zdiv_nonneg_iff [OF assms, of "\<bar>a\<bar>"] by simp
  then show ?thesis using assms by (cases a "0 :: int" rule: linorder_cases) (simp_all add: signed_divide_int_def)
qed

lemma add_timespec_exact: "nanoseconds (add_timespec addtime ts) = nanoseconds ts + addtime"
  using smod_exact [of NSEC_PER_SEC addtime] smod_exact [of NSEC_PER_SEC "tv_nsec ts + addtime smod NSEC_PER_SEC"]
  by (auto simp: add_timespec_def Let_def)

lemma add_timespec_normal:
  assumes "0 \<le> tv_nsec ts" "tv_nsec ts < NSEC_PER_SEC"
  shows "tv_nsec (add_timespec addtime ts) < NSEC_PER_SEC"
    "0 \<le> tv_nsec (add_timespec addtime ts) \<longleftrightarrow> 0 \<le> tv_nsec ts + addtime smod NSEC_PER_SEC"
  using assms smod_range [of NSEC_PER_SEC addtime] smod_range [of NSEC_PER_SEC "tv_nsec ts + addtime smod NSEC_PER_SEC"]
  by (auto simp: add_timespec_def Let_def smod_mod_positive)

lemma next_ms_rounds:
  assumes "0 \<le> tv_nsec ts" "tv_nsec ts < NSEC_PER_SEC"
  shows "nanoseconds (next_ms ts) = (nanoseconds ts div 1000000 + 1) * 1000000"
    "0 \<le> tv_nsec (next_ms ts)" "tv_nsec (next_ms ts) < NSEC_PER_SEC"
proof -
  have d: "tv_nsec ts sdiv 1000000 = tv_nsec ts div 1000000"
    using assms(1) by (simp add: signed_divide_int_def sgn_if)
  have "nanoseconds ts div 1000000 = tv_sec ts * 1000 + tv_nsec ts div 1000000" by linarith
  then show "nanoseconds (next_ms ts) = (nanoseconds ts div 1000000 + 1) * 1000000"
    by (simp add: next_ms_def Let_def d algebra_simps)
  show "0 \<le> tv_nsec (next_ms ts)" "tv_nsec (next_ms ts) < NSEC_PER_SEC"
    using assms by (auto simp: next_ms_def Let_def d)
qed

lemma ec_sync_step:
  assumes "0 < cycletime" "0 \<le> reftime"
  shows "\<exists>off y'. ec_sync reftime cycletime y = Some (off, y') \<and> sy_delta y' mod cycletime = reftime mod cycletime \<and>
    2 * \<bar>sy_delta y'\<bar> \<le> cycletime \<and> sy_integral y' = sy_integral y + sgn (sy_delta y') \<and>
    off = - (sy_delta y' sdiv 100) - (sy_integral y' sdiv 20) \<and> \<bar>off\<bar> \<le> cycletime div 200 + \<bar>sy_integral y'\<bar> div 20"
proof -
  define m where "m = reftime mod cycletime"
  define d where "d = (if m > cycletime div 2 then m - cycletime else m)"
  have m: "0 \<le> m" "m < cycletime" "reftime smod cycletime = m" "cycletime sdiv 2 = cycletime div 2"
    using assms by (simp_all add: m_def smod_mod_positive signed_divide_int_def sgn_if)
  have d: "2 * \<bar>d\<bar> \<le> cycletime" "d mod cycletime = m"
    using m(1,2) by (auto simp: d_def)
  have "\<bar>d\<bar> div 100 \<le> cycletime div 200" using d(1) by linarith
  then have "\<bar>- (d sdiv 100) - (i sdiv 20)\<bar> \<le> cycletime div 200 + \<bar>i\<bar> div 20" for i
    using sdiv_abs_le [of 100 d] sdiv_abs_le [of 20 i] by linarith
  then show ?thesis
    using assms(1) d by (auto simp: ec_sync_def Let_def m(3,4) d_def [symmetric] m_def [symmetric] sgn_if)
qed

section \<open>The clock controller in its loop\<close>

text \<open>
  The reference clock of the bus, as the thread sees it: a cycle sleeps as \<open>pace\<close> says, receives the frame that was sent in the cycle
  before, which carries the time \<open>ref\<close> that the reference clock showed then, corrects the next cycle, and sends the next frame. In the
  cycle the reference clock gains \<open>gain\<close> nanoseconds on the clock of the master.
\<close>

definition sync_cycle :: "int \<Rightarrow> int \<Rightarrow> timespec \<times> int \<times> sync_t \<times> int \<Rightarrow> (timespec \<times> int \<times> sync_t \<times> int) option" where
  "sync_cycle cycletime gain = (\<lambda>(ts, toff, y, ref). do {
     let (ts', _) = pace cycletime toff True ts (ts, 0);
     (toff', y) \<leftarrow> ec_sync ref cycletime y;
     Some (ts', toff', y, ref + (nanoseconds ts' - nanoseconds ts) + gain) })"

text \<open>
  The controller is near its goal when the distance from the cycle of the reference clock, the correction under way and the integral are.
  Their sum \<open>x + f + 5 * i\<close> shrinks by a hundredth in each cycle, up to the rounding and the gain; that bounds the integral, since the distance
  has the opposite sign when the integral is large.
\<close>

definition near :: "int \<Rightarrow> int \<Rightarrow> int \<Rightarrow> int \<Rightarrow> bool" where
  "near Z x f i \<longleftrightarrow> \<bar>x + f + 5 * i\<bar> \<le> Z \<and> 98 * \<bar>f\<bar> \<le> Z + 199 \<and> 490 * \<bar>i\<bar> \<le> 99 * Z + 800"

lemma near_mono: "near Z x f i \<Longrightarrow> Z \<le> Z' \<Longrightarrow> near Z' x f i"
  by (auto simp: near_def)

lemma near_distance: "near Z x f i \<Longrightarrow> 800 \<le> Z \<Longrightarrow> 20 * \<bar>x\<bar> \<le> 41 * Z"
  unfolding near_def by linarith

lemma sdiv_close: "0 < b \<Longrightarrow> \<bar>b * (a sdiv b) - a\<bar> < (b :: int)"
  using smod_range [of b a] minus_smod_eq_sdiv_mult [of a b] by (auto simp: mult.commute abs_if)

lemma near_step:
  assumes n: "near Z x f i" and Z: "800 + 102 * D \<le> Z" "0 \<le> D" and g: "\<bar>g\<bar> \<le> D"
    and i': "i' = i + sgn x" and f': "f' = - (x sdiv 100) - (i' sdiv 20)"
  shows "near (Z - 1) (x + f + g) f' i'"
proof -
  have e: "\<bar>100 * f' + x + 5 * i'\<bar> \<le> 194"
  proof -
    define a b where "a = x sdiv 100" and "b = i' sdiv 20"
    have "\<bar>100 * a - x\<bar> < 100" "\<bar>20 * b - i'\<bar> < 20" by (simp_all add: a_def b_def sdiv_close)
    then have "100 * a - x \<le> 99" "x - 100 * a \<le> 99" "20 * b - i' \<le> 19" "i' - 20 * b \<le> 19" by linarith+
    then have "\<bar>100 * (- a - b) + x + 5 * i'\<bar> \<le> 194" by (simp add: abs_le_iff)
    then show ?thesis by (simp add: f' a_def b_def)
  qed
  have s: "\<bar>i' - i\<bar> \<le> 1" "0 < x \<Longrightarrow> i' = i + 1" "x < 0 \<Longrightarrow> i' = i - 1" "x = 0 \<Longrightarrow> i' = i"
    unfolding i' by (simp_all add: sgn_if)
  have "\<bar>x + f + g + f' + 5 * i'\<bar> \<le> Z - 1" using n Z g e s(1) unfolding near_def by linarith
  moreover have "98 * \<bar>f'\<bar> \<le> Z - 1 + 199" using n Z e s(1) unfolding near_def by linarith
  moreover have "490 * \<bar>i'\<bar> \<le> 99 * (Z - 1) + 800"
  proof (cases x "0 :: int" rule: linorder_cases)
    case less
    from n Z(1,2) less s(3) [OF less] show ?thesis by (simp add: near_def abs_if split: if_splits)
  next
    case equal
    from n Z(1,2) equal s(4) [OF equal] show ?thesis by (simp add: near_def abs_if split: if_splits)
  next
    case greater
    from n Z(1,2) greater s(2) [OF greater] show ?thesis by (simp add: near_def abs_if split: if_splits)
  qed
  ultimately show ?thesis by (simp add: near_def)
qed

text \<open>As long as the distance is less than half a cycle, the controller reads it off the time of the reference clock.\<close>

lemma ec_sync_reads:
  assumes "0 \<le> k * cycletime + x" "2 * \<bar>x\<bar> < cycletime"
  shows "\<exists>y'. ec_sync (k * cycletime + x) cycletime y = Some (- (x sdiv 100) - (sy_integral y' sdiv 20), y') \<and>
    sy_integral y' = sy_integral y + sgn x"
proof -
  have c: "0 < cycletime" using assms(2) by linarith
  from ec_sync_step [OF c assms(1), of y] obtain off y' where 1: "ec_sync (k * cycletime + x) cycletime y = Some (off, y')"
    "sy_delta y' mod cycletime = (k * cycletime + x) mod cycletime" "2 * \<bar>sy_delta y'\<bar> \<le> cycletime"
    "sy_integral y' = sy_integral y + sgn (sy_delta y')" "off = - (sy_delta y' sdiv 100) - (sy_integral y' sdiv 20)" by blast
  have "sy_delta y' mod cycletime = x mod cycletime" using 1(2) by simp
  then have "cycletime dvd sy_delta y' - x" by (simp add: mod_eq_dvd_iff)
  moreover have "\<bar>sy_delta y' - x\<bar> < cycletime" using 1(3) assms(2) by linarith
  ultimately have "sy_delta y' = x" using zdvd_imp_le [of cycletime "\<bar>sy_delta y' - x\<bar>"] by (cases "sy_delta y' = x") auto
  then show ?thesis using 1(1,4,5) by auto
qed

lemma sync_cycle_step:
  assumes "near Z x toff (sy_integral y)" "41 * Z < 10 * cycletime" "800 + 102 * D \<le> Z" "0 \<le> D" "\<bar>gain\<bar> \<le> D" "1 \<le> k"
  shows "\<exists>ts' toff' y'. sync_cycle cycletime gain (ts, toff, y, k * cycletime + x) =
      Some (ts', toff', y', (k + 1) * cycletime + (x + toff + gain)) \<and> near (Z - 1) (x + toff + gain) toff' (sy_integral y')"
proof -
  have x: "2 * \<bar>x\<bar> < cycletime" using near_distance [OF assms(1)] assms(2-4) by linarith
  moreover have "cycletime \<le> k * cycletime" using mult_right_mono [of 1 k cycletime] assms(6) x by simp
  ultimately have "0 \<le> k * cycletime + x" by linarith
  from ec_sync_reads [OF this x, of y] obtain y' where
    1: "ec_sync (k * cycletime + x) cycletime y = Some (- (x sdiv 100) - (sy_integral y' sdiv 20), y')" "sy_integral y' = sy_integral y + sgn x" by blast
  have "near (Z - 1) (x + toff + gain) (- (x sdiv 100) - (sy_integral y' sdiv 20)) (sy_integral y')"
    by (rule near_step [OF assms(1,3-5) 1(2) refl])
  then show ?thesis
    using add_timespec_exact [of "cycletime + toff" ts] by (auto simp: sync_cycle_def pace_def Let_def 1(1)) (simp add: algebra_simps)
qed

lemma sync_cycles_near:
  assumes "near Z x toff (sy_integral y)" "41 * Z < 10 * cycletime" "800 + 102 * D \<le> Z" "0 \<le> D" "\<forall>g \<in> set gains. \<bar>g\<bar> \<le> D" "1 \<le> k"
  shows "\<exists>ts' toff' y' x'. foldM (sync_cycle cycletime) gains (ts, toff, y, k * cycletime + x) =
      Some (ts', toff', y', (k + int (length gains)) * cycletime + x') \<and> near (max (Z - int (length gains)) (800 + 102 * D)) x' toff' (sy_integral y')"
  using assms
proof (induction gains arbitrary: Z x toff y ts k)
  case (Cons g gains)
  have "\<bar>g\<bar> \<le> D" using Cons.prems(5) by simp
  from sync_cycle_step [OF Cons.prems(1-4) this Cons.prems(6), of ts] obtain ts1 toff1 y1 where
    1: "sync_cycle cycletime g (ts, toff, y, k * cycletime + x) = Some (ts1, toff1, y1, (k + 1) * cycletime + (x + toff + g))"
    "near (Z - 1) (x + toff + g) toff1 (sy_integral y1)" by blast
  define W where "W = max (Z - 1) (800 + 102 * D)"
  have W: "near W (x + toff + g) toff1 (sy_integral y1)" "41 * W < 10 * cycletime" "800 + 102 * D \<le> W" "\<forall>g \<in> set gains. \<bar>g\<bar> \<le> D" "1 \<le> k + 1"
    "max (W - int (length gains)) (800 + 102 * D) = max (Z - int (length (g # gains))) (800 + 102 * D)"
    using near_mono [OF 1(2), of W] Cons.prems by (auto simp: W_def max_def)
  have "k + 1 + int (length gains) = k + int (length (g # gains))" by simp
  with Cons.IH [OF W(1-3) Cons.prems(4) W(4,5), of ts1] show ?case
    unfolding W(6) by (simp only: foldM.simps 1(1) bind.bind_lunit)
qed (auto simp: max_def)

section \<open>The check of the states\<close>

abbreviation (input) EC_TIMEOUTMON :: int where "EC_TIMEOUTMON \<equiv> 5000"
abbreviation (input) MAX_CONSECUTIVE_ERRORS :: int where "MAX_CONSECUTIVE_ERRORS \<equiv> 5"

definition set_islost :: "nat \<Rightarrow> bool \<Rightarrow> 'e ecx_contextt \<Rightarrow> 'e ecx_contextt" where
  "set_islost slave b = upd_slave slave (\<lambda>s. s\<lparr>sl_islost := b\<rparr>)"

definition set_docheckstate :: "nat \<Rightarrow> bool \<Rightarrow> 'e ecx_contextt \<Rightarrow> 'e ecx_contextt" where
  "set_docheckstate g b = upd_group g (\<lambda>g. g\<lparr>gr_docheckstate := b\<rparr>)"

text \<open>\<open>request_state\<close>: the state is put into the slave list and written to the slave.\<close>

definition request_state :: "'e os_ops \<Rightarrow> nat \<Rightarrow> u16 \<Rightarrow> 'e ecx_contextt \<Rightarrow> 'e ecx_contextt option" where
  "request_state E slave st c = do {
     (_, c) \<leftarrow> ecx_writestate E slave (upd_slave slave (\<lambda>s. s\<lparr>sl_state := st\<rparr>) c);
     Some c }"

text \<open>A slave of the group that is not operational is brought back step by step; \<open>check_lost\<close> deals with a lost one.\<close>

definition check_state :: "'e os_ops \<Rightarrow> 'e po2so_hook \<Rightarrow> nat \<Rightarrow> nat \<Rightarrow> 'e ecx_contextt \<Rightarrow> 'e ecx_contextt option" where
  "check_state E hook currentgroup slave c = (let st = sl_state (slavelist c slave) in
     if unat (sl_group (slavelist c slave)) = currentgroup \<and> st \<noteq> EC_STATE_OPERATIONAL
     then let c = set_docheckstate currentgroup True c in
       if st = EC_STATE_SAFE_OP + EC_STATE_ERROR then request_state E slave (EC_STATE_SAFE_OP + EC_STATE_ACK) c
       else if st = EC_STATE_SAFE_OP then request_state E slave EC_STATE_OPERATIONAL c
       else if st > EC_STATE_NONE then do {
         (r, c) \<leftarrow> ecx_reconfig_slave E hook slave EC_TIMEOUTMON c;
         Some (if r \<noteq> 0 then set_islost slave False c else c) }
       else if \<not> sl_islost (slavelist c slave) then do {
         (_, c) \<leftarrow> ecx_statecheck E slave EC_STATE_OPERATIONAL EC_TIMEOUTRET c;
         Some (if sl_state (slavelist c slave) = 0 then set_islost slave True c else c) }
       else Some c
     else Some c)"

definition check_lost :: "'e os_ops \<Rightarrow> nat \<Rightarrow> 'e ecx_contextt \<Rightarrow> 'e ecx_contextt option" where
  "check_lost E slave c =
     (if sl_islost (slavelist c slave)
      then if sl_state (slavelist c slave) = 0
        then do {
          (r, c) \<leftarrow> ecx_recover_slave E slave EC_TIMEOUTMON c;
          Some (if r \<noteq> 0 then set_islost slave False c else c) }
        else Some (set_islost slave False c)
      else Some c)"

definition check_slave :: "'e os_ops \<Rightarrow> 'e po2so_hook \<Rightarrow> nat \<Rightarrow> nat \<Rightarrow> 'e ecx_contextt \<Rightarrow> 'e ecx_contextt option" where
  "check_slave E hook currentgroup slave c = do {
     c \<leftarrow> check_state E hook currentgroup slave c;
     check_lost E slave c }"

definition check_round :: "'e os_ops \<Rightarrow> 'e po2so_hook \<Rightarrow> nat \<Rightarrow> bool \<Rightarrow> int \<Rightarrow> int \<Rightarrow> int \<times> 'e ecx_contextt \<Rightarrow> (int \<times> 'e ecx_contextt) option" where
  "check_round E hook currentgroup inOP wkc expectedWKC = (\<lambda>(consecutive_errors, c).
     if inOP \<and> (wkc < expectedWKC \<or> gr_docheckstate (grouplist c currentgroup))
     then do {
       let consecutive_errors = (if wkc < expectedWKC then consecutive_errors + 1 else 0);
       let (consecutive_errors, c) = (if consecutive_errors \<ge> MAX_CONSECUTIVE_ERRORS
         then (0, set_docheckstate currentgroup True c) else (consecutive_errors, c));
       let c = set_docheckstate currentgroup False c;
       (_, c) \<leftarrow> ecx_readstate E c;
       c \<leftarrow> foldM (check_slave E hook currentgroup) [1..<slavecount c + 1] c;
       Some (consecutive_errors, c) }
     else Some (consecutive_errors, c))"

text \<open>What the check leaves alone: all but the marks it sets itself, and what the steps of the master change.\<close>

definition unmarked :: "'e ecx_contextt \<Rightarrow> 'e ecx_contextt" where
  "unmarked c = c\<lparr>slavelist := (\<lambda>i. (slavelist c i)\<lparr>sl_islost := False\<rparr>),
     grouplist := (\<lambda>i. (grouplist c i)\<lparr>gr_docheckstate := False\<rparr>)\<rparr>"

definition check_step :: "'e os_ops \<Rightarrow> ('e \<Rightarrow> nat) \<Rightarrow> 'e ecx_contextt \<Rightarrow> 'e ecx_contextt \<Rightarrow> bool" where
  "check_step E now a c \<longleftrightarrow> ctx_step E now (unmarked a) (unmarked c)"

lemma slave_config_unlost: "slave_config (s\<lparr>sl_islost := b\<rparr>) = (slave_config s)\<lparr>sl_islost := b\<rparr>"
  by (simp add: slave_config_def)

lemma unmarked_fields [simp]: "port (unmarked c) = port c" "elist (unmarked c) = elist c" "slavecount (unmarked c) = slavecount c"
  "maxslave (unmarked c) = maxslave c" "maxgroup (unmarked c) = maxgroup c"
  by (simp_all add: unmarked_def)

lemma check_step_ok: "check_step E now a c \<Longrightarrow> ctx_ok E now c"
  by (auto simp: check_step_def ctx_step_def ctx_ok_def)

lemma check_step_refl: "ctx_ok E now c \<Longrightarrow> check_step E now c c"
  by (simp add: check_step_def ctx_step_refl ctx_ok_def)

lemma check_step_trans: "check_step E now a b \<Longrightarrow> check_step E now b c \<Longrightarrow> check_step E now a c"
  unfolding check_step_def by (rule ctx_step_trans)

lemma ctx_step_check: "ctx_step E now b c \<Longrightarrow> check_step E now b c"
  by (auto simp: check_step_def ctx_step_def ctx_ok_def slaves_kept_def unmarked_def slave_config_unlost)

lemma check_step_marks:
  assumes "check_step E now a c"
  shows "check_step E now a (set_islost i b c)" "check_step E now a (set_docheckstate g b c)"
    "check_step E now a (upd_slave i (\<lambda>s. s\<lparr>sl_state := st\<rparr>) c)"
proof -
  have "unmarked (set_islost i b c) = unmarked c" by (simp add: unmarked_def set_islost_def upd_slave_def fun_eq_iff)
  then show "check_step E now a (set_islost i b c)" using assms by (simp add: check_step_def)
  have "unmarked (set_docheckstate g b c) = unmarked c" by (simp add: unmarked_def set_docheckstate_def upd_group_def fun_eq_iff)
  then show "check_step E now a (set_docheckstate g b c)" using assms by (simp add: check_step_def)
  have "ctx_step E now c (upd_slave i (\<lambda>s. s\<lparr>sl_state := st\<rparr>) c)"
    using check_step_ok [OF assms] by (auto simp: ctx_step_def ctx_ok_def slaves_kept_def exchange_ok_refl)
  then show "check_step E now a (upd_slave i (\<lambda>s. s\<lparr>sl_state := st\<rparr>) c)"
    using ctx_step_check check_step_trans [OF assms] by blast
qed

lemma writestate_kept:
  assumes "ctx_ok E now c"
  shows "if_runs (ecx_writestate E slave c) (\<lambda>(w, c'). ctx_step E now c c')"
  unfolding ecx_writestate_def if_runs_simps if_runs_if
  using assms by (auto intro!: kept.write_inv intro: ctx_step_refl)

text \<open>
  The slaves that a round visits belong to its group and have an FMMU that the mailbox can use; the hook of a slave keeps
  the configuration.
\<close>

definition check_ready :: "'e os_ops \<Rightarrow> ('e \<Rightarrow> nat) \<Rightarrow> 'e po2so_hook \<Rightarrow> nat \<Rightarrow> 'e ecx_contextt \<Rightarrow> bool" where
  "check_ready E now hook g c \<longleftrightarrow> ctx_ok E now c \<and>
     (\<forall>i \<in> {1..slavecount c}. unat (sl_group (slavelist c i)) = g \<and> unat (sl_FMMUunused (slavelist c i)) \<le> EC_MAXFMMU) \<and>
     (\<forall>i b. ctx_ok E now b \<longrightarrow> (\<exists>b'. hook i b = Some b' \<and> ctx_step E now b b'))"

lemma check_step_slaves:
  assumes "check_step E now a c"
  shows "slavecount c = slavecount a" "sl_group (slavelist c i) = sl_group (slavelist a i)"
    "sl_FMMUunused (slavelist c i) = sl_FMMUunused (slavelist a i)"
  using assms slave_config_fields(8) [of "(slavelist c i)\<lparr>sl_islost := False\<rparr>" "(slavelist a i)\<lparr>sl_islost := False\<rparr>"]
    FMMUunused_kept [OF assms [unfolded check_step_def], of i]
  by (auto simp: check_step_def ctx_step_def slaves_kept_def unmarked_def)

lemma check_ready_step: "check_ready E now hook g a \<Longrightarrow> check_step E now a c \<Longrightarrow> check_ready E now hook g c"
  using check_step_ok check_step_slaves unfolding check_ready_def by fastforce

definition to_check :: "nat \<Rightarrow> 'e ecx_contextt \<Rightarrow> bool" where
  "to_check g c \<longleftrightarrow> gr_docheckstate (grouplist c g)"

lemma to_check_simps [simp]: "to_check g (set_docheckstate g b c) = b" "to_check g (set_islost i b c) = to_check g c"
  "to_check g (upd_slave i f c) = to_check g c"
  by (simp_all add: to_check_def set_docheckstate_def upd_group_def set_islost_def)

lemma ctx_step_marked: "ctx_step E now b c \<Longrightarrow> to_check g c = to_check g b"
  by (simp add: to_check_def ctx_step_def slaves_kept_def)

text \<open>The operations of the master within a round, in the form in which they chain.\<close>

lemma check_op:
  assumes "check_step E now a b" "if_runs m (\<lambda>(x, c). ctx_step E now b c)"
  shows "if_runs m (\<lambda>(x, c). check_step E now a c \<and> to_check g c = to_check g b)"
proof (rule if_runs_mono [OF assms(2)], clarify)
  fix x c assume c: "ctx_step E now b c"
  show "check_step E now a c \<and> to_check g c = to_check g b"
    using check_step_trans [OF assms(1) ctx_step_check [OF c]] ctx_step_marked [OF c] by blast
qed

lemma request_state_kept:
  assumes "check_step E now a b"
  shows "if_runs (request_state E slave st b) (\<lambda>c. check_step E now a c \<and> to_check g c = to_check g b)"
proof -
  let ?b = "upd_slave slave (\<lambda>s. s\<lparr>sl_state := st\<rparr>) b"
  have "check_step E now a ?b" by (rule check_step_marks(3) [OF assms])
  from check_op [where g = g, OF this writestate_kept [where slave = slave, OF check_step_ok [OF this]]] show ?thesis
    by (auto simp: request_state_def split_beta elim!: if_runs_mono)
qed

lemma check_slave_kept:
  assumes a: "check_ready E now hook g a" "check_step E now a b" and i: "i \<in> {1..slavecount a}"
  shows "if_runs (check_slave E hook g i b) (\<lambda>c. check_step E now a c \<and> (\<not> to_check g c \<longrightarrow> \<not> to_check g b \<and>
    sl_state (slavelist b i) = EC_STATE_OPERATIONAL \<and> c = (if sl_islost (slavelist b i) then set_islost i False b else b)))"
proof -
  let ?st = "sl_state (slavelist b i)"
  let ?A = "\<lambda>c. check_step E now a c \<and> to_check g c"
  have grp: "unat (sl_group (slavelist b i)) = g" using a(1) i check_step_slaves(2) [OF a(2), of i] by (auto simp: check_ready_def)
  have recover: "if_runs (ecx_recover_slave E i t c) (\<lambda>(x, c'). ?A c')" if "?A c" for c t
    using check_op [OF that [THEN conjunct1] recover_kept [OF check_step_ok [OF that [THEN conjunct1]]], of i t g] that
    by (auto elim!: if_runs_mono)
  have ready: "check_ready E now hook g c" "i \<le> slavecount c" if "?A c" for c
    using check_ready_step [OF a(1)] check_step_slaves(1) [OF that [THEN conjunct1]] that i by auto
  have reconfig: "if_runs (ecx_reconfig_slave E hook i t c) (\<lambda>(x, c'). ?A c')" if "?A c" for c t
  proof -
    have h: "runs_to (hook i b) (ctx_step E now b)" if "ctx_ok E now b" for b
      using a(1) that by (auto simp: check_ready_def runs_to_iff)
    have "unat (sl_FMMUunused (slavelist c i)) \<le> EC_MAXFMMU" using ready [OF that] i by (auto simp: check_ready_def)
    from check_op [OF that [THEN conjunct1] runs_to_if_runs [OF reconfig_runs [where hook = hook, OF check_step_ok [OF that [THEN conjunct1]] ready(2) [OF that] this h]], of t g] that
    show ?thesis by (auto elim!: if_runs_mono)
  qed
  have statecheck: "if_runs (ecx_statecheck E i r t c) (\<lambda>(x, c'). ?A c')" if "?A c" for c r t
    using check_op [OF that [THEN conjunct1] runs_to_if_runs [OF statecheck_step [OF ctx_step_refl [OF check_step_ok [OF that [THEN conjunct1]]] ready(2) [OF that]]], of r t g] that
    by (auto elim!: if_runs_mono)
  have lost: "?A c \<Longrightarrow> ?A (set_islost j x c)" for c j x by (simp add: check_step_marks(1))
  have second: "if_runs (check_lost E i c) ?A" if "?A c" for c
    unfolding check_lost_def using if_runs_mono [OF recover [OF that]] lost that by (auto simp: split_beta)
  show ?thesis
  proof (cases "?st = EC_STATE_OPERATIONAL")
    case True
    then show ?thesis using a(2) grp by (simp add: check_slave_def check_state_def check_lost_def check_step_marks(1))
  next
    case False
    define b1 where "b1 = set_docheckstate g True b"
    have b1: "?A b1" using a(2) by (simp add: b1_def check_step_marks(2))
    have "if_runs (request_state E i st b1) ?A" for st
      using request_state_kept [OF b1 [THEN conjunct1], of i st g] b1 by (auto elim!: if_runs_mono)
    then have "if_runs (check_state E hook g i b) ?A"
      unfolding check_state_def Let_def b1_def [symmetric]
      using False grp b1 if_runs_mono [OF reconfig [OF b1]] if_runs_mono [OF statecheck [OF b1]] lost by (simp add: split_beta)
    then have "if_runs (check_slave E hook g i b) ?A"
      unfolding check_slave_def if_runs_simps(3) by (rule if_runs_mono) (rule second)
    then show ?thesis by (rule if_runs_mono) simp
  qed
qed

lemma check_slaves_kept:
  assumes a: "check_ready E now hook g a" and n: "n \<le> slavecount a" and b: "check_step E now a b"
  shows "if_runs (foldM (check_slave E hook g) [1..<Suc n] b) (\<lambda>c. check_step E now a c \<and> (\<not> to_check g c \<longrightarrow> \<not> to_check g b \<and>
    (\<forall>i \<in> {1..n}. sl_state (slavelist c i) = EC_STATE_OPERATIONAL \<and> \<not> sl_islost (slavelist c i))))"
  using n
proof (induction n)
  case 0
  then show ?case using b by simp
next
  case (Suc n)
  let ?I = "\<lambda>n c. check_step E now a c \<and> (\<not> to_check g c \<longrightarrow> \<not> to_check g b \<and>
    (\<forall>i \<in> {1..n}. sl_state (slavelist c i) = EC_STATE_OPERATIONAL \<and> \<not> sl_islost (slavelist c i)))"
  have step: "if_runs (check_slave E hook g (Suc n) c) (?I (Suc n))" if "?I n c" for c
  proof (rule if_runs_mono [OF check_slave_kept [OF a that [THEN conjunct1], of "Suc n"]])
    show "Suc n \<in> {1..slavecount a}" using Suc.prems by simp
    fix d assume d: "check_step E now a d \<and> (\<not> to_check g d \<longrightarrow> \<not> to_check g c \<and>
      sl_state (slavelist c (Suc n)) = EC_STATE_OPERATIONAL \<and> d = (if sl_islost (slavelist c (Suc n)) then set_islost (Suc n) False c else c))"
    show "?I (Suc n) d" using d that by (auto simp: set_islost_def atLeastAtMostSuc_conv split: if_splits)
  qed
  have "[1..<Suc (Suc n)] = [1..<Suc n] @ [Suc n]" by simp
  then show ?case
    unfolding foldM_append if_runs_simps(3)
    using if_runs_mono [OF Suc.IH step] Suc.prems by (simp add: foldM_append)
qed

lemma check_round_context:
  "check_round E hook g inOP wkc expectedWKC (n, c) = (if inOP \<and> (wkc < expectedWKC \<or> to_check g c)
   then do {
     (_, c) \<leftarrow> ecx_readstate E (set_docheckstate g False c);
     c \<leftarrow> foldM (check_slave E hook g) [1..<slavecount c + 1] c;
     Some (if wkc < expectedWKC then if n + 1 \<ge> MAX_CONSECUTIVE_ERRORS then 0 else n + 1 else 0, c) }
   else Some (n, c))"
proof -
  have "set_docheckstate g False (set_docheckstate g True c) = set_docheckstate g False c"
    by (simp add: set_docheckstate_def upd_group_def)
  then show ?thesis by (simp add: check_round_def to_check_def Let_def)
qed

lemma check_round_kept:
  assumes c: "check_ready E now hook g c" "1 \<le> slavecount c"
  shows "if_runs (check_round E hook g inOP wkc expectedWKC (n, c)) (\<lambda>(n', c'). check_step E now c c' \<and>
    (inOP \<and> (wkc < expectedWKC \<or> to_check g c) \<and> \<not> to_check g c' \<longrightarrow>
      (\<forall>i \<in> {1..slavecount c}. sl_state (slavelist c' i) = EC_STATE_OPERATIONAL \<and> \<not> sl_islost (slavelist c' i))))"
proof (cases "inOP \<and> (wkc < expectedWKC \<or> to_check g c)")
  case True
  have ok: "ctx_ok E now c" using c(1) by (simp add: check_ready_def)
  have s0: "check_step E now c (set_docheckstate g False c)" by (rule check_step_marks(2) [OF check_step_refl [OF ok]])
  have "1 \<le> slavecount (set_docheckstate g False c)" using c(2) check_step_slaves(1) [OF s0] by simp
  from ecx_readstate_lowest [OF check_step_ok [OF s0] this] obtain l c1 where
    1: "ecx_readstate E (set_docheckstate g False c) = Some (l, c1)" "ctx_step E now (set_docheckstate g False c) c1" by blast
  have s1: "check_step E now c c1" by (rule check_step_trans [OF s0 ctx_step_check [OF 1(2)]])
  have n: "slavecount c1 = slavecount c" by (rule check_step_slaves(1) [OF s1])
  from check_slaves_kept [OF c(1) order.refl s1] show ?thesis
    unfolding check_round_context using True
    by (simp add: 1(1) n) (auto elim!: if_runs_mono)
next
  case False
  then show ?thesis using c(1) unfolding check_round_context by (auto simp: check_ready_def intro: check_step_refl)
qed

section \<open>The cycle\<close>

text \<open>The process data of a slave; \<open>IOmap\<close> has 4096 bytes, the structs are packed.\<close>

abbreviation (input) IOMAP_SIZE :: nat where "IOMAP_SIZE \<equiv> 4096"

definition get_txpdo :: "buf \<Rightarrow> nat \<Rightarrow> txpdo_t" where
  "get_txpdo b off = \<lparr>tx_statusword = rd16 b off, tx_actual_position = rd32 b (off + 2), tx_actual_velocity = rd32 b (off + 6),
     tx_actual_torque = rd16 b (off + 10)\<rparr>"

definition read_inputs :: "nat \<Rightarrow> 'e ecx_contextt \<Rightarrow> txpdo_t option" where
  "read_inputs slave c = do {
     off \<leftarrow> sl_inputs (slavelist c slave);
     chk (off + 12 \<le> IOMAP_SIZE);
     Some (get_txpdo (IOmap c) off) }"

definition write_outputs :: "(buf \<Rightarrow> nat \<Rightarrow> buf) \<Rightarrow> nat \<Rightarrow> nat \<Rightarrow> 'e ecx_contextt \<Rightarrow> 'e ecx_contextt option" where
  "write_outputs put n slave c = do {
     off \<leftarrow> sl_outputs (slavelist c slave);
     chk (off + n \<le> IOMAP_SIZE);
     Some (c\<lparr>IOmap := put (IOmap c) off\<rparr>) }"

text \<open>One cycle of the thread of a program, whose state is \<open>s\<close>: receive, work, synchronise, send.\<close>

definition rt_cycle :: "'e os_ops \<Rightarrow> int \<Rightarrow> (int \<Rightarrow> 's \<times> 'e ecx_contextt \<Rightarrow> ('s \<times> 'e ecx_contextt) option) \<Rightarrow>
    int \<times> sync_t \<times> 's \<times> 'e ecx_contextt \<Rightarrow> (int \<times> sync_t \<times> 's \<times> 'e ecx_contextt) option" where
  "rt_cycle E cycletime work = (\<lambda>(toff, y, s, c). do {
     (wkc, c) \<leftarrow> ecx_receive_processdata E EC_TIMEOUTRET c;
     (s, c) \<leftarrow> work wkc (s, c);
     (toff, y) \<leftarrow> (if sl_hasdc (slavelist c 0) then ec_sync (sint (DCtime c)) cycletime y else Some (toff, y));
     (_, c) \<leftarrow> ecx_send_processdata E c;
     Some (toff, y, s, c) })"

text \<open>Receiving and sending leave the tables of slaves and groups alone.\<close>

definition same_tables :: "'e ecx_contextt \<Rightarrow> 'e ecx_contextt \<Rightarrow> bool" where
  "same_tables c c' \<longleftrightarrow> slavelist c' = slavelist c \<and> slavecount c' = slavecount c \<and> grouplist c' = grouplist c \<and> maxgroup c' = maxgroup c"

lemma same_tables_refl [simp]: "same_tables c c"
  by (simp add: same_tables_def)

lemma receive_frame_tables: "if_runs (receive_frame p w2 w v c) (\<lambda>(w', v', c'). same_tables c c')"
  by (simp add: receive_frame_def Let_def same_tables_def)

lemma receive_round_tables:
  "if_runs (receive_round E timeout (pos, wkc, v, c)) (\<lambda>(pos', wkc', v', c'). same_tables c c')"
proof -
  have on: "if_runs (on_port f c) (\<lambda>(x, c'). same_tables c c')" for f and c :: "'a ecx_contextt"
    by (simp add: on_port_def same_tables_def split_beta)
  have pull: "same_tables c (snd (ecx_pullindex (c2\<lparr>port := p\<rparr>)))" if "same_tables c c1" "same_tables c1 c2" for c1 c2 p
    using that by (simp add: ecx_pullindex_def Let_def same_tables_def)
  show ?thesis
    unfolding receive_round_def prod.case Let_def if_runs_simps(3)
  proof (rule if_runs_mono [OF on], unfold split_paired_all prod.case if_runs_simps(3), rule if_runs_mono [OF receive_frame_tables])
    fix w :: int and c1 x assume 1: "same_tables c c1" "case x of (w', v', c') \<Rightarrow> same_tables c1 c'"
    obtain w2 v2 c2 where x: "x = (w2, v2, c2)" by (cases x)
    show "if_runs (case x of (wkc, valid_wkc, c') \<Rightarrow> ecx_setbufstat (ix_idx (idxstack c) (nat pos)) EC_BUF_EMPTY (port c') \<bind>
        (\<lambda>p. case ecx_pullindex (c'\<lparr>port := p\<rparr>) of (pos, c) \<Rightarrow> Some (pos, wkc, valid_wkc, c)))
      (\<lambda>(pos', wkc', v', c'). same_tables c c')"
      using pull 1 by (simp add: x split_beta)
  qed
qed

lemma receive_tables: "if_runs (ecx_receive_processdata E timeout c) (\<lambda>(w, c'). same_tables c c')"
proof -
  obtain pos c0 where p: "ecx_pullindex c = (pos, c0)" by fastforce
  have 0: "same_tables c c0" using p by (auto simp: ecx_pullindex_def Let_def same_tables_def split: if_splits)
  have "if_runs (while_do (\<lambda>(pos, _). pos \<ge> 0) (receive_round E timeout) (pos, 0, False, c0)) (\<lambda>(pos, w, v, c1). same_tables c c1)"
  proof (rule while_do_partial [where I = "\<lambda>(pos, w, v, c1). same_tables c c1"])
    show "if_runs (receive_round E timeout a) (\<lambda>(pos, w, v, c1). same_tables c c1)" if "case a of (pos, w, v, c1) \<Rightarrow> same_tables c c1" for a
    proof -
      obtain pos w v c1 where a: "a = (pos, w, v, c1)" by (cases a)
      show ?thesis
        unfolding a by (rule if_runs_mono [OF receive_round_tables]) (use that a in \<open>auto simp: same_tables_def\<close>)
    qed
  qed (use 0 in auto)
  then show ?thesis
    by (auto simp: ecx_receive_processdata_def ecx_receive_processdata_group_def p ecx_clearindex_def Let_def same_tables_def elim!: if_runs_mono)
qed

text \<open>
  What a cycle needs: the port and the stack of frames are in order, the group can be sent, and the process data of every
  slave lies in the image.
\<close>

definition slots_ok :: "nat \<Rightarrow> 'e ecx_contextt \<Rightarrow> bool" where
  "slots_ok n c \<longleftrightarrow> (\<forall>i \<in> {1..slavecount c}. \<exists>a b. sl_inputs (slavelist c i) = Some a \<and> a + 12 \<le> IOMAP_SIZE \<and>
     sl_outputs (slavelist c i) = Some b \<and> b + n \<le> IOMAP_SIZE)"

definition cycle_ok :: "'e os_ops \<Rightarrow> ('e \<Rightarrow> nat) \<Rightarrow> nat \<Rightarrow> 'e ecx_contextt \<Rightarrow> bool" where
  "cycle_ok E now n c \<longleftrightarrow> net_ok E now (port c) \<and> entries_ok c \<and> group_ok (grouplist c 0) \<and> 0 < maxgroup c \<and> slots_ok n c"

text \<open>The buffers in use that do not belong to a frame on the stack.\<close>

definition held :: "'e ecx_contextt \<Rightarrow> nat set" where
  "held c = {j. in_use (port c) j \<and> (\<forall>k. pulled (idxstack c) \<le> k \<longrightarrow> k < pushed (idxstack c) \<longrightarrow> ix_idx (idxstack c) k \<noteq> j)}"

lemma receive_cycle:
  assumes "cycle_ok E now n c"
  shows "runs_to (ecx_receive_processdata E timeout c) (\<lambda>(w, c'). cycle_ok E now n c' \<and> same_tables c c' \<and>
    pushed (idxstack c') = 0 \<and> pulled (idxstack c') = 0 \<and> held c' \<subseteq> held c)"
proof -
  have "net_ok E now (port c)" "entries_ok c" using assms by (simp_all add: cycle_ok_def)
  from receive_all_runs [OF this, of 0 timeout]
  have "runs_to (ecx_receive_processdata E timeout c) (\<lambda>(w, c'). receiving E now c (pushed (idxstack c)) c' \<and> pushed (idxstack c') = 0 \<and> pulled (idxstack c') = 0)"
    by (simp add: ecx_receive_processdata_def)
  from runs_to_conj [OF this receive_tables] show ?thesis
    by (rule runs_to_mono) (use assms in \<open>auto simp: cycle_ok_def same_tables_def receiving_def entries_ok_def slots_ok_def held_def\<close>)
qed

lemma same_tables_trans: "same_tables a b \<Longrightarrow> same_tables b c \<Longrightarrow> same_tables a c"
  by (simp add: same_tables_def)

lemma send_segments_tables:
  assumes "send_segments E grp com sub off (k, len, adr, d, first, c) = Some (k', len', adr', d', first', c')"
  shows "same_tables c c'"
proof -
  have "if_runs (send_segments E grp com sub off (k, len, adr, d, first, c)) (\<lambda>(_, _, _, _, _, c'). same_tables c c')"
    unfolding send_segments_def
  proof (rule do_while_partial [where I = "\<lambda>(_, _, _, _, _, c'). same_tables c c'"], goal_cases)
    case (2 a)
    obtain k len adr d first b where a: "a = (k, len, adr, d, first, b)" by (cases a)
    have b: "same_tables c b" using 2 by (simp add: a)
    have "same_tables c (ecx_pushindex idx x n m (b\<lparr>port := p\<rparr>))" for idx x n m p
      using b by (simp add: same_tables_def ecx_pushindex_def Let_def)
    then have "if_runs (send_segment E grp com first adr n d x b) (same_tables c)" for n x
      using send_segment_pushes [of E grp com first adr n d x b] by (auto simp: if_runs_iff)
    then show ?case by (auto simp: a Let_def elim!: if_runs_mono)
  qed (simp add: same_tables_def)
  then show ?thesis using assms by (simp add: if_runs_iff)
qed

lemma send_tables:
  assumes "ecx_main_send_processdata E grp ov c = Some (w, c')"
  shows "same_tables c c'"
  using assms unfolding ecx_main_send_processdata_def Let_def
  by (auto simp: bind_eq_Some_conv same_tables_def dest!: send_segments_tables split: if_splits prod.splits)

lemma send_cycle:
  assumes "cycle_ok E now n c" "pushed (idxstack c) = 0" "pulled (idxstack c) = 0"
  shows "\<exists>w c'. ecx_send_processdata E c = Some (w, c') \<and> cycle_ok E now n c' \<and> same_tables c c' \<and> IOmap c' = IOmap c \<and> held c' \<subseteq> held c"
proof -
  have c: "net_ok E now (port c)" "entries_ok c" "group_ok (grouplist c 0)" "0 < maxgroup c" using assms(1) by (simp_all add: cycle_ok_def)
  from ecx_main_send_runs [OF c(1,2) assms(2) c(3,4), of False] obtain w c' where
    1: "ecx_main_send_processdata E 0 False c = Some (w, c')" "send_ok E now c c'" by (auto simp: runs_to_iff)
  have "held c' \<subseteq> held c" using 1(2) assms(2,3) by (auto simp: send_ok_def held_def)
  with send_tables [OF 1(1)] 1 assms(1) show ?thesis
    by (auto simp: ecx_send_processdata_def ecx_send_processdata_group_def cycle_ok_def send_ok_def same_tables_def slots_ok_def)
qed

text \<open>The contract of the work of a program: it always ends, and it changes its own state and the image.\<close>

locale rt_program =
  fixes work :: "int \<Rightarrow> 's \<times> 'e ecx_contextt \<Rightarrow> ('s \<times> 'e ecx_contextt) option" and n :: nat
  assumes work_law: "slots_ok n c \<Longrightarrow> \<exists>s' m. work wkc (s, c) = Some (s', c\<lparr>IOmap := m\<rparr>)"
begin

lemma cycle_returns:
  assumes c: "cycle_ok E now n c" and t: "cycletime \<noteq> 0"
  shows "\<exists>toff' y' s' c' wkc c1 c2. rt_cycle E cycletime work (toff, y, s, c) = Some (toff', y', s', c') \<and>
    cycle_ok E now n c' \<and> same_tables c c' \<and> held c' \<subseteq> held c \<and>
    ecx_receive_processdata E EC_TIMEOUTRET c = Some (wkc, c1) \<and> same_tables c c1 \<and> work wkc (s, c1) = Some (s', c2) \<and> IOmap c' = IOmap c2"
proof -
  from receive_cycle [OF c, of EC_TIMEOUTRET] obtain wkc c1 where 1: "ecx_receive_processdata E EC_TIMEOUTRET c = Some (wkc, c1)"
    "cycle_ok E now n c1" "same_tables c c1" "pushed (idxstack c1) = 0" "pulled (idxstack c1) = 0" "held c1 \<subseteq> held c" by (auto simp: runs_to_iff)
  then have "slots_ok n c1" by (simp add: cycle_ok_def)
  from work_law [OF this, of wkc s] obtain s' m where 2: "work wkc (s, c1) = Some (s', c1\<lparr>IOmap := m\<rparr>)" by blast
  let ?c2 = "c1\<lparr>IOmap := m\<rparr>"
  have 3: "cycle_ok E now n ?c2" "pushed (idxstack ?c2) = 0" "pulled (idxstack ?c2) = 0" "held ?c2 = held c1" "same_tables c ?c2"
    using 1 by (simp_all add: cycle_ok_def entries_ok_def slots_ok_def held_def same_tables_def)
  obtain toff' y' where 4: "(if sl_hasdc (slavelist ?c2 0) then ec_sync (sint (DCtime ?c2)) cycletime y else Some (toff, y)) = Some (toff', y')"
    using t by (cases "sl_hasdc (slavelist ?c2 0)") (auto simp: ec_sync_def Let_def)
  from send_cycle [OF 3(1-3)] obtain w c' where 5: "ecx_send_processdata E ?c2 = Some (w, c')" "cycle_ok E now n c'" "same_tables ?c2 c'"
    "IOmap c' = IOmap ?c2" "held c' \<subseteq> held ?c2" by blast
  have "rt_cycle E cycletime work (toff, y, s, c) = Some (toff', y', s', c')"
    unfolding rt_cycle_def prod.case 1(1) Option.bind.bind_lunit 2 4 5(1) ..
  moreover have "same_tables c c'" using 3(5) 5(3) by (rule same_tables_trans)
  moreover have "held c' \<subseteq> held c" using 5(5) 3(4) 1(6) by simp
  ultimately show ?thesis using 1(1,3) 2 5(2,4) by blast
qed

text \<open>Any number of cycles: the thread never stops, and no buffer is leaked.\<close>

lemma cycles_return:
  assumes c: "cycle_ok E now n c" and t: "cycletime \<noteq> 0"
  shows "\<exists>toff' y' s' c'. foldM (\<lambda>_. rt_cycle E cycletime work) [0..<k] (toff, y, s, c) = Some (toff', y', s', c') \<and>
    cycle_ok E now n c' \<and> same_tables c c' \<and> held c' \<subseteq> held c"
proof (induction k)
  case 0
  then show ?case using c by simp
next
  case (Suc k)
  then obtain toff1 y1 s1 c1 where 1: "foldM (\<lambda>_. rt_cycle E cycletime work) [0..<k] (toff, y, s, c) = Some (toff1, y1, s1, c1)"
    "cycle_ok E now n c1" "same_tables c c1" "held c1 \<subseteq> held c" by blast
  from cycle_returns [OF 1(2) t, of toff1 y1 s1] obtain toff2 y2 s2 c2 where
    2: "rt_cycle E cycletime work (toff1, y1, s1, c1) = Some (toff2, y2, s2, c2)" "cycle_ok E now n c2" "same_tables c1 c2" "held c2 \<subseteq> held c1" by blast
  then show ?case using 1 same_tables_trans [OF 1(3) 2(3)] by (auto simp: foldM_append)
qed

end

section \<open>Properties\<close>

text \<open>
  C13: the controller keeps the cycle of the thread to that of the reference clock, in its loop with the frames that come back a cycle later,
  while the clocks run apart by up to \<open>D\<close> nanoseconds in a cycle, in any way: starting \<open>x\<close> nanoseconds off, with \<open>Z\<close> the larger of
  \<open>\<bar>x\<bar>\<close> and \<open>800 + 102 * D\<close>, which must be less than \<open>10 / 41\<close> of a cycle, the distance never exceeds 2.05 times \<open>Z\<close>, hence no cycle is ever lost
  or gained; each next cycle lies in the future; and after \<open>Z\<close> cycles the distance stays below 2.05 times \<open>800 + 102 * D\<close> nanoseconds.
\<close>

theorem ec_sync_locks:
  assumes "Z = max \<bar>x\<bar> (800 + 102 * D)" "0 \<le> D" "41 * Z < 10 * cycletime" "\<forall>g \<in> set gains. \<bar>g\<bar> \<le> D" "1 \<le> k"
  shows "\<exists>ts' toff y ref. foldM (sync_cycle cycletime) gains (ts, 0, \<lparr>sy_integral = 0, sy_delta = 0\<rparr>, k * cycletime + x) = Some (ts', toff, y, ref) \<and>
    (let dist = ref - (k + int (length gains)) * cycletime in
      20 * \<bar>dist\<bar> \<le> 41 * Z \<and> 0 < cycletime + toff \<and> (Z \<le> int (length gains) \<longrightarrow> 20 * \<bar>dist\<bar> \<le> 41 * (800 + 102 * D)))"
proof -
  have Z: "800 + 102 * D \<le> Z" "\<bar>x\<bar> \<le> Z" using assms(1) by simp_all
  then have "near Z x 0 (sy_integral \<lparr>sy_integral = 0, sy_delta = 0\<rparr>)" using assms(2) by (simp add: near_def)
  from sync_cycles_near [OF this assms(3) Z(1) assms(2,4,5), of ts] obtain ts' toff y x' where
    1: "foldM (sync_cycle cycletime) gains (ts, 0, \<lparr>sy_integral = 0, sy_delta = 0\<rparr>, k * cycletime + x) =
      Some (ts', toff, y, (k + int (length gains)) * cycletime + x')"
    "near (max (Z - int (length gains)) (800 + 102 * D)) x' toff (sy_integral y)" by blast
  from near_mono [OF 1(2), of Z] Z have n: "near Z x' toff (sy_integral y)" by simp
  then have "0 < cycletime + toff" using assms(2,3) Z(1) unfolding near_def by linarith
  moreover have "20 * \<bar>x'\<bar> \<le> 41 * Z" using near_distance [OF n] Z(1) assms(2) by simp
  moreover have "20 * \<bar>x'\<bar> \<le> 41 * (800 + 102 * D)" if "Z \<le> int (length gains)"
    using near_distance [OF near_mono [OF 1(2), of "800 + 102 * D"]] that assms(2) by simp
  ultimately show ?thesis using 1(1) by (simp add: Let_def)
qed

theorem ec_sync_locks_witness:
  "\<exists>ts' toff y ref. foldM (sync_cycle 1000000) (replicate 240000 5) (\<lparr>tv_sec = 7, tv_nsec = 0\<rparr>, 0, \<lparr>sy_integral = 0, sy_delta = 0\<rparr>, 1 * 1000000 + 240000) =
     Some (ts', toff, y, ref) \<and> \<bar>ref - 240001 * 1000000\<bar> \<le> 2685"
  using ec_sync_locks [of 240000 240000 5 1000000 "replicate 240000 5" 1 "\<lparr>tv_sec = 7, tv_nsec = 0\<rparr>"] by (fastforce simp: Let_def)

text \<open>
  The time of the next cycle is exactly the time added, for any sign, and is normalised as \<open>clock_nanosleep\<close> asks for
  unless a negative fraction takes it below the second; after too many missed cycles it is the next full millisecond.
\<close>

theorem next_cycle_time:
  assumes "0 \<le> tv_nsec ts" "tv_nsec ts < NSEC_PER_SEC"
  shows "nanoseconds (add_timespec addtime ts) = nanoseconds ts + addtime \<and> tv_nsec (add_timespec addtime ts) < NSEC_PER_SEC \<and>
    (0 \<le> addtime \<longrightarrow> 0 \<le> tv_nsec (add_timespec addtime ts)) \<and>
    nanoseconds (next_ms ts) = (nanoseconds ts div 1000000 + 1) * 1000000 \<and> 0 \<le> tv_nsec (next_ms ts) \<and> tv_nsec (next_ms ts) < NSEC_PER_SEC"
  using add_timespec_exact [of addtime ts] add_timespec_normal [OF assms, of addtime] next_ms_rounds [OF assms] assms(1)
    smod_int_compares(2) [of addtime NSEC_PER_SEC] by simp

theorem next_cycle_time_witness: "nanoseconds (add_timespec 1000500 \<lparr>tv_sec = 7, tv_nsec = 999400000\<rparr>) = 8000400500"
  using next_cycle_time [of "\<lparr>tv_sec = 7, tv_nsec = 999400000\<rparr>" 1000500] by simp

text \<open>
  C19: a round of the check of the states, if it ends, leaves the configuration of all slaves as it was; it does nothing while
  \<open>inOP\<close> is false; what it does to the slaves does not depend on the number of errors counted; and when it clears
  the mark of the group, all slaves are operational and none is lost.
\<close>

theorem check_round_outcome:
  assumes "check_ready E now hook g c" "1 \<le> slavecount c" "check_round E hook g inOP wkc expectedWKC (e, c) = Some (e', c')"
  shows "check_step E now c c' \<and> (\<not> inOP \<longrightarrow> (e', c') = (e, c)) \<and>
    (\<forall>n. \<exists>n'. check_round E hook g inOP wkc expectedWKC (n, c) = Some (n', c')) \<and>
    (inOP \<and> (wkc < expectedWKC \<or> gr_docheckstate (grouplist c g)) \<and> \<not> gr_docheckstate (grouplist c' g) \<longrightarrow>
      (\<forall>i \<in> {1..slavecount c}. sl_state (slavelist c' i) = EC_STATE_OPERATIONAL \<and> \<not> sl_islost (slavelist c' i)))"
proof -
  have "\<exists>n'. check_round E hook g inOP wkc expectedWKC (n, c) = Some (n', c')" for n
    using assms(3) unfolding check_round_context by (auto simp: bind_eq_Some_conv split: if_splits)
  moreover have "\<not> inOP \<longrightarrow> (e', c') = (e, c)" using assms(3) by (auto simp: check_round_context)
  ultimately show ?thesis
    using check_round_kept [OF assms(1,2), of inOP wkc expectedWKC e] assms(3) by (simp add: if_runs_iff to_check_def)
qed

theorem check_round_outcome_witness:
  "check_step script_os (\<lambda>(t, q). t * 1000) (idle_ctx 2 (5, [])) (idle_ctx 2 (5, [])) \<and>
   (\<exists>n'. check_round script_os (\<lambda>_. Some) 0 False 0 6 (4, idle_ctx 2 (5, [])) = Some (n', idle_ctx 2 (5, [])))"
proof -
  let ?c = "idle_ctx 2 (5, [])"
  have "check_ready script_os (\<lambda>(t, q). t * 1000) (\<lambda>_. Some) 0 ?c"
    using idle_ctx_ok [of 2 "(5, [])"] ctx_step_refl by (auto simp: check_ready_def zero_slave_def)
  moreover have "check_round script_os (\<lambda>_. Some) 0 False 0 6 (0, ?c) = Some (0, ?c)" by (simp add: check_round_def)
  ultimately show ?thesis using check_round_outcome [of script_os "\<lambda>(t, q). t * 1000" "\<lambda>_. Some" 0 ?c False 0 6 0 0 ?c] by simp
qed

end
