(* ===== verification/Bus.thy ===== *)
theory Bus
  imports Realtime
begin

text \<open>
  The bus on which the control programs are put: every slave has a reference drive of \<open>Cia402\<close>. In a cycle the drives report
  their status into the image, the program works, and the drives obey the control words that it left in the image.
\<close>

section \<open>The process data of the slaves\<close>

abbreviation connected :: "int \<Rightarrow> nat \<Rightarrow> bool" where "connected wkc i \<equiv> wkc \<ge> int i * 3"

abbreviation in_at :: "'e ecx_contextt \<Rightarrow> nat \<Rightarrow> nat" where "in_at c i \<equiv> the (sl_inputs (slavelist c i))"
abbreviation out_at :: "'e ecx_contextt \<Rightarrow> nat \<Rightarrow> nat" where "out_at c i \<equiv> the (sl_outputs (slavelist c i))"

lemma get_txpdo_cong: "(\<And>i. off \<le> i \<Longrightarrow> i < off + 12 \<Longrightarrow> b i = b' i) \<Longrightarrow> get_txpdo b off = get_txpdo b' off"
  by (auto simp: get_txpdo_def intro!: get_le_cong)

lemma fold_each:
  assumes "\<And>i s j. f i s j = (if j = i then g i (s i) else s j)"
  shows "fold f [1..<Suc n] s = (\<lambda>i. if 1 \<le> i \<and> i \<le> n then g i (s i) else s i)"
proof (induction n)
  case (Suc n)
  have "fold f [1..<Suc (Suc n)] s = f (Suc n) (fold f [1..<Suc n] s)" by simp
  also have "\<dots> = (\<lambda>i. if 1 \<le> i \<and> i \<le> Suc n then g i (s i) else s i)"
    unfolding Suc.IH using assms by (simp add: fun_eq_iff le_Suc_eq Suc_le_eq)
  finally show ?case .
qed (simp add: fun_eq_iff)

lemma foldM_last: "foldM f [1..<Suc (Suc k)] s = Option.bind (foldM f [1..<Suc k] s) (f (Suc k))"
proof -
  have "[1..<Suc (Suc k)] = [1..<Suc k] @ [Suc k]" by simp
  then show ?thesis by (cases "foldM f [1..<Suc k] s") (simp_all only: foldM_append, simp_all)
qed

text \<open>The slots of the slaves do not overlap.\<close>

definition apart :: "nat \<Rightarrow> 'e ecx_contextt \<Rightarrow> bool" where
  "apart n c \<longleftrightarrow> (\<forall>i \<in> {1..slavecount c}. \<forall>j \<in> {1..slavecount c}.
     (out_at c i + n \<le> in_at c j \<or> in_at c j + 12 \<le> out_at c i) \<and>
     (i \<noteq> j \<longrightarrow> out_at c i + n \<le> out_at c j \<or> out_at c j + n \<le> out_at c i) \<and>
     (i \<noteq> j \<longrightarrow> in_at c i + 12 \<le> in_at c j \<or> in_at c j + 12 \<le> in_at c i))"

definition in_slot :: "'e ecx_contextt \<Rightarrow> nat \<Rightarrow> nat \<Rightarrow> nat \<Rightarrow> bool" where
  "in_slot c n i k \<longleftrightarrow> out_at c i \<le> k \<and> k < out_at c i + n"

lemma slots_okD:
  assumes "slots_ok n c" "i \<in> {1..slavecount c}"
  obtains a b where "sl_inputs (slavelist c i) = Some a" "a + 12 \<le> IOMAP_SIZE" "sl_outputs (slavelist c i) = Some b" "b + n \<le> IOMAP_SIZE"
  using assms by (force simp: slots_ok_def)

lemma read_inputs_slot:
  assumes "slots_ok n c" "i \<in> {1..slavecount c}" "slavelist c' = slavelist c"
  shows "read_inputs i c' = Some (get_txpdo (IOmap c') (in_at c i))"
  by (rule slots_okD [OF assms(1,2)]) (simp add: read_inputs_def assms(3))

lemma write_outputs_slot:
  assumes "slots_ok n c" "i \<in> {1..slavecount c}" "slavelist c' = slavelist c"
  shows "write_outputs put n i c' = Some (c'\<lparr>IOmap := put (IOmap c') (out_at c i)\<rparr>)"
  by (rule slots_okD [OF assms(1,2)]) (simp add: write_outputs_def assms(3))

lemma slots_apart:
  assumes "apart n c" "i \<in> {1..slavecount c}" "j \<in> {1..slavecount c}" "i \<noteq> j" "in_slot c n i x"
  shows "\<not> in_slot c n j x"
proof -
  have "out_at c i + n \<le> out_at c j \<or> out_at c j + n \<le> out_at c i" using assms unfolding apart_def by metis
  with assms(5) show ?thesis by (auto simp: in_slot_def)
qed

text \<open>The slots after all slaves were written; \<open>view\<close> is what is looked at in a slot.\<close>

lemma write_each_slots:
  assumes c: "slots_ok n c" and w: "\<And>i m off. view (put i m off) off = w i"
    and v: "\<And>m m' off. (\<And>x. off \<le> x \<Longrightarrow> x < off + n \<Longrightarrow> m x = m' x) \<Longrightarrow> view m off = view m' off"
    and o: "\<And>i m off x. x < off \<or> off + n \<le> x \<Longrightarrow> put i m off x = m x"
  shows "\<exists>m. foldM (\<lambda>slave. write_outputs (put slave) n slave) [1..<slavecount c + 1] c = Some (c\<lparr>IOmap := m\<rparr>) \<and> (apart n c \<longrightarrow> (\<forall>i \<in> {1..slavecount c}. view m (out_at c i) = w i))"
proof -
  have "\<exists>m. foldM (\<lambda>slave. write_outputs (put slave) n slave) [1..<Suc k] c = Some (c\<lparr>IOmap := m\<rparr>) \<and> (apart n c \<longrightarrow> (\<forall>i \<in> {1..k}. view m (out_at c i) = w i))"
    if "k \<le> slavecount c" for k
    using that
  proof (induction k)
    case 0
    show ?case by (rule exI [of _ "IOmap c"]) simp
  next
    case (Suc k)
    then obtain m where 1: "foldM (\<lambda>slave. write_outputs (put slave) n slave) [1..<Suc k] c = Some (c\<lparr>IOmap := m\<rparr>)"
      "apart n c \<longrightarrow> (\<forall>i \<in> {1..k}. view m (out_at c i) = w i)" by auto
    let ?m = "put (Suc k) m (out_at c (Suc k))"
    have s: "Suc k \<in> {1..slavecount c}" using Suc.prems by simp
    have "foldM (\<lambda>slave. write_outputs (put slave) n slave) [1..<Suc (Suc k)] c = Some (c\<lparr>IOmap := ?m\<rparr>)"
      unfolding foldM_last 1(1) using write_outputs_slot [OF c s, of "c\<lparr>IOmap := m\<rparr>" "put (Suc k)"] by simp
    moreover have "view ?m (out_at c i) = w i" if a: "apart n c" and i: "i \<in> {1..Suc k}" for i
    proof (cases "i = Suc k")
      case False
      then have i': "i \<in> {1..k}" "i \<in> {1..slavecount c}" using i s by auto
      have "view ?m (out_at c i) = view m (out_at c i)"
      proof (rule v)
        fix x assume "out_at c i \<le> x" "x < out_at c i + n"
        then have "in_slot c n i x" by (simp add: in_slot_def)
        from slots_apart [OF a i'(2) s False this] show "?m x = m x" by (intro o) (auto simp: in_slot_def)
      qed
      then show ?thesis using 1(2) a i'(1) by simp
    qed (simp add: w)
    ultimately show ?case by (intro exI [of _ ?m]) blast
  qed
  from this [of "slavecount c"] show ?thesis by (simp del: upt_Suc)
qed

section \<open>A cycle of the bus\<close>

text \<open>
  One cycle of the bus: \<open>wkc\<close> is the working counter, \<open>tx i\<close> is what drive \<open>i\<close> reports beside its status, and \<open>ev i\<close> may make it trip
  (\<open>Some cause\<close>) or, when it has tripped, remove the cause. A drive that is not connected hears nothing.
\<close>

type_synonym bus_event = "int \<times> (nat \<Rightarrow> txpdo_t) \<times> (nat \<Rightarrow> bool option)"

text \<open>A cycle in which a slave is connected and undisturbed.\<close>

definition quiet :: "nat \<Rightarrow> bus_event \<Rightarrow> bool" where
  "quiet i = (\<lambda>(wkc, tx, ev). connected wkc i \<and> ev i = None)"

definition put_txpdo :: "txpdo_t \<Rightarrow> buf \<Rightarrow> nat \<Rightarrow> buf" where
  "put_txpdo t b off = wr16 (wr32 (wr32 (wr16 b off (tx_statusword t)) (off + 2) (tx_actual_position t)) (off + 6) (tx_actual_velocity t))
     (off + 10) (tx_actual_torque t)"

definition upset :: "bool option \<Rightarrow> drive \<Rightarrow> drive" where
  "upset e d = (case e of None \<Rightarrow> d
   | Some cause \<Rightarrow> if dr_state d \<in> {FAULT, FAULT_REACTION_ACTIVE} then (if cause then d else d\<lparr>dr_cause := False\<rparr>)
     else d\<lparr>dr_state := FAULT_REACTION_ACTIVE, dr_cause := cause\<rparr>)"

definition report :: "(nat \<Rightarrow> txpdo_t) \<Rightarrow> (nat \<Rightarrow> drive) \<Rightarrow> 'e ecx_contextt \<Rightarrow> 'e ecx_contextt" where
  "report tx d c = c\<lparr>IOmap := fold (\<lambda>i b. put_txpdo ((tx i)\<lparr>tx_statusword := drive_status (d i)\<rparr>) b (in_at c i)) [1..<slavecount c + 1] (IOmap c)\<rparr>"

text \<open>
  The state of a program is \<open>s\<close>. A drive hears what was written to the image when it is connected; the control word stands at the
  beginning of its outputs.
\<close>

definition bus_cycle :: "(int \<Rightarrow> 's \<times> 'e ecx_contextt \<Rightarrow> ('s \<times> 'e ecx_contextt) option) \<Rightarrow> bus_event \<Rightarrow>
    's \<times> 'e ecx_contextt \<times> (nat \<Rightarrow> drive) \<Rightarrow> ('s \<times> 'e ecx_contextt \<times> (nat \<Rightarrow> drive)) option" where
  "bus_cycle work = (\<lambda>(wkc, tx, ev) (s, c, d). do {
     let d = (\<lambda>i. upset (ev i) (d i));
     (s, c) \<leftarrow> work wkc (s, report tx d c);
     Some (s, c, \<lambda>i. if connected wkc i then drive_obey (rd16 (IOmap c) (out_at c i)) (d i) else d i) })"

lemma get_put_txpdo [simp]: "get_txpdo (put_txpdo t b off) off = t"
  by (simp add: get_txpdo_def put_txpdo_def)

lemma put_txpdo_other: "i < off \<or> off + 12 \<le> i \<Longrightarrow> put_txpdo t b off i = b i"
  by (auto simp: put_txpdo_def put_le_apply)

lemma report_tables [simp]: "slavelist (report tx d c) = slavelist c" "slavecount (report tx d c) = slavecount c" "grouplist (report tx d c) = grouplist c"
  "maxgroup (report tx d c) = maxgroup c" "slots_ok n (report tx d c) = slots_ok n c" "apart n (report tx d c) = apart n c" "in_slot (report tx d c) = in_slot c"
  by (simp_all add: report_def slots_ok_def apart_def in_slot_def fun_eq_iff)

lemma reports:
  fixes f :: "nat \<Rightarrow> txpdo_t"
  assumes a: "apart n c" and k: "k \<le> slavecount c"
  defines "b \<equiv> fold (\<lambda>i b. put_txpdo (f i) b (in_at c i)) [1..<Suc k] (IOmap c)"
  shows "(\<forall>i \<in> {1..k}. get_txpdo b (in_at c i) = f i) \<and> (\<forall>x. (\<forall>i \<in> {1..k}. x < in_at c i \<or> in_at c i + 12 \<le> x) \<longrightarrow> b x = IOmap c x)"
  using k unfolding b_def
proof (induction k)
  case (Suc k)
  define b where "b = fold (\<lambda>i b. put_txpdo (f i) b (in_at c i)) [1..<Suc k] (IOmap c)"
  have IH: "\<forall>i \<in> {1..k}. get_txpdo b (in_at c i) = f i" "\<forall>x. (\<forall>i \<in> {1..k}. x < in_at c i \<or> in_at c i + 12 \<le> x) \<longrightarrow> b x = IOmap c x"
    using Suc.IH Suc.prems unfolding b_def by auto
  have e: "fold (\<lambda>i b. put_txpdo (f i) b (in_at c i)) [1..<Suc (Suc k)] (IOmap c) = put_txpdo (f (Suc k)) b (in_at c (Suc k))"
    by (simp add: b_def)
  have "get_txpdo (put_txpdo (f (Suc k)) b (in_at c (Suc k))) (in_at c i) = f i" if i: "i \<in> {1..Suc k}" for i
  proof (cases "i = Suc k")
    case False
    then have "i \<in> {1..slavecount c}" "Suc k \<in> {1..slavecount c}" "i \<in> {1..k}" using i Suc.prems by auto
    then have "in_at c i + 12 \<le> in_at c (Suc k) \<or> in_at c (Suc k) + 12 \<le> in_at c i"
      using a False unfolding apart_def by blast
    then have "get_txpdo (put_txpdo (f (Suc k)) b (in_at c (Suc k))) (in_at c i) = get_txpdo b (in_at c i)"
      by (intro get_txpdo_cong put_txpdo_other) auto
    then show ?thesis using IH(1) \<open>i \<in> {1..k}\<close> by simp
  qed simp
  moreover have "put_txpdo (f (Suc k)) b (in_at c (Suc k)) x = IOmap c x" if x: "\<forall>i \<in> {1..Suc k}. x < in_at c i \<or> in_at c i + 12 \<le> x" for x
  proof -
    have "b x = IOmap c x" using IH(2) x by simp
    moreover have "x < in_at c (Suc k) \<or> in_at c (Suc k) + 12 \<le> x" using x by simp
    ultimately show ?thesis using put_txpdo_other by metis
  qed
  ultimately show ?case unfolding e by blast
qed simp

lemma report_slots:
  assumes "apart n c" "i \<in> {1..slavecount c}"
  shows "get_txpdo (IOmap (report tx d c)) (in_at c i) = (tx i)\<lparr>tx_statusword := drive_status (d i)\<rparr>"
  using reports [OF assms(1) order.refl, of "\<lambda>i. (tx i)\<lparr>tx_statusword := drive_status (d i)\<rparr>"] assms(2)
  by (simp add: report_def del: upt_Suc)

lemma report_outputs:
  assumes "apart n c" "i \<in> {1..slavecount c}" "in_slot c n i x"
  shows "IOmap (report tx d c) x = IOmap c x"
proof -
  have "\<forall>j \<in> {1..slavecount c}. x < in_at c j \<or> in_at c j + 12 \<le> x"
  proof
    fix j assume "j \<in> {1..slavecount c}"
    with assms(1,2) have "out_at c i + n \<le> in_at c j \<or> in_at c j + 12 \<le> out_at c i" unfolding apart_def by blast
    with assms(3) show "x < in_at c j \<or> in_at c j + 12 \<le> x" by (auto simp: in_slot_def)
  qed
  with reports [OF assms(1) order.refl, of "\<lambda>i. (tx i)\<lparr>tx_statusword := drive_status (d i)\<rparr>"]
  show ?thesis by (simp add: report_def del: upt_Suc)
qed

definition bus_ready :: "nat \<Rightarrow> 'e ecx_contextt \<Rightarrow> bool" where
  "bus_ready n c \<longleftrightarrow> slots_ok n c \<and> apart n c"

lemma bus_ready_same: "bus_ready n c \<Longrightarrow> same_tables c c' \<Longrightarrow> bus_ready n c'"
  by (simp add: bus_ready_def slots_ok_def apart_def same_tables_def)

section \<open>A bus of two slaves\<close>

definition bus_ctx :: "(nat \<times> u8 list list) ecx_contextt" where
  "bus_ctx = io_ctx\<lparr>slavelist := (\<lambda>i. zero_slave\<lparr>sl_outputs := Some (8 * i - 8), sl_inputs := Some (12 * i + 100)\<rparr>)\<rparr>"

lemma bus_ctx_fields: "slavecount bus_ctx = 2" "port bus_ctx = port io_ctx" "idxstack bus_ctx = idxstack io_ctx"
  "grouplist bus_ctx = grouplist io_ctx" "maxgroup bus_ctx = maxgroup io_ctx" "out_at bus_ctx i = 8 * i - 8" "in_at bus_ctx i = 12 * i + 100"
  "sl_outputs (slavelist bus_ctx i) = Some (8 * i - 8)" "sl_inputs (slavelist bus_ctx i) = Some (12 * i + 100)"
  by (simp_all add: bus_ctx_def) (simp add: io_ctx_def upd_group_def)

lemma bus_ctx_ready: "bus_ready 8 bus_ctx"
  unfolding bus_ready_def slots_ok_def apart_def bus_ctx_fields by auto

lemma bus_ctx_cycle: "cycle_ok script_os (\<lambda>(t, q). t * 1000) 8 bus_ctx"
  using bus_ctx_ready io_ctx_ok unfolding cycle_ok_def bus_ready_def by (simp add: bus_ctx_fields entries_ok_def)

end
