(* ===== verification/Sequencers.thy ===== *)
theory Sequencers
  imports Bus
begin

text \<open>
  The programs that command the control words by the number of the cycle, without looking at the status words:
  \<open>demo/eRob_CSP.cpp\<close>, \<open>eRob_CSP_subscriber.cpp\<close>, \<open>eRob_TC.cpp\<close>, \<open>eRob_CST.cpp\<close>, \<open>eRob_PT.cpp\<close>. One set of output data
  is sent to all slaves, computed from the input data of the last slave; the steps are counted in the cycles whose working counter
  is as expected.

  Positions and velocities are 32-bit words, on which the sums of the source wrap. The trajectory planners compute with floating point
  numbers; they are arguments of the definitions, and nothing is assumed of them. What another thread writes (the commanded position) is
  part of the state of a program.
\<close>

section \<open>The common cycle\<close>

definition seq_word :: "nat \<Rightarrow> nat \<Rightarrow> nat \<Rightarrow> nat \<Rightarrow> u16" where
  "seq_word a b e step = (if step \<le> a then 0x0080 else if step \<le> b then 0x0006 else if step \<le> e then 0x0007 else 0x000F)"

definition count_step :: "nat \<Rightarrow> nat \<Rightarrow> nat" where
  "count_step cap step = (if step < cap then step + 1 else step)"

definition read_last :: "txpdo_t \<Rightarrow> 'e ecx_contextt \<Rightarrow> txpdo_t option" where
  "read_last txpdo c = foldM (\<lambda>slave _. read_inputs slave c) [1..<slavecount c + 1] txpdo"

definition write_all :: "(buf \<Rightarrow> nat \<Rightarrow> buf) \<Rightarrow> nat \<Rightarrow> 'e ecx_contextt \<Rightarrow> 'e ecx_contextt option" where
  "write_all put n c = foldM (\<lambda>slave. write_outputs put n slave) [1..<slavecount c + 1] c"

text \<open>\<open>control\<close> computes the output data of a step and counts it; \<open>put\<close> lays the data out.\<close>

definition seq_work :: "(txpdo_t \<Rightarrow> 's \<Rightarrow> 's) \<Rightarrow> ('s \<Rightarrow> buf \<Rightarrow> nat \<Rightarrow> buf) \<Rightarrow> nat \<Rightarrow> int \<Rightarrow> int \<Rightarrow>
    (txpdo_t \<times> 's) \<times> 'e ecx_contextt \<Rightarrow> ((txpdo_t \<times> 's) \<times> 'e ecx_contextt) option" where
  "seq_work control put n expectedWKC wkc = (\<lambda>((txpdo, s), c).
     if wkc \<ge> expectedWKC
     then do {
       txpdo \<leftarrow> read_last txpdo c;
       let s = control txpdo s;
       c \<leftarrow> write_all (put s) n c;
       Some ((txpdo, s), c) }
     else Some ((txpdo, s), c))"

text \<open>The data of all slaves before the first cycle.\<close>

definition seq_start :: "'e os_ops \<Rightarrow> ('s \<Rightarrow> buf \<Rightarrow> nat \<Rightarrow> buf) \<Rightarrow> nat \<Rightarrow> 's \<Rightarrow> 'e ecx_contextt \<Rightarrow> 'e ecx_contextt option" where
  "seq_start E put n s c = do {
     c \<leftarrow> write_all (put s) n c;
     (_, c) \<leftarrow> ecx_send_processdata E c;
     Some c }"

section \<open>The programs\<close>

text \<open>Positions: the cyclic synchronous position mode.\<close>

record pos_rxpdo =
  pr_controlword :: u16
  pr_target_position :: u32
  pr_mode_of_operation :: u8
  pr_padding :: u8

definition put_pos :: "pos_rxpdo \<Rightarrow> buf \<Rightarrow> nat \<Rightarrow> buf" where
  "put_pos r b off = (wr32 (wr16 b off (pr_controlword r)) (off + 2) (pr_target_position r))
     (off + 6 := pr_mode_of_operation r, off + 7 := pr_padding r)"

definition pos_command :: "u16 \<Rightarrow> u32 \<Rightarrow> pos_rxpdo \<Rightarrow> pos_rxpdo" where
  "pos_command w p r = r\<lparr>pr_controlword := w, pr_target_position := p\<rparr>"

abbreviation first_pos :: pos_rxpdo where
  "first_pos \<equiv> \<lparr>pr_controlword = 0x0080, pr_target_position = 0, pr_mode_of_operation = 8, pr_padding = 0\<rparr>"

text \<open>\<open>'f\<close> are the floating point numbers of the planner.\<close>

record 'f csp_planner =
  cp_initialized :: bool
  cp_target_position :: u32
  cp_current_position :: 'f
  cp_current_velocity :: 'f

record 'f csp_t =
  csp_rxpdo :: pos_rxpdo
  csp_step :: nat
  csp_g_motion_planner :: "'f csp_planner"
  csp_have_command :: bool
  csp_commanded_position :: u32

definition csp_control :: "('f csp_planner \<Rightarrow> u32 \<Rightarrow> u32 \<times> 'f csp_planner) \<Rightarrow> txpdo_t \<Rightarrow> 'f csp_t \<Rightarrow> 'f csp_t" where
  "csp_control plan_trajectory txpdo s = (let
     send = (\<lambda>w p s. s\<lparr>csp_rxpdo := pos_command w p (csp_rxpdo s)\<rparr>);
     step = csp_step s; actual = tx_actual_position txpdo;
     s = (if step \<le> 400 then send 0x0080 0 s
       else if step \<le> 600 then send 0x0006 actual s
       else if step \<le> 800 then send 0x0007 actual s
       else if step \<le> 1000 then send 0x000F actual s
       else let s = s\<lparr>csp_rxpdo := (csp_rxpdo s)\<lparr>pr_mode_of_operation := 8\<rparr>\<rparr> in
         if csp_have_command s
         then let (planned, planner) = plan_trajectory ((csp_g_motion_planner s)\<lparr>cp_target_position := csp_commanded_position s\<rparr>) actual
           in send 0x000F planned (s\<lparr>csp_g_motion_planner := planner\<rparr>)
         else send 0x000F actual (s\<lparr>csp_g_motion_planner := (csp_g_motion_planner s)\<lparr>cp_initialized := False\<rparr>\<rparr>))
   in s\<lparr>csp_step := count_step 1200 (csp_step s)\<rparr>)"

text \<open>The socket thread publishes a destination.\<close>

definition csp_command :: "u32 \<Rightarrow> 'f csp_t \<Rightarrow> 'f csp_t" where
  "csp_command target s = s\<lparr>csp_commanded_position := target, csp_have_command := True\<rparr>"

definition csp_init :: "'f csp_planner \<Rightarrow> 'f csp_t" where
  "csp_init planner = \<lparr>csp_rxpdo = first_pos, csp_step = 0, csp_g_motion_planner = planner, csp_have_command = False, csp_commanded_position = 0\<rparr>"

text \<open>\<open>TC\<close> and \<open>CSP_subscriber\<close>: the server hands over a target.\<close>

record 'f motion_planner =
  mp_start_position :: u32
  mp_target_position :: u32
  mp_smooth_target :: u32
  mp_current_position :: u32
  mp_current_velocity :: 'f
  mp_is_moving :: bool

record 'f tc_t =
  tc_rxpdo :: pos_rxpdo
  tc_step :: nat
  tc_g_motion_planner :: "'f motion_planner"
  tc_new_target :: u32
  tc_received_target :: u32
  tc_target_updated :: bool

definition tc_init :: "'f motion_planner \<Rightarrow> 'f tc_t" where
  "tc_init planner = \<lparr>tc_rxpdo = first_pos, tc_step = 0, tc_g_motion_planner = planner, tc_new_target = 0, tc_received_target = 0, tc_target_updated = False\<rparr>"

definition tc_receive :: "u32 \<Rightarrow> 'f tc_t \<Rightarrow> 'f tc_t" where
  "tc_receive new_target s = s\<lparr>tc_received_target := new_target, tc_target_updated := True\<rparr>"

definition take_target :: "'f tc_t \<Rightarrow> bool \<times> 'f tc_t" where
  "take_target s = (if tc_target_updated s
     then (True, s\<lparr>tc_new_target := tc_received_target s, tc_target_updated := False\<rparr>) else (False, s))"

text \<open>The normal operation: the planner moves to the target; the results are the planned position and the state.\<close>

definition tc_plan :: "('f motion_planner \<Rightarrow> u32 \<Rightarrow> u32 \<times> 'f motion_planner) \<Rightarrow> bool \<Rightarrow> u32 \<Rightarrow> 'f tc_t \<Rightarrow> u32 \<times> 'f tc_t" where
  "tc_plan plan_trajectory need_update actual s = (let
     planner = (if need_update then (tc_g_motion_planner s)\<lparr>mp_target_position := tc_new_target s, mp_is_moving := True\<rparr> else tc_g_motion_planner s);
     (planned, planner) = plan_trajectory planner actual
   in (planned, s\<lparr>tc_g_motion_planner := planner\<rparr>))"

definition tc_send :: "u16 \<Rightarrow> u32 \<Rightarrow> 'f tc_t \<Rightarrow> 'f tc_t" where
  "tc_send w p s = s\<lparr>tc_rxpdo := pos_command w p (tc_rxpdo s)\<rparr>"

definition tc_mode :: "'f tc_t \<Rightarrow> 'f tc_t" where
  "tc_mode s = s\<lparr>tc_rxpdo := (tc_rxpdo s)\<lparr>pr_mode_of_operation := 8\<rparr>\<rparr>"

definition tc_count :: "'f tc_t \<Rightarrow> 'f tc_t" where
  "tc_count s = s\<lparr>tc_step := count_step 1200 (tc_step s)\<rparr>"

definition tc_control :: "('f motion_planner \<Rightarrow> u32 \<Rightarrow> u32 \<times> 'f motion_planner) \<Rightarrow> txpdo_t \<Rightarrow> 'f tc_t \<Rightarrow> 'f tc_t" where
  "tc_control plan_trajectory txpdo s = (let
     (need_update, s) = take_target s;
     step = tc_step s; actual = tx_actual_position txpdo
   in tc_count
      (if step \<le> 400 then tc_send 0x0080 0 s
       else if step \<le> 600 then tc_send 0x0006 actual s
       else if step \<le> 800 then tc_send 0x0007 actual s
       else if step \<le> 1000 then tc_send 0x000F actual s
       else let (planned_pos, s) = tc_plan plan_trajectory need_update actual s
         in tc_mode (tc_send 0x000F (actual + 20) s)))"

definition sub_control :: "('f motion_planner \<Rightarrow> u32 \<Rightarrow> u32 \<times> 'f motion_planner) \<Rightarrow> txpdo_t \<Rightarrow> 'f tc_t \<Rightarrow> 'f tc_t" where
  "sub_control plan_trajectory txpdo s = (let
     (need_update, s) = take_target s;
     step = tc_step s; actual = tx_actual_position txpdo
   in tc_count
      (if step \<le> 1000 then tc_send 0x0080 0 s
       else if step \<le> 1600 then tc_send 0x0006 actual s
       else if step \<le> 2000 then tc_send 0x0007 actual s
       else if step \<le> 2400 then tc_send 0x000F actual s
       else let (planned_pos, s) = tc_plan plan_trajectory need_update actual s
         in tc_mode (tc_send 0x000F planned_pos s)))"

text \<open>Torques: the cyclic synchronous and the profile torque mode.\<close>

record cst_t =
  cst_controlword :: u16
  cst_target_torque :: u16
  cst_mode_of_operation :: u8
  cst_padding :: u8
  cst_step :: nat

definition put_cst :: "cst_t \<Rightarrow> buf \<Rightarrow> nat \<Rightarrow> buf" where
  "put_cst r b off = (wr16 (wr16 b off (cst_controlword r)) (off + 2) (cst_target_torque r))
     (off + 4 := cst_mode_of_operation r, off + 5 := cst_padding r)"

definition cst_init :: cst_t where
  "cst_init = \<lparr>cst_controlword = 0x0080, cst_target_torque = 0, cst_mode_of_operation = 10, cst_padding = 0, cst_step = 0\<rparr>"

definition cst_control :: "txpdo_t \<Rightarrow> cst_t \<Rightarrow> cst_t" where
  "cst_control txpdo s = (let
     send = (\<lambda>w t. s\<lparr>cst_controlword := w, cst_target_torque := t\<rparr>);
     step = cst_step s;
     s = (if step \<le> 4000 then send 0x0080 0
       else if step \<le> 5300 then send 0x0006 0
       else if step \<le> 6000 then send 0x0007 0
       else if step \<le> 7000 then send 0x000F 0
       else send 0x000F 50)
   in s\<lparr>cst_mode_of_operation := 10, cst_padding := 0, cst_step := count_step 8000 (cst_step s)\<rparr>)"

record pt_t =
  pt_controlword :: u16
  pt_target_torque :: u16
  pt_torque_slope :: u32
  pt_max_torque :: u16
  pt_mode_of_operation :: u8
  pt_padding :: u8
  pt_step :: nat

definition put_pt :: "pt_t \<Rightarrow> buf \<Rightarrow> nat \<Rightarrow> buf" where
  "put_pt r b off = (wr16 (wr32 (wr16 (wr16 b off (pt_controlword r)) (off + 2) (pt_target_torque r)) (off + 4) (pt_torque_slope r))
     (off + 8) (pt_max_torque r))(off + 10 := pt_mode_of_operation r, off + 11 := pt_padding r)"

definition pt_control :: "txpdo_t \<Rightarrow> pt_t \<Rightarrow> pt_t" where
  "pt_control txpdo s = (let
     send = (\<lambda>w t. s\<lparr>pt_controlword := w, pt_target_torque := t\<rparr>);
     step = pt_step s;
     s = (if step \<le> 2000 then send 0x0080 0
       else if step \<le> 2300 then send 0x0006 0
       else if step \<le> 2600 then send 0x0007 0
       else if step \<le> 3000 then send 0x000F 0
       else send 0x000F 50)
   in s\<lparr>pt_torque_slope := 100, pt_max_torque := 100, pt_mode_of_operation := 4, pt_padding := 0, pt_step := count_step 8000 (pt_step s)\<rparr>)"

text \<open>\<open>PT\<close> also asks every slave that is not operational to become so.\<close>

definition pt_read :: "'e os_ops \<Rightarrow> nat \<Rightarrow> txpdo_t \<times> 'e ecx_contextt \<Rightarrow> (txpdo_t \<times> 'e ecx_contextt) option" where
  "pt_read E slave = (\<lambda>(_, c). do {
     txpdo \<leftarrow> read_inputs slave c;
     c \<leftarrow> (if sl_state (slavelist c slave) \<noteq> EC_STATE_OPERATIONAL then request_state E slave EC_STATE_OPERATIONAL c else Some c);
     Some (txpdo, c) })"

definition pt_work :: "'e os_ops \<Rightarrow> int \<Rightarrow> int \<Rightarrow> (txpdo_t \<times> pt_t) \<times> 'e ecx_contextt \<Rightarrow> ((txpdo_t \<times> pt_t) \<times> 'e ecx_contextt) option" where
  "pt_work E expectedWKC wkc = (\<lambda>((txpdo, s), c).
     if wkc \<ge> expectedWKC
     then do {
       (txpdo, c) \<leftarrow> foldM (pt_read E) [1..<slavecount c + 1] (txpdo, c);
       let s = pt_control txpdo s;
       c \<leftarrow> write_all (put_pt s) 12 c;
       Some ((txpdo, s), c) }
     else Some ((txpdo, s), c))"

abbreviation csp_work where "csp_work plan \<equiv> seq_work (csp_control plan) (\<lambda>s. put_pos (csp_rxpdo s)) 8"
abbreviation tc_work where "tc_work plan \<equiv> seq_work (tc_control plan) (\<lambda>s. put_pos (tc_rxpdo s)) 8"
abbreviation sub_work where "sub_work plan \<equiv> seq_work (sub_control plan) (\<lambda>s. put_pos (tc_rxpdo s)) 8"
abbreviation cst_work where "cst_work \<equiv> seq_work cst_control put_cst 6"

section \<open>The contract of a sequencer\<close>

lemma read_last_slot:
  assumes "slots_ok n c"
  shows "read_last tx c = Some (if slavecount c = 0 then tx else get_txpdo (IOmap c) (in_at c (slavecount c)))"
proof -
  have "foldM (\<lambda>slave _. read_inputs slave c) [1..<Suc k] tx = Some (if k = 0 then tx else get_txpdo (IOmap c) (in_at c k))" if "k \<le> slavecount c" for k
    using that
  proof (induction k)
    case (Suc k)
    with read_inputs_slot [OF assms, of "Suc k" c] show ?case unfolding foldM_last by simp
  qed simp
  then show ?thesis by (simp add: read_last_def del: upt_Suc)
qed

lemma write_all_slots:
  assumes c: "slots_ok n c" and w: "\<And>m off. view (put m off) off = w"
    and v: "\<And>m m' off. (\<And>x. off \<le> x \<Longrightarrow> x < off + n \<Longrightarrow> m x = m' x) \<Longrightarrow> view m off = view m' off"
    and o: "\<And>m off x. x < off \<or> off + n \<le> x \<Longrightarrow> put m off x = m x"
  shows "\<exists>m. write_all put n c = Some (c\<lparr>IOmap := m\<rparr>) \<and> (apart n c \<longrightarrow> (\<forall>i \<in> {1..slavecount c}. view m (out_at c i) = w))"
  unfolding write_all_def by (rule write_each_slots [where put = "\<lambda>_. put" and w = "\<lambda>_. w" and view = view]) (rule c w v o; assumption)+

lemma word_view: "2 \<le> n \<Longrightarrow> (\<And>x. off \<le> x \<Longrightarrow> x < off + n \<Longrightarrow> m x = m' x) \<Longrightarrow> rd16 m off = rd16 m' off"
  by (rule get_le_cong) auto

text \<open>
  \<open>word\<close> is the control word of a state, \<open>stp\<close> its step. \<open>posted\<close>: the word stands in the image of all slaves.
\<close>

definition posted :: "u16 \<Rightarrow> 'e ecx_contextt \<Rightarrow> bool" where
  "posted w c \<longleftrightarrow> (\<forall>i \<in> {1..slavecount c}. rd16 (IOmap c) (out_at c i) = w)"

text \<open>Before a cycle another thread may give a command to the program.\<close>

definition commanded :: "(u32 \<Rightarrow> 's \<Rightarrow> 's) \<Rightarrow> u32 option \<Rightarrow> 's \<Rightarrow> 's" where
  "commanded command v s = (case v of None \<Rightarrow> s | Some v \<Rightarrow> command v s)"

definition seq_run :: "(u32 \<Rightarrow> 's \<Rightarrow> 's) \<Rightarrow> (int \<Rightarrow> (txpdo_t \<times> 's) \<times> 'e ecx_contextt \<Rightarrow> ((txpdo_t \<times> 's) \<times> 'e ecx_contextt) option) \<Rightarrow>
    (u32 option \<times> bus_event) list \<Rightarrow> (txpdo_t \<times> 's) \<times> 'e ecx_contextt \<times> (nat \<Rightarrow> drive) \<Rightarrow> ((txpdo_t \<times> 's) \<times> 'e ecx_contextt \<times> (nat \<Rightarrow> drive)) option" where
  "seq_run command work = foldM (\<lambda>(v, e) ((txpdo, s), c, d). bus_cycle work e ((txpdo, commanded command v s), c, d))"

text \<open>The number of cycles that count.\<close>

definition counted :: "int \<Rightarrow> (u32 option \<times> bus_event) list \<Rightarrow> nat" where
  "counted X evs = length (filter (\<lambda>(_, wkc, _). wkc \<ge> X) evs)"

lemma counted_snoc [simp]: "counted X [] = 0" "counted X (evs @ [(v, wkc, r)]) = (if wkc \<ge> X then Suc (counted X evs) else counted X evs)"
  by (simp_all add: counted_def)

locale sequencer =
  fixes control :: "txpdo_t \<Rightarrow> 's \<Rightarrow> 's" and put :: "'s \<Rightarrow> buf \<Rightarrow> nat \<Rightarrow> buf" and n :: nat and X :: int
    and word :: "'s \<Rightarrow> u16" and stp :: "'s \<Rightarrow> nat" and a b e cap :: nat
    and command :: "u32 \<Rightarrow> 's \<Rightarrow> 's"
  assumes word_law: "word (control tx s) = seq_word a b e (stp s)"
    and step_law: "stp (control tx s) = count_step cap (stp s)"
    and put_word: "rd16 (put s m off) off = word s"
    and put_other: "x < off \<or> off + n \<le> x \<Longrightarrow> put s m off x = m x"
    and command_law: "word (command v s) = word s" "stp (command v s) = stp s"
    and layout: "2 \<le> n" "a < b" "b < e"
begin

lemma work_slots:
  assumes "slots_ok n c"
  shows "\<exists>tx' m. seq_work control put n X wkc ((tx, s), c) = Some ((tx', if wkc \<ge> X then control tx' s else s), c\<lparr>IOmap := m\<rparr>) \<and>
    (apart n c \<longrightarrow> (if wkc \<ge> X then posted (word (control tx' s)) (c\<lparr>IOmap := m\<rparr>) else m = IOmap c))"
proof (cases "wkc \<ge> X")
  case True
  obtain tx' where t: "read_last tx c = Some tx'" using read_last_slot [OF assms] by blast
  obtain m where m: "write_all (put (control tx' s)) n c = Some (c\<lparr>IOmap := m\<rparr>)"
    "apart n c \<longrightarrow> (\<forall>i \<in> {1..slavecount c}. rd16 m (out_at c i) = word (control tx' s))"
    using write_all_slots [where view = rd16 and put = "put (control tx' s)", OF assms put_word word_view [OF layout(1)] put_other] by blast
  show ?thesis using True t m by (intro exI [of _ tx'] exI [of _ m]) (simp add: seq_work_def posted_def)
next
  case False
  then show ?thesis by (intro exI [of _ tx] exI [of _ "IOmap c"]) (simp add: seq_work_def)
qed

end

sublocale sequencer \<subseteq> rt_program "seq_work control put n X" n
proof
  fix c :: "'e ecx_contextt" and wkc s
  assume "slots_ok n c"
  from work_slots [OF this, of wkc "fst s" "snd s"]
  show "\<exists>s' m. seq_work control put n X wkc (s, c) = Some (s', c\<lparr>IOmap := m\<rparr>)" by auto
qed

context sequencer begin

text \<open>One cycle of the bus: every slave that is connected hears the word of the state.\<close>

lemma bus_word:
  assumes c: "bus_ready n c" "posted (word s) c"
  shows "\<exists>tx' s' c' d'. bus_cycle (seq_work control put n X) (wkc, t, ev) ((tx, s), c, d) = Some ((tx', s'), c', d') \<and>
    s' = (if wkc \<ge> X then control tx' s else s) \<and> same_tables c c' \<and> posted (word s') c' \<and>
    (\<forall>i \<in> {1..slavecount c}. d' i = (if connected wkc i then drive_obey (word s') (upset (ev i) (d i)) else upset (ev i) (d i)))"
proof -
  let ?d = "\<lambda>i. upset (ev i) (d i)"
  let ?c = "report t ?d c"
  have ok: "slots_ok n ?c" "apart n ?c" using c(1) by (simp_all add: bus_ready_def)
  from work_slots [OF ok(1), of wkc tx s] ok(2) obtain tx' m where
    1: "seq_work control put n X wkc ((tx, s), ?c) = Some ((tx', if wkc \<ge> X then control tx' s else s), ?c\<lparr>IOmap := m\<rparr>)"
    "if wkc \<ge> X then posted (word (control tx' s)) (?c\<lparr>IOmap := m\<rparr>) else m = IOmap ?c" by blast
  define s' where "s' = (if wkc \<ge> X then control tx' s else s)"
  have "rd16 (IOmap ?c) (out_at c i) = word s" if i: "i \<in> {1..slavecount c}" for i
  proof -
    have "rd16 (IOmap ?c) (out_at c i) = rd16 (IOmap c) (out_at c i)"
    proof (rule get_le_cong)
      fix x assume "out_at c i \<le> x" "x < out_at c i + 2"
      then have "in_slot c n i x" using layout(1) by (simp add: in_slot_def)
      with ok(2) i show "IOmap ?c x = IOmap c x" by (intro report_outputs) simp_all
    qed
    then show ?thesis using c(2) i by (simp add: posted_def)
  qed
  then have p: "posted (word s') (?c\<lparr>IOmap := m\<rparr>)"
    using 1(2) by (simp add: posted_def s'_def split: if_splits)
  let ?d' = "\<lambda>i. if connected wkc i then drive_obey (rd16 m (out_at c i)) (?d i) else ?d i"
  have "bus_cycle (seq_work control put n X) (wkc, t, ev) ((tx, s), c, d) = Some ((tx', s'), ?c\<lparr>IOmap := m\<rparr>, ?d')"
    by (simp add: bus_cycle_def Let_def 1(1) s'_def cong: if_cong)
  moreover have "same_tables c (?c\<lparr>IOmap := m\<rparr>)" by (simp add: same_tables_def)
  moreover have "\<forall>i \<in> {1..slavecount c}. ?d' i = (if connected wkc i then drive_obey (word s') (?d i) else ?d i)"
    using p by (simp add: posted_def)
  ultimately show ?thesis using p s'_def by blast
qed

text \<open>
  An invariant of the number of cycles counted, the state of the program and one drive; \<open>P\<close> restricts the events.
\<close>

lemma run_invariant:
  assumes c: "bus_ready n c" "posted (word s) c" "i \<in> {1..slavecount c}" "J k s (d i)" "\<forall>x \<in> set evs. P (snd x)"
    and command: "\<And>k v s d. J k s d \<Longrightarrow> J k (command v s) d"
    and heard: "\<And>k wkc t ev tx s d. P (wkc, t, ev) \<Longrightarrow> connected wkc i \<Longrightarrow> J k s d \<Longrightarrow>
      let s' = (if wkc \<ge> X then control tx s else s) in J (if wkc \<ge> X then Suc k else k) s' (drive_obey (word s') (upset (ev i) d))"
    and unheard: "\<And>k wkc t ev tx s d. P (wkc, t, ev) \<Longrightarrow> \<not> connected wkc i \<Longrightarrow> J k s d \<Longrightarrow>
      J (if wkc \<ge> X then Suc k else k) (if wkc \<ge> X then control tx s else s) (upset (ev i) d)"
  shows "\<exists>tx' s' c' d'. seq_run command (seq_work control put n X) evs ((tx, s), c, d) = Some ((tx', s'), c', d') \<and>
    same_tables c c' \<and> posted (word s') c' \<and> J (k + counted X evs) s' (d' i)"
  using c(5)
proof (induction evs rule: rev_induct)
  case Nil
  then show ?case using c by (simp add: seq_run_def)
next
  case (snoc x evs)
  then obtain tx1 s1 c1 d1 where 1: "seq_run command (seq_work control put n X) evs ((tx, s), c, d) = Some ((tx1, s1), c1, d1)" "same_tables c c1"
    "posted (word s1) c1" "J (k + counted X evs) s1 (d1 i)" by auto
  obtain v wkc t ev where x: "x = (v, wkc, t, ev)" by (cases x)
  let ?s = "commanded command v s1"
  have s: "posted (word ?s) c1" "J (k + counted X evs) ?s (d1 i)"
    using 1(3,4) command command_law(1) by (auto simp: commanded_def split: option.split)
  have n: "slavecount c1 = slavecount c" using 1(2) by (simp add: same_tables_def)
  from bus_word [OF bus_ready_same [OF c(1) 1(2)] s(1), of wkc t ev tx1 d1] obtain tx2 s2 c2 d2 where
    2: "bus_cycle (seq_work control put n X) (wkc, t, ev) ((tx1, ?s), c1, d1) = Some ((tx2, s2), c2, d2)"
    "same_tables c1 c2" "posted (word s2) c2" "s2 = (if wkc \<ge> X then control tx2 ?s else ?s)"
    "d2 i = (if connected wkc i then drive_obey (word s2) (upset (ev i) (d1 i)) else upset (ev i) (d1 i))"
    unfolding n using c(3) by blast
  have P: "P (wkc, t, ev)" using snoc.prems by (simp add: x)
  have "J (k + counted X (evs @ [x])) s2 (d2 i)"
    using heard [OF P _ s(2), of tx2] unheard [OF P _ s(2), of tx2] by (cases "connected wkc i"; cases "wkc \<ge> X") (simp_all add: 2(4,5) Let_def x)
  then show ?case
    using 1(1) 2(1-3) same_tables_trans [OF 1(2) 2(2)] by (auto simp: seq_run_def foldM_append x)
qed

text \<open>The word after \<open>k\<close> cycles that counted.\<close>

definition at_step :: "nat \<Rightarrow> 's \<Rightarrow> bool" where
  "at_step k s \<longleftrightarrow> stp s = min cap k \<and> word s = (if k = 0 then 0x0080 else seq_word a b e (min cap (k - 1)))"

lemma at_step_command: "at_step k s \<Longrightarrow> at_step k (command v s)"
  by (simp add: at_step_def command_law)

lemma at_step_next: "at_step k s \<Longrightarrow> at_step (if wkc \<ge> X then Suc k else k) (if wkc \<ge> X then control tx s else s)"
  by (auto simp: at_step_def word_law step_law count_step_def min_def)

lemma run_steps:
  assumes "bus_ready n c" "posted (word s) c" "at_step k s"
    and "seq_run command (seq_work control put n X) evs ((tx, s), c, d) = Some ((tx', s'), c', d')" "1 \<le> slavecount c"
  shows "at_step (k + counted X evs) s'" "same_tables c c'" "posted (word s') c'"
proof -
  have "\<exists>tx' s' c' d'. seq_run command (seq_work control put n X) evs ((tx, s), c, d) = Some ((tx', s'), c', d') \<and>
    same_tables c c' \<and> posted (word s') c' \<and> at_step (k + counted X evs) s'"
    using run_invariant [where J = "\<lambda>k s d. at_step k s" and P = "\<lambda>_. True" and i = 1, OF assms(1,2)] assms(3,5) at_step_command at_step_next
    by (simp add: Let_def)
  then show "at_step (k + counted X evs) s'" "same_tables c c'" "posted (word s') c'" using assms(4) by auto
qed

lemma start_posted:
  assumes "bus_ready n c" "word s = 0x0080"
  shows "\<exists>c0. write_all (put s) n c = Some c0 \<and> bus_ready n c0 \<and> posted (word s) c0 \<and> same_tables c c0"
proof -
  have ok: "slots_ok n c" "apart n c" using assms(1) by (simp_all add: bus_ready_def)
  from write_all_slots [where view = rd16 and put = "put s", OF ok(1) put_word word_view [OF layout(1)] put_other] ok(2) obtain m where
    m: "write_all (put s) n c = Some (c\<lparr>IOmap := m\<rparr>)" "\<forall>i \<in> {1..slavecount c}. rd16 m (out_at c i) = word s" by blast
  have t: "same_tables c (c\<lparr>IOmap := m\<rparr>)" by (simp add: same_tables_def)
  show ?thesis using m t bus_ready_same [OF assms(1) t] by (intro exI [of _ "c\<lparr>IOmap := m\<rparr>"]) (simp add: posted_def)
qed

end

text \<open>
  A drive that can be enabled by the words in sequence: it is not in a fault, or the fault can be reset. \<open>follows\<close> is what it has come to
  when it has heard a word.
\<close>

definition fresh :: "drive \<Rightarrow> bool" where
  "fresh d \<longleftrightarrow> dr_state d \<notin> {UNKNOWN, FAULT_REACTION_ACTIVE} \<and> (dr_state d = FAULT \<longrightarrow> \<not> dr_cause d \<and> dr_cw d AND 0x80 = 0)"

definition follows :: "u16 \<Rightarrow> drive \<Rightarrow> bool" where
  "follows w d \<longleftrightarrow> w = 0x0080 \<and> dr_state d \<in> {SW_ON_DISABLED, READY_TO_SWITCH_ON, SWITCHED_ON, OPERATION_ENABLED} \<or>
     w = 0x0006 \<and> dr_state d = READY_TO_SWITCH_ON \<or> w = 0x0007 \<and> dr_state d = SWITCHED_ON \<or> w = 0x000F \<and> dr_state d = OPERATION_ENABLED"

lemma fresh_follows: "fresh d \<Longrightarrow> follows 0x0080 (drive_obey 0x0080 d)"
  by (cases "dr_state d") (auto simp: fresh_def follows_def drive_next_def drive_cmds)

definition word_next :: "u16 \<Rightarrow> u16 \<Rightarrow> bool" where
  "word_next w w' \<longleftrightarrow> (w, w') \<in> {(0x0080, 0x0080), (0x0080, 0x0006), (0x0006, 0x0006), (0x0006, 0x0007), (0x0007, 0x0007), (0x0007, 0x000F), (0x000F, 0x000F)}"

lemma follows_next: "follows w d \<Longrightarrow> word_next w w' \<Longrightarrow> follows w' (drive_obey w' d)"
proof -
  assume f: "follows w d" and "word_next w w'"
  then consider "w = 0x0080" "w' = 0x0080" | "w = 0x0080" "w' = 0x0006" | "w = 0x0006" "w' = 0x0006" | "w = 0x0006" "w' = 0x0007"
    | "w = 0x0007" "w' = 0x0007" | "w = 0x0007" "w' = 0x000F" | "w = 0x000F" "w' = 0x000F" by (simp add: word_next_def) blast
  then show ?thesis
    using f by cases (auto simp: follows_def drive_next_def drive_cmds)
qed

lemma seq_word_next: "a < b \<Longrightarrow> b < e \<Longrightarrow> word_next (seq_word a b e j) (seq_word a b e (Suc j))"
  by (auto simp: word_next_def seq_word_def)

lemma word_next_refl: "word_next (seq_word a b e j) (seq_word a b e j)"
  by (auto simp: word_next_def seq_word_def)

lemma seq_word_no_reset: "a < j \<Longrightarrow> seq_word a b e j AND 0x80 = 0"
  by (simp add: seq_word_def)

lemma faulty_kept:
  shows "dr_state d \<in> {FAULT, FAULT_REACTION_ACTIVE} \<Longrightarrow> dr_state (upset ev d) \<in> {FAULT, FAULT_REACTION_ACTIVE}"
    and "w AND 0x80 = 0 \<Longrightarrow> dr_state d \<in> {FAULT, FAULT_REACTION_ACTIVE} \<Longrightarrow> dr_state (drive_obey w d) \<in> {FAULT, FAULT_REACTION_ACTIVE}"
  by (auto simp: upset_def drive_next_def split: option.split)

lemma off_kept:
  shows "dr_state d \<notin> {SWITCHED_ON, OPERATION_ENABLED} \<Longrightarrow> dr_state (upset ev d) \<notin> {SWITCHED_ON, OPERATION_ENABLED}"
    and "w \<in> {0x0080, 0x0006} \<Longrightarrow> dr_state d \<notin> {SWITCHED_ON, OPERATION_ENABLED} \<Longrightarrow> dr_state (drive_obey w d) \<notin> {SWITCHED_ON, OPERATION_ENABLED}"
proof -
  show "dr_state d \<notin> {SWITCHED_ON, OPERATION_ENABLED} \<Longrightarrow> dr_state (upset ev d) \<notin> {SWITCHED_ON, OPERATION_ENABLED}"
    by (auto simp: upset_def split: option.split)
  assume "w \<in> {0x0080, 0x0006}" "dr_state d \<notin> {SWITCHED_ON, OPERATION_ENABLED}"
  then show "dr_state (drive_obey w d) \<notin> {SWITCHED_ON, OPERATION_ENABLED}"
    by (cases "dr_state d") (auto simp: drive_next_def drive_cmds)
qed

context sequencer begin

lemma at_step_word_next:
  assumes "at_step k s" "0 < k"
  shows "word_next (word s) (word (if wkc \<ge> X then control tx s else s))"
proof (cases "wkc \<ge> X")
  case True
  show ?thesis
  proof (cases "k \<le> cap")
    case le: True
    then have "min cap k = Suc (min cap (k - 1))" using assms(2) by simp
    then show ?thesis using True assms seq_word_next [OF layout(2,3), of "min cap (k - 1)"] by (simp add: at_step_def word_law)
  next
    case False
    then have "min cap k = cap" "min cap (k - 1) = cap" by simp_all
    then show ?thesis using True assms word_next_refl by (simp add: at_step_def word_law)
  qed
qed (use assms word_next_refl in \<open>simp add: at_step_def\<close>)

lemma first_word: "at_step 0 s \<Longrightarrow> word (if wkc \<ge> X then control tx s else s) = 0x0080"
  by (simp add: at_step_def word_law seq_word_def)

text \<open>A drive that hears all words is in operation enabled when the last one has come.\<close>

lemma enables:
  assumes c: "bus_ready n c" "posted (word s) c" "at_step 0 s" "i \<in> {1..slavecount c}" "fresh (d i)"
    and q: "\<forall>x \<in> set evs. quiet i (snd x)" "e + 2 \<le> counted X evs" "e < cap"
  shows "\<exists>tx' s' c' d'. seq_run command (seq_work control put n X) evs ((tx, s), c, d) = Some ((tx', s'), c', d') \<and> dr_state (d' i) = OPERATION_ENABLED"
proof -
  let ?J = "\<lambda>k s d. at_step k s \<and> (follows (word s) d \<or> k = 0 \<and> fresh d)"
  have "\<exists>tx' s' c' d'. seq_run command (seq_work control put n X) evs ((tx, s), c, d) = Some ((tx', s'), c', d') \<and>
    same_tables c c' \<and> posted (word s') c' \<and> ?J (0 + counted X evs) s' (d' i)"
  proof (rule run_invariant [where J = ?J and P = "quiet i", OF c(1,2,4) _ q(1)])
    show "?J 0 s (d i)" using c(3,5) by simp
    show "?J k (command v s) d" if "?J k s d" for k v s d using that at_step_command by (simp add: command_law)
    fix k wkc t ev tx s d assume P: "quiet i (wkc, t, ev)" and J: "?J k s d"
    then have u: "upset (ev i) d = d" "connected wkc i" by (simp_all add: quiet_def upset_def)
    let ?s = "if wkc \<ge> X then control tx s else s"
    have "follows (word ?s) (drive_obey (word ?s) d)"
    proof (cases "k = 0")
      case True
      have "word ?s = 0x0080" "word s = 0x0080" using first_word J True by (simp_all add: at_step_def)
      moreover have "follows 0x0080 (drive_obey 0x0080 d)"
        using J True fresh_follows follows_next [of "0x0080" d "0x0080"] calculation(2) by (auto simp: word_next_def)
      ultimately show ?thesis by simp
    next
      case False
      then show ?thesis using J at_step_word_next follows_next by blast
    qed
    then show "let s' = ?s in ?J (if wkc \<ge> X then Suc k else k) s' (drive_obey (word s') (upset (ev i) d))"
      using J at_step_next unfolding Let_def u(1) by blast
    show "?J (if wkc \<ge> X then Suc k else k) ?s (upset (ev i) d)" if "\<not> connected wkc i" using u(2) that by simp
  qed
  then obtain tx' s' c' d' where 1: "seq_run command (seq_work control put n X) evs ((tx, s), c, d) = Some ((tx', s'), c', d')"
    "at_step (counted X evs) s'" "follows (word s') (d' i)" using q(2) by auto
  define M where "M = min cap (counted X evs - 1)"
  have "e < M" using q(2,3) by (simp add: M_def)
  then have "word s' = 0x000F" using 1(2) q(2) layout unfolding at_step_def M_def [symmetric] by (simp add: seq_word_def)
  then show ?thesis using 1(1,3) by (auto simp: follows_def)
qed

text \<open>When the first word is no longer sent, a fault stays, whatever happens.\<close>

lemma fault_stays:
  assumes c: "bus_ready n c" "posted (word s) c" "at_step k s" "a + 2 \<le> k" "a < cap" "i \<in> {1..slavecount c}" "dr_state (d i) \<in> {FAULT, FAULT_REACTION_ACTIVE}"
  shows "\<exists>tx' s' c' d'. seq_run command (seq_work control put n X) evs ((tx, s), c, d) = Some ((tx', s'), c', d') \<and> dr_state (d' i) \<in> {FAULT, FAULT_REACTION_ACTIVE}"
proof -
  let ?J = "\<lambda>k s d. at_step k s \<and> a + 2 \<le> k \<and> dr_state d \<in> {FAULT, FAULT_REACTION_ACTIVE}"
  have "\<exists>tx' s' c' d'. seq_run command (seq_work control put n X) evs ((tx, s), c, d) = Some ((tx', s'), c', d') \<and>
    same_tables c c' \<and> posted (word s') c' \<and> ?J (k + counted X evs) s' (d' i)"
  proof (rule run_invariant [where J = ?J and P = "\<lambda>_. True", OF c(1,2,6)])
    show "?J k s (d i)" using c(3,4,7) by simp
    show "?J k (command v s) d" if "?J k s d" for k v s d using that at_step_command by simp
    fix k wkc t ev tx s and d :: drive assume J: "?J k s d"
    let ?s = "if wkc \<ge> X then control tx s else s" and ?k = "if wkc \<ge> X then Suc k else k"
    have at: "at_step ?k ?s" "a + 2 \<le> ?k" using J at_step_next by auto
    have u: "dr_state (upset (ev i) d) \<in> {FAULT, FAULT_REACTION_ACTIVE}" using J faulty_kept(1) by blast
    have "a < min cap (?k - 1)" using at(2) c(5) by simp
    then have "word ?s AND 0x80 = 0" using at by (simp add: at_step_def seq_word_no_reset)
    then have "dr_state (drive_obey (word ?s) (upset (ev i) d)) \<in> {FAULT, FAULT_REACTION_ACTIVE}" using u by (rule faulty_kept(2))
    then show "let s' = ?s in ?J ?k s' (drive_obey (word s') (upset (ev i) d))" using at unfolding Let_def by blast
    show "?J ?k ?s (upset (ev i) d)" using at u by blast
  qed simp
  then show ?thesis by blast
qed

text \<open>When the steps end below the second limit, no drive is switched on.\<close>

lemma never_switches_on:
  assumes c: "bus_ready n c" "posted (word s) c" "at_step 0 s" "cap \<le> b" "i \<in> {1..slavecount c}" "dr_state (d i) \<notin> {SWITCHED_ON, OPERATION_ENABLED}"
  shows "\<exists>tx' s' c' d'. seq_run command (seq_work control put n X) evs ((tx, s), c, d) = Some ((tx', s'), c', d') \<and>
    word s' \<in> {0x0080, 0x0006} \<and> dr_state (d' i) \<notin> {SWITCHED_ON, OPERATION_ENABLED}"
proof -
  let ?J = "\<lambda>k s d. at_step k s \<and> dr_state d \<notin> {SWITCHED_ON, OPERATION_ENABLED}"
  have low: "word s \<in> {0x0080, 0x0006}" if "at_step k s" for k s using that c(4) by (auto simp: at_step_def seq_word_def min_def)
  have "\<exists>tx' s' c' d'. seq_run command (seq_work control put n X) evs ((tx, s), c, d) = Some ((tx', s'), c', d') \<and>
    same_tables c c' \<and> posted (word s') c' \<and> ?J (0 + counted X evs) s' (d' i)"
  proof (rule run_invariant [where J = ?J and P = "\<lambda>_. True", OF c(1,2,5)])
    show "?J 0 s (d i)" using c(3,6) by simp
    show "?J k (command v s) d" if "?J k s d" for k v s d using that at_step_command by simp
    fix k wkc t ev tx s and d :: drive assume J: "?J k s d"
    let ?s = "if wkc \<ge> X then control tx s else s" and ?k = "if wkc \<ge> X then Suc k else k"
    have at: "at_step ?k ?s" using J at_step_next by auto
    have u: "dr_state (upset (ev i) d) \<notin> {SWITCHED_ON, OPERATION_ENABLED}" using J off_kept(1) by blast
    have "dr_state (drive_obey (word ?s) (upset (ev i) d)) \<notin> {SWITCHED_ON, OPERATION_ENABLED}" using low [OF at] u by (rule off_kept(2))
    then show "let s' = ?s in ?J ?k s' (drive_obey (word s') (upset (ev i) d))" using at unfolding Let_def by blast
    show "?J ?k ?s (upset (ev i) d)" using at u by blast
  qed simp
  then show ?thesis using low by blast
qed

end

section \<open>The programs are sequencers\<close>

lemma put_pos_laws: "rd16 (put_pos r m off) off = pr_controlword r" "x < off \<or> off + 8 \<le> x \<Longrightarrow> put_pos r m off x = m x"
  "rd32 (put_pos r m off) (off + 2) = pr_target_position r"
  by (auto simp: put_pos_def put_le_apply)

lemma csp_control_fields:
  "pr_controlword (csp_rxpdo (csp_control plan tx s)) = seq_word 400 600 800 (csp_step s)"
  "csp_step (csp_control plan tx s) = count_step 1200 (csp_step s)"
  by (auto simp: csp_control_def seq_word_def pos_command_def Let_def split: prod.split)

interpretation csp: sequencer "csp_control plan" "\<lambda>s. put_pos (csp_rxpdo s)" 8 X "\<lambda>s. pr_controlword (csp_rxpdo s)" csp_step 400 600 800 1200 csp_command
  for plan X
  by unfold_locales (simp_all add: csp_control_fields put_pos_laws csp_command_def)

lemma tc_fields [simp]:
  "tc_rxpdo (tc_send w p s) = pos_command w p (tc_rxpdo s)" "tc_step (tc_send w p s) = tc_step s"
  "tc_rxpdo (tc_mode s) = (tc_rxpdo s)\<lparr>pr_mode_of_operation := 8\<rparr>" "tc_step (tc_mode s) = tc_step s"
  "tc_rxpdo (tc_count s) = tc_rxpdo s" "tc_step (tc_count s) = count_step 1200 (tc_step s)"
  "tc_rxpdo (snd (take_target s)) = tc_rxpdo s" "tc_step (snd (take_target s)) = tc_step s"
  "tc_rxpdo (snd (tc_plan plan u act s)) = tc_rxpdo s" "tc_step (snd (tc_plan plan u act s)) = tc_step s"
  by (simp_all add: tc_send_def tc_mode_def tc_count_def take_target_def tc_plan_def Let_def split_beta)

lemma tc_control_fields:
  "pr_controlword (tc_rxpdo (tc_control plan tx s)) = seq_word 400 600 800 (tc_step s)" "tc_step (tc_control plan tx s) = count_step 1200 (tc_step s)"
  "pr_controlword (tc_rxpdo (sub_control plan tx s)) = seq_word 1000 1600 2000 (tc_step s)" "tc_step (sub_control plan tx s) = count_step 1200 (tc_step s)"
  by (simp_all add: tc_control_def sub_control_def seq_word_def pos_command_def Let_def split_beta)

interpretation tc: sequencer "tc_control plan" "\<lambda>s. put_pos (tc_rxpdo s)" 8 X "\<lambda>s. pr_controlword (tc_rxpdo s)" tc_step 400 600 800 1200 tc_receive
  for plan X
  by unfold_locales (simp_all add: tc_control_fields put_pos_laws tc_receive_def)

interpretation sub: sequencer "sub_control plan" "\<lambda>s. put_pos (tc_rxpdo s)" 8 X "\<lambda>s. pr_controlword (tc_rxpdo s)" tc_step 1000 1600 2000 1200 tc_receive
  for plan X
  by unfold_locales (simp_all add: tc_control_fields put_pos_laws tc_receive_def)

interpretation cst: sequencer cst_control put_cst 6 X cst_controlword cst_step 4000 5300 6000 8000 "\<lambda>_ s. s"
  for X
  by unfold_locales (auto simp: cst_control_def seq_word_def put_cst_def put_le_apply Let_def)

interpretation pt: sequencer pt_control put_pt 12 X pt_controlword pt_step 2000 2300 2600 8000 "\<lambda>_ s. s"
  for X
  by unfold_locales (auto simp: pt_control_def seq_word_def put_pt_def put_le_apply Let_def)

lemma init_steps: "csp.at_step 0 (csp_init p)" "tc.at_step 0 (tc_init p')" "sub.at_step 0 (tc_init p')" "cst.at_step 0 cst_init"
  by (simp_all add: csp.at_step_def tc.at_step_def sub.at_step_def cst.at_step_def csp_init_def tc_init_def cst_init_def)

text \<open>While all slaves are operational, \<open>PT\<close> is a sequencer too.\<close>

lemma pt_reads:
  assumes "\<forall>i \<in> {1..slavecount c}. sl_state (slavelist c i) = EC_STATE_OPERATIONAL" "k \<le> slavecount c"
  shows "foldM (pt_read E) [1..<Suc k] (tx, c) = map_option (\<lambda>tx. (tx, c)) (foldM (\<lambda>slave _. read_inputs slave c) [1..<Suc k] tx)"
  using assms(2)
proof (induction k)
  case (Suc k)
  then have "foldM (pt_read E) [1..<Suc k] (tx, c) = map_option (\<lambda>tx. (tx, c)) (foldM (\<lambda>slave _. read_inputs slave c) [1..<Suc k] tx)" by simp
  moreover have "pt_read E (Suc k) (tx, c) = map_option (\<lambda>tx. (tx, c)) (read_inputs (Suc k) c)" for tx
    using assms(1) Suc.prems by (cases "read_inputs (Suc k) c") (simp_all add: pt_read_def)
  ultimately show ?case unfolding foldM_last by (cases "foldM (\<lambda>slave _. read_inputs slave c) [1..<Suc k] tx") simp_all
qed simp

lemma pt_work_operational:
  assumes "\<forall>i \<in> {1..slavecount c}. sl_state (slavelist c i) = EC_STATE_OPERATIONAL"
  shows "pt_work E X wkc ((tx, s), c) = seq_work pt_control put_pt 12 X wkc ((tx, s), c)"
  using pt_reads [OF assms order.refl, of E tx]
  by (cases "read_last tx c") (simp_all add: pt_work_def seq_work_def read_last_def del: upt_Suc)

text \<open>\<open>TC\<close> plans a trajectory and does not use it: two runs that differ in the commands and the planners only.\<close>

definition same_output :: "'f tc_t \<Rightarrow> 'g tc_t \<Rightarrow> bool" where
  "same_output s s' \<longleftrightarrow> tc_rxpdo s = tc_rxpdo s' \<and> tc_step s = tc_step s'"

lemma tc_control_output: "same_output s s' \<Longrightarrow> same_output (tc_control plan tx s) (tc_control plan' tx s')"
  by (simp add: same_output_def tc_control_def Let_def split_beta)

lemma tc_work_output:
  assumes "same_output s s'" "tc_work plan X wkc ((tx, s), c) = Some ((tx1, s1), c1)"
  shows "\<exists>s1'. tc_work plan' X wkc ((tx, s'), c) = Some ((tx1, s1'), c1) \<and> same_output s1 s1'"
proof -
  have "tc_rxpdo (tc_control plan t s) = tc_rxpdo (tc_control plan' t s')" for t
    using tc_control_output [OF assms(1)] by (simp add: same_output_def)
  then show ?thesis
    using assms tc_control_output [OF assms(1)] by (auto simp: seq_work_def bind_eq_Some_conv Let_def split: if_splits)
qed

lemma tc_run_output:
  assumes "seq_run tc_receive (tc_work plan X) evs ((tx, s), c, d) = Some ((tx1, s1), c1, d1)" "map snd evs' = map snd evs" "same_output s s'"
  shows "\<exists>s1'. seq_run tc_receive (tc_work plan' X) evs' ((tx, s'), c, d) = Some ((tx1, s1'), c1, d1) \<and> same_output s1 s1'"
  using assms
proof (induction evs arbitrary: evs' tx s s' c d)
  case Nil
  then show ?case by (simp add: seq_run_def)
next
  case (Cons x evs)
  obtain v e where x: "x = (v, e)" by (cases x)
  obtain v' ys where y: "evs' = (v', e) # ys" "map snd ys = map snd evs" using Cons.prems(2) by (cases evs') (auto simp: x)
  obtain wkc t ev where e: "e = (wkc, t, ev)" by (cases e)
  obtain tx2 s2 c2 d2 where 1: "bus_cycle (tc_work plan X) e ((tx, commanded tc_receive v s), c, d) = Some ((tx2, s2), c2, d2)"
    "seq_run tc_receive (tc_work plan X) evs ((tx2, s2), c2, d2) = Some ((tx1, s1), c1, d1)"
    using Cons.prems(1) by (auto simp: seq_run_def x bind_eq_Some_conv)
  have "same_output (commanded tc_receive v s) (commanded tc_receive v' s')"
    using Cons.prems(3) by (simp add: commanded_def same_output_def tc_receive_def split: option.split)
  then obtain s2' where 2: "bus_cycle (tc_work plan' X) e ((tx, commanded tc_receive v' s'), c, d) = Some ((tx2, s2'), c2, d2)" "same_output s2 s2'"
    using 1(1) tc_work_output [of "commanded tc_receive v s" "commanded tc_receive v' s'" plan X wkc tx _ tx2 s2 _ plan']
    by (auto simp: bus_cycle_def e bind_eq_Some_conv Let_def)
  from Cons.IH [OF 1(2) y(2) 2(2)] show ?case using 2(1) by (simp add: seq_run_def y(1))
qed

section \<open>Properties\<close>

text \<open>
  C18: \<open>CSP\<close> brings every drive that is not in a fault, or whose fault can be reset, to operation enabled when the drive stays connected and
  undisturbed for 802 cycles that count, whatever cycles come between, whatever is commanded, and whatever the planner computes.
\<close>

theorem csp_enables_drives:
  assumes "bus_ready 8 c" "i \<in> {1..slavecount c}" "fresh (d i)" "\<forall>x \<in> set evs. quiet i (snd x)" "802 \<le> counted X evs"
  shows "\<exists>c0 s' c' d'. write_all (put_pos (csp_rxpdo (csp_init p))) 8 c = Some c0 \<and>
    seq_run csp_command (csp_work plan X) evs ((tx, csp_init p), c0, d) = Some (s', c', d') \<and> dr_state (d' i) = OPERATION_ENABLED"
proof -
  have "pr_controlword (csp_rxpdo (csp_init p)) = 0x0080" by (simp add: csp_init_def)
  from csp.start_posted [OF assms(1) this] obtain c0 where c0: "write_all (put_pos (csp_rxpdo (csp_init p))) 8 c = Some c0" "bus_ready 8 c0"
    "posted (pr_controlword (csp_rxpdo (csp_init p))) c0" "same_tables c c0" by blast
  then have "i \<in> {1..slavecount c0}" using assms(2) by (simp add: same_tables_def)
  from csp.enables [where d = d and X = X and plan = plan and tx = tx, OF c0(2,3) init_steps(1) this assms(3,4)] assms(5) c0(1) show ?thesis by simp
qed

text \<open>
  C14: \<open>CSP_subscriber\<close> never switches a drive on: its steps end at 1200, before the word 7 would come, so the word stays 6 for ever
  and a drive that was off at the start stays off, whatever happens on the bus and whatever the clients send.
\<close>

theorem csp_subscriber_never_enables:
  assumes "bus_ready 8 c" "i \<in> {1..slavecount c}" "dr_state (d i) \<notin> {SWITCHED_ON, OPERATION_ENABLED}"
  shows "\<exists>c0 tx' s' c' d'. write_all (put_pos (tc_rxpdo (tc_init p))) 8 c = Some c0 \<and>
    seq_run tc_receive (sub_work plan X) evs ((tx, tc_init p), c0, d) = Some ((tx', s'), c', d') \<and>
    pr_controlword (tc_rxpdo s') \<in> {0x0080, 0x0006} \<and> dr_state (d' i) \<notin> {SWITCHED_ON, OPERATION_ENABLED}"
proof -
  have "pr_controlword (tc_rxpdo (tc_init p)) = 0x0080" by (simp add: tc_init_def)
  from sub.start_posted [OF assms(1) this] obtain c0 where c0: "write_all (put_pos (tc_rxpdo (tc_init p))) 8 c = Some c0" "bus_ready 8 c0"
    "posted (pr_controlword (tc_rxpdo (tc_init p))) c0" "same_tables c c0" by blast
  then have "i \<in> {1..slavecount c0}" using assms(2) by (simp add: same_tables_def)
  from sub.never_switches_on [where d = d and X = X and plan = plan and tx = tx and evs = evs, OF c0(2,3) init_steps(3) _ this assms(3)] c0(1) show ?thesis by simp
qed

text \<open>
  C39: the torque program \<open>CST\<close> does not recover a fault: a drive that is in a fault, or trips, after the first 4002 cycles that count
  stays so whatever happens, also when its cause is removed; no reset is sent any more.
\<close>

theorem cst_fault_stays:
  assumes "bus_ready 6 c" "i \<in> {1..slavecount c}" "write_all (put_cst cst_init) 6 c = Some c0"
    and "seq_run (\<lambda>_ s. s) (cst_work X) evs ((tx, cst_init), c0, d) = Some ((tx1, s1), c1, d1)" "4002 \<le> counted X evs"
    and "dr_state (d1 i) \<in> {FAULT, FAULT_REACTION_ACTIVE}"
  shows "\<exists>tx2 s2 c2 d2. seq_run (\<lambda>_ s. s) (cst_work X) evs' ((tx1, s1), c1, d1) = Some ((tx2, s2), c2, d2) \<and>
    dr_state (d2 i) \<in> {FAULT, FAULT_REACTION_ACTIVE}"
proof -
  have "cst_controlword cst_init = 0x0080" by (simp add: cst_init_def)
  from cst.start_posted [OF assms(1) this] assms(3) have c0: "bus_ready 6 c0" "posted (cst_controlword cst_init) c0" "same_tables c c0" by auto
  have n: "1 \<le> slavecount c0" using assms(2) c0(3) by (simp add: same_tables_def)
  note 1 = cst.run_steps [OF c0(1,2) init_steps(4) assms(4) n]
  have "i \<in> {1..slavecount c1}" using assms(2) c0(3) 1(2) by (simp add: same_tables_def)
  from cst.fault_stays [where d = d1 and X = X and evs = evs' and tx = tx1, OF bus_ready_same [OF c0(1) 1(2)] 1(3,1) _ _ this assms(6)] assms(5) show ?thesis by simp
qed

text \<open>
  The target that \<open>CSP\<close> sends to every slave while nothing is commanded is the position of the last slave; only for that slave it
  means to stand still.
\<close>

theorem csp_holds_last_slave:
  assumes "bus_ready 8 c" "i \<in> {1..slavecount c}" "400 < csp_step s" "csp_step s \<le> 1000 \<or> \<not> csp_have_command s" "wkc \<ge> X"
  shows "\<exists>tx' s' c'. csp_work plan X wkc ((tx, s), c) = Some ((tx', s'), c') \<and>
    rd32 (IOmap c') (out_at c i + 2) = tx_actual_position (get_txpdo (IOmap c) (in_at c (slavecount c)))"
proof -
  have ok: "slots_ok 8 c" "apart 8 c" using assms(1) by (simp_all add: bus_ready_def)
  let ?tx = "get_txpdo (IOmap c) (in_at c (slavecount c))"
  have r: "read_last tx c = Some ?tx" using read_last_slot [OF ok(1)] assms(2) by simp
  let ?s = "csp_control plan ?tx s"
  have p: "pr_target_position (csp_rxpdo ?s) = tx_actual_position ?tx" using assms(3,4) by (auto simp: csp_control_def pos_command_def Let_def)
  have v: "rd32 m (off + 2) = rd32 m' (off + 2)" if "\<And>x. off \<le> x \<Longrightarrow> x < off + 8 \<Longrightarrow> m x = m' x" for m m' :: buf and off
    by (rule get_le_cong) (use that in auto)
  from write_all_slots [where view = "\<lambda>m off. rd32 m (off + 2)" and put = "put_pos (csp_rxpdo ?s)", OF ok(1) put_pos_laws(3) v put_pos_laws(2)] ok(2) obtain m where
    m: "write_all (put_pos (csp_rxpdo ?s)) 8 c = Some (c\<lparr>IOmap := m\<rparr>)" "\<forall>i \<in> {1..slavecount c}. rd32 m (out_at c i + 2) = pr_target_position (csp_rxpdo ?s)"
    by blast
  have "csp_work plan X wkc ((tx, s), c) = Some ((?tx, ?s), c\<lparr>IOmap := m\<rparr>)" using assms(5) r m(1) by (simp add: seq_work_def)
  then show ?thesis using m(2) assms(2) p by auto
qed

text \<open>
  C40: \<open>TC\<close> does not depend on its commands: two runs with the same bus, with any targets sent at any times and any planners, leave the
  same image, the same drives and the same counters.
\<close>

theorem tc_ignores_commands:
  assumes "seq_run tc_receive (tc_work plan X) evs ((tx, tc_init p), c, d) = Some ((tx1, s1), c1, d1)" "map snd evs' = map snd evs"
  shows "\<exists>s1'. seq_run tc_receive (tc_work plan' X) evs' ((tx, tc_init p'), c, d) = Some ((tx1, s1'), c1, d1) \<and>
    tc_rxpdo s1' = tc_rxpdo s1 \<and> tc_step s1' = tc_step s1"
  using tc_run_output [OF assms, of "tc_init p'" plan'] by (auto simp: same_output_def tc_init_def)

text \<open>C6: while all slaves are operational, \<open>PT\<close> does what the other sequencers do.\<close>

theorem pt_work_sequencer:
  assumes "\<forall>i \<in> {1..slavecount c}. sl_state (slavelist c i) = EC_STATE_OPERATIONAL"
  shows "pt_work E X wkc ((tx, s), c) = seq_work pt_control put_pt 12 X wkc ((tx, s), c)"
  by (rule pt_work_operational [OF assms])

definition resting :: "'f \<Rightarrow> 'f csp_planner" where
  "resting z = \<lparr>cp_initialized = False, cp_target_position = 0, cp_current_position = z, cp_current_velocity = z\<rparr>"

definition still :: "'f \<Rightarrow> 'f motion_planner" where
  "still z = \<lparr>mp_start_position = 0, mp_target_position = 0, mp_smooth_target = 0, mp_current_position = 0, mp_current_velocity = z, mp_is_moving = False\<rparr>"

lemma bus_ctx_6: "bus_ready 6 bus_ctx"
  unfolding bus_ready_def slots_ok_def apart_def bus_ctx_fields by auto

theorem csp_enables_drives_witness:
  "\<exists>c0 s' c' d'. write_all (put_pos first_pos) 8 bus_ctx = Some c0 \<and>
    seq_run csp_command (csp_work (\<lambda>p x. (x + 1, p)) 6) (replicate 900 (Some 5000, 6, undefined, \<lambda>_. None)) ((undefined, csp_init (resting (0 :: nat))), c0, \<lambda>_. idle_drive FAULT 0)
      = Some (s', c', d') \<and> dr_state (d' 2) = OPERATION_ENABLED"
proof -
  have i: "2 \<in> {1..slavecount bus_ctx}" by (simp add: bus_ctx_fields)
  have f: "fresh ((\<lambda>_. idle_drive FAULT 0) (2 :: nat))" by (simp add: fresh_def idle_drive_def)
  have "\<forall>x \<in> set (replicate 900 (Some 5000, 6, undefined, \<lambda>_. None)). quiet 2 (snd x)" by (simp add: quiet_def)
  from csp_enables_drives [where d = "\<lambda>_. idle_drive FAULT 0" and X = 6 and plan = "\<lambda>p x. (x + 1, p)" and tx = undefined and p = "resting (0 :: nat)", OF bus_ctx_ready i f this]
  show ?thesis by (simp add: counted_def csp_init_def)
qed

theorem csp_subscriber_never_enables_witness:
  "\<exists>c0 tx' s' c' d'. write_all (put_pos first_pos) 8 bus_ctx = Some c0 \<and>
    seq_run tc_receive (sub_work (\<lambda>p x. (x, p)) 6) (replicate 1000000 (Some 5000, 6, undefined, \<lambda>_. None)) ((undefined, tc_init (still (0 :: nat))), c0, \<lambda>_. idle_drive SW_ON_DISABLED 0)
      = Some ((tx', s'), c', d') \<and> dr_state (d' 2) \<noteq> OPERATION_ENABLED"
proof -
  have i: "2 \<in> {1..slavecount bus_ctx}" by (simp add: bus_ctx_fields)
  have "dr_state ((\<lambda>_. idle_drive SW_ON_DISABLED 0) (2 :: nat)) \<notin> {SWITCHED_ON, OPERATION_ENABLED}" by (simp add: idle_drive_def)
  from csp_subscriber_never_enables [where d = "\<lambda>_. idle_drive SW_ON_DISABLED 0" and X = 6 and plan = "\<lambda>p x. (x, p)" and tx = undefined and p = "still (0 :: nat)"
    and evs = "replicate 1000000 (Some 5000, 6, undefined, \<lambda>_. None)", OF bus_ctx_ready i this]
  obtain c0 tx' s' c' d' where "write_all (put_pos (tc_rxpdo (tc_init (still (0 :: nat))))) 8 bus_ctx = Some c0"
    "seq_run tc_receive (sub_work (\<lambda>p x. (x, p)) 6) (replicate 1000000 (Some 5000, 6, undefined, \<lambda>_. None)) ((undefined, tc_init (still (0 :: nat))), c0, \<lambda>_. idle_drive SW_ON_DISABLED 0)
      = Some ((tx', s'), c', d')" "dr_state (d' 2) \<notin> {SWITCHED_ON, OPERATION_ENABLED}" by blast
  then show ?thesis by (intro exI [of _ c0] exI [of _ tx'] exI [of _ s'] exI [of _ c'] exI [of _ d'] conjI) (simp_all add: tc_init_def)
qed

text \<open>A bus on which a drive trips in every cycle.\<close>

lemma cst_trips:
  assumes "bus_ready 6 c0" "posted 0x0080 c0" "2 \<in> {1..slavecount c0}"
  shows "\<exists>tx' s' c' d'. seq_run (\<lambda>_ s. s) (cst_work 0) (replicate 4002 (None, 0, t, \<lambda>_. Some True)) ((tx, cst_init), c0, \<lambda>_. idle_drive FAULT 0) = Some ((tx', s'), c', d') \<and>
    dr_state (d' 2) \<in> {FAULT, FAULT_REACTION_ACTIVE}"
proof -
  let ?J = "\<lambda>(k :: nat) (s :: cst_t) d. dr_state d \<in> {FAULT, FAULT_REACTION_ACTIVE}"
  have "\<exists>tx' s' c' d'. seq_run (\<lambda>_ s. s) (cst_work 0) (replicate 4002 (None, 0, t, \<lambda>_. Some True)) ((tx, cst_init), c0, \<lambda>_. idle_drive FAULT 0) = Some ((tx', s'), c', d') \<and>
    same_tables c0 c' \<and> posted (cst_controlword s') c' \<and> ?J (0 + counted 0 (replicate 4002 (None, 0, t, \<lambda>_. Some True))) s' (d' 2)"
  proof (rule cst.run_invariant [where J = ?J and P = "\<lambda>(wkc, _). wkc = 0", OF assms(1) _ assms(3)])
    show "posted (cst_controlword cst_init) c0" using assms(2) by (simp add: cst_init_def)
    show "?J 0 cst_init (idle_drive FAULT 0)" by (simp add: idle_drive_def)
    show "?J (if wkc \<ge> 0 then Suc k else k) (if wkc \<ge> 0 then cst_control tx s else s) (upset (ev 2) d)" if "?J k s d" for k wkc ev tx s d
      using that by (rule faulty_kept(1))
  qed simp_all
  then show ?thesis by blast
qed

theorem cst_fault_stays_witness:
  "\<exists>tx1 s1 (c1 :: (nat \<times> u8 list list) ecx_contextt) d1 tx2 s2 c2 d2. seq_run (\<lambda>_ s. s) (cst_work 0) (replicate 1000000 (None, 6, undefined, \<lambda>_. Some False)) ((tx1, s1), c1, d1) = Some ((tx2, s2), c2, d2) \<and>
    dr_state (d2 2) \<in> {FAULT, FAULT_REACTION_ACTIVE}"
proof -
  have w: "cst_controlword cst_init = 0x0080" by (simp add: cst_init_def)
  from cst.start_posted [OF bus_ctx_6 this] obtain c0 where c0: "write_all (put_cst cst_init) 6 bus_ctx = Some c0" "bus_ready 6 c0"
    "posted 0x0080 c0" "same_tables bus_ctx c0" by (auto simp: w)
  then have i: "2 \<in> {1..slavecount bus_ctx}" "2 \<in> {1..slavecount c0}" by (simp_all add: same_tables_def bus_ctx_fields)
  from cst_trips [OF c0(2,3) i(2), of undefined undefined] obtain tx1 s1 c1 d1 where
    "seq_run (\<lambda>_ s. s) (cst_work 0) (replicate 4002 (None, 0, undefined, \<lambda>_. Some True)) ((undefined, cst_init), c0, \<lambda>_. idle_drive FAULT 0) = Some ((tx1, s1), c1, d1)"
    "dr_state (d1 2) \<in> {FAULT, FAULT_REACTION_ACTIVE}" by blast
  from cst_fault_stays [where evs' = "replicate 1000000 (None, 6, undefined, \<lambda>_. Some False)", OF bus_ctx_6 i(1) c0(1) this(1) _ this(2)]
  have "\<exists>tx2 s2 c2 d2. seq_run (\<lambda>_ s. s) (cst_work 0) (replicate 1000000 (None, 6, undefined, \<lambda>_. Some False)) ((tx1, s1), c1, d1) = Some ((tx2, s2), c2, d2) \<and>
    dr_state (d2 2) \<in> {FAULT, FAULT_REACTION_ACTIVE}" by (simp add: counted_def)
  then show ?thesis by (rule exI [of _ tx1, OF exI [of _ s1, OF exI [of _ c1, OF exI [of _ d1]]]])
qed

theorem csp_holds_last_slave_witness:
  "\<exists>tx' s' c'. csp_work (\<lambda>p x. (x, p)) 6 6 ((undefined, (csp_init (resting (0 :: nat)))\<lparr>csp_step := 500\<rparr>), bus_ctx) = Some ((tx', s'), c') \<and>
    rd32 (IOmap c') 2 = tx_actual_position (get_txpdo (IOmap bus_ctx) 124)"
  using csp_holds_last_slave [OF bus_ctx_ready, of 1 "(csp_init (resting (0 :: nat)))\<lparr>csp_step := 500\<rparr>" 6 6 "\<lambda>p x. (x, p)" undefined]
  by (simp add: bus_ctx_fields numeral_2_eq_2)

theorem tc_ignores_commands_witness:
  "\<exists>(c :: (nat \<times> u8 list list) ecx_contextt) tx1 s1 c1 d1 s2. seq_run tc_receive (tc_work (\<lambda>p x. (x, p)) 6) (replicate 900 (None, 6, undefined, \<lambda>_. None)) ((undefined, tc_init (still (0 :: nat))), c, \<lambda>_. idle_drive FAULT 0) = Some ((tx1, s1), c1, d1) \<and>
    seq_run tc_receive (tc_work (\<lambda>p x. (x + 7, p)) 6) (replicate 900 (Some 1000, 6, undefined, \<lambda>_. None)) ((undefined, tc_init (still (1 :: nat))), c, \<lambda>_. idle_drive FAULT 0) = Some ((tx1, s2), c1, d1)"
proof -
  have w: "pr_controlword (tc_rxpdo (tc_init (still (0 :: nat)))) = 0x0080" by (simp add: tc_init_def)
  from tc.start_posted [OF bus_ctx_ready this] obtain c where c: "bus_ready 8 c" "posted (pr_controlword (tc_rxpdo (tc_init (still (0 :: nat))))) c" "same_tables bus_ctx c" by blast
  have i: "2 \<in> {1..slavecount c}" using c(3) by (simp add: same_tables_def bus_ctx_fields)
  have f: "fresh ((\<lambda>_. idle_drive FAULT 0) (2 :: nat))" by (simp add: fresh_def idle_drive_def)
  have q: "\<forall>x \<in> set (replicate 900 (None, 6, undefined, \<lambda>_. None)). quiet 2 (snd x)" by (simp add: quiet_def)
  from tc.enables [where d = "\<lambda>_. idle_drive FAULT 0" and X = 6 and plan = "\<lambda>p x. (x, p)" and tx = undefined, OF c(1,2) init_steps(2) i f q]
  obtain tx1 s1 c1 d1 where
    1: "seq_run tc_receive (tc_work (\<lambda>p x. (x, p)) 6) (replicate 900 (None, 6, undefined, \<lambda>_. None)) ((undefined, tc_init (still (0 :: nat))), c, \<lambda>_. idle_drive FAULT 0) = Some ((tx1, s1), c1, d1)"
    by (auto simp: counted_def)
  from tc_ignores_commands [where p' = "still (1 :: nat)" and plan' = "\<lambda>p x. (x + 7, p)" and evs' = "replicate 900 (Some 1000, 6, undefined, \<lambda>_. None)", OF 1]
  obtain s2 where 2: "seq_run tc_receive (tc_work (\<lambda>p x. (x + 7, p)) 6) (replicate 900 (Some 1000, 6, undefined, \<lambda>_. None)) ((undefined, tc_init (still (1 :: nat))), c, \<lambda>_. idle_drive FAULT 0) = Some ((tx1, s2), c1, d1)"
    by auto
  show ?thesis by (rule exI [of _ c], rule exI [of _ tx1], rule exI [of _ s1], rule exI [of _ c1], rule exI [of _ d1], rule exI [of _ s2], rule conjI [OF 1 2])
qed

theorem pt_work_sequencer_witness:
  "pt_work script_os 6 6 ((undefined, undefined), bus_ctx\<lparr>slavelist := (\<lambda>_. zero_slave\<lparr>sl_state := EC_STATE_OPERATIONAL\<rparr>)\<rparr>)
     = seq_work pt_control put_pt 12 6 6 ((undefined, undefined), bus_ctx\<lparr>slavelist := (\<lambda>_. zero_slave\<lparr>sl_state := EC_STATE_OPERATIONAL\<rparr>)\<rparr>)"
  by (rule pt_work_sequencer) simp

end
