(* ===== verification/ProfilePosition.thy ===== *)
theory ProfilePosition
  imports Sequencers
begin

text \<open>
  The program \<open>demo/eRob_PP_subscriber.cpp\<close>: its main loop exchanges the process data itself, takes the slaves through the states by
  the number of the cycle, and then hands the targets that it is given to the drives in the profile position mode. The second half
  puts it against the handling of set-points in that mode, written from CiA 402: a set-point is taken on the rising edge
  of bit 4 of the control word, and bit 6 tells whether it is relative.

  \<open>rxpdo\<close> and \<open>txpdo\<close> of the loop are local variables without initial values; the variables of the same names that \<open>update_motor_status\<close>
  reads are other ones, which are never written.
\<close>

section \<open>The program\<close>

record MotorStatus =
  ms_is_operational :: bool
  ms_status_word :: u16
  ms_actual_position :: u32
  ms_actual_velocity :: u32
  ms_actual_torque :: u16

record pp_t =
  pp_rxpdo :: pos_rxpdo
  pp_txpdo :: txpdo_t
  pp_step :: nat
  pp_new_setpoint :: bool
  pp_control_toggle :: u16
  pp_target_position :: u32
  pp_target_position_updated :: bool
  pp_motor_status :: MotorStatus
  pp_global_txpdo :: txpdo_t

definition update_motor_status :: "pp_t \<Rightarrow> pp_t" where
  "update_motor_status s = (let txpdo = pp_global_txpdo s in s\<lparr>pp_motor_status := \<lparr>
     ms_is_operational = (tx_statusword txpdo AND 0x0F = 0x07), ms_status_word = tx_statusword txpdo,
     ms_actual_position = tx_actual_position txpdo, ms_actual_velocity = tx_actual_velocity txpdo, ms_actual_torque = tx_actual_torque txpdo\<rparr>\<rparr>)"

definition pp_send :: "u16 \<Rightarrow> pp_t \<Rightarrow> pp_t" where
  "pp_send w s = s\<lparr>pp_rxpdo := \<lparr>pr_controlword = w, pr_target_position = 0, pr_mode_of_operation = 1, pr_padding = 0\<rparr>\<rparr>"

text \<open>The server thread hands over a target.\<close>

definition pp_command :: "u32 \<Rightarrow> pp_t \<Rightarrow> pp_t" where
  "pp_command new_target s = s\<lparr>pp_target_position := new_target, pp_target_position_updated := True\<rparr>"

definition pp_setpoint :: "pp_t \<Rightarrow> pp_t" where
  "pp_setpoint s = (let
     s = s\<lparr>pp_rxpdo := (pp_rxpdo s)\<lparr>pr_mode_of_operation := 1, pr_padding := 0\<rparr>\<rparr>;
     s = (if pp_target_position_updated s
       then s\<lparr>pp_rxpdo := (pp_rxpdo s)\<lparr>pr_target_position := pp_target_position s\<rparr>, pp_new_setpoint := True,
         pp_control_toggle := pp_control_toggle s XOR 0x0040, pp_target_position_updated := False\<rparr>
       else s)
   in if pp_new_setpoint s
     then s\<lparr>pp_rxpdo := (pp_rxpdo s)\<lparr>pr_controlword := 0x000F OR 0x0010 OR pp_control_toggle s\<rparr>, pp_new_setpoint := False\<rparr>
     else s\<lparr>pp_rxpdo := (pp_rxpdo s)\<lparr>pr_controlword := 0x000F OR pp_control_toggle s\<rparr>\<rparr>)"

definition pp_control :: "pp_t \<Rightarrow> pp_t" where
  "pp_control s =
     (if pp_step s \<le> 200 then pp_send 0x0080 s
      else if pp_step s \<le> 300 then pp_send 0x0006 s
      else if pp_step s \<le> 400 then pp_send 0x0007 s
      else if pp_step s \<le> 500 then pp_send 0x000F s
      else let s = update_motor_status s in if pp_step s > 800 then pp_setpoint s else s)"

text \<open>An iteration of the main loop; the outputs that it writes are sent in the next one.\<close>

definition pp_cycle :: "'e os_ops \<Rightarrow> int \<Rightarrow> nat \<Rightarrow> pp_t \<times> 'e ecx_contextt \<Rightarrow> (pp_t \<times> 'e ecx_contextt) option" where
  "pp_cycle E expectedWKC i = (\<lambda>(s, c). do {
     (_, c) \<leftarrow> ecx_send_processdata E c;
     (wkc, c) \<leftarrow> ecx_receive_processdata E EC_TIMEOUTRET c;
     c \<leftarrow> write_all (put_pos (pp_rxpdo s)) 8 c;
     s \<leftarrow> (if wkc \<ge> expectedWKC
       then do {
         txpdo \<leftarrow> (if i mod 100 = 0 then read_last (pp_txpdo s) c else Some (pp_txpdo s));
         Some (pp_control (s\<lparr>pp_txpdo := txpdo\<rparr>)) }
       else Some s);
     Some (s\<lparr>pp_step := count_step 900 (pp_step s)\<rparr>, c) })"

section \<open>The loop ends\<close>

lemma pp_cycle_returns:
  assumes "cycle_ok E now 8 c" "pushed (idxstack c) = 0" "pulled (idxstack c) = 0"
  shows "\<exists>s' c'. pp_cycle E X i (s, c) = Some (s', c') \<and> cycle_ok E now 8 c' \<and> pushed (idxstack c') = 0 \<and> pulled (idxstack c') = 0 \<and>
    same_tables c c' \<and> held c' \<subseteq> held c"
proof -
  from send_cycle [OF assms] obtain w c1 where 1: "ecx_send_processdata E c = Some (w, c1)" "cycle_ok E now 8 c1" "same_tables c c1"
    "held c1 \<subseteq> held c" by blast
  from receive_cycle [OF 1(2), of EC_TIMEOUTRET] obtain wkc c2 where 2: "ecx_receive_processdata E EC_TIMEOUTRET c1 = Some (wkc, c2)"
    "cycle_ok E now 8 c2" "same_tables c1 c2" "pushed (idxstack c2) = 0" "pulled (idxstack c2) = 0" "held c2 \<subseteq> held c1" by (auto simp: runs_to_iff)
  have ok: "slots_ok 8 c2" using 2(2) by (simp add: cycle_ok_def)
  have le: "(2 :: nat) \<le> 8" by simp
  from write_all_slots [where view = rd16 and put = "put_pos (pp_rxpdo s)", OF ok put_pos_laws(1) word_view [OF le] put_pos_laws(2)] obtain m where
    3: "write_all (put_pos (pp_rxpdo s)) 8 c2 = Some (c2\<lparr>IOmap := m\<rparr>)" by auto
  let ?c = "c2\<lparr>IOmap := m\<rparr>"
  have c: "cycle_ok E now 8 ?c" "held ?c = held c2" "same_tables c2 ?c"
    using 2(2) by (simp_all add: cycle_ok_def entries_ok_def slots_ok_def held_def same_tables_def)
  have ok': "slots_ok 8 ?c" using c(1) by (simp add: cycle_ok_def)
  obtain tx where tx: "(if i mod 100 = 0 then read_last (pp_txpdo s) ?c else Some (pp_txpdo s)) = Some tx"
    using read_last_slot [OF ok', of "pp_txpdo s"] by (cases "i mod 100 = 0") auto
  define s' where "s' = (if wkc \<ge> X then pp_control (s\<lparr>pp_txpdo := tx\<rparr>) else s)"
  have s': "(if wkc \<ge> X then do {
         txpdo \<leftarrow> (if i mod 100 = 0 then read_last (pp_txpdo s) ?c else Some (pp_txpdo s));
         Some (pp_control (s\<lparr>pp_txpdo := txpdo\<rparr>)) } else Some s) = Some s'"
    unfolding tx s'_def by simp
  have "pp_cycle E X i (s, c) = Some (s'\<lparr>pp_step := count_step 900 (pp_step s')\<rparr>, ?c)"
    unfolding pp_cycle_def prod.case 1(1) Option.bind.bind_lunit 2(1) 3 s' ..
  moreover have "same_tables c ?c" using 1(3) 2(3) c(3) same_tables_trans by blast
  moreover have "held ?c \<subseteq> held c" using 1(4) 2(6) c(2) by simp
  moreover have "pushed (idxstack ?c) = 0" "pulled (idxstack ?c) = 0" using 2(4,5) by simp_all
  ultimately show ?thesis using c(1) by blast
qed

section \<open>Set-points\<close>

text \<open>What a drive in the profile position mode makes of its outputs: bit 4 of the last word, and the position that it goes to.\<close>

record profile =
  pf_bit4 :: bool
  pf_position :: u32

definition profile_obey :: "pos_rxpdo \<Rightarrow> profile \<Rightarrow> profile" where
  "profile_obey r f = (let bit4 = (pr_controlword r AND 0x10 \<noteq> 0) in
     f\<lparr>pf_bit4 := bit4,
       pf_position := if bit4 \<and> \<not> pf_bit4 f
         then (if pr_controlword r AND 0x40 \<noteq> 0 then pf_position f + pr_target_position r else pr_target_position r)
         else pf_position f\<rparr>)"

text \<open>The normal operation: in each cycle a target may come.\<close>

definition pp_step_drive :: "u32 option \<Rightarrow> pp_t \<times> profile \<Rightarrow> pp_t \<times> profile" where
  "pp_step_drive v = (\<lambda>(s, f). let s = pp_control (commanded pp_command v s) in (s, profile_obey (pp_rxpdo s) f))"

definition pp_targets :: "u32 option list \<Rightarrow> pp_t \<times> profile \<Rightarrow> pp_t \<times> profile" where
  "pp_targets = fold pp_step_drive"

text \<open>The normal operation, with \<open>rel\<close> for the toggle of the control word.\<close>

definition normal :: "bool \<Rightarrow> pp_t \<Rightarrow> bool" where
  "normal rel s \<longleftrightarrow> 800 < pp_step s \<and> pp_control_toggle s = (if rel then 0x40 else 0) \<and> \<not> pp_new_setpoint s \<and> \<not> pp_target_position_updated s"

lemma pp_step_target:
  assumes "normal rel s"
  shows "normal (\<not> rel) (fst (pp_step_drive (Some t) (s, f)))"
    "snd (pp_step_drive (Some t) (s, f)) = f\<lparr>pf_bit4 := True, pf_position := if pf_bit4 f then pf_position f else if rel then t else pf_position f + t\<rparr>"
  using assms by (auto simp: normal_def pp_step_drive_def commanded_def pp_command_def pp_control_def pp_setpoint_def update_motor_status_def
      profile_obey_def Let_def)

lemma pp_step_none:
  assumes "normal rel s"
  shows "normal rel (fst (pp_step_drive None (s, f)))" "snd (pp_step_drive None (s, f)) = f\<lparr>pf_bit4 := False\<rparr>"
  using assms by (auto simp: normal_def pp_step_drive_def commanded_def pp_control_def pp_setpoint_def update_motor_status_def
      profile_obey_def Let_def)

text \<open>What the drives make of targets that come one by one: each second one is relative.\<close>

fun alternate :: "bool \<Rightarrow> u32 list \<Rightarrow> u32 \<Rightarrow> u32" where
  "alternate rel [] p = p"
| "alternate rel (t # ts) p = alternate (\<not> rel) ts (if rel then t else p + t)"

lemma pp_alternates:
  assumes "normal rel s" "\<not> pf_bit4 f"
  shows "pf_position (snd (pp_targets (concat (map (\<lambda>t. [Some t, None]) ts)) (s, f))) = alternate rel ts (pf_position f)"
  using assms
proof (induction ts arbitrary: rel s f)
  case (Cons t ts)
  obtain s1 f1 where 1: "pp_step_drive (Some t) (s, f) = (s1, f1)" by (cases "pp_step_drive (Some t) (s, f)")
  obtain s2 f2 where 2: "pp_step_drive None (s1, f1) = (s2, f2)" by (cases "pp_step_drive None (s1, f1)")
  have n1: "normal (\<not> rel) s1" "f1 = f\<lparr>pf_bit4 := True, pf_position := if rel then t else pf_position f + t\<rparr>"
    using pp_step_target [OF Cons.prems(1), of t f] Cons.prems(2) by (simp_all add: 1)
  have n2: "normal (\<not> rel) s2" "f2 = f1\<lparr>pf_bit4 := False\<rparr>" using pp_step_none [OF n1(1), of f1] by (simp_all add: 2)
  have "pf_position (snd (pp_targets (concat (map (\<lambda>t. [Some t, None]) ts)) (s2, f2))) = alternate (\<not> rel) ts (pf_position f2)"
    by (rule Cons.IH [OF n2(1)]) (simp add: n2)
  moreover have "pp_targets (concat (map (\<lambda>t. [Some t, None]) (t # ts))) (s, f) = pp_targets (concat (map (\<lambda>t. [Some t, None]) ts)) (s2, f2)"
    by (simp add: pp_targets_def 1 2)
  moreover have "pf_position f2 = (if rel then t else pf_position f + t)" by (simp add: n2(2) n1(2))
  ultimately show ?case by simp
qed (simp add: pp_targets_def)

lemma pp_consecutive:
  assumes "normal rel s" "pf_bit4 f"
  shows "pf_position (snd (pp_targets (map Some ts) (s, f))) = pf_position f"
  using assms
proof (induction ts arbitrary: rel s f)
  case (Cons t ts)
  obtain s1 f1 where 1: "pp_step_drive (Some t) (s, f) = (s1, f1)" by (cases "pp_step_drive (Some t) (s, f)")
  have n1: "normal (\<not> rel) s1" "f1 = f\<lparr>pf_bit4 := True, pf_position := pf_position f\<rparr>"
    using pp_step_target [OF Cons.prems(1), of t f] Cons.prems(2) by (simp_all add: 1)
  then show ?case using Cons.IH [OF n1(1), of f1] by (simp add: pp_targets_def 1)
qed (simp add: pp_targets_def)

section \<open>Properties\<close>

text \<open>
  C15: the drive takes the targets that come one by one by turns as a distance and as a position, the first one as a
  distance; and of targets that come in consecutive cycles it takes the first one only.
\<close>

theorem pp_targets_taken:
  assumes "800 < pp_step s" "pp_control_toggle s = 0" "\<not> pp_new_setpoint s" "\<not> pp_target_position_updated s" "\<not> pf_bit4 f"
  shows "pf_position (snd (pp_targets (concat (map (\<lambda>t. [Some t, None]) ts)) (s, f))) = alternate False ts (pf_position f) \<and>
    pf_position (snd (pp_targets (Some t # map Some ts) (s, f))) = pf_position f + t"
proof
  have n: "normal False s" using assms by (simp add: normal_def)
  then show "pf_position (snd (pp_targets (concat (map (\<lambda>t. [Some t, None]) ts)) (s, f))) = alternate False ts (pf_position f)"
    using assms(5) by (rule pp_alternates)
  obtain s1 f1 where 1: "pp_step_drive (Some t) (s, f) = (s1, f1)" by (cases "pp_step_drive (Some t) (s, f)")
  have "normal True s1" "f1 = f\<lparr>pf_bit4 := True, pf_position := pf_position f + t\<rparr>"
    using pp_step_target [OF n, of t f] assms(5) by (simp_all add: 1)
  then show "pf_position (snd (pp_targets (Some t # map Some ts) (s, f))) = pf_position f + t"
    using pp_consecutive [of True s1 f1 ts] by (simp add: pp_targets_def 1)
qed

text \<open>C2: any number of iterations of the main loop return, and no frame buffer is lost.\<close>

theorem pp_runs_forever:
  assumes "cycle_ok E now 8 c" "pushed (idxstack c) = 0" "pulled (idxstack c) = 0"
  shows "\<exists>s' c'. foldM (pp_cycle E X) [0..<k] (s, c) = Some (s', c') \<and> cycle_ok E now 8 c' \<and> held c' \<subseteq> held c"
proof -
  have "\<exists>s' c'. foldM (pp_cycle E X) [0..<k] (s, c) = Some (s', c') \<and> cycle_ok E now 8 c' \<and> pushed (idxstack c') = 0 \<and>
    pulled (idxstack c') = 0 \<and> held c' \<subseteq> held c"
  proof (induction k)
    case 0
    then show ?case using assms by simp
  next
    case (Suc k)
    then obtain s1 c1 where 1: "foldM (pp_cycle E X) [0..<k] (s, c) = Some (s1, c1)" "cycle_ok E now 8 c1" "pushed (idxstack c1) = 0"
      "pulled (idxstack c1) = 0" "held c1 \<subseteq> held c" by blast
    from pp_cycle_returns [OF 1(2-4), of X k s1] show ?case using 1(1,5) by (auto simp: foldM_append)
  qed
  then show ?thesis by blast
qed

definition ready_pp :: pp_t where
  "ready_pp = \<lparr>pp_rxpdo = first_pos, pp_txpdo = mt_txpdo idle_motor, pp_step = 900, pp_new_setpoint = False, pp_control_toggle = 0,
     pp_target_position = 0, pp_target_position_updated = False,
     pp_motor_status = \<lparr>ms_is_operational = False, ms_status_word = 0, ms_actual_position = 0, ms_actual_velocity = 0, ms_actual_torque = 0\<rparr>,
     pp_global_txpdo = mt_txpdo idle_motor\<rparr>"

theorem pp_targets_taken_witness:
  "pf_position (snd (pp_targets [Some 1000, None, Some 1000, None, Some 1000, None] (ready_pp, \<lparr>pf_bit4 = False, pf_position = 500\<rparr>))) = 2000"
  using pp_targets_taken [of ready_pp "\<lparr>pf_bit4 = False, pf_position = 500\<rparr>" "[1000, 1000, 1000]" 0] by (simp add: ready_pp_def)

theorem pp_runs_forever_witness:
  "\<exists>s c. foldM (pp_cycle script_os 6) [0..<10800000] (ready_pp, bus_ctx) = Some (s, c) \<and> held c \<subseteq> held bus_ctx"
proof -
  have "pushed (idxstack bus_ctx) = 0" "pulled (idxstack bus_ctx) = 0" using io_ctx_simps(2) by (simp_all add: bus_ctx_fields)
  from pp_runs_forever [OF bus_ctx_cycle this] show ?thesis by blast
qed

end
