(* ===== verification/Velocity.thy ===== *)
theory Velocity
  imports Bus
begin

text \<open>
  The programs for velocities: \<open>demo/eRob_CSV.cpp\<close>, whose thread runs the state machine of \<open>Cia402\<close> for every slave
  that the working counter shows to be connected, and \<open>demo/eRob_PV.cpp\<close>, which takes all slaves through the states
  together. Each is put on a bus of reference drives: the drives write their status into the image, the program works, and the
  drives obey the control words that it left there.
\<close>

abbreviation (input) MODE_CSV :: u8 where "MODE_CSV \<equiv> 9"

definition put_rxpdo :: "rxpdo_t \<Rightarrow> buf \<Rightarrow> nat \<Rightarrow> buf" where
  "put_rxpdo r b off = (wr32 (wr16 b off (rx_controlword r)) (off + 2) (rx_target_velocity r))
     (off + 6 := rx_mode_of_operation r, off + 7 := rx_padding r)"

definition set_target_velocity :: "u32 \<Rightarrow> cia402_motor_t \<Rightarrow> cia402_motor_t" where
  "set_target_velocity v m = m\<lparr>mt_rxpdo := (mt_rxpdo m)\<lparr>rx_target_velocity := v\<rparr>\<rparr>"

section \<open>The program CSV\<close>

text \<open>The motors of all slaves are initialised and their data is sent; \<open>motors\<close> is what the array held before.\<close>

definition csv_motors :: "nat \<Rightarrow> (nat \<Rightarrow> cia402_motor_t) \<Rightarrow> nat \<Rightarrow> cia402_motor_t" where
  "csv_motors n motors = fold (\<lambda>slave motors. motors(slave := cia402_init_motor (motors slave) MODE_CSV)) [1..<n + 1] motors"

definition csv_start :: "'e os_ops \<Rightarrow> (nat \<Rightarrow> cia402_motor_t) \<Rightarrow> 'e ecx_contextt \<Rightarrow> ((nat \<Rightarrow> cia402_motor_t) \<times> int \<times> 'e ecx_contextt) option" where
  "csv_start E motors c = do {
     let motors = csv_motors (slavecount c) motors;
     c \<leftarrow> foldM (\<lambda>slave. write_outputs (put_rxpdo (mt_rxpdo (motors slave))) 8 slave) [1..<slavecount c + 1] c;
     (_, c) \<leftarrow> ecx_send_processdata E c;
     (wkc, c) \<leftarrow> ecx_receive_processdata E EC_TIMEOUTRET c;
     Some (motors, wkc, c) }"

text \<open>Each slave is expected to add three to the working counter.\<close>

definition csv_connect :: "int \<Rightarrow> nat \<Rightarrow> (nat \<Rightarrow> cia402_motor_t) \<Rightarrow> nat \<Rightarrow> cia402_motor_t" where
  "csv_connect wkc slave motors = (let
     slave_connected = (wkc \<ge> int slave * 3);
     m = (if mt_ec_connected (motors slave) \<and> \<not> slave_connected then cia402_lost_motor (motors slave) else motors slave)
   in motors(slave := m\<lparr>mt_ec_connected := slave_connected\<rparr>))"

definition csv_update :: "nat \<Rightarrow> (nat \<Rightarrow> cia402_motor_t) \<times> 'e ecx_contextt \<Rightarrow> ((nat \<Rightarrow> cia402_motor_t) \<times> 'e ecx_contextt) option" where
  "csv_update slave = (\<lambda>(motors, c).
     if \<not> mt_ec_connected (motors slave) then Some (motors, c)
     else do {
       tx \<leftarrow> read_inputs slave c;
       let m = cia402_state_machine ((motors slave)\<lparr>mt_txpdo := tx\<rparr>);
       let m = set_target_velocity (if mt_operation_enabled m then - 2000 else 0) m;
       c \<leftarrow> write_outputs (put_rxpdo (mt_rxpdo m)) 8 slave c;
       Some (motors(slave := m), c) })"

definition csv_work :: "int \<Rightarrow> (nat \<Rightarrow> cia402_motor_t) \<times> 'e ecx_contextt \<Rightarrow> ((nat \<Rightarrow> cia402_motor_t) \<times> 'e ecx_contextt) option" where
  "csv_work wkc = (\<lambda>(motors, c). do {
     let motors = fold (csv_connect wkc) [1..<slavecount c + 1] motors;
     foldM csv_update [1..<slavecount c + 1] (motors, c) })"

definition csv_cycle :: "'e os_ops \<Rightarrow> int \<Rightarrow> int \<times> sync_t \<times> (nat \<Rightarrow> cia402_motor_t) \<times> 'e ecx_contextt \<Rightarrow>
    (int \<times> sync_t \<times> (nat \<Rightarrow> cia402_motor_t) \<times> 'e ecx_contextt) option" where
  "csv_cycle E cycletime = rt_cycle E cycletime csv_work"

section \<open>What the work does\<close>

text \<open>One motor, as its connection and the data of its slave determine it.\<close>

definition connect_motor :: "bool \<Rightarrow> cia402_motor_t \<Rightarrow> cia402_motor_t" where
  "connect_motor b m = (if mt_ec_connected m \<and> \<not> b then cia402_lost_motor m else m)\<lparr>mt_ec_connected := b\<rparr>"

definition csv_motor :: "txpdo_t \<Rightarrow> cia402_motor_t \<Rightarrow> cia402_motor_t" where
  "csv_motor tx m = (let m = cia402_state_machine (m\<lparr>mt_txpdo := tx\<rparr>)
     in set_target_velocity (if mt_operation_enabled m then - 2000 else 0) m)"

definition get_rxpdo :: "buf \<Rightarrow> nat \<Rightarrow> rxpdo_t" where
  "get_rxpdo b off = \<lparr>rx_controlword = rd16 b off, rx_target_velocity = rd32 b (off + 2), rx_mode_of_operation = b (off + 6),
     rx_padding = b (off + 7)\<rparr>"

lemma get_put_rxpdo [simp]: "get_rxpdo (put_rxpdo r b off) off = r"
  by (simp add: get_rxpdo_def put_rxpdo_def)

lemma put_rxpdo_other: "i < off \<or> off + 8 \<le> i \<Longrightarrow> put_rxpdo r b off i = b i"
  by (auto simp: put_rxpdo_def put_le_apply)

lemma get_rxpdo_cong: "(\<And>i. off \<le> i \<Longrightarrow> i < off + 8 \<Longrightarrow> b i = b' i) \<Longrightarrow> get_rxpdo b off = get_rxpdo b' off"
  by (auto simp: get_rxpdo_def intro!: get_le_cong)

lemma csv_connect_all:
  "fold (csv_connect wkc) [1..<Suc n] motors = (\<lambda>i. if 1 \<le> i \<and> i \<le> n then connect_motor (connected wkc i) (motors i) else motors i)"
  by (rule fold_each) (simp add: csv_connect_def connect_motor_def Let_def)

lemma csv_updates:
  assumes c: "slots_ok 8 c" and k: "k \<le> slavecount c"
  shows "\<exists>motors' m. foldM csv_update [1..<Suc k] (motors, c) = Some (motors', c\<lparr>IOmap := m\<rparr>) \<and>
    (\<forall>i. \<not> (1 \<le> i \<and> i \<le> k \<and> mt_ec_connected (motors i)) \<longrightarrow> motors' i = motors i) \<and>
    (\<forall>a. (\<forall>i. 1 \<le> i \<and> i \<le> k \<and> mt_ec_connected (motors i) \<longrightarrow> \<not> in_slot c 8 i a) \<longrightarrow> m a = IOmap c a) \<and>
    (apart 8 c \<longrightarrow> (\<forall>i \<in> {1..k}. mt_ec_connected (motors i) \<longrightarrow>
       motors' i = csv_motor (get_txpdo (IOmap c) (in_at c i)) (motors i) \<and> get_rxpdo m (out_at c i) = mt_rxpdo (motors' i)))"
  using k
proof (induction k)
  case 0
  then show ?case by (intro exI [of _ motors] exI [of _ "IOmap c"]) simp
next
  case (Suc k)
  then obtain motors1 m1 where 1: "foldM csv_update [1..<Suc k] (motors, c) = Some (motors1, c\<lparr>IOmap := m1\<rparr>)"
    "\<forall>i. \<not> (1 \<le> i \<and> i \<le> k \<and> mt_ec_connected (motors i)) \<longrightarrow> motors1 i = motors i"
    "\<forall>a. (\<forall>i. 1 \<le> i \<and> i \<le> k \<and> mt_ec_connected (motors i) \<longrightarrow> \<not> in_slot c 8 i a) \<longrightarrow> m1 a = IOmap c a"
    "apart 8 c \<longrightarrow> (\<forall>i \<in> {1..k}. mt_ec_connected (motors i) \<longrightarrow>
       motors1 i = csv_motor (get_txpdo (IOmap c) (in_at c i)) (motors i) \<and> get_rxpdo m1 (out_at c i) = mt_rxpdo (motors1 i))"
    by auto
  have s: "Suc k \<in> {1..slavecount c}" using Suc.prems by simp
  have same: "motors1 (Suc k) = motors (Suc k)" using 1(2) by simp
  show ?case
  proof (cases "mt_ec_connected (motors (Suc k))")
    case False
    then have "foldM csv_update [1..<Suc (Suc k)] (motors, c) = Some (motors1, c\<lparr>IOmap := m1\<rparr>)"
      using same by (simp only: foldM_last 1(1) Option.bind.bind_lunit) (simp add: csv_update_def)
    then show ?thesis using 1(2-4) False by (intro exI [of _ motors1] exI [of _ m1]) (auto simp: le_Suc_eq)
  next
    case True
    let ?tx = "get_txpdo m1 (in_at c (Suc k))"
    define mk where "mk = csv_motor ?tx (motors (Suc k))"
    define m where "m = put_rxpdo (mt_rxpdo mk) m1 (out_at c (Suc k))"
    have run: "foldM csv_update [1..<Suc (Suc k)] (motors, c) = Some (motors1(Suc k := mk), c\<lparr>IOmap := m\<rparr>)"
    proof -
      have "csv_update (Suc k) (motors1, c\<lparr>IOmap := m1\<rparr>) = Some (motors1(Suc k := mk), c\<lparr>IOmap := m\<rparr>)"
        using same True read_inputs_slot [OF c s, of "c\<lparr>IOmap := m1\<rparr>"] write_outputs_slot [OF c s, where c' = "c\<lparr>IOmap := m1\<rparr>" and put = "put_rxpdo (mt_rxpdo mk)"]
        unfolding csv_update_def prod.case mk_def m_def csv_motor_def Let_def by simp
      then show ?thesis by (simp only: foldM_last 1(1) Option.bind.bind_lunit)
    qed
    have other: "m a = m1 a" if "\<not> in_slot c 8 (Suc k) a" for a
      using that unfolding m_def in_slot_def by (intro put_rxpdo_other) auto
    have m: "m a = IOmap c a" if "\<forall>i. 1 \<le> i \<and> i \<le> Suc k \<and> mt_ec_connected (motors i) \<longrightarrow> \<not> in_slot c 8 i a" for a
      using that other [of a] 1(3) True by simp
    have slots: "(motors1(Suc k := mk)) i = csv_motor (get_txpdo (IOmap c) (in_at c i)) (motors i) \<and>
        get_rxpdo m (out_at c i) = mt_rxpdo ((motors1(Suc k := mk)) i)"
      if a: "apart 8 c" and i: "i \<in> {1..Suc k}" "mt_ec_connected (motors i)" for i
    proof (cases "i = Suc k")
      case True
      have "?tx = get_txpdo (IOmap c) (in_at c (Suc k))"
      proof (rule get_txpdo_cong)
        fix b assume b: "in_at c (Suc k) \<le> b" "b < in_at c (Suc k) + 12"
        have "\<not> in_slot c 8 i b" if "1 \<le> i \<and> i \<le> k \<and> mt_ec_connected (motors i)" for i
        proof -
          have "i \<in> {1..slavecount c}" using that s by simp
          with a s have "out_at c i + 8 \<le> in_at c (Suc k) \<or> in_at c (Suc k) + 12 \<le> out_at c i" unfolding apart_def by blast
          with b show ?thesis by (auto simp: in_slot_def)
        qed
        then show "m1 b = IOmap c b" using 1(3) by blast
      qed
      then show ?thesis by (simp add: True mk_def m_def)
    next
      case False
      then have i': "i \<in> {1..k}" "i \<in> {1..slavecount c}" using i s by auto
      have "get_rxpdo m (out_at c i) = get_rxpdo m1 (out_at c i)"
      proof (rule get_rxpdo_cong, rule other)
        fix b assume b: "out_at c i \<le> b" "b < out_at c i + 8"
        have "out_at c i + 8 \<le> out_at c (Suc k) \<or> out_at c (Suc k) + 8 \<le> out_at c i" using a s i'(2) False unfolding apart_def by blast
        with b show "\<not> in_slot c 8 (Suc k) b" by (auto simp: in_slot_def)
      qed
      then show ?thesis using 1(4) a i(2) i'(1) False by simp
    qed
    have "(motors1(Suc k := mk)) i = motors i" if "\<not> (1 \<le> i \<and> i \<le> Suc k \<and> mt_ec_connected (motors i))" for i
      using that 1(2) True by auto
    with run m slots show ?thesis by (intro exI [of _ "motors1(Suc k := mk)"] exI [of _ m]) blast
  qed
qed

lemma csv_work_slots:
  assumes c: "slots_ok 8 c"
  shows "\<exists>motors' m. csv_work wkc (motors, c) = Some (motors', c\<lparr>IOmap := m\<rparr>) \<and>
    (\<forall>i \<in> {1..slavecount c}. \<not> connected wkc i \<longrightarrow> motors' i = connect_motor False (motors i)) \<and>
    (\<forall>a. (\<forall>i \<in> {1..slavecount c}. connected wkc i \<longrightarrow> \<not> in_slot c 8 i a) \<longrightarrow> m a = IOmap c a) \<and>
    (apart 8 c \<longrightarrow> (\<forall>i \<in> {1..slavecount c}. connected wkc i \<longrightarrow>
       motors' i = csv_motor (get_txpdo (IOmap c) (in_at c i)) (connect_motor True (motors i)) \<and> get_rxpdo m (out_at c i) = mt_rxpdo (motors' i)))"
proof -
  define con where "con = fold (csv_connect wkc) [1..<Suc (slavecount c)] motors"
  have con: "con i = connect_motor (connected wkc i) (motors i)" "mt_ec_connected (con i) \<longleftrightarrow> connected wkc i" if "i \<in> {1..slavecount c}" for i
    using that unfolding con_def csv_connect_all by (simp_all add: connect_motor_def)
  obtain motors' m where 1: "foldM csv_update [1..<Suc (slavecount c)] (con, c) = Some (motors', c\<lparr>IOmap := m\<rparr>)"
    "\<forall>i. \<not> (1 \<le> i \<and> i \<le> slavecount c \<and> mt_ec_connected (con i)) \<longrightarrow> motors' i = con i"
    "\<forall>a. (\<forall>i. 1 \<le> i \<and> i \<le> slavecount c \<and> mt_ec_connected (con i) \<longrightarrow> \<not> in_slot c 8 i a) \<longrightarrow> m a = IOmap c a"
    "apart 8 c \<longrightarrow> (\<forall>i \<in> {1..slavecount c}. mt_ec_connected (con i) \<longrightarrow>
       motors' i = csv_motor (get_txpdo (IOmap c) (in_at c i)) (con i) \<and> get_rxpdo m (out_at c i) = mt_rxpdo (motors' i))"
    using csv_updates [OF c order.refl, of con] by blast
  have "csv_work wkc (motors, c) = Some (motors', c\<lparr>IOmap := m\<rparr>)"
    using 1(1) by (simp add: csv_work_def con_def Let_def del: upt_Suc)
  moreover have "motors' i = connect_motor False (motors i)" if "i \<in> {1..slavecount c}" "\<not> connected wkc i" for i
    using 1(2) con [OF that(1)] that by simp
  moreover have "m a = IOmap c a" if "\<forall>i \<in> {1..slavecount c}. connected wkc i \<longrightarrow> \<not> in_slot c 8 i a" for a
    using 1(3) con that by (metis atLeastAtMost_iff)
  moreover have "motors' i = csv_motor (get_txpdo (IOmap c) (in_at c i)) (connect_motor True (motors i)) \<and> get_rxpdo m (out_at c i) = mt_rxpdo (motors' i)"
    if "apart 8 c" "i \<in> {1..slavecount c}" "connected wkc i" for i
    using 1(4) con [OF that(2)] that by simp
  ultimately show ?thesis by (intro exI [of _ motors'] exI [of _ m]) blast
qed

interpretation csv: rt_program csv_work 8
proof
  fix c :: "'e ecx_contextt" and wkc s
  assume "slots_ok 8 c"
  from csv_work_slots [OF this, of wkc s] show "\<exists>s' m. csv_work wkc (s, c) = Some (s', c\<lparr>IOmap := m\<rparr>)" by blast
qed

section \<open>A bus of drives\<close>

definition csv_bus :: "bus_event \<Rightarrow> (nat \<Rightarrow> cia402_motor_t) \<times> 'e ecx_contextt \<times> (nat \<Rightarrow> drive) \<Rightarrow>
    ((nat \<Rightarrow> cia402_motor_t) \<times> 'e ecx_contextt \<times> (nat \<Rightarrow> drive)) option" where
  "csv_bus = bus_cycle csv_work"

text \<open>A cycle of the bus, slave by slave.\<close>

lemma csv_bus_step:
  assumes c: "bus_ready 8 c"
  shows "\<exists>motors' c' d'. csv_bus (wkc, tx, ev) (motors, c, d) = Some (motors', c', d') \<and> same_tables c c' \<and>
    (\<forall>i \<in> {1..slavecount c}. if connected wkc i
       then motors' i = csv_motor ((tx i)\<lparr>tx_statusword := drive_status (upset (ev i) (d i))\<rparr>) (connect_motor True (motors i)) \<and>
         get_rxpdo (IOmap c') (out_at c i) = mt_rxpdo (motors' i) \<and> d' i = drive_obey (cw (motors' i)) (upset (ev i) (d i))
       else motors' i = connect_motor False (motors i) \<and> get_rxpdo (IOmap c') (out_at c i) = get_rxpdo (IOmap c) (out_at c i) \<and>
         d' i = upset (ev i) (d i))"
proof -
  let ?d = "\<lambda>i. upset (ev i) (d i)"
  let ?c = "report tx ?d c"
  have ok: "slots_ok 8 ?c" "apart 8 c" using c by (simp_all add: bus_ready_def)
  from csv_work_slots [OF ok(1), of wkc motors] ok(2) obtain motors' m where
    1: "csv_work wkc (motors, ?c) = Some (motors', ?c\<lparr>IOmap := m\<rparr>)"
    "\<forall>i \<in> {1..slavecount c}. \<not> connected wkc i \<longrightarrow> motors' i = connect_motor False (motors i)"
    "\<forall>a. (\<forall>i \<in> {1..slavecount c}. connected wkc i \<longrightarrow> \<not> in_slot c 8 i a) \<longrightarrow> m a = IOmap ?c a"
    "\<forall>i \<in> {1..slavecount c}. connected wkc i \<longrightarrow>
       motors' i = csv_motor (get_txpdo (IOmap ?c) (in_at c i)) (connect_motor True (motors i)) \<and> get_rxpdo m (out_at c i) = mt_rxpdo (motors' i)"
    by auto
  have lost: "get_rxpdo m (out_at c i) = get_rxpdo (IOmap c) (out_at c i)" if i: "i \<in> {1..slavecount c}" "\<not> connected wkc i" for i
  proof -
    have "m x = IOmap c x" if x: "in_slot c 8 i x" for x
    proof -
      have "m x = IOmap ?c x" using 1(3) slots_apart [OF ok(2) i(1) _ _ x] i(2) by blast
      also have "\<dots> = IOmap c x" by (rule report_outputs [OF ok(2) i(1) x])
      finally show ?thesis .
    qed
    then show ?thesis by (intro get_rxpdo_cong) (simp add: in_slot_def)
  qed
  have word: "rd16 m (out_at c i) = cw (motors' i)" if "i \<in> {1..slavecount c}" "connected wkc i" for i
    using 1(4) that by (metis get_rxpdo_def rxpdo_t.select_convs(1))
  let ?d' = "\<lambda>i. if connected wkc i then drive_obey (rd16 m (out_at c i)) (?d i) else ?d i"
  have "csv_bus (wkc, tx, ev) (motors, c, d) = Some (motors', ?c\<lparr>IOmap := m\<rparr>, ?d')"
    by (simp add: csv_bus_def bus_cycle_def 1(1) Let_def cong: if_cong)
  moreover have "same_tables c (?c\<lparr>IOmap := m\<rparr>)" by (simp add: same_tables_def)
  ultimately show ?thesis
    using 1(2,4) lost word report_slots [OF ok(2)] by (intro exI [of _ motors'] exI [of _ "?c\<lparr>IOmap := m\<rparr>"] exI [of _ ?d']) simp
qed

section \<open>The master follows the reference loop\<close>

text \<open>
  What the state machine of the master depends on: not the data read before, not the velocity, not the mark of the
  connection. Up to this, the motor of a slave and its drive are in a situation that the closed loop of \<open>Cia402\<close> reaches.
\<close>

definition core :: "cia402_motor_t \<Rightarrow> cia402_motor_t" where
  "core m = m\<lparr>mt_txpdo := \<lparr>tx_statusword = 0, tx_actual_position = 0, tx_actual_velocity = 0, tx_actual_torque = 0\<rparr>,
     mt_ec_connected := True, mt_rxpdo := (mt_rxpdo m)\<lparr>rx_target_velocity := 0\<rparr>\<rparr>"

definition tracks :: "cia402_motor_t \<Rightarrow> drive \<Rightarrow> bool" where
  "tracks m d \<longleftrightarrow> (\<exists>m0. reached (m0, d) \<and> core m = core m0)"

lemma core_fields:
  assumes "core m = core m0"
  shows "cw m = cw m0" "mt_operation_enabled m = mt_operation_enabled m0" "mt_faulted m = mt_faulted m0" "mt_step m = mt_step m0"
    "rx_mode_of_operation (mt_rxpdo m) = rx_mode_of_operation (mt_rxpdo m0)"
  using arg_cong [OF assms, of cw] arg_cong [OF assms, of mt_operation_enabled] arg_cong [OF assms, of mt_faulted] arg_cong [OF assms, of mt_step]
    arg_cong [OF assms, of "\<lambda>m. rx_mode_of_operation (mt_rxpdo m)"]
  by (simp_all add: core_def)

lemma core_simps [simp]: "core (m\<lparr>mt_txpdo := x\<rparr>) = core m" "core (m\<lparr>mt_ec_connected := b\<rparr>) = core m" "core (set_target_velocity v m) = core m"
  "core (m\<lparr>mt_state := st\<rparr>) = (core m)\<lparr>mt_state := st\<rparr>" "mt_state (core m) = mt_state m"
  by (simp_all add: core_def set_target_velocity_def)

lemma core_assign: "core (assign_control m) = assign_control (core m)"
  by (cases "mt_state m") (simp_all add: core_def assign_control_def waited_word_def set_controlword_def Let_def)

lemma core_lost: "core m = core m0 \<Longrightarrow> core (cia402_lost_motor m) = core (cia402_lost_motor m0)"
proof -
  have "core (cia402_lost_motor m) = core (cia402_lost_motor (core m))" for m by (simp add: core_def cia402_lost_motor_def)
  then show "core m = core m0 \<Longrightarrow> core (cia402_lost_motor m) = core (cia402_lost_motor m0)" by metis
qed

lemma core_csv_motor:
  assumes "core m = core m0" "tx_statusword tx = drive_status d"
  shows "core (csv_motor tx m) = core (sees m0 d)"
  using assms by (simp add: csv_motor_def cia402_state_machine_def sees_control core_assign Let_def)

lemma csv_motor_fields:
  "mt_operation_enabled (csv_motor tx m) \<longleftrightarrow> cia402_decode_state (tx_statusword tx) = OPERATION_ENABLED"
  "rx_target_velocity (mt_rxpdo (csv_motor tx m)) = (if mt_operation_enabled (csv_motor tx m) then - 2000 else 0)"
  by (simp_all add: csv_motor_def cia402_state_machine_def Let_def set_target_velocity_def assign_control_fields(2))

lemma core_connect:
  assumes "core m = core m0"
  shows "core (connect_motor True m) = core m0"
    "core (connect_motor False m) = core (if mt_ec_connected m then cia402_lost_motor m0 else m0)"
  using assms core_lost [OF assms] by (simp_all add: connect_motor_def)

lemma reached_upset: "reached (m, d) \<Longrightarrow> reached (m, upset e d)"
  by (cases e) (auto simp: upset_def intro: reached.step closed_loop.trip closed_loop.repaired)

lemma tracks_init: "dr_state d \<noteq> UNKNOWN \<Longrightarrow> tracks (cia402_init_motor m mode) d"
  unfolding tracks_def by (blast intro: reached.start)

lemma tracks_connected:
  fixes m d e tx
  assumes "tracks m d"
  defines "d1 \<equiv> upset e d" and "m' \<equiv> csv_motor (tx\<lparr>tx_statusword := drive_status (upset e d)\<rparr>) (connect_motor True m)"
  shows "tracks m' (drive_obey (cw m') d1)"
    "cw m' = CW_ENABLE_OP_CMD \<Longrightarrow> dr_state d1 \<in> {SWITCHED_ON, OPERATION_ENABLED}"
    "mt_operation_enabled m' \<Longrightarrow> dr_state d1 = OPERATION_ENABLED \<and> cw m' = CW_ENABLE_OP_CMD"
proof -
  obtain m0 where m0: "reached (m0, d1)" "core m = core m0" using assms(1) reached_upset by (auto simp: tracks_def d1_def)
  have c: "core m' = core (sees m0 d1)" unfolding m'_def d1_def using m0(2) by (intro core_csv_motor core_connect(1)) simp_all
  have mc: "motor_cycle (m0, d1) = (sees m0 d1, drive_obey (cw m') d1)" using core_fields(1) [OF c] by (simp add: motor_cycle_sees)
  show "tracks m' (drive_obey (cw m') d1)"
    using reached.step [OF m0(1) closed_loop.cycle] c unfolding mc tracks_def by blast
  show "cw m' = CW_ENABLE_OP_CMD \<Longrightarrow> dr_state d1 \<in> {SWITCHED_ON, OPERATION_ENABLED}"
    using enable_only_switched_on(1) [OF m0(1) mc] core_fields(1) [OF c] by simp
  assume "mt_operation_enabled m'"
  then have "mt_operation_enabled (sees m0 d1)" using core_fields(2) [OF c] by simp
  then show "dr_state d1 = OPERATION_ENABLED \<and> cw m' = CW_ENABLE_OP_CMD"
    using enable_only_switched_on(2) [OF m0(1) mc] sees_fields(1,2) [of m0 d1] core_fields(1) [OF c] by (simp add: sends_def)
qed

lemma tracks_disconnected:
  assumes "tracks m d"
  shows "tracks (connect_motor False m) (upset e d)"
proof -
  obtain m0 where m0: "reached (m0, upset e d)" "core m = core m0" using assms reached_upset by (auto simp: tracks_def)
  have "reached (if mt_ec_connected m then cia402_lost_motor m0 else m0, upset e d)"
    using m0(1) reached.step [OF m0(1) closed_loop.lost] by simp
  then show ?thesis using core_connect(2) [OF m0(2)] unfolding tracks_def by blast
qed

text \<open>Any number of cycles of the bus.\<close>

definition csv_run :: "bus_event list \<Rightarrow> (nat \<Rightarrow> cia402_motor_t) \<times> 'e ecx_contextt \<times> (nat \<Rightarrow> drive) \<Rightarrow>
    ((nat \<Rightarrow> cia402_motor_t) \<times> 'e ecx_contextt \<times> (nat \<Rightarrow> drive)) option" where
  "csv_run = foldM csv_bus"

lemma csv_run_tracks:
  assumes "bus_ready 8 c" "\<forall>i \<in> {1..slavecount c}. tracks (motors i) (d i)"
  shows "\<exists>motors' c' d'. csv_run evs (motors, c, d) = Some (motors', c', d') \<and> same_tables c c' \<and>
    (\<forall>i \<in> {1..slavecount c}. tracks (motors' i) (d' i))"
proof (induction evs rule: rev_induct)
  case Nil
  then show ?case using assms by (simp add: csv_run_def)
next
  case (snoc e evs)
  then obtain motors1 c1 d1 where 1: "csv_run evs (motors, c, d) = Some (motors1, c1, d1)" "same_tables c c1"
    "\<forall>i \<in> {1..slavecount c}. tracks (motors1 i) (d1 i)" by blast
  obtain wkc tx ev where e: "e = (wkc, tx, ev)" by (cases e)
  have n: "slavecount c1 = slavecount c" using 1(2) by (simp add: same_tables_def)
  from csv_bus_step [OF bus_ready_same [OF assms(1) 1(2)], of wkc tx ev motors1 d1] obtain motors2 c2 d2 where
    2: "csv_bus e (motors1, c1, d1) = Some (motors2, c2, d2)" "same_tables c1 c2"
    "\<forall>i \<in> {1..slavecount c}. if connected wkc i
       then motors2 i = csv_motor ((tx i)\<lparr>tx_statusword := drive_status (upset (ev i) (d1 i))\<rparr>) (connect_motor True (motors1 i)) \<and>
         get_rxpdo (IOmap c2) (out_at c1 i) = mt_rxpdo (motors2 i) \<and> d2 i = drive_obey (cw (motors2 i)) (upset (ev i) (d1 i))
       else motors2 i = connect_motor False (motors1 i) \<and> get_rxpdo (IOmap c2) (out_at c1 i) = get_rxpdo (IOmap c1) (out_at c1 i) \<and>
         d2 i = upset (ev i) (d1 i)"
    unfolding e n by blast
  have "tracks (motors2 i) (d2 i)" if i: "i \<in> {1..slavecount c}" for i
    using tracks_connected(1) [OF 1(3) [rule_format, OF i]] tracks_disconnected [OF 1(3) [rule_format, OF i]] 2(3) [rule_format, OF i]
    by (simp split: if_splits)
  then show ?case using 1 2(1,2) same_tables_trans [OF 1(2) 2(2)] by (auto simp: csv_run_def foldM_append)
qed


text \<open>A slave that stays connected and undisturbed goes through the cycles of the reference loop.\<close>

lemma csv_quiet_run:
  assumes c: "bus_ready 8 c" and i: "i \<in> {1..slavecount c}" and m0: "core (motors i) = core m0" and q: "\<forall>e \<in> set evs. quiet i e"
  shows "\<exists>motors' c' d'. csv_run evs (motors, c, d) = Some (motors', c', d') \<and> same_tables c c' \<and>
    core (motors' i) = core (fst (after (length evs) (m0, d i))) \<and> d' i = snd (after (length evs) (m0, d i)) \<and>
    (evs \<noteq> [] \<longrightarrow> rx_target_velocity (get_rxpdo (IOmap c') (out_at c i)) = (if mt_operation_enabled (motors' i) then - 2000 else 0))"
  using q
proof (induction evs rule: rev_induct)
  case Nil
  then show ?case using m0 by (simp add: csv_run_def)
next
  case (snoc e evs)
  obtain motors1 c1 d1 where 1: "csv_run evs (motors, c, d) = Some (motors1, c1, d1)" "same_tables c c1"
    "core (motors1 i) = core (fst (after (length evs) (m0, d i)))" "d1 i = snd (after (length evs) (m0, d i))"
    using snoc by auto
  obtain wkc tx ev where e: "e = (wkc, tx, ev)" by (cases e)
  have q: "connected wkc i" "upset (ev i) (d1 i) = d1 i" using snoc.prems by (auto simp: e quiet_def upset_def)
  have t: "slavecount c1 = slavecount c" "slavelist c1 = slavelist c" using 1(2) by (simp_all add: same_tables_def)
  from csv_bus_step [OF bus_ready_same [OF c 1(2)], of wkc tx ev motors1 d1] i q obtain motors2 c2 d2 where
    2: "csv_bus e (motors1, c1, d1) = Some (motors2, c2, d2)" "same_tables c1 c2"
    "motors2 i = csv_motor ((tx i)\<lparr>tx_statusword := drive_status (d1 i)\<rparr>) (connect_motor True (motors1 i))"
    "get_rxpdo (IOmap c2) (out_at c i) = mt_rxpdo (motors2 i)" "d2 i = drive_obey (cw (motors2 i)) (d1 i)"
    unfolding e t by metis
  obtain ma da where a: "after (length evs) (m0, d i) = (ma, da)" by fastforce
  have core: "core (motors2 i) = core (sees ma (d1 i))"
    unfolding 2(3) by (rule core_csv_motor [OF core_connect(1)]) (simp_all add: 1(3) a)
  have "after (length (evs @ [e])) (m0, d i) = (sees ma (d1 i), drive_obey (cw (motors2 i)) (d1 i))"
    using a 1(4) core_fields(1) [OF core] by (simp add: motor_cycle_sees)
  moreover have "rx_target_velocity (mt_rxpdo (motors2 i)) = (if mt_operation_enabled (motors2 i) then - 2000 else 0)"
    unfolding 2(3) by (rule csv_motor_fields(2))
  moreover have "csv_run (evs @ [e]) (motors, c, d) = Some (motors2, c2, d2)"
    using 1(1) 2(1) by (simp add: csv_run_def foldM_append)
  ultimately show ?case using core 2(4,5) same_tables_trans [OF 1(2) 2(2)] by auto
qed


lemma csv_motors_init: "i \<in> {1..n} \<Longrightarrow> csv_motors n motors i = cia402_init_motor (motors i) MODE_CSV"
  using fold_each [of "\<lambda>slave motors. motors(slave := cia402_init_motor (motors slave) MODE_CSV)" "\<lambda>_ m. cia402_init_motor m MODE_CSV" n motors]
  by (simp add: csv_motors_def del: upt_Suc)

lemma csv_init_tracks:
  "\<forall>i \<in> {1..n}. dr_state (d i) \<noteq> UNKNOWN \<Longrightarrow> \<forall>i \<in> {1..n}. tracks (csv_motors n motors i) (d i)"
  using csv_motors_init tracks_init by metis

section \<open>Properties\<close>

text \<open>
  C7: whatever happens on the bus (trips, repairs, any working counters), the program goes on; for each slave that it takes
  for connected the velocity in the image is 0 or -2000, and it is -2000 only if the drive is in operation enabled and not
  about to be disabled; the operation is commanded only when the drive was switched on. The image of a slave that is taken for
  disconnected is left as it was, the velocity included: the safe data that \<open>cia402_lost_motor\<close> prepares is not sent.
\<close>

theorem csv_bus_safe:
  assumes "bus_ready 8 c" "\<forall>i \<in> {1..slavecount c}. dr_state (d i) \<noteq> UNKNOWN"
  shows "\<exists>motors1 c1 d1 motors2 c2 d2. csv_run evs (csv_motors (slavecount c) motors, c, d) = Some (motors1, c1, d1) \<and>
    csv_bus (wkc, tx, ev) (motors1, c1, d1) = Some (motors2, c2, d2) \<and>
    (\<forall>i \<in> {1..slavecount c}. let sent = get_rxpdo (IOmap c2) (out_at c i); before = dr_state (upset (ev i) (d1 i)) in
      if wkc \<ge> int i * 3
      then (rx_target_velocity sent = 0 \<or> rx_target_velocity sent = - 2000 \<and> rx_controlword sent = CW_ENABLE_OP_CMD \<and> before = OPERATION_ENABLED) \<and>
        (rx_controlword sent = CW_ENABLE_OP_CMD \<longrightarrow> before \<in> {SWITCHED_ON, OPERATION_ENABLED})
      else sent = get_rxpdo (IOmap c1) (out_at c i) \<and> (mt_ec_connected (motors1 i) \<longrightarrow> rx_controlword (mt_rxpdo (motors2 i)) = 0))"
proof -
  from csv_run_tracks [OF assms(1) csv_init_tracks [OF assms(2), where motors = motors], where evs = evs] obtain motors1 c1 d1 where
    1: "csv_run evs (csv_motors (slavecount c) motors, c, d) = Some (motors1, c1, d1)" "same_tables c c1"
    "\<forall>i \<in> {1..slavecount c}. tracks (motors1 i) (d1 i)" by blast
  have t: "slavecount c1 = slavecount c" "slavelist c1 = slavelist c" using 1(2) by (simp_all add: same_tables_def)
  from csv_bus_step [OF bus_ready_same [OF assms(1) 1(2)], of wkc tx ev motors1 d1] obtain motors2 c2 d2 where
    2: "csv_bus (wkc, tx, ev) (motors1, c1, d1) = Some (motors2, c2, d2)"
    "\<forall>i \<in> {1..slavecount c}. if connected wkc i
       then motors2 i = csv_motor ((tx i)\<lparr>tx_statusword := drive_status (upset (ev i) (d1 i))\<rparr>) (connect_motor True (motors1 i)) \<and>
         get_rxpdo (IOmap c2) (out_at c i) = mt_rxpdo (motors2 i) \<and> d2 i = drive_obey (cw (motors2 i)) (upset (ev i) (d1 i))
       else motors2 i = connect_motor False (motors1 i) \<and> get_rxpdo (IOmap c2) (out_at c i) = get_rxpdo (IOmap c1) (out_at c i) \<and>
         d2 i = upset (ev i) (d1 i)"
    unfolding t by blast
  have "let sent = get_rxpdo (IOmap c2) (out_at c i); before = dr_state (upset (ev i) (d1 i)) in
      if wkc \<ge> int i * 3
      then (rx_target_velocity sent = 0 \<or> rx_target_velocity sent = - 2000 \<and> rx_controlword sent = CW_ENABLE_OP_CMD \<and> before = OPERATION_ENABLED) \<and>
        (rx_controlword sent = CW_ENABLE_OP_CMD \<longrightarrow> before \<in> {SWITCHED_ON, OPERATION_ENABLED})
      else sent = get_rxpdo (IOmap c1) (out_at c i) \<and> (mt_ec_connected (motors1 i) \<longrightarrow> rx_controlword (mt_rxpdo (motors2 i)) = 0)"
    if i: "i \<in> {1..slavecount c}" for i
    using tracks_connected(2,3) [OF 1(3) [rule_format, OF i], where e = "ev i" and tx = "tx i"] 2(2) [rule_format, OF i]
      csv_motor_fields(2) [of "(tx i)\<lparr>tx_statusword := drive_status (upset (ev i) (d1 i))\<rparr>" "connect_motor True (motors1 i)"]
    by (auto simp: Let_def connect_motor_def cia402_lost_motor_def split: if_splits)
  with 1(1) 2(1) show ?thesis by blast
qed

text \<open>
  C6: after any history, a slave that from then on stays connected and undisturbed for 1505 cycles, with a drive whose status word can be
  read and whose fault can be reset, is in operation enabled and gets its velocity, whatever happens to the other slaves.
\<close>

theorem csv_enables_drive:
  assumes "bus_ready 8 c" "\<forall>i \<in> {1..slavecount c}. dr_state (d i) \<noteq> UNKNOWN"
    and "csv_run evs (csv_motors (slavecount c) motors, c, d) = Some (motors1, c1, d1)"
    and "i \<in> {1..slavecount c}" "dr_bits (d1 i) AND 0x20 = 0" "\<not> dr_cause (d1 i)" "dr_state (d1 i) = FAULT \<longrightarrow> dr_cw (d1 i) AND 0x80 = 0"
    and "\<forall>e \<in> set evs'. quiet i e" "1505 \<le> length evs'"
  shows "\<exists>motors2 c2 d2. csv_run evs' (motors1, c1, d1) = Some (motors2, c2, d2) \<and> dr_state (d2 i) = OPERATION_ENABLED \<and>
    mt_operation_enabled (motors2 i) \<and> rx_target_velocity (get_rxpdo (IOmap c2) (out_at c i)) = - 2000"
proof -
  from csv_run_tracks [OF assms(1) csv_init_tracks [OF assms(2), where motors = motors], where evs = evs] assms(3)
  have 1: "same_tables c c1" "tracks (motors1 i) (d1 i)" using assms(4) by auto
  then obtain m0 where m0: "reached (m0, d1 i)" "core (motors1 i) = core m0" by (auto simp: tracks_def)
  have t: "slavecount c1 = slavecount c" "slavelist c1 = slavelist c" using 1(1) by (simp_all add: same_tables_def)
  have i1: "i \<in> {1..slavecount c1}" using assms(4) t by simp
  from csv_quiet_run [where motors = motors1 and ?m0.0 = m0 and d = d1, OF bus_ready_same [OF assms(1) 1(1)] i1 m0(2) assms(8)] t obtain motors2 c2 d2 where
    2: "csv_run evs' (motors1, c1, d1) = Some (motors2, c2, d2)" "core (motors2 i) = core (fst (after (length evs') (m0, d1 i)))"
    "d2 i = snd (after (length evs') (m0, d1 i))"
    "evs' \<noteq> [] \<longrightarrow> rx_target_velocity (get_rxpdo (IOmap c2) (out_at c i)) = (if mt_operation_enabled (motors2 i) then - 2000 else 0)"
    by auto
  from reached_gets_enabled [OF m0(1) assms(5-7)] obtain n where n: "n \<le> 1504"
    "\<forall>k. dr_state (snd (after (n + k) (m0, d1 i))) = OPERATION_ENABLED \<and> (0 < k \<longrightarrow> mt_operation_enabled (fst (after (n + k) (m0, d1 i))))" by blast
  then have "dr_state (d2 i) = OPERATION_ENABLED" "mt_operation_enabled (fst (after (length evs') (m0, d1 i)))"
    using n(2) [rule_format, of "length evs' - n"] assms(9) by (simp_all add: 2(3))
  moreover have "evs' \<noteq> []" using assms(9) by auto
  ultimately show ?thesis using 2(1,4) core_fields(2) [OF 2(2)] by auto
qed

text \<open>
  C21: the thread never stops on what the bus does: from a context in order, whatever frames arrive or fail to arrive, any number
  of its cycles return, the port and the tables stay in order, and no frame buffer is lost.
\<close>

theorem csv_runs_forever:
  assumes "cycle_ok E now 8 c" "cycletime \<noteq> 0"
  shows "\<exists>toff' y' motors' c'. foldM (\<lambda>_. csv_cycle E cycletime) [0..<k] (toff, y, motors, c) = Some (toff', y', motors', c') \<and>
    cycle_ok E now 8 c' \<and> slavelist c' = slavelist c \<and> grouplist c' = grouplist c \<and> held c' \<subseteq> held c"
  using csv.cycles_return [OF assms, of k toff y motors] by (auto simp: csv_cycle_def same_tables_def)

theorem csv_bus_safe_witness:
  "\<exists>motors1 c1 d1 motors2 c2 d2. csv_run [(6, undefined, \<lambda>_. Some True), (3, undefined, \<lambda>_. None)] (csv_motors 2 (\<lambda>_. idle_motor), bus_ctx, \<lambda>_. idle_drive OPERATION_ENABLED 0) = Some (motors1, c1, d1) \<and>
    csv_bus (3, undefined, \<lambda>_. None) (motors1, c1, d1) = Some (motors2, c2, d2) \<and> get_rxpdo (IOmap c2) 8 = get_rxpdo (IOmap c1) 8"
proof -
  have "\<forall>i \<in> {1..slavecount bus_ctx}. dr_state (idle_drive OPERATION_ENABLED 0) \<noteq> UNKNOWN" by (simp add: idle_drive_def)
  from csv_bus_safe [OF bus_ctx_ready this, of "[(6, undefined, \<lambda>_. Some True), (3, undefined, \<lambda>_. None)]" "\<lambda>_. idle_motor" 3 undefined "\<lambda>_. None"]
  show ?thesis unfolding bus_ctx_fields Let_def by (fastforce dest!: bspec [where x = 2])
qed

theorem csv_enables_drive_witness:
  "\<exists>motors2 c2 d2. csv_run (replicate 1505 (6, undefined, \<lambda>_. None)) (csv_motors 2 (\<lambda>_. idle_motor), bus_ctx, \<lambda>_. idle_drive FAULT 0) = Some (motors2, c2, d2) \<and>
    rx_target_velocity (get_rxpdo (IOmap c2) 8) = - 2000"
proof -
  have d: "\<forall>i \<in> {1..slavecount bus_ctx}. dr_state (idle_drive FAULT 0) \<noteq> UNKNOWN" by (simp add: idle_drive_def)
  have "\<exists>motors2 c2 d2. csv_run (replicate 1505 (6, undefined, \<lambda>_. None)) (csv_motors (slavecount bus_ctx) (\<lambda>_. idle_motor), bus_ctx, \<lambda>_. idle_drive FAULT 0) = Some (motors2, c2, d2) \<and>
    dr_state (d2 2) = OPERATION_ENABLED \<and> mt_operation_enabled (motors2 2) \<and> rx_target_velocity (get_rxpdo (IOmap c2) (out_at bus_ctx 2)) = - 2000"
    by (rule csv_enables_drive [OF bus_ctx_ready d, of "[]"]) (simp_all add: csv_run_def bus_ctx_fields idle_drive_def quiet_def)
  then show ?thesis by (auto simp: bus_ctx_fields)
qed

theorem csv_runs_forever_witness:
  "\<exists>toff y motors c. foldM (\<lambda>_. csv_cycle script_os 1000000) [0..<1000000] (0, \<lparr>sy_integral = 0, sy_delta = 0\<rparr>, \<lambda>_. idle_motor, bus_ctx) = Some (toff, y, motors, c) \<and>
    held c \<subseteq> held bus_ctx"
proof -
  have "(1000000 :: int) \<noteq> 0" by simp
  from csv_runs_forever [OF bus_ctx_cycle this] show ?thesis by blast
qed

end
