(* ===== verification/ProfileVelocity.thy ===== *)
theory ProfileVelocity
  imports Velocity
begin

text \<open>
  The program \<open>demo/eRob_PV.cpp\<close>: all slaves are taken through the states together. In each stage every slave gets the same control word,
  and the step is counted only in cycles in which all slaves report the state of the stage; after the last stage the velocity is set.
\<close>

section \<open>The program\<close>

record pv_t =
  pv_motors :: "nat \<Rightarrow> cia402_motor_t"
  pv_step :: nat
  pv_retry_count :: nat

abbreviation (input) MAX_RETRY :: nat where "MAX_RETRY \<equiv> 3"

definition pv_init_motor :: "cia402_motor_t \<Rightarrow> cia402_motor_t" where
  "pv_init_motor m = m\<lparr>
     mt_rxpdo := \<lparr>rx_controlword = CW_FAULT_RESET_CMD, rx_target_velocity = 0, rx_mode_of_operation = MODE_CSV, rx_padding = 0\<rparr>,
     mt_state := NOT_READY_TO_SWITCH_ON, mt_faulted := False, mt_step := 0\<rparr>"

definition pv_init :: "nat \<Rightarrow> (nat \<Rightarrow> cia402_motor_t) \<Rightarrow> pv_t" where
  "pv_init n motors = \<lparr>pv_motors = fold (\<lambda>slave motors. motors(slave := pv_init_motor (motors slave))) [1..<n + 1] motors, pv_step = 0, pv_retry_count = 0\<rparr>"

definition pv_write :: "(nat \<Rightarrow> cia402_motor_t) \<Rightarrow> 'e ecx_contextt \<Rightarrow> 'e ecx_contextt option" where
  "pv_write motors c = foldM (\<lambda>slave. write_outputs (put_rxpdo (mt_rxpdo (motors slave))) 8 slave) [1..<slavecount c + 1] c"

definition pv_start :: "'e os_ops \<Rightarrow> (nat \<Rightarrow> cia402_motor_t) \<Rightarrow> 'e ecx_contextt \<Rightarrow> (pv_t \<times> int \<times> 'e ecx_contextt) option" where
  "pv_start E motors c = do {
     let s = pv_init (slavecount c) motors;
     c \<leftarrow> pv_write (pv_motors s) c;
     (_, c) \<leftarrow> ecx_send_processdata E c;
     (wkc, c) \<leftarrow> ecx_receive_processdata E EC_TIMEOUTRET c;
     Some (s, wkc, c) }"

definition pv_read :: "'e ecx_contextt \<Rightarrow> nat \<Rightarrow> (nat \<Rightarrow> cia402_motor_t) \<Rightarrow> (nat \<Rightarrow> cia402_motor_t) option" where
  "pv_read c slave motors = do {
     tx \<leftarrow> read_inputs slave c;
     Some (motors(slave := (motors slave)\<lparr>mt_txpdo := tx, mt_state := cia402_decode_state (tx_statusword tx)\<rparr>)) }"

text \<open>One pass over the slaves: what they get, and whether all of them are in the state that is waited for.\<close>

definition pv_pass :: "nat \<Rightarrow> u16 \<Rightarrow> u32 \<Rightarrow> CIA402_STATE option \<Rightarrow> (nat \<Rightarrow> cia402_motor_t) \<Rightarrow> bool \<times> (nat \<Rightarrow> cia402_motor_t)" where
  "pv_pass n w v wanted motors = fold (\<lambda>slave (next_state_ready, motors).
     (next_state_ready \<and> (case wanted of None \<Rightarrow> True | Some st \<Rightarrow> mt_state (motors slave) = st),
      motors(slave := set_target_velocity v (set_controlword w (motors slave))))) [1..<n + 1] (True, motors)"

definition pv_control :: "nat \<Rightarrow> nat \<Rightarrow> (nat \<Rightarrow> cia402_motor_t) \<Rightarrow> bool \<times> (nat \<Rightarrow> cia402_motor_t)" where
  "pv_control n step motors =
     (if step \<le> 1500 then pv_pass n CW_FAULT_RESET_CMD 0 (Some SW_ON_DISABLED) motors
      else if step \<le> 1800 then pv_pass n CW_SHUTDOWN_CMD 0 (Some READY_TO_SWITCH_ON) motors
      else if step \<le> 2000 then pv_pass n CW_SWITCH_ON_CMD 0 (Some SWITCHED_ON) motors
      else if step \<le> 2400 then pv_pass n CW_ENABLE_OP_CMD 0 (Some OPERATION_ENABLED) motors
      else pv_pass n CW_ENABLE_OP_CMD (- 20000) None motors)"

definition pv_work :: "int \<Rightarrow> int \<Rightarrow> pv_t \<times> 'e ecx_contextt \<Rightarrow> (pv_t \<times> 'e ecx_contextt) option" where
  "pv_work expectedWKC wkc = (\<lambda>(s, c).
     if wkc \<ge> expectedWKC
     then do {
       motors \<leftarrow> foldM (pv_read c) [1..<slavecount c + 1] (pv_motors s);
       let (next_state_ready, motors) = pv_control (slavecount c) (pv_step s) motors;
       c \<leftarrow> pv_write motors c;
       Some (\<lparr>pv_motors = motors, pv_step = (if pv_step s < 8000 \<and> next_state_ready then pv_step s + 1 else pv_step s), pv_retry_count = 0\<rparr>, c) }
     else Some (s\<lparr>pv_retry_count := (if pv_retry_count s + 1 \<ge> MAX_RETRY then 0 else pv_retry_count s + 1)\<rparr>, c))"

section \<open>What the work does\<close>

text \<open>The stage of a step: the word, the velocity and the state that is waited for.\<close>

definition pv_stage :: "nat \<Rightarrow> u16 \<times> u32 \<times> CIA402_STATE option" where
  "pv_stage step =
     (if step \<le> 1500 then (CW_FAULT_RESET_CMD, 0, Some SW_ON_DISABLED)
      else if step \<le> 1800 then (CW_SHUTDOWN_CMD, 0, Some READY_TO_SWITCH_ON)
      else if step \<le> 2000 then (CW_SWITCH_ON_CMD, 0, Some SWITCHED_ON)
      else if step \<le> 2400 then (CW_ENABLE_OP_CMD, 0, Some OPERATION_ENABLED)
      else (CW_ENABLE_OP_CMD, - 20000, None))"

lemma pv_control_stage: "pv_control n step motors = (case pv_stage step of (w, v, st) \<Rightarrow> pv_pass n w v st motors)"
  by (simp add: pv_control_def pv_stage_def)

lemma all_one_more: "(\<forall>i \<in> {1..Suc n}. P i) \<longleftrightarrow> (\<forall>i \<in> {1..n}. P i) \<and> P (Suc n)"
proof -
  have "{1..Suc n} = insert (Suc n) {1..n}" by auto
  then show ?thesis by (simp only:) blast
qed

lemma pv_pass_all:
  "pv_pass n w v st motors = (\<forall>i \<in> {1..n}. st = None \<or> st = Some (mt_state (motors i)),
    \<lambda>i. if 1 \<le> i \<and> i \<le> n then set_target_velocity v (set_controlword w (motors i)) else motors i)"
proof -
  let ?f = "\<lambda>slave (ready, motors). (ready \<and> (case st of None \<Rightarrow> True | Some st \<Rightarrow> mt_state (motors slave) = st),
      motors(slave := set_target_velocity v (set_controlword w (motors slave))))"
  have "fold ?f [1..<Suc n] (True, motors) = (\<forall>i \<in> {1..n}. st = None \<or> st = Some (mt_state (motors i)),
    \<lambda>i. if 1 \<le> i \<and> i \<le> n then set_target_velocity v (set_controlword w (motors i)) else motors i)"
  proof (induction n)
    case (Suc n)
    have "fold ?f [1..<Suc (Suc n)] (True, motors) = ?f (Suc n) (fold ?f [1..<Suc n] (True, motors))" by simp
    also have "\<dots> = (\<forall>i \<in> {1..Suc n}. st = None \<or> st = Some (mt_state (motors i)),
      \<lambda>i. if 1 \<le> i \<and> i \<le> Suc n then set_target_velocity v (set_controlword w (motors i)) else motors i)"
      unfolding Suc.IH prod.case all_one_more by (cases st) (auto simp: fun_eq_iff le_Suc_eq)
    finally show ?case .
  qed (simp add: fun_eq_iff)
  then show ?thesis by (simp add: pv_pass_def)
qed

lemma pv_reads:
  assumes "slots_ok 8 c" "k \<le> slavecount c"
  shows "foldM (pv_read c) [1..<Suc k] motors = Some (\<lambda>i. if 1 \<le> i \<and> i \<le> k
     then let tx = get_txpdo (IOmap c) (in_at c i) in (motors i)\<lparr>mt_txpdo := tx, mt_state := cia402_decode_state (tx_statusword tx)\<rparr> else motors i)"
  using assms(2)
proof (induction k)
  case (Suc k)
  then have "read_inputs (Suc k) c = Some (get_txpdo (IOmap c) (in_at c (Suc k)))" by (intro read_inputs_slot [OF assms(1)]) simp_all
  moreover from Suc have "foldM (pv_read c) [1..<Suc k] motors = Some (\<lambda>i. if 1 \<le> i \<and> i \<le> k
     then let tx = get_txpdo (IOmap c) (in_at c i) in (motors i)\<lparr>mt_txpdo := tx, mt_state := cia402_decode_state (tx_statusword tx)\<rparr> else motors i)" by simp
  ultimately show ?case unfolding foldM_last by (simp add: pv_read_def) (auto simp: fun_eq_iff le_Suc_eq Let_def)
qed (simp add: fun_eq_iff)

lemma pv_writes:
  assumes "slots_ok 8 c"
  shows "\<exists>m. pv_write motors c = Some (c\<lparr>IOmap := m\<rparr>) \<and> (apart 8 c \<longrightarrow> (\<forall>i \<in> {1..slavecount c}. get_rxpdo m (out_at c i) = mt_rxpdo (motors i)))"
  unfolding pv_write_def
proof (rule write_each_slots [where view = get_rxpdo, OF assms])
  show "get_rxpdo (put_rxpdo (mt_rxpdo (motors i)) m off) off = mt_rxpdo (motors i)" for i m off by simp
  show "get_rxpdo m off = get_rxpdo m' off" if "\<And>x. off \<le> x \<Longrightarrow> x < off + 8 \<Longrightarrow> m x = m' x" for m m' off
    using that by (rule get_rxpdo_cong)
  show "put_rxpdo (mt_rxpdo (motors i)) m off x = m x" if "x < off \<or> off + 8 \<le> x" for i m off x using that by (rule put_rxpdo_other)
qed

lemma pv_work_slots:
  assumes "slots_ok 8 c"
  shows "\<exists>s' m. pv_work X wkc (s, c) = Some (s', c\<lparr>IOmap := m\<rparr>) \<and>
    (if wkc \<ge> X
     then pv_step s' = (if pv_step s < 8000 \<and> (\<forall>i \<in> {1..slavecount c}. snd (snd (pv_stage (pv_step s))) \<in>
         {None, Some (cia402_decode_state (tx_statusword (get_txpdo (IOmap c) (in_at c i))))}) then pv_step s + 1 else pv_step s) \<and>
       (apart 8 c \<longrightarrow> (\<forall>i \<in> {1..slavecount c}. rx_controlword (get_rxpdo m (out_at c i)) = fst (pv_stage (pv_step s)) \<and>
         rx_target_velocity (get_rxpdo m (out_at c i)) = fst (snd (pv_stage (pv_step s)))))
     else pv_step s' = pv_step s \<and> m = IOmap c)"
proof (cases "wkc \<ge> X")
  case True
  define motors where "motors = (\<lambda>i. if 1 \<le> i \<and> i \<le> slavecount c
     then let tx = get_txpdo (IOmap c) (in_at c i) in (pv_motors s i)\<lparr>mt_txpdo := tx, mt_state := cia402_decode_state (tx_statusword tx)\<rparr> else pv_motors s i)"
  have r: "foldM (pv_read c) [1..<slavecount c + 1] (pv_motors s) = Some motors"
    using pv_reads [OF assms order.refl, of "pv_motors s"] by (simp add: motors_def)
  obtain w v st where st: "pv_stage (pv_step s) = (w, v, st)" by (cases "pv_stage (pv_step s)")
  define motors2 where "motors2 = snd (pv_pass (slavecount c) w v st motors)"
  obtain m where m: "pv_write motors2 c = Some (c\<lparr>IOmap := m\<rparr>)" "apart 8 c \<longrightarrow> (\<forall>i \<in> {1..slavecount c}. get_rxpdo m (out_at c i) = mt_rxpdo (motors2 i))"
    using pv_writes [OF assms, of motors2] by blast
  have p: "pv_control (slavecount c) (pv_step s) motors = (\<forall>i \<in> {1..slavecount c}. st = None \<or> st = Some (mt_state (motors i)), motors2)"
    unfolding pv_control_stage st prod.case motors2_def by (simp add: pv_pass_all)
  have "mt_rxpdo (motors2 i) = (mt_rxpdo (motors i))\<lparr>rx_controlword := w, rx_target_velocity := v\<rparr>" if "i \<in> {1..slavecount c}" for i
    using that by (simp add: motors2_def pv_pass_all set_target_velocity_def set_controlword_def)
  moreover have "mt_state (motors i) = cia402_decode_state (tx_statusword (get_txpdo (IOmap c) (in_at c i)))" if "i \<in> {1..slavecount c}" for i
    using that by (simp add: motors_def Let_def)
  moreover define s' where "s' = \<lparr>pv_motors = motors2, pv_step = (if pv_step s < 8000 \<and> (\<forall>i \<in> {1..slavecount c}. st = None \<or> st = Some (mt_state (motors i)))
    then pv_step s + 1 else pv_step s), pv_retry_count = 0\<rparr>"
  moreover have "pv_work X wkc (s, c) = Some (s', c\<lparr>IOmap := m\<rparr>)"
    unfolding pv_work_def prod.case using True by (simp only: if_True r Option.bind.bind_lunit p Let_def prod.case m(1) s'_def)
  ultimately show ?thesis
    using True m(2) by (intro exI [of _ s'] exI [of _ m]) (simp add: st)
next
  case False
  then show ?thesis by (intro exI [of _ "s\<lparr>pv_retry_count := (if pv_retry_count s + 1 \<ge> MAX_RETRY then 0 else pv_retry_count s + 1)\<rparr>"] exI [of _ "IOmap c"]) (simp add: pv_work_def)
qed

interpretation pv: rt_program "pv_work X" 8
  for X
proof
  fix c :: "'e ecx_contextt" and wkc s
  assume "slots_ok 8 c"
  from pv_work_slots [OF this, of X wkc s] show "\<exists>s' m. pv_work X wkc (s, c) = Some (s', c\<lparr>IOmap := m\<rparr>)" by blast
qed

section \<open>The bus\<close>

definition pv_run :: "int \<Rightarrow> bus_event list \<Rightarrow> pv_t \<times> 'e ecx_contextt \<times> (nat \<Rightarrow> drive) \<Rightarrow> (pv_t \<times> 'e ecx_contextt \<times> (nat \<Rightarrow> drive)) option" where
  "pv_run X = foldM (bus_cycle (pv_work X))"

abbreviation agreed :: "nat \<Rightarrow> nat \<Rightarrow> (nat \<Rightarrow> bool option) \<Rightarrow> (nat \<Rightarrow> drive) \<Rightarrow> bool" where
  "agreed n step ev d \<equiv> (\<forall>i \<in> {1..n}. snd (snd (pv_stage step)) \<in> {None, Some (cia402_decode_state (drive_status (upset (ev i) (d i))))})"

lemma rxpdo_outputs:
  assumes "apart 8 c" "i \<in> {1..slavecount c}"
  shows "get_rxpdo (IOmap (report tx d c)) (out_at c i) = get_rxpdo (IOmap c) (out_at c i)"
  by (intro get_rxpdo_cong report_outputs [OF assms]) (simp add: in_slot_def)

lemma pv_bus_step:
  assumes "bus_ready 8 c"
  shows "\<exists>s' c' d'. bus_cycle (pv_work X) (wkc, tx, ev) (s, c, d) = Some (s', c', d') \<and> same_tables c c' \<and>
    pv_step s' = (if wkc \<ge> X \<and> pv_step s < 8000 \<and> agreed (slavecount c) (pv_step s) ev d then pv_step s + 1 else pv_step s) \<and>
    (\<forall>i \<in> {1..slavecount c}. let sent = get_rxpdo (IOmap c') (out_at c i) in
      (if wkc \<ge> X then rx_controlword sent = fst (pv_stage (pv_step s)) \<and> rx_target_velocity sent = fst (snd (pv_stage (pv_step s)))
       else sent = get_rxpdo (IOmap c) (out_at c i)) \<and>
      d' i = (if connected wkc i then drive_obey (rx_controlword sent) (upset (ev i) (d i)) else upset (ev i) (d i)))"
proof -
  let ?d = "\<lambda>i. upset (ev i) (d i)"
  let ?c = "report tx ?d c"
  have ok: "slots_ok 8 ?c" "apart 8 c" using assms by (simp_all add: bus_ready_def)
  from pv_work_slots [OF ok(1), of X wkc s, unfolded report_tables eqTrueI [OF ok(2)] simp_thms] obtain s' m where 1: "pv_work X wkc (s, ?c) = Some (s', ?c\<lparr>IOmap := m\<rparr>)"
    "if wkc \<ge> X
     then pv_step s' = (if pv_step s < 8000 \<and> (\<forall>i \<in> {1..slavecount c}. snd (snd (pv_stage (pv_step s))) \<in>
         {None, Some (cia402_decode_state (tx_statusword (get_txpdo (IOmap ?c) (in_at c i))))}) then pv_step s + 1 else pv_step s) \<and>
       (\<forall>i \<in> {1..slavecount c}. rx_controlword (get_rxpdo m (out_at c i)) = fst (pv_stage (pv_step s)) \<and>
         rx_target_velocity (get_rxpdo m (out_at c i)) = fst (snd (pv_stage (pv_step s))))
     else pv_step s' = pv_step s \<and> m = IOmap ?c" by blast
  let ?d' = "\<lambda>i. if connected wkc i then drive_obey (rd16 m (out_at c i)) (?d i) else ?d i"
  have b: "bus_cycle (pv_work X) (wkc, tx, ev) (s, c, d) = Some (s', ?c\<lparr>IOmap := m\<rparr>, ?d')"
    by (simp add: bus_cycle_def 1(1) Let_def cong: if_cong)
  have a: "(\<forall>i \<in> {1..slavecount c}. snd (snd (pv_stage (pv_step s))) \<in>
      {None, Some (cia402_decode_state (tx_statusword (get_txpdo (IOmap ?c) (in_at c i))))}) \<longleftrightarrow> agreed (slavecount c) (pv_step s) ev d"
    using report_slots [OF ok(2)] by simp
  have "rd16 m (out_at c i) = rx_controlword (get_rxpdo m (out_at c i))" for i by (simp add: get_rxpdo_def)
  moreover have "wkc < X \<Longrightarrow> get_rxpdo m (out_at c i) = get_rxpdo (IOmap c) (out_at c i)" if "i \<in> {1..slavecount c}" for i
    using 1(2) rxpdo_outputs [OF ok(2) that] by simp
  ultimately have "\<forall>i \<in> {1..slavecount c}. let sent = get_rxpdo m (out_at c i) in
      (if wkc \<ge> X then rx_controlword sent = fst (pv_stage (pv_step s)) \<and> rx_target_velocity sent = fst (snd (pv_stage (pv_step s)))
       else sent = get_rxpdo (IOmap c) (out_at c i)) \<and>
      ?d' i = (if connected wkc i then drive_obey (rx_controlword sent) (?d i) else ?d i)"
    using 1(2) by (cases "wkc \<ge> X") (simp_all add: Let_def)
  moreover have "pv_step s' = (if wkc \<ge> X \<and> pv_step s < 8000 \<and> agreed (slavecount c) (pv_step s) ev d then pv_step s + 1 else pv_step s)"
    using 1(2) unfolding a by (simp split: if_splits)
  moreover have "same_tables c (?c\<lparr>IOmap := m\<rparr>)" by (simp add: same_tables_def)
  ultimately show ?thesis unfolding b by (intro exI [of _ s'] exI [of _ "?c\<lparr>IOmap := m\<rparr>"] exI [of _ ?d']) simp
qed

text \<open>An invariant of the step, what every slave gets, and the drives; \<open>P\<close> restricts the events.\<close>

abbreviation sent_to :: "'e ecx_contextt \<Rightarrow> nat \<Rightarrow> rxpdo_t" where
  "sent_to c i \<equiv> get_rxpdo (IOmap c) (out_at c i)"

lemma pv_run_invariant:
  assumes c: "bus_ready 8 c" "J [] (pv_step s) (sent_to c) d0" "\<forall>x \<in> set evs. P x"
    and cycle: "\<And>evs wkc tx ev k g d k' g' d'. P (wkc, tx, ev) \<Longrightarrow> J evs k g d \<Longrightarrow> \<exists>s1 c1. pv_run X evs (s, c, d0) = Some (s1, c1, d) \<Longrightarrow>
      k' = (if wkc \<ge> X \<and> k < 8000 \<and> agreed (slavecount c) k ev d then k + 1 else k) \<Longrightarrow>
      \<forall>i \<in> {1..slavecount c}. (if wkc \<ge> X then rx_controlword (g' i) = fst (pv_stage k) \<and> rx_target_velocity (g' i) = fst (snd (pv_stage k)) else g' i = g i) \<and>
        d' i = (if connected wkc i then drive_obey (rx_controlword (g' i)) (upset (ev i) (d i)) else upset (ev i) (d i)) \<Longrightarrow>
      J (evs @ [(wkc, tx, ev)]) k' g' d'"
  shows "\<exists>s' c' d'. pv_run X evs (s, c, d0) = Some (s', c', d') \<and> same_tables c c' \<and> J evs (pv_step s') (sent_to c') d'"
  using c(3)
proof (induction evs rule: rev_induct)
  case Nil
  then show ?case using c by (simp add: pv_run_def)
next
  case (snoc x evs)
  then obtain s1 c1 d1 where 1: "pv_run X evs (s, c, d0) = Some (s1, c1, d1)" "same_tables c c1" "J evs (pv_step s1) (sent_to c1) d1" by auto
  obtain wkc tx ev where x: "x = (wkc, tx, ev)" by (cases x)
  have n: "slavecount c1 = slavecount c" using 1(2) by (simp add: same_tables_def)
  from pv_bus_step [OF bus_ready_same [OF c(1) 1(2)], of X wkc tx ev s1 d1] obtain s2 c2 d2 where
    2: "bus_cycle (pv_work X) x (s1, c1, d1) = Some (s2, c2, d2)" "same_tables c1 c2"
    "pv_step s2 = (if wkc \<ge> X \<and> pv_step s1 < 8000 \<and> agreed (slavecount c) (pv_step s1) ev d1 then pv_step s1 + 1 else pv_step s1)"
    "\<forall>i \<in> {1..slavecount c}. (if wkc \<ge> X then rx_controlword (get_rxpdo (IOmap c2) (out_at c1 i)) = fst (pv_stage (pv_step s1)) \<and>
         rx_target_velocity (get_rxpdo (IOmap c2) (out_at c1 i)) = fst (snd (pv_stage (pv_step s1)))
       else get_rxpdo (IOmap c2) (out_at c1 i) = sent_to c1 i) \<and>
      d2 i = (if connected wkc i then drive_obey (rx_controlword (get_rxpdo (IOmap c2) (out_at c1 i))) (upset (ev i) (d1 i)) else upset (ev i) (d1 i))"
    unfolding x n Let_def by blast
  have out: "slavelist c2 = slavelist c1" using 2(2) by (simp add: same_tables_def)
  have "J (evs @ [x]) (pv_step s2) (sent_to c2) d2"
    unfolding x by (rule cycle [OF _ 1(3) _ 2(3)]) (use snoc.prems 2(4) 1(1) in \<open>simp_all add: x out\<close>)
  then show ?case using 1(1) 2(1,2) same_tables_trans [OF 1(2) 2(2)] by (auto simp: pv_run_def foldM_append)
qed

lemma pv_start_posted:
  assumes "bus_ready 8 c"
  shows "\<exists>c0. pv_write (pv_motors (pv_init (slavecount c) motors)) c = Some c0 \<and> bus_ready 8 c0 \<and> same_tables c c0 \<and>
    (\<forall>i \<in> {1..slavecount c}. rx_controlword (sent_to c0 i) = 0x80 \<and> rx_target_velocity (sent_to c0 i) = 0)"
proof -
  have ok: "slots_ok 8 c" "apart 8 c" using assms by (simp_all add: bus_ready_def)
  from pv_writes [OF ok(1)] ok(2) obtain m where m: "pv_write (pv_motors (pv_init (slavecount c) motors)) c = Some (c\<lparr>IOmap := m\<rparr>)"
    "\<forall>i \<in> {1..slavecount c}. get_rxpdo m (out_at c i) = mt_rxpdo (pv_motors (pv_init (slavecount c) motors) i)" by blast
  have t: "same_tables c (c\<lparr>IOmap := m\<rparr>)" by (simp add: same_tables_def)
  have "pv_motors (pv_init n motors) i = pv_init_motor (motors i)" if "i \<in> {1..n}" for i n
    using that fold_each [of "\<lambda>slave motors. motors(slave := pv_init_motor (motors slave))" "\<lambda>_. pv_init_motor" n motors]
    by (simp add: pv_init_def del: upt_Suc)
  then show ?thesis
    using m t bus_ready_same [OF assms t] by (intro exI [of _ "c\<lparr>IOmap := m\<rparr>"]) (simp add: pv_init_motor_def)
qed




lemma known_kept:
  "dr_state d \<noteq> UNKNOWN \<Longrightarrow> dr_state (upset e d) \<noteq> UNKNOWN" "dr_state d \<noteq> UNKNOWN \<Longrightarrow> dr_state (drive_obey w d) \<noteq> UNKNOWN"
proof -
  show "dr_state d \<noteq> UNKNOWN \<Longrightarrow> dr_state (upset e d) \<noteq> UNKNOWN" by (auto simp: upset_def split: option.split)
  show "dr_state d \<noteq> UNKNOWN \<Longrightarrow> dr_state (drive_obey w d) \<noteq> UNKNOWN" by (cases "dr_state d") (auto simp: drive_next_def)
qed

lemma seen_enabled:
  assumes "dr_state d \<noteq> UNKNOWN" "cia402_decode_state (drive_status d) = OPERATION_ENABLED"
  shows "dr_state d = OPERATION_ENABLED"
  using seen_state [OF assms(1)] assms(2) by (simp split: if_splits)

text \<open>A cycle in which all drives were enabled.\<close>

definition all_enabled :: "int \<Rightarrow> bus_event list \<Rightarrow> pv_t \<times> 'e ecx_contextt \<times> (nat \<Rightarrow> drive) \<Rightarrow> nat \<Rightarrow> bool" where
  "all_enabled X evs s0 n \<longleftrightarrow> (\<exists>evs1 wkc tx ev evs2 s1 c1 d1. evs = evs1 @ (wkc, tx, ev) # evs2 \<and> pv_run X evs1 s0 = Some (s1, c1, d1) \<and>
     (\<forall>i \<in> {1..n}. dr_state (upset (ev i) (d1 i)) = OPERATION_ENABLED))"

lemma all_enabled_later: "all_enabled X evs s0 n \<Longrightarrow> all_enabled X (evs @ [x]) s0 n"
  unfolding all_enabled_def by (metis append_Cons append_assoc)

lemma pv_moves:
  assumes c: "bus_ready 8 c" "pv_step s \<le> 2400" "\<forall>i \<in> {1..slavecount c}. rx_target_velocity (sent_to c i) = 0 \<and> dr_state (d i) \<noteq> UNKNOWN"
  shows "\<exists>s' c' d'. pv_run X evs (s, c, d) = Some (s', c', d') \<and> same_tables c c' \<and>
    ((\<exists>i \<in> {1..slavecount c}. rx_target_velocity (sent_to c' i) \<noteq> 0) \<longrightarrow> all_enabled X evs (s, c, d) (slavecount c))"
proof -
  let ?n = "slavecount c"
  let ?J = "\<lambda>evs k g d'. (\<forall>i \<in> {1..?n}. dr_state (d' i) \<noteq> UNKNOWN) \<and>
    (k \<le> 2400 \<and> (\<forall>i \<in> {1..?n}. rx_target_velocity (g i) = 0) \<or> all_enabled X evs (s, c, d) ?n)"
  have "\<exists>s' c' d'. pv_run X evs (s, c, d) = Some (s', c', d') \<and> same_tables c c' \<and> ?J evs (pv_step s') (sent_to c') d'"
  proof (rule pv_run_invariant [where J = ?J and P = "\<lambda>_. True", OF c(1)])
    show "?J [] (pv_step s) (sent_to c) d" using c by simp
    fix evs wkc tx ev k g d1 k' g' d'
    assume J: "?J evs k g d1" and run: "\<exists>s1 c1. pv_run X evs (s, c, d) = Some (s1, c1, d1)"
      and k': "k' = (if wkc \<ge> X \<and> k < 8000 \<and> agreed ?n k ev d1 then k + 1 else k)"
      and new: "\<forall>i \<in> {1..?n}. (if wkc \<ge> X then rx_controlword (g' i) = fst (pv_stage k) \<and> rx_target_velocity (g' i) = fst (snd (pv_stage k)) else g' i = g i) \<and>
        d' i = (if connected wkc i then drive_obey (rx_controlword (g' i)) (upset (ev i) (d1 i)) else upset (ev i) (d1 i))"
    have known: "dr_state (d' i) \<noteq> UNKNOWN" if "i \<in> {1..?n}" for i
      using new [rule_format, OF that] J that known_kept by simp
    have "k' \<le> 2400 \<and> (\<forall>i \<in> {1..?n}. rx_target_velocity (g' i) = 0) \<or> all_enabled X (evs @ [(wkc, tx, ev)]) (s, c, d) ?n"
    proof (cases "all_enabled X evs (s, c, d) ?n")
      case True
      then show ?thesis using all_enabled_later by blast
    next
      case False
      then have k: "k \<le> 2400" "\<forall>i \<in> {1..?n}. rx_target_velocity (g i) = 0" using J by simp_all
      then have "fst (snd (pv_stage k)) = 0" by (simp add: pv_stage_def)
      then have v: "\<forall>i \<in> {1..?n}. rx_target_velocity (g' i) = 0" using new k(2) by (metis (mono_tags, lifting))
      show ?thesis
      proof (cases "k' \<le> 2400")
        case False
        then have "k = 2400" "agreed ?n k ev d1" using k' k(1) by (simp_all split: if_splits)
        then have a: "\<forall>i \<in> {1..?n}. cia402_decode_state (drive_status (upset (ev i) (d1 i))) = OPERATION_ENABLED" by (simp add: pv_stage_def)
        have "dr_state (upset (ev i) (d1 i)) = OPERATION_ENABLED" if "i \<in> {1..?n}" for i
          using a J that by (intro seen_enabled known_kept(1)) simp_all
        then show ?thesis using run unfolding all_enabled_def by blast
      qed (use v in simp)
    qed
    then show "?J (evs @ [(wkc, tx, ev)]) k' g' d'" using known by blast
  qed simp
  then show ?thesis by (metis (no_types, lifting))
qed


lemma pv_goes_on:
  assumes c: "bus_ready 8 c" "2400 < pv_step s" "\<forall>j \<in> {1..slavecount c}. rx_controlword (sent_to c j) = 0x0F \<and> rx_target_velocity (sent_to c j) = - 20000"
    and i: "i \<in> {1..slavecount c}" "dr_state (d i) \<in> {FAULT, FAULT_REACTION_ACTIVE}"
  shows "\<exists>s' c' d'. pv_run X evs (s, c, d) = Some (s', c', d') \<and> same_tables c c' \<and> dr_state (d' i) \<in> {FAULT, FAULT_REACTION_ACTIVE} \<and>
    (\<forall>j \<in> {1..slavecount c}. rx_controlword (sent_to c' j) = 0x0F \<and> rx_target_velocity (sent_to c' j) = - 20000)"
proof -
  let ?n = "slavecount c"
  let ?J = "\<lambda>evs k g d'. 2400 < k \<and> (\<forall>j \<in> {1..?n}. rx_controlword (g j) = 0x0F \<and> rx_target_velocity (g j) = - 20000) \<and>
    dr_state (d' i) \<in> {FAULT, FAULT_REACTION_ACTIVE}"
  have "\<exists>s' c' d'. pv_run X evs (s, c, d) = Some (s', c', d') \<and> same_tables c c' \<and> ?J evs (pv_step s') (sent_to c') d'"
  proof (rule pv_run_invariant [where J = ?J and P = "\<lambda>_. True", OF c(1)])
    show "?J [] (pv_step s) (sent_to c) d" using c i by simp
    fix evs wkc tx ev k g d1 k' g' d'
    assume J: "?J evs k g d1"
      and k': "k' = (if wkc \<ge> X \<and> k < 8000 \<and> agreed ?n k ev d1 then k + 1 else k)"
      and new: "\<forall>i \<in> {1..?n}. (if wkc \<ge> X then rx_controlword (g' i) = fst (pv_stage k) \<and> rx_target_velocity (g' i) = fst (snd (pv_stage k)) else g' i = g i) \<and>
        d' i = (if connected wkc i then drive_obey (rx_controlword (g' i)) (upset (ev i) (d1 i)) else upset (ev i) (d1 i))"
    have st: "pv_stage k = (0x0F, - 20000, None)" using J by (simp add: pv_stage_def)
    have g': "\<forall>j \<in> {1..?n}. rx_controlword (g' j) = 0x0F \<and> rx_target_velocity (g' j) = - 20000"
      using new J unfolding st by (cases "wkc \<ge> X") simp_all
    have u: "dr_state (upset (ev i) (d1 i)) \<in> {FAULT, FAULT_REACTION_ACTIVE}" using J by (auto simp: upset_def split: option.split)
    then have "dr_state (drive_obey 0x0F (upset (ev i) (d1 i))) \<in> {FAULT, FAULT_REACTION_ACTIVE}" by (auto simp: drive_next_def)
    then have "dr_state (d' i) \<in> {FAULT, FAULT_REACTION_ACTIVE}" using new [rule_format, OF i(1)] g' i(1) u by simp
    moreover have "2400 < k'" using k' J by simp
    ultimately show "?J (evs @ [(wkc, tx, ev)]) k' g' d'" using g' by blast
  qed simp
  then show ?thesis by blast
qed

section \<open>Properties\<close>

text \<open>
  C8: no slave of \<open>PV\<close> is given a velocity before there was a cycle in which all drives were in operation enabled, whatever happens
  on the bus.
\<close>

theorem pv_moves_together:
  assumes "bus_ready 8 c" "\<forall>i \<in> {1..slavecount c}. dr_state (d i) \<noteq> UNKNOWN"
  shows "\<exists>c0 s' c' d'. pv_write (pv_motors (pv_init (slavecount c) motors)) c = Some c0 \<and>
    pv_run X evs (pv_init (slavecount c) motors, c0, d) = Some (s', c', d') \<and>
    ((\<exists>i \<in> {1..slavecount c}. rx_target_velocity (get_rxpdo (IOmap c') (out_at c i)) \<noteq> 0) \<longrightarrow>
      all_enabled X evs (pv_init (slavecount c) motors, c0, d) (slavecount c))"
proof -
  from pv_start_posted [OF assms(1), of motors] obtain c0 where c0: "pv_write (pv_motors (pv_init (slavecount c) motors)) c = Some c0"
    "bus_ready 8 c0" "same_tables c c0" "\<forall>i \<in> {1..slavecount c}. rx_target_velocity (sent_to c0 i) = 0" by blast
  have t: "slavecount c0 = slavecount c" "slavelist c0 = slavelist c" using c0(3) by (simp_all add: same_tables_def)
  have v: "\<forall>i \<in> {1..slavecount c0}. rx_target_velocity (sent_to c0 i) = 0 \<and> dr_state (d i) \<noteq> UNKNOWN" using c0(4) assms(2) by (simp add: t)
  have "pv_step (pv_init (slavecount c) motors) \<le> 2400" by (simp add: pv_init_def)
  from pv_moves [OF c0(2) this v, of X evs] obtain s' c' d' where
    "pv_run X evs (pv_init (slavecount c) motors, c0, d) = Some (s', c', d')" "same_tables c0 c'"
    "(\<exists>i \<in> {1..slavecount c}. rx_target_velocity (sent_to c' i) \<noteq> 0) \<longrightarrow> all_enabled X evs (pv_init (slavecount c) motors, c0, d) (slavecount c)"
    unfolding t by blast
  then show ?thesis using c0(1) t by (simp add: same_tables_def)
qed


text \<open>
  Once \<open>PV\<close> moves, a drive that trips is neither reset nor are the others stopped: after a cycle that counts, all slaves are
  sent the velocity and the command of the operation for ever, and the drive stays in its fault.
\<close>

theorem pv_ignores_faults:
  assumes "bus_ready 8 c" "2400 < pv_step s" "wkc \<ge> X" "i \<in> {1..slavecount c}" "ev i \<noteq> None"
  shows "\<exists>s' c' d'. pv_run X ((wkc, tx, ev) # evs) (s, c, d) = Some (s', c', d') \<and> dr_state (d' i) \<in> {FAULT, FAULT_REACTION_ACTIVE} \<and>
    (\<forall>j \<in> {1..slavecount c}. rx_controlword (get_rxpdo (IOmap c') (out_at c j)) = CW_ENABLE_OP_CMD \<and>
       rx_target_velocity (get_rxpdo (IOmap c') (out_at c j)) = - 20000)"
proof -
  from pv_bus_step [OF assms(1), of X wkc tx ev s d] obtain s1 c1 d1 where
    1: "bus_cycle (pv_work X) (wkc, tx, ev) (s, c, d) = Some (s1, c1, d1)" "same_tables c c1" "pv_step s \<le> pv_step s1"
    "\<forall>i \<in> {1..slavecount c}. rx_controlword (get_rxpdo (IOmap c1) (out_at c i)) = fst (pv_stage (pv_step s)) \<and>
        rx_target_velocity (get_rxpdo (IOmap c1) (out_at c i)) = fst (snd (pv_stage (pv_step s)))"
    "d1 i = (if connected wkc i then drive_obey (rx_controlword (get_rxpdo (IOmap c1) (out_at c i))) (upset (ev i) (d i)) else upset (ev i) (d i))"
    using assms(3,4) by (auto simp: Let_def)
  have t: "slavecount c1 = slavecount c" "slavelist c1 = slavelist c" using 1(2) by (simp_all add: same_tables_def)
  have st: "pv_stage (pv_step s) = (0x0F, - 20000, None)" using assms(2) by (simp add: pv_stage_def)
  have g: "\<forall>j \<in> {1..slavecount c1}. rx_controlword (sent_to c1 j) = 0x0F \<and> rx_target_velocity (sent_to c1 j) = - 20000"
    using 1(4) unfolding st t by simp
  have u: "dr_state (upset (ev i) (d i)) \<in> {FAULT, FAULT_REACTION_ACTIVE}" using assms(5) by (cases "ev i") (simp_all add: upset_def)
  then have "dr_state (drive_obey 0x0F (upset (ev i) (d i))) \<in> {FAULT, FAULT_REACTION_ACTIVE}" by (auto simp: drive_next_def)
  then have d1: "dr_state (d1 i) \<in> {FAULT, FAULT_REACTION_ACTIVE}" using 1(4,5) u assms(4) unfolding st by simp
  have "2400 < pv_step s1" using 1(3) assms(2) by simp
  from pv_goes_on [where d = d1 and X = X and evs = evs, OF bus_ready_same [OF assms(1) 1(2)] this g assms(4) [folded t(1)] d1]
  obtain s' c' d' where 2: "pv_run X evs (s1, c1, d1) = Some (s', c', d')" "same_tables c1 c'" "dr_state (d' i) \<in> {FAULT, FAULT_REACTION_ACTIVE}"
    "\<forall>j \<in> {1..slavecount c1}. rx_controlword (sent_to c' j) = 0x0F \<and> rx_target_velocity (sent_to c' j) = - 20000" by blast
  have "slavelist c' = slavelist c" using 2(2) t by (simp add: same_tables_def)
  moreover have "pv_run X ((wkc, tx, ev) # evs) (s, c, d) = Some (s', c', d')" using 1(1) 2(1) by (simp add: pv_run_def)
  ultimately show ?thesis using 2(3,4) t(1) by auto
qed

theorem pv_moves_together_witness:
  "\<exists>c0 s' c' d'. pv_run 6 (replicate 100000 (6, undefined, \<lambda>_. None)) (pv_init 2 (\<lambda>_. idle_motor), c0, \<lambda>_. idle_drive FAULT 0) = Some (s', c', d') \<and>
    (rx_target_velocity (get_rxpdo (IOmap c') 8) = 0 \<or>
     all_enabled 6 (replicate 100000 (6, undefined, \<lambda>_. None)) (pv_init 2 (\<lambda>_. idle_motor), c0 :: (nat \<times> u8 list list) ecx_contextt, \<lambda>_. idle_drive FAULT 0) 2)"
proof -
  have k: "\<forall>i \<in> {1..slavecount bus_ctx}. dr_state ((\<lambda>_. idle_drive FAULT 0) i) \<noteq> UNKNOWN" by (simp add: idle_drive_def)
  from pv_moves_together [where evs = "replicate 100000 (6, undefined, \<lambda>_. None)" and motors = "\<lambda>_. idle_motor" and X = 6, OF bus_ctx_ready k]
  obtain c0 :: "(nat \<times> u8 list list) ecx_contextt" and s' c' d' where "pv_run 6 (replicate 100000 (6, undefined, \<lambda>_. None)) (pv_init 2 (\<lambda>_. idle_motor), c0, \<lambda>_. idle_drive FAULT 0) = Some (s', c', d')"
    "(\<exists>i \<in> {1..2}. rx_target_velocity (get_rxpdo (IOmap c') (8 * i - 8)) \<noteq> 0) \<longrightarrow>
      all_enabled 6 (replicate 100000 (6, undefined, \<lambda>_. None)) (pv_init 2 (\<lambda>_. idle_motor), c0, \<lambda>_. idle_drive FAULT 0) 2"
    unfolding bus_ctx_fields option.sel by blast
  moreover have "rx_target_velocity (get_rxpdo (IOmap c') (8 * 2 - 8)) \<noteq> 0 \<Longrightarrow> \<exists>i \<in> {1..2}. rx_target_velocity (get_rxpdo (IOmap c') (8 * i - 8)) \<noteq> 0" for c' :: "(nat \<times> u8 list list) ecx_contextt"
    by (rule bexI [of _ 2]) simp_all
  ultimately show ?thesis by (intro exI [of _ c0] exI [of _ s'] exI [of _ c'] exI [of _ d']) auto
qed


theorem pv_ignores_faults_witness:
  "\<exists>s' c' d'. pv_run 6 ((6, undefined, \<lambda>_. Some False) # replicate 1000000 (6, undefined, \<lambda>_. None))
      (\<lparr>pv_motors = \<lambda>_. idle_motor, pv_step = 2401, pv_retry_count = 0\<rparr>, bus_ctx, \<lambda>_. idle_drive OPERATION_ENABLED 0x0F) = Some (s', c', d') \<and>
    dr_state (d' 1) \<noteq> OPERATION_ENABLED \<and> rx_target_velocity (get_rxpdo (IOmap c') 8) = - 20000"
proof -
  have i: "1 \<in> {1..slavecount bus_ctx}" by (simp add: bus_ctx_fields)
  have s: "2400 < pv_step \<lparr>pv_motors = \<lambda>_. idle_motor, pv_step = 2401, pv_retry_count = 0\<rparr>" by simp
  have e: "(\<lambda>_. Some False) (1 :: nat) \<noteq> None" and w: "(6 :: int) \<le> 6" by simp_all
  from pv_ignores_faults [where evs = "replicate 1000000 (6, undefined, \<lambda>_. None)" and tx = undefined and d = "\<lambda>_. idle_drive OPERATION_ENABLED 0x0F" and X = 6 and wkc = 6
    and ev = "\<lambda>_. Some False", OF bus_ctx_ready s w i e]
  obtain s' c' d' where 1: "pv_run 6 ((6, undefined, \<lambda>_. Some False) # replicate 1000000 (6, undefined, \<lambda>_. None))
      (\<lparr>pv_motors = \<lambda>_. idle_motor, pv_step = 2401, pv_retry_count = 0\<rparr>, bus_ctx, \<lambda>_. idle_drive OPERATION_ENABLED 0x0F) = Some (s', c', d')"
    "dr_state (d' 1) \<in> {FAULT, FAULT_REACTION_ACTIVE}"
    "\<forall>j \<in> {1..2}. rx_target_velocity (get_rxpdo (IOmap c') (8 * j - 8)) = - 20000"
    unfolding bus_ctx_fields option.sel by blast
  have "rx_target_velocity (get_rxpdo (IOmap c') 8) = - 20000" using bspec [OF 1(3), of 2] by simp
  then show ?thesis using 1(1,2) by (intro exI [of _ s'] exI [of _ c'] exI [of _ d']) auto
qed

end
