(* ===== verification/Dictionary.thy ===== *)
theory Dictionary
  imports SdoServer
begin

text \<open>
  A reference slave with an object dictionary: the server of \<open>SdoServer\<close> for any number of objects. It takes writes of any size.
  The master's download and upload are followed on it for the objects of up to four bytes that describe the process data, and with them
  \<open>ecx_readPDOassign\<close> (\<open>soem/ethercatcoe.c\<close>).
\<close>

section \<open>The slave\<close>

record od_server =
  ob_objects :: "u16 \<Rightarrow> u8 \<Rightarrow> u8 list"
  ob_selected :: "u16 \<times> u8"
  ob_server :: sdo_server

text \<open>A request that starts a transfer names its object; the segments that follow belong to the object named last.\<close>

definition od_handle :: "nat \<Rightarrow> buf \<Rightarrow> od_server \<Rightarrow> od_server" where
  "od_handle M m s = (let
     (i, j) = (if m 8 AND 0xe0 = 0x20 \<or> m 8 AND 0xe0 = 0x40 then (rd16 m 9, m 11) else ob_selected s);
     sv = srv_handle M m ((ob_server s)\<lparr>sv_obj := ob_objects s i j\<rparr>)
   in \<lparr>ob_objects = (ob_objects s)(i := (ob_objects s i)(j := sv_obj sv)), ob_selected = (i, j), ob_server = sv\<rparr>)"

definition od_link :: "nat \<Rightarrow> od_server mbx_link" where
  "od_link M = \<lparr>lk_send = (\<lambda>m s. Some (1, od_handle M m s)),
     lk_receive = (\<lambda>m t s. case sv_ans (ob_server s) of None \<Rightarrow> Some (- 1, m, s)
       | Some a \<Rightarrow> Some (1, a, s\<lparr>ob_server := (ob_server s)\<lparr>sv_ans := None\<rparr>\<rparr>)),
     lk_cnt = (\<lambda>s. (1, s)),
     lk_mbx_l = (\<lambda>_. of_nat M),
     lk_sdoerror = (\<lambda>_ _ _ s. Some s),
     lk_infoerror = (\<lambda>_ _ _ s. Some s),
     lk_packeterror = (\<lambda>_ _ _ s. Some s)\<rparr>"

lemma od_link_simps [simp]:
  "lk_send (od_link M) m s = Some (1, od_handle M m s)" "lk_cnt (od_link M) s = (1, s)"
  "lk_receive (od_link M) m t s = (case sv_ans (ob_server s) of None \<Rightarrow> Some (- 1, m, s)
     | Some a \<Rightarrow> Some (1, a, s\<lparr>ob_server := (ob_server s)\<lparr>sv_ans := None\<rparr>\<rparr>))"
  by (simp_all add: od_link_def)

lemma od_receive_old: "\<exists>w mi s'. lk_receive (od_link M) m t s = Some (w, mi, s') \<and> ob_objects s' = ob_objects s"
  by (auto split: option.split)

text \<open>An answered request, as the master sees it.\<close>

lemma od_exchange:
  assumes "m 8 AND 0xe0 = 0x20 \<or> m 8 AND 0xe0 = 0x40"
    and "srv_handle M m ((ob_server s)\<lparr>sv_obj := ob_objects s (rd16 m 9) (m 11)\<rparr>) = sv" "sv_ans sv = Some a"
  shows "\<exists>s'. mbx_exchange (od_link M) mi m t s = Some (1, a, s') \<and>
    ob_objects s' = (ob_objects s)(rd16 m 9 := (ob_objects s (rd16 m 9))(m 11 := sv_obj sv))"
  using assms by (auto simp: mbx_exchange_def od_handle_def Let_def)

section \<open>Objects of up to four bytes\<close>

lemma od_write:
  assumes "1 \<le> n" "n \<le> 4"
  shows "\<exists>s'. sdo_write (od_link M) i j False (int n) p t s = Some (1, s') \<and>
    ob_objects s' = (ob_objects s)(i := (ob_objects s i)(j := bytes_of p 0 n))"
proof -
  let ?L = "od_link M"
  obtain w0 m0 s1 where 0: "lk_receive ?L (ec_clearmbx zero_buf) 0 s = Some (w0, m0, s1)" "ob_objects s1 = ob_objects s"
    using od_receive_old by blast
  define com where "com = (0x23 OR (push_bit 2 (4 - of_nat n) AND 0x0c) :: u8)"
  note c = expedited_down [OF assms, folded com_def]
  have "\<exists>mo. sdo_frame ?L 0x000a com i j (ec_clearmbx zero_buf) s1 = (mo, s1) \<and> mo 8 = com \<and> rd16 mo 9 = i \<and> mo 11 = j"
    by (simp add: sdo_frame_def coe_header_def put_le_apply)
  then obtain mo where mo: "sdo_frame ?L 0x000a com i j (ec_clearmbx zero_buf) s1 = (mo, s1)" "mo 8 = com" "rd16 mo 9 = i" "mo 11 = j" by blast
  define m where "m = memcpy mo 12 p 0 n"
  have m: "m 8 = com" "rd16 m 9 = i" "m 11 = j" "bytes_of m 12 n = bytes_of p 0 n"
    by (simp_all add: m_def memcpy_apply mo)
  define a where "a = sdo_answer 10 0x60 i j"
  have "srv_handle M m ((ob_server s1)\<lparr>sv_obj := ob_objects s1 (rd16 m 9) (m 11)\<rparr>) =
      (ob_server s1)\<lparr>sv_obj := bytes_of p 0 n, sv_ans := Some a\<rparr>"
    using c m by (simp add: srv_handle_download srv_download_def a_def Let_def)
  from od_exchange [OF _ this, of a m0 t] obtain s2 where
    2: "mbx_exchange ?L m0 m t s1 = Some (1, a, s2)" "ob_objects s2 = (ob_objects s1)(i := (ob_objects s1 i)(j := bytes_of p 0 n))"
    using c(1) m by auto
  have a: "is_coe ECT_COES_SDORES a" "rd16 a 9 = i" "a 11 = j" by (simp_all add: a_def is_coe_def)
  have com: "ECT_SDO_DOWN_EXP OR (push_bit 2 (4 - word_of_int (int n)) AND 0x0c) = com" by (simp add: com_def)
  have "sdo_write ?L i j False (int n) p t s = Some (1, s2)"
    using assms(2) unfolding sdo_write_def 0(1) Option.bind.bind_lunit prod.case Let_def com mo(1)
    by (simp add: m_def [symmetric] 2(1) a m(2,3))
  then show ?thesis using 2(2) 0(2) by simp
qed

lemma od_read:
  assumes "ob_objects s i j = d" "1 \<le> length d" "length d \<le> 4" "int (length d) \<le> psize"
  shows "\<exists>s'. sdo_read (od_link M) i j False psize q t s = Some (1, int (length d), memcpy q 0 (buf_of d) 0 (length d), s') \<and>
    ob_objects s' = ob_objects s"
proof -
  let ?L = "od_link M"
  obtain w0 m0 s1 where 0: "lk_receive ?L (ec_clearmbx zero_buf) 0 s = Some (w0, m0, s1)" "ob_objects s1 = ob_objects s"
    using od_receive_old by blast
  have "\<exists>mo. sdo_upload_request ?L ECT_SDO_UP_REQ i j (ec_clearmbx zero_buf) s1 = (mo, s1) \<and> mo 8 = ECT_SDO_UP_REQ \<and> rd16 mo 9 = i \<and> mo 11 = j"
    by (simp add: sdo_upload_request_def coe_header_def put_le_apply)
  then obtain mo where mo: "sdo_upload_request ?L ECT_SDO_UP_REQ i j (ec_clearmbx zero_buf) s1 = (mo, s1)" "mo 8 = ECT_SDO_UP_REQ"
    "rd16 mo 9 = i" "mo 11 = j" by blast
  define com where "com = (0x43 OR push_bit 2 (of_nat (4 - length d)) :: u8)"
  note com = expedited_com [OF assms(2,3), folded com_def]
  define a where "a = memcpy (sdo_answer 10 com i j) 12 (buf_of d) 0 (length d)"
  have "srv_handle M mo ((ob_server s1)\<lparr>sv_obj := ob_objects s1 (rd16 mo 9) (mo 11)\<rparr>) = (ob_server s1)\<lparr>sv_obj := d, sv_ans := Some a\<rparr>"
    using assms(1-3) by (simp add: srv_handle_def mo srv_upload_def Let_def a_def com_def 0(2))
  from od_exchange [OF _ this, of a m0 t] obtain s2 where
    2: "mbx_exchange ?L m0 mo t s1 = Some (1, a, s2)" "ob_objects s2 = (ob_objects s1)(i := (ob_objects s1 i)(j := d))"
    using mo by auto
  have a: "is_coe ECT_COES_SDORES a" "rd16 a 9 = i" "a 8 = com"
    by (simp_all add: a_def is_coe_def memcpy_apply)
  have mem: "memcpy q 0 a 12 (length d) = memcpy q 0 (buf_of d) 0 (length d)" by (rule memcpy_shift) (simp add: a_def memcpy_apply)
  have "sdo_read ?L i j False psize q t s = Some (1, int (length d), memcpy q 0 (buf_of d) 0 (length d), s2)"
    using com assms(4) mem
    by (simp add: sdo_read_def 0(1) Let_def mo(1,3) 2(1) sdo_upload_answer_def a del: od_link_simps(3))
  then show ?thesis using 2(2) 0(2) assms(1) by (auto simp: fun_upd_idem)
qed

section \<open>The bits of the process data\<close>

text \<open>The value of an object, and the number of bits of a PDO, and of all PDOs of an assign object: the low bytes of the entries.\<close>

definition obj_value :: "u8 list \<Rightarrow> u32" where
  "obj_value d = rd32 (buf_of d) 0"

definition od_pdo_bits :: "(u16 \<Rightarrow> u8 \<Rightarrow> u8 list) \<Rightarrow> u16 \<Rightarrow> nat" where
  "od_pdo_bits od pdo = (if pdo = 0 then 0
     else sum_list (map (\<lambda>k. unat (obj_value (od pdo (of_nat k)) AND 0xff)) [1..<unat (ucast (obj_value (od pdo 0)) :: u8) + 1]))"

definition od_assign_bits :: "(u16 \<Rightarrow> u8 \<Rightarrow> u8 list) \<Rightarrow> u16 \<Rightarrow> nat \<Rightarrow> nat" where
  "od_assign_bits od a k = sum_list (map (\<lambda>i. od_pdo_bits od (ucast (obj_value (od a (of_nat i))))) [1..<k])"

text \<open>What the reader relies on: the objects fit in the variables that they are read into.\<close>

definition fits :: "nat \<Rightarrow> u8 list \<Rightarrow> bool" where
  "fits n d \<longleftrightarrow> 1 \<le> length d \<and> length d \<le> n"

definition pdo_fits :: "(u16 \<Rightarrow> u8 \<Rightarrow> u8 list) \<Rightarrow> u16 \<Rightarrow> bool" where
  "pdo_fits od pdo \<longleftrightarrow> pdo = 0 \<or> fits 1 (od pdo 0) \<and> (\<forall>k \<in> {1..unat (ucast (obj_value (od pdo 0)) :: u8)}. fits 4 (od pdo (of_nat k)))"

definition assign_fits :: "(u16 \<Rightarrow> u8 \<Rightarrow> u8 list) \<Rightarrow> u16 \<Rightarrow> bool" where
  "assign_fits od a \<longleftrightarrow> fits 2 (od a 0) \<and> unat (ucast (obj_value (od a 0)) :: u16) < 65535 \<and>
     (\<forall>k \<in> {1..unat (ucast (obj_value (od a 0)) :: u16)}. fits 2 (od a (of_nat k)) \<and> pdo_fits od (ucast (obj_value (od a (of_nat k)))))"

text \<open>The master's reader on this slave.\<close>

definition od_reader :: "nat \<Rightarrow> od_server sdo_reader" where
  "od_reader M index subindex CA psize p c = sdo_read (od_link M) index subindex CA psize p EC_TIMEOUTRXM c"

lemma var_zero [simp]: "put_le n zero_buf 0 0 = zero_buf" "zero_buf(0 := 0) = zero_buf"
  by (auto simp: fun_eq_iff put_le_apply zero_buf_def)

lemma memcpy_object [simp]: "memcpy zero_buf 0 (buf_of d) 0 (length d) = buf_of d"
  by (auto simp: fun_eq_iff memcpy_apply zero_buf_def buf_of_def)

lemma od_reader_reads:
  assumes "fits n (ob_objects s i j)" "n \<le> 4"
  shows "\<exists>s'. od_reader M i j False (int n) zero_buf s = Some (1, int (length (ob_objects s i j)), buf_of (ob_objects s i j), s') \<and>
    ob_objects s' = ob_objects s"
  using od_read [of s i j "ob_objects s i j" "int n" M zero_buf EC_TIMEOUTRXM] assms by (simp add: od_reader_def fits_def)

lemma obj_value_low:
  "rd16 (buf_of d) 0 = ucast (obj_value d)" "buf_of d 0 = ucast (obj_value d)"
  by (auto simp: obj_value_def bit_eq_iff bit_get_le bit_simps)

lemma pdo_entry_bits_low: "pdo_entry_bits x = x AND 0xff"
proof -
  have "x AND 0xff \<le> 0xff" by (rule word_and_le1)
  then show ?thesis by (auto simp: pdo_entry_bits_def)
qed

lemma pdo_bits_od:
  assumes "pdo_fits (ob_objects s) i" "i \<noteq> 0"
  shows "\<exists>s'. pdo_bits (od_reader M) i (bs, s) = Some (bs + of_nat (od_pdo_bits (ob_objects s) i), s') \<and> ob_objects s' = ob_objects s"
proof -
  let ?e = "\<lambda>k. unat (obj_value (ob_objects s i (of_nat k)) AND 0xff)"
  define n where "n = unat (ucast (obj_value (ob_objects s i 0)) :: u8)"
  have fits: "fits 1 (ob_objects s i 0)" "\<And>k. 1 \<le> k \<Longrightarrow> k \<le> n \<Longrightarrow> fits 4 (ob_objects s i (of_nat k))"
    using assms by (simp_all add: pdo_fits_def n_def)
  obtain s1 where 1: "od_reader M i 0 False 1 zero_buf s = Some (1, int (length (ob_objects s i 0)), buf_of (ob_objects s i 0), s1)"
    "ob_objects s1 = ob_objects s" using od_reader_reads [OF fits(1)] by auto
  have "runs_to (foldM (\<lambda>k (bsize, c). do {
        (_, _, b, c) \<leftarrow> od_reader M i (of_nat k) False 4 (var32 0) c;
        Some (bsize + pdo_entry_bits (rd32 b 0), c) }) [1..<n + 1] (bs, s1))
      ((\<lambda>k (b, c). b = bs + of_nat (sum_list (map ?e [1..<k])) \<and> ob_objects c = ob_objects s) (n + 1))"
  proof (rule foldM_upt_total)
    fix k and st :: "u32 \<times> od_server" assume k: "1 \<le> k" "k < n + 1"
      and st: "case st of (b, c) \<Rightarrow> b = bs + of_nat (sum_list (map ?e [1..<k])) \<and> ob_objects c = ob_objects s"
    obtain b c where bc: "st = (b, c)" "b = bs + of_nat (sum_list (map ?e [1..<k]))" "ob_objects c = ob_objects s" using st by (cases st) auto
    have "fits 4 (ob_objects c i (of_nat k))" using fits(2) [of k] k bc(3) by simp
    from od_reader_reads [OF this] bc(3) obtain c2 where
      "od_reader M i (of_nat k) False 4 zero_buf c = Some (1, int (length (ob_objects s i (of_nat k))), buf_of (ob_objects s i (of_nat k)), c2)"
      "ob_objects c2 = ob_objects s" by auto
    then show "runs_to (case st of (bsize, c) \<Rightarrow> do {
        (_, _, b, c) \<leftarrow> od_reader M i (of_nat k) False 4 (var32 0) c;
        Some (bsize + pdo_entry_bits (rd32 b 0), c) })
      (\<lambda>(b, c). b = bs + of_nat (sum_list (map ?e [1..<Suc k])) \<and> ob_objects c = ob_objects s)"
      using k(1) by (simp add: bc(1,2) pdo_entry_bits_low obj_value_def)
  qed (simp_all add: 1(2))
  then show ?thesis
    using assms(2) by (auto simp: pdo_bits_def 1(1) runs_to_iff od_pdo_bits_def n_def obj_value_low(2))
qed

text \<open>On a dictionary whose objects fit, \<open>ecx_readPDOassign\<close> computes the number of bits of all PDOs that are assigned.\<close>

lemma readPDOassign_bits:
  assumes "assign_fits (ob_objects s) a"
  shows "\<exists>s'. readPDOassign (od_reader M) a s =
      Some (of_nat (od_assign_bits (ob_objects s) a (unat (ucast (obj_value (ob_objects s a 0)) :: u16) + 1)), s') \<and> ob_objects s' = ob_objects s"
proof -
  let ?od = "ob_objects s"
  define nidx :: u16 where "nidx = ucast (obj_value (?od a 0))"
  have fits: "fits 2 (?od a 0)" "unat nidx < 65535"
    "\<And>k. 1 \<le> k \<Longrightarrow> k \<le> unat nidx \<Longrightarrow> fits 2 (?od a (of_nat k)) \<and> pdo_fits ?od (ucast (obj_value (?od a (of_nat k))))"
    using assms by (simp_all add: assign_fits_def nidx_def)
  obtain s1 where 1: "od_reader M a 0 False 2 zero_buf s = Some (1, int (length (?od a 0)), buf_of (?od a 0), s1)"
    "ob_objects s1 = ?od" using od_reader_reads [OF fits(1)] by auto
  have "runs_to (while_do (\<lambda>(i, bsize, c). i \<le> nidx) (assign_step (od_reader M) a) (1, 0, s1))
    (\<lambda>(i, b, c). b = of_nat (od_assign_bits ?od a (unat nidx + 1)) \<and> ob_objects c = ?od)"
  proof (rule while_do_total [where R = "measure (\<lambda>(i, b, c). unat nidx + 1 - unat i)"
        and I = "\<lambda>(i, b, c). 1 \<le> unat i \<and> unat i \<le> unat nidx + 1 \<and> b = of_nat (od_assign_bits ?od a (unat i)) \<and> ob_objects c = ?od"], goal_cases)
    case 2
    then show ?case by (simp add: od_assign_bits_def 1(2))
  next
    case (3 st)
    obtain i b c where st: "st = (i, b, c)" by (cases st)
    with 3 have I: "1 \<le> unat i" "unat i \<le> unat nidx" "b = of_nat (od_assign_bits ?od a (unat i))" "ob_objects c = ?od"
      by (simp_all add: word_le_nat_alt)
    have i1: "unat (i + 1) = unat i + 1" using I(2) fits(2) by (simp add: unat_plus_if_size word_size)
    have u: "of_nat (unat i) = (ucast i :: u8)" by simp
    have f: "fits 2 (ob_objects c a (ucast i))" "pdo_fits ?od (ucast (obj_value (?od a (ucast i))))"
      using fits(3) [OF I(1,2)] by (simp_all add: u I(4))
    from od_reader_reads [OF f(1)] I(4) obtain c2 where
      2: "od_reader M a (ucast i) False 2 zero_buf c = Some (1, int (length (?od a (ucast i))), buf_of (?od a (ucast i)), c2)"
      "ob_objects c2 = ?od" by auto
    define p :: u16 where "p = ucast (obj_value (?od a (ucast i)))"
    have sum: "od_assign_bits ?od a (Suc (unat i)) = od_assign_bits ?od a (unat i) + od_pdo_bits ?od p"
      using I(1) by (simp add: od_assign_bits_def u p_def)
    have "\<exists>c3. (if p > 0 then pdo_bits (od_reader M) p (b, c2) else Some (b, c2)) = Some (b + of_nat (od_pdo_bits ?od p), c3) \<and> ob_objects c3 = ?od"
      using pdo_bits_od [of c2 p M b] f(2) 2(2) by (auto simp: word_gt_0 od_pdo_bits_def p_def)
    then obtain c3 where c3: "(if p > 0 then pdo_bits (od_reader M) p (b, c2) else Some (b, c2)) = Some (b + of_nat (od_pdo_bits ?od p), c3)"
      "ob_objects c3 = ?od" by blast
    have "assign_step (od_reader M) a st = Some (i + 1, b + of_nat (od_pdo_bits ?od p), c3)"
      using c3(1) by (simp add: st assign_step_def 2(1) obj_value_low(1) p_def [symmetric])
    then show ?case using I i1 sum c3(2) by (simp add: st)
  next
    case (4 st)
    obtain i b c where st: "st = (i, b, c)" by (cases st)
    with 4 have "unat i = unat nidx + 1" by (simp add: word_le_nat_alt)
    with 4 st show ?case by simp
  qed simp
  then show ?thesis
    using 1(2) by (auto simp: readPDOassign_def 1(1) obj_value_low(1) runs_to_iff nidx_def [symmetric] od_assign_bits_def word_gt_0)
qed

end
