(* ===== verification/Startup.thy ===== *)
theory Startup
  imports ProfilePosition ProfileVelocity Segments Dictionary Init
begin

text \<open>
  How the control programs start (\<open>erob_test\<close> in \<open>demo/eRob_CSV.cpp\<close>, up to the start of the threads; \<open>demo/eRob_PV.cpp\<close> is the same up to
  the prints): the slaves are found and taken to pre-operational, their process data is mapped by writing to the object dictionaries,
  the image is laid out, the clocks are started, and the slaves are taken to safe-operational. The other programs map
  other objects; their tables are here too.
\<close>

section \<open>The mapping\<close>

text \<open>An entry that is written: index, subindex, size in bytes, value.\<close>

type_synonym sdo_entry = "u16 \<times> u8 \<times> nat \<times> u32"

definition csv_rx_map :: "sdo_entry list" where
  "csv_rx_map = [(0x1600, 0, 1, 0), (0x1600, 1, 4, 0x60400010), (0x1600, 2, 4, 0x60FF0020), (0x1600, 3, 4, 0x60600008),
     (0x1600, 4, 4, 0x00000008), (0x1600, 0, 1, 4), (0x1c12, 0, 2, 0), (0x1c12, 1, 2, 0x1600), (0x1c12, 0, 2, 1)]"

definition csv_tx_map :: "sdo_entry list" where
  "csv_tx_map = [(0x1A00, 0, 2, 0), (0x1A00, 1, 4, 0x60410010), (0x1A00, 2, 4, 0x60640020), (0x1A00, 3, 4, 0x606C0020),
     (0x1A00, 4, 4, 0x60770010), (0x1A00, 0, 1, 4), (0x1C13, 0, 2, 0), (0x1C13, 1, 2, 0x1A00), (0x1C13, 0, 2, 1)]"

definition csp_rx_map :: "sdo_entry list" where
  "csp_rx_map = [(0x1600, 0, 1, 0), (0x1600, 1, 4, 0x60400010), (0x1600, 2, 4, 0x607A0020), (0x1600, 3, 4, 0x60600008),
     (0x1600, 4, 4, 0x00000008), (0x1600, 0, 1, 4), (0x1c12, 0, 2, 0), (0x1c12, 1, 2, 0x1600), (0x1c12, 0, 2, 1)]"

definition cst_rx_map :: "sdo_entry list" where
  "cst_rx_map = [(0x1600, 0, 1, 0), (0x1600, 1, 4, 0x60400010), (0x1600, 2, 4, 0x60710010), (0x1600, 3, 4, 0x60600008),
     (0x1600, 4, 4, 0x00000008), (0x1600, 0, 1, 4), (0x1c12, 0, 2, 0), (0x1c12, 1, 2, 0x1600), (0x1c12, 0, 2, 1)]"

definition pt_rx_map :: "sdo_entry list" where
  "pt_rx_map = [(0x1600, 0, 1, 0), (0x1600, 1, 4, 0x60400010), (0x1600, 2, 4, 0x60710010), (0x1600, 3, 4, 0x60870020),
     (0x1600, 4, 4, 0x60720010), (0x1600, 5, 4, 0x60600008), (0x1600, 6, 4, 0x00000008), (0x1600, 0, 1, 6),
     (0x1c12, 0, 2, 0), (0x1c12, 1, 2, 0x1600), (0x1c12, 0, 2, 1)]"

text \<open>
  The writes for one slave, with the sum of the results. The function that writes is an argument: slave, index, subindex, complete
  access, size, data, timeout.
\<close>

type_synonym 'c sdo_writer = "nat \<Rightarrow> u16 \<Rightarrow> u8 \<Rightarrow> bool \<Rightarrow> int \<Rightarrow> buf \<Rightarrow> int \<Rightarrow> 'c \<Rightarrow> (int \<times> 'c) option"

definition write_entry :: "'c sdo_writer \<Rightarrow> nat \<Rightarrow> sdo_entry \<Rightarrow> int \<times> 'c \<Rightarrow> (int \<times> 'c) option" where
  "write_entry SDOwrite slave = (\<lambda>(index, sub, n, v) (retval, c). do {
     (w, c) \<leftarrow> SDOwrite slave index sub False (int n) (put_le n zero_buf 0 v) EC_TIMEOUTSAFE c;
     Some (retval + w, c) })"

definition map_pdos :: "'c sdo_writer \<Rightarrow> sdo_entry list \<Rightarrow> nat \<Rightarrow> 'c \<Rightarrow> (bool \<times> 'c) option" where
  "map_pdos SDOwrite entries n c = do {
     (retval, c) \<leftarrow> foldM (\<lambda>slave. foldM (write_entry SDOwrite slave) entries) [1..<n + 1] (0, c);
     Some (\<not> retval < 0, c) }"

section \<open>The start\<close>

abbreviation set_state :: "nat \<Rightarrow> u16 \<Rightarrow> 'e ecx_contextt \<Rightarrow> 'e ecx_contextt" where
  "set_state slave st \<equiv> upd_slave slave (\<lambda>s. s\<lparr>sl_state := st\<rparr>)"

definition sleeps :: "'e os_ops \<Rightarrow> nat \<Rightarrow> 'e ecx_contextt \<Rightarrow> 'e ecx_contextt" where
  "sleeps E usec c = c\<lparr>port := port_usleep E usec (port c)\<rparr>"

text \<open>One slave in step 2; once the result is false the function has returned.\<close>

definition pre_op_slave :: "'e os_ops \<Rightarrow> nat \<Rightarrow> bool \<times> 'e ecx_contextt \<Rightarrow> (bool \<times> 'e ecx_contextt) option" where
  "pre_op_slave E i = (\<lambda>(ok, c).
     if \<not> ok then Some (False, c)
     else if sl_state (slavelist c i) \<noteq> EC_STATE_PRE_OP then Some (True, set_state i EC_STATE_INIT c)
     else do {
       c \<leftarrow> request_state E 0 EC_STATE_PRE_OP c;
       (st, c) \<leftarrow> ecx_statecheck E 0 EC_STATE_PRE_OP (3 * EC_TIMEOUTSTATE) c;
       Some (st = EC_STATE_PRE_OP, c) })"

definition wait_safe_op :: "'e os_ops \<Rightarrow> 'e ecx_contextt \<Rightarrow> 'e ecx_contextt option" where
  "wait_safe_op E c = do {
     (_, c) \<leftarrow> do_while (\<lambda>(left, c). do {
         (_, c) \<leftarrow> ecx_readstate E c;
         let c = sleeps E 100000 c;
         Some ((left - 1, c), left \<noteq> 0 \<and> sl_state (slavelist c 0) \<noteq> EC_STATE_SAFE_OP) }) (40 :: int, c);
     Some c }"

text \<open>
  The whole start; the results are whether it went through, and the working counter to expect. \<open>aliasadr\<close>, \<open>estat\<close>, \<open>stk\<close> and
  \<open>hrt\<close> are the contents of uninitialised variables of the functions that are called.
\<close>

definition erob_map :: "'e os_ops \<Rightarrow> 'e eoe_hook \<Rightarrow> 'e ecx_contextt \<Rightarrow> (bool \<times> 'e ecx_contextt) option" where
  "erob_map E hook c = do {
     (ok, c) \<leftarrow> map_pdos (ecx_SDOwrite E hook) csv_rx_map (slavecount c) c;
     if ok then map_pdos (ecx_SDOwrite E hook) csv_tx_map (slavecount c) c else Some (False, c) }"

definition erob_pre_op :: "'e os_ops \<Rightarrow> string \<Rightarrow> u16 \<Rightarrow> u16 \<Rightarrow> 'e ecx_contextt \<Rightarrow> (bool \<times> 'e ecx_contextt) option" where
  "erob_pre_op E if_name aliasadr estat c = (let (r, c) = ecx_init E if_name c in
     if r \<le> 0 then Some (False, c)
     else do {
       (w, c) \<leftarrow> ecx_config_init E aliasadr estat 0 c;
       if w \<le> 0 then Some (False, ecx_close E c)
       else do {
         (_, c) \<leftarrow> ecx_readstate E c;
         foldM (pre_op_slave E) [1..<slavecount c + 1] (True, c) } })"

definition erob_clocks :: "'e os_ops \<Rightarrow> u64 \<Rightarrow> 'e ecx_contextt \<Rightarrow> 'e ecx_contextt option" where
  "erob_clocks E hrt c = do {
     (_, c) \<leftarrow> ecx_configdc E hrt c;
     c \<leftarrow> foldM (\<lambda>i c. if sl_hasdc (slavelist c i) then ecx_dcsync0 E i 1 1000000 0 c else Some c) [1..<slavecount c + 1] c;
     Some (sleeps E 200000 c) }"

definition erob_safe_op :: "'e os_ops \<Rightarrow> 'e ecx_contextt \<Rightarrow> (bool \<times> int \<times> 'e ecx_contextt) option" where
  "erob_safe_op E c = do {
     c \<leftarrow> request_state E 0 EC_STATE_SAFE_OP c;
     c \<leftarrow> wait_safe_op E (sleeps E 200000 c);
     if sl_state (slavelist c 0) \<noteq> EC_STATE_SAFE_OP then Some (False, 0, c)
     else Some (True, int (unat (gr_outputsWKC (grouplist c 0))) * 2 + int (unat (gr_inputsWKC (grouplist c 0))), c) }"

definition erob_start :: "'e os_ops \<Rightarrow> 'e eoe_hook \<Rightarrow> 'e po2so_hook \<Rightarrow> string \<Rightarrow> u16 \<Rightarrow> u16 \<Rightarrow> (nat \<Rightarrow> buf \<times> buf) \<Rightarrow> u64 \<Rightarrow> 'e ecx_contextt \<Rightarrow>
    (bool \<times> int \<times> 'e ecx_contextt) option" where
  "erob_start E hook po2so if_name aliasadr estat stk hrt c = do {
     (ok, c) \<leftarrow> erob_pre_op E if_name aliasadr estat c;
     if \<not> ok then Some (False, 0, c)
     else do {
       (ok, c) \<leftarrow> erob_map E hook c;
       if \<not> ok then Some (False, 0, c)
       else do {
         let c = sleeps E 1000000 (c\<lparr>manualstatechange := 1\<rparr>);
         (_, c) \<leftarrow> ecx_config_map_group E hook po2so stk 0 0 c;
         (_, c) \<leftarrow> ecx_readstate E c;
         if \<exists>i \<in> {1..slavecount c}. sl_state (slavelist c i) \<noteq> EC_STATE_PRE_OP then Some (False, 0, c)
         else do {
           c \<leftarrow> erob_clocks E hrt c;
           erob_safe_op E c } } } }"

section \<open>What the mapping gives\<close>

text \<open>
  Each slave is a reference slave with an object dictionary: \<open>od_writer\<close> is the master's download to one of them. \<open>od_after\<close> is the dictionary
  that the writes of a table leave.
\<close>

definition od_writer :: "nat \<Rightarrow> (nat \<Rightarrow> od_server) sdo_writer" where
  "od_writer M slave index sub CA n p t c = do {
     (w, s) \<leftarrow> sdo_write (od_link M) index sub CA n p t (c slave);
     Some (w, c(slave := s)) }"

definition stored :: "nat \<Rightarrow> u32 \<Rightarrow> u8 list" where
  "stored n v = bytes_of (put_le n zero_buf 0 v) 0 n"

definition od_after :: "sdo_entry list \<Rightarrow> (u16 \<Rightarrow> u8 \<Rightarrow> u8 list) \<Rightarrow> u16 \<Rightarrow> u8 \<Rightarrow> u8 list" where
  "od_after = fold (\<lambda>(index, sub, n, v) od. od(index := (od index)(sub := stored n v)))"

definition short_entries :: "sdo_entry list \<Rightarrow> bool" where
  "short_entries entries \<longleftrightarrow> (\<forall>(index, sub, n, v) \<in> set entries. 1 \<le> n \<and> n \<le> 4)"

lemmas map_defs = csv_rx_map_def csv_tx_map_def csp_rx_map_def cst_rx_map_def pt_rx_map_def

lemma write_entries:
  assumes "short_entries entries"
  shows "\<exists>c'. foldM (write_entry (od_writer M) slave) entries (r, c) = Some (r + int (length entries), c') \<and>
    ob_objects (c' slave) = od_after entries (ob_objects (c slave)) \<and> (\<forall>k. k \<noteq> slave \<longrightarrow> c' k = c k)"
  using assms
proof (induction entries arbitrary: r c)
  case (Cons x entries)
  obtain i j n v where x: "x = (i, j, n, v)" by (cases x)
  have n: "1 \<le> n" "n \<le> 4" "short_entries entries" using Cons.prems by (simp_all add: short_entries_def x)
  from od_write [OF n(1,2), of M i j "put_le n zero_buf 0 v" EC_TIMEOUTSAFE "c slave"] obtain s where
    1: "sdo_write (od_link M) i j False (int n) (put_le n zero_buf 0 v) EC_TIMEOUTSAFE (c slave) = Some (1, s)"
    "ob_objects s = (ob_objects (c slave))(i := (ob_objects (c slave) i)(j := bytes_of (put_le n zero_buf 0 v) 0 n))" by blast
  have 2: "write_entry (od_writer M) slave x (r, c) = Some (r + 1, c(slave := s))"
    by (simp add: write_entry_def x od_writer_def 1(1))
  have 3: "od_after (x # entries) (ob_objects (c slave)) = od_after entries (ob_objects s)" by (simp add: od_after_def x 1(2) stored_def)
  from Cons.IH [OF n(3), of "r + 1" "c(slave := s)"] obtain c' where
    "foldM (write_entry (od_writer M) slave) entries (r + 1, c(slave := s)) = Some (r + 1 + int (length entries), c')"
    "ob_objects (c' slave) = od_after entries (ob_objects ((c(slave := s)) slave))" "\<forall>k. k \<noteq> slave \<longrightarrow> c' k = (c(slave := s)) k" by blast
  then show ?case unfolding 3 by (simp add: 2)
qed (simp add: od_after_def)

lemma map_pdos_writes:
  assumes "short_entries entries"
  shows "\<exists>c'. map_pdos (od_writer M) entries n c = Some (True, c') \<and> (\<forall>i \<in> {1..n}. ob_objects (c' i) = od_after entries (ob_objects (c i)))"
proof -
  let ?I = "\<lambda>k (r, c'). 0 \<le> r \<and> (\<forall>i. ob_objects (c' i) = (if 1 \<le> i \<and> i < k then od_after entries (ob_objects (c i)) else ob_objects (c i)))"
  have "runs_to (foldM (\<lambda>slave. foldM (write_entry (od_writer M) slave) entries) [1..<n + 1] (0, c)) (?I (n + 1))"
  proof (rule foldM_upt_total)
    fix k and st :: "int \<times> (nat \<Rightarrow> od_server)" assume k: "1 \<le> k" "k < n + 1" and st: "?I k st"
    obtain r c1 where rc: "st = (r, c1)" by (cases st)
    from write_entries [OF assms, of M k r c1] obtain c2 where
      "foldM (write_entry (od_writer M) k) entries (r, c1) = Some (r + int (length entries), c2)"
      "ob_objects (c2 k) = od_after entries (ob_objects (c1 k))" "\<forall>i. i \<noteq> k \<longrightarrow> c2 i = c1 i" by blast
    then show "runs_to (foldM (write_entry (od_writer M) k) entries st) (?I (Suc k))"
      using st k unfolding rc by (auto simp: less_Suc_eq)
  qed simp_all
  then show ?thesis by (fastforce simp: map_pdos_def runs_to_iff simp del: upt_Suc)
qed

lemma obj_value_stored: "n \<le> 4 \<Longrightarrow> obj_value (stored n v) = take_bit (8 * n) v"
  by (rule bit_word_eqI) (auto simp: stored_def obj_value_def bit_get_le bit_simps buf_of_def put_le_apply)

lemma fits_stored: "fits m (stored n v) \<longleftrightarrow> 1 \<le> n \<and> n \<le> m"
  by (simp add: fits_def stored_def)

lemma low_words: "ucast (take_bit 16 (ucast (x :: u16) :: u32)) = x"
  by (rule bit_word_eqI) (auto simp: bit_simps)

lemma length_u8: "n < 256 \<Longrightarrow> unat (ucast (take_bit 8 (of_nat n :: u32)) :: u8) = n"
  by (simp add: unsigned_ucast_eq unsigned_take_bit_eq unat_of_nat take_bit_nat_eq_self)

text \<open>An assign object with one PDO, whose entries are \<open>es\<close>.\<close>

lemma one_pdo:
  assumes "od a 0 = stored 2 1" "od a 1 = stored 2 (ucast pdo)" "pdo \<noteq> 0" "od pdo 0 = stored 1 (of_nat (length es))" "length es < 256"
    and "map (\<lambda>k. od pdo (of_nat k)) [1..<length es + 1] = map (stored 4) es"
  shows "assign_fits od a \<and> obj_value (od a 0) = 1 \<and> od_assign_bits od a 2 = sum_list (map (\<lambda>e. unat (e AND 0xff)) es)"
proof -
  have v: "obj_value (od a 0) = 1" "ucast (obj_value (od a 1)) = pdo" "unat (ucast (obj_value (od pdo 0)) :: u8) = length es"
    by (simp_all add: assms(1,2,4) obj_value_stored low_words length_u8 [OF assms(5)])
  have e: "od pdo (of_nat k) = stored 4 (es ! (k - 1))" if "1 \<le> k" "k \<le> length es" for k
    using arg_cong [OF assms(6), of "\<lambda>xs. xs ! (k - 1)"] that by (simp del: upt_Suc)
  have "map (\<lambda>k. unat (obj_value (od pdo (of_nat k)) AND 0xff)) [1..<length es + 1] = map (\<lambda>e. unat (e AND 0xff)) es"
  proof (rule nth_equalityI)
    fix i assume "i < length (map (\<lambda>k. unat (obj_value (od pdo (of_nat k)) AND 0xff)) [1..<length es + 1])"
    then have "i < length es" by (simp del: upt_Suc)
    then show "map (\<lambda>k. unat (obj_value (od pdo (of_nat k)) AND 0xff)) [1..<length es + 1] ! i = map (\<lambda>e. unat (e AND 0xff)) es ! i"
      using e [of "Suc i"] by (simp add: obj_value_stored del: upt_Suc)
  qed (simp del: upt_Suc)
  then have "od_pdo_bits od pdo = sum_list (map (\<lambda>e. unat (e AND 0xff)) es)"
    using assms(3) by (simp only: od_pdo_bits_def v(3) if_False)
  moreover have f: "fits 1 (od pdo 0)" "fits 2 (od a 0)" "fits 2 (od a 1)" by (simp_all add: assms(1,2,4) fits_stored)
  moreover have "pdo_fits od pdo" unfolding pdo_fits_def v(3) using f(1) by (auto simp: e fits_stored)
  ultimately show ?thesis
    unfolding assign_fits_def od_assign_bits_def v(1) using v(2) by (simp add: numeral_2_eq_2)
qed

lemma mapped_objects:
  fixes od :: "u16 \<Rightarrow> u8 \<Rightarrow> u8 list"
  assumes "(rx, len) \<in> {(csv_rx_map, 8), (csp_rx_map, 8), (cst_rx_map, 6), (pt_rx_map, 12)}"
  defines "od' \<equiv> od_after csv_tx_map (od_after rx od)"
  shows "short_entries rx" "assign_fits od' 0x1c12 \<and> obj_value (od' 0x1c12 0) = 1 \<and> od_assign_bits od' 0x1c12 2 = 8 * len"
    "assign_fits od' 0x1C13 \<and> obj_value (od' 0x1C13 0) = 1 \<and> od_assign_bits od' 0x1C13 2 = 8 * 12"
proof -
  show "short_entries rx" using assms(1) by (auto simp: map_defs short_entries_def)
  from assms(1) consider "rx = csv_rx_map" "len = 8" | "rx = csp_rx_map" "len = 8" | "rx = cst_rx_map" "len = 6" | "rx = pt_rx_map" "len = 12" by auto
  then show "assign_fits od' 0x1c12 \<and> obj_value (od' 0x1c12 0) = 1 \<and> od_assign_bits od' 0x1c12 2 = 8 * len"
  proof cases
    case 1
    show ?thesis using one_pdo [of od' "0x1c12" "0x1600" "[0x60400010, 0x60FF0020, 0x60600008, 0x00000008]"]
      by (simp add: od'_def 1 map_defs od_after_def upt_conv_Cons)
  next
    case 2
    show ?thesis using one_pdo [of od' "0x1c12" "0x1600" "[0x60400010, 0x607A0020, 0x60600008, 0x00000008]"]
      by (simp add: od'_def 2 map_defs od_after_def upt_conv_Cons)
  next
    case 3
    show ?thesis using one_pdo [of od' "0x1c12" "0x1600" "[0x60400010, 0x60710010, 0x60600008, 0x00000008]"]
      by (simp add: od'_def 3 map_defs od_after_def upt_conv_Cons)
  next
    case 4
    show ?thesis using one_pdo [of od' "0x1c12" "0x1600" "[0x60400010, 0x60710010, 0x60870020, 0x60720010, 0x60600008, 0x00000008]"]
      by (simp add: od'_def 4 map_defs od_after_def upt_conv_Cons)
  qed
  show "assign_fits od' 0x1C13 \<and> obj_value (od' 0x1C13 0) = 1 \<and> od_assign_bits od' 0x1C13 2 = 8 * 12"
    using one_pdo [of od' "0x1C13" "0x1A00" "[0x60410010, 0x60640020, 0x606C0020, 0x60770010]"] assms(1)
    by (auto simp: od'_def map_defs od_after_def upt_conv_Cons)
qed

lemma write_entry_runs:
  assumes "\<forall>slave index sub n b c. \<exists>w c'. SDOwrite slave index sub False n b EC_TIMEOUTSAFE c = Some (w, c') \<and> 0 \<le> w" "0 \<le> retval"
  shows "\<exists>r c'. write_entry SDOwrite slave x (retval, c) = Some (r, c') \<and> 0 \<le> r"
proof -
  obtain index sub n v where x: "x = (index, sub, n, v)" by (cases x)
  obtain w c' where "SDOwrite slave index sub False (int n) (put_le n zero_buf 0 v) EC_TIMEOUTSAFE c = Some (w, c')" "0 \<le> w" using assms(1) by blast
  then show ?thesis using assms(2) by (simp add: write_entry_def x)
qed

lemma foldM_keeps:
  assumes "\<And>x r c. 0 \<le> r \<Longrightarrow> \<exists>r' c'. f x (r, c) = Some (r', c') \<and> 0 \<le> (r' :: int)" "0 \<le> r"
  shows "\<exists>r' c'. foldM f xs (r, c) = Some (r', c') \<and> 0 \<le> r'"
  using assms(2)
proof (induction xs arbitrary: r c)
  case (Cons x xs)
  obtain r' c' where "f x (r, c) = Some (r', c')" "0 \<le> r'" using assms(1) [OF Cons.prems] by blast
  with Cons.IH [of r' c'] show ?case by simp
qed simp

lemma map_pdos_accepts:
  assumes "\<forall>slave index sub n b c. \<exists>w c'. SDOwrite slave index sub False n b EC_TIMEOUTSAFE c = Some (w, c') \<and> 0 \<le> w"
  shows "\<exists>c'. map_pdos SDOwrite entries n c = Some (True, c')"
proof -
  have "\<exists>r c'. foldM (\<lambda>slave. foldM (write_entry SDOwrite slave) entries) [1..<n + 1] (0, c) = Some (r, c') \<and> 0 \<le> r"
    by (intro foldM_keeps write_entry_runs assms) simp_all
  then show ?thesis by (auto simp: map_pdos_def simp del: upt_Suc)
qed

section \<open>Waiting for the slaves\<close>

lemma sleeps_step: "ctx_ok E now c \<Longrightarrow> ctx_step E now c (sleeps E n c)"
  using port_usleep_ok exchange_ok_net by (fastforce simp: sleeps_def ctx_step_def ctx_ok_def slaves_kept_def)

lemma sleeps_tables [simp]: "slavelist (sleeps E n c) = slavelist c" "slavecount (sleeps E n c) = slavecount c"
  by (simp_all add: sleeps_def)

lemma wait_safe_op_ends:
  assumes "ctx_ok E now c" "1 \<le> slavecount c"
  shows "runs_to (wait_safe_op E c) (\<lambda>c'. ctx_step E now c c' \<and>
    (sl_state (slavelist c' 0) = EC_STATE_SAFE_OP \<longrightarrow> (\<forall>i \<in> {1..slavecount c}. EC_STATE_SAFE_OP \<le> sl_state (slavelist c' i) AND 0xf)))"
proof -
  let ?body = "\<lambda>(left, c). do {
         (_, c) \<leftarrow> ecx_readstate E c;
         let c = sleeps E 100000 c;
         Some ((left - 1, c), left \<noteq> 0 \<and> sl_state (slavelist c 0) \<noteq> EC_STATE_SAFE_OP) }"
  let ?Q = "\<lambda>c'. ctx_step E now c c' \<and>
    (sl_state (slavelist c' 0) = EC_STATE_SAFE_OP \<longrightarrow> (\<forall>i \<in> {1..slavecount c}. EC_STATE_SAFE_OP \<le> sl_state (slavelist c' i) AND 0xf))"
  have "runs_to (do_while ?body (40 :: int, c)) (\<lambda>(_, c'). ?Q c')"
  proof (rule do_while_total [where I = "\<lambda>(left, b). 0 \<le> left \<and> ctx_step E now c b" and R = "measure (\<lambda>(left, b). nat left)"])
    show "case (40 :: int, c) of (left, b) \<Rightarrow> 0 \<le> left \<and> ctx_step E now c b" using ctx_step_refl [OF assms(1)] by simp
    fix a :: "int \<times> 'a ecx_contextt" assume "case a of (left, b) \<Rightarrow> 0 \<le> left \<and> ctx_step E now c b"
    then obtain left b where a: "a = (left, b)" "0 \<le> left" "ctx_step E now c b" by (cases a) simp
    have b: "ctx_ok E now b" "slavecount b = slavecount c" using ctx_step_ok [OF a(3)] a(3) by (simp_all add: ctx_step_def slaves_kept_def)
    then have "1 \<le> slavecount b" using assms(2) by simp
    from ecx_readstate_lowest [OF b(1) this] obtain low b1 where
      1: "ecx_readstate E b = Some (low, b1)" "ctx_step E now b b1" "sl_state (slavelist b1 0) = low"
      "\<forall>i. 1 \<le> i \<longrightarrow> i \<le> slavecount b \<longrightarrow> low \<le> sl_state (slavelist b1 i) AND 0xf" by blast
    have "ctx_step E now c (sleeps E 100000 b1)"
      using ctx_step_trans [OF ctx_step_trans [OF a(3) 1(2)] sleeps_step [OF ctx_step_ok [OF 1(2)]]] .
    then show "runs_to (?body a) (\<lambda>(a', again). if again then (case a' of (left, b) \<Rightarrow> 0 \<le> left \<and> ctx_step E now c b) \<and> (a', a) \<in> measure (\<lambda>(left, b). nat left)
        else case a' of (_, c') \<Rightarrow> ?Q c')"
      using 1(3,4) b(2) a(2) by (auto simp: a(1) 1(1) Let_def runs_to_iff)
  qed simp
  then show ?thesis by (auto simp: wait_safe_op_def elim!: runs_to_mono)
qed

section \<open>Properties\<close>

text \<open>
  C20: on slaves with an object dictionary that take the writes, the mapping of a program goes through for any number of slaves, and what the
  master then reads from the dictionary of each of them are the sizes of the structs that the threads copy: 8 bytes of outputs for the
  velocity and position programs, 6 for \<open>CST\<close>, 12 for \<open>PT\<close>, and 12 bytes of inputs. Writing and reading are the master's own, against the slave.
\<close>

theorem mappings_fit_structs:
  assumes "(rx, len) \<in> {(csv_rx_map, 8), (csp_rx_map, 8), (cst_rx_map, 6), (pt_rx_map, 12)}"
  shows "\<exists>c1 c2. map_pdos (od_writer M) rx n c = Some (True, c1) \<and> map_pdos (od_writer M) csv_tx_map n c1 = Some (True, c2) \<and>
    (\<forall>i \<in> {1..n}. (\<exists>s. readPDOassign (od_reader M) 0x1c12 (c2 i) = Some (8 * of_nat len, s)) \<and>
      (\<exists>s. readPDOassign (od_reader M) 0x1c13 (c2 i) = Some (8 * 12, s)))"
proof -
  have tx: "short_entries csv_tx_map" by (simp add: short_entries_def csv_tx_map_def)
  from map_pdos_writes [OF mapped_objects(1) [OF assms], where M = M and n = n and c = c] obtain c1 where
    1: "map_pdos (od_writer M) rx n c = Some (True, c1)" "\<forall>i \<in> {1..n}. ob_objects (c1 i) = od_after rx (ob_objects (c i))" by blast
  from map_pdos_writes [OF tx, where M = M and n = n and c = c1] obtain c2 where
    2: "map_pdos (od_writer M) csv_tx_map n c1 = Some (True, c2)" "\<forall>i \<in> {1..n}. ob_objects (c2 i) = od_after csv_tx_map (ob_objects (c1 i))" by blast
  have "(\<exists>s. readPDOassign (od_reader M) 0x1c12 (c2 i) = Some (8 * of_nat len, s)) \<and>
      (\<exists>s. readPDOassign (od_reader M) 0x1c13 (c2 i) = Some (8 * 12, s))" if "i \<in> {1..n}" for i
  proof -
    have od: "ob_objects (c2 i) = od_after csv_tx_map (od_after rx (ob_objects (c i)))" using 1(2) 2(2) that by simp
    note m = mapped_objects(2,3) [OF assms, where od = "ob_objects (c i)", folded od]
    show ?thesis using readPDOassign_bits [where M = M, OF conjunct1 [OF m(1)]] readPDOassign_bits [where M = M, OF conjunct1 [OF m(2)]] m by (auto simp: numeral_2_eq_2)
  qed
  with 1(1) 2(1) show ?thesis by blast
qed

text \<open>
  The programs do not notice that a slave refuses a write of the mapping: as long as every write returns, with whatever working counter that
  is not negative (zero when it is refused), the mapping is taken for done.
\<close>

theorem map_pdos_ignores_refusals:
  assumes "\<forall>slave index sub n b c. \<exists>w c'. SDOwrite slave index sub False n b 20000 c = Some (w, c') \<and> 0 \<le> w"
  shows "\<exists>c'. map_pdos SDOwrite entries n c = Some (True, c')"
  using assms by (rule map_pdos_accepts)

text \<open>
  The wait for safe-operational ends, keeps the configuration of the slaves, and when it has seen the state, every
  slave has reported safe-operational at least.
\<close>

theorem wait_safe_op_returns:
  assumes "ctx_ok E now c" "1 \<le> slavecount c"
  shows "\<exists>c'. wait_safe_op E c = Some c' \<and> slaves_kept c c' \<and>
    (sl_state (slavelist c' 0) = EC_STATE_SAFE_OP \<longrightarrow> (\<forall>i \<in> {1..slavecount c}. EC_STATE_SAFE_OP \<le> sl_state (slavelist c' i) AND 0xf))"
  using wait_safe_op_ends [OF assms] by (auto simp: runs_to_iff ctx_step_def)

definition blank_slave :: od_server where
  "blank_slave = \<lparr>ob_objects = (\<lambda>_ _. []), ob_selected = (0, 0), ob_server = \<lparr>sv_obj = [], sv_up = [], sv_down = [], sv_ans = None\<rparr>\<rparr>"

theorem mappings_fit_structs_witness:
  "\<exists>c1 c2. map_pdos (od_writer 128) pt_rx_map 3 (\<lambda>_. blank_slave) = Some (True, c1) \<and> map_pdos (od_writer 128) csv_tx_map 3 c1 = Some (True, c2) \<and>
    (\<exists>s. readPDOassign (od_reader 128) 0x1c12 (c2 3) = Some (96, s))"
proof -
  have "(pt_rx_map, 12 :: nat) \<in> {(csv_rx_map, 8), (csp_rx_map, 8), (cst_rx_map, 6), (pt_rx_map, 12)}" by simp
  from mappings_fit_structs [OF this, where M = 128 and n = 3 and c = "\<lambda>_. blank_slave"] show ?thesis by fastforce
qed

theorem map_pdos_ignores_refusals_witness:
  "\<exists>c'. map_pdos (\<lambda>_ _ _ _ _ _ _ c. Some (0, c)) csv_rx_map 2 () = Some (True, c')"
  by (rule map_pdos_ignores_refusals) simp

theorem wait_safe_op_returns_witness:
  "\<exists>c'. wait_safe_op script_os (idle_ctx 2 (5, [])) = Some c' \<and> slaves_kept (idle_ctx 2 (5, [])) c'"
  using wait_safe_op_returns [of script_os "\<lambda>(t, q). t * 1000" "idle_ctx 2 (5, [])"] idle_ctx_ok [of 2 "(5, [])"] by auto

end
