(* ===== verification/Wire.thy ===== *)
theory Wire
  imports Eeprom
begin

text \<open>
  A wire with one slave behind the network interface: the environment that receives the frames the
  master really sends and answers with the frames the master really reads. The primitives of
  \<open>soem/ethercatbase.c\<close> and the exchange of \<open>oshw/linux/nicdrv.c\<close> run on it unchanged, so that a
  property of this theory is about the whole path from a library call down to the bytes of a frame.

  \<open>primitive_answered\<close> states what a primitive does on the wire; the rest is the reading of the
  EEPROM of a slave (\<open>ecx_readeepromFP\<close>) that is busy, refuses commands and misses frames.
\<close>

section \<open>A wire\<close>

text \<open>
  The time in microseconds, the frames on their way back to the master and the slave. What the
  slave does with a datagram is \<open>react\<close>: the data it puts into it, what it adds to the working
  counter and its next state.
\<close>

record 's wire =
  w_time :: nat
  w_flight :: "u8 list list"
  w_slave :: 's

type_synonym 's react = "dgram \<Rightarrow> 's \<Rightarrow> (u8 list \<times> u16) \<times> 's"

text \<open>The first datagram of a frame, and the frame with that datagram answered.\<close>

definition wire_dlen :: "u8 list \<Rightarrow> nat" where
  "wire_dlen f = unat (rd16 (buf_of f) 22 AND 0x07ff)"

definition answered :: "u8 list \<Rightarrow> u8 list \<Rightarrow> u16 \<Rightarrow> u8 list" where
  "answered f bs w = (let n = wire_dlen f in
     bytes_of (wr16 (memcpy (buf_of f) 26 (buf_of bs) 0 n) (26 + n) w) 0 (length f))"

text \<open>
  A sent frame passes the slave and is on its way back at once; the interface delivers the frames in
  their order; a reading of the clock takes a microsecond and sleeping the time asked for.
\<close>

definition wire_os :: "'s react \<Rightarrow> 's wire os_ops" where
  "wire_os react = \<lparr>
     os_socket = (\<lambda>e. (3, e)), os_setsockopt = (\<lambda>h e. e), os_ioctl = (\<lambda>h i e. e),
     os_bind = (\<lambda>h i e. (0, e)), os_close = (\<lambda>h e. e),
     os_send = (\<lambda>h f e. let ((bs, w), s) = react (dgram_at (buf_of f) 16 (wire_dlen f)) (w_slave e)
        in (int (length f), e\<lparr>w_flight := w_flight e @ [answered f bs w], w_slave := s\<rparr>)),
     os_recv = (\<lambda>h n e. case w_flight e of [] \<Rightarrow> (None, e)
        | f # fs \<Rightarrow> (if frame_fits f then Some f else None, e\<lparr>w_flight := fs\<rparr>)),
     os_monotonic = (\<lambda>e. ((Suc (w_time e) div 1000000, (Suc (w_time e) mod 1000000) * 1000),
        e\<lparr>w_time := Suc (w_time e)\<rparr>)),
     os_realtime = (\<lambda>e. ((0, 0), e)),
     os_nanosleep = (\<lambda>s n e. (0, e\<lparr>w_time := w_time e + s * 1000000 + n div 1000\<rparr>))\<rparr>"

abbreviation wire_now :: "'s wire \<Rightarrow> nat" where "wire_now e \<equiv> w_time e * 1000"

lemma good_wire_os: "good_os (wire_os react) wire_now"
proof -
  have "Suc t div 1000000 * 1000000000 + Suc t mod 1000000 * 1000 = Suc t * 1000" for t :: nat
  proof -
    have "Suc t div 1000000 * 1000000000 + Suc t mod 1000000 * 1000
      = (Suc t div 1000000 * 1000000 + Suc t mod 1000000) * 1000"
      unfolding add_mult_distrib mult.assoc by simp
    then show ?thesis unfolding div_mult_mod_eq .
  qed
  then show ?thesis
    by (auto simp: good_os_def wire_os_def Let_def split: list.splits if_splits prod.splits)
qed

lemma wire_timer_start:
  "snd (osal_timer_start (wire_os react) timeout e) = e\<lparr>w_time := Suc (w_time e)\<rparr>"
  by (simp add: osal_timer_start_def osal_getrelativetime_def wire_os_def Let_def)

lemma wire_port_timer_start:
  "\<exists>t. port_timer_start (wire_os react) timeout p = (t, p\<lparr>os := (os p)\<lparr>w_time := Suc (w_time (os p))\<rparr>\<rparr>)"
  using wire_timer_start [of react timeout "os p"] by (simp add: port_timer_start_def split_beta)

lemma wire_expired:
  "snd (osal_timer_is_expired (wire_os react) t e) = e\<lparr>w_time := Suc (w_time e)\<rparr>"
  by (simp add: osal_timer_is_expired_def osal_getrelativetime_def wire_os_def Let_def)

lemma wire_usleep:
  "port_usleep (wire_os react) n p = p\<lparr>os := (os p)\<lparr>w_time := w_time (os p) + n\<rparr>\<rparr>"
proof -
  have "w_time (os p) + n div 1000000 * 1000000 + n mod 1000000 = w_time (os p) + n"
    unfolding add.assoc div_mult_mod_eq ..
  then show ?thesis by (simp add: port_usleep_def osal_usleep_def wire_os_def)
qed

section \<open>A primitive on the wire\<close>

text \<open>
  Between two exchanges the port is at rest: redundancy is off, every buffer is free, no frame is on
  its way, and the transmit buffers carry the header that \<open>ecx_setupnic\<close> wrote.
\<close>

definition quiet :: "'s wire ecx_portt \<Rightarrow> bool" where
  "quiet p \<longleftrightarrow> redstate p = ECT_RED_NONE \<and> w_flight (os p) = [] \<and> unat (lastidx p) < EC_MAXBUF \<and>
     (\<forall>i < EC_MAXBUF. rxbufstat p i = EC_BUF_EMPTY \<and> rd16 (txbuf p i) 12 = htons ETH_P_ECAT)"

text \<open>\<open>after p d s p'\<close>: the port is at rest again, at most \<open>d\<close> microseconds later, with the slave in state \<open>s\<close>.\<close>

definition after :: "'s wire ecx_portt \<Rightarrow> nat \<Rightarrow> 's \<Rightarrow> 's wire ecx_portt \<Rightarrow> bool" where
  "after p d s p' \<longleftrightarrow> quiet p' \<and> w_slave (os p') = s \<and> w_time (os p') \<le> w_time (os p) + d"

lemma after_trans: "after p d s q \<Longrightarrow> after q d' s' r \<Longrightarrow> after p (d + d') s' r"
  by (simp add: after_def)

lemma after_mono: "after p d s q \<Longrightarrow> d \<le> d' \<Longrightarrow> after p d' s q"
  by (simp add: after_def)

lemma quiet_time [simp]: "quiet (p\<lparr>os := (os p)\<lparr>w_time := t\<rparr>\<rparr>) = quiet p"
  by (simp add: quiet_def)

lemma after_usleep: "quiet p \<Longrightarrow> after p n (w_slave (os p)) (port_usleep (wire_os react) n p)"
  by (simp add: after_def wire_usleep)

text \<open>The frame of one datagram and its answer.\<close>

lemma elength_bits:
  assumes "unat len \<le> 0x07ff"
  shows "unat ((EC_ECATTYPE + 12 + len) AND 0x0fff) = 12 + unat len"
proof -
  have mask: "(0x0fff :: u16) = mask 12" by (simp add: mask_eq_exp_minus_1)
  have u: "unat (EC_ECATTYPE + 12 + len) = 4108 + unat len"
    using assms by (simp add: unat_plus_if')
  have "unat (take_bit 12 (EC_ECATTYPE + 12 + len)) = take_bit 12 (unat (EC_ECATTYPE + 12 + len))"
    by (rule unsigned_take_bit_eq)
  also have "\<dots> = (4108 + unat len) mod 4096" unfolding u by (simp add: take_bit_eq_mod)
  also have "\<dots> = (12 + unat len) mod 4096" using mod_add_self1 [of 4096 "12 + unat len"] by simp
  also have "\<dots> = 12 + unat len" using assms by simp
  finally show ?thesis unfolding mask take_bit_eq_mask .
qed

lemma answered_frame:
  assumes c: "carries g 16 [(tx_dgram com idx ADP ADO len data, False)]" and i: "idx < EC_MAXBUF"
    and l: "28 + unat len \<le> EC_BUFSIZE"
    and h: "rd16 g ETH_HEADERSIZE = EC_ECATTYPE + 12 + len" "rd16 g 12 = htons ETH_P_ECAT"
    and bs: "length bs = unat len"
  defines "f \<equiv> bytes_of g 0 (28 + unat len)"
  shows "dgram_at (buf_of f) 16 (wire_dlen f) = tx_dgram com idx ADP ADO len data"
    and "ecat_frame (answered f bs w) idx" "frame_wkc (answered f bs w) = int (unat w)"
    and "frame_fits (answered f bs w)" "length (answered f bs w) = 28 + unat len"
    and "k < unat len \<Longrightarrow> answered f bs w ! (26 + k) = bs ! k"
proof -
  have len: "unat len \<le> 0x07ff" using l by simp
  have fg: "buf_of f j = g j" if "j < 28 + unat len" for j
    using that by (simp add: buf_of_def f_def)
  have lf: "length f = 28 + unat len" by (simp add: f_def)
  have rd: "rd16 (buf_of f) j = rd16 g j" if "j + 2 \<le> 28 + unat len" for j
    by (rule get_le_cong) (use that fg in simp)
  have "of_nat (unat len) = len" by simp
  then have dl: "rd16 g 22 = len" using c by simp
  have n: "wire_dlen f = unat len"
    using dlength_bits(1) [OF len, of False] rd [of 22] dl by (simp add: wire_dlen_def)
  show "dgram_at (buf_of f) 16 (wire_dlen f) = tx_dgram com idx ADP ADO len data"
  proof -
    have "dgram_at (buf_of f) 16 (unat len) = dgram_at g 16 (unat len)"
      by (rule dgram_at_cong) (simp add: fg)
    then show ?thesis using c by (simp add: n)
  qed
  show la: "length (answered f bs w) = 28 + unat len"
    by (simp add: answered_def Let_def lf)
  have ab: "buf_of (answered f bs w) j = wr16 (memcpy (buf_of f) 26 (buf_of bs) 0 (unat len)) (26 + unat len) w j"
    if "j < 28 + unat len" for j
    using that by (simp add: answered_def Let_def n lf buf_of_def [of "bytes_of _ _ _"])
  have ard: "rd16 (buf_of (answered f bs w)) j = rd16 g j" if "j + 2 \<le> 26" for j
  proof -
    have "rd16 (buf_of (answered f bs w)) j =
        rd16 (wr16 (memcpy (buf_of f) 26 (buf_of bs) 0 (unat len)) (26 + unat len) w) j"
      by (rule get_le_cong) (use that ab in simp)
    also have "\<dots> = rd16 g j" using that rd [of j] by simp
    finally show ?thesis .
  qed
  have rl: "rx_len (buf_of (answered f bs w)) ETH_HEADERSIZE = 12 + unat len"
    using ard [of 14] h(1) elength_bits [OF len] by (simp add: rx_len_def)
  have "rd16 (buf_of (answered f bs w)) (26 + unat len) =
      rd16 (wr16 (memcpy (buf_of f) 26 (buf_of bs) 0 (unat len)) (26 + unat len) w) (26 + unat len)"
    by (rule get_le_cong) (use ab in simp)
  then show "frame_wkc (answered f bs w) = int (unat w)"
    by (simp add: frame_wkc_def rl add.assoc)
  have "answered f bs w ! 17 = g 17"
    using ab [of 17] la fg [of 17] by (simp add: buf_of_def put_le_apply memcpy_apply)
  moreover have "g 17 = of_nat idx"
    using c by (simp add: dgram_at_def tx_dgram_def)
  ultimately show "ecat_frame (answered f bs w) idx"
    using ard [of 12] h(2) rl la l i by (simp add: ecat_frame_def unat_of_nat_u8)
  show "frame_fits (answered f bs w)"
    using rl la l by (simp add: frame_fits_def)
  show "answered f bs w ! (26 + k) = bs ! k" if "k < unat len"
    using that ab [of "26 + k"] la bs by (simp add: buf_of_def put_le_apply memcpy_apply)
qed

text \<open>Receiving the answer, and the whole exchange of one frame.\<close>

lemma inframe_answer:
  assumes "os_recv E (sockhandle p) EC_BUFSIZE (os p) = (Some f, e)" "ecat_frame f idx"
    and "idx < EC_MAXBUF" "rxbufstat p idx \<noteq> EC_BUF_RCVD" "txbuflength p idx = length f"
  shows "\<exists>b t sa. ecx_inframe E idx 0 p = Some (frame_wkc f, p\<lparr>os := e, tempinbufs := int (length f),
      tempinbuf := t, rxbuf := (rxbuf p)(idx := b), rxbufstat := (rxbufstat p)(idx := EC_BUF_COMPLETE),
      rxsa := sa\<rparr>) \<and> bytes_of b 0 (length f - ETH_HEADERSIZE) = drop ETH_HEADERSIZE f"
proof -
  have len: "28 \<le> length f" "length f \<le> EC_BUFSIZE" using assms(2) by (simp_all add: ecat_frame_def)
  have "f \<noteq> []" using len by auto
  note rec = ecx_recvpkt_primary [OF assms(1) this len(2)]
  note temp = ecat_frame_temp [OF assms(2)]
  define tb where "tb = memcpy (tempinbuf p) 0 (buf_of f) 0 (length f)"
  define rb where "rb = memcpy (rxbuf p idx) 0 tb ETH_HEADERSIZE (length f - ETH_HEADERSIZE)"
  have "ecx_inframe E idx 0 p = Some (frame_wkc f, p\<lparr>os := e, tempinbufs := int (length f),
    tempinbuf := tb, rxbuf := (rxbuf p)(idx := rb), rxbufstat := (rxbufstat p)(idx := EC_BUF_COMPLETE),
    rxsa := (rxsa p)(idx := htons (rd16 tb 8))\<rparr>)"
    using assms(3-5) len rec temp(1-5,7)
    by (simp add: ecx_inframe_def Let_def get_stack_def put_stack_def tb_def rb_def)
  then show ?thesis using temp(6) unfolding tb_def rb_def by blast
qed

lemma srconfirm_answered:
  assumes p: "redstate p = ECT_RED_NONE" "w_flight (os p) = []" "idx < EC_MAXBUF"
    and tx: "carries (txbuf p idx) 16 [(tx_dgram com idx ADP ADO len data, False)]"
      "rd16 (txbuf p idx) ETH_HEADERSIZE = EC_ECATTYPE + 12 + len" "rd16 (txbuf p idx) 12 = htons ETH_P_ECAT"
      "txbuflength p idx = 28 + unat len" "28 + unat len \<le> EC_BUFSIZE"
    and r: "react (tx_dgram com idx ADP ADO len data) (w_slave (os p)) = ((bs, w), s)" "length bs = unat len"
  shows "\<exists>p'. ecx_srconfirm (wire_os react) idx timeout p = Some (int (unat w), p') \<and>
    redstate p' = ECT_RED_NONE \<and> w_flight (os p') = [] \<and> w_slave (os p') = s \<and>
    w_time (os p') = w_time (os p) + 2 \<and> lastidx p' = lastidx p \<and>
    rxbufstat p' = (rxbufstat p)(idx := EC_BUF_COMPLETE) \<and> (\<forall>i. rd16 (txbuf p' i) 12 = rd16 (txbuf p i) 12) \<and>
    (\<forall>k < unat len. rxbuf p' idx (12 + k) = bs ! k)"
proof -
  define g where "g = wr16 (txbuf p idx) 8 (htons RX_PRIM)"
  define f where "f = bytes_of g 0 (28 + unat len)"
  define a where "a = answered f bs w"
  have "carries g 16 [(tx_dgram com idx ADP ADO len data, False)] \<longleftrightarrow>
      carries (txbuf p idx) 16 [(tx_dgram com idx ADP ADO len data, False)]"
    by (rule carries_cong) (simp add: g_def put_le_apply)
  with tx(1) have c: "carries g 16 [(tx_dgram com idx ADP ADO len data, False)]" by simp
  have h: "rd16 g ETH_HEADERSIZE = EC_ECATTYPE + 12 + len" "rd16 g 12 = htons ETH_P_ECAT"
    using tx(2,3) by (simp_all add: g_def)
  note d = answered_frame(1) [OF c p(3) tx(5) h r(2), folded f_def]
  note af = answered_frame(2-6) [OF c p(3) tx(5) h r(2), where w = w, folded f_def, folded a_def]
  obtain t1 where 1: "port_timer_start (wire_os react) timeout p =
      (t1, p\<lparr>os := (os p)\<lparr>w_time := Suc (w_time (os p))\<rparr>\<rparr>)"
    using wire_port_timer_start [of react timeout p] by blast
  define p2 where "p2 = p\<lparr>txbuf := (txbuf p)(idx := g), rxbufstat := (rxbufstat p)(idx := EC_BUF_TX),
    os := (os p)\<lparr>w_time := Suc (w_time (os p)), w_flight := [a], w_slave := s\<rparr>\<rparr>"
  have "0 \<le> uint len" by simp
  then have "29 + uint len \<noteq> 0" by linarith
  then have 2: "ecx_outframe_red (wire_os react) idx (p\<lparr>os := (os p)\<lparr>w_time := Suc (w_time (os p))\<rparr>\<rparr>) =
      Some (int (28 + unat len), p2)"
    using p tx(4,5) r(1) d
    by (simp add: ecx_outframe_red_def ecx_outframe_def get_stack_def put_stack_def wire_os_def Let_def
        p2_def a_def f_def g_def)
  let ?tm = "if timeout < EC_TIMEOUTRET then timeout else EC_TIMEOUTRET"
  define p3 where "p3 = p2\<lparr>os := (os p2)\<lparr>w_time := Suc (w_time (os p2))\<rparr>\<rparr>"
  obtain t2 where 3: "port_timer_start (wire_os react) ?tm p2 = (t2, p3)"
    using wire_port_timer_start [of react ?tm p2] unfolding p3_def by blast
  have "os_recv (wire_os react) (sockhandle p3) EC_BUFSIZE (os p3) = (Some a, (os p3)\<lparr>w_flight := []\<rparr>)"
    using af(3) by (simp add: wire_os_def p3_def p2_def)
  from inframe_answer [OF this af(1) p(3)] af(4) tx(4) obtain b t sa where
    4: "ecx_inframe (wire_os react) idx 0 p3 = Some (int (unat w), p3\<lparr>os := (os p3)\<lparr>w_flight := []\<rparr>,
      tempinbufs := int (length a), tempinbuf := t, rxbuf := (rxbuf p3)(idx := b),
      rxbufstat := (rxbufstat p3)(idx := EC_BUF_COMPLETE), rxsa := sa\<rparr>)"
    and b: "bytes_of b 0 (14 + unat len) = drop ETH_HEADERSIZE a"
    unfolding af(2) by (auto simp: p3_def p2_def)
  have bk: "b (12 + k) = bs ! k" if "k < unat len" for k
  proof -
    have "b (12 + k) = bytes_of b 0 (14 + unat len) ! (12 + k)" using that by simp
    also have "\<dots> = a ! (26 + k)" unfolding b using that af(4) by simp
    also have "\<dots> = bs ! k" by (rule af(5) [OF that])
    finally show ?thesis .
  qed
  have r3: "redstate p3 = ECT_RED_NONE" using p(1) by (simp add: p3_def p2_def)
  have "0 \<le> uint w" by simp
  then have "\<not> uint w \<le> - 1" by linarith
  then show ?thesis
    using r3 bk 4
    by (simp add: ecx_srconfirm_def 1 2 3 ecx_waitinframe_red_def wait_both_def and_not_expired_def
        do_while.simps [of _ "(_, _, _ :: 'a wire ecx_portt)"] do_while.simps [of _ "(_ :: int, _ :: 'a wire ecx_portt)"])
      (simp add: p3_def p2_def p g_def)
qed

text \<open>
  A primitive on a port at rest: it returns the working counter of the slave, a read also the bytes
  the slave put into the datagram, and the port is at rest again two clock readings later.
\<close>

lemma getindex_quiet:
  assumes "quiet p"
  obtains idx where "idx < EC_MAXBUF"
    "ecx_getindex p = Some (idx, p\<lparr>rxbufstat := (rxbufstat p)(idx := EC_BUF_ALLOC), lastidx := of_nat idx\<rparr>)"
proof -
  define i where "i = find_index (rxbufstat p) (if unat (lastidx p + 1) \<ge> EC_MAXBUF then 0 else unat (lastidx p + 1)) 0"
  have "i < EC_MAXBUF" unfolding i_def by (rule find_index_lt) simp
  then show thesis
    using assms by (intro that [of i]) (simp_all add: ecx_getindex_def ecx_setbufstat_def quiet_def i_def Let_def)
qed

lemma exchange_answered:
  assumes q: "quiet p" and l: "28 + unat len \<le> EC_BUFSIZE"
    and r: "\<And>i. react (tx_dgram com i ADP ADO len data) (w_slave (os p)) = ((bs, w), s)" "length bs = unat len"
  shows "\<exists>idx p1 p2 p3 p4. ecx_getindex p = Some (idx, p1) \<and> setup_tx com idx ADP ADO len data p1 = Some p2 \<and>
    ecx_srconfirm (wire_os react) idx timeout p2 = Some (int (unat w), p3) \<and>
    ecx_setbufstat idx EC_BUF_EMPTY p3 = Some p4 \<and> after p 2 s p4 \<and>
    (\<forall>b. memcpy b 0 (rxbuf p3 idx) EC_HEADERSIZE (unat len) = memcpy b 0 (buf_of bs) 0 (unat len))"
proof -
  obtain idx where i: "idx < EC_MAXBUF"
    "ecx_getindex p = Some (idx, p\<lparr>rxbufstat := (rxbufstat p)(idx := EC_BUF_ALLOC), lastidx := of_nat idx\<rparr>)"
    using getindex_quiet [OF q] .
  define p1 where "p1 = p\<lparr>rxbufstat := (rxbufstat p)(idx := EC_BUF_ALLOC), lastidx := of_nat idx\<rparr>"
  obtain f where f: "ecx_setupdatagram p1 (txbuf p1 idx) com idx ADP ADO len data =
      Some (f, p1\<lparr>txbuflength := (txbuflength p1)(idx := 28 + unat len)\<rparr>)"
    "carries f 16 [(tx_dgram com idx ADP ADO len data, False)]"
    "rd16 f ETH_HEADERSIZE = EC_ECATTYPE + 12 + len" "\<forall>i < ETH_HEADERSIZE. f i = txbuf p1 idx i"
    using setupdatagram_frame [OF i(1) l] by blast
  define p2 where "p2 = p1\<lparr>txbuflength := (txbuflength p1)(idx := 28 + unat len), txbuf := (txbuf p1)(idx := f)\<rparr>"
  have 2: "setup_tx com idx ADP ADO len data p1 = Some p2"
    by (simp add: setup_tx_def f(1) p2_def)
  have "rd16 f 12 = rd16 (txbuf p1 idx) 12" by (rule get_le_cong) (use f(4) in simp)
  then have h: "rd16 f 12 = htons ETH_P_ECAT" using q i(1) by (simp add: quiet_def p1_def)
  have pre: "redstate p2 = ECT_RED_NONE" "w_flight (os p2) = []" "txbuf p2 idx = f" "txbuflength p2 idx = 28 + unat len"
    "os p2 = os p" "\<And>j. j < EC_MAXBUF \<Longrightarrow> rd16 (txbuf p2 j) 12 = htons ETH_P_ECAT"
    using q h by (auto simp: p2_def p1_def quiet_def)
  from srconfirm_answered [where p = p2 and idx = idx and com = com and ADP = ADP and ADO = ADO and len = len and data = data
      and react = react and bs = bs and w = w and s = s and timeout = timeout] obtain p3 where
    3: "ecx_srconfirm (wire_os react) idx timeout p2 = Some (int (unat w), p3)"
    "redstate p3 = ECT_RED_NONE" "w_flight (os p3) = []" "w_slave (os p3) = s" "w_time (os p3) = w_time (os p) + 2"
    "lastidx p3 = lastidx p2" "rxbufstat p3 = (rxbufstat p2)(idx := EC_BUF_COMPLETE)"
    "\<And>i. rd16 (txbuf p3 i) 12 = rd16 (txbuf p2 i) 12" "\<And>k. k < unat len \<Longrightarrow> rxbuf p3 idx (12 + k) = bs ! k"
    using pre f(2,3) h i(1) l r by auto
  define p4 where "p4 = p3\<lparr>rxbufstat := (rxbufstat p3)(idx := EC_BUF_EMPTY)\<rparr>"
  have 4: "ecx_setbufstat idx EC_BUF_EMPTY p3 = Some p4"
    using i(1) 3(2) by (simp add: ecx_setbufstat_def p4_def)
  have "after p 2 s p4"
    using q i(1) 3(2-8) pre(6)
    by (simp add: after_def quiet_def p4_def p2_def p1_def unat_of_nat_u8)
  moreover have "memcpy b 0 (rxbuf p3 idx) EC_HEADERSIZE (unat len) = memcpy b 0 (buf_of bs) 0 (unat len)" for b
    using 3(9) r(2) by (auto simp: memcpy_def buf_of_def)
  ultimately show ?thesis using i(2) 2 3(1) 4 unfolding p1_def by blast
qed

lemma read_answered:
  assumes "quiet p" "28 + unat len \<le> EC_BUFSIZE"
    and "\<And>i. react (tx_dgram com i ADP ADO len data) (w_slave (os p)) = ((bs, w), s)" "length bs = unat len"
  shows "\<exists>p'. read_primitive com (wire_os react) ADP ADO len data timeout p =
      Some (int (unat w), if w \<noteq> 0 then memcpy data 0 (buf_of bs) 0 (unat len) else data, p') \<and> after p 2 s p'"
proof -
  from exchange_answered [where com = com and ADP = ADP and ADO = ADO and data = data and react = react and timeout = timeout, OF assms] obtain idx p1 p2 p3 p4 where
    e: "ecx_getindex p = Some (idx, p1)" "setup_tx com idx ADP ADO len data p1 = Some p2"
    "ecx_srconfirm (wire_os react) idx timeout p2 = Some (int (unat w), p3)"
    "ecx_setbufstat idx EC_BUF_EMPTY p3 = Some p4" "after p 2 s p4"
    "\<And>b. memcpy b 0 (rxbuf p3 idx) EC_HEADERSIZE (unat len) = memcpy b 0 (buf_of bs) 0 (unat len)" by blast
  have "0 < uint w \<longleftrightarrow> w \<noteq> 0" using word_neq_0_conv [of w] by (simp add: word_less_def)
  then show ?thesis using e by (simp add: read_primitive_def Let_def)
qed

lemma write_answered:
  assumes "quiet p" "28 + unat len \<le> EC_BUFSIZE"
    and "\<And>i. react (tx_dgram com i ADP ADO len data) (w_slave (os p)) = ((bs, w), s)" "length bs = unat len"
  shows "\<exists>p'. write_primitive com (wire_os react) ADP ADO len data timeout p = Some (int (unat w), p') \<and> after p 2 s p'"
  using exchange_answered [where com = com and ADP = ADP and ADO = ADO and data = data and react = react and timeout = timeout, OF assms]
  by (auto simp: write_primitive_def)

text \<open>The read data as an integer.\<close>

lemma get_le_answer:
  "n \<le> m \<Longrightarrow> get_le n (buf_of (bytes_of c off m)) 0 = get_le n c off"
  by (rule get_le_shift) (simp add: buf_of_def)

section \<open>A slave with an EEPROM\<close>

text \<open>
  The EEPROM interface of a slave: its station address, the image, whether the interface delivers
  eight bytes at once, how many status reads a command keeps it busy, and how many times it misses
  a command or a read of the data before it takes it (\<open>ee_late\<close>); then its state: the status reads
  still to be answered busy, the error flag, the selected word address, the commands it will still
  refuse, and the accesses missed so far.
\<close>

record ee_slave =
  ee_station :: u16
  ee_image :: buf
  ee_r64 :: bool
  ee_delay :: nat
  ee_late :: nat
  ee_busy :: nat
  ee_nack :: bool
  ee_select :: u16
  ee_refuse :: nat
  ee_missed :: nat

definition ee_status :: "ee_slave \<Rightarrow> u16" where
  "ee_status s = (if 0 < ee_busy s then EC_ESTAT_BUSY else 0) OR (if ee_r64 s then EC_ESTAT_R64 else 0) OR
     (if ee_nack s then EC_ESTAT_NACK else 0)"

text \<open>A read command selects the address or is refused; any other command clears the error flag.\<close>

definition ee_command :: "buf \<Rightarrow> ee_slave \<Rightarrow> ee_slave" where
  "ee_command b s =
     (if rd16 b 0 = EC_ECMD_READ
      then if 0 < ee_refuse s
           then s\<lparr>ee_nack := True, ee_refuse := ee_refuse s - 1, ee_busy := ee_delay s\<rparr>
           else s\<lparr>ee_nack := False, ee_select := rd16 b 2, ee_busy := ee_delay s\<rparr>
      else s\<lparr>ee_nack := False\<rparr>)"

definition ee_react :: "ee_slave react" where
  "ee_react d s = (let
      n = length (d_data d);
      status = d_cmd d = EC_CMD_FPRD \<and> d_ado d = ECT_REG_EEPSTAT;
      fetch = d_cmd d = EC_CMD_FPRD \<and> d_ado d = ECT_REG_EEPDAT;
      command = d_cmd d = EC_CMD_FPWR \<and> d_ado d = ECT_REG_EEPCTL;
      late = fetch \<or> command \<and> rd16 (buf_of (d_data d)) 0 = EC_ECMD_READ
     in if d_adp d \<noteq> ee_station s \<or> \<not> (status \<or> fetch \<or> command) then ((d_data d, 0), s)
        else if late \<and> ee_missed s < ee_late s then ((d_data d, 0), s\<lparr>ee_missed := ee_missed s + 1\<rparr>)
        else if status then ((bytes_of (var16 (ee_status s)) 0 n, 1), s\<lparr>ee_busy := ee_busy s - 1\<rparr>)
        else if fetch then ((bytes_of (ee_image s) (2 * unat (ee_select s)) n, 1), s\<lparr>ee_missed := 0\<rparr>)
        else ((d_data d, 1), (ee_command (buf_of (d_data d)) s)\<lparr>ee_missed := if late then 0 else ee_missed s\<rparr>))"

abbreviation ee_os :: "ee_slave wire os_ops" where "ee_os \<equiv> wire_os ee_react"

lemma ee_status_bits [simp]:
  "ee_status s AND EC_ESTAT_BUSY = 0 \<longleftrightarrow> ee_busy s = 0"
  "ee_status s AND EC_ESTAT_R64 = 0 \<longleftrightarrow> \<not> ee_r64 s"
  "ee_status s AND EC_ESTAT_NACK = 0 \<longleftrightarrow> \<not> ee_nack s"
  "ee_status s AND EC_ESTAT_EMASK = 0 \<longleftrightarrow> \<not> ee_nack s"
  by (simp_all add: ee_status_def)

text \<open>The accesses \<open>ecx_readeepromFP\<close> makes.\<close>

lemmas ee_read = read_answered [where react = ee_react and com = EC_CMD_FPRD, folded ecx_FPRD_def]
  and ee_write = write_answered [where react = ee_react and com = EC_CMD_FPWR, folded ecx_FPWR_def]

lemma status_read:
  assumes "quiet p" "w_slave (os p) = s"
  shows "\<exists>b p'. ecx_FPRD ee_os (ee_station s) ECT_REG_EEPSTAT 2 (var16 0) timeout p = Some (1, b, p') \<and>
    rd16 b 0 = ee_status s \<and> after p 2 (s\<lparr>ee_busy := ee_busy s - 1\<rparr>) p'"
proof -
  have "ee_react (tx_dgram EC_CMD_FPRD i (ee_station s) ECT_REG_EEPSTAT 2 (var16 0)) (w_slave (os p)) =
      ((bytes_of (var16 (ee_status s)) 0 2, 1), s\<lparr>ee_busy := ee_busy s - 1\<rparr>)" for i
    by (simp add: ee_react_def tx_dgram_def assms(2) Let_def)
  from ee_read [where len = 2, OF assms(1) _ this, of timeout] show ?thesis
    by (auto simp: get_le_answer)
qed

text \<open>One data read: missed, or answered with the image at the selected address.\<close>

lemma data_read:
  assumes "quiet p" "w_slave (os p) = s" "28 + unat len \<le> EC_BUFSIZE"
  shows "ee_missed s < ee_late s \<Longrightarrow>
      \<exists>p'. ecx_FPRD ee_os (ee_station s) ECT_REG_EEPDAT len b timeout p = Some (0, b, p') \<and>
        after p 2 (s\<lparr>ee_missed := ee_missed s + 1\<rparr>) p'"
    and "\<not> ee_missed s < ee_late s \<Longrightarrow>
      \<exists>p'. ecx_FPRD ee_os (ee_station s) ECT_REG_EEPDAT len b timeout p =
        Some (1, memcpy b 0 (buf_of (bytes_of (ee_image s) (2 * unat (ee_select s)) (unat len))) 0 (unat len), p') \<and>
        after p 2 (s\<lparr>ee_missed := 0\<rparr>) p'"
proof -
  assume "ee_missed s < ee_late s"
  then have "ee_react (tx_dgram EC_CMD_FPRD i (ee_station s) ECT_REG_EEPDAT len b) (w_slave (os p)) =
      ((replicate (unat len) 0, 0), s\<lparr>ee_missed := ee_missed s + 1\<rparr>)" for i
    by (simp add: ee_react_def tx_dgram_def tx_payload_def assms(2) Let_def)
  from ee_read [OF assms(1,3) this, of timeout]
  show "\<exists>p'. ecx_FPRD ee_os (ee_station s) ECT_REG_EEPDAT len b timeout p = Some (0, b, p') \<and>
        after p 2 (s\<lparr>ee_missed := ee_missed s + 1\<rparr>) p'" by simp
next
  assume "\<not> ee_missed s < ee_late s"
  then have "ee_react (tx_dgram EC_CMD_FPRD i (ee_station s) ECT_REG_EEPDAT len b) (w_slave (os p)) =
      ((bytes_of (ee_image s) (2 * unat (ee_select s)) (unat len), 1), s\<lparr>ee_missed := 0\<rparr>)" for i
    by (simp add: ee_react_def tx_dgram_def assms(2) Let_def)
  from ee_read [OF assms(1,3) this, of timeout]
  show "\<exists>p'. ecx_FPRD ee_os (ee_station s) ECT_REG_EEPDAT len b timeout p =
        Some (1, memcpy b 0 (buf_of (bytes_of (ee_image s) (2 * unat (ee_select s)) (unat len))) 0 (unat len), p') \<and>
        after p 2 (s\<lparr>ee_missed := 0\<rparr>) p'" by simp
qed

text \<open>A read command, and the command that clears the error flag.\<close>

lemma command_payload:
  "tx_payload EC_CMD_FPWR 6 (ec_eepromt c a) = bytes_of (ec_eepromt c a) 0 6"
  "rd16 (buf_of (bytes_of (ec_eepromt c a) 0 6)) 0 = c" "rd16 (buf_of (bytes_of (ec_eepromt c a) 0 6)) 2 = a"
proof -
  have "rd16 (buf_of (bytes_of (ec_eepromt c a) 0 6)) j = rd16 (ec_eepromt c a) j" if "j + 2 \<le> 6" for j
    by (rule get_le_cong) (use that in \<open>simp add: buf_of_def\<close>)
  then show "rd16 (buf_of (bytes_of (ec_eepromt c a) 0 6)) 0 = c" "rd16 (buf_of (bytes_of (ec_eepromt c a) 0 6)) 2 = a"
    by (simp_all add: ec_eepromt_def)
qed (simp add: tx_payload_def)

lemma read_command:
  assumes "quiet p" "w_slave (os p) = s"
  shows "ee_missed s < ee_late s \<Longrightarrow>
      \<exists>p'. ecx_FPWR ee_os (ee_station s) ECT_REG_EEPCTL 6 (ec_eepromt EC_ECMD_READ a) timeout p = Some (0, p') \<and>
        after p 2 (s\<lparr>ee_missed := ee_missed s + 1\<rparr>) p'"
    and "\<not> ee_missed s < ee_late s \<Longrightarrow>
      \<exists>p'. ecx_FPWR ee_os (ee_station s) ECT_REG_EEPCTL 6 (ec_eepromt EC_ECMD_READ a) timeout p = Some (1, p') \<and>
        after p 2 ((if 0 < ee_refuse s then s\<lparr>ee_nack := True, ee_refuse := ee_refuse s - 1\<rparr>
          else s\<lparr>ee_nack := False, ee_select := a\<rparr>)\<lparr>ee_busy := ee_delay s, ee_missed := 0\<rparr>) p'"
proof -
  assume "ee_missed s < ee_late s"
  then have "ee_react (tx_dgram EC_CMD_FPWR i (ee_station s) ECT_REG_EEPCTL 6 (ec_eepromt EC_ECMD_READ a)) (w_slave (os p)) =
      ((bytes_of (ec_eepromt EC_ECMD_READ a) 0 6, 0), s\<lparr>ee_missed := ee_missed s + 1\<rparr>)" for i
    by (simp add: ee_react_def tx_dgram_def command_payload assms(2) Let_def)
  from ee_write [where len = 6, OF assms(1) _ this, of timeout]
  show "\<exists>p'. ecx_FPWR ee_os (ee_station s) ECT_REG_EEPCTL 6 (ec_eepromt EC_ECMD_READ a) timeout p = Some (0, p') \<and>
        after p 2 (s\<lparr>ee_missed := ee_missed s + 1\<rparr>) p'" by simp
next
  let ?s = "(if 0 < ee_refuse s then s\<lparr>ee_nack := True, ee_refuse := ee_refuse s - 1\<rparr>
          else s\<lparr>ee_nack := False, ee_select := a\<rparr>)\<lparr>ee_busy := ee_delay s, ee_missed := 0\<rparr>"
  assume "\<not> ee_missed s < ee_late s"
  then have "ee_react (tx_dgram EC_CMD_FPWR i (ee_station s) ECT_REG_EEPCTL 6 (ec_eepromt EC_ECMD_READ a)) (w_slave (os p)) =
      ((bytes_of (ec_eepromt EC_ECMD_READ a) 0 6, 1), ?s)" for i
    by (simp add: ee_react_def ee_command_def tx_dgram_def command_payload assms(2) Let_def)
  from ee_write [where len = 6, OF assms(1) _ this, of timeout]
  show "\<exists>p'. ecx_FPWR ee_os (ee_station s) ECT_REG_EEPCTL 6 (ec_eepromt EC_ECMD_READ a) timeout p = Some (1, p') \<and>
        after p 2 ?s p'" by simp
qed

lemma clear_command:
  assumes "quiet p" "w_slave (os p) = s"
  shows "\<exists>p'. ecx_FPWR ee_os (ee_station s) ECT_REG_EEPCTL 2 (var16 EC_ECMD_NOP) timeout p = Some (1, p') \<and>
    after p 2 (s\<lparr>ee_nack := False\<rparr>) p'"
proof -
  have "rd16 (buf_of (bytes_of (var16 0) 0 2)) 0 = rd16 (var16 0) 0"
    by (rule get_le_cong) (simp add: buf_of_def)
  then have "ee_react (tx_dgram EC_CMD_FPWR i (ee_station s) ECT_REG_EEPCTL 2 (var16 EC_ECMD_NOP)) (w_slave (os p)) =
      ((bytes_of (var16 0) 0 2, 1), s\<lparr>ee_nack := False\<rparr>)" for i
    by (simp add: ee_react_def ee_command_def tx_dgram_def tx_payload_def assms(2) Let_def)
  from ee_write [where len = 2, OF assms(1) _ this, of timeout] show ?thesis by simp
qed

section \<open>Reading the EEPROM\<close>

text \<open>
  A request that is missed \<open>m\<close> times is answered by the \<open>EC_DEFAULTRETRIES\<close> repetitions of \<open>retry\<close>.
  \<open>R k\<close> describes the state after \<open>k\<close> misses.
\<close>

lemma retry_missed:
  assumes miss: "\<And>k x. k < m \<Longrightarrow> R k x \<Longrightarrow> \<exists>x'. f x = Some (0, x') \<and> R (Suc k) x'"
    and hit: "\<And>x. R m x \<Longrightarrow> \<exists>x'. f x = Some (1, x') \<and> Q x'"
    and "m \<le> 3" "R 0 x"
  shows "\<exists>x'. retry f x = Some (1, x') \<and> Q x'"
proof -
  define body where "body = (\<lambda>(cnt :: int, wkc :: int, s). do {
     (wkc, s) \<leftarrow> f s;
     Some ((cnt + 1, wkc, s), wkc \<le> 0 \<and> cnt < EC_DEFAULTRETRIES) })"
  have "\<exists>c x'. do_while body (int k, w, x) = Some (c, 1, x') \<and> Q x'" if "R k x" "k \<le> m" for k w x
    using that
  proof (induction "m - k" arbitrary: k w x)
    case 0
    then have "R m x" by simp
    from hit [OF this] obtain y where y: "f x = Some (1, y)" "Q y" by blast
    then have "do_while body (int k, w, x) = Some (int k + 1, 1, y)"
      by (subst do_while.simps) (simp add: body_def)
    with y(2) show ?case by blast
  next
    case (Suc j)
    then have k: "k < m" by simp
    from miss [OF k Suc.prems(1)] obtain y where y: "f x = Some (0, y)" "R (Suc k) y" by blast
    from Suc.hyps(1) [of "Suc k" y 0] Suc.hyps(2) y(2) k
    have "\<exists>c x'. do_while body (int k + 1, 0, y) = Some (c, 1, x') \<and> Q x'" by (simp add: add.commute)
    moreover have "int k < EC_DEFAULTRETRIES" using k assms(3) by simp
    then have "do_while body (int k, w, x) = do_while body (int k + 1, 0, y)"
      using y(1) by (subst do_while.simps) (simp add: body_def)
    ultimately show ?case by simp
  qed
  from this [OF assms(4), of 0] show ?thesis unfolding retry_def body_def by auto
qed

text \<open>
  Waiting until the EEPROM is ready: every status read answered busy costs at most the 200
  microseconds of the pause and three clock readings.
\<close>

lemma wire_timer:
  assumes "osal_timer_start (wire_os react) timeout e = (t, e1)" "0 \<le> timeout" "timeout < 2147483648"
    and "w_time e < 4000000000000000"
    and "osal_timer_is_expired (wire_os react) t e2 = (x, e3)"
  shows "x \<longleftrightarrow> w_time e + 1 + nat timeout \<le> w_time e2 + 1"
proof -
  have e1: "e1 = e\<lparr>w_time := Suc (w_time e)\<rparr>" using wire_timer_start [of react timeout e] assms(1) by simp
  have e3: "e3 = e2\<lparr>w_time := Suc (w_time e2)\<rparr>" using wire_expired [of react t e2] assms(5) by simp
  have n: "nat timeout < 2147483648" using assms(3) by simp
  have "x \<longleftrightarrow> wire_now e1 div 1000 + nat timeout \<le> wire_now e3 div 1000"
    by (rule osal_timer_expires_exactly [OF good_wire_os assms(1,2) _ _ assms(5)])
      (use assms(3,4) n in \<open>simp_all add: e1\<close>)
  then show ?thesis by (simp add: e1 e3)
qed

lemma wait_ready:
  assumes p: "quiet p" "w_slave (os p) = s" "w_time (os p) < 4000000000000000"
    and t: "203 * int (ee_busy s) < timeout" "timeout < 2147483648"
  shows "\<exists>p'. eeprom_waitnotbusy (ecx_FPRD ee_os (ee_station s)) ee_os timeout p =
      Some (True, ee_status (s\<lparr>ee_busy := 0\<rparr>), p') \<and> after p (203 + 203 * ee_busy s) (s\<lparr>ee_busy := 0\<rparr>) p'"
proof -
  let ?T = "Suc (w_time (os p))" and ?B = "ee_busy s"
  define p1 where "p1 = p\<lparr>os := (os p)\<lparr>w_time := ?T\<rparr>\<rparr>"
  obtain timer where start: "port_timer_start ee_os timeout p = (timer, p1)"
    using wire_port_timer_start [of ee_react timeout p] unfolding p1_def by blast
  then have st: "osal_timer_start ee_os timeout (os p) = (timer, os p1)"
    by (auto simp: port_timer_start_def split_beta)
  define body where "body = (\<lambda>(cnt :: nat, wkc :: int, estat :: u16) p. do {
        let p = (if cnt \<noteq> 0 then port_usleep ee_os EC_LOCALDELAY p else p);
        (wkc, b, p) \<leftarrow> ecx_FPRD ee_os (ee_station s) ECT_REG_EEPSTAT 2 (var16 0) EC_TIMEOUTRET p;
        let estat = rd16 b 0;
        Some (wkc \<le> 0 \<or> estat AND EC_ESTAT_BUSY \<noteq> 0, (cnt + 1, wkc, estat), p) })"
  have one: "\<exists>q'. body (c, w, e) q = Some (0 < ee_busy r, (c + 1, 1, ee_status r), q') \<and>
      after q 202 (r\<lparr>ee_busy := ee_busy r - 1\<rparr>) q'"
    if q: "quiet q" "w_slave (os q) = r" "ee_station r = ee_station s" for c w e q r
  proof -
    let ?q = "if c \<noteq> 0 then port_usleep ee_os EC_LOCALDELAY q else q"
    have a: "after q 200 r ?q" using q(1,2) by (simp add: after_def wire_usleep)
    then have "quiet ?q" "w_slave (os ?q) = r" by (simp_all only: after_def)
    from status_read [OF this, of EC_TIMEOUTRET] obtain b q' where
      "ecx_FPRD ee_os (ee_station s) ECT_REG_EEPSTAT 2 (var16 0) EC_TIMEOUTRET ?q = Some (1, b, q')"
      "rd16 b 0 = ee_status r" "after ?q 2 (r\<lparr>ee_busy := ee_busy r - 1\<rparr>) q'" using q(3) by auto
    with after_trans [OF a this(3)] show ?thesis by (simp add: body_def Let_def)
  qed
  have loop: "\<exists>c q'. poll ee_os timer body (c0, w, e) q = Some ((c, 1, ee_status (s\<lparr>ee_busy := 0\<rparr>)), q') \<and>
      quiet q' \<and> w_slave (os q') = s\<lparr>ee_busy := 0\<rparr> \<and> w_time (os q') \<le> ?T + 203 * ?B + 202"
    if "quiet q" "w_slave (os q) = s\<lparr>ee_busy := b\<rparr>" "w_time (os q) + 203 * b \<le> ?T + 203 * ?B" for b c0 w e q
    using that
  proof (induction b arbitrary: c0 w e q)
    case 0
    from one [OF 0(1,2)] obtain q' where "body (c0, w, e) q = Some (False, (c0 + 1, 1, ee_status (s\<lparr>ee_busy := 0\<rparr>)), q')"
      "after q 202 (s\<lparr>ee_busy := 0\<rparr>) q'" by fastforce
    then show ?case
      using 0(3) by (simp add: poll_def do_while.simps [of _ "(_, q)"] and_not_expired_def after_def)
  next
    case (Suc b)
    from one [OF Suc.prems(1,2)] obtain q1 where
      q1: "body (c0, w, e) q = Some (True, (c0 + 1, 1, ee_status (s\<lparr>ee_busy := Suc b\<rparr>)), q1)"
      "after q 202 (s\<lparr>ee_busy := b\<rparr>) q1" by fastforce
    obtain x e2 where x: "osal_timer_is_expired ee_os timer (os q1) = (x, e2)" by fastforce
    have e2: "e2 = (os q1)\<lparr>w_time := Suc (w_time (os q1))\<rparr>"
      using wire_expired [of ee_react timer "os q1"] x by simp
    have time: "w_time (os q1) + 1 + 203 * b \<le> ?T + 203 * ?B"
      using q1(2) Suc.prems(3) by (simp add: after_def)
    have "0 \<le> timeout" "203 * ?B < nat timeout" using t(1) by simp_all
    then have "\<not> x"
      using wire_timer [OF st _ t(2) p(3) x] time by simp
    define q2 where "q2 = q1\<lparr>os := e2\<rparr>"
    have "quiet q2" "w_slave (os q2) = s\<lparr>ee_busy := b\<rparr>" "w_time (os q2) + 203 * b \<le> ?T + 203 * ?B"
      using q1(2) time by (simp_all add: q2_def e2 after_def)
    from Suc.IH [OF this, of "c0 + 1" 1 "ee_status (s\<lparr>ee_busy := Suc b\<rparr>)"] q1(1) x \<open>\<not> x\<close> show ?case
      by (simp add: poll_def do_while.simps [of _ "(_, q)"] and_not_expired_def q2_def)
  qed
  have "quiet p1" "w_slave (os p1) = s\<lparr>ee_busy := ?B\<rparr>" "w_time (os p1) + 203 * ?B \<le> ?T + 203 * ?B"
    using p(1,2) by (simp_all add: p1_def)
  from loop [OF this, of 0 0 0] obtain c q' where
    "poll ee_os timer body (0, 0, 0) p1 = Some ((c, 1, ee_status (s\<lparr>ee_busy := 0\<rparr>)), q')"
    "after p (203 + 203 * ?B) (s\<lparr>ee_busy := 0\<rparr>) q'" by (auto simp: after_def)
  then show ?thesis
    by (simp add: eeprom_waitnotbusy_def start body_def)
qed

lemma ee_missed_zero: "ee_missed s = 0 \<Longrightarrow> s\<lparr>ee_missed := 0\<rparr> = s"
  by (cases s) simp

text \<open>A missed command or data read is repeated until the slave takes it.\<close>

lemma command_taken:
  assumes p: "quiet p" "w_slave (os p) = s" "ee_missed s = 0" "ee_late s \<le> 3"
  shows "\<exists>p'. retry (ecx_FPWR ee_os (ee_station s) ECT_REG_EEPCTL 6 (ec_eepromt EC_ECMD_READ a) timeout) p =
    Some (1, p') \<and> after p 8 ((if 0 < ee_refuse s then s\<lparr>ee_nack := True, ee_refuse := ee_refuse s - 1\<rparr>
      else s\<lparr>ee_nack := False, ee_select := a\<rparr>)\<lparr>ee_busy := ee_delay s, ee_missed := 0\<rparr>) p'" (is "\<exists>p'. _ \<and> after p 8 ?s p'")
proof (rule retry_missed [where m = "ee_late s" and R = "\<lambda>k. after p (2 * k) (s\<lparr>ee_missed := k\<rparr>)"])
  show "after p (2 * 0) (s\<lparr>ee_missed := 0\<rparr>) p" using p by (simp add: after_def)
next
  fix k q assume k: "k < ee_late s" and q: "after p (2 * k) (s\<lparr>ee_missed := k\<rparr>) q"
  then have "quiet q" "w_slave (os q) = s\<lparr>ee_missed := k\<rparr>" by (simp_all add: after_def)
  from read_command(1) [OF this, of a timeout] k obtain q' where
    "ecx_FPWR ee_os (ee_station s) ECT_REG_EEPCTL 6 (ec_eepromt EC_ECMD_READ a) timeout q = Some (0, q')"
    "after q 2 (s\<lparr>ee_missed := Suc k\<rparr>) q'" by auto
  with after_trans [OF q this(2)] show "\<exists>q'. ecx_FPWR ee_os (ee_station s) ECT_REG_EEPCTL 6 (ec_eepromt EC_ECMD_READ a)
      timeout q = Some (0, q') \<and> after p (2 * Suc k) (s\<lparr>ee_missed := Suc k\<rparr>) q'" by (auto simp: add.commute)
next
  fix q assume q: "after p (2 * ee_late s) (s\<lparr>ee_missed := ee_late s\<rparr>) q"
  then have "quiet q" "w_slave (os q) = s\<lparr>ee_missed := ee_late s\<rparr>" by (simp_all add: after_def)
  from read_command(2) [OF this, of a timeout] obtain q' where
    "ecx_FPWR ee_os (ee_station s) ECT_REG_EEPCTL 6 (ec_eepromt EC_ECMD_READ a) timeout q = Some (1, q')"
    "after q 2 ?s q'" by (auto split: if_splits)
  with after_mono [OF after_trans [OF q this(2)], of 8] p(4)
  show "\<exists>q'. ecx_FPWR ee_os (ee_station s) ECT_REG_EEPCTL 6 (ec_eepromt EC_ECMD_READ a) timeout q = Some (1, q') \<and>
      after p 8 ?s q'" by auto
qed (use p in simp)

lemma data_taken:
  assumes p: "quiet p" "w_slave (os p) = s" "ee_missed s = 0" "ee_late s \<le> 3" and l: "28 + unat len \<le> EC_BUFSIZE"
  shows "\<exists>p'. retry (\<lambda>(b, p). ecx_FPRD ee_os (ee_station s) ECT_REG_EEPDAT len b timeout p) (b, p) =
    Some (1, memcpy b 0 (buf_of (bytes_of (ee_image s) (2 * unat (ee_select s)) (unat len))) 0 (unat len), p') \<and>
    after p 8 s p'" (is "\<exists>p'. _ = Some (1, ?b, p') \<and> _")
proof -
  let ?f = "\<lambda>(b, p). ecx_FPRD ee_os (ee_station s) ECT_REG_EEPDAT len b timeout p"
  have "\<exists>y. retry ?f (b, p) = Some (1, y) \<and> fst y = ?b \<and> after p 8 s (snd y)"
  proof (rule retry_missed [where m = "ee_late s" and
      R = "\<lambda>k (c, q). c = b \<and> after p (2 * k) (s\<lparr>ee_missed := k\<rparr>) q"])
    show "case (b, p) of (c, q) \<Rightarrow> c = b \<and> after p (2 * 0) (s\<lparr>ee_missed := 0\<rparr>) q"
      using p by (simp add: after_def)
  next
    fix k x assume k: "k < ee_late s" and x: "case x of (c, q) \<Rightarrow> c = b \<and> after p (2 * k) (s\<lparr>ee_missed := k\<rparr>) q"
    obtain q where q: "x = (b, q)" "after p (2 * k) (s\<lparr>ee_missed := k\<rparr>) q" using x by (cases x) auto
    then have "quiet q" "w_slave (os q) = s\<lparr>ee_missed := k\<rparr>" by (simp_all add: after_def)
    from data_read(1) [OF this l, of b timeout] k obtain q' where
      "ecx_FPRD ee_os (ee_station s) ECT_REG_EEPDAT len b timeout q = Some (0, b, q')"
      "after q 2 (s\<lparr>ee_missed := Suc k\<rparr>) q'" by auto
    with after_trans [OF q(2) this(2)] show "\<exists>y. ?f x = Some (0, y) \<and>
        (case y of (c, q) \<Rightarrow> c = b \<and> after p (2 * Suc k) (s\<lparr>ee_missed := Suc k\<rparr>) q)"
      by (auto simp: q(1) add.commute)
  next
    fix x assume x: "case x of (c, q) \<Rightarrow> c = b \<and> after p (2 * ee_late s) (s\<lparr>ee_missed := ee_late s\<rparr>) q"
    obtain q where q: "x = (b, q)" "after p (2 * ee_late s) (s\<lparr>ee_missed := ee_late s\<rparr>) q" using x by (cases x) auto
    then have "quiet q" "w_slave (os q) = s\<lparr>ee_missed := ee_late s\<rparr>" by (simp_all add: after_def)
    from data_read(2) [OF this l, of b timeout] p(3) obtain q' where
      "ecx_FPRD ee_os (ee_station s) ECT_REG_EEPDAT len b timeout q = Some (1, ?b, q')"
      "after q 2 (s\<lparr>ee_missed := 0\<rparr>) q'" by auto
    with after_mono [OF after_trans [OF q(2) this(2)], of 8] p(3,4) ee_missed_zero [OF p(3)]
    show "\<exists>y. ?f x = Some (1, y) \<and> fst y = ?b \<and> after p 8 s (snd y)" by (auto simp: q(1))
  qed (use p in simp)
  then show ?thesis by auto
qed

text \<open>One attempt: refused, or answered with the image at the requested address.\<close>

definition ee_word :: "ee_slave \<Rightarrow> u16 \<Rightarrow> u64" where
  "ee_word s a = (if ee_r64 s then rd64 (ee_image s) (2 * unat a) else ucast (rd32 (ee_image s) (2 * unat a)))"

abbreviation ee_attempt :: "ee_slave \<Rightarrow> u16 \<Rightarrow> int \<Rightarrow> u64 \<times> u32 \<Rightarrow> int \<Rightarrow> ee_slave wire ecx_portt \<Rightarrow>
    ((u64 \<times> u32) \<times> int \<times> ee_slave wire ecx_portt) option" where
  "ee_attempt s a timeout \<equiv> read_attempt (ecx_FPRD ee_os (ee_station s)) (ecx_FPWR ee_os (ee_station s)) ee_os a timeout"

lemma attempt_answered:
  assumes p: "quiet p" "w_slave (os p) = s" "ee_missed s = 0" "ee_late s \<le> 3" "w_time (os p) < 3000000000000000"
    and t: "203 * int (ee_delay s) < timeout" "timeout < 2147483648"
  shows "0 < ee_refuse s \<Longrightarrow> \<exists>p'. ee_attempt s a timeout x n p = Some (x, n + 1, p') \<and>
      after p (2000 + 203 * ee_delay s) (s\<lparr>ee_nack := True, ee_refuse := ee_refuse s - 1, ee_busy := 0\<rparr>) p'"
    and "ee_refuse s = 0 \<Longrightarrow> \<exists>d p'. ee_attempt s a timeout x n p = Some ((ee_word s a, d), 0, p') \<and>
      after p (2000 + 203 * ee_delay s) (s\<lparr>ee_nack := False, ee_select := a, ee_busy := 0\<rparr>) p'"
proof -
  let ?r = "(if 0 < ee_refuse s then s\<lparr>ee_nack := True, ee_refuse := ee_refuse s - 1\<rparr>
      else s\<lparr>ee_nack := False, ee_select := a\<rparr>)\<lparr>ee_busy := ee_delay s, ee_missed := 0\<rparr>"
  obtain p1 where 1: "retry (ecx_FPWR ee_os (ee_station s) ECT_REG_EEPCTL 6 (ec_eepromt EC_ECMD_READ a) EC_TIMEOUTRET) p =
      Some (1, p1)" "after p 8 ?r p1"
    using command_taken [OF p(1-4), of a EC_TIMEOUTRET] by blast
  define p2 where "p2 = port_usleep ee_os EC_LOCALDELAY p1"
  have 2: "after p 208 ?r p2" using 1(2) by (simp add: p2_def after_def wire_usleep)
  then have p2: "quiet p2" "w_slave (os p2) = ?r" "w_time (os p2) < 4000000000000000"
    using p(5) by (simp_all add: after_def)
  have sel: "ee_station ?r = ee_station s" "ee_busy ?r = ee_delay s" by simp_all
  have "203 * int (ee_busy ?r) < timeout" using t(1) by simp
  from wait_ready [OF p2 this t(2)] obtain p3 where
    3: "eeprom_waitnotbusy (ecx_FPRD ee_os (ee_station s)) ee_os timeout p2 = Some (True, ee_status (?r\<lparr>ee_busy := 0\<rparr>), p3)"
    "after p2 (203 + 203 * ee_delay s) (?r\<lparr>ee_busy := 0\<rparr>) p3"
    unfolding sel by blast
  have z: "(r\<lparr>ee_busy := k, ee_missed := 0\<rparr>)\<lparr>ee_busy := 0\<rparr> = r\<lparr>ee_busy := 0\<rparr>" if "ee_missed r = 0" for r k
    using that by (cases r) simp
  have a3: "after p (411 + 203 * ee_delay s) (?r\<lparr>ee_busy := 0\<rparr>) p3"
    by (rule after_mono [OF after_trans [OF 2 3(2)]]) simp
  show "\<exists>p'. ee_attempt s a timeout x n p = Some (x, n + 1, p') \<and>
      after p (2000 + 203 * ee_delay s) (s\<lparr>ee_nack := True, ee_refuse := ee_refuse s - 1, ee_busy := 0\<rparr>) p'"
    if "0 < ee_refuse s"
  proof -
    have "after p (2000 + 203 * ee_delay s) (s\<lparr>ee_nack := True, ee_refuse := ee_refuse s - 1, ee_busy := 0\<rparr>)
        (port_usleep ee_os (EC_LOCALDELAY * 5) p3)"
      using a3 that p(3) z [of "s\<lparr>ee_nack := True, ee_refuse := ee_refuse s - 1\<rparr>" "ee_delay s"]
      by (simp add: after_def wire_usleep)
    then show ?thesis
      using that 1(1) 3(1) by (simp add: read_attempt_def eeprom_outcome_def p2_def [symmetric])
  qed
  show "\<exists>d p'. ee_attempt s a timeout x n p = Some ((ee_word s a, d), 0, p') \<and>
      after p (2000 + 203 * ee_delay s) (s\<lparr>ee_nack := False, ee_select := a, ee_busy := 0\<rparr>) p'"
    if "ee_refuse s = 0"
  proof -
    let ?q = "s\<lparr>ee_nack := False, ee_select := a, ee_busy := 0\<rparr>"
    have q: "quiet p3" "w_slave (os p3) = ?q" "ee_missed ?q = 0" "ee_late ?q \<le> 3"
      using a3 that p(3,4) z [of "s\<lparr>ee_nack := False, ee_select := a\<rparr>" "ee_delay s"] by (simp_all add: after_def)
    have fin: "after p (2000 + 203 * ee_delay s) ?q p'" if "after p3 8 ?q p'" for p'
      by (rule after_mono [OF after_trans [OF a3 that]]) simp
    obtain p4 where 4: "retry (\<lambda>(b, p). ecx_FPRD ee_os (ee_station s) ECT_REG_EEPDAT 8 b EC_TIMEOUTRET p) (var64 (fst x), p3) =
        Some (1, memcpy (var64 (fst x)) 0 (buf_of (bytes_of (ee_image s) (2 * unat a) 8)) 0 8, p4)" "after p3 8 ?q p4"
      using data_taken [OF q, where len = 8 and timeout = EC_TIMEOUTRET and b = "var64 (fst x)"] by auto
    obtain p5 where 5: "retry (\<lambda>(b, p). ecx_FPRD ee_os (ee_station s) ECT_REG_EEPDAT 4 b EC_TIMEOUTRET p) (var32 (snd x), p3) =
        Some (1, memcpy (var32 (snd x)) 0 (buf_of (bytes_of (ee_image s) (2 * unat a) 4)) 0 4, p5)" "after p3 8 ?q p5"
      using data_taken [OF q, where len = 4 and timeout = EC_TIMEOUTRET and b = "var32 (snd x)"] by auto
    show ?thesis
      using that 1(1) 3(1) 4 5 fin [OF 4(2)] fin [OF 5(2)]
      by (cases "ee_r64 s") (simp_all add: read_attempt_def eeprom_outcome_def p2_def [symmetric] split_beta get_le_answer ee_word_def)
  qed
qed

text \<open>The loop of attempts: \<open>n\<close> refusals are counted, the slave will refuse \<open>ee_refuse r\<close> more.\<close>

definition same_eeprom :: "ee_slave \<Rightarrow> ee_slave \<Rightarrow> bool" where
  "same_eeprom s r \<longleftrightarrow> ee_station r = ee_station s \<and> ee_image r = ee_image s \<and> ee_r64 r = ee_r64 s \<and>
     ee_delay r = ee_delay s \<and> ee_late r = ee_late s \<and> ee_missed r = 0"

lemma attempts_answered:
  assumes "quiet p" "w_slave (os p) = r" "same_eeprom s r" "n < 3"
    and "w_time (os p) + (3 - n) * 3000000000 < 3000000000000000"
    and s: "ee_late s \<le> 3" "203 * int (ee_delay s) < timeout" "timeout < 2147483648"
  shows "\<exists>d m p'. nack_loop (ee_attempt s a timeout) ((0, 0), int n, p) =
    Some ((if ee_refuse r + n \<le> 2 then ee_word s a else 0, d), m, p') \<and> quiet p'"
  using assms(1-5)
proof (induction "3 - n" arbitrary: n p r)
  case (Suc j)
  note same = Suc.prems(3) [unfolded same_eeprom_def]
  have at: "quiet p" "w_slave (os p) = r" "ee_missed r = 0" "ee_late r \<le> 3" "w_time (os p) < 3000000000000000"
    "203 * int (ee_delay r) < timeout"
    using Suc.prems same s by simp_all
  have eq: "ee_attempt r = ee_attempt s" "ee_word r b = ee_word s b" for b
    using same by (simp_all add: ee_word_def)
  have late: "2000 + 203 * ee_delay r < 3000000000" using at(6) s(3) by linarith
  show ?case
  proof (cases "ee_refuse r")
    case 0
    from attempt_answered(2) [OF at s(3) 0, of a "(0, 0)" "int n"] obtain d p' where
      "ee_attempt s a timeout (0, 0) (int n) p = Some ((ee_word s a, d), 0, p')" "quiet p'"
      unfolding eq by (auto simp: after_def)
    with nack_loop_step [where body = "ee_attempt s a timeout", OF this(1)] show ?thesis using 0 Suc.prems(4) by simp
  next
    case (Suc k)
    let ?r = "r\<lparr>ee_nack := True, ee_refuse := ee_refuse r - 1, ee_busy := 0\<rparr>"
    from attempt_answered(1) [OF at s(3), of a "(0, 0)" "int n"] Suc obtain p' where
      p': "ee_attempt s a timeout (0, 0) (int n) p = Some ((0, 0), int n + 1, p')"
      "after p (2000 + 203 * ee_delay r) ?r p'"
      unfolding eq by auto
    note step = nack_loop_step [where body = "ee_attempt s a timeout", OF p'(1)]
    show ?thesis
    proof (cases "Suc n < 3")
      case True
      have "(3 - n) * 3000000000 = (3 - Suc n) * 3000000000 + (3000000000 :: nat)"
        using True by (simp add: diff_mult_distrib)
      then have time: "w_time (os p') + (3 - Suc n) * 3000000000 < 3000000000000000"
        using p'(2) late Suc.prems(5) unfolding after_def by linarith
      have "j = 3 - Suc n" "quiet p'" "w_slave (os p') = ?r" "same_eeprom s ?r"
        using Suc.hyps(2) p'(2) Suc.prems(3) by (simp_all add: after_def same_eeprom_def)
      from Suc.hyps(1) [OF this True time] step True Suc show ?thesis by (simp add: add.commute)
    next
      case False
      then have "n = 2" using Suc.prems(4) by simp
      then show ?thesis using step Suc p'(2) by (simp add: after_def)
    qed
  qed
qed simp

text \<open>
  C38: reading a word of the EEPROM of a slave by its station address, down to the bytes of the
  frames, from a port at rest whose clock is far from the end of the 32-bit seconds. The slave may be busy at the start and after every command, it may miss every command and
  every data read up to three times, and it may start with its error flag set: as long as its busy
  times end within the timeout, the function returns the contents of its image at the requested word
  address (eight bytes if the interface delivers eight, four otherwise) when the slave refuses at
  most two read commands, and 0 when it refuses more; every frame buffer is free again.
\<close>

theorem readeeprom_image:
  assumes "quiet p" "w_slave (os p) = s" "ee_missed s = 0" "ee_late s \<le> 3"
    and "203 * int (ee_busy s) < timeout" "203 * int (ee_delay s) < timeout" "timeout < 2147483648"
    and "w_time (os p) < 1000000000000000"
  shows "\<exists>p'. ecx_readeepromFP ee_os (ee_station s) a timeout p =
    Some (if ee_refuse s \<le> 2
          then if ee_r64 s then rd64 (ee_image s) (2 * unat a) else ucast (rd32 (ee_image s) (2 * unat a))
          else 0, p') \<and> (\<forall>i < EC_MAXBUF. rxbufstat p' i = EC_BUF_EMPTY)"
proof -
  let ?s = "s\<lparr>ee_busy := 0\<rparr>" and ?c = "s\<lparr>ee_busy := 0, ee_nack := False\<rparr>"
  obtain p1 where 1: "eeprom_waitnotbusy (ecx_FPRD ee_os (ee_station s)) ee_os timeout p = Some (True, ee_status ?s, p1)"
    "after p (203 + 203 * ee_busy s) ?s p1"
    using wait_ready [OF assms(1,2) _ assms(5,7)] assms(8) by auto
  have "\<exists>p2. clear_errors (ecx_FPWR ee_os (ee_station s)) (ee_status ?s) p1 = Some p2 \<and> after p1 2 ?c p2"
  proof (cases "ee_nack s")
    case True
    have "quiet p1" "w_slave (os p1) = ?s" using 1(2) by (simp_all add: after_def)
    from clear_command [OF this, of EC_TIMEOUTRET3] True show ?thesis by (auto simp: clear_errors_def)
  next
    case False
    then have "?s = ?c" by (cases s) simp
    with False 1(2) show ?thesis by (simp add: clear_errors_def after_def)
  qed
  then obtain p2 where 2: "clear_errors (ecx_FPWR ee_os (ee_station s)) (ee_status ?s) p1 = Some p2"
    "after p (205 + 203 * ee_busy s) ?c p2"
    using after_mono [OF after_trans [OF 1(2)], of 2 ?c _ "205 + 203 * ee_busy s"] by auto
  have "203 * ee_busy s < 2147483648" using assms(5,7) by linarith
  then have "quiet p2" "w_slave (os p2) = ?c" "same_eeprom s ?c" "(0 :: nat) < 3"
    "w_time (os p2) + (3 - 0) * 3000000000 < 3000000000000000"
    using 2(2) assms(3,8) by (simp_all add: after_def same_eeprom_def)
  from attempts_answered [OF this assms(4,6,7), of a] obtain d m p' where
    "nack_loop (ee_attempt s a timeout) ((0, 0), 0, p2) = Some ((if ee_refuse s \<le> 2 then ee_word s a else 0, d), m, p')"
    "quiet p'" by auto
  then show ?thesis
    using 1(1) 2(1) by (simp add: ecx_readeepromFP_def readeeprom_def ee_word_def quiet_def)
qed

section \<open>Examples\<close>

text \<open>A port at rest on a wire, and a slave with all the difficulties at once.\<close>

definition wire_port :: "'s \<Rightarrow> 's wire ecx_portt" where
  "wire_port s = \<lparr>sockhandle = 3, rxbuf = (\<lambda>_. zero_buf), rxbufstat = (\<lambda>_. EC_BUF_EMPTY), rxsa = (\<lambda>_. 0),
     tempinbuf = zero_buf, tempinbufs = 0, txbuf = (\<lambda>_. ec_setupheader zero_buf), txbuflength = (\<lambda>_. 30),
     txbuf2 = ec_setupheader zero_buf, txbuflength2 = 28, lastidx = 0, redstate = ECT_RED_NONE,
     redport = None, os = \<lparr>w_time = 7, w_flight = [], w_slave = s\<rparr>\<rparr>"

definition slow_slave :: ee_slave where
  "slow_slave = \<lparr>ee_station = 0x1001, ee_image = (\<lambda>i. of_nat i), ee_r64 = True, ee_delay = 4, ee_late = 3,
     ee_busy = 2, ee_nack = True, ee_select = 0, ee_refuse = 2, ee_missed = 0\<rparr>"

lemma quiet_wire_port: "quiet (wire_port s)" "w_slave (os (wire_port s)) = s" "w_time (os (wire_port s)) = 7"
  by (simp_all add: quiet_def wire_port_def ec_setupheader_def)

theorem readeeprom_image_witness:
  "\<exists>p'. ecx_readeepromFP ee_os 0x1001 8 20000 (wire_port slow_slave) = Some (0x1716151413121110, p') \<and>
     rxbufstat p' 1 = EC_BUF_EMPTY"
proof -
  have "rd64 (\<lambda>i. of_nat i) 16 = (0x1716151413121110 :: u64)"
    by (simp add: get_le_numeral)
  then show ?thesis
    using readeeprom_image [OF quiet_wire_port(1,2), where s = slow_slave and a = 8 and timeout = 20000]
    by (auto simp: slow_slave_def quiet_wire_port(3))
qed

end
