(* ===== verification/Spec2Isabelle.thy ===== *)
theory Spec2Isabelle
  imports Segments Foe Eoe Init Startup Wire
begin

text \<open>
  \<^bold>\<open>The program.\<close> The repository controls eRob servo drives over EtherCAT. It contains the SOEM master (\<open>soem/\<close>), with its
  operating-system layer (\<open>osal/\<close>) and its network interface layer (\<open>oshw/\<close>), of which the Linux versions are modelled; the
  drive control of CiA 402 (\<open>cia402/\<close>); and the control programs (\<open>demo/\<close>).

  \<^bold>\<open>The theories\<close>, from the bottom to the top; a definition has the name of its C function, a record the name of its struct.
  \<^item> \<open>Prelude\<close>: memory as byte functions, words, executions as options, loops; \<open>EtherTypes\<close>: \<open>soem/ethercattype.h\<close>.
  \<^item> \<open>Osal\<close> (\<open>osal/linux/osal.c\<close>): sleeping, clocks, timers. The kernel, the wire and the slaves are the parameter \<open>os_ops\<close>,
    a record of system calls over an environment; \<open>good_os\<close> says what is relied on (the clock moves on, a received frame fits
    in a frame buffer: the code does not test its length field, and \<open>ecx_inframe_wild_length\<close> shows what a frame that does not fit does).
  \<^item> \<open>Nicdrv\<close> (\<open>oshw/linux/nicdrv.c\<close>): the pool of frame buffers, sending, reception for any index, redundancy.
    Its invariant \<open>net_ok\<close> is kept by everything above; \<open>exchange_ok\<close> adds that no buffer is leaked.
  \<^item> \<open>Base\<close> (\<open>soem/ethercatbase.c\<close>): frames of several datagrams, the blocking commands.
  \<^item> \<open>Context\<close> (\<open>soem/ethercatmain.h\<close>): the records of the master, and the calls through its port.
  \<^item> \<open>ErrorRing\<close>, \<open>Init\<close>, \<open>Eeprom\<close>, \<open>Alstate\<close>, \<open>Sii\<close>, \<open>Mailbox\<close>, \<open>ProcessData\<close> (all of \<open>soem/ethercatmain.c\<close>): the error list;
    starting and closing; the EEPROM of a slave; the states of the slaves; the categories of an EEPROM through the cache;
    the mailboxes; the cyclic exchange of the process image.
  \<^item> \<open>Wire\<close>: an environment that answers the frames the master sends, with a slave on it that has an EEPROM; reading the EEPROM is followed
    through all layers down to the bytes of the frames.
  \<^item> \<open>Dc\<close> (\<open>soem/ethercatdc.c\<close>): distributed clocks.
  \<^item> \<open>Coe\<close> and \<open>SdoServer\<close>, \<open>Soe\<close>, \<open>Foe\<close>, \<open>Eoe\<close>: the mailbox protocols, over a record of the mailbox operations of one slave; each
    with a reference slave for its round trip. \<open>Dictionary\<close> is a reference slave with an object dictionary, on which the master's own
    downloads and uploads run.
  \<^item> \<open>Config\<close>, \<open>IoMap\<close>, \<open>Fmmu\<close>, \<open>Segments\<close> (\<open>soem/ethercatconfig.c\<close>): finding the slaves, the topology, recovery; the mapping of
    the process data, what the FMMUs cover and what the segments hold.
  \<^item> \<open>Cia402\<close> (\<open>cia402/cia402.cpp\<close>): the state machine of a motor, in a closed loop with a reference drive.
  \<^item> \<open>Realtime\<close> (\<open>demo/eRob_CSV.cpp\<close>): what the control programs share: the clock controller \<open>ec_sync\<close>, also in its loop with a
    reference clock that drifts (\<open>sync_cycle\<close>), the pace of the cycles, the check
    of the states (\<open>check_round\<close> is an iteration of \<open>ecatcheck\<close>), and \<open>rt_cycle\<close>, an iteration of \<open>ecatthread\<close> around the \<open>work\<close> of a
    program. The locale \<open>rt_program\<close> says what a work owes the cycle, and proves once that any number of cycles return.
  \<^item> \<open>Bus\<close>: the reference bus. An event has a working counter, what the drives report, and which of them trip or are repaired;
    \<open>bus_cycle\<close> does the work of a program on such an event with a reference drive at every slave.
  \<^item> \<open>Velocity\<close> (\<open>demo/eRob_CSV.cpp\<close>), \<open>ProfileVelocity\<close> (\<open>demo/eRob_PV.cpp\<close>): the velocity programs, over all slaves.
  \<^item> \<open>Sequencers\<close> (\<open>demo/eRob_CSP.cpp\<close>, \<open>eRob_CSP_subscriber.cpp\<close>, \<open>eRob_TC.cpp\<close>, \<open>eRob_CST.cpp\<close>, \<open>eRob_PT.cpp\<close>): the programs that enable the drives by a
    count of cycles. The locale \<open>sequencer\<close> holds what they have in common, and is interpreted by each of them.
  \<^item> \<open>ProfilePosition\<close> (\<open>demo/eRob_PP_subscriber.cpp\<close>): the main loop of the profile position program, against a drive that takes set points.
  \<^item> \<open>Startup\<close> (\<open>erob_test\<close> in \<open>demo/eRob_CSV.cpp\<close>): from opening the interface to safe-operational, and the tables of mapped objects of
    all programs.

  \<^bold>\<open>Executions.\<close> \<open>None\<close> is an execution without a defined result: a loop that does not end, an access outside an array, a
  division by zero. Loops are \<open>partial_function (option)\<close>, without fuel; \<open>runs_to\<close> states that a result exists and what it is,
  \<open>if_runs\<close> is used only where the code may run forever. The loops that poll end since the clock moves on past their deadline.
  Pointers into a buffer of the caller are offsets, and the contents of uninitialised locals are arguments.

  \<^bold>\<open>The properties\<close> form five groups. Of the transport: frames are read back as they were built, a frame that arrives out of
  order is delivered, every exchange returns and leaks no buffer, starting establishes the invariant. Of the process data:
  FMMUs and segments cover the data exactly, what is sent partitions the image, receiving writes only where it should. Of the
  protocols: what is written is read back, for every length and mailbox size; reading stays within the buffer of the caller
  where the code tests for it. Of the network and the drives: the topology and the chain of clocks, recovery keeps the
  configuration, a drive is enabled step by step. Of the control programs: which drives they enable and when, under what
  events a drive may get a velocity, what becomes of commands and faults, that the cycles go on for ever and stay with the reference
  clock, that the mapping written to the slaves is the one the threads use.
  Where a property shows a defect it is stated as the behaviour of the code.

  \<^bold>\<open>Not modelled\<close>: the ports to other operating systems and network interfaces; the \<open>ec_\<close> functions, which only supply the
  global context to the \<open>ecx_\<close> functions; the texts of \<open>ethercatprint.c\<close>; memory allocation, threads and mutexes (a
  definition is one uninterrupted execution, so the races of the main thread of a program with its real-time thread are
  not seen); the hooks of the application, which are parameters where they are called; the tests. Of the control programs:
  the trajectory planners, which compute in floating point and are arguments of the definitions that call them; the
  socket and server threads, of which only the commands they hand over are modelled; steps 6 to 9 of the start, which create the
  threads, ask for operational and write parameters of the drives with modelled functions; the starts of the other
  programs, which differ in the mapped objects and in prints; the main functions, the published status and the prints.
\<close>

end
